(* ===== verification/Prelude.thy ===== *)
theory Prelude
  imports
    Main
    "HOL-Library.Word"
    "HOL-Library.Char_ord"
    "HOL-Library.List_Lexorder"
    "HOL-Library.Product_Lexorder"
    "HOL-Library.AList"
    "HOL-Library.Multiset"
begin

text \<open>
  The shared base of the development: the machine types of the Rust sources, results as sums,
  byte strings with the decimal rendering and parsing of the Rust standard library, and ordered
  association lists for the \<open>BTreeMap\<close>s. The collections \<open>result_simps\<close>, \<open>text_simps\<close> and
  \<open>btree_simps\<close> carry the component proofs.
\<close>

section \<open>Machine types\<close>

type_synonym u8 = "8 word"
type_synonym u16 = "16 word"
type_synonym u32 = "32 word"
type_synonym u64 = "64 word"

text \<open>A Rust \<open>String\<close> is a sequence of UTF-8 bytes; a \<open>char\<close> of HOL is one byte.\<close>

type_synonym bytes = "u8 list"

lemma unat_u8_less: "unat (w :: u8) < 256"
proof -
  have "unat w < 2 ^ LENGTH(8)" by (rule unsigned_less)
  then show ?thesis by simp
qed

lemma unat_u16_less: "unat (w :: u16) < 65536"
proof -
  have "unat w < 2 ^ LENGTH(16)" by (rule unsigned_less)
  then show ?thesis by simp
qed

lemma unat_u64_less: "unat (w :: u64) < 2 ^ 64"
proof -
  have "unat w < 2 ^ LENGTH(64)" by (rule unsigned_less)
  then show ?thesis by simp
qed

named_theorems result_simps
named_theorems text_simps
named_theorems btree_simps

text \<open>Fields ended by a separator that does not occur in them can be told apart.\<close>

lemma sep_inject [text_simps]:
  "x \<notin> set xs \<Longrightarrow> x \<notin> set xs' \<Longrightarrow> xs @ x # ys = xs' @ x # ys' \<longleftrightarrow> xs = xs' \<and> ys = ys'"
proof (induction xs arbitrary: xs')
  case Nil
  then show ?case by (cases xs') auto
next
  case (Cons a xs)
  then show ?case by (cases xs') auto
qed

section \<open>Results\<close>

text \<open>\<open>Result<'a, 'e>\<close> is \<open>'e + 'a\<close>; \<open>rbind\<close> is the \<open>?\<close> operator and \<open>rmap_err\<close> is \<open>map_err\<close>.\<close>

definition rbind :: "'e + 'a \<Rightarrow> ('a \<Rightarrow> 'e + 'b) \<Rightarrow> 'e + 'b" where
  "rbind m f = (case m of Inl e \<Rightarrow> Inl e | Inr x \<Rightarrow> f x)"

definition rmap_err :: "('e \<Rightarrow> 'f) \<Rightarrow> 'e + 'a \<Rightarrow> 'f + 'a" where
  "rmap_err g m = (case m of Inl e \<Rightarrow> Inl (g e) | Inr x \<Rightarrow> Inr x)"

definition ok_or :: "'e \<Rightarrow> 'a option \<Rightarrow> 'e + 'a" where
  "ok_or e m = (case m of None \<Rightarrow> Inl e | Some x \<Rightarrow> Inr x)"

lemma rbind_simps [simp, result_simps]:
  "rbind (Inl e) f = Inl e"
  "rbind (Inr x) f = f x"
  by (simp_all add: rbind_def)

lemma rmap_err_simps [simp, result_simps]:
  "rmap_err g (Inl e) = Inl (g e)"
  "rmap_err g (Inr x) = Inr x"
  by (simp_all add: rmap_err_def)

lemma ok_or_simps [simp, result_simps]:
  "ok_or e None = Inl e"
  "ok_or e (Some x) = Inr x"
  by (simp_all add: ok_or_def)

lemma if_Inl_Inr: "(if b then Inl e else x) = Inr y \<longleftrightarrow> \<not> b \<and> x = Inr y"
  by simp

lemma rbind_Inr_iff [result_simps]:
  "rbind m f = Inr y \<longleftrightarrow> (\<exists>x. m = Inr x \<and> f x = Inr y)"
  by (cases m) auto

lemma rbind_Inl_iff [result_simps]:
  "rbind m f = Inl e \<longleftrightarrow> m = Inl e \<or> (\<exists>x. m = Inr x \<and> f x = Inl e)"
  by (cases m) auto

lemma rmap_err_Inr_iff [result_simps]: "rmap_err g m = Inr y \<longleftrightarrow> m = Inr y"
  by (cases m) auto

lemma rmap_err_Inl_iff [result_simps]: "rmap_err g m = Inl e \<longleftrightarrow> (\<exists>e'. m = Inl e' \<and> e = g e')"
  by (cases m) auto

lemma ok_or_Inr_iff [result_simps]: "ok_or e m = Inr x \<longleftrightarrow> m = Some x"
  by (cases m) auto

lemma ok_or_Inl_iff [result_simps]: "ok_or e m = Inl e' \<longleftrightarrow> m = None \<and> e' = e"
  by (cases m) auto

section \<open>Codecs\<close>

text \<open>A rendering with a partial parser. The provider promises that parsing a rendered well-formed
  value gives it back and that the parser yields well-formed values only; re-rendering what was
  parsed is then a normal form.\<close>

locale codec =
  fixes render :: "'a \<Rightarrow> 'b"
    and parse :: "'b \<Rightarrow> 'e + 'a"
    and wf :: "'a \<Rightarrow> bool"
  assumes parse_render: "wf x \<Longrightarrow> parse (render x) = Inr x"
    and parse_wf: "parse s = Inr x \<Longrightarrow> wf x"
begin

lemma render_inject: "wf x \<Longrightarrow> wf y \<Longrightarrow> render x = render y \<Longrightarrow> x = y"
  by (metis parse_render sum.inject(2))

lemma reparse: "parse s = Inr x \<Longrightarrow> parse (render x) = Inr x"
  by (rule parse_render) (rule parse_wf)

end

section \<open>Lossless conversions\<close>

text \<open>Two data types that carry the same fields: a conversion each way, mutually inverse. The
  client facts lift the law to the lists and options of the enclosing messages.\<close>

locale lossless =
  fixes decode :: "'p \<Rightarrow> 'm"
    and encode :: "'m \<Rightarrow> 'p"
  assumes encode_decode: "encode (decode p) = p"
    and decode_encode: "decode (encode m) = m"
begin

lemma comp_id: "encode \<circ> decode = id" "decode \<circ> encode = id"
  by (simp_all add: fun_eq_iff encode_decode decode_encode)

lemma lift_option:
  "map_option encode (map_option decode p) = p" "map_option decode (map_option encode m) = m"
  by (simp_all add: option.map_comp encode_decode decode_encode comp_def option.map_ident)

lemma decode_inject: "decode p = decode q \<longleftrightarrow> p = q"
  by (metis encode_decode)

end

section \<open>Ordered association lists\<close>

text \<open>A \<open>BTreeMap\<close> as the list of its entries in key order; \<open>bt_insert\<close> replaces the entry of an
  equal key, as \<open>BTreeMap::insert\<close> does.\<close>

fun bt_insert :: "'k::linorder \<Rightarrow> 'v \<Rightarrow> ('k \<times> 'v) list \<Rightarrow> ('k \<times> 'v) list" where
  "bt_insert k v [] = [(k, v)]"
| "bt_insert k v ((k', v') # m) =
     (if k < k' then (k, v) # (k', v') # m
      else if k = k' then (k, v) # m
      else (k', v') # bt_insert k v m)"

definition bt_wf :: "('k::linorder \<times> 'v) list \<Rightarrow> bool" where
  "bt_wf m \<longleftrightarrow> sorted_wrt (<) (map fst m)"

lemma map_of_bt_insert [simp, btree_simps]: "map_of (bt_insert k v m) = (map_of m)(k \<mapsto> v)"
  by (induction m) (auto simp: fun_eq_iff)

lemma set_fst_bt_insert [simp, btree_simps]:
  "fst ` set (bt_insert k v m) = insert k (fst ` set m)"
  by (induction k v m rule: bt_insert.induct) (simp_all add: insert_commute)

lemma bt_wf_Nil [simp, btree_simps]: "bt_wf []"
  by (simp add: bt_wf_def)

lemma bt_wf_insert [simp, btree_simps]: "bt_wf m \<Longrightarrow> bt_wf (bt_insert k v m)"
proof (induction m)
  case Nil
  then show ?case by (simp add: bt_wf_def)
next
  case (Cons e m)
  obtain k' v' where e: "e = (k', v')" by (cases e)
  from Cons.prems e have below: "\<forall>x \<in> fst ` set m. k' < x" and wf: "bt_wf m"
    by (auto simp: bt_wf_def)
  from Cons.IH [OF wf] have "bt_wf (bt_insert k v m)" .
  with below wf e show ?case
    using set_fst_bt_insert [of k v m] by (auto simp: bt_wf_def)
qed

lemma bt_wf_distinct [btree_simps]: "bt_wf m \<Longrightarrow> distinct (map fst m)"
  by (auto simp: bt_wf_def strict_sorted_iff)

lemma bt_wf_entry: "bt_wf m \<Longrightarrow> (k, v) \<in> set m \<longleftrightarrow> map_of m k = Some v"
  by (simp add: bt_wf_distinct)

lemma set_bt_insert [btree_simps]:
  "k \<notin> fst ` set m \<Longrightarrow> set (bt_insert k v m) = insert (k, v) (set m)"
  by (induction k v m rule: bt_insert.induct) auto

end
