(* ===== verification/Rust_Text.thy ===== *)
theory Rust_Text
  imports Prelude
begin

text \<open>
  The operations of Rust's \<open>str\<close> and of \<open>format!\<close> that the agent uses: decimal rendering and
  parsing of unsigned integers, \<open>split\<close> on a byte, \<open>join\<close>, \<open>trim\<close> with the Unicode
  \<open>White_Space\<close> characters in their UTF-8 form, and the \<open>{:?}\<close> rendering of strings. The lemmas
  are the round trips that the parsers of the agent rest on.
\<close>

section \<open>Decimal numbers\<close>

definition byte_of :: "char \<Rightarrow> nat" where
  "byte_of c = of_char c"

definition is_ascii_digit :: "char \<Rightarrow> bool" where
  "is_ascii_digit c \<longleftrightarrow> 48 \<le> byte_of c \<and> byte_of c \<le> 57"

definition digit_char :: "nat \<Rightarrow> char" where
  "digit_char d = char_of (48 + d)"

fun show_nat :: "nat \<Rightarrow> string" where
  "show_nat n = (if n < 10 then [digit_char n] else show_nat (n div 10) @ [digit_char (n mod 10)])"

declare show_nat.simps [simp del]

definition show_int :: "int \<Rightarrow> string" where
  "show_int i = (if i < 0 then ''-'' @ show_nat (nat (- i)) else show_nat (nat i))"

definition show_u64 :: "u64 \<Rightarrow> string" where
  "show_u64 w = show_nat (unat w)"

definition show_bool :: "bool \<Rightarrow> string" where
  "show_bool b = (if b then ''true'' else ''false'')"

definition nat_of_digits :: "string \<Rightarrow> nat" where
  "nat_of_digits s = foldl (\<lambda>acc c. acc * 10 + (byte_of c - 48)) 0 s"

text \<open>\<open>str::parse::<u16>\<close> on a non-empty string of decimal digits: the value, or an error when it does
  not fit.\<close>

definition parse_u16 :: "string \<Rightarrow> u16 option" where
  "parse_u16 s = (let n = nat_of_digits s in if n < 65536 then Some (of_nat n) else None)"

lemma byte_of_digit_char [simp]: "d < 10 \<Longrightarrow> byte_of (digit_char d) = 48 + d"
  by (simp add: byte_of_def digit_char_def)

lemma is_ascii_digit_digit_char [simp]: "d < 10 \<Longrightarrow> is_ascii_digit (digit_char d)"
  by (simp add: is_ascii_digit_def)

lemma show_nat_digits [text_simps]: "list_all is_ascii_digit (show_nat n)"
proof (induction n rule: show_nat.induct)
  case (1 n)
  then show ?case by (subst show_nat.simps) auto
qed

lemma show_nat_nonempty [simp, text_simps]: "show_nat n \<noteq> []"
  by (subst show_nat.simps) simp

lemma nat_of_digits_snoc [simp]: "nat_of_digits (s @ [c]) = nat_of_digits s * 10 + (byte_of c - 48)"
  by (simp add: nat_of_digits_def)

lemma nat_of_digits_show_nat [simp, text_simps]: "nat_of_digits (show_nat n) = n"
proof (induction n rule: show_nat.induct)
  case (1 n)
  show ?case
  proof (cases "n < 10")
    case True
    then show ?thesis
      by (subst show_nat.simps) (simp add: nat_of_digits_def)
  next
    case False
    with 1 have "nat_of_digits (show_nat (n div 10)) = n div 10" by simp
    with False show ?thesis by (subst show_nat.simps) simp
  qed
qed

lemma show_nat_inject [simp]: "show_nat m = show_nat n \<longleftrightarrow> m = n"
  by (metis nat_of_digits_show_nat)

lemma show_u64_inject [simp]: "show_u64 v = show_u64 w \<longleftrightarrow> v = w"
  by (simp add: show_u64_def word_unat_eq_iff)

lemma parse_u16_show_nat [text_simps]: "parse_u16 (show_nat (unat p)) = Some p"
  using unat_u16_less [of p] by (simp add: parse_u16_def)

section \<open>Splitting and joining\<close>

fun split_on :: "char \<Rightarrow> string \<Rightarrow> string list" where
  "split_on c [] = [[]]"
| "split_on c (x # xs) =
     (if x = c then [] # split_on c xs
      else (case split_on c xs of [] \<Rightarrow> [[x]] | y # ys \<Rightarrow> (x # y) # ys))"

fun join :: "string \<Rightarrow> string list \<Rightarrow> string" where
  "join sep [] = []"
| "join sep [x] = x"
| "join sep (x # y # zs) = x @ sep @ join sep (y # zs)"

lemma split_on_nonempty [simp]: "split_on c s \<noteq> []"
  by (induction s) (auto split: list.splits)

lemma split_on_free: "c \<notin> set s \<Longrightarrow> split_on c s = [s]"
  by (induction s) auto

lemma split_on_append: "c \<notin> set s \<Longrightarrow> split_on c (s @ c # t) = s # split_on c t"
  by (induction s) auto

lemma split_on_join [text_simps]:
  "xs \<noteq> [] \<Longrightarrow> \<forall>x \<in> set xs. c \<notin> set x \<Longrightarrow> split_on c (join [c] xs) = xs"
proof (induction xs rule: induct_list012)
  case (3 x y zs)
  then show ?case by (simp add: split_on_append)
qed (simp_all add: split_on_free)

lemma join_eq_Nil: "join sep xs = [] \<Longrightarrow> \<forall>x \<in> set xs. x \<noteq> [] \<Longrightarrow> xs = []"
  by (cases xs rule: remdups_adj.cases) auto

section \<open>Trimming\<close>

text \<open>The UTF-8 encodings of the characters with the Unicode property \<open>White_Space\<close>.\<close>

definition ws_unit :: "nat list \<Rightarrow> bool" where
  "ws_unit u \<longleftrightarrow>
     (case u of
        [a] \<Rightarrow> 9 \<le> a \<and> a \<le> 13 \<or> a = 32
      | [a, b] \<Rightarrow> a = 0xC2 \<and> (b = 0x85 \<or> b = 0xA0)
      | [a, b, c] \<Rightarrow>
          a = 0xE1 \<and> b = 0x9A \<and> c = 0x80 \<or>
          a = 0xE2 \<and> b = 0x80 \<and> (0x80 \<le> c \<and> c \<le> 0x8A \<or> c = 0xA8 \<or> c = 0xA9 \<or> c = 0xAF) \<or>
          a = 0xE2 \<and> b = 0x81 \<and> c = 0x9F \<or>
          a = 0xE3 \<and> b = 0x80 \<and> c = 0x80
      | _ \<Rightarrow> False)"

definition ws_len :: "(nat list \<Rightarrow> bool) \<Rightarrow> string \<Rightarrow> nat" where
  "ws_len p s =
     (let b = map byte_of s in
      if p (take 1 b) then 1 else if p (take 2 b) then 2 else if p (take 3 b) then 3 else 0)"

function strip_front :: "(nat list \<Rightarrow> bool) \<Rightarrow> string \<Rightarrow> string" where
  "strip_front p s =
     (if s = [] \<or> ws_len p s = 0 then s else strip_front p (drop (ws_len p s) s))"
  by pat_completeness auto
termination
  by (relation "measure (\<lambda>(p, s). length s)") auto

declare strip_front.simps [simp del]

definition trim :: "string \<Rightarrow> string" where
  "trim s = rev (strip_front (\<lambda>u. ws_unit (rev u)) (rev (strip_front ws_unit s)))"

definition ascii_graphic :: "char \<Rightarrow> bool" where
  "ascii_graphic c \<longleftrightarrow> 33 \<le> byte_of c \<and> byte_of c \<le> 126"

lemma ws_unit_graphic_front:
  "ascii_graphic c \<Longrightarrow> \<not> ws_unit (byte_of c # u)"
  by (auto simp: ws_unit_def ascii_graphic_def split: list.splits)

lemma ws_unit_graphic_back:
  "ascii_graphic c \<Longrightarrow> \<not> ws_unit (rev (byte_of c # u))"
  by (auto simp: ws_unit_def ascii_graphic_def split: list.splits)

lemma ws_unit_Nil [simp]: "\<not> ws_unit []"
  by (simp add: ws_unit_def)

lemma strip_front_id:
  assumes "s = [] \<or> (\<forall>u. \<not> p (byte_of (hd s) # u))" and "\<not> p []"
  shows "strip_front p s = s"
proof (cases s)
  case (Cons c cs)
  with assms have "ws_len p s = 0"
    by (simp add: ws_len_def numeral_2_eq_2 numeral_3_eq_3)
  then show ?thesis by (subst strip_front.simps) simp
qed (simp add: strip_front.simps)

lemma trim_id [text_simps]:
  assumes "s = [] \<or> ascii_graphic (hd s) \<and> ascii_graphic (last s)"
  shows "trim s = s"
proof -
  have "strip_front ws_unit s = s"
    using assms by (intro strip_front_id) (auto simp: ws_unit_graphic_front)
  moreover have "strip_front (\<lambda>u. ws_unit (rev u)) (rev s) = rev s"
    using assms by (intro strip_front_id) (auto simp: ws_unit_graphic_back [simplified] hd_rev)
  ultimately show ?thesis by (simp add: trim_def)
qed

lemma trim_Nil [simp]: "trim [] = []"
  by (rule trim_id) simp

lemma digit_graphic [simp]: "is_ascii_digit c \<Longrightarrow> ascii_graphic c"
  by (simp add: is_ascii_digit_def ascii_graphic_def)

section \<open>Debug rendering of strings\<close>

definition hex_digit :: "nat \<Rightarrow> char" where
  "hex_digit d = (if d < 10 then char_of (48 + d) else char_of (87 + d))"

definition esc_debug :: "char \<Rightarrow> string" where
  "esc_debug c =
     (let b = byte_of c in
      if b = 34 then [CHR 0x5C, CHR 0x22]
      else if b = 92 then [CHR 0x5C, CHR 0x5C]
      else if b = 10 then [CHR 0x5C, CHR ''n'']
      else if b = 13 then [CHR 0x5C, CHR ''r'']
      else if b = 9 then [CHR 0x5C, CHR ''t'']
      else if b = 0 then [CHR 0x5C, CHR ''0'']
      else if b < 16 then [CHR 0x5C, CHR ''u'', CHR ''{'', hex_digit b, CHR ''}'']
      else if b < 32 \<or> b = 127 then
        [CHR 0x5C, CHR ''u'', CHR ''{'', hex_digit (b div 16), hex_digit (b mod 16), CHR ''}'']
      else [c])"

text \<open>\<open>format!("{s:?}")\<close>. Non-ASCII characters are kept as they are, as Rust does for printable
  ones.\<close>

definition debug_str :: "string \<Rightarrow> string" where
  "debug_str s = CHR 0x22 # concat (map esc_debug s) @ [CHR 0x22]"

end
