(* ===== verification/Port_Ranges.thy ===== *)
theory Port_Ranges
  imports Rust_Text
begin

text \<open>
  \<open>porthopping/port_ranges.rs\<close>: the panel's comma-separated syntax of inclusive UDP port ranges.
  The parser, the merge loop and the renderer are the definitions; \<open>range_ports\<close> and \<open>ports\<close> are the
  sets of port numbers they denote, and \<open>normal\<close> is the form the merge loop promises: valid ranges
  in ascending order with a gap between neighbours.
\<close>

section \<open>Ranges\<close>

datatype port_range = PortRange (pr_start: u16) (pr_end: u16)

text \<open>The derived \<open>Ord\<close>: the start first, then the end.\<close>

instantiation port_range :: linorder
begin

definition less_eq_port_range :: "port_range \<Rightarrow> port_range \<Rightarrow> bool" where
  "less_eq_port_range a b \<longleftrightarrow> pr_start a < pr_start b \<or> pr_start a = pr_start b \<and> pr_end a \<le> pr_end b"

definition less_port_range :: "port_range \<Rightarrow> port_range \<Rightarrow> bool" where
  "less_port_range a b \<longleftrightarrow> pr_start a < pr_start b \<or> pr_start a = pr_start b \<and> pr_end a < pr_end b"

instance
  by standard (auto simp: less_eq_port_range_def less_port_range_def port_range.expand)

end

definition contains :: "port_range \<Rightarrow> u16 \<Rightarrow> bool" where
  "contains r port \<longleftrightarrow> pr_start r \<le> port \<and> port \<le> pr_end r"

definition show_range :: "port_range \<Rightarrow> string" where
  "show_range r =
     (if pr_start r = pr_end r then show_nat (unat (pr_start r))
      else show_nat (unat (pr_start r)) @ ''-'' @ show_nat (unat (pr_end r)))"

section \<open>Parsing\<close>

definition parse_port :: "string \<Rightarrow> string + u16" where
  "parse_port s =
     (if s = [] then Inl ''port is required''
      else if \<not> list_all is_ascii_digit s then Inl ''port must contain decimal digits only''
      else (case parse_u16 s of
              Some p \<Rightarrow> if p \<noteq> 0 then Inr p else Inl ''port must be between 1 and 65535''
            | None \<Rightarrow> Inl ''port must be between 1 and 65535''))"

text \<open>The body of the loop over the comma-separated items.\<close>

definition parse_item :: "string \<Rightarrow> string + port_range" where
  "parse_item raw_item =
     (let item = trim raw_item in
      if item = [] then Inl ''port range contains an empty item''
      else
        let bounds = split_on CHR ''-'' item;
            invalid = (\<lambda>error. ''invalid port range '' @ debug_str item @ '': '' @ error)
        in
        if length bounds > 2 then Inl (''invalid port range '' @ debug_str item)
        else
          rbind (rmap_err invalid (parse_port (trim (bounds ! 0)))) (\<lambda>start.
          rbind (if length bounds = 2 then rmap_err invalid (parse_port (trim (bounds ! 1)))
                 else Inr start) (\<lambda>stop.
          if stop < start then Inl (invalid ''end must not be less than start'')
          else Inr (PortRange start stop))))"

fun parse_items :: "string list \<Rightarrow> port_range list \<Rightarrow> string + port_range list" where
  "parse_items [] ranges = Inr ranges"
| "parse_items (raw_item # rest) ranges =
     rbind (parse_item raw_item) (\<lambda>range. parse_items rest (ranges @ [range]))"

text \<open>The body of the merge loop: the next range is absorbed by the last merged one when it starts at
  most one past its end.\<close>

definition merge_step :: "port_range list \<Rightarrow> port_range \<Rightarrow> port_range list" where
  "merge_step merged current =
     (if merged \<noteq> [] \<and> unat (pr_start current) \<le> unat (pr_end (last merged)) + 1
      then butlast merged @
           [PortRange (pr_start (last merged)) (max (pr_end (last merged)) (pr_end current))]
      else merged @ [current])"

definition merge_port_ranges :: "port_range list \<Rightarrow> port_range list" where
  "merge_port_ranges ranges = foldl merge_step [] (sort ranges)"

definition parse_port_ranges :: "string \<Rightarrow> string + port_range list" where
  "parse_port_ranges expression =
     (if trim expression = [] then Inr []
      else rbind (parse_items (split_on CHR '','' expression) []) (\<lambda>ranges.
             Inr (merge_port_ranges ranges)))"

definition show_ranges :: "port_range list \<Rightarrow> string" where
  "show_ranges ranges = join '','' (map show_range ranges)"

definition normalize_port_ranges :: "string \<Rightarrow> string + string" where
  "normalize_port_ranges expression =
     rbind (parse_port_ranges expression) (\<lambda>ranges. Inr (show_ranges ranges))"

section \<open>The ports a list of ranges denotes\<close>

definition range_ports :: "port_range \<Rightarrow> nat set" where
  "range_ports r = {unat (pr_start r) .. unat (pr_end r)}"

definition ports :: "port_range list \<Rightarrow> nat set" where
  "ports rs = (\<Union>r \<in> set rs. range_ports r)"

definition valid_range :: "port_range \<Rightarrow> bool" where
  "valid_range r \<longleftrightarrow> pr_start r \<noteq> 0 \<and> pr_start r \<le> pr_end r"

definition gap :: "port_range \<Rightarrow> port_range \<Rightarrow> bool" where
  "gap a b \<longleftrightarrow> unat (pr_end a) + 1 < unat (pr_start b)"

definition normal :: "port_range list \<Rightarrow> bool" where
  "normal rs \<longleftrightarrow> list_all valid_range rs \<and> sorted_wrt gap rs"

lemma contains_iff: "contains r p \<longleftrightarrow> unat p \<in> range_ports r"
  by (auto simp: contains_def range_ports_def word_le_nat_alt)

lemma ports_simps [simp]:
  "ports [] = {}"
  "ports (r # rs) = range_ports r \<union> ports rs"
  "ports (rs @ ss) = ports rs \<union> ports ss"
  by (auto simp: ports_def)

lemma ports_cong: "set rs = set ss \<Longrightarrow> ports rs = ports ss"
  by (simp add: ports_def)

lemma valid_range_unat:
  "valid_range r \<longleftrightarrow> 0 < unat (pr_start r) \<and> unat (pr_start r) \<le> unat (pr_end r)"
  by (auto simp: valid_range_def word_le_nat_alt unat_gt_0)

lemma unat_max [simp]: "unat (max a b) = max (unat a) (unat b)"
  by (simp add: max_def word_le_nat_alt)

section \<open>The merge loop\<close>

lemma merge_step_ports:
  assumes "list_all valid_range merged" and "valid_range current"
    and "merged \<noteq> [] \<Longrightarrow> pr_start (last merged) \<le> pr_start current"
  shows "ports (merge_step merged current) = ports merged \<union> range_ports current"
proof (cases merged rule: rev_cases)
  case (snoc init l)
  with assms show ?thesis
    by (auto simp: merge_step_def range_ports_def valid_range_unat word_le_nat_alt)
qed (simp add: merge_step_def)

lemma merge_step_normal:
  assumes "normal merged" and "valid_range current"
    and "merged \<noteq> [] \<Longrightarrow> pr_start (last merged) \<le> pr_start current"
  shows "normal (merge_step merged current)"
proof (cases merged rule: rev_cases)
  case (snoc init l)
  with assms show ?thesis
    by (fastforce simp: merge_step_def normal_def valid_range_unat gap_def word_le_nat_alt
        sorted_wrt_append)
qed (use assms in \<open>simp add: merge_step_def normal_def\<close>)

lemma merge_step_last:
  "pr_start (last (merge_step merged current)) =
     (if merged \<noteq> [] \<and> unat (pr_start current) \<le> unat (pr_end (last merged)) + 1
      then pr_start (last merged) else pr_start current)"
  and merge_step_nonempty: "merge_step merged current \<noteq> []"
  by (simp_all add: merge_step_def)

lemma merge_loop:
  assumes "normal merged" and "list_all valid_range rest" and "sorted (map pr_start rest)"
    and "merged \<noteq> [] \<Longrightarrow> \<forall>r \<in> set rest. pr_start (last merged) \<le> pr_start r"
  shows "normal (foldl merge_step merged rest) \<and>
         ports (foldl merge_step merged rest) = ports merged \<union> ports rest"
  using assms
proof (induction rest arbitrary: merged)
  case (Cons r rest)
  then have below: "merged \<noteq> [] \<Longrightarrow> pr_start (last merged) \<le> pr_start r"
    and valid: "list_all valid_range merged" "valid_range r"
    by (simp_all add: normal_def)
  note step = merge_step_normal [OF Cons.prems(1) valid(2) below]
    merge_step_ports [OF valid below]
  have "\<forall>q \<in> set rest. pr_start (last (merge_step merged r)) \<le> pr_start q"
    using Cons.prems by (auto simp: merge_step_last)
  with Cons.IH [of "merge_step merged r"] step Cons.prems show ?case by auto
qed simp

lemma sorted_pr_start: "sorted rs \<Longrightarrow> sorted (map pr_start rs)"
  unfolding sorted_map
  by (erule sorted_wrt_mono_rel [rotated]) (auto simp: less_eq_port_range_def)

lemma merge_port_ranges_spec:
  assumes "list_all valid_range rs"
  shows "normal (merge_port_ranges rs)" and "ports (merge_port_ranges rs) = ports rs"
proof -
  have "normal (foldl merge_step [] (sort rs)) \<and>
        ports (foldl merge_step [] (sort rs)) = ports [] \<union> ports (sort rs)"
    using assms by (intro merge_loop) (auto simp: normal_def list_all_iff sorted_pr_start)
  then show "normal (merge_port_ranges rs)" and "ports (merge_port_ranges rs) = ports rs"
    by (simp_all add: merge_port_ranges_def ports_cong [of "sort rs" rs])
qed

text \<open>A normal list is a fixed point of the loop.\<close>

lemma normal_sorted: "normal rs \<Longrightarrow> sorted rs"
  unfolding normal_def
  by (auto simp: list_all_iff intro!: sorted_wrt_mono_rel [of rs gap "(\<le>)"]
      simp: gap_def valid_range_unat less_eq_port_range_def word_less_nat_alt)

lemma foldl_merge_normal: "normal (ms @ rs) \<Longrightarrow> foldl merge_step ms rs = ms @ rs"
proof (induction rs arbitrary: ms)
  case (Cons r rs)
  then have "merge_step ms r = ms @ [r]"
    by (cases ms rule: rev_cases)
       (auto simp: merge_step_def normal_def gap_def sorted_wrt_append)
  with Cons show ?case by simp
qed simp

lemma merge_normal: "normal rs \<Longrightarrow> merge_port_ranges rs = rs"
  using foldl_merge_normal [of "[]" rs] normal_sorted [of rs]
  by (simp add: merge_port_ranges_def sorted_sort_id)

section \<open>Parsing yields valid ranges\<close>

lemma parse_port_Inr: "parse_port s = Inr p \<Longrightarrow> p \<noteq> 0 \<and> parse_u16 s = Some p"
  by (auto simp: parse_port_def split: if_splits option.splits)

lemma parse_item_valid: "parse_item raw = Inr r \<Longrightarrow> valid_range r"
  by (auto simp: parse_item_def Let_def valid_range_def result_simps not_less
      dest!: parse_port_Inr split: if_splits)

lemma parse_items_Inr:
  "parse_items raws acc = Inr rs \<Longrightarrow>
   \<exists>items. rs = acc @ items \<and> list_all2 (\<lambda>raw r. parse_item raw = Inr r) raws items"
proof (induction raws arbitrary: acc)
  case (Cons raw raws)
  then obtain r where r: "parse_item raw = Inr r" and rest: "parse_items raws (acc @ [r]) = Inr rs"
    by (auto simp: result_simps)
  from Cons.IH [OF rest] obtain items where
    "rs = (acc @ [r]) @ items" "list_all2 (\<lambda>raw r. parse_item raw = Inr r) raws items"
    by blast
  with r show ?case by (intro exI [of _ "r # items"]) simp
qed simp

lemma parse_items_valid: "parse_items raws [] = Inr rs \<Longrightarrow> list_all valid_range rs"
  by (auto dest!: parse_items_Inr)
     (erule list_all2_induct; auto intro: parse_item_valid)

lemma parse_port_ranges_normal: "parse_port_ranges e = Inr rs \<Longrightarrow> normal rs"
  by (auto simp: parse_port_ranges_def result_simps normal_def [of "[]"] split: if_splits
      intro: merge_port_ranges_spec parse_items_valid)

section \<open>Rendering and parsing back\<close>

lemma digits_facts:
  assumes "list_all is_ascii_digit s"
  shows "CHR ''-'' \<notin> set s" and "CHR '','' \<notin> set s"
  using assms by (auto simp: list_all_iff is_ascii_digit_def byte_of_def)

lemma show_nat_chars [simp]:
  "CHR ''-'' \<notin> set (show_nat n)" "CHR '','' \<notin> set (show_nat n)"
  using digits_facts [OF show_nat_digits] by auto

lemma show_nat_ends [simp]:
  "ascii_graphic (hd (show_nat n))" "ascii_graphic (last (show_nat n))"
  using show_nat_digits [of n] hd_in_set [of "show_nat n"] last_in_set [of "show_nat n"]
  by (auto simp: list_all_iff intro: digit_graphic)

lemma trim_show_nat [simp]: "trim (show_nat n) = show_nat n"
  by (rule trim_id) simp

lemma show_range_facts [simp]:
  "show_range r \<noteq> []" "CHR '','' \<notin> set (show_range r)"
  "ascii_graphic (hd (show_range r))" "ascii_graphic (last (show_range r))"
  by (auto simp: show_range_def)

lemma trim_show_range [simp]: "trim (show_range r) = show_range r"
  by (rule trim_id) simp

lemma parse_port_show [simp]: "p \<noteq> 0 \<Longrightarrow> parse_port (show_nat (unat p)) = Inr p"
  by (simp add: parse_port_def show_nat_digits parse_u16_show_nat)

lemma split_dash_show [simp]:
  "split_on CHR ''-'' (show_nat m) = [show_nat m]"
  "split_on CHR ''-'' (show_nat m @ CHR ''-'' # show_nat n) = [show_nat m, show_nat n]"
  by (simp_all add: split_on_free split_on_append)

lemma parse_item_show: "valid_range r \<Longrightarrow> parse_item (show_range r) = Inr r"
proof -
  assume valid: "valid_range r"
  then have ne: "pr_start r \<noteq> 0" "pr_end r \<noteq> 0" "\<not> pr_end r < pr_start r"
    by (auto simp: valid_range_unat word_less_nat_alt unat_eq_0)
  show ?thesis
  proof (cases "pr_start r = pr_end r")
    case True
    with ne have "show_range r = show_nat (unat (pr_start r))" by (simp add: show_range_def)
    with True ne show ?thesis
      by (simp add: parse_item_def) (metis port_range.collapse)
  next
    case False
    then have "show_range r = show_nat (unat (pr_start r)) @ CHR ''-'' # show_nat (unat (pr_end r))"
      by (simp add: show_range_def)
    with ne show ?thesis
      using trim_show_range [of r] by (simp add: parse_item_def)
  qed
qed

lemma parse_items_show:
  "list_all valid_range rs \<Longrightarrow> parse_items (map show_range rs) acc = Inr (acc @ rs)"
  by (induction rs arbitrary: acc) (simp_all add: parse_item_show)

lemma join_nonempty: "xs \<noteq> [] \<Longrightarrow> \<forall>x \<in> set xs. x \<noteq> [] \<Longrightarrow> join sep xs \<noteq> []"
  using join_eq_Nil by blast

lemma join_ends:
  "xs \<noteq> [] \<Longrightarrow> \<forall>x \<in> set xs. x \<noteq> [] \<Longrightarrow> hd (join sep xs) = hd (hd xs) \<and> last (join sep xs) = last (last xs)"
  by (induction xs rule: induct_list012) (auto simp: join_nonempty)

lemma trim_show_ranges: "rs \<noteq> [] \<Longrightarrow> trim (show_ranges rs) = show_ranges rs \<and> show_ranges rs \<noteq> []"
  using join_ends [of "map show_range rs" "'',''"] join_nonempty [of "map show_range rs" "'',''"]
  by (auto simp: show_ranges_def hd_map last_map intro!: trim_id)

lemma parse_show_ranges: "normal rs \<Longrightarrow> parse_port_ranges (show_ranges rs) = Inr rs"
proof (cases "rs = []")
  case False
  assume "normal rs"
  then have "parse_items (split_on CHR '','' (show_ranges rs)) [] = Inr rs"
    using False by (simp add: show_ranges_def split_on_join parse_items_show normal_def)
  with False \<open>normal rs\<close> show ?thesis
    by (simp add: parse_port_ranges_def trim_show_ranges merge_normal)
qed (simp add: show_ranges_def parse_port_ranges_def)

interpretation port_codec: codec show_ranges parse_port_ranges normal
  by unfold_locales (auto intro: parse_show_ranges parse_port_ranges_normal)

section \<open>The normal form is canonical\<close>

lemma ports_Cons_normal:
  assumes "normal (r # rs)"
  shows "valid_range r" and "normal rs" and "\<forall>p \<in> ports rs. unat (pr_end r) + 1 < p"
proof -
  from assms show "valid_range r" and "normal rs" by (auto simp: normal_def)
  from assms show "\<forall>p \<in> ports rs. unat (pr_end r) + 1 < p"
    by (fastforce simp: normal_def gap_def ports_def range_ports_def)
qed

lemma intervals_determined:
  fixes a b c d :: nat
  assumes "a \<le> b" "c \<le> d" and X: "\<forall>p \<in> X. b + 1 < p" and Y: "\<forall>p \<in> Y. d + 1 < p"
    and eq: "{a..b} \<union> X = {c..d} \<union> Y"
  shows "a = c" and "b = d" and "X = Y"
proof -
  have mem: "a \<le> p \<and> p \<le> b \<or> p \<in> X \<longleftrightarrow> c \<le> p \<and> p \<le> d \<or> p \<in> Y" for p
    using eq by (auto simp: set_eq_iff)
  have X': "\<And>p. p \<in> X \<Longrightarrow> b + 1 < p" and Y': "\<And>p. p \<in> Y \<Longrightarrow> d + 1 < p"
    using X Y by auto
  show ac: "a = c"
    using mem [of a] mem [of c] X' [of c] Y' [of a] assms(1,2) by auto
  show bd: "b = d"
    using mem [of "Suc b"] mem [of "Suc d"] X' [of "Suc b"] Y' [of "Suc d"] X' [of "Suc d"]
      Y' [of "Suc b"] assms(1,2) ac by auto
  show "X = Y"
  proof (rule set_eqI)
    fix p show "p \<in> X \<longleftrightarrow> p \<in> Y"
      using mem [of p] X' [of p] Y' [of p] ac bd by auto
  qed
qed

lemma normal_canonical:
  "normal rs \<Longrightarrow> normal qs \<Longrightarrow> ports rs = ports qs \<Longrightarrow> rs = qs"
proof (induction rs arbitrary: qs)
  case Nil
  then show ?case by (cases qs) (auto simp: normal_def valid_range_unat range_ports_def)
next
  case (Cons r rs)
  then obtain q qs' where qs: "qs = q # qs'"
    by (cases qs) (auto simp: normal_def valid_range_unat range_ports_def)
  note R = ports_Cons_normal [OF Cons.prems(1)]
  note Q = ports_Cons_normal [OF Cons.prems(2) [unfolded qs]]
  have "unat (pr_start r) \<le> unat (pr_end r)" "unat (pr_start q) \<le> unat (pr_end q)"
      "{unat (pr_start r)..unat (pr_end r)} \<union> ports rs =
       {unat (pr_start q)..unat (pr_end q)} \<union> ports qs'"
    using R(1) Q(1) Cons.prems(3) qs by (simp_all add: valid_range_unat range_ports_def)
  from intervals_determined [OF this(1,2) R(3) Q(3) this(3)] Cons.IH R(2) Q(2) qs show ?case
    by (auto simp: port_range.expand word_unat_eq_iff)
qed

section \<open>Properties of the range syntax\<close>

lemma parse_port_ranges_items:
  assumes "parse_port_ranges expression = Inr rs" and "trim expression \<noteq> []"
  obtains items where
    "list_all2 (\<lambda>raw r. parse_item raw = Inr r) (split_on CHR '','' expression) items"
    "list_all valid_range items" "rs = merge_port_ranges items"
proof -
  from assms obtain items where items: "parse_items (split_on CHR '','' expression) [] = Inr items"
    and rs: "rs = merge_port_ranges items"
    by (auto simp: parse_port_ranges_def rbind_Inr_iff)
  from parse_items_Inr [OF items] parse_items_valid [OF items] rs that show ?thesis by auto
qed

lemmas range_eval = parse_port_ranges_def trim_id ascii_graphic_def byte_of_def parse_item_def
  parse_port_def parse_u16_def is_ascii_digit_def nat_of_digits_def merge_port_ranges_def
  merge_step_def less_eq_port_range_def

text \<open>An accepted non-blank expression denotes exactly the ports of its
  comma-separated items, in the normal form: valid ranges in ascending order with at least one port
  between neighbours.\<close>

lemma parse_port_ranges_correct:
  assumes "parse_port_ranges expression = Inr rs" and "trim expression \<noteq> []"
  shows "normal rs \<and>
    (\<exists>items. list_all2 (\<lambda>raw r. parse_item raw = Inr r) (split_on CHR '','' expression) items \<and>
       ports rs = ports items)"
  using assms
  by (metis parse_port_ranges_items parse_port_ranges_normal merge_port_ranges_spec(2))

text \<open>The ports an expression denotes, read off its text: each comma-separated item is one decimal
  number or two joined by a dash, and stands for the numbers from its first to its last.\<close>

definition item_ports :: "string \<Rightarrow> nat set" where
  "item_ports raw =
     (let bounds = split_on CHR ''-'' (trim raw) in
      {nat_of_digits (trim (hd bounds)) .. nat_of_digits (trim (last bounds))})"

definition expression_ports :: "string \<Rightarrow> nat set" where
  "expression_ports expression =
     (if trim expression = [] then {} else (\<Union>raw \<in> set (split_on CHR '','' expression). item_ports raw))"

lemma parse_port_value: "parse_port s = Inr p \<Longrightarrow> unat p = nat_of_digits s"
  by (auto dest!: parse_port_Inr simp: parse_u16_def Let_def unat_of_nat split: if_splits)

lemma parse_item_ports:
  assumes "parse_item raw = Inr r"
  shows "range_ports r = item_ports raw"
proof -
  let ?bounds = "split_on CHR ''-'' (trim raw)"
  have "?bounds \<noteq> []" by (rule split_on_nonempty)
  with assms consider b where "?bounds = [b]" | b c where "?bounds = [b, c]"
    by (cases ?bounds rule: remdups_adj.cases)
       (auto simp: parse_item_def Let_def split: if_splits)
  then show ?thesis
    using assms
    by cases (auto simp: parse_item_def item_ports_def range_ports_def Let_def result_simps
        parse_port_value split: if_splits)
qed

lemma items_ports:
  "list_all2 (\<lambda>raw r. parse_item raw = Inr r) raws items \<Longrightarrow>
   ports items = (\<Union>raw \<in> set raws. item_ports raw)"
  by (induction rule: list_all2_induct) (simp_all add: parse_item_ports)

lemma parse_expression_ports:
  assumes "parse_port_ranges e = Inr rs"
  shows "ports rs = expression_ports e"
proof (cases "trim e = []")
  case False
  with parse_port_ranges_correct [OF assms] items_ports show ?thesis
    by (auto simp: expression_ports_def)
qed (use assms in \<open>simp add: parse_port_ranges_def expression_ports_def\<close>)

text \<open>C39 (canonical text): the normalised text of an accepted expression denotes the ports the
  expression's own items denote and is its own normalised text, and two accepted expressions have
  the same normalised text exactly when their items denote the same ports.\<close>

theorem normalize_port_ranges_canonical:
  assumes "normalize_port_ranges e = Inr t" and "normalize_port_ranges e' = Inr t'"
  shows "expression_ports t = expression_ports e \<and> normalize_port_ranges t = Inr t \<and>
    (t = t' \<longleftrightarrow> expression_ports e = expression_ports e')"
proof -
  obtain rs rs' where parsed: "parse_port_ranges e = Inr rs" "parse_port_ranges e' = Inr rs'"
    and t: "t = show_ranges rs" "t' = show_ranges rs'"
    using assms by (auto simp: normalize_port_ranges_def rbind_Inr_iff)
  note normal = parsed [THEN parse_port_ranges_normal]
  note denoted = parsed [THEN parse_expression_ports]
  have "parse_port_ranges t = Inr rs" using parse_show_ranges [OF normal(1)] t(1) by simp
  moreover have "t = t' \<longleftrightarrow> ports rs = ports rs'"
    using port_codec.render_inject [OF normal] normal_canonical [OF normal] t by auto
  ultimately show ?thesis
    using parse_expression_ports [of t rs] denoted t(1) by (simp add: normalize_port_ranges_def)
qed

lemma digit_char_text:
  "digit_char 0 = CHR ''0''" "digit_char (Suc 0) = CHR ''1''" "digit_char 2 = CHR ''2''"
  "digit_char 3 = CHR ''3''"
  by code_simp+

theorem normalize_port_ranges_canonical_witness:
  "expression_ports ''20-31'' = expression_ports ''25-31,20-30,22'' \<and>
    normalize_port_ranges ''20-31'' = Inr ''20-31'' \<and>
    (''20-31'' = ''20-31'' \<longleftrightarrow> expression_ports ''25-31,20-30,22'' = expression_ports ''20-31'')"
proof (rule normalize_port_ranges_canonical)
  show "normalize_port_ranges ''25-31,20-30,22'' = Inr ''20-31''"
    by (simp add: range_eval normalize_port_ranges_def show_ranges_def show_range_def show_nat.simps
        digit_char_text)
  show "normalize_port_ranges ''20-31'' = Inr ''20-31''"
    by (simp add: range_eval normalize_port_ranges_def show_ranges_def show_range_def show_nat.simps
        digit_char_text)
qed

end
