(* ===== verification/Provider.thy ===== *)
theory Provider
  imports Rust_Text
begin

text \<open>
  \<open>topology/provider.rs\<close>: the two provider payloads accepted by the agent and their defaults. The
  decoding of their JSON text is \<open>serde_json\<close>, a parameter of the definitions that need it.
\<close>

section \<open>Identifiers\<close>

definition VLESS_REALITY_VISION_ID :: string where
  "VLESS_REALITY_VISION_ID = ''vless-reality-vision@1''"

definition HYSTERIA2_SALAMANDER_ID :: string where
  "HYSTERIA2_SALAMANDER_ID = ''hysteria2-salamander@1''"

section \<open>Payloads\<close>

record CfgOutboundConfig =
  co_kind :: string
  co_tag :: string

record CfgRealityHandshake =
  rh_server :: string
  rh_server_port :: u16

record CfgVlessRealityConfig =
  vr_enabled :: bool
  vr_handshake :: CfgRealityHandshake
  vr_public_key :: string
  vr_private_key :: string
  vr_short_id :: "string list"

record CfgVlessRealityVisionTlsConfig =
  vt_enabled :: bool
  vt_server_name :: string
  vt_reality :: CfgVlessRealityConfig

record VlessRealityVisionConfig =
  vc_kind :: string
  vc_tag :: string
  vc_listen :: string
  vc_listen_port :: u16
  vc_flow :: string
  vc_tcp_fast_open :: bool
  vc_sniff :: bool
  vc_tls :: CfgVlessRealityVisionTlsConfig
  vc_outbounds :: "CfgOutboundConfig list"

record CfgHysteria2ObfsConfig =
  hb_kind :: string
  hb_password :: string

record CfgHysteria2MasqueradeConfig =
  hm_kind :: string
  hm_url :: string
  hm_rewrite_host :: bool
  hm_content :: string

record CfgHysteria2TlsConfig =
  ht_enabled :: bool
  ht_server_name :: string
  ht_insecure :: bool
  ht_certificate_pem :: string
  ht_private_key_pem :: string
  ht_certificate_sha256 :: string
  ht_certificate_public_key_sha256 :: string

record Hysteria2SalamanderConfig =
  hc_kind :: string
  hc_tag :: string
  hc_listen :: string
  hc_listen_port :: u16
  hc_port_hopping :: string
  hc_up_mbps :: int
  hc_down_mbps :: int
  hc_ignore_client_bandwidth :: bool
  hc_obfs :: CfgHysteria2ObfsConfig
  hc_masquerade :: "CfgHysteria2MasqueradeConfig option"
  hc_tls :: CfgHysteria2TlsConfig
  hc_outbounds :: "CfgOutboundConfig list"

section \<open>Defaults\<close>

definition Hysteria2ObfsConfig_default :: CfgHysteria2ObfsConfig where
  "Hysteria2ObfsConfig_default = \<lparr> hb_kind = [], hb_password = [] \<rparr>"

definition Hysteria2TlsConfig_default :: CfgHysteria2TlsConfig where
  "Hysteria2TlsConfig_default =
     \<lparr> ht_enabled = False, ht_server_name = [], ht_insecure = False, ht_certificate_pem = [],
       ht_private_key_pem = [], ht_certificate_sha256 = [],
       ht_certificate_public_key_sha256 = [] \<rparr>"

definition Hysteria2SalamanderConfig_default :: Hysteria2SalamanderConfig where
  "Hysteria2SalamanderConfig_default =
     \<lparr> hc_kind = [],
       hc_tag = [],
       hc_listen = [],
       hc_listen_port = 0,
       hc_port_hopping = [],
       hc_up_mbps = 0,
       hc_down_mbps = 0,
       hc_ignore_client_bandwidth = True,
       hc_obfs = Hysteria2ObfsConfig_default,
       hc_masquerade = None,
       hc_tls = Hysteria2TlsConfig_default,
       hc_outbounds = [] \<rparr>"

end
