(* ===== verification/Wire.thy ===== *)
theory Wire
  imports Rust_Text
begin

text \<open>
  The messages of \<open>acp-proto/proto/acp.proto\<close> that the modelled components exchange, in the form the
  protobuf compiler gives them in Rust: a scalar is a field, \<open>optional\<close> and message-typed fields are
  options, \<open>repeated\<close> fields are lists, \<open>bytes\<close> are lists of octets and an open enumeration is its
  integer. The two recursive messages, \<open>RouteRule\<close> and \<open>HeadlessRule\<close>, are datatypes with named
  fields; the others are records.
\<close>

section \<open>Topology messages\<close>

record pb_TrafficAnalysisConfig =
  ac_enabled :: bool
  ac_sample_interval_seconds :: u32
  ac_batch_max_entries :: u32
  ac_batch_max_bytes :: u32
  ac_queue_max_bytes :: u64
  ac_queue_max_age_seconds :: u32
  ac_send_bytes_per_second :: u64
  ac_send_burst_bytes :: u64
  ac_send_timeout_millis :: u32
  ac_minute_max_domain_keys :: u32
  ac_max_udp_targets :: u32
  ac_max_udp_targets_per_session :: u32
  ac_memory_max_bytes :: u64

record pb_UserCredential =
  puc_user_id :: string
  puc_name :: string
  puc_credential :: string
  puc_status :: int
  puc_upload_speed_limit_bps :: u64
  puc_download_speed_limit_bps :: u64

record pb_NodeConfig =
  nc_node_id :: string
  nc_provider_id :: string
  nc_provider_config_version :: u32
  nc_provider_config_json :: bytes
  nc_traffic_analysis :: "pb_TrafficAnalysisConfig option"

record pb_NodeTopology =
  nt_node_id :: string
  nt_provider_id :: string
  nt_provider_config_version :: u32
  nt_provider_config_json :: bytes
  nt_users :: "pb_UserCredential list"
  nt_traffic_analysis :: "pb_TrafficAnalysisConfig option"

record pb_OutboundConfig =
  oc_type :: string
  oc_tag :: string
  oc_options_json :: bytes

record pb_DomainResolveOptions =
  pdr_server :: string
  pdr_strategy :: string
  pdr_disable_cache :: bool
  pdr_rewrite_ttl :: "u32 option"
  pdr_client_subnet :: string

record pb_DirectActionOptions =
  pda_bind_interface :: string
  pda_inet4_bind_address :: string
  pda_inet6_bind_address :: string
  pda_routing_mark :: u32
  pda_reuse_addr :: bool
  pda_connect_timeout :: string
  pda_tcp_fast_open :: bool
  pda_tcp_multi_path :: bool
  pda_udp_fragment :: "bool option"
  pda_domain_strategy :: string
  pda_bind_address_no_port :: bool
  pda_protect_path :: string
  pda_netns :: string
  pda_disable_tcp_keep_alive :: bool
  pda_tcp_keep_alive :: string
  pda_tcp_keep_alive_interval :: string
  pda_domain_resolver :: "pb_DomainResolveOptions option"
  pda_network_strategy :: string
  pda_network_type :: "string list"
  pda_fallback_network_type :: "string list"
  pda_fallback_delay :: string

record pb_GeoIPOptions =
  pgi_path :: string
  pgi_download_url :: string
  pgi_download_detour :: string

record pb_GeositeOptions =
  pgs_path :: string
  pgs_download_url :: string
  pgs_download_detour :: string

record pb_RouteActionOptions =
  pra_override_address :: string
  pra_override_port :: u32
  pra_network_strategy :: string
  pra_fallback_delay :: u32
  pra_udp_disable_domain_unmapping :: bool
  pra_udp_connect :: bool
  pra_udp_timeout :: string
  pra_tls_fragment :: bool
  pra_tls_fragment_fallback_delay :: string
  pra_tls_record_fragment :: bool

record pb_SniffActionOptions =
  psa_sniffer :: "string list"
  psa_timeout :: string

record pb_ResolveActionOptions =
  pre_server :: string
  pre_strategy :: string
  pre_disable_cache :: bool
  pre_rewrite_ttl :: "u32 option"
  pre_client_subnet :: string

datatype (plugins only: code size) pb_RouteRule = PbRouteRule
  (prr_type: "string")
  (prr_inbound: "string list")
  (prr_network: "string list")
  (prr_ip_version: "u32")
  (prr_domain: "string list")
  (prr_domain_suffix: "string list")
  (prr_domain_keyword: "string list")
  (prr_domain_regex: "string list")
  (prr_source_ip_cidr: "string list")
  (prr_ip_cidr: "string list")
  (prr_source_ip_is_private: "bool option")
  (prr_ip_is_private: "bool option")
  (prr_port: "u32 list")
  (prr_port_range: "string list")
  (prr_source_port_range: "string list")
  (prr_protocol: "string list")
  (prr_rule_set: "string list")
  (prr_invert: "bool")
  (prr_action: "string")
  (prr_outbound: "string")
  (prr_method: "string")
  (prr_no_drop: "bool")
  (prr_mode: "string")
  (prr_rules: "pb_RouteRule list")
  (prr_auth_user: "string list")
  (prr_client: "string list")
  (prr_geosite: "string list")
  (prr_source_geoip: "string list")
  (prr_geoip: "string list")
  (prr_source_port: "u32 list")
  (prr_process_name: "string list")
  (prr_process_path: "string list")
  (prr_process_path_regex: "string list")
  (prr_package_name: "string list")
  (prr_user: "string list")
  (prr_user_id: "int list")
  (prr_clash_mode: "string")
  (prr_network_type: "string list")
  (prr_network_is_expensive: "bool option")
  (prr_network_is_constrained: "bool option")
  (prr_wifi_ssid: "string list")
  (prr_wifi_bssid: "string list")
  (prr_default_interface_address: "string list")
  (prr_preferred_by: "string list")
  (prr_rule_set_ip_cidr_match_source: "bool")
  (prr_route_options: "pb_RouteActionOptions option")
  (prr_direct_options: "pb_DirectActionOptions option")
  (prr_sniff_options: "pb_SniffActionOptions option")
  (prr_resolve_options: "pb_ResolveActionOptions option")

datatype (plugins only: code size) pb_HeadlessRule = PbHeadlessRule
  (phr_type: "string")
  (phr_network: "string list")
  (phr_domain: "string list")
  (phr_domain_suffix: "string list")
  (phr_domain_keyword: "string list")
  (phr_domain_regex: "string list")
  (phr_source_ip_cidr: "string list")
  (phr_ip_cidr: "string list")
  (phr_source_port: "u32 list")
  (phr_source_port_range: "string list")
  (phr_port: "u32 list")
  (phr_port_range: "string list")
  (phr_process_name: "string list")
  (phr_process_path: "string list")
  (phr_process_path_regex: "string list")
  (phr_package_name: "string list")
  (phr_network_type: "string list")
  (phr_network_is_expensive: "bool option")
  (phr_network_is_constrained: "bool option")
  (phr_wifi_ssid: "string list")
  (phr_wifi_bssid: "string list")
  (phr_default_interface_address: "string list")
  (phr_invert: "bool")
  (phr_mode: "string")
  (phr_rules: "pb_HeadlessRule list")

record pb_RouteRuleSet =
  prs_type :: string
  prs_tag :: string
  prs_format :: string
  prs_path :: string
  prs_url :: string
  prs_download_detour :: string
  prs_update_interval :: string
  prs_rules :: "pb_HeadlessRule list"

record pb_RouteConfig =
  rc_rules :: "pb_RouteRule list"
  rc_rule_sets :: "pb_RouteRuleSet list"
  rc_final :: string
  rc_auto_detect_interface :: bool
  rc_default_interface :: string
  rc_default_mark :: u32
  rc_find_process :: bool
  rc_geoip :: "pb_GeoIPOptions option"
  rc_geosite :: "pb_GeositeOptions option"
  rc_override_android_vpn :: bool
  rc_default_domain_resolver :: "pb_DomainResolveOptions option"
  rc_default_network_strategy :: string
  rc_default_network_type :: "string list"
  rc_default_fallback_network_type :: "string list"
  rc_default_fallback_delay :: string

record pb_DNSServer =
  pds_type :: string
  pds_tag :: string
  pds_server :: string
  pds_detour :: string

record pb_DNSRule =
  pdnr_inbound :: "string list"
  pdnr_domain :: "string list"
  pdnr_domain_suffix :: "string list"
  pdnr_domain_keyword :: "string list"
  pdnr_domain_regex :: "string list"
  pdnr_rule_set :: "string list"
  pdnr_action :: string
  pdnr_rcode :: string
  pdnr_server :: string
  pdnr_method :: string
  pdnr_no_drop :: bool
  pdnr_answer :: "string list"
  pdnr_ns :: "string list"
  pdnr_extra :: "string list"
  pdnr_disable_cache :: bool
  pdnr_rewrite_ttl :: string
  pdnr_timeout :: string
  pdnr_client_subnet :: string

record pb_DNSConfig =
  dc_rules :: "pb_DNSRule list"
  dc_servers :: "pb_DNSServer list"
  dc_final :: string

record pb_TopologySnapshot =
  ts_machine_id :: string
  ts_revision :: u64
  ts_nodes :: "pb_NodeTopology list"
  ts_outbounds :: "pb_OutboundConfig list"
  ts_route :: "pb_RouteConfig option"
  ts_dns :: "pb_DNSConfig option"

record pb_MachineConfig =
  mc_machine_id :: string
  mc_revision :: u64
  mc_nodes :: "pb_NodeConfig list"
  mc_outbounds :: "pb_OutboundConfig list"
  mc_route :: "pb_RouteConfig option"
  mc_dns :: "pb_DNSConfig option"

record pb_NodeMutation =
  nm_operation :: int
  nm_node :: "pb_NodeTopology option"
  nm_node_id :: string

record pb_UserMutation =
  um_operation :: int
  um_machine_id :: string
  um_node_id :: string
  um_user :: "pb_UserCredential option"
  um_revision :: u64
  um_kick_existing_connections :: bool

record pb_TopologyDelta =
  td_base_revision :: u64
  td_target_revision :: u64
  td_node_mutations :: "pb_NodeMutation list"
  td_user_mutations :: "pb_UserMutation list"

record pb_TopologyRoutePatch =
  rp_machine_id :: string
  rp_revision :: u64
  rp_outbounds :: "pb_OutboundConfig list"
  rp_route :: "pb_RouteConfig option"
  rp_dns :: "pb_DNSConfig option"

record pb_ListUsersRequest =
  lu_machine_id :: string
  lu_session_id :: string
  lu_node_id :: string
  lu_page_size :: u32
  lu_page_token :: string

record pb_ListUsersResponse =
  lr_users :: "pb_UserCredential list"
  lr_next_page_token :: string
  lr_total_size :: u32
  lr_has_next :: bool

section \<open>Open enumerations\<close>

datatype MutationOperation = OpUnspecified | OpUpsert | OpDisable | OpDelete

datatype UserStatus = StUnspecified | StActive | StDisabled

text \<open>\<open>try_from(i32)\<close> of the generated enumerations, with the fallback that every caller takes.\<close>

definition mutation_operation :: "int \<Rightarrow> MutationOperation" where
  "mutation_operation n =
     (if n = 1 then OpUpsert else if n = 2 then OpDisable else if n = 3 then OpDelete
      else OpUnspecified)"

definition user_status :: "int \<Rightarrow> UserStatus" where
  "user_status n = (if n = 1 then StActive else if n = 2 then StDisabled else StUnspecified)"

section \<open>Protobuf defaults\<close>

definition pb_NodeTopology_default :: pb_NodeTopology where
  "pb_NodeTopology_default =
     \<lparr> nt_node_id = [], nt_provider_id = [], nt_provider_config_version = 0,
       nt_provider_config_json = [], nt_users = [], nt_traffic_analysis = None \<rparr>"

end
