(* ===== verification/Topology_Model.thy ===== *)
theory Topology_Model
  imports Wire
begin

text \<open>
  \<open>topology/mod.rs\<close>: the agent's topology types, field by field. A \<open>RawJson\<close> is the list of its
  octets; the two recursive types are datatypes with named fields.
\<close>

section \<open>Topology types\<close>

record UserCredential =
  uc_user_id :: string
  uc_name :: string
  uc_credential :: string
  uc_status :: string
  uc_upload_speed_limit_bps :: u64
  uc_download_speed_limit_bps :: u64

record NodeInstance =
  ni_node_id :: string
  ni_provider_id :: string
  ni_provider_config_version :: u32
  ni_provider_config :: bytes
  ni_users :: "UserCredential list"

record Outbound =
  ob_kind :: string
  ob_tag :: string
  ob_options :: bytes

record DomainResolveOptions =
  dr_server :: string
  dr_strategy :: string
  dr_disable_cache :: bool
  dr_rewrite_ttl :: "u32 option"
  dr_client_subnet :: string

record DirectActionOptions =
  da_bind_interface :: string
  da_inet4_bind_address :: string
  da_inet6_bind_address :: string
  da_routing_mark :: u32
  da_reuse_addr :: bool
  da_connect_timeout :: string
  da_tcp_fast_open :: bool
  da_tcp_multi_path :: bool
  da_udp_fragment :: "bool option"
  da_domain_strategy :: string
  da_bind_address_no_port :: bool
  da_protect_path :: string
  da_netns :: string
  da_disable_tcp_keep_alive :: bool
  da_tcp_keep_alive :: string
  da_tcp_keep_alive_interval :: string
  da_domain_resolver :: "DomainResolveOptions option"
  da_network_strategy :: string
  da_network_type :: "string list"
  da_fallback_network_type :: "string list"
  da_fallback_delay :: string

record GeoIpOptions =
  gi_path :: string
  gi_download_url :: string
  gi_download_detour :: string

record GeositeOptions =
  gs_path :: string
  gs_download_url :: string
  gs_download_detour :: string

record RouteActionOptions =
  ra_override_address :: string
  ra_override_port :: u32
  ra_network_strategy :: string
  ra_fallback_delay :: u32
  ra_udp_disable_domain_unmapping :: bool
  ra_udp_connect :: bool
  ra_udp_timeout :: string
  ra_tls_fragment :: bool
  ra_tls_fragment_fallback_delay :: string
  ra_tls_record_fragment :: bool

record SniffActionOptions =
  sa_sniffer :: "string list"
  sa_timeout :: string

record ResolveActionOptions =
  re_server :: string
  re_strategy :: string
  re_disable_cache :: bool
  re_rewrite_ttl :: "u32 option"
  re_client_subnet :: string

datatype (plugins only: code size) RouteRule = RouteRule
  (rr_kind: "string")
  (rr_inbound: "string list")
  (rr_network: "string list")
  (rr_ip_version: "u32")
  (rr_domain: "string list")
  (rr_domain_suffix: "string list")
  (rr_domain_keyword: "string list")
  (rr_domain_regex: "string list")
  (rr_source_ip_cidr: "string list")
  (rr_ip_cidr: "string list")
  (rr_source_ip_is_private: "bool option")
  (rr_ip_is_private: "bool option")
  (rr_port: "u32 list")
  (rr_port_range: "string list")
  (rr_source_port: "u32 list")
  (rr_source_port_range: "string list")
  (rr_protocol: "string list")
  (rr_rule_set: "string list")
  (rr_invert: "bool")
  (rr_action: "string")
  (rr_outbound: "string")
  (rr_method: "string")
  (rr_no_drop: "bool")
  (rr_mode: "string")
  (rr_rules: "RouteRule list")
  (rr_auth_user: "string list")
  (rr_client: "string list")
  (rr_geosite: "string list")
  (rr_source_geoip: "string list")
  (rr_geoip: "string list")
  (rr_process_name: "string list")
  (rr_process_path: "string list")
  (rr_process_path_regex: "string list")
  (rr_package_name: "string list")
  (rr_user: "string list")
  (rr_user_id: "int list")
  (rr_clash_mode: "string")
  (rr_network_type: "string list")
  (rr_network_is_expensive: "bool option")
  (rr_network_is_constrained: "bool option")
  (rr_wifi_ssid: "string list")
  (rr_wifi_bssid: "string list")
  (rr_default_interface_address: "string list")
  (rr_preferred_by: "string list")
  (rr_rule_set_ip_cidr_match_source: "bool")
  (rr_route_options: "RouteActionOptions option")
  (rr_direct_options: "DirectActionOptions option")
  (rr_sniff_options: "SniffActionOptions option")
  (rr_resolve_options: "ResolveActionOptions option")

datatype (plugins only: code size) HeadlessRule = HeadlessRule
  (hr_kind: "string")
  (hr_network: "string list")
  (hr_domain: "string list")
  (hr_domain_suffix: "string list")
  (hr_domain_keyword: "string list")
  (hr_domain_regex: "string list")
  (hr_source_ip_cidr: "string list")
  (hr_ip_cidr: "string list")
  (hr_source_port: "u32 list")
  (hr_source_port_range: "string list")
  (hr_port: "u32 list")
  (hr_port_range: "string list")
  (hr_process_name: "string list")
  (hr_process_path: "string list")
  (hr_process_path_regex: "string list")
  (hr_package_name: "string list")
  (hr_network_type: "string list")
  (hr_network_is_expensive: "bool option")
  (hr_network_is_constrained: "bool option")
  (hr_wifi_ssid: "string list")
  (hr_wifi_bssid: "string list")
  (hr_default_interface_address: "string list")
  (hr_invert: "bool")
  (hr_mode: "string")
  (hr_rules: "HeadlessRule list")

record RouteRuleSet =
  rs_kind :: string
  rs_tag :: string
  rs_format :: string
  rs_path :: string
  rs_url :: string
  rs_download_detour :: string
  rs_update_interval :: string
  rs_rules :: "HeadlessRule list"

record Route =
  rt_rules :: "RouteRule list"
  rt_rule_sets :: "RouteRuleSet list"
  rt_final :: string
  rt_auto_detect_interface :: bool
  rt_default_interface :: string
  rt_default_mark :: u32
  rt_find_process :: bool
  rt_geoip :: "GeoIpOptions option"
  rt_geosite :: "GeositeOptions option"
  rt_override_android_vpn :: bool
  rt_default_domain_resolver :: "DomainResolveOptions option"
  rt_default_network_strategy :: string
  rt_default_network_type :: "string list"
  rt_default_fallback_network_type :: "string list"
  rt_default_fallback_delay :: string

record DnsServer =
  ds_kind :: string
  ds_tag :: string
  ds_server :: string
  ds_detour :: string

record DnsRule =
  dnr_inbound :: "string list"
  dnr_domain :: "string list"
  dnr_domain_suffix :: "string list"
  dnr_domain_keyword :: "string list"
  dnr_domain_regex :: "string list"
  dnr_rule_set :: "string list"
  dnr_action :: string
  dnr_rcode :: string
  dnr_server :: string
  dnr_method :: string
  dnr_no_drop :: bool
  dnr_answer :: "string list"
  dnr_ns :: "string list"
  dnr_extra :: "string list"
  dnr_disable_cache :: bool
  dnr_rewrite_ttl :: string
  dnr_timeout :: string
  dnr_client_subnet :: string

record Dns =
  dn_rules :: "DnsRule list"
  dn_servers :: "DnsServer list"
  dn_final :: string

record MachineTopology =
  mt_machine_id :: string
  mt_revision :: u64
  mt_nodes :: "NodeInstance list"
  mt_outbounds :: "Outbound list"
  mt_route :: "Route option"
  mt_dns :: "Dns option"
  mt_snapshot :: "pb_TopologySnapshot option"

definition MachineTopology_default :: MachineTopology where
  "MachineTopology_default =
     \<lparr> mt_machine_id = [], mt_revision = 0, mt_nodes = [], mt_outbounds = [], mt_route = None,
       mt_dns = None, mt_snapshot = None \<rparr>"

end
