(* ===== verification/Port_Plan.thy ===== *)
theory Port_Plan
  imports Port_Ranges Provider Topology_Model
begin

text \<open>
  \<open>porthopping/plan.rs\<close>: the compiler from a topology to the machine-wide UDP forwarding plan. The
  loop over the nodes, the two conflict checks and the digest are the definitions; \<open>from_slice\<close> stands
  for \<open>serde_json::from_slice\<close> and \<open>sha256\<close> for the hash of the \<open>sha2\<close> crate. The lemmas describe an
  accepted plan by the sets of ports of its redirects and say exactly when a topology is accepted.
\<close>

section \<open>Plans\<close>

record Redirect =
  rd_node_id :: string
  rd_listen_port :: u16
  rd_ports :: "port_range list"

record Plan =
  pl_redirects :: "Redirect list"

definition Plan_default :: Plan where
  "Plan_default = \<lparr> pl_redirects = [] \<rparr>"

definition plan_is_empty :: "Plan \<Rightarrow> bool" where
  "plan_is_empty plan \<longleftrightarrow> pl_redirects plan = []"

definition rule_count :: "Plan \<Rightarrow> nat" where
  "rule_count plan = sum_list (map (\<lambda>redirect. length (rd_ports redirect)) (pl_redirects plan))"

definition lower_hex :: "bytes \<Rightarrow> string" where
  "lower_hex octets =
     concat (map (\<lambda>b. [hex_digit (unat b div 16), hex_digit (unat b mod 16)]) octets)"

definition str_bytes :: "string \<Rightarrow> bytes" where
  "str_bytes s = map (\<lambda>c. of_nat (byte_of c)) s"

text \<open>The octets fed to the hash, in the order of the \<open>update\<close> calls.\<close>

definition range_input :: "port_range \<Rightarrow> bytes" where
  "range_input r =
     str_bytes (show_nat (unat (pr_start r)) @ ''-'' @ show_nat (unat (pr_end r)) @ '','')"

definition redirect_input :: "Redirect \<Rightarrow> bytes" where
  "redirect_input redirect =
     str_bytes (rd_node_id redirect) @ [0] @
     str_bytes (show_nat (unat (rd_listen_port redirect))) @ [0] @
     concat (map range_input (rd_ports redirect)) @ [0]"

definition plan_input :: "Plan \<Rightarrow> bytes" where
  "plan_input plan = concat (map redirect_input (pl_redirects plan))"

definition plan_digest :: "(bytes \<Rightarrow> bytes) \<Rightarrow> Plan \<Rightarrow> string" where
  "plan_digest sha256 plan = lower_hex (sha256 (plan_input plan))"

section \<open>Building a plan\<close>

definition is_ascii_whitespace :: "u8 \<Rightarrow> bool" where
  "is_ascii_whitespace b \<longleftrightarrow> b \<in> {9, 10, 12, 13, 32}"

definition decode_hysteria_config ::
    "(bytes \<Rightarrow> string + Hysteria2SalamanderConfig) \<Rightarrow> bytes \<Rightarrow> string + Hysteria2SalamanderConfig"
  where
  "decode_hysteria_config from_slice octets =
     (if filter (\<lambda>b. \<not> is_ascii_whitespace b) octets = str_bytes ''null''
      then Inr Hysteria2SalamanderConfig_default
      else from_slice octets)"

definition split_at_listen :: "u16 \<Rightarrow> port_range \<Rightarrow> port_range list" where
  "split_at_listen listen_port r =
     (if \<not> contains r listen_port then [r]
      else (if pr_start r < listen_port then [PortRange (pr_start r) (listen_port - 1)] else []) @
           (if listen_port < pr_end r then [PortRange (listen_port + 1) (pr_end r)] else []))"

definition remove_self_redirects :: "port_range list \<Rightarrow> u16 \<Rightarrow> port_range list" where
  "remove_self_redirects ranges listen_port = concat (map (split_at_listen listen_port) ranges)"

text \<open>The nested loops return the first overlap, in the order of the left ranges, then the right.\<close>

definition first_overlap :: "port_range list \<Rightarrow> port_range list \<Rightarrow> port_range option" where
  "first_overlap left right =
     (case [PortRange (max (pr_start a) (pr_start b)) (min (pr_end a) (pr_end b)).
              a \<leftarrow> left, b \<leftarrow> right, max (pr_start a) (pr_start b) \<le> min (pr_end a) (pr_end b)] of
        [] \<Rightarrow> None
      | overlap # _ \<Rightarrow> Some overlap)"

record plan_state =
  ps_redirects :: "Redirect list"
  ps_listen_ports :: "(string \<times> u16) list"
  ps_original_hopping :: "(string \<times> port_range list) list"
  ps_seen_node_ids :: "string set"

definition plan_state_init :: plan_state where
  "plan_state_init =
     \<lparr> ps_redirects = [], ps_listen_ports = [], ps_original_hopping = [], ps_seen_node_ids = {} \<rparr>"

text \<open>The body of the loop over \<open>topology.nodes\<close>.\<close>

definition plan_node ::
    "(bytes \<Rightarrow> string + Hysteria2SalamanderConfig) \<Rightarrow> NodeInstance \<Rightarrow> plan_state \<Rightarrow> string + plan_state"
  where
  "plan_node from_slice node st =
     (if ni_node_id node \<in> ps_seen_node_ids st then
        Inl (''topology contains duplicate node_id '' @ debug_str (ni_node_id node))
      else
        let st = st\<lparr> ps_seen_node_ids := insert (ni_node_id node) (ps_seen_node_ids st) \<rparr> in
        if ni_provider_id node \<noteq> HYSTERIA2_SALAMANDER_ID then Inr st
        else
          rbind (rmap_err
              (\<lambda>error. ''node '' @ ni_node_id node @ '' decode hysteria2 port hopping config: '' @ error)
              (decode_hysteria_config from_slice (ni_provider_config node))) (\<lambda>config.
          let st = (if hc_listen_port config \<noteq> 0
                    then st\<lparr> ps_listen_ports :=
                      bt_insert (ni_node_id node) (hc_listen_port config) (ps_listen_ports st) \<rparr>
                    else st) in
          rbind (rmap_err
              (\<lambda>error. ''node '' @ ni_node_id node @ '' invalid hysteria2 port_hopping: '' @ error)
              (parse_port_ranges (hc_port_hopping config))) (\<lambda>original.
          let st = st\<lparr> ps_original_hopping :=
                bt_insert (ni_node_id node) original (ps_original_hopping st) \<rparr>;
              ports = remove_self_redirects original (hc_listen_port config)
          in
          if ports = [] then Inr st
          else if hc_listen_port config = 0 then
            Inl (''node '' @ ni_node_id node @ '' hysteria2 listen_port is required for port hopping'')
          else
            Inr (st\<lparr> ps_redirects := ps_redirects st @
              [\<lparr> rd_node_id = ni_node_id node, rd_listen_port = hc_listen_port config,
                 rd_ports = ports \<rparr>] \<rparr>))))"

fun plan_nodes ::
    "(bytes \<Rightarrow> string + Hysteria2SalamanderConfig) \<Rightarrow> NodeInstance list \<Rightarrow> plan_state \<Rightarrow>
      string + plan_state" where
  "plan_nodes from_slice [] st = Inr st"
| "plan_nodes from_slice (node # nodes) st =
     rbind (plan_node from_slice node st) (\<lambda>st'. plan_nodes from_slice nodes st')"

text \<open>The first hit of the check of hopping ranges against the listen ports of other nodes.\<close>

definition listen_conflicts ::
    "(string \<times> port_range list) list \<Rightarrow> (string \<times> u16) list \<Rightarrow>
      (string \<times> port_range \<times> string \<times> u16) list" where
  "listen_conflicts original_hopping listen_ports =
     [(node_id, r, other_node_id, listen_port).
        (node_id, ranges) \<leftarrow> original_hopping, r \<leftarrow> ranges,
        (other_node_id, listen_port) \<leftarrow> listen_ports,
        node_id \<noteq> other_node_id \<and> contains r listen_port]"

definition listen_conflict_message :: "string \<times> port_range \<times> string \<times> u16 \<Rightarrow> string" where
  "listen_conflict_message c =
     (case c of (node_id, r, other_node_id, listen_port) \<Rightarrow>
        ''node '' @ node_id @ '' port_hopping '' @ show_range r @ '' conflicts with node '' @
        other_node_id @ '' hysteria2 listen_port '' @ show_nat (unat listen_port))"

text \<open>The pairwise check: for each redirect, the ones before it.\<close>

definition redirect_conflicts :: "Redirect list \<Rightarrow> (Redirect \<times> Redirect \<times> port_range) list" where
  "redirect_conflicts redirects =
     [(left, right, overlap).
        (index, right) \<leftarrow> List.enumerate 0 redirects, left \<leftarrow> take index redirects,
        overlap \<leftarrow> (case first_overlap (rd_ports left) (rd_ports right) of None \<Rightarrow> [] | Some p \<Rightarrow> [p])]"

definition redirect_conflict_message :: "Redirect \<times> Redirect \<times> port_range \<Rightarrow> string" where
  "redirect_conflict_message c =
     (case c of (left, right, overlap) \<Rightarrow>
        ''hysteria2 port_hopping conflict between nodes '' @ rd_node_id left @ '' and '' @
        rd_node_id right @ '' at '' @ show_range overlap)"

definition build_plan ::
    "(bytes \<Rightarrow> string + Hysteria2SalamanderConfig) \<Rightarrow> MachineTopology \<Rightarrow> string + Plan" where
  "build_plan from_slice topology =
     rbind (plan_nodes from_slice (mt_nodes topology) plan_state_init) (\<lambda>st.
       let redirects = sort_key rd_node_id (ps_redirects st) in
       case listen_conflicts (ps_original_hopping st) (ps_listen_ports st) of
         c # _ \<Rightarrow> Inl (listen_conflict_message c)
       | [] \<Rightarrow>
           (case redirect_conflicts redirects of
              c # _ \<Rightarrow> Inl (redirect_conflict_message c)
            | [] \<Rightarrow> Inr \<lparr> pl_redirects = redirects \<rparr>))"

section \<open>Removing the listen port\<close>

lemma unat_pred_u16: "(a :: u16) < b \<Longrightarrow> unat (b - 1) = unat b - 1"
  by (metis unat_minus_one word_less_nat_alt unat_0 not_less_zero)

lemma unat_succ_u16: "(a :: u16) < b \<Longrightarrow> unat (a + 1) = unat a + 1"
  using unat_u16_less [of b] by (simp add: word_less_nat_alt unat_word_ariths)

lemma split_at_listen_ports:
  "valid_range r \<Longrightarrow> ports (split_at_listen l r) = range_ports r - {unat l}"
  by (auto simp: split_at_listen_def contains_def range_ports_def valid_range_unat
      unat_pred_u16 unat_succ_u16 word_le_nat_alt word_less_nat_alt)

lemma split_at_listen_valid:
  "valid_range r \<Longrightarrow> list_all valid_range (split_at_listen l r)"
  by (auto simp: split_at_listen_def contains_def valid_range_unat
      unat_pred_u16 unat_succ_u16 word_le_nat_alt word_less_nat_alt)

lemma split_at_listen_within:
  "valid_range r \<Longrightarrow> q \<in> set (split_at_listen l r) \<Longrightarrow>
   unat (pr_start r) \<le> unat (pr_start q) \<and> unat (pr_end q) \<le> unat (pr_end r)"
  by (auto simp: split_at_listen_def contains_def valid_range_unat
      unat_pred_u16 unat_succ_u16 word_le_nat_alt word_less_nat_alt split: if_splits)

lemma split_at_listen_gap: "valid_range r \<Longrightarrow> sorted_wrt gap (split_at_listen l r)"
  by (auto simp: split_at_listen_def contains_def gap_def
      unat_pred_u16 unat_succ_u16 word_le_nat_alt word_less_nat_alt)

lemma remove_self_redirects_Cons:
  "remove_self_redirects (r # rs) l = split_at_listen l r @ remove_self_redirects rs l"
  by (simp add: remove_self_redirects_def)

lemma remove_self_redirects_normal: "normal rs \<Longrightarrow> normal (remove_self_redirects rs l)"
proof (induction rs)
  case (Cons r rs)
  then have r: "valid_range r" and rs: "normal rs" "list_all valid_range rs"
    and g: "\<forall>q \<in> set rs. gap r q"
    by (auto simp: normal_def)
  have "gap a b" if "a \<in> set (split_at_listen l r)" "b \<in> set (remove_self_redirects rs l)" for a b
  proof -
    from that(2) obtain q where q: "q \<in> set rs" "b \<in> set (split_at_listen l q)"
      by (auto simp: remove_self_redirects_def)
    with rs have "valid_range q" by (simp add: list_all_iff)
    from split_at_listen_within [OF this q(2)] split_at_listen_within [OF r that(1)] g q(1)
    show ?thesis by (force simp: gap_def)
  qed
  with Cons.IH [OF rs(1)] split_at_listen_valid [OF r, of l] split_at_listen_gap [OF r, of l]
  show ?case by (simp add: remove_self_redirects_Cons normal_def sorted_wrt_append)
qed (simp add: remove_self_redirects_def)

lemma remove_self_redirects_ports:
  "normal rs \<Longrightarrow> ports (remove_self_redirects rs l) = ports rs - {unat l}"
proof (induction rs)
  case (Cons r rs)
  then show ?case
    by (auto simp: remove_self_redirects_Cons split_at_listen_ports ports_Cons_normal)
qed (simp add: remove_self_redirects_def)

lemma normal_ports_empty: "normal rs \<Longrightarrow> ports rs = {} \<longleftrightarrow> rs = []"
  by (cases rs) (auto simp: normal_def valid_range_unat range_ports_def)

section \<open>Overlaps\<close>

lemma range_overlap_iff:
  "max (pr_start a) (pr_start b) \<le> min (pr_end a) (pr_end b) \<longleftrightarrow> range_ports a \<inter> range_ports b \<noteq> {}"
  by (auto simp: range_ports_def word_le_nat_alt max_def min_def)

lemma head_None: "(case xs of [] \<Rightarrow> None | x # _ \<Rightarrow> Some x) = None \<longleftrightarrow> xs = []"
  by (cases xs) auto

lemma first_overlap_None: "first_overlap left right = None \<longleftrightarrow> ports left \<inter> ports right = {}"
proof -
  have "first_overlap left right = None \<longleftrightarrow>
        (\<forall>a \<in> set left. \<forall>b \<in> set right. \<not> max (pr_start a) (pr_start b) \<le> min (pr_end a) (pr_end b))"
    unfolding first_overlap_def head_None by (auto simp: concat_eq_Nil_conv)
  also have "\<dots> \<longleftrightarrow> ports left \<inter> ports right = {}"
    unfolding range_overlap_iff by (auto simp: ports_def)
  finally show ?thesis .
qed

section \<open>The loop over the nodes\<close>

text \<open>What one node contributes, written without the loop.\<close>

definition node_config ::
    "(bytes \<Rightarrow> string + Hysteria2SalamanderConfig) \<Rightarrow> NodeInstance \<Rightarrow> Hysteria2SalamanderConfig option"
  where
  "node_config from_slice node =
     (if ni_provider_id node = HYSTERIA2_SALAMANDER_ID
      then (case decode_hysteria_config from_slice (ni_provider_config node) of
              Inl _ \<Rightarrow> None | Inr config \<Rightarrow> Some config)
      else None)"

definition node_listen :: "(bytes \<Rightarrow> string + Hysteria2SalamanderConfig) \<Rightarrow> NodeInstance \<Rightarrow> u16" where
  "node_listen from_slice node =
     (case node_config from_slice node of None \<Rightarrow> 0 | Some config \<Rightarrow> hc_listen_port config)"

definition node_hops ::
    "(bytes \<Rightarrow> string + Hysteria2SalamanderConfig) \<Rightarrow> NodeInstance \<Rightarrow> port_range list" where
  "node_hops from_slice node =
     (case node_config from_slice node of
        None \<Rightarrow> []
      | Some config \<Rightarrow>
          (case parse_port_ranges (hc_port_hopping config) of Inl _ \<Rightarrow> [] | Inr ranges \<Rightarrow> ranges))"

definition node_accepted ::
    "(bytes \<Rightarrow> string + Hysteria2SalamanderConfig) \<Rightarrow> NodeInstance \<Rightarrow> bool" where
  "node_accepted from_slice node \<longleftrightarrow>
     ni_provider_id node \<noteq> HYSTERIA2_SALAMANDER_ID \<or>
     (\<exists>config ranges.
        decode_hysteria_config from_slice (ni_provider_config node) = Inr config \<and>
        parse_port_ranges (hc_port_hopping config) = Inr ranges \<and>
        (ranges = [] \<or> hc_listen_port config \<noteq> 0))"

definition node_redirects ::
    "(bytes \<Rightarrow> string + Hysteria2SalamanderConfig) \<Rightarrow> NodeInstance \<Rightarrow> Redirect list" where
  "node_redirects from_slice node =
     (let ports = remove_self_redirects (node_hops from_slice node) (node_listen from_slice node) in
      if ports = [] then []
      else [\<lparr> rd_node_id = ni_node_id node, rd_listen_port = node_listen from_slice node,
              rd_ports = ports \<rparr>])"

definition plan_node_state ::
    "(bytes \<Rightarrow> string + Hysteria2SalamanderConfig) \<Rightarrow> NodeInstance \<Rightarrow> plan_state \<Rightarrow> plan_state" where
  "plan_node_state from_slice node st =
     \<lparr> ps_redirects = ps_redirects st @ node_redirects from_slice node,
       ps_listen_ports =
         (if node_listen from_slice node = 0 then ps_listen_ports st
          else bt_insert (ni_node_id node) (node_listen from_slice node) (ps_listen_ports st)),
       ps_original_hopping =
         (if node_config from_slice node = None then ps_original_hopping st
          else bt_insert (ni_node_id node) (node_hops from_slice node) (ps_original_hopping st)),
       ps_seen_node_ids = insert (ni_node_id node) (ps_seen_node_ids st) \<rparr>"

lemma node_hops_normal: "normal (node_hops from_slice node)"
  by (auto simp: node_hops_def normal_def [of "[]"] intro: parse_port_ranges_normal
      split: option.splits sum.splits)

lemma remove_self_redirects_0: "normal rs \<Longrightarrow> remove_self_redirects rs 0 = [] \<longleftrightarrow> rs = []"
  using normal_ports_empty [of rs] normal_ports_empty [OF remove_self_redirects_normal, of rs 0]
  by (cases rs)
     (auto simp: remove_self_redirects_ports remove_self_redirects_def split_at_listen_def
       contains_def normal_def valid_range_unat word_le_nat_alt)

lemma plan_node_Inr:
  "plan_node from_slice node st = Inr st' \<longleftrightarrow>
     ni_node_id node \<notin> ps_seen_node_ids st \<and> node_accepted from_slice node \<and>
     st' = plan_node_state from_slice node st"
proof (cases "ni_provider_id node = HYSTERIA2_SALAMANDER_ID")
  case False
  then show ?thesis
    by (auto simp: plan_node_def plan_node_state_def node_accepted_def node_redirects_def
        node_config_def node_listen_def node_hops_def remove_self_redirects_def)
next
  case hysteria: True
  show ?thesis
  proof (cases "decode_hysteria_config from_slice (ni_provider_config node)")
    case (Inl e)
    with hysteria show ?thesis by (simp add: plan_node_def node_accepted_def)
  next
    case config: (Inr config)
    show ?thesis
    proof (cases "parse_port_ranges (hc_port_hopping config)")
      case (Inl e)
      with hysteria config show ?thesis by (simp add: plan_node_def node_accepted_def)
    next
      case (Inr ranges)
      note eqs = hysteria config Inr
      have "remove_self_redirects ranges 0 = [] \<longleftrightarrow> ranges = []"
        using remove_self_redirects_0 [OF parse_port_ranges_normal [OF Inr]] .
      with eqs show ?thesis
        by (auto simp: plan_node_def plan_node_state_def node_accepted_def node_redirects_def
            node_config_def node_listen_def node_hops_def remove_self_redirects_def Let_def)
    qed
  qed
qed

lemma plan_nodes_Inr:
  "plan_nodes from_slice nodes st = Inr st' \<longleftrightarrow>
     distinct (map ni_node_id nodes) \<and> ni_node_id ` set nodes \<inter> ps_seen_node_ids st = {} \<and>
     (\<forall>node \<in> set nodes. node_accepted from_slice node) \<and>
     st' = fold (plan_node_state from_slice) nodes st"
proof (induction nodes arbitrary: st)
  case (Cons node nodes)
  show ?case
    by (auto simp: rbind_Inr_iff plan_node_Inr Cons.IH plan_node_state_def)
qed auto

lemma fold_redirects:
  "ps_redirects (fold (plan_node_state from_slice) nodes st) =
     ps_redirects st @ concat (map (node_redirects from_slice) nodes)"
  by (induction nodes arbitrary: st) (simp_all add: plan_node_state_def)

lemma plan_node_state_entries:
  "ni_node_id node \<notin> fst ` set (ps_listen_ports st) \<Longrightarrow>
     set (ps_listen_ports (plan_node_state from_slice node st)) = set (ps_listen_ports st) \<union>
       {(ni_node_id n, node_listen from_slice n) |n. n = node \<and> node_listen from_slice n \<noteq> 0}"
  "ni_node_id node \<notin> fst ` set (ps_original_hopping st) \<Longrightarrow>
     set (ps_original_hopping (plan_node_state from_slice node st)) = set (ps_original_hopping st) \<union>
       {(ni_node_id n, node_hops from_slice n) |n. n = node \<and> node_config from_slice n \<noteq> None}"
  by (auto simp: plan_node_state_def set_bt_insert)

lemma fold_listen_ports:
  assumes "distinct (map ni_node_id nodes)"
    and "ni_node_id ` set nodes \<inter> fst ` set (ps_listen_ports st) = {}"
  shows "set (ps_listen_ports (fold (plan_node_state from_slice) nodes st)) =
     set (ps_listen_ports st) \<union>
     {(ni_node_id n, node_listen from_slice n) |n. n \<in> set nodes \<and> node_listen from_slice n \<noteq> 0}"
  using assms
proof (induction nodes arbitrary: st)
  case (Cons node nodes)
  let ?st = "plan_node_state from_slice node st"
  have entry: "set (ps_listen_ports ?st) = set (ps_listen_ports st) \<union>
      {(ni_node_id n, node_listen from_slice n) |n. n = node \<and> node_listen from_slice n \<noteq> 0}"
    using Cons.prems by (intro plan_node_state_entries) simp
  have "set (ps_listen_ports (fold (plan_node_state from_slice) nodes ?st)) =
      set (ps_listen_ports ?st) \<union>
      {(ni_node_id n, node_listen from_slice n) |n. n \<in> set nodes \<and> node_listen from_slice n \<noteq> 0}"
    using Cons.prems by (intro Cons.IH) (auto simp: entry, metis imageI)
  then show ?case unfolding entry by auto
qed simp

lemma fold_original_hopping:
  assumes "distinct (map ni_node_id nodes)"
    and "ni_node_id ` set nodes \<inter> fst ` set (ps_original_hopping st) = {}"
  shows "set (ps_original_hopping (fold (plan_node_state from_slice) nodes st)) =
     set (ps_original_hopping st) \<union>
     {(ni_node_id n, node_hops from_slice n) |n. n \<in> set nodes \<and> node_config from_slice n \<noteq> None}"
  using assms
proof (induction nodes arbitrary: st)
  case (Cons node nodes)
  let ?st = "plan_node_state from_slice node st"
  have entry: "set (ps_original_hopping ?st) = set (ps_original_hopping st) \<union>
      {(ni_node_id n, node_hops from_slice n) |n. n = node \<and> node_config from_slice n \<noteq> None}"
    using Cons.prems by (intro plan_node_state_entries) simp
  have "set (ps_original_hopping (fold (plan_node_state from_slice) nodes ?st)) =
      set (ps_original_hopping ?st) \<union>
      {(ni_node_id n, node_hops from_slice n) |n. n \<in> set nodes \<and> node_config from_slice n \<noteq> None}"
    using Cons.prems by (intro Cons.IH) (auto simp: entry, metis imageI)
  then show ?case unfolding entry by auto
qed simp

section \<open>The conflict checks\<close>

lemma listen_conflicts_Nil:
  "listen_conflicts hopping listens = [] \<longleftrightarrow>
     (\<forall>(node_id, ranges) \<in> set hopping. \<forall>(other, port) \<in> set listens.
        node_id \<noteq> other \<longrightarrow> unat port \<notin> ports ranges)"
  by (auto simp: listen_conflicts_def concat_eq_Nil_conv contains_iff ports_def split: if_splits)
     fastforce+

definition disjoint_redirects :: "Redirect \<Rightarrow> Redirect \<Rightarrow> bool" where
  "disjoint_redirects a b \<longleftrightarrow> ports (rd_ports a) \<inter> ports (rd_ports b) = {}"

lemma set_enumerate: "set (List.enumerate 0 xs) = (\<lambda>i. (i, xs ! i)) ` {..<length xs}"
  by (auto simp: set_eq_iff in_set_enumerate_eq image_iff)

lemma option_list_Nil: "(case m of None \<Rightarrow> [] | Some p \<Rightarrow> [p]) = [] \<longleftrightarrow> m = None"
  by (cases m) auto

lemma redirect_conflicts_Nil:
  "redirect_conflicts redirects = [] \<longleftrightarrow> sorted_wrt disjoint_redirects redirects"
proof -
  have "redirect_conflicts redirects = [] \<longleftrightarrow>
      (\<forall>j < length redirects. \<forall>left \<in> set (take j redirects).
         first_overlap (rd_ports left) (rd_ports (redirects ! j)) = None)"
    by (auto simp: redirect_conflicts_def concat_eq_Nil_conv set_enumerate option_list_Nil)
  also have "\<dots> \<longleftrightarrow> (\<forall>j < length redirects. \<forall>i < j. disjoint_redirects (redirects ! i) (redirects ! j))"
    by (simp add: first_overlap_None disjoint_redirects_def nth_image [OF less_imp_le, symmetric])
       (metis atLeastLessThan_iff le0)
  also have "\<dots> \<longleftrightarrow> sorted_wrt disjoint_redirects redirects"
    by (auto simp: sorted_wrt_iff_nth_less)
  finally show ?thesis .
qed

section \<open>Accepted topologies\<close>

definition topology_redirects ::
    "(bytes \<Rightarrow> string + Hysteria2SalamanderConfig) \<Rightarrow> MachineTopology \<Rightarrow> Redirect list" where
  "topology_redirects from_slice topology =
     sort_key rd_node_id (concat (map (node_redirects from_slice) (mt_nodes topology)))"

text \<open>No hopping range of one node covers the listen port of another.\<close>

definition listens_clear ::
    "(bytes \<Rightarrow> string + Hysteria2SalamanderConfig) \<Rightarrow> NodeInstance list \<Rightarrow> bool" where
  "listens_clear from_slice nodes \<longleftrightarrow>
     (\<forall>node \<in> set nodes. \<forall>other \<in> set nodes. ni_node_id node \<noteq> ni_node_id other \<longrightarrow>
        node_listen from_slice other \<noteq> 0 \<longrightarrow>
        unat (node_listen from_slice other) \<notin> ports (node_hops from_slice node))"

definition plannable ::
    "(bytes \<Rightarrow> string + Hysteria2SalamanderConfig) \<Rightarrow> MachineTopology \<Rightarrow> bool" where
  "plannable from_slice topology \<longleftrightarrow>
     distinct (map ni_node_id (mt_nodes topology)) \<and>
     (\<forall>node \<in> set (mt_nodes topology). node_accepted from_slice node) \<and>
     listens_clear from_slice (mt_nodes topology) \<and>
     sorted_wrt disjoint_redirects (topology_redirects from_slice topology)"

lemma ball_pair_Collect: "(\<forall>(a, b) \<in> {(f n, g n) |n. P n}. Q a b) \<longleftrightarrow> (\<forall>n. P n \<longrightarrow> Q (f n) (g n))"
  by auto

lemma plan_state_init_fields [simp]:
  "ps_redirects plan_state_init = []" "ps_seen_node_ids plan_state_init = {}"
  by (simp_all add: plan_state_init_def)

lemma listen_conflicts_fold:
  assumes "distinct (map ni_node_id nodes)"
  shows "listen_conflicts
      (ps_original_hopping (fold (plan_node_state from_slice) nodes plan_state_init))
      (ps_listen_ports (fold (plan_node_state from_slice) nodes plan_state_init)) = [] \<longleftrightarrow>
    listens_clear from_slice nodes"
proof -
  let ?st = "fold (plan_node_state from_slice) nodes plan_state_init"
  have hops: "set (ps_original_hopping ?st) =
      {(ni_node_id n, node_hops from_slice n) |n. n \<in> set nodes \<and> node_config from_slice n \<noteq> None}"
    using fold_original_hopping [OF assms, of plan_state_init from_slice]
    by (simp add: plan_state_init_def)
  have listens: "set (ps_listen_ports ?st) =
      {(ni_node_id n, node_listen from_slice n) |n. n \<in> set nodes \<and> node_listen from_slice n \<noteq> 0}"
    using fold_listen_ports [OF assms, of plan_state_init from_slice]
    by (simp add: plan_state_init_def)
  have "ports (node_hops from_slice n) = {}" if "node_config from_slice n = None" for n
    using that by (simp add: node_hops_def)
  then have "listens_clear from_slice nodes \<longleftrightarrow>
      (\<forall>n. n \<in> set nodes \<and> node_config from_slice n \<noteq> None \<longrightarrow>
        (\<forall>m. m \<in> set nodes \<and> node_listen from_slice m \<noteq> 0 \<longrightarrow> ni_node_id n \<noteq> ni_node_id m \<longrightarrow>
          unat (node_listen from_slice m) \<notin> ports (node_hops from_slice n)))"
    unfolding listens_clear_def by (metis emptyE)
  then show ?thesis
    unfolding listen_conflicts_Nil hops listens ball_pair_Collect by simp
qed

lemma build_plan_iff:
  "build_plan from_slice topology = Inr plan \<longleftrightarrow>
     plannable from_slice topology \<and> plan = \<lparr> pl_redirects = topology_redirects from_slice topology \<rparr>"
  by (auto simp: build_plan_def rbind_Inr_iff plan_nodes_Inr plannable_def Let_def
      listen_conflicts_fold redirect_conflicts_Nil [symmetric] topology_redirects_def
      fold_redirects split: list.splits)
     (metis listen_conflicts_fold list.distinct(1))

lemma set_topology_redirects:
  "r \<in> set (topology_redirects from_slice topology) \<longleftrightarrow>
     (\<exists>node \<in> set (mt_nodes topology). r \<in> set (node_redirects from_slice node))"
  by (simp add: topology_redirects_def)

lemma in_node_redirects:
  "r \<in> set (node_redirects from_slice node) \<longleftrightarrow>
     rd_node_id r = ni_node_id node \<and> rd_listen_port r = node_listen from_slice node \<and>
     rd_ports r = remove_self_redirects (node_hops from_slice node) (node_listen from_slice node) \<and>
     rd_ports r \<noteq> []"
  by (cases r) (auto simp: node_redirects_def Let_def)

lemma node_redirect_ports:
  assumes "r \<in> set (node_redirects from_slice node)"
  shows "ports (rd_ports r) =
           ports (node_hops from_slice node) - {unat (node_listen from_slice node)}"
    and "normal (rd_ports r)"
  using assms
  by (simp_all add: in_node_redirects remove_self_redirects_ports node_hops_normal
      remove_self_redirects_normal)

lemma node_accepted_listen:
  assumes "node_accepted from_slice node" and "r \<in> set (node_redirects from_slice node)"
  shows "rd_listen_port r \<noteq> 0"
proof
  assume "rd_listen_port r = 0"
  with assms(2) have "node_listen from_slice node = 0" "node_hops from_slice node \<noteq> []"
    by (auto simp: in_node_redirects remove_self_redirects_def)
  with assms(1) show False
    by (auto simp: node_accepted_def node_listen_def node_hops_def node_config_def
        split: if_splits)
qed

lemma singleton_disjoint: "A \<subseteq> {x} \<Longrightarrow> B \<subseteq> C \<Longrightarrow> x \<notin> C \<Longrightarrow> A \<inter> B = {}"
  by blast

lemma distinct_redirect_ids:
  "distinct (map ni_node_id nodes) \<Longrightarrow>
   distinct (map rd_node_id (concat (map (node_redirects from_slice) nodes)))"
proof (induction nodes)
  case (Cons node nodes)
  let ?tail = "concat (map (node_redirects from_slice) nodes)"
  have ids: "rd_node_id ` set ?tail \<subseteq> ni_node_id ` set nodes"
    "rd_node_id ` set (node_redirects from_slice node) \<subseteq> {ni_node_id node}"
    by (auto simp: in_node_redirects)
  have fresh: "ni_node_id node \<notin> ni_node_id ` set nodes" using Cons.prems by simp
  have "rd_node_id ` set (node_redirects from_slice node) \<inter> rd_node_id ` set ?tail = {}"
    by (rule singleton_disjoint [OF ids(2,1) fresh])
  moreover have "distinct (map rd_node_id (node_redirects from_slice node))"
    by (simp add: node_redirects_def Let_def)
  moreover have "distinct (map rd_node_id ?tail)" using Cons by simp
  ultimately show ?case
    by (simp only: list.map concat.simps map_append distinct_append set_map simp_thms)
qed simp

lemma topology_redirects_strict:
  assumes "distinct (map ni_node_id (mt_nodes topology))"
  shows "sorted_wrt (<) (map rd_node_id (topology_redirects from_slice topology))"
proof -
  have "mset (map rd_node_id (topology_redirects from_slice topology)) =
        mset (map rd_node_id (concat (map (node_redirects from_slice) (mt_nodes topology))))"
    by (simp add: topology_redirects_def)
  then have "distinct (map rd_node_id (topology_redirects from_slice topology))"
    using distinct_redirect_ids [OF assms, of from_slice] by (metis mset_eq_imp_distinct_iff)
  then show ?thesis
    by (simp add: strict_sorted_iff topology_redirects_def)
qed

lemma sorted_wrt_disjoint:
  "sorted_wrt disjoint_redirects rs \<Longrightarrow> a \<in> set rs \<Longrightarrow> b \<in> set rs \<Longrightarrow> a \<noteq> b \<Longrightarrow>
   ports (rd_ports a) \<inter> ports (rd_ports b) = {}"
  by (induction rs) (auto simp: disjoint_redirects_def)

lemma redirect_avoids_listen:
  assumes ids: "distinct (map ni_node_id nodes)" and clear: "listens_clear from_slice nodes"
    and node: "node \<in> set nodes" and other: "other \<in> set nodes"
    and r: "r \<in> set (node_redirects from_slice node)"
  shows "unat (node_listen from_slice other) \<notin> ports (rd_ports r)"
proof (cases "node_listen from_slice other = 0 \<or> ni_node_id node = ni_node_id other")
  case True
  then consider "node_listen from_slice other = 0" | "other = node"
    using ids node other by (auto simp: distinct_map dest: inj_onD)
  then show ?thesis
  proof cases
    case 1
    moreover have "0 \<notin> ports (rd_ports r)"
      using node_redirect_ports(2) [OF r]
      by (auto simp: normal_def ports_def range_ports_def list_all_iff valid_range_unat)
    ultimately show ?thesis by simp
  next
    case 2
    then show ?thesis by (simp add: node_redirect_ports(1) [OF r])
  qed
next
  case False
  with clear node other show ?thesis
    by (simp add: listens_clear_def node_redirect_ports(1) [OF r])
qed

section \<open>The digest\<close>

lemma str_bytes_append [simp]: "str_bytes (s @ t) = str_bytes s @ str_bytes t"
  by (simp add: str_bytes_def)

lemma u8_of_char_inject: "(of_nat (byte_of c) :: u8) = of_nat (byte_of d) \<longleftrightarrow> c = d"
proof -
  have "byte_of c < 256" "byte_of d < 256" by (simp_all add: byte_of_def)
  then show ?thesis
    by (auto simp: word_unat_eq_iff unat_of_nat byte_of_def)
qed

lemma str_bytes_inject [simp]: "str_bytes s = str_bytes t \<longleftrightarrow> s = t"
  unfolding str_bytes_def by (rule inj_map_eq_map) (simp add: inj_def u8_of_char_inject)

lemma in_str_bytes: "of_nat (byte_of c) \<in> set (str_bytes s) \<longleftrightarrow> c \<in> set s"
  by (auto simp: str_bytes_def u8_of_char_inject)

lemma str_bytes_0: "0 \<in> set (str_bytes s) \<longleftrightarrow> CHR 0x00 \<in> set s"
  using in_str_bytes [of "CHR 0x00" s] by (simp add: byte_of_def)

lemma digits_no_0: "list_all is_ascii_digit s \<Longrightarrow> CHR 0x00 \<notin> set s"
  by (auto simp: list_all_iff is_ascii_digit_def byte_of_def)

lemma range_input_inject:
  "range_input a @ xs = range_input b @ ys \<longleftrightarrow> a = b \<and> xs = ys"
proof -
  let ?s = "\<lambda>r. str_bytes (show_nat (unat (pr_start r)))" and
      ?e = "\<lambda>r. str_bytes (show_nat (unat (pr_end r)))"
  have no: "45 \<notin> set (str_bytes (show_nat n))" "44 \<notin> set (str_bytes (show_nat n))" for n
    using in_str_bytes [of "CHR ''-''" "show_nat n"] in_str_bytes [of "CHR '',''" "show_nat n"]
    by (simp_all add: byte_of_def)
  have "range_input r @ zs = ?s r @ 45 # (?e r @ 44 # zs)" for r zs
    by (simp add: range_input_def str_bytes_def byte_of_def)
  then show ?thesis
    by (auto simp: sep_inject no word_unat_eq_iff port_range.expand)
qed

lemma range_input_nonempty: "range_input a \<noteq> []"
  by (simp add: range_input_def str_bytes_def)

lemma ranges_input_inject:
  "concat (map range_input rs) = concat (map range_input qs) \<Longrightarrow> rs = qs"
proof (induction rs arbitrary: qs)
  case Nil
  then show ?case by (cases qs) (auto simp: range_input_nonempty)
next
  case (Cons r rs)
  then show ?case by (cases qs) (auto simp: range_input_nonempty range_input_inject)
qed

lemma ranges_input_0: "0 \<notin> set (concat (map range_input rs))"
proof -
  have "CHR 0x00 \<notin> set (show_nat n)" for n by (rule digits_no_0) (rule show_nat_digits)
  then show ?thesis by (auto simp: range_input_def str_bytes_0 simp del: str_bytes_append)
qed

lemma redirect_input_inject:
  assumes "CHR 0x00 \<notin> set (rd_node_id a)" "CHR 0x00 \<notin> set (rd_node_id b)"
  shows "redirect_input a @ xs = redirect_input b @ ys \<longleftrightarrow> a = b \<and> xs = ys"
proof -
  have no: "0 \<notin> set (str_bytes (show_nat n))" for n
    by (simp add: str_bytes_0 digits_no_0 show_nat_digits)
  have ids: "0 \<notin> set (str_bytes (rd_node_id a))" "0 \<notin> set (str_bytes (rd_node_id b))"
    using assms by (simp_all add: str_bytes_0)
  have eq: "redirect_input r @ zs = str_bytes (rd_node_id r) @ 0 #
      (str_bytes (show_nat (unat (rd_listen_port r))) @ 0 #
        (concat (map range_input (rd_ports r)) @ 0 # zs))" for r zs
    by (simp add: redirect_input_def)
  have "redirect_input a @ xs = redirect_input b @ ys \<longleftrightarrow>
      rd_node_id a = rd_node_id b \<and> rd_listen_port a = rd_listen_port b \<and>
      concat (map range_input (rd_ports a)) = concat (map range_input (rd_ports b)) \<and> xs = ys"
    unfolding eq sep_inject [OF ids] sep_inject [OF no no]
      sep_inject [OF ranges_input_0 ranges_input_0]
    by (simp add: word_unat_eq_iff)
  then show ?thesis
    using ranges_input_inject by (auto intro: Redirect.equality)
qed

lemma redirect_input_nonempty: "redirect_input a \<noteq> []"
  by (simp add: redirect_input_def)

definition nul_free :: "Plan \<Rightarrow> bool" where
  "nul_free plan \<longleftrightarrow> (\<forall>r \<in> set (pl_redirects plan). CHR 0x00 \<notin> set (rd_node_id r))"

lemma redirects_input_inject:
  "\<forall>r \<in> set rs \<union> set qs. CHR 0x00 \<notin> set (rd_node_id r) \<Longrightarrow>
   concat (map redirect_input rs) = concat (map redirect_input qs) \<Longrightarrow> rs = qs"
proof (induction rs arbitrary: qs)
  case Nil
  then show ?case by (cases qs) (auto simp: redirect_input_nonempty)
next
  case (Cons r rs)
  then show ?case by (cases qs) (auto simp: redirect_input_nonempty redirect_input_inject)
qed

lemma plan_input_inject: "nul_free p \<Longrightarrow> nul_free q \<Longrightarrow> plan_input p = plan_input q \<longleftrightarrow> p = q"
  using redirects_input_inject [of "pl_redirects p" "pl_redirects q"]
  by (auto simp: plan_input_def nul_free_def intro!: Plan.equality)

lemma hex_digit_inject: "a < 16 \<Longrightarrow> b < 16 \<Longrightarrow> hex_digit a = hex_digit b \<longleftrightarrow> a = b"
proof -
  assume "a < 16" "b < 16"
  then have "of_char (hex_digit a) = (if a < 10 then 48 + a else 87 + a)"
    "of_char (hex_digit b) = (if b < 10 then 48 + b else 87 + b)"
    by (simp_all add: hex_digit_def)
  then have "hex_digit a = hex_digit b \<Longrightarrow>
      (if a < 10 then 48 + a else 87 + a) = (if b < 10 then 48 + b else 87 + b)"
    by metis
  then show ?thesis by (auto split: if_splits)
qed

lemma lower_hex_inject [simp]: "lower_hex xs = lower_hex ys \<longleftrightarrow> xs = ys"
proof (induction xs arbitrary: ys)
  case (Cons x xs)
  have "unat x div 16 < 16" "unat x mod 16 < 16" for x :: u8
    using unat_u8_less [of x] by (auto simp: less_mult_imp_div_less)
  then have "hex_digit (unat x div 16) = hex_digit (unat y div 16) \<and>
      hex_digit (unat x mod 16) = hex_digit (unat y mod 16) \<longleftrightarrow> x = y" for y
    by (metis hex_digit_inject div_mult_mod_eq word_unat_eq_iff)
  with Cons.IH show ?case by (cases ys) (auto simp: lower_hex_def)
qed (auto simp: lower_hex_def)

section \<open>Properties of the plan\<close>

text \<open>The plan compiler accepts a topology exactly when its node ids are distinct,
  every Hysteria2 node decodes, has a valid hopping expression and a listen port where it hops, no
  node hops onto the listen port of another, and the redirects do not overlap; the plan is then the
  node redirects in the order of the node ids.\<close>

lemma build_plan_characterised:
  "build_plan from_slice topology = Inr plan \<longleftrightarrow>
     plannable from_slice topology \<and> plan = \<lparr> pl_redirects = topology_redirects from_slice topology \<rparr>"
  by (rule build_plan_iff)

text \<open>C8 (forwarding is unambiguous): in an accepted plan the redirects are strictly ascending in the
  node id; each one has a non-zero listen port and a non-empty normal list of ranges that are the
  hopping ports of a node of the topology less its own listen port; no redirected port is the
  listen port of a Hysteria2 node, and no port is redirected twice.\<close>

theorem build_plan_sound:
  assumes "build_plan from_slice topology = Inr plan"
  shows "sorted_wrt (<) (map rd_node_id (pl_redirects plan)) \<and>
    (\<forall>r \<in> set (pl_redirects plan). rd_listen_port r \<noteq> 0 \<and> rd_ports r \<noteq> [] \<and> normal (rd_ports r) \<and>
       (\<exists>node \<in> set (mt_nodes topology). rd_node_id r = ni_node_id node \<and>
          rd_listen_port r = node_listen from_slice node \<and>
          ports (rd_ports r) = ports (node_hops from_slice node) - {unat (rd_listen_port r)}) \<and>
       (\<forall>other \<in> set (mt_nodes topology). unat (node_listen from_slice other) \<notin> ports (rd_ports r)) \<and>
       (\<forall>q \<in> set (pl_redirects plan). q \<noteq> r \<longrightarrow> ports (rd_ports q) \<inter> ports (rd_ports r) = {}))"
proof -
  from assms have ok: "plannable from_slice topology"
    and plan: "pl_redirects plan = topology_redirects from_slice topology"
    by (auto simp: build_plan_iff)
  then have ids: "distinct (map ni_node_id (mt_nodes topology))"
    and acc: "\<forall>node \<in> set (mt_nodes topology). node_accepted from_slice node"
    and clear: "listens_clear from_slice (mt_nodes topology)"
    and disj: "sorted_wrt disjoint_redirects (topology_redirects from_slice topology)"
    by (simp_all add: plannable_def)
  have each: "rd_listen_port r \<noteq> 0 \<and> rd_ports r \<noteq> [] \<and> normal (rd_ports r) \<and>
       (\<exists>node \<in> set (mt_nodes topology). rd_node_id r = ni_node_id node \<and>
          rd_listen_port r = node_listen from_slice node \<and>
          ports (rd_ports r) = ports (node_hops from_slice node) - {unat (rd_listen_port r)}) \<and>
       (\<forall>other \<in> set (mt_nodes topology). unat (node_listen from_slice other) \<notin> ports (rd_ports r))"
    if "r \<in> set (topology_redirects from_slice topology)" for r
  proof -
    from that obtain node where node: "node \<in> set (mt_nodes topology)"
      and r: "r \<in> set (node_redirects from_slice node)"
      by (auto simp: set_topology_redirects)
    have avoid: "\<forall>other \<in> set (mt_nodes topology).
        unat (node_listen from_slice other) \<notin> ports (rd_ports r)"
      using redirect_avoids_listen [OF ids clear node _ r] by simp
    have fields: "rd_node_id r = ni_node_id node" "rd_listen_port r = node_listen from_slice node"
        "rd_ports r \<noteq> []"
      using r unfolding in_node_redirects by blast+
    have "ports (rd_ports r) = ports (node_hops from_slice node) - {unat (rd_listen_port r)}"
      using node_redirect_ports(1) [OF r] by (simp add: fields)
    with fields node avoid node_accepted_listen [OF acc [rule_format, OF node] r]
      node_redirect_ports(2) [OF r] show ?thesis
      by (intro conjI bexI [of _ node])
  qed
  have "\<forall>q \<in> set (topology_redirects from_slice topology). q \<noteq> r \<longrightarrow>
      ports (rd_ports q) \<inter> ports (rd_ports r) = {}"
    if "r \<in> set (topology_redirects from_slice topology)" for r
    using sorted_wrt_disjoint [OF disj _ that] by simp
  with each topology_redirects_strict [OF ids, of from_slice] show ?thesis
    unfolding plan by simp
qed

text \<open>A topology of two hopping nodes, for the witnesses: the first hops over its own listen port.\<close>

definition ex_from_slice :: "bytes \<Rightarrow> string + Hysteria2SalamanderConfig" where
  "ex_from_slice octets =
     (if octets = [1] then
        Inr (Hysteria2SalamanderConfig_default\<lparr> hc_listen_port := 443, hc_port_hopping := ''440-445'' \<rparr>)
      else if octets = [2] then
        Inr (Hysteria2SalamanderConfig_default\<lparr> hc_listen_port := 8443, hc_port_hopping := ''9000'' \<rparr>)
      else Inl ''EOF while parsing a value'')"

definition ex_node :: "string \<Rightarrow> bytes \<Rightarrow> NodeInstance" where
  "ex_node node_id config =
     \<lparr> ni_node_id = node_id, ni_provider_id = HYSTERIA2_SALAMANDER_ID,
       ni_provider_config_version = 1, ni_provider_config = config, ni_users = [] \<rparr>"

definition ex_topology :: MachineTopology where
  "ex_topology = MachineTopology_default\<lparr> mt_nodes := [ex_node ''b'' [2], ex_node ''a'' [1]] \<rparr>"

definition ex_plan :: Plan where
  "ex_plan = \<lparr> pl_redirects =
     [\<lparr> rd_node_id = ''a'', rd_listen_port = 443, rd_ports = [PortRange 440 442, PortRange 444 445] \<rparr>,
      \<lparr> rd_node_id = ''b'', rd_listen_port = 8443, rd_ports = [PortRange 9000 9000] \<rparr>] \<rparr>"

lemmas ex_defs = ex_from_slice_def ex_node_def ex_topology_def ex_plan_def

lemma ex_ranges:
  "parse_port_ranges ''440-445'' = Inr [PortRange 440 445]"
  "parse_port_ranges ''9000'' = Inr [PortRange 9000 9000]"
  by (simp_all add: range_eval)

lemma ex_decode:
  "decode_hysteria_config ex_from_slice [1] =
     Inr (Hysteria2SalamanderConfig_default\<lparr> hc_listen_port := 443, hc_port_hopping := ''440-445'' \<rparr>)"
  "decode_hysteria_config ex_from_slice [2] =
     Inr (Hysteria2SalamanderConfig_default\<lparr> hc_listen_port := 8443, hc_port_hopping := ''9000'' \<rparr>)"
  by (simp_all add: decode_hysteria_config_def ex_from_slice_def is_ascii_whitespace_def str_bytes_def)

lemma ex_build_plan: "build_plan ex_from_slice ex_topology = Inr ex_plan"
  by (simp add: build_plan_def plan_node_def plan_state_init_def ex_node_def ex_topology_def ex_plan_def
      MachineTopology_default_def HYSTERIA2_SALAMANDER_ID_def ex_decode ex_ranges
      remove_self_redirects_def split_at_listen_def contains_def listen_conflicts_def
      redirect_conflicts_def first_overlap_def Let_def)

theorem build_plan_sound_witness:
  "build_plan ex_from_slice ex_topology = Inr ex_plan \<and>
   sorted_wrt (<) [''a'', ''b''] \<and> normal [PortRange 440 442, PortRange 444 445] \<and>
   443 \<notin> ports [PortRange 440 442, PortRange 444 445] \<and>
   8443 \<notin> ports [PortRange 440 442, PortRange 444 445] \<and>
   ports [PortRange 9000 9000] \<inter> ports [PortRange 440 442, PortRange 444 445] = {}"
proof -
  have "node_listen ex_from_slice (ex_node ''a'' [1]) = 443"
    "node_listen ex_from_slice (ex_node ''b'' [2]) = 8443"
    by (simp_all add: node_listen_def node_config_def ex_node_def ex_decode)
  moreover have "mt_nodes ex_topology = [ex_node ''b'' [2], ex_node ''a'' [1]]"
    by (simp add: ex_topology_def)
  ultimately show ?thesis
    using build_plan_sound [OF ex_build_plan] ex_build_plan
    by (auto simp: ex_plan_def)
qed

text \<open>Where node ids hold no NUL and the hash separates the two inputs, two plans have
  the same digest exactly when they are equal: the octets fed to the hash determine the plan.\<close>

lemma plan_digest_identity:
  assumes "nul_free p" and "nul_free q"
    and "sha256 (plan_input p) = sha256 (plan_input q) \<Longrightarrow> plan_input p = plan_input q"
  shows "plan_digest sha256 p = plan_digest sha256 q \<longleftrightarrow> p = q"
  using assms by (auto simp: plan_digest_def plan_input_inject)

end
