(* ===== verification/Port_Errors.thy ===== *)
theory Port_Errors
  imports Rust_Text
begin

text \<open>
  \<open>porthopping/errors.rs\<close>: the error classes of the forwarding backends as one datatype of boxed
  errors with their sources, their display texts, and the classification that walks the chain of
  sources. An error of another crate or of the standard library is \<open>OtherError\<close> with its text.
\<close>

datatype box_error =
    CapabilityError (platform: string) (capability: string) (reason: string) "box_error option"
  | StateUncertainError "box_error option"
  | OperationError string "box_error option"
  | RouterClosedError
  | OtherError string "box_error option"

fun error_source :: "box_error \<Rightarrow> box_error option" where
  "error_source (CapabilityError _ _ _ source) = source"
| "error_source (StateUncertainError source) = source"
| "error_source (OperationError _ source) = source"
| "error_source RouterClosedError = None"
| "error_source (OtherError _ source) = source"

fun display_error :: "box_error \<Rightarrow> string" where
  "display_error (CapabilityError plat cap why source) =
     (let why' = (if why = [] then map_option display_error source else Some why) in
      ''port hopping forwarding capability is unavailable'' @
      (if plat \<noteq> [] then '' on '' @ plat else []) @
      (if cap \<noteq> [] then '': '' @ cap else []) @
      (case why' of None \<Rightarrow> [] | Some text \<Rightarrow> if text = [] then [] else '' ('' @ text @ '')''))"
| "display_error (StateUncertainError None) = ''port hopping forwarding state is uncertain''"
| "display_error (StateUncertainError (Some source)) = display_error source"
| "display_error (OperationError message None) = message"
| "display_error (OperationError message (Some source)) = message @ '': '' @ display_error source"
| "display_error RouterClosedError = ''port hopping router is closed''"
| "display_error (OtherError message _) = message"

text \<open>\<open>error_chain_contains\<close>, with the class as a predicate.\<close>

fun error_chain_contains :: "(box_error \<Rightarrow> bool) \<Rightarrow> box_error \<Rightarrow> bool" where
  "error_chain_contains p (CapabilityError plat cap why source) \<longleftrightarrow>
     p (CapabilityError plat cap why source) \<or>
     (case source of None \<Rightarrow> False | Some e \<Rightarrow> error_chain_contains p e)"
| "error_chain_contains p (StateUncertainError source) \<longleftrightarrow>
     p (StateUncertainError source) \<or>
     (case source of None \<Rightarrow> False | Some e \<Rightarrow> error_chain_contains p e)"
| "error_chain_contains p (OperationError message source) \<longleftrightarrow>
     p (OperationError message source) \<or>
     (case source of None \<Rightarrow> False | Some e \<Rightarrow> error_chain_contains p e)"
| "error_chain_contains p RouterClosedError \<longleftrightarrow> p RouterClosedError"
| "error_chain_contains p (OtherError message source) \<longleftrightarrow>
     p (OtherError message source) \<or>
     (case source of None \<Rightarrow> False | Some e \<Rightarrow> error_chain_contains p e)"

definition is_capability_unsupported :: "box_error \<Rightarrow> bool" where
  "is_capability_unsupported e =
     error_chain_contains (\<lambda>x. case x of CapabilityError _ _ _ _ \<Rightarrow> True | _ \<Rightarrow> False) e"

definition is_state_uncertain :: "box_error \<Rightarrow> bool" where
  "is_state_uncertain e =
     error_chain_contains (\<lambda>x. case x of StateUncertainError _ \<Rightarrow> True | _ \<Rightarrow> False) e"

definition is_router_closed :: "box_error \<Rightarrow> bool" where
  "is_router_closed e =
     error_chain_contains (\<lambda>x. case x of RouterClosedError \<Rightarrow> True | _ \<Rightarrow> False) e"

text \<open>The constructors without and with a source.\<close>

abbreviation operation_message :: "string \<Rightarrow> box_error" where
  "operation_message message \<equiv> OperationError message None"

abbreviation operation_wrap :: "string \<Rightarrow> box_error \<Rightarrow> box_error" where
  "operation_wrap message source \<equiv> OperationError message (Some source)"

section \<open>Classification\<close>

text \<open>The chain of an error, itself first; the walk finds a class exactly when it occurs in the chain.\<close>

inductive in_chain :: "box_error \<Rightarrow> box_error \<Rightarrow> bool" where
  chain_self: "in_chain e e"
| chain_source: "error_source e = Some s \<Longrightarrow> in_chain x s \<Longrightarrow> in_chain x e"

inductive_cases in_chainE: "in_chain x e"

lemma error_chain_contains_unfold:
  "error_chain_contains p e \<longleftrightarrow>
     p e \<or> (case error_source e of None \<Rightarrow> False | Some s \<Rightarrow> error_chain_contains p s)"
  by (cases e) simp_all

lemma in_chain_unfold:
  "in_chain x e \<longleftrightarrow> x = e \<or> (\<exists>s. error_source e = Some s \<and> in_chain x s)"
  by (auto elim: in_chainE intro: in_chain.intros)

lemma source_size: "error_source e = Some s \<Longrightarrow> size s < size e"
  by (cases e) auto

lemma error_chain_contains_iff: "error_chain_contains p e \<longleftrightarrow> (\<exists>x. in_chain x e \<and> p x)"
proof (induction "size e" arbitrary: e rule: less_induct)
  case less
  show ?case
  proof (cases "error_source e")
    case None
    then show ?thesis
      by (simp add: error_chain_contains_unfold [of p e] in_chain_unfold [of _ e])
  next
    case (Some s)
    with less source_size [OF Some] show ?thesis
      by (auto simp: error_chain_contains_unfold [of p e] in_chain_unfold [of _ e])
  qed
qed

lemma wrap_classified [simp]:
  "is_state_uncertain (OperationError m (Some e)) = is_state_uncertain e"
  "is_capability_unsupported (OperationError m (Some e)) = is_capability_unsupported e"
  "is_router_closed (OperationError m (Some e)) = is_router_closed e"
  by (simp_all add: is_state_uncertain_def is_capability_unsupported_def is_router_closed_def)

lemma leaf_classified [simp]:
  "\<not> is_state_uncertain (OperationError m None)" "is_state_uncertain (StateUncertainError s)"
  "\<not> is_state_uncertain RouterClosedError" "is_router_closed RouterClosedError"
  "\<not> is_state_uncertain (CapabilityError a b c None)"
  "is_capability_unsupported (CapabilityError a b c s)"
  "\<not> is_state_uncertain (OtherError m None)"
  by (simp_all add: is_state_uncertain_def is_router_closed_def is_capability_unsupported_def)

end
