(* ===== verification/Port_Manager.thy ===== *)
theory Port_Manager
  imports Port_Plan Port_Errors
begin

text \<open>
  \<open>porthopping/manager.rs\<close> with the two small backends: the serialized lifecycle of the forwarding
  state. A backend is a state and an \<open>apply\<close> operation; the contract that \<open>trait Backend\<close> documents is
  the locale \<open>forwarding_backend\<close>, the manager's guarantees are proved inside it for every sequence
  of calls, and the locale is interpreted on the backends of the sources.
\<close>

section \<open>Backends\<close>

type_synonym 'b backend_apply = "'b \<Rightarrow> Plan \<Rightarrow> 'b \<times> (box_error + unit)"

text \<open>\<open>backend_other.rs\<close>: a platform without forwarding; \<open>os\<close> is \<open>std::env::consts::OS\<close>.\<close>

definition unsupported_apply :: "string \<Rightarrow> unit backend_apply" where
  "unsupported_apply os backend desired =
     (if plan_is_empty desired then (backend, Inr ())
      else (backend, Inl (CapabilityError os ''UDP destination-port redirection''
        ''no native port hopping backend is registered for this platform'' None)))"

text \<open>\<open>backend_windows.rs\<close>: the development no-op, with its one-time warning.\<close>

record WindowsBackend =
  wb_machine_id :: string
  wb_warned :: bool

definition windows_new :: "string \<Rightarrow> WindowsBackend" where
  "windows_new machine_id = \<lparr> wb_machine_id = machine_id, wb_warned = False \<rparr>"

definition windows_apply :: "WindowsBackend backend_apply" where
  "windows_apply backend desired =
     (if \<not> plan_is_empty desired \<and> \<not> wb_warned backend
      then (backend\<lparr> wb_warned := True \<rparr>, Inr ())
      else (backend, Inr ()))"

section \<open>The manager\<close>

text \<open>The mutex of the manager's state, with the poison flag a panicking holder leaves.\<close>

record 'b port_manager =
  pm_backend :: 'b
  pm_closed :: bool
  pm_poisoned :: bool

definition with_backend :: "'b \<Rightarrow> 'b port_manager" where
  "with_backend backend = \<lparr> pm_backend = backend, pm_closed = False, pm_poisoned = False \<rparr>"

definition manager_apply :: "'b backend_apply \<Rightarrow> 'b port_manager \<Rightarrow> Plan \<Rightarrow>
    'b port_manager \<times> (box_error + unit)" where
  "manager_apply put m desired =
     (if pm_poisoned m then (m, Inl (operation_message ''port hopping manager lock is poisoned''))
      else if pm_closed m then (m, Inl RouterClosedError)
      else (case put (pm_backend m) desired of (b, r) \<Rightarrow> (m\<lparr> pm_backend := b \<rparr>, r)))"

definition manager_reconcile :: "'b backend_apply \<Rightarrow> 'b port_manager \<Rightarrow> Plan \<Rightarrow>
    'b port_manager \<times> (box_error + unit)" where
  "manager_reconcile put m desired = manager_apply put m desired"

definition manager_close :: "'b backend_apply \<Rightarrow> 'b port_manager \<Rightarrow>
    'b port_manager \<times> (box_error + unit)" where
  "manager_close put m =
     (if pm_poisoned m then (m, Inl (operation_message ''port hopping manager lock is poisoned''))
      else if pm_closed m then (m, Inr ())
      else (case put (pm_backend m) Plan_default of
              (b, Inl e) \<Rightarrow> (m\<lparr> pm_backend := b \<rparr>, Inl e)
            | (b, Inr _) \<Rightarrow> (m\<lparr> pm_backend := b, pm_closed := True \<rparr>, Inr ())))"

text \<open>Calls on a shared manager, serialized by its mutex.\<close>

datatype port_call = CallApply Plan | CallReconcile Plan | CallClose

fun manager_call :: "'b backend_apply \<Rightarrow> port_call \<Rightarrow> 'b port_manager \<Rightarrow>
    'b port_manager \<times> (box_error + unit)" where
  "manager_call put (CallApply p) m = manager_apply put m p"
| "manager_call put (CallReconcile p) m = manager_reconcile put m p"
| "manager_call put CallClose m = manager_close put m"

fun manager_run :: "'b backend_apply \<Rightarrow> port_call list \<Rightarrow> 'b port_manager \<Rightarrow> 'b port_manager" where
  "manager_run put [] m = m"
| "manager_run put (c # cs) m = manager_run put cs (fst (manager_call put c m))"

text \<open>The manager's invariant: once closed, nothing is forwarded.\<close>

definition closed_empty :: "('b \<Rightarrow> Plan) \<Rightarrow> 'b port_manager \<Rightarrow> bool" where
  "closed_empty committed m \<longleftrightarrow> (pm_closed m \<longrightarrow> committed (pm_backend m) = Plan_default)"

section \<open>The contract of a backend\<close>

text \<open>\<open>committed\<close> is the forwarding state a backend owns. An accepted plan is the committed one; an
  ordinary error leaves the previous one; only an uncertain error leaves it open.\<close>

locale forwarding_backend =
  fixes put :: "'b backend_apply"
    and committed :: "'b \<Rightarrow> Plan"
  assumes accept: "put b desired = (b', Inr u) \<Longrightarrow> committed b' = desired"
    and ordinary: "put b desired = (b', Inl e) \<Longrightarrow> \<not> is_state_uncertain e \<Longrightarrow>
      committed b' = committed b"
begin

lemma apply_ok: "manager_apply put m p = (m', Inr u) \<Longrightarrow>
    committed (pm_backend m') = p \<and> \<not> pm_closed m \<and> \<not> pm_closed m'"
  by (auto simp: manager_apply_def dest: accept split: if_splits prod.splits)

lemma apply_ordinary: "manager_apply put m p = (m', Inl e) \<Longrightarrow> \<not> is_state_uncertain e \<Longrightarrow>
    committed (pm_backend m') = committed (pm_backend m) \<and> pm_closed m' = pm_closed m"
  by (auto simp: manager_apply_def dest: ordinary split: if_splits prod.splits)

lemma close_ok: "manager_close put m = (m', Inr u) \<Longrightarrow>
    pm_closed m' \<and> (pm_closed m \<or> committed (pm_backend m') = Plan_default)"
  by (auto simp: manager_close_def dest: accept split: if_splits prod.splits sum.splits)

lemma close_failed: "manager_close put m = (m', Inl e) \<Longrightarrow>
    pm_closed m' = pm_closed m \<and>
    (\<not> is_state_uncertain e \<longrightarrow> committed (pm_backend m') = committed (pm_backend m))"
  by (auto simp: manager_close_def dest: ordinary split: if_splits prod.splits sum.splits)

lemma call_closed_empty:
  "closed_empty committed m \<Longrightarrow> closed_empty committed (fst (manager_call put c m))"
  by (cases c)
     (auto simp: closed_empty_def manager_apply_def manager_reconcile_def manager_close_def
       dest: accept split: prod.splits sum.splits)

lemma run_closed_empty:
  "closed_empty committed m \<Longrightarrow> closed_empty committed (manager_run put cs m)"
  by (induction cs arbitrary: m) (auto intro: call_closed_empty)

end

lemma run_stays_closed:
  "pm_closed m \<Longrightarrow> pm_closed (manager_run put cs m) \<and>
   pm_backend (manager_run put cs m) = pm_backend m"
proof (induction cs arbitrary: m)
  case (Cons c cs)
  then have "fst (manager_call put c m) = m"
    by (cases c) (auto simp: manager_apply_def manager_reconcile_def manager_close_def)
  with Cons show ?case by simp
qed simp

interpretation unsupported: forwarding_backend "unsupported_apply os" "\<lambda>_. Plan_default"
  by unfold_locales
     (auto simp: unsupported_apply_def plan_is_empty_def Plan_default_def split: if_splits)

lemma call_not_poisoned: "pm_poisoned (fst (manager_call put c m)) = pm_poisoned m"
  by (cases c)
     (auto simp: manager_apply_def manager_reconcile_def manager_close_def split: prod.splits sum.splits)

lemma run_not_poisoned: "pm_poisoned (manager_run put cs m) = pm_poisoned m"
  by (induction cs arbitrary: m) (simp_all add: call_not_poisoned)

section \<open>Properties of the manager\<close>

text \<open>With a backend that keeps its contract, after any calls on a new manager a
  successful close leaves no forwarding state, and whatever is called afterwards the manager stays
  closed, forwards nothing, rejects every plan and accepts a repeated close.\<close>

lemma manager_close_final:
  assumes "forwarding_backend put committed"
    and "manager_close put (manager_run put before (with_backend b)) = (m, Inr u)"
  shows "pm_closed (manager_run put after m) \<and>
    committed (pm_backend (manager_run put after m)) = Plan_default \<and>
    manager_apply put (manager_run put after m) p =
      (manager_run put after m, Inl RouterClosedError) \<and>
    manager_close put (manager_run put after m) = (manager_run put after m, Inr ())"
proof -
  let ?m0 = "manager_run put before (with_backend b)"
  have "closed_empty committed ?m0"
    by (rule forwarding_backend.run_closed_empty [OF assms(1)])
       (simp add: closed_empty_def with_backend_def)
  then have "closed_empty committed m" "pm_closed m"
    using forwarding_backend.call_closed_empty [OF assms(1), of ?m0 CallClose]
      forwarding_backend.close_ok [OF assms] assms(2) by auto
  moreover have "\<not> pm_poisoned (manager_run put after m)"
    using call_not_poisoned [of put CallClose ?m0] assms(2)
    by (simp add: run_not_poisoned with_backend_def)
  ultimately show ?thesis
    using run_stays_closed [of m put after]
    by (simp add: closed_empty_def manager_apply_def manager_close_def)
qed

text \<open>With a backend that keeps its contract, a rejected plan or a failed
  close that is not reported as uncertain leaves the forwarding state and the lifecycle as they
  were, and an accepted plan is exactly the forwarding state.\<close>

lemma manager_failure_atomic:
  assumes "forwarding_backend put committed"
  shows "(case manager_call put c m of
      (m', Inl e) \<Rightarrow> pm_closed m' = pm_closed m \<and>
        (is_state_uncertain e \<or> committed (pm_backend m') = committed (pm_backend m))
    | (m', Inr _) \<Rightarrow> (case c of
          CallApply p \<Rightarrow> committed (pm_backend m') = p
        | CallReconcile p \<Rightarrow> committed (pm_backend m') = p
        | CallClose \<Rightarrow> pm_closed m'))"
proof -
  note facts = forwarding_backend.apply_ok [OF assms] forwarding_backend.apply_ordinary [OF assms]
    forwarding_backend.close_ok [OF assms] forwarding_backend.close_failed [OF assms]
  have closed: "manager_apply put m p = (m', r) \<Longrightarrow> pm_closed m' = pm_closed m" for p m' r
    by (auto simp: manager_apply_def split: if_splits prod.splits)
  show ?thesis
    by (cases c) (auto simp: manager_reconcile_def dest: facts closed split: sum.splits prod.splits)
qed

end
