(* ===== verification/Runtime_Api.thy ===== *)
theory Runtime_Api
  imports Rust_Text
begin

text \<open>
  The interface of \<open>runtime.rs\<close> that the topology layer calls: the classified runtime error, the health
  and reload reports, and \<open>trait NodeRuntime\<close> as a record of operations over a runtime state. The
  contract \<open>node_runtime\<close> states what the error classification promises about the served
  configuration.
\<close>

record RuntimeHealthSnapshot =
  rhs_running :: bool
  rhs_failure :: "string option"

record ReloadStatus =
  rls_running :: bool
  rls_rolled_back :: bool

record RuntimeError =
  rte_operation :: string
  rte_rollback :: "string option"
  rte_rolled_back :: bool
  rte_state_unchanged :: bool
  rte_running :: bool

definition runtime_error_external :: "string \<Rightarrow> bool \<Rightarrow> bool \<Rightarrow> bool \<Rightarrow> RuntimeError" where
  "runtime_error_external operation rolled_back state_unchanged running =
     \<lparr> rte_operation = operation, rte_rollback = None, rte_rolled_back = rolled_back,
       rte_state_unchanged = state_unchanged, rte_running = running \<rparr>"

definition runtime_error_unchanged :: "string \<Rightarrow> bool \<Rightarrow> RuntimeError" where
  "runtime_error_unchanged operation running =
     \<lparr> rte_operation = operation, rte_rollback = None, rte_rolled_back = False,
       rte_state_unchanged = True, rte_running = running \<rparr>"

definition runtime_error_failed :: "string \<Rightarrow> string list \<Rightarrow> bool \<Rightarrow> bool \<Rightarrow> bool \<Rightarrow> RuntimeError" where
  "runtime_error_failed operation rollback rolled_back state_unchanged running =
     \<lparr> rte_operation = operation,
       rte_rollback = (if rollback \<noteq> [] then Some (join ''; '' rollback) else None),
       rte_rolled_back = rolled_back,
       rte_state_unchanged = state_unchanged, rte_running = running \<rparr>"

definition display_runtime_error :: "RuntimeError \<Rightarrow> string" where
  "display_runtime_error e =
     rte_operation e @
     (case rte_rollback e of
        Some rollback \<Rightarrow> ''; rollback failed: '' @ rollback
      | None \<Rightarrow> if rte_rolled_back e then ''; previous runtime state restored'' else [])"

text \<open>\<open>trait NodeRuntime\<close>, the operations that the topology layer uses.\<close>

record ('r, 'c) node_runtime =
  nr_traffic_analysis_disabled :: "'r \<Rightarrow> bool"
  nr_apply_config :: "'r \<Rightarrow> 'c \<Rightarrow> 'r \<times> (RuntimeError + unit)"
  nr_reload_config :: "'r \<Rightarrow> 'c \<Rightarrow> 'r \<times> (RuntimeError + ReloadStatus)"
  nr_current_config :: "'r \<Rightarrow> bytes"
  nr_begin_close :: "'r \<Rightarrow> 'r"
  nr_close :: "'r \<Rightarrow> 'r \<times> (RuntimeError + unit)"
  nr_runtime_health_snapshot :: "'r \<Rightarrow> RuntimeHealthSnapshot option"
  nr_close_user_connections :: "'r \<Rightarrow> string \<Rightarrow> string \<Rightarrow> 'r \<times> u64"

text \<open>The documented contract: an accepted configuration is the served one, and a failure classified
  as rolled back or as a preflight rejection leaves the served configuration as it was.\<close>

locale node_runtime_contract =
  fixes ops :: "('r, 'c) node_runtime"
    and serving :: "'r \<Rightarrow> 'c option"
  assumes apply_accepts: "nr_apply_config ops r c = (r', Inr u) \<Longrightarrow> serving r' = Some c"
    and apply_rejects: "nr_apply_config ops r c = (r', Inl e) \<Longrightarrow>
      rte_rolled_back e \<or> rte_state_unchanged e \<Longrightarrow> serving r' = serving r"
    and reload_accepts: "nr_reload_config ops r c = (r', Inr st) \<Longrightarrow> rls_running st \<Longrightarrow>
      serving r' = Some c"
    and reload_rejects: "nr_reload_config ops r c = (r', Inl e) \<Longrightarrow>
      rte_rolled_back e \<or> rte_state_unchanged e \<Longrightarrow> serving r' = serving r"
    and policy_fixed:
      "nr_traffic_analysis_disabled ops (fst (nr_apply_config ops r c)) =
         nr_traffic_analysis_disabled ops r"
      "nr_traffic_analysis_disabled ops (fst (nr_reload_config ops r c)) =
         nr_traffic_analysis_disabled ops r"
begin

text \<open>A failed apply followed by a successful apply of the previous configuration restores it, whatever
  the classification of the failure.\<close>

lemma restore_serving:
  "nr_apply_config ops r c = (r1, Inl e) \<Longrightarrow> nr_apply_config ops r1 previous = (r2, Inr u) \<Longrightarrow>
   serving r2 = Some previous"
  by (rule apply_accepts)

end

end
