(* ===== verification/Topology_Adapter.thy ===== *)
theory Topology_Adapter
  imports Port_Manager Runtime_Api Topology_Model
begin

text \<open>
  The data-plane transaction of \<open>topology/manager.rs\<close>: \<open>NodeRuntimeTopologyAdapter\<close> compiles a topology,
  reconciles port forwarding and hands the configuration to the runtime, and on failure restores
  both. The port router and the runtime are parameters with their contracts; the compiler
  \<open>crate::compile\<close> and the JSON decoding are functions. A transaction runs under the adapter's
  operation lock and is one step; the \<open>closing\<close> flag, which another task may set meanwhile, is the
  value read by the transaction.
\<close>

section \<open>Classified errors\<close>

datatype TopologyErrorKind =
    StaleRevision
  | RevisionMismatch
  | UsersChangedDuringRefresh
  | InvalidMutation
  | RuntimeKind

record TopologyError =
  te_kind :: TopologyErrorKind
  te_message :: string
  te_rolled_back :: bool
  te_running :: bool
  te_rollback_stage :: bool

definition topology_error :: "TopologyErrorKind \<Rightarrow> string \<Rightarrow> TopologyError" where
  "topology_error kind message =
     \<lparr> te_kind = kind, te_message = message, te_rolled_back = False, te_running = True,
       te_rollback_stage = False \<rparr>"

definition error_runtime :: "string \<Rightarrow> bool \<Rightarrow> TopologyError" where
  "error_runtime message rolled_back =
     \<lparr> te_kind = RuntimeKind, te_message = message, te_rolled_back = rolled_back,
       te_running = True, te_rollback_stage = rolled_back \<rparr>"

definition error_runtime_state :: "string \<Rightarrow> bool \<Rightarrow> bool \<Rightarrow> TopologyError" where
  "error_runtime_state message rolled_back running =
     \<lparr> te_kind = RuntimeKind, te_message = message, te_rolled_back = rolled_back,
       te_running = running, te_rollback_stage = rolled_back \<rparr>"

definition revision_recovery_required :: "TopologyError \<Rightarrow> bool" where
  "revision_recovery_required e \<longleftrightarrow> te_kind e \<in> {StaleRevision, RevisionMismatch}"

definition with_rollback_stage :: "TopologyError \<Rightarrow> TopologyError" where
  "with_rollback_stage e = e\<lparr> te_rollback_stage := True \<rparr>"

lemma error_flags [simp]:
  "te_kind (topology_error k m) = k" "te_kind (error_runtime m b) = RuntimeKind"
  "te_kind (error_runtime_state m b r) = RuntimeKind"
  "te_rolled_back (topology_error k m) = False" "te_rolled_back (error_runtime m b) = b"
  "te_rolled_back (error_runtime_state m b r) = b"
  "te_running (topology_error k m) = True" "te_running (error_runtime m b) = True"
  "te_running (error_runtime_state m b r) = r"
  "te_rollback_stage (topology_error k m) = False" "te_rollback_stage (error_runtime m b) = b"
  "te_rollback_stage (error_runtime_state m b r) = b"
  "te_kind (with_rollback_stage e) = te_kind e"
  "te_rolled_back (with_rollback_stage e) = te_rolled_back e"
  "te_running (with_rollback_stage e) = te_running e"
  "te_rollback_stage (with_rollback_stage e) = True"
  by (simp_all add: topology_error_def error_runtime_def error_runtime_state_def
      with_rollback_stage_def)

section \<open>The port router\<close>

text \<open>The outcome of a task on a worker thread: joined, or lost to a panic.\<close>

datatype 'a task = Joined 'a | JoinError string

text \<open>\<open>trait PortRouter\<close>.\<close>

record 'p port_router =
  prt_reconcile :: "'p \<Rightarrow> Plan \<Rightarrow> 'p \<times> (box_error + unit) task"
  prt_close :: "'p \<Rightarrow> 'p \<times> (box_error + unit) task"

definition port_manager_router :: "'b backend_apply \<Rightarrow> 'b port_manager port_router" where
  "port_manager_router put =
     \<lparr> prt_reconcile = (\<lambda>m plan. case manager_reconcile put m plan of (m', r) \<Rightarrow> (m', Joined r)),
       prt_close = (\<lambda>m. case manager_close put m of (m', r) \<Rightarrow> (m', Joined r)) \<rparr>"

definition port_task_failure :: "string \<Rightarrow> box_error" where
  "port_task_failure error =
     StateUncertainError (Some (OtherError (''port hopping worker failed: '' @ error) None))"

definition join_task :: "'p \<times> (box_error + unit) task \<Rightarrow> 'p \<times> (box_error + unit)" where
  "join_task t =
     (case t of (p, Joined r) \<Rightarrow> (p, r) | (p, JoinError error) \<Rightarrow> (p, Inl (port_task_failure error)))"

definition reconcile_ports :: "'p port_router \<Rightarrow> 'p \<Rightarrow> Plan \<Rightarrow> 'p \<times> (box_error + unit)" where
  "reconcile_ports router p plan = join_task (prt_reconcile router p plan)"

definition close_ports :: "'p port_router \<Rightarrow> 'p \<Rightarrow> 'p \<times> (box_error + unit)" where
  "close_ports router p = join_task (prt_close router p)"

section \<open>Adapter state\<close>

record 'c PreparedReload =
  pre_candidate :: MachineTopology
  pre_desired_plan :: Plan
  pre_previous_plan :: Plan
  pre_previous_config :: "'c option"
  pre_previous_had_topology :: bool
  pre_warnings :: "string list"
  pre_configured :: bool

record ('p, 'r, 'c) adapter =
  ad_runtime :: 'r
  ad_port_router :: 'p
  ad_closing :: bool
  ad_active_topology :: MachineTopology
  ad_active_plan :: Plan
  ad_active_warnings :: "string list"
  ad_pending_reload :: "'c PreparedReload option"

definition with_router :: "'r \<Rightarrow> 'p \<Rightarrow> ('p, 'r, 'c) adapter" where
  "with_router runtime port_router =
     \<lparr> ad_runtime = runtime, ad_port_router = port_router, ad_closing = False,
       ad_active_topology = MachineTopology_default, ad_active_plan = Plan_default,
       ad_active_warnings = [], ad_pending_reload = None \<rparr>"

text \<open>What the adapter calls: the router, the runtime, \<open>compile_with_local_overrides\<close> (configuration and
  warnings) and the JSON decoding of provider payloads.\<close>

record ('p, 'r, 'c) adapter_env =
  ae_router :: "'p port_router"
  ae_runtime :: "('r, 'c) node_runtime"
  ae_compile :: "MachineTopology \<Rightarrow> bool \<Rightarrow> string + 'c \<times> string list"
  ae_from_slice :: "bytes \<Rightarrow> string + Hysteria2SalamanderConfig"

definition adapter_reconcile ::
    "('p, 'r, 'c) adapter_env \<Rightarrow> ('p, 'r, 'c) adapter \<Rightarrow> Plan \<Rightarrow>
      ('p, 'r, 'c) adapter \<times> (box_error + unit)" where
  "adapter_reconcile env a plan =
     (case reconcile_ports (ae_router env) (ad_port_router a) plan of
        (p, r) \<Rightarrow> (a\<lparr> ad_port_router := p \<rparr>, r))"

definition adapter_apply_config ::
    "('p, 'r, 'c) adapter_env \<Rightarrow> ('p, 'r, 'c) adapter \<Rightarrow> 'c \<Rightarrow>
      ('p, 'r, 'c) adapter \<times> (RuntimeError + unit)" where
  "adapter_apply_config env a config =
     (case nr_apply_config (ae_runtime env) (ad_runtime a) config of
        (r, res) \<Rightarrow> (a\<lparr> ad_runtime := r \<rparr>, res))"

definition adapter_reload_config ::
    "('p, 'r, 'c) adapter_env \<Rightarrow> ('p, 'r, 'c) adapter \<Rightarrow> 'c \<Rightarrow>
      ('p, 'r, 'c) adapter \<times> (RuntimeError + ReloadStatus)" where
  "adapter_reload_config env a config =
     (case nr_reload_config (ae_runtime env) (ad_runtime a) config of
        (r, res) \<Rightarrow> (a\<lparr> ad_runtime := r \<rparr>, res))"

definition adapter_compile ::
    "('p, 'r, 'c) adapter_env \<Rightarrow> ('p, 'r, 'c) adapter \<Rightarrow> MachineTopology \<Rightarrow> string + 'c \<times> string list"
  where
  "adapter_compile env a topology =
     ae_compile env topology (nr_traffic_analysis_disabled (ae_runtime env) (ad_runtime a))"

section \<open>Failure handling\<close>

definition port_configuration_failure ::
    "('p, 'r, 'c) adapter_env \<Rightarrow> ('p, 'r, 'c) adapter \<Rightarrow> box_error \<Rightarrow> Plan \<Rightarrow> bool \<Rightarrow>
      ('p, 'r, 'c) adapter \<times> TopologyError" where
  "port_configuration_failure env a error previous_plan previous_had_topology =
     (let message = ''configure port hopping forwarding: '' @ display_error error in
      if \<not> is_state_uncertain error then (a, error_runtime message False)
      else
        (case adapter_reconcile env a previous_plan of
           (a', Inr _) \<Rightarrow>
             (a', if previous_had_topology
                  then error_runtime_state (message @ ''; previous forwarding state restored'') True True
                  else error_runtime message False)
         | (a', Inl rollback) \<Rightarrow>
             (a', with_rollback_stage (error_runtime_state
               (message @
                ''; rollback incomplete: restore previous port hopping forwarding state: '' @
                display_error rollback) False True))))"

definition prepared_reload_protocol_failure ::
    "('p, 'r, 'c) adapter_env \<Rightarrow> ('p, 'r, 'c) adapter \<Rightarrow> string \<Rightarrow> 'c PreparedReload \<Rightarrow>
      ('p, 'r, 'c) adapter \<times> TopologyError" where
  "prepared_reload_protocol_failure env a message pending =
     (if \<not> pre_configured pending then (a, error_runtime message False)
      else
        (case adapter_reconcile env a (pre_previous_plan pending) of
           (a', Inr _) \<Rightarrow>
             (a', if pre_previous_had_topology pending
                  then error_runtime_state (message @ ''; previous forwarding state restored'') True True
                  else error_runtime message False)
         | (a', Inl error) \<Rightarrow>
             (a', with_rollback_stage (error_runtime_state
               (message @
                ''; rollback incomplete: restore previous port hopping forwarding state: '' @
                display_error error) False True))))"

datatype RuntimeFailureMode = OrdinaryApply | ForcedReload

record RuntimeFailureState =
  rf_operation :: string
  rf_rolled_back :: bool
  rf_unchanged :: bool
  rf_running :: bool

definition RuntimeFailureState_from :: "RuntimeError \<Rightarrow> RuntimeFailureState" where
  "RuntimeFailureState_from error =
     \<lparr> rf_operation = display_runtime_error error,
       rf_rolled_back = rte_rolled_back error,
       rf_unchanged = rte_state_unchanged error,
       rf_running = rte_running error \<rparr>"

record 'c RuntimeRollbackTarget =
  rb_port_hopping :: Plan
  rb_config :: "'c option"
  rb_had_topology :: bool

definition should_restore_runtime ::
    "bool \<Rightarrow> RuntimeFailureState \<Rightarrow> RuntimeFailureMode \<Rightarrow> 'c option \<Rightarrow> bool" where
  "should_restore_runtime closing failure mode config \<longleftrightarrow>
     config \<noteq> None \<and> \<not> (closing \<and> (rf_unchanged failure \<or> rf_rolled_back failure)) \<and>
     (case mode of
        OrdinaryApply \<Rightarrow> True
      | ForcedReload \<Rightarrow> \<not> (rf_rolled_back failure \<or> rf_unchanged failure))"

text \<open>The restore of the previous configuration: the adapter, whether it succeeded, the liveness
  reported and the rollback errors it adds.\<close>

definition restore_runtime ::
    "('p, 'r, 'c) adapter_env \<Rightarrow> ('p, 'r, 'c) adapter \<Rightarrow> bool \<Rightarrow> RuntimeFailureState \<Rightarrow> RuntimeFailureMode \<Rightarrow>
      'c option \<Rightarrow> ('p, 'r, 'c) adapter \<times> bool \<times> bool \<times> string list" where
  "restore_runtime env a closing failure mode config =
     (if should_restore_runtime closing failure mode config then
        (case config of
           None \<Rightarrow> (a, False, rf_running failure, [])
         | Some previous \<Rightarrow>
             (case adapter_apply_config env a previous of
                (a', Inr _) \<Rightarrow> (a', True, True, [])
              | (a', Inl error) \<Rightarrow>
                  (a', False, False,
                   [''restore previous shoes configuration: '' @ display_runtime_error error])))
      else (a, False, rf_running failure, []))"

definition runtime_transaction_failure_parts ::
    "('p, 'r, 'c) adapter_env \<Rightarrow> ('p, 'r, 'c) adapter \<Rightarrow> bool \<Rightarrow> RuntimeFailureState \<Rightarrow>
      'c RuntimeRollbackTarget \<Rightarrow> RuntimeFailureMode \<Rightarrow> ('p, 'r, 'c) adapter \<times> TopologyError" where
  "runtime_transaction_failure_parts env a closing failure previous mode =
     (case adapter_reconcile env a (rb_port_hopping previous) of (a1, ports_result) \<Rightarrow>
      let port_errors =
            (case ports_result of
               Inl error \<Rightarrow>
                 [''restore previous port hopping forwarding state: '' @ display_error error]
             | Inr _ \<Rightarrow> [])
      in
      case restore_runtime env a1 closing failure mode (rb_config previous) of
        (a2, restored_runtime, running, runtime_errors) \<Rightarrow>
      let rollback_errors = port_errors @ runtime_errors;
          runtime_restored = restored_runtime \<or> rf_rolled_back failure \<or>
            (mode = OrdinaryApply \<and> rf_unchanged failure);
          restored = rollback_errors = [] \<and> rb_had_topology previous \<and> running \<and> runtime_restored;
          message = ''start/apply shoes runtime: '' @ rf_operation failure @
            (if rollback_errors \<noteq> [] then ''; rollback incomplete: '' @ join ''; '' rollback_errors
             else if restored then ''; previous topology restored''
             else []);
          error = error_runtime_state message restored running
      in (a2, if rollback_errors \<noteq> [] \<or> restored then with_rollback_stage error else error))"

definition runtime_transaction_failure ::
    "('p, 'r, 'c) adapter_env \<Rightarrow> ('p, 'r, 'c) adapter \<Rightarrow> bool \<Rightarrow> RuntimeError \<Rightarrow> Plan \<Rightarrow> 'c option \<Rightarrow> bool \<Rightarrow>
      RuntimeFailureMode \<Rightarrow> ('p, 'r, 'c) adapter \<times> TopologyError" where
  "runtime_transaction_failure env a closing error previous_plan previous_config
       previous_had_topology mode =
     runtime_transaction_failure_parts env a closing (RuntimeFailureState_from error)
       \<lparr> rb_port_hopping = previous_plan, rb_config = previous_config,
         rb_had_topology = previous_had_topology \<rparr> mode"

section \<open>The operations\<close>

definition adapter_begin_close ::
    "('p, 'r, 'c) adapter_env \<Rightarrow> ('p, 'r, 'c) adapter \<Rightarrow> ('p, 'r, 'c) adapter" where
  "adapter_begin_close env a =
     a\<lparr> ad_closing := True, ad_runtime := nr_begin_close (ae_runtime env) (ad_runtime a) \<rparr>"

text \<open>The rollback target of a transaction: the plan and the configuration of the active topology.\<close>

definition previous_target ::
    "('p, 'r, 'c) adapter_env \<Rightarrow> ('p, 'r, 'c) adapter \<Rightarrow> TopologyError + 'c RuntimeRollbackTarget" where
  "previous_target env a =
     rbind (rmap_err (\<lambda>error. error_runtime
         (''build previous port hopping forwarding configuration: '' @ error) False)
       (build_plan (ae_from_slice env) (ad_active_topology a))) (\<lambda>previous_plan.
     let previous_had_topology = (mt_machine_id (ad_active_topology a) \<noteq> []) in
     rbind (if previous_had_topology then
              rmap_err (\<lambda>error. error_runtime
                  (''compile previous shoes configuration for rollback: '' @ error) False)
                (rbind (adapter_compile env a (ad_active_topology a)) (\<lambda>output. Inr (Some (fst output))))
            else Inr None) (\<lambda>previous_config.
     Inr \<lparr> rb_port_hopping = previous_plan, rb_config = previous_config,
           rb_had_topology = previous_had_topology \<rparr>))"

text \<open>The checks that precede every live change: the compiled candidate, its plan and the target.\<close>

definition prepare_candidate ::
    "('p, 'r, 'c) adapter_env \<Rightarrow> ('p, 'r, 'c) adapter \<Rightarrow> MachineTopology \<Rightarrow>
      TopologyError + ('c \<times> string list) \<times> Plan" where
  "prepare_candidate env a candidate =
     rbind (rmap_err (\<lambda>error. error_runtime (''compile topology: '' @ error) False)
       (adapter_compile env a candidate)) (\<lambda>output.
     rbind (rmap_err (\<lambda>error. error_runtime
         (''build port hopping forwarding configuration: '' @ error) False)
       (build_plan (ae_from_slice env) candidate)) (\<lambda>desired_plan.
     Inr (output, desired_plan)))"

definition adapter_apply ::
    "('p, 'r, 'c) adapter_env \<Rightarrow> ('p, 'r, 'c) adapter \<Rightarrow> bool \<Rightarrow> MachineTopology \<Rightarrow>
      ('p, 'r, 'c) adapter \<times> (TopologyError + unit)" where
  "adapter_apply env a closing candidate =
     (case rbind (prepare_candidate env a candidate) (\<lambda>(output, desired_plan).
             rbind (previous_target env a) (\<lambda>previous. Inr (output, desired_plan, previous))) of
        Inl error \<Rightarrow> (a, Inl error)
      | Inr (output, desired_plan, previous) \<Rightarrow>
          (case adapter_reconcile env a desired_plan of
             (a1, Inl error) \<Rightarrow>
               (case port_configuration_failure env a1 error (rb_port_hopping previous)
                       (rb_had_topology previous) of (a2, e) \<Rightarrow> (a2, Inl e))
           | (a1, Inr _) \<Rightarrow>
               (case adapter_apply_config env a1 (fst output) of
                  (a2, Inl error) \<Rightarrow>
                    (case runtime_transaction_failure env a2 closing error
                            (rb_port_hopping previous) (rb_config previous)
                            (rb_had_topology previous) OrdinaryApply of (a3, e) \<Rightarrow> (a3, Inl e))
                | (a2, Inr _) \<Rightarrow>
                    (a2\<lparr> ad_active_topology := candidate, ad_active_plan := desired_plan,
                         ad_active_warnings := snd output, ad_pending_reload := None \<rparr>, Inr ()))))"

definition adapter_close_user_connections ::
    "('p, 'r, 'c) adapter_env \<Rightarrow> ('p, 'r, 'c) adapter \<Rightarrow> string \<Rightarrow> string \<Rightarrow>
      ('p, 'r, 'c) adapter \<times> u64" where
  "adapter_close_user_connections env a node_id user_id =
     (case nr_close_user_connections (ae_runtime env) (ad_runtime a) node_id user_id of
        (r, n) \<Rightarrow> (a\<lparr> ad_runtime := r \<rparr>, n))"

text \<open>Rust's \<open>{:?}\<close> of an \<open>Option<String>\<close>.\<close>

definition debug_opt_str :: "string option \<Rightarrow> string" where
  "debug_opt_str m = (case m of None \<Rightarrow> ''None'' | Some s \<Rightarrow> ''Some('' @ debug_str s @ '')'')"

text \<open>The forced reload of a failed listener: the adapter and the failures it adds.\<close>

definition recover_listener ::
    "('p, 'r, 'c) adapter_env \<Rightarrow> ('p, 'r, 'c) adapter \<Rightarrow> string \<Rightarrow> 'c \<Rightarrow>
      ('p, 'r, 'c) adapter \<times> string list" where
  "recover_listener env a failure recovery =
     (case adapter_reload_config env a recovery of
        (a', Inr _) \<Rightarrow>
          (a', (case nr_runtime_health_snapshot (ae_runtime env) (ad_runtime a') of
                  Some after \<Rightarrow>
                    if rhs_failure after \<noteq> None \<or> \<not> rhs_running after
                    then [''runtime still unhealthy after recovery of '' @ failure @ '': '' @
                          debug_opt_str (rhs_failure after)]
                    else []
                | None \<Rightarrow> [''runtime health unavailable after recovery of '' @ failure]))
      | (a', Inl error) \<Rightarrow>
          (a', [''recover stopped shoes listener ('' @ failure @ ''): '' @
                display_runtime_error error]))"

definition adapter_reconcile_current ::
    "('p, 'r, 'c) adapter_env \<Rightarrow> ('p, 'r, 'c) adapter \<Rightarrow> MachineTopology \<Rightarrow>
      ('p, 'r, 'c) adapter \<times> (TopologyError + unit)" where
  "adapter_reconcile_current env a current =
     (case build_plan (ae_from_slice env) current of
        Inl error \<Rightarrow>
          (a, Inl (error_runtime (''build current port hopping forwarding state: '' @ error) False))
      | Inr plan \<Rightarrow>
          (case adapter_reconcile env a plan of (a1, ports_result) \<Rightarrow>
           let port_failures =
                 (case ports_result of
                    Inl error \<Rightarrow>
                      [''reconcile current port hopping forwarding state: '' @ display_error error]
                  | Inr _ \<Rightarrow> []);
               health_failure =
                 (case nr_runtime_health_snapshot (ae_runtime env) (ad_runtime a1) of
                    None \<Rightarrow> None | Some health \<Rightarrow> rhs_failure health);
               finish = (\<lambda>(a2, failures).
                 if failures \<noteq> [] then
                   (a2, Inl (error_runtime_state (join ''; '' failures) False
                     (case nr_runtime_health_snapshot (ae_runtime env) (ad_runtime a2) of
                        None \<Rightarrow> False | Some health \<Rightarrow> rhs_running health)))
                 else (a2\<lparr> ad_active_topology := current, ad_active_plan := plan \<rparr>, Inr ()))
           in
           (case health_failure of
              None \<Rightarrow> finish (a1, port_failures)
            | Some failure \<Rightarrow>
                (case adapter_compile env a1 current of
                   Inl error \<Rightarrow>
                     (a1, Inl (error_runtime
                       (''compile current topology to recover '' @ failure @ '': '' @ error) False))
                 | Inr recovery \<Rightarrow>
                     (case recover_listener env a1 failure (fst recovery) of
                        (a2, failures) \<Rightarrow> finish (a2, port_failures @ failures))))))"

definition adapter_close ::
    "('p, 'r, 'c) adapter_env \<Rightarrow> ('p, 'r, 'c) adapter \<Rightarrow>
      ('p, 'r, 'c) adapter \<times> (TopologyError + unit)" where
  "adapter_close env a0 =
     (let a = adapter_begin_close env a0 in
      case close_ports (ae_router env) (ad_port_router a) of (p, ports_result) \<Rightarrow>
      let a1 = (case ports_result of
                  Inr _ \<Rightarrow> a\<lparr> ad_port_router := p, ad_active_plan := Plan_default,
                              ad_pending_reload := None \<rparr>
                | Inl _ \<Rightarrow> a\<lparr> ad_port_router := p \<rparr>);
          port_error = (case ports_result of Inr _ \<Rightarrow> None | Inl error \<Rightarrow> Some (display_error error))
      in
      case nr_close (ae_runtime env) (ad_runtime a1) of (r, runtime_result) \<Rightarrow>
      let a2 = a1\<lparr> ad_runtime := r \<rparr> in
      case (port_error, runtime_result) of
        (None, Inr _) \<Rightarrow> (a2, Inr ())
      | _ \<Rightarrow>
          let running = (case runtime_result of Inl error \<Rightarrow> rte_running error | Inr _ \<Rightarrow> False);
              messages =
                (case port_error of
                   None \<Rightarrow> [] | Some error \<Rightarrow> [''close port hopping forwarding: '' @ error]) @
                (case runtime_result of
                   Inl error \<Rightarrow> [''close shoes runtime: '' @ display_runtime_error error] | Inr _ \<Rightarrow> [])
          in (a2, Inl (error_runtime_state (join ''; '' messages) False running)))"

definition adapter_prepare_reload ::
    "('p, 'r, 'c) adapter_env \<Rightarrow> ('p, 'r, 'c) adapter \<Rightarrow> MachineTopology \<Rightarrow>
      ('p, 'r, 'c) adapter \<times> (TopologyError + 'c)" where
  "adapter_prepare_reload env a topology =
     (case prepare_candidate env a topology of
        Inl error \<Rightarrow> (a, Inl error)
      | Inr (output, desired_plan) \<Rightarrow>
          if (case ad_pending_reload a of None \<Rightarrow> False | Some pending \<Rightarrow> pre_configured pending)
          then (a, Inl (error_runtime
                 ''a configured forced reload transaction is already pending'' False))
          else
            let a1 = a\<lparr> ad_pending_reload := None \<rparr> in
            (case previous_target env a1 of
               Inl error \<Rightarrow> (a1, Inl error)
             | Inr previous \<Rightarrow>
                 (a1\<lparr> ad_pending_reload := Some
                    \<lparr> pre_candidate = topology, pre_desired_plan = desired_plan,
                      pre_previous_plan = rb_port_hopping previous,
                      pre_previous_config = rb_config previous,
                      pre_previous_had_topology = rb_had_topology previous,
                      pre_warnings = snd output, pre_configured = False \<rparr> \<rparr>,
                  Inr (fst output))))"

definition adapter_configure_reload ::
    "('p, 'r, 'c) adapter_env \<Rightarrow> ('p, 'r, 'c) adapter \<Rightarrow> MachineTopology \<Rightarrow>
      ('p, 'r, 'c) adapter \<times> (TopologyError + unit)" where
  "adapter_configure_reload env a candidate =
     (case ad_pending_reload a of
        None \<Rightarrow> (a, Inl (error_runtime ''forced reload has no prepared transaction'' False))
      | Some pending \<Rightarrow>
          if pre_candidate pending \<noteq> candidate then
            (a\<lparr> ad_pending_reload := None \<rparr>,
             Inl (error_runtime ''forced reload candidate changed after preparation'' False))
          else
            (case adapter_reconcile env a (pre_desired_plan pending) of
               (a1, Inl error) \<Rightarrow>
                 (case port_configuration_failure env (a1\<lparr> ad_pending_reload := None \<rparr>) error
                         (pre_previous_plan pending) (pre_previous_had_topology pending) of
                    (a2, e) \<Rightarrow> (a2, Inl e))
             | (a1, Inr _) \<Rightarrow>
                 (case ad_pending_reload a1 of
                    None \<Rightarrow> (a1, Inl (error_runtime ''forced reload transaction disappeared'' False))
                  | Some pending' \<Rightarrow>
                      (a1\<lparr> ad_pending_reload := Some (pending'\<lparr> pre_configured := True \<rparr>) \<rparr>,
                       Inr ()))))"

definition adapter_reload_prepared ::
    "('p, 'r, 'c) adapter_env \<Rightarrow> ('p, 'r, 'c) adapter \<Rightarrow> bool \<Rightarrow> MachineTopology \<Rightarrow> 'c \<Rightarrow>
      ('p, 'r, 'c) adapter \<times> (TopologyError + ReloadStatus)" where
  "adapter_reload_prepared env a closing candidate prepared =
     (case ad_pending_reload a of
        None \<Rightarrow> (a, Inl (error_runtime ''forced reload has no prepared transaction'' False))
      | Some pending \<Rightarrow>
          let a1 = a\<lparr> ad_pending_reload := None \<rparr> in
          if pre_candidate pending \<noteq> candidate then
            (case prepared_reload_protocol_failure env a1
                    ''forced reload candidate changed after port configuration'' pending of
               (a2, e) \<Rightarrow> (a2, Inl e))
          else if \<not> pre_configured pending then
            (a1, Inl (error_runtime ''forced reload port hopping was not configured'' False))
          else
            (case adapter_reload_config env a1 prepared of
               (a2, Inr status) \<Rightarrow>
                 if rls_running status then
                   (a2\<lparr> ad_active_topology := candidate, ad_active_plan := pre_desired_plan pending,
                        ad_active_warnings := pre_warnings pending \<rparr>, Inr status)
                 else
                   (case runtime_transaction_failure_parts env a2 closing
                           \<lparr> rf_operation = ''forced reload completed without a running shoes instance'',
                             rf_rolled_back = False, rf_unchanged = False, rf_running = False \<rparr>
                           \<lparr> rb_port_hopping = pre_previous_plan pending,
                             rb_config = pre_previous_config pending,
                             rb_had_topology = pre_previous_had_topology pending \<rparr> ForcedReload of
                      (a3, e) \<Rightarrow> (a3, Inl e))
             | (a2, Inl error) \<Rightarrow>
                 (case runtime_transaction_failure env a2 closing error (pre_previous_plan pending)
                         (pre_previous_config pending) (pre_previous_had_topology pending)
                         ForcedReload of
                    (a3, e) \<Rightarrow> (a3, Inl e))))"

text \<open>The three calls of a forced reload, as the topology manager makes them.\<close>

definition forced_reload ::
    "('p, 'r, 'c) adapter_env \<Rightarrow> ('p, 'r, 'c) adapter \<Rightarrow> bool \<Rightarrow> MachineTopology \<Rightarrow>
      ('p, 'r, 'c) adapter \<times> (TopologyError + ReloadStatus)" where
  "forced_reload env a closing candidate =
     (case adapter_prepare_reload env a candidate of
        (a1, Inl error) \<Rightarrow> (a1, Inl error)
      | (a1, Inr prepared) \<Rightarrow>
          (case adapter_configure_reload env a1 candidate of
             (a2, Inl error) \<Rightarrow> (a2, Inl error)
           | (a2, Inr _) \<Rightarrow> adapter_reload_prepared env a2 closing candidate prepared))"

definition reload_blocked :: "('p, 'r, 'c) adapter \<Rightarrow> bool" where
  "reload_blocked a \<longleftrightarrow>
     (case ad_pending_reload a of None \<Rightarrow> False | Some pending \<Rightarrow> pre_configured pending)"

section \<open>Contracts\<close>

text \<open>What the transaction relies on of the router: an accepted plan is forwarded, an ordinary rejection
  leaves the forwarding as it was.\<close>

locale port_router_contract =
  fixes router :: "'p port_router"
    and forwarding :: "'p \<Rightarrow> Plan"
  assumes reconcile_accepts:
      "prt_reconcile router p plan = (p', Joined (Inr u)) \<Longrightarrow> forwarding p' = plan"
    and reconcile_rejects:
      "prt_reconcile router p plan = (p', Joined (Inl e)) \<Longrightarrow> \<not> is_state_uncertain e \<Longrightarrow>
       forwarding p' = forwarding p"
begin

lemma reconcile_ports_accepts:
  "reconcile_ports router p plan = (p', Inr u) \<Longrightarrow> forwarding p' = plan"
  by (auto simp: reconcile_ports_def join_task_def intro: reconcile_accepts
      split: prod.splits task.splits)

lemma reconcile_ports_rejects:
  "reconcile_ports router p plan = (p', Inl e) \<Longrightarrow> \<not> is_state_uncertain e \<Longrightarrow>
   forwarding p' = forwarding p"
  by (auto simp: reconcile_ports_def join_task_def port_task_failure_def intro: reconcile_rejects
      split: prod.splits task.splits)

end

text \<open>The port manager over a backend that keeps its contract is such a router.\<close>

sublocale forwarding_backend \<subseteq> router: port_router_contract
  "port_manager_router put" "\<lambda>m. committed (pm_backend m)"
  by unfold_locales
     (auto simp: port_manager_router_def manager_reconcile_def dest: apply_ok apply_ordinary
       split: prod.splits)

locale adapter_contract =
  ports: port_router_contract "ae_router env" forwarding +
  runtime: node_runtime_contract "ae_runtime env" serving
  for env :: "('p, 'r, 'c) adapter_env" and forwarding :: "'p \<Rightarrow> Plan" and serving :: "'r \<Rightarrow> 'c option"

text \<open>The adapter's view of the data plane is true: the active plan is the plan of the active topology
  and is forwarded, and the runtime serves the compiled active topology.\<close>

definition coherent ::
    "('p, 'r, 'c) adapter_env \<Rightarrow> ('p \<Rightarrow> Plan) \<Rightarrow> ('r \<Rightarrow> 'c option) \<Rightarrow> ('p, 'r, 'c) adapter \<Rightarrow> bool" where
  "coherent env forwarding serving a \<longleftrightarrow>
     build_plan (ae_from_slice env) (ad_active_topology a) = Inr (ad_active_plan a) \<and>
     forwarding (ad_port_router a) = ad_active_plan a \<and>
     (mt_machine_id (ad_active_topology a) = [] \<or>
      (\<exists>config warnings.
         adapter_compile env a (ad_active_topology a) = Inr (config, warnings) \<and>
         serving (ad_runtime a) = Some config))"

lemma rollback_target_eta [simp]:
  "\<lparr> rb_port_hopping = rb_port_hopping p, rb_config = rb_config p,
     rb_had_topology = rb_had_topology p \<rparr> = p"
  by (cases p) simp

text \<open>The part of the state that only a committed transaction changes.\<close>

definition same_active :: "('p, 'r, 'c) adapter \<Rightarrow> ('p, 'r, 'c) adapter \<Rightarrow> bool" where
  "same_active a b \<longleftrightarrow>
     ad_active_topology a = ad_active_topology b \<and> ad_active_plan a = ad_active_plan b \<and>
     ad_active_warnings a = ad_active_warnings b \<and> ad_closing a = ad_closing b"

lemma same_active_refl [simp]: "same_active a a"
  by (simp add: same_active_def)

lemma same_active_trans: "same_active a b \<Longrightarrow> same_active b c \<Longrightarrow> same_active a c"
  by (simp add: same_active_def)

lemma adapter_reconcile_same:
  "adapter_reconcile env a plan = (a', r) \<Longrightarrow>
     same_active a' a \<and> ad_runtime a' = ad_runtime a \<and> ad_pending_reload a' = ad_pending_reload a"
  by (auto simp: adapter_reconcile_def same_active_def split: prod.splits)

lemma adapter_apply_config_same:
  "adapter_apply_config env a config = (a', r) \<Longrightarrow>
     same_active a' a \<and> ad_port_router a' = ad_port_router a \<and>
     ad_pending_reload a' = ad_pending_reload a"
  by (auto simp: adapter_apply_config_def same_active_def split: prod.splits)

lemma adapter_reload_config_same:
  "adapter_reload_config env a config = (a', r) \<Longrightarrow>
     same_active a' a \<and> ad_port_router a' = ad_port_router a \<and>
     ad_pending_reload a' = ad_pending_reload a"
  by (auto simp: adapter_reload_config_def same_active_def split: prod.splits)

context adapter_contract
begin

lemma reconcile_forwards:
  "adapter_reconcile env a plan = (a', Inr u) \<Longrightarrow> forwarding (ad_port_router a') = plan"
  by (auto simp: adapter_reconcile_def dest: ports.reconcile_ports_accepts split: prod.splits)

lemma reconcile_keeps:
  "adapter_reconcile env a plan = (a', Inl e) \<Longrightarrow> \<not> is_state_uncertain e \<Longrightarrow>
   forwarding (ad_port_router a') = forwarding (ad_port_router a)"
  by (auto simp: adapter_reconcile_def dest: ports.reconcile_ports_rejects split: prod.splits)

lemma apply_config_serves:
  "adapter_apply_config env a config = (a', Inr u) \<Longrightarrow> serving (ad_runtime a') = Some config"
  by (auto simp: adapter_apply_config_def dest: runtime.apply_accepts split: prod.splits)

lemma apply_config_keeps:
  "adapter_apply_config env a config = (a', Inl e) \<Longrightarrow> rte_rolled_back e \<or> rte_state_unchanged e \<Longrightarrow>
   serving (ad_runtime a') = serving (ad_runtime a)"
  by (auto simp: adapter_apply_config_def dest: runtime.apply_rejects split: prod.splits)

lemma reload_config_serves:
  "adapter_reload_config env a config = (a', Inr st) \<Longrightarrow> rls_running st \<Longrightarrow>
   serving (ad_runtime a') = Some config"
  by (auto simp: adapter_reload_config_def dest: runtime.reload_accepts split: prod.splits)

lemma reload_config_keeps:
  "adapter_reload_config env a config = (a', Inl e) \<Longrightarrow> rte_rolled_back e \<or> rte_state_unchanged e \<Longrightarrow>
   serving (ad_runtime a') = serving (ad_runtime a)"
  by (auto simp: adapter_reload_config_def dest: runtime.reload_rejects split: prod.splits)

lemma compile_policy:
  "adapter_reconcile env a plan = (a', r1) \<Longrightarrow> adapter_compile env a' = adapter_compile env a"
  "adapter_apply_config env a config = (a', r2) \<Longrightarrow> adapter_compile env a' = adapter_compile env a"
  "adapter_reload_config env a config = (a', r3) \<Longrightarrow> adapter_compile env a' = adapter_compile env a"
  using runtime.policy_fixed(1) [of "ad_runtime a" config]
    runtime.policy_fixed(2) [of "ad_runtime a" config]
  by (auto simp: adapter_compile_def fun_eq_iff adapter_reconcile_def adapter_apply_config_def
      adapter_reload_config_def split: prod.splits)

lemma port_failure:
  assumes "port_configuration_failure env a error plan had = (a', e)"
    and "\<not> is_state_uncertain error \<Longrightarrow> forwarding (ad_port_router a) = plan"
  shows "same_active a' a \<and> ad_runtime a' = ad_runtime a \<and>
    (te_rolled_back e \<or> \<not> te_rollback_stage e \<longrightarrow> forwarding (ad_port_router a') = plan) \<and>
    (te_rolled_back e \<longrightarrow> had)"
proof (cases "is_state_uncertain error")
  case False
  with assms show ?thesis
    by (auto simp: port_configuration_failure_def Let_def)
next
  case True
  obtain a1 r where rec: "adapter_reconcile env a plan = (a1, r)" by fastforce
  show ?thesis
  proof (cases r)
    case (Inl rollback)
    with True rec assms(1) show ?thesis
      using adapter_reconcile_same [OF rec]
      by (auto simp: port_configuration_failure_def Let_def)
  next
    case (Inr u)
    with True rec assms(1) show ?thesis
      using adapter_reconcile_same [OF rec] reconcile_forwards [OF rec [unfolded Inr]]
      by (auto simp: port_configuration_failure_def Let_def split: if_splits)
  qed
qed

lemma restore_runtime_spec:
  assumes "restore_runtime env a closing f mode config = (a', restored, running, errors)"
  shows "same_active a' a \<and> ad_port_router a' = ad_port_router a \<and>
    adapter_compile env a' = adapter_compile env a \<and>
    (errors = [] \<and> \<not> restored \<longrightarrow> a' = a \<and> \<not> should_restore_runtime closing f mode config) \<and>
    (restored \<longrightarrow> config \<noteq> None \<and> serving (ad_runtime a') = config)"
proof (cases "should_restore_runtime closing f mode config")
  case False
  with assms show ?thesis by (auto simp: restore_runtime_def)
next
  case True
  then obtain previous where config: "config = Some previous"
    by (auto simp: should_restore_runtime_def)
  obtain a1 r where app: "adapter_apply_config env a previous = (a1, r)" by fastforce
  note same = adapter_apply_config_same [OF app] compile_policy(2) [OF app]
  show ?thesis
    using assms True config app same apply_config_serves [of a previous a1]
    by (cases r) (auto simp: restore_runtime_def)
qed

lemma transaction_failure:
  assumes "runtime_transaction_failure_parts env a closing f previous mode = (a', e)"
  shows "same_active a' a \<and> adapter_compile env a' = adapter_compile env a \<and>
    (te_rolled_back e \<or> \<not> te_rollback_stage e \<longrightarrow>
       forwarding (ad_port_router a') = rb_port_hopping previous) \<and>
    (te_rolled_back e \<longrightarrow> rb_had_topology previous \<and> te_running e \<and> te_rollback_stage e \<and>
       (serving (ad_runtime a') = rb_config previous \<or> rb_config previous = None \<or>
        ad_runtime a' = ad_runtime a \<and> (rf_rolled_back f \<or> rf_unchanged f)))"
proof -
  obtain a1 pr where rec: "adapter_reconcile env a (rb_port_hopping previous) = (a1, pr)" by fastforce
  obtain restored running errs where
    res: "restore_runtime env a1 closing f mode (rb_config previous) = (a', restored, running, errs)"
    and e: "te_rolled_back e \<longleftrightarrow> \<not> isl pr \<and> errs = [] \<and> rb_had_topology previous \<and> running \<and>
        (restored \<or> rf_rolled_back f \<or> mode = OrdinaryApply \<and> rf_unchanged f)"
      "te_rollback_stage e \<longleftrightarrow> isl pr \<or> errs \<noteq> [] \<or> te_rolled_back e" "te_running e = running"
    using assms rec
    by (cases pr) (auto simp: runtime_transaction_failure_parts_def Let_def split: prod.splits if_splits)
  note same = adapter_reconcile_same [OF rec] compile_policy(1) [OF rec] restore_runtime_spec [OF res]
  have "\<not> isl pr \<Longrightarrow> forwarding (ad_port_router a') = rb_port_hopping previous"
    using reconcile_forwards [of a _ a1] rec same by (cases pr) auto
  with e same show ?thesis
    by (auto intro: same_active_trans)
qed

lemma coherent_transfer:
  assumes "coherent env forwarding serving a" and "same_active a' a"
    and "forwarding (ad_port_router a') = ad_active_plan a"
    and "adapter_compile env a' = adapter_compile env a"
    and "mt_machine_id (ad_active_topology a) = [] \<or> serving (ad_runtime a') = serving (ad_runtime a)"
  shows "coherent env forwarding serving a'"
  using assms by (auto simp: coherent_def same_active_def)

lemma previous_target_coherent:
  assumes "coherent env forwarding serving a"
  obtains previous where "previous_target env a = Inr previous"
    and "rb_port_hopping previous = ad_active_plan a"
    and "rb_had_topology previous \<longleftrightarrow> mt_machine_id (ad_active_topology a) \<noteq> []"
    and "mt_machine_id (ad_active_topology a) \<noteq> [] \<Longrightarrow>
      rb_config previous = serving (ad_runtime a) \<and> rb_config previous \<noteq> None"
proof (cases "mt_machine_id (ad_active_topology a) = []")
  case True
  show ?thesis
    by (rule that [of "\<lparr> rb_port_hopping = ad_active_plan a, rb_config = None,
            rb_had_topology = False \<rparr>"])
       (use True assms in \<open>simp_all add: coherent_def previous_target_def\<close>)
next
  case False
  with assms obtain config warnings where
    "adapter_compile env a (ad_active_topology a) = Inr (config, warnings)"
    "serving (ad_runtime a) = Some config"
    by (auto simp: coherent_def)
  then show ?thesis
    by (intro that [of "\<lparr> rb_port_hopping = ad_active_plan a, rb_config = Some config,
            rb_had_topology = True \<rparr>"])
       (use False assms in \<open>simp_all add: coherent_def previous_target_def\<close>)
qed

lemma apply_commits:
  assumes "adapter_apply env a closing candidate = (a', Inr u)"
  shows "coherent env forwarding serving a' \<and> ad_active_topology a' = candidate \<and>
    ad_pending_reload a' = None"
proof -
  from assms obtain out plan previous a1 a2 u1 u2 where
    prep: "prepare_candidate env a candidate = Inr (out, plan)"
    and rec: "adapter_reconcile env a plan = (a1, Inr u1)"
    and app: "adapter_apply_config env a1 (fst out) = (a2, Inr u2)"
    and a': "a' = a2\<lparr> ad_active_topology := candidate, ad_active_plan := plan,
               ad_active_warnings := snd out, ad_pending_reload := None \<rparr>"
    by (auto simp: adapter_apply_def rbind_Inr_iff split: prod.splits sum.splits)
  have "adapter_compile env a candidate = Inr out" "build_plan (ae_from_slice env) candidate = Inr plan"
    using prep by (auto simp: prepare_candidate_def rbind_Inr_iff rmap_err_Inr_iff)
  moreover have "adapter_compile env a' = adapter_compile env a"
    using compile_policy(1) [OF rec] compile_policy(2) [OF app]
    by (simp add: a' adapter_compile_def fun_eq_iff)
  moreover have "forwarding (ad_port_router a') = plan" "serving (ad_runtime a') = Some (fst out)"
    using reconcile_forwards [OF rec] adapter_apply_config_same [OF app] apply_config_serves [OF app]
    by (simp_all add: a')
  ultimately show ?thesis
    by (cases out) (simp add: coherent_def a')
qed

text \<open>The two ways a transaction that passed its checks can fail, from a coherent state.\<close>

lemma port_failure_safe:
  assumes "coherent env forwarding serving a" and "adapter_reconcile env a plan = (a1, Inl error)"
    and "port_configuration_failure env a1 error (ad_active_plan a)
           (mt_machine_id (ad_active_topology a) \<noteq> []) = (a', e)"
  shows "same_active a' a \<and>
    (te_rolled_back e \<or> \<not> te_rollback_stage e \<longrightarrow> coherent env forwarding serving a')"
proof -
  note same = adapter_reconcile_same [OF assms(2)] compile_policy(1) [OF assms(2)]
  have "\<not> is_state_uncertain error \<Longrightarrow> forwarding (ad_port_router a1) = ad_active_plan a"
    using reconcile_keeps [OF assms(2)] assms(1) by (simp add: coherent_def)
  from port_failure [OF assms(3) this] same
  have *: "same_active a' a" "ad_runtime a' = ad_runtime a"
    "te_rolled_back e \<or> \<not> te_rollback_stage e \<Longrightarrow> forwarding (ad_port_router a') = ad_active_plan a"
    by (auto intro: same_active_trans)
  moreover have "adapter_compile env a' = adapter_compile env a"
    using *(2) by (simp add: adapter_compile_def fun_eq_iff)
  ultimately show ?thesis using coherent_transfer [OF assms(1)] by auto
qed

lemma runtime_failure_safe:
  assumes coh: "coherent env forwarding serving a" and same: "same_active a2 a"
    and comp: "adapter_compile env a2 = adapter_compile env a"
    and served: "rf_rolled_back f \<or> rf_unchanged f \<Longrightarrow> serving (ad_runtime a2) = serving (ad_runtime a)"
    and target: "rb_port_hopping previous = ad_active_plan a"
      "rb_had_topology previous \<longleftrightarrow> mt_machine_id (ad_active_topology a) \<noteq> []"
      "mt_machine_id (ad_active_topology a) \<noteq> [] \<Longrightarrow> rb_config previous = serving (ad_runtime a)"
    and parts: "runtime_transaction_failure_parts env a2 closing f previous mode = (a', e)"
  shows "same_active a' a \<and>
    (te_rolled_back e \<or> \<not> te_rollback_stage e \<longrightarrow> forwarding (ad_port_router a') = ad_active_plan a) \<and>
    (te_rolled_back e \<longrightarrow> coherent env forwarding serving a')"
proof -
  note failure = transaction_failure [OF parts]
  have "serving (ad_runtime a) \<noteq> None" if "mt_machine_id (ad_active_topology a) \<noteq> []"
    using coh that by (auto simp: coherent_def)
  then have "serving (ad_runtime a') = serving (ad_runtime a)" if "te_rolled_back e"
    using failure that served target by auto
  moreover have "same_active a' a" "adapter_compile env a' = adapter_compile env a"
    using failure same comp by (auto intro: same_active_trans)
  ultimately show ?thesis
    using failure target(1) coherent_transfer [OF coh, of a'] by auto
qed

lemma apply_failure_safe:
  assumes coh: "coherent env forwarding serving a"
    and failed: "adapter_apply env a closing candidate = (a', Inl e)"
  shows "same_active a' a \<and>
    (te_rolled_back e \<or> \<not> te_rollback_stage e \<longrightarrow> forwarding (ad_port_router a') = ad_active_plan a) \<and>
    (te_rolled_back e \<longrightarrow> coherent env forwarding serving a')"
proof -
  obtain previous where prev: "previous_target env a = Inr previous"
    and target: "rb_port_hopping previous = ad_active_plan a"
      "rb_had_topology previous \<longleftrightarrow> mt_machine_id (ad_active_topology a) \<noteq> []"
      "mt_machine_id (ad_active_topology a) \<noteq> [] \<Longrightarrow> rb_config previous = serving (ad_runtime a)"
    using previous_target_coherent [OF coh] by metis
  have unchanged: ?thesis if "a' = a"
    using that coh by (simp add: coherent_def)
  show ?thesis
  proof (cases "prepare_candidate env a candidate")
    case (Inl error)
    with failed show ?thesis by (intro unchanged) (simp add: adapter_apply_def)
  next
    case prep: (Inr x)
    obtain out plan where x: "x = (out, plan)" by fastforce
    obtain a1 r where rec: "adapter_reconcile env a plan = (a1, r)" by fastforce
    show ?thesis
    proof (cases r)
      case (Inl error)
      with failed prep x prev rec target
      have "port_configuration_failure env a1 error (ad_active_plan a)
          (mt_machine_id (ad_active_topology a) \<noteq> []) = (a', e)"
        by (auto simp: adapter_apply_def split: prod.splits)
      from port_failure_safe [OF coh rec [unfolded Inl] this] show ?thesis
        by (auto simp: coherent_def same_active_def)
    next
      case (Inr u)
      with failed prep x prev rec obtain a2 error where
        app: "adapter_apply_config env a1 (fst out) = (a2, Inl error)"
        and parts: "runtime_transaction_failure_parts env a2 closing (RuntimeFailureState_from error)
           previous OrdinaryApply = (a', e)"
        by (auto simp: adapter_apply_def runtime_transaction_failure_def
            split: prod.splits sum.splits)
      note same = adapter_reconcile_same [OF rec] adapter_apply_config_same [OF app]
        compile_policy(1) [OF rec] compile_policy(2) [OF app] apply_config_keeps [OF app]
      show ?thesis
        by (rule runtime_failure_safe [OF coh _ _ _ target parts])
           (use same in \<open>auto simp: RuntimeFailureState_from_def intro: same_active_trans\<close>)
    qed
  qed
qed

lemma coherent_pending [simp]:
  "coherent env forwarding serving (a\<lparr> ad_pending_reload := p \<rparr>) = coherent env forwarding serving a"
  "adapter_compile env (a\<lparr> ad_pending_reload := p \<rparr>) = adapter_compile env a"
  by (simp_all add: coherent_def adapter_compile_def fun_eq_iff)

lemma previous_target_pending [simp]:
  "previous_target env (a\<lparr> ad_pending_reload := p \<rparr>) = previous_target env a"
  by (simp add: previous_target_def Let_def)

lemma same_active_pending [simp]:
  "same_active (a\<lparr> ad_pending_reload := p \<rparr>) b = same_active a b"
  "same_active a (b\<lparr> ad_pending_reload := p \<rparr>) = same_active a b"
  by (simp_all add: same_active_def)

text \<open>A prepared transaction carries the candidate's plan and the target of a rollback.\<close>

lemma prepare_reload_cases:
  assumes coh: "coherent env forwarding serving a" and free: "\<not> reload_blocked a"
    and prep: "adapter_prepare_reload env a candidate = (a1, r)"
  obtains (rejected) e where "r = Inl e" "a1 = a" "\<not> te_rolled_back e" "\<not> te_rollback_stage e"
  | (prepared) config warnings plan previous where "r = Inr config"
      "adapter_compile env a candidate = Inr (config, warnings)"
      "build_plan (ae_from_slice env) candidate = Inr plan"
      "previous_target env a = Inr previous"
      "a1 = a\<lparr> ad_pending_reload := Some
         \<lparr> pre_candidate = candidate, pre_desired_plan = plan,
           pre_previous_plan = rb_port_hopping previous, pre_previous_config = rb_config previous,
           pre_previous_had_topology = rb_had_topology previous, pre_warnings = warnings,
           pre_configured = False \<rparr> \<rparr>"
proof (cases "prepare_candidate env a candidate")
  case (Inl error)
  with prep have "r = Inl error" "a1 = a" by (auto simp: adapter_prepare_reload_def)
  moreover from Inl have "\<not> te_rolled_back error" "\<not> te_rollback_stage error"
    by (auto simp: prepare_candidate_def rbind_Inl_iff rmap_err_Inl_iff)
  ultimately show ?thesis by (rule rejected)
next
  case (Inr x)
  obtain previous where prev: "previous_target env a = Inr previous"
    using previous_target_coherent [OF coh] by metis
  obtain config warnings plan where x: "x = ((config, warnings), plan)" by (metis prod.exhaust)
  from Inr x have "adapter_compile env a candidate = Inr (config, warnings)"
    "build_plan (ae_from_slice env) candidate = Inr plan"
    by (auto simp: prepare_candidate_def rbind_Inr_iff rmap_err_Inr_iff)
  with Inr x prep free prev show ?thesis
    by (intro prepared [of config warnings plan previous])
       (auto simp: adapter_prepare_reload_def reload_blocked_def)
qed

lemma forced_reload_commits:
  assumes coh: "coherent env forwarding serving a" and free: "\<not> reload_blocked a"
    and ok: "forced_reload env a closing candidate = (a', Inr status)"
  shows "coherent env forwarding serving a' \<and> ad_active_topology a' = candidate \<and>
    rls_running status \<and> ad_pending_reload a' = None"
proof -
  obtain a1 r where prep: "adapter_prepare_reload env a candidate = (a1, r)" by fastforce
  from coh free prep show ?thesis
  proof (cases rule: prepare_reload_cases)
    case (rejected e)
    with ok prep show ?thesis by (simp add: forced_reload_def)
  next
    case (prepared config warnings plan previous)
    from ok prep prepared obtain a2 u where
      rec: "adapter_reconcile env a1 plan = (a2, Inr u)" and
      rel: "adapter_reload_prepared env (a2\<lparr> ad_pending_reload :=
          map_option (\<lambda>p. p\<lparr> pre_configured := True \<rparr>) (ad_pending_reload a1) \<rparr>)
        closing candidate config = (a', Inr status)"
      by (auto simp: forced_reload_def adapter_configure_reload_def dest!: adapter_reconcile_same
          split: prod.splits sum.splits)
    from rel prepared obtain a3 where
      cfg: "adapter_reload_config env (a2\<lparr> ad_pending_reload := None \<rparr>) config = (a3, Inr status)"
      and run: "rls_running status"
      and a': "a' = a3\<lparr> ad_active_topology := candidate, ad_active_plan := plan,
                 ad_active_warnings := warnings \<rparr>"
      by (auto simp: adapter_reload_prepared_def Let_def split: prod.splits sum.splits if_splits)
    have comp: "adapter_compile env a' = adapter_compile env a"
      using compile_policy(1) [OF rec] compile_policy(3) [OF cfg] prepared(5)
      by (simp add: a' adapter_compile_def fun_eq_iff)
    have "forwarding (ad_port_router a') = plan" "serving (ad_runtime a') = Some config"
      "ad_pending_reload a' = None"
      using reconcile_forwards [OF rec] adapter_reload_config_same [OF cfg]
        reload_config_serves [OF cfg run] by (simp_all add: a')
    with comp prepared run show ?thesis by (simp add: coherent_def a')
  qed
qed

lemma reload_prepared_failure:
  assumes pending: "ad_pending_reload b = Some p" "pre_candidate p = candidate" "pre_configured p"
    and failed: "adapter_reload_prepared env b closing candidate config = (a', Inl e)"
  obtains c res f where
    "adapter_reload_config env (b\<lparr> ad_pending_reload := None \<rparr>) config = (c, res)"
    "runtime_transaction_failure_parts env c closing f
       \<lparr> rb_port_hopping = pre_previous_plan p, rb_config = pre_previous_config p,
         rb_had_topology = pre_previous_had_topology p \<rparr> ForcedReload = (a', e)"
    "rf_rolled_back f \<or> rf_unchanged f \<Longrightarrow> serving (ad_runtime c) = serving (ad_runtime b)"
proof -
  obtain c res where cfg: "adapter_reload_config env (b\<lparr> ad_pending_reload := None \<rparr>) config = (c, res)"
    by fastforce
  show ?thesis
  proof (cases res)
    case (Inl error)
    then show ?thesis
      using failed pending cfg reload_config_keeps [OF cfg [unfolded Inl]]
      by (intro that [OF cfg, of "RuntimeFailureState_from error"])
         (auto simp: adapter_reload_prepared_def runtime_transaction_failure_def
           RuntimeFailureState_from_def Let_def split: prod.splits)
  next
    case (Inr status)
    then show ?thesis
      using failed pending cfg
      by (intro that [OF cfg, of "\<lparr> rf_operation =
            ''forced reload completed without a running shoes instance'',
            rf_rolled_back = False, rf_unchanged = False, rf_running = False \<rparr>"])
         (auto simp: adapter_reload_prepared_def Let_def split: prod.splits if_splits)
  qed
qed

lemma forced_reload_failure_safe:
  assumes coh: "coherent env forwarding serving a" and free: "\<not> reload_blocked a"
    and failed: "forced_reload env a closing candidate = (a', Inl e)"
  shows "same_active a' a \<and>
    (te_rolled_back e \<or> \<not> te_rollback_stage e \<longrightarrow> forwarding (ad_port_router a') = ad_active_plan a) \<and>
    (te_rolled_back e \<longrightarrow> coherent env forwarding serving a')"
proof -
  obtain a1 r where prep: "adapter_prepare_reload env a candidate = (a1, r)" by fastforce
  obtain target where prev: "previous_target env a = Inr target"
    and t: "rb_port_hopping target = ad_active_plan a"
      "rb_had_topology target \<longleftrightarrow> mt_machine_id (ad_active_topology a) \<noteq> []"
      "mt_machine_id (ad_active_topology a) \<noteq> [] \<Longrightarrow> rb_config target = serving (ad_runtime a)"
    using previous_target_coherent [OF coh] by metis
  from coh free prep show ?thesis
  proof (cases rule: prepare_reload_cases)
    case (rejected e')
    with failed prep coh show ?thesis by (simp add: forced_reload_def coherent_def)
  next
    case (prepared config warnings plan previous)
    with prev have target: "previous = target" by simp
    have coh1: "coherent env forwarding serving a1" "same_active a1 a"
      "adapter_compile env a1 = adapter_compile env a" "ad_runtime a1 = ad_runtime a"
      using coh prepared(5) by simp_all
    obtain a2 q where rec: "adapter_reconcile env a1 plan = (a2, q)" by fastforce
    show ?thesis
    proof (cases q)
      case (Inl error)
      with failed prep prepared rec t target obtain b where
        fail: "port_configuration_failure env (a2\<lparr> ad_pending_reload := None \<rparr>) error
          (ad_active_plan a) (mt_machine_id (ad_active_topology a) \<noteq> []) = (b, e)" "a' = b"
        by (auto simp: forced_reload_def adapter_configure_reload_def split: prod.splits)
      have rec': "adapter_reconcile env (a1\<lparr> ad_pending_reload := None \<rparr>) plan =
          (a2\<lparr> ad_pending_reload := None \<rparr>, Inl error)"
        using rec Inl by (auto simp: adapter_reconcile_def split: prod.splits)
      have "same_active a' (a1\<lparr> ad_pending_reload := None \<rparr>) \<and>
          (te_rolled_back e \<or> \<not> te_rollback_stage e \<longrightarrow> coherent env forwarding serving a')"
        by (rule port_failure_safe [OF _ rec']) (use coh1 fail prepared(5) in simp_all)
      then show ?thesis using coh1 by (auto simp: coherent_def same_active_def)
    next
      case (Inr u)
      note same = adapter_reconcile_same [OF rec] compile_policy(1) [OF rec]
      let ?a2 = "a2\<lparr> ad_pending_reload := None \<rparr>"
      let ?b = "a2\<lparr> ad_pending_reload :=
          map_option (\<lambda>p. p\<lparr> pre_configured := True \<rparr>) (ad_pending_reload a2) \<rparr>"
      have "adapter_reload_prepared env ?b closing candidate config = (a', Inl e)"
        using failed prep prepared rec Inr same
        by (auto simp: forced_reload_def adapter_configure_reload_def)
      then obtain a3 res f where
        parts: "runtime_transaction_failure_parts env a3 closing f target ForcedReload = (a', e)"
        and cfg': "adapter_reload_config env ?a2 config = (a3, res)"
        and served: "rf_rolled_back f \<or> rf_unchanged f \<Longrightarrow>
          serving (ad_runtime a3) = serving (ad_runtime ?a2)"
        by (rule reload_prepared_failure [rotated 3]) (use same prepared target in auto)
      note same3 = adapter_reload_config_same [OF cfg'] compile_policy(3) [OF cfg']
      show ?thesis
        by (rule runtime_failure_safe [OF coh _ _ _ t parts])
           (use same same3 coh1 served in \<open>auto intro: same_active_trans\<close>)
    qed
  qed
qed

end

lemma failure_keeps_pending:
  "port_configuration_failure env a error plan had = (a', e) \<Longrightarrow>
     ad_pending_reload a' = ad_pending_reload a"
  "runtime_transaction_failure_parts env a closing f previous mode = (a', e) \<Longrightarrow>
     ad_pending_reload a' = ad_pending_reload a"
proof -
  assume "port_configuration_failure env a error plan had = (a', e)"
  then show "ad_pending_reload a' = ad_pending_reload a"
    by (auto simp: port_configuration_failure_def Let_def dest!: adapter_reconcile_same
        split: if_splits prod.splits sum.splits)
next
  assume parts: "runtime_transaction_failure_parts env a closing f previous mode = (a', e)"
  obtain a1 pr where rec: "adapter_reconcile env a (rb_port_hopping previous) = (a1, pr)" by fastforce
  have "restore_runtime env a1 closing f mode config = (a2, x) \<Longrightarrow>
      ad_pending_reload a2 = ad_pending_reload a1" for config a2 x
    by (auto simp: restore_runtime_def dest!: adapter_apply_config_same
        split: if_splits prod.splits sum.splits option.splits)
  with parts rec show "ad_pending_reload a' = ad_pending_reload a"
    using adapter_reconcile_same [OF rec]
    by (auto simp: runtime_transaction_failure_parts_def Let_def split: prod.splits)
qed

lemma configure_reload_failed:
  "adapter_configure_reload env a candidate = (a', Inl e) \<Longrightarrow> ad_pending_reload a' = None"
  by (auto simp: adapter_configure_reload_def dest!: failure_keeps_pending adapter_reconcile_same
      split: option.splits if_splits prod.splits sum.splits)

lemma reload_prepared_done:
  "adapter_reload_prepared env a closing candidate config = (a', r) \<Longrightarrow> ad_pending_reload a' = None"
proof -
  assume rel: "adapter_reload_prepared env a closing candidate config = (a', r)"
  have protocol: "prepared_reload_protocol_failure env b m p = (b', e) \<Longrightarrow>
      ad_pending_reload b' = ad_pending_reload b" for b m p b' e
    by (auto simp: prepared_reload_protocol_failure_def dest!: adapter_reconcile_same
        split: if_splits prod.splits sum.splits)
  from rel show ?thesis
    by (auto simp: adapter_reload_prepared_def runtime_transaction_failure_def Let_def
        dest!: failure_keeps_pending protocol adapter_reload_config_same
        split: option.splits if_splits prod.splits sum.splits)
qed

lemma forced_reload_never_blocks:
  assumes "\<not> reload_blocked a" and "forced_reload env a closing candidate = (a', r)"
  shows "\<not> reload_blocked a'"
  using assms
  by (auto simp: forced_reload_def reload_blocked_def adapter_prepare_reload_def Let_def
      dest!: configure_reload_failed reload_prepared_done
      split: option.splits if_splits prod.splits sum.splits)

section \<open>A scripted runtime\<close>

text \<open>The runtime double of the source's tests: it serves the last accepted configuration and answers
  each call with the next scripted outcome, so that every failure path can be driven.\<close>

record 'c scripted =
  sr_serving :: "'c option"
  sr_script :: "RuntimeError option list"

fun scripted_call :: "'c scripted \<Rightarrow> 'c \<Rightarrow> 'a \<Rightarrow> 'c scripted \<times> (RuntimeError + 'a)" where
  "scripted_call r c ok =
     (case sr_script r of
        Some e # rest \<Rightarrow> (r\<lparr> sr_script := rest \<rparr>, Inl e)
      | None # rest \<Rightarrow> (\<lparr> sr_serving = Some c, sr_script = rest \<rparr>, Inr ok)
      | [] \<Rightarrow> (r\<lparr> sr_serving := Some c \<rparr>, Inr ok))"

definition scripted_runtime :: "('c scripted, 'c) node_runtime" where
  "scripted_runtime =
     \<lparr> nr_traffic_analysis_disabled = (\<lambda>_. False),
       nr_apply_config = (\<lambda>r c. scripted_call r c ()),
       nr_reload_config =
         (\<lambda>r c. scripted_call r c \<lparr> rls_running = True, rls_rolled_back = False \<rparr>),
       nr_current_config = (\<lambda>r. if sr_serving r = None then [] else [1]),
       nr_begin_close = id,
       nr_close = (\<lambda>r. (r\<lparr> sr_serving := None \<rparr>, Inr ())),
       nr_runtime_health_snapshot =
         (\<lambda>r. Some \<lparr> rhs_running = sr_serving r \<noteq> None, rhs_failure = None \<rparr>),
       nr_close_user_connections = (\<lambda>r _ _. (r, 0)) \<rparr>"

interpretation scripted: node_runtime_contract scripted_runtime sr_serving
  by unfold_locales (auto simp: scripted_runtime_def split: list.splits option.splits)

definition ex_env :: "(unit port_manager, nat scripted, nat) adapter_env" where
  "ex_env =
     \<lparr> ae_router = port_manager_router (unsupported_apply ''freebsd''),
       ae_runtime = scripted_runtime,
       ae_compile = (\<lambda>t _. Inr (unat (mt_revision t), [])),
       ae_from_slice = ex_from_slice \<rparr>"

interpretation ex_adapter: adapter_contract ex_env "\<lambda>m. Plan_default" sr_serving
  by unfold_locales
     (auto simp: ex_env_def scripted_runtime_def port_manager_router_def manager_reconcile_def
       dest: unsupported.apply_ok unsupported.apply_ordinary
       split: list.splits option.splits prod.splits)

section \<open>Properties of the transaction\<close>

text \<open>C2 (apply is a transaction): with a router and a runtime that keep their contracts, from a state
  whose view of the data plane is true, a successful apply makes the candidate active with its plan
  forwarded and its configuration served; a failed one leaves the active topology, plan and
  warnings, has restored the forwarding plan unless it reports an incomplete rollback, and reports
  \<open>rolled_back\<close> only when forwarding and runtime are both back at the active topology.\<close>

theorem adapter_apply_transaction:
  assumes "adapter_contract env forwarding serving" and "coherent env forwarding serving a"
  shows "case adapter_apply env a closing candidate of
      (a', Inr _) \<Rightarrow> coherent env forwarding serving a' \<and> ad_active_topology a' = candidate
    | (a', Inl e) \<Rightarrow> same_active a' a \<and>
        (te_rolled_back e \<or> \<not> te_rollback_stage e \<longrightarrow>
           forwarding (ad_port_router a') = ad_active_plan a) \<and>
        (te_rolled_back e \<longrightarrow> coherent env forwarding serving a')"
  using adapter_contract.apply_commits [OF assms(1), of a closing candidate]
    adapter_contract.apply_failure_safe [OF assms, of closing candidate]
  by (auto split: prod.splits sum.splits)

definition ex_active :: "RuntimeError option list \<Rightarrow> (unit port_manager, nat scripted, nat) adapter" where
  "ex_active script =
     (with_router \<lparr> sr_serving = Some 1, sr_script = script \<rparr> (with_backend ()))
       \<lparr> ad_active_topology := MachineTopology_default\<lparr> mt_machine_id := ''m'', mt_revision := 1 \<rparr> \<rparr>"

lemma ex_plan_empty: "mt_nodes t = [] \<Longrightarrow> build_plan fs t = Inr Plan_default"
  by (simp add: build_plan_def plan_state_init_def listen_conflicts_def redirect_conflicts_def
      Plan_default_def)

lemma ex_active_coherent: "coherent ex_env (\<lambda>m. Plan_default) sr_serving (ex_active script)"
  by (simp add: coherent_def ex_active_def with_router_def ex_env_def adapter_compile_def
      ex_plan_empty MachineTopology_default_def)

definition ex_failure :: RuntimeError where
  "ex_failure = runtime_error_external ''bind'' False False False"

definition ex_candidate :: MachineTopology where
  "ex_candidate = MachineTopology_default\<lparr> mt_machine_id := ''m'', mt_revision := 2 \<rparr>"

lemmas ex_adapter_eval = ex_active_def with_router_def ex_env_def adapter_compile_def ex_plan_empty
  MachineTopology_default_def ex_candidate_def ex_failure_def runtime_error_external_def
  prepare_candidate_def previous_target_def adapter_reconcile_def reconcile_ports_def join_task_def
  port_manager_router_def manager_reconcile_def manager_apply_def with_backend_def
  unsupported_apply_def plan_is_empty_def Plan_default_def adapter_apply_config_def
  scripted_runtime_def runtime_transaction_failure_def runtime_transaction_failure_parts_def
  restore_runtime_def should_restore_runtime_def RuntimeFailureState_from_def

theorem adapter_apply_transaction_witness:
  "te_rolled_back (projl (snd (adapter_apply ex_env (ex_active [Some ex_failure]) False ex_candidate))) \<and>
   coherent ex_env (\<lambda>m. Plan_default) sr_serving
     (fst (adapter_apply ex_env (ex_active [Some ex_failure]) False ex_candidate))"
proof -
  obtain a' e where failed:
    "adapter_apply ex_env (ex_active [Some ex_failure]) False ex_candidate = (a', Inl e)"
    and rolled: "te_rolled_back e"
    by (simp add: adapter_apply_def ex_adapter_eval)
  with adapter_apply_transaction
    [OF ex_adapter.adapter_contract_axioms ex_active_coherent [of "[Some ex_failure]"],
      where closing = False and candidate = ex_candidate]
  show ?thesis by simp
qed

text \<open>C22 (forced reload is a transaction): from such a state with no half-configured reload pending,
  the three calls of a forced reload either make the candidate active, running and true to the data
  plane, or leave the active state with the same guarantees as a failed apply; either way no
  half-configured reload is left behind to block the next one.\<close>

theorem forced_reload_transaction:
  assumes "adapter_contract env forwarding serving" and "coherent env forwarding serving a"
    and "\<not> reload_blocked a"
  shows "case forced_reload env a closing candidate of
      (a', Inr status) \<Rightarrow> coherent env forwarding serving a' \<and> ad_active_topology a' = candidate \<and>
        rls_running status \<and> \<not> reload_blocked a'
    | (a', Inl e) \<Rightarrow> same_active a' a \<and> \<not> reload_blocked a' \<and>
        (te_rolled_back e \<or> \<not> te_rollback_stage e \<longrightarrow>
           forwarding (ad_port_router a') = ad_active_plan a) \<and>
        (te_rolled_back e \<longrightarrow> coherent env forwarding serving a')"
proof -
  obtain a' r where r: "forced_reload env a closing candidate = (a', r)" by fastforce
  note free = forced_reload_never_blocks [OF assms(3) r]
  show ?thesis
  proof (cases r)
    case (Inl e)
    from adapter_contract.forced_reload_failure_safe [OF assms r [unfolded Inl]] free r Inl
    show ?thesis by simp
  next
    case (Inr status)
    from adapter_contract.forced_reload_commits [OF assms r [unfolded Inr]] free r Inr
    show ?thesis by simp
  qed
qed

theorem forced_reload_transaction_witness:
  "coherent ex_env (\<lambda>m. Plan_default) sr_serving
     (fst (forced_reload ex_env (ex_active []) False ex_candidate)) \<and>
   ad_active_topology (fst (forced_reload ex_env (ex_active []) False ex_candidate)) = ex_candidate"
proof -
  obtain a' st where ok: "forced_reload ex_env (ex_active []) False ex_candidate = (a', Inr st)"
    by (simp add: forced_reload_def adapter_prepare_reload_def adapter_configure_reload_def
        adapter_reload_prepared_def adapter_reload_config_def ex_adapter_eval)
  have "\<not> reload_blocked (ex_active [])"
    by (simp add: reload_blocked_def ex_active_def with_router_def)
  from forced_reload_transaction
    [OF ex_adapter.adapter_contract_axioms ex_active_coherent this,
      where closing = False and candidate = ex_candidate] ok
  show ?thesis by simp
qed

end
