(* ===== verification/Topology_Proto.thy ===== *)
theory Topology_Proto
  imports Topology_Model
begin

text \<open>
  \<open>topology/proto.rs\<close>: the field-by-field conversions between the wire messages and the topology
  types, and the functions that keep the retained snapshot of a topology in step with the commands
  applied to it. Every conversion of route, DNS and outbound data is lossless in both directions
  (one interpretation of \<open>lossless\<close> per pair of types); the conversions of users and nodes are so up to
  the normal form of the status and the analysis settings that never enter the runtime.
\<close>

named_theorems lossless_lifts

section \<open>Routes, DNS and outbounds\<close>

definition DomainResolveOptions_from :: "pb_DomainResolveOptions \<Rightarrow> DomainResolveOptions" where
  "DomainResolveOptions_from value =
     \<lparr> dr_server = pdr_server value,
      dr_strategy = pdr_strategy value,
      dr_disable_cache = pdr_disable_cache value,
      dr_rewrite_ttl = pdr_rewrite_ttl value,
      dr_client_subnet = pdr_client_subnet value \<rparr>"

definition pb_DomainResolveOptions_from :: "DomainResolveOptions \<Rightarrow> pb_DomainResolveOptions" where
  "pb_DomainResolveOptions_from value =
     \<lparr> pdr_server = dr_server value,
      pdr_strategy = dr_strategy value,
      pdr_disable_cache = dr_disable_cache value,
      pdr_rewrite_ttl = dr_rewrite_ttl value,
      pdr_client_subnet = dr_client_subnet value \<rparr>"

definition DirectActionOptions_from :: "pb_DirectActionOptions \<Rightarrow> DirectActionOptions" where
  "DirectActionOptions_from value =
     \<lparr> da_bind_interface = pda_bind_interface value,
      da_inet4_bind_address = pda_inet4_bind_address value,
      da_inet6_bind_address = pda_inet6_bind_address value,
      da_routing_mark = pda_routing_mark value,
      da_reuse_addr = pda_reuse_addr value,
      da_connect_timeout = pda_connect_timeout value,
      da_tcp_fast_open = pda_tcp_fast_open value,
      da_tcp_multi_path = pda_tcp_multi_path value,
      da_udp_fragment = pda_udp_fragment value,
      da_domain_strategy = pda_domain_strategy value,
      da_bind_address_no_port = pda_bind_address_no_port value,
      da_protect_path = pda_protect_path value,
      da_netns = pda_netns value,
      da_disable_tcp_keep_alive = pda_disable_tcp_keep_alive value,
      da_tcp_keep_alive = pda_tcp_keep_alive value,
      da_tcp_keep_alive_interval = pda_tcp_keep_alive_interval value,
      da_domain_resolver = map_option DomainResolveOptions_from (pda_domain_resolver value),
      da_network_strategy = pda_network_strategy value,
      da_network_type = pda_network_type value,
      da_fallback_network_type = pda_fallback_network_type value,
      da_fallback_delay = pda_fallback_delay value \<rparr>"

definition pb_DirectActionOptions_from :: "DirectActionOptions \<Rightarrow> pb_DirectActionOptions" where
  "pb_DirectActionOptions_from value =
     \<lparr> pda_bind_interface = da_bind_interface value,
      pda_inet4_bind_address = da_inet4_bind_address value,
      pda_inet6_bind_address = da_inet6_bind_address value,
      pda_routing_mark = da_routing_mark value,
      pda_reuse_addr = da_reuse_addr value,
      pda_connect_timeout = da_connect_timeout value,
      pda_tcp_fast_open = da_tcp_fast_open value,
      pda_tcp_multi_path = da_tcp_multi_path value,
      pda_udp_fragment = da_udp_fragment value,
      pda_domain_strategy = da_domain_strategy value,
      pda_bind_address_no_port = da_bind_address_no_port value,
      pda_protect_path = da_protect_path value,
      pda_netns = da_netns value,
      pda_disable_tcp_keep_alive = da_disable_tcp_keep_alive value,
      pda_tcp_keep_alive = da_tcp_keep_alive value,
      pda_tcp_keep_alive_interval = da_tcp_keep_alive_interval value,
      pda_domain_resolver = map_option pb_DomainResolveOptions_from (da_domain_resolver value),
      pda_network_strategy = da_network_strategy value,
      pda_network_type = da_network_type value,
      pda_fallback_network_type = da_fallback_network_type value,
      pda_fallback_delay = da_fallback_delay value \<rparr>"

definition GeoIpOptions_from :: "pb_GeoIPOptions \<Rightarrow> GeoIpOptions" where
  "GeoIpOptions_from value =
     \<lparr> gi_path = pgi_path value,
      gi_download_url = pgi_download_url value,
      gi_download_detour = pgi_download_detour value \<rparr>"

definition pb_GeoIPOptions_from :: "GeoIpOptions \<Rightarrow> pb_GeoIPOptions" where
  "pb_GeoIPOptions_from value =
     \<lparr> pgi_path = gi_path value,
      pgi_download_url = gi_download_url value,
      pgi_download_detour = gi_download_detour value \<rparr>"

definition GeositeOptions_from :: "pb_GeositeOptions \<Rightarrow> GeositeOptions" where
  "GeositeOptions_from value =
     \<lparr> gs_path = pgs_path value,
      gs_download_url = pgs_download_url value,
      gs_download_detour = pgs_download_detour value \<rparr>"

definition pb_GeositeOptions_from :: "GeositeOptions \<Rightarrow> pb_GeositeOptions" where
  "pb_GeositeOptions_from value =
     \<lparr> pgs_path = gs_path value,
      pgs_download_url = gs_download_url value,
      pgs_download_detour = gs_download_detour value \<rparr>"

definition RouteActionOptions_from :: "pb_RouteActionOptions \<Rightarrow> RouteActionOptions" where
  "RouteActionOptions_from value =
     \<lparr> ra_override_address = pra_override_address value,
      ra_override_port = pra_override_port value,
      ra_network_strategy = pra_network_strategy value,
      ra_fallback_delay = pra_fallback_delay value,
      ra_udp_disable_domain_unmapping = pra_udp_disable_domain_unmapping value,
      ra_udp_connect = pra_udp_connect value,
      ra_udp_timeout = pra_udp_timeout value,
      ra_tls_fragment = pra_tls_fragment value,
      ra_tls_fragment_fallback_delay = pra_tls_fragment_fallback_delay value,
      ra_tls_record_fragment = pra_tls_record_fragment value \<rparr>"

definition pb_RouteActionOptions_from :: "RouteActionOptions \<Rightarrow> pb_RouteActionOptions" where
  "pb_RouteActionOptions_from value =
     \<lparr> pra_override_address = ra_override_address value,
      pra_override_port = ra_override_port value,
      pra_network_strategy = ra_network_strategy value,
      pra_fallback_delay = ra_fallback_delay value,
      pra_udp_disable_domain_unmapping = ra_udp_disable_domain_unmapping value,
      pra_udp_connect = ra_udp_connect value,
      pra_udp_timeout = ra_udp_timeout value,
      pra_tls_fragment = ra_tls_fragment value,
      pra_tls_fragment_fallback_delay = ra_tls_fragment_fallback_delay value,
      pra_tls_record_fragment = ra_tls_record_fragment value \<rparr>"

definition SniffActionOptions_from :: "pb_SniffActionOptions \<Rightarrow> SniffActionOptions" where
  "SniffActionOptions_from value =
     \<lparr> sa_sniffer = psa_sniffer value,
      sa_timeout = psa_timeout value \<rparr>"

definition pb_SniffActionOptions_from :: "SniffActionOptions \<Rightarrow> pb_SniffActionOptions" where
  "pb_SniffActionOptions_from value =
     \<lparr> psa_sniffer = sa_sniffer value,
      psa_timeout = sa_timeout value \<rparr>"

definition ResolveActionOptions_from :: "pb_ResolveActionOptions \<Rightarrow> ResolveActionOptions" where
  "ResolveActionOptions_from value =
     \<lparr> re_server = pre_server value,
      re_strategy = pre_strategy value,
      re_disable_cache = pre_disable_cache value,
      re_rewrite_ttl = pre_rewrite_ttl value,
      re_client_subnet = pre_client_subnet value \<rparr>"

definition pb_ResolveActionOptions_from :: "ResolveActionOptions \<Rightarrow> pb_ResolveActionOptions" where
  "pb_ResolveActionOptions_from value =
     \<lparr> pre_server = re_server value,
      pre_strategy = re_strategy value,
      pre_disable_cache = re_disable_cache value,
      pre_rewrite_ttl = re_rewrite_ttl value,
      pre_client_subnet = re_client_subnet value \<rparr>"

fun RouteRule_from :: "pb_RouteRule \<Rightarrow> RouteRule" where
  "RouteRule_from
     (PbRouteRule
        v_type v_inbound v_network v_ip_version v_domain v_domain_suffix v_domain_keyword
        v_domain_regex v_source_ip_cidr v_ip_cidr v_source_ip_is_private v_ip_is_private v_port
        v_port_range v_source_port_range v_protocol v_rule_set v_invert v_action v_outbound
        v_method v_no_drop v_mode v_rules v_auth_user v_client v_geosite v_source_geoip v_geoip
        v_source_port v_process_name v_process_path v_process_path_regex v_package_name v_user
        v_user_id v_clash_mode v_network_type v_network_is_expensive v_network_is_constrained
        v_wifi_ssid v_wifi_bssid v_default_interface_address v_preferred_by
        v_rule_set_ip_cidr_match_source v_route_options v_direct_options v_sniff_options
        v_resolve_options) =
     RouteRule
        v_type v_inbound v_network v_ip_version v_domain v_domain_suffix v_domain_keyword
        v_domain_regex v_source_ip_cidr v_ip_cidr v_source_ip_is_private v_ip_is_private v_port
        v_port_range v_source_port v_source_port_range v_protocol v_rule_set v_invert v_action
        v_outbound v_method v_no_drop v_mode (map RouteRule_from v_rules) v_auth_user v_client
        v_geosite v_source_geoip v_geoip v_process_name v_process_path v_process_path_regex
        v_package_name v_user v_user_id v_clash_mode v_network_type v_network_is_expensive
        v_network_is_constrained v_wifi_ssid v_wifi_bssid v_default_interface_address
        v_preferred_by v_rule_set_ip_cidr_match_source
        (map_option RouteActionOptions_from v_route_options)
        (map_option DirectActionOptions_from v_direct_options)
        (map_option SniffActionOptions_from v_sniff_options)
        (map_option ResolveActionOptions_from v_resolve_options)"

fun pb_RouteRule_from :: "RouteRule \<Rightarrow> pb_RouteRule" where
  "pb_RouteRule_from
     (RouteRule
        v_kind v_inbound v_network v_ip_version v_domain v_domain_suffix v_domain_keyword
        v_domain_regex v_source_ip_cidr v_ip_cidr v_source_ip_is_private v_ip_is_private v_port
        v_port_range v_source_port v_source_port_range v_protocol v_rule_set v_invert v_action
        v_outbound v_method v_no_drop v_mode v_rules v_auth_user v_client v_geosite v_source_geoip
        v_geoip v_process_name v_process_path v_process_path_regex v_package_name v_user v_user_id
        v_clash_mode v_network_type v_network_is_expensive v_network_is_constrained v_wifi_ssid
        v_wifi_bssid v_default_interface_address v_preferred_by v_rule_set_ip_cidr_match_source
        v_route_options v_direct_options v_sniff_options v_resolve_options) =
     PbRouteRule
        v_kind v_inbound v_network v_ip_version v_domain v_domain_suffix v_domain_keyword
        v_domain_regex v_source_ip_cidr v_ip_cidr v_source_ip_is_private v_ip_is_private v_port
        v_port_range v_source_port_range v_protocol v_rule_set v_invert v_action v_outbound
        v_method v_no_drop v_mode (map pb_RouteRule_from v_rules) v_auth_user v_client v_geosite
        v_source_geoip v_geoip v_source_port v_process_name v_process_path v_process_path_regex
        v_package_name v_user v_user_id v_clash_mode v_network_type v_network_is_expensive
        v_network_is_constrained v_wifi_ssid v_wifi_bssid v_default_interface_address
        v_preferred_by v_rule_set_ip_cidr_match_source
        (map_option pb_RouteActionOptions_from v_route_options)
        (map_option pb_DirectActionOptions_from v_direct_options)
        (map_option pb_SniffActionOptions_from v_sniff_options)
        (map_option pb_ResolveActionOptions_from v_resolve_options)"

fun HeadlessRule_from :: "pb_HeadlessRule \<Rightarrow> HeadlessRule" where
  "HeadlessRule_from
     (PbHeadlessRule
        v_type v_network v_domain v_domain_suffix v_domain_keyword v_domain_regex v_source_ip_cidr
        v_ip_cidr v_source_port v_source_port_range v_port v_port_range v_process_name
        v_process_path v_process_path_regex v_package_name v_network_type v_network_is_expensive
        v_network_is_constrained v_wifi_ssid v_wifi_bssid v_default_interface_address v_invert
        v_mode v_rules) =
     HeadlessRule
        v_type v_network v_domain v_domain_suffix v_domain_keyword v_domain_regex v_source_ip_cidr
        v_ip_cidr v_source_port v_source_port_range v_port v_port_range v_process_name
        v_process_path v_process_path_regex v_package_name v_network_type v_network_is_expensive
        v_network_is_constrained v_wifi_ssid v_wifi_bssid v_default_interface_address v_invert
        v_mode (map HeadlessRule_from v_rules)"

fun pb_HeadlessRule_from :: "HeadlessRule \<Rightarrow> pb_HeadlessRule" where
  "pb_HeadlessRule_from
     (HeadlessRule
        v_kind v_network v_domain v_domain_suffix v_domain_keyword v_domain_regex v_source_ip_cidr
        v_ip_cidr v_source_port v_source_port_range v_port v_port_range v_process_name
        v_process_path v_process_path_regex v_package_name v_network_type v_network_is_expensive
        v_network_is_constrained v_wifi_ssid v_wifi_bssid v_default_interface_address v_invert
        v_mode v_rules) =
     PbHeadlessRule
        v_kind v_network v_domain v_domain_suffix v_domain_keyword v_domain_regex v_source_ip_cidr
        v_ip_cidr v_source_port v_source_port_range v_port v_port_range v_process_name
        v_process_path v_process_path_regex v_package_name v_network_type v_network_is_expensive
        v_network_is_constrained v_wifi_ssid v_wifi_bssid v_default_interface_address v_invert
        v_mode (map pb_HeadlessRule_from v_rules)"

definition RouteRuleSet_from :: "pb_RouteRuleSet \<Rightarrow> RouteRuleSet" where
  "RouteRuleSet_from value =
     \<lparr> rs_kind = prs_type value,
      rs_tag = prs_tag value,
      rs_format = prs_format value,
      rs_path = prs_path value,
      rs_url = prs_url value,
      rs_download_detour = prs_download_detour value,
      rs_update_interval = prs_update_interval value,
      rs_rules = map HeadlessRule_from (prs_rules value) \<rparr>"

definition pb_RouteRuleSet_from :: "RouteRuleSet \<Rightarrow> pb_RouteRuleSet" where
  "pb_RouteRuleSet_from value =
     \<lparr> prs_type = rs_kind value,
      prs_tag = rs_tag value,
      prs_format = rs_format value,
      prs_path = rs_path value,
      prs_url = rs_url value,
      prs_download_detour = rs_download_detour value,
      prs_update_interval = rs_update_interval value,
      prs_rules = map pb_HeadlessRule_from (rs_rules value) \<rparr>"

definition Route_from :: "pb_RouteConfig \<Rightarrow> Route" where
  "Route_from route =
     \<lparr> rt_rules = map RouteRule_from (rc_rules route),
      rt_rule_sets = map RouteRuleSet_from (rc_rule_sets route),
      rt_final = rc_final route,
      rt_auto_detect_interface = rc_auto_detect_interface route,
      rt_default_interface = rc_default_interface route,
      rt_default_mark = rc_default_mark route,
      rt_find_process = rc_find_process route,
      rt_geoip = map_option GeoIpOptions_from (rc_geoip route),
      rt_geosite = map_option GeositeOptions_from (rc_geosite route),
      rt_override_android_vpn = rc_override_android_vpn route,
      rt_default_domain_resolver = map_option DomainResolveOptions_from (rc_default_domain_resolver route),
      rt_default_network_strategy = rc_default_network_strategy route,
      rt_default_network_type = rc_default_network_type route,
      rt_default_fallback_network_type = rc_default_fallback_network_type route,
      rt_default_fallback_delay = rc_default_fallback_delay route \<rparr>"

definition pb_RouteConfig_from :: "Route \<Rightarrow> pb_RouteConfig" where
  "pb_RouteConfig_from route =
     \<lparr> rc_rules = map pb_RouteRule_from (rt_rules route),
      rc_rule_sets = map pb_RouteRuleSet_from (rt_rule_sets route),
      rc_final = rt_final route,
      rc_auto_detect_interface = rt_auto_detect_interface route,
      rc_default_interface = rt_default_interface route,
      rc_default_mark = rt_default_mark route,
      rc_find_process = rt_find_process route,
      rc_geoip = map_option pb_GeoIPOptions_from (rt_geoip route),
      rc_geosite = map_option pb_GeositeOptions_from (rt_geosite route),
      rc_override_android_vpn = rt_override_android_vpn route,
      rc_default_domain_resolver = map_option pb_DomainResolveOptions_from (rt_default_domain_resolver route),
      rc_default_network_strategy = rt_default_network_strategy route,
      rc_default_network_type = rt_default_network_type route,
      rc_default_fallback_network_type = rt_default_fallback_network_type route,
      rc_default_fallback_delay = rt_default_fallback_delay route \<rparr>"

definition DnsServer_from :: "pb_DNSServer \<Rightarrow> DnsServer" where
  "DnsServer_from value =
     \<lparr> ds_kind = pds_type value,
      ds_tag = pds_tag value,
      ds_server = pds_server value,
      ds_detour = pds_detour value \<rparr>"

definition pb_DNSServer_from :: "DnsServer \<Rightarrow> pb_DNSServer" where
  "pb_DNSServer_from value =
     \<lparr> pds_type = ds_kind value,
      pds_tag = ds_tag value,
      pds_server = ds_server value,
      pds_detour = ds_detour value \<rparr>"

definition DnsRule_from :: "pb_DNSRule \<Rightarrow> DnsRule" where
  "DnsRule_from value =
     \<lparr> dnr_inbound = pdnr_inbound value,
      dnr_domain = pdnr_domain value,
      dnr_domain_suffix = pdnr_domain_suffix value,
      dnr_domain_keyword = pdnr_domain_keyword value,
      dnr_domain_regex = pdnr_domain_regex value,
      dnr_rule_set = pdnr_rule_set value,
      dnr_action = pdnr_action value,
      dnr_rcode = pdnr_rcode value,
      dnr_server = pdnr_server value,
      dnr_method = pdnr_method value,
      dnr_no_drop = pdnr_no_drop value,
      dnr_answer = pdnr_answer value,
      dnr_ns = pdnr_ns value,
      dnr_extra = pdnr_extra value,
      dnr_disable_cache = pdnr_disable_cache value,
      dnr_rewrite_ttl = pdnr_rewrite_ttl value,
      dnr_timeout = pdnr_timeout value,
      dnr_client_subnet = pdnr_client_subnet value \<rparr>"

definition pb_DNSRule_from :: "DnsRule \<Rightarrow> pb_DNSRule" where
  "pb_DNSRule_from value =
     \<lparr> pdnr_inbound = dnr_inbound value,
      pdnr_domain = dnr_domain value,
      pdnr_domain_suffix = dnr_domain_suffix value,
      pdnr_domain_keyword = dnr_domain_keyword value,
      pdnr_domain_regex = dnr_domain_regex value,
      pdnr_rule_set = dnr_rule_set value,
      pdnr_action = dnr_action value,
      pdnr_rcode = dnr_rcode value,
      pdnr_server = dnr_server value,
      pdnr_method = dnr_method value,
      pdnr_no_drop = dnr_no_drop value,
      pdnr_answer = dnr_answer value,
      pdnr_ns = dnr_ns value,
      pdnr_extra = dnr_extra value,
      pdnr_disable_cache = dnr_disable_cache value,
      pdnr_rewrite_ttl = dnr_rewrite_ttl value,
      pdnr_timeout = dnr_timeout value,
      pdnr_client_subnet = dnr_client_subnet value \<rparr>"

definition Dns_from :: "pb_DNSConfig \<Rightarrow> Dns" where
  "Dns_from dns =
     \<lparr> dn_rules = map DnsRule_from (dc_rules dns),
      dn_servers = map DnsServer_from (dc_servers dns),
      dn_final = dc_final dns \<rparr>"

definition pb_DNSConfig_from :: "Dns \<Rightarrow> pb_DNSConfig" where
  "pb_DNSConfig_from dns =
     \<lparr> dc_rules = map pb_DNSRule_from (dn_rules dns),
      dc_servers = map pb_DNSServer_from (dn_servers dns),
      dc_final = dn_final dns \<rparr>"

definition Outbound_from :: "pb_OutboundConfig \<Rightarrow> Outbound" where
  "Outbound_from outbound =
     \<lparr> ob_kind = oc_type outbound,
      ob_tag = oc_tag outbound,
      ob_options = oc_options_json outbound \<rparr>"

definition pb_OutboundConfig_from :: "Outbound \<Rightarrow> pb_OutboundConfig" where
  "pb_OutboundConfig_from outbound =
     \<lparr> oc_type = ob_kind outbound,
      oc_tag = ob_tag outbound,
      oc_options_json = ob_options outbound \<rparr>"

section \<open>Users and nodes\<close>

definition UserCredential_from :: "pb_UserCredential \<Rightarrow> UserCredential" where
  "UserCredential_from user =
     (let status = (if user_status (puc_status user) = StDisabled then ''disabled'' else []) in
      \<lparr> uc_user_id = puc_user_id user,
        uc_name = puc_name user,
        uc_credential = puc_credential user,
        uc_status = status,
        uc_upload_speed_limit_bps = puc_upload_speed_limit_bps user,
        uc_download_speed_limit_bps = puc_download_speed_limit_bps user \<rparr>)"

definition pb_UserCredential_from :: "UserCredential \<Rightarrow> pb_UserCredential" where
  "pb_UserCredential_from user =
     \<lparr> puc_user_id = uc_user_id user,
       puc_name = uc_name user,
       puc_credential = uc_credential user,
       puc_status = (if uc_status user = ''disabled'' then 2 else 1),
       puc_upload_speed_limit_bps = uc_upload_speed_limit_bps user,
       puc_download_speed_limit_bps = uc_download_speed_limit_bps user \<rparr>"

definition NodeInstance_from_NodeConfig :: "pb_NodeConfig \<Rightarrow> NodeInstance" where
  "NodeInstance_from_NodeConfig node =
     \<lparr> ni_node_id = nc_node_id node,
      ni_provider_id = nc_provider_id node,
      ni_provider_config_version = nc_provider_config_version node,
      ni_provider_config = nc_provider_config_json node,
      ni_users = [] \<rparr>"

definition NodeInstance_from :: "pb_NodeTopology \<Rightarrow> NodeInstance" where
  "NodeInstance_from node =
     \<lparr> ni_node_id = nt_node_id node,
      ni_provider_id = nt_provider_id node,
      ni_provider_config_version = nt_provider_config_version node,
      ni_provider_config = nt_provider_config_json node,
      ni_users = map UserCredential_from (nt_users node) \<rparr>"

definition pb_NodeTopology_from :: "NodeInstance \<Rightarrow> pb_NodeTopology" where
  "pb_NodeTopology_from node =
     \<lparr> nt_node_id = ni_node_id node,
      nt_provider_id = ni_provider_id node,
      nt_provider_config_version = ni_provider_config_version node,
      nt_provider_config_json = ni_provider_config node,
      nt_users = map pb_UserCredential_from (ni_users node),
      nt_traffic_analysis = None \<rparr>"

section \<open>Losslessness\<close>

interpretation dr_conv: lossless DomainResolveOptions_from pb_DomainResolveOptions_from
  by unfold_locales (simp_all add: DomainResolveOptions_from_def pb_DomainResolveOptions_from_def lossless_lifts)

declare dr_conv.comp_id [lossless_lifts] dr_conv.lift_option [lossless_lifts]

interpretation da_conv: lossless DirectActionOptions_from pb_DirectActionOptions_from
  by unfold_locales (simp_all add: DirectActionOptions_from_def pb_DirectActionOptions_from_def lossless_lifts)

declare da_conv.comp_id [lossless_lifts] da_conv.lift_option [lossless_lifts]

interpretation gi_conv: lossless GeoIpOptions_from pb_GeoIPOptions_from
  by unfold_locales (simp_all add: GeoIpOptions_from_def pb_GeoIPOptions_from_def lossless_lifts)

declare gi_conv.comp_id [lossless_lifts] gi_conv.lift_option [lossless_lifts]

interpretation gs_conv: lossless GeositeOptions_from pb_GeositeOptions_from
  by unfold_locales (simp_all add: GeositeOptions_from_def pb_GeositeOptions_from_def lossless_lifts)

declare gs_conv.comp_id [lossless_lifts] gs_conv.lift_option [lossless_lifts]

interpretation ra_conv: lossless RouteActionOptions_from pb_RouteActionOptions_from
  by unfold_locales (simp_all add: RouteActionOptions_from_def pb_RouteActionOptions_from_def lossless_lifts)

declare ra_conv.comp_id [lossless_lifts] ra_conv.lift_option [lossless_lifts]

interpretation sa_conv: lossless SniffActionOptions_from pb_SniffActionOptions_from
  by unfold_locales (simp_all add: SniffActionOptions_from_def pb_SniffActionOptions_from_def lossless_lifts)

declare sa_conv.comp_id [lossless_lifts] sa_conv.lift_option [lossless_lifts]

interpretation re_conv: lossless ResolveActionOptions_from pb_ResolveActionOptions_from
  by unfold_locales (simp_all add: ResolveActionOptions_from_def pb_ResolveActionOptions_from_def lossless_lifts)

declare re_conv.comp_id [lossless_lifts] re_conv.lift_option [lossless_lifts]

lemma RouteRule_lossless: "pb_RouteRule_from (RouteRule_from p) = p" "RouteRule_from (pb_RouteRule_from m) = m"
proof -
  show "pb_RouteRule_from (RouteRule_from p) = p"
    by (induction p) (simp add: lossless_lifts map_idI)
  show "RouteRule_from (pb_RouteRule_from m) = m"
    by (induction m) (simp add: lossless_lifts map_idI)
qed

interpretation rr_conv: lossless RouteRule_from pb_RouteRule_from
  by unfold_locales (rule RouteRule_lossless)+

declare rr_conv.comp_id [lossless_lifts] rr_conv.lift_option [lossless_lifts]

lemma HeadlessRule_lossless: "pb_HeadlessRule_from (HeadlessRule_from p) = p" "HeadlessRule_from (pb_HeadlessRule_from m) = m"
proof -
  show "pb_HeadlessRule_from (HeadlessRule_from p) = p"
    by (induction p) (simp add: lossless_lifts map_idI)
  show "HeadlessRule_from (pb_HeadlessRule_from m) = m"
    by (induction m) (simp add: lossless_lifts map_idI)
qed

interpretation hr_conv: lossless HeadlessRule_from pb_HeadlessRule_from
  by unfold_locales (rule HeadlessRule_lossless)+

declare hr_conv.comp_id [lossless_lifts] hr_conv.lift_option [lossless_lifts]

interpretation rs_conv: lossless RouteRuleSet_from pb_RouteRuleSet_from
  by unfold_locales (simp_all add: RouteRuleSet_from_def pb_RouteRuleSet_from_def lossless_lifts)

declare rs_conv.comp_id [lossless_lifts] rs_conv.lift_option [lossless_lifts]

interpretation rt_conv: lossless Route_from pb_RouteConfig_from
  by unfold_locales (simp_all add: Route_from_def pb_RouteConfig_from_def lossless_lifts)

declare rt_conv.comp_id [lossless_lifts] rt_conv.lift_option [lossless_lifts]

interpretation ds_conv: lossless DnsServer_from pb_DNSServer_from
  by unfold_locales (simp_all add: DnsServer_from_def pb_DNSServer_from_def lossless_lifts)

declare ds_conv.comp_id [lossless_lifts] ds_conv.lift_option [lossless_lifts]

interpretation dnr_conv: lossless DnsRule_from pb_DNSRule_from
  by unfold_locales (simp_all add: DnsRule_from_def pb_DNSRule_from_def lossless_lifts)

declare dnr_conv.comp_id [lossless_lifts] dnr_conv.lift_option [lossless_lifts]

interpretation dn_conv: lossless Dns_from pb_DNSConfig_from
  by unfold_locales (simp_all add: Dns_from_def pb_DNSConfig_from_def lossless_lifts)

declare dn_conv.comp_id [lossless_lifts] dn_conv.lift_option [lossless_lifts]

interpretation ob_conv: lossless Outbound_from pb_OutboundConfig_from
  by unfold_locales (simp_all add: Outbound_from_def pb_OutboundConfig_from_def lossless_lifts)

declare ob_conv.comp_id [lossless_lifts] ob_conv.lift_option [lossless_lifts]


section \<open>Whole topologies\<close>

definition from_machine_config :: "string \<Rightarrow> pb_MachineConfig option \<Rightarrow> MachineTopology" where
  "from_machine_config default_machine_id config_opt =
     (case config_opt of
        None \<Rightarrow> MachineTopology_default\<lparr> mt_machine_id := default_machine_id \<rparr>
      | Some config \<Rightarrow>
          let snapshot =
                \<lparr> ts_machine_id = mc_machine_id config,
                  ts_revision = mc_revision config,
                  ts_nodes =
                    map (\<lambda>node.
                      \<lparr> nt_node_id = nc_node_id node,
                        nt_provider_id = nc_provider_id node,
                        nt_provider_config_version = nc_provider_config_version node,
                        nt_provider_config_json = nc_provider_config_json node,
                        nt_users = [],
                        nt_traffic_analysis = nc_traffic_analysis node \<rparr>) (mc_nodes config),
                  ts_outbounds = mc_outbounds config,
                  ts_route = mc_route config,
                  ts_dns = mc_dns config \<rparr>;
              topology =
                \<lparr> mt_machine_id = mc_machine_id config,
                  mt_revision = mc_revision config,
                  mt_nodes = map NodeInstance_from_NodeConfig (mc_nodes config),
                  mt_outbounds = map Outbound_from (mc_outbounds config),
                  mt_route = map_option Route_from (mc_route config),
                  mt_dns = map_option Dns_from (mc_dns config),
                  mt_snapshot = Some snapshot \<rparr>
          in if mt_machine_id topology = [] then topology\<lparr> mt_machine_id := default_machine_id \<rparr>
             else topology)"

definition from_snapshot :: "string \<Rightarrow> pb_TopologySnapshot option \<Rightarrow> MachineTopology" where
  "from_snapshot default_machine_id snapshot_opt =
     (case snapshot_opt of
        None \<Rightarrow> MachineTopology_default\<lparr> mt_machine_id := default_machine_id \<rparr>
      | Some snapshot \<Rightarrow>
          let topology =
                \<lparr> mt_machine_id = ts_machine_id snapshot,
                  mt_revision = ts_revision snapshot,
                  mt_nodes = map NodeInstance_from (ts_nodes snapshot),
                  mt_outbounds = map Outbound_from (ts_outbounds snapshot),
                  mt_route = map_option Route_from (ts_route snapshot),
                  mt_dns = map_option Dns_from (ts_dns snapshot),
                  mt_snapshot = Some snapshot \<rparr>
          in if mt_machine_id topology = [] then topology\<lparr> mt_machine_id := default_machine_id \<rparr>
             else topology)"

definition to_snapshot :: "MachineTopology \<Rightarrow> pb_TopologySnapshot" where
  "to_snapshot topology =
     \<lparr> ts_machine_id = mt_machine_id topology,
       ts_revision = mt_revision topology,
       ts_nodes = map pb_NodeTopology_from (mt_nodes topology),
       ts_outbounds = map pb_OutboundConfig_from (mt_outbounds topology),
       ts_route = map_option pb_RouteConfig_from (mt_route topology),
       ts_dns = map_option pb_DNSConfig_from (mt_dns topology) \<rparr>"

section \<open>Keeping the retained snapshot in step\<close>

text \<open>The loops \<open>if let Some(x) = xs.iter_mut().find(p) { *x = ... }\<close>: the first match is rewritten.\<close>

fun update_first :: "('a \<Rightarrow> bool) \<Rightarrow> ('a \<Rightarrow> 'a) \<Rightarrow> 'a list \<Rightarrow> 'a list" where
  "update_first p f [] = []"
| "update_first p f (x # xs) = (if p x then f x # xs else x # update_first p f xs)"

text \<open>The same with a \<open>push\<close> in the \<open>else\<close> branch.\<close>

definition upsert_first :: "('a \<Rightarrow> bool) \<Rightarrow> 'a \<Rightarrow> 'a list \<Rightarrow> 'a list" where
  "upsert_first p new xs =
     (if \<exists>x \<in> set xs. p x then update_first p (\<lambda>_. new) xs else xs @ [new])"

definition replace_node_users :: "MachineTopology \<Rightarrow> string \<Rightarrow> UserCredential list \<Rightarrow> MachineTopology"
  where
  "replace_node_users topology node_id users =
     (case mt_snapshot topology of
        None \<Rightarrow> topology
      | Some snapshot \<Rightarrow>
          topology\<lparr> mt_snapshot := Some (snapshot\<lparr> ts_nodes :=
            update_first (\<lambda>node. nt_node_id node = node_id)
              (\<lambda>node. node\<lparr> nt_users := map pb_UserCredential_from users \<rparr>)
              (ts_nodes snapshot) \<rparr>) \<rparr>)"

definition mutation_node_id :: "pb_NodeMutation \<Rightarrow> string" where
  "mutation_node_id mutation =
     (if nm_node_id mutation = [] then
        (case nm_node mutation of None \<Rightarrow> [] | Some node \<Rightarrow> nt_node_id node)
      else nm_node_id mutation)"

definition apply_node_mutation_to_snapshot :: "MachineTopology \<Rightarrow> pb_NodeMutation \<Rightarrow> MachineTopology"
  where
  "apply_node_mutation_to_snapshot topology mutation =
     (case mt_snapshot topology of
        None \<Rightarrow> topology
      | Some snapshot \<Rightarrow>
          let node_id = mutation_node_id mutation in
          if node_id = [] then topology
          else if mutation_operation (nm_operation mutation) \<in> {OpDelete, OpDisable} then
            topology\<lparr> mt_snapshot := Some (snapshot\<lparr> ts_nodes :=
              filter (\<lambda>node. nt_node_id node \<noteq> node_id) (ts_nodes snapshot) \<rparr>) \<rparr>
          else
            let replacement =
                  (case nm_node mutation of
                     None \<Rightarrow> pb_NodeTopology_default\<lparr> nt_node_id := node_id \<rparr>
                   | Some node \<Rightarrow>
                       if nt_node_id node = [] then node\<lparr> nt_node_id := node_id \<rparr> else node)
            in topology\<lparr> mt_snapshot := Some (snapshot\<lparr> ts_nodes :=
                 upsert_first (\<lambda>node. nt_node_id node = node_id) replacement
                   (ts_nodes snapshot) \<rparr>) \<rparr>)"

definition mutate_pb_users :: "MutationOperation \<Rightarrow> pb_UserCredential \<Rightarrow> pb_UserCredential list \<Rightarrow>
    pb_UserCredential list" where
  "mutate_pb_users operation user users =
     (if operation \<in> {OpDelete, OpDisable} \<or> user_status (puc_status user) = StDisabled then
        filter (\<lambda>candidate. puc_user_id candidate \<noteq> puc_user_id user) users
      else upsert_first (\<lambda>candidate. puc_user_id candidate = puc_user_id user) user users)"

definition apply_user_mutation_to_snapshot :: "MachineTopology \<Rightarrow> pb_UserMutation \<Rightarrow> MachineTopology"
  where
  "apply_user_mutation_to_snapshot topology mutation =
     (case mt_snapshot topology of
        None \<Rightarrow> topology
      | Some snapshot \<Rightarrow>
          (case um_user mutation of
             None \<Rightarrow> topology
           | Some user \<Rightarrow>
               topology\<lparr> mt_snapshot := Some (snapshot\<lparr> ts_nodes :=
                 update_first (\<lambda>node. nt_node_id node = um_node_id mutation)
                   (\<lambda>node. node\<lparr> nt_users :=
                      mutate_pb_users (mutation_operation (um_operation mutation)) user
                        (nt_users node) \<rparr>)
                   (ts_nodes snapshot) \<rparr>) \<rparr>))"

definition apply_route_patch_to_snapshot :: "MachineTopology \<Rightarrow> pb_TopologyRoutePatch \<Rightarrow> MachineTopology"
  where
  "apply_route_patch_to_snapshot topology patch =
     (case mt_snapshot topology of
        None \<Rightarrow> topology
      | Some snapshot \<Rightarrow>
          topology\<lparr> mt_snapshot := Some (snapshot\<lparr>
            ts_machine_id := (if rp_machine_id patch \<noteq> [] then rp_machine_id patch
                              else ts_machine_id snapshot),
            ts_revision := rp_revision patch,
            ts_outbounds := rp_outbounds patch,
            ts_route := rp_route patch,
            ts_dns := rp_dns patch \<rparr>) \<rparr>)"

end
