(* ===== verification/Topology_Manager.thy ===== *)
theory Topology_Manager
  imports Topology_Adapter Topology_Proto
begin

text \<open>
  \<open>TopologyManager\<close> of \<open>topology/manager.rs\<close>: the revision-fenced state transitions of the published
  topology. \<open>trait TopologyRuntime\<close> is a record of operations over a runtime state, instantiated by the
  adapter; each manager operation runs under the operation lock and is one step from manager state
  to manager state. \<open>BTreeMap\<close>s built by \<open>collect\<close> are folds of \<open>bt_insert\<close>.
\<close>

section \<open>The runtime boundary\<close>

record ('t, 'c) topology_runtime =
  trt_apply :: "'t \<Rightarrow> MachineTopology \<Rightarrow> 't \<times> (TopologyError + unit)"
  trt_close_user_connections :: "'t \<Rightarrow> string \<Rightarrow> string \<Rightarrow> 't \<times> u64"
  trt_current_config :: "'t \<Rightarrow> bytes"
  trt_warnings :: "'t \<Rightarrow> string list"
  trt_reconcile_current :: "'t \<Rightarrow> MachineTopology \<Rightarrow> 't \<times> (TopologyError + unit)"
  trt_begin_close :: "'t \<Rightarrow> 't"
  trt_close :: "'t \<Rightarrow> 't \<times> (TopologyError + unit)"
  trt_prepare_reload :: "'t \<Rightarrow> MachineTopology \<Rightarrow> 't \<times> (TopologyError + 'c)"
  trt_configure_reload :: "'t \<Rightarrow> MachineTopology \<Rightarrow> 't \<times> (TopologyError + unit)"
  trt_reload_prepared :: "'t \<Rightarrow> MachineTopology \<Rightarrow> 'c \<Rightarrow> 't \<times> (TopologyError + ReloadStatus)"

text \<open>The adapter as a topology runtime; \<open>closing\<close> is the flag its transactions read.\<close>

definition adapter_runtime ::
    "('p, 'r, 'c) adapter_env \<Rightarrow> (('p, 'r, 'c) adapter \<Rightarrow> bool) \<Rightarrow>
      (('p, 'r, 'c) adapter, 'c) topology_runtime" where
  "adapter_runtime env closing =
     \<lparr> trt_apply = (\<lambda>a t. adapter_apply env a (closing a) t),
       trt_close_user_connections = adapter_close_user_connections env,
       trt_current_config = (\<lambda>a. nr_current_config (ae_runtime env) (ad_runtime a)),
       trt_warnings = ad_active_warnings,
       trt_reconcile_current = adapter_reconcile_current env,
       trt_begin_close = adapter_begin_close env,
       trt_close = adapter_close env,
       trt_prepare_reload = adapter_prepare_reload env,
       trt_configure_reload = adapter_configure_reload env,
       trt_reload_prepared = (\<lambda>a t c. adapter_reload_prepared env a (closing a) t c) \<rparr>"

section \<open>Users of a topology\<close>

record UserRefreshChanges =
  ch_added :: nat
  ch_updated :: nat
  ch_deleted :: nat
  ch_applied :: bool

definition UserRefreshChanges_default :: UserRefreshChanges where
  "UserRefreshChanges_default = \<lparr> ch_added = 0, ch_updated = 0, ch_deleted = 0, ch_applied = False \<rparr>"

text \<open>\<open>collect()\<close> into a \<open>BTreeMap\<close>: later entries replace earlier ones.\<close>

definition bt_collect :: "('k::linorder \<times> 'v) list \<Rightarrow> ('k \<times> 'v) list" where
  "bt_collect entries = foldl (\<lambda>m (k, v). bt_insert k v m) [] entries"

fun index_users :: "string \<Rightarrow> UserCredential list \<Rightarrow> (string \<times> UserCredential) list \<Rightarrow>
    TopologyError + (string \<times> UserCredential) list" where
  "index_users source [] indexed = Inr indexed"
| "index_users source (user # users) indexed =
     (if uc_user_id user = [] then
        Inl (topology_error InvalidMutation (source @ '' user list contains an empty user_id''))
      else if map_of indexed (uc_user_id user) \<noteq> None then
        Inl (topology_error InvalidMutation
          (source @ '' user list contains duplicate user_id '' @ uc_user_id user))
      else index_users source users (bt_insert (uc_user_id user) user indexed))"

definition index_node_users :: "UserCredential list \<Rightarrow> string \<Rightarrow>
    TopologyError + (string \<times> UserCredential) list" where
  "index_node_users users source = index_users source users []"

definition count_changes :: "(string \<times> UserCredential) list \<Rightarrow> (string \<times> UserCredential) list \<Rightarrow>
    UserRefreshChanges" where
  "count_changes current desired =
     \<lparr> ch_added = length (filter (\<lambda>(user_id, _). map_of current user_id = None) desired),
       ch_updated = length (filter (\<lambda>(user_id, desired_user).
         case map_of current user_id of None \<Rightarrow> False | Some u \<Rightarrow> u \<noteq> desired_user) desired),
       ch_deleted = length (filter (\<lambda>(user_id, _). map_of desired user_id = None) current),
       ch_applied = False \<rparr>"

definition compare_node_users :: "UserCredential list \<Rightarrow> UserCredential list \<Rightarrow>
    TopologyError + UserRefreshChanges" where
  "compare_node_users current desired =
     rbind (index_node_users current ''current'') (\<lambda>current'.
     rbind (index_node_users desired ''desired'') (\<lambda>desired'.
     Inr (count_changes current' desired')))"

definition active_user :: "UserCredential \<Rightarrow> bool" where
  "active_user user \<longleftrightarrow> uc_user_id user \<noteq> [] \<and> uc_status user \<noteq> ''disabled''"

definition stale_credential_user_ids :: "UserCredential list \<Rightarrow> UserCredential list \<Rightarrow> string list" where
  "stale_credential_user_ids current desired =
     (let desired_active =
            bt_collect (map (\<lambda>user. (uc_user_id user, user)) (filter active_user desired)) in
      map uc_user_id
        (filter (\<lambda>user. case map_of desired_active (uc_user_id user) of
             None \<Rightarrow> True | Some d \<Rightarrow> uc_credential d \<noteq> uc_credential user)
           (filter active_user current)))"

definition stale_credential_topology_users :: "MachineTopology \<Rightarrow> MachineTopology \<Rightarrow>
    (string \<times> string list) list" where
  "stale_credential_topology_users current desired =
     (let desired_by_node =
            bt_collect (map (\<lambda>node. (ni_node_id node, ni_users node)) (mt_nodes desired)) in
      bt_collect (concat (map (\<lambda>node.
        let desired_users =
              (case map_of desired_by_node (ni_node_id node) of None \<Rightarrow> [] | Some users \<Rightarrow> users);
            stale = stale_credential_user_ids (ni_users node) desired_users
        in if stale \<noteq> [] then [(ni_node_id node, stale)] else []) (mt_nodes current))))"

definition topology_authorizes_user :: "MachineTopology \<Rightarrow> string \<Rightarrow> string \<Rightarrow> bool" where
  "topology_authorizes_user topology node_id user_id =
     (case find (\<lambda>node. ni_node_id node = node_id) (mt_nodes topology) of
        None \<Rightarrow> False
      | Some node \<Rightarrow>
          list_ex (\<lambda>user. uc_user_id user = user_id \<and> uc_status user \<noteq> ''disabled'') (ni_users node))"

definition topology_user_count :: "MachineTopology \<Rightarrow> nat" where
  "topology_user_count topology = sum_list (map (\<lambda>node. length (ni_users node)) (mt_nodes topology))"

section \<open>Mutations\<close>

definition NodeInstance_default :: NodeInstance where
  "NodeInstance_default =
     \<lparr> ni_node_id = [], ni_provider_id = [], ni_provider_config_version = 0,
       ni_provider_config = [], ni_users = [] \<rparr>"

definition apply_node_mutation :: "MachineTopology \<Rightarrow> pb_NodeMutation \<Rightarrow> MachineTopology" where
  "apply_node_mutation topology mutation =
     (let node_id = mutation_node_id mutation in
      if node_id = [] then topology
      else if mutation_operation (nm_operation mutation) \<in> {OpDelete, OpDisable} then
        topology\<lparr> mt_nodes := filter (\<lambda>node. ni_node_id node \<noteq> node_id) (mt_nodes topology) \<rparr>
      else
        let node = (case nm_node mutation of
                      None \<Rightarrow> NodeInstance_default | Some n \<Rightarrow> NodeInstance_from n);
            replacement = (if ni_node_id node = [] then node\<lparr> ni_node_id := node_id \<rparr> else node)
        in topology\<lparr> mt_nodes :=
             upsert_first (\<lambda>node. ni_node_id node = node_id) replacement (mt_nodes topology) \<rparr>)"

definition mutate_users :: "MutationOperation \<Rightarrow> pb_UserCredential \<Rightarrow> UserCredential list \<Rightarrow>
    UserCredential list" where
  "mutate_users operation user users =
     (let replacement = UserCredential_from user in
      if operation \<in> {OpDelete, OpDisable} \<or> uc_status replacement = ''disabled'' then
        filter (\<lambda>candidate. uc_user_id candidate \<noteq> puc_user_id user) users
      else upsert_first (\<lambda>candidate. uc_user_id candidate = puc_user_id user) replacement users)"

definition apply_user_mutation :: "MachineTopology \<Rightarrow> pb_UserMutation \<Rightarrow>
    TopologyError + MachineTopology" where
  "apply_user_mutation topology mutation =
     (if um_node_id mutation = [] then
        Inl (topology_error InvalidMutation ''user mutation requires node_id'')
      else (case um_user mutation of
        None \<Rightarrow> Inl (topology_error InvalidMutation ''user mutation requires user.user_id'')
      | Some user \<Rightarrow>
          if puc_user_id user = [] then
            Inl (topology_error InvalidMutation ''user mutation requires user.user_id'')
          else if find (\<lambda>node. ni_node_id node = um_node_id mutation) (mt_nodes topology) = None then
            Inl (topology_error InvalidMutation
              (''node '' @ um_node_id mutation @ '' not found for user mutation''))
          else
            Inr (topology\<lparr> mt_nodes :=
              update_first (\<lambda>node. ni_node_id node = um_node_id mutation)
                (\<lambda>node. node\<lparr> ni_users :=
                   mutate_users (mutation_operation (um_operation mutation)) user (ni_users node) \<rparr>)
                (mt_nodes topology) \<rparr>)))"

fun apply_node_mutations :: "pb_NodeMutation list \<Rightarrow> MachineTopology \<Rightarrow> MachineTopology" where
  "apply_node_mutations [] next = next"
| "apply_node_mutations (mutation # mutations) next =
     apply_node_mutations mutations
       (apply_node_mutation_to_snapshot (apply_node_mutation next mutation) mutation)"

fun apply_user_mutations :: "pb_UserMutation list \<Rightarrow> MachineTopology \<Rightarrow>
    TopologyError + MachineTopology" where
  "apply_user_mutations [] next = Inr next"
| "apply_user_mutations (mutation # mutations) next =
     rbind (apply_user_mutation next mutation) (\<lambda>next'.
       apply_user_mutations mutations (apply_user_mutation_to_snapshot next' mutation))"

definition set_snapshot_revision :: "u64 \<Rightarrow> MachineTopology \<Rightarrow> MachineTopology" where
  "set_snapshot_revision revision topology =
     topology\<lparr> mt_snapshot :=
       map_option (\<lambda>snapshot. snapshot\<lparr> ts_revision := revision \<rparr>) (mt_snapshot topology) \<rparr>"

section \<open>Manager state\<close>

record 't topology_manager =
  tm_machine_id :: string
  tm_runtime :: 't
  tm_topology :: MachineTopology
  tm_generation :: u64
  tm_operations_cancelled :: bool
  tm_session_cancelled :: "bool option"
  tm_close_result :: "(TopologyError + unit) option"

definition manager_new :: "string \<Rightarrow> 't \<Rightarrow> 't topology_manager" where
  "manager_new machine_id runtime =
     \<lparr> tm_machine_id = machine_id, tm_runtime = runtime, tm_topology = MachineTopology_default,
       tm_generation = 0, tm_operations_cancelled = False, tm_session_cancelled = None,
       tm_close_result = None \<rparr>"

definition publish :: "MachineTopology \<Rightarrow> 't topology_manager \<Rightarrow> 't topology_manager" where
  "publish topology m = m\<lparr> tm_generation := tm_generation m + 1, tm_topology := topology \<rparr>"

definition publication_token :: "'t topology_manager \<Rightarrow> u64" where
  "publication_token m = tm_generation m"

definition current_revision :: "'t topology_manager \<Rightarrow> u64 option" where
  "current_revision m =
     (if mt_machine_id (tm_topology m) \<noteq> [] then Some (mt_revision (tm_topology m)) else None)"

definition ensure_operations_running :: "'t topology_manager \<Rightarrow> TopologyError + unit" where
  "ensure_operations_running m =
     (if tm_operations_cancelled m then Inl (error_runtime ''topology operations are stopped'' False)
      else Inr ())"

text \<open>Admission to the operation lock.\<close>

definition begin_operation :: "'t topology_manager \<Rightarrow> TopologyError + unit" where
  "begin_operation m =
     (if tm_operations_cancelled m then Inl (error_runtime ''topology operations are stopped'' False)
      else if tm_session_cancelled m = Some True then
        Inl (error_runtime ''control command execution canceled'' False)
      else Inr ())"

definition tm_current_config :: "('t, 'c) topology_runtime \<Rightarrow> 't topology_manager \<Rightarrow>
    TopologyError + bytes" where
  "tm_current_config rt m =
     rbind (ensure_operations_running m) (\<lambda>_.
     let config = trt_current_config rt (tm_runtime m) in
     if config = [] then
       Inl (topology_error RuntimeKind ''shoes runtime has no active configuration'')
     else Inr config)"

section \<open>Revision guards\<close>

definition guard_revision :: "'t topology_manager \<Rightarrow> u64 \<Rightarrow> TopologyError + unit" where
  "guard_revision m incoming =
     (if incoming = 0 then
        Inl (topology_error RevisionMismatch ''topology revision mismatch: incoming revision is zero'')
      else
        let current = mt_revision (tm_topology m) in
        if incoming < current then
          Inl (topology_error StaleRevision
            (''stale revision: incoming='' @ show_u64 incoming @ '' current='' @ show_u64 current))
        else Inr ())"

definition guard_authoritative_revision :: "'t topology_manager \<Rightarrow> u64 \<Rightarrow> TopologyError + unit" where
  "guard_authoritative_revision m incoming =
     (let current = tm_topology m in
      if mt_machine_id current = [] \<or> mt_revision current = 0 \<or> incoming \<ge> mt_revision current
      then Inr ()
      else Inl (topology_error StaleRevision
        (''stale authoritative topology: incoming='' @ show_u64 incoming @ '' current='' @
         show_u64 (mt_revision current))))"

definition guard_revision_fence :: "'t topology_manager \<Rightarrow> u64 \<Rightarrow> u64 \<Rightarrow> TopologyError + unit" where
  "guard_revision_fence m base target =
     (if base = 0 \<or> target = 0 then
        Inl (topology_error RevisionMismatch
          (''topology revision mismatch: base='' @ show_u64 base @ '' target='' @ show_u64 target))
      else
        let current = mt_revision (tm_topology m) in
        if base \<noteq> current then
          Inl (topology_error RevisionMismatch
            (''topology revision mismatch: base='' @ show_u64 base @ '' current='' @
             show_u64 current @ '' target='' @ show_u64 target))
        else if target < base then
          Inl (topology_error StaleRevision
            (''stale revision: incoming='' @ show_u64 target @ '' current='' @ show_u64 current))
        else Inr ())"

end
