(* ===== verification/Acp_Proto.thy ===== *)
theory Acp_Proto
  imports Port_Plan
begin

text \<open>
  The hand-written part of the \<open>acp-proto\<close> crate: hexadecimal text (\<open>hex.rs\<close>), the canonical strings
  and signatures of the authenticated session (\<open>auth.rs\<close>), the convergence digest of a topology
  (\<open>digest.rs\<close>) and the limits of traffic analysis (\<open>analysis.rs\<close>). HMAC-SHA-256, SHA-256 and the
  protobuf encoding are parameters.
\<close>

section \<open>Hexadecimal text\<close>

definition DIGITS :: string where
  "DIGITS = ''0123456789abcdef''"

definition hex_encode :: "bytes \<Rightarrow> string" where
  "hex_encode octets =
     concat (map (\<lambda>b. [DIGITS ! unat (drop_bit 4 b), DIGITS ! unat (and b 0x0f)]) octets)"

definition nibble :: "u8 \<Rightarrow> u8 option" where
  "nibble b =
     (if 48 \<le> b \<and> b \<le> 57 then Some (b - 48)
      else if 97 \<le> b \<and> b \<le> 102 then Some (b - 97 + 10)
      else if 65 \<le> b \<and> b \<le> 70 then Some (b - 65 + 10)
      else None)"

fun hex_pairs :: "bytes \<Rightarrow> bytes option" where
  "hex_pairs (h # l # rest) =
     (case nibble h of
        None \<Rightarrow> None
      | Some hi \<Rightarrow>
          (case nibble l of
             None \<Rightarrow> None
           | Some lo \<Rightarrow> map_option (\<lambda>out. (or (push_bit 4 hi) lo) # out) (hex_pairs rest)))"
| "hex_pairs _ = Some []"

definition hex_decode :: "string \<Rightarrow> bytes option" where
  "hex_decode t = (if odd (length t) then None else hex_pairs (str_bytes t))"

section \<open>Session authentication\<close>

record HelloFields =
  hf_machine_id :: string
  hf_node_id :: string
  hf_agent_version :: string
  hf_sing_box_version :: string
  hf_timestamp_unix :: int
  hf_nonce :: string
  hf_topology_revision :: u64

record SessionFields =
  sf_machine_id :: string
  sf_session_id :: string
  sf_timestamp_unix :: int
  sf_nonce :: string

abbreviation newline :: string where
  "newline \<equiv> [CHR 0x0A]"

definition canonical_hello :: "HelloFields \<Rightarrow> string" where
  "canonical_hello fl =
     hf_machine_id fl @ newline @ hf_node_id fl @ newline @ hf_agent_version fl @ newline @
     hf_sing_box_version fl @ newline @ show_int (hf_timestamp_unix fl) @ newline @
     hf_nonce fl @ newline @ show_u64 (hf_topology_revision fl)"

definition canonical_session :: "SessionFields \<Rightarrow> string" where
  "canonical_session fl =
     sf_machine_id fl @ newline @ sf_session_id fl @ newline @
     show_int (sf_timestamp_unix fl) @ newline @ sf_nonce fl"

definition sign :: "(bytes \<Rightarrow> bytes \<Rightarrow> bytes) \<Rightarrow> string \<Rightarrow> string \<Rightarrow> string" where
  "sign hmac secret payload = hex_encode (hmac (str_bytes secret) (str_bytes payload))"

definition sign_hello :: "(bytes \<Rightarrow> bytes \<Rightarrow> bytes) \<Rightarrow> string \<Rightarrow> HelloFields \<Rightarrow> string + string" where
  "sign_hello hmac secret fl =
     (if secret = [] then Inl ''machine secret''
      else if hf_machine_id fl = [] then Inl ''machine id''
      else if hf_node_id fl = [] then Inl ''node id''
      else Inr (sign hmac secret (canonical_hello fl)))"

definition sign_session :: "(bytes \<Rightarrow> bytes \<Rightarrow> bytes) \<Rightarrow> string \<Rightarrow> SessionFields \<Rightarrow> string + string" where
  "sign_session hmac secret fl =
     (if secret = [] then Inl ''machine secret''
      else if sf_machine_id fl = [] then Inl ''machine id''
      else if sf_session_id fl = [] then Inl ''session id''
      else if sf_nonce fl = [] then Inl ''nonce''
      else Inr (sign hmac secret (canonical_session fl)))"

definition session_metadata :: "(bytes \<Rightarrow> bytes \<Rightarrow> bytes) \<Rightarrow> string \<Rightarrow> SessionFields \<Rightarrow>
    string + (string \<times> string) list" where
  "session_metadata hmac secret fl =
     rbind (sign_session hmac secret fl) (\<lambda>signature.
     Inr [(''acp-machine-id'', sf_machine_id fl),
          (''acp-session-id'', sf_session_id fl),
          (''acp-timestamp-unix'', show_int (sf_timestamp_unix fl)),
          (''acp-nonce'', sf_nonce fl),
          (''acp-signature'', signature)])"

section \<open>The topology digest\<close>

definition TopologySnapshot_default :: pb_TopologySnapshot where
  "TopologySnapshot_default =
     \<lparr> ts_machine_id = [], ts_revision = 0, ts_nodes = [], ts_outbounds = [], ts_route = None,
       ts_dns = None \<rparr>"

definition normalize_node :: "pb_NodeTopology \<Rightarrow> pb_NodeTopology" where
  "normalize_node node =
     node\<lparr> nt_traffic_analysis := None, nt_users := sort_key puc_user_id (nt_users node) \<rparr>"

definition normalize_snapshot :: "pb_TopologySnapshot \<Rightarrow> pb_TopologySnapshot" where
  "normalize_snapshot snapshot =
     snapshot\<lparr> ts_revision := 0,
       ts_nodes := map normalize_node (sort_key nt_node_id (ts_nodes snapshot)) \<rparr>"

definition digest_sum :: "(pb_TopologySnapshot \<Rightarrow> bytes) \<Rightarrow> (bytes \<Rightarrow> bytes) \<Rightarrow>
    pb_TopologySnapshot option \<Rightarrow> string" where
  "digest_sum encode_to_vec sha256 snapshot =
     (let normalized = normalize_snapshot
            (case snapshot of None \<Rightarrow> TopologySnapshot_default | Some s \<Rightarrow> s) in
      hex_encode (sha256 (encode_to_vec normalized)))"

section \<open>Analysis limits\<close>

definition default_config :: "bool \<Rightarrow> pb_TrafficAnalysisConfig" where
  "default_config enabled =
     \<lparr> ac_enabled = enabled,
       ac_sample_interval_seconds = 5,
       ac_batch_max_entries = 1024,
       ac_batch_max_bytes = 256 * 1024,
       ac_queue_max_bytes = 16 * 1024 * 1024,
       ac_queue_max_age_seconds = 20,
       ac_send_bytes_per_second = 256 * 1024,
       ac_send_burst_bytes = 512 * 1024,
       ac_send_timeout_millis = 1000,
       ac_minute_max_domain_keys = 20000,
       ac_max_udp_targets = 40000,
       ac_max_udp_targets_per_session = 64,
       ac_memory_max_bytes = 64 * 1024 * 1024 \<rparr>"

text \<open>\<open>clamp\<close> panics when its bounds are crossed; \<open>None\<close> is the panic.\<close>

definition clamp :: "'a::linorder \<Rightarrow> 'a \<Rightarrow> 'a \<Rightarrow> 'a option" where
  "clamp v low high = (if high < low then None else Some (max low (min v high)))"

definition bound :: "('a::{linorder, zero}) \<Rightarrow> 'a \<Rightarrow> 'a \<Rightarrow> 'a \<Rightarrow> 'a option" where
  "bound v fallback low high = (if v = 0 then Some fallback else clamp v low high)"

definition normalize_config :: "pb_TrafficAnalysisConfig option \<Rightarrow> pb_TrafficAnalysisConfig option" where
  "normalize_config config_opt =
     (case config_opt of
        None \<Rightarrow> Some (default_config False)
      | Some config \<Rightarrow>
          let out = default_config (ac_enabled config) in
          Option.bind (bound (ac_sample_interval_seconds config) (ac_sample_interval_seconds out) 1 10) (\<lambda>x1.
          Option.bind (bound (ac_batch_max_entries config) (ac_batch_max_entries out) 1 1024) (\<lambda>x2.
          Option.bind (bound (ac_batch_max_bytes config) (ac_batch_max_bytes out) 1024 (256 * 1024)) (\<lambda>x3.
          Option.bind (bound (ac_queue_max_bytes config) (ac_queue_max_bytes out)
            (256 * 1024) (16 * 1024 * 1024)) (\<lambda>x4.
          Option.bind (bound (ac_queue_max_age_seconds config) (ac_queue_max_age_seconds out) 1 20) (\<lambda>x5.
          Option.bind (bound (ac_send_bytes_per_second config) (ac_send_bytes_per_second out)
            1024 (16 * 1024 * 1024)) (\<lambda>x6.
          Option.bind (bound (ac_send_burst_bytes config) (ac_send_burst_bytes out)
            (ucast x3) (16 * 1024 * 1024)) (\<lambda>x7.
          Option.bind (bound (ac_send_timeout_millis config) (ac_send_timeout_millis out) 100 5000) (\<lambda>x8.
          Option.bind (bound (ac_minute_max_domain_keys config) (ac_minute_max_domain_keys out)
            1 20000) (\<lambda>x9.
          Option.bind (bound (ac_max_udp_targets config) (ac_max_udp_targets out) 1 40000) (\<lambda>x10.
          Option.bind (bound (ac_max_udp_targets_per_session config)
            (ac_max_udp_targets_per_session out) 1 64) (\<lambda>x11.
          Option.bind (bound (ac_memory_max_bytes config) (ac_memory_max_bytes out)
            (1024 * 1024) (64 * 1024 * 1024)) (\<lambda>x12.
          Some (out\<lparr>
            ac_sample_interval_seconds := x1, ac_batch_max_entries := x2, ac_batch_max_bytes := x3,
            ac_queue_max_bytes := x4, ac_queue_max_age_seconds := x5, ac_send_bytes_per_second := x6,
            ac_send_burst_bytes := x7, ac_send_timeout_millis := x8, ac_minute_max_domain_keys := x9,
            ac_max_udp_targets := x10, ac_max_udp_targets_per_session := x11,
            ac_memory_max_bytes := x12 \<rparr>))))))))))))))"

section \<open>Hexadecimal round trip\<close>

lemma DIGITS_nth: "d < 16 \<Longrightarrow> DIGITS ! d = hex_digit d"
proof -
  assume "d < 16"
  moreover have "DIGITS = map hex_digit [0..<16]" by code_simp
  ultimately show ?thesis using nth_map [of d "[0..<16]" hex_digit] by simp
qed

lemma nibble_values:
  "unat (drop_bit 4 (b :: u8)) = unat b div 16" "unat (and b 0x0f) = unat b mod 16"
proof -
  have "drop_bit 4 b = b div 16" by (simp add: drop_bit_eq_div)
  then show "unat (drop_bit 4 b) = unat b div 16" by (simp add: unat_div_distrib)
  have "and b 0x0f = take_bit 4 b" by (simp add: take_bit_eq_mask mask_eq_exp_minus_1)
  then show "unat (and b 0x0f) = unat b mod 16"
    by (simp add: take_bit_eq_mod unat_mod_distrib)
qed

text \<open>The two lowercase encoders of the sources agree.\<close>

lemma hex_encode_lower_hex: "hex_encode = lower_hex"
proof
  fix octets
  have "unat (b :: u8) div 16 < 16" "unat b mod 16 < 16" for b
    using unat_u8_less [of b] by (auto simp: less_mult_imp_div_less)
  then show "hex_encode octets = lower_hex octets"
    by (simp add: hex_encode_def lower_hex_def nibble_values DIGITS_nth)
qed

lemma nibble_hex_digit: "d < 16 \<Longrightarrow> nibble (of_nat (byte_of (hex_digit d))) = Some (of_nat d)"
proof -
  assume d: "d < 16"
  let ?n = "if d < 10 then 48 + d else 87 + d"
  have n: "byte_of (hex_digit d) = ?n" and u: "unat (of_nat ?n :: u8) = ?n"
    using d by (simp_all add: byte_of_def hex_digit_def unat_of_nat)
  show ?thesis
  proof (cases "d < 10")
    case True
    with n u show ?thesis by (simp add: nibble_def word_le_nat_alt)
  next
    case False
    with d u have "48 \<le> (of_nat ?n :: u8) \<and> \<not> (of_nat ?n :: u8) \<le> 57" "97 \<le> (of_nat ?n :: u8) \<and> (of_nat ?n :: u8) \<le> 102"
      by (auto simp: word_le_nat_alt)
    with False n show ?thesis by (simp add: nibble_def)
  qed
qed

lemma join_nibbles: "or (push_bit 4 (of_nat (unat b div 16))) (of_nat (unat b mod 16)) = (b :: u8)"
proof -
  have "unat b div 16 < 256" "unat b mod 16 < 256" using unat_u8_less [of b] by simp_all
  then have "(of_nat (unat b div 16) :: u8) = drop_bit 4 b" "(of_nat (unat b mod 16) :: u8) = and b 0x0f"
    by (simp_all only: word_unat_eq_iff nibble_values) (simp_all add: unat_of_nat)
  moreover have "and b 0x0f = take_bit 4 b" by (simp add: take_bit_eq_mask mask_eq_exp_minus_1)
  ultimately show ?thesis
    by (simp only:) (rule bit_eqI, auto simp: bit_simps)
qed

lemma hex_pairs_lower_hex: "hex_pairs (str_bytes (lower_hex octets)) = Some octets"
proof (induction octets)
  case (Cons b octets)
  have "unat b div 16 < 16" "unat b mod 16 < 16"
    using unat_u8_less [of b] by (auto simp: less_mult_imp_div_less)
  with Cons show ?case
    by (simp add: lower_hex_def str_bytes_def nibble_hex_digit join_nibbles)
qed (simp add: lower_hex_def str_bytes_def)

lemma even_lower_hex: "even (length (lower_hex octets))"
  by (induction octets) (auto simp: lower_hex_def)

lemma hex_decode_encode: "hex_decode (hex_encode octets) = Some octets"
  by (simp add: hex_decode_def hex_encode_lower_hex even_lower_hex hex_pairs_lower_hex)

interpretation hex_codec: codec hex_encode "\<lambda>t. ok_or () (hex_decode t)" "\<lambda>_. True"
  by unfold_locales (simp_all add: hex_decode_encode)

section \<open>Canonical strings\<close>

definition line :: "string \<Rightarrow> bool" where
  "line s \<longleftrightarrow> CHR 0x0A \<notin> set s"

lemma line_show_nat: "line (show_nat n)"
  using show_nat_digits [of n]
  by (auto simp: line_def list_all_iff is_ascii_digit_def byte_of_def)

lemma line_show_int: "line (show_int i)"
  using line_show_nat by (simp add: show_int_def line_def)

lemma show_int_inject [simp]: "show_int i = show_int j \<longleftrightarrow> i = j"
proof -
  have "hd (show_nat n) \<noteq> CHR ''-''" for n
    using show_nat_chars(1) [of n] hd_in_set [of "show_nat n"] by fastforce
  then have "show_nat n \<noteq> CHR ''-'' # t" for n t
    by (metis list.sel(1))
  then show ?thesis
    by (auto simp: show_int_def split: if_splits) (metis)+
qed

definition session_lines :: "SessionFields \<Rightarrow> bool" where
  "session_lines f \<longleftrightarrow> line (sf_machine_id f) \<and> line (sf_session_id f)"

definition hello_lines :: "HelloFields \<Rightarrow> bool" where
  "hello_lines f \<longleftrightarrow> line (hf_machine_id f) \<and> line (hf_node_id f) \<and> line (hf_agent_version f) \<and>
     line (hf_sing_box_version f) \<and> line (hf_nonce f)"

lemmas line_inject = sep_inject [of "CHR 0x0A", folded line_def]

lemma canonical_session_inject:
  assumes "session_lines f" "session_lines g"
  shows "canonical_session f = canonical_session g \<longleftrightarrow> f = g"
  using assms
  by (auto simp: canonical_session_def session_lines_def line_inject line_show_int
      intro!: SessionFields.equality)

lemma canonical_hello_inject:
  assumes "hello_lines f" "hello_lines g"
  shows "canonical_hello f = canonical_hello g \<longleftrightarrow> f = g"
  using assms
  by (auto simp: canonical_hello_def hello_lines_def line_inject line_show_int
      intro!: HelloFields.equality)

section \<open>The digest up to order, revision and analysis\<close>

text \<open>Snapshots that configure the same runtime: equal up to the revision, the analysis settings and
  the order of nodes and users.\<close>

definition same_node :: "pb_NodeTopology \<Rightarrow> pb_NodeTopology \<Rightarrow> bool" where
  "same_node a b \<longleftrightarrow>
     a\<lparr> nt_users := [], nt_traffic_analysis := None \<rparr> = b\<lparr> nt_users := [], nt_traffic_analysis := None \<rparr> \<and>
     mset (nt_users a) = mset (nt_users b)"

definition same_runtime :: "pb_TopologySnapshot \<Rightarrow> pb_TopologySnapshot \<Rightarrow> bool" where
  "same_runtime s t \<longleftrightarrow>
     s\<lparr> ts_revision := 0, ts_nodes := [] \<rparr> = t\<lparr> ts_revision := 0, ts_nodes := [] \<rparr> \<and>
     (\<exists>nodes. mset nodes = mset (ts_nodes t) \<and> list_all2 same_node (ts_nodes s) nodes)"

definition distinct_ids :: "pb_TopologySnapshot \<Rightarrow> bool" where
  "distinct_ids s \<longleftrightarrow> distinct (map nt_node_id (ts_nodes s)) \<and>
     (\<forall>n \<in> set (ts_nodes s). distinct (map puc_user_id (nt_users n)))"

lemma sort_key_mset_unique:
  "mset xs = mset ys \<Longrightarrow> distinct (map f xs) \<Longrightarrow> sort_key f xs = sort_key f ys"
  by (rule sort_key_inj_key_eq) (auto simp: distinct_map)

lemma map_sort_key: "(\<And>x. f (g x) = f x) \<Longrightarrow> map g (sort_key f xs) = sort_key f (map g xs)"
proof -
  assume fg: "\<And>x. f (g x) = f x"
  have "map g (insort_key f x ys) = insort_key f (g x) (map g ys)" for x ys
    by (induction ys) (simp_all add: fg)
  then show ?thesis by (induction xs) simp_all
qed

lemma normalize_node_eq_iff:
  assumes "distinct (map puc_user_id (nt_users a))"
  shows "normalize_node a = normalize_node b \<longleftrightarrow> same_node a b"
proof
  assume "normalize_node a = normalize_node b"
  then have "mset (nt_users a) = mset (nt_users b)"
    "a\<lparr> nt_users := [], nt_traffic_analysis := None \<rparr> = b\<lparr> nt_users := [], nt_traffic_analysis := None \<rparr>"
    by (cases a; cases b; simp add: normalize_node_def; metis mset_sort)+
  then show "same_node a b" by (simp add: same_node_def)
next
  assume "same_node a b"
  with assms sort_key_mset_unique [of "nt_users a" "nt_users b" puc_user_id]
  show "normalize_node a = normalize_node b"
    by (cases a; cases b) (simp add: normalize_node_def same_node_def)
qed

lemma normalize_nodes_eq_iff:
  assumes "distinct (map nt_node_id ms)"
    and "\<forall>n \<in> set ns. distinct (map puc_user_id (nt_users n))"
  shows "map normalize_node (sort_key nt_node_id ns) = map normalize_node (sort_key nt_node_id ms) \<longleftrightarrow>
    (\<exists>ms'. mset ms' = mset ms \<and> list_all2 same_node ns ms')"
proof -
  have pointwise: "map normalize_node xs = map normalize_node ys \<longleftrightarrow> list_all2 same_node xs ys"
    if "set xs \<subseteq> set ns" for xs ys
    using that
  proof (induction xs arbitrary: ys)
    case (Cons x xs)
    with assms(2) have "normalize_node x = normalize_node y \<longleftrightarrow> same_node x y" for y
      by (simp add: normalize_node_eq_iff)
    with Cons show ?case by (cases ys) auto
  qed auto
  have sorted: "map normalize_node (sort_key nt_node_id xs) = sort_key nt_node_id (map normalize_node xs)" for xs
    by (rule map_sort_key) (simp add: normalize_node_def)
  show ?thesis
  proof
    assume "map normalize_node (sort_key nt_node_id ns) = map normalize_node (sort_key nt_node_id ms)"
    then have "list_all2 same_node (sort_key nt_node_id ns) (sort_key nt_node_id ms)"
      by (subst (asm) pointwise) simp_all
    from list_all2_reorder_left_invariance [OF this, of ns] show
      "\<exists>ms'. mset ms' = mset ms \<and> list_all2 same_node ns ms'" by auto
  next
    assume "\<exists>ms'. mset ms' = mset ms \<and> list_all2 same_node ns ms'"
    then obtain ms' where ms': "mset ms' = mset ms" "map normalize_node ns = map normalize_node ms'"
      using pointwise [of ns] by auto
    have "sort_key nt_node_id ms = sort_key nt_node_id ms'"
      using sort_key_mset_unique [OF ms'(1) [symmetric] assms(1)] .
    then show "map normalize_node (sort_key nt_node_id ns) = map normalize_node (sort_key nt_node_id ms)"
      by (simp add: sorted ms'(2))
  qed
qed

lemma normalize_snapshot_eq_iff:
  assumes "distinct_ids s" "distinct_ids t"
  shows "normalize_snapshot s = normalize_snapshot t \<longleftrightarrow> same_runtime s t"
proof -
  have "normalize_snapshot s = normalize_snapshot t \<longleftrightarrow>
      s\<lparr> ts_revision := 0, ts_nodes := [] \<rparr> = t\<lparr> ts_revision := 0, ts_nodes := [] \<rparr> \<and>
      map normalize_node (sort_key nt_node_id (ts_nodes s)) =
      map normalize_node (sort_key nt_node_id (ts_nodes t))"
    by (cases s; cases t) (auto simp: normalize_snapshot_def)
  with assms normalize_nodes_eq_iff [of "ts_nodes t" "ts_nodes s"] show ?thesis
    by (simp add: same_runtime_def distinct_ids_def)
qed

section \<open>The analysis limits\<close>

definition bounded :: "('a::{linorder, zero}) \<Rightarrow> 'a \<Rightarrow> 'a \<Rightarrow> 'a \<Rightarrow> 'a" where
  "bounded v fallback low high = (if v = 0 then fallback else max low (min v high))"

lemma bound_Some: "low \<le> high \<Longrightarrow> bound v fallback low high = Some (bounded v fallback low high)"
  by (auto simp: bound_def clamp_def bounded_def)

lemma bounded_range:
  "low \<le> fallback \<Longrightarrow> fallback \<le> high \<Longrightarrow>
   low \<le> bounded v fallback low high \<and> bounded v fallback low high \<le> high"
  by (auto simp: bounded_def)

lemma bounded_fixpoint: "low \<le> v \<Longrightarrow> v \<le> high \<Longrightarrow> v \<noteq> 0 \<Longrightarrow> bounded v fallback low high = v"
  by (simp add: bounded_def)

definition within_limits :: "pb_TrafficAnalysisConfig \<Rightarrow> bool" where
  "within_limits c \<longleftrightarrow>
     1 \<le> ac_sample_interval_seconds c \<and> ac_sample_interval_seconds c \<le> 10 \<and>
     1 \<le> ac_batch_max_entries c \<and> ac_batch_max_entries c \<le> 1024 \<and>
     1024 \<le> ac_batch_max_bytes c \<and> ac_batch_max_bytes c \<le> 262144 \<and>
     262144 \<le> ac_queue_max_bytes c \<and> ac_queue_max_bytes c \<le> 16777216 \<and>
     1 \<le> ac_queue_max_age_seconds c \<and> ac_queue_max_age_seconds c \<le> 20 \<and>
     1024 \<le> ac_send_bytes_per_second c \<and> ac_send_bytes_per_second c \<le> 16777216 \<and>
     ucast (ac_batch_max_bytes c) \<le> ac_send_burst_bytes c \<and> ac_send_burst_bytes c \<le> 16777216 \<and>
     100 \<le> ac_send_timeout_millis c \<and> ac_send_timeout_millis c \<le> 5000 \<and>
     1 \<le> ac_minute_max_domain_keys c \<and> ac_minute_max_domain_keys c \<le> 20000 \<and>
     1 \<le> ac_max_udp_targets c \<and> ac_max_udp_targets c \<le> 40000 \<and>
     1 \<le> ac_max_udp_targets_per_session c \<and> ac_max_udp_targets_per_session c \<le> 64 \<and>
     1048576 \<le> ac_memory_max_bytes c \<and> ac_memory_max_bytes c \<le> 67108864"

lemma unat_ucast_u32 [simp]: "unat (ucast (x :: u32) :: u64) = unat x"
proof -
  have "unat x < 2 ^ LENGTH(32)" by (rule unsigned_less)
  then have "unat x < 2 ^ 64" by simp
  then show ?thesis by (simp add: unsigned_ucast_eq take_bit_nat_eq_self)
qed

lemma bound_id:
  "low \<le> v \<Longrightarrow> v \<le> high \<Longrightarrow> 0 < low \<Longrightarrow> bound v fallback low high = Some v"
  by (auto simp: bound_def clamp_def)

lemma burst_low:
  fixes b :: u32
  assumes "1024 \<le> b" "b \<le> 262144"
  shows "(0 :: u64) < ucast b" "(ucast b :: u64) \<le> 524288" "(ucast b :: u64) \<le> 16777216"
  using assms by (simp_all add: word_le_nat_alt word_less_nat_alt)

lemma normalize_config_id:
  assumes "within_limits c"
  shows "normalize_config (Some c) = Some c"
proof -
  have b: "1024 \<le> ac_batch_max_bytes c" "ac_batch_max_bytes c \<le> 262144"
    using assms by (simp_all add: within_limits_def)
  show ?thesis
    using assms burst_low [OF b]
    by (simp add: normalize_config_def within_limits_def bound_id default_config_def Let_def)
qed

lemma normalize_config_limits:
  "\<exists>out. normalize_config (Some c) = Some out \<and> within_limits out \<and> ac_enabled out = ac_enabled c"
proof -
  let ?b = "bounded (ac_batch_max_bytes c) 262144 1024 262144"
  have b: "1024 \<le> ?b" "?b \<le> 262144"
    using bounded_range [of 1024 262144 262144 "ac_batch_max_bytes c"] by simp_all
  note low = burst_low [OF b]
  note ranges = bounded_range [of "ucast ?b" 524288 16777216 "ac_send_burst_bytes c"]
  show ?thesis
    using low ranges b
    by (simp add: normalize_config_def default_config_def bound_Some Let_def within_limits_def
        bounded_range)
qed

section \<open>Properties of the wire derivations\<close>

text \<open>For snapshots with distinct node ids and distinct user ids in each node,
  and an encoding and a hash that separate the two normalised snapshots, the digests agree exactly
  when the snapshots configure the same runtime: they are equal up to the revision, the analysis
  settings and the order of nodes and users.\<close>

lemma digest_converged:
  assumes "distinct_ids s" and "distinct_ids t"
    and "sha256 (encode_to_vec (normalize_snapshot s)) = sha256 (encode_to_vec (normalize_snapshot t)) \<Longrightarrow>
      normalize_snapshot s = normalize_snapshot t"
  shows "digest_sum encode_to_vec sha256 (Some s) = digest_sum encode_to_vec sha256 (Some t) \<longleftrightarrow>
    same_runtime s t"
  using assms
  by (auto simp: digest_sum_def hex_encode_lower_hex normalize_snapshot_eq_iff [OF assms(1,2), symmetric])

definition ex_snapshot :: "u64 \<Rightarrow> string list \<Rightarrow> pb_TopologySnapshot" where
  "ex_snapshot revision ids =
     TopologySnapshot_default\<lparr> ts_revision := revision,
       ts_nodes := map (\<lambda>i. pb_NodeTopology_default\<lparr> nt_node_id := i \<rparr>) ids \<rparr>"

text \<open>Whenever the identifiers hold no line break, the string a request signature
  covers determines every signed field, and so does the string of the Hello signature.\<close>

lemma canonical_strings_separate:
  assumes "session_lines f" and "session_lines g" and "hello_lines h" and "hello_lines k"
  shows "(canonical_session f = canonical_session g \<longleftrightarrow> f = g) \<and>
    (canonical_hello h = canonical_hello k \<longleftrightarrow> h = k)"
  using canonical_session_inject [OF assms(1,2)] canonical_hello_inject [OF assms(3,4)] by blast

text \<open>Signing is guarded: a request is signed exactly when the secret and the three identifying
  fields are present, with the metadata carrying the signed fields and the lowercase hexadecimal
  HMAC of the canonical string, whose octets decode back.\<close>

lemma session_metadata_signed:
  "session_metadata hmac secret f = Inr metadata \<longleftrightarrow>
     secret \<noteq> [] \<and> sf_machine_id f \<noteq> [] \<and> sf_session_id f \<noteq> [] \<and> sf_nonce f \<noteq> [] \<and>
     (\<exists>signature. hex_decode signature = Some (hmac (str_bytes secret) (str_bytes (canonical_session f))) \<and>
        signature = lower_hex (hmac (str_bytes secret) (str_bytes (canonical_session f))) \<and>
        metadata = [(''acp-machine-id'', sf_machine_id f), (''acp-session-id'', sf_session_id f),
          (''acp-timestamp-unix'', show_int (sf_timestamp_unix f)), (''acp-nonce'', sf_nonce f),
          (''acp-signature'', signature)])"
  using hex_decode_encode [of "hmac (str_bytes secret) (str_bytes (canonical_session f))"]
  by (auto simp: session_metadata_def sign_session_def sign_def rbind_Inr_iff hex_encode_lower_hex)

text \<open>The limits the panel's settings mean: an omitted (zero) limit is its default, every other one
  is moved to the nearest value of its range, and the send burst is never below the batch size.\<close>

definition effective_limit :: "('a::{linorder, zero}) \<Rightarrow> 'a \<Rightarrow> 'a \<Rightarrow> 'a \<Rightarrow> 'a" where
  "effective_limit v omitted low high =
     (if v = 0 then omitted else if v < low then low else if high < v then high else v)"

definition limited_config :: "pb_TrafficAnalysisConfig \<Rightarrow> pb_TrafficAnalysisConfig" where
  "limited_config c =
     (let batch = effective_limit (ac_batch_max_bytes c) 262144 1024 262144 in
      \<lparr> ac_enabled = ac_enabled c,
        ac_sample_interval_seconds = effective_limit (ac_sample_interval_seconds c) 5 1 10,
        ac_batch_max_entries = effective_limit (ac_batch_max_entries c) 1024 1 1024,
        ac_batch_max_bytes = batch,
        ac_queue_max_bytes = effective_limit (ac_queue_max_bytes c) 16777216 262144 16777216,
        ac_queue_max_age_seconds = effective_limit (ac_queue_max_age_seconds c) 20 1 20,
        ac_send_bytes_per_second = effective_limit (ac_send_bytes_per_second c) 262144 1024 16777216,
        ac_send_burst_bytes = effective_limit (ac_send_burst_bytes c) 524288 (ucast batch) 16777216,
        ac_send_timeout_millis = effective_limit (ac_send_timeout_millis c) 1000 100 5000,
        ac_minute_max_domain_keys = effective_limit (ac_minute_max_domain_keys c) 20000 1 20000,
        ac_max_udp_targets = effective_limit (ac_max_udp_targets c) 40000 1 40000,
        ac_max_udp_targets_per_session = effective_limit (ac_max_udp_targets_per_session c) 64 1 64,
        ac_memory_max_bytes = effective_limit (ac_memory_max_bytes c) 67108864 1048576 67108864 \<rparr>)"

definition unset_config :: pb_TrafficAnalysisConfig where
  "unset_config =
     \<lparr> ac_enabled = False, ac_sample_interval_seconds = 0, ac_batch_max_entries = 0,
       ac_batch_max_bytes = 0, ac_queue_max_bytes = 0, ac_queue_max_age_seconds = 0,
       ac_send_bytes_per_second = 0, ac_send_burst_bytes = 0, ac_send_timeout_millis = 0,
       ac_minute_max_domain_keys = 0, ac_max_udp_targets = 0, ac_max_udp_targets_per_session = 0,
       ac_memory_max_bytes = 0 \<rparr>"

lemma bounded_limit: "low \<le> high \<Longrightarrow> bounded v fallback low high = effective_limit v fallback low high"
  by (auto simp: bounded_def effective_limit_def max_def min_def)

lemma normalize_config_limited: "normalize_config (Some c) = Some (limited_config c)"
proof -
  let ?b = "bounded (ac_batch_max_bytes c) 262144 1024 262144"
  have b: "1024 \<le> ?b" "?b \<le> 262144"
    using bounded_range [of 1024 262144 262144 "ac_batch_max_bytes c"] by simp_all
  note low = burst_low [OF b]
  have batch: "effective_limit (ac_batch_max_bytes c) 262144 1024 262144 = ?b"
    by (simp add: bounded_limit)
  show ?thesis
    using low
    by (simp add: normalize_config_def default_config_def bound_Some limited_config_def batch Let_def)
       (simp add: bounded_limit)
qed

lemma normalize_config_None: "normalize_config None = Some (limited_config unset_config)"
  by (simp add: normalize_config_def default_config_def limited_config_def unset_config_def effective_limit_def)

text \<open>C40 (bounded allocation): normalising an analysis configuration never panics. A missing
  configuration is a disabled one with every limit omitted; the result keeps the switch, has the
  default for every omitted limit and the nearest value of the limit's fixed range for every other,
  and the send burst is no smaller than a batch. The result lies within the limits, so normalising
  it again changes nothing.\<close>

theorem normalize_config_bounded:
  "\<exists>out. normalize_config config = Some out \<and>
     out = limited_config (case config of None \<Rightarrow> unset_config | Some c \<Rightarrow> c) \<and>
     within_limits out \<and> normalize_config (Some out) = Some out"
proof -
  have limited: "normalize_config config =
      Some (limited_config (case config of None \<Rightarrow> unset_config | Some c \<Rightarrow> c))"
    by (cases config) (simp_all add: normalize_config_limited normalize_config_None)
  have "within_limits (limited_config c)" for c
    using normalize_config_limits [of c] by (simp add: normalize_config_limited)
  with limited normalize_config_id show ?thesis by blast
qed

end
