(* ===== verification/Topology_Operations.thy ===== *)
theory Topology_Operations
  imports Topology_Manager Acp_Proto
begin

text \<open>
  The operations of \<open>TopologyManager\<close> in \<open>topology/manager.rs\<close>. Each command checks admission and its
  revision fence, builds a candidate topology, hands it to the runtime and publishes it only once the
  runtime has accepted it; the connections of users whose credential is gone are closed after the
  publication. A command holds the operation lock throughout, so it is one step; a forced reload
  fetches outside the lock and is two steps with other commands in between. The tasks the code spawns
  are joined: none of their code panics.
\<close>

section \<open>Publication\<close>

definition close_connections :: "('t, 'c) topology_runtime \<Rightarrow> (string \<times> string) list \<Rightarrow>
    't topology_manager \<Rightarrow> 't topology_manager" where
  "close_connections rt pairs m =
     foldl (\<lambda>m (node_id, user_id).
       m\<lparr> tm_runtime := fst (trt_close_user_connections rt (tm_runtime m) node_id user_id) \<rparr>) m pairs"

definition stale_pairs :: "MachineTopology \<Rightarrow> MachineTopology \<Rightarrow> (string \<times> string) list" where
  "stale_pairs current desired =
     concat (map (\<lambda>(node_id, user_ids). map (Pair node_id) user_ids)
       (stale_credential_topology_users current desired))"

definition publish_and_close_stale_users :: "('t, 'c) topology_runtime \<Rightarrow> MachineTopology \<Rightarrow>
    't topology_manager \<Rightarrow> 't topology_manager" where
  "publish_and_close_stale_users rt topology m =
     close_connections rt (stale_pairs (tm_topology m) topology) (publish topology m)"

definition append_warning_summary :: "string \<Rightarrow> string list \<Rightarrow> string" where
  "append_warning_summary message warnings =
     (if warnings \<noteq> [] then message @ ''; warnings: '' @ join '' | '' warnings else message)"

definition default_machine :: "string \<Rightarrow> MachineTopology \<Rightarrow> MachineTopology" where
  "default_machine machine_id topology =
     (if mt_machine_id topology = [] then topology\<lparr> mt_machine_id := machine_id \<rparr> else topology)"

definition tm_apply :: "('t, 'c) topology_runtime \<Rightarrow> 't topology_manager \<Rightarrow> MachineTopology \<Rightarrow>
    't topology_manager \<times> (TopologyError + string)" where
  "tm_apply rt m topology0 =
     (let topology = default_machine (tm_machine_id m) topology0 in
      case trt_apply rt (tm_runtime m) topology of
        (r, Inl error) \<Rightarrow> (m\<lparr> tm_runtime := r \<rparr>, Inl error)
      | (r, Inr _) \<Rightarrow>
          let message = ''shoes configuration applied: topology revision='' @
                show_u64 (mt_revision topology) @ '', nodes='' @ show_nat (length (mt_nodes topology)) @
                '', users='' @ show_nat (topology_user_count topology);
              m' = publish_and_close_stale_users rt topology (m\<lparr> tm_runtime := r \<rparr>)
          in (m', Inr (append_warning_summary message (trt_warnings rt (tm_runtime m')))))"

definition kick_requested :: "'t topology_manager \<Rightarrow> pb_UserMutation \<Rightarrow> (string \<times> string) option" where
  "kick_requested m mutation =
     (if \<not> um_kick_existing_connections mutation then None
      else case um_user mutation of
        None \<Rightarrow> None
      | Some user \<Rightarrow>
          if um_node_id mutation = [] \<or> puc_user_id user = [] then None
          else if \<not> topology_authorizes_user (tm_topology m) (um_node_id mutation) (puc_user_id user)
          then None
          else Some (um_node_id mutation, puc_user_id user))"

definition close_explicitly_requested_users :: "('t, 'c) topology_runtime \<Rightarrow> pb_UserMutation list \<Rightarrow>
    't topology_manager \<Rightarrow> 't topology_manager" where
  "close_explicitly_requested_users rt mutations m =
     foldl (\<lambda>m mutation. case kick_requested m mutation of
         None \<Rightarrow> m | Some pair \<Rightarrow> close_connections rt [pair] m) m mutations"

section \<open>Lifecycle\<close>

definition tm_reconcile_current :: "('t, 'c) topology_runtime \<Rightarrow> 't topology_manager \<Rightarrow>
    't topology_manager \<times> (TopologyError + unit)" where
  "tm_reconcile_current rt m =
     (case begin_operation m of
        Inl error \<Rightarrow> (m, Inl error)
      | Inr _ \<Rightarrow>
          let current = tm_topology m in
          if mt_machine_id current = [] then (m, Inr ())
          else (case trt_reconcile_current rt (tm_runtime m) current of
                  (r, result) \<Rightarrow> (m\<lparr> tm_runtime := r \<rparr>, result)))"

definition stop_operations :: "('t, 'c) topology_runtime \<Rightarrow> 't topology_manager \<Rightarrow>
    't topology_manager" where
  "stop_operations rt m =
     m\<lparr> tm_operations_cancelled := True, tm_runtime := trt_begin_close rt (tm_runtime m) \<rparr>"

text \<open>\<open>close_result\<close> is a \<open>OnceCell\<close>: the runtime is closed once and every caller gets that result.\<close>

definition tm_close :: "('t, 'c) topology_runtime \<Rightarrow> 't topology_manager \<Rightarrow>
    't topology_manager \<times> (TopologyError + unit)" where
  "tm_close rt m0 =
     (let m = stop_operations rt m0 in
      case tm_close_result m of
        Some result \<Rightarrow> (m, result)
      | None \<Rightarrow>
          (case trt_close rt (tm_runtime m) of
             (r, result) \<Rightarrow> (m\<lparr> tm_runtime := r, tm_close_result := Some result \<rparr>, result)))"

definition with_operation_cancellation :: "bool \<Rightarrow> 't topology_manager \<Rightarrow> 't topology_manager" where
  "with_operation_cancellation cancelled m = m\<lparr> tm_session_cancelled := Some cancelled \<rparr>"

section \<open>Commands\<close>

text \<open>A command: admission and checks first, then the candidate is applied.\<close>

definition with_candidate :: "('t, 'c) topology_runtime \<Rightarrow> 't topology_manager \<Rightarrow>
    (TopologyError + MachineTopology) \<Rightarrow> 't topology_manager \<times> (TopologyError + string)" where
  "with_candidate rt m checked =
     (case checked of Inl error \<Rightarrow> (m, Inl error) | Inr candidate \<Rightarrow> tm_apply rt m candidate)"

definition apply_initial :: "('t, 'c) topology_runtime \<Rightarrow> 't topology_manager \<Rightarrow> MachineTopology \<Rightarrow>
    't topology_manager \<times> (TopologyError + string)" where
  "apply_initial rt m topology =
     with_candidate rt m
       (rbind (begin_operation m) (\<lambda>_.
        rbind (guard_authoritative_revision m (mt_revision topology)) (\<lambda>_.
        Inr topology)))"

definition apply_authoritative_if_unchanged :: "('t, 'c) topology_runtime \<Rightarrow> 't topology_manager \<Rightarrow>
    MachineTopology \<Rightarrow> u64 \<Rightarrow> 't topology_manager \<times> (TopologyError + string)" where
  "apply_authoritative_if_unchanged rt m topology expected =
     with_candidate rt m
       (rbind (begin_operation m) (\<lambda>_.
        rbind (guard_authoritative_revision m (mt_revision topology)) (\<lambda>_.
        let current = publication_token m in
        if current \<noteq> expected then
          Inl (topology_error StaleRevision
            (''authoritative topology changed during fetch: expected_generation='' @
             show_u64 expected @ '' current_generation='' @ show_u64 current))
        else Inr topology)))"

definition apply_snapshot :: "('t, 'c) topology_runtime \<Rightarrow> 't topology_manager \<Rightarrow>
    pb_TopologySnapshot option \<Rightarrow> 't topology_manager \<times> (TopologyError + string)" where
  "apply_snapshot rt m snapshot_opt =
     with_candidate rt m
       (rbind (begin_operation m) (\<lambda>_.
        rbind (ok_or (topology_error InvalidMutation ''topology_snapshot payload is required'')
          snapshot_opt) (\<lambda>snapshot.
        rbind (guard_revision m (ts_revision snapshot)) (\<lambda>_.
        Inr (from_snapshot (tm_machine_id m) (Some snapshot))))))"

definition delta_candidate :: "'t topology_manager \<Rightarrow> pb_TopologyDelta \<Rightarrow>
    TopologyError + MachineTopology" where
  "delta_candidate m delta =
     (let next = default_machine (tm_machine_id m) (tm_topology m) in
      rbind (apply_user_mutations (td_user_mutations delta)
               (apply_node_mutations (td_node_mutations delta) next)) (\<lambda>next'.
      Inr (set_snapshot_revision (td_target_revision delta)
             (next'\<lparr> mt_revision := td_target_revision delta \<rparr>))))"

definition apply_delta :: "('t, 'c) topology_runtime \<Rightarrow> 't topology_manager \<Rightarrow>
    pb_TopologyDelta option \<Rightarrow> 't topology_manager \<times> (TopologyError + string)" where
  "apply_delta rt m delta_opt =
     (case rbind (begin_operation m) (\<lambda>_.
           rbind (ok_or (topology_error InvalidMutation ''topology_delta payload is required'')
             delta_opt) (\<lambda>delta.
           rbind (guard_revision_fence m (td_base_revision delta) (td_target_revision delta)) (\<lambda>_.
           rbind (delta_candidate m delta) (\<lambda>next. Inr (delta, next))))) of
        Inl error \<Rightarrow> (m, Inl error)
      | Inr (delta, next) \<Rightarrow>
          (case tm_apply rt m next of
             (m1, Inl error) \<Rightarrow> (m1, Inl error)
           | (m1, Inr message) \<Rightarrow>
               (close_explicitly_requested_users rt (td_user_mutations delta) m1, Inr message)))"

definition route_candidate :: "'t topology_manager \<Rightarrow> pb_TopologyRoutePatch \<Rightarrow> MachineTopology" where
  "route_candidate m patch =
     (let next = default_machine (tm_machine_id m) (tm_topology m);
          next1 = (if rp_machine_id patch \<noteq> [] then next\<lparr> mt_machine_id := rp_machine_id patch \<rparr>
                   else next);
          next2 = next1\<lparr> mt_outbounds := map Outbound_from (rp_outbounds patch),
                         mt_route := map_option Route_from (rp_route patch),
                         mt_dns := map_option Dns_from (rp_dns patch) \<rparr>
      in (apply_route_patch_to_snapshot next2 patch)\<lparr> mt_revision := rp_revision patch \<rparr>)"

definition apply_route_patch :: "('t, 'c) topology_runtime \<Rightarrow> 't topology_manager \<Rightarrow>
    pb_TopologyRoutePatch option \<Rightarrow> u64 \<Rightarrow> 't topology_manager \<times> (TopologyError + string)" where
  "apply_route_patch rt m patch_opt base_revision =
     with_candidate rt m
       (rbind (begin_operation m) (\<lambda>_.
        rbind (ok_or (topology_error InvalidMutation ''topology_route_patch payload is required'')
          patch_opt) (\<lambda>patch.
        rbind (guard_revision_fence m base_revision (rp_revision patch)) (\<lambda>_.
        Inr (route_candidate m patch)))))"

definition user_candidate :: "'t topology_manager \<Rightarrow> pb_UserMutation \<Rightarrow>
    TopologyError + MachineTopology" where
  "user_candidate m mutation =
     rbind (apply_user_mutation (default_machine (tm_machine_id m) (tm_topology m)) mutation) (\<lambda>next.
     Inr (set_snapshot_revision (um_revision mutation)
            ((apply_user_mutation_to_snapshot next mutation)\<lparr> mt_revision := um_revision mutation \<rparr>)))"

definition tm_apply_user_mutation :: "('t, 'c) topology_runtime \<Rightarrow> 't topology_manager \<Rightarrow>
    pb_UserMutation option \<Rightarrow> u64 \<Rightarrow> 't topology_manager \<times> (TopologyError + string)" where
  "tm_apply_user_mutation rt m mutation_opt base_revision =
     (case rbind (begin_operation m) (\<lambda>_.
           rbind (ok_or (topology_error InvalidMutation ''user_mutation payload is required'')
             mutation_opt) (\<lambda>mutation.
           rbind (guard_revision_fence m base_revision (um_revision mutation)) (\<lambda>_.
           rbind (user_candidate m mutation) (\<lambda>next. Inr (mutation, next))))) of
        Inl error \<Rightarrow> (m, Inl error)
      | Inr (mutation, next) \<Rightarrow>
          (case tm_apply rt m next of
             (m1, Inl error) \<Rightarrow> (m1, Inl error)
           | (m1, Inr message) \<Rightarrow> (close_explicitly_requested_users rt [mutation] m1, Inr message)))"

section \<open>User refresh\<close>

datatype UserRefreshRevision = NoRevision | AdvanceTo u64 | Fence u64 u64

fun target :: "UserRefreshRevision \<Rightarrow> u64" where
  "target NoRevision = 0"
| "target (AdvanceTo t) = t"
| "target (Fence b t) = t"

record UserRefreshRequest =
  urr_node_id :: string
  urr_users :: "UserCredential list"
  urr_expected_current :: "UserCredential list option"
  urr_revision :: UserRefreshRevision

definition unchanged_users :: "UserRefreshChanges \<Rightarrow> bool" where
  "unchanged_users changes \<longleftrightarrow> ch_added changes = 0 \<and> ch_updated changes = 0 \<and> ch_deleted changes = 0"

definition advance_revision :: "u64 \<Rightarrow> MachineTopology \<Rightarrow> MachineTopology" where
  "advance_revision target_revision topology =
     (if target_revision > mt_revision topology then
        set_snapshot_revision target_revision (topology\<lparr> mt_revision := target_revision \<rparr>)
      else topology)"

text \<open>\<open>Iterator::position\<close>.\<close>

fun position :: "('a \<Rightarrow> bool) \<Rightarrow> 'a list \<Rightarrow> nat option" where
  "position p [] = None"
| "position p (x # xs) = (if p x then Some 0 else map_option Suc (position p xs))"

text \<open>The checks of a refresh: the index of the node and the changes.\<close>

definition refresh_checks :: "'t topology_manager \<Rightarrow> UserRefreshRequest \<Rightarrow>
    TopologyError + nat \<times> UserRefreshChanges" where
  "refresh_checks m request =
     rbind (begin_operation m) (\<lambda>_.
     rbind (if urr_node_id request = [] then
              Inl (topology_error InvalidMutation ''user refresh requires node_id'') else Inr ()) (\<lambda>_.
     rbind (case urr_revision request of Fence base t \<Rightarrow> guard_revision_fence m base t | _ \<Rightarrow> Inr ()) (\<lambda>_.
     rbind (ok_or (topology_error InvalidMutation
              (''node '' @ urr_node_id request @ '' not found for user refresh''))
       (position (\<lambda>node. ni_node_id node = urr_node_id request) (mt_nodes (tm_topology m)))) (\<lambda>node_index.
     let current_users = ni_users (mt_nodes (tm_topology m) ! node_index) in
     rbind (case urr_expected_current request of
              None \<Rightarrow> Inr ()
            | Some expected \<Rightarrow>
                rbind (compare_node_users expected current_users) (\<lambda>current_changes.
                if \<not> unchanged_users current_changes then
                  Inl (topology_error UsersChangedDuringRefresh
                    (''node users changed during refresh: node='' @ urr_node_id request))
                else Inr ())) (\<lambda>_.
     rbind (compare_node_users current_users (urr_users request)) (\<lambda>changes.
     Inr (node_index, changes)))))))"

definition refresh_candidate :: "'t topology_manager \<Rightarrow> UserRefreshRequest \<Rightarrow> nat \<Rightarrow> MachineTopology" where
  "refresh_candidate m request node_index =
     (let next = replace_node_users (advance_revision (target (urr_revision request)) (tm_topology m))
                   (urr_node_id request) (urr_users request)
      in next\<lparr> mt_nodes := (mt_nodes next)[node_index :=
           (mt_nodes next ! node_index)\<lparr> ni_users := urr_users request \<rparr>] \<rparr>)"

definition refresh_owned :: "('t, 'c) topology_runtime \<Rightarrow> 't topology_manager \<Rightarrow> UserRefreshRequest \<Rightarrow>
    't topology_manager \<times> (TopologyError + UserRefreshChanges)" where
  "refresh_owned rt m request =
     (case refresh_checks m request of
        Inl error \<Rightarrow> (m, Inl error)
      | Inr (node_index, changes) \<Rightarrow>
          let target_revision = target (urr_revision request) in
          if unchanged_users changes then
            (if target_revision > 0 \<and> target_revision > mt_revision (tm_topology m) then
               m\<lparr> tm_topology := advance_revision target_revision (tm_topology m),
                  tm_generation := tm_generation m + 1 \<rparr>
             else m, Inr changes)
          else
            (case tm_apply rt m (refresh_candidate m request node_index) of
               (m1, Inl error) \<Rightarrow>
                 (m1, Inl (error\<lparr> te_message := ''apply refreshed users for node '' @
                    urr_node_id request @ '': '' @ te_message error \<rparr>))
             | (m1, Inr _) \<Rightarrow> (m1, Inr (changes\<lparr> ch_applied := True \<rparr>))))"

definition refresh_node_users :: "('t, 'c) topology_runtime \<Rightarrow> 't topology_manager \<Rightarrow> string \<Rightarrow>
    UserCredential list \<Rightarrow> 't topology_manager \<times> (TopologyError + UserRefreshChanges)" where
  "refresh_node_users rt m node_id users =
     refresh_owned rt m \<lparr> urr_node_id = node_id, urr_users = users, urr_expected_current = None,
       urr_revision = NoRevision \<rparr>"

definition refresh_node_users_if_current_at_revision :: "('t, 'c) topology_runtime \<Rightarrow>
    't topology_manager \<Rightarrow> string \<Rightarrow> UserCredential list \<Rightarrow> UserCredential list \<Rightarrow> u64 \<Rightarrow>
    't topology_manager \<times> (TopologyError + UserRefreshChanges)" where
  "refresh_node_users_if_current_at_revision rt m node_id users expected_current target_revision =
     refresh_owned rt m \<lparr> urr_node_id = node_id, urr_users = users,
       urr_expected_current = Some expected_current, urr_revision = AdvanceTo target_revision \<rparr>"

definition refresh_node_users_if_current_at_revision_fence :: "('t, 'c) topology_runtime \<Rightarrow>
    't topology_manager \<Rightarrow> string \<Rightarrow> UserCredential list \<Rightarrow> UserCredential list \<Rightarrow> u64 \<Rightarrow> u64 \<Rightarrow>
    't topology_manager \<times> (TopologyError + UserRefreshChanges)" where
  "refresh_node_users_if_current_at_revision_fence rt m node_id users expected_current base_revision
       target_revision =
     refresh_owned rt m \<lparr> urr_node_id = node_id, urr_users = users,
       urr_expected_current = Some expected_current,
       urr_revision = Fence base_revision target_revision \<rparr>"

section \<open>Reads\<close>

definition loaded_users_page :: "'t topology_manager \<Rightarrow> string \<Rightarrow> u64 \<Rightarrow> nat \<Rightarrow>
    TopologyError + nat \<times> UserCredential list" where
  "loaded_users_page m node_id offset limit =
     rbind (ensure_operations_running m) (\<lambda>_.
     ok_or (topology_error InvalidMutation
         (''node '' @ node_id @ '' not found in loaded topology''))
       (map_option (\<lambda>node.
          let total = length (ni_users node);
              start = min (unat offset) total;
              end' = min (start + limit) total
          in (total, take (end' - start) (drop start (ni_users node))))
        (find (\<lambda>node. ni_node_id node = node_id) (mt_nodes (tm_topology m)))))"

definition loaded_users :: "'t topology_manager \<Rightarrow> string \<Rightarrow> TopologyError + UserCredential list" where
  "loaded_users m node_id =
     rbind (loaded_users_page m node_id 0 (2 ^ 64 - 1)) (\<lambda>(_, users). Inr users)"

definition current_digest :: "(pb_TopologySnapshot \<Rightarrow> bytes) \<Rightarrow> (bytes \<Rightarrow> bytes) \<Rightarrow>
    't topology_manager \<Rightarrow> string option" where
  "current_digest encode_to_vec sha256 m =
     map_option (\<lambda>snapshot. digest_sum encode_to_vec sha256 (Some snapshot)) (mt_snapshot (tm_topology m))"

section \<open>Forced reload\<close>

datatype ReloadOutcome = Succeeded | FailedUnchanged | FailedRolledBack | FailedStopped

datatype ReloadStage =
    PullConfiguration
  | PullUsers
  | BuildConfiguration
  | ConfigurePortHopping
  | StartInstance
  | Rollback
  | Completed

fun as_str :: "ReloadStage \<Rightarrow> string" where
  "as_str PullConfiguration = ''pull_configuration''"
| "as_str PullUsers = ''pull_users''"
| "as_str BuildConfiguration = ''build_configuration''"
| "as_str ConfigurePortHopping = ''configure_port_hopping''"
| "as_str StartInstance = ''start_instance''"
| "as_str Rollback = ''rollback''"
| "as_str Completed = ''completed''"

record TopologyReloadResult =
  trr_outcome :: ReloadOutcome
  trr_stage :: ReloadStage
  trr_message :: string
  trr_topology_revision :: u64
  trr_config_sha256 :: string
  trr_loaded_user_count :: nat

text \<open>The reporter: the current stage, and the stages sent to an attached \<open>ReloadProgress\<close>.\<close>

record ReloadReporter =
  rep_progress :: "ReloadStage list option"
  rep_current :: ReloadStage

definition reporter_new :: "ReloadStage list option \<Rightarrow> ReloadReporter" where
  "reporter_new progress = \<lparr> rep_progress = progress, rep_current = PullConfiguration \<rparr>"

definition report :: "ReloadStage \<Rightarrow> ReloadReporter \<Rightarrow> ReloadReporter" where
  "report stage reporter =
     reporter\<lparr> rep_current := stage,
       rep_progress := map_option (\<lambda>stages. stages @ [stage]) (rep_progress reporter) \<rparr>"

definition reload_failed :: "ReloadOutcome \<Rightarrow> ReloadStage \<Rightarrow> string \<Rightarrow> TopologyReloadResult" where
  "reload_failed outcome stage message =
     \<lparr> trr_outcome = outcome, trr_stage = stage, trr_message = message, trr_topology_revision = 0,
       trr_config_sha256 = [], trr_loaded_user_count = 0 \<rparr>"

definition reload_failure :: "ReloadStage \<Rightarrow> TopologyError \<Rightarrow> TopologyReloadResult" where
  "reload_failure stage error =
     (if te_rolled_back error then reload_failed FailedRolledBack Rollback (te_message error)
      else reload_failed (if te_running error then FailedUnchanged else FailedStopped)
        (if te_rollback_stage error then Rollback else stage) (te_message error))"

definition sha256_hex :: "(bytes \<Rightarrow> bytes) \<Rightarrow> bytes \<Rightarrow> string" where
  "sha256_hex sha256 data = hex_encode (sha256 data)"

text \<open>What the fetch, which runs outside the lock, ends with.\<close>

datatype fetch_outcome = FetchCancelled | FetchFailed string | Fetched MachineTopology

definition reload_begin :: "'t topology_manager \<Rightarrow> ReloadReporter \<Rightarrow>
    TopologyReloadResult + u64 \<times> ReloadReporter" where
  "reload_begin m reporter =
     (case ensure_operations_running m of
        Inl error \<Rightarrow> Inl (reload_failure PullConfiguration error)
      | Inr _ \<Rightarrow> Inr (publication_token m, report PullConfiguration reporter))"

definition reload_checks :: "'t topology_manager \<Rightarrow> u64 \<Rightarrow> MachineTopology \<Rightarrow> TopologyError + unit" where
  "reload_checks m baseline candidate =
     rbind (begin_operation m) (\<lambda>_.
     rbind (if baseline \<noteq> publication_token m then
              Inl (topology_error StaleRevision
                ''topology changed while fetching reload configuration; retry reload'')
            else Inr ()) (\<lambda>_.
     guard_authoritative_revision m (mt_revision candidate)))"

definition reload_publish :: "('t, 'c) topology_runtime \<Rightarrow> (bytes \<Rightarrow> bytes) \<Rightarrow> MachineTopology \<Rightarrow>
    't topology_manager \<Rightarrow> 't topology_manager \<times> TopologyReloadResult" where
  "reload_publish rt sha256 candidate m =
     (let m' = publish_and_close_stale_users rt candidate m in
      (m', \<lparr> trr_outcome = Succeeded, trr_stage = Completed,
             trr_message = append_warning_summary
               ''shoes reloaded with fresh panel configuration and users''
               (trt_warnings rt (tm_runtime m')),
             trr_topology_revision = mt_revision candidate,
             trr_config_sha256 = sha256_hex sha256 (trt_current_config rt (tm_runtime m')),
             trr_loaded_user_count = topology_user_count candidate \<rparr>))"

definition reload_candidate :: "('t, 'c) topology_runtime \<Rightarrow> (bytes \<Rightarrow> bytes) \<Rightarrow> 't topology_manager \<Rightarrow>
    u64 \<Rightarrow> ReloadReporter \<Rightarrow> MachineTopology \<Rightarrow>
    't topology_manager \<times> ReloadReporter \<times> TopologyReloadResult" where
  "reload_candidate rt sha256 m baseline reporter candidate =
     (case reload_checks m baseline candidate of
        Inl error \<Rightarrow> (m, reporter, reload_failure BuildConfiguration error)
      | Inr _ \<Rightarrow>
          let reporter1 = report BuildConfiguration reporter in
          (case trt_prepare_reload rt (tm_runtime m) candidate of
             (r1, Inl error) \<Rightarrow>
               (m\<lparr> tm_runtime := r1 \<rparr>, reporter1, reload_failure BuildConfiguration error)
           | (r1, Inr prepared) \<Rightarrow>
               let reporter2 = report ConfigurePortHopping reporter1 in
               (case trt_configure_reload rt r1 candidate of
                  (r2, Inl error) \<Rightarrow>
                    (m\<lparr> tm_runtime := r2 \<rparr>, reporter2, reload_failure ConfigurePortHopping error)
                | (r2, Inr _) \<Rightarrow>
                    let reporter3 = report StartInstance reporter2 in
                    (case trt_reload_prepared rt r2 candidate prepared of
                       (r3, Inl error) \<Rightarrow>
                         (m\<lparr> tm_runtime := r3 \<rparr>, reporter3, reload_failure StartInstance error)
                     | (r3, Inr status) \<Rightarrow>
                         if \<not> rls_running status then
                           (m\<lparr> tm_runtime := r3 \<rparr>, reporter3, reload_failed FailedStopped StartInstance
                              ''forced reload completed without a running shoes instance'')
                         else
                           (case reload_publish rt sha256 candidate (m\<lparr> tm_runtime := r3 \<rparr>) of
                              (m', result) \<Rightarrow> (m', report Completed reporter3, result))))))"

definition reload_finish :: "('t, 'c) topology_runtime \<Rightarrow> (bytes \<Rightarrow> bytes) \<Rightarrow> 't topology_manager \<Rightarrow>
    u64 \<Rightarrow> ReloadReporter \<Rightarrow> fetch_outcome \<Rightarrow>
    't topology_manager \<times> ReloadReporter \<times> TopologyReloadResult" where
  "reload_finish rt sha256 m baseline reporter fetched =
     (case fetched of
        FetchCancelled \<Rightarrow>
          (m, reporter, reload_failure (rep_current reporter)
             (error_runtime ''topology operations are stopped'' False))
      | FetchFailed error \<Rightarrow>
          (m, reporter, reload_failed FailedUnchanged (rep_current reporter)
             (''reload data from panel: '' @ error))
      | Fetched candidate \<Rightarrow>
          reload_candidate rt sha256 m baseline reporter (default_machine (tm_machine_id m) candidate))"

section \<open>The contract of the runtime\<close>

text \<open>What the manager relies on: an accepted topology is the active one, a rejected one changes nothing,
  and no other call makes a topology active that the manager did not hand over.\<close>

locale topology_runtime_contract =
  fixes rt :: "('t, 'c) topology_runtime"
    and active :: "'t \<Rightarrow> MachineTopology"
  assumes apply_accepts: "trt_apply rt r t = (r', Inr u) \<Longrightarrow> active r' = t"
    and apply_rejects: "trt_apply rt r t = (r', Inl e) \<Longrightarrow> active r' = active r"
    and close_users: "active (fst (trt_close_user_connections rt r n i)) = active r"
    and reconcile: "active (fst (trt_reconcile_current rt r t)) \<in> {active r, t}"
    and begin_close: "active (trt_begin_close rt r) = active r"
    and close_keeps: "active (fst (trt_close rt r)) = active r"
    and prepare: "active (fst (trt_prepare_reload rt r t)) = active r"
    and configure: "active (fst (trt_configure_reload rt r t)) = active r"
    and reload_accepts: "trt_reload_prepared rt r t c = (r', Inr status) \<Longrightarrow>
      rls_running status \<and> active r' = t"
    and reload_rejects: "trt_reload_prepared rt r t c = (r', Inl e) \<Longrightarrow> active r' = active r"

text \<open>The adapter keeps it, whatever its router, runtime and compiler do.\<close>

lemma failures_same_active:
  "port_configuration_failure env a error plan had = (a', e) \<Longrightarrow> same_active a' a"
  "runtime_transaction_failure_parts env a closing f previous mode = (a', e) \<Longrightarrow> same_active a' a"
  "prepared_reload_protocol_failure env a message p = (a', e) \<Longrightarrow> same_active a' a"
proof -
  assume "port_configuration_failure env a error plan had = (a', e)"
  then show "same_active a' a"
    by (auto simp: port_configuration_failure_def Let_def dest!: adapter_reconcile_same
        split: if_splits prod.splits sum.splits)
next
  assume "prepared_reload_protocol_failure env a message p = (a', e)"
  then show "same_active a' a"
    by (auto simp: prepared_reload_protocol_failure_def dest!: adapter_reconcile_same
        split: if_splits prod.splits sum.splits)
next
  assume parts: "runtime_transaction_failure_parts env a closing f previous mode = (a', e)"
  obtain a1 pr where rec: "adapter_reconcile env a (rb_port_hopping previous) = (a1, pr)" by fastforce
  have "restore_runtime env a1 closing f mode config = (a2, x) \<Longrightarrow> same_active a2 a1" for config a2 x
    by (auto simp: restore_runtime_def dest!: adapter_apply_config_same
        split: if_splits prod.splits sum.splits option.splits)
  moreover from parts rec obtain x where
    "restore_runtime env a1 closing f mode (rb_config previous) = (a', x)"
    by (auto simp: runtime_transaction_failure_parts_def Let_def split: prod.splits)
  ultimately show "same_active a' a"
    using adapter_reconcile_same [OF rec] by (blast intro: same_active_trans)
qed

lemma adapter_apply_active:
  "adapter_apply env a closing t = (a', Inr u) \<Longrightarrow> ad_active_topology a' = t"
  "adapter_apply env a closing t = (a', Inl e) \<Longrightarrow> same_active a' a"
  by (auto simp: adapter_apply_def runtime_transaction_failure_def
      dest!: failures_same_active adapter_reconcile_same adapter_apply_config_same
      intro: same_active_trans split: sum.splits prod.splits)

lemma adapter_reload_prepared_active:
  "adapter_reload_prepared env a closing t c = (a', Inr status) \<Longrightarrow>
     rls_running status \<and> ad_active_topology a' = t"
  "adapter_reload_prepared env a closing t c = (a', Inl e) \<Longrightarrow> same_active a' a"
  by (auto simp: adapter_reload_prepared_def runtime_transaction_failure_def Let_def
      dest!: failures_same_active adapter_reload_config_same
      intro: same_active_trans split: sum.splits prod.splits option.splits if_splits)

lemma adapter_configure_reload_active:
  "adapter_configure_reload env a t = (a', r) \<Longrightarrow> same_active a' a"
  by (auto simp: adapter_configure_reload_def dest!: failures_same_active adapter_reconcile_same
      intro: same_active_trans split: sum.splits prod.splits option.splits if_splits)

lemma adapter_prepare_reload_active:
  "adapter_prepare_reload env a t = (a', r) \<Longrightarrow> same_active a' a"
  by (auto simp: adapter_prepare_reload_def Let_def
      split: sum.splits prod.splits option.splits if_splits)

lemma recover_listener_active: "recover_listener env a failure c = (a', r) \<Longrightarrow> same_active a' a"
  by (auto simp: recover_listener_def dest!: adapter_reload_config_same split: sum.splits prod.splits)

lemma adapter_reconcile_current_active:
  assumes "adapter_reconcile_current env a t = (a', r)"
  shows "ad_active_topology a' \<in> {ad_active_topology a, t}"
  using assms
  by (auto simp: adapter_reconcile_current_def same_active_def Let_def
      dest!: recover_listener_active adapter_reconcile_same
      split: sum.splits prod.splits option.splits if_splits)

lemma adapter_close_active: "ad_active_topology (fst (adapter_close env a)) = ad_active_topology a"
  by (auto simp: adapter_close_def adapter_begin_close_def Let_def
      split: sum.splits prod.splits option.splits)

interpretation adapter_rt: topology_runtime_contract "adapter_runtime env closing" ad_active_topology
  for env :: "('p, 'r, 'c) adapter_env" and closing
proof unfold_locales
  fix r r' :: "('p, 'r, 'c) adapter" and t n i c u e status
  let ?rt = "adapter_runtime env closing"
  show "trt_apply ?rt r t = (r', Inr u) \<Longrightarrow> ad_active_topology r' = t"
    by (auto simp: adapter_runtime_def dest: adapter_apply_active)
  show "trt_apply ?rt r t = (r', Inl e) \<Longrightarrow> ad_active_topology r' = ad_active_topology r"
    by (auto simp: adapter_runtime_def same_active_def dest: adapter_apply_active)
  show "ad_active_topology (fst (trt_close_user_connections ?rt r n i)) = ad_active_topology r"
    by (simp add: adapter_runtime_def adapter_close_user_connections_def split: prod.splits)
  show "ad_active_topology (fst (trt_reconcile_current ?rt r t)) \<in> {ad_active_topology r, t}"
    using adapter_reconcile_current_active [of env r t] by (simp add: adapter_runtime_def prod_eq_iff)
  show "ad_active_topology (trt_begin_close ?rt r) = ad_active_topology r"
    by (simp add: adapter_runtime_def adapter_begin_close_def)
  show "ad_active_topology (fst (trt_close ?rt r)) = ad_active_topology r"
    by (simp add: adapter_runtime_def adapter_close_active)
  show "ad_active_topology (fst (trt_prepare_reload ?rt r t)) = ad_active_topology r"
    using adapter_prepare_reload_active [of env r t]
    by (simp add: adapter_runtime_def same_active_def prod_eq_iff)
  show "ad_active_topology (fst (trt_configure_reload ?rt r t)) = ad_active_topology r"
    using adapter_configure_reload_active [of env r t]
    by (simp add: adapter_runtime_def same_active_def prod_eq_iff)
  show "trt_reload_prepared ?rt r t c = (r', Inr status) \<Longrightarrow>
      rls_running status \<and> ad_active_topology r' = t"
    by (auto simp: adapter_runtime_def dest: adapter_reload_prepared_active)
  show "trt_reload_prepared ?rt r t c = (r', Inl e) \<Longrightarrow> ad_active_topology r' = ad_active_topology r"
    by (auto simp: adapter_runtime_def same_active_def dest: adapter_reload_prepared_active)
qed

end
