(* ===== verification/Topology_Users.thy ===== *)
theory Topology_Users
  imports Topology_Operations
begin

text \<open>
  The users of a topology: what the comparison of two user lists counts and which connections a
  publication closes, against set-based specifications. The comparison is \<open>compare_node_users\<close> and
  the closed pairs come from \<open>stale_credential_topology_users\<close> in \<open>topology/manager.rs\<close>.
\<close>

section \<open>Collected maps\<close>

lemma bt_collect_fold:
  "map_of (foldl (\<lambda>m (k, v). bt_insert k v m) m0 es) = map_of m0 ++ map_of (rev es)"
  "bt_wf m0 \<Longrightarrow> bt_wf (foldl (\<lambda>m (k, v). bt_insert k v m) m0 es)"
proof -
  show "map_of (foldl (\<lambda>m (k, v). bt_insert k v m) m0 es) = map_of m0 ++ map_of (rev es)"
    by (induction es arbitrary: m0) (auto simp: fun_eq_iff map_add_def split: option.splits)
  show "bt_wf m0 \<Longrightarrow> bt_wf (foldl (\<lambda>m (k, v). bt_insert k v m) m0 es)"
    by (induction es arbitrary: m0) auto
qed

lemma map_of_bt_collect: "distinct (map fst es) \<Longrightarrow> map_of (bt_collect es) = map_of es"
  by (simp add: bt_collect_def bt_collect_fold)
     (metis distinct_rev map_of_inject_set rev_map set_rev)

lemma bt_collect_entry:
  "distinct (map fst es) \<Longrightarrow> e \<in> set (bt_collect es) \<longleftrightarrow> e \<in> set es"
proof -
  assume distinct: "distinct (map fst es)"
  have "bt_wf (bt_collect es)" by (simp add: bt_collect_def bt_collect_fold)
  with map_of_bt_collect [OF distinct] distinct show ?thesis
    by (cases e) (simp add: bt_wf_entry map_of_eq_Some_iff)
qed

section \<open>Comparison\<close>

definition valid_users :: "UserCredential list \<Rightarrow> bool" where
  "valid_users users \<longleftrightarrow> distinct (map uc_user_id users) \<and> [] \<notin> uc_user_id ` set users"

lemma index_users_spec:
  assumes "bt_wf indexed"
  shows "case index_users source users indexed of
      Inl e \<Rightarrow> \<not> valid_users users \<or> (\<exists>u \<in> set users. uc_user_id u \<in> fst ` set indexed)
    | Inr result \<Rightarrow> valid_users users \<and> bt_wf result \<and>
        (\<forall>u \<in> set users. uc_user_id u \<notin> fst ` set indexed) \<and>
        set result = set indexed \<union> (\<lambda>u. (uc_user_id u, u)) ` set users"
  using assms
proof (induction users arbitrary: indexed)
  case (Cons u us)
  show ?case
  proof (cases "uc_user_id u = [] \<or> uc_user_id u \<in> fst ` set indexed")
    case True
    then show ?thesis by (auto simp: valid_users_def map_of_eq_None_iff)
  next
    case False
    then have "index_users source (u # us) indexed =
        index_users source us (bt_insert (uc_user_id u) u indexed)"
      by (simp add: map_of_eq_None_iff)
    moreover have "valid_users (u # us) \<longleftrightarrow> valid_users us \<and> (\<forall>v \<in> set us. uc_user_id v \<noteq> uc_user_id u)"
      using False by (auto simp: valid_users_def image_iff)
    moreover note Cons.IH [of "bt_insert (uc_user_id u) u indexed"]
    ultimately show ?thesis
      using Cons.prems False by (auto simp: set_bt_insert split: sum.splits)
  qed
qed (simp add: valid_users_def)

lemma index_users_kind: "index_users source users m = Inl e \<Longrightarrow> te_kind e = InvalidMutation"
  by (induction users arbitrary: m) (auto split: if_splits)

text \<open>The index of a valid list holds its users, each under its id.\<close>

definition indexes :: "(string \<times> UserCredential) list \<Rightarrow> UserCredential list \<Rightarrow> bool" where
  "indexes m users \<longleftrightarrow> valid_users users \<and> bt_wf m \<and> set m = (\<lambda>u. (uc_user_id u, u)) ` set users"

lemma index_node_users_spec:
  "case index_node_users users source of Inl e \<Rightarrow> \<not> valid_users users | Inr m \<Rightarrow> indexes m users"
  using index_users_spec [where indexed = "[]" and source = source and users = users]
  by (auto simp: index_node_users_def indexes_def split: sum.splits)

lemma indexes_lookup:
  assumes "indexes m users"
  shows "map_of m i = Some u \<longleftrightarrow> u \<in> set users \<and> uc_user_id u = i"
    and "map_of m i = None \<longleftrightarrow> i \<notin> uc_user_id ` set users"
proof -
  from assms have wf: "bt_wf m" and set: "set m = (\<lambda>u. (uc_user_id u, u)) ` set users"
    by (simp_all add: indexes_def)
  show "map_of m i = Some u \<longleftrightarrow> u \<in> set users \<and> uc_user_id u = i"
    unfolding bt_wf_entry [OF wf, symmetric] set by auto
  show "map_of m i = None \<longleftrightarrow> i \<notin> uc_user_id ` set users"
    by (simp add: map_of_eq_None_iff set image_image)
qed

lemma indexes_count:
  assumes "indexes m users"
  shows "length (filter (\<lambda>(i, u). P i u) m) = card {u \<in> set users. P (uc_user_id u) u}"
proof -
  from assms have "distinct (map fst m)" and set: "set m = (\<lambda>u. (uc_user_id u, u)) ` set users"
    using bt_wf_distinct by (auto simp: indexes_def)
  then have "distinct m" by (simp add: distinct_map)
  then have "length (filter (\<lambda>(i, u). P i u) m) = card (set (filter (\<lambda>(i, u). P i u) m))"
    by (metis distinct_card distinct_filter)
  also have "set (filter (\<lambda>(i, u). P i u) m) =
      (\<lambda>u. (uc_user_id u, u)) ` {u \<in> set users. P (uc_user_id u) u}"
    by (auto simp: set)
  also have "card \<dots> = card {u \<in> set users. P (uc_user_id u) u}"
    by (rule card_image) (auto simp: inj_on_def)
  finally show ?thesis .
qed

lemma count_changes_spec:
  assumes "indexes c current" and "indexes d desired"
  shows "ch_added (count_changes c d) = card {u \<in> set desired. uc_user_id u \<notin> uc_user_id ` set current}"
    and "ch_updated (count_changes c d) =
      card {u \<in> set desired. uc_user_id u \<in> uc_user_id ` set current \<and> u \<notin> set current}"
    and "ch_deleted (count_changes c d) = card {u \<in> set current. uc_user_id u \<notin> uc_user_id ` set desired}"
proof -
  note c = indexes_lookup [OF assms(1)] and d = indexes_lookup [OF assms(2)]
  show "ch_added (count_changes c d) = card {u \<in> set desired. uc_user_id u \<notin> uc_user_id ` set current}"
    using indexes_count [OF assms(2), of "\<lambda>i _. map_of c i = None"]
    by (simp add: count_changes_def c)
  show "ch_deleted (count_changes c d) = card {u \<in> set current. uc_user_id u \<notin> uc_user_id ` set desired}"
    using indexes_count [OF assms(1), of "\<lambda>i _. map_of d i = None"]
    by (simp add: count_changes_def d)
  have "(case map_of c (uc_user_id u) of None \<Rightarrow> False | Some v \<Rightarrow> v \<noteq> u) \<longleftrightarrow>
      uc_user_id u \<in> uc_user_id ` set current \<and> u \<notin> set current" for u
  proof (cases "map_of c (uc_user_id u)")
    case None
    with c(2) [of "uc_user_id u"] show ?thesis by simp
  next
    case (Some v)
    then have "v \<in> set current" "uc_user_id v = uc_user_id u" "u \<in> set current \<longleftrightarrow> v = u"
      using c(1) [of "uc_user_id u" v] c(1) [of "uc_user_id u" u] by auto
    moreover from this have "uc_user_id u \<in> uc_user_id ` set current" by (metis image_eqI)
    ultimately show ?thesis using Some by auto
  qed
  with indexes_count [OF assms(2), of "\<lambda>i u. case map_of c i of None \<Rightarrow> False | Some v \<Rightarrow> v \<noteq> u"]
  show "ch_updated (count_changes c d) =
      card {u \<in> set desired. uc_user_id u \<in> uc_user_id ` set current \<and> u \<notin> set current}"
    by (simp add: count_changes_def)
qed

lemma unchanged_iff:
  assumes "indexes c current" and "indexes d desired"
  shows "unchanged_users (count_changes c d) \<longleftrightarrow> set current = set desired"
proof -
  have "valid_users current" using assms(1) by (simp add: indexes_def)
  then have same: "u \<in> set current \<Longrightarrow> v \<in> set current \<Longrightarrow> uc_user_id u = uc_user_id v \<Longrightarrow> u = v" for u v
    by (metis distinct_map inj_onD valid_users_def)
  have "unchanged_users (count_changes c d) \<longleftrightarrow>
      (\<forall>u \<in> set desired. u \<in> set current) \<and>
      (\<forall>u \<in> set current. uc_user_id u \<in> uc_user_id ` set desired)"
    unfolding unchanged_users_def count_changes_spec [OF assms] by (auto simp: card_eq_0_iff)
  also have "\<dots> \<longleftrightarrow> set current = set desired"
    using same by (auto simp: image_iff) metis
  finally show ?thesis .
qed

lemma compare_indexes:
  assumes "compare_node_users current desired = Inr changes"
  obtains c d where "indexes c current" "indexes d desired" "changes = count_changes c d"
proof -
  from assms obtain c d where c: "index_node_users current ''current'' = Inr c"
    and d: "index_node_users desired ''desired'' = Inr d" and "changes = count_changes c d"
    by (auto simp: compare_node_users_def result_simps)
  with that index_node_users_spec [of current "''current''"] index_node_users_spec [of desired "''desired''"]
  show ?thesis by simp
qed

section \<open>Closed connections\<close>

text \<open>The specification: a user may connect to a node with a credential.\<close>

definition authorized :: "MachineTopology \<Rightarrow> string \<Rightarrow> string \<Rightarrow> string \<Rightarrow> bool" where
  "authorized t node_id user_id credential \<longleftrightarrow>
     (\<exists>node \<in> set (mt_nodes t). ni_node_id node = node_id \<and>
        (\<exists>user \<in> set (ni_users node). active_user user \<and> uc_user_id user = user_id \<and>
           uc_credential user = credential))"

definition wf_topology :: "MachineTopology \<Rightarrow> bool" where
  "wf_topology t \<longleftrightarrow> distinct (map ni_node_id (mt_nodes t)) \<and>
     list_all (\<lambda>node. distinct (map uc_user_id (ni_users node))) (mt_nodes t)"

lemma stale_user_ids:
  assumes "distinct (map uc_user_id desired)"
  shows "i \<in> set (stale_credential_user_ids current desired) \<longleftrightarrow>
    (\<exists>u \<in> set current. active_user u \<and> uc_user_id u = i \<and>
       \<not> (\<exists>v \<in> set desired. active_user v \<and> uc_user_id v = i \<and> uc_credential v = uc_credential u))"
proof -
  let ?es = "map (\<lambda>user. (uc_user_id user, user)) (filter active_user desired)"
  have distinct: "distinct (map fst ?es)"
    using assms by (simp add: comp_def distinct_map_filter)
  have look: "map_of (bt_collect ?es) k = Some v \<longleftrightarrow>
      v \<in> set desired \<and> active_user v \<and> uc_user_id v = k" for k v
    using distinct by (auto simp: map_of_bt_collect map_of_eq_Some_iff)
  have "(case map_of (bt_collect ?es) (uc_user_id u) of None \<Rightarrow> True
        | Some d \<Rightarrow> uc_credential d \<noteq> uc_credential u) \<longleftrightarrow>
      \<not> (\<exists>v \<in> set desired. active_user v \<and> uc_user_id v = uc_user_id u \<and> uc_credential v = uc_credential u)"
    for u
  proof (cases "map_of (bt_collect ?es) (uc_user_id u)")
    case None
    then show ?thesis using look [of "uc_user_id u"] by auto
  next
    case (Some d)
    then have "v = d" if "v \<in> set desired" "active_user v" "uc_user_id v = uc_user_id u" for v
      using look [of "uc_user_id u" v] that by simp
    with Some look [of "uc_user_id u" d] show ?thesis by auto
  qed
  then show ?thesis
    by (auto simp: stale_credential_user_ids_def Let_def)
qed

text \<open>The users of the node with an id, as the collected map gives them.\<close>

definition users_of :: "MachineTopology \<Rightarrow> string \<Rightarrow> UserCredential list" where
  "users_of t n = (case map_of (bt_collect (map (\<lambda>node. (ni_node_id node, ni_users node)) (mt_nodes t))) n of
     None \<Rightarrow> [] | Some users \<Rightarrow> users)"

lemma users_of_spec:
  assumes "wf_topology t"
  shows "u \<in> set (users_of t n) \<longleftrightarrow> (\<exists>node \<in> set (mt_nodes t). ni_node_id node = n \<and> u \<in> set (ni_users node))"
    and "distinct (map uc_user_id (users_of t n))"
proof -
  let ?es = "map (\<lambda>node. (ni_node_id node, ni_users node)) (mt_nodes t)"
  have dist: "distinct (map fst ?es)" using assms by (simp add: wf_topology_def comp_def)
  have look: "map_of (bt_collect ?es) n = Some us \<longleftrightarrow>
      (\<exists>node \<in> set (mt_nodes t). ni_node_id node = n \<and> ni_users node = us)" for us
    using dist by (auto simp: map_of_bt_collect map_of_eq_Some_iff)
  have "u \<in> set (users_of t n) \<longleftrightarrow> (\<exists>us. map_of (bt_collect ?es) n = Some us \<and> u \<in> set us)"
    by (cases "map_of (bt_collect ?es) n") (simp_all add: users_of_def)
  then show "u \<in> set (users_of t n) \<longleftrightarrow>
      (\<exists>node \<in> set (mt_nodes t). ni_node_id node = n \<and> u \<in> set (ni_users node))"
    unfolding look by blast
  have "distinct (map uc_user_id us)" if "map_of (bt_collect ?es) n = Some us" for us
    using that assms unfolding look by (auto simp: wf_topology_def list_all_iff)
  then show "distinct (map uc_user_id (users_of t n))"
    by (simp add: users_of_def split: option.split)
qed

lemma concat_singletons:
  "map fst (concat (map (\<lambda>x. if p x then [(f x, g x)] else []) xs)) = map f (filter p xs)"
  by (induction xs) simp_all

lemma stale_topology_entries:
  assumes "distinct (map ni_node_id (mt_nodes current))"
  shows "(n, ids) \<in> set (stale_credential_topology_users current desired) \<longleftrightarrow>
    (\<exists>node \<in> set (mt_nodes current). ni_node_id node = n \<and>
       ids = stale_credential_user_ids (ni_users node) (users_of desired n) \<and> ids \<noteq> [])"
proof -
  let ?stale = "\<lambda>node. stale_credential_user_ids (ni_users node) (users_of desired (ni_node_id node))"
  let ?es = "concat (map (\<lambda>node. if ?stale node \<noteq> [] then [(ni_node_id node, ?stale node)] else [])
      (mt_nodes current))"
  have "map fst ?es = map ni_node_id (filter (\<lambda>node. ?stale node \<noteq> []) (mt_nodes current))"
    by (rule concat_singletons)
  then have "distinct (map fst ?es)" using assms by (simp add: distinct_map_filter)
  moreover have "stale_credential_topology_users current desired = bt_collect ?es"
    unfolding stale_credential_topology_users_def users_of_def Let_def by (rule refl)
  ultimately show ?thesis by (auto simp: bt_collect_entry split: if_splits)
qed

lemma stale_pairs_spec:
  assumes "distinct (map ni_node_id (mt_nodes current))" and "wf_topology desired"
  shows "(n, i) \<in> set (stale_pairs current desired) \<longleftrightarrow>
    (\<exists>credential. authorized current n i credential \<and> \<not> authorized desired n i credential)"
proof -
  have "(n, i) \<in> set (stale_pairs current desired) \<longleftrightarrow>
      (\<exists>ids. (n, ids) \<in> set (stale_credential_topology_users current desired) \<and> i \<in> set ids)"
    by (force simp: stale_pairs_def)
  also have "\<dots> \<longleftrightarrow> (\<exists>node \<in> set (mt_nodes current). ni_node_id node = n \<and>
      i \<in> set (stale_credential_user_ids (ni_users node) (users_of desired n)))"
    unfolding stale_topology_entries [OF assms(1)] by (metis empty_iff list.set(1))
  also have "\<dots> \<longleftrightarrow> (\<exists>node \<in> set (mt_nodes current). ni_node_id node = n \<and>
      (\<exists>u \<in> set (ni_users node). active_user u \<and> uc_user_id u = i \<and>
         \<not> authorized desired n i (uc_credential u)))"
  proof -
    have "(\<exists>v \<in> set (users_of desired n). active_user v \<and> uc_user_id v = i \<and> uc_credential v = c) \<longleftrightarrow>
        authorized desired n i c" for c
      unfolding authorized_def Bex_def users_of_spec(1) [OF assms(2)] by blast
    then show ?thesis unfolding stale_user_ids [OF users_of_spec(2) [OF assms(2)]] by simp
  qed
  also have "\<dots> \<longleftrightarrow> (\<exists>credential. authorized current n i credential \<and> \<not> authorized desired n i credential)"
    unfolding authorized_def [of current] by blast
  finally show ?thesis .
qed

section \<open>Properties\<close>

text \<open>The comparison of user lists: it fails exactly when one of the lists has an empty or a
  repeated user id; otherwise it counts the users whose id is new, those whose id is known with
  other data, and those whose id is gone, and it counts nothing exactly when both lists hold the
  same users, in whatever order.\<close>

lemma compare_node_users_counts:
  "case compare_node_users current desired of
     Inl e \<Rightarrow> \<not> (valid_users current \<and> valid_users desired) \<and> te_kind e = InvalidMutation
   | Inr changes \<Rightarrow> valid_users current \<and> valid_users desired \<and>
       ch_added changes = card {u \<in> set desired. uc_user_id u \<notin> uc_user_id ` set current} \<and>
       ch_updated changes =
         card {u \<in> set desired. uc_user_id u \<in> uc_user_id ` set current \<and> u \<notin> set current} \<and>
       ch_deleted changes = card {u \<in> set current. uc_user_id u \<notin> uc_user_id ` set desired} \<and>
       (unchanged_users changes \<longleftrightarrow> set current = set desired)"
proof (cases "compare_node_users current desired")
  case (Inl e)
  have "te_kind e = InvalidMutation" if "index_node_users users source = Inl e" for users source
    using that by (auto simp: index_node_users_def dest: index_users_kind)
  with Inl index_node_users_spec [of current "''current''"] index_node_users_spec [of desired "''desired''"]
  show ?thesis by (auto simp: compare_node_users_def result_simps)
next
  case (Inr changes)
  then obtain c d where ic: "indexes c current" and id: "indexes d desired"
    and changes: "changes = count_changes c d"
    by (rule compare_indexes)
  from ic id have "valid_users current" "valid_users desired" by (simp_all add: indexes_def)
  then show ?thesis
    by (simp add: Inr changes count_changes_spec [OF ic id] unchanged_iff [OF ic id])
qed

text \<open>C33 (a publication closes the revoked connections, no others): when node ids are unique and the
  new topology lists each user once per node, the pairs of node and user whose connections a
  publication closes are exactly those where a credential that was authorised before is not
  authorised any more: removed or disabled users, removed nodes and changed credentials.\<close>

theorem publication_closes_revoked:
  assumes "distinct (map ni_node_id (mt_nodes (tm_topology m)))" and "wf_topology topology"
  shows "\<exists>pairs. publish_and_close_stale_users rt topology m =
      close_connections rt pairs (publish topology m) \<and>
    (\<forall>node_id user_id. (node_id, user_id) \<in> set pairs \<longleftrightarrow>
      (\<exists>credential. authorized (tm_topology m) node_id user_id credential \<and>
         \<not> authorized topology node_id user_id credential))"
  using stale_pairs_spec [OF assms] unfolding publish_and_close_stale_users_def by blast

definition ex_user_topology :: "string \<Rightarrow> MachineTopology" where
  "ex_user_topology credential = MachineTopology_default\<lparr> mt_machine_id := ''m'', mt_nodes :=
     [NodeInstance_default\<lparr> ni_node_id := ''n'', ni_users :=
        [\<lparr> uc_user_id = ''u'', uc_name = [], uc_credential = credential, uc_status = [],
           uc_upload_speed_limit_bps = 0, uc_download_speed_limit_bps = 0 \<rparr>] \<rparr>] \<rparr>"

definition ex_user_manager :: "(unit port_manager, nat scripted, nat) adapter topology_manager" where
  "ex_user_manager = (manager_new ''m'' (ex_active []))\<lparr> tm_topology := ex_user_topology ''old'' \<rparr>"

theorem publication_closes_revoked_witness:
  "\<exists>pairs. publish_and_close_stale_users (adapter_runtime ex_env (\<lambda>_. False)) (ex_user_topology ''new'')
       ex_user_manager =
     close_connections (adapter_runtime ex_env (\<lambda>_. False)) pairs
       (publish (ex_user_topology ''new'') ex_user_manager) \<and> (''n'', ''u'') \<in> set pairs"
proof -
  have "authorized (tm_topology ex_user_manager) ''n'' ''u'' ''old''"
    "\<not> authorized (ex_user_topology ''new'') ''n'' ''u'' ''old''"
    by (simp_all add: ex_user_manager_def ex_user_topology_def authorized_def active_user_def)
  moreover have "distinct (map ni_node_id (mt_nodes (tm_topology ex_user_manager)))"
    "wf_topology (ex_user_topology ''new'')"
    by (simp_all add: ex_user_manager_def ex_user_topology_def wf_topology_def)
  ultimately show ?thesis
    using publication_closes_revoked [of ex_user_manager "ex_user_topology ''new''"
        "adapter_runtime ex_env (\<lambda>_. False)"] by metis
qed

end
