(* ===== verification/Topology_Transitions.thy ===== *)
theory Topology_Transitions
  imports Topology_Operations
begin

text \<open>
  Histories of the topology manager. The commands of \<open>Topology_Operations\<close> as one step function and the
  states it reaches from a fresh manager; the invariants the published topology keeps over every
  history: it is the topology the runtime runs, its revision never goes back, and the snapshot
  retained for the digest describes it.
\<close>

section \<open>Commands as steps\<close>

datatype command =
    ApplyInitial MachineTopology
  | ApplyAuthoritative MachineTopology u64
  | ApplySnapshot "pb_TopologySnapshot option"
  | ApplyDelta "pb_TopologyDelta option"
  | ApplyRoutePatch "pb_TopologyRoutePatch option" u64
  | ApplyUserMutation "pb_UserMutation option" u64
  | RefreshUsers UserRefreshRequest
  | FinishReload u64 ReloadReporter fetch_outcome
  | ReconcileCurrent
  | BindSession bool
  | StopOperations
  | CloseManager

text \<open>The state after a command and whether it succeeded.\<close>

definition outcome :: "'m \<times> ('e + 'a) \<Rightarrow> 'm \<times> bool" where
  "outcome res = (fst res, \<not> isl (snd res))"

fun run_command :: "('t, 'c) topology_runtime \<Rightarrow> (bytes \<Rightarrow> bytes) \<Rightarrow> 't topology_manager \<Rightarrow> command \<Rightarrow>
    't topology_manager \<times> bool" where
  "run_command rt sha256 m (ApplyInitial t) = outcome (apply_initial rt m t)"
| "run_command rt sha256 m (ApplyAuthoritative t token) =
     outcome (apply_authoritative_if_unchanged rt m t token)"
| "run_command rt sha256 m (ApplySnapshot s) = outcome (apply_snapshot rt m s)"
| "run_command rt sha256 m (ApplyDelta d) = outcome (apply_delta rt m d)"
| "run_command rt sha256 m (ApplyRoutePatch p base) = outcome (apply_route_patch rt m p base)"
| "run_command rt sha256 m (ApplyUserMutation u base) = outcome (tm_apply_user_mutation rt m u base)"
| "run_command rt sha256 m (RefreshUsers request) = outcome (refresh_owned rt m request)"
| "run_command rt sha256 m (FinishReload baseline reporter fetched) =
     (case reload_finish rt sha256 m baseline reporter fetched of
        (m', _, result) \<Rightarrow> (m', trr_outcome result = Succeeded))"
| "run_command rt sha256 m ReconcileCurrent = outcome (tm_reconcile_current rt m)"
| "run_command rt sha256 m (BindSession cancelled) = (with_operation_cancellation cancelled m, True)"
| "run_command rt sha256 m StopOperations = (stop_operations rt m, True)"
| "run_command rt sha256 m CloseManager = outcome (tm_close rt m)"

text \<open>Histories: the commands in the order in which they took the operation lock. In the code the
  session's cancellation belongs to the clone of the manager that issues a command; here it is a field
  that \<open>BindSession\<close> sets to the issuing clone's before the command. A stop between two commands
  is the command \<open>StopOperations\<close>; one that falls into a command is treated at the end.\<close>

inductive history :: "('t, 'c) topology_runtime \<Rightarrow> (bytes \<Rightarrow> bytes) \<Rightarrow> 't topology_manager \<Rightarrow>
    command list \<Rightarrow> 't topology_manager \<Rightarrow> bool" for rt sha256 m0 where
  start: "history rt sha256 m0 [] m0"
| step: "history rt sha256 m0 cs m \<Longrightarrow> run_command rt sha256 m c = (m', ok) \<Longrightarrow>
    history rt sha256 m0 (cs @ [c]) m'"

section \<open>What a command may change\<close>

text \<open>A topology but for its revision, which an unchanged refresh may advance.\<close>

definition payload :: "MachineTopology \<Rightarrow> MachineTopology" where
  "payload t = set_snapshot_revision 0 (t\<lparr> mt_revision := 0 \<rparr>)"

text \<open>What every command keeps: the name, a stop once requested, the result of the close.\<close>

definition lifecycle_kept :: "'t topology_manager \<Rightarrow> 't topology_manager \<Rightarrow> bool" where
  "lifecycle_kept m m' \<longleftrightarrow>
     tm_machine_id m' = tm_machine_id m \<and>
     (tm_operations_cancelled m \<longrightarrow> tm_operations_cancelled m') \<and>
     (tm_close_result m = None \<or> tm_close_result m' = tm_close_result m)"

lemma lifecycle_kept_trans: "lifecycle_kept m m1 \<Longrightarrow> lifecycle_kept m1 m2 \<Longrightarrow> lifecycle_kept m m2"
  by (auto simp: lifecycle_kept_def)

definition unpublished :: "'t topology_manager \<Rightarrow> 't topology_manager \<Rightarrow> bool" where
  "unpublished m m' \<longleftrightarrow> lifecycle_kept m m' \<and>
     tm_topology m' = tm_topology m \<and> tm_generation m' = tm_generation m"

definition published :: "MachineTopology \<Rightarrow> 't topology_manager \<Rightarrow> 't topology_manager \<Rightarrow> bool" where
  "published t m m' \<longleftrightarrow> lifecycle_kept m m' \<and>
     tm_topology m' = t \<and> tm_generation m' = tm_generation m + 1"

lemma unpublished_refl [simp]: "unpublished m m"
  "unpublished m (m\<lparr> tm_runtime := r \<rparr>)"
  "unpublished m (m\<lparr> tm_operations_cancelled := True, tm_runtime := r \<rparr>)"
  "unpublished m (m\<lparr> tm_session_cancelled := s \<rparr>)"
  by (simp_all add: unpublished_def lifecycle_kept_def)

lemma published_trans_unpublished: "published t m m1 \<Longrightarrow> unpublished m1 m2 \<Longrightarrow> published t m m2"
  by (auto simp: published_def unpublished_def intro: lifecycle_kept_trans)

lemma unpublished_trans: "unpublished m m1 \<Longrightarrow> unpublished m1 m2 \<Longrightarrow> unpublished m m2"
  by (auto simp: unpublished_def intro: lifecycle_kept_trans)

lemma close_connections_unpublished [simp]: "unpublished m (close_connections rt pairs m)"
proof (induction pairs arbitrary: m)
  case Nil
  then show ?case by (simp add: close_connections_def)
next
  case (Cons p pairs)
  obtain n u where p: "p = (n, u)" by (cases p)
  have "close_connections rt (p # pairs) m = close_connections rt pairs
      (m\<lparr> tm_runtime := fst (trt_close_user_connections rt (tm_runtime m) n u) \<rparr>)"
    by (simp add: close_connections_def p)
  with unpublished_trans [OF unpublished_refl(2) Cons.IH] show ?case by simp
qed

lemma close_explicitly_Cons:
  "close_explicitly_requested_users rt (mutation # mutations) m =
     close_explicitly_requested_users rt mutations
       (case kick_requested m mutation of None \<Rightarrow> m | Some pair \<Rightarrow> close_connections rt [pair] m)"
  by (simp add: close_explicitly_requested_users_def)

lemma close_explicitly_unpublished [simp]:
  "unpublished m (close_explicitly_requested_users rt mutations m)"
proof (induction mutations arbitrary: m)
  case Nil
  then show ?case by (simp add: close_explicitly_requested_users_def)
next
  case (Cons u us)
  show ?case
    unfolding close_explicitly_Cons
    by (rule unpublished_trans [OF _ Cons.IH]) (simp split: option.split)
qed

lemma publish_and_close_published [simp]:
  "published t m (publish_and_close_stale_users rt t (m\<lparr> tm_runtime := r \<rparr>))"
proof -
  have "published t m (publish t (m\<lparr> tm_runtime := r \<rparr>))"
    by (simp add: published_def publish_def lifecycle_kept_def)
  then show ?thesis
    unfolding publish_and_close_stale_users_def
    by (rule published_trans_unpublished) simp
qed

lemma tm_apply_published:
  assumes "tm_apply rt m t = (m', r)"
  shows "if isl r then unpublished m m' else published (default_machine (tm_machine_id m) t) m m'"
  using assms by (auto simp: tm_apply_def Let_def split: prod.splits sum.splits)

section \<open>Admission\<close>

definition admitted :: "'t topology_manager \<Rightarrow> bool" where
  "admitted m \<longleftrightarrow> \<not> tm_operations_cancelled m \<and> tm_session_cancelled m \<noteq> Some True"

lemma begin_operation_iff: "begin_operation m = Inr u \<longleftrightarrow> admitted m"
  by (simp add: begin_operation_def admitted_def)

lemma guard_authoritative_iff:
  "guard_authoritative_revision m v = Inr u \<longleftrightarrow>
     mt_machine_id (tm_topology m) = [] \<or> mt_revision (tm_topology m) \<le> v"
  by (auto simp: guard_authoritative_revision_def Let_def)

lemma guard_revision_iff:
  "guard_revision m v = Inr u \<longleftrightarrow> v \<noteq> 0 \<and> mt_revision (tm_topology m) \<le> v"
  by (auto simp: guard_revision_def Let_def not_less)

lemma guard_fence_iff:
  "guard_revision_fence m b v = Inr u \<longleftrightarrow> b \<noteq> 0 \<and> b = mt_revision (tm_topology m) \<and> b \<le> v"
  by (auto simp: guard_revision_fence_def Let_def not_less)

lemmas guard_iffs = begin_operation_iff guard_authoritative_iff guard_revision_iff guard_fence_iff

text \<open>The abstract command: which topology it may publish from a state, and under which fence.\<close>

inductive proposes :: "'t topology_manager \<Rightarrow> command \<Rightarrow> MachineTopology \<Rightarrow> bool" for m where
  initial: "admitted m \<Longrightarrow> mt_machine_id (tm_topology m) = [] \<or> mt_revision (tm_topology m) \<le> mt_revision t \<Longrightarrow>
    proposes m (ApplyInitial t) (default_machine (tm_machine_id m) t)"
| authoritative: "admitted m \<Longrightarrow>
    mt_machine_id (tm_topology m) = [] \<or> mt_revision (tm_topology m) \<le> mt_revision t \<Longrightarrow>
    token = tm_generation m \<Longrightarrow>
    proposes m (ApplyAuthoritative t token) (default_machine (tm_machine_id m) t)"
| snapshot: "admitted m \<Longrightarrow> mt_revision (tm_topology m) \<le> ts_revision s \<Longrightarrow> ts_revision s \<noteq> 0 \<Longrightarrow>
    proposes m (ApplySnapshot (Some s)) (from_snapshot (tm_machine_id m) (Some s))"
| delta: "admitted m \<Longrightarrow> td_base_revision d \<noteq> 0 \<Longrightarrow> td_base_revision d = mt_revision (tm_topology m) \<Longrightarrow>
    td_base_revision d \<le> td_target_revision d \<Longrightarrow> delta_candidate m d = Inr t \<Longrightarrow>
    proposes m (ApplyDelta (Some d)) (default_machine (tm_machine_id m) t)"
| route: "admitted m \<Longrightarrow> base \<noteq> 0 \<Longrightarrow> base = mt_revision (tm_topology m) \<Longrightarrow> base \<le> rp_revision p \<Longrightarrow>
    proposes m (ApplyRoutePatch (Some p) base) (default_machine (tm_machine_id m) (route_candidate m p))"
| user: "admitted m \<Longrightarrow> base \<noteq> 0 \<Longrightarrow> base = mt_revision (tm_topology m) \<Longrightarrow> base \<le> um_revision u \<Longrightarrow>
    user_candidate m u = Inr t \<Longrightarrow>
    proposes m (ApplyUserMutation (Some u) base) (default_machine (tm_machine_id m) t)"
| refresh: "refresh_checks m request = Inr (i, changes) \<Longrightarrow> \<not> unchanged_users changes \<Longrightarrow>
    proposes m (RefreshUsers request)
      (default_machine (tm_machine_id m) (refresh_candidate m request i))"
| advance: "refresh_checks m request = Inr (i, changes) \<Longrightarrow> unchanged_users changes \<Longrightarrow>
    mt_revision (tm_topology m) < target (urr_revision request) \<Longrightarrow>
    proposes m (RefreshUsers request) (advance_revision (target (urr_revision request)) (tm_topology m))"
| reload: "admitted m \<Longrightarrow> baseline = tm_generation m \<Longrightarrow>
    mt_machine_id (tm_topology m) = [] \<or> mt_revision (tm_topology m) \<le> mt_revision t \<Longrightarrow>
    proposes m (FinishReload baseline reporter (Fetched t)) (default_machine (tm_machine_id m) t)"

text \<open>A command either publishes what it proposes or publishes nothing; only the second may be a failure.\<close>

definition refines :: "'t topology_manager \<Rightarrow> command \<Rightarrow> 't topology_manager \<times> bool \<Rightarrow> bool" where
  "refines m c res \<longleftrightarrow>
     unpublished m (fst res) \<or> snd res \<and> (\<exists>t. proposes m c t \<and> published t m (fst res))"

lemma with_candidate_refines:
  assumes "with_candidate rt m checked = res"
    and "\<And>t. checked = Inr t \<Longrightarrow> proposes m c (default_machine (tm_machine_id m) t)"
  shows "refines m c (outcome res)"
proof (cases checked)
  case (Inl e)
  with assms(1) show ?thesis by (auto simp: with_candidate_def refines_def outcome_def)
next
  case (Inr t)
  obtain m' r where app: "tm_apply rt m t = (m', r)" by fastforce
  with assms(1) Inr have "res = (m', r)" by (simp add: with_candidate_def)
  with assms(2) [OF Inr] tm_apply_published [OF app] show ?thesis
    by (auto simp: refines_def outcome_def split: if_splits)
qed

lemma default_machine_from_snapshot [simp]:
  "default_machine i (from_snapshot i (Some s)) = from_snapshot i (Some s)"
  by (simp add: default_machine_def from_snapshot_def Let_def)

lemma command_candidates_refine:
  "refines m (ApplyInitial t) (outcome (apply_initial rt m t))"
  "refines m (ApplyAuthoritative t token) (outcome (apply_authoritative_if_unchanged rt m t token))"
  "refines m (ApplySnapshot s) (outcome (apply_snapshot rt m s))"
  "refines m (ApplyRoutePatch p base) (outcome (apply_route_patch rt m p base))"
proof -
  show "refines m (ApplyInitial t) (outcome (apply_initial rt m t))"
    by (rule with_candidate_refines [OF apply_initial_def [symmetric]])
       (auto simp: result_simps guard_iffs intro!: proposes.intros)
  show "refines m (ApplyAuthoritative t token) (outcome (apply_authoritative_if_unchanged rt m t token))"
    by (rule with_candidate_refines [OF apply_authoritative_if_unchanged_def [symmetric]])
       (auto simp: result_simps guard_iffs publication_token_def Let_def intro!: proposes.intros
         split: if_splits)
  show "refines m (ApplySnapshot s) (outcome (apply_snapshot rt m s))"
    by (rule with_candidate_refines [OF apply_snapshot_def [symmetric]])
       (auto simp: result_simps guard_iffs intro!: proposes.intros)
  show "refines m (ApplyRoutePatch p base) (outcome (apply_route_patch rt m p base))"
    by (rule with_candidate_refines [OF apply_route_patch_def [symmetric]])
       (auto simp: result_simps guard_iffs intro!: proposes.intros)
qed

lemma apply_then_kick_refines:
  assumes "proposes m c (default_machine (tm_machine_id m) t)"
  shows "refines m c (outcome (case tm_apply rt m t of
      (m1, Inl error) \<Rightarrow> (m1, Inl error)
    | (m1, Inr message) \<Rightarrow> (close_explicitly_requested_users rt us m1, Inr message)))"
proof -
  obtain m1 r where app: "tm_apply rt m t = (m1, r)" by fastforce
  from tm_apply_published [OF app] app assms show ?thesis
    by (cases r) (auto simp: refines_def outcome_def
        intro: published_trans_unpublished [OF _ close_explicitly_unpublished])
qed

lemma apply_delta_refines: "refines m (ApplyDelta d) (outcome (apply_delta rt m d))"
proof (cases "rbind (begin_operation m) (\<lambda>_.
    rbind (ok_or (topology_error InvalidMutation ''topology_delta payload is required'') d) (\<lambda>delta.
    rbind (guard_revision_fence m (td_base_revision delta) (td_target_revision delta)) (\<lambda>_.
    rbind (delta_candidate m delta) (\<lambda>next. Inr (delta, next)))))")
  case (Inl e)
  then show ?thesis unfolding apply_delta_def by (simp add: refines_def outcome_def)
next
  case (Inr x)
  then obtain delta t where x: "x = (delta, t)" and d: "d = Some delta"
    and "admitted m" "td_base_revision delta \<noteq> 0" "td_base_revision delta = mt_revision (tm_topology m)"
      "td_base_revision delta \<le> td_target_revision delta" "delta_candidate m delta = Inr t"
    by (auto simp: result_simps guard_iffs)
  then have "proposes m (ApplyDelta d) (default_machine (tm_machine_id m) t)"
    using proposes.delta by blast
  from apply_then_kick_refines [OF this] Inr x show ?thesis
    unfolding apply_delta_def by simp
qed

lemma apply_user_mutation_refines:
  "refines m (ApplyUserMutation u base) (outcome (tm_apply_user_mutation rt m u base))"
proof (cases "rbind (begin_operation m) (\<lambda>_.
    rbind (ok_or (topology_error InvalidMutation ''user_mutation payload is required'') u) (\<lambda>mutation.
    rbind (guard_revision_fence m base (um_revision mutation)) (\<lambda>_.
    rbind (user_candidate m mutation) (\<lambda>next. Inr (mutation, next)))))")
  case (Inl e)
  then show ?thesis unfolding tm_apply_user_mutation_def by (simp add: refines_def outcome_def)
next
  case (Inr x)
  then obtain mutation t where x: "x = (mutation, t)" and u: "u = Some mutation"
    and "admitted m" "base \<noteq> 0" "base = mt_revision (tm_topology m)"
      "base \<le> um_revision mutation" "user_candidate m mutation = Inr t"
    by (auto simp: result_simps guard_iffs)
  then have "proposes m (ApplyUserMutation u base) (default_machine (tm_machine_id m) t)"
    using proposes.user by blast
  from apply_then_kick_refines [OF this] Inr x show ?thesis
    unfolding tm_apply_user_mutation_def by simp
qed

lemma refresh_refines: "refines m (RefreshUsers request) (outcome (refresh_owned rt m request))"
proof (cases "refresh_checks m request")
  case (Inl e)
  then show ?thesis by (simp add: refresh_owned_def refines_def outcome_def)
next
  case (Inr x)
  obtain i changes where x: "x = (i, changes)" by (cases x)
  show ?thesis
  proof (cases "unchanged_users changes")
    case True
    with Inr x show ?thesis
      by (auto simp: refresh_owned_def refines_def outcome_def published_def lifecycle_kept_def Let_def
          intro!: proposes.advance)
  next
    case False
    obtain m1 r where app: "tm_apply rt m (refresh_candidate m request i) = (m1, r)" by fastforce
    from tm_apply_published [OF app] app Inr x False proposes.refresh [OF Inr [unfolded x] False]
    show ?thesis
      by (cases r) (auto simp: refresh_owned_def refines_def outcome_def)
  qed
qed

lemma reload_failure_not_succeeded [simp]:
  "trr_outcome (reload_failure stage e) \<noteq> Succeeded"
  "trr_outcome (reload_failed FailedStopped stage message) \<noteq> Succeeded"
  "trr_outcome (reload_failed FailedUnchanged stage message) \<noteq> Succeeded"
  by (simp_all add: reload_failure_def reload_failed_def)

lemma reload_candidate_cases:
  assumes "reload_candidate rt sha256 m baseline reporter t = (m', rep, result)"
  obtains (kept) "unpublished m m'" "trr_outcome result \<noteq> Succeeded"
  | (loaded) "reload_checks m baseline t = Inr ()" "published t m m'" "trr_outcome result = Succeeded"
proof (cases "reload_checks m baseline t")
  case (Inl e)
  with assms show ?thesis by (intro kept) (auto simp: reload_candidate_def)
next
  case (Inr u)
  show ?thesis
  proof (cases "unpublished m m' \<and> trr_outcome result \<noteq> Succeeded")
    case True
    then show ?thesis using kept by blast
  next
    case False
    with assms Inr obtain r3 where
      "m' = publish_and_close_stale_users rt t (m\<lparr> tm_runtime := r3 \<rparr>)"
      "trr_outcome result = Succeeded"
      by (auto simp: reload_candidate_def reload_publish_def Let_def
          split: prod.splits sum.splits if_splits)
    with Inr show ?thesis by (intro loaded) simp_all
  qed
qed

lemma reload_refines:
  "refines m (FinishReload baseline reporter fetched)
     (run_command rt sha256 m (FinishReload baseline reporter fetched))"
proof (cases fetched)
  case (Fetched t)
  let ?t = "default_machine (tm_machine_id m) t"
  obtain m' rep result where
    cand: "reload_candidate rt sha256 m baseline reporter ?t = (m', rep, result)"
    by (metis prod.exhaust)
  have "mt_revision ?t = mt_revision t" by (simp add: default_machine_def)
  then have proposed: "reload_checks m baseline ?t = Inr () \<Longrightarrow>
      proposes m (FinishReload baseline reporter fetched) ?t"
    unfolding Fetched
    by (intro proposes.reload)
       (auto simp: reload_checks_def result_simps guard_iffs publication_token_def split: if_splits)
  from cand show ?thesis
    by (cases rule: reload_candidate_cases)
       (use cand proposed Fetched in \<open>auto simp: refines_def reload_finish_def\<close>)
qed (auto simp: refines_def reload_finish_def)

lemma lifecycle_refines:
  "refines m ReconcileCurrent (outcome (tm_reconcile_current rt m))"
  "refines m CloseManager (outcome (tm_close rt m))"
  "refines m StopOperations (stop_operations rt m, True)"
  "refines m (BindSession cancelled) (with_operation_cancellation cancelled m, True)"
proof -
  show "refines m ReconcileCurrent (outcome (tm_reconcile_current rt m))"
    by (auto simp: tm_reconcile_current_def refines_def outcome_def Let_def split: sum.splits prod.splits)
  show "refines m CloseManager (outcome (tm_close rt m))"
    by (auto simp: tm_close_def stop_operations_def refines_def outcome_def unpublished_def lifecycle_kept_def
        Let_def split: option.splits prod.splits)
  show "refines m StopOperations (stop_operations rt m, True)"
    by (simp add: refines_def stop_operations_def)
  show "refines m (BindSession cancelled) (with_operation_cancellation cancelled m, True)"
    by (simp add: refines_def with_operation_cancellation_def)
qed

lemma run_command_refines: "refines m c (run_command rt sha256 m c)"
proof (cases c)
  case (FinishReload b rep f)
  with reload_refines show ?thesis by blast
qed (simp_all add: command_candidates_refine apply_delta_refines apply_user_mutation_refines
    refresh_refines lifecycle_refines)

section \<open>The fence\<close>

text \<open>A manager with a name: until the first publication it holds the empty topology.\<close>

definition settled :: "'t topology_manager \<Rightarrow> bool" where
  "settled m \<longleftrightarrow> tm_machine_id m \<noteq> [] \<and>
     (mt_machine_id (tm_topology m) = [] \<longrightarrow> tm_topology m = MachineTopology_default)"

lemma settled_new: "machine_id \<noteq> [] \<Longrightarrow> settled (manager_new machine_id r)"
  by (simp add: settled_def manager_new_def)

lemma default_machine_simps [simp]:
  "mt_revision (default_machine i t) = mt_revision t"
  "mt_nodes (default_machine i t) = mt_nodes t"
  "mt_outbounds (default_machine i t) = mt_outbounds t"
  "mt_route (default_machine i t) = mt_route t"
  "mt_dns (default_machine i t) = mt_dns t"
  "mt_snapshot (default_machine i t) = mt_snapshot t"
  "i \<noteq> [] \<Longrightarrow> mt_machine_id (default_machine i t) \<noteq> []"
  by (simp_all add: default_machine_def)

lemma set_snapshot_revision_simps [simp]:
  "mt_machine_id (set_snapshot_revision v t) = mt_machine_id t"
  "mt_revision (set_snapshot_revision v t) = mt_revision t"
  "mt_nodes (set_snapshot_revision v t) = mt_nodes t"
  "mt_outbounds (set_snapshot_revision v t) = mt_outbounds t"
  "mt_route (set_snapshot_revision v t) = mt_route t"
  "mt_dns (set_snapshot_revision v t) = mt_dns t"
  by (simp_all add: set_snapshot_revision_def)

lemma advance_revision_simps [simp]:
  "mt_machine_id (advance_revision v t) = mt_machine_id t"
  "mt_revision (advance_revision v t) = max v (mt_revision t)"
  "mt_nodes (advance_revision v t) = mt_nodes t"
  "mt_outbounds (advance_revision v t) = mt_outbounds t"
  "mt_route (advance_revision v t) = mt_route t"
  "mt_dns (advance_revision v t) = mt_dns t"
  by (auto simp: advance_revision_def max_def)

lemma replace_node_users_simps [simp]:
  "mt_machine_id (replace_node_users t n us) = mt_machine_id t"
  "mt_revision (replace_node_users t n us) = mt_revision t"
  "mt_nodes (replace_node_users t n us) = mt_nodes t"
  "mt_outbounds (replace_node_users t n us) = mt_outbounds t"
  "mt_route (replace_node_users t n us) = mt_route t"
  "mt_dns (replace_node_users t n us) = mt_dns t"
  by (simp_all add: replace_node_users_def split: option.splits)

lemma position_Some: "position p xs = Some i \<Longrightarrow> i < length xs \<and> p (xs ! i) \<and> (\<forall>j < i. \<not> p (xs ! j))"
proof (induction xs arbitrary: i)
  case (Cons x xs)
  then show ?case by (cases i) (auto simp: less_Suc_eq_0_disj split: if_splits)
qed simp

lemma refresh_checks_node:
  assumes "refresh_checks m request = Inr (i, changes)"
  shows "admitted m" "position (\<lambda>node. ni_node_id node = urr_node_id request) (mt_nodes (tm_topology m)) = Some i"
    "compare_node_users (ni_users (mt_nodes (tm_topology m) ! i)) (urr_users request) = Inr changes"
  using assms by (auto simp: refresh_checks_def result_simps guard_iffs Let_def split: if_splits)

lemma mutated_revision:
  "delta_candidate m d = Inr t \<Longrightarrow> mt_revision t = td_target_revision d"
  "user_candidate m u = Inr t \<Longrightarrow> mt_revision t = um_revision u"
  "mt_revision (route_candidate m p) = rp_revision p"
  "mt_revision (refresh_candidate m request i) =
     max (target (urr_revision request)) (mt_revision (tm_topology m))"
  by (auto simp: delta_candidate_def user_candidate_def route_candidate_def refresh_candidate_def
      Let_def result_simps)

lemma proposes_settled:
  assumes "proposes m c t" and settled: "settled m"
  shows "mt_machine_id t \<noteq> [] \<and> mt_revision (tm_topology m) \<le> mt_revision t"
  using assms(1)
proof cases
  case (advance request i changes)
  from refresh_checks_node(2) [OF advance(3)] have "mt_nodes (tm_topology m) \<noteq> []" by auto
  with settled have "mt_machine_id (tm_topology m) \<noteq> []"
    by (auto simp: settled_def MachineTopology_default_def)
  with advance show ?thesis by simp
qed (use settled in \<open>auto simp: settled_def mutated_revision MachineTopology_default_def
       from_snapshot_def Let_def\<close>)

lemma command_fence:
  assumes "settled m" and "run_command rt sha256 m c = (m', ok)"
  shows "settled m' \<and> mt_revision (tm_topology m) \<le> mt_revision (tm_topology m')"
  using run_command_refines [of m c rt sha256] proposes_settled [of m c] assms
  by (auto simp: refines_def unpublished_def published_def lifecycle_kept_def settled_def)

lemma history_fence:
  assumes "history rt sha256 m0 cs m" and "settled m0"
  shows "settled m \<and> mt_revision (tm_topology m0) \<le> mt_revision (tm_topology m)"
  using assms
proof induction
  case (step cs m c m' ok)
  with command_fence [of m rt sha256 c m' ok] show ?case by (meson order_trans)
qed simp

text \<open>The generation counts publications modulo \<open>2 ^ 64\<close>.\<close>

lemma history_generation:
  assumes "history rt sha256 m0 cs m"
  shows "\<exists>k \<le> length cs. tm_generation m = tm_generation m0 + of_nat k \<and>
    (k = 0 \<longrightarrow> tm_topology m = tm_topology m0)"
  using assms
proof induction
  case (step cs m c m' ok)
  then obtain k where k: "k \<le> length cs" "tm_generation m = tm_generation m0 + of_nat k"
    "k = 0 \<longrightarrow> tm_topology m = tm_topology m0" by blast
  from run_command_refines [of m c rt sha256] step.hyps(2)
  consider "unpublished m m'" | t where "published t m m'" by (auto simp: refines_def)
  then show ?case
  proof cases
    case 1
    with k show ?thesis by (intro exI [of _ k]) (simp add: unpublished_def)
  next
    case 2
    with k show ?thesis by (intro exI [of _ "Suc k"]) (simp add: published_def)
  qed
qed auto

lemma generation_fence:
  assumes "history rt sha256 m0 cs m" and "length cs < 2 ^ 64" and "tm_generation m = tm_generation m0"
  shows "tm_topology m = tm_topology m0"
proof -
  from history_generation [OF assms(1)] obtain k where k: "k \<le> length cs"
    "tm_generation m = tm_generation m0 + of_nat k" "k = 0 \<longrightarrow> tm_topology m = tm_topology m0" by blast
  with assms(3) have "unat (of_nat k :: u64) = 0" by simp
  moreover have "unat (of_nat k :: u64) = k"
    using k(1) assms(2) by (simp add: unat_of_nat)
  ultimately have "k = 0" by simp
  with k show ?thesis by simp
qed

section \<open>Agreement with the runtime\<close>

lemma payload_advance [simp]: "payload (advance_revision v t) = payload t"
  by (simp add: payload_def advance_revision_def set_snapshot_revision_def option.map_comp comp_def)

definition faithful :: "('t \<Rightarrow> MachineTopology) \<Rightarrow> 't topology_manager \<Rightarrow> bool" where
  "faithful active m \<longleftrightarrow> payload (tm_topology m) = payload (active (tm_runtime m))"

text \<open>A step tracks the runtime when the two move together or the payload does not move.\<close>

definition tracks :: "('t \<Rightarrow> MachineTopology) \<Rightarrow> 't topology_manager \<Rightarrow> 't topology_manager \<Rightarrow> bool" where
  "tracks active m m' \<longleftrightarrow>
     active (tm_runtime m') = tm_topology m' \<or>
     active (tm_runtime m') = active (tm_runtime m) \<and> payload (tm_topology m') = payload (tm_topology m)"

lemma tracks_faithful: "tracks active m m' \<Longrightarrow> faithful active m \<Longrightarrow> faithful active m'"
  by (auto simp: tracks_def faithful_def)

lemma tracks_refl [simp]: "tracks active m m"
  by (simp add: tracks_def)

context topology_runtime_contract
begin

lemma close_connections_active [simp]:
  "active (tm_runtime (close_connections rt pairs m)) = active (tm_runtime m)"
proof (induction pairs arbitrary: m)
  case Nil
  then show ?case by (simp add: close_connections_def)
next
  case (Cons p pairs)
  obtain n u where p: "p = (n, u)" by (cases p)
  from Cons [of "m\<lparr> tm_runtime := fst (trt_close_user_connections rt (tm_runtime m) n u) \<rparr>"]
  show ?case by (simp add: close_connections_def p close_users)
qed

lemma close_explicitly_active [simp]:
  "active (tm_runtime (close_explicitly_requested_users rt us m)) = active (tm_runtime m)"
proof (induction us arbitrary: m)
  case Nil
  then show ?case by (simp add: close_explicitly_requested_users_def)
next
  case (Cons u us)
  then show ?case by (simp add: close_explicitly_Cons split: option.splits)
qed

lemma publish_active [simp]:
  "active (tm_runtime (publish_and_close_stale_users rt t m)) = active (tm_runtime m)"
  by (simp add: publish_and_close_stale_users_def publish_def)

lemma publish_topology: "tm_topology (publish_and_close_stale_users rt t (m\<lparr> tm_runtime := r \<rparr>)) = t"
  using publish_and_close_published [of t m rt r] by (simp add: published_def)

lemma tm_apply_tracks:
  assumes "tm_apply rt m t = (m', r)"
  shows "tracks active m m'"
proof -
  let ?t = "default_machine (tm_machine_id m) t"
  obtain r0 res where app: "trt_apply rt (tm_runtime m) ?t = (r0, res)" by fastforce
  show ?thesis
  proof (cases res)
    case (Inl e)
    with app assms have "m' = m\<lparr> tm_runtime := r0 \<rparr>" by (simp add: tm_apply_def Let_def)
    with apply_rejects [OF app [unfolded Inl]] show ?thesis by (simp add: tracks_def)
  next
    case (Inr u)
    with app assms have "m' = publish_and_close_stale_users rt ?t (m\<lparr> tm_runtime := r0 \<rparr>)"
      by (auto simp: tm_apply_def Let_def)
    with apply_accepts [OF app [unfolded Inr]] show ?thesis by (simp add: tracks_def publish_topology)
  qed
qed

lemma with_candidate_tracks: "tracks active m (fst (with_candidate rt m checked))"
proof (cases checked)
  case (Inr t)
  obtain m' r where app: "tm_apply rt m t = (m', r)" by fastforce
  with tm_apply_tracks [OF app] Inr show ?thesis by (simp add: with_candidate_def)
qed (simp add: with_candidate_def)

lemma apply_then_kick_tracks:
  "tracks active m (fst (case tm_apply rt m t of
      (m1, Inl error) \<Rightarrow> (m1, Inl error)
    | (m1, Inr message) \<Rightarrow> (close_explicitly_requested_users rt us m1, Inr message)))"
proof -
  obtain m1 r where app: "tm_apply rt m t = (m1, r)" by fastforce
  have "tm_topology (close_explicitly_requested_users rt us m1) = tm_topology m1"
    using close_explicitly_unpublished [of m1 rt us] by (simp add: unpublished_def)
  with tm_apply_tracks [OF app] app show ?thesis by (cases r) (auto simp: tracks_def)
qed

lemma mutation_commands_track:
  "tracks active m (fst (apply_delta rt m d))"
  "tracks active m (fst (tm_apply_user_mutation rt m u base))"
proof -
  show "tracks active m (fst (apply_delta rt m d))"
    unfolding apply_delta_def by (simp add: apply_then_kick_tracks split: sum.split prod.split)
  show "tracks active m (fst (tm_apply_user_mutation rt m u base))"
    unfolding tm_apply_user_mutation_def
    by (simp add: apply_then_kick_tracks split: sum.split prod.split)
qed

lemma refresh_tracks: "tracks active m (fst (refresh_owned rt m request))"
proof (cases "refresh_checks m request")
  case (Inr x)
  obtain i changes where x: "x = (i, changes)" by (cases x)
  obtain m1 r where app: "tm_apply rt m (refresh_candidate m request i) = (m1, r)" by fastforce
  show ?thesis
  proof (cases "unchanged_users changes")
    case True
    with Inr x show ?thesis by (simp add: refresh_owned_def tracks_def Let_def)
  next
    case False
    with Inr x app tm_apply_tracks [OF app] show ?thesis
      by (cases r) (simp_all add: refresh_owned_def)
  qed
qed (simp add: refresh_owned_def)

lemma reload_candidate_tracks: "tracks active m (fst (reload_candidate rt sha256 m baseline reporter t))"
proof (cases "reload_checks m baseline t")
  case (Inr u)
  obtain r1 p where prep: "trt_prepare_reload rt (tm_runtime m) t = (r1, p)" by fastforce
  obtain r2 q where conf: "trt_configure_reload rt r1 t = (r2, q)" by fastforce
  have same: "active r1 = active (tm_runtime m)" "active r2 = active (tm_runtime m)"
    using prepare [of "tm_runtime m" t] configure [of r1 t] prep conf by simp_all
  have reloaded: "trt_reload_prepared rt r2 t c = (r3, Inr status) \<Longrightarrow> rls_running status \<and> active r3 = t"
    "trt_reload_prepared rt r2 t c = (r3, Inl e) \<Longrightarrow> active r3 = active (tm_runtime m)" for c r3 e status
    using reload_accepts reload_rejects same by metis+
  then show ?thesis
    using Inr prep conf same
    by (auto simp: reload_candidate_def reload_publish_def tracks_def publish_topology Let_def
        split: sum.split prod.split)
qed (simp add: reload_candidate_def)

lemma lifecycle_tracks:
  "faithful active m \<Longrightarrow> faithful active (fst (tm_reconcile_current rt m))"
  "tracks active m (fst (tm_close rt m))" "tracks active m (stop_operations rt m)"
proof -
  assume "faithful active m"
  with reconcile [of "tm_runtime m" "tm_topology m"]
  show "faithful active (fst (tm_reconcile_current rt m))"
    by (auto simp: tm_reconcile_current_def faithful_def Let_def split: sum.split prod.splits)
next
  show "tracks active m (fst (tm_close rt m))"
    using close_keeps [of "trt_begin_close rt (tm_runtime m)"]
    by (auto simp: tm_close_def stop_operations_def tracks_def begin_close Let_def
        split: option.split prod.splits)
  show "tracks active m (stop_operations rt m)"
    by (simp add: stop_operations_def tracks_def begin_close)
qed

lemma command_faithful:
  assumes "faithful active m"
  shows "faithful active (fst (run_command rt sha256 m c))"
proof (cases c)
  case (FinishReload b rep f)
  with reload_candidate_tracks have "tracks active m (fst (reload_finish rt sha256 m b rep f))"
    by (simp add: reload_finish_def split: fetch_outcome.split)
  with FinishReload assms show ?thesis by (auto intro: tracks_faithful split: prod.splits)
next
  case (BindSession b)
  with assms show ?thesis by (simp add: with_operation_cancellation_def faithful_def)
qed (use assms in \<open>auto simp: outcome_def lifecycle_tracks
       apply_initial_def apply_authoritative_if_unchanged_def apply_snapshot_def apply_route_patch_def
       intro: tracks_faithful with_candidate_tracks mutation_commands_track refresh_tracks
         lifecycle_tracks(2,3)\<close>)

lemma history_faithful:
  assumes "history rt sha256 m0 cs m" and "faithful active m0"
  shows "faithful active m"
  using assms
proof induction
  case (step cs m c m' ok)
  with command_faithful [of m sha256 c] show ?case by simp
qed

end

section \<open>The retained snapshot\<close>

text \<open>The wire snapshot kept for the digest describes the decoded topology; a snapshot that names no
  machine stands for the agent's own.\<close>

definition in_step :: "string \<Rightarrow> MachineTopology \<Rightarrow> bool" where
  "in_step machine_id t \<longleftrightarrow> (case mt_snapshot t of
     None \<Rightarrow> True
   | Some s \<Rightarrow>
       mt_machine_id t = (if ts_machine_id s = [] then machine_id else ts_machine_id s) \<and>
       map NodeInstance_from (ts_nodes s) = mt_nodes t \<and>
       map Outbound_from (ts_outbounds s) = mt_outbounds t \<and>
       map_option Route_from (ts_route s) = mt_route t \<and>
       map_option Dns_from (ts_dns s) = mt_dns t \<and>
       ts_revision s = mt_revision t)"

text \<open>A user as the wire can carry it: the panel's users are decoded into this form.\<close>

definition normal_user :: "UserCredential \<Rightarrow> bool" where
  "normal_user u \<longleftrightarrow> uc_status u \<in> {[], ''disabled''}"

lemma normal_user_decode [simp]: "normal_user (UserCredential_from u)"
  by (simp add: normal_user_def UserCredential_from_def)

lemma normal_user_roundtrip: "normal_user u \<Longrightarrow> UserCredential_from (pb_UserCredential_from u) = u"
  by (cases u) (auto simp: normal_user_def UserCredential_from_def pb_UserCredential_from_def
      user_status_def)

lemma map_update_first:
  assumes "\<And>x. q (f x) = p x" and "\<And>x. p x \<Longrightarrow> f (g x) = h (f x)"
  shows "map f (update_first p g xs) = update_first q h (map f xs)"
  using assms by (induction xs) auto

lemma map_upsert_first:
  assumes "\<And>x. q (f x) = p x"
  shows "map f (upsert_first p new xs) = upsert_first q (f new) (map f xs)"
  using map_update_first [of q f p "\<lambda>_. new" "\<lambda>_. f new" xs] assms
  by (auto simp: upsert_first_def)

lemma map_filter_transfer:
  assumes "\<And>x. q (f x) = p x"
  shows "map f (filter p xs) = filter q (map f xs)"
  using assms by (induction xs) auto

lemma position_update_first:
  "position p xs = Some i \<Longrightarrow> xs[i := f (xs ! i)] = update_first p f xs"
proof (induction xs arbitrary: i)
  case (Cons x xs)
  then show ?case by (cases i) (auto split: if_splits)
qed simp

lemma NodeInstance_from_id [simp]: "ni_node_id (NodeInstance_from n) = nt_node_id n"
  by (simp add: NodeInstance_from_def)

lemma NodeInstance_from_set_id [simp]:
  "NodeInstance_from (n\<lparr> nt_node_id := i \<rparr>) = (NodeInstance_from n)\<lparr> ni_node_id := i \<rparr>"
  "NodeInstance_from pb_NodeTopology_default = NodeInstance_default"
  "ni_node_id NodeInstance_default = []"
  by (simp_all add: NodeInstance_from_def pb_NodeTopology_default_def NodeInstance_default_def)

lemma NodeInstance_from_set_users [simp]:
  "NodeInstance_from (n\<lparr> nt_users := us \<rparr>) =
     (NodeInstance_from n)\<lparr> ni_users := map UserCredential_from us \<rparr>"
  by (simp add: NodeInstance_from_def)

lemma map_mutate_users:
  "map UserCredential_from (mutate_pb_users op u us) = mutate_users op u (map UserCredential_from us)"
proof -
  have "uc_user_id (UserCredential_from v) = puc_user_id v"
    "uc_status (UserCredential_from v) = ''disabled'' \<longleftrightarrow> user_status (puc_status v) = StDisabled" for v
    by (simp_all add: UserCredential_from_def)
  then show ?thesis
    by (simp add: mutate_pb_users_def mutate_users_def filter_map comp_def
        map_upsert_first [where q = "\<lambda>c. uc_user_id c = puc_user_id u"])
qed

lemma node_mutation_in_step:
  assumes "in_step d t"
  shows "in_step d (apply_node_mutation_to_snapshot (apply_node_mutation t mutation) mutation)"
proof (cases "mt_snapshot t")
  case None
  then show ?thesis
    by (simp add: in_step_def apply_node_mutation_to_snapshot_def apply_node_mutation_def Let_def)
next
  case (Some s)
  with assms show ?thesis
    by (auto simp: in_step_def apply_node_mutation_to_snapshot_def apply_node_mutation_def Let_def
        map_filter_transfer [where q = "\<lambda>n. ni_node_id n \<noteq> mutation_node_id mutation"]
        map_upsert_first [where q = "\<lambda>n. ni_node_id n = mutation_node_id mutation"]
        split: option.splits)
qed

lemma user_mutation_in_step:
  assumes "in_step d t" and "apply_user_mutation t mutation = Inr t'"
  shows "in_step d (apply_user_mutation_to_snapshot t' mutation)"
proof (cases "mt_snapshot t")
  case None
  with assms(2) show ?thesis
    by (auto simp: in_step_def apply_user_mutation_to_snapshot_def apply_user_mutation_def
        split: option.splits if_splits)
next
  case (Some s)
  with assms show ?thesis
    by (auto simp: in_step_def apply_user_mutation_to_snapshot_def apply_user_mutation_def map_mutate_users
        map_update_first [where q = "\<lambda>n. ni_node_id n = um_node_id mutation" and
          h = "\<lambda>n. n\<lparr> ni_users := mutate_users (mutation_operation (um_operation mutation)) user
                 (ni_users n) \<rparr>" for user]
        NodeInstance_from_def split: option.splits if_splits)
qed

lemma in_step_default [simp]: "in_step d MachineTopology_default"
  by (simp add: in_step_def MachineTopology_default_def)

lemma in_step_default_machine [simp]: "in_step d t \<Longrightarrow> in_step d (default_machine d t)"
  by (auto simp: in_step_def default_machine_def split: option.splits if_splits)

lemma in_step_set_revision [simp]:
  "in_step d t \<Longrightarrow> in_step d (set_snapshot_revision v (t\<lparr> mt_revision := v \<rparr>))"
  by (simp add: in_step_def set_snapshot_revision_def split: option.splits)

lemma in_step_advance [simp]: "in_step d t \<Longrightarrow> in_step d (advance_revision v t)"
  by (simp add: advance_revision_def)

lemma in_step_from_snapshot [simp]: "in_step d (from_snapshot d (Some s))"
  by (simp add: in_step_def from_snapshot_def Let_def)

lemma node_mutations_in_step: "in_step d t \<Longrightarrow> in_step d (apply_node_mutations ms t)"
  by (induction ms t rule: apply_node_mutations.induct) (simp_all add: node_mutation_in_step)

lemma user_mutations_in_step: "in_step d t \<Longrightarrow> apply_user_mutations us t = Inr t' \<Longrightarrow> in_step d t'"
  by (induction us arbitrary: t) (auto simp: result_simps dest: user_mutation_in_step)

lemma route_candidate_in_step:
  "in_step (tm_machine_id m) (tm_topology m) \<Longrightarrow> in_step (tm_machine_id m) (route_candidate m p)"
  by (auto simp: in_step_def route_candidate_def apply_route_patch_to_snapshot_def
      default_machine_def [of _ "tm_topology m"] Let_def split: option.splits if_splits)

lemma refresh_candidate_in_step:
  assumes "in_step (tm_machine_id m) (tm_topology m)" and "\<forall>u \<in> set (urr_users request). normal_user u"
    and "position (\<lambda>node. ni_node_id node = urr_node_id request) (mt_nodes (tm_topology m)) = Some i"
  shows "in_step (tm_machine_id m) (refresh_candidate m request i)"
proof -
  let ?t = "advance_revision (target (urr_revision request)) (tm_topology m)"
  let ?p = "\<lambda>node. ni_node_id node = urr_node_id request"
  let ?f = "\<lambda>node. node\<lparr> ni_users := urr_users request \<rparr>"
  from assms(2) have users: "map (UserCredential_from \<circ> pb_UserCredential_from) (urr_users request) =
      urr_users request"
    by (simp add: map_idI normal_user_roundtrip)
  have "(mt_nodes ?t)[i := ?f (mt_nodes ?t ! i)] = update_first ?p ?f (mt_nodes ?t)"
    using position_update_first [OF assms(3)] by simp
  then have cand: "refresh_candidate m request i =
      (replace_node_users ?t (urr_node_id request) (urr_users request))
        \<lparr> mt_nodes := update_first ?p ?f (mt_nodes ?t) \<rparr>"
    by (simp add: refresh_candidate_def Let_def)
  have "in_step (tm_machine_id m) ?t" using assms(1) by simp
  then show ?thesis
    by (auto simp: cand in_step_def replace_node_users_def users map_update_first [where q = ?p and h = ?f]
        split: option.splits)
qed

text \<open>What the callers of the manager hand over: topologies decoded from the wire and panel users.\<close>

fun decoded_input :: "string \<Rightarrow> command \<Rightarrow> bool" where
  "decoded_input d (ApplyInitial t) = in_step d t"
| "decoded_input d (ApplyAuthoritative t _) = in_step d t"
| "decoded_input d (FinishReload _ _ (Fetched t)) = in_step d t"
| "decoded_input d (RefreshUsers request) = list_all normal_user (urr_users request)"
| "decoded_input _ _ = True"

lemma proposes_in_step:
  assumes "proposes m c t" and "decoded_input (tm_machine_id m) c" and "in_step (tm_machine_id m) (tm_topology m)"
  shows "in_step (tm_machine_id m) t"
  using assms(1)
proof cases
  case (delta d t')
  then show ?thesis
    using in_step_default_machine [OF assms(3), THEN node_mutations_in_step, THEN user_mutations_in_step]
    by (auto simp: delta_candidate_def Let_def result_simps)
next
  case (user base u t')
  then show ?thesis
    using user_mutation_in_step [OF in_step_default_machine [OF assms(3)]]
    by (auto simp: user_candidate_def result_simps)
next
  case (refresh request i changes)
  with refresh_candidate_in_step [OF assms(3) _ refresh_checks_node(2) [OF refresh(3)]] assms(2)
  show ?thesis by (simp add: list_all_iff)
qed (use assms in \<open>simp_all add: route_candidate_in_step\<close>)

lemma history_in_step:
  assumes "history rt sha256 m0 cs m" and "in_step (tm_machine_id m0) (tm_topology m0)"
    and "list_all (decoded_input (tm_machine_id m0)) cs"
  shows "tm_machine_id m = tm_machine_id m0 \<and> in_step (tm_machine_id m0) (tm_topology m)"
  using assms
proof induction
  case (step cs m c m' ok)
  then have "tm_machine_id m = tm_machine_id m0" "in_step (tm_machine_id m) (tm_topology m)"
    "decoded_input (tm_machine_id m) c" by simp_all
  with run_command_refines [of m c rt sha256] step.hyps(2) proposes_in_step [of m c] show ?case
    by (auto simp: refines_def unpublished_def published_def lifecycle_kept_def)
qed simp

section \<open>A stop beside a started operation\<close>

text \<open>
  A stop takes no operation lock, so it may fall into a command that is under way. Here a command
  is two steps: the admission that takes the lock and the rest of its body, which reads the
  cancellation flags no more. \<open>held\<close> is the command that holds the lock. The body's calls
  answer as those of an arbitrary runtime, since the \<open>begin_close\<close> of a stop may precede
  any of them. Each clone brings the cancellation of its own session. A close stops operations first
  and waits for the lock.
\<close>

fun takes_lock :: "command \<Rightarrow> bool" where
  "takes_lock (FinishReload _ _ (Fetched _)) = True"
| "takes_lock (FinishReload _ _ _) = False"
| "takes_lock (BindSession _) = False"
| "takes_lock StopOperations = False"
| "takes_lock CloseManager = False"
| "takes_lock _ = True"

definition under_way :: "'t topology_manager \<Rightarrow> 't topology_manager" where
  "under_way m = m\<lparr> tm_operations_cancelled := False, tm_session_cancelled := None \<rparr>"

datatype lock_event = Begin command | Refuse command | Complete command | Stop | Close

inductive lock_step :: "('t, 'c) topology_runtime \<Rightarrow> (bytes \<Rightarrow> bytes) \<Rightarrow>
    't topology_manager \<times> command option \<Rightarrow> lock_event \<Rightarrow> 't topology_manager \<times> command option \<Rightarrow> bool"
  for rt :: "('t, 'c) topology_runtime" and sha256 where
  begin_op: "takes_lock c \<Longrightarrow> begin_operation (m\<lparr> tm_session_cancelled := session \<rparr>) = Inr () \<Longrightarrow>
    lock_step rt sha256 (m, None) (Begin c) (m, Some c)"
| refuse_op: "takes_lock c \<Longrightarrow> begin_operation (m\<lparr> tm_session_cancelled := session \<rparr>) = Inl error \<Longrightarrow>
    lock_step rt sha256 (m, held) (Refuse c) (m, held)"
| complete_op: "run_command (answers :: ('t, 'c) topology_runtime) sha256 (under_way m) c = (m', ok) \<Longrightarrow>
    lock_step rt sha256 (m, Some c) (Complete c)
      (m'\<lparr> tm_operations_cancelled := tm_operations_cancelled m,
           tm_session_cancelled := tm_session_cancelled m \<rparr>, None)"
| stop_op: "lock_step rt sha256 (m, held) Stop (stop_operations rt m, held)"
| close_op: "tm_operations_cancelled m \<Longrightarrow>
    lock_step rt sha256 (m, None) Close (fst (tm_close rt m), None)"



lemma under_way_fields [simp]:
  "tm_topology (under_way m) = tm_topology m" "tm_generation (under_way m) = tm_generation m"
  "tm_machine_id (under_way m) = tm_machine_id m" "tm_close_result (under_way m) = tm_close_result m"
  by (simp_all add: under_way_def)






section \<open>Properties of the topology manager\<close>


text \<open>C32 (the revision never goes back): over every history of a manager with a machine name, of any
  commands with any runtime, the revision of the published topology never decreases.\<close>

theorem revision_never_decreases:
  assumes "machine_id \<noteq> []" and "history rt sha256 (manager_new machine_id runtime) cs m"
    and "history rt sha256 m later m'"
  shows "mt_revision (tm_topology m) \<le> mt_revision (tm_topology m')"
  using history_fence [OF assms(2) settled_new [OF assms(1)]] history_fence [OF assms(3)] by blast

abbreviation ex_rt :: "((unit port_manager, nat scripted, nat) adapter, nat) topology_runtime" where
  "ex_rt \<equiv> adapter_runtime ex_env (\<lambda>_. False)"

definition ex_manager :: "(unit port_manager, nat scripted, nat) adapter topology_manager" where
  "ex_manager = manager_new ''m'' (with_router \<lparr> sr_serving = None, sr_script = [] \<rparr> (with_backend ()))"

definition ex_manager1 :: "(unit port_manager, nat scripted, nat) adapter topology_manager" where
  "ex_manager1 = fst (run_command ex_rt id ex_manager (ApplyInitial ex_candidate))"

lemma ex_manager1_eq:
  "ex_manager1 = \<lparr> tm_machine_id = ''m'', tm_runtime =
     (with_router \<lparr> sr_serving = Some 2, sr_script = [] \<rparr> (with_backend ()))
       \<lparr> ad_active_topology := ex_candidate \<rparr>, tm_topology = ex_candidate, tm_generation = 1,
     tm_operations_cancelled = False, tm_session_cancelled = None, tm_close_result = None \<rparr>"
  "snd (run_command ex_rt id ex_manager (ApplyInitial ex_candidate))"
  by (simp_all add: ex_manager1_def ex_manager_def outcome_def apply_initial_def with_candidate_def
      manager_new_def begin_operation_def guard_authoritative_revision_def tm_apply_def
      default_machine_def adapter_runtime_def adapter_apply_def publish_and_close_stale_users_def
      publish_def close_connections_def stale_pairs_def stale_credential_topology_users_def
      bt_collect_def Let_def ex_adapter_eval)

lemma ex_run:
  "tm_topology ex_manager1 = ex_candidate" "tm_generation ex_manager1 = 1"
  "tm_machine_id ex_manager1 = ''m''"
  by (simp_all add: ex_manager1_eq)

lemma ex_history: "history ex_rt id ex_manager [ApplyInitial ex_candidate] ex_manager1"
proof -
  have "run_command ex_rt id ex_manager (ApplyInitial ex_candidate) = (ex_manager1, True)"
    using ex_manager1_eq(2) by (simp add: ex_manager1_def prod_eq_iff)
  from history.step [OF history.start this] show ?thesis by simp
qed

theorem revision_never_decreases_witness:
  "mt_revision (tm_topology ex_manager) \<le> mt_revision (tm_topology ex_manager1) \<and>
   mt_revision (tm_topology ex_manager) = 0 \<and> mt_revision (tm_topology ex_manager1) = 2"
proof -
  have "mt_revision (tm_topology ex_manager) \<le> mt_revision (tm_topology ex_manager1)"
    using revision_never_decreases
      [where machine_id = "''m''", OF _ history.start ex_history [unfolded ex_manager_def]]
    by (simp add: ex_manager_def)
  then show ?thesis
    by (simp add: ex_run ex_candidate_def ex_manager_def manager_new_def MachineTopology_default_def)
qed

text \<open>C30 (no lost update on an authoritative apply): when an apply fenced by a publication token
  succeeds, the topology it replaces is the one that was published when the token was taken,
  whatever fewer than \<open>2 ^ 64\<close> commands ran in between, and it publishes the fetched topology.\<close>

theorem authoritative_no_lost_update:
  assumes "history rt sha256 m0 cs m" and "length cs < 2 ^ 64"
    and "apply_authoritative_if_unchanged rt m topology (publication_token m0) = (m', Inr message)"
  shows "tm_topology m = tm_topology m0 \<and>
    tm_topology m' = default_machine (tm_machine_id m) topology \<and>
    publication_token m' = publication_token m0 + 1"
proof -
  let ?c = "ApplyAuthoritative topology (publication_token m0)"
  from assms(3) have run: "run_command rt sha256 m ?c = (m', True)" by (simp add: outcome_def)
  from assms(3) have gen: "tm_generation m = tm_generation m0"
    by (auto simp: apply_authoritative_if_unchanged_def with_candidate_def publication_token_def
        result_simps Let_def split: sum.splits if_splits)
  have "published (default_machine (tm_machine_id m) topology) m m'"
    using assms(3) tm_apply_published [of rt m topology m' "Inr message"]
    by (auto simp: apply_authoritative_if_unchanged_def with_candidate_def result_simps Let_def
        split: sum.splits if_splits)
  with generation_fence [OF assms(1,2) gen] gen show ?thesis
    by (simp add: published_def publication_token_def)
qed

definition ex_candidate3 :: MachineTopology where
  "ex_candidate3 = ex_candidate\<lparr> mt_revision := 3 \<rparr>"

lemma ex_authoritative:
  "\<not> isl (snd (apply_authoritative_if_unchanged ex_rt ex_manager1 ex_candidate3 1))"
  by (simp add: apply_authoritative_if_unchanged_def with_candidate_def begin_operation_def
      guard_authoritative_revision_def publication_token_def ex_manager1_eq ex_candidate3_def tm_apply_def
      default_machine_def adapter_runtime_def adapter_apply_def Let_def ex_adapter_eval)

theorem authoritative_no_lost_update_witness:
  "tm_topology (fst (apply_authoritative_if_unchanged ex_rt ex_manager1 ex_candidate3
     (publication_token ex_manager1))) = default_machine (tm_machine_id ex_manager1) ex_candidate3"
proof -
  obtain m' message where
    "apply_authoritative_if_unchanged ex_rt ex_manager1 ex_candidate3 (publication_token ex_manager1) =
       (m', Inr message)"
    using ex_authoritative by (metis publication_token_def ex_run(2) prod.exhaust_sel sum.collapse(2))
  with authoritative_no_lost_update [OF history.start _ this] show ?thesis by simp
qed

text \<open>C31 (no lost update on a forced reload): a reload takes its baseline before it fetches; when it
  finishes with success after fewer than \<open>2 ^ 64\<close> other commands, nothing was published in between,
  the fetched topology is published, and the result carries its revision and its number of users.
  A reload that does not succeed publishes nothing.\<close>

theorem reload_no_lost_update:
  assumes "reload_begin m0 reporter = Inr (baseline, reporter1)"
    and "history rt sha256 m0 cs m" and "length cs < 2 ^ 64"
    and "reload_finish rt sha256 m baseline reporter2 fetched = (m', reporter3, result)"
  shows "if trr_outcome result = Succeeded
    then \<exists>topology. fetched = Fetched topology \<and> tm_topology m = tm_topology m0 \<and>
      tm_topology m' = default_machine (tm_machine_id m) topology \<and>
      trr_topology_revision result = mt_revision topology \<and>
      trr_loaded_user_count result = topology_user_count topology
    else tm_topology m' = tm_topology m \<and> tm_generation m' = tm_generation m"
proof (cases fetched)
  case (Fetched topology)
  let ?t = "default_machine (tm_machine_id m) topology"
  from assms(4) Fetched have cand:
    "reload_candidate rt sha256 m baseline reporter2 ?t = (m', reporter3, result)"
    by (simp add: reload_finish_def)
  then show ?thesis
  proof (cases rule: reload_candidate_cases)
    case kept
    then show ?thesis by (simp add: unpublished_def)
  next
    case loaded
    from assms(1) have "baseline = tm_generation m0"
      by (auto simp: reload_begin_def publication_token_def split: sum.splits)
    with loaded(1) have "tm_generation m = tm_generation m0"
      by (auto simp: reload_checks_def publication_token_def result_simps split: if_splits)
    from generation_fence [OF assms(2,3) this] have "tm_topology m = tm_topology m0" .
    moreover from cand loaded(1,3) have
      "trr_topology_revision result = mt_revision ?t" "trr_loaded_user_count result = topology_user_count ?t"
      by (auto simp: reload_candidate_def reload_publish_def Let_def split: prod.splits sum.splits if_splits)
    ultimately show ?thesis
      using loaded(2,3) Fetched by (simp add: published_def topology_user_count_def)
  qed
qed (use assms(4) in \<open>auto simp: reload_finish_def\<close>)

lemma ex_reload:
  "trr_outcome (snd (snd (reload_finish ex_rt id ex_manager1 1 (reporter_new None)
     (Fetched ex_candidate3)))) = Succeeded"
  by (simp add: reload_finish_def reload_candidate_def reload_checks_def begin_operation_def
      publication_token_def guard_authoritative_revision_def ex_manager1_eq ex_candidate3_def
      default_machine_def adapter_runtime_def adapter_prepare_reload_def adapter_configure_reload_def
      adapter_reload_prepared_def adapter_reload_config_def reload_publish_def Let_def ex_adapter_eval)

theorem reload_no_lost_update_witness:
  "\<exists>topology. Fetched ex_candidate3 = Fetched topology \<and>
     tm_topology (fst (reload_finish ex_rt id ex_manager1 1 (reporter_new None)
       (Fetched ex_candidate3))) = default_machine (tm_machine_id ex_manager1) topology"
proof -
  obtain m' reporter3 result where fin:
    "reload_finish ex_rt id ex_manager1 1 (reporter_new None) (Fetched ex_candidate3) =
       (m', reporter3, result)"
    by (metis prod.exhaust)
  have "reload_begin ex_manager1 (reporter_new None) = Inr (1, report PullConfiguration (reporter_new None))"
    by (simp add: reload_begin_def ensure_operations_running_def ex_manager1_eq publication_token_def)
  from reload_no_lost_update [OF this history.start _ fin] ex_reload fin show ?thesis by simp
qed

text \<open>C20 (the published topology is the one that runs): over every history of a manager on a fresh
  adapter, whatever the port router, the runtime and the compiler do, the published topology and
  the topology the adapter holds as active are the same but for the revision.\<close>

theorem published_is_active:
  assumes "history (adapter_runtime env closing) sha256
      (manager_new machine_id (with_router runtime router)) cs m"
  shows "payload (tm_topology m) = payload (ad_active_topology (tm_runtime m))"
proof -
  have "faithful ad_active_topology (manager_new machine_id (with_router runtime router))"
    by (simp add: faithful_def manager_new_def with_router_def)
  from adapter_rt.history_faithful [OF assms this] show ?thesis by (simp add: faithful_def)
qed

theorem published_is_active_witness:
  "payload (tm_topology ex_manager1) = payload (ad_active_topology (tm_runtime ex_manager1)) \<and>
   mt_revision (tm_topology ex_manager1) = 2"
  using published_is_active [OF ex_history [unfolded ex_manager_def]]
  by (simp add: ex_run ex_candidate_def)

text \<open>C9 (the digest describes what is published): when the topologies handed to the manager carry a
  snapshot that describes them and refreshed users have a status the wire can carry, then over
  every history of the manager the snapshot retained for the digest, mutated beside the decoded
  topology by every command, still decodes to the published topology.\<close>

theorem snapshot_in_step:
  assumes "history rt sha256 (manager_new machine_id runtime) cs m"
    and "list_all (decoded_input machine_id) cs"
    and "mt_snapshot (tm_topology m) = Some s"
  shows "mt_nodes (tm_topology m) = map NodeInstance_from (ts_nodes s) \<and>
    mt_outbounds (tm_topology m) = map Outbound_from (ts_outbounds s) \<and>
    mt_route (tm_topology m) = map_option Route_from (ts_route s) \<and>
    mt_dns (tm_topology m) = map_option Dns_from (ts_dns s) \<and>
    mt_revision (tm_topology m) = ts_revision s \<and>
    mt_machine_id (tm_topology m) = (if ts_machine_id s = [] then machine_id else ts_machine_id s)"
proof -
  let ?m0 = "manager_new machine_id runtime"
  have "in_step (tm_machine_id ?m0) (tm_topology ?m0)" "tm_machine_id ?m0 = machine_id"
    by (simp_all add: manager_new_def)
  with history_in_step [OF assms(1)] assms(2,3) show ?thesis by (simp add: in_step_def)
qed

definition ex_wire :: pb_TopologySnapshot where
  "ex_wire = TopologySnapshot_default\<lparr> ts_machine_id := ''m'', ts_revision := 7 \<rparr>"

definition ex_manager7 :: "(unit port_manager, nat scripted, nat) adapter topology_manager" where
  "ex_manager7 = fst (run_command ex_rt id ex_manager (ApplySnapshot (Some ex_wire)))"

lemma ex_snapshot_run:
  "snd (run_command ex_rt id ex_manager (ApplySnapshot (Some ex_wire)))"
  "tm_topology ex_manager7 = from_snapshot ''m'' (Some ex_wire)"
  by (simp_all add: ex_manager7_def ex_manager_def outcome_def apply_snapshot_def with_candidate_def
      manager_new_def begin_operation_def guard_revision_def from_snapshot_def ex_wire_def
      TopologySnapshot_default_def tm_apply_def
      default_machine_def adapter_runtime_def adapter_apply_def publish_and_close_stale_users_def
      publish_def close_connections_def stale_pairs_def stale_credential_topology_users_def
      bt_collect_def Let_def ex_adapter_eval)

theorem snapshot_in_step_witness:
  "mt_machine_id (tm_topology ex_manager7) = ts_machine_id ex_wire \<and>
   mt_revision (tm_topology ex_manager7) = ts_revision ex_wire \<and>
   mt_nodes (tm_topology ex_manager7) = map NodeInstance_from (ts_nodes ex_wire)"
proof -
  have "run_command ex_rt id ex_manager (ApplySnapshot (Some ex_wire)) = (ex_manager7, True)"
    using ex_snapshot_run(1) by (simp add: ex_manager7_def prod_eq_iff)
  from history.step [OF history.start this]
  have "history ex_rt id ex_manager [ApplySnapshot (Some ex_wire)] ex_manager7" by simp
  from snapshot_in_step [OF this [unfolded ex_manager_def], of ex_wire] show ?thesis
    by (simp add: ex_snapshot_run from_snapshot_def ex_wire_def TopologySnapshot_default_def Let_def)
qed







end
