(* ===== verification/Net_Addr.thy ===== *)
theory Net_Addr
  imports Rust_Text
begin

text \<open>
  What the agent uses of the Rust standard library on address text: \<open>split_once\<close> and \<open>rsplit_once\<close>,
  \<open>u16::from_str\<close>, the validity check of \<open>String::from_utf8\<close>, and the parsers behind
  \<open>Ipv4Addr::from_str\<close> and \<open>Ipv6Addr::from_str\<close> (\<open>core::net::parser\<close>).
\<close>

section \<open>Splitting\<close>

fun split_once :: "string \<Rightarrow> string \<Rightarrow> (string \<times> string) option" where
  "split_once sep [] = (if sep = [] then Some ([], []) else None)"
| "split_once sep (c # cs) =
     (if take (length sep) (c # cs) = sep then Some ([], drop (length sep) (c # cs))
      else map_option (\<lambda>(a, b). (c # a, b)) (split_once sep cs))"

definition rsplit_once :: "char \<Rightarrow> string \<Rightarrow> (string \<times> string) option" where
  "rsplit_once c s =
     (if c \<in> set s then
        Some (rev (tl (dropWhile (\<lambda>x. x \<noteq> c) (rev s))), rev (takeWhile (\<lambda>x. x \<noteq> c) (rev s)))
      else None)"

definition contains_str :: "string \<Rightarrow> string \<Rightarrow> bool" where
  "contains_str needle s \<longleftrightarrow> split_once needle s \<noteq> None"

definition strip_suffix :: "string \<Rightarrow> string \<Rightarrow> string option" where
  "strip_suffix suf s =
     (if length suf \<le> length s \<and> drop (length s - length suf) s = suf
      then Some (take (length s - length suf) s) else None)"

lemma split_once_Some: "split_once sep s = Some (a, b) \<Longrightarrow> s = a @ sep @ b"
proof (induction s arbitrary: a)
  case (Cons c s)
  then show ?case
    by (auto split: if_splits) (metis append_take_drop_id length_Cons take_Suc_Cons drop_Suc_Cons)
qed (auto split: if_splits)

lemma rsplit_once_Some:
  assumes "rsplit_once c s = Some (a, b)"
  shows "s = a @ c # b \<and> c \<notin> set b"
proof -
  let ?p = "\<lambda>x. x \<noteq> c"
  from assms have mem: "c \<in> set s" and a: "a = rev (tl (dropWhile ?p (rev s)))"
    and b: "b = rev (takeWhile ?p (rev s))"
    by (auto simp: rsplit_once_def split: if_splits)
  from mem have ne: "dropWhile ?p (rev s) \<noteq> []" by (auto simp: dropWhile_eq_Nil_conv)
  with hd_dropWhile [of ?p "rev s"] have hd: "hd (dropWhile ?p (rev s)) = c" by blast
  have "rev s = takeWhile ?p (rev s) @ dropWhile ?p (rev s)" by simp
  also have "dropWhile ?p (rev s) = c # tl (dropWhile ?p (rev s))" using ne hd by (metis list.collapse)
  finally have "rev (rev s) = rev (takeWhile ?p (rev s) @ c # tl (dropWhile ?p (rev s)))" by simp
  then show ?thesis
    by (auto simp: a b dest: set_takeWhileD)
qed

section \<open>Numbers\<close>

definition parse_u16_str :: "string \<Rightarrow> u16 option" where
  "parse_u16_str s =
     (let digits = (case s of [] \<Rightarrow> [] | c # cs \<Rightarrow> if c = CHR ''+'' then cs else s) in
      if digits = [] \<or> \<not> list_all is_ascii_digit digits then None else parse_u16 digits)"

definition radix_value :: "nat \<Rightarrow> char \<Rightarrow> nat option" where
  "radix_value radix c =
     (let b = byte_of c;
          v = (if 48 \<le> b \<and> b \<le> 57 then Some (b - 48)
               else if 97 \<le> b \<and> b \<le> 122 then Some (b - 87)
               else if 65 \<le> b \<and> b \<le> 90 then Some (b - 55) else None)
      in case v of None \<Rightarrow> None | Some d \<Rightarrow> if d < radix then Some d else None)"

definition read_number :: "nat \<Rightarrow> nat \<Rightarrow> bool \<Rightarrow> nat \<Rightarrow> string \<Rightarrow> (nat \<times> string) option" where
  "read_number radix max_digits allow_zero_prefix bound s =
     (let ds = takeWhile (\<lambda>c. radix_value radix c \<noteq> None) s;
          v = foldl (\<lambda>acc c. acc * radix + the (radix_value radix c)) 0 ds
      in if ds = [] \<or> length ds > max_digits \<or> v \<ge> bound \<or>
            (\<not> allow_zero_prefix \<and> hd ds = CHR ''0'' \<and> length ds > 1)
         then None else Some (v, drop (length ds) s))"

definition read_char :: "char \<Rightarrow> string \<Rightarrow> string option" where
  "read_char c s = (case s of [] \<Rightarrow> None | x # xs \<Rightarrow> if x = c then Some xs else None)"

definition read_separator :: "char \<Rightarrow> nat \<Rightarrow> (string \<Rightarrow> ('a \<times> string) option) \<Rightarrow> string \<Rightarrow>
    ('a \<times> string) option" where
  "read_separator sep i inner s =
     (if i > 0 then Option.bind (read_char sep s) inner else inner s)"

section \<open>Addresses\<close>

fun read_octets :: "nat \<Rightarrow> nat \<Rightarrow> string \<Rightarrow> (nat list \<times> string) option" where
  "read_octets 0 i s = Some ([], s)"
| "read_octets (Suc n) i s =
     Option.bind (read_separator CHR ''.'' i (read_number 10 3 False 256) s) (\<lambda>(v, s').
       map_option (\<lambda>(vs, r). (v # vs, r)) (read_octets n (Suc i) s'))"

definition read_ipv4_addr :: "string \<Rightarrow> (nat list \<times> string) option" where
  "read_ipv4_addr s = read_octets 4 0 s"

text \<open>The groups read, whether the last two came from an embedded IPv4 address, and the rest.\<close>

fun read_groups :: "nat \<Rightarrow> nat \<Rightarrow> string \<Rightarrow> nat list \<times> bool \<times> string" where
  "read_groups 0 i s = ([], False, s)"
| "read_groups (Suc n) i s =
     (case (if n > 0 then read_separator CHR '':'' i read_ipv4_addr s else None) of
        Some (v4, s') \<Rightarrow>
          ([v4 ! 0 * 256 + v4 ! 1, v4 ! 2 * 256 + v4 ! 3], True, s')
      | None \<Rightarrow>
          (case read_separator CHR '':'' i (read_number 16 4 True 65536) s of
             Some (g, s') \<Rightarrow> (case read_groups n (Suc i) s' of (gs, v4, r) \<Rightarrow> (g # gs, v4, r))
           | None \<Rightarrow> ([], False, s)))"

definition read_ipv6_addr :: "string \<Rightarrow> (nat list \<times> string) option" where
  "read_ipv6_addr s =
     (case read_groups 8 0 s of (head, head_ipv4, s1) \<Rightarrow>
      if length head = 8 then Some (head, s1)
      else if head_ipv4 then None
      else Option.bind (read_char CHR '':'' s1) (\<lambda>s2.
           Option.bind (read_char CHR '':'' s2) (\<lambda>s3.
           case read_groups (8 - (length head + 1)) 0 s3 of (tail, _, s4) \<Rightarrow>
             Some (head @ replicate (8 - length head - length tail) 0 @ tail, s4))))"

definition parse_ipv4 :: "string \<Rightarrow> nat list option" where
  "parse_ipv4 s = (case read_ipv4_addr s of Some (v, []) \<Rightarrow> Some v | _ \<Rightarrow> None)"

definition parse_ipv6 :: "string \<Rightarrow> nat list option" where
  "parse_ipv6 s = (case read_ipv6_addr s of Some (v, []) \<Rightarrow> Some v | _ \<Rightarrow> None)"

lemma read_number_bound: "read_number radix n z bound s = Some (v, r) \<Longrightarrow> v < bound"
  by (auto simp: read_number_def Let_def not_le split: if_splits)

lemma read_octets_wf:
  "read_octets n i s = Some (vs, r) \<Longrightarrow> length vs = n \<and> (\<forall>v \<in> set vs. v < 256)"
proof (induction n arbitrary: i s vs r)
  case (Suc n)
  then obtain v s' vs' where
    num: "read_separator CHR ''.'' i (read_number 10 3 False 256) s = Some (v, s')"
    and rest: "read_octets n (Suc i) s' = Some (vs', r)" and vs: "vs = v # vs'"
    by (auto simp: bind_eq_Some_conv)
  from num have "v < 256"
    by (auto simp: read_separator_def bind_eq_Some_conv dest: read_number_bound split: if_splits)
  with Suc.IH [OF rest] vs show ?case by auto
qed simp

lemma read_groups_wf:
  "read_groups n i s = (gs, v4, r) \<Longrightarrow> length gs \<le> n \<and> (\<forall>g \<in> set gs. g < 65536)"
proof (induction n arbitrary: i s gs v4 r)
  case (Suc n)
  let ?v4 = "if n > 0 then read_separator CHR '':'' i read_ipv4_addr s else None"
  let ?g = "read_separator CHR '':'' i (read_number 16 4 True 65536) s"
  show ?case
  proof (cases ?v4)
    case (Some x)
    obtain vs s' where x: "x = (vs, s')" by (cases x)
    from Some x have n: "n > 0" and "read_octets 4 0 s = Some (vs, s') \<or>
        (\<exists>s0. read_octets 4 0 s0 = Some (vs, s'))"
      by (auto simp: read_separator_def read_ipv4_addr_def bind_eq_Some_conv split: if_splits)
    then have "length vs = 4" "\<forall>v \<in> set vs. v < 256" using read_octets_wf by blast+
    then have "vs ! j < 256" if "j < 4" for j using that by simp
    from this [of 0] this [of 1] this [of 2] this [of 3] Some x n Suc.prems show ?thesis by auto
  next
    case None
    show ?thesis
    proof (cases ?g)
      case (Some y)
      obtain g s' where y: "y = (g, s')" by (cases y)
      from Some y have "g < 65536"
        by (auto simp: read_separator_def bind_eq_Some_conv dest: read_number_bound split: if_splits)
      moreover obtain gs' v4' r' where rec: "read_groups n (Suc i) s' = (gs', v4', r')"
        by (metis prod_cases3)
      ultimately show ?thesis using Suc.IH [OF rec] Suc.prems None Some y by auto
    next
      case None': None
      with None Suc.prems show ?thesis by simp
    qed
  qed
qed simp

lemma parse_ipv6_wf:
  assumes "parse_ipv6 s = Some v"
  shows "length v = 8 \<and> (\<forall>g \<in> set v. g < 65536)"
proof -
  obtain head h4 s1 where head: "read_groups 8 0 s = (head, h4, s1)" by (metis prod_cases3)
  note hwf = read_groups_wf [OF head]
  show ?thesis
  proof (cases "length head = 8")
    case True
    with assms head hwf show ?thesis
      by (auto simp: parse_ipv6_def read_ipv6_addr_def split: list.splits)
  next
    case False
    from assms head False obtain s3 where
      *: "(case read_groups (8 - (length head + 1)) 0 s3 of (tail, _, s4) \<Rightarrow>
          Some (head @ replicate (8 - length head - length tail) 0 @ tail, s4)) = Some (v, [])"
      by (auto simp: parse_ipv6_def read_ipv6_addr_def bind_eq_Some_conv
          split: option.splits list.splits if_splits)
    obtain tail t4 s4 where tail: "read_groups (8 - (length head + 1)) 0 s3 = (tail, t4, s4)"
      by (metis prod_cases3)
    with * have "v = head @ replicate (8 - length head - length tail) 0 @ tail" by simp
    with read_groups_wf [OF tail] hwf False show ?thesis by auto
  qed
qed

section \<open>UTF-8\<close>

definition continuation :: "char \<Rightarrow> bool" where
  "continuation c \<longleftrightarrow> 0x80 \<le> byte_of c \<and> byte_of c \<le> 0xBF"

text \<open>The length of the well-formed sequence at the front, as in Unicode's table of UTF-8 byte
  sequences; 0 when there is none.\<close>

definition utf8_len :: "string \<Rightarrow> nat" where
  "utf8_len s =
     (case s of
        [] \<Rightarrow> 0
      | c # cs \<Rightarrow>
          let a = byte_of c; second = (case cs of [] \<Rightarrow> 0 | d # _ \<Rightarrow> byte_of d);
              tail = (\<lambda>n. length cs \<ge> n \<and> list_all continuation (take n cs)) in
          if a < 0x80 then 1
          else if 0xC2 \<le> a \<and> a \<le> 0xDF \<and> tail 1 then 2
          else if 0xE0 \<le> a \<and> a \<le> 0xEF \<and> tail 2 \<and> (a \<noteq> 0xE0 \<or> second \<ge> 0xA0) \<and>
                  (a \<noteq> 0xED \<or> second \<le> 0x9F) then 3
          else if 0xF0 \<le> a \<and> a \<le> 0xF4 \<and> tail 3 \<and> (a \<noteq> 0xF0 \<or> second \<ge> 0x90) \<and>
                  (a \<noteq> 0xF4 \<or> second \<le> 0x8F) then 4
          else 0)"

function utf8_valid :: "string \<Rightarrow> bool" where
  "utf8_valid s = (if s = [] then True else if utf8_len s = 0 then False
     else utf8_valid (drop (utf8_len s) s))"
  by pat_completeness auto
termination
  by (relation "measure length") auto

declare utf8_valid.simps [simp del]

lemma utf8_valid_ascii: "byte_of c < 0x80 \<Longrightarrow> utf8_valid (c # s) = utf8_valid s"
  by (subst utf8_valid.simps) (simp add: utf8_len_def)

end
