(* ===== verification/Config.thy ===== *)
theory Config
  imports Net_Addr
begin

text \<open>
  The bootstrap configuration of \<open>config.rs\<close>: validation of the decoded TOML file and the lexical
  checks of the panel endpoint, in their order. The TOML decoder, the WHATWG parser \<open>url::Url\<close> and
  \<open>tonic::transport::Endpoint\<close> are parameters; \<open>Ipv6Addr::from_str\<close> is the one of \<open>Net_Addr\<close>.
\<close>

definition PANEL_GRPC_SCHEME_PLAINTEXT :: string where "PANEL_GRPC_SCHEME_PLAINTEXT = ''grpc''"
definition PANEL_GRPC_SCHEME_TLS :: string where "PANEL_GRPC_SCHEME_TLS = ''grpcs''"
definition DEFAULT_TRAFFIC_REPORT_MIN_DELTA_BYTES :: u64 where
  "DEFAULT_TRAFFIC_REPORT_MIN_DELTA_BYTES = 25 * 1024 * 1024"

record Config =
  cf_panel_grpc_endpoint :: string
  cf_panel_grpc_address :: string
  cf_panel_grpc_scheme :: string
  cf_panel_grpc_server_name :: string
  cf_machine_id :: string
  cf_node_id :: string
  cf_machine_secret :: string
  cf_ca_cert_path :: string
  cf_tls_insecure_skip_verify :: bool
  cf_debug :: bool
  cf_disable_traffic_analysis :: bool
  cf_log_file_path :: string
  cf_traffic_report_min_delta_bytes :: u64

text \<open>The errors of the file system and of the TOML decoder are carried as their text.\<close>

datatype ConfigError = Read string | Decode string | Invalid string

fun display_config_error :: "ConfigError \<Rightarrow> string" where
  "display_config_error (Read e) = e"
| "display_config_error (Decode e) = e"
| "display_config_error (Invalid m) = m"

record RawConfig =
  raw_panel_grpc_endpoint :: string
  raw_machine_id :: string
  raw_node_id :: string
  raw_machine_secret :: string
  raw_ca_cert_path :: string
  raw_tls_insecure_skip_verify :: bool
  raw_debug :: bool
  raw_disable_traffic_analysis :: bool
  raw_log_file_path :: string
  raw_traffic_report_min_delta_bytes :: "u64 option"

record ParsedEndpoint =
  pe_address :: string
  pe_scheme :: string
  pe_server_name :: string

section \<open>Lexical checks\<close>

definition invalid_panel_host :: ConfigError where
  "invalid_panel_host = Invalid ''panel_grpc_endpoint must include a valid host and port''"

definition invalid_shape :: ConfigError where
  "invalid_shape = Invalid ''panel_grpc_endpoint must contain only a scheme, host, and port''"

definition invalid_scheme :: ConfigError where
  "invalid_scheme = Invalid ''panel_grpc_endpoint must use grpc:// or grpcs://''"

definition without_go_empty_query_or_fragment :: "string \<Rightarrow> string" where
  "without_go_empty_query_or_fragment raw =
     (case strip_suffix ''?#'' raw of
        Some r \<Rightarrow> r
      | None \<Rightarrow>
          (case strip_suffix ''?'' raw of
             Some without_query \<Rightarrow> if CHR ''#'' \<in> set without_query then raw else without_query
           | None \<Rightarrow> (case strip_suffix ''#'' raw of Some r \<Rightarrow> r | None \<Rightarrow> raw)))"

definition authority :: "string \<Rightarrow> string option" where
  "authority raw =
     map_option (\<lambda>(_, remainder). takeWhile (\<lambda>c. c \<notin> set ''/?#'') remainder) (split_once ''://'' raw)"

definition is_ascii_alphanumeric :: "char \<Rightarrow> bool" where
  "is_ascii_alphanumeric c \<longleftrightarrow>
     (let b = byte_of c in 48 \<le> b \<and> b \<le> 57 \<or> 65 \<le> b \<and> b \<le> 90 \<or> 97 \<le> b \<and> b \<le> 122)"

definition go_url_host_byte_is_allowed :: "char \<Rightarrow> bool" where
  "go_url_host_byte_is_allowed c \<longleftrightarrow>
     is_ascii_alphanumeric c \<or> c = CHR 0x22 \<or> c = CHR 0x27 \<or> c \<in> set ''!$&()*+,-.:;<=>[]_~''"

definition decode_hex :: "char \<Rightarrow> nat option" where
  "decode_hex c =
     (let b = byte_of c in
      if 48 \<le> b \<and> b \<le> 57 then Some (b - 48)
      else if 97 \<le> b \<and> b \<le> 102 then Some (b - 97 + 10)
      else if 65 \<le> b \<and> b \<le> 70 then Some (b - 65 + 10)
      else None)"

definition decode_escape :: "string \<Rightarrow> nat option" where
  "decode_escape s =
     (case s of
        h # l # _ \<Rightarrow>
          Option.bind (decode_hex h) (\<lambda>high. map_option (\<lambda>low. high * 16 + low) (decode_hex l))
      | _ \<Rightarrow> None)"

definition is_ascii :: "char \<Rightarrow> bool" where
  "is_ascii c \<longleftrightarrow> byte_of c < 0x80"

function host_bytes_ok :: "string \<Rightarrow> bool" where
  "host_bytes_ok [] = True"
| "host_bytes_ok (c # cs) =
     (if c = CHR ''%'' then
        (case decode_escape cs of
           None \<Rightarrow> False
         | Some decoded \<Rightarrow>
             if decoded < 0x80 \<and> take 2 cs \<noteq> ''25'' then False else host_bytes_ok (drop 2 cs))
      else if is_ascii c \<and> \<not> go_url_host_byte_is_allowed c then False
      else host_bytes_ok cs)"
  by pat_completeness auto
termination
  by (relation "measure length") auto

definition validate_go_host_lexical_form :: "string \<Rightarrow> ConfigError + unit" where
  "validate_go_host_lexical_form raw =
     (case authority raw of
        None \<Rightarrow> Inr ()
      | Some raw_authority \<Rightarrow>
          let host = (case rsplit_once CHR ''@'' raw_authority of
                        None \<Rightarrow> raw_authority | Some (_, h) \<Rightarrow> h)
          in if host_bytes_ok host then Inr () else Inl invalid_panel_host)"

section \<open>Scoped IPv6 endpoints\<close>

function zone_bytes :: "string \<Rightarrow> string option" where
  "zone_bytes [] = Some []"
| "zone_bytes (c # cs) =
     (if c \<noteq> CHR ''%'' then
        (if is_ascii c \<and> \<not> go_url_host_byte_is_allowed c then None
         else map_option ((#) c) (zone_bytes cs))
      else
        (case decode_escape cs of
           None \<Rightarrow> None
         | Some v \<Rightarrow>
             let value = char_of v in
             if value \<noteq> CHR ''%'' \<and> value \<noteq> CHR '' '' \<and> \<not> go_url_host_byte_is_allowed value then None
             else map_option ((#) value) (zone_bytes (drop 2 cs))))"
  by pat_completeness auto
termination
  by (relation "measure length") auto

definition decode_rfc6874_zone :: "string \<Rightarrow> string option" where
  "decode_rfc6874_zone encoded =
     Option.bind (zone_bytes encoded) (\<lambda>decoded. if utf8_valid decoded then Some decoded else None)"

definition to_ascii_lowercase :: "string \<Rightarrow> string" where
  "to_ascii_lowercase s =
     map (\<lambda>c. if 65 \<le> byte_of c \<and> byte_of c \<le> 90 then char_of (byte_of c + 32) else c) s"

text \<open>\<open>valid_uri\<close> stands for \<open>Endpoint::from_shared(..).is_ok()\<close>.\<close>

definition parse_scoped_ipv6_endpoint :: "(string \<Rightarrow> bool) \<Rightarrow> string \<Rightarrow>
    (ConfigError + ParsedEndpoint) option" where
  "parse_scoped_ipv6_endpoint valid_uri raw =
     Option.bind (split_once ''://'' raw) (\<lambda>(raw_scheme, remainder).
     Option.bind (authority raw) (\<lambda>raw_authority.
     if (raw_authority = [] \<or> hd raw_authority \<noteq> CHR ''['') \<or> \<not> contains_str ''%25'' raw_authority then None
     else
       let scheme = to_ascii_lowercase raw_scheme in
       if scheme \<noteq> PANEL_GRPC_SCHEME_PLAINTEXT \<and> scheme \<noteq> PANEL_GRPC_SCHEME_TLS then
         Some (Inl invalid_scheme)
       else if remainder \<noteq> raw_authority \<or> CHR ''@'' \<in> set raw_authority then
         Some (Inl invalid_shape)
       else
         (case rsplit_once CHR '']'' raw_authority of
            None \<Rightarrow> Some (Inl invalid_panel_host)
          | Some (before, suffix) \<Rightarrow>
              let host_literal = tl before in
              (case read_char CHR '':'' suffix of
                 None \<Rightarrow> Some (Inl invalid_panel_host)
               | Some port \<Rightarrow>
                   if (case parse_u16_str port of None \<Rightarrow> True | Some p \<Rightarrow> p = 0) then
                     Some (Inl invalid_panel_host)
                   else
                     Option.bind (split_once ''%25'' host_literal) (\<lambda>(ipv6, encoded_zone).
                     if parse_ipv6 ipv6 = None \<or> encoded_zone = [] then Some (Inl invalid_panel_host)
                     else
                       (case decode_rfc6874_zone encoded_zone of
                          None \<Rightarrow> Some (Inl invalid_panel_host)
                        | Some zone \<Rightarrow>
                            if zone = [] then Some (Inl invalid_panel_host)
                            else
                              let server_name = ipv6 @ ''%'' @ zone;
                                  address = ''['' @ server_name @ '']:'' @ port in
                              if \<not> valid_uri (''http://'' @ address) then Some (Inl invalid_panel_host)
                              else Some (Inr \<lparr> pe_address = address, pe_scheme = scheme,
                                     pe_server_name = server_name \<rparr>)))))))"

section \<open>Endpoints\<close>

text \<open>What the agent reads of a parsed URL.\<close>

datatype url_host = Ipv4Host string | Ipv6Host string | Domain string

record parsed_url =
  url_scheme :: string
  url_username :: string
  url_password :: "string option"
  url_path :: string
  url_query :: "string option"
  url_fragment :: "string option"
  url_port :: "u16 option"
  url_host :: "url_host option"

definition show_u16 :: "u16 \<Rightarrow> string" where
  "show_u16 p = show_nat (unat p)"

definition parse_panel_grpc_endpoint :: "(string \<Rightarrow> parsed_url option) \<Rightarrow> (string \<Rightarrow> bool) \<Rightarrow> string \<Rightarrow>
    ConfigError + ParsedEndpoint" where
  "parse_panel_grpc_endpoint parse_url valid_uri raw =
     (if raw \<noteq> trim raw then
        Inl (Invalid ''panel_grpc_endpoint must not contain leading or trailing whitespace'')
      else if list_ex (\<lambda>c. byte_of c < 0x20 \<or> byte_of c = 0x7f) raw then
        Inl (Invalid ''panel_grpc_endpoint must not contain ASCII control characters'')
      else
        let parse_input = without_go_empty_query_or_fragment raw in
        (case parse_scoped_ipv6_endpoint valid_uri parse_input of
           Some endpoint \<Rightarrow> endpoint
         | None \<Rightarrow>
             rbind (validate_go_host_lexical_form parse_input) (\<lambda>_.
             rbind (ok_or invalid_panel_host (parse_url parse_input)) (\<lambda>parsed.
             let scheme = to_ascii_lowercase (url_scheme parsed) in
             if scheme \<noteq> PANEL_GRPC_SCHEME_PLAINTEXT \<and> scheme \<noteq> PANEL_GRPC_SCHEME_TLS then
               Inl invalid_scheme
             else if (case authority parse_input of None \<Rightarrow> False | Some a \<Rightarrow> CHR ''@'' \<in> set a) \<or>
                     url_username parsed \<noteq> [] \<or> url_password parsed \<noteq> None \<or> url_path parsed \<noteq> [] \<or>
                     url_query parsed \<noteq> None \<or> url_fragment parsed \<noteq> None then
               Inl invalid_shape
             else
               rbind (ok_or invalid_panel_host
                 (case url_port parsed of None \<Rightarrow> None | Some p \<Rightarrow> if p \<noteq> 0 then Some p else None)) (\<lambda>port.
               rbind (case url_host parsed of
                        Some (Ipv6Host host) \<Rightarrow> Inr (''['' @ host @ '']:'' @ show_u16 port, host)
                      | Some (Ipv4Host host) \<Rightarrow> Inr (host @ '':'' @ show_u16 port, host)
                      | Some (Domain host) \<Rightarrow>
                          if host \<noteq> [] then Inr (host @ '':'' @ show_u16 port, host)
                          else Inl invalid_panel_host
                      | None \<Rightarrow> Inl invalid_panel_host) (\<lambda>(address, server_name).
               Inr \<lparr> pe_address = address, pe_scheme = scheme, pe_server_name = server_name \<rparr>))))))"

section \<open>The configuration\<close>

definition validate_raw :: "(string \<Rightarrow> parsed_url option) \<Rightarrow> (string \<Rightarrow> bool) \<Rightarrow> RawConfig \<Rightarrow>
    ConfigError + Config" where
  "validate_raw parse_url valid_uri raw =
     rbind (case raw_traffic_report_min_delta_bytes raw of
              Some v \<Rightarrow>
                if v = 0 then Inl (Invalid ''traffic_report_min_delta_bytes must be greater than 0'')
                else Inr v
            | None \<Rightarrow> Inr DEFAULT_TRAFFIC_REPORT_MIN_DELTA_BYTES) (\<lambda>min_delta.
     if raw_panel_grpc_endpoint raw = [] then Inl (Invalid ''panel_grpc_endpoint is required'')
     else
       rbind (parse_panel_grpc_endpoint parse_url valid_uri (raw_panel_grpc_endpoint raw)) (\<lambda>endpoint.
       if pe_scheme endpoint = PANEL_GRPC_SCHEME_PLAINTEXT \<and> raw_ca_cert_path raw \<noteq> [] then
         Inl (Invalid ''ca_cert_path requires a grpcs:// panel_grpc_endpoint'')
       else if raw_machine_id raw = [] then Inl (Invalid ''machine_id is required'')
       else if raw_node_id raw = [] then Inl (Invalid ''node_id is required'')
       else if raw_machine_secret raw = [] then Inl (Invalid ''machine_secret is required'')
       else
         Inr \<lparr> cf_panel_grpc_endpoint = raw_panel_grpc_endpoint raw,
               cf_panel_grpc_address = pe_address endpoint, cf_panel_grpc_scheme = pe_scheme endpoint,
               cf_panel_grpc_server_name = pe_server_name endpoint,
               cf_machine_id = raw_machine_id raw, cf_node_id = raw_node_id raw,
               cf_machine_secret = raw_machine_secret raw, cf_ca_cert_path = raw_ca_cert_path raw,
               cf_tls_insecure_skip_verify = raw_tls_insecure_skip_verify raw,
               cf_debug = raw_debug raw,
               cf_disable_traffic_analysis = raw_disable_traffic_analysis raw,
               cf_log_file_path = raw_log_file_path raw,
               cf_traffic_report_min_delta_bytes = min_delta \<rparr>))"

definition parse_config :: "(string \<Rightarrow> string + RawConfig) \<Rightarrow> (string \<Rightarrow> parsed_url option) \<Rightarrow>
    (string \<Rightarrow> bool) \<Rightarrow> string \<Rightarrow> ConfigError + Config" where
  "parse_config from_toml parse_url valid_uri source =
     rbind (rmap_err Decode (from_toml source)) (validate_raw parse_url valid_uri)"

definition load_config :: "(string \<Rightarrow> string + string) \<Rightarrow> (string \<Rightarrow> string + RawConfig) \<Rightarrow>
    (string \<Rightarrow> parsed_url option) \<Rightarrow> (string \<Rightarrow> bool) \<Rightarrow> string \<Rightarrow> ConfigError + Config" where
  "load_config read_to_string from_toml parse_url valid_uri path =
     rbind (rmap_err Read (read_to_string path)) (parse_config from_toml parse_url valid_uri)"

section \<open>What an accepted configuration guarantees\<close>

text \<open>The host grammar of the lexical check: bytes that Go allows, non-ASCII bytes, escapes of non-ASCII
  bytes, and the literal \<open>%25\<close>.\<close>

inductive go_host :: "string \<Rightarrow> bool" where
  empty: "go_host []"
| plain: "c \<noteq> CHR ''%'' \<Longrightarrow> go_url_host_byte_is_allowed c \<or> \<not> is_ascii c \<Longrightarrow> go_host s \<Longrightarrow> go_host (c # s)"
| escape: "decode_hex h = Some x \<Longrightarrow> decode_hex l = Some y \<Longrightarrow> 0x80 \<le> x * 16 + y \<or> [h, l] = ''25'' \<Longrightarrow>
    go_host s \<Longrightarrow> go_host (CHR ''%'' # h # l # s)"

inductive_cases go_host_ConsE: "go_host (c # s)"

lemma percent_not_allowed: "\<not> go_url_host_byte_is_allowed CHR ''%''"
  by (simp add: go_url_host_byte_is_allowed_def is_ascii_alphanumeric_def byte_of_def)

lemma decode_escape_Some:
  "decode_escape cs = Some v \<longleftrightarrow>
     (\<exists>h l s x y. cs = h # l # s \<and> decode_hex h = Some x \<and> decode_hex l = Some y \<and> v = x * 16 + y)"
  by (auto simp: decode_escape_def bind_eq_Some_conv split: list.splits)

lemma host_bytes_ok_iff: "host_bytes_ok s \<longleftrightarrow> go_host s"
proof
  show "host_bytes_ok s \<Longrightarrow> go_host s"
  proof (induction s rule: host_bytes_ok.induct)
    case (2 c cs)
    then show ?case
      by (cases "c = CHR ''%''")
         (auto simp: decode_escape_Some intro: go_host.intros split: if_splits option.splits)
  qed (simp add: go_host.intros)
  show "go_host s \<Longrightarrow> host_bytes_ok s"
    by (induction rule: go_host.induct) (auto simp: decode_escape_def)
qed

lemma scoped_endpoint_ok:
  assumes "parse_scoped_ipv6_endpoint valid_uri raw = Some (Inr e)"
  shows "pe_scheme e \<in> {''grpc'', ''grpcs''} \<and> valid_uri (''http://'' @ pe_address e) \<and>
    (\<exists>a. authority raw = Some a \<and> CHR ''@'' \<notin> set a)"
  using assms
  by (auto simp: parse_scoped_ipv6_endpoint_def bind_eq_Some_conv Let_def PANEL_GRPC_SCHEME_PLAINTEXT_def
      PANEL_GRPC_SCHEME_TLS_def split: if_splits option.splits prod.splits)

lemma endpoint_ok:
  assumes "parse_panel_grpc_endpoint parse_url valid_uri raw = Inr e"
  shows "pe_scheme e \<in> {''grpc'', ''grpcs''}"
    and "list_all (\<lambda>c. 0x20 \<le> byte_of c \<and> byte_of c \<noteq> 0x7f) raw"
    and "authority (without_go_empty_query_or_fragment raw) = Some a \<Longrightarrow> CHR ''@'' \<notin> set a \<and>
      (go_host a \<or> valid_uri (''http://'' @ pe_address e))"
proof -
  let ?in = "without_go_empty_query_or_fragment raw"
  from assms show "list_all (\<lambda>c. 0x20 \<le> byte_of c \<and> byte_of c \<noteq> 0x7f) raw"
    by (auto simp: parse_panel_grpc_endpoint_def list_all_iff list_ex_iff not_less split: if_splits)
  consider (scoped) "parse_scoped_ipv6_endpoint valid_uri ?in = Some (Inr e)"
    | (url) parsed :: parsed_url where "validate_go_host_lexical_form ?in = Inr ()"
        "pe_scheme e = to_ascii_lowercase (url_scheme parsed)"
        "to_ascii_lowercase (url_scheme parsed) \<in> {''grpc'', ''grpcs''}"
        "\<And>a. authority ?in = Some a \<Longrightarrow> CHR ''@'' \<notin> set a"
  proof (cases "parse_scoped_ipv6_endpoint valid_uri ?in")
    case (Some r)
    with assms have "r = Inr e"
      by (auto simp: parse_panel_grpc_endpoint_def Let_def split: if_splits)
    with Some that(1) show ?thesis by simp
  next
    case None
    with assms obtain parsed where parsed: "parse_url ?in = Some parsed"
      by (auto simp: parse_panel_grpc_endpoint_def Let_def result_simps split: if_splits)
    with assms None have "validate_go_host_lexical_form ?in = Inr ()"
      "pe_scheme e = to_ascii_lowercase (url_scheme parsed)"
      "to_ascii_lowercase (url_scheme parsed) \<in> {''grpc'', ''grpcs''}"
      "\<And>a. authority ?in = Some a \<Longrightarrow> CHR ''@'' \<notin> set a"
      by (auto simp: parse_panel_grpc_endpoint_def Let_def result_simps PANEL_GRPC_SCHEME_PLAINTEXT_def
          PANEL_GRPC_SCHEME_TLS_def split: if_splits)
    then show ?thesis using that(2) by blast
  qed
  then have "pe_scheme e \<in> {''grpc'', ''grpcs''} \<and>
    (authority ?in = Some a \<longrightarrow> CHR ''@'' \<notin> set a \<and>
      (go_host a \<or> valid_uri (''http://'' @ pe_address e)))"
  proof cases
    case scoped
    from scoped_endpoint_ok [OF this] show ?thesis by auto
  next
    case url
    have "go_host a" if a: "authority ?in = Some a"
    proof -
      from url(4) [OF a] have "rsplit_once CHR ''@'' a = None" by (simp add: rsplit_once_def)
      with url(1) a show ?thesis
        by (simp add: validate_go_host_lexical_form_def host_bytes_ok_iff split: if_splits)
    qed
    with url show ?thesis by simp
  qed
  then show "pe_scheme e \<in> {''grpc'', ''grpcs''}"
    "authority ?in = Some a \<Longrightarrow> CHR ''@'' \<notin> set a \<and>
      (go_host a \<or> valid_uri (''http://'' @ pe_address e))"
    by blast+
qed

text \<open>C37 (accepted configurations): a file that is accepted names a machine, a node and a secret, has a
  positive report threshold, and configures a CA only for a TLS endpoint; its endpoint uses one of
  the two schemes, has no control characters and no user information, and its authority either
  follows the host grammar or was checked by the transport's own address parser.\<close>

theorem accepted_config:
  assumes "parse_config from_toml parse_url valid_uri source = Inr c"
  shows "cf_machine_id c \<noteq> [] \<and> cf_node_id c \<noteq> [] \<and> cf_machine_secret c \<noteq> [] \<and>
    cf_traffic_report_min_delta_bytes c \<noteq> 0 \<and>
    cf_panel_grpc_scheme c \<in> {''grpc'', ''grpcs''} \<and>
    (cf_ca_cert_path c = [] \<or> cf_panel_grpc_scheme c = ''grpcs'') \<and>
    list_all (\<lambda>x. 0x20 \<le> byte_of x \<and> byte_of x \<noteq> 0x7f) (cf_panel_grpc_endpoint c) \<and>
    (\<forall>a. authority (without_go_empty_query_or_fragment (cf_panel_grpc_endpoint c)) = Some a \<longrightarrow>
      CHR ''@'' \<notin> set a \<and> (go_host a \<or> valid_uri (''http://'' @ cf_panel_grpc_address c)))"
proof -
  from assms obtain raw where raw: "validate_raw parse_url valid_uri raw = Inr c"
    by (auto simp: parse_config_def result_simps)
  then obtain e where e: "parse_panel_grpc_endpoint parse_url valid_uri (raw_panel_grpc_endpoint raw) = Inr e"
    by (auto simp: validate_raw_def result_simps split: if_splits)
  from raw e have guards: "\<not> (pe_scheme e = ''grpc'' \<and> raw_ca_cert_path raw \<noteq> [])" "raw_machine_id raw \<noteq> []"
      "raw_node_id raw \<noteq> []" "raw_machine_secret raw \<noteq> []"
    by (auto simp: validate_raw_def result_simps PANEL_GRPC_SCHEME_PLAINTEXT_def split: if_splits)
  from raw e have c: "cf_machine_id c = raw_machine_id raw" "cf_node_id c = raw_node_id raw"
      "cf_machine_secret c = raw_machine_secret raw" "cf_ca_cert_path c = raw_ca_cert_path raw"
      "cf_panel_grpc_scheme c = pe_scheme e" "cf_panel_grpc_endpoint c = raw_panel_grpc_endpoint raw"
      "cf_panel_grpc_address c = pe_address e"
    by (auto simp: validate_raw_def result_simps split: if_splits)
  from raw have delta: "cf_traffic_report_min_delta_bytes c \<noteq> 0"
    by (auto simp: validate_raw_def result_simps DEFAULT_TRAFFIC_REPORT_MIN_DELTA_BYTES_def
        split: if_splits option.splits)
  from endpoint_ok [OF e] show ?thesis using delta guards by (auto simp: c)
qed

definition ex_raw_config :: RawConfig where
  "ex_raw_config = \<lparr> raw_panel_grpc_endpoint = ''grpcs://p:443'', raw_machine_id = ''m'',
     raw_node_id = ''n'', raw_machine_secret = ''s'', raw_ca_cert_path = ''ca.pem'',
     raw_tls_insecure_skip_verify = False, raw_debug = False, raw_disable_traffic_analysis = False,
     raw_log_file_path = [], raw_traffic_report_min_delta_bytes = None \<rparr>"

definition ex_parse_url :: "string \<Rightarrow> parsed_url option" where
  "ex_parse_url s = (if s = ''grpcs://p:443'' then
     Some \<lparr> url_scheme = ''grpcs'', url_username = [], url_password = None, url_path = [],
       url_query = None, url_fragment = None, url_port = Some 443, url_host = Some (Domain ''p'') \<rparr>
     else None)"

lemma ex_config: "\<not> isl (parse_config (\<lambda>_. Inr ex_raw_config) ex_parse_url (\<lambda>_. False) ''src'')"
proof -
  have trim: "trim ''grpcs://p:443'' = ''grpcs://p:443''"
    by (rule trim_id) (simp add: ascii_graphic_def byte_of_def)
  have "parse_scoped_ipv6_endpoint (\<lambda>_. False) ''grpcs://p:443'' = None"
    by (simp add: parse_scoped_ipv6_endpoint_def authority_def)
  with trim show ?thesis
    by (simp add: parse_config_def validate_raw_def ex_raw_config_def parse_panel_grpc_endpoint_def
        without_go_empty_query_or_fragment_def strip_suffix_def validate_go_host_lexical_form_def
        authority_def rsplit_once_def go_url_host_byte_is_allowed_def is_ascii_alphanumeric_def
        is_ascii_def ex_parse_url_def to_ascii_lowercase_def PANEL_GRPC_SCHEME_PLAINTEXT_def
        PANEL_GRPC_SCHEME_TLS_def DEFAULT_TRAFFIC_REPORT_MIN_DELTA_BYTES_def byte_of_def)
qed

theorem accepted_config_witness:
  "\<exists>c. parse_config (\<lambda>_. Inr ex_raw_config) ex_parse_url (\<lambda>_. False) ''src'' = Inr c \<and>
     cf_panel_grpc_scheme c \<in> {''grpc'', ''grpcs''}"
proof -
  obtain c where c: "parse_config (\<lambda>_. Inr ex_raw_config) ex_parse_url (\<lambda>_. False) ''src'' = Inr c"
    using ex_config by (cases "parse_config (\<lambda>_. Inr ex_raw_config) ex_parse_url (\<lambda>_. False) ''src''") auto
  with accepted_config [OF c] show ?thesis by blast
qed

end
