(* ===== verification/Backoff.thy ===== *)
theory Backoff
  imports Prelude
begin

text \<open>
  The reconnect delay of \<open>backoff.rs\<close>: exponential growth with a cap and equal jitter. A \<open>Duration\<close> is a
  number of nanoseconds up to \<open>Duration::MAX\<close>; the random number drawn for the jitter is an argument.
\<close>

definition DURATION_MAX :: nat where
  "DURATION_MAX = (2 ^ 64 - 1) * 1000000000 + 999999999"

definition saturating_mul2 :: "nat \<Rightarrow> nat" where
  "saturating_mul2 d = min (d * 2) DURATION_MAX"

record ExponentialBackoff =
  eb_initial :: nat
  eb_max :: nat
  eb_current :: nat

definition backoff_new :: "nat \<Rightarrow> nat \<Rightarrow> ExponentialBackoff" where
  "backoff_new initial maximum = \<lparr> eb_initial = initial, eb_max = maximum, eb_current = 0 \<rparr>"

definition reset :: "ExponentialBackoff \<Rightarrow> ExponentialBackoff" where
  "reset b = b\<lparr> eb_current := 0 \<rparr>"

definition advance :: "ExponentialBackoff \<Rightarrow> ExponentialBackoff" where
  "advance b = b\<lparr> eb_current :=
     (if eb_current b = 0 then eb_initial b else min (saturating_mul2 (eb_current b)) (eb_max b)) \<rparr>"

definition jitter_bound :: "nat \<Rightarrow> nat" where
  "jitter_bound half = min half (2 ^ 64 - 1)"

text \<open>\<open>random\<close> is the value of \<open>random_range(0..jitter_bound)\<close>.\<close>

definition next_delay :: "(nat \<Rightarrow> nat) \<Rightarrow> ExponentialBackoff \<Rightarrow> ExponentialBackoff \<times> nat" where
  "next_delay random b =
     (let b' = advance b; half = eb_current b' div 2 in
      if half = 0 then (b', eb_current b')
      else if jitter_bound half = 0 then (b', eb_current b')
      else (b', half + random (jitter_bound half)))"

text \<open>The state after \<open>n\<close> delays.\<close>

fun delays :: "(nat \<Rightarrow> nat) list \<Rightarrow> ExponentialBackoff \<Rightarrow> ExponentialBackoff" where
  "delays [] b = b"
| "delays (random # rs) b = delays rs (fst (next_delay random b))"

lemma advance_fields [simp]: "eb_initial (advance b) = eb_initial b" "eb_max (advance b) = eb_max b"
  by (simp_all add: advance_def)

lemma next_delay_state [simp]: "fst (next_delay random b) = advance b"
  by (simp add: next_delay_def Let_def)

lemma advance_base:
  assumes "eb_current b = min (eb_initial b * 2 ^ n) (eb_max b)" and "0 < eb_initial b"
    and "eb_initial b \<le> eb_max b" and "eb_max b \<le> DURATION_MAX"
  shows "eb_current (advance b) = min (eb_initial b * 2 ^ Suc n) (eb_max b)"
proof -
  let ?x = "min (eb_initial b * 2 ^ n) (eb_max b)"
  have "?x \<noteq> 0" using assms by (simp add: min_def)
  then have "eb_current (advance b) = min (min (?x * 2) DURATION_MAX) (eb_max b)"
    unfolding advance_def saturating_mul2_def assms(1) [symmetric] by simp
  also have "\<dots> = min (eb_initial b * 2 ^ n * 2) (eb_max b)"
    using assms(4) by (auto simp: min_def)
  finally have "eb_current (advance b) = min (eb_initial b * 2 ^ n * 2) (eb_max b)" .
  then show ?thesis by (simp add: ac_simps)
qed

lemma delays_fields [simp]: "eb_initial (delays rs b) = eb_initial b" "eb_max (delays rs b) = eb_max b"
  by (induction rs arbitrary: b) simp_all

lemma delays_base:
  assumes "eb_current b = min (eb_initial b * 2 ^ n) (eb_max b)" and "0 < eb_initial b"
    and "eb_initial b \<le> eb_max b" and "eb_max b \<le> DURATION_MAX"
  shows "eb_current (delays rs b) = min (eb_initial b * 2 ^ (n + length rs)) (eb_max b)"
  using assms
proof (induction rs arbitrary: b n)
  case (Cons r rs)
  from Cons.IH [of "advance b" "Suc n"] advance_base [OF Cons.prems] Cons.prems(2-) show ?case by simp
qed simp

lemma next_delay_range:
  assumes "\<forall>n > 0. random n < n" and "next_delay random b = (b', delay)"
  shows "b' = advance b" "eb_current b' div 2 \<le> delay" "delay \<le> eb_current b'"
    "2 \<le> eb_current b' \<Longrightarrow> delay < eb_current b'"
proof -
  define c where "c = eb_current (advance b)"
  have bound: "random (jitter_bound (c div 2)) < c div 2" if "0 < c div 2"
  proof -
    from that have "0 < jitter_bound (c div 2)" by (simp add: jitter_bound_def)
    with assms(1) have "random (jitter_bound (c div 2)) < jitter_bound (c div 2)" by blast
    then show ?thesis by (simp add: jitter_bound_def)
  qed
  show b': "b' = advance b" using assms(2) next_delay_state [of random b] by simp
  have "delay = (if c div 2 = 0 then c else c div 2 + random (jitter_bound (c div 2)))"
    using assms(2) by (auto simp: next_delay_def Let_def c_def jitter_bound_def split: if_splits)
  then show "eb_current b' div 2 \<le> delay" "delay \<le> eb_current b'"
    "2 \<le> eb_current b' \<Longrightarrow> delay < eb_current b'"
    using bound unfolding b' c_def [symmetric] by (auto split: if_splits)
qed

text \<open>Bounded exponential backoff: after a reset the base of the \<open>n\<close>-th delay is the initial
  duration doubled \<open>n - 1\<close> times and capped, whatever jitter was drawn before, and the delay lies in
  the upper half of the base, below the base itself whenever that is at least two nanoseconds.\<close>

lemma backoff_bounds:
  assumes "0 < initial" and "initial \<le> maximum" and "maximum \<le> DURATION_MAX"
    and "\<And>bound. 0 < bound \<Longrightarrow> random bound < bound"
    and "next_delay random (delays earlier (reset b)) = (b', delay)"
    and "eb_initial b = initial" and "eb_max b = maximum"
  shows "eb_current b' = min (initial * 2 ^ length earlier) maximum \<and>
    eb_current b' div 2 \<le> delay \<and> delay \<le> eb_current b' \<and> (2 \<le> eb_current b' \<longrightarrow> delay < eb_current b')"
proof -
  have base: "eb_current (advance (delays earlier (reset b))) = min (initial * 2 ^ length earlier) maximum"
  proof (cases earlier)
    case Nil
    then show ?thesis using assms by (simp add: reset_def advance_def)
  next
    case (Cons r rs)
    let ?b1 = "advance (reset b)"
    have fields: "eb_initial ?b1 = initial" "eb_max ?b1 = maximum" using assms by (simp_all add: reset_def)
    have "eb_current ?b1 = min (eb_initial ?b1 * 2 ^ 0) (eb_max ?b1)"
      using assms by (simp add: reset_def advance_def)
    from delays_base [OF this, of rs] fields assms
    have "eb_current (delays rs ?b1) =
        min (eb_initial (delays rs ?b1) * 2 ^ length rs) (eb_max (delays rs ?b1))" by simp
    from advance_base [OF this] fields assms Cons show ?thesis by simp
  qed
  from next_delay_range [OF _ assms(5)] assms(4) base show ?thesis by auto
qed

end
