(* ===== verification/Session.thy ===== *)
theory Session
  imports Acp_Proto Config Backoff
begin

text \<open>
  The panel session of \<open>session.rs\<close>: its error values, the endpoint and TLS settings of the
  connection, the signed hello, the signed metadata of every call, the registration of the control
  stream, the reconnect loop and the group of streams that share one session. Transport, TLS, the
  clock, the random nonce and the metadata syntax of the gRPC library are parameters; an asynchronous
  wait is represented by the event that ends it.
\<close>

section \<open>Durations and errors\<close>

definition secs :: "nat \<Rightarrow> nat" where
  "secs n = n * 1000000000"

definition PANEL_DIAL_TIMEOUT :: nat where "PANEL_DIAL_TIMEOUT = secs 10"
definition PANEL_REQUEST_TIMEOUT :: nat where "PANEL_REQUEST_TIMEOUT = secs 10"
definition SESSION_BACKOFF_INITIAL :: nat where "SESSION_BACKOFF_INITIAL = secs 1"
definition SESSION_BACKOFF_MAX :: nat where "SESSION_BACKOFF_MAX = secs 30"
definition STABLE_SESSION_RESET_AFTER :: nat where "STABLE_SESSION_RESET_AFTER = secs 60"
definition CONTROL_READY_METADATA_KEY :: string where "CONTROL_READY_METADATA_KEY = ''x-acp-control-ready''"
definition CONTROL_TOPOLOGY_DIGEST_METADATA_KEY :: string where
  "CONTROL_TOPOLOGY_DIGEST_METADATA_KEY = ''x-acp-topology-digest''"
definition CONTROL_CLIENT_READY_KEY :: string where "CONTROL_CLIENT_READY_KEY = ''control-stream-ready-v1''"

text \<open>The \<open>{:?}\<close> form of a \<open>Duration\<close>: the largest unit that is not zero, with the decimals that are
  not trailing zeros.\<close>

definition decimals :: "nat \<Rightarrow> nat \<Rightarrow> string" where
  "decimals width n =
     (if n = 0 then []
      else ''.'' @ rev (dropWhile (\<lambda>c. c = CHR ''0'')
        (map (\<lambda>i. digit_char (n div 10 ^ i mod 10)) [0..<width])))"

definition debug_duration :: "nat \<Rightarrow> string" where
  "debug_duration d =
     (if 1000000000 \<le> d then show_nat (d div 1000000000) @ decimals 9 (d mod 1000000000) @ ''s''
      else if 1000000 \<le> d then show_nat (d div 1000000) @ decimals 6 (d mod 1000000) @ ''ms''
      else if 1000 \<le> d then show_nat (d div 1000) @ decimals 3 (d mod 1000) @ [CHR 0xC2, CHR 0xB5, CHR ''s'']
      else show_nat d @ ''ns'')"

text \<open>A gRPC status: its numeric code and its rendering.\<close>

record Status =
  st_code :: nat
  st_text :: string

definition CODE_ABORTED :: nat where "CODE_ABORTED = 10"
definition CODE_INTERNAL :: nat where "CODE_INTERNAL = 13"
definition CODE_UNAUTHENTICATED :: nat where "CODE_UNAUTHENTICATED = 16"

datatype SessionError =
    InvalidConfig string
  | ReadCa string string
  | InvalidCa string string
  | Transport string
  | Rpc Status
  | Timeout string nat
  | Authentication string
  | Metadata string
  | ControlRegistration string
  | ControlStreamClosed
  | CriticalStreamEnded string
  | Stream string SessionError
  | Task string string

fun is_unauthenticated :: "SessionError \<Rightarrow> bool" where
  "is_unauthenticated (Rpc status) = (st_code status = CODE_UNAUTHENTICATED)"
| "is_unauthenticated (Stream name source) = is_unauthenticated source"
| "is_unauthenticated _ = False"

fun display_session_error :: "SessionError \<Rightarrow> string" where
  "display_session_error (InvalidConfig message) = ''invalid panel configuration: '' @ message"
| "display_session_error (ReadCa path source) =
     ''read panel CA certificate '' @ debug_str path @ '': '' @ source"
| "display_session_error (InvalidCa path message) =
     ''parse panel CA certificate '' @ debug_str path @ '': '' @ message"
| "display_session_error (Transport error) = ''panel transport: '' @ error"
| "display_session_error (Rpc status) = ''panel RPC: '' @ st_text status"
| "display_session_error (Timeout operation duration) =
     operation @ '' timed out after '' @ debug_duration duration"
| "display_session_error (Authentication message) = ''panel authentication: '' @ message"
| "display_session_error (Metadata message) = ''session metadata: '' @ message"
| "display_session_error (ControlRegistration message) = ''control stream registration: '' @ message"
| "display_session_error ControlStreamClosed = ''control stream acknowledgement side closed''"
| "display_session_error (CriticalStreamEnded name) = ''session-critical '' @ name @ '' exited''"
| "display_session_error (Stream name source) = name @ '': '' @ display_session_error source"
| "display_session_error (Task name message) = name @ '' task failed: '' @ message"

text \<open>The end of a call under \<open>tokio::time::timeout\<close>.\<close>

datatype ('e, 'a) timed = Completed 'a | Errored 'e | Elapsed

section \<open>Connecting\<close>

record PanelClient =
  pc_config :: Config
  pc_agent_version :: string
  pc_data_plane_version :: string

record 'anchor TlsConfig =
  tls_domain_name :: string
  tls_timeout :: nat
  tls_trust_anchors :: "'anchor list"
  tls_insecure_verifier :: bool

record 'anchor Endpoint =
  ep_uri :: string
  ep_connect_timeout :: nat
  ep_tcp_nodelay :: bool
  ep_tls :: "'anchor TlsConfig option"

definition tls_server_name :: "string \<Rightarrow> string" where
  "tls_server_name server_name =
     (case rsplit_once CHR ''%'' server_name of
        Some (address, zone) \<Rightarrow> if parse_ipv6 address \<noteq> None then address else server_name
      | None \<Rightarrow> server_name)"

text \<open>\<open>read_file\<close> and \<open>pem_anchors\<close> are the file system and the PEM and X.509 parsers, which skip what
  they cannot parse.\<close>

definition load_optional_ca :: "(string \<Rightarrow> string + bytes) \<Rightarrow> (bytes \<Rightarrow> 'anchor list) \<Rightarrow> string \<Rightarrow>
    SessionError + 'anchor list option" where
  "load_optional_ca read_file pem_anchors path =
     (if path = [] then Inr None
      else rbind (rmap_err (ReadCa path) (read_file path)) (\<lambda>pem.
        let anchors = pem_anchors pem in
        if anchors = [] then Inl (InvalidCa path ''PEM contains no valid X.509 certificates'')
        else Inr (Some anchors)))"

definition configure_tls :: "(string \<Rightarrow> string + bytes) \<Rightarrow> (bytes \<Rightarrow> 'anchor list) \<Rightarrow> 'anchor list \<Rightarrow>
    ('anchor Endpoint \<Rightarrow> string + 'anchor Endpoint) \<Rightarrow> Config \<Rightarrow> 'anchor Endpoint \<Rightarrow>
    SessionError + 'anchor Endpoint" where
  "configure_tls read_file pem_anchors native tls_config config endpoint =
     rbind (load_optional_ca read_file pem_anchors (cf_ca_cert_path config)) (\<lambda>ca.
     let tls = \<lparr> tls_domain_name = tls_server_name (cf_panel_grpc_server_name config),
                 tls_timeout = PANEL_DIAL_TIMEOUT, tls_trust_anchors = [],
                 tls_insecure_verifier = False \<rparr> in
     if cf_tls_insecure_skip_verify config
     then rmap_err Transport (tls_config
            (endpoint\<lparr> ep_tls := Some (tls\<lparr> tls_insecure_verifier := True \<rparr>) \<rparr>))
     else
       let tls = tls\<lparr> tls_trust_anchors := native \<rparr>;
           tls = (case ca of Some anchors \<Rightarrow> tls\<lparr> tls_trust_anchors := tls_trust_anchors tls @ anchors \<rparr> | None \<Rightarrow> tls) in
       rmap_err Transport (tls_config (endpoint\<lparr> ep_tls := Some tls \<rparr>)))"

definition endpoint :: "(string \<Rightarrow> string + string) \<Rightarrow> (Config \<Rightarrow> 'anchor Endpoint \<Rightarrow> SessionError + 'anchor Endpoint) \<Rightarrow>
    Config \<Rightarrow> SessionError + 'anchor Endpoint" where
  "endpoint from_shared tls config =
     rbind (if cf_panel_grpc_scheme config = PANEL_GRPC_SCHEME_PLAINTEXT then Inr ''http''
            else if cf_panel_grpc_scheme config = PANEL_GRPC_SCHEME_TLS then Inr ''https''
            else Inl (InvalidConfig (''unsupported panel gRPC scheme '' @ debug_str (cf_panel_grpc_scheme config)))) (\<lambda>scheme.
     rbind (rmap_err Transport (from_shared (scheme @ ''://'' @ cf_panel_grpc_address config))) (\<lambda>uri.
     let ep = \<lparr> ep_uri = uri, ep_connect_timeout = PANEL_DIAL_TIMEOUT, ep_tcp_nodelay = True, ep_tls = None \<rparr> in
     if cf_panel_grpc_scheme config = PANEL_GRPC_SCHEME_TLS then tls config ep else Inr ep))"

definition dial :: "(string \<Rightarrow> string + string) \<Rightarrow> (Config \<Rightarrow> 'anchor Endpoint \<Rightarrow> SessionError + 'anchor Endpoint) \<Rightarrow>
    ('anchor Endpoint \<Rightarrow> (string, 'channel) timed) \<Rightarrow> Config \<Rightarrow> SessionError + 'channel" where
  "dial from_shared tls connect config =
     rbind (endpoint from_shared tls config) (\<lambda>ep.
     case connect ep of
       Completed channel \<Rightarrow> Inr channel
     | Errored error \<Rightarrow> Inl (Transport error)
     | Elapsed \<Rightarrow> Inl (Timeout ''panel dial'' PANEL_DIAL_TIMEOUT))"

section \<open>The signed hello\<close>

record pb_HelloRequest =
  hr_machine_id :: string
  hr_agent_version :: string
  hr_sing_box_version :: string
  hr_timestamp_unix :: int
  hr_nonce :: string
  hr_signature :: string
  hr_topology_revision :: u64
  hr_node_id :: string

record pb_Session =
  ss_session_id :: string
  ss_topology_revision :: u64

definition missing_field :: "string \<Rightarrow> string" where
  "missing_field name = name @ '' is required''"

definition build_hello_request_at :: "(bytes \<Rightarrow> bytes \<Rightarrow> bytes) \<Rightarrow> Config \<Rightarrow> string \<Rightarrow> string \<Rightarrow> u64 \<Rightarrow> int \<Rightarrow>
    string \<Rightarrow> SessionError + pb_HelloRequest" where
  "build_hello_request_at hmac config agent_version data_plane_version topology_revision timestamp_unix nonce =
     (let fl = \<lparr> hf_machine_id = cf_machine_id config, hf_node_id = cf_node_id config,
                 hf_agent_version = agent_version, hf_sing_box_version = data_plane_version,
                 hf_timestamp_unix = timestamp_unix, hf_nonce = nonce,
                 hf_topology_revision = topology_revision \<rparr> in
      rbind (rmap_err (\<lambda>error. Authentication (missing_field error))
              (sign_hello hmac (cf_machine_secret config) fl)) (\<lambda>signature.
      Inr \<lparr> hr_machine_id = hf_machine_id fl, hr_agent_version = hf_agent_version fl,
            hr_sing_box_version = hf_sing_box_version fl, hr_timestamp_unix = hf_timestamp_unix fl,
            hr_nonce = hf_nonce fl, hr_signature = signature,
            hr_topology_revision = hf_topology_revision fl, hr_node_id = hf_node_id fl \<rparr>))"

text \<open>The clock gives the seconds since the epoch, or the error of a clock before it.\<close>

definition unix_now :: "string + nat \<Rightarrow> SessionError + int" where
  "unix_now clock =
     rbind (rmap_err (\<lambda>error. Authentication (''system clock before Unix epoch: '' @ error)) clock) (\<lambda>seconds.
     if seconds < 2 ^ 63 then Inr (int seconds) else Inl (Authentication ''Unix timestamp exceeds i64''))"

definition hello_request :: "(bytes \<Rightarrow> bytes \<Rightarrow> bytes) \<Rightarrow> string + nat \<Rightarrow> string \<Rightarrow> PanelClient \<Rightarrow> u64 \<Rightarrow>
    SessionError + pb_HelloRequest" where
  "hello_request hmac clock nonce client topology_revision =
     rbind (unix_now clock) (\<lambda>timestamp_unix.
     build_hello_request_at hmac (pc_config client) (pc_agent_version client) (pc_data_plane_version client)
       topology_revision timestamp_unix nonce)"

section \<open>Signing every call\<close>

record SessionAuthenticator =
  sa_machine_id :: string
  sa_session_id :: string
  sa_machine_secret :: string

definition authenticator_new :: "Config \<Rightarrow> pb_Session \<Rightarrow> SessionError + SessionAuthenticator" where
  "authenticator_new config session =
     (if cf_machine_id config = [] then Inl (Authentication ''machine id is required'')
      else if cf_machine_secret config = [] then Inl (Authentication ''machine secret is required'')
      else if ss_session_id session = [] then Inl (Authentication ''session id is required'')
      else Inr \<lparr> sa_machine_id = cf_machine_id config, sa_session_id = ss_session_id session,
                 sa_machine_secret = cf_machine_secret config \<rparr>)"

text \<open>Metadata maps a key to its values; \<open>ascii_value\<close> is the check of a value by the gRPC library.\<close>

type_synonym metadata = "string \<Rightarrow> string list"

fun attach_each :: "(string \<Rightarrow> string + string) \<Rightarrow> (string \<times> string) list \<Rightarrow> metadata \<Rightarrow> SessionError + metadata" where
  "attach_each ascii_value [] md = Inr md"
| "attach_each ascii_value ((key, v) # rest) md =
     rbind (rmap_err (\<lambda>error. Metadata (''invalid value for '' @ key @ '': '' @ error)) (ascii_value v)) (\<lambda>parsed.
     attach_each ascii_value rest (md(key := [parsed])))"

definition attach_at :: "(bytes \<Rightarrow> bytes \<Rightarrow> bytes) \<Rightarrow> (string \<Rightarrow> string + string) \<Rightarrow> SessionAuthenticator \<Rightarrow>
    metadata \<Rightarrow> int \<Rightarrow> string \<Rightarrow> SessionError + metadata" where
  "attach_at hmac ascii_value auth md timestamp_unix nonce =
     rbind (rmap_err (\<lambda>error. Authentication (missing_field error))
       (session_metadata hmac (sa_machine_secret auth)
         \<lparr> sf_machine_id = sa_machine_id auth, sf_session_id = sa_session_id auth,
           sf_timestamp_unix = timestamp_unix, sf_nonce = nonce \<rparr>)) (\<lambda>entries.
     attach_each ascii_value entries md)"

definition attach :: "(bytes \<Rightarrow> bytes \<Rightarrow> bytes) \<Rightarrow> (string \<Rightarrow> string + string) \<Rightarrow> string + nat \<Rightarrow> string \<Rightarrow>
    SessionAuthenticator \<Rightarrow> metadata \<Rightarrow> SessionError + metadata" where
  "attach hmac ascii_value clock nonce auth md =
     rbind (unix_now clock) (\<lambda>timestamp_unix. attach_at hmac ascii_value auth md timestamp_unix nonce)"

definition intercept :: "(bytes \<Rightarrow> bytes \<Rightarrow> bytes) \<Rightarrow> (string \<Rightarrow> string + string) \<Rightarrow> string + nat \<Rightarrow> string \<Rightarrow>
    SessionAuthenticator \<Rightarrow> metadata \<Rightarrow> Status + metadata" where
  "intercept hmac ascii_value clock nonce auth md =
     rmap_err (\<lambda>error. \<lparr> st_code = CODE_INTERNAL, st_text = display_session_error error \<rparr>)
       (attach hmac ascii_value clock nonce auth md)"

definition authenticate :: "(bytes \<Rightarrow> bytes \<Rightarrow> bytes) \<Rightarrow> string + nat \<Rightarrow> string \<Rightarrow>
    (pb_HelloRequest \<Rightarrow> (Status, pb_Session) timed) \<Rightarrow> PanelClient \<Rightarrow> u64 \<Rightarrow>
    SessionError + (pb_Session \<times> SessionAuthenticator)" where
  "authenticate hmac clock nonce hello client topology_revision =
     rbind (hello_request hmac clock nonce client topology_revision) (\<lambda>request.
     case hello request of
       Completed descriptor \<Rightarrow>
         rbind (authenticator_new (pc_config client) descriptor) (\<lambda>auth. Inr (descriptor, auth))
     | Errored status \<Rightarrow> Inl (Stream ''auth hello'' (Rpc status))
     | Elapsed \<Rightarrow> Inl (Timeout ''auth hello'' PANEL_REQUEST_TIMEOUT))"

section \<open>Registering the control stream\<close>

datatype ControlAckStatus = AckUnspecified | AckAccepted | AckApplied | AckFailed | AckRolledBack

record pb_ControlAck =
  ca_command_id :: string
  ca_machine_id :: string
  ca_node_id :: string
  ca_revision :: u64
  ca_idempotency_key :: string
  ca_status :: ControlAckStatus
  ca_message :: string
  ca_operation_id :: string

definition validate_digest :: "string \<Rightarrow> string + unit" where
  "validate_digest digest =
     (if length digest \<noteq> 64 \<or> (case hex_decode digest of None \<Rightarrow> True | Some octets \<Rightarrow> length octets \<noteq> 32)
      then Inl (''invalid topology digest '' @ debug_str digest @ ''; expected 64 hex characters'')
      else Inr ())"

text \<open>\<open>to_str\<close> reads a metadata value as text.\<close>

definition single_ascii_metadata :: "(string \<Rightarrow> string + string) \<Rightarrow> metadata \<Rightarrow> string \<Rightarrow> string + string" where
  "single_ascii_metadata to_str md key =
     (case md key of
        [] \<Rightarrow> Inl (''missing '' @ key)
      | [v] \<Rightarrow> rmap_err (\<lambda>error. key @ '' is not ASCII: '' @ error) (to_str v)
      | _ \<Rightarrow> Inl (key @ '' must occur exactly once''))"

definition validate_control_metadata :: "(string \<Rightarrow> string + string) \<Rightarrow> metadata \<Rightarrow> SessionError + string" where
  "validate_control_metadata to_str md =
     rbind (rmap_err (\<lambda>message. ControlRegistration (''ready marker: '' @ message))
       (single_ascii_metadata to_str md CONTROL_READY_METADATA_KEY)) (\<lambda>ready.
     if ready \<noteq> ''1''
     then Inl (ControlRegistration ''server did not confirm registration with x-acp-control-ready=1'')
     else
       rbind (rmap_err (\<lambda>message. ControlRegistration (''topology digest: '' @ message))
         (single_ascii_metadata to_str md CONTROL_TOPOLOGY_DIGEST_METADATA_KEY)) (\<lambda>digest.
       rbind (rmap_err ControlRegistration (validate_digest digest)) (\<lambda>_. Inr digest)))"

text \<open>The reply to the registration call is the response metadata with the end of the bounded wait for
  the first message. \<open>None\<close> is the panic of \<open>expect_err\<close>.\<close>

definition open_control_stream :: "(string \<Rightarrow> string + string) \<Rightarrow>
    (Status, metadata \<times> (Status, 'command option) timed) timed \<Rightarrow> (SessionError + string) option" where
  "open_control_stream to_str response =
     (case response of
        Errored status \<Rightarrow> Some (Inl (Stream ''control stream registration'' (Rpc status)))
      | Elapsed \<Rightarrow> Some (Inl (Timeout ''control stream registration'' PANEL_REQUEST_TIMEOUT))
      | Completed (md, first_message) \<Rightarrow>
          let metadata_result = validate_control_metadata to_str md in
          if single_ascii_metadata to_str md CONTROL_READY_METADATA_KEY \<noteq> Inr ''1''
          then (case metadata_result of
                  Inr _ \<Rightarrow> None
                | Inl metadata_error \<Rightarrow>
                    (case first_message of
                       Errored status \<Rightarrow> Some (Inl (Stream ''control stream registration'' (Rpc status)))
                     | _ \<Rightarrow> Some (Inl metadata_error)))
          else Some metadata_result)"

definition control_ready_ack :: "string \<Rightarrow> u64 \<Rightarrow> SessionError + pb_ControlAck" where
  "control_ready_ack digest revision =
     rbind (rmap_err ControlRegistration (validate_digest digest)) (\<lambda>_.
     if revision = 0 then Inl (ControlRegistration ''topology revision is required'')
     else Inr \<lparr> ca_command_id = [], ca_machine_id = [], ca_node_id = [], ca_revision = revision,
                ca_idempotency_key = CONTROL_CLIENT_READY_KEY, ca_status = AckApplied,
                ca_message = digest, ca_operation_id = [] \<rparr>)"

section \<open>The reconnect loop\<close>

record RetryPolicy =
  rp_initial :: nat
  rp_max :: nat
  rp_stable_after :: nat

definition RetryPolicy_default :: RetryPolicy where
  "RetryPolicy_default = \<lparr> rp_initial = SESSION_BACKOFF_INITIAL, rp_max = SESSION_BACKOFF_MAX,
     rp_stable_after = STABLE_SESSION_RESET_AFTER \<rparr>"

text \<open>What one pass of the loop observes: the token at the head of the loop, the result of the attempt
  (\<open>None\<close> when the shutdown came first), the token after it, the time the attempt took, the draw of
  the jitter and whether the shutdown ended the sleep.\<close>

record pass =
  ps_cancelled :: bool
  ps_result :: "(SessionError + unit) option"
  ps_cancelled_after :: bool
  ps_elapsed :: nat
  ps_random :: "nat \<Rightarrow> nat"
  ps_cancelled_asleep :: bool

text \<open>The sleeps of the loop, and its result when the passes reach it.\<close>

fun panel_sessions :: "RetryPolicy \<Rightarrow> ExponentialBackoff \<Rightarrow> pass list \<Rightarrow> nat list \<times> (SessionError + unit) option" where
  "panel_sessions policy backoff [] = ([], None)"
| "panel_sessions policy backoff (p # rest) =
     (if ps_cancelled p then ([], Some (Inr ()))
      else case ps_result p of
        None \<Rightarrow> ([], Some (Inr ()))
      | Some result \<Rightarrow>
          if ps_cancelled_after p then ([], Some (Inr ()))
          else case result of
            Inr _ \<Rightarrow> panel_sessions policy (reset backoff) rest
          | Inl error \<Rightarrow>
              let backoff = (if rp_stable_after policy < ps_elapsed p then reset backoff else backoff);
                  (backoff, delay) = next_delay (ps_random p) backoff in
              if ps_cancelled_asleep p then ([delay], Some (Inr ()))
              else let (sleeps, ended) = panel_sessions policy backoff rest in (delay # sleeps, ended))"

definition run_panel_sessions :: "pass list \<Rightarrow> nat list \<times> (SessionError + unit) option" where
  "run_panel_sessions passes =
     panel_sessions RetryPolicy_default
       (backoff_new (rp_initial RetryPolicy_default) (rp_max RetryPolicy_default)) passes"

text \<open>An auxiliary stream: its runner always ends with a result.\<close>

fun auxiliary_stream :: "RetryPolicy \<Rightarrow> ExponentialBackoff \<Rightarrow> pass list \<Rightarrow> nat list \<times> (SessionError + unit) option" where
  "auxiliary_stream policy backoff [] = ([], None)"
| "auxiliary_stream policy backoff (p # rest) =
     (if ps_cancelled p then ([], Some (Inr ()))
      else case ps_result p of
        None \<Rightarrow> ([], None)
      | Some result \<Rightarrow>
          if ps_cancelled_after p \<or> \<not> isl result then ([], Some (Inr ()))
          else let error = projl result in
            if is_unauthenticated error then ([], Some (Inl error))
            else
              let backoff = (if rp_stable_after policy < ps_elapsed p then reset backoff else backoff);
                  (backoff, delay) = next_delay (ps_random p) backoff in
              if ps_cancelled_asleep p then ([delay], Some (Inr ()))
              else let (sleeps, ended) = auxiliary_stream policy backoff rest in (delay # sleeps, ended))"

definition run_auxiliary_stream :: "RetryPolicy \<Rightarrow> pass list \<Rightarrow> nat list \<times> (SessionError + unit) option" where
  "run_auxiliary_stream policy passes =
     auxiliary_stream policy (backoff_new (rp_initial policy) (rp_max policy)) passes"

section \<open>The group of streams\<close>

text \<open>The results of the spawned tasks, from the end of the runner and the token at that moment.\<close>

definition auxiliary_result :: "string \<Rightarrow> SessionError + unit \<Rightarrow> SessionError + unit" where
  "auxiliary_result name result = rmap_err (Stream name) result"

definition critical_result :: "string \<Rightarrow> bool \<Rightarrow> SessionError + unit \<Rightarrow> SessionError + unit" where
  "critical_result name cancelled result =
     (if cancelled then Inr ()
      else case result of
        Inr _ \<Rightarrow> Inl (CriticalStreamEnded name)
      | Inl error \<Rightarrow> Inl (Stream name error))"

text \<open>A joined task ended with its result or failed as a task, with the message of the join error.\<close>

datatype joined = Joined "SessionError + unit" | JoinFailed string

definition task_error :: "string \<Rightarrow> string \<Rightarrow> SessionError" where
  "task_error name error = Task name error"

fun joined_error :: "joined \<Rightarrow> SessionError option" where
  "joined_error (Joined (Inr _)) = None"
| "joined_error (Joined (Inl error)) = Some error"
| "joined_error (JoinFailed error) = Some (task_error ''session stream'' error)"

text \<open>The first error of the tasks joined within the grace period.\<close>

fun drain :: "joined list \<Rightarrow> SessionError option" where
  "drain [] = None"
| "drain (j # js) = (case joined_error j of Some error \<Rightarrow> Some error | None \<Rightarrow> drain js)"

record StreamGroup =
  sg_cancelled :: bool
  sg_tasks :: nat

text \<open>What \<open>wait\<close> sees next: a task that ended, or the cancellation of the group.\<close>

datatype group_event = TaskEnded joined | GroupCancelled

text \<open>\<open>drained\<close> is the list of tasks that end within the grace period once the group is cancelled.\<close>

fun wait :: "StreamGroup \<Rightarrow> group_event list \<Rightarrow> joined list \<Rightarrow> StreamGroup \<times> (SessionError + unit) option" where
  "wait g events drained =
     (if sg_tasks g = 0 then (g, Some (Inr ()))
      else case events of
        [] \<Rightarrow> (g, None)
      | TaskEnded j # rest \<Rightarrow>
          (case joined_error j of
             None \<Rightarrow> wait (g\<lparr> sg_tasks := sg_tasks g - 1 \<rparr>) rest drained
           | Some error \<Rightarrow> (g\<lparr> sg_cancelled := True, sg_tasks := 0 \<rparr>, Some (Inl error)))
      | GroupCancelled # rest \<Rightarrow>
          (g\<lparr> sg_cancelled := True, sg_tasks := 0 \<rparr>,
           Some (case drain drained of None \<Rightarrow> Inr () | Some error \<Rightarrow> Inl error)))"

declare wait.simps [simp del]

section \<open>Topology digests\<close>

definition hex_char :: "char \<Rightarrow> bool" where
  "hex_char c \<longleftrightarrow> is_ascii_digit c \<or> 97 \<le> byte_of c \<and> byte_of c \<le> 102 \<or> 65 \<le> byte_of c \<and> byte_of c \<le> 70"

lemma nibble_hex_char: "nibble (of_nat (byte_of c)) \<noteq> None \<longleftrightarrow> hex_char c"
proof -
  have "unat (of_nat (byte_of c) :: u8) = byte_of c" by (simp add: byte_of_def unat_of_nat)
  then show ?thesis by (simp add: nibble_def hex_char_def is_ascii_digit_def word_le_nat_alt)
qed

lemma hex_pairs_iff:
  "even (length s) \<Longrightarrow> (case hex_pairs (str_bytes s) of None \<Rightarrow> \<not> list_all hex_char s
     | Some octets \<Rightarrow> list_all hex_char s \<and> 2 * length octets = length s)"
proof (induction s rule: induct_list012)
  case (3 c d s)
  then show ?case
    using nibble_hex_char [of c] nibble_hex_char [of d] by (auto simp: str_bytes_def split: option.splits)
qed (simp_all add: str_bytes_def)

lemma validate_digest_iff: "validate_digest d = Inr () \<longleftrightarrow> length d = 64 \<and> list_all hex_char d"
  using hex_pairs_iff [of d] by (auto simp: validate_digest_def hex_decode_def split: option.splits)

section \<open>Registration\<close>

lemma single_ascii_iff:
  "single_ascii_metadata to_str md key = Inr t \<longleftrightarrow> (\<exists>v. md key = [v] \<and> to_str v = Inr t)"
  by (auto simp: single_ascii_metadata_def result_simps split: list.splits)

lemma validate_control_metadata_iff:
  "validate_control_metadata to_str md = Inr d \<longleftrightarrow>
     single_ascii_metadata to_str md CONTROL_READY_METADATA_KEY = Inr ''1'' \<and>
     single_ascii_metadata to_str md CONTROL_TOPOLOGY_DIGEST_METADATA_KEY = Inr d \<and>
     validate_digest d = Inr ()"
  by (auto simp: validate_control_metadata_def result_simps split: if_splits)

text \<open>C36 (registration of the control stream): the agent accepts the control stream exactly when the
  panel answered with one ready marker whose text is \<open>1\<close> and one topology digest of 64 hexadecimal
  characters, which it then uses, and no answer makes the registration panic.\<close>

theorem control_stream_accepted:
  "open_control_stream to_str response \<noteq> None \<and>
   (open_control_stream to_str response = Some (Inr digest)) =
     (\<exists>md first_message ready_value digest_value.
        response = Completed (md, first_message) \<and>
        md CONTROL_READY_METADATA_KEY = [ready_value] \<and> to_str ready_value = Inr ''1'' \<and>
        md CONTROL_TOPOLOGY_DIGEST_METADATA_KEY = [digest_value] \<and> to_str digest_value = Inr digest \<and>
        length digest = 64 \<and> list_all hex_char digest)"
proof (cases response)
  case (Completed r)
  obtain md first_message where r: "r = (md, first_message)" by fastforce
  let ?marked = "single_ascii_metadata to_str md CONTROL_READY_METADATA_KEY = Inr ''1''"
  have "open_control_stream to_str response = Some (Inr digest) \<longleftrightarrow>
      ?marked \<and> validate_control_metadata to_str md = Inr digest"
    by (auto simp: open_control_stream_def Completed r Let_def split: sum.splits timed.splits)
  also have "\<dots> \<longleftrightarrow> ?marked \<and>
      single_ascii_metadata to_str md CONTROL_TOPOLOGY_DIGEST_METADATA_KEY = Inr digest \<and>
      length digest = 64 \<and> list_all hex_char digest"
    unfolding validate_control_metadata_iff validate_digest_iff by simp
  finally have "open_control_stream to_str response = Some (Inr digest) \<longleftrightarrow> \<dots>" .
  moreover have "open_control_stream to_str response \<noteq> None"
    using validate_control_metadata_iff [of to_str md]
    by (auto simp: open_control_stream_def Completed r Let_def split: sum.splits timed.splits)
  ultimately show ?thesis unfolding single_ascii_iff by (auto simp: Completed r)
qed (simp_all add: open_control_stream_def)

section \<open>Signed calls\<close>

lemma attach_each_Inr:
  assumes "attach_each ascii_value entries md = Inr md'" and "distinct (map fst entries)"
    and "\<And>v w. ascii_value v = Inr w \<Longrightarrow> w = v"
  shows "md' key = (case map_of entries key of Some v \<Rightarrow> [v] | None \<Rightarrow> md key)"
  using assms(1,2)
proof (induction entries arbitrary: md)
  case (Cons entry rest)
  obtain k v where entry: "entry = (k, v)" by fastforce
  from Cons.prems(1) have "attach_each ascii_value rest (md(k := [v])) = Inr md'"
    by (auto simp: entry result_simps dest: assms(3))
  with Cons.IH Cons.prems(2) have
    "md' key = (case map_of rest key of Some v \<Rightarrow> [v] | None \<Rightarrow> (md(k := [v])) key)"
    by (simp add: entry)
  moreover have "map_of rest k = None" using Cons.prems(2) by (simp add: entry map_of_eq_None_iff)
  ultimately show ?case by (simp add: entry split: option.splits)
qed simp

text \<open>A call that leaves the interceptor carries exactly one value for
  each of the five authentication keys, whatever the caller had put there, with the identity of the
  session, the current time, the fresh nonce and the signature of just these four fields under the
  machine secret; every other key is as the caller left it.\<close>

lemma calls_are_signed:
  assumes "intercept hmac ascii_value clock nonce auth md = Inr md'"
    and "\<And>v w. ascii_value v = Inr w \<Longrightarrow> w = v"
  shows "\<exists>timestamp. unix_now clock = Inr timestamp \<and>
    md' ''acp-machine-id'' = [sa_machine_id auth] \<and> md' ''acp-session-id'' = [sa_session_id auth] \<and>
    md' ''acp-timestamp-unix'' = [show_int timestamp] \<and> md' ''acp-nonce'' = [nonce] \<and>
    md' ''acp-signature'' = [sign hmac (sa_machine_secret auth) (canonical_session
      \<lparr> sf_machine_id = sa_machine_id auth, sf_session_id = sa_session_id auth,
        sf_timestamp_unix = timestamp, sf_nonce = nonce \<rparr>)] \<and>
    (\<forall>key. key \<notin> {''acp-machine-id'', ''acp-session-id'', ''acp-timestamp-unix'', ''acp-nonce'', ''acp-signature''}
      \<longrightarrow> md' key = md key)"
proof -
  from assms(1) obtain timestamp entries where t: "unix_now clock = Inr timestamp"
    and e: "session_metadata hmac (sa_machine_secret auth)
         \<lparr> sf_machine_id = sa_machine_id auth, sf_session_id = sa_session_id auth,
           sf_timestamp_unix = timestamp, sf_nonce = nonce \<rparr> = Inr entries"
    and each: "attach_each ascii_value entries md = Inr md'"
    by (auto simp: intercept_def attach_def attach_at_def result_simps)
  let ?signature = "sign hmac (sa_machine_secret auth) (canonical_session
      \<lparr> sf_machine_id = sa_machine_id auth, sf_session_id = sa_session_id auth,
        sf_timestamp_unix = timestamp, sf_nonce = nonce \<rparr>)"
  have entries: "entries = [(''acp-machine-id'', sa_machine_id auth), (''acp-session-id'', sa_session_id auth),
      (''acp-timestamp-unix'', show_int timestamp), (''acp-nonce'', nonce), (''acp-signature'', ?signature)]"
    using e by (auto simp: session_metadata_def sign_session_def split: if_splits)
  have at: "md' key = (case map_of entries key of Some v \<Rightarrow> [v] | None \<Rightarrow> md key)" for key
    by (rule attach_each_Inr [OF each _ assms(2)]) (simp add: entries)
  have "md' key = md key" if "key \<notin> {''acp-machine-id'', ''acp-session-id'', ''acp-timestamp-unix'', ''acp-nonce'', ''acp-signature''}" for key
  proof -
    from that have "map_of entries key = None" unfolding entries map_of_eq_None_iff by simp
    then show ?thesis by (simp add: at)
  qed
  then show ?thesis by (intro exI [of _ timestamp] conjI) (simp_all add: t at entries)
qed

section \<open>Reconnecting\<close>

text \<open>The reference schedule: the \<open>n\<close>-th failure in a row since the last healthy or long-lived session
  doubles the initial delay \<open>n\<close> times, up to the cap.\<close>

definition scheduled :: "RetryPolicy \<Rightarrow> nat \<Rightarrow> nat" where
  "scheduled policy n = min (rp_initial policy * 2 ^ n) (rp_max policy)"

fun schedule :: "RetryPolicy \<Rightarrow> nat \<Rightarrow> pass list \<Rightarrow> nat list" where
  "schedule policy n [] = []"
| "schedule policy n (p # rest) =
     (if ps_cancelled p \<or> ps_result p = None \<or> ps_cancelled_after p then []
      else if ps_result p = Some (Inr ()) then schedule policy 0 rest
      else let n' = (if rp_stable_after policy < ps_elapsed p then 0 else n) in
        scheduled policy n' # (if ps_cancelled_asleep p then [] else schedule policy (Suc n') rest))"

definition shuts_down :: "pass \<Rightarrow> bool" where
  "shuts_down p \<longleftrightarrow> ps_cancelled p \<or> ps_result p = None \<or> ps_cancelled_after p \<or>
     ps_result p \<noteq> Some (Inr ()) \<and> ps_cancelled_asleep p"

definition fair_draw :: "pass \<Rightarrow> bool" where
  "fair_draw p \<longleftrightarrow> (\<forall>n > 0. ps_random p n < n)"

definition usable_policy :: "RetryPolicy \<Rightarrow> bool" where
  "usable_policy policy \<longleftrightarrow> 0 < rp_initial policy \<and> rp_initial policy \<le> rp_max policy \<and> rp_max policy \<le> DURATION_MAX"

text \<open>The backoff after \<open>n\<close> delays.\<close>

definition backoff_at :: "RetryPolicy \<Rightarrow> nat \<Rightarrow> ExponentialBackoff \<Rightarrow> bool" where
  "backoff_at policy n b \<longleftrightarrow> eb_initial b = rp_initial policy \<and> eb_max b = rp_max policy \<and>
     eb_current b = (case n of 0 \<Rightarrow> 0 | Suc m \<Rightarrow> scheduled policy m)"

lemma backoff_at_reset: "backoff_at policy n b \<Longrightarrow> backoff_at policy 0 (reset b)"
  by (simp add: backoff_at_def reset_def)

lemma backoff_at_new: "backoff_at policy 0 (backoff_new (rp_initial policy) (rp_max policy))"
  by (simp add: backoff_at_def backoff_new_def)

lemma backoff_at_advance:
  assumes "backoff_at policy n b" and "usable_policy policy"
  shows "backoff_at policy (Suc n) (advance b)"
proof (cases n)
  case 0
  with assms show ?thesis by (simp add: backoff_at_def usable_policy_def scheduled_def advance_def)
next
  case (Suc m)
  with advance_base [of b m] assms show ?thesis
    by (simp add: backoff_at_def usable_policy_def scheduled_def)
qed

lemma panel_sessions_schedule:
  assumes "usable_policy policy" and "backoff_at policy n b" and "list_all fair_draw passes"
  shows "snd (panel_sessions policy b passes) = (if list_ex shuts_down passes then Some (Inr ()) else None) \<and>
    list_all2 (\<lambda>delay base. base div 2 \<le> delay \<and> delay \<le> base)
      (fst (panel_sessions policy b passes)) (schedule policy n passes)"
  using assms(2,3)
proof (induction passes arbitrary: n b)
  case (Cons p rest)
  show ?case
  proof (cases "ps_cancelled p \<or> ps_result p = None \<or> ps_cancelled_after p")
    case True
    then have "panel_sessions policy b (p # rest) = ([], Some (Inr ()))" "schedule policy n (p # rest) = []"
      by (auto split: option.splits)
    moreover from True have "shuts_down p" by (auto simp: shuts_down_def)
    ultimately show ?thesis by (simp del: panel_sessions.simps schedule.simps)
  next
    case running: False
    then obtain r where r: "ps_result p = Some r" by auto
    show ?thesis
    proof (cases r)
      case (Inr u)
      with Cons.IH [OF backoff_at_reset [OF Cons.prems(1)]] Cons.prems running r
      show ?thesis by (simp add: shuts_down_def)
    next
      case (Inl error)
      define n' where "n' = (if rp_stable_after policy < ps_elapsed p then 0 else n)"
      define b0 where "b0 = (if rp_stable_after policy < ps_elapsed p then reset b else b)"
      obtain b1 delay where nd: "next_delay (ps_random p) b0 = (b1, delay)" by fastforce
      have "backoff_at policy n' b0"
        using Cons.prems(1) backoff_at_reset by (simp add: n'_def b0_def)
      moreover have "b1 = advance b0" "eb_current b1 div 2 \<le> delay" "delay \<le> eb_current b1"
        using next_delay_range [OF _ nd] Cons.prems(2) by (auto simp: fair_draw_def)
      ultimately have b1: "backoff_at policy (Suc n') b1"
        and range: "scheduled policy n' div 2 \<le> delay" "delay \<le> scheduled policy n'"
        using backoff_at_advance assms(1) by (auto simp: backoff_at_def)
      obtain sleeps ended where ss: "panel_sessions policy b1 rest = (sleeps, ended)" by fastforce
      have unfold: "panel_sessions policy b (p # rest) =
          (if ps_cancelled_asleep p then ([delay], Some (Inr ())) else (delay # sleeps, ended))"
        using running by (simp add: r Inl b0_def [symmetric] nd ss)
      have "schedule policy n (p # rest) =
          scheduled policy n' # (if ps_cancelled_asleep p then [] else schedule policy (Suc n') rest)"
        using running by (simp add: r Inl n'_def Let_def)
      then show ?thesis
        using Cons.IH [OF b1] Cons.prems(2) running range ss
        unfolding unfold by (simp add: shuts_down_def r Inl)
    qed
  qed
qed simp

text \<open>C26 (the agent never gives up on the panel): with fair jitter the reconnect loop ends only by a
  shutdown, and then without an error; the pause after each failed session lies in the upper half of
  the scheduled delay, which is one second doubled with every failure in a row, at most thirty
  seconds, and starts again after a session that ended well or lasted more than a minute.\<close>

theorem reconnect_schedule:
  assumes "list_all fair_draw passes"
  shows "snd (run_panel_sessions passes) = (if list_ex shuts_down passes then Some (Inr ()) else None) \<and>
    list_all2 (\<lambda>delay base. base div 2 \<le> delay \<and> delay \<le> base)
      (fst (run_panel_sessions passes)) (schedule RetryPolicy_default 0 passes) \<and>
    list_all (\<lambda>delay. secs 1 div 2 \<le> delay \<and> delay \<le> secs 30) (fst (run_panel_sessions passes))"
proof -
  have usable: "usable_policy RetryPolicy_default"
    by (simp add: usable_policy_def RetryPolicy_default_def SESSION_BACKOFF_INITIAL_def
        SESSION_BACKOFF_MAX_def secs_def DURATION_MAX_def)
  note main = panel_sessions_schedule [OF usable backoff_at_new assms, folded run_panel_sessions_def]
  have "secs 1 \<le> scheduled RetryPolicy_default n \<and> scheduled RetryPolicy_default n \<le> secs 30" for n
    by (simp add: scheduled_def RetryPolicy_default_def SESSION_BACKOFF_INITIAL_def SESSION_BACKOFF_MAX_def secs_def)
  then have "list_all (\<lambda>base. secs 1 \<le> base \<and> base \<le> secs 30) (schedule RetryPolicy_default n passes)" for n
    by (induction passes arbitrary: n) (simp_all add: Let_def)
  moreover have "list_all (\<lambda>delay. secs 1 div 2 \<le> delay \<and> delay \<le> secs 30) ds"
    if "list_all2 (\<lambda>delay base. base div 2 \<le> delay \<and> delay \<le> base) ds bs"
      "list_all (\<lambda>base. secs 1 \<le> base \<and> base \<le> secs 30) bs" for ds bs
    using that by (induction rule: list_all2_induct) (auto dest: div_le_mono [of "secs 1" _ 2])
  ultimately show ?thesis using main by blast
qed

definition ex_pass :: "(SessionError + unit) option \<Rightarrow> nat \<Rightarrow> pass" where
  "ex_pass result elapsed = \<lparr> ps_cancelled = False, ps_result = result, ps_cancelled_after = False,
     ps_elapsed = elapsed, ps_random = (\<lambda>n. n - 1), ps_cancelled_asleep = False \<rparr>"

theorem reconnect_schedule_witness:
  "snd (run_panel_sessions [ex_pass (Some (Inl ControlStreamClosed)) 0, ex_pass (Some (Inl ControlStreamClosed)) 0,
     ex_pass None 0]) = Some (Inr ()) \<and>
   length (fst (run_panel_sessions [ex_pass (Some (Inl ControlStreamClosed)) 0, ex_pass (Some (Inl ControlStreamClosed)) 0,
     ex_pass None 0])) = 2"
proof -
  let ?passes = "[ex_pass (Some (Inl ControlStreamClosed)) 0, ex_pass (Some (Inl ControlStreamClosed)) 0, ex_pass None 0]"
  have "list_all fair_draw ?passes" by (simp add: fair_draw_def ex_pass_def)
  from reconnect_schedule [OF this] show ?thesis
    by (auto simp: shuts_down_def ex_pass_def dest!: list_all2_lengthD)
qed

section \<open>Streams of a session\<close>

lemma auxiliary_stream_error:
  "snd (auxiliary_stream policy b passes) = Some (Inl error) \<Longrightarrow>
     is_unauthenticated error \<and> (\<exists>p \<in> set passes. ps_result p = Some (Inl error))"
proof (induction passes arbitrary: b)
  case (Cons p rest)
  show ?case
  proof (cases "ps_cancelled p \<or> ps_result p = None \<or> ps_cancelled_after p \<or> \<not> isl (the (ps_result p))")
    case True
    with Cons.prems show ?thesis by (auto split: option.splits if_splits)
  next
    case False
    then obtain e where e: "ps_result p = Some (Inl e)" by (cases "the (ps_result p)") auto
    show ?thesis
    proof (cases "is_unauthenticated e")
      case True
      with Cons.prems e False show ?thesis by simp
    next
      case other: False
      obtain b' d where nd: "next_delay (ps_random p) (if rp_stable_after policy < ps_elapsed p then reset b else b) = (b', d)"
        by fastforce
      obtain sleeps ended where "auxiliary_stream policy b' rest = (sleeps, ended)" by fastforce
      with Cons.prems Cons.IH [of b'] e False other nd show ?thesis by (auto split: if_splits)
    qed
  qed
qed simp

text \<open>What a task of an auxiliary stream can leave behind.\<close>

definition auxiliary_joined :: "joined \<Rightarrow> bool" where
  "auxiliary_joined j \<longleftrightarrow> (\<exists>name policy passes result.
     snd (run_auxiliary_stream policy passes) = Some result \<and> j = Joined (auxiliary_result name result))"

lemma auxiliary_joined_error:
  assumes "auxiliary_joined j" and "joined_error j = Some e"
  shows "\<exists>name source. e = Stream name source \<and> is_unauthenticated source"
proof -
  from assms(1) obtain name policy passes result where
    ended: "snd (run_auxiliary_stream policy passes) = Some result" and j: "j = Joined (auxiliary_result name result)"
    unfolding auxiliary_joined_def by blast
  with assms(2) obtain source where "result = Inl source" "e = Stream name source"
    by (cases result) (simp_all add: auxiliary_result_def)
  with ended auxiliary_stream_error show ?thesis unfolding run_auxiliary_stream_def by blast
qed

lemma drain_error: "drain js = Some e \<Longrightarrow> \<exists>j \<in> set js. joined_error j = Some e"
  by (induction js) (auto split: option.splits)

lemma wait_error:
  "wait g events drained = (g', Some (Inl e)) \<Longrightarrow>
     sg_cancelled g' \<and> sg_tasks g' = 0 \<and>
     (\<exists>j. (TaskEnded j \<in> set events \<or> j \<in> set drained) \<and> joined_error j = Some e)"
proof (induction events arbitrary: g)
  case Nil
  then show ?case by (simp add: wait.simps [of g] split: if_splits)
next
  case (Cons event rest)
  have step: "wait g (event # rest) drained =
      (if sg_tasks g = 0 then (g, Some (Inr ()))
       else case event of
         TaskEnded j \<Rightarrow> (case joined_error j of
             None \<Rightarrow> wait (g\<lparr> sg_tasks := sg_tasks g - 1 \<rparr>) rest drained
           | Some error \<Rightarrow> (g\<lparr> sg_cancelled := True, sg_tasks := 0 \<rparr>, Some (Inl error)))
       | GroupCancelled \<Rightarrow> (g\<lparr> sg_cancelled := True, sg_tasks := 0 \<rparr>,
           Some (case drain drained of None \<Rightarrow> Inr () | Some error \<Rightarrow> Inl error)))"
    by (subst wait.simps) (simp split: group_event.splits)
  from Cons.prems Cons.IH [of "g\<lparr> sg_tasks := sg_tasks g - 1 \<rparr>"] show ?case
    unfolding step by (auto split: if_splits group_event.splits option.splits dest: drain_error)
qed

text \<open>The traffic, telemetry, log and analysis streams of a
  session retry on their own. As long as only they have ended, the session as a whole fails only with
  an authentication failure that one of them reported, and then all its streams are cancelled and
  joined.\<close>

lemma auxiliary_failures_contained:
  assumes "\<And>j. TaskEnded j \<in> set events \<or> j \<in> set drained \<Longrightarrow> auxiliary_joined j"
    and "wait g events drained = (g', Some (Inl e))"
  shows "is_unauthenticated e \<and> (\<exists>name source. e = Stream name source) \<and> sg_cancelled g' \<and> sg_tasks g' = 0"
proof -
  from wait_error [OF assms(2)] obtain j where
    "sg_cancelled g'" "sg_tasks g' = 0" "auxiliary_joined j" "joined_error j = Some e"
    using assms(1) by blast
  with auxiliary_joined_error show ?thesis by fastforce
qed

definition ex_unauthenticated :: SessionError where
  "ex_unauthenticated = Rpc \<lparr> st_code = CODE_UNAUTHENTICATED, st_text = [] \<rparr>"

end
