(* ===== verification/Fetcher.thy ===== *)
theory Fetcher
  imports Topology_Transitions Session
begin

text \<open>
  The reads of the panel's configuration in \<open>control/fetcher.rs\<close>: the paged list of a node's users, its
  retry when the panel's snapshot moved, and the assembly of the machine's topology. The panel is a
  parameter: its answer to the request of a page may depend on the attempt and on the page.
\<close>

section \<open>Errors and calls\<close>

definition USER_PAGE_SIZE :: u32 where "USER_PAGE_SIZE = 500"
definition MAX_USER_PAGES :: nat where "MAX_USER_PAGES = 10000"
definition MAX_USER_SNAPSHOT_ATTEMPTS :: nat where "MAX_USER_SNAPSHOT_ATTEMPTS = 3"

record FetchError =
  fe_message :: string
  fe_code :: "nat option"

definition fetch_error :: "string \<Rightarrow> FetchError" where
  "fetch_error message = \<lparr> fe_message = message, fe_code = None \<rparr>"

definition fetch_error_rpc :: "string \<Rightarrow> Status \<Rightarrow> FetchError" where
  "fetch_error_rpc operation status =
     \<lparr> fe_message = operation @ '': '' @ st_text status, fe_code = Some (st_code status) \<rparr>"

definition bounded_unary :: "string \<Rightarrow> (Status, 'a) timed \<Rightarrow> FetchError + 'a" where
  "bounded_unary operation call =
     (case call of
        Completed reply \<Rightarrow> Inr reply
      | Errored status \<Rightarrow> Inl (fetch_error_rpc operation status)
      | Elapsed \<Rightarrow> Inl (fetch_error (operation @ '' timed out after '' @ debug_duration PANEL_REQUEST_TIMEOUT)))"

section \<open>The users of a node\<close>

record paging =
  pg_users :: "UserCredential list"
  pg_page_token :: string
  pg_seen_page_tokens :: "string list"
  pg_seen_user_ids :: "string list"
  pg_expected_total :: "u32 option"

definition paging_new :: paging where
  "paging_new = \<lparr> pg_users = [], pg_page_token = [], pg_seen_page_tokens = [], pg_seen_user_ids = [],
     pg_expected_total = None \<rparr>"

fun push_users :: "string \<Rightarrow> pb_UserCredential list \<Rightarrow> paging \<Rightarrow> FetchError + paging" where
  "push_users node_id [] pg = Inr pg"
| "push_users node_id (user # rest) pg =
     (if puc_user_id user = []
      then Inl (fetch_error (''list users returned empty user identity for node '' @ node_id))
      else if puc_user_id user \<in> set (pg_seen_user_ids pg)
      then Inl (fetch_error (''list users returned duplicate identity for node '' @ node_id))
      else push_users node_id rest
        (pg\<lparr> pg_seen_user_ids := puc_user_id user # pg_seen_user_ids pg,
            pg_users := pg_users pg @ [UserCredential_from user] \<rparr>))"

text \<open>After the users of a page: either the finished list, or the state for the next page.\<close>

definition turn_page :: "string \<Rightarrow> nat \<Rightarrow> pb_ListUsersResponse \<Rightarrow> paging \<Rightarrow>
    FetchError + (UserCredential list + paging)" where
  "turn_page node_id page response pg =
     (let pg = (if page = 0 then pg\<lparr> pg_expected_total := Some (lr_total_size response) \<rparr> else pg);
          total_size = unat (lr_total_size response); users = pg_users pg; token = lr_next_page_token response in
      if pg_expected_total pg \<noteq> Some (lr_total_size response)
      then Inl (fetch_error (''list users snapshot total changed for node '' @ node_id))
      else if total_size > 0 \<and> length users > total_size
      then Inl (fetch_error (''list users returned '' @ show_nat (length users) @ '' users beyond total_size='' @
        show_nat total_size @ '' for node '' @ node_id))
      else if \<not> lr_has_next response then
        if token \<noteq> []
        then Inl (fetch_error (''list users returned has_next=false with next_page_token='' @ debug_str token @
          '' for node '' @ node_id))
        else if total_size > 0 \<and> length users \<noteq> total_size
        then Inl (fetch_error (''list users snapshot incomplete for node '' @ node_id))
        else Inr (Inl users)
      else if token = []
      then Inl (fetch_error (''list users returned has_next=true without next_page_token for node '' @ node_id))
      else if lr_users response = []
      then Inl (fetch_error (''list users returned empty page with next_page_token='' @ debug_str token @
        '' for node '' @ node_id))
      else if total_size > 0 \<and> length users \<ge> total_size
      then Inl (fetch_error (''list users reached total_size='' @ show_nat total_size @
        '' but still got next_page_token='' @ debug_str token @ '' for node '' @ node_id))
      else if token = pg_page_token pg
      then Inl (fetch_error (''list users pagination did not advance page_token='' @ debug_str (pg_page_token pg) @
        '' for node '' @ node_id))
      else Inr (Inr (pg\<lparr> pg_page_token := token \<rparr>)))"

definition list_users_request :: "string \<Rightarrow> string \<Rightarrow> string \<Rightarrow> string \<Rightarrow> pb_ListUsersRequest" where
  "list_users_request machine_id session_id node_id page_token =
     \<lparr> lu_machine_id = machine_id, lu_session_id = session_id, lu_node_id = node_id,
       lu_page_size = USER_PAGE_SIZE, lu_page_token = page_token \<rparr>"

text \<open>\<open>call\<close> sends the request with a page token as the given page.\<close>

definition read_page :: "(nat \<Rightarrow> string \<Rightarrow> (Status, pb_ListUsersResponse) timed) \<Rightarrow> string \<Rightarrow> nat \<Rightarrow> paging \<Rightarrow>
    FetchError + (UserCredential list + paging)" where
  "read_page call node_id page pg =
     (if pg_page_token pg \<noteq> [] \<and> pg_page_token pg \<in> set (pg_seen_page_tokens pg)
      then Inl (fetch_error (''list users pagination repeated page_token='' @ debug_str (pg_page_token pg) @
        '' for node '' @ node_id))
      else
        let pg = (if pg_page_token pg \<noteq> []
                  then pg\<lparr> pg_seen_page_tokens := pg_page_token pg # pg_seen_page_tokens pg \<rparr> else pg) in
        rbind (bounded_unary (''list users for node '' @ node_id) (call page (pg_page_token pg))) (\<lambda>response.
        rbind (push_users node_id (lr_users response) pg) (\<lambda>pg.
        turn_page node_id page response pg)))"

fun read_pages :: "(nat \<Rightarrow> string \<Rightarrow> (Status, pb_ListUsersResponse) timed) \<Rightarrow> string \<Rightarrow> nat \<Rightarrow> nat \<Rightarrow> paging \<Rightarrow>
    FetchError + UserCredential list" where
  "read_pages call node_id 0 page pg =
     Inl (fetch_error (''list users exceeded max pages='' @ show_nat MAX_USER_PAGES @ '' for node '' @ node_id))"
| "read_pages call node_id (Suc remaining) page pg =
     rbind (read_page call node_id page pg) (\<lambda>turned.
     case turned of
       Inl users \<Rightarrow> Inr users
     | Inr pg \<Rightarrow> read_pages call node_id remaining (Suc page) pg)"

definition list_node_users_snapshot :: "(nat \<Rightarrow> string \<Rightarrow> (Status, pb_ListUsersResponse) timed) \<Rightarrow> string \<Rightarrow>
    FetchError + UserCredential list" where
  "list_node_users_snapshot call node_id = read_pages call node_id MAX_USER_PAGES 0 paging_new"

text \<open>\<open>list_users\<close> is the panel: the attempt, the page and the request.\<close>

fun snapshot_attempts :: "(nat \<Rightarrow> nat \<Rightarrow> string \<Rightarrow> (Status, pb_ListUsersResponse) timed) \<Rightarrow> string \<Rightarrow> nat \<Rightarrow> nat \<Rightarrow>
    FetchError + UserCredential list" where
  "snapshot_attempts calls node_id attempts 0 = list_node_users_snapshot (calls attempts) node_id"
| "snapshot_attempts calls node_id attempts (Suc left) =
     (case list_node_users_snapshot (calls attempts) node_id of
        Inl error \<Rightarrow> if fe_code error = Some CODE_ABORTED then snapshot_attempts calls node_id (Suc attempts) left else Inl error
      | Inr users \<Rightarrow> Inr users)"

definition list_node_users :: "(nat \<Rightarrow> nat \<Rightarrow> pb_ListUsersRequest \<Rightarrow> (Status, pb_ListUsersResponse) timed) \<Rightarrow>
    string \<Rightarrow> string \<Rightarrow> string \<Rightarrow> FetchError + UserCredential list" where
  "list_node_users list_users machine_id session_id node_id =
     (if node_id = [] then Inl (fetch_error ''list users requires node_id'')
      else snapshot_attempts
        (\<lambda>attempt page token. list_users attempt page (list_users_request machine_id session_id node_id token))
        node_id 1 (MAX_USER_SNAPSHOT_ATTEMPTS - 1))"

section \<open>The machine's topology\<close>

definition fetch_machine_config :: "(Status, pb_MachineConfig) timed \<Rightarrow> FetchError + pb_MachineConfig" where
  "fetch_machine_config call = bounded_unary ''get machine configuration'' call"

fun fetch_users :: "(string \<Rightarrow> FetchError + UserCredential list) \<Rightarrow> nat \<Rightarrow> string list \<Rightarrow> MachineTopology \<Rightarrow>
    FetchError + MachineTopology" where
  "fetch_users list index [] topology = Inr topology"
| "fetch_users list index (node_id # rest) topology =
     rbind (list node_id) (\<lambda>users.
     fetch_users list (Suc index) rest
       (replace_node_users (topology\<lparr> mt_nodes := (mt_nodes topology)[index := (mt_nodes topology ! index)\<lparr> ni_users := users \<rparr>] \<rparr>)
         node_id users))"

definition fetch_configured_topology :: "(string \<Rightarrow> FetchError + UserCredential list) \<Rightarrow> string \<Rightarrow> pb_MachineConfig \<Rightarrow>
    FetchError + MachineTopology" where
  "fetch_configured_topology list machine_id config =
     (let topology = from_machine_config machine_id (Some config) in
      fetch_users list 0 (map ni_node_id (mt_nodes topology)) topology)"

definition machine_topology :: "(string \<Rightarrow> FetchError + UserCredential list) \<Rightarrow> (Status, pb_MachineConfig) timed \<Rightarrow> string \<Rightarrow>
    FetchError + MachineTopology" where
  "machine_topology list config_call machine_id =
     rbind (fetch_machine_config config_call) (fetch_configured_topology list machine_id)"

text \<open>The reads of a control command end with its session: the read is dropped when the token is
  cancelled first.\<close>

definition cancellable :: "bool \<Rightarrow> FetchError + 'a \<Rightarrow> FetchError + 'a" where
  "cancellable cancelled result = (if cancelled then Inl (fetch_error ''control command execution canceled'') else result)"

section \<open>Complete snapshots\<close>

text \<open>The answers of one pass over the pages.\<close>

inductive page_chain :: "(nat \<Rightarrow> string \<Rightarrow> (Status, pb_ListUsersResponse) timed) \<Rightarrow> nat \<Rightarrow> string \<Rightarrow>
    pb_ListUsersResponse list \<Rightarrow> bool" for call where
  last_page: "call page token = Completed response \<Longrightarrow> \<not> lr_has_next response \<Longrightarrow> page_chain call page token [response]"
| next_page: "call page token = Completed response \<Longrightarrow> lr_has_next response \<Longrightarrow>
    page_chain call (Suc page) (lr_next_page_token response) responses \<Longrightarrow>
    page_chain call page token (response # responses)"

definition page_ids :: "pb_ListUsersResponse list \<Rightarrow> string list" where
  "page_ids responses = map puc_user_id (concat (map lr_users responses))"

lemma push_users_Inr:
  assumes "push_users node_id users pg = Inr pg'"
  shows "pg_users pg' = pg_users pg @ map UserCredential_from users \<and> [] \<notin> puc_user_id ` set users \<and>
    distinct (map puc_user_id users) \<and> set (pg_seen_user_ids pg) \<inter> puc_user_id ` set users = {} \<and>
    set (pg_seen_user_ids pg') = set (pg_seen_user_ids pg) \<union> puc_user_id ` set users \<and>
    pg_page_token pg' = pg_page_token pg \<and> pg_seen_page_tokens pg' = pg_seen_page_tokens pg \<and>
    pg_expected_total pg' = pg_expected_total pg"
  using assms
proof (induction users arbitrary: pg)
  case (Cons user rest)
  let ?pg = "pg\<lparr> pg_seen_user_ids := puc_user_id user # pg_seen_user_ids pg, pg_users := pg_users pg @ [UserCredential_from user] \<rparr>"
  from Cons.prems have "puc_user_id user \<noteq> []" "puc_user_id user \<notin> set (pg_seen_user_ids pg)"
    "push_users node_id rest ?pg = Inr pg'"
    by (auto split: if_splits)
  with Cons.IH [of ?pg] show ?case by auto
qed simp

lemma turn_page_last:
  assumes "turn_page node_id page response pg = Inr (Inl users)"
  shows "users = pg_users pg" "\<not> lr_has_next response"
    "lr_total_size response \<noteq> 0 \<Longrightarrow> unat (lr_total_size response) = length users"
    "page \<noteq> 0 \<Longrightarrow> pg_expected_total pg = Some (lr_total_size response)"
  using assms by (auto simp: turn_page_def Let_def unat_gt_0 split: if_splits)

lemma turn_page_next:
  assumes "turn_page node_id page response pg = Inr (Inr pg')"
  shows "pg_users pg' = pg_users pg" "lr_has_next response" "pg_page_token pg' = lr_next_page_token response"
    "pg_seen_user_ids pg' = pg_seen_user_ids pg" "pg_expected_total pg' = Some (lr_total_size response)"
    "page \<noteq> 0 \<Longrightarrow> pg_expected_total pg = Some (lr_total_size response)"
  using assms by (auto simp: turn_page_def Let_def split: if_splits)

lemma read_page_Inr:
  assumes "read_page call node_id page pg = Inr turned"
  obtains response pg' where "call page (pg_page_token pg) = Completed response"
    "turn_page node_id page response pg' = Inr turned"
    "pg_users pg' = pg_users pg @ map UserCredential_from (lr_users response)"
    "[] \<notin> puc_user_id ` set (lr_users response)" "distinct (map puc_user_id (lr_users response))"
    "set (pg_seen_user_ids pg) \<inter> puc_user_id ` set (lr_users response) = {}"
    "set (pg_seen_user_ids pg') = set (pg_seen_user_ids pg) \<union> puc_user_id ` set (lr_users response)"
    "pg_expected_total pg' = pg_expected_total pg"
proof -
  define pg0 where "pg0 = (if pg_page_token pg \<noteq> []
    then pg\<lparr> pg_seen_page_tokens := pg_page_token pg # pg_seen_page_tokens pg \<rparr> else pg)"
  have same: "pg_users pg0 = pg_users pg" "pg_seen_user_ids pg0 = pg_seen_user_ids pg"
    "pg_expected_total pg0 = pg_expected_total pg" "pg_page_token pg0 = pg_page_token pg"
    by (simp_all add: pg0_def)
  from assms obtain response pg' where
    "bounded_unary (''list users for node '' @ node_id) (call page (pg_page_token pg0)) = Inr response"
    and push: "push_users node_id (lr_users response) pg0 = Inr pg'"
    and turn: "turn_page node_id page response pg' = Inr turned"
    unfolding read_page_def pg0_def [symmetric] Let_def by (auto simp: rbind_Inr_iff split: if_splits)
  then have "call page (pg_page_token pg) = Completed response"
    by (simp add: bounded_unary_def same split: timed.splits)
  with push_users_Inr [OF push] turn same show ?thesis by (intro that [of response pg']) simp_all
qed

lemma read_pages_Inr:
  assumes "read_pages call node_id remaining page pg = Inr users"
  shows "\<exists>responses. page_chain call page (pg_page_token pg) responses \<and>
    users = pg_users pg @ map UserCredential_from (concat (map lr_users responses)) \<and>
    [] \<notin> set (page_ids responses) \<and> distinct (page_ids responses) \<and>
    set (pg_seen_user_ids pg) \<inter> set (page_ids responses) = {} \<and>
    (\<forall>r \<in> set responses. lr_total_size r = lr_total_size (hd responses)) \<and>
    (page \<noteq> 0 \<longrightarrow> pg_expected_total pg = Some (lr_total_size (hd responses))) \<and>
    (lr_total_size (hd responses) \<noteq> 0 \<longrightarrow> length users = unat (lr_total_size (hd responses)))"
  using assms
proof (induction remaining arbitrary: page pg)
  case (Suc remaining)
  then obtain turned where rp: "read_page call node_id page pg = Inr turned"
    and rest: "(case turned of Inl users \<Rightarrow> Inr users | Inr pg \<Rightarrow> read_pages call node_id remaining (Suc page) pg) = Inr users"
    by (auto simp: rbind_Inr_iff)
  obtain response pg' where page: "call page (pg_page_token pg) = Completed response"
    "turn_page node_id page response pg' = Inr turned"
    "pg_users pg' = pg_users pg @ map UserCredential_from (lr_users response)"
    "[] \<notin> puc_user_id ` set (lr_users response)" "distinct (map puc_user_id (lr_users response))"
    "set (pg_seen_user_ids pg) \<inter> puc_user_id ` set (lr_users response) = {}"
    "set (pg_seen_user_ids pg') = set (pg_seen_user_ids pg) \<union> puc_user_id ` set (lr_users response)"
    "pg_expected_total pg' = pg_expected_total pg"
    by (rule read_page_Inr [OF rp])
  show ?case
  proof (cases turned)
    case (Inl done_users)
    note last = turn_page_last [OF page(2) [unfolded Inl]]
    from rest Inl have "users = done_users" by simp
    with last page show ?thesis
      by (intro exI [of _ "[response]"]) (auto simp: page_ids_def intro: last_page)
  next
    case (Inr pg2)
    note turned = turn_page_next [OF page(2) [unfolded Inr]]
    from Suc.IH [of "Suc page" pg2] rest Inr obtain responses where chain:
      "page_chain call (Suc page) (pg_page_token pg2) responses"
      "users = pg_users pg2 @ map UserCredential_from (concat (map lr_users responses))"
      "[] \<notin> set (page_ids responses)" "distinct (page_ids responses)"
      "set (pg_seen_user_ids pg2) \<inter> set (page_ids responses) = {}"
      "\<forall>r \<in> set responses. lr_total_size r = lr_total_size (hd responses)"
      "pg_expected_total pg2 = Some (lr_total_size (hd responses))"
      "lr_total_size (hd responses) \<noteq> 0 \<longrightarrow> length users = unat (lr_total_size (hd responses))"
      by auto
    have ids: "page_ids (response # responses) = map puc_user_id (lr_users response) @ page_ids responses"
      by (simp add: page_ids_def)
    have total: "lr_total_size (hd responses) = lr_total_size response" using chain(7) turned(5) by simp
    have "page_chain call page (pg_page_token pg) (response # responses)"
      using next_page [of call page "pg_page_token pg" response responses] page(1) turned(2,3) chain(1) by simp
    moreover have "users = pg_users pg @ map UserCredential_from (concat (map lr_users (response # responses)))"
      using chain(2) turned(1) page(3) by simp
    moreover have "distinct (page_ids (response # responses))" "[] \<notin> set (page_ids (response # responses))"
      "set (pg_seen_user_ids pg) \<inter> set (page_ids (response # responses)) = {}"
      using chain(3-5) page(4-7) turned(4) unfolding ids by (auto simp: disjoint_iff)
    moreover have "page \<noteq> 0 \<longrightarrow> pg_expected_total pg = Some (lr_total_size response)"
      using turned(6) page(8) by simp
    ultimately show ?thesis
      using chain(6,8) total by (intro exI [of _ "response # responses"]) simp
  qed
qed simp

lemma snapshot_attempts_Inr:
  "snapshot_attempts calls node_id attempts n = Inr users \<Longrightarrow>
     \<exists>attempt. list_node_users_snapshot (calls attempt) node_id = Inr users"
proof (induction n arbitrary: attempts)
  case 0
  then show ?case by auto
next
  case (Suc n)
  then show ?case by (auto split: sum.splits if_splits)
qed

text \<open>C10 (a user list is one complete snapshot): the users a read returns are the users of all pages of a
  single pass, from the first page to the one without a successor, in order; their identifiers are
  present and distinct, every page reported the same total, and the list has that many users
  unless the panel gave no total.\<close>

theorem user_list_complete:
  assumes "list_node_users list_users machine_id session_id node_id = Inr users"
  shows "\<exists>attempt responses. page_chain (\<lambda>page token. list_users attempt page
      (list_users_request machine_id session_id node_id token)) 0 [] responses \<and>
    users = map UserCredential_from (concat (map lr_users responses)) \<and>
    [] \<notin> set (page_ids responses) \<and> distinct (page_ids responses) \<and>
    (\<forall>r \<in> set responses. lr_total_size r = lr_total_size (hd responses)) \<and>
    (lr_total_size (hd responses) \<noteq> 0 \<longrightarrow> length users = unat (lr_total_size (hd responses)))"
proof -
  let ?calls = "\<lambda>attempt page token. list_users attempt page (list_users_request machine_id session_id node_id token)"
  from assms have "snapshot_attempts ?calls node_id 1 (MAX_USER_SNAPSHOT_ATTEMPTS - 1) = Inr users"
    by (simp add: list_node_users_def split: if_splits)
  from snapshot_attempts_Inr [OF this] obtain attempt where
    "read_pages (?calls attempt) node_id MAX_USER_PAGES 0 paging_new = Inr users"
    unfolding list_node_users_snapshot_def by blast
  from read_pages_Inr [OF this] show ?thesis by (auto simp: paging_new_def)
qed

definition ex_user :: "string \<Rightarrow> pb_UserCredential" where
  "ex_user i = \<lparr> puc_user_id = i, puc_name = [], puc_credential = i, puc_status = 1,
     puc_upload_speed_limit_bps = 0, puc_download_speed_limit_bps = 0 \<rparr>"

definition ex_list_users :: "nat \<Rightarrow> nat \<Rightarrow> pb_ListUsersRequest \<Rightarrow> (Status, pb_ListUsersResponse) timed" where
  "ex_list_users attempt page request =
     (if lu_page_token request = []
      then timed.Completed \<lparr> lr_users = [ex_user ''a''], lr_next_page_token = ''t'', lr_total_size = 2, lr_has_next = True \<rparr>
      else timed.Completed \<lparr> lr_users = [ex_user ''b''], lr_next_page_token = [], lr_total_size = 2, lr_has_next = False \<rparr>)"

lemma ex_read_users:
  "list_node_users ex_list_users ''m'' ''s'' ''n'' = Inr (map UserCredential_from [ex_user ''a'', ex_user ''b''])"
proof -
  obtain left where pages: "MAX_USER_PAGES = Suc (Suc left)"
    using that [of 9998] by (simp add: MAX_USER_PAGES_def)
  let ?calls = "\<lambda>attempt page token. ex_list_users attempt page (list_users_request ''m'' ''s'' ''n'' token)"
  have "list_node_users_snapshot (?calls 1) ''n'' = Inr (map UserCredential_from [ex_user ''a'', ex_user ''b''])"
    unfolding list_node_users_snapshot_def pages
    by (simp add: read_page_def paging_new_def bounded_unary_def ex_list_users_def list_users_request_def
        ex_user_def turn_page_def Let_def)
  then show ?thesis by (simp add: list_node_users_def MAX_USER_SNAPSHOT_ATTEMPTS_def numeral_2_eq_2)
qed

theorem user_list_complete_witness:
  "\<exists>responses. map UserCredential_from [ex_user ''a'', ex_user ''b''] =
     map UserCredential_from (concat (map lr_users responses)) \<and> distinct (page_ids responses)"
  using user_list_complete [OF ex_read_users] by blast

section \<open>The assembled topology\<close>

lemma read_users_normal:
  "list_node_users list_users machine_id session_id node_id = Inr users \<Longrightarrow> list_all normal_user users"
proof -
  assume "list_node_users list_users machine_id session_id node_id = Inr users"
  then have "snapshot_attempts (\<lambda>attempt page token. list_users attempt page (list_users_request machine_id session_id node_id token))
      node_id 1 (MAX_USER_SNAPSHOT_ATTEMPTS - 1) = Inr users"
    by (simp add: list_node_users_def split: if_splits)
  from snapshot_attempts_Inr [OF this] obtain call where "read_pages call node_id MAX_USER_PAGES 0 paging_new = Inr users"
    unfolding list_node_users_snapshot_def by blast
  from read_pages_Inr [OF this] show ?thesis by (auto simp: paging_new_def list_all_iff)
qed

lemma position_distinct:
  "distinct (map f xs) \<Longrightarrow> i < length xs \<Longrightarrow> position (\<lambda>x. f x = f (xs ! i)) xs = Some i"
proof (induction xs arbitrary: i)
  case (Cons x xs)
  then show ?case by (cases i) (auto simp: image_iff Bex_def in_set_conv_nth)
qed simp

lemma install_users_in_step:
  assumes "in_step d t" and "list_all normal_user users"
    and "position (\<lambda>node. ni_node_id node = node_id) (mt_nodes t) = Some i"
  shows "in_step d (replace_node_users (t\<lparr> mt_nodes := (mt_nodes t)[i := (mt_nodes t ! i)\<lparr> ni_users := users \<rparr>] \<rparr>) node_id users)"
proof -
  let ?p = "\<lambda>node. ni_node_id node = node_id"
  let ?f = "\<lambda>node. node\<lparr> ni_users := users \<rparr>"
  from assms(2) have users: "map (UserCredential_from \<circ> pb_UserCredential_from) users = users"
    by (simp add: map_idI normal_user_roundtrip list_all_iff)
  have "(mt_nodes t)[i := ?f (mt_nodes t ! i)] = update_first ?p ?f (mt_nodes t)"
    using position_update_first [OF assms(3)] by simp
  with assms(1) show ?thesis
    by (auto simp: in_step_def replace_node_users_def users map_update_first [where q = ?p and h = ?f]
        split: option.splits)
qed

lemma replace_node_users_fields [simp]:
  "mt_nodes (replace_node_users t node_id users) = mt_nodes t"
  "mt_revision (replace_node_users t node_id users) = mt_revision t"
  "mt_machine_id (replace_node_users t node_id users) = mt_machine_id t"
  by (simp_all add: replace_node_users_def split: option.splits)

lemma fetch_users_Inr:
  assumes "fetch_users list index ids t = Inr t'" and "in_step d t" and "distinct (map ni_node_id (mt_nodes t))"
    and "index + length ids = length (mt_nodes t)" and "map ni_node_id (drop index (mt_nodes t)) = ids"
    and "\<And>node_id users. list node_id = Inr users \<Longrightarrow> list_all normal_user users"
  shows "in_step d t' \<and> mt_revision t' = mt_revision t \<and> mt_machine_id t' = mt_machine_id t \<and>
    length (mt_nodes t') = length (mt_nodes t) \<and> take index (mt_nodes t') = take index (mt_nodes t) \<and>
    (\<forall>i. index \<le> i \<longrightarrow> i < length (mt_nodes t) \<longrightarrow> (\<exists>users. list (ni_node_id (mt_nodes t ! i)) = Inr users \<and>
       mt_nodes t' ! i = (mt_nodes t ! i)\<lparr> ni_users := users \<rparr>))"
  using assms(1-5)
proof (induction ids arbitrary: index t)
  case (Cons node_id rest)
  then have index: "index < length (mt_nodes t)" and id: "node_id = ni_node_id (mt_nodes t ! index)"
    and drop: "map ni_node_id (drop (Suc index) (mt_nodes t)) = rest"
    by (auto simp: Cons_nth_drop_Suc [symmetric] dest: arg_cong [where f = length])
  obtain users where users: "list node_id = Inr users"
    and rest: "fetch_users list (Suc index) rest (replace_node_users
      (t\<lparr> mt_nodes := (mt_nodes t)[index := (mt_nodes t ! index)\<lparr> ni_users := users \<rparr>] \<rparr>) node_id users) = Inr t'"
    using Cons.prems(1) by (auto simp: rbind_Inr_iff)
  define t1 where "t1 = replace_node_users
    (t\<lparr> mt_nodes := (mt_nodes t)[index := (mt_nodes t ! index)\<lparr> ni_users := users \<rparr>] \<rparr>) node_id users"
  have nodes: "mt_nodes t1 = (mt_nodes t)[index := (mt_nodes t ! index)\<lparr> ni_users := users \<rparr>]"
    "mt_revision t1 = mt_revision t" "mt_machine_id t1 = mt_machine_id t"
    by (simp_all add: t1_def)
  have ids: "map ni_node_id (mt_nodes t1) = map ni_node_id (mt_nodes t)"
    using index by (simp add: nodes map_update list_update_same_conv)
  have "in_step d t1"
    unfolding t1_def using install_users_in_step [OF Cons.prems(2) assms(6) [OF users]]
      position_distinct [OF Cons.prems(3) index] id by simp
  from Cons.IH [OF rest [folded t1_def] this] Cons.prems(3,4) ids drop index nodes(1)
  have IH: "in_step d t'" "mt_revision t' = mt_revision t1" "mt_machine_id t' = mt_machine_id t1"
    "length (mt_nodes t') = length (mt_nodes t1)" "take (Suc index) (mt_nodes t') = take (Suc index) (mt_nodes t1)"
    "\<forall>i. Suc index \<le> i \<longrightarrow> i < length (mt_nodes t1) \<longrightarrow> (\<exists>users. list (ni_node_id (mt_nodes t1 ! i)) = Inr users \<and>
       mt_nodes t' ! i = (mt_nodes t1 ! i)\<lparr> ni_users := users \<rparr>)"
    by simp_all
  have at: "mt_nodes t' ! index = (mt_nodes t ! index)\<lparr> ni_users := users \<rparr>"
    using arg_cong [OF IH(5), of "\<lambda>xs. xs ! index"] IH(4) index nodes(1) by simp
  have "take index (mt_nodes t') = take index (mt_nodes t)"
    using arg_cong [OF IH(5), of "take index"] nodes(1) by (simp add: min_def)
  moreover have "\<exists>users. list (ni_node_id (mt_nodes t ! i)) = Inr users \<and> mt_nodes t' ! i = (mt_nodes t ! i)\<lparr> ni_users := users \<rparr>"
    if "index \<le> i" "i < length (mt_nodes t)" for i
    using that IH(6) at users id nodes(1) by (cases "i = index") (auto simp: Suc_le_eq)
  ultimately show ?case using IH nodes by simp
qed simp

lemma in_step_machine_config: "in_step machine_id (from_machine_config machine_id (Some config))"
  by (auto simp: in_step_def from_machine_config_def Let_def NodeInstance_from_def NodeInstance_from_NodeConfig_def)

text \<open>With distinct node identifiers, a fetched topology
  has the revision of the configuration and its nodes in order, each with exactly the user list
  read for it, and the wire snapshot kept for the digest agrees with it, so it may be applied
  authoritatively.\<close>

lemma fetched_topology_consistent:
  assumes "machine_topology (list_node_users list_users machine_id session_id) config_call machine_id = Inr t"
    and "\<And>config. config_call = timed.Completed config \<Longrightarrow> distinct (map nc_node_id (mc_nodes config))"
  shows "\<exists>config. config_call = timed.Completed config \<and> in_step machine_id t \<and> mt_revision t = mc_revision config \<and>
    length (mt_nodes t) = length (mc_nodes config) \<and>
    (\<forall>i. i < length (mc_nodes config) \<longrightarrow> (\<exists>users.
       list_node_users list_users machine_id session_id (nc_node_id (mc_nodes config ! i)) = Inr users \<and>
       mt_nodes t ! i = (NodeInstance_from_NodeConfig (mc_nodes config ! i))\<lparr> ni_users := users \<rparr>))"
proof -
  let ?list = "list_node_users list_users machine_id session_id"
  from assms(1) obtain config where config: "config_call = timed.Completed config"
    and fetch: "fetch_configured_topology ?list machine_id config = Inr t"
    by (auto simp: machine_topology_def fetch_machine_config_def bounded_unary_def rbind_Inr_iff split: timed.splits)
  let ?t0 = "from_machine_config machine_id (Some config)"
  have nodes: "mt_nodes ?t0 = map NodeInstance_from_NodeConfig (mc_nodes config)" "mt_revision ?t0 = mc_revision config"
    by (simp_all add: from_machine_config_def Let_def)
  have ids: "ni_node_id \<circ> NodeInstance_from_NodeConfig = nc_node_id"
    by (auto simp: NodeInstance_from_NodeConfig_def)
  have "fetch_users ?list 0 (map ni_node_id (mt_nodes ?t0)) ?t0 = Inr t"
    using fetch by (simp add: fetch_configured_topology_def Let_def)
  from fetch_users_Inr [OF this in_step_machine_config _ _ _ read_users_normal] assms(2) [OF config] config
  show ?thesis by (simp add: nodes ids NodeInstance_from_NodeConfig_def)
qed

definition ex_machine_config :: pb_MachineConfig where
  "ex_machine_config = \<lparr> mc_machine_id = ''m'', mc_revision = 4,
     mc_nodes = [\<lparr> nc_node_id = ''n'', nc_provider_id = ''p'', nc_provider_config_version = 1,
       nc_provider_config_json = [], nc_traffic_analysis = None \<rparr>],
     mc_outbounds = [], mc_route = None, mc_dns = None \<rparr>"

end
