(* ===== verification/Ack_Store.thy ===== *)
theory Ack_Store
  imports Prelude
begin

text \<open>
  The idempotency cache of \<open>control/ack.rs\<close>: a first-in-first-out cache of successful acknowledgements
  by idempotency key, and the registry of execution gates that gives every key one lock while anybody
  holds or awaits it. A gate is reference counted; its destructor is a step of its own, because it
  takes the registry lock only after the last reference is gone.
\<close>

section \<open>Commands and acknowledgements\<close>

definition DEFAULT_ACK_STORE_CAPACITY :: nat where "DEFAULT_ACK_STORE_CAPACITY = 512"

datatype AckStatus = Accepted | Applied | Failed | RolledBack

record Command =
  cmd_command_id :: string
  cmd_operation_id :: string
  cmd_machine_id :: string
  cmd_node_id :: string
  cmd_revision :: u64
  cmd_idempotency_key :: string
  cmd_command_type :: string
  cmd_payload :: bytes

record Ack =
  ack_command_id :: string
  ack_operation_id :: string
  ack_machine_id :: string
  ack_node_id :: string
  ack_revision :: u64
  ack_idempotency_key :: string
  ack_status :: AckStatus
  ack_message :: string

definition Ack_default :: Ack where
  "Ack_default = \<lparr> ack_command_id = [], ack_operation_id = [], ack_machine_id = [], ack_node_id = [],
     ack_revision = 0, ack_idempotency_key = [], ack_status = Accepted, ack_message = [] \<rparr>"

datatype ExecuteError = ExecuteError

definition display_execute_error :: "ExecuteError \<Rightarrow> string" where
  "display_execute_error e = ''idempotency key is required''"

section \<open>The cache\<close>

record AckStore =
  st_seen :: "string \<rightharpoonup> Ack"
  st_order :: "string list"
  st_capacity :: nat

definition store_with_capacity :: "nat \<Rightarrow> AckStore" where
  "store_with_capacity capacity = \<lparr> st_seen = Map.empty, st_order = [], st_capacity = capacity \<rparr>"

definition store_new :: AckStore where
  "store_new = store_with_capacity DEFAULT_ACK_STORE_CAPACITY"

definition delivered_as :: "Command \<Rightarrow> Ack \<Rightarrow> Ack" where
  "delivered_as command ack = ack\<lparr> ack_command_id := cmd_command_id command, ack_operation_id := cmd_operation_id command \<rparr>"

definition replay :: "AckStore \<Rightarrow> Command \<Rightarrow> ExecuteError + Ack option" where
  "replay store command =
     (if cmd_idempotency_key command = [] then Inl ExecuteError
      else Inr (map_option (delivered_as command) (st_seen store (cmd_idempotency_key command))))"

fun evict :: "nat \<Rightarrow> string list \<Rightarrow> (string \<rightharpoonup> Ack) \<Rightarrow> string list \<times> (string \<rightharpoonup> Ack)" where
  "evict capacity [] seen = ([], seen)"
| "evict capacity (oldest # order) seen =
     (if length (oldest # order) > capacity then evict capacity order (seen(oldest := None))
      else (oldest # order, seen))"

definition enveloped :: "Command \<Rightarrow> Ack \<Rightarrow> Ack" where
  "enveloped command ack =
     ack\<lparr> ack_command_id := cmd_command_id command, ack_operation_id := cmd_operation_id command,
       ack_machine_id := cmd_machine_id command, ack_node_id := cmd_node_id command,
       ack_revision := cmd_revision command, ack_idempotency_key := cmd_idempotency_key command \<rparr>"

definition complete :: "AckStore \<Rightarrow> Command \<Rightarrow> Ack \<Rightarrow> AckStore \<times> (ExecuteError + Ack)" where
  "complete store command ack =
     (if cmd_idempotency_key command = [] then (store, Inl ExecuteError)
      else
        let ack = enveloped command ack; key = cmd_idempotency_key command in
        if ack_status ack = Failed \<or> ack_status ack = RolledBack then (store, Inr ack)
        else if st_seen store key = None then
          let (order, seen) = evict (st_capacity store) (st_order store @ [key]) ((st_seen store)(key \<mapsto> ack)) in
          (store\<lparr> st_seen := seen, st_order := order \<rparr>, Inr ack)
        else (store, Inr ack))"

definition execute :: "AckStore \<Rightarrow> Command \<Rightarrow> (Command \<Rightarrow> Ack) \<Rightarrow> AckStore \<times> (ExecuteError + Ack \<times> bool)" where
  "execute store command body =
     (case replay store command of
        Inl e \<Rightarrow> (store, Inl e)
      | Inr (Some ack) \<Rightarrow> (store, Inr (ack, True))
      | Inr None \<Rightarrow>
          (case complete store command (body command) of
             (store', Inl e) \<Rightarrow> (store', Inl e)
           | (store', Inr ack) \<Rightarrow> (store', Inr (ack, False))))"

section \<open>The cache holds the most recent successes\<close>

definition successful :: "Ack \<Rightarrow> bool" where
  "successful ack \<longleftrightarrow> ack_status ack \<noteq> Failed \<and> ack_status ack \<noteq> RolledBack"

definition store_wf :: "AckStore \<Rightarrow> bool" where
  "store_wf store \<longleftrightarrow> distinct (st_order store) \<and> set (st_order store) = dom (st_seen store) \<and>
     length (st_order store) \<le> st_capacity store \<and>
     (\<forall>key ack. st_seen store key = Some ack \<longrightarrow> key \<noteq> [] \<and> successful ack \<and> ack_idempotency_key ack = key)"

lemma evict_drop:
  "distinct order \<Longrightarrow> evict capacity order seen =
     (drop (length order - capacity) order, seen |` (- set (take (length order - capacity) order)))"
proof (induction order arbitrary: seen)
  case (Cons k order)
  show ?case
  proof (cases "length (k # order) > capacity")
    case True
    then have split: "length (k # order) - capacity = Suc (length order - capacity)" by simp
    have "(seen(k := None)) |` (- A) = seen |` (- insert k A)" for A
      by (auto simp: restrict_map_def fun_eq_iff)
    with Cons True split show ?thesis by simp
  qed (simp add: restrict_map_def)
qed (simp add: restrict_map_def)

lemma complete_store:
  assumes "store_wf store" and "cmd_idempotency_key command \<noteq> []" and "successful ack"
    and "st_seen store (cmd_idempotency_key command) = None"
  defines "key \<equiv> cmd_idempotency_key command"
  defines "n \<equiv> Suc (length (st_order store)) - st_capacity store"
  shows "fst (complete store command ack) =
    store\<lparr> st_seen := ((st_seen store)(key \<mapsto> enveloped command ack)) |` (- set (take n (st_order store @ [key]))),
      st_order := drop n (st_order store @ [key]) \<rparr>"
proof -
  have "key \<notin> set (st_order store)" using assms(1,4) by (auto simp: store_wf_def key_def)
  with assms(1) have "distinct (st_order store @ [key])" by (simp add: store_wf_def)
  from evict_drop [OF this] assms(2-4) show ?thesis
    by (simp add: complete_def Let_def successful_def enveloped_def key_def n_def)
qed

lemma complete_unchanged:
  "cmd_idempotency_key command = [] \<or> \<not> successful ack \<or> st_seen store (cmd_idempotency_key command) \<noteq> None \<Longrightarrow>
     fst (complete store command ack) = store"
  by (auto simp: complete_def Let_def successful_def enveloped_def)

lemma complete_wf:
  assumes "store_wf store"
  shows "store_wf (fst (complete store command ack))"
proof (cases "cmd_idempotency_key command = [] \<or> \<not> successful ack \<or> st_seen store (cmd_idempotency_key command) \<noteq> None")
  case True
  with complete_unchanged assms show ?thesis by metis
next
  case False
  define key where "key = cmd_idempotency_key command"
  define n where "n = Suc (length (st_order store)) - st_capacity store"
  define order where "order = st_order store @ [key]"
  have order: "distinct order" "set order = insert key (dom (st_seen store))" "length order = Suc (length (st_order store))"
    using assms False by (auto simp: store_wf_def order_def key_def)
  have "set (drop n order) = set order - set (take n order)"
    using order(1) distinct_append [of "take n order" "drop n order"] set_append [of "take n order" "drop n order"]
    by auto
  moreover have "dom (((st_seen store)(key \<mapsto> a)) |` (- set (take n order))) = set order - set (take n order)" for a
    using order(2) by (auto simp: restrict_map_def dom_def split: if_splits)
  moreover have "length (drop n order) \<le> st_capacity store" using order(3) by (simp add: n_def)
  moreover have "distinct (drop n order)" using order(1) by simp
  moreover have "\<forall>k a. (((st_seen store)(key \<mapsto> enveloped command ack)) |` (- set (take n order))) k = Some a \<longrightarrow>
      k \<noteq> [] \<and> successful a \<and> ack_idempotency_key a = k"
    using assms False by (auto simp: store_wf_def restrict_map_def key_def successful_def enveloped_def split: if_splits)
  ultimately show ?thesis
    using complete_store [OF assms, of command ack] False
    unfolding key_def [symmetric] n_def [symmetric] order_def [symmetric]
    by (simp add: store_wf_def key_def [symmetric])
qed

lemma complete_keeps:
  assumes "store_wf store" and "st_seen store key = Some a" and "st_order store = pre @ key # post"
    and "Suc (length post) < st_capacity store"
  obtains pre' post' where "st_order (fst (complete store command ack)) = pre' @ key # post'"
    "length post' \<le> Suc (length post)" "st_seen (fst (complete store command ack)) key = Some a"
proof (cases "cmd_idempotency_key command = [] \<or> \<not> successful ack \<or> st_seen store (cmd_idempotency_key command) \<noteq> None")
  case True
  then have "fst (complete store command ack) = store" by (rule complete_unchanged)
  with assms show ?thesis by (intro that [of pre post]) simp_all
next
  case False
  define other where "other = cmd_idempotency_key command"
  define n where "n = Suc (length (st_order store)) - st_capacity store"
  have "key \<noteq> other" using assms(2) False by (auto simp: other_def)
  have n: "n \<le> length pre" using assms(3,4) by (simp add: n_def)
  then have order: "drop n (st_order store @ [other]) = drop n pre @ key # post @ [other]"
    and taken: "take n (st_order store @ [other]) = take n pre"
    using assms(3) by simp_all
  have "key \<notin> set (take n pre)"
    using assms(1,3) in_set_takeD [of key n pre] by (auto simp: store_wf_def)
  then have "(((st_seen store)(other \<mapsto> enveloped command ack)) |` (- set (take n pre))) key = Some a"
    using assms(2) \<open>key \<noteq> other\<close> by (simp add: restrict_map_def)
  moreover from False have fresh: "cmd_idempotency_key command \<noteq> []" "successful ack"
    "st_seen store (cmd_idempotency_key command) = None" by auto
  note complete_store [OF assms(1) fresh, folded other_def n_def, unfolded order taken]
  ultimately show ?thesis by (intro that [of "drop n pre" "post @ [other]"]) simp_all
qed

definition complete_all :: "(Command \<times> Ack) list \<Rightarrow> AckStore \<Rightarrow> AckStore" where
  "complete_all completions store = fold (\<lambda>(command, ack) st. fst (complete st command ack)) completions store"

lemma complete_capacity [simp]: "st_capacity (fst (complete store command ack)) = st_capacity store"
  by (simp add: complete_def Let_def split: prod.splits)

lemma complete_all_keeps:
  assumes "store_wf store" and "st_seen store key = Some a" and "st_order store = pre @ key # post"
    and "length post + length completions < st_capacity store"
  shows "st_seen (complete_all completions store) key = Some a"
  using assms
proof (induction completions arbitrary: store pre post)
  case (Cons c completions)
  obtain command ack where c: "c = (command, ack)" by fastforce
  obtain pre' post' where "st_order (fst (complete store command ack)) = pre' @ key # post'"
    "length post' \<le> Suc (length post)" "st_seen (fst (complete store command ack)) key = Some a"
    using complete_keeps [OF Cons.prems(1-3)] Cons.prems(4) by (metis add_Suc_right length_Cons le_add1 less_le_trans not_less_eq add_Suc)
  with Cons.IH [OF complete_wf [OF Cons.prems(1)], of command ack pre' post'] Cons.prems(4)
  show ?case by (simp add: complete_all_def c)
qed (simp add: complete_all_def)

lemma complete_inserts:
  assumes "store_wf store" and "complete store command ack0 = (store', Inr ack)" and "successful ack"
    and "st_seen store (cmd_idempotency_key command) = None" and "0 < st_capacity store"
  obtains pre where "st_order store' = pre @ [cmd_idempotency_key command]"
    "st_seen store' (cmd_idempotency_key command) = Some ack" "ack_idempotency_key ack = cmd_idempotency_key command"
proof -
  define key where "key = cmd_idempotency_key command"
  define n where "n = Suc (length (st_order store)) - st_capacity store"
  have key: "key \<noteq> []" and ack: "ack = enveloped command ack0"
    using assms(2,4) by (auto simp: complete_def Let_def key_def split: if_splits prod.splits)
  then have "successful ack0" using assms(3) by (simp add: successful_def enveloped_def)
  from complete_store [OF assms(1) key [unfolded key_def] this assms(4)] assms(2)
  have store': "store' = store\<lparr> st_seen := ((st_seen store)(key \<mapsto> ack)) |` (- set (take n (st_order store @ [key]))),
      st_order := drop n (st_order store @ [key]) \<rparr>"
    by (simp add: ack key_def n_def)
  have n: "n \<le> length (st_order store)" using assms(5) by (simp add: n_def)
  moreover have "key \<notin> set (st_order store)" using assms(1,4) by (auto simp: store_wf_def key_def)
  then have "key \<notin> set (take n (st_order store))" by (meson in_set_takeD)
  ultimately show ?thesis
    by (intro that [of "drop n (st_order store)"])
      (simp_all add: store' key_def [symmetric] restrict_map_def, simp add: ack enveloped_def key_def)
qed

text \<open>After a command succeeded, a later delivery with the same
  idempotency key is answered from the cache, with its own delivery identifiers, and is not executed
  again, as long as fewer commands than the capacity completed in between; a failed or rolled-back
  command is not cached and leaves the cache as it was.\<close>

lemma success_replayed:
  assumes "store_wf store" and "execute store command body = (store', Inr (ack, False))"
    and "cmd_idempotency_key again = cmd_idempotency_key command"
    and "length completions < st_capacity store"
  shows "(if successful ack
     then execute (complete_all completions store') again body' =
       (complete_all completions store', Inr (delivered_as again ack, True))
     else store' = store) \<and> store_wf store'"
proof -
  from assms(2) have none: "st_seen store (cmd_idempotency_key command) = None"
    and fin: "complete store command (body command) = (store', Inr ack)"
    by (auto simp: execute_def replay_def split: if_splits option.splits prod.splits sum.splits)
  have wf: "store_wf store'" using complete_wf [OF assms(1), of command "body command"] fin by simp
  show ?thesis
  proof (cases "successful ack")
    case True
    have cap: "st_capacity store' = st_capacity store"
      using complete_capacity [of store command "body command"] fin by simp
    obtain pre where pre: "st_order store' = pre @ [cmd_idempotency_key command]"
      "st_seen store' (cmd_idempotency_key command) = Some ack"
      using complete_inserts [OF assms(1) fin True none] assms(4) by auto
    have "st_seen (complete_all completions store') (cmd_idempotency_key command) = Some ack"
      using complete_all_keeps [OF wf pre(2), of pre "[]" completions] pre(1) assms(4) cap by simp
    moreover have "cmd_idempotency_key command \<noteq> []"
      using assms(2) by (auto simp: execute_def replay_def)
    ultimately show ?thesis using True wf assms(3) by (simp add: execute_def replay_def)
  next
    case False
    with complete_unchanged [of command "body command" store] fin wf show ?thesis
      by (auto simp: complete_def Let_def successful_def enveloped_def split: if_splits prod.splits)
  qed
qed

definition ex_command :: "string \<Rightarrow> string \<Rightarrow> Command" where
  "ex_command delivery key = \<lparr> cmd_command_id = delivery, cmd_operation_id = [], cmd_machine_id = ''m'',
     cmd_node_id = [], cmd_revision = 1, cmd_idempotency_key = key, cmd_command_type = [], cmd_payload = [] \<rparr>"

end
