(* ===== verification/Execution_Gate.thy ===== *)
theory Execution_Gate
  imports Ack_Store
begin

text \<open>
  The registry of execution gates of \<open>control/ack.rs\<close>. The registry keeps a weak reference per key;
  a gate lives as long as a lane owns a strong reference to it, waiting for its lock or holding it.
  When the last reference is gone the destructor runs later, under the registry lock, and must leave
  alone an entry that another lane has replaced in the meantime.
\<close>

record gate =
  gt_key :: string
  gt_owners :: "nat set"
  gt_holder :: "nat option"

record registry =
  rg_executions :: "string \<rightharpoonup> nat"
  rg_gates :: "nat \<rightharpoonup> gate"
  rg_next :: nat

definition registry_new :: registry where
  "registry_new = \<lparr> rg_executions = Map.empty, rg_gates = Map.empty, rg_next = 0 \<rparr>"

text \<open>\<open>Weak::upgrade\<close> succeeds while the gate has an owner.\<close>

definition upgrade :: "registry \<Rightarrow> nat \<Rightarrow> gate option" where
  "upgrade r g = (case rg_gates r g of
     None \<Rightarrow> None
   | Some gate \<Rightarrow> if gt_owners gate = {} then None else Some gate)"

definition execution_gate :: "nat \<Rightarrow> string \<Rightarrow> registry \<Rightarrow> registry \<times> nat" where
  "execution_gate lane key r =
     (case Option.bind (rg_executions r key) (\<lambda>g. map_option (Pair g) (upgrade r g)) of
        Some (g, gate) \<Rightarrow>
          (r\<lparr> rg_gates := (rg_gates r)(g \<mapsto> gate\<lparr> gt_owners := insert lane (gt_owners gate) \<rparr>) \<rparr>, g)
      | None \<Rightarrow>
          let g = rg_next r in
          (\<lparr> rg_executions = (rg_executions r)(key \<mapsto> g),
             rg_gates = (rg_gates r)(g \<mapsto> \<lparr> gt_key = key, gt_owners = {lane}, gt_holder = None \<rparr>),
             rg_next = Suc g \<rparr>, g))"

text \<open>The lock is granted when nobody holds it.\<close>

definition gate_lock :: "nat \<Rightarrow> nat \<Rightarrow> registry \<Rightarrow> registry option" where
  "gate_lock lane g r =
     (case rg_gates r g of
        Some gate \<Rightarrow>
          if gt_holder gate = None \<and> lane \<in> gt_owners gate
          then Some (r\<lparr> rg_gates := (rg_gates r)(g \<mapsto> gate\<lparr> gt_holder := Some lane \<rparr>) \<rparr>)
          else None
      | None \<Rightarrow> None)"

text \<open>A permit unlocks before it gives up its reference; a cancelled waiter only gives up its
  reference.\<close>

definition release :: "nat \<Rightarrow> nat \<Rightarrow> registry \<Rightarrow> registry" where
  "release lane g r =
     (case rg_gates r g of
        Some gate \<Rightarrow>
          r\<lparr> rg_gates := (rg_gates r)(g \<mapsto> gate\<lparr>
               gt_holder := (if gt_holder gate = Some lane then None else gt_holder gate),
               gt_owners := gt_owners gate - {lane} \<rparr>) \<rparr>
      | None \<Rightarrow> r)"

definition drop_gate :: "nat \<Rightarrow> registry \<Rightarrow> registry" where
  "drop_gate g r =
     (case rg_gates r g of
        Some gate \<Rightarrow>
          if gt_owners gate = {} then
            r\<lparr> rg_executions := (if rg_executions r (gt_key gate) = Some g
                 then (rg_executions r)(gt_key gate := None) else rg_executions r),
               rg_gates := (rg_gates r)(g := None) \<rparr>
          else r
      | None \<Rightarrow> r)"

section \<open>One live gate per key\<close>

definition gate_inv :: "registry \<Rightarrow> nat \<Rightarrow> gate \<Rightarrow> bool" where
  "gate_inv r g gate \<longleftrightarrow> g < rg_next r \<and>
     (gt_owners gate \<noteq> {} \<longrightarrow> rg_executions r (gt_key gate) = Some g) \<and> set_option (gt_holder gate) \<subseteq> gt_owners gate"

definition registry_inv :: "registry \<Rightarrow> bool" where
  "registry_inv r \<longleftrightarrow> (\<forall>g gate. rg_gates r g = Some gate \<longrightarrow> gate_inv r g gate) \<and>
     (\<forall>key g. rg_executions r key = Some g \<longrightarrow>
        g < rg_next r \<and> (\<forall>gate. rg_gates r g = Some gate \<longrightarrow> gt_key gate = key))"

lemma registry_invD:
  assumes "registry_inv r"
  shows "rg_gates r g = Some gate \<Longrightarrow> gate_inv r g gate"
    and "rg_executions r key = Some g \<Longrightarrow> rg_gates r g = Some gate \<Longrightarrow> gt_key gate = key"
    and "rg_executions r key = Some g \<Longrightarrow> g < rg_next r"
  using assms by (auto simp: registry_inv_def)

lemma registry_invI:
  assumes "\<And>g gate. rg_gates r g = Some gate \<Longrightarrow> gate_inv r g gate"
    and "\<And>key g gate. rg_executions r key = Some g \<Longrightarrow> rg_gates r g = Some gate \<Longrightarrow> gt_key gate = key"
    and "\<And>key g. rg_executions r key = Some g \<Longrightarrow> g < rg_next r"
  shows "registry_inv r"
  using assms by (simp add: registry_inv_def)

definition holds :: "registry \<Rightarrow> nat \<Rightarrow> string \<Rightarrow> bool" where
  "holds r lane key \<longleftrightarrow> (\<exists>g gate. rg_gates r g = Some gate \<and> gt_key gate = key \<and> gt_holder gate = Some lane)"

lemma registry_inv_new: "registry_inv registry_new"
  by (simp add: registry_inv_def registry_new_def)

text \<open>A change of one gate that keeps its key, its entry while it is owned, and its holder among the
  owners.\<close>

lemma registry_inv_update:
  assumes "registry_inv r" and "rg_gates r g = Some gate" and "gt_key gate' = gt_key gate"
    and "gt_owners gate' \<noteq> {} \<Longrightarrow> gt_owners gate \<noteq> {}" and "set_option (gt_holder gate') \<subseteq> gt_owners gate'"
  shows "registry_inv (r\<lparr> rg_gates := (rg_gates r)(g \<mapsto> gate') \<rparr>)"
proof (rule registry_invI)
  fix h x assume h: "rg_gates (r\<lparr> rg_gates := (rg_gates r)(g \<mapsto> gate') \<rparr>) h = Some x"
  show "gate_inv (r\<lparr> rg_gates := (rg_gates r)(g \<mapsto> gate') \<rparr>) h x"
  proof (cases "h = g")
    case True
    with h registry_invD(1) [OF assms(1,2)] assms(3-5) show ?thesis by (simp add: gate_inv_def)
  next
    case False
    with h registry_invD(1) [OF assms(1), of h x] show ?thesis by (simp add: gate_inv_def)
  qed
next
  fix key h x assume "rg_executions (r\<lparr> rg_gates := (rg_gates r)(g \<mapsto> gate') \<rparr>) key = Some h"
    "rg_gates (r\<lparr> rg_gates := (rg_gates r)(g \<mapsto> gate') \<rparr>) h = Some x"
  then show "gt_key x = key"
    using registry_invD(2) [OF assms(1), of key] assms(2,3) by (cases "h = g") auto
qed (use registry_invD(3) [OF assms(1)] in simp)

lemma execution_gate_cases:
  obtains (joined) g gate where "rg_executions r key = Some g" "rg_gates r g = Some gate" "gt_owners gate \<noteq> {}"
    "execution_gate lane key r =
       (r\<lparr> rg_gates := (rg_gates r)(g \<mapsto> gate\<lparr> gt_owners := insert lane (gt_owners gate) \<rparr>) \<rparr>, g)"
  | (fresh) "\<And>g gate. rg_executions r key = Some g \<Longrightarrow> rg_gates r g = Some gate \<Longrightarrow> gt_owners gate = {}"
    "execution_gate lane key r = (\<lparr> rg_executions = (rg_executions r)(key \<mapsto> rg_next r),
       rg_gates = (rg_gates r)(rg_next r \<mapsto> \<lparr> gt_key = key, gt_owners = {lane}, gt_holder = None \<rparr>),
       rg_next = Suc (rg_next r) \<rparr>, rg_next r)"
proof (cases "Option.bind (rg_executions r key) (\<lambda>g. map_option (Pair g) (upgrade r g))")
  case None
  then show ?thesis
    by (intro fresh) (auto simp: execution_gate_def upgrade_def Let_def split: if_splits)
next
  case (Some p)
  obtain g gate where p: "p = (g, gate)" by fastforce
  with Some have "rg_executions r key = Some g" "rg_gates r g = Some gate" "gt_owners gate \<noteq> {}"
    by (auto simp: upgrade_def bind_eq_Some_conv split: option.splits if_splits)
  with Some p show ?thesis by (intro joined [of g gate]) (simp_all add: execution_gate_def)
qed

lemma registry_inv_gate:
  assumes "registry_inv r"
  shows "registry_inv (fst (execution_gate lane key r))"
proof (cases rule: execution_gate_cases [of r key lane])
  case (joined g gate)
  with registry_inv_update [OF assms joined(2), of "gate\<lparr> gt_owners := insert lane (gt_owners gate) \<rparr>"]
    registry_invD(1) [OF assms joined(2)]
  show ?thesis by (auto simp: gate_inv_def)
next
  case fresh
  let ?r = "fst (execution_gate lane key r)"
  have old: "gate_inv ?r h x" if "rg_gates r h = Some x" for h x
    using registry_invD(1) [OF assms that] fresh(1) [of h x] that by (auto simp: gate_inv_def fresh(2))
  have new: "gt_key x = k" if "rg_executions r k = Some h" "rg_gates r h = Some x" for k h x
    using registry_invD(2) [OF assms that] .
  show ?thesis
  proof (rule registry_invI)
    fix h x assume "rg_gates ?r h = Some x"
    then show "gate_inv ?r h x"
      using old [of h x] by (cases "h = rg_next r") (auto simp: fresh(2) gate_inv_def)
  next
    fix k h x assume hx: "rg_executions ?r k = Some h" "rg_gates ?r h = Some x"
    show "gt_key x = k"
    proof (cases "h = rg_next r")
      case True
      have "rg_executions r k' \<noteq> Some (rg_next r)" for k'
        using registry_invD(3) [OF assms, of k' "rg_next r"] by blast
      with True hx show ?thesis by (auto simp: fresh(2) split: if_splits)
    next
      case False
      with hx new [of k h x] show ?thesis by (auto simp: fresh(2) split: if_splits)
    qed
  next
    fix k h assume "rg_executions ?r k = Some h"
    then show "h < rg_next ?r"
      using registry_invD(3) [OF assms, of k h] by (auto simp: fresh(2) split: if_splits)
  qed
qed

lemma registry_inv_lock:
  assumes "registry_inv r" and "gate_lock lane g r = Some r'"
  shows "registry_inv r'"
proof -
  from assms(2) obtain gate where gate: "rg_gates r g = Some gate" "lane \<in> gt_owners gate"
    "r' = r\<lparr> rg_gates := (rg_gates r)(g \<mapsto> gate\<lparr> gt_holder := Some lane \<rparr>) \<rparr>"
    by (auto simp: gate_lock_def split: option.splits if_splits)
  show ?thesis unfolding gate(3) by (rule registry_inv_update [OF assms(1) gate(1)]) (use gate(2) in auto)
qed

lemma registry_inv_release:
  assumes "registry_inv r"
  shows "registry_inv (release lane g r)"
proof (cases "rg_gates r g")
  case None
  with assms show ?thesis by (simp add: release_def)
next
  case (Some gate)
  have "set_option (gt_holder gate) \<subseteq> gt_owners gate"
    using registry_invD(1) [OF assms Some] by (simp add: gate_inv_def)
  then have "registry_inv (r\<lparr> rg_gates := (rg_gates r)(g \<mapsto> gate\<lparr>
      gt_holder := (if gt_holder gate = Some lane then None else gt_holder gate), gt_owners := gt_owners gate - {lane} \<rparr>) \<rparr>)"
    by (intro registry_inv_update [OF assms Some]) (auto split: if_splits)
  with Some show ?thesis by (simp add: release_def)
qed

lemma registry_inv_drop:
  assumes "registry_inv r"
  shows "registry_inv (drop_gate g r)"
proof (cases "rg_gates r g")
  case None
  with assms show ?thesis by (simp add: drop_gate_def)
next
  case (Some gate)
  show ?thesis
  proof (cases "gt_owners gate = {}")
    case False
    with Some assms show ?thesis by (simp add: drop_gate_def)
  next
    case True
    let ?r = "drop_gate g r"
    have r: "rg_gates ?r = (rg_gates r)(g := None)" "rg_next ?r = rg_next r"
      "rg_executions ?r = (if rg_executions r (gt_key gate) = Some g then (rg_executions r)(gt_key gate := None) else rg_executions r)"
      using Some True by (simp_all add: drop_gate_def)
    show ?thesis
    proof (rule registry_invI)
      fix h x assume hx: "rg_gates ?r h = Some x"
      then have "h \<noteq> g" "rg_gates r h = Some x" by (auto simp: r split: if_splits)
      with registry_invD(1) [OF assms, of h x] show "gate_inv ?r h x" by (auto simp: gate_inv_def r)
    next
      fix k h x assume "rg_executions ?r k = Some h" "rg_gates ?r h = Some x"
      with registry_invD(2) [OF assms, of k h x] show "gt_key x = k" by (auto simp: r split: if_splits)
    next
      fix k h assume "rg_executions ?r k = Some h"
      with registry_invD(3) [OF assms, of k h] show "h < rg_next ?r" by (auto simp: r split: if_splits)
    qed
  qed
qed

text \<open>The lock of a key is exclusive although gates come and go.\<close>

lemma holds_exclusive:
  assumes "registry_inv r" and "holds r lane key" and "holds r other key"
  shows "lane = other"
proof -
  have entry: "rg_executions r key = Some g" if "rg_gates r g = Some gate" "gt_key gate = key" "gt_holder gate = Some x"
    for g gate x
    using registry_invD(1) [OF assms(1) that(1)] that(2,3) by (auto simp: gate_inv_def)
  from assms(2,3) obtain g gate h gate' where
    g: "rg_gates r g = Some gate" "gt_key gate = key" "gt_holder gate = Some lane" and
    h: "rg_gates r h = Some gate'" "gt_key gate' = key" "gt_holder gate' = Some other"
    unfolding holds_def by blast
  from entry [OF g] entry [OF h] g h show ?thesis by simp
qed

section \<open>What one lane sees\<close>

text \<open>The key of a gate, whether the lane owns a reference and whether it holds the lock.\<close>

definition view :: "registry \<Rightarrow> nat \<Rightarrow> nat \<Rightarrow> (string \<times> bool \<times> bool) option" where
  "view r lane g = map_option (\<lambda>gate. (gt_key gate, lane \<in> gt_owners gate, gt_holder gate = Some lane)) (rg_gates r g)"

lemma view_holds: "view r lane g = Some (key, True, True) \<Longrightarrow> holds r lane key"
  by (auto simp: view_def holds_def)

lemma view_gate_self:
  assumes "registry_inv r" and "execution_gate lane key r = (r', g)"
  shows "\<exists>b. view r' lane g = Some (key, True, b)"
proof (cases rule: execution_gate_cases [of r key lane])
  case (joined h gate)
  with assms(2) registry_invD(2) [OF assms(1) joined(1,2)] show ?thesis by (auto simp: view_def)
next
  case fresh
  with assms(2) show ?thesis by (auto simp: view_def)
qed

lemma view_gate_other:
  assumes "registry_inv r" and "other \<noteq> lane" and "view r lane g = Some v"
  shows "view (fst (execution_gate other key r)) lane g = Some v"
proof (cases rule: execution_gate_cases [of r key other])
  case (joined h gate)
  with assms(2,3) show ?thesis by (cases "h = g") (auto simp: view_def)
next
  case fresh
  from assms(3) obtain gate where "rg_gates r g = Some gate" by (auto simp: view_def)
  then have "g < rg_next r" using registry_invD(1) [OF assms(1)] by (simp add: gate_inv_def)
  with assms(3) fresh show ?thesis by (auto simp: view_def)
qed

lemma view_lock_self: "gate_lock lane g r = Some r' \<Longrightarrow> view r lane g = Some (key, True, b) \<Longrightarrow> view r' lane g = Some (key, True, True)"
  by (auto simp: gate_lock_def view_def split: option.splits if_splits)

lemma view_lock_other:
  "gate_lock other h r = Some r' \<Longrightarrow> other \<noteq> lane \<Longrightarrow> view r lane g = Some v \<Longrightarrow> view r' lane g = Some v"
  by (cases "h = g") (auto simp: gate_lock_def view_def split: option.splits if_splits)

lemma view_release_other:
  "other \<noteq> lane \<Longrightarrow> view r lane g = Some v \<Longrightarrow> view (release other h r) lane g = Some v"
  by (cases "h = g") (auto simp: release_def view_def split: option.splits)

lemma view_drop:
  "view r lane g = Some (key, True, b) \<Longrightarrow> view (drop_gate h r) lane g = Some (key, True, b)"
  by (cases "h = g") (auto simp: drop_gate_def view_def split: option.splits)

end
