(* ===== verification/Policy.thy ===== *)
theory Policy
  imports Wire
begin

text \<open>
  The control command of the wire protocol and the commands of \<open>policy.rs\<close>, whose only effect is the
  maintenance flag. The JSON decoder of the legacy payload is a parameter.
\<close>

record pb_MaintenanceCommand =
  mnt_enabled :: bool
  mnt_reject_new_connections :: bool
  mnt_message :: string

record pb_DiagnosticsCommand =
  dgc_action :: string
  dgc_include :: "string list"

record pb_UpgradeCommand =
  ugc_target_version :: string
  ugc_package_url :: string
  ugc_sha256 :: string

datatype Payload =
    PTopologySnapshot pb_TopologySnapshot
  | PTopologyDelta pb_TopologyDelta
  | PUserMutation pb_UserMutation
  | PMaintenance pb_MaintenanceCommand
  | PDiagnostics pb_DiagnosticsCommand
  | PUpgrade pb_UpgradeCommand
  | PTopologyRoutePatch pb_TopologyRoutePatch

record pb_ControlCommand =
  cc_command_id :: string
  cc_machine_id :: string
  cc_node_id :: string
  cc_revision :: u64
  cc_idempotency_key :: string
  cc_type :: int
  cc_legacy_payload :: bytes
  cc_operation_id :: string
  cc_base_revision :: u64
  cc_payload :: "Payload option"

datatype ControlCommandType =
    TypeUnspecified | TypeTopologySnapshot | TypeTopologyDelta | TypeMaintenance | TypeDiagnostics
  | TypeUpgrade | TypeUserMutation | TypeRoutePatch | TypeUserRefresh

definition command_type :: "int \<Rightarrow> ControlCommandType option" where
  "command_type n =
     (if n = 0 then Some TypeUnspecified else if n = 1 then Some TypeTopologySnapshot
      else if n = 2 then Some TypeTopologyDelta else if n = 5 then Some TypeMaintenance
      else if n = 6 then Some TypeDiagnostics else if n = 7 then Some TypeUpgrade
      else if n = 8 then Some TypeUserMutation else if n = 9 then Some TypeRoutePatch
      else if n = 10 then Some TypeUserRefresh else None)"

fun as_str_name :: "ControlCommandType \<Rightarrow> string" where
  "as_str_name TypeUnspecified = ''CONTROL_COMMAND_TYPE_UNSPECIFIED''"
| "as_str_name TypeTopologySnapshot = ''CONTROL_COMMAND_TYPE_TOPOLOGY_SNAPSHOT''"
| "as_str_name TypeTopologyDelta = ''CONTROL_COMMAND_TYPE_TOPOLOGY_DELTA''"
| "as_str_name TypeMaintenance = ''CONTROL_COMMAND_TYPE_MAINTENANCE''"
| "as_str_name TypeDiagnostics = ''CONTROL_COMMAND_TYPE_DIAGNOSTICS''"
| "as_str_name TypeUpgrade = ''CONTROL_COMMAND_TYPE_UPGRADE''"
| "as_str_name TypeUserMutation = ''CONTROL_COMMAND_TYPE_USER_MUTATION''"
| "as_str_name TypeRoutePatch = ''CONTROL_COMMAND_TYPE_ROUTE_PATCH''"
| "as_str_name TypeUserRefresh = ''CONTROL_COMMAND_TYPE_USER_REFRESH''"

definition decode_legacy_maintenance :: "(bytes \<Rightarrow> string + bool) \<Rightarrow> bytes \<Rightarrow> string + bool" where
  "decode_legacy_maintenance from_slice payload =
     (if payload = [] then Inl ''payload is required'' else from_slice payload)"

text \<open>The state is the maintenance flag.\<close>

definition policy_apply :: "(bytes \<Rightarrow> string + bool) \<Rightarrow> bool \<Rightarrow> pb_ControlCommand \<Rightarrow> bool \<times> (string + string)" where
  "policy_apply from_slice maintenance command =
     (case command_type (cc_type command) of
        Some TypeDiagnostics \<Rightarrow> (maintenance, Inr ''diagnostics command accepted'')
      | Some TypeMaintenance \<Rightarrow>
          (case (case cc_payload command of
                   Some (PMaintenance payload) \<Rightarrow> Inr (mnt_enabled payload)
                 | _ \<Rightarrow> decode_legacy_maintenance from_slice (cc_legacy_payload command)) of
             Inl error \<Rightarrow> (maintenance, Inl error)
           | Inr enabled \<Rightarrow> (enabled, Inr (''maintenance mode set to '' @ show_bool enabled)))
      | known \<Rightarrow> (maintenance, Inl (''unsupported control command type '' @
          (case known of None \<Rightarrow> show_int (cc_type command) | Some kind \<Rightarrow> as_str_name kind))))"

text \<open>Only a maintenance command that decodes changes the flag; a rejected command leaves it.\<close>

lemma policy_apply_flag:
  "policy_apply from_slice maintenance command = (maintenance', result) \<Longrightarrow>
     (isl result \<longrightarrow> maintenance' = maintenance) \<and>
     (maintenance' \<noteq> maintenance \<longrightarrow> command_type (cc_type command) = Some TypeMaintenance)"
  by (auto simp: policy_apply_def split: option.splits ControlCommandType.splits sum.splits Payload.splits)

end
