(* ===== verification/Control_Lanes.thy ===== *)
theory Control_Lanes
  imports Execution_Gate Policy Session
begin

text \<open>
  The command lanes of \<open>control/worker.rs\<close>: the acknowledgements on the wire, the submit side with its
  two bounded queues, and the lanes that execute commands one at a time. Lanes of several workers run
  concurrently (an old panel session may still be finishing) and share one acknowledgement store and
  one registry of gates, so the lanes are a step relation. What a command does is left open: the
  executor ends with any result or panics.
\<close>

section \<open>Acknowledgements on the wire\<close>

definition MAX_QUEUED_CONTROL_COMMANDS :: nat where "MAX_QUEUED_CONTROL_COMMANDS = 256"
definition MAX_QUEUED_USER_REFRESH_COMMANDS :: nat where "MAX_QUEUED_USER_REFRESH_COMMANDS = 256"
definition MAX_QUEUED_CONTROL_ACKS :: nat where "MAX_QUEUED_CONTROL_ACKS = 64"

record TerminalResult =
  tres_status :: AckStatus
  tres_message :: string

definition applied :: "string \<Rightarrow> TerminalResult" where
  "applied message = \<lparr> tres_status = Applied, tres_message = message \<rparr>"

definition failed :: "string \<Rightarrow> TerminalResult" where
  "failed message = \<lparr> tres_status = Failed, tres_message = message \<rparr>"

fun proto_ack_status :: "AckStatus \<Rightarrow> ControlAckStatus" where
  "proto_ack_status Accepted = AckAccepted"
| "proto_ack_status Applied = AckApplied"
| "proto_ack_status Failed = AckFailed"
| "proto_ack_status RolledBack = AckRolledBack"

definition proto_ack :: "pb_ControlCommand \<Rightarrow> AckStatus \<Rightarrow> string \<Rightarrow> pb_ControlAck" where
  "proto_ack command status message =
     \<lparr> ca_command_id = cc_command_id command, ca_machine_id = cc_machine_id command,
       ca_node_id = cc_node_id command, ca_revision = cc_revision command,
       ca_idempotency_key = cc_idempotency_key command, ca_status = proto_ack_status status,
       ca_message = message, ca_operation_id = cc_operation_id command \<rparr>"

definition ack_command_from_proto :: "pb_ControlCommand \<Rightarrow> Command" where
  "ack_command_from_proto command =
     \<lparr> cmd_command_id = cc_command_id command, cmd_operation_id = cc_operation_id command,
       cmd_machine_id = cc_machine_id command, cmd_node_id = cc_node_id command,
       cmd_revision = cc_revision command, cmd_idempotency_key = cc_idempotency_key command,
       cmd_command_type = [], cmd_payload = [] \<rparr>"

definition uses_refresh_lane :: "int \<Rightarrow> bool" where
  "uses_refresh_lane t \<longleftrightarrow> t = 10"

section \<open>Submitting\<close>

text \<open>The two queues with their capacities and the acknowledgements sent. A send of an acknowledgement
  succeeds unless the worker is cancelled or its receiver is gone.\<close>

record worker =
  wk_regular :: "pb_ControlCommand list"
  wk_refresh :: "pb_ControlCommand list"
  wk_regular_capacity :: nat
  wk_refresh_capacity :: nat
  wk_acks :: "pb_ControlAck list"
  wk_cancelled :: bool
  wk_acks_open :: bool
  wk_lanes_open :: bool

definition send_ack :: "pb_ControlAck \<Rightarrow> worker \<Rightarrow> worker option" where
  "send_ack ack w =
     (if wk_cancelled w \<or> \<not> wk_acks_open w then None
      else Some (w\<lparr> wk_acks := wk_acks w @ [ack] \<rparr>))"

text \<open>\<open>None\<close> is the error \<open>WorkerClosed\<close>, with the worker as the failed submission left it. The regular
  branch is entered once its queue has room.\<close>

definition submit :: "pb_ControlCommand \<Rightarrow> worker \<Rightarrow> worker \<times> unit option" where
  "submit command w =
     (if wk_cancelled w then (w, None)
      else if uses_refresh_lane (cc_type command) then
        (case send_ack (proto_ack command Accepted ''accepted for execution'') w of
           None \<Rightarrow> (w, None)
         | Some w1 \<Rightarrow>
             if \<not> wk_lanes_open w1 then
               (case send_ack (proto_ack command Failed ''control command worker is closed'') w1 of
                  None \<Rightarrow> (w1, None) | Some w2 \<Rightarrow> (w2, Some ()))
             else if length (wk_refresh w1) < wk_refresh_capacity w1
             then (w1\<lparr> wk_refresh := wk_refresh w1 @ [command] \<rparr>, Some ())
             else
               (case send_ack (proto_ack command Failed ''user refresh queue is full'') w1 of
                  None \<Rightarrow> (w1, None) | Some w2 \<Rightarrow> (w2, Some ())))
      else if \<not> wk_lanes_open w then (w, None)
      else
        (case send_ack (proto_ack command Accepted ''accepted for execution'') w of
           None \<Rightarrow> (w, None)
         | Some w1 \<Rightarrow> (w1\<lparr> wk_regular := wk_regular w1 @ [command] \<rparr>, Some ())))"

section \<open>The end of an execution\<close>

text \<open>How the spawned execution ends: with a result, by a panic whose payload may be text, or as a
  failed task.\<close>

datatype execution_end = Returned TerminalResult | Panicked "string option" | TaskFailed string

definition panic_message :: "string option \<Rightarrow> string" where
  "panic_message payload = (case payload of Some message \<Rightarrow> message | None \<Rightarrow> ''non-string panic payload'')"

fun execution_result :: "execution_end \<Rightarrow> TerminalResult" where
  "execution_result (Returned result) =
     (if tres_status result = Accepted then failed ''control command completed without a terminal result''
      else result)"
| "execution_result (Panicked payload) = failed (''control command execution panicked: '' @ panic_message payload)"
| "execution_result (TaskFailed error) = failed (''control command execution task failed: '' @ error)"

definition terminal_ack :: "AckStore \<Rightarrow> Command \<Rightarrow> TerminalResult \<Rightarrow> AckStore \<times> Ack" where
  "terminal_ack store generic result =
     (let ack = Ack_default\<lparr> ack_status := tres_status result, ack_message := tres_message result \<rparr> in
      if cmd_idempotency_key generic = [] then (store, ack)
      else case complete store generic ack of
        (store', Inr terminal) \<Rightarrow> (store', terminal)
      | (store', Inl error) \<Rightarrow> (store', Ack_default\<lparr> ack_status := Failed, ack_message := display_execute_error error \<rparr>))"

section \<open>The lanes as a state machine\<close>

datatype phase =
    LaneIdle
  | LaneWaiting pb_ControlCommand nat
  | LaneReady pb_ControlCommand "nat option"
  | LaneExecuting pb_ControlCommand "nat option"
  | LaneAcking pb_ControlAck
  | LaneStopped

text \<open>The last two fields record the commands a lane took and the acknowledgements it sent.\<close>

record lane =
  ln_queue :: "pb_ControlCommand list"
  ln_phase :: phase
  ln_cancelled :: bool
  ln_taken :: "pb_ControlCommand list"
  ln_sent :: "pb_ControlAck list"

record lanes =
  la_lanes :: "nat \<Rightarrow> lane"
  la_store :: AckStore
  la_registry :: registry

definition lanes_new :: "nat \<Rightarrow> lanes" where
  "lanes_new capacity =
     \<lparr> la_lanes = (\<lambda>_. \<lparr> ln_queue = [], ln_phase = LaneIdle, ln_cancelled = False, ln_taken = [], ln_sent = [] \<rparr>),
       la_store = store_with_capacity capacity, la_registry = registry_new \<rparr>"

definition set_lane :: "nat \<Rightarrow> lane \<Rightarrow> lanes \<Rightarrow> lanes" where
  "set_lane i l s = s\<lparr> la_lanes := (la_lanes s)(i := l) \<rparr>"

definition give_up :: "nat \<Rightarrow> nat option \<Rightarrow> registry \<Rightarrow> registry" where
  "give_up i execution r = (case execution of None \<Rightarrow> r | Some g \<Rightarrow> release i g r)"

abbreviation key_of :: "pb_ControlCommand \<Rightarrow> string" where
  "key_of command \<equiv> cc_idempotency_key command"

inductive lane_step :: "lanes \<Rightarrow> lanes \<Rightarrow> bool" where
  deliver:
    "lane_step s (set_lane i ((la_lanes s i)\<lparr> ln_queue := ln_queue (la_lanes s i) @ [command] \<rparr>) s)"
| cancel:
    "lane_step s (set_lane i ((la_lanes s i)\<lparr> ln_cancelled := True \<rparr>) s)"
| stop_idle:
    "ln_phase (la_lanes s i) = LaneIdle \<Longrightarrow> ln_cancelled (la_lanes s i) \<or> ln_queue (la_lanes s i) = [] \<Longrightarrow>
     lane_step s (set_lane i ((la_lanes s i)\<lparr> ln_phase := LaneStopped \<rparr>) s)"
| take_keyless:
    "ln_phase (la_lanes s i) = LaneIdle \<Longrightarrow> \<not> ln_cancelled (la_lanes s i) \<Longrightarrow>
     ln_queue (la_lanes s i) = command # rest \<Longrightarrow> key_of command = [] \<Longrightarrow>
     lane_step s (set_lane i ((la_lanes s i)\<lparr> ln_queue := rest, ln_phase := LaneReady command None,
       ln_taken := ln_taken (la_lanes s i) @ [command] \<rparr>) s)"
| take_keyed:
    "ln_phase (la_lanes s i) = LaneIdle \<Longrightarrow> \<not> ln_cancelled (la_lanes s i) \<Longrightarrow>
     ln_queue (la_lanes s i) = command # rest \<Longrightarrow> key_of command \<noteq> [] \<Longrightarrow>
     execution_gate i (key_of command) (la_registry s) = (r, g) \<Longrightarrow>
     lane_step s (set_lane i ((la_lanes s i)\<lparr> ln_queue := rest, ln_phase := LaneWaiting command g,
       ln_taken := ln_taken (la_lanes s i) @ [command] \<rparr>) (s\<lparr> la_registry := r \<rparr>))"
| get_lock:
    "ln_phase (la_lanes s i) = LaneWaiting command g \<Longrightarrow> \<not> ln_cancelled (la_lanes s i) \<Longrightarrow>
     gate_lock i g (la_registry s) = Some r \<Longrightarrow>
     lane_step s (set_lane i ((la_lanes s i)\<lparr> ln_phase := LaneReady command (Some g) \<rparr>) (s\<lparr> la_registry := r \<rparr>))"
| abandon:
    "ln_phase (la_lanes s i) = LaneWaiting command g \<Longrightarrow> ln_cancelled (la_lanes s i) \<Longrightarrow>
     lane_step s (set_lane i ((la_lanes s i)\<lparr> ln_phase := LaneStopped \<rparr>)
       (s\<lparr> la_registry := release i g (la_registry s) \<rparr>))"
| stop_ready:
    "ln_phase (la_lanes s i) = LaneReady command execution \<Longrightarrow> ln_cancelled (la_lanes s i) \<Longrightarrow>
     lane_step s (set_lane i ((la_lanes s i)\<lparr> ln_phase := LaneStopped \<rparr>)
       (s\<lparr> la_registry := give_up i execution (la_registry s) \<rparr>))"
| replay_cached:
    "ln_phase (la_lanes s i) = LaneReady command execution \<Longrightarrow> \<not> ln_cancelled (la_lanes s i) \<Longrightarrow>
     key_of command \<noteq> [] \<Longrightarrow>
     replay (la_store s) (ack_command_from_proto command) = Inr (Some cached) \<Longrightarrow>
     lane_step s (set_lane i ((la_lanes s i)\<lparr> ln_phase :=
         LaneAcking (proto_ack command (ack_status cached) (ack_message cached)) \<rparr>)
       (s\<lparr> la_registry := give_up i execution (la_registry s) \<rparr>))"
| start_execution:
    "ln_phase (la_lanes s i) = LaneReady command execution \<Longrightarrow> \<not> ln_cancelled (la_lanes s i) \<Longrightarrow>
     key_of command = [] \<or> replay (la_store s) (ack_command_from_proto command) = Inr None \<Longrightarrow>
     lane_step s (set_lane i ((la_lanes s i)\<lparr> ln_phase := LaneExecuting command execution \<rparr>) s)"
| finish_execution:
    "ln_phase (la_lanes s i) = LaneExecuting command execution \<Longrightarrow>
     terminal_ack (la_store s) (ack_command_from_proto command) (execution_result outcome) = (store, terminal) \<Longrightarrow>
     lane_step s (set_lane i ((la_lanes s i)\<lparr> ln_phase :=
         (if ln_cancelled (la_lanes s i) then LaneStopped
          else LaneAcking (proto_ack command (ack_status terminal) (ack_message terminal))) \<rparr>)
       (s\<lparr> la_store := store, la_registry := give_up i execution (la_registry s) \<rparr>))"
| send_terminal:
    "ln_phase (la_lanes s i) = LaneAcking ack \<Longrightarrow> \<not> ln_cancelled (la_lanes s i) \<Longrightarrow>
     lane_step s (set_lane i ((la_lanes s i)\<lparr> ln_phase := LaneIdle, ln_sent := ln_sent (la_lanes s i) @ [ack] \<rparr>) s)"
| lose_terminal:
    "ln_phase (la_lanes s i) = LaneAcking ack \<Longrightarrow>
     lane_step s (set_lane i ((la_lanes s i)\<lparr> ln_phase := LaneStopped \<rparr>) s)"
| destroy_gate:
    "lane_step s (s\<lparr> la_registry := drop_gate g (la_registry s) \<rparr>)"

abbreviation lane_steps :: "lanes \<Rightarrow> lanes \<Rightarrow> bool" where
  "lane_steps \<equiv> lane_step\<^sup>*\<^sup>*"

section \<open>The store during a terminal acknowledgement\<close>

lemma evict_None: "seen k = None \<Longrightarrow> snd (evict capacity order seen) k = None"
  by (induction order arbitrary: seen) auto

lemma complete_other:
  "st_seen store k = None \<Longrightarrow> k \<noteq> cmd_idempotency_key command \<Longrightarrow> st_seen (fst (complete store command ack)) k = None"
  using evict_None [of "(st_seen store)(cmd_idempotency_key command \<mapsto> enveloped command ack)" k "st_capacity store"
      "st_order store @ [cmd_idempotency_key command]"]
  by (auto simp: complete_def Let_def split: prod.splits)

lemma terminal_ack_store:
  "fst (terminal_ack store generic result) = (if cmd_idempotency_key generic = [] then store
     else fst (complete store generic (Ack_default\<lparr> ack_status := tres_status result, ack_message := tres_message result \<rparr>)))"
  by (auto simp: terminal_ack_def Let_def split: prod.splits sum.splits)

lemma terminal_ack_reply:
  "ack_status (snd (terminal_ack store generic result)) = tres_status result"
  "ack_message (snd (terminal_ack store generic result)) = tres_message result"
  by (auto simp: terminal_ack_def complete_def enveloped_def Let_def split: prod.splits)

lemma execution_result_terminal: "tres_status (execution_result outcome) \<noteq> Accepted"
  by (cases outcome) (auto simp: failed_def)

text \<open>Only applied results are cached.\<close>

definition only_applied :: "AckStore \<Rightarrow> bool" where
  "only_applied store \<longleftrightarrow> (\<forall>key ack. st_seen store key = Some ack \<longrightarrow> ack_status ack = Applied)"

lemma evict_Some: "snd (evict capacity order seen) k = Some a \<Longrightarrow> seen k = Some a"
proof (induction order arbitrary: seen)
  case (Cons x order)
  show ?case
  proof (cases "length (x # order) > capacity")
    case True
    with Cons.IH [of "seen(x := None)"] Cons.prems have "(seen(x := None)) k = Some a"
      by (simp del: fun_upd_apply)
    then show ?thesis by (simp split: if_splits)
  qed (use Cons.prems in simp)
qed simp

lemma complete_applied:
  assumes "only_applied store" and "ack_status ack \<noteq> Accepted"
  shows "only_applied (fst (complete store command ack))"
proof -
  have "ack_status a = Applied" if "st_seen (fst (complete store command ack)) k = Some a" for k a
  proof (cases "ack_status ack = Applied")
    case True
    with that assms evict_Some [of "st_capacity store" "st_order store @ [cmd_idempotency_key command]"
        "(st_seen store)(cmd_idempotency_key command \<mapsto> enveloped command ack)" k a]
    show ?thesis
      by (auto simp: complete_def Let_def only_applied_def enveloped_def split: if_splits prod.splits)
  next
    case False
    then have "\<not> successful ack" using assms(2) by (cases "ack_status ack") (auto simp: successful_def)
    with that assms(1) complete_unchanged [of command ack store] show ?thesis by (simp add: only_applied_def)
  qed
  then show ?thesis by (simp add: only_applied_def)
qed

section \<open>Exclusive execution\<close>

definition execution_ok :: "registry \<Rightarrow> nat \<Rightarrow> pb_ControlCommand \<Rightarrow> nat option \<Rightarrow> bool" where
  "execution_ok r i command execution \<longleftrightarrow>
     (case execution of
        None \<Rightarrow> key_of command = []
      | Some g \<Rightarrow> key_of command \<noteq> [] \<and> view r i g = Some (key_of command, True, True))"

definition phase_ok :: "registry \<Rightarrow> AckStore \<Rightarrow> nat \<Rightarrow> phase \<Rightarrow> bool" where
  "phase_ok r store i p \<longleftrightarrow>
     (case p of
        LaneWaiting command g \<Rightarrow> key_of command \<noteq> [] \<and> (\<exists>b. view r i g = Some (key_of command, True, b))
      | LaneReady command execution \<Rightarrow> execution_ok r i command execution
      | LaneExecuting command execution \<Rightarrow> execution_ok r i command execution \<and>
          (key_of command \<noteq> [] \<longrightarrow> st_seen store (key_of command) = None)
      | _ \<Rightarrow> True)"

definition lanes_inv :: "lanes \<Rightarrow> bool" where
  "lanes_inv s \<longleftrightarrow> registry_inv (la_registry s) \<and> store_wf (la_store s) \<and> only_applied (la_store s) \<and>
     (\<forall>i. phase_ok (la_registry s) (la_store s) i (ln_phase (la_lanes s i)))"

lemma lanes_inv_new: "lanes_inv (lanes_new capacity)"
  by (simp add: lanes_inv_def lanes_new_def registry_inv_new store_with_capacity_def store_wf_def only_applied_def
      phase_ok_def)

text \<open>A lane keeps its place while another lane works on the registry and leaves its key uncached.\<close>

lemma phase_ok_frame:
  assumes "phase_ok r store i p"
    and "\<And>g key b. view r i g = Some (key, True, b) \<Longrightarrow> view r' i g = Some (key, True, b)"
    and "\<And>command execution. p = LaneExecuting command execution \<Longrightarrow> key_of command \<noteq> [] \<Longrightarrow>
      st_seen store (key_of command) = None \<Longrightarrow> st_seen store' (key_of command) = None"
  shows "phase_ok r' store' i p"
  using assms by (cases p) (auto simp: phase_ok_def execution_ok_def split: option.splits)

lemma lanes_inv_update:
  assumes "lanes_inv s" and "registry_inv r" and "store_wf store" and "only_applied store"
    and "phase_ok r store i (ln_phase l)"
    and "\<And>j g key b. j \<noteq> i \<Longrightarrow> view (la_registry s) j g = Some (key, True, b) \<Longrightarrow> view r j g = Some (key, True, b)"
    and "\<And>j command execution. j \<noteq> i \<Longrightarrow> ln_phase (la_lanes s j) = LaneExecuting command execution \<Longrightarrow>
      key_of command \<noteq> [] \<Longrightarrow> st_seen (la_store s) (key_of command) = None \<Longrightarrow> st_seen store (key_of command) = None"
  shows "lanes_inv (set_lane i l (s\<lparr> la_store := store, la_registry := r \<rparr>))"
proof -
  have "phase_ok r store j (ln_phase (la_lanes s j))" if "j \<noteq> i" for j
  proof (rule phase_ok_frame)
    show "phase_ok (la_registry s) (la_store s) j (ln_phase (la_lanes s j))"
      using assms(1) by (simp add: lanes_inv_def)
  qed (use assms(6,7) [OF that] in blast)+
  with assms(2-5) show ?thesis by (auto simp: lanes_inv_def set_lane_def)
qed

lemma lanes_inv_local:
  assumes "lanes_inv s" and "phase_ok (la_registry s) (la_store s) i (ln_phase l)"
  shows "lanes_inv (set_lane i l s)"
  using assms by (simp add: lanes_inv_def set_lane_def)

lemma lanes_inv_registry:
  assumes "lanes_inv s" and "registry_inv r" and "phase_ok r (la_store s) i (ln_phase l)"
    and "\<And>j g key b. j \<noteq> i \<Longrightarrow> view (la_registry s) j g = Some (key, True, b) \<Longrightarrow> view r j g = Some (key, True, b)"
  shows "lanes_inv (set_lane i l (s\<lparr> la_registry := r \<rparr>))"
  using lanes_inv_update [of s r "la_store s" i l] assms by (simp add: lanes_inv_def)

lemma give_up_inv: "registry_inv r \<Longrightarrow> registry_inv (give_up i execution r)"
  by (simp add: give_up_def registry_inv_release split: option.splits)

lemma give_up_view: "j \<noteq> i \<Longrightarrow> view r j g = Some v \<Longrightarrow> view (give_up i execution r) j g = Some v"
  by (simp add: give_up_def view_release_other split: option.splits)

lemma lanes_invD:
  assumes "lanes_inv s"
  shows "registry_inv (la_registry s)" "store_wf (la_store s)" "only_applied (la_store s)"
    "phase_ok (la_registry s) (la_store s) i (ln_phase (la_lanes s i))"
  using assms by (auto simp: lanes_inv_def)

text \<open>Two lanes that execute commands with a key hold the locks of different keys.\<close>

lemma executing_distinct:
  assumes "lanes_inv s" and "i \<noteq> j" and "ln_phase (la_lanes s i) = LaneExecuting c e"
    and "ln_phase (la_lanes s j) = LaneExecuting d f" and "key_of c \<noteq> []"
  shows "key_of c \<noteq> key_of d"
proof
  assume same: "key_of c = key_of d"
  from lanes_invD(4) [OF assms(1), of i] lanes_invD(4) [OF assms(1), of j] assms(3-5) same
  have "holds (la_registry s) i (key_of c)" "holds (la_registry s) j (key_of c)"
    by (auto simp: phase_ok_def execution_ok_def split: option.splits intro: view_holds)
  with holds_exclusive [OF lanes_invD(1) [OF assms(1)]] assms(2) show False by blast
qed

lemma lanes_inv_step: "lane_step s s' \<Longrightarrow> lanes_inv s \<Longrightarrow> lanes_inv s'"
proof (induction rule: lane_step.induct)
  case (deliver s i command)
  then show ?case using lanes_invD(4) [OF deliver, of i] by (intro lanes_inv_local) simp_all
next
  case (cancel s i)
  then show ?case using lanes_invD(4) [OF cancel, of i] by (intro lanes_inv_local) simp_all
next
  case (take_keyed s i command rest r g)
  from view_gate_self [OF lanes_invD(1) [OF take_keyed(6)] take_keyed(5)] take_keyed show ?case
    using registry_inv_gate [OF lanes_invD(1) [OF take_keyed(6)], of i "key_of command"]
      view_gate_other [OF lanes_invD(1) [OF take_keyed(6)], of i _ _ _ "key_of command"]
    by (intro lanes_inv_registry) (auto simp: phase_ok_def)
next
  case (get_lock s i command g r)
  from lanes_invD(4) [OF get_lock(4), of i] get_lock(1) obtain b where
    "key_of command \<noteq> []" "view (la_registry s) i g = Some (key_of command, True, b)"
    by (auto simp: phase_ok_def)
  with get_lock view_lock_self [OF get_lock(3)] show ?case
    using registry_inv_lock [OF lanes_invD(1) [OF get_lock(4)] get_lock(3)] view_lock_other [OF get_lock(3)]
    by (intro lanes_inv_registry) (auto simp: phase_ok_def execution_ok_def)
next
  case (abandon s i command g)
  then show ?case
    by (intro lanes_inv_registry) (auto simp: phase_ok_def lanes_invD(1) registry_inv_release view_release_other)
next
  case (stop_ready s i command execution)
  then show ?case
    by (intro lanes_inv_registry) (auto simp: phase_ok_def lanes_invD(1) give_up_inv give_up_view)
next
  case (replay_cached s i command execution cached)
  then show ?case
    by (intro lanes_inv_registry) (auto simp: phase_ok_def lanes_invD(1) give_up_inv give_up_view)
next
  case (start_execution s i command execution)
  then show ?case using lanes_invD(4) [OF start_execution(4), of i]
    by (intro lanes_inv_local) (auto simp: phase_ok_def replay_def ack_command_from_proto_def split: if_splits)
next
  case (finish_execution s i command execution outcome store terminal)
  note inv = finish_execution(3)
  let ?ack = "Ack_default\<lparr> ack_status := tres_status (execution_result outcome), ack_message := tres_message (execution_result outcome) \<rparr>"
  have store: "store = (if key_of command = [] then la_store s
      else fst (complete (la_store s) (ack_command_from_proto command) ?ack))"
    using terminal_ack_store [of "la_store s" "ack_command_from_proto command" "execution_result outcome"]
      finish_execution(2) by (simp add: ack_command_from_proto_def)
  have "store_wf store" "only_applied store"
    using complete_wf complete_applied lanes_invD(2,3) [OF inv] execution_result_terminal [of outcome]
    by (simp_all add: store)
  moreover have "st_seen store (key_of d) = None"
    if "j \<noteq> i" "ln_phase (la_lanes s j) = LaneExecuting d f" "key_of d \<noteq> []" "st_seen (la_store s) (key_of d) = None" for j d f
    using executing_distinct [OF inv that(1,2) finish_execution(1) that(3)] that(4) complete_other
    by (simp add: store ack_command_from_proto_def)
  ultimately show ?case
    using inv lanes_invD(1) [OF inv]
    by (intro lanes_inv_update give_up_inv give_up_view) (simp_all add: phase_ok_def)
next
  case (destroy_gate s g)
  then show ?case
    using phase_ok_frame [OF lanes_invD(4) [OF destroy_gate] view_drop]
    by (simp add: lanes_inv_def registry_inv_drop)
qed (auto intro!: lanes_inv_local simp: phase_ok_def execution_ok_def)

lemma lanes_reachable: "lane_steps (lanes_new capacity) s \<Longrightarrow> lanes_inv s"
  by (induction rule: rtranclp_induct) (blast intro: lanes_inv_new lanes_inv_step)+

text \<open>C4 (no command runs twice at once, and no success runs again): in every reachable state of any
  number of lanes that share the store, over cancelled sessions and gates that come and go, two
  lanes never execute commands with the same idempotency key at the same time, and no lane executes a
  command whose key has a cached success.\<close>

theorem execution_exclusive:
  assumes "lane_steps (lanes_new capacity) s"
    and "ln_phase (la_lanes s i) = LaneExecuting command execution" and "key_of command \<noteq> []"
  shows "st_seen (la_store s) (key_of command) = None \<and>
    (\<forall>j other execution'. j \<noteq> i \<longrightarrow> ln_phase (la_lanes s j) = LaneExecuting other execution' \<longrightarrow>
       key_of other \<noteq> key_of command)"
proof -
  note inv = lanes_reachable [OF assms(1)]
  from lanes_invD(4) [OF inv, of i] assms(2,3) have "st_seen (la_store s) (key_of command) = None"
    by (simp add: phase_ok_def)
  moreover from executing_distinct [OF inv _ assms(2) _ assms(3)] have
    "key_of other \<noteq> key_of command" if "j \<noteq> i" "ln_phase (la_lanes s j) = LaneExecuting other execution'" for j other execution'
    using that by metis
  ultimately show ?thesis by blast
qed

section \<open>One terminal acknowledgement per command\<close>

definition answers :: "pb_ControlCommand \<Rightarrow> pb_ControlAck \<Rightarrow> bool" where
  "answers command ack \<longleftrightarrow> (\<exists>status message. status \<noteq> Accepted \<and> ack = proto_ack command status message)"

fun open_ok :: "phase \<Rightarrow> pb_ControlCommand list \<Rightarrow> bool" where
  "open_ok LaneIdle cs \<longleftrightarrow> cs = []"
| "open_ok (LaneWaiting command g) cs \<longleftrightarrow> cs = [command]"
| "open_ok (LaneReady command execution) cs \<longleftrightarrow> cs = [command]"
| "open_ok (LaneExecuting command execution) cs \<longleftrightarrow> cs = [command]"
| "open_ok (LaneAcking ack) cs \<longleftrightarrow> (\<exists>command. cs = [command] \<and> answers command ack)"
| "open_ok LaneStopped cs \<longleftrightarrow> length cs \<le> 1"

definition lane_log :: "lane \<Rightarrow> bool" where
  "lane_log l \<longleftrightarrow> (\<exists>answered cs. ln_taken l = answered @ cs \<and> list_all2 answers answered (ln_sent l) \<and>
     open_ok (ln_phase l) cs)"

lemma lane_log_set: "lane_log (la_lanes s j) \<Longrightarrow> lane_log l \<Longrightarrow> lane_log (la_lanes (set_lane i l s) j)"
  by (simp add: set_lane_def)

lemma lane_log_phase:
  assumes "lane_log l" and "ln_phase l = p" and "ln_taken l' = ln_taken l" and "ln_sent l' = ln_sent l"
    and "\<And>cs. open_ok p cs \<Longrightarrow> open_ok (ln_phase l') cs"
  shows "lane_log l'"
  using assms by (auto simp: lane_log_def)

lemma lane_log_move:
  assumes "\<And>j. lane_log (la_lanes s j)" and "ln_phase (la_lanes s i) = p" and "la_lanes s' = la_lanes s"
    and "\<And>cs. open_ok p cs \<Longrightarrow> open_ok p' cs"
  shows "lane_log (la_lanes (set_lane i ((la_lanes s i)\<lparr> ln_phase := p' \<rparr>) s') j)"
proof (rule lane_log_set)
  show "lane_log (la_lanes s' j)" using assms(1,3) by simp
  show "lane_log ((la_lanes s i)\<lparr> ln_phase := p' \<rparr>)"
    by (rule lane_log_phase [OF assms(1) assms(2)]) (simp_all add: assms(4))
qed

lemma lane_log_step:
  assumes "lane_step s s'" and "lanes_inv s" and "\<And>j. lane_log (la_lanes s j)"
  shows "lane_log (la_lanes s' j)"
  using assms
proof (induction rule: lane_step.induct)
  case (take_keyless s i command rest)
  then have "lane_log ((la_lanes s i)\<lparr> ln_queue := rest, ln_phase := LaneReady command None,
      ln_taken := ln_taken (la_lanes s i) @ [command] \<rparr>)"
    using take_keyless.prems(2) [of i] by (simp add: lane_log_def)
  then show ?case using take_keyless.prems(2) by (intro lane_log_set)
next
  case (take_keyed s i command rest r g)
  then have "lane_log ((la_lanes s i)\<lparr> ln_queue := rest, ln_phase := LaneWaiting command g,
      ln_taken := ln_taken (la_lanes s i) @ [command] \<rparr>)"
    using take_keyed.prems(2) [of i] by (simp add: lane_log_def)
  then show ?case using take_keyed.prems(2) by (intro lane_log_set) simp_all
next
  case (replay_cached s i command execution cached)
  then have "ack_status cached = Applied"
    using lanes_invD(3) by (auto simp: replay_def only_applied_def delivered_as_def split: if_splits)
  then have "answers command (proto_ack command (ack_status cached) (ack_message cached))"
    by (auto simp: answers_def)
  then show ?case by (intro lane_log_move [OF replay_cached.prems(2) replay_cached.hyps(1)]) simp_all
next
  case (finish_execution s i command execution outcome store terminal)
  have "ack_status terminal \<noteq> Accepted"
    using terminal_ack_reply [of "la_store s" "ack_command_from_proto command" "execution_result outcome"]
      finish_execution.hyps(2) execution_result_terminal [of outcome] by simp
  then have "answers command (proto_ack command (ack_status terminal) (ack_message terminal))"
    by (auto simp: answers_def)
  then show ?case by (intro lane_log_move [OF finish_execution.prems(2) finish_execution.hyps(1)]) simp_all
next
  case (send_terminal s i ack)
  then obtain answered command where "ln_taken (la_lanes s i) = answered @ [command]"
    "list_all2 answers answered (ln_sent (la_lanes s i))" "answers command ack"
    using send_terminal.prems(2) [of i] by (auto simp: lane_log_def)
  then have "list_all2 answers (answered @ [command]) (ln_sent (la_lanes s i) @ [ack])"
    by (intro list_all2_appendI) simp_all
  then have "lane_log ((la_lanes s i)\<lparr> ln_phase := LaneIdle, ln_sent := ln_sent (la_lanes s i) @ [ack] \<rparr>)"
    using \<open>ln_taken (la_lanes s i) = answered @ [command]\<close> by (simp add: lane_log_def)
  then show ?case using send_terminal.prems(2) by (intro lane_log_set)
next
  case (destroy_gate s g)
  then show ?case by simp
next
  case (deliver s i command)
  have "lane_log ((la_lanes s i)\<lparr> ln_queue := ln_queue (la_lanes s i) @ [command] \<rparr>)"
    using deliver(2) [of i] by (simp add: lane_log_def)
  with deliver(2) show ?case by (intro lane_log_set)
next
  case (cancel s i)
  have "lane_log ((la_lanes s i)\<lparr> ln_cancelled := True \<rparr>)"
    using cancel(2) [of i] by (simp add: lane_log_def)
  with cancel(2) show ?case by (intro lane_log_set)
next
  case (stop_idle s i)
  show ?case by (rule lane_log_move [OF stop_idle.prems(2) stop_idle.hyps(1)]) simp_all
next
  case (get_lock s i command g r)
  show ?case by (rule lane_log_move [OF get_lock.prems(2) get_lock.hyps(1)]) simp_all
next
  case (abandon s i command g)
  show ?case by (rule lane_log_move [OF abandon.prems(2) abandon.hyps(1)]) simp_all
next
  case (stop_ready s i command execution)
  show ?case by (rule lane_log_move [OF stop_ready.prems(2) stop_ready.hyps(1)]) simp_all
next
  case (start_execution s i command execution)
  show ?case by (rule lane_log_move [OF start_execution.prems(2) start_execution.hyps(1)]) simp_all
next
  case (lose_terminal s i ack)
  show ?case by (rule lane_log_move [OF lose_terminal.prems(2) lose_terminal.hyps(1)]) auto
qed

lemma log_reachable: "lane_steps (lanes_new capacity) s \<Longrightarrow> lane_log (la_lanes s i)"
proof (induction arbitrary: i rule: rtranclp_induct)
  case base
  show ?case by (simp add: lanes_new_def lane_log_def)
next
  case (step s s')
  from lane_log_step [OF step(2) lanes_reachable [OF step(1)] step.IH] show ?case .
qed

text \<open>C25 (one terminal acknowledgement per command, in order): the acknowledgements a lane has sent
  answer the commands it took, one each and in the order it took them, under the identifiers of
  the command and with a final status, never the provisional one; at most the command in
  progress is unanswered, and none when the lane is idle.\<close>

theorem terminal_acks_in_order:
  assumes "lane_steps (lanes_new capacity) s"
  shows "\<exists>answered cs. ln_taken (la_lanes s i) = answered @ cs \<and> length cs \<le> 1 \<and>
    (ln_phase (la_lanes s i) = LaneIdle \<longrightarrow> cs = []) \<and>
    list_all2 (\<lambda>command ack. ca_status ack \<in> {AckApplied, AckFailed, AckRolledBack} \<and>
      ca_command_id ack = cc_command_id command \<and> ca_operation_id ack = cc_operation_id command \<and>
      ca_idempotency_key ack = cc_idempotency_key command \<and> ca_revision ack = cc_revision command)
      answered (ln_sent (la_lanes s i))"
proof -
  obtain answered cs where log: "ln_taken (la_lanes s i) = answered @ cs" "open_ok (ln_phase (la_lanes s i)) cs"
    "list_all2 answers answered (ln_sent (la_lanes s i))"
    using log_reachable [OF assms, of i] by (auto simp: lane_log_def)
  have small: "length cs \<le> 1" "ln_phase (la_lanes s i) = LaneIdle \<longrightarrow> cs = []"
    using log(2) by (cases "ln_phase (la_lanes s i)"; auto)+
  have envelope: "ca_status ack \<in> {AckApplied, AckFailed, AckRolledBack} \<and>
      ca_command_id ack = cc_command_id command \<and> ca_operation_id ack = cc_operation_id command \<and>
      ca_idempotency_key ack = cc_idempotency_key command \<and> ca_revision ack = cc_revision command"
    if answer: "answers command ack" for command ack
  proof -
    from answer obtain status message where "status \<noteq> Accepted" "ack = proto_ack command status message"
      unfolding answers_def by blast
    then show ?thesis by (cases status) (simp_all add: proto_ack_def)
  qed
  have "list_all2 (\<lambda>command ack. ca_status ack \<in> {AckApplied, AckFailed, AckRolledBack} \<and>
      ca_command_id ack = cc_command_id command \<and> ca_operation_id ack = cc_operation_id command \<and>
      ca_idempotency_key ack = cc_idempotency_key command \<and> ca_revision ack = cc_revision command)
      answered (ln_sent (la_lanes s i))"
    by (rule list_all2_mono [OF log(3)]) (rule envelope)
  with small show ?thesis using log(1) by (intro exI [of _ answered] exI [of _ cs]) simp
qed

definition ex_cc :: pb_ControlCommand where
  "ex_cc = \<lparr> cc_command_id = ''c'', cc_machine_id = ''m'', cc_node_id = [], cc_revision = 3, cc_idempotency_key = ''k'',
     cc_type = 1, cc_legacy_payload = [], cc_operation_id = [], cc_base_revision = 0, cc_payload = None \<rparr>"

lemma ex_execution:
  "\<exists>s. lane_steps (lanes_new 1) s \<and> ln_phase (la_lanes s 0) = LaneExecuting ex_cc (Some 0) \<and>
     ln_taken (la_lanes s 0) = [ex_cc] \<and> ln_sent (la_lanes s 0) = [] \<and> \<not> ln_cancelled (la_lanes s 0)"
proof -
  let ?s0 = "lanes_new 1"
  let ?s1 = "set_lane 0 ((la_lanes ?s0 0)\<lparr> ln_queue := [ex_cc] \<rparr>) ?s0"
  let ?r2 = "fst (execution_gate 0 ''k'' registry_new)"
  let ?s2 = "set_lane 0 ((la_lanes ?s1 0)\<lparr> ln_queue := [], ln_phase := LaneWaiting ex_cc 0, ln_taken := [ex_cc] \<rparr>) (?s1\<lparr> la_registry := ?r2 \<rparr>)"
  let ?r3 = "the (gate_lock 0 0 ?r2)"
  let ?s3 = "set_lane 0 ((la_lanes ?s2 0)\<lparr> ln_phase := LaneReady ex_cc (Some 0) \<rparr>) (?s2\<lparr> la_registry := ?r3 \<rparr>)"
  let ?s4 = "set_lane 0 ((la_lanes ?s3 0)\<lparr> ln_phase := LaneExecuting ex_cc (Some 0) \<rparr>) ?s3"
  note eval = lanes_new_def set_lane_def ex_cc_def registry_new_def execution_gate_def gate_lock_def Let_def
  have "lane_step ?s0 ?s1" using deliver [of ?s0 0 ex_cc] by (simp add: lanes_new_def)
  moreover have "lane_step ?s1 ?s2"
    using take_keyed [of ?s1 0 ex_cc "[]" ?r2 0] by (simp add: eval)
  moreover have "lane_step ?s2 ?s3" using get_lock [of ?s2 0 ex_cc 0 ?r3] by (simp add: eval)
  moreover have "lane_step ?s3 ?s4"
    by (rule start_execution) (simp_all add: eval replay_def store_with_capacity_def ack_command_from_proto_def)
  ultimately have "lane_steps ?s0 ?s4" by (meson converse_rtranclp_into_rtranclp r_into_rtranclp)
  then show ?thesis by (intro exI [of _ ?s4]) (simp add: lanes_new_def set_lane_def)
qed

theorem execution_exclusive_witness:
  "\<exists>s. lane_steps (lanes_new 1) s \<and> ln_phase (la_lanes s 0) = LaneExecuting ex_cc (Some 0) \<and>
     st_seen (la_store s) ''k'' = None"
proof -
  obtain s where s: "lane_steps (lanes_new 1) s" "ln_phase (la_lanes s 0) = LaneExecuting ex_cc (Some 0)"
    using ex_execution by blast
  have key: "key_of ex_cc = ''k''" by (simp add: ex_cc_def)
  from execution_exclusive [OF s] key have "st_seen (la_store s) ''k'' = None" by simp
  with s show ?thesis by blast
qed

theorem terminal_acks_in_order_witness:
  "\<exists>s answered. lane_steps (lanes_new 1) s \<and> ln_taken (la_lanes s 0) = [ex_cc] \<and> ln_taken (la_lanes s 0) = answered \<and>
     length (ln_sent (la_lanes s 0)) = length answered"
proof -
  obtain s where s: "lane_steps (lanes_new 1) s" "ln_phase (la_lanes s 0) = LaneExecuting ex_cc (Some 0)"
    "ln_taken (la_lanes s 0) = [ex_cc]" "\<not> ln_cancelled (la_lanes s 0)"
    using ex_execution by blast
  obtain store terminal where t: "terminal_ack (la_store s) (ack_command_from_proto ex_cc) (execution_result (Panicked None)) = (store, terminal)"
    by fastforce
  let ?s1 = "set_lane 0 ((la_lanes s 0)\<lparr> ln_phase := LaneAcking (proto_ack ex_cc (ack_status terminal) (ack_message terminal)) \<rparr>)
    (s\<lparr> la_store := store, la_registry := give_up 0 (Some 0) (la_registry s) \<rparr>)"
  let ?s2 = "set_lane 0 ((la_lanes ?s1 0)\<lparr> ln_phase := LaneIdle, ln_sent := ln_sent (la_lanes ?s1 0) @ [proto_ack ex_cc (ack_status terminal) (ack_message terminal)] \<rparr>) ?s1"
  have "lane_step s ?s1" using finish_execution [OF s(2) t] s(4) by simp
  moreover have "lane_step ?s1 ?s2" using s(4) by (intro send_terminal) (simp_all add: set_lane_def)
  ultimately have reach: "lane_steps (lanes_new 1) ?s2"
    using s(1) by (meson rtranclp.rtrancl_into_rtrancl)
  have idle: "ln_phase (la_lanes ?s2 0) = LaneIdle" "ln_taken (la_lanes ?s2 0) = [ex_cc]"
    using s(3) by (simp_all add: set_lane_def)
  obtain answered cs where "ln_taken (la_lanes ?s2 0) = answered @ cs"
    "ln_phase (la_lanes ?s2 0) = LaneIdle \<longrightarrow> cs = []" "length answered = length (ln_sent (la_lanes ?s2 0))"
    using terminal_acks_in_order [OF reach, of 0] by (blast dest: list_all2_lengthD)
  with idle have "ln_taken (la_lanes ?s2 0) = answered" "length (ln_sent (la_lanes ?s2 0)) = length answered" by simp_all
  with reach idle(2) show ?thesis by blast
qed

section \<open>Submission\<close>

text \<open>A submitted command is queued or answered: a submission that succeeds acknowledges the command
  as accepted first and then either appends it to its own queue, with the other queue untouched, or,
  for a user refresh whose bounded queue is full or closed, answers it with a failure and queues
  nothing; a submission that fails queues nothing.\<close>

lemma submit_answered:
  assumes "submit command w = (w', result)"
  shows "if result = None then wk_regular w' = wk_regular w \<and> wk_refresh w' = wk_refresh w
    else \<exists>rest. wk_acks w' = wk_acks w @ proto_ack command Accepted ''accepted for execution'' # rest \<and>
      (if rest = [] then
         (if uses_refresh_lane (cc_type command)
          then wk_refresh w' = wk_refresh w @ [command] \<and> length (wk_refresh w') \<le> wk_refresh_capacity w' \<and>
            wk_regular w' = wk_regular w
          else wk_regular w' = wk_regular w @ [command] \<and> wk_refresh w' = wk_refresh w)
       else uses_refresh_lane (cc_type command) \<and> (\<exists>message. rest = [proto_ack command Failed message]) \<and>
         wk_regular w' = wk_regular w \<and> wk_refresh w' = wk_refresh w)"
proof -
  define accepted where "accepted = proto_ack command Accepted ''accepted for execution''"
  define full where "full = proto_ack command Failed ''user refresh queue is full''"
  define closed where "closed = proto_ack command Failed ''control command worker is closed''"
  note acks = accepted_def [symmetric] full_def [symmetric] closed_def [symmetric]
  consider (refused) "wk_cancelled w \<or> \<not> wk_acks_open w \<or> \<not> uses_refresh_lane (cc_type command) \<and> \<not> wk_lanes_open w"
    | (closed) "\<not> wk_cancelled w" "wk_acks_open w" "uses_refresh_lane (cc_type command)" "\<not> wk_lanes_open w"
    | (full) "\<not> wk_cancelled w" "wk_acks_open w" "uses_refresh_lane (cc_type command)" "wk_lanes_open w"
        "\<not> length (wk_refresh w) < wk_refresh_capacity w"
    | (refresh) "\<not> wk_cancelled w" "wk_acks_open w" "uses_refresh_lane (cc_type command)" "wk_lanes_open w"
        "length (wk_refresh w) < wk_refresh_capacity w"
    | (regular) "\<not> wk_cancelled w" "wk_acks_open w" "\<not> uses_refresh_lane (cc_type command)" "wk_lanes_open w"
    by blast
  then show ?thesis
  proof cases
    case refused
    with assms have "w' = w" "result = None" by (auto simp: submit_def send_ack_def split: if_splits)
    then show ?thesis by simp
  next
    case closed
    with assms have "result = Some ()" "w' = w\<lparr> wk_acks := wk_acks w @ [accepted, closed] \<rparr>"
      unfolding submit_def send_ack_def acks by auto
    with closed show ?thesis unfolding acks by (auto simp: closed_def)
  next
    case full
    with assms have "result = Some ()" "w' = w\<lparr> wk_acks := wk_acks w @ [accepted, full] \<rparr>"
      unfolding submit_def send_ack_def acks by auto
    with full show ?thesis unfolding acks by (auto simp: full_def)
  next
    case refresh
    with assms have "result = Some ()"
      "w' = w\<lparr> wk_acks := wk_acks w @ [accepted], wk_refresh := wk_refresh w @ [command] \<rparr>"
      unfolding submit_def send_ack_def acks by auto
    with refresh show ?thesis unfolding acks by simp
  next
    case regular
    with assms have "result = Some ()"
      "w' = w\<lparr> wk_acks := wk_acks w @ [accepted], wk_regular := wk_regular w @ [command] \<rparr>"
      unfolding submit_def send_ack_def acks by auto
    with regular show ?thesis unfolding acks by simp
  qed
qed

end
