(* ===== verification/Control_Executor.thy ===== *)
theory Control_Executor
  imports Fetcher Control_Lanes
begin

text \<open>
  The topology command executor of \<open>control/worker.rs\<close>: dispatch of a control command to the topology
  manager, the retries of a user refresh, and the recovery of a command whose revision does not
  match, by a resynchronisation with the panel and a replay on the resynchronised revision. While
  the executor reads from the panel other commands may run on the shared manager, so a read is a
  parameter that maps the manager it starts with to the manager it ends with and the answer; the
  flag of an answer says that the cancellation of the session came first.
\<close>

section \<open>State and failures\<close>

definition MAX_USER_REFRESH_ATTEMPTS :: nat where "MAX_USER_REFRESH_ATTEMPTS = 3"

record 't control =
  cx_manager :: "'t topology_manager"
  cx_maintenance :: bool

record 't panel =
  pn_topology :: "'t topology_manager \<Rightarrow> 't topology_manager \<times> bool \<times> (FetchError + MachineTopology)"
  pn_users :: "string \<Rightarrow> 't topology_manager \<Rightarrow> 't topology_manager \<times> bool \<times> (FetchError + UserCredential list)"

record ApplyFailure =
  af_message :: string
  af_revision_recovery :: bool
  af_rolled_back :: bool

definition plain :: "string \<Rightarrow> ApplyFailure" where
  "plain message = \<lparr> af_message = message, af_revision_recovery = False, af_rolled_back = False \<rparr>"

definition revision_failure :: "string \<Rightarrow> ApplyFailure" where
  "revision_failure message = \<lparr> af_message = message, af_revision_recovery = True, af_rolled_back = False \<rparr>"

definition ApplyFailure_from :: "TopologyError \<Rightarrow> ApplyFailure" where
  "ApplyFailure_from error = \<lparr> af_message = te_message error,
     af_revision_recovery = revision_recovery_required error, af_rolled_back = te_rolled_back error \<rparr>"

text \<open>Sequencing of fallible steps on the state.\<close>

definition sbind :: "'s \<times> ('e + 'a) \<Rightarrow> ('s \<Rightarrow> 'a \<Rightarrow> 's \<times> ('e + 'b)) \<Rightarrow> 's \<times> ('e + 'b)" where
  "sbind p f = (case p of (s, Inl e) \<Rightarrow> (s, Inl e) | (s, Inr a) \<Rightarrow> f s a)"

definition smap_err :: "('e \<Rightarrow> 'f) \<Rightarrow> 's \<times> ('e + 'a) \<Rightarrow> 's \<times> ('f + 'a)" where
  "smap_err f p = (fst p, rmap_err f (snd p))"

definition on_manager :: "('t topology_manager \<Rightarrow> 't topology_manager \<times> 'a) \<Rightarrow> 't control \<Rightarrow> 't control \<times> 'a" where
  "on_manager f x = (case f (cx_manager x) of (m, a) \<Rightarrow> (x\<lparr> cx_manager := m \<rparr>, a))"

definition ensure_active :: "'t control \<Rightarrow> ApplyFailure + unit" where
  "ensure_active x =
     (if tm_session_cancelled (cx_manager x) = Some True then Inl (plain ''control command execution canceled'')
      else Inr ())"

definition dash_if_empty :: "string \<Rightarrow> string" where
  "dash_if_empty v = (if v = [] then ''-'' else v)"

definition revision_fenced_command :: "int \<Rightarrow> bool" where
  "revision_fenced_command t \<longleftrightarrow>
     command_type t \<in> {Some TypeTopologyDelta, Some TypeRoutePatch, Some TypeUserMutation, Some TypeUserRefresh}"

definition rebase_control_command :: "pb_ControlCommand \<Rightarrow> u64 \<Rightarrow> pb_ControlCommand" where
  "rebase_control_command command base_revision =
     command\<lparr> cc_base_revision := base_revision,
       cc_payload := (case cc_payload command of
          Some (PTopologyDelta delta) \<Rightarrow> Some (PTopologyDelta (delta\<lparr> td_base_revision := base_revision \<rparr>))
        | other \<Rightarrow> other) \<rparr>"

section \<open>Resynchronisation\<close>

definition read_topology :: "'t panel \<Rightarrow> 't control \<Rightarrow> 't control \<times> (FetchError + MachineTopology)" where
  "read_topology panel x =
     on_manager (\<lambda>m. case pn_topology panel m of (m', cancelled, r) \<Rightarrow> (m', cancellable cancelled r)) x"

definition read_users :: "'t panel \<Rightarrow> string \<Rightarrow> 't control \<Rightarrow> 't control \<times> (FetchError + UserCredential list)" where
  "read_users panel node_id x =
     on_manager (\<lambda>m. case pn_users panel node_id m of (m', cancelled, r) \<Rightarrow> (m', cancellable cancelled r)) x"

definition fetch_resync :: "'t panel \<Rightarrow> 't control \<Rightarrow> 't control \<times> (ApplyFailure + MachineTopology \<times> u64)" where
  "fetch_resync panel x =
     (let expected_publication = publication_token (cx_manager x) in
      sbind (smap_err (\<lambda>error. plain (''revision resync fetch: '' @ fe_message error)) (read_topology panel x)) (\<lambda>x topology.
      (x, rbind (ensure_active x) (\<lambda>_. Inr (topology, expected_publication)))))"

definition apply_resync :: "('t, 'c) topology_runtime \<Rightarrow> MachineTopology \<times> u64 \<Rightarrow> 't control \<Rightarrow>
    't control \<times> (ApplyFailure + string \<times> u64)" where
  "apply_resync rt fetched x =
     sbind (smap_err (\<lambda>error. \<lparr> af_message = ''revision resync apply: '' @ te_message error,
         af_revision_recovery = False, af_rolled_back = te_rolled_back error \<rparr>)
       (on_manager (\<lambda>m. apply_authoritative_if_unchanged rt m (fst fetched) (snd fetched)) x)) (\<lambda>x message.
     (x, case current_revision (cx_manager x) of
           Some revision \<Rightarrow>
             if revision \<noteq> 0 then Inr (''resynced: '' @ message, revision)
             else Inl (plain ''revision resync returned an unversioned topology'')
         | None \<Rightarrow> Inl (plain ''revision resync returned an unversioned topology'')))"

definition resync :: "('t, 'c) topology_runtime \<Rightarrow> 't panel \<Rightarrow> 't control \<Rightarrow> 't control \<times> (ApplyFailure + string \<times> u64)" where
  "resync rt panel x = sbind (fetch_resync panel x) (\<lambda>x topology. apply_resync rt topology x)"

section \<open>User refresh\<close>

definition recover_refresh_revision :: "('t, 'c) topology_runtime \<Rightarrow> 't panel \<Rightarrow> pb_ControlCommand \<Rightarrow> TopologyError \<Rightarrow>
    't control \<Rightarrow> 't control \<times> (ApplyFailure + string)" where
  "recover_refresh_revision rt panel command cause x =
     (let context = (\<lambda>error. plain (''user refresh revision resync failed after '' @ te_message cause @ '': '' @ af_message error)) in
      sbind (smap_err context (fetch_resync panel x)) (\<lambda>x topology.
      if mt_revision (fst topology) < cc_revision command
      then (x, Inl (plain (''user refresh cannot be replayed from an older authoritative snapshot: snapshot='' @
        show_u64 (mt_revision (fst topology)) @ '' target='' @ show_u64 (cc_revision command))))
      else
        sbind (smap_err context (apply_resync rt topology x)) (\<lambda>x (message, _).
        (x, Inr (''user refresh revision mismatch, '' @ message)))))"

text \<open>Another attempt only when the node's users changed while the panel was read.\<close>

fun refresh_attempts :: "('t, 'c) topology_runtime \<Rightarrow> 't panel \<Rightarrow> pb_ControlCommand \<Rightarrow> nat \<Rightarrow>
    't control \<Rightarrow> 't control \<times> (ApplyFailure + string)" where
  "refresh_attempts rt panel command 0 x =
     (x, Inl (plain (''refresh users for node '' @ cc_node_id command @ '' did not stabilize after '' @
       show_nat MAX_USER_REFRESH_ATTEMPTS @ '' attempts: node users changed during refresh'')))"
| "refresh_attempts rt panel command (Suc attempts) x =
     (case loaded_users (cx_manager x) (cc_node_id command) of
        Inl error \<Rightarrow> (x, Inl (ApplyFailure_from error))
      | Inr current \<Rightarrow>
          sbind (smap_err (\<lambda>error. plain (''user refresh failed: command_id='' @ cc_command_id command @ '' node='' @
              dash_if_empty (cc_node_id command) @ '': fetch users: '' @ fe_message error))
            (read_users panel (cc_node_id command) x)) (\<lambda>x desired.
          sbind (x, ensure_active x) (\<lambda>x _.
          case on_manager (\<lambda>m. refresh_node_users_if_current_at_revision_fence rt m (cc_node_id command) desired current
                 (cc_base_revision command) (cc_revision command)) x of
            (x, Inr changes) \<Rightarrow>
              (x, Inr (''user refresh applied: added='' @ show_nat (ch_added changes) @ '' updated='' @
                show_nat (ch_updated changes) @ '' deleted='' @ show_nat (ch_deleted changes) @ '' applied='' @
                show_bool (ch_applied changes)))
          | (x, Inl error) \<Rightarrow>
              if te_kind error = UsersChangedDuringRefresh then refresh_attempts rt panel command attempts x
              else if revision_recovery_required error then recover_refresh_revision rt panel command error x
              else (x, Inl \<lparr> af_message = ''user refresh failed: command_id='' @ cc_command_id command @ '' node='' @
                     dash_if_empty (cc_node_id command) @ '': '' @ te_message error,
                   af_revision_recovery = False, af_rolled_back = te_rolled_back error \<rparr>))))"

definition execute_refresh :: "('t, 'c) topology_runtime \<Rightarrow> 't panel \<Rightarrow> pb_ControlCommand \<Rightarrow>
    't control \<Rightarrow> 't control \<times> (ApplyFailure + string)" where
  "execute_refresh rt panel command x =
     (case guard_revision_fence (cx_manager x) (cc_base_revision command) (cc_revision command) of
        Inl error \<Rightarrow>
          if revision_recovery_required error then recover_refresh_revision rt panel command error x
          else (x, Inl (ApplyFailure_from error))
      | Inr _ \<Rightarrow> refresh_attempts rt panel command MAX_USER_REFRESH_ATTEMPTS x)"

section \<open>Dispatch\<close>

definition call_manager :: "('t topology_manager \<Rightarrow> 't topology_manager \<times> (TopologyError + string)) \<Rightarrow>
    't control \<Rightarrow> 't control \<times> (ApplyFailure + string)" where
  "call_manager f x = smap_err ApplyFailure_from (on_manager f x)"

definition snapshot_command :: "('t, 'c) topology_runtime \<Rightarrow> pb_ControlCommand \<Rightarrow>
    't control \<Rightarrow> 't control \<times> (ApplyFailure + string)" where
  "snapshot_command rt command x =
     (case cc_payload command of
        Some (PTopologySnapshot snapshot) \<Rightarrow>
          if cc_revision command \<noteq> ts_revision snapshot
          then (x, Inl (revision_failure (''topology revision mismatch: command revision='' @
            show_u64 (cc_revision command) @ '' snapshot revision='' @ show_u64 (ts_revision snapshot))))
          else call_manager (\<lambda>m. apply_snapshot rt m (Some snapshot)) x
      | _ \<Rightarrow> (x, Inl (revision_failure (''topology revision mismatch: command revision='' @
          show_u64 (cc_revision command) @ '' snapshot revision=0''))))"

definition delta_command :: "('t, 'c) topology_runtime \<Rightarrow> pb_ControlCommand \<Rightarrow>
    't control \<Rightarrow> 't control \<times> (ApplyFailure + string)" where
  "delta_command rt command x =
     (case cc_payload command of
        Some (PTopologyDelta delta) \<Rightarrow>
          if (cc_base_revision command, cc_revision command) \<noteq> (td_base_revision delta, td_target_revision delta)
          then (x, Inl (revision_failure (''topology revision mismatch: command base='' @
            show_u64 (cc_base_revision command) @ '' target='' @ show_u64 (cc_revision command) @ '' delta base='' @
            show_u64 (td_base_revision delta) @ '' target='' @ show_u64 (td_target_revision delta))))
          else call_manager (\<lambda>m. apply_delta rt m (Some delta)) x
      | _ \<Rightarrow> (x, Inl (revision_failure (''topology revision mismatch: command base='' @
          show_u64 (cc_base_revision command) @ '' target='' @ show_u64 (cc_revision command) @
          '' delta base=0 target=0''))))"

definition route_command :: "('t, 'c) topology_runtime \<Rightarrow> pb_ControlCommand \<Rightarrow>
    't control \<Rightarrow> 't control \<times> (ApplyFailure + string)" where
  "route_command rt command x =
     (case cc_payload command of
        Some (PTopologyRoutePatch patch) \<Rightarrow>
          if cc_revision command \<noteq> rp_revision patch
          then (x, Inl (revision_failure (''topology revision mismatch: command revision='' @
            show_u64 (cc_revision command) @ '' route patch revision='' @ show_u64 (rp_revision patch))))
          else call_manager (\<lambda>m. apply_route_patch rt m (Some patch) (cc_base_revision command)) x
      | _ \<Rightarrow> (x, Inl (revision_failure (''topology revision mismatch: command revision='' @
          show_u64 (cc_revision command) @ '' route patch revision=0''))))"

definition user_command :: "('t, 'c) topology_runtime \<Rightarrow> pb_ControlCommand \<Rightarrow>
    't control \<Rightarrow> 't control \<times> (ApplyFailure + string)" where
  "user_command rt command x =
     (case cc_payload command of
        Some (PUserMutation mutation) \<Rightarrow>
          if cc_revision command \<noteq> um_revision mutation
          then (x, Inl (revision_failure (''topology revision mismatch: command revision='' @
            show_u64 (cc_revision command) @ '' user mutation revision='' @ show_u64 (um_revision mutation))))
          else call_manager (\<lambda>m. tm_apply_user_mutation rt m (Some mutation) (cc_base_revision command)) x
      | _ \<Rightarrow> (x, Inl (revision_failure (''topology revision mismatch: command revision='' @
          show_u64 (cc_revision command) @ '' user mutation revision=0''))))"

definition policy_command :: "(bytes \<Rightarrow> string + bool) \<Rightarrow> pb_ControlCommand \<Rightarrow> 't control \<Rightarrow> 't control \<times> (ApplyFailure + string)" where
  "policy_command from_slice command x =
     (case policy_apply from_slice (cx_maintenance x) command of
        (maintenance, result) \<Rightarrow> (x\<lparr> cx_maintenance := maintenance \<rparr>, rmap_err plain result))"

definition apply_command :: "('t, 'c) topology_runtime \<Rightarrow> (bytes \<Rightarrow> string + bool) \<Rightarrow> 't panel \<Rightarrow> pb_ControlCommand \<Rightarrow>
    't control \<Rightarrow> 't control \<times> (ApplyFailure + string)" where
  "apply_command rt from_slice panel command x =
     (case ensure_active x of
        Inl error \<Rightarrow> (x, Inl error)
      | Inr _ \<Rightarrow>
          (case command_type (cc_type command) of
             None \<Rightarrow> (x, Inl (plain (''unsupported control command type '' @ show_int (cc_type command))))
           | Some TypeTopologySnapshot \<Rightarrow> snapshot_command rt command x
           | Some TypeTopologyDelta \<Rightarrow> delta_command rt command x
           | Some TypeRoutePatch \<Rightarrow> route_command rt command x
           | Some TypeUserMutation \<Rightarrow> user_command rt command x
           | Some TypeUserRefresh \<Rightarrow> execute_refresh rt panel command x
           | Some _ \<Rightarrow> policy_command from_slice command x))"

definition apply_with_recovery :: "('t, 'c) topology_runtime \<Rightarrow> (bytes \<Rightarrow> string + bool) \<Rightarrow> 't panel \<Rightarrow> pb_ControlCommand \<Rightarrow>
    't control \<Rightarrow> 't control \<times> (ApplyFailure + string)" where
  "apply_with_recovery rt from_slice panel command x =
     (case apply_command rt from_slice panel command x of
        (x, Inr message) \<Rightarrow> (x, Inr message)
      | (x, Inl error) \<Rightarrow>
          if \<not> af_revision_recovery error then (x, Inl error)
          else
            sbind (smap_err (\<lambda>failure. plain (''revision resync failed after '' @ af_message error @ '': '' @ af_message failure))
              (resync rt panel x)) (\<lambda>x (resync_message, revision).
            if \<not> revision_fenced_command (cc_type command) \<or> revision > cc_revision command
            then (x, Inr (''revision mismatch, '' @ resync_message))
            else
              sbind (x, ensure_active x) (\<lambda>x _.
              sbind (smap_err (\<lambda>failure. failure\<lparr> af_message := ''revision resync replay from base '' @ show_u64 revision @
                  '' to target '' @ show_u64 (cc_revision command) @ '': '' @ af_message failure \<rparr>)
                (apply_command rt from_slice panel (rebase_control_command command revision) x)) (\<lambda>x replayed.
              (x, Inr (''revision mismatch, '' @ resync_message @ ''; replayed: '' @ replayed))))))"

definition execute_regular :: "('t, 'c) topology_runtime \<Rightarrow> (bytes \<Rightarrow> string + bool) \<Rightarrow> 't panel \<Rightarrow> pb_ControlCommand \<Rightarrow>
    't control \<Rightarrow> 't control \<times> TerminalResult" where
  "execute_regular rt from_slice panel command x =
     (case apply_with_recovery rt from_slice panel command x of
        (x, Inr message) \<Rightarrow> (x, applied message)
      | (x, Inl error) \<Rightarrow>
          (x, \<lparr> tres_status = (if af_rolled_back error then RolledBack else Failed), tres_message = af_message error \<rparr>))"

definition execute_with_cancel :: "('t, 'c) topology_runtime \<Rightarrow> (bytes \<Rightarrow> string + bool) \<Rightarrow> 't panel \<Rightarrow> bool \<Rightarrow>
    pb_ControlCommand \<Rightarrow> 't control \<Rightarrow> 't control \<times> TerminalResult" where
  "execute_with_cancel rt from_slice panel cancelled command x =
     execute_regular rt from_slice panel command
       (x\<lparr> cx_manager := with_operation_cancellation cancelled (cx_manager x) \<rparr>)"

definition sync_initial :: "('t, 'c) topology_runtime \<Rightarrow> 't panel \<Rightarrow> 't control \<Rightarrow> 't control \<times> (string + string)" where
  "sync_initial rt panel x =
     (let expected_publication = publication_token (cx_manager x) in
      sbind (smap_err (\<lambda>error. ''initial topology fetch: '' @ fe_message error)
        (on_manager (\<lambda>m. case pn_topology panel m of (m', _, r) \<Rightarrow> (m', r)) x)) (\<lambda>x topology.
      smap_err (\<lambda>error. ''initial topology apply: '' @ te_message error)
        (on_manager (\<lambda>m. apply_authoritative_if_unchanged rt m topology expected_publication) x)))"

section \<open>Executions as histories of the manager\<close>

lemma history_append:
  "history rt sha256 m1 ds m2 \<Longrightarrow> history rt sha256 m0 cs m1 \<Longrightarrow> history rt sha256 m0 (cs @ ds) m2"
proof (induction rule: history.induct)
  case (step ds m c m' ok)
  from history.step [OF step.IH [OF step.prems] step.hyps(2)] show ?case by simp
qed simp

definition advanced :: "('t, 'c) topology_runtime \<Rightarrow> (bytes \<Rightarrow> bytes) \<Rightarrow> 't control \<Rightarrow> 't control \<Rightarrow> bool" where
  "advanced rt sha256 x x' \<longleftrightarrow> (\<exists>cs. history rt sha256 (cx_manager x) cs (cx_manager x'))"

lemma advanced_refl: "cx_manager x' = cx_manager x \<Longrightarrow> advanced rt sha256 x x'"
  by (auto simp: advanced_def intro: history.start exI [of _ "[]"])

lemma advanced_trans: "advanced rt sha256 x x1 \<Longrightarrow> advanced rt sha256 x1 x2 \<Longrightarrow> advanced rt sha256 x x2"
  unfolding advanced_def by (blast intro: history_append)

lemma advanced_sbind:
  assumes "advanced rt sha256 x (fst p)"
    and "\<And>x1 a. p = (x1, Inr a) \<Longrightarrow> advanced rt sha256 x1 (fst (f x1 a))"
  shows "advanced rt sha256 x (fst (sbind p f))"
proof -
  obtain x1 r where p: "p = (x1, r)" by fastforce
  show ?thesis
  proof (cases r)
    case (Inl e)
    with assms(1) show ?thesis by (simp add: sbind_def p)
  next
    case (Inr a)
    with assms(1) assms(2) [of x1 a] show ?thesis by (auto simp: sbind_def p intro: advanced_trans)
  qed
qed

lemma smap_err_fst [simp]: "fst (smap_err f p) = fst p"
  by (simp add: smap_err_def)

text \<open>A call of the manager that is one of its commands.\<close>

lemma advanced_command:
  assumes "\<And>m. run_command rt sha256 m c = outcome (f m)"
  shows "advanced rt sha256 x (fst (on_manager f x))"
proof -
  obtain m r where f: "f (cx_manager x) = (m, r)" by fastforce
  have "run_command rt sha256 (cx_manager x) c = (m, \<not> isl r)" using assms f by (simp add: outcome_def)
  from history.step [OF history.start this] f show ?thesis by (auto simp: advanced_def on_manager_def)
qed

lemma advanced_call:
  "(\<And>m. run_command rt sha256 m c = outcome (f m)) \<Longrightarrow> advanced rt sha256 x (fst (call_manager f x))"
  unfolding call_manager_def smap_err_fst by (rule advanced_command)

lemma apply_resync_advanced: "advanced rt sha256 x (fst (apply_resync rt fetched x))"
  unfolding apply_resync_def
proof (rule advanced_sbind)
  show "advanced rt sha256 x (fst (smap_err g (on_manager
      (\<lambda>m. apply_authoritative_if_unchanged rt m (fst fetched) (snd fetched)) x)))" for g
    unfolding smap_err_fst by (rule advanced_command [where c = "ApplyAuthoritative (fst fetched) (snd fetched)"]) simp
qed (simp add: advanced_refl)

lemma dispatch_advanced:
  "advanced rt sha256 x (fst (snapshot_command rt command x))" "advanced rt sha256 x (fst (delta_command rt command x))"
  "advanced rt sha256 x (fst (route_command rt command x))" "advanced rt sha256 x (fst (user_command rt command x))"
  "advanced rt sha256 x (fst (policy_command from_slice command x))"
proof -
  have calls: "advanced rt sha256 x (fst (call_manager (\<lambda>m. apply_snapshot rt m (Some p)) x))"
    "advanced rt sha256 x (fst (call_manager (\<lambda>m. apply_delta rt m (Some d)) x))"
    "advanced rt sha256 x (fst (call_manager (\<lambda>m. apply_route_patch rt m (Some q) base) x))"
    "advanced rt sha256 x (fst (call_manager (\<lambda>m. tm_apply_user_mutation rt m (Some u) base) x))" for p d q u base
    by (rule advanced_call [where c = "ApplySnapshot (Some p)"], simp)
      (rule advanced_call [where c = "ApplyDelta (Some d)"], simp,
       rule advanced_call [where c = "ApplyRoutePatch (Some q) base"], simp,
       rule advanced_call [where c = "ApplyUserMutation (Some u) base"], simp)
  show "advanced rt sha256 x (fst (snapshot_command rt command x))"
    using calls
    by (simp add: snapshot_command_def advanced_refl split: option.split Payload.split)
  show "advanced rt sha256 x (fst (delta_command rt command x))"
    using calls
    by (simp add: delta_command_def advanced_refl split: option.split Payload.split)
  show "advanced rt sha256 x (fst (route_command rt command x))"
    using calls
    by (simp add: route_command_def advanced_refl split: option.split Payload.split)
  show "advanced rt sha256 x (fst (user_command rt command x))"
    using calls
    by (simp add: user_command_def advanced_refl split: option.split Payload.split)
  show "advanced rt sha256 x (fst (policy_command from_slice command x))"
    by (simp add: policy_command_def advanced_refl split: prod.split)
qed

text \<open>What the executor relies on: while it reads, only commands of the manager run.\<close>

locale control_panel =
  fixes rt :: "('t, 'c) topology_runtime" and sha256 :: "bytes \<Rightarrow> bytes" and panel :: "'t panel"
  assumes topology_read: "\<exists>cs. history rt sha256 m cs (fst (pn_topology panel m))"
    and users_read: "\<exists>cs. history rt sha256 m cs (fst (pn_users panel node_id m))"
begin

lemma read_topology_advanced: "advanced rt sha256 x (fst (read_topology panel x))"
  using topology_read [of "cx_manager x"] by (auto simp: read_topology_def on_manager_def advanced_def split: prod.splits)

lemma read_users_advanced: "advanced rt sha256 x (fst (read_users panel node_id x))"
  using users_read [of "cx_manager x" node_id] by (auto simp: read_users_def on_manager_def advanced_def split: prod.splits)

lemma fetch_resync_advanced: "advanced rt sha256 x (fst (fetch_resync panel x))"
  unfolding fetch_resync_def Let_def
  by (rule advanced_sbind) (simp_all add: read_topology_advanced advanced_refl)

lemma resync_advanced: "advanced rt sha256 x (fst (resync rt panel x))"
  unfolding resync_def by (rule advanced_sbind [OF fetch_resync_advanced apply_resync_advanced])

lemma recover_advanced: "advanced rt sha256 x (fst (recover_refresh_revision rt panel command cause x))"
  unfolding recover_refresh_revision_def Let_def
proof (rule advanced_sbind, unfold smap_err_fst, rule fetch_resync_advanced)
  fix x1 :: "'t control" and topology
  show "advanced rt sha256 x1 (fst (if mt_revision (fst topology) < cc_revision command then (x1, Inl a)
      else sbind (smap_err g (apply_resync rt topology x1)) (\<lambda>x (message, _). (x, Inr (b message)))))" for a b g
    by (auto simp: advanced_refl case_prod_beta intro!: advanced_sbind apply_resync_advanced)
qed

lemma refresh_attempts_advanced: "advanced rt sha256 x (fst (refresh_attempts rt panel command attempts x))"
proof (induction attempts arbitrary: x)
  case (Suc attempts)
  let ?call = "\<lambda>desired current m. refresh_node_users_if_current_at_revision_fence rt m (cc_node_id command) desired current
    (cc_base_revision command) (cc_revision command)"
  have call: "advanced rt sha256 x1 (fst (on_manager (?call desired current) x1))" for x1 desired current
    by (rule advanced_command [where c = "RefreshUsers \<lparr> urr_node_id = cc_node_id command, urr_users = desired,
          urr_expected_current = Some current, urr_revision = Fence (cc_base_revision command) (cc_revision command) \<rparr>"])
      (simp add: refresh_node_users_if_current_at_revision_fence_def)
  have finish: "advanced rt sha256 x1 (fst (case on_manager (?call desired current) x1 of
      (x, Inr changes) \<Rightarrow> (x, Inr (ok changes))
    | (x, Inl error) \<Rightarrow>
        if te_kind error = UsersChangedDuringRefresh then refresh_attempts rt panel command attempts x
        else if revision_recovery_required error then recover_refresh_revision rt panel command error x
        else (x, Inl (failure error))))" for x1 desired current ok failure
  proof -
    obtain x2 r where r: "on_manager (?call desired current) x1 = (x2, r)" by fastforce
    with call [of x1 desired current] have x2: "advanced rt sha256 x1 x2" by simp
    show ?thesis
    proof (cases r)
      case (Inl error)
      with x2 r advanced_trans [OF x2 Suc.IH] advanced_trans [OF x2 recover_advanced] show ?thesis by simp
    next
      case (Inr changes)
      with x2 r show ?thesis by simp
    qed
  qed
  show ?case
  proof (cases "loaded_users (cx_manager x) (cc_node_id command)")
    case (Inl error)
    then show ?thesis by (simp add: advanced_refl)
  next
    case (Inr current)
    show ?thesis
      unfolding refresh_attempts.simps Inr sum.case
      by (rule advanced_sbind, unfold smap_err_fst, rule read_users_advanced, rule advanced_sbind, simp add: advanced_refl)
        (rule finish)
  qed
qed (simp add: advanced_refl)

lemma execute_refresh_advanced: "advanced rt sha256 x (fst (execute_refresh rt panel command x))"
  unfolding execute_refresh_def
  by (auto split: sum.splits simp: recover_advanced refresh_attempts_advanced advanced_refl)

lemma apply_command_advanced: "advanced rt sha256 x (fst (apply_command rt from_slice panel command x))"
  unfolding apply_command_def
  by (simp add: advanced_refl dispatch_advanced execute_refresh_advanced split: sum.split option.split ControlCommandType.split)

lemma apply_with_recovery_advanced:
  "advanced rt sha256 x (fst (apply_with_recovery rt from_slice panel command x))"
proof -
  obtain x1 r where r: "apply_command rt from_slice panel command x = (x1, r)" by fastforce
  with apply_command_advanced [of x from_slice command] have x1: "advanced rt sha256 x x1" by simp
  show ?thesis
  proof (cases "\<exists>error. r = Inl error \<and> af_revision_recovery error")
    case False
    with r x1 show ?thesis by (cases r) (auto simp: apply_with_recovery_def)
  next
    case True
    then obtain error where error: "r = Inl error" "af_revision_recovery error" by blast
    have replay: "advanced rt sha256 x2 (fst (sbind (x2, ensure_active x2) (\<lambda>x _.
        sbind (smap_err g (apply_command rt from_slice panel (rebase_control_command command revision) x)) (\<lambda>x replayed.
        (x, Inr (h replayed))))))" for x2 revision g h
      by (auto simp: advanced_refl intro!: advanced_sbind apply_command_advanced)
    have "advanced rt sha256 x1 (fst (apply_with_recovery rt from_slice panel command x))"
      unfolding apply_with_recovery_def r error prod.case sum.case
      using error(2) replay
      by (auto simp: case_prod_beta advanced_refl intro!: advanced_sbind resync_advanced apply_command_advanced)
    with x1 show ?thesis by (rule advanced_trans)
  qed
qed

lemma execute_advanced:
  assumes "execute_with_cancel rt from_slice panel cancelled command x = (x', result)"
  shows "advanced rt sha256 x x'"
proof -
  let ?x = "x\<lparr> cx_manager := with_operation_cancellation cancelled (cx_manager x) \<rparr>"
  have "run_command rt sha256 (cx_manager x) (BindSession cancelled) = (cx_manager ?x, True)" by simp
  from history.step [OF history.start this] have "advanced rt sha256 x ?x" by (auto simp: advanced_def)
  moreover have "x' = fst (apply_with_recovery rt from_slice panel command ?x)"
    using assms by (auto simp: execute_with_cancel_def execute_regular_def split: prod.splits sum.splits)
  ultimately show ?thesis using apply_with_recovery_advanced [of ?x from_slice command] by (metis advanced_trans)
qed

end

section \<open>The panel as the fetcher reads it\<close>

text \<open>A panel whose reads nothing interleaves with, with the answers of the fetcher.\<close>

definition fetching_panel :: "(nat \<Rightarrow> nat \<Rightarrow> pb_ListUsersRequest \<Rightarrow> (Status, pb_ListUsersResponse) timed) \<Rightarrow>
    (Status, pb_MachineConfig) timed \<Rightarrow> string \<Rightarrow> string \<Rightarrow> 't panel" where
  "fetching_panel list_users config_call machine_id session_id =
     \<lparr> pn_topology = (\<lambda>m. (m, False, machine_topology (list_node_users list_users machine_id session_id) config_call machine_id)),
       pn_users = (\<lambda>node_id m. (m, False, list_node_users list_users machine_id session_id node_id)) \<rparr>"

interpretation fetching: control_panel rt sha256 "fetching_panel list_users config_call machine_id session_id"
  by unfold_locales (auto simp: fetching_panel_def intro: history.start)

text \<open>C6 (an execution is a history of the manager): executing a control command, with its retries,
  resynchronisation and replay, is a sequence of commands of the topology manager among those that
  other lanes run while it reads from the panel; what holds over every history of the manager,
  like the growth of the revision, holds over every execution.\<close>

theorem execution_is_history:
  assumes "control_panel rt sha256 panel" and "machine_id \<noteq> []"
    and "history rt sha256 (manager_new machine_id runtime) cs (cx_manager x)"
    and "execute_with_cancel rt from_slice panel cancelled command x = (x', result)"
  shows "\<exists>ds. history rt sha256 (manager_new machine_id runtime) (cs @ ds) (cx_manager x') \<and>
    mt_revision (tm_topology (cx_manager x)) \<le> mt_revision (tm_topology (cx_manager x'))"
proof -
  from control_panel.execute_advanced [OF assms(1,4)] obtain ds where
    ds: "history rt sha256 (cx_manager x) ds (cx_manager x')" unfolding advanced_def by blast
  moreover have "settled (cx_manager x)" using history_fence [OF assms(3) settled_new [OF assms(2)]] by blast
  ultimately show ?thesis using history_append [OF ds assms(3)] history_fence by blast
qed

section \<open>Applied means reached\<close>

lemma sbind_Inr: "sbind p f = (x', Inr b) \<longleftrightarrow> (\<exists>x a. p = (x, Inr a) \<and> f x a = (x', Inr b))"
  by (auto simp: sbind_def split: prod.splits sum.splits)

lemma smap_err_Inr: "smap_err f p = (x, Inr a) \<longleftrightarrow> p = (x, Inr a)"
  by (cases p) (auto simp: smap_err_def result_simps)

lemma on_manager_iff: "on_manager f x = (x', r) \<longleftrightarrow> f (cx_manager x) = (cx_manager x', r) \<and> x' = x\<lparr> cx_manager := cx_manager x' \<rparr>"
  by (cases "f (cx_manager x)") (auto simp: on_manager_def)

lemma with_candidate_revision:
  assumes "with_candidate rt m (Inr t) = (m', Inr message)"
  shows "mt_revision (tm_topology m') = mt_revision t"
  using tm_apply_published [of rt m t m' "Inr message"] assms by (simp add: with_candidate_def published_def)

lemma kicked_revision:
  assumes "tm_apply rt m t = (m1, Inr message)"
  shows "mt_revision (tm_topology (close_explicitly_requested_users rt us m1)) = mt_revision t"
  using tm_apply_published [OF assms] close_explicitly_unpublished [of m1 rt us] by (simp add: published_def unpublished_def)

lemma command_revisions:
  "apply_delta rt m (Some d) = (m', Inr message) \<Longrightarrow> mt_revision (tm_topology m') = td_target_revision d"
  "apply_route_patch rt m (Some p) base = (m', Inr message) \<Longrightarrow> mt_revision (tm_topology m') = rp_revision p"
  "tm_apply_user_mutation rt m (Some u) base = (m', Inr message) \<Longrightarrow> mt_revision (tm_topology m') = um_revision u"
  "apply_authoritative_if_unchanged rt m t token = (m', Inr message) \<Longrightarrow> mt_revision (tm_topology m') = mt_revision t"
proof -
  assume "apply_delta rt m (Some d) = (m', Inr message)"
  then obtain t m1 where "delta_candidate m d = Inr t" "tm_apply rt m t = (m1, Inr message)"
    "m' = close_explicitly_requested_users rt (td_user_mutations d) m1"
    by (auto simp: apply_delta_def result_simps split: sum.splits prod.splits)
  then show "mt_revision (tm_topology m') = td_target_revision d"
    by (simp add: kicked_revision mutated_revision(1))
next
  assume a: "apply_route_patch rt m (Some p) base = (m', Inr message)"
  then have "with_candidate rt m (Inr (route_candidate m p)) = (m', Inr message)"
    by (auto simp: apply_route_patch_def with_candidate_def result_simps split: sum.splits)
  then show "mt_revision (tm_topology m') = rp_revision p"
    using with_candidate_revision mutated_revision(3) by metis
next
  assume "tm_apply_user_mutation rt m (Some u) base = (m', Inr message)"
  then obtain t m1 where "user_candidate m u = Inr t" "tm_apply rt m t = (m1, Inr message)"
    "m' = close_explicitly_requested_users rt [u] m1"
    by (auto simp: tm_apply_user_mutation_def result_simps split: sum.splits prod.splits)
  then show "mt_revision (tm_topology m') = um_revision u"
    by (simp add: kicked_revision mutated_revision(2))
next
  assume "apply_authoritative_if_unchanged rt m t token = (m', Inr message)"
  then have "with_candidate rt m (Inr t) = (m', Inr message)"
    by (auto simp: apply_authoritative_if_unchanged_def with_candidate_def result_simps Let_def split: sum.splits if_splits)
  then show "mt_revision (tm_topology m') = mt_revision t" by (rule with_candidate_revision)
qed

lemma refresh_reaches:
  assumes "refresh_owned rt m request = (m', Inr changes)"
  shows "target (urr_revision request) \<le> mt_revision (tm_topology m')"
proof -
  from assms obtain i ch where checks: "refresh_checks m request = Inr (i, ch)"
    by (auto simp: refresh_owned_def split: sum.splits)
  show ?thesis
  proof (cases "unchanged_users ch")
    case True
    with assms checks show ?thesis
      by (auto simp: refresh_owned_def Let_def advance_revision_def set_snapshot_revision_def not_less split: if_splits)
  next
    case False
    with assms checks obtain message where
      "tm_apply rt m (refresh_candidate m request i) = (m', Inr message)"
      by (auto simp: refresh_owned_def split: prod.splits sum.splits)
    from tm_apply_published [OF this] show ?thesis by (simp add: published_def mutated_revision(4))
  qed
qed

lemma apply_resync_ok:
  assumes "apply_resync rt fetched x = (x', Inr (message, revision))"
  shows "mt_revision (tm_topology (cx_manager x')) = mt_revision (fst fetched)"
    "revision = mt_revision (tm_topology (cx_manager x'))"
  using assms
  by (auto simp: apply_resync_def sbind_Inr smap_err_Inr on_manager_iff current_revision_def
      dest!: command_revisions(4) split: option.splits if_splits)

lemma recover_reaches:
  assumes "recover_refresh_revision rt panel command cause x = (x', Inr message)"
  shows "cc_revision command \<le> mt_revision (tm_topology (cx_manager x'))"
proof -
  from assms obtain x1 topology m r where "\<not> mt_revision (fst topology) < cc_revision command"
    and ok: "apply_resync rt topology x1 = (x', Inr (m, r))"
    by (auto simp: recover_refresh_revision_def Let_def sbind_Inr smap_err_Inr split: if_splits)
  with apply_resync_ok(1) [OF ok] show ?thesis by simp
qed

lemma refresh_attempts_reach:
  "refresh_attempts rt panel command attempts x = (x', Inr message) \<Longrightarrow>
     cc_revision command \<le> mt_revision (tm_topology (cx_manager x'))"
proof (induction attempts arbitrary: x)
  case (Suc attempts)
  obtain current where "loaded_users (cx_manager x) (cc_node_id command) = Inr current"
    using Suc.prems by (cases "loaded_users (cx_manager x) (cc_node_id command)") auto
  with Suc.prems obtain x1 x2 desired r where
    r: "on_manager (\<lambda>m. refresh_node_users_if_current_at_revision_fence rt m (cc_node_id command) desired current
        (cc_base_revision command) (cc_revision command)) x1 = (x2, r)"
    and rest: "(case r of Inr changes \<Rightarrow> x' = x2
      | Inl error \<Rightarrow> refresh_attempts rt panel command attempts x2 = (x', Inr message) \<or>
          recover_refresh_revision rt panel command error x2 = (x', Inr message))"
    unfolding refresh_attempts.simps
    by (simp only: sum.case sbind_Inr) (fastforce split: prod.splits sum.splits if_splits)
  show ?case
  proof (cases r)
    case (Inl error)
    with rest Suc.IH recover_reaches show ?thesis by auto
  next
    case (Inr changes)
    with r have "refresh_owned rt (cx_manager x1) \<lparr> urr_node_id = cc_node_id command, urr_users = desired,
        urr_expected_current = Some current, urr_revision = Fence (cc_base_revision command) (cc_revision command) \<rparr> =
      (cx_manager x2, Inr changes)"
      by (simp add: on_manager_iff refresh_node_users_if_current_at_revision_fence_def)
    from refresh_reaches [OF this] rest Inr show ?thesis by simp
  qed
qed simp

lemma apply_command_reaches:
  assumes "apply_command rt from_slice panel command x = (x', Inr message)"
    and "revision_fenced_command (cc_type command)"
  shows "cc_revision command \<le> mt_revision (tm_topology (cx_manager x'))"
proof -
  from assms(1) have active: "ensure_active x = Inr ()" by (cases "ensure_active x") (auto simp: apply_command_def)
  consider "command_type (cc_type command) = Some TypeTopologyDelta" | "command_type (cc_type command) = Some TypeRoutePatch"
    | "command_type (cc_type command) = Some TypeUserMutation" | "command_type (cc_type command) = Some TypeUserRefresh"
    using assms(2) by (auto simp: revision_fenced_command_def)
  then show ?thesis
  proof cases
    case 1
    with assms(1) active show ?thesis
      by (auto simp: apply_command_def delta_command_def call_manager_def smap_err_Inr on_manager_iff
          split: option.splits Payload.splits if_splits dest!: command_revisions(1))
  next
    case 2
    with assms(1) active show ?thesis
      by (auto simp: apply_command_def route_command_def call_manager_def smap_err_Inr on_manager_iff
          split: option.splits Payload.splits if_splits dest!: command_revisions(2))
  next
    case 3
    with assms(1) active show ?thesis
      by (auto simp: apply_command_def user_command_def call_manager_def smap_err_Inr on_manager_iff
          split: option.splits Payload.splits if_splits dest!: command_revisions(3))
  next
    case 4
    with assms(1) active have "execute_refresh rt panel command x = (x', Inr message)" by (simp add: apply_command_def)
    then show ?thesis
      by (auto simp: execute_refresh_def split: sum.splits if_splits dest: recover_reaches refresh_attempts_reach)
  qed
qed

lemma rebase_fields [simp]:
  "cc_type (rebase_control_command command base) = cc_type command"
  "cc_revision (rebase_control_command command base) = cc_revision command"
  by (simp_all add: rebase_control_command_def)

lemma recovery_reaches:
  assumes "apply_with_recovery rt from_slice panel command x = (x', Inr message)"
    and "revision_fenced_command (cc_type command)"
  shows "cc_revision command \<le> mt_revision (tm_topology (cx_manager x'))"
proof -
  obtain x1 r where r: "apply_command rt from_slice panel command x = (x1, r)" by fastforce
  show ?thesis
  proof (cases r)
    case (Inr m)
    with assms(1) r have "apply_command rt from_slice panel command x = (x', Inr message)"
      by (simp add: apply_with_recovery_def)
    then show ?thesis using assms(2) by (rule apply_command_reaches)
  next
    case (Inl error)
    with assms r obtain x2 resync_message revision where
      sync: "resync rt panel x1 = (x2, Inr (resync_message, revision))" and
      replay: "cc_revision command < revision \<and> x' = x2 \<or>
        (\<exists>x3 replayed. apply_command rt from_slice panel (rebase_control_command command revision) x3 = (x', Inr replayed))"
      by (simp add: apply_with_recovery_def case_prod_beta sbind_Inr smap_err_Inr split: if_splits) force+
    from sync obtain x3 topology where "apply_resync rt topology x3 = (x2, Inr (resync_message, revision))"
      by (auto simp: resync_def sbind_Inr)
    from apply_resync_ok(2) [OF this] replay apply_command_reaches [of rt from_slice panel "rebase_control_command command revision"]
    show ?thesis using assms(2) by fastforce
  qed
qed

text \<open>C21 (applied means reached): when a command that is fenced by revisions, a delta, a route patch, a user
  mutation or a user refresh, is acknowledged as applied, whether directly, by replay on a
  resynchronised base or because the panel was already ahead, the published topology has at least
  the revision of the command.\<close>

theorem applied_reaches_revision:
  assumes "execute_with_cancel rt from_slice panel cancelled command x = (x', result)"
    and "tres_status result = Applied" and "revision_fenced_command (cc_type command)"
  shows "cc_revision command \<le> mt_revision (tm_topology (cx_manager x'))"
proof -
  let ?x = "x\<lparr> cx_manager := with_operation_cancellation cancelled (cx_manager x) \<rparr>"
  from assms(1,2) obtain message where "apply_with_recovery rt from_slice panel command ?x = (x', Inr message)"
    by (auto simp: execute_with_cancel_def execute_regular_def split: prod.splits sum.splits if_splits)
  then show ?thesis using assms(3) by (rule recovery_reaches)
qed

definition ex_panel :: "(unit port_manager, nat scripted, nat) adapter panel" where
  "ex_panel = \<lparr> pn_topology = (\<lambda>m. (m, False, Inr ex_candidate3)), pn_users = (\<lambda>node_id m. (m, False, Inr [])) \<rparr>"

definition ex_control :: "(unit port_manager, nat scripted, nat) adapter control" where
  "ex_control = \<lparr> cx_manager = ex_manager1, cx_maintenance = False \<rparr>"

abbreviation ex_route_cc :: pb_ControlCommand where
  "ex_route_cc \<equiv> ex_cc\<lparr> cc_type := 9, cc_revision := 2 \<rparr>"

lemma ex_resynced:
  "\<exists>x' result. execute_with_cancel ex_rt from_slice ex_panel False ex_route_cc ex_control = (x', result) \<and>
     tres_status result = Applied"
proof -
  let ?m = "with_operation_cancellation False ex_manager1"
  have "\<not> isl (snd (apply_authoritative_if_unchanged ex_rt ?m ex_candidate3 1))"
    by (simp add: apply_authoritative_if_unchanged_def with_candidate_def begin_operation_def with_operation_cancellation_def
        guard_authoritative_revision_def publication_token_def ex_manager1_eq ex_candidate3_def tm_apply_def
        default_machine_def adapter_runtime_def adapter_apply_def Let_def ex_adapter_eval)
  then obtain m2 message where sync: "apply_authoritative_if_unchanged ex_rt ?m ex_candidate3 1 = (m2, Inr message)"
    by (metis prod.exhaust_sel sum.collapse(2))
  then have "tm_apply ex_rt ?m ex_candidate3 = (m2, Inr message)"
    by (auto simp: apply_authoritative_if_unchanged_def with_candidate_def result_simps Let_def split: sum.splits if_splits)
  from tm_apply_published [OF this] have "current_revision m2 = Some 3"
    by (simp add: published_def current_revision_def default_machine_def ex_candidate3_def ex_candidate_def)
  moreover have "publication_token ?m = 1" "tm_session_cancelled ?m = Some False"
    by (simp_all add: publication_token_def with_operation_cancellation_def ex_run)
  ultimately show ?thesis using sync
    by (simp add: execute_with_cancel_def execute_regular_def apply_with_recovery_def apply_command_def ensure_active_def
        command_type_def route_command_def ex_cc_def ex_control_def revision_failure_def resync_def fetch_resync_def
        read_topology_def on_manager_def ex_panel_def cancellable_def sbind_def smap_err_def apply_resync_def
        revision_fenced_command_def applied_def)
qed

theorem applied_reaches_revision_witness:
  "\<exists>x' result. execute_with_cancel ex_rt (\<lambda>_. Inr True) ex_panel False ex_route_cc ex_control = (x', result) \<and>
     tres_status result = Applied \<and> 2 \<le> mt_revision (tm_topology (cx_manager x'))"
proof -
  obtain x' result where run: "execute_with_cancel ex_rt (\<lambda>_. Inr True) ex_panel False ex_route_cc ex_control = (x', result)"
    "tres_status result = Applied"
    using ex_resynced by blast
  have "revision_fenced_command (cc_type ex_route_cc)"
    by (simp add: revision_fenced_command_def command_type_def)
  from applied_reaches_revision [OF run this] have "2 \<le> mt_revision (tm_topology (cx_manager x'))" by simp
  with run show ?thesis by blast
qed

theorem execution_is_history_witness:
  "\<exists>x' result ds. execute_with_cancel ex_rt (\<lambda>_. Inr True) ex_panel False ex_route_cc ex_control = (x', result) \<and>
     history ex_rt id ex_manager ([ApplyInitial ex_candidate] @ ds) (cx_manager x')"
proof -
  obtain x' result where run: "execute_with_cancel ex_rt (\<lambda>_. Inr True) ex_panel False ex_route_cc ex_control = (x', result)"
    using ex_resynced by blast
  have panel: "control_panel ex_rt id ex_panel"
    by unfold_locales (auto simp: ex_panel_def intro: history.start)
  have start: "history ex_rt id (manager_new ''m'' (tm_runtime ex_manager)) [ApplyInitial ex_candidate] (cx_manager ex_control)"
    using ex_history by (simp add: ex_control_def ex_manager_def manager_new_def)
  have manager: "manager_new ''m'' (tm_runtime ex_manager) = ex_manager" by (simp add: ex_manager_def manager_new_def)
  from execution_is_history [OF panel _ start run] manager run show ?thesis by auto
qed

end
