(* ===== verification/Traffic.thy ===== *)
theory Traffic
  imports Prelude
begin

text \<open>
  The billing aggregator of \<open>traffic.rs\<close>: runtime counters arrive as deltas, are merged by identity and
  UTC hour and leave as reports when they are large or old enough. Byte counts are \<open>u64\<close> and wrap.
  A \<open>SystemTime\<close> is the number of nanoseconds since the epoch, as an integer; the \<open>HashMap\<close> of counters
  is the list of its entries in the order an iteration would give. The clock is an argument.
\<close>

section \<open>Time\<close>

type_synonym system_time = int

text \<open>A drained counter, as the runtime reports it (\<open>runtime.rs\<close>).\<close>

record TrafficDrain =
  td_inbound_tag :: string
  td_node_id :: string
  td_protocol :: string
  td_user_id :: string
  td_uplink_bytes :: u64
  td_downlink_bytes :: u64
  td_observed_at :: "system_time option"

definition NANOS :: int where "NANOS = 1000000000"
definition I64_MAX :: int where "I64_MAX = 2 ^ 63 - 1"
definition I64_MIN :: int where "I64_MIN = - (2 ^ 63)"

definition OBSERVATION_BUCKET_SECONDS :: int where "OBSERVATION_BUCKET_SECONDS = 60"
definition AGGREGATION_BUCKET_SECONDS :: int where "AGGREGATION_BUCKET_SECONDS = 60 * 60"
definition DEFAULT_REPORT_DELTA_BYTES :: u64 where "DEFAULT_REPORT_DELTA_BYTES = 25 * 1024 * 1024"
definition DEFAULT_MAX_REPORT_DELAY :: int where "DEFAULT_MAX_REPORT_DELAY = 30 * 60"

text \<open>\<open>checked_add\<close> and \<open>checked_sub\<close> of a \<open>SystemTime\<close> fail when the seconds leave an \<open>i64\<close>.\<close>

definition representable :: "system_time \<Rightarrow> bool" where
  "representable t \<longleftrightarrow> I64_MIN \<le> t div NANOS \<and> t div NANOS \<le> I64_MAX"

definition checked_add :: "system_time \<Rightarrow> int \<Rightarrow> system_time option" where
  "checked_add t d = (if representable (t + d) then Some (t + d) else None)"

definition unix_seconds :: "system_time \<Rightarrow> int" where
  "unix_seconds time =
     (if 0 \<le> time then min (time div NANOS) I64_MAX
      else
        let duration = - time;
            seconds = min (duration div NANOS) I64_MAX
        in if duration mod NANOS = 0 then - seconds else max (- seconds - 1) I64_MIN)"

definition system_time_from_unix :: "int \<Rightarrow> system_time" where
  "system_time_from_unix seconds =
     (case checked_add 0 (seconds * NANOS) of None \<Rightarrow> 0 | Some t \<Rightarrow> t)"

definition observation_bucket_start :: "system_time \<Rightarrow> system_time" where
  "observation_bucket_start observed_at =
     system_time_from_unix
       (unix_seconds observed_at div OBSERVATION_BUCKET_SECONDS * OBSERVATION_BUCKET_SECONDS)"

section \<open>Events, reports and counters\<close>

record TrafficEvent =
  te_machine_id :: string
  te_node_id :: string
  te_user_id :: string
  te_protocol :: string
  te_uplink_bytes :: u64
  te_downlink_bytes :: u64
  te_observed_at :: "system_time option"

record Report =
  rpt_machine_id :: string
  rpt_node_id :: string
  rpt_user_id :: string
  rpt_protocol :: string
  rpt_uplink_bytes :: u64
  rpt_downlink_bytes :: u64
  rpt_observed_at :: system_time
  rpt_first_observed_at :: system_time

definition observed_at_unix :: "Report \<Rightarrow> int" where
  "observed_at_unix r = unix_seconds (rpt_observed_at r)"

record CounterKey =
  ck_machine_id :: string
  ck_node_id :: string
  ck_user_id :: string
  ck_protocol :: string
  ck_observation_hour :: int

record CounterValue =
  cv_uplink :: u64
  cv_downlink :: u64
  cv_first_observed_at :: system_time
  cv_last_observed_at :: system_time

type_synonym counters = "(CounterKey \<times> CounterValue) list"

record Aggregator =
  ag_min_report_delta_bytes :: u64
  ag_max_report_delay_seconds :: int
  ag_counters :: counters

definition aggregator_new :: "u64 \<Rightarrow> Aggregator" where
  "aggregator_new min_report_delta_bytes =
     \<lparr> ag_min_report_delta_bytes = min_report_delta_bytes,
       ag_max_report_delay_seconds = DEFAULT_MAX_REPORT_DELAY, ag_counters = [] \<rparr>"

definition set_max_report_delay_seconds :: "int \<Rightarrow> Aggregator \<Rightarrow> Aggregator" where
  "set_max_report_delay_seconds seconds ag = ag\<lparr> ag_max_report_delay_seconds := seconds \<rparr>"

section \<open>Operations\<close>

definition bump :: "u64 \<Rightarrow> u64 \<Rightarrow> system_time \<Rightarrow> system_time \<Rightarrow> CounterValue \<Rightarrow> CounterValue" where
  "bump uplink downlink first_observed_at observed_at v =
     \<lparr> cv_uplink = cv_uplink v + uplink, cv_downlink = cv_downlink v + downlink,
       cv_first_observed_at = min (cv_first_observed_at v) first_observed_at,
       cv_last_observed_at = max (cv_last_observed_at v) observed_at \<rparr>"

fun add_locked :: "counters \<Rightarrow> CounterKey \<Rightarrow> u64 \<Rightarrow> u64 \<Rightarrow> system_time \<Rightarrow> system_time \<Rightarrow> counters" where
  "add_locked [] key uplink downlink first_observed_at observed_at =
     [(key, bump uplink downlink first_observed_at observed_at
        \<lparr> cv_uplink = 0, cv_downlink = 0, cv_first_observed_at = first_observed_at,
          cv_last_observed_at = observed_at \<rparr>)]"
| "add_locked ((k, v) # counters) key uplink downlink first_observed_at observed_at =
     (if k = key then (k, bump uplink downlink first_observed_at observed_at v) # counters
      else (k, v) # add_locked counters key uplink downlink first_observed_at observed_at)"

definition observation_hour :: "system_time \<Rightarrow> int" where
  "observation_hour t = unix_seconds t div AGGREGATION_BUCKET_SECONDS"

definition observe :: "system_time \<Rightarrow> TrafficEvent \<Rightarrow> Aggregator \<Rightarrow> Aggregator" where
  "observe now event ag =
     (let observed_at = (case te_observed_at event of None \<Rightarrow> now | Some t \<Rightarrow> t);
          key = \<lparr> ck_machine_id = te_machine_id event, ck_node_id = te_node_id event,
                  ck_user_id = te_user_id event, ck_protocol = te_protocol event,
                  ck_observation_hour = observation_hour observed_at \<rparr>
      in ag\<lparr> ag_counters := add_locked (ag_counters ag) key (te_uplink_bytes event)
           (te_downlink_bytes event) observed_at observed_at \<rparr>)"

definition report_key :: "Report \<Rightarrow> CounterKey" where
  "report_key r =
     \<lparr> ck_machine_id = rpt_machine_id r, ck_node_id = rpt_node_id r, ck_user_id = rpt_user_id r,
       ck_protocol = rpt_protocol r, ck_observation_hour = observation_hour (rpt_observed_at r) \<rparr>"

definition restore_one :: "Report \<Rightarrow> Aggregator \<Rightarrow> Aggregator" where
  "restore_one r ag =
     (if rpt_uplink_bytes r = 0 \<and> rpt_downlink_bytes r = 0 then ag
      else ag\<lparr> ag_counters := add_locked (ag_counters ag) (report_key r) (rpt_uplink_bytes r)
             (rpt_downlink_bytes r) (rpt_first_observed_at r) (rpt_observed_at r) \<rparr>)"

definition restore :: "Report list \<Rightarrow> Aggregator \<Rightarrow> Aggregator" where
  "restore reports ag = fold restore_one reports ag"

definition should_report :: "Aggregator \<Rightarrow> CounterValue \<Rightarrow> system_time \<Rightarrow> bool" where
  "should_report ag v now =
     (let total = cv_uplink v + cv_downlink v in
      if total = 0 then False
      else if ag_min_report_delta_bytes ag = 0 \<or> total \<ge> ag_min_report_delta_bytes ag then True
      else if ag_max_report_delay_seconds ag \<le> 0 then False
      else (case checked_add (cv_first_observed_at v) (ag_max_report_delay_seconds ag * NANOS) of
              None \<Rightarrow> False | Some deadline \<Rightarrow> now \<ge> deadline))"

definition empty_counter :: "CounterValue \<Rightarrow> bool" where
  "empty_counter v \<longleftrightarrow> cv_uplink v = 0 \<and> cv_downlink v = 0"

definition report_of :: "CounterKey \<times> CounterValue \<Rightarrow> Report" where
  "report_of e = (case e of (key, v) \<Rightarrow>
     \<lparr> rpt_machine_id = ck_machine_id key, rpt_node_id = ck_node_id key,
       rpt_user_id = ck_user_id key, rpt_protocol = ck_protocol key,
       rpt_uplink_bytes = cv_uplink v, rpt_downlink_bytes = cv_downlink v,
       rpt_observed_at = observation_bucket_start (cv_last_observed_at v),
       rpt_first_observed_at = cv_first_observed_at v \<rparr>)"

text \<open>The comparator of the final sort, as the tuple it compares.\<close>

definition report_order :: "Report \<Rightarrow> int \<times> int \<times> string \<times> string \<times> string \<times> string" where
  "report_order r =
     (rpt_first_observed_at r, rpt_observed_at r, rpt_machine_id r, rpt_node_id r, rpt_user_id r,
      rpt_protocol r)"

definition extracted :: "Aggregator \<Rightarrow> bool \<Rightarrow> system_time \<Rightarrow> CounterKey \<times> CounterValue \<Rightarrow> bool" where
  "extracted ag force now e \<longleftrightarrow>
     empty_counter (snd e) \<or> force \<or> should_report ag (snd e) now"

definition flush_inner :: "system_time \<Rightarrow> bool \<Rightarrow> Aggregator \<Rightarrow> Aggregator \<times> Report list" where
  "flush_inner now force ag =
     (ag\<lparr> ag_counters := filter (\<lambda>e. \<not> extracted ag force now e) (ag_counters ag) \<rparr>,
      sort_key report_order
        (map report_of (filter (\<lambda>e. \<not> empty_counter (snd e))
           (filter (extracted ag force now) (ag_counters ag)))))"

definition flush :: "system_time \<Rightarrow> Aggregator \<Rightarrow> Aggregator \<times> Report list" where
  "flush now ag = flush_inner now False ag"

definition flush_all :: "system_time \<Rightarrow> Aggregator \<Rightarrow> Aggregator \<times> Report list" where
  "flush_all now ag = flush_inner now True ag"

section \<open>Time lemmas\<close>

definition sane_time :: "system_time \<Rightarrow> bool" where
  "sane_time t \<longleftrightarrow> - (2 ^ 62) \<le> t div NANOS \<and> t div NANOS < 2 ^ 62"

lemma unix_seconds_floor:
  assumes "sane_time t"
  shows "unix_seconds t = t div NANOS"
proof (cases "0 \<le> t")
  case True
  with assms show ?thesis by (simp add: unix_seconds_def sane_time_def I64_MAX_def)
next
  case False
  have "(- t) div NANOS = (if t mod NANOS = 0 then - (t div NANOS) else - (t div NANOS) - 1)"
    "(- t) mod NANOS = 0 \<longleftrightarrow> t mod NANOS = 0"
    by (auto simp: zdiv_zminus1_eq_if NANOS_def dvd_eq_mod_eq_0 [symmetric])
  with False assms show ?thesis
    by (auto simp: unix_seconds_def sane_time_def I64_MAX_def I64_MIN_def Let_def)
qed

lemma unix_seconds_whole:
  assumes "I64_MIN < s" and "s \<le> I64_MAX"
  shows "unix_seconds (s * NANOS) = s"
proof -
  have pos: "0 < NANOS" by (simp add: NANOS_def)
  then have "0 \<le> s * NANOS \<longleftrightarrow> 0 \<le> s" "s * NANOS div NANOS = s" "(- (s * NANOS)) mod NANOS = 0"
    "- (s * NANOS) div NANOS = - s"
    by (simp_all add: zero_le_mult_iff flip: mult_minus_left)
  with assms show ?thesis by (simp add: unix_seconds_def Let_def I64_MAX_def I64_MIN_def)
qed

lemma bucket_seconds:
  assumes "sane_time t"
  shows "unix_seconds (observation_bucket_start t) = t div NANOS div 60 * 60"
proof -
  let ?s = "t div NANOS div 60 * 60"
  have "q div 60 * 60 \<le> q \<and> q < q div 60 * 60 + 60" for q :: int by presburger
  from this [of "t div NANOS"] assms have range: "- (2 ^ 62) - 60 < ?s" "?s < 2 ^ 62"
    unfolding sane_time_def by linarith+
  then have "representable (?s * NANOS)"
    unfolding representable_def by (simp add: I64_MIN_def I64_MAX_def NANOS_def)
  then have start: "observation_bucket_start t = ?s * NANOS"
    by (simp add: observation_bucket_start_def system_time_from_unix_def checked_add_def
        unix_seconds_floor [OF assms] OBSERVATION_BUCKET_SECONDS_def)
  show "unix_seconds (observation_bucket_start t) = ?s"
    unfolding start by (rule unix_seconds_whole) (use range in \<open>simp_all add: I64_MAX_def I64_MIN_def\<close>)
qed

lemma bucket_hour: "sane_time t \<Longrightarrow> observation_hour (observation_bucket_start t) = observation_hour t"
  by (simp add: observation_hour_def bucket_seconds unix_seconds_floor AGGREGATION_BUCKET_SECONDS_def)

section \<open>Totals\<close>

type_synonym identity = "string \<times> string \<times> string \<times> string"

definition key_identity :: "CounterKey \<Rightarrow> identity" where
  "key_identity k = (ck_machine_id k, ck_node_id k, ck_user_id k, ck_protocol k)"

definition report_identity :: "Report \<Rightarrow> identity" where
  "report_identity r = (rpt_machine_id r, rpt_node_id r, rpt_user_id r, rpt_protocol r)"

definition event_identity :: "TrafficEvent \<Rightarrow> identity" where
  "event_identity e = (te_machine_id e, te_node_id e, te_user_id e, te_protocol e)"

text \<open>The bytes of one identity, uplink and downlink, in \<open>u64\<close> arithmetic.\<close>

definition bytes_if :: "bool \<Rightarrow> u64 \<times> u64 \<Rightarrow> u64 \<times> u64" where
  "bytes_if b x = (if b then x else (0, 0))"

definition plus2 :: "u64 \<times> u64 \<Rightarrow> u64 \<times> u64 \<Rightarrow> u64 \<times> u64" where
  "plus2 x y = (fst x + fst y, snd x + snd y)"

definition entry_bytes :: "identity \<Rightarrow> CounterKey \<times> CounterValue \<Rightarrow> u64 \<times> u64" where
  "entry_bytes i e = bytes_if (key_identity (fst e) = i) (cv_uplink (snd e), cv_downlink (snd e))"

definition report_bytes :: "identity \<Rightarrow> Report \<Rightarrow> u64 \<times> u64" where
  "report_bytes i r = bytes_if (report_identity r = i) (rpt_uplink_bytes r, rpt_downlink_bytes r)"

definition event_bytes :: "identity \<Rightarrow> TrafficEvent \<Rightarrow> u64 \<times> u64" where
  "event_bytes i e = bytes_if (event_identity e = i) (te_uplink_bytes e, te_downlink_bytes e)"

definition total :: "('a \<Rightarrow> u64 \<times> u64) \<Rightarrow> 'a list \<Rightarrow> u64 \<times> u64" where
  "total f xs = (sum_list (map (fst \<circ> f) xs), sum_list (map (snd \<circ> f) xs))"

definition pending :: "identity \<Rightarrow> Aggregator \<Rightarrow> u64 \<times> u64" where
  "pending i ag = total (entry_bytes i) (ag_counters ag)"

lemma plus2_assoc: "plus2 (plus2 x y) z = plus2 x (plus2 y z)"
  by (simp add: plus2_def add.assoc)

lemma plus2_commute: "plus2 x y = plus2 y x"
  by (simp add: plus2_def add.commute)

lemma plus2_left_commute: "plus2 x (plus2 y z) = plus2 y (plus2 x z)"
  by (simp add: plus2_def add.left_commute)

lemmas plus2_ac = plus2_assoc plus2_commute plus2_left_commute

lemma plus2_zero [simp]: "plus2 x (0, 0) = x" "plus2 (0, 0) x = x"
  by (simp_all add: plus2_def)

lemma total_simps [simp]:
  "total f [] = (0, 0)"
  "total f (x # xs) = plus2 (f x) (total f xs)"
  by (simp_all add: total_def plus2_def)

lemma total_append [simp]: "total f (xs @ ys) = plus2 (total f xs) (total f ys)"
  by (induction xs) (simp_all add: plus2_ac)

lemma total_map: "total f (map g xs) = total (f \<circ> g) xs"
  by (simp add: total_def comp_assoc)

lemma total_mset: "mset xs = mset ys \<Longrightarrow> total f xs = total f ys"
  by (simp add: total_def flip: sum_mset_sum_list)

lemma total_partition: "total f xs = plus2 (total f (filter P xs)) (total f (filter (\<lambda>x. \<not> P x) xs))"
  by (induction xs) (simp_all add: plus2_ac)

lemma total_filter_zero: "(\<And>x. \<not> P x \<Longrightarrow> f x = (0, 0)) \<Longrightarrow> total f (filter P xs) = total f xs"
  by (induction xs) auto

lemma entry_bytes_bump:
  "entry_bytes i (k, bump u d f t v) = plus2 (bytes_if (key_identity k = i) (u, d)) (entry_bytes i (k, v))"
  by (simp add: entry_bytes_def bytes_if_def bump_def plus2_def)

lemma total_add_locked:
  "total (entry_bytes i) (add_locked cs key u d f t) =
     plus2 (bytes_if (key_identity key = i) (u, d)) (total (entry_bytes i) cs)"
proof (induction cs)
  case Nil
  then show ?case by (simp add: entry_bytes_bump) (simp add: entry_bytes_def bytes_if_def)
next
  case (Cons e cs)
  obtain k v where e: "e = (k, v)" by (cases e)
  with Cons show ?case by (auto simp: entry_bytes_bump plus2_ac)
qed

lemma pending_observe: "pending i (observe now e ag) = plus2 (event_bytes i e) (pending i ag)"
  by (simp add: pending_def observe_def Let_def total_add_locked event_bytes_def key_identity_def
      event_identity_def)

lemma pending_restore_one: "pending i (restore_one r ag) = plus2 (report_bytes i r) (pending i ag)"
  by (simp add: pending_def restore_one_def total_add_locked report_bytes_def report_key_def
      key_identity_def report_identity_def bytes_if_def)

lemma pending_restore: "pending i (restore rs ag) = plus2 (total (report_bytes i) rs) (pending i ag)"
  by (induction rs arbitrary: ag) (simp_all add: restore_def pending_restore_one plus2_ac)

lemma report_bytes_of: "report_bytes i \<circ> report_of = entry_bytes i"
  by (auto simp: fun_eq_iff report_bytes_def entry_bytes_def report_of_def report_identity_def
      key_identity_def)

lemma pending_flush:
  assumes "flush_inner now force ag = (ag', rs)"
  shows "pending i ag = plus2 (total (report_bytes i) rs) (pending i ag')"
proof -
  let ?x = "extracted ag force now"
  from assms have ag': "ag_counters ag' = filter (\<lambda>e. \<not> ?x e) (ag_counters ag)"
    and rs: "mset rs = mset (map report_of (filter (\<lambda>e. \<not> empty_counter (snd e))
      (filter ?x (ag_counters ag))))"
    by (auto simp: flush_inner_def)
  have zero: "\<not> \<not> empty_counter (snd e) \<Longrightarrow> entry_bytes i e = (0, 0)" for e
    by (simp add: entry_bytes_def bytes_if_def empty_counter_def)
  have "total (report_bytes i) rs = total (entry_bytes i) (filter ?x (ag_counters ag))"
    unfolding total_mset [OF rs] total_map report_bytes_of by (rule total_filter_zero [OF zero])
  then show ?thesis
    using total_partition [of "entry_bytes i" "ag_counters ag" ?x] by (simp add: pending_def ag')
qed

section \<open>Well-formed counters\<close>

definition wf_entry :: "CounterKey \<times> CounterValue \<Rightarrow> bool" where
  "wf_entry e \<longleftrightarrow> sane_time (cv_first_observed_at (snd e)) \<and> sane_time (cv_last_observed_at (snd e)) \<and>
     observation_hour (cv_last_observed_at (snd e)) = ck_observation_hour (fst e)"

definition wf_counters :: "counters \<Rightarrow> bool" where
  "wf_counters cs \<longleftrightarrow> distinct (map fst cs) \<and> list_all wf_entry cs"

lemma keys_add_locked: "fst ` set (add_locked cs key u d f t) = insert key (fst ` set cs)"
  by (induction cs key u d f t rule: add_locked.induct) auto

lemma wf_add_locked:
  assumes "wf_counters cs" and "sane_time f" and "sane_time t" and "observation_hour t = ck_observation_hour key"
  shows "wf_counters (add_locked cs key u d f t)"
  using assms
proof (induction cs)
  case Nil
  then show ?case by (simp add: wf_counters_def wf_entry_def bump_def)
next
  case (Cons e cs)
  obtain k v where e: "e = (k, v)" by (cases e)
  from Cons have wf: "wf_counters (add_locked cs key u d f t)" by (simp add: wf_counters_def)
  show ?case
  proof (cases "k = key")
    case True
    with Cons.prems e show ?thesis by (auto simp: wf_counters_def wf_entry_def bump_def min_def max_def)
  next
    case False
    with Cons.prems e wf show ?thesis
      using keys_add_locked [of cs key u d f t] by (simp add: wf_counters_def)
  qed
qed

lemma wf_observe:
  "wf_counters (ag_counters ag) \<Longrightarrow> sane_time now \<Longrightarrow> (\<And>t. te_observed_at e = Some t \<Longrightarrow> sane_time t) \<Longrightarrow>
   wf_counters (ag_counters (observe now e ag))"
  by (auto simp: observe_def Let_def intro!: wf_add_locked split: option.split)

definition sane_report :: "Report \<Rightarrow> bool" where
  "sane_report r \<longleftrightarrow> sane_time (rpt_first_observed_at r) \<and> sane_time (rpt_observed_at r)"

lemma wf_restore:
  "wf_counters (ag_counters ag) \<Longrightarrow> list_all sane_report rs \<Longrightarrow> wf_counters (ag_counters (restore rs ag))"
proof (induction rs arbitrary: ag)
  case (Cons r rs)
  then have "wf_counters (ag_counters (restore_one r ag))"
    by (auto simp: restore_one_def sane_report_def report_key_def intro!: wf_add_locked)
  with Cons show ?case by (simp add: restore_def)
qed (simp add: restore_def)

lemma wf_flush: "wf_counters (ag_counters ag) \<Longrightarrow> wf_counters (ag_counters (fst (flush_inner now force ag)))"
  by (auto simp: flush_inner_def wf_counters_def list_all_iff distinct_map_filter)

text \<open>The comparator tells the reports of one flush apart.\<close>

lemma report_order_key:
  assumes "wf_entry e" and "wf_entry e'" and "report_order (report_of e) = report_order (report_of e')"
  shows "fst e = fst e'"
proof -
  have hour: "ck_observation_hour (fst x) = observation_hour (rpt_observed_at (report_of x))"
    if "wf_entry x" for x
    using that by (auto simp: report_of_def wf_entry_def bucket_hour split: prod.split)
  show ?thesis
    using assms(3) hour [OF assms(1)] hour [OF assms(2)]
    by (intro CounterKey.equality) (auto simp: report_order_def report_of_def split: prod.splits)
qed

lemma report_order_inj:
  assumes "wf_counters cs"
  shows "inj_on report_order (report_of ` set cs)"
proof (rule inj_onI)
  fix x y assume x: "x \<in> report_of ` set cs" and y: "y \<in> report_of ` set cs"
    and eq: "report_order x = report_order y"
  from x obtain e where e: "e \<in> set cs" "x = report_of e" by blast
  from y obtain e' where e': "e' \<in> set cs" "y = report_of e'" by blast
  have "wf_entry e" "wf_entry e'" "distinct (map fst cs)"
    using assms e(1) e'(1) by (auto simp: wf_counters_def list_all_iff)
  then have "fst e = fst e'" using report_order_key eq e(2) e'(2) by blast
  with e(1) e'(1) \<open>distinct (map fst cs)\<close> have "e = e'"
    by (simp add: distinct_map inj_on_def)
  with e(2) e'(2) show "x = y" by simp
qed

section \<open>Properties of the aggregator\<close>

lemma extracted_counters [simp]: "extracted (ag\<lparr> ag_counters := cs \<rparr>) = extracted ag"
  by (simp add: fun_eq_iff extracted_def should_report_def)

lemma sorted_first: "sorted (map report_order rs) \<Longrightarrow> sorted (map rpt_first_observed_at rs)"
  unfolding sorted_map by (rule sorted_wrt_mono_rel) (auto simp: report_order_def less_eq_prod_def)

text \<open>In a state reached by observations and restorations, a
  flush gives the same reports in the same order whatever the iteration order of the counter map,
  and the report with the oldest unreported byte comes first.\<close>

lemma flush_order_independent:
  assumes "wf_counters (ag_counters ag)" and "mset cs = mset (ag_counters ag)"
  shows "snd (flush_inner now force (ag\<lparr> ag_counters := cs \<rparr>)) = snd (flush_inner now force ag) \<and>
    sorted (map rpt_first_observed_at (snd (flush_inner now force ag)))"
proof -
  define sel where "sel = (\<lambda>e. \<not> empty_counter (snd e) \<and> extracted ag force now e)"
  have flush: "snd (flush_inner now force (ag\<lparr> ag_counters := xs \<rparr>)) =
      sort_key report_order (map report_of (filter sel xs))" for xs
    by (simp add: flush_inner_def sel_def conj_commute)
  have sub: "report_of ` set (filter sel cs) \<subseteq> report_of ` set (ag_counters ag)"
    using assms(2) by (metis filter_is_subset image_mono set_mset_mset)
  have eq: "sort_key report_order (map report_of (filter sel cs)) =
      sort_key report_order (map report_of (filter sel (ag_counters ag)))"
  proof (rule sort_key_inj_key_eq)
    show "mset (map report_of (filter sel cs)) =
        mset (sort_key report_order (map report_of (filter sel (ag_counters ag))))"
      using assms(2) by simp
    show "inj_on report_order (set (map report_of (filter sel cs)))"
      using inj_on_subset [OF report_order_inj [OF assms(1)] sub] by simp
  qed simp
  have "sorted (map rpt_first_observed_at (snd (flush_inner now force ag)))"
    by (rule sorted_first) (simp add: flush_inner_def)
  then show ?thesis using eq flush [of cs] flush [of "ag_counters ag"] by simp
qed

definition ex_counter :: "string \<Rightarrow> CounterKey \<times> CounterValue" where
  "ex_counter user = (\<lparr> ck_machine_id = ''m'', ck_node_id = ''n'', ck_user_id = user, ck_protocol = ''vless'',
     ck_observation_hour = 0 \<rparr>,
     \<lparr> cv_uplink = 1, cv_downlink = 2, cv_first_observed_at = 0, cv_last_observed_at = 0 \<rparr>)"

lemma should_report_iff:
  "should_report ag v now \<longleftrightarrow> cv_uplink v + cv_downlink v \<noteq> 0 \<and>
     (ag_min_report_delta_bytes ag \<le> cv_uplink v + cv_downlink v \<or>
      0 < ag_max_report_delay_seconds ag \<and>
      representable (cv_first_observed_at v + ag_max_report_delay_seconds ag * NANOS) \<and>
      cv_first_observed_at v + ag_max_report_delay_seconds ag * NANOS \<le> now)"
  by (auto simp: should_report_def checked_add_def Let_def not_le split: option.splits if_splits)

lemma flush_inner_sets:
  "set (snd (flush_inner now force ag)) =
     report_of ` {e \<in> set (ag_counters ag). \<not> empty_counter (snd e) \<and> extracted ag force now e}"
  "set (ag_counters (fst (flush_inner now force ag))) =
     {e \<in> set (ag_counters ag). \<not> extracted ag force now e}"
  by (simp_all add: flush_inner_def conj_commute)

text \<open>What a periodic flush reports: it reports exactly the counters whose bytes are not zero modulo
  \<open>2 ^ 64\<close> and reach the threshold, or whose oldest byte has waited for the maximum delay, and
  keeps every other non-empty counter as it is; a shutdown flush reports every counter that holds a
  byte and keeps none.\<close>

lemma flush_selects:
  "(case flush now ag of (ag', reports) \<Rightarrow>
      set reports = report_of ` {(k, v) \<in> set (ag_counters ag).
        cv_uplink v + cv_downlink v \<noteq> 0 \<and>
        (ag_min_report_delta_bytes ag \<le> cv_uplink v + cv_downlink v \<or>
         0 < ag_max_report_delay_seconds ag \<and>
         representable (cv_first_observed_at v + ag_max_report_delay_seconds ag * NANOS) \<and>
         cv_first_observed_at v + ag_max_report_delay_seconds ag * NANOS \<le> now)} \<and>
      set (ag_counters ag') = {(k, v) \<in> set (ag_counters ag). \<not> empty_counter v \<and>
        \<not> (cv_uplink v + cv_downlink v \<noteq> 0 \<and>
        (ag_min_report_delta_bytes ag \<le> cv_uplink v + cv_downlink v \<or>
         0 < ag_max_report_delay_seconds ag \<and>
         representable (cv_first_observed_at v + ag_max_report_delay_seconds ag * NANOS) \<and>
         cv_first_observed_at v + ag_max_report_delay_seconds ag * NANOS \<le> now))}) \<and>
   (case flush_all now ag of (ag', reports) \<Rightarrow>
      set reports = report_of ` {(k, v) \<in> set (ag_counters ag). \<not> empty_counter v} \<and>
      ag_counters ag' = [])"
proof -
  let ?picked = "{e \<in> set (ag_counters ag). \<not> empty_counter (snd e) \<and> extracted ag False now e}"
  have "?picked = {(k, v) \<in> set (ag_counters ag). should_report ag v now}"
    using should_report_iff by (auto simp: extracted_def empty_counter_def)
  moreover have "{e \<in> set (ag_counters ag). \<not> extracted ag False now e} =
      {(k, v) \<in> set (ag_counters ag). \<not> empty_counter v \<and> \<not> should_report ag v now}"
    by (auto simp: extracted_def)
  ultimately have "case flush now ag of (ag', reports) \<Rightarrow>
      set reports = report_of ` {(k, v) \<in> set (ag_counters ag). should_report ag v now} \<and>
      set (ag_counters ag') = {(k, v) \<in> set (ag_counters ag). \<not> empty_counter v \<and>
        \<not> should_report ag v now}"
    using flush_inner_sets [of now False ag] by (simp add: flush_def case_prod_beta)
  moreover have "case flush_all now ag of (ag', reports) \<Rightarrow>
      set reports = report_of ` {(k, v) \<in> set (ag_counters ag). \<not> empty_counter v} \<and> ag_counters ag' = []"
    using flush_inner_sets [of now True ag]
    by (auto simp: flush_all_def extracted_def case_prod_beta)
  ultimately show ?thesis unfolding should_report_iff by simp
qed

end
