(* ===== verification/Traffic_Queue.thy ===== *)
theory Traffic_Queue
  imports Traffic Session Runtime_Api
begin

text \<open>
  The traffic queue and the traffic stream of \<open>traffic/stream.rs\<close>. The producer drains the counters of
  the runtime into the aggregator and queues the reports of a flush; the consumer of one stream
  generation moves a report into the in-flight slot, offers it to the call and releases it when the
  call has taken it. Both run concurrently and streams come and go, so the system is a step relation:
  each step is one atomic action of the code, between two awaits.
\<close>

section \<open>Reports on the wire\<close>

record pb_TrafficReport =
  tr_machine_id :: string
  tr_node_id :: string
  tr_user_id :: string
  tr_protocol :: string
  tr_uplink_bytes :: u64
  tr_downlink_bytes :: u64
  tr_observed_at_unix :: int

definition report_to_proto :: "Report \<Rightarrow> pb_TrafficReport" where
  "report_to_proto r =
     \<lparr> tr_machine_id = rpt_machine_id r, tr_node_id = rpt_node_id r, tr_user_id = rpt_user_id r,
       tr_protocol = rpt_protocol r, tr_uplink_bytes = rpt_uplink_bytes r,
       tr_downlink_bytes = rpt_downlink_bytes r, tr_observed_at_unix = observed_at_unix r \<rparr>"

section \<open>The queue\<close>

definition TRAFFIC_QUEUE_SIZE :: nat where "TRAFFIC_QUEUE_SIZE = 256"

record TrafficQueue =
  tq_reports :: "pb_TrafficReport list"
  tq_in_flight :: "pb_TrafficReport option"
  tq_capacity :: nat

definition with_capacity :: "nat \<Rightarrow> TrafficQueue" where
  "with_capacity capacity = \<lparr> tq_reports = [], tq_in_flight = None, tq_capacity = capacity \<rparr>"

definition queue_new :: TrafficQueue where
  "queue_new = with_capacity TRAFFIC_QUEUE_SIZE"

definition queued_len :: "TrafficQueue \<Rightarrow> nat" where
  "queued_len q = length (tq_reports q) + (if tq_in_flight q \<noteq> None then 1 else 0)"

definition has_room :: "TrafficQueue \<Rightarrow> bool" where
  "has_room q \<longleftrightarrow> length (tq_reports q) < tq_capacity q"

definition send_report :: "Report \<Rightarrow> TrafficQueue \<Rightarrow> TrafficQueue" where
  "send_report r q = q\<lparr> tq_reports := tq_reports q @ [report_to_proto r] \<rparr>"

text \<open>Without waiting a report is queued only while the token is not cancelled and there is room; the
  first report that is not queued goes back to the aggregator with the rest of the batch.\<close>

fun enqueue_inner :: "bool \<Rightarrow> Report list \<Rightarrow> TrafficQueue \<Rightarrow> Aggregator \<Rightarrow> TrafficQueue \<times> Aggregator \<times> nat" where
  "enqueue_inner cancelled [] q ag = (q, ag, 0)"
| "enqueue_inner cancelled (r # rs) q ag =
     (if \<not> cancelled \<and> has_room q
      then (let (q', ag', queued) = enqueue_inner cancelled rs (send_report r q) ag in (q', ag', queued + 1))
      else (q, restore (r # rs) ag, 0))"

definition queue_flush :: "system_time \<Rightarrow> bool \<Rightarrow> TrafficQueue \<Rightarrow> Aggregator \<Rightarrow> TrafficQueue \<times> Aggregator \<times> nat" where
  "queue_flush now cancelled q ag =
     (let (ag', reports) = flush now ag in enqueue_inner cancelled reports q ag')"

section \<open>Draining the runtime\<close>

definition drain_event :: "string \<Rightarrow> TrafficDrain \<Rightarrow> TrafficEvent" where
  "drain_event machine_id d =
     \<lparr> te_machine_id = machine_id, te_node_id = td_node_id d, te_user_id = td_user_id d,
       te_protocol = td_protocol d, te_uplink_bytes = td_uplink_bytes d,
       te_downlink_bytes = td_downlink_bytes d, te_observed_at = td_observed_at d \<rparr>"

definition observe_runtime_drains :: "system_time \<Rightarrow> string \<Rightarrow> TrafficDrain list \<Rightarrow> Aggregator \<Rightarrow> Aggregator \<times> nat" where
  "observe_runtime_drains now machine_id drains ag =
     (fold (\<lambda>d. observe now (drain_event machine_id d)) drains ag, length drains)"

definition collect_runtime_traffic :: "system_time \<Rightarrow> RuntimeError + TrafficDrain list \<Rightarrow> string \<Rightarrow> Aggregator \<Rightarrow>
    SessionError + (Aggregator \<times> nat)" where
  "collect_runtime_traffic now drained machine_id ag =
     rbind (rmap_err (\<lambda>error. Task ''drain shoes traffic'' (display_runtime_error error)) drained) (\<lambda>drains.
     Inr (observe_runtime_drains now machine_id drains ag))"

text \<open>One tick of the flusher.\<close>

definition flusher_tick :: "system_time \<Rightarrow> bool \<Rightarrow> RuntimeError + TrafficDrain list \<Rightarrow> string \<Rightarrow> TrafficQueue \<Rightarrow>
    Aggregator \<Rightarrow> SessionError + (TrafficQueue \<times> Aggregator)" where
  "flusher_tick now cancelled drained machine_id q ag =
     rbind (collect_runtime_traffic now drained machine_id ag) (\<lambda>(ag', count).
     let (q', ag'', queued) = queue_flush now cancelled q ag' in Inr (q', ag''))"

section \<open>The end of a stream\<close>

datatype ConsumeStop = DrainStop | CancelledStop | OutgoingClosedStop

text \<open>Either the consumer stops first and the call then ends with \<open>response\<close> (\<open>None\<close> when the grace
  period ends first), or the call ends first.\<close>

datatype stream_end = ConsumerFirst ConsumeStop "(Status + unit) option" | ResponseFirst "Status + unit"

definition closed_result :: "bool \<Rightarrow> Status + unit \<Rightarrow> SessionError + unit" where
  "closed_result cancelled response =
     (case response of
        Inr _ \<Rightarrow> if cancelled then Inr () else Inl (CriticalStreamEnded ''traffic stream closed'')
      | Inl status \<Rightarrow> Inl (Rpc status))"

text \<open>The result of the stream and the reply to the drain request. An unbounded wait for the call has
  no result while \<open>response\<close> is missing.\<close>

fun run_traffic_stream :: "bool \<Rightarrow> stream_end \<Rightarrow> ((SessionError + unit) \<times> (string + unit) option) option" where
  "run_traffic_stream cancelled (ConsumerFirst DrainStop response) =
     map_option (\<lambda>result. case result of
        Inr _ \<Rightarrow> (Inr (), Some (Inr ()))
      | Inl status \<Rightarrow> (Inl (Rpc status), Some (Inl (st_text status)))) response"
| "run_traffic_stream cancelled (ConsumerFirst CancelledStop response) = Some (Inr (), None)"
| "run_traffic_stream cancelled (ConsumerFirst OutgoingClosedStop response) =
     map_option (\<lambda>result. (closed_result cancelled result, None)) response"
| "run_traffic_stream cancelled (ResponseFirst result) = Some (closed_result cancelled result, None)"

text \<open>Waiting until the queue is empty: the lengths seen at the polls, with the token after each.\<close>

fun queue_emptied :: "(nat \<times> bool) list \<Rightarrow> (SessionError + unit) option" where
  "queue_emptied [] = None"
| "queue_emptied ((len, cancelled) # polls) =
     (if len = 0 then Some (Inr ())
      else if cancelled then Some (Inl ControlStreamClosed)
      else queue_emptied polls)"

datatype drain_wait = WaitCancelled | RequestRefused | ReplyDropped | ReplyReceived "string + unit"

fun drain_reply :: "drain_wait \<Rightarrow> SessionError + unit" where
  "drain_reply WaitCancelled = Inl ControlStreamClosed"
| "drain_reply RequestRefused = Inl ControlStreamClosed"
| "drain_reply ReplyDropped = Inl ControlStreamClosed"
| "drain_reply (ReplyReceived (Inr _)) = Inr ()"
| "drain_reply (ReplyReceived (Inl message)) = Inl (Task ''traffic drain'' message)"

definition wait_for_panel_drain :: "(nat \<times> bool) list \<Rightarrow> drain_wait \<Rightarrow> (SessionError + unit) option" where
  "wait_for_panel_drain polls outcome =
     map_option (\<lambda>emptied. rbind emptied (\<lambda>_. drain_reply outcome)) (queue_emptied polls)"

section \<open>Producer and consumer as a state machine\<close>

text \<open>The consumer of the current stream generation: none, at the head of its loop, waiting for the
  report it offered, or told that the call has taken it.\<close>

datatype consumer = NoStream | Receiving | Offered | Consumed

text \<open>The last four fields record the history: what was observed, queued, handed to the call and
  released.\<close>

record traffic_system =
  sy_aggregator :: Aggregator
  sy_batch :: "Report list"
  sy_queue :: TrafficQueue
  sy_consumer :: consumer
  sy_outgoing :: "pb_TrafficReport option"
  sy_observed :: "TrafficEvent list"
  sy_enqueued :: "pb_TrafficReport list"
  sy_delivered :: "pb_TrafficReport list"
  sy_committed :: "pb_TrafficReport list"

definition system_new :: "u64 \<Rightarrow> nat \<Rightarrow> traffic_system" where
  "system_new min_delta capacity =
     \<lparr> sy_aggregator = aggregator_new min_delta, sy_batch = [], sy_queue = with_capacity capacity,
       sy_consumer = NoStream, sy_outgoing = None, sy_observed = [], sy_enqueued = [],
       sy_delivered = [], sy_committed = [] \<rparr>"

abbreviation in_flight :: "traffic_system \<Rightarrow> pb_TrafficReport option" where
  "in_flight s \<equiv> tq_in_flight (sy_queue s)"

inductive traffic_step :: "traffic_system \<Rightarrow> traffic_system \<Rightarrow> bool" where
  observe_event:
    "traffic_step s (s\<lparr> sy_aggregator := observe now e (sy_aggregator s), sy_observed := sy_observed s @ [e] \<rparr>)"
| flush_batch:
    "sy_batch s = [] \<Longrightarrow> flush_inner now force (sy_aggregator s) = (ag, reports) \<Longrightarrow>
     traffic_step s (s\<lparr> sy_aggregator := ag, sy_batch := reports \<rparr>)"
| queue_report:
    "sy_batch s = r # rs \<Longrightarrow> has_room (sy_queue s) \<Longrightarrow>
     traffic_step s (s\<lparr> sy_batch := rs, sy_queue := send_report r (sy_queue s),
       sy_enqueued := sy_enqueued s @ [report_to_proto r] \<rparr>)"
| restore_batch:
    "sy_batch s = r # rs \<Longrightarrow>
     traffic_step s (s\<lparr> sy_batch := [], sy_aggregator := restore (r # rs) (sy_aggregator s) \<rparr>)"
| start_stream:
    "sy_consumer s = NoStream \<Longrightarrow> traffic_step s (s\<lparr> sy_consumer := Receiving, sy_outgoing := None \<rparr>)"
| take_report:
    "sy_consumer s = Receiving \<Longrightarrow> in_flight s = None \<Longrightarrow> tq_reports (sy_queue s) = p # ps \<Longrightarrow>
     traffic_step s (s\<lparr> sy_queue := (sy_queue s)\<lparr> tq_reports := ps, tq_in_flight := Some p \<rparr> \<rparr>)"
| offer_report:
    "sy_consumer s = Receiving \<Longrightarrow> in_flight s = Some p \<Longrightarrow> sy_outgoing s = None \<Longrightarrow>
     traffic_step s (s\<lparr> sy_consumer := Offered, sy_outgoing := Some p \<rparr>)"
| poll_report:
    "sy_outgoing s = Some p \<Longrightarrow>
     traffic_step s (s\<lparr> sy_outgoing := None, sy_delivered := sy_delivered s @ [p],
       sy_consumer := (if sy_consumer s = Offered then Consumed else sy_consumer s) \<rparr>)"
| release_report:
    "sy_consumer s = Consumed \<Longrightarrow> in_flight s = Some p \<Longrightarrow>
     traffic_step s (s\<lparr> sy_consumer := Receiving, sy_queue := (sy_queue s)\<lparr> tq_in_flight := None \<rparr>,
       sy_committed := sy_committed s @ [p] \<rparr>)"
| stop_consumer:
    "sy_consumer s \<noteq> Consumed \<Longrightarrow> traffic_step s (s\<lparr> sy_consumer := NoStream \<rparr>)"
| drop_stream:
    "traffic_step s (s\<lparr> sy_consumer := NoStream, sy_outgoing := None \<rparr>)"

inductive_cases traffic_stepE: "traffic_step s s'"

abbreviation traffic_steps :: "traffic_system \<Rightarrow> traffic_system \<Rightarrow> bool" where
  "traffic_steps \<equiv> traffic_step\<^sup>*\<^sup>*"

section \<open>Order and delivery\<close>

text \<open>A list with some of its elements repeated on the spot.\<close>

inductive repeats :: "'a list \<Rightarrow> 'a list \<Rightarrow> bool" where
  repeats_Nil: "repeats [] []"
| repeats_snoc: "repeats xs ys \<Longrightarrow> repeats (xs @ [x]) (ys @ replicate (Suc n) x)"

lemma repeats_set: "repeats xs ys \<Longrightarrow> set ys = set xs"
  by (induction rule: repeats.induct) auto

definition slot :: "'a option \<Rightarrow> 'a list" where
  "slot p = (case p of None \<Rightarrow> [] | Some x \<Rightarrow> [x])"

lemma slot_simps [simp]: "slot None = []" "slot (Some x) = [x]"
  by (simp_all add: slot_def)

lemma slot_length: "queued_len q = length (slot (tq_in_flight q) @ tq_reports q)"
  by (auto simp: queued_len_def slot_def split: option.splits)

text \<open>The released reports have all been taken by the call, in order; the report in flight may have
  been taken already, by this stream or by earlier ones.\<close>

definition delivered_ok :: "traffic_system \<Rightarrow> bool" where
  "delivered_ok s \<longleftrightarrow> (\<exists>ds rest. repeats (sy_committed s) ds \<and> sy_delivered s = ds @ rest \<and>
     set rest \<subseteq> set (slot (in_flight s)) \<and> (sy_consumer s = Consumed \<longrightarrow> rest \<noteq> []))"

definition queue_inv :: "traffic_system \<Rightarrow> bool" where
  "queue_inv s \<longleftrightarrow>
     sy_enqueued s = sy_committed s @ slot (in_flight s) @ tq_reports (sy_queue s) \<and>
     length (tq_reports (sy_queue s)) \<le> tq_capacity (sy_queue s) \<and>
     (sy_outgoing s \<noteq> None \<longrightarrow> sy_outgoing s = in_flight s) \<and>
     (sy_consumer s = Offered \<longrightarrow> sy_outgoing s \<noteq> None) \<and>
     (sy_consumer s = Consumed \<longrightarrow> in_flight s \<noteq> None \<and> sy_outgoing s = None)"

lemma queue_inv_step: "traffic_step s s' \<Longrightarrow> queue_inv s \<Longrightarrow> queue_inv s'"
  by (induction rule: traffic_step.induct)
    (auto simp: queue_inv_def has_room_def send_report_def dest: sym [of "Some _"])

lemma delivered_ok_step:
  assumes "traffic_step s s'" and "queue_inv s" and "delivered_ok s"
  shows "delivered_ok s'"
  using assms
proof (induction rule: traffic_step.induct)
  case (poll_report s p)
  then have flying: "in_flight s = Some p" by (simp add: queue_inv_def)
  from poll_report.prems(2) obtain ds rest where
    "repeats (sy_committed s) ds" "sy_delivered s = ds @ rest" "set rest \<subseteq> set (slot (in_flight s))"
    unfolding delivered_ok_def by blast
  with flying show ?case
    unfolding delivered_ok_def by (intro exI [of _ ds] exI [of _ "rest @ [p]"]) simp
next
  case (release_report s p)
  then obtain ds rest where ds: "repeats (sy_committed s) ds" "sy_delivered s = ds @ rest"
    and rest: "set rest \<subseteq> {p}" "rest \<noteq> []"
    by (auto simp: delivered_ok_def)
  from rest have "rest = replicate (Suc (length rest - 1)) p"
    by (intro replicate_eqI) auto
  with repeats_snoc [OF ds(1), of p "length rest - 1"] ds(2) show ?case
    unfolding delivered_ok_def by (intro exI [of _ "ds @ rest"] exI [of _ "[]"]) simp
qed (auto simp: delivered_ok_def send_report_def)

lemma queue_reachable:
  assumes "traffic_steps (system_new min_delta capacity) s"
  shows "queue_inv s \<and> delivered_ok s \<and> tq_capacity (sy_queue s) = capacity"
  using assms
proof (induction rule: rtranclp_induct)
  case base
  show ?case
    by (auto simp: queue_inv_def delivered_ok_def system_new_def with_capacity_def intro: repeats_Nil)
next
  case (step s s')
  have "tq_capacity (sy_queue s') = tq_capacity (sy_queue s)"
    using step.hyps(2) by (induction rule: traffic_step.induct) (simp_all add: send_report_def)
  with step queue_inv_step delivered_ok_step show ?case by metis
qed

text \<open>C23 (reports reach the panel in order, at least once): in every reachable state, over any number
  of streams that broke at any point, the queued reports are exactly the released ones followed by
  the one in flight and the ones still queued, in order; the calls have taken every released report,
  in that order and only possibly repeated on the spot, and beyond those at most repetitions of the
  report in flight; and the buffer never exceeds its capacity.\<close>

theorem reports_delivered_in_order:
  assumes "traffic_steps (system_new min_delta capacity) s"
  shows "sy_enqueued s = sy_committed s @ slot (in_flight s) @ tq_reports (sy_queue s) \<and>
    (\<exists>ds rest. sy_delivered s = ds @ rest \<and> repeats (sy_committed s) ds \<and> set rest \<subseteq> set (slot (in_flight s))) \<and>
    queued_len (sy_queue s) \<le> capacity + 1"
proof -
  from queue_reachable [OF assms] have inv: "queue_inv s" "delivered_ok s" "tq_capacity (sy_queue s) = capacity"
    by simp_all
  then have "queued_len (sy_queue s) \<le> capacity + 1"
    by (auto simp: queue_inv_def queued_len_def)
  moreover from inv(2) have
    "\<exists>ds rest. sy_delivered s = ds @ rest \<and> repeats (sy_committed s) ds \<and> set rest \<subseteq> set (slot (in_flight s))"
    unfolding delivered_ok_def by blast
  ultimately show ?thesis using inv(1) by (simp add: queue_inv_def)
qed

section \<open>Accounting\<close>

definition proto_bytes :: "identity \<Rightarrow> pb_TrafficReport \<Rightarrow> u64 \<times> u64" where
  "proto_bytes i p = bytes_if ((tr_machine_id p, tr_node_id p, tr_user_id p, tr_protocol p) = i)
     (tr_uplink_bytes p, tr_downlink_bytes p)"

lemma proto_bytes_report [simp]: "proto_bytes i (report_to_proto r) = report_bytes i r"
  by (simp add: proto_bytes_def report_to_proto_def report_bytes_def report_identity_def)

definition accounted :: "traffic_system \<Rightarrow> identity \<Rightarrow> bool" where
  "accounted s i \<longleftrightarrow> total (event_bytes i) (sy_observed s) =
     plus2 (pending i (sy_aggregator s)) (plus2 (total (report_bytes i) (sy_batch s))
       (total (proto_bytes i) (sy_enqueued s)))"

lemma accounted_step: "traffic_step s s' \<Longrightarrow> accounted s i \<Longrightarrow> accounted s' i"
proof (induction rule: traffic_step.induct)
  case (flush_batch s now force ag reports)
  then show ?case using pending_flush [OF flush_batch(2), of i] by (simp add: accounted_def plus2_ac)
next
  case (restore_batch s r rs)
  then show ?case by (simp add: accounted_def pending_restore plus2_ac)
qed (simp_all add: accounted_def pending_observe plus2_ac)

lemma accounted_new: "accounted (system_new min_delta capacity) i"
  by (simp add: accounted_def system_new_def aggregator_new_def pending_def)

lemma accounted_reachable: "traffic_steps (system_new min_delta capacity) s \<Longrightarrow> accounted s i"
  by (induction rule: rtranclp_induct) (blast intro: accounted_new accounted_step)+

lemma accounted_places:
  assumes "traffic_steps (system_new min_delta capacity) s"
  shows "total (event_bytes i) (sy_observed s) =
    plus2 (pending i (sy_aggregator s)) (plus2 (total (report_bytes i) (sy_batch s))
      (plus2 (total (proto_bytes i) (tq_reports (sy_queue s)))
        (plus2 (total (proto_bytes i) (slot (in_flight s))) (total (proto_bytes i) (sy_committed s)))))"
proof -
  from queue_reachable [OF assms] have
    "sy_enqueued s = sy_committed s @ slot (in_flight s) @ tq_reports (sy_queue s)"
    by (simp add: queue_inv_def)
  with accounted_reachable [OF assms, of i] show ?thesis by (simp add: accounted_def plus2_ac)
qed

text \<open>C5 (no billed byte is lost or counted twice): for every user and direction the bytes observed so
  far are, modulo the width of the counters, the bytes still in the aggregator, in the batch being
  queued, in the queue, in flight and in the reports released to the panel, in every interleaving of
  the producer with any number of streams.\<close>

theorem billing_conserved:
  assumes "traffic_steps (system_new min_delta capacity) s"
  shows "total (event_bytes i) (sy_observed s) =
    plus2 (pending i (sy_aggregator s)) (plus2 (total (report_bytes i) (sy_batch s))
      (plus2 (total (proto_bytes i) (tq_reports (sy_queue s)))
        (plus2 (total (proto_bytes i) (slot (in_flight s))) (total (proto_bytes i) (sy_committed s)))))"
  using assms by (rule accounted_places)

definition ex_event :: TrafficEvent where
  "ex_event = \<lparr> te_machine_id = ''m'', te_node_id = ''n'', te_user_id = ''u'', te_protocol = ''vless'',
     te_uplink_bytes = 5, te_downlink_bytes = 7, te_observed_at = Some 0 \<rparr>"

definition ex_system :: traffic_system where
  "ex_system = (system_new 1 2)\<lparr> sy_aggregator := observe 0 ex_event (aggregator_new 1), sy_observed := [ex_event] \<rparr>"

lemma ex_system_reachable: "traffic_steps (system_new 1 2) ex_system"
  using observe_event [where s = "system_new 1 2" and now = 0 and e = ex_event] by (auto simp: ex_system_def system_new_def)

lemma ex_event_bytes: "total (event_bytes (''m'', ''n'', ''u'', ''vless'')) (sy_observed ex_system) = (5, 7)"
  by (simp add: ex_system_def ex_event_def event_bytes_def event_identity_def bytes_if_def)

theorem billing_conserved_witness:
  "plus2 (pending (''m'', ''n'', ''u'', ''vless'') (sy_aggregator ex_system))
     (plus2 (total (report_bytes (''m'', ''n'', ''u'', ''vless'')) (sy_batch ex_system))
      (plus2 (total (proto_bytes (''m'', ''n'', ''u'', ''vless'')) (tq_reports (sy_queue ex_system)))
        (plus2 (total (proto_bytes (''m'', ''n'', ''u'', ''vless'')) (slot (in_flight ex_system)))
          (total (proto_bytes (''m'', ''n'', ''u'', ''vless'')) (sy_committed ex_system))))) = (5, 7)"
  using billing_conserved [OF ex_system_reachable, of "(''m'', ''n'', ''u'', ''vless'')"] ex_event_bytes by simp

section \<open>Draining\<close>

text \<open>The steps of a shutdown while its stream lasts: the producer waits for room and queues the reports of
  the forced flush, and the consumer takes, offers and releases them. Nothing is observed, restored or
  broken off.\<close>

inductive drain_step :: "traffic_system \<Rightarrow> traffic_system \<Rightarrow> bool" where
  drain_queue:
    "sy_batch s = r # rs \<Longrightarrow> has_room (sy_queue s) \<Longrightarrow>
     drain_step s (s\<lparr> sy_batch := rs, sy_queue := send_report r (sy_queue s),
       sy_enqueued := sy_enqueued s @ [report_to_proto r] \<rparr>)"
| drain_take:
    "sy_consumer s = Receiving \<Longrightarrow> in_flight s = None \<Longrightarrow> tq_reports (sy_queue s) = p # ps \<Longrightarrow>
     drain_step s (s\<lparr> sy_queue := (sy_queue s)\<lparr> tq_reports := ps, tq_in_flight := Some p \<rparr> \<rparr>)"
| drain_offer:
    "sy_consumer s = Receiving \<Longrightarrow> in_flight s = Some p \<Longrightarrow> sy_outgoing s = None \<Longrightarrow>
     drain_step s (s\<lparr> sy_consumer := Offered, sy_outgoing := Some p \<rparr>)"
| drain_poll:
    "sy_outgoing s = Some p \<Longrightarrow>
     drain_step s (s\<lparr> sy_outgoing := None, sy_delivered := sy_delivered s @ [p],
       sy_consumer := (if sy_consumer s = Offered then Consumed else sy_consumer s) \<rparr>)"
| drain_release:
    "sy_consumer s = Consumed \<Longrightarrow> in_flight s = Some p \<Longrightarrow>
     drain_step s (s\<lparr> sy_consumer := Receiving, sy_queue := (sy_queue s)\<lparr> tq_in_flight := None \<rparr>,
       sy_committed := sy_committed s @ [p] \<rparr>)"

lemma drain_is_traffic: "drain_step s s' \<Longrightarrow> traffic_step s s'"
  by (induction rule: drain_step.induct)
     (simp_all add: queue_report take_report offer_report poll_report release_report)

lemma drain_keeps:
  "drain_step s s' \<Longrightarrow> sy_aggregator s' = sy_aggregator s \<and> sy_observed s' = sy_observed s \<and>
     (sy_consumer s \<noteq> NoStream \<longrightarrow> sy_consumer s' \<noteq> NoStream)"
  by (induction rule: drain_step.induct) simp_all

text \<open>The work left: five steps for a report of the batch, four for a queued one and at most four for the
  one in flight.\<close>

definition drain_work :: "traffic_system \<Rightarrow> nat" where
  "drain_work s = 5 * length (sy_batch s) + 4 * length (tq_reports (sy_queue s)) +
     (if in_flight s = None then 0
      else case sy_consumer s of Consumed \<Rightarrow> 1 | Offered \<Rightarrow> 2 | _ \<Rightarrow> 3) +
     (if sy_outgoing s \<noteq> None \<and> sy_consumer s \<noteq> Offered then 1 else 0)"

lemma drain_work_decreases: "drain_step s s' \<Longrightarrow> queue_inv s \<Longrightarrow> drain_work s' < drain_work s"
  by (induction rule: drain_step.induct)
     (auto simp: drain_work_def queue_inv_def send_report_def dest: sym [of "Some _"] split: consumer.splits)

lemma drain_work_bound: "queue_inv s \<Longrightarrow> drain_work s \<le> 5 * (length (sy_batch s) + queued_len (sy_queue s))"
  by (auto simp: drain_work_def queue_inv_def queued_len_def split: consumer.splits)

lemma drain_progress:
  assumes "queue_inv s" and "0 < tq_capacity (sy_queue s)" and "sy_consumer s \<noteq> NoStream"
    and "sy_batch s \<noteq> [] \<or> queued_len (sy_queue s) \<noteq> 0"
  shows "\<exists>s'. drain_step s s'"
proof (cases "in_flight s")
  case None
  with assms(1,3) have idle: "sy_consumer s = Receiving"
    by (cases "sy_consumer s") (auto simp: queue_inv_def)
  show ?thesis
  proof (cases "tq_reports (sy_queue s)")
    case Nil
    with None assms(2,4) obtain r rs where "sy_batch s = r # rs" "has_room (sy_queue s)"
      by (cases "sy_batch s") (auto simp: queued_len_def has_room_def)
    then show ?thesis by (blast intro: drain_queue)
  next
    case (Cons p ps)
    with idle None show ?thesis by (blast intro: drain_take)
  qed
next
  case (Some p)
  show ?thesis
  proof (cases "sy_outgoing s")
    case None
    with assms(1,3) Some show ?thesis
      by (cases "sy_consumer s") (auto simp: queue_inv_def intro: drain_offer drain_release)
  qed (blast intro: drain_poll)
qed

lemma drain_run:
  assumes "(drain_step ^^ n) s s'" and "queue_inv s" and "tq_capacity (sy_queue s) = capacity"
  shows "traffic_steps s s' \<and> queue_inv s' \<and> n + drain_work s' \<le> drain_work s \<and> sy_aggregator s' = sy_aggregator s \<and>
    sy_observed s' = sy_observed s \<and> (sy_consumer s \<noteq> NoStream \<longrightarrow> sy_consumer s' \<noteq> NoStream)"
  using assms(1)
proof (induction n arbitrary: s')
  case (Suc n)
  then obtain t where t: "(drain_step ^^ n) s t" "drain_step t s'" by auto
  note IH = Suc.IH [OF t(1)]
  from IH t(2) drain_is_traffic have "traffic_steps s s'" by (meson rtranclp.rtrancl_into_rtrancl)
  moreover have "queue_inv s'" using IH queue_inv_step [OF drain_is_traffic [OF t(2)]] by blast
  ultimately show ?case
    using IH drain_work_decreases [OF t(2)] drain_keeps [OF t(2)] by auto
qed (simp add: assms(2))

lemma flush_all_empties: "flush_inner now True ag = (ag', rs) \<Longrightarrow> ag_counters ag' = []"
  by (auto simp: flush_inner_def extracted_def)

text \<open>C24 (an uninterrupted shutdown accounts for everything): from every reachable state with a stream, whatever
  broke before, take the forced flush and then any run of the producer and of that one stream that
  nothing breaks off. The run has at most five steps for each report that was flushed, queued or in flight;
  it never gets stuck before the aggregator, the batch and the queue are empty; and where it ends, every
  report has been released to the panel, and the bytes released are exactly the bytes observed, user by
  user.\<close>

theorem shutdown_completes:
  assumes "traffic_steps (system_new min_delta capacity) s" and "0 < capacity"
    and "sy_batch s = []" and "sy_consumer s \<noteq> NoStream"
    and "flush_inner now True (sy_aggregator s) = (ag, reports)"
    and "(drain_step ^^ n) (s\<lparr> sy_aggregator := ag, sy_batch := reports \<rparr>) s'"
  shows "n \<le> 5 * (length reports + queued_len (sy_queue s)) \<and>
    ((\<exists>s''. drain_step s' s'') \<or>
     ag_counters (sy_aggregator s') = [] \<and> sy_batch s' = [] \<and> queued_len (sy_queue s') = 0 \<and>
     sy_committed s' = sy_enqueued s' \<and> set (sy_committed s') = set (sy_delivered s') \<and>
     (\<forall>i. total (event_bytes i) (sy_observed s) = total (proto_bytes i) (sy_committed s')))"
proof -
  let ?s = "s\<lparr> sy_aggregator := ag, sy_batch := reports \<rparr>"
  have start: "traffic_steps (system_new min_delta capacity) ?s"
    using assms(1) flush_batch [OF assms(3,5)] by (rule rtranclp.rtrancl_into_rtrancl)
  then have inv: "queue_inv ?s" "tq_capacity (sy_queue ?s) = capacity" using queue_reachable by blast+
  note run = drain_run [OF assms(6) inv]
  have reach: "traffic_steps (system_new min_delta capacity) s'" using start run by (meson rtranclp_trans)
  from queue_reachable [OF reach] have inv': "queue_inv s'" "delivered_ok s'" "tq_capacity (sy_queue s') = capacity" by blast+
  have bound: "n \<le> 5 * (length reports + queued_len (sy_queue s))"
    using run drain_work_bound [OF inv(1)] by simp
  show ?thesis
  proof (cases "\<exists>s''. drain_step s' s''")
    case False
    have "0 < tq_capacity (sy_queue s')" "sy_consumer s' \<noteq> NoStream" using inv'(3) assms(2,4) run by simp_all
    with False drain_progress [OF inv'(1)] have "\<not> (sy_batch s' \<noteq> [] \<or> queued_len (sy_queue s') \<noteq> 0)" by blast
    then have idle: "sy_batch s' = []" "queued_len (sy_queue s') = 0" by simp_all
    then have empty: "in_flight s' = None" "tq_reports (sy_queue s') = []"
      by (auto simp: queued_len_def split: if_splits)
    have ag: "ag_counters (sy_aggregator s') = []" using run flush_all_empties [OF assms(5)] by simp
    have "sy_committed s' = sy_enqueued s'" using inv'(1) empty by (simp add: queue_inv_def)
    moreover have "set (sy_committed s') = set (sy_delivered s')"
      using inv'(2) repeats_set empty by (fastforce simp: delivered_ok_def)
    moreover have "total (event_bytes i) (sy_observed s) = total (proto_bytes i) (sy_committed s')" for i
      using accounted_places [OF reach, of i] run idle empty ag by (simp add: pending_def)
    ultimately show ?thesis using bound ag idle by blast
  qed (use bound in blast)
qed

text \<open>The run of the example ends, by the bound, and there everything is released.\<close>

definition ex_streaming :: traffic_system where
  "ex_streaming = ex_system\<lparr> sy_consumer := Receiving, sy_outgoing := None \<rparr>"

lemma ex_streaming_reachable: "traffic_steps (system_new 1 2) ex_streaming"
proof -
  have "traffic_step ex_system ex_streaming"
    unfolding ex_streaming_def by (rule start_stream) (simp add: ex_system_def system_new_def)
  with ex_system_reachable show ?thesis by (rule rtranclp.rtrancl_into_rtrancl)
qed

theorem shutdown_completes_witness:
  "\<exists>ag reports n s'. flush_inner 0 True (sy_aggregator ex_streaming) = (ag, reports) \<and>
     (drain_step ^^ n) (ex_streaming\<lparr> sy_aggregator := ag, sy_batch := reports \<rparr>) s' \<and> queued_len (sy_queue s') = 0 \<and>
     total (proto_bytes (''m'', ''n'', ''u'', ''vless'')) (sy_committed s') = (5, 7)"
proof -
  obtain ag reports where fl: "flush_inner 0 True (sy_aggregator ex_streaming) = (ag, reports)" by fastforce
  have ready: "sy_batch ex_streaming = []" "sy_consumer ex_streaming \<noteq> NoStream"
    "sy_observed ex_streaming = sy_observed ex_system"
    by (simp_all add: ex_streaming_def ex_system_def system_new_def)
  let ?start = "ex_streaming\<lparr> sy_aggregator := ag, sy_batch := reports \<rparr>"
  note claim = shutdown_completes [OF ex_streaming_reachable _ ready(1,2) fl, OF zero_less_numeral]
  let ?runs = "\<lambda>n. \<exists>s'. (drain_step ^^ n) ?start s'"
  have zero: "?runs 0" by simp
  have bound: "\<forall>n. ?runs n \<longrightarrow> n \<le> 5 * (length reports + queued_len (sy_queue ex_streaming))"
    using claim by blast
  from Nat.ex_has_greatest_nat [of ?runs, OF zero bound]
  obtain n where n: "?runs n" "\<forall>m. ?runs m \<longrightarrow> m \<le> n" by blast
  then obtain s' where s': "(drain_step ^^ n) ?start s'" by blast
  have "\<nexists>s''. drain_step s' s''"
  proof
    assume "\<exists>s''. drain_step s' s''"
    with s' have "?runs (Suc n)" by auto
    with n(2) show False by fastforce
  qed
  with claim [OF s'] have "queued_len (sy_queue s') = 0"
    "\<forall>i. total (event_bytes i) (sy_observed ex_streaming) = total (proto_bytes i) (sy_committed s')" by blast+
  with s' fl ex_event_bytes ready(3) show ?thesis by metis
qed

definition ex_report :: pb_TrafficReport where
  "ex_report = report_to_proto (hd (snd (flush_inner 0 True (sy_aggregator ex_system))))"

lemma ex_broken_stream:
  "\<exists>s. traffic_steps (system_new 1 2) s \<and> in_flight s = Some ex_report \<and> sy_delivered s = [ex_report] \<and>
     sy_consumer s = NoStream"
proof -
  obtain r ag where fl: "flush_inner 0 True (sy_aggregator ex_system) = (ag, [r])"
    by (simp add: flush_inner_def ex_system_def observe_def ex_event_def aggregator_new_def Let_def
        extracted_def bump_def empty_counter_def)
  then have r: "report_to_proto r = ex_report" by (simp add: ex_report_def)
  let ?s1 = "ex_system\<lparr> sy_aggregator := ag, sy_batch := [r] \<rparr>"
  let ?s2 = "?s1\<lparr> sy_batch := [], sy_queue := send_report r (sy_queue ex_system), sy_enqueued := [ex_report] \<rparr>"
  let ?s3 = "?s2\<lparr> sy_consumer := Receiving, sy_outgoing := None \<rparr>"
  let ?s4 = "?s3\<lparr> sy_queue := (sy_queue ?s3)\<lparr> tq_reports := [], tq_in_flight := Some ex_report \<rparr> \<rparr>"
  let ?s5 = "?s4\<lparr> sy_consumer := Offered, sy_outgoing := Some ex_report \<rparr>"
  let ?s6 = "?s5\<lparr> sy_outgoing := None, sy_delivered := [ex_report], sy_consumer := Consumed \<rparr>"
  let ?s7 = "?s6\<lparr> sy_consumer := NoStream, sy_outgoing := None \<rparr>"
  have q: "sy_queue ex_system = with_capacity 2" "sy_batch ex_system = []" "sy_enqueued ex_system = []"
    "sy_consumer ex_system = NoStream" "sy_delivered ex_system = []"
    by (simp_all add: ex_system_def system_new_def)
  have "traffic_step ex_system ?s1" by (rule flush_batch [OF q(2) fl])
  moreover have "traffic_step ?s1 ?s2"
    using queue_report [of ?s1 r "[]"] by (simp add: q r has_room_def with_capacity_def)
  moreover have "traffic_step ?s2 ?s3" by (rule start_stream) (simp add: q)
  moreover have "traffic_step ?s3 ?s4"
    by (rule take_report) (simp_all add: q r send_report_def with_capacity_def)
  moreover have "traffic_step ?s4 ?s5" by (rule offer_report) simp_all
  moreover have "traffic_step ?s5 ?s6" using poll_report [of ?s5 ex_report] by (simp add: q)
  moreover have "traffic_step ?s6 ?s7" by (rule drop_stream)
  ultimately have "traffic_steps ex_system ?s7" by (meson converse_rtranclp_into_rtranclp r_into_rtranclp)
  with ex_system_reachable have "traffic_steps (system_new 1 2) ?s7" by (rule rtranclp_trans)
  then show ?thesis by (intro exI [of _ ?s7]) simp
qed

theorem reports_delivered_in_order_witness:
  "\<exists>s ds rest. traffic_steps (system_new 1 2) s \<and> in_flight s = Some ex_report \<and> sy_delivered s = [ex_report] \<and>
     sy_delivered s = ds @ rest \<and> repeats (sy_committed s) ds \<and> set rest \<subseteq> {ex_report}"
proof -
  obtain s where s: "traffic_steps (system_new 1 2) s" "in_flight s = Some ex_report" "sy_delivered s = [ex_report]"
    using ex_broken_stream by blast
  obtain ds rest where "sy_delivered s = ds @ rest" "repeats (sy_committed s) ds" "set rest \<subseteq> {ex_report}"
    using reports_delivered_in_order [OF s(1)] s(2) by auto
  with s show ?thesis by blast
qed

section \<open>The flusher as steps of the system\<close>

lemma observe_run:
  "traffic_steps s (s\<lparr> sy_aggregator := fold (\<lambda>d. observe now (drain_event machine_id d)) drains (sy_aggregator s),
     sy_observed := sy_observed s @ map (drain_event machine_id) drains \<rparr>)"
proof (induction drains arbitrary: s)
  case (Cons d drains)
  let ?s = "s\<lparr> sy_aggregator := observe now (drain_event machine_id d) (sy_aggregator s),
    sy_observed := sy_observed s @ [drain_event machine_id d] \<rparr>"
  have "traffic_step s ?s" by (rule observe_event)
  then show ?case using Cons [of ?s] by (simp add: converse_rtranclp_into_rtranclp)
qed simp

lemma enqueue_run:
  "sy_batch s = reports \<Longrightarrow> enqueue_inner cancelled reports (sy_queue s) (sy_aggregator s) = (q, ag, queued) \<Longrightarrow>
     queued \<le> length reports \<and>
     traffic_steps s (s\<lparr> sy_batch := [], sy_queue := q, sy_aggregator := ag,
       sy_enqueued := sy_enqueued s @ map report_to_proto (take queued reports) \<rparr>)"
proof (induction reports arbitrary: s queued)
  case Nil
  then have "s\<lparr> sy_batch := [], sy_queue := q, sy_aggregator := ag,
      sy_enqueued := sy_enqueued s @ map report_to_proto (take queued []) \<rparr> = s" by auto
  then show ?case using Nil.prems by (simp only: enqueue_inner.simps prod.inject list.size le0 simp_thms rtranclp.rtrancl_refl)
next
  case (Cons r rs)
  show ?case
  proof (cases "\<not> cancelled \<and> has_room (sy_queue s)")
    case True
    let ?s = "s\<lparr> sy_batch := rs, sy_queue := send_report r (sy_queue s),
      sy_enqueued := sy_enqueued s @ [report_to_proto r] \<rparr>"
    obtain n where n: "enqueue_inner cancelled rs (send_report r (sy_queue s)) (sy_aggregator s) = (q, ag, n)"
      "queued = Suc n"
      using Cons.prems(2) True by (auto split: prod.splits)
    have "traffic_step s ?s" using Cons.prems(1) True by (intro queue_report) simp_all
    with Cons.IH [of ?s n] n show ?thesis
      by (auto intro: converse_rtranclp_into_rtranclp)
  next
    case False
    let ?s = "s\<lparr> sy_batch := [], sy_aggregator := restore (r # rs) (sy_aggregator s) \<rparr>"
    from False Cons.prems(2) have eqs: "q = sy_queue s" "ag = restore (r # rs) (sy_aggregator s)" "queued = 0"
      by auto
    have "traffic_step s ?s" by (rule restore_batch [OF Cons.prems(1)])
    moreover have "s\<lparr> sy_batch := [], sy_queue := q, sy_aggregator := ag,
        sy_enqueued := sy_enqueued s @ map report_to_proto (take queued (r # rs)) \<rparr> = ?s"
      by (auto simp: eqs)
    ultimately show ?thesis by (simp add: eqs)
  qed
qed

text \<open>A tick of the flusher that finds the batch empty is a
  sequence of steps of the state machine: it observes every drained counter, flushes, and queues a
  prefix of the reports, so everything shown of the machine holds after it.\<close>

lemma flusher_refines:
  assumes "flusher_tick now cancelled drained machine_id (sy_queue s) (sy_aggregator s) = Inr (q, ag)"
    and "sy_batch s = []"
  shows "\<exists>drains reports queued. drained = Inr drains \<and>
    traffic_steps s (s\<lparr> sy_queue := q, sy_aggregator := ag,
      sy_observed := sy_observed s @ map (drain_event machine_id) drains,
      sy_enqueued := sy_enqueued s @ map report_to_proto (take queued reports) \<rparr>)"
proof -
  from assms(1) obtain drains where drains: "drained = Inr drains"
    by (auto simp: flusher_tick_def collect_runtime_traffic_def result_simps)
  define s1 where "s1 = s\<lparr> sy_aggregator := fold (\<lambda>d. observe now (drain_event machine_id d)) drains (sy_aggregator s),
    sy_observed := sy_observed s @ map (drain_event machine_id) drains \<rparr>"
  have steps1: "traffic_steps s s1" unfolding s1_def by (rule observe_run)
  obtain ag2 reports where fl: "flush_inner now False (sy_aggregator s1) = (ag2, reports)" by fastforce
  define s2 where "s2 = s1\<lparr> sy_aggregator := ag2, sy_batch := reports \<rparr>"
  have steps2: "traffic_step s1 s2"
    unfolding s2_def by (rule flush_batch [OF _ fl]) (simp add: s1_def assms(2))
  obtain queued where "enqueue_inner cancelled reports (sy_queue s2) (sy_aggregator s2) = (q, ag, queued)"
    using assms(1) fl
    by (auto simp: flusher_tick_def collect_runtime_traffic_def observe_runtime_drains_def drains queue_flush_def
        flush_def s1_def s2_def Let_def split: prod.splits)
  from enqueue_run [OF _ this] have "traffic_steps s2 (s2\<lparr> sy_batch := [], sy_queue := q, sy_aggregator := ag,
      sy_enqueued := sy_enqueued s2 @ map report_to_proto (take queued reports) \<rparr>)"
    by (simp add: s2_def)
  also have "s2\<lparr> sy_batch := [], sy_queue := q, sy_aggregator := ag,
      sy_enqueued := sy_enqueued s2 @ map report_to_proto (take queued reports) \<rparr> =
    s\<lparr> sy_queue := q, sy_aggregator := ag, sy_observed := sy_observed s @ map (drain_event machine_id) drains,
      sy_enqueued := sy_enqueued s @ map report_to_proto (take queued reports) \<rparr>"
    using assms(2) by (auto simp: s2_def s1_def intro!: traffic_system.equality)
  finally have "traffic_steps s (s\<lparr> sy_queue := q, sy_aggregator := ag,
      sy_observed := sy_observed s @ map (drain_event machine_id) drains,
      sy_enqueued := sy_enqueued s @ map report_to_proto (take queued reports) \<rparr>)"
    using steps1 steps2 by (meson rtranclp_trans r_into_rtranclp)
  with drains show ?thesis by blast
qed

end
