(* ===== verification/Nft_Markers.thy ===== *)
theory Nft_Markers
  imports Port_Manager Acp_Proto Net_Addr
begin

text \<open>
  The ownership markers of \<open>porthopping/backend_linux.rs\<close>: the octets the nftables backend attaches to
  its table, its chain and each of its rules, their encoders and decoders, and the address families.
  The decoders slice by index in the sources; here a slice is \<open>take\<close> and \<open>drop\<close>, guarded by the same
  length checks. The round trips are instances of the locale \<open>codec\<close>.
\<close>

section \<open>Constants and families\<close>

definition TABLE_PREFIX :: string where "TABLE_PREFIX = ''acp_hy2_''"
definition CHAIN_NAME :: string where "CHAIN_NAME = ''prerouting''"
definition RULE_MARKER_MAGIC :: bytes where "RULE_MARKER_MAGIC = str_bytes ''ACPHY2'' @ [1]"
definition TABLE_MARKER_MAGIC :: bytes where "TABLE_MARKER_MAGIC = str_bytes ''ACPHY2T'' @ [1]"
definition CHAIN_MARKER_MAGIC :: bytes where "CHAIN_MARKER_MAGIC = str_bytes ''ACPHY2C'' @ [1]"
definition MARKER_PROTOCOL :: u8 where "MARKER_PROTOCOL = 1"
definition MAX_NODE_ID_BYTES :: nat where "MAX_NODE_ID_BYTES = 128"

datatype Family = Inet | Ipv4 | Ipv6

definition families_all :: "Family list" where
  "families_all = [Inet, Ipv4, Ipv6]"

fun show_family :: "Family \<Rightarrow> string" where
  "show_family Inet = ''inet''"
| "show_family Ipv4 = ''ip''"
| "show_family Ipv6 = ''ip6''"

datatype FamilyMode = ModeUnknown | ModeInet | ModeSplit

fun families :: "FamilyMode \<Rightarrow> Family list" where
  "families ModeUnknown = []"
| "families ModeInet = [Inet]"
| "families ModeSplit = [Ipv4, Ipv6]"

fun show_mode :: "FamilyMode \<Rightarrow> string" where
  "show_mode ModeUnknown = ''unknown''"
| "show_mode ModeInet = ''inet''"
| "show_mode ModeSplit = ''ip+ip6''"

text \<open>The order \<open>derive(Ord)\<close> gives the families.\<close>

fun family_rank :: "Family \<Rightarrow> nat" where
  "family_rank Inet = 0"
| "family_rank Ipv4 = 1"
| "family_rank Ipv6 = 2"

abbreviation boxed_operation :: "string \<Rightarrow> box_error" where
  "boxed_operation message \<equiv> operation_message message"

section \<open>Big-endian words\<close>

definition be_u16 :: "u16 \<Rightarrow> bytes" where
  "be_u16 w = [of_nat (unat w div 256), of_nat (unat w mod 256)]"

definition of_be_u16 :: "u8 \<Rightarrow> u8 \<Rightarrow> u16" where
  "of_be_u16 a b = of_nat (unat a * 256 + unat b)"

definition be_u32 :: "u32 \<Rightarrow> bytes" where
  "be_u32 w = [of_nat (unat w div 16777216), of_nat (unat w div 65536 mod 256),
     of_nat (unat w div 256 mod 256), of_nat (unat w mod 256)]"

definition of_be_u32 :: "bytes \<Rightarrow> u32" where
  "of_be_u32 octets = of_nat (foldl (\<lambda>acc b. acc * 256 + unat b) 0 octets)"

section \<open>The digest in a marker\<close>

definition hex_nibble :: "u8 \<Rightarrow> u8 option" where
  "hex_nibble b =
     (if 0x30 \<le> b \<and> b \<le> 0x39 then Some (b - 0x30)
      else if 0x61 \<le> b \<and> b \<le> 0x66 then Some (b - 0x61 + 10)
      else if 0x41 \<le> b \<and> b \<le> 0x46 then Some (b - 0x41 + 10)
      else None)"

fun digest_bytes :: "bytes \<Rightarrow> bytes option" where
  "digest_bytes (a # b # rest) =
     (case (hex_nibble a, hex_nibble b) of
        (Some high, Some low) \<Rightarrow> map_option ((#) (or (push_bit 4 high) low)) (digest_bytes rest)
      | _ \<Rightarrow> None)"
| "digest_bytes _ = Some []"

definition decode_digest :: "string \<Rightarrow> box_error + bytes" where
  "decode_digest digest =
     (if length digest \<noteq> 64 then Inl (boxed_operation (''invalid plan digest '' @ debug_str digest))
      else ok_or (boxed_operation (''invalid plan digest '' @ debug_str digest)) (digest_bytes (str_bytes digest)))"

definition owner_hash :: "(bytes \<Rightarrow> bytes) \<Rightarrow> string \<Rightarrow> bytes" where
  "owner_hash sha256 machine_id = take 6 (sha256 (str_bytes machine_id))"

section \<open>Markers of tables and chains\<close>

record ContainerMarker =
  cm_owner :: bytes
  cm_digest :: string

definition encode_container_marker :: "bytes \<Rightarrow> bytes \<Rightarrow> string \<Rightarrow> box_error + bytes" where
  "encode_container_marker magic owner digest =
     rbind (decode_digest digest) (\<lambda>octets. Inr (magic @ owner @ octets))"

text \<open>No marker at all is accepted: the tables of the Go agent have none.\<close>

definition decode_optional_container_marker :: "bytes \<Rightarrow> bytes \<Rightarrow> string + ContainerMarker option" where
  "decode_optional_container_marker octets magic =
     (if octets = [] then Inr None
      else if length octets \<noteq> length magic + 6 + 32 \<or> take (length magic) octets \<noteq> magic then
        Inl ''container ownership marker is missing or invalid''
      else Inr (Some \<lparr> cm_owner = take 6 (drop (length magic) octets),
                       cm_digest = lower_hex (drop (length magic + 6) octets) \<rparr>))"

section \<open>Markers of rules\<close>

record RuleMarker =
  rm_owner :: bytes
  rm_digest :: string
  rm_node_id :: string
  rm_listen_port :: u16
  rm_ports :: port_range

definition encode_rule_marker :: "bytes \<Rightarrow> string \<Rightarrow> Redirect \<Rightarrow> port_range \<Rightarrow> box_error + bytes" where
  "encode_rule_marker owner digest redirect r =
     (let node = str_bytes (rd_node_id redirect) in
      if node = [] then Inl (boxed_operation ''encode nftables marker: node_id is empty'')
      else if length node > MAX_NODE_ID_BYTES then
        Inl (boxed_operation (''encode nftables marker: node_id is '' @ show_nat (length node) @
          '' bytes, maximum is '' @ show_nat MAX_NODE_ID_BYTES))
      else if rd_listen_port redirect = 0 \<or> pr_start r = 0 \<or> pr_start r > pr_end r then
        Inl (boxed_operation ''encode nftables marker: invalid redirect metadata'')
      else
        rbind (decode_digest digest) (\<lambda>octets.
        Inr (RULE_MARKER_MAGIC @ owner @ octets @ [MARKER_PROTOCOL] @ be_u16 (rd_listen_port redirect) @
             be_u16 (pr_start r) @ be_u16 (pr_end r) @ [of_nat (length node)] @ node)))"

definition bytes_str :: "bytes \<Rightarrow> string" where
  "bytes_str octets = map (\<lambda>b. char_of (unat b)) octets"

definition decode_rule_marker :: "bytes \<Rightarrow> string + RuleMarker" where
  "decode_rule_marker octets =
     (let fixed = length RULE_MARKER_MAGIC + 6 + 32 + 1 + 2 + 2 + 2 + 1 in
      if length octets < fixed \<or> take (length RULE_MARKER_MAGIC) octets \<noteq> RULE_MARKER_MAGIC then
        Inl ''ownership marker is missing or invalid''
      else
        let body = drop (length RULE_MARKER_MAGIC) octets;
            rest = drop 38 body;
            listen_port = of_be_u16 (rest ! 1) (rest ! 2);
            start = of_be_u16 (rest ! 3) (rest ! 4);
            end_port = of_be_u16 (rest ! 5) (rest ! 6);
            node_len = unat (rest ! 7);
            node = drop fixed octets
        in
        if rest ! 0 \<noteq> MARKER_PROTOCOL then Inl ''unknown protocol marker''
        else if node_len = 0 \<or> node_len > MAX_NODE_ID_BYTES \<or> length octets \<noteq> fixed + node_len then
          Inl ''invalid node_id length in ownership marker''
        else if \<not> utf8_valid (bytes_str node) then Inl ''invalid UTF-8 node_id in ownership marker''
        else if listen_port = 0 \<or> start = 0 \<or> start > end_port then
          Inl ''invalid redirect values in ownership marker''
        else Inr \<lparr> rm_owner = take 6 body, rm_digest = lower_hex (take 32 (drop 6 body)),
               rm_node_id = bytes_str node, rm_listen_port = listen_port, rm_ports = PortRange start end_port \<rparr>)"

section \<open>Round trips\<close>

lemma of_be_u16_be: "be_u16 w = [a, b] \<Longrightarrow> of_be_u16 a b = w"
proof -
  assume "be_u16 w = [a, b]"
  then have ab: "a = of_nat (unat w div 256)" "b = of_nat (unat w mod 256)" by (simp_all add: be_u16_def)
  have "unat w div 256 < 256" "unat w mod 256 < 256" using unat_u16_less [of w] by auto
  then have "unat a * 256 + unat b = unat w" by (simp add: ab unat_of_nat)
  then show ?thesis by (simp add: of_be_u16_def)
qed

lemma be_u16_nth [simp]: "of_be_u16 (be_u16 w ! 0) (be_u16 w ! Suc 0) = w" "length (be_u16 w) = 2"
  using of_be_u16_be [of w] by (simp_all add: be_u16_def)

lemma unat_u32_less: "unat (w :: u32) < 4294967296"
proof -
  have "unat w < 2 ^ LENGTH(32)" by (rule unsigned_less)
  then show ?thesis by simp
qed

lemma be_u32_length [simp]: "length (be_u32 w) = 4"
  by (simp add: be_u32_def)

lemma of_be_u32_be [simp]: "of_be_u32 (be_u32 w) = w"
proof -
  let ?n = "unat w"
  have b: "?n div 16777216 < 256" "?n div 65536 mod 256 < 256" "?n div 256 mod 256 < 256" "?n mod 256 < 256"
    using unat_u32_less [of w] by auto
  have "((?n div 16777216 * 256 + ?n div 65536 mod 256) * 256 + ?n div 256 mod 256) * 256 + ?n mod 256 = ?n"
    using div_mult_mod_eq [of ?n 256] div_mult_mod_eq [of "?n div 256" 256] div_mult_mod_eq [of "?n div 65536" 256]
    by (simp add: div_mult2_eq [symmetric])
  with b show ?thesis by (simp add: of_be_u32_def be_u32_def unat_of_nat)
qed

lemma bytes_str_str_bytes [simp]: "bytes_str (str_bytes s) = s"
  by (auto simp: bytes_str_def str_bytes_def byte_of_def unat_of_nat intro!: map_idI)

lemma length_str_bytes [simp]: "length (str_bytes s) = length s" "str_bytes s = [] \<longleftrightarrow> s = []"
  by (simp_all add: str_bytes_def)

lemma str_bytes_bytes_str [simp]: "str_bytes (bytes_str octets) = octets"
  using unat_u8_less by (auto simp: bytes_str_def str_bytes_def byte_of_def intro!: map_idI)

lemma hex_nibble_nibble: "hex_nibble = nibble"
  by (simp add: fun_eq_iff hex_nibble_def nibble_def)

lemma digest_bytes_lower_hex: "digest_bytes (str_bytes (lower_hex octets)) = Some octets"
proof (induction octets)
  case (Cons b octets)
  have "unat b div 16 < 16" "unat b mod 16 < 16"
    using unat_u8_less [of b] by (auto simp: less_mult_imp_div_less)
  with Cons show ?case
    by (simp add: lower_hex_def str_bytes_def hex_nibble_nibble nibble_hex_digit join_nibbles)
qed (simp add: lower_hex_def str_bytes_def)

lemma length_lower_hex [simp]: "length (lower_hex octets) = 2 * length octets"
  by (induction octets) (auto simp: lower_hex_def)

lemma decode_digest_lower_hex: "length octets = 32 \<Longrightarrow> decode_digest (lower_hex octets) = Inr octets"
  by (simp add: decode_digest_def digest_bytes_lower_hex)

text \<open>What a marker can carry: an owner of six octets, a SHA-256 digest, a short node id and a proper
  range.\<close>

definition digest_wf :: "string \<Rightarrow> bool" where
  "digest_wf digest \<longleftrightarrow> (\<exists>octets. length octets = 32 \<and> digest = lower_hex octets)"

definition marker_wf :: "RuleMarker \<Rightarrow> bool" where
  "marker_wf m \<longleftrightarrow> length (rm_owner m) = 6 \<and> digest_wf (rm_digest m) \<and>
     rm_node_id m \<noteq> [] \<and> length (rm_node_id m) \<le> MAX_NODE_ID_BYTES \<and> utf8_valid (rm_node_id m) \<and>
     rm_listen_port m \<noteq> 0 \<and> pr_start (rm_ports m) \<noteq> 0 \<and> pr_start (rm_ports m) \<le> pr_end (rm_ports m)"

definition rule_marker :: "RuleMarker \<Rightarrow> bytes" where
  "rule_marker m =
     (case encode_rule_marker (rm_owner m) (rm_digest m)
        \<lparr> rd_node_id = rm_node_id m, rd_listen_port = rm_listen_port m, rd_ports = [] \<rparr> (rm_ports m) of
        Inr octets \<Rightarrow> octets | Inl _ \<Rightarrow> [])"

lemma encode_container_marker_ok:
  "length octets = 32 \<Longrightarrow> encode_container_marker magic owner (lower_hex octets) = Inr (magic @ owner @ octets)"
  by (simp add: encode_container_marker_def decode_digest_lower_hex)

lemma container_marker_roundtrip:
  assumes "digest_wf digest" and "length owner = 6" and "encode_container_marker magic owner digest = Inr octets"
  shows "decode_optional_container_marker octets magic = Inr (Some \<lparr> cm_owner = owner, cm_digest = digest \<rparr>)"
  using assms by (auto simp: digest_wf_def encode_container_marker_ok decode_optional_container_marker_def)

lemma encode_rule_marker_ok:
  assumes "marker_wf m" and "rd_node_id redirect = rm_node_id m" "rd_listen_port redirect = rm_listen_port m"
  obtains octets where "length octets = 32" "rm_digest m = lower_hex octets"
    "encode_rule_marker (rm_owner m) (rm_digest m) redirect (rm_ports m) =
      Inr (RULE_MARKER_MAGIC @ rm_owner m @ octets @ [MARKER_PROTOCOL] @ be_u16 (rm_listen_port m) @
        be_u16 (pr_start (rm_ports m)) @ be_u16 (pr_end (rm_ports m)) @
        [of_nat (length (rm_node_id m))] @ str_bytes (rm_node_id m))"
proof -
  from assms(1) obtain octets where "length octets = 32" "rm_digest m = lower_hex octets"
    by (auto simp: marker_wf_def digest_wf_def)
  with assms that show thesis
    by (auto simp: encode_rule_marker_def marker_wf_def Let_def decode_digest_lower_hex)
qed

lemma decode_rule_marker_fields:
  assumes "length owner = 6" "length octets = 32" "node \<noteq> []" "length node \<le> MAX_NODE_ID_BYTES"
    "utf8_valid (bytes_str node)" "listen \<noteq> 0" "start \<noteq> 0" "start \<le> stop"
  shows "decode_rule_marker (RULE_MARKER_MAGIC @ owner @ octets @ [MARKER_PROTOCOL] @ be_u16 listen @
      be_u16 start @ be_u16 stop @ [of_nat (length node)] @ node) =
    Inr \<lparr> rm_owner = owner, rm_digest = lower_hex octets, rm_node_id = bytes_str node,
          rm_listen_port = listen, rm_ports = PortRange start stop \<rparr>"
proof -
  obtain a b where l: "be_u16 listen = [a, b]" by (simp add: be_u16_def)
  obtain c d where s: "be_u16 start = [c, d]" by (simp add: be_u16_def)
  obtain e f where t: "be_u16 stop = [e, f]" by (simp add: be_u16_def)
  note ports = of_be_u16_be [OF l] of_be_u16_be [OF s] of_be_u16_be [OF t]
  have len: "unat (of_nat (length node) :: u8) = length node"
    using assms(4) by (simp add: MAX_NODE_ID_BYTES_def unat_of_nat)
  have magic: "length RULE_MARKER_MAGIC = 7" by (simp add: RULE_MARKER_MAGIC_def)
  show ?thesis
    using assms by (simp add: decode_rule_marker_def Let_def l s t ports len magic drop_Cons' not_less)
qed

lemma decode_rule_marker_Inr:
  assumes "decode_rule_marker octets = Inr m"
  obtains n where "0 < n" "n \<le> MAX_NODE_ID_BYTES" "length octets = 53 + n"
    "rm_owner m = take 6 (drop 7 octets)" "rm_digest m = lower_hex (take 32 (drop 13 octets))"
    "rm_node_id m = bytes_str (drop 53 octets)" "utf8_valid (rm_node_id m)" "rm_listen_port m \<noteq> 0"
    "pr_start (rm_ports m) \<noteq> 0" "pr_start (rm_ports m) \<le> pr_end (rm_ports m)"
proof -
  have magic: "length RULE_MARKER_MAGIC = 7" by (simp add: RULE_MARKER_MAGIC_def)
  define n where "n = unat (octets ! 52)"
  define a where "a = of_be_u16 (octets ! 46) (octets ! 47)"
  define b where "b = of_be_u16 (octets ! 48) (octets ! 49)"
  define c where "c = of_be_u16 (octets ! 50) (octets ! 51)"
  note defs = n_def [symmetric] a_def [symmetric] b_def [symmetric] c_def [symmetric]
  have "0 < n \<and> n \<le> MAX_NODE_ID_BYTES \<and> length octets = 53 + n \<and> utf8_valid (bytes_str (drop 53 octets)) \<and>
      a \<noteq> 0 \<and> b \<noteq> 0 \<and> b \<le> c \<and> m = \<lparr> rm_owner = take 6 (drop 7 octets), rm_digest = lower_hex (take 32 (drop 13 octets)),
        rm_node_id = bytes_str (drop 53 octets), rm_listen_port = a, rm_ports = PortRange b c \<rparr>"
    using assms unfolding decode_rule_marker_def Let_def magic
    by (auto simp: defs not_less split: if_splits)
  with that show thesis by simp
qed

lemma decode_rule_marker_wf:
  assumes "decode_rule_marker octets = Inr m"
  shows "marker_wf m"
  using assms
  by (rule decode_rule_marker_Inr) (auto simp: marker_wf_def digest_wf_def bytes_str_def intro!: exI [of _ "take 32 (drop 13 octets)"])

interpretation marker_codec: codec rule_marker decode_rule_marker marker_wf
proof unfold_locales
  fix m assume wf: "marker_wf m"
  let ?r = "\<lparr> rd_node_id = rm_node_id m, rd_listen_port = rm_listen_port m, rd_ports = [] \<rparr>"
  have fields: "rd_node_id ?r = rm_node_id m" "rd_listen_port ?r = rm_listen_port m" by simp_all
  obtain octets where o: "length octets = 32" "rm_digest m = lower_hex octets"
    "encode_rule_marker (rm_owner m) (rm_digest m) ?r (rm_ports m) =
      Inr (RULE_MARKER_MAGIC @ rm_owner m @ octets @ [MARKER_PROTOCOL] @ be_u16 (rm_listen_port m) @
        be_u16 (pr_start (rm_ports m)) @ be_u16 (pr_end (rm_ports m)) @
        [of_nat (length (rm_node_id m))] @ str_bytes (rm_node_id m))"
    by (rule encode_rule_marker_ok [OF wf fields])
  then have "rule_marker m = RULE_MARKER_MAGIC @ rm_owner m @ octets @ [MARKER_PROTOCOL] @ be_u16 (rm_listen_port m) @
        be_u16 (pr_start (rm_ports m)) @ be_u16 (pr_end (rm_ports m)) @
        [of_nat (length (rm_node_id m))] @ str_bytes (rm_node_id m)"
    by (simp add: rule_marker_def)
  with o(1,2) wf decode_rule_marker_fields [of "rm_owner m" octets "str_bytes (rm_node_id m)" "rm_listen_port m"
      "pr_start (rm_ports m)" "pr_end (rm_ports m)"]
  show "decode_rule_marker (rule_marker m) = Inr m"
    by (simp add: marker_wf_def)
next
  fix octets m assume dec: "decode_rule_marker octets = Inr m"
  then show "marker_wf m" by (rule decode_rule_marker_wf)
qed

end
