(* ===== verification/Nft_Rules.thy ===== *)
theory Nft_Rules
  imports Nft_Markers
begin

text \<open>
  The nftables objects of \<open>porthopping/backend_linux.rs\<close>, the expressions of a managed redirect rule, the
  recogniser of such rules, and the scan of foreign NAT chains for overlapping redirects. The message
  types of \<open>netlink-packet-netfilter\<close> are datatypes with the constructors the sources build or match
  and one constructor for everything they pass over; the conversions of that crate are the fields of
  \<open>nft_codec\<close>, with what the backend relies on as \<open>codec_laws\<close>.
\<close>

section \<open>Expressions\<close>

datatype Register = Verdict | Reg1 | Reg2 | OtherRegister u32
datatype Operator = OpEqual | OtherOperator u32
datatype MetaKey = L4Proto | OtherMetaKey u32
datatype VerdictCode = Jump | Goto | OtherVerdictCode
datatype VerdictAttribute = VerdictCodeAttr VerdictCode | VerdictChain string | OtherVerdictAttr
datatype DataAttribute = DataValue bytes | DataVerdict "VerdictAttribute list" | OtherDataAttr
datatype MetaAttr = MetaKeyAttr MetaKey | MetaDestination Register | OtherMetaAttr
datatype CmpAttr = CmpSource Register | CmpOp Operator | CmpData DataAttribute | OtherCmpAttr
datatype PayloadAttr = PayloadDestination Register | PayloadBase u32 | PayloadOffset u32 | PayloadLen u32 | OtherPayloadAttr
datatype ImmediateAttr = ImmediateDestination Register | ImmediateData DataAttribute | OtherImmediateAttr

record DefaultNla =
  dn_kind :: u16
  dn_value :: bytes

datatype Expressions =
    ExprMeta "MetaAttr list"
  | ExprCmp "CmpAttr list"
  | ExprPayload "PayloadAttr list"
  | ExprImmediate "ImmediateAttr list"
  | ExprOther string "DefaultNla list"
  | ExprUnused

datatype ExpressionAttribute = ExpressionData Expressions | OtherExpressionAttr
datatype ListAttribute = Element "ExpressionAttribute list" | OtherListAttr

text \<open>The crate's conversions: of an expression into a list element, of registers and operators from and
  to their numbers, of a data attribute into octets, and the iterator over nested attributes.\<close>

record nft_codec =
  nc_element :: "Expressions \<Rightarrow> ListAttribute"
  nc_register :: "u32 \<Rightarrow> Register"
  nc_register_u32 :: "Register \<Rightarrow> u32"
  nc_operator :: "u32 \<Rightarrow> Operator"
  nc_operator_u32 :: "Operator \<Rightarrow> u32"
  nc_emit :: "bytes \<Rightarrow> bytes"
  nc_nlas :: "bytes \<Rightarrow> (u16 \<times> bytes) option list"
  nc_prerouting :: u32

section \<open>Kernel objects\<close>

record TableState =
  nt_family :: Family
  nt_name :: string
  nt_handle :: u64
  nt_user_data :: bytes

record ChainState =
  nch_family :: Family
  nch_table :: string
  nch_name :: string
  nch_type :: "string option"
  nch_hook :: "u32 option"
  nch_priority :: "int option"
  nch_policy :: "u32 option"
  nch_user_data :: bytes

record RuleState =
  nr_family :: Family
  nr_table :: string
  nr_chain :: string
  nr_expressions :: "ListAttribute list"
  nr_user_data :: bytes

record KernelSnapshot =
  ks_tables :: "TableState list"
  ks_chains :: "ChainState list"
  ks_rules :: "RuleState list"
  ks_unavailable :: "Family \<rightharpoonup> int"

definition NF_ACCEPT :: u32 where "NF_ACCEPT = 1"
definition NF_IP_PRI_NAT_DST :: int where "NF_IP_PRI_NAT_DST = -100"
definition IPPROTO_UDP :: u8 where "IPPROTO_UDP = 17"
definition PAYLOAD_BASE_TRANSPORT_HEADER :: u32 where "PAYLOAD_BASE_TRANSPORT_HEADER = 2"
definition NF_NAT_RANGE_PROTO_SPECIFIED :: u32 where "NF_NAT_RANGE_PROTO_SPECIFIED = 2"
definition NLA_TYPE_MASK :: u16 where "NLA_TYPE_MASK = 0x3fff"
definition NLA_F_NESTED :: u16 where "NLA_F_NESTED = 0x8000"

section \<open>The expressions of a redirect\<close>

definition raw_expression :: "nft_codec \<Rightarrow> string \<Rightarrow> DefaultNla list \<Rightarrow> ListAttribute" where
  "raw_expression c expression_type attributes = nc_element c (ExprOther expression_type attributes)"

definition be_u32_attr :: "u16 \<Rightarrow> u32 \<Rightarrow> DefaultNla" where
  "be_u32_attr kind value = \<lparr> dn_kind = kind, dn_value = be_u32 value \<rparr>"

definition nested_data_attr :: "nft_codec \<Rightarrow> u16 \<Rightarrow> bytes \<Rightarrow> DefaultNla" where
  "nested_data_attr c kind value = \<lparr> dn_kind = or kind NLA_F_NESTED, dn_value = nc_emit c value \<rparr>"

definition redirect_expressions :: "nft_codec \<Rightarrow> port_range \<Rightarrow> u16 \<Rightarrow> ListAttribute list" where
  "redirect_expressions c r target =
     [nc_element c (ExprMeta [MetaKeyAttr L4Proto, MetaDestination Reg1]),
      nc_element c (ExprCmp [CmpSource Reg1, CmpOp OpEqual, CmpData (DataValue [IPPROTO_UDP])]),
      nc_element c (ExprPayload [PayloadDestination Reg1, PayloadBase PAYLOAD_BASE_TRANSPORT_HEADER,
        PayloadOffset 2, PayloadLen 2]),
      (if pr_start r = pr_end r then
         nc_element c (ExprCmp [CmpSource Reg1, CmpOp OpEqual, CmpData (DataValue (be_u16 (pr_start r)))])
       else raw_expression c ''range''
         [be_u32_attr 1 (nc_register_u32 c Reg1), be_u32_attr 2 (nc_operator_u32 c OpEqual),
          nested_data_attr c 3 (be_u16 (pr_start r)), nested_data_attr c 4 (be_u16 (pr_end r))]),
      nc_element c (ExprImmediate [ImmediateDestination Reg2, ImmediateData (DataValue (be_u16 target))]),
      raw_expression c ''redir'' [be_u32_attr 1 (nc_register_u32 c Reg2)]]"

section \<open>Recognising a redirect\<close>

fun find_data :: "ExpressionAttribute list \<Rightarrow> Expressions option" where
  "find_data [] = None"
| "find_data (ExpressionData e # _) = Some e"
| "find_data (_ # attributes) = find_data attributes"

fun expression_data :: "ListAttribute \<Rightarrow> Expressions option" where
  "expression_data (Element attributes) = find_data attributes"
| "expression_data OtherListAttr = None"

definition nla_kind :: "DefaultNla \<Rightarrow> u16" where
  "nla_kind attribute = and (dn_kind attribute) NLA_TYPE_MASK"

definition read_be_u32 :: "bytes \<Rightarrow> u32 option" where
  "read_be_u32 value = (if length value = 4 then Some (of_be_u32 value) else None)"

fun nested_first :: "(u16 \<times> bytes) option list \<Rightarrow> bytes option" where
  "nested_first [] = None"
| "nested_first (None # _) = None"
| "nested_first (Some (kind, value) # nlas) = (if kind = 1 then Some value else nested_first nlas)"

definition nested_data_value :: "nft_codec \<Rightarrow> bytes \<Rightarrow> bytes option" where
  "nested_data_value c value = nested_first (nc_nlas c value)"

text \<open>The loops over the attributes of an expression, each with the variables it assigns.\<close>

fun meta_loop :: "Register \<Rightarrow> MetaAttr list \<Rightarrow> bool \<Rightarrow> bool \<Rightarrow> bool" where
  "meta_loop register [] key destination = (key \<and> destination)"
| "meta_loop register (MetaKeyAttr L4Proto # as) key destination = meta_loop register as True destination"
| "meta_loop register (MetaDestination found # as) key destination =
     (if found = register then meta_loop register as key True else False)"
| "meta_loop register (_ # as) key destination = False"

definition meta_loads_l4proto :: "Expressions \<Rightarrow> Register \<Rightarrow> bool" where
  "meta_loads_l4proto e register = (case e of ExprMeta as \<Rightarrow> meta_loop register as False False | _ \<Rightarrow> False)"

fun cmp_loop :: "CmpAttr list \<Rightarrow> Register option \<times> Operator option \<times> bytes option \<Rightarrow>
    (Register option \<times> Operator option \<times> bytes option) option" where
  "cmp_loop [] st = Some st"
| "cmp_loop (CmpSource value # as) (source, op, octets) = cmp_loop as (Some value, op, octets)"
| "cmp_loop (CmpOp value # as) (source, op, octets) = cmp_loop as (source, Some value, octets)"
| "cmp_loop (CmpData (DataValue value) # as) (source, op, octets) = cmp_loop as (source, op, Some value)"
| "cmp_loop (_ # as) st = None"

definition cmp_equal_data :: "Expressions \<Rightarrow> Register \<Rightarrow> bytes option" where
  "cmp_equal_data e register =
     (case e of
        ExprCmp as \<Rightarrow>
          (case cmp_loop as (None, None, None) of
             Some (source, op, octets) \<Rightarrow> if source = Some register \<and> op = Some OpEqual then octets else None
           | None \<Rightarrow> None)
      | _ \<Rightarrow> None)"

fun cmp_equals_loop :: "Register \<Rightarrow> bytes \<Rightarrow> CmpAttr list \<Rightarrow> bool \<Rightarrow> bool \<Rightarrow> bytes option \<Rightarrow> bool" where
  "cmp_equals_loop register expected [] source equal octets = (source \<and> equal \<and> octets = Some expected)"
| "cmp_equals_loop register expected (CmpSource found # as) source equal octets =
     (if found = register then cmp_equals_loop register expected as True equal octets else False)"
| "cmp_equals_loop register expected (CmpOp OpEqual # as) source equal octets =
     cmp_equals_loop register expected as source True octets"
| "cmp_equals_loop register expected (CmpData (DataValue value) # as) source equal octets =
     cmp_equals_loop register expected as source equal (Some value)"
| "cmp_equals_loop register expected (_ # as) source equal octets = False"

definition cmp_equals :: "Expressions \<Rightarrow> Register \<Rightarrow> bytes \<Rightarrow> bool" where
  "cmp_equals e register expected =
     (case e of ExprCmp as \<Rightarrow> cmp_equals_loop register expected as False False None | _ \<Rightarrow> False)"

fun payload_loop :: "Register \<Rightarrow> PayloadAttr list \<Rightarrow> bool \<Rightarrow> bool \<Rightarrow> bool \<Rightarrow> bool \<Rightarrow> bool" where
  "payload_loop register [] destination base offset len = (destination \<and> base \<and> offset \<and> len)"
| "payload_loop register (PayloadDestination found # as) destination base offset len =
     (if found = register then payload_loop register as True base offset len else False)"
| "payload_loop register (PayloadBase value # as) destination base offset len =
     (if value = PAYLOAD_BASE_TRANSPORT_HEADER then payload_loop register as destination True offset len else False)"
| "payload_loop register (PayloadOffset value # as) destination base offset len =
     (if value = 2 then payload_loop register as destination base True len else False)"
| "payload_loop register (PayloadLen value # as) destination base offset len =
     (if value = 2 then payload_loop register as destination base offset True else False)"
| "payload_loop register (OtherPayloadAttr # as) destination base offset len = False"

definition payload_loads_dport :: "Expressions \<Rightarrow> Register \<Rightarrow> bool" where
  "payload_loads_dport e register =
     (case e of ExprPayload as \<Rightarrow> payload_loop register as False False False False | _ \<Rightarrow> False)"

fun range_loop :: "nft_codec \<Rightarrow> DefaultNla list \<Rightarrow>
    Register option \<times> Operator option \<times> bytes option \<times> bytes option \<Rightarrow>
    (Register option \<times> Operator option \<times> bytes option \<times> bytes option) option" where
  "range_loop c [] st = Some st"
| "range_loop c (a # as) (source, operator, from, to) =
     (let value = dn_value a in
      if nla_kind a = 1 then range_loop c as (map_option (nc_register c) (read_be_u32 value), operator, from, to)
      else if nla_kind a = 2 then range_loop c as (source, map_option (nc_operator c) (read_be_u32 value), from, to)
      else if nla_kind a = 3 then range_loop c as (source, operator, nested_data_value c value, to)
      else if nla_kind a = 4 then range_loop c as (source, operator, from, nested_data_value c value)
      else None)"

definition parse_range_attributes :: "nft_codec \<Rightarrow> DefaultNla list \<Rightarrow> (Register \<times> Operator \<times> bytes \<times> bytes) option" where
  "parse_range_attributes c attributes =
     (case range_loop c attributes (None, None, None, None) of
        Some (Some source, Some operator, Some from, Some to) \<Rightarrow> Some (source, operator, from, to)
      | _ \<Rightarrow> None)"

definition port_match :: "nft_codec \<Rightarrow> Expressions \<Rightarrow> Register \<Rightarrow> port_range option" where
  "port_match c e register =
     (case e of
        ExprCmp _ \<Rightarrow>
          (case cmp_equal_data e register of
             Some [a, b] \<Rightarrow> (let port = of_be_u16 a b in if port \<noteq> 0 then Some (PortRange port port) else None)
           | _ \<Rightarrow> None)
      | ExprOther expression_type attributes \<Rightarrow>
          if expression_type = ''range'' then
            (case parse_range_attributes c attributes of
               Some (source, op, [a, b], [x, y]) \<Rightarrow>
                 (let start = of_be_u16 a b; stop = of_be_u16 x y in
                  if source = register \<and> op = OpEqual \<and> start \<noteq> 0 \<and> start \<le> stop then Some (PortRange start stop) else None)
             | _ \<Rightarrow> None)
          else None
      | _ \<Rightarrow> None)"

fun immediate_loop :: "ImmediateAttr list \<Rightarrow> Register option \<times> bytes option \<Rightarrow> (Register option \<times> bytes option) option" where
  "immediate_loop [] st = Some st"
| "immediate_loop (ImmediateDestination value # as) (destination, octets) = immediate_loop as (Some value, octets)"
| "immediate_loop (ImmediateData (DataValue value) # as) (destination, octets) = immediate_loop as (destination, Some value)"
| "immediate_loop (_ # as) st = None"

definition immediate_port :: "Expressions \<Rightarrow> Register \<Rightarrow> u16 option" where
  "immediate_port e register =
     (case e of
        ExprImmediate as \<Rightarrow>
          (case immediate_loop as (None, None) of
             Some (destination, Some [a, b]) \<Rightarrow> if destination = Some register then Some (of_be_u16 a b) else None
           | _ \<Rightarrow> None)
      | _ \<Rightarrow> None)"

fun redir_loop :: "nft_codec \<Rightarrow> DefaultNla list \<Rightarrow> Register option \<times> Register option \<times> u32 option \<Rightarrow>
    (Register option \<times> Register option \<times> u32 option) option" where
  "redir_loop c [] st = Some st"
| "redir_loop c (a # as) (minimum, maximum, flags) =
     (let value = dn_value a in
      if nla_kind a = 1 then redir_loop c as (map_option (nc_register c) (read_be_u32 value), maximum, flags)
      else if nla_kind a = 2 then redir_loop c as (minimum, map_option (nc_register c) (read_be_u32 value), flags)
      else if nla_kind a = 3 then redir_loop c as (minimum, maximum, read_be_u32 value)
      else None)"

definition redir_uses :: "nft_codec \<Rightarrow> Expressions \<Rightarrow> Register \<Rightarrow> bool" where
  "redir_uses c e register =
     (case e of
        ExprOther expression_type attributes \<Rightarrow>
          expression_type = ''redir'' \<and>
          (case redir_loop c attributes (None, None, None) of
             Some (minimum, maximum, flags) \<Rightarrow>
               minimum = Some register \<and> (case maximum of None \<Rightarrow> True | Some m \<Rightarrow> m = register) \<and>
               (case flags of None \<Rightarrow> True | Some f \<Rightarrow> f = 0 \<or> f = NF_NAT_RANGE_PROTO_SPECIFIED)
           | None \<Rightarrow> False)
      | _ \<Rightarrow> False)"

definition managed_redirect_rule :: "nft_codec \<Rightarrow> ListAttribute list \<Rightarrow> (port_range \<times> u16) option" where
  "managed_redirect_rule c expressions =
     (case map expression_data expressions of
        [Some e0, Some e1, Some e2, Some e3, Some e4, Some e5] \<Rightarrow>
          if \<not> meta_loads_l4proto e0 Reg1 \<or> \<not> cmp_equals e1 Reg1 [IPPROTO_UDP] \<or> \<not> payload_loads_dport e2 Reg1 then None
          else Option.bind (port_match c e3 Reg1) (\<lambda>r.
            Option.bind (immediate_port e4 Reg2) (\<lambda>target.
            if target = 0 \<or> \<not> redir_uses c e5 Reg2 then None else Some (r, target)))
      | _ \<Rightarrow> None)"

section \<open>Installed rules are recognised\<close>

text \<open>What the backend relies on of the crate: an expression is the data of its list element, the numbers of
  the registers and of the operator it uses read back, and the two octets of a port are one nested attribute of
  kind 1.\<close>

definition codec_laws :: "nft_codec \<Rightarrow> bool" where
  "codec_laws c \<longleftrightarrow>
     (\<forall>e. expression_data (nc_element c e) = Some e) \<and>
     nc_register c (nc_register_u32 c Reg1) = Reg1 \<and> nc_register c (nc_register_u32 c Reg2) = Reg2 \<and>
     nc_operator c (nc_operator_u32 c OpEqual) = OpEqual \<and>
     (\<forall>value. length value = 2 \<longrightarrow> nc_nlas c (nc_emit c value) = [Some (1, value)])"

lemma codec_lawsD [simp]:
  assumes "codec_laws c"
  shows "expression_data (nc_element c e) = Some e" "nc_register c (nc_register_u32 c Reg1) = Reg1"
    "nc_register c (nc_register_u32 c Reg2) = Reg2" "nc_operator c (nc_operator_u32 c OpEqual) = OpEqual"
    "length value = 2 \<Longrightarrow> nested_data_value c (nc_emit c value) = Some value"
  using assms by (simp_all add: codec_laws_def nested_data_value_def)

lemma nla_kinds [simp]:
  "nla_kind (be_u32_attr 1 v) = 1" "nla_kind (be_u32_attr 2 v) = 2"
  "nla_kind (nested_data_attr c 3 w) = 3" "nla_kind (nested_data_attr c 4 w) = 4"
  by (simp_all add: nla_kind_def be_u32_attr_def nested_data_attr_def NLA_TYPE_MASK_def NLA_F_NESTED_def)

lemma nla_values [simp]:
  "read_be_u32 (dn_value (be_u32_attr k v)) = Some v" "dn_value (nested_data_attr c k w) = nc_emit c w"
  by (simp_all add: read_be_u32_def be_u32_attr_def nested_data_attr_def)

lemma be_u16_pair: obtains a b where "be_u16 w = [a, b]" "of_be_u16 a b = w"
  using of_be_u16_be [of w] by (simp add: be_u16_def)

lemma managed_redirect_expressions:
  assumes laws: "codec_laws c" and r: "pr_start r \<noteq> 0" "pr_start r \<le> pr_end r" and target: "target \<noteq> 0"
  shows "managed_redirect_rule c (redirect_expressions c r target) = Some (r, target)"
proof -
  obtain a b where s: "be_u16 (pr_start r) = [a, b]" "of_be_u16 a b = pr_start r" by (rule be_u16_pair)
  obtain x y where e: "be_u16 (pr_end r) = [x, y]" "of_be_u16 x y = pr_end r" by (rule be_u16_pair)
  obtain u v where t: "be_u16 target = [u, v]" "of_be_u16 u v = target" by (rule be_u16_pair)
  have range: "parse_range_attributes c [be_u32_attr 1 (nc_register_u32 c Reg1), be_u32_attr 2 (nc_operator_u32 c OpEqual),
      nested_data_attr c 3 (be_u16 (pr_start r)), nested_data_attr c 4 (be_u16 (pr_end r))] = Some (Reg1, OpEqual, [a, b], [x, y])"
    using laws by (simp add: parse_range_attributes_def s e)
  have port: "port_match c (if pr_start r = pr_end r
        then ExprCmp [CmpSource Reg1, CmpOp OpEqual, CmpData (DataValue (be_u16 (pr_start r)))]
        else ExprOther ''range'' [be_u32_attr 1 (nc_register_u32 c Reg1), be_u32_attr 2 (nc_operator_u32 c OpEqual),
          nested_data_attr c 3 (be_u16 (pr_start r)), nested_data_attr c 4 (be_u16 (pr_end r))]) Reg1 = Some r"
    using r by (cases "pr_start r = pr_end r")
       (simp_all add: port_match_def range [unfolded s(1) e(1)] cmp_equal_data_def s e Let_def port_range.expand)
  have redir: "redir_uses c (ExprOther ''redir'' [be_u32_attr 1 (nc_register_u32 c Reg2)]) Reg2"
    using laws by (simp add: redir_uses_def)
  from laws port redir target show ?thesis
    by (auto simp: managed_redirect_rule_def redirect_expressions_def raw_expression_def meta_loads_l4proto_def
        cmp_equals_def payload_loads_dport_def immediate_port_def t split: if_splits)
qed

end
