(* ===== verification/Nft_Conflicts.thy ===== *)
theory Nft_Conflicts
  imports Nft_Rules
begin

text \<open>
  The part of \<open>porthopping/backend_linux.rs\<close> that keeps the agent's redirects apart from foreign ones:
  \<open>direct_udp_redirect_range\<close>, \<open>jump_target\<close> and the recursive scan of the NAT chains that see incoming
  packets. The scan carries fuel for the depth of its recursion; each call marks a new chain, so one
  more than the number of chains is enough. The scan is correct for the jump graph: what it accepts
  has no overlapping redirect in any chain that a jump path reaches.
\<close>

section \<open>Redirects of foreign rules\<close>

fun meta_load :: "MetaAttr list \<Rightarrow> bool \<Rightarrow> Register option \<Rightarrow> bool \<times> Register option" where
  "meta_load [] key register = (key, register)"
| "meta_load (MetaKeyAttr L4Proto # as) key register = meta_load as True register"
| "meta_load (MetaDestination value # as) key register = meta_load as key (Some value)"
| "meta_load (_ # as) key register = meta_load as key register"

fun payload_load :: "PayloadAttr list \<Rightarrow> Register option \<times> u32 option \<times> u32 option \<times> u32 option \<Rightarrow>
    Register option \<times> u32 option \<times> u32 option \<times> u32 option" where
  "payload_load [] st = st"
| "payload_load (PayloadDestination v # as) (register, base, offset, len) = payload_load as (Some v, base, offset, len)"
| "payload_load (PayloadBase v # as) (register, base, offset, len) = payload_load as (register, Some v, offset, len)"
| "payload_load (PayloadOffset v # as) (register, base, offset, len) = payload_load as (register, base, Some v, len)"
| "payload_load (PayloadLen v # as) (register, base, offset, len) = payload_load as (register, base, offset, Some v)"
| "payload_load (OtherPayloadAttr # as) st = payload_load as st"

record register_use =
  ru_l4 :: "Register list"
  ru_port :: "Register list"
  ru_redirect :: bool

definition use_expression :: "register_use \<Rightarrow> Expressions \<Rightarrow> register_use" where
  "use_expression u e =
     (case e of
        ExprMeta as \<Rightarrow>
          (case meta_load as False None of
             (True, Some register) \<Rightarrow> u\<lparr> ru_l4 := List.insert register (ru_l4 u) \<rparr>
           | _ \<Rightarrow> u)
      | ExprPayload as \<Rightarrow>
          (case payload_load as (None, None, None, None) of
             (Some register, base, offset, len) \<Rightarrow>
               if base = Some PAYLOAD_BASE_TRANSPORT_HEADER \<and> offset = Some 2 \<and> len = Some 2
               then u\<lparr> ru_port := List.insert register (ru_port u) \<rparr> else u
           | _ \<Rightarrow> u)
      | ExprOther expression_type attributes \<Rightarrow>
          if expression_type = ''redir'' then u\<lparr> ru_redirect := True \<rparr>
          else if expression_type = ''nat'' then
            u\<lparr> ru_redirect := list_ex (\<lambda>a. nla_kind a = 1 \<and> read_be_u32 (dn_value a) = Some 1) attributes \<rparr>
          else u
      | _ \<Rightarrow> u)"

definition match_port :: "Expressions \<Rightarrow> port_range option \<Rightarrow> Register \<Rightarrow> port_range option" where
  "match_port e found register =
     (case cmp_equal_data e register of
        Some [a, b] \<Rightarrow> (let port = of_be_u16 a b in if port \<noteq> 0 then Some (PortRange port port) else found)
      | _ \<Rightarrow> found)"

definition match_expression :: "nft_codec \<Rightarrow> register_use \<Rightarrow> bool \<times> port_range option \<Rightarrow> Expressions \<Rightarrow>
    bool \<times> port_range option" where
  "match_expression c u st e =
     (case e of
        ExprCmp _ \<Rightarrow>
          (fst st \<or> list_ex (\<lambda>register. cmp_equal_data e register = Some [IPPROTO_UDP]) (ru_l4 u),
           foldl (match_port e) (snd st) (ru_port u))
      | ExprOther expression_type attributes \<Rightarrow>
          if expression_type = ''range'' then
            (case parse_range_attributes c attributes of
               Some (register, op, [a, b], [x, y]) \<Rightarrow>
                 (let start = of_be_u16 a b; stop = of_be_u16 x y in
                  if op = OpEqual \<and> register \<in> set (ru_port u) \<and> start \<noteq> 0 \<and> start \<le> stop
                  then (fst st, Some (PortRange start stop)) else st)
             | _ \<Rightarrow> st)
          else st
      | _ \<Rightarrow> st)"

definition direct_udp_redirect_range :: "nft_codec \<Rightarrow> ListAttribute list \<Rightarrow> port_range option" where
  "direct_udp_redirect_range c expressions =
     (let data = List.map_filter expression_data expressions;
          u = foldl use_expression \<lparr> ru_l4 = [], ru_port = [], ru_redirect = False \<rparr> data in
      if \<not> ru_redirect u then None
      else case foldl (match_expression c u) (False, None) data of
        (udp, found) \<Rightarrow> if udp then found else None)"

fun verdict_items :: "VerdictAttribute list \<Rightarrow> bool \<times> string option \<Rightarrow> bool \<times> string option" where
  "verdict_items [] st = st"
| "verdict_items (VerdictCodeAttr Jump # vs) (verdict, chain) = verdict_items vs (True, chain)"
| "verdict_items (VerdictCodeAttr Goto # vs) (verdict, chain) = verdict_items vs (True, chain)"
| "verdict_items (VerdictChain value # vs) (verdict, chain) = verdict_items vs (verdict, Some value)"
| "verdict_items (_ # vs) st = verdict_items vs st"

fun jump_loop :: "ImmediateAttr list \<Rightarrow> bool \<times> bool \<times> string option \<Rightarrow> bool \<times> bool \<times> string option" where
  "jump_loop [] st = st"
| "jump_loop (ImmediateDestination register # as) (verdict_register, verdict, chain) =
     jump_loop as (verdict_register \<or> register = Verdict, verdict, chain)"
| "jump_loop (ImmediateData (DataVerdict items) # as) (verdict_register, st) =
     jump_loop as (verdict_register, verdict_items items st)"
| "jump_loop (_ # as) st = jump_loop as st"

definition jump_target :: "Expressions option \<Rightarrow> string option" where
  "jump_target expression =
     (case expression of
        Some (ExprImmediate as) \<Rightarrow>
          (case jump_loop as (False, False, None) of
             (True, True, chain) \<Rightarrow> chain
           | _ \<Rightarrow> None)
      | _ \<Rightarrow> None)"

section \<open>The scan\<close>

definition chain_rules :: "KernelSnapshot \<Rightarrow> TableState \<Rightarrow> string \<Rightarrow> RuleState list" where
  "chain_rules snapshot table name =
     filter (\<lambda>rule. nr_family rule = nt_family table \<and> nr_table rule = nt_name table \<and> nr_chain rule = name)
       (ks_rules snapshot)"

text \<open>The first redirect of the plan that overlaps the range of a foreign rule.\<close>

fun rule_conflict :: "string \<Rightarrow> nat \<Rightarrow> port_range \<Rightarrow> Redirect list \<Rightarrow> box_error + unit" where
  "rule_conflict name index existing [] = Inr ()"
| "rule_conflict name index existing (redirect # redirects) =
     (case first_overlap (rd_ports redirect) [existing] of
        Some overlap \<Rightarrow>
          Inl (boxed_operation (''node '' @ rd_node_id redirect @ '' hysteria2 port_hopping '' @ show_range overlap @
            '' conflicts with existing UDP NAT rule at chain '' @ name @ '' rule '' @ show_nat index @
            '' on '' @ show_range existing))
      | None \<Rightarrow> rule_conflict name index existing redirects)"

text \<open>\<open>None\<close> is running out of fuel; the argument \<open>scan\<close> is the recursive call.\<close>

type_synonym scan_result = "(box_error + string set) option"

fun scan_jumps :: "(ChainState \<Rightarrow> string set \<Rightarrow> scan_result) \<Rightarrow> (string \<times> ChainState) list \<Rightarrow> ListAttribute list \<Rightarrow>
    string set \<Rightarrow> scan_result" where
  "scan_jumps scan chain_map [] visited = Some (Inr visited)"
| "scan_jumps scan chain_map (e # es) visited =
     (case Option.bind (jump_target (expression_data e)) (map_of chain_map) of
        None \<Rightarrow> scan_jumps scan chain_map es visited
      | Some chain \<Rightarrow>
          (case scan chain visited of
             Some (Inr visited') \<Rightarrow> scan_jumps scan chain_map es visited'
           | r \<Rightarrow> r))"

fun scan_rules :: "nft_codec \<Rightarrow> (ChainState \<Rightarrow> string set \<Rightarrow> scan_result) \<Rightarrow> (string \<times> ChainState) list \<Rightarrow> Plan \<Rightarrow>
    string \<Rightarrow> nat \<Rightarrow> RuleState list \<Rightarrow> string set \<Rightarrow> scan_result" where
  "scan_rules c scan chain_map desired name index [] visited = Some (Inr visited)"
| "scan_rules c scan chain_map desired name index (rule # rules) visited =
     (case (case direct_udp_redirect_range c (nr_expressions rule) of
              None \<Rightarrow> Inr ()
            | Some existing \<Rightarrow> rule_conflict name index existing (pl_redirects desired)) of
        Inl e \<Rightarrow> Some (Inl e)
      | Inr _ \<Rightarrow>
          (case scan_jumps scan chain_map (nr_expressions rule) visited of
             Some (Inr visited') \<Rightarrow> scan_rules c scan chain_map desired name (Suc index) rules visited'
           | r \<Rightarrow> r))"

fun scan_external_chain :: "nft_codec \<Rightarrow> KernelSnapshot \<Rightarrow> TableState \<Rightarrow> (string \<times> ChainState) list \<Rightarrow> Plan \<Rightarrow> nat \<Rightarrow>
    ChainState \<Rightarrow> string set \<Rightarrow> scan_result" where
  "scan_external_chain c snapshot table chain_map desired 0 chain visited = None"
| "scan_external_chain c snapshot table chain_map desired (Suc fuel) chain visited =
     (if nch_name chain \<in> visited then Some (Inr visited)
      else scan_rules c (scan_external_chain c snapshot table chain_map desired fuel) chain_map desired (nch_name chain) 0
        (chain_rules snapshot table (nch_name chain)) (insert (nch_name chain) visited))"

definition table_chains :: "KernelSnapshot \<Rightarrow> TableState \<Rightarrow> (string \<times> ChainState) list" where
  "table_chains snapshot table =
     foldl (\<lambda>m chain. bt_insert (nch_name chain) chain m) []
       (filter (\<lambda>chain. nch_family chain = nt_family table \<and> nch_table chain = nt_name table) (ks_chains snapshot))"

definition is_base_chain :: "nft_codec \<Rightarrow> ChainState \<Rightarrow> bool" where
  "is_base_chain c chain \<longleftrightarrow> nch_type chain = Some ''nat'' \<and> nch_hook chain = Some (nc_prerouting c)"

fun scan_bases :: "(ChainState \<Rightarrow> string set \<Rightarrow> scan_result) \<Rightarrow> ChainState list \<Rightarrow> string set \<Rightarrow> scan_result" where
  "scan_bases scan [] visited = Some (Inr visited)"
| "scan_bases scan (chain # bases) visited =
     (case scan chain visited of
        Some (Inr visited') \<Rightarrow> scan_bases scan bases visited'
      | r \<Rightarrow> r)"

definition scan_table :: "nft_codec \<Rightarrow> KernelSnapshot \<Rightarrow> Plan \<Rightarrow> TableState \<Rightarrow> scan_result" where
  "scan_table c snapshot desired table =
     (let chain_map = table_chains snapshot table;
          bases = sort_key nch_name (filter (is_base_chain c) (map snd chain_map)) in
      scan_bases (scan_external_chain c snapshot table chain_map desired (Suc (length chain_map))) bases {})"

fun scan_tables :: "nft_codec \<Rightarrow> KernelSnapshot \<Rightarrow> Plan \<Rightarrow> TableState list \<Rightarrow> box_error + unit" where
  "scan_tables c snapshot desired [] = Inr ()"
| "scan_tables c snapshot desired (table # tables) =
     (case scan_table c snapshot desired table of
        Some (Inr _) \<Rightarrow> scan_tables c snapshot desired tables
      | Some (Inl e) \<Rightarrow> Inl e
      | None \<Rightarrow> Inl (boxed_operation ''chain scan out of fuel''))"

definition reject_external_conflicts :: "nft_codec \<Rightarrow> KernelSnapshot \<Rightarrow> string \<Rightarrow> Plan \<Rightarrow> box_error + unit" where
  "reject_external_conflicts c snapshot managed_table desired =
     scan_tables c snapshot desired
       (sort_key (\<lambda>table. (family_rank (nt_family table), nt_name table))
         (filter (\<lambda>table. nt_name table \<noteq> managed_table) (ks_tables snapshot)))"

section \<open>What the scan covers\<close>

definition rule_targets :: "(string \<times> ChainState) list \<Rightarrow> ListAttribute list \<Rightarrow> string set" where
  "rule_targets chain_map es =
     {nch_name chain |chain. \<exists>e \<in> set es. Option.bind (jump_target (expression_data e)) (map_of chain_map) = Some chain}"

definition rule_clean :: "nft_codec \<Rightarrow> Plan \<Rightarrow> RuleState \<Rightarrow> bool" where
  "rule_clean c desired rule \<longleftrightarrow>
     (\<forall>existing. direct_udp_redirect_range c (nr_expressions rule) = Some existing \<longrightarrow>
        (\<forall>redirect \<in> set (pl_redirects desired). ports (rd_ports redirect) \<inter> range_ports existing = {}))"

text \<open>A chain is settled when its rules are clean and every chain it jumps to has been visited.\<close>

definition settled :: "nft_codec \<Rightarrow> KernelSnapshot \<Rightarrow> TableState \<Rightarrow> (string \<times> ChainState) list \<Rightarrow> Plan \<Rightarrow> string set \<Rightarrow>
    string \<Rightarrow> bool" where
  "settled c snapshot table chain_map desired visited name \<longleftrightarrow>
     (\<forall>rule \<in> set (chain_rules snapshot table name).
        rule_clean c desired rule \<and> rule_targets chain_map (nr_expressions rule) \<subseteq> visited)"

definition progress :: "nft_codec \<Rightarrow> KernelSnapshot \<Rightarrow> TableState \<Rightarrow> (string \<times> ChainState) list \<Rightarrow> Plan \<Rightarrow> string set \<Rightarrow>
    string set \<Rightarrow> bool" where
  "progress c snapshot table chain_map desired V V' \<longleftrightarrow>
     V \<subseteq> V' \<and> (\<forall>name \<in> V' - V. settled c snapshot table chain_map desired V' name)"

lemma settled_mono:
  "settled c snapshot table chain_map desired V name \<Longrightarrow> V \<subseteq> V' \<Longrightarrow> settled c snapshot table chain_map desired V' name"
  by (auto simp: settled_def)

lemma progress_refl: "progress c snapshot table chain_map desired V V"
  by (simp add: progress_def)

lemma progress_trans:
  "progress c snapshot table chain_map desired U V \<Longrightarrow> progress c snapshot table chain_map desired V W \<Longrightarrow>
   progress c snapshot table chain_map desired U W"
  unfolding progress_def by (blast intro: settled_mono)

lemma progress_subset: "progress c snapshot table chain_map desired V V' \<Longrightarrow> V \<subseteq> V'"
  by (simp add: progress_def)

lemma rule_conflict_Inr:
  "rule_conflict name index existing redirects = Inr u \<longleftrightarrow>
     (\<forall>redirect \<in> set redirects. ports (rd_ports redirect) \<inter> range_ports existing = {})"
proof (induction redirects)
  case (Cons redirect redirects)
  then show ?case using first_overlap_None [of "rd_ports redirect" "[existing]"]
    by (auto split: option.splits)
qed simp

lemma scan_jumps_progress:
  assumes scan: "\<And>chain V V'. scan chain V = Some (Inr V') \<Longrightarrow> progress c s t m d V V' \<and> nch_name chain \<in> V'"
  shows "scan_jumps scan m es V = Some (Inr V') \<Longrightarrow> progress c s t m d V V' \<and> rule_targets m es \<subseteq> V'"
proof (induction es arbitrary: V)
  case (Cons e es)
  show ?case
  proof (cases "Option.bind (jump_target (expression_data e)) (map_of m)")
    case None
    with Cons show ?thesis by (fastforce simp: rule_targets_def)
  next
    case (Some chain)
    with Cons.prems obtain U where U: "scan chain V = Some (Inr U)" "scan_jumps scan m es U = Some (Inr V')"
      by (auto split: option.splits sum.splits)
    from scan [OF U(1)] Cons.IH [OF U(2)]
    have "progress c s t m d V V'" "nch_name chain \<in> V'" "rule_targets m es \<subseteq> V'"
      by (auto intro: progress_trans dest: progress_subset)
    with Some show ?thesis by (auto simp: rule_targets_def)
  qed
qed (simp add: progress_refl rule_targets_def)

lemma scan_rules_progress:
  assumes scan: "\<And>chain V V'. scan chain V = Some (Inr V') \<Longrightarrow> progress c s t m d V V' \<and> nch_name chain \<in> V'"
  shows "scan_rules c scan m d name index rules V = Some (Inr V') \<Longrightarrow>
    progress c s t m d V V' \<and> (\<forall>rule \<in> set rules. rule_clean c d rule \<and> rule_targets m (nr_expressions rule) \<subseteq> V')"
proof (induction rules arbitrary: index V)
  case (Cons rule rules)
  have "rule_conflict name index existing (pl_redirects d) = Inr ()"
    if "direct_udp_redirect_range c (nr_expressions rule) = Some existing" for existing
    using Cons.prems that by (auto split: sum.splits)
  then have clean: "rule_clean c d rule" unfolding rule_clean_def rule_conflict_Inr by blast
  from Cons.prems obtain U where U: "scan_jumps scan m (nr_expressions rule) V = Some (Inr U)"
    "scan_rules c scan m d name (Suc index) rules U = Some (Inr V')"
    by (auto split: sum.splits option.splits)
  note j = scan_jumps_progress [OF scan U(1)] and r = Cons.IH [OF U(2)]
  from j r clean show ?case by (auto intro: progress_trans dest: progress_subset)
qed (simp add: progress_refl)

lemma scan_external_chain_progress:
  "scan_external_chain c s t m d fuel chain V = Some (Inr V') \<Longrightarrow> progress c s t m d V V' \<and> nch_name chain \<in> V'"
proof (induction fuel arbitrary: chain V V')
  case (Suc fuel)
  show ?case
  proof (cases "nch_name chain \<in> V")
    case True
    with Suc.prems show ?thesis by (simp add: progress_refl)
  next
    case False
    with Suc.prems have "scan_rules c (scan_external_chain c s t m d fuel) m d (nch_name chain) 0
        (chain_rules s t (nch_name chain)) (insert (nch_name chain) V) = Some (Inr V')" by simp
    from scan_rules_progress [OF Suc.IH this]
    show ?thesis unfolding progress_def settled_def by blast
  qed
qed simp

section \<open>The fuel is enough\<close>

definition chain_names :: "(string \<times> ChainState) list \<Rightarrow> string set" where
  "chain_names m = nch_name ` snd ` set m"

lemma scan_jumps_total:
  assumes scan: "\<And>chain V. chain \<in> snd ` set m \<Longrightarrow> card (chain_names m - V) < n \<Longrightarrow> scan chain V \<noteq> None"
    and mono: "\<And>chain V V'. scan chain V = Some (Inr V') \<Longrightarrow> V \<subseteq> V'"
  shows "card (chain_names m - V) < n \<Longrightarrow> scan_jumps scan m es V \<noteq> None \<and>
    (\<forall>V'. scan_jumps scan m es V = Some (Inr V') \<longrightarrow> V \<subseteq> V')"
proof (induction es arbitrary: V)
  case (Cons e es)
  show ?case
  proof (cases "Option.bind (jump_target (expression_data e)) (map_of m)")
    case (Some chain)
    then have mem: "chain \<in> snd ` set m" by (force simp: Option.bind_eq_Some_conv dest: map_of_SomeD)
    show ?thesis
    proof (cases "scan chain V")
      case None
      with scan [OF mem Cons.prems] show ?thesis by simp
    next
      case (Some r)
      show ?thesis
      proof (cases r)
        case (Inl e')
        with Some \<open>Option.bind _ _ = Some chain\<close> show ?thesis by simp
      next
        case (Inr U)
        with Some mono have "V \<subseteq> U" by blast
        then have "card (chain_names m - U) \<le> card (chain_names m - V)"
          by (intro card_mono) (auto simp: chain_names_def)
        with Cons.prems have "card (chain_names m - U) < n" by simp
        from Cons.IH [OF this] Some Inr \<open>V \<subseteq> U\<close> \<open>Option.bind _ _ = Some chain\<close> show ?thesis by auto
      qed
    qed
  qed (use Cons in simp)
qed simp

lemma scan_rules_total:
  assumes scan: "\<And>chain V. chain \<in> snd ` set m \<Longrightarrow> card (chain_names m - V) < n \<Longrightarrow> scan chain V \<noteq> None"
    and mono: "\<And>chain V V'. scan chain V = Some (Inr V') \<Longrightarrow> V \<subseteq> V'"
  shows "card (chain_names m - V) < n \<Longrightarrow> scan_rules c scan m d name index rules V \<noteq> None"
proof (induction rules arbitrary: index V)
  case (Cons rule rules)
  have j: "scan_jumps scan m (nr_expressions rule) V \<noteq> None \<and>
      (\<forall>V'. scan_jumps scan m (nr_expressions rule) V = Some (Inr V') \<longrightarrow> V \<subseteq> V')"
    by (rule scan_jumps_total [where n = n]) (fact scan mono Cons.prems)+
  show ?case
  proof (cases "scan_jumps scan m (nr_expressions rule) V")
    case None
    with j show ?thesis by simp
  next
    case (Some r)
    have "scan_rules c scan m d name (Suc index) rules U \<noteq> None" if "r = Inr U" for U
    proof -
      from j Some that have "V \<subseteq> U" by auto
      then have "card (chain_names m - U) \<le> card (chain_names m - V)"
        by (intro card_mono) (auto simp: chain_names_def)
      with Cons show ?thesis by simp
    qed
    with Some show ?thesis by (auto split: sum.splits)
  qed
qed simp

lemma scan_external_chain_total:
  "chain \<in> snd ` set m \<Longrightarrow> card (chain_names m - V) < fuel \<Longrightarrow> scan_external_chain c s t m d fuel chain V \<noteq> None"
proof (induction fuel arbitrary: chain V)
  case (Suc fuel)
  show ?case
  proof (cases "nch_name chain \<in> V")
    case False
    have "finite (chain_names m)" "nch_name chain \<in> chain_names m"
      using Suc.prems(1) by (auto simp: chain_names_def)
    with False have "card (chain_names m - insert (nch_name chain) V) < card (chain_names m - V)"
      by (intro psubset_card_mono) auto
    with Suc.prems have card: "card (chain_names m - insert (nch_name chain) V) < fuel" by simp
    let ?scan = "scan_external_chain c s t m d fuel"
    have mono: "U \<subseteq> V'" if "?scan x U = Some (Inr V')" for x U V'
      using scan_external_chain_progress [OF that] by (blast dest: progress_subset)
    from False scan_rules_total [where m = m and n = fuel and scan = ?scan, OF Suc.IH mono card] show ?thesis by simp
  qed simp
qed simp

lemma scan_bases_progress:
  assumes scan: "\<And>chain V V'. scan chain V = Some (Inr V') \<Longrightarrow> progress c s t m d V V' \<and> nch_name chain \<in> V'"
  shows "scan_bases scan bases V = Some (Inr V') \<Longrightarrow> progress c s t m d V V' \<and> nch_name ` set bases \<subseteq> V'"
proof (induction bases arbitrary: V)
  case (Cons b bases)
  then obtain U where U: "scan b V = Some (Inr U)" "scan_bases scan bases U = Some (Inr V')"
    by (auto split: option.splits sum.splits)
  from scan [OF U(1)] Cons.IH [OF U(2)] show ?case by (auto intro: progress_trans dest: progress_subset)
qed (simp add: progress_refl)

lemma scan_bases_total:
  assumes scan: "\<And>chain V. chain \<in> set bases \<Longrightarrow> scan chain V \<noteq> None"
  shows "scan_bases scan bases V \<noteq> None"
  using scan
proof (induction bases arbitrary: V)
  case (Cons b bases)
  then show ?case by (force split: option.splits sum.splits)
qed simp

lemma card_chain_names: "card (chain_names m - V) \<le> length m"
proof -
  have "card (chain_names m - V) \<le> card (chain_names m)" by (intro card_mono) (auto simp: chain_names_def)
  also have "\<dots> \<le> card (set m)" unfolding chain_names_def
    by (metis card_image_le List.finite_set finite_imageI le_trans)
  also have "\<dots> \<le> length m" by (rule card_length)
  finally show ?thesis .
qed

lemma scan_table_total: "scan_table c snapshot desired table \<noteq> None"
  unfolding scan_table_def Let_def
  by (intro scan_bases_total scan_external_chain_total) (auto simp: card_chain_names less_Suc_eq_le)

text \<open>The foreign chains a received packet can traverse: the NAT base chains at the prerouting hook, and
  what they jump to.\<close>

inductive traversed :: "nft_codec \<Rightarrow> KernelSnapshot \<Rightarrow> TableState \<Rightarrow> string \<Rightarrow> bool" for c snapshot table where
  base: "(name, chain) \<in> set (table_chains snapshot table) \<Longrightarrow> is_base_chain c chain \<Longrightarrow>
    traversed c snapshot table (nch_name chain)"
| jump: "traversed c snapshot table name \<Longrightarrow> rule \<in> set (chain_rules snapshot table name) \<Longrightarrow>
    next_name \<in> rule_targets (table_chains snapshot table) (nr_expressions rule) \<Longrightarrow> traversed c snapshot table next_name"

lemma scan_table_sound:
  assumes run: "scan_table c snapshot desired table = Some (Inr V)"
    and reach: "traversed c snapshot table name" and rule: "rule \<in> set (chain_rules snapshot table name)"
  shows "rule_clean c desired rule"
proof -
  let ?m = "table_chains snapshot table"
  have "progress c snapshot table ?m desired {} V \<and>
      nch_name ` set (sort_key nch_name (filter (is_base_chain c) (map snd ?m))) \<subseteq> V"
    by (rule scan_bases_progress [OF scan_external_chain_progress run [unfolded scan_table_def Let_def]])
  then have all: "progress c snapshot table ?m desired {} V"
    "nch_name ` set (sort_key nch_name (filter (is_base_chain c) (map snd ?m))) \<subseteq> V" by blast+
  have "name \<in> V"
    using reach
  proof induction
    case (base name chain)
    with all(2) show ?case by force
  next
    case (jump name rule next_name)
    with all(1) show ?case by (auto simp: progress_def settled_def)
  qed
  with all(1) rule show ?thesis by (auto simp: progress_def settled_def)
qed

lemma scan_tables_Inr:
  assumes "scan_tables c snapshot desired tables = Inr u" and "table \<in> set tables"
  obtains V where "scan_table c snapshot desired table = Some (Inr V)"
  using assms
proof (induction tables arbitrary: thesis)
  case (Cons t tables)
  then show ?case by (auto split: option.splits sum.splits)
qed simp

section \<open>What the scan rejects\<close>

definition conflicting :: "nft_codec \<Rightarrow> KernelSnapshot \<Rightarrow> Plan \<Rightarrow> TableState \<Rightarrow> bool" where
  "conflicting c snapshot desired table \<longleftrightarrow>
     (\<exists>name rule. traversed c snapshot table name \<and> rule \<in> set (chain_rules snapshot table name) \<and>
        \<not> rule_clean c desired rule)"

lemma rule_targets_Cons: "rule_targets m es \<subseteq> rule_targets m (x # es)"
  by (auto simp: rule_targets_def)

lemma scan_jumps_Inl:
  "scan_jumps scan m es V = Some (Inl e) \<Longrightarrow> \<exists>chain U. nch_name chain \<in> rule_targets m es \<and> scan chain U = Some (Inl e)"
proof (induction es arbitrary: V)
  case (Cons x es)
  have later: ?case if "scan_jumps scan m es U = Some (Inl e)" for U
    using Cons.IH [OF that] rule_targets_Cons [of m es x] by blast
  show ?case
  proof (cases "Option.bind (jump_target (expression_data x)) (map_of m)")
    case None
    with Cons.prems later show ?thesis by simp
  next
    case (Some chain)
    then have mem: "nch_name chain \<in> rule_targets m (x # es)" by (auto simp: rule_targets_def)
    from Some Cons.prems consider "scan chain V = Some (Inl e)"
      | U where "scan_jumps scan m es U = Some (Inl e)" by (auto split: option.splits sum.splits)
    then show ?thesis using mem later by cases blast+
  qed
qed simp

lemma scan_rules_Inl:
  "scan_rules c scan m d name index rules V = Some (Inl e) \<Longrightarrow>
     \<exists>rule \<in> set rules. \<not> rule_clean c d rule \<or>
       (\<exists>chain U. nch_name chain \<in> rule_targets m (nr_expressions rule) \<and> scan chain U = Some (Inl e))"
proof (induction rules arbitrary: index V)
  case (Cons rule rules)
  show ?case
  proof (cases "rule_clean c d rule")
    case True
    have "rule_conflict name index existing (pl_redirects d) = Inr ()"
      if "direct_udp_redirect_range c (nr_expressions rule) = Some existing" for existing
      using True that by (simp add: rule_clean_def rule_conflict_Inr)
    then have "(case direct_udp_redirect_range c (nr_expressions rule) of None \<Rightarrow> Inr ()
        | Some existing \<Rightarrow> rule_conflict name index existing (pl_redirects d)) = Inr ()"
      by (cases "direct_udp_redirect_range c (nr_expressions rule)") simp_all
    with Cons.prems consider "scan_jumps scan m (nr_expressions rule) V = Some (Inl e)"
      | U where "scan_rules c scan m d name (Suc index) rules U = Some (Inl e)"
      by (auto split: option.splits sum.splits)
    then show ?thesis
    proof cases
      case 1
      from scan_jumps_Inl [OF 1] show ?thesis by auto
    next
      case 2
      from Cons.IH [OF 2] show ?thesis by auto
    qed
  qed auto
qed simp

lemma scan_external_chain_Inl:
  "scan_external_chain c snapshot table (table_chains snapshot table) desired fuel chain V = Some (Inl e) \<Longrightarrow>
   traversed c snapshot table (nch_name chain) \<Longrightarrow> conflicting c snapshot desired table"
proof (induction fuel arbitrary: chain V)
  case (Suc fuel)
  from Suc.prems(1) have "scan_rules c (scan_external_chain c snapshot table (table_chains snapshot table) desired fuel)
      (table_chains snapshot table) desired (nch_name chain) 0 (chain_rules snapshot table (nch_name chain))
      (insert (nch_name chain) V) = Some (Inl e)"
    by (auto split: if_splits)
  from scan_rules_Inl [OF this] show ?case
    using Suc.IH traversed.jump [OF Suc.prems(2)] Suc.prems(2) unfolding conflicting_def by blast
qed simp

lemma scan_bases_Inl:
  "scan_bases scan bases V = Some (Inl e) \<Longrightarrow> \<exists>chain \<in> set bases. \<exists>U. scan chain U = Some (Inl e)"
  by (induction bases arbitrary: V) (auto split: option.splits sum.splits)

lemma scan_table_Inl:
  assumes "scan_table c snapshot desired table = Some (Inl e)"
  shows "conflicting c snapshot desired table"
proof -
  from assms obtain chain U where chain: "chain \<in> set (sort_key nch_name (filter (is_base_chain c) (map snd (table_chains snapshot table))))"
    and scan: "scan_external_chain c snapshot table (table_chains snapshot table) desired
      (Suc (length (table_chains snapshot table))) chain U = Some (Inl e)"
    unfolding scan_table_def Let_def by (auto dest: scan_bases_Inl)
  from chain obtain name where "(name, chain) \<in> set (table_chains snapshot table)" "is_base_chain c chain" by auto
  from scan_external_chain_Inl [OF scan traversed.base [OF this]] show ?thesis .
qed

lemma scan_table_iff: "(\<exists>V. scan_table c snapshot desired table = Some (Inr V)) \<longleftrightarrow> \<not> conflicting c snapshot desired table"
proof (cases "scan_table c snapshot desired table")
  case None
  then show ?thesis using scan_table_total by blast
next
  case (Some r)
  then show ?thesis
    using scan_table_Inl [of c snapshot desired table] scan_table_sound [of c snapshot desired table]
    by (cases r) (auto simp: conflicting_def)
qed

lemma scan_tables_iff:
  "scan_tables c snapshot desired tables = Inr () \<longleftrightarrow> (\<forall>table \<in> set tables. \<not> conflicting c snapshot desired table)"
proof (induction tables)
  case (Cons table tables)
  have "scan_tables c snapshot desired (table # tables) = Inr () \<longleftrightarrow>
      (\<exists>V. scan_table c snapshot desired table = Some (Inr V)) \<and> scan_tables c snapshot desired tables = Inr ()"
    by (auto split: option.splits sum.splits)
  with Cons scan_table_iff show ?case by simp
qed simp

text \<open>A plan passes the check exactly when no rule of another table, in a NAT chain reached from the
  prerouting hook, has a recognised range that overlaps the plan; the recursive scan always ends.\<close>

lemma reject_external_conflicts_iff:
  "reject_external_conflicts c snapshot managed_table desired = Inr () \<longleftrightarrow>
     \<not> (\<exists>table name rule existing redirect port.
          table \<in> set (ks_tables snapshot) \<and> nt_name table \<noteq> managed_table \<and>
          traversed c snapshot table name \<and> rule \<in> set (chain_rules snapshot table name) \<and>
          direct_udp_redirect_range c (nr_expressions rule) = Some existing \<and>
          redirect \<in> set (pl_redirects desired) \<and> port \<in> ports (rd_ports redirect) \<and> port \<in> range_ports existing)"
  unfolding reject_external_conflicts_def scan_tables_iff
  by (auto simp: conflicting_def rule_clean_def) blast

end
