(* ===== verification/Nft_Backend.thy ===== *)
theory Nft_Backend
  imports Nft_Conflicts
begin

text \<open>
  The transaction of \<open>porthopping/backend_linux.rs\<close>: inspection of a kernel snapshot, the batch that
  replaces the managed tables, and \<open>Backend::apply\<close> with its verification after a failed
  acknowledgement and its fallback from one \<open>inet\<close> table to an \<open>ip\<close> and an \<open>ip6\<close> table. The kernel is a
  parameter: a state with the three operations of a connection.
\<close>

section \<open>Errors of the kernel\<close>

record io_error =
  io_errno :: "int option"
  io_text :: string

definition is_capability_errno :: "io_error \<Rightarrow> bool" where
  "is_capability_errno error \<longleftrightarrow>
     (case io_errno error of None \<Rightarrow> False | Some code \<Rightarrow> code \<in> {95, 97, 93, 38, 2, 19})"

definition is_permission_errno :: "io_error \<Rightarrow> bool" where
  "is_permission_errno error \<longleftrightarrow> (case io_errno error of None \<Rightarrow> False | Some code \<Rightarrow> code \<in> {1, 13})"

definition boxed_io :: "io_error \<Rightarrow> box_error" where
  "boxed_io error = OtherError (io_text error) None"

definition wrap_io :: "string \<Rightarrow> io_error \<Rightarrow> box_error" where
  "wrap_io message error = operation_wrap message (boxed_io error)"

definition capability_error :: "FamilyMode \<Rightarrow> io_error \<Rightarrow> box_error" where
  "capability_error mode source =
     CapabilityError ''linux'' ''nftables UDP destination-port redirect''
       (''kernel rejected the '' @ show_mode mode @ '' NAT representation: '' @ io_text source @
        ''; enable nf_tables, nft_nat and nft_redir support or use a supported kernel'')
       (Some (boxed_io source))"

section \<open>Inspection\<close>

record InspectedState =
  is_raw :: KernelSnapshot
  is_tables :: "TableState list"
  is_exists :: bool
  is_mode :: FamilyMode
  is_complete :: bool
  is_digest :: string
  is_rule_count :: nat

definition family_unavailable :: "InspectedState \<Rightarrow> Family \<Rightarrow> bool" where
  "family_unavailable state family \<longleftrightarrow> family \<in> dom (ks_unavailable (is_raw state))"

definition unavailable_for :: "InspectedState \<Rightarrow> FamilyMode \<Rightarrow> bool" where
  "unavailable_for state mode \<longleftrightarrow>
     list_ex (family_unavailable state) (if mode = ModeUnknown then families_all else families mode)"

definition matches :: "InspectedState \<Rightarrow> FamilyMode \<Rightarrow> string \<Rightarrow> nat \<Rightarrow> bool" where
  "matches state mode digest rules \<longleftrightarrow>
     (if rules = 0 then \<not> is_exists state
      else is_exists state \<and> is_complete state \<and> is_mode state = mode \<and> is_digest state = digest \<and>
        is_rule_count state = rules)"

definition is_managed_chain :: "nft_codec \<Rightarrow> ChainState \<Rightarrow> bool" where
  "is_managed_chain c chain \<longleftrightarrow>
     nch_name chain = CHAIN_NAME \<and> nch_type chain = Some ''nat'' \<and> nch_hook chain = Some (nc_prerouting c) \<and>
     nch_priority chain = Some NF_IP_PRI_NAT_DST \<and> nch_policy chain = Some NF_ACCEPT"

text \<open>The loop over the rules of a managed table: the digest of the first marker, and the redirects
  gathered by node in a \<open>BTreeMap\<close>.\<close>

definition gather :: "RuleMarker \<Rightarrow> (string \<times> Redirect) list \<Rightarrow> Redirect" where
  "gather marker redirects =
     (case map_of redirects (rm_node_id marker) of
        Some redirect \<Rightarrow> redirect
      | None \<Rightarrow> \<lparr> rd_node_id = rm_node_id marker, rd_listen_port = rm_listen_port marker, rd_ports = [] \<rparr>)"

fun owned_loop :: "nft_codec \<Rightarrow> string \<Rightarrow> bytes \<Rightarrow> RuleState list \<Rightarrow> string option \<Rightarrow> (string \<times> Redirect) list \<Rightarrow>
    box_error + (string option \<times> (string \<times> Redirect) list)" where
  "owned_loop c table_label owner [] digest redirects = Inr (digest, redirects)"
| "owned_loop c table_label owner (rule # rules) digest redirects =
     rbind (rmap_err (\<lambda>error. boxed_operation (''nftables table '' @ table_label @
         '' is not owned by this node-agent: '' @ error)) (decode_rule_marker (nr_user_data rule))) (\<lambda>marker.
     if rm_owner marker \<noteq> owner then
       Inl (boxed_operation (''nftables table '' @ table_label @ '' is not owned by this node-agent''))
     else if digest \<noteq> None \<and> digest \<noteq> Some (rm_digest marker) then
       Inl (boxed_operation (''nftables table '' @ table_label @ '' contains inconsistent ownership markers''))
     else if managed_redirect_rule c (nr_expressions rule) \<noteq> Some (rm_ports marker, rm_listen_port marker) then
       Inl (boxed_operation (''nftables table '' @ table_label @
         '' contains a managed rule that does not match its ownership metadata''))
     else
       let redirect = gather marker redirects in
       if rd_listen_port redirect \<noteq> rm_listen_port marker then
         Inl (boxed_operation (''nftables table '' @ table_label @ '' contains inconsistent listen ports for node '' @
           rm_node_id marker))
       else
         owned_loop c table_label owner rules (Some (rm_digest marker))
           (bt_insert (rm_node_id marker) (redirect\<lparr> rd_ports := rd_ports redirect @ [rm_ports marker] \<rparr>) redirects))"

definition owned_plan :: "(string \<times> Redirect) list \<Rightarrow> Plan" where
  "owned_plan redirects =
     \<lparr> pl_redirects = map (\<lambda>(_, redirect). redirect\<lparr> rd_ports := sort (rd_ports redirect) \<rparr>) redirects \<rparr>"

definition inspect_owned_rules :: "(bytes \<Rightarrow> bytes) \<Rightarrow> nft_codec \<Rightarrow> string \<Rightarrow> bytes \<Rightarrow> RuleState list \<Rightarrow> box_error + string" where
  "inspect_owned_rules sha256 c table_label owner rules =
     rbind (owned_loop c table_label owner rules None []) (\<lambda>(digest, redirects).
     let digest' = (case digest of None \<Rightarrow> [] | Some d \<Rightarrow> d) in
     if plan_digest sha256 (owned_plan redirects) \<noteq> digest' then
       Inl (boxed_operation (''nftables table '' @ table_label @ '' ownership metadata does not match its plan digest''))
     else Inr digest')"

definition foreign_container :: "bytes \<Rightarrow> ContainerMarker option \<Rightarrow> bool" where
  "foreign_container owner marker = (case marker of None \<Rightarrow> False | Some m \<Rightarrow> cm_owner m \<noteq> owner)"

definition stale_container :: "string \<Rightarrow> ContainerMarker option \<Rightarrow> bool" where
  "stale_container digest marker = (case marker of None \<Rightarrow> False | Some m \<Rightarrow> cm_digest m \<noteq> digest)"

definition managed_rules :: "string \<Rightarrow> TableState \<Rightarrow> KernelSnapshot \<Rightarrow> RuleState list" where
  "managed_rules table_name table raw =
     filter (\<lambda>rule. nr_family rule = nt_family table \<and> nr_table rule = table_name \<and> nr_chain rule = CHAIN_NAME) (ks_rules raw)"

definition managed_chains :: "string \<Rightarrow> TableState \<Rightarrow> KernelSnapshot \<Rightarrow> ChainState list" where
  "managed_chains table_name table raw =
     filter (\<lambda>chain. nch_family chain = nt_family table \<and> nch_table chain = table_name) (ks_chains raw)"

definition inspect_managed_table :: "(bytes \<Rightarrow> bytes) \<Rightarrow> nft_codec \<Rightarrow> string \<Rightarrow> bytes \<Rightarrow> TableState \<Rightarrow> KernelSnapshot \<Rightarrow>
    box_error + string \<times> nat" where
  "inspect_managed_table sha256 c table_name owner table raw =
     (let label = show_family (nt_family table) @ ''/'' @ table_name;
          not_owned = (\<lambda>why. boxed_operation (''nftables table '' @ label @ '' is not owned by this node-agent'' @ why));
          not_managed = (\<lambda>why. boxed_operation (''nftables table '' @ label @ '' is not owned by node-agent: '' @ why)) in
      rbind (rmap_err (\<lambda>error. not_owned ('': '' @ error))
        (decode_optional_container_marker (nt_user_data table) TABLE_MARKER_MAGIC)) (\<lambda>table_marker.
      if foreign_container owner table_marker then Inl (not_owned [])
      else (case managed_chains table_name table raw of
        [chain] \<Rightarrow>
          if nch_name chain \<noteq> CHAIN_NAME then Inl (not_managed (''unexpected chain '' @ nch_name chain))
          else if \<not> is_managed_chain c chain then Inl (not_managed ''managed chain shape is invalid'')
          else rbind (rmap_err (\<lambda>error. not_owned ('': '' @ error))
            (decode_optional_container_marker (nch_user_data chain) CHAIN_MARKER_MAGIC)) (\<lambda>chain_marker.
          if foreign_container owner chain_marker then Inl (not_owned [])
          else
            let rules = managed_rules table_name table raw in
            if rules = [] then Inl (not_managed ''ownership marker is missing'')
            else rbind (inspect_owned_rules sha256 c label owner rules) (\<lambda>digest.
            if stale_container digest table_marker \<or> stale_container digest chain_marker then
              Inl (boxed_operation (''nftables table '' @ label @
                '' ownership metadata contains an inconsistent container marker''))
            else Inr (digest, length rules)))
      | found \<Rightarrow> Inl (not_managed (''expected one managed chain, found '' @ show_nat (length found))))))"

text \<open>The tables with the managed name, at most one per family.\<close>

fun named_tables :: "string \<Rightarrow> KernelSnapshot \<Rightarrow> Family list \<Rightarrow> box_error + TableState list" where
  "named_tables table_name raw [] = Inr []"
| "named_tables table_name raw (family # rest) =
     (case filter (\<lambda>table. nt_family table = family \<and> nt_name table = table_name) (ks_tables raw) of
        [] \<Rightarrow> named_tables table_name raw rest
      | [first] \<Rightarrow> rbind (named_tables table_name raw rest) (\<lambda>tables. Inr (first # tables))
      | _ \<Rightarrow> Inl (boxed_operation (''nftables table '' @ table_name @ '' is ambiguous: duplicate '' @
               show_family family @ '' tables'')))"

fun inspect_tables :: "(TableState \<Rightarrow> box_error + string \<times> nat) \<Rightarrow> TableState list \<Rightarrow> (string \<times> nat) option \<Rightarrow> bool \<Rightarrow>
    box_error + (string \<times> nat) option \<times> bool" where
  "inspect_tables inspect_one [] found consistent = Inr (found, consistent)"
| "inspect_tables inspect_one (table # tables) found consistent =
     rbind (inspect_one table) (\<lambda>one.
     case found of
       None \<Rightarrow> inspect_tables inspect_one tables (Some one) consistent
     | Some expected \<Rightarrow> inspect_tables inspect_one tables found (consistent \<and> expected = one))"

definition inspected_mode :: "TableState list \<Rightarrow> bool \<Rightarrow> FamilyMode \<times> bool" where
  "inspected_mode tables consistent =
     (let has = (\<lambda>family. list_ex (\<lambda>table. nt_family table = family) tables) in
      if has Inet \<and> \<not> has Ipv4 \<and> \<not> has Ipv6 then (ModeInet, consistent)
      else if \<not> has Inet \<and> has Ipv4 \<and> has Ipv6 then (ModeSplit, consistent)
      else if \<not> has Inet \<and> (has Ipv4 \<or> has Ipv6) then (ModeSplit, False)
      else (ModeUnknown, False))"

definition inspect_snapshot :: "(bytes \<Rightarrow> bytes) \<Rightarrow> nft_codec \<Rightarrow> string \<Rightarrow> bytes \<Rightarrow> KernelSnapshot \<Rightarrow> box_error + InspectedState" where
  "inspect_snapshot sha256 c table_name owner raw =
     rbind (named_tables table_name raw families_all) (\<lambda>tables.
     if tables = [] then
       Inr \<lparr> is_raw = raw, is_tables = [], is_exists = False, is_mode = ModeUnknown, is_complete = False,
             is_digest = [], is_rule_count = 0 \<rparr>
     else
       rbind (inspect_tables (\<lambda>table. inspect_managed_table sha256 c table_name owner table raw) tables None True)
         (\<lambda>(found, consistent).
       let (mode, complete) = inspected_mode tables consistent;
           (digest, found_rules) = (case found of Some one \<Rightarrow> if consistent then one else ([], 0) | None \<Rightarrow> ([], 0)) in
       Inr \<lparr> is_raw = raw, is_tables = tables, is_exists = True, is_mode = mode, is_complete = complete,
             is_digest = digest, is_rule_count = found_rules \<rparr>))"

section \<open>The batch\<close>

record DeleteTable =
  dt_family :: Family
  dt_name :: string
  dt_handle :: u64

record DesiredRule =
  dr_expressions :: "ListAttribute list"
  dr_marker :: bytes

record DesiredTable =
  ds_family :: Family
  ds_name :: string
  ds_table_marker :: bytes
  ds_chain_marker :: bytes
  ds_rules :: "DesiredRule list"

record Batch =
  ba_delete :: "DeleteTable list"
  ba_create :: "DesiredTable list"

fun rmap_list :: "('a \<Rightarrow> 'e + 'b) \<Rightarrow> 'a list \<Rightarrow> 'e + 'b list" where
  "rmap_list f [] = Inr []"
| "rmap_list f (x # xs) = rbind (f x) (\<lambda>y. rbind (rmap_list f xs) (\<lambda>ys. Inr (y # ys)))"

definition desired_rules :: "nft_codec \<Rightarrow> bytes \<Rightarrow> string \<Rightarrow> Plan \<Rightarrow> box_error + DesiredRule list" where
  "desired_rules c owner digest desired =
     rmap_list (\<lambda>(redirect, r).
         rbind (encode_rule_marker owner digest redirect r) (\<lambda>marker.
         Inr \<lparr> dr_expressions = redirect_expressions c r (rd_listen_port redirect), dr_marker = marker \<rparr>))
       [(redirect, r). redirect \<leftarrow> pl_redirects desired, r \<leftarrow> rd_ports redirect]"

definition build_batch :: "nft_codec \<Rightarrow> string \<Rightarrow> bytes \<Rightarrow> InspectedState \<Rightarrow> Plan \<Rightarrow> string \<Rightarrow> FamilyMode \<Rightarrow> box_error + Batch" where
  "build_batch c table_name owner current desired digest mode =
     (let delete = map (\<lambda>table. \<lparr> dt_family = nt_family table, dt_name = nt_name table, dt_handle = nt_handle table \<rparr>)
            (is_tables current) in
      if plan_is_empty desired then Inr \<lparr> ba_delete = delete, ba_create = [] \<rparr>
      else if families mode = [] then
        Inl (boxed_operation (''select nftables family for port hopping: mode is '' @ show_mode mode))
      else
        rbind (encode_container_marker TABLE_MARKER_MAGIC owner digest) (\<lambda>table_marker.
        rbind (encode_container_marker CHAIN_MARKER_MAGIC owner digest) (\<lambda>chain_marker.
        rbind (rmap_list (\<lambda>family.
            rbind (desired_rules c owner digest desired) (\<lambda>rules.
            Inr \<lparr> ds_family = family, ds_name = table_name, ds_table_marker = table_marker,
                  ds_chain_marker = chain_marker, ds_rules = rules \<rparr>)) (families mode)) (\<lambda>create.
        Inr \<lparr> ba_delete = delete, ba_create = create \<rparr>))))"

section \<open>The backend\<close>

record 'k nft_kernel =
  kn_open :: "'k \<Rightarrow> 'k \<times> (io_error + unit)"
  kn_snapshot :: "'k \<Rightarrow> 'k \<times> (io_error + KernelSnapshot)"
  kn_execute :: "Batch \<Rightarrow> 'k \<Rightarrow> 'k \<times> (io_error + unit)"

record NftBackend =
  nb_table_name :: string
  nb_owner :: bytes
  nb_managed :: bool
  nb_mode :: FamilyMode

definition nft_new :: "(bytes \<Rightarrow> bytes) \<Rightarrow> string \<Rightarrow> NftBackend" where
  "nft_new sha256 machine_id =
     \<lparr> nb_table_name = TABLE_PREFIX @ lower_hex (owner_hash sha256 machine_id), nb_owner = owner_hash sha256 machine_id,
       nb_managed = False, nb_mode = ModeUnknown \<rparr>"

definition inspect :: "(bytes \<Rightarrow> bytes) \<Rightarrow> nft_codec \<Rightarrow> NftBackend \<Rightarrow> KernelSnapshot \<Rightarrow> box_error + InspectedState" where
  "inspect sha256 c backend raw = inspect_snapshot sha256 c (nb_table_name backend) (nb_owner backend) raw"

definition inspect_fresh :: "(bytes \<Rightarrow> bytes) \<Rightarrow> nft_codec \<Rightarrow> 'k nft_kernel \<Rightarrow> NftBackend \<Rightarrow> 'k \<Rightarrow>
    'k \<times> (box_error + InspectedState)" where
  "inspect_fresh sha256 c kern backend k =
     (case kn_open kern k of
        (k, Inl error) \<Rightarrow> (k, Inl (wrap_io ''open nftables netlink connection for verification'' error))
      | (k, Inr _) \<Rightarrow>
          (case kn_snapshot kern k of
             (k, Inl error) \<Rightarrow> (k, Inl (wrap_io ''inspect nftables state for verification'' error))
           | (k, Inr raw) \<Rightarrow> (k, inspect sha256 c backend raw)))"

definition select_mode :: "NftBackend \<Rightarrow> InspectedState \<Rightarrow> FamilyMode" where
  "select_mode backend current =
     (if is_complete current then is_mode current
      else if nb_mode backend \<noteq> ModeUnknown then nb_mode backend
      else if is_mode current \<noteq> ModeUnknown then is_mode current
      else if \<not> is_exists current \<and> family_unavailable current Inet then ModeSplit
      else ModeInet)"

datatype ApplyStateError =
    ApplyCertain box_error
  | ApplyUnsupported FamilyMode io_error
  | ApplyUncertain box_error

definition installed :: "Plan \<Rightarrow> FamilyMode \<Rightarrow> NftBackend \<Rightarrow> NftBackend" where
  "installed desired mode backend =
     (let backend = backend\<lparr> nb_managed := \<not> plan_is_empty desired \<rparr> in
      if plan_is_empty desired then backend else backend\<lparr> nb_mode := mode \<rparr>)"

definition apply_state :: "(bytes \<Rightarrow> bytes) \<Rightarrow> nft_codec \<Rightarrow> 'k nft_kernel \<Rightarrow> InspectedState \<Rightarrow> Plan \<Rightarrow> string \<Rightarrow> FamilyMode \<Rightarrow>
    NftBackend \<times> 'k \<Rightarrow> (NftBackend \<times> 'k) \<times> (ApplyStateError + unit)" where
  "apply_state sha256 c kern current desired digest mode s =
     (case s of (backend, k) \<Rightarrow>
      case build_batch c (nb_table_name backend) (nb_owner backend) current desired digest mode of
        Inl error \<Rightarrow> (s, Inl (ApplyCertain error))
      | Inr batch \<Rightarrow>
          let backend = backend\<lparr> nb_managed := is_exists current \<or> \<not> plan_is_empty desired \<rparr> in
          case kn_execute kern batch k of
            (k, Inr _) \<Rightarrow> ((installed desired mode backend, k), Inr ())
          | (k, Inl submit_error) \<Rightarrow>
              (case inspect_fresh sha256 c kern backend k of
                 (k, verification) \<Rightarrow>
                   if (case verification of Inr fresh \<Rightarrow> matches fresh mode digest (rule_count desired) | Inl _ \<Rightarrow> False) then
                     ((installed desired mode backend, k), Inr ())
                   else if \<not> is_exists current \<and> is_capability_errno submit_error \<and>
                       (case verification of Inr fresh \<Rightarrow> \<not> is_exists fresh | Inl _ \<Rightarrow> False) then
                     ((backend\<lparr> nb_managed := False \<rparr>, k), Inl (ApplyUnsupported mode submit_error))
                   else
                     ((backend, k), Inl (ApplyUncertain (StateUncertainError (Some (operation_message
                       (''apply nftables port hopping state: '' @ io_text submit_error @
                        (case verification of
                           Inl verify_error \<Rightarrow> ''; verify state after failed acknowledgement: '' @ display_error verify_error
                         | Inr _ \<Rightarrow> [])))))))))"

fun apply_result :: "ApplyStateError + unit \<Rightarrow> box_error + unit" where
  "apply_result (Inr u) = Inr ()"
| "apply_result (Inl (ApplyUnsupported mode source)) = Inl (capability_error mode source)"
| "apply_result (Inl (ApplyCertain error)) = Inl error"
| "apply_result (Inl (ApplyUncertain error)) = Inl error"

definition retry_split :: "(bytes \<Rightarrow> bytes) \<Rightarrow> nft_codec \<Rightarrow> 'k nft_kernel \<Rightarrow> Plan \<Rightarrow> string \<Rightarrow> io_error \<Rightarrow>
    NftBackend \<times> 'k \<Rightarrow> (NftBackend \<times> 'k) \<times> (box_error + unit)" where
  "retry_split sha256 c kern desired digest inet_error s =
     (let prefix = ''apply nftables inet port hopping state: '' @ io_text inet_error in
      case s of (backend, k) \<Rightarrow>
      case kn_open kern k of
        (k, Inl error) \<Rightarrow> ((backend, k), Inl (boxed_operation (prefix @ ''; reopen before ip+ip6 fallback: '' @ io_text error)))
      | (k, Inr _) \<Rightarrow>
          (case kn_snapshot kern k of
             (k, Inl error) \<Rightarrow>
               ((backend, k), Inl (boxed_operation (prefix @ ''; inspect before ip+ip6 fallback: '' @ io_text error)))
           | (k, Inr raw) \<Rightarrow>
               (case inspect sha256 c backend raw of
                  Inl error \<Rightarrow> ((backend, k), Inl error)
                | Inr current \<Rightarrow>
                    if matches current ModeInet digest (rule_count desired) then
                      ((backend\<lparr> nb_managed := True, nb_mode := ModeInet \<rparr>, k), Inr ())
                    else if is_exists current then
                      ((backend, k), Inl (boxed_operation (prefix @
                        ''; cannot safely retry with ip+ip6 because nftables state changed after the rejected inet batch'')))
                    else
                      (case reject_external_conflicts c (is_raw current) (nb_table_name backend) desired of
                         Inl error \<Rightarrow> ((backend, k), Inl error)
                       | Inr _ \<Rightarrow>
                           (case apply_state sha256 c kern current desired digest ModeSplit (backend, k) of
                              (s, r) \<Rightarrow> (s, apply_result r))))))"

text \<open>What the call learns from the inspected state, and the rest of the call after it.\<close>

definition adopt :: "InspectedState \<Rightarrow> NftBackend \<Rightarrow> NftBackend" where
  "adopt current backend =
     (let backend = (if is_exists current then backend\<lparr> nb_managed := True \<rparr> else backend) in
      if is_complete current then backend\<lparr> nb_mode := is_mode current \<rparr> else backend)"

definition check_conflicts :: "nft_codec \<Rightarrow> NftBackend \<Rightarrow> InspectedState \<Rightarrow> Plan \<Rightarrow> box_error + unit" where
  "check_conflicts c backend current desired =
     (if plan_is_empty desired then Inr ()
      else reject_external_conflicts c (is_raw current) (nb_table_name backend) desired)"

definition apply_inspected :: "(bytes \<Rightarrow> bytes) \<Rightarrow> nft_codec \<Rightarrow> 'k nft_kernel \<Rightarrow> InspectedState \<Rightarrow> (NftBackend \<times> 'k) backend_apply" where
  "apply_inspected sha256 c kern current s desired =
     (case s of (backend, k) \<Rightarrow>
      if plan_is_empty desired \<and> nb_managed backend \<and> unavailable_for current (nb_mode backend) then
        (s, Inl (boxed_operation (''cannot verify cleanup of previously managed nftables '' @
          show_mode (nb_mode backend) @ '' state because its kernel family is unavailable'')))
      else
        case check_conflicts c backend current desired of
          Inl error \<Rightarrow> (s, Inl error)
        | Inr _ \<Rightarrow>
            let digest = plan_digest sha256 desired; mode = select_mode backend current in
            if matches current mode digest (rule_count desired) then (s, Inr ())
            else if plan_is_empty desired \<and> \<not> is_exists current then
              ((backend\<lparr> nb_managed := False \<rparr>, k), Inr ())
            else
              let can_fallback = (\<not> is_exists current \<and> nb_mode backend = ModeUnknown \<and> mode = ModeInet) in
              (case apply_state sha256 c kern current desired digest mode s of
                 (s, Inl (ApplyUnsupported mode' source)) \<Rightarrow>
                   if can_fallback then retry_split sha256 c kern desired digest source s
                   else (s, Inl (capability_error mode' source))
               | (s, r) \<Rightarrow> (s, apply_result r)))"

definition nft_apply :: "(bytes \<Rightarrow> bytes) \<Rightarrow> nft_codec \<Rightarrow> 'k nft_kernel \<Rightarrow> (NftBackend \<times> 'k) backend_apply" where
  "nft_apply sha256 c kern s desired =
     (case s of (backend, k) \<Rightarrow>
      case kn_open kern k of
        (k, Inl error) \<Rightarrow>
          ((backend, k),
           if plan_is_empty desired \<and> \<not> nb_managed backend \<and> (is_permission_errno error \<or> is_capability_errno error) then Inr ()
           else if is_capability_errno error then Inl (capability_error (nb_mode backend) error)
           else Inl (wrap_io ''open nftables netlink connection'' error))
      | (k, Inr _) \<Rightarrow>
          (case kn_snapshot kern k of
             (k, Inl error) \<Rightarrow>
               ((backend, k),
                if plan_is_empty desired \<and> \<not> nb_managed backend \<and> is_permission_errno error then Inr ()
                else Inl (wrap_io ''inspect nftables state'' error))
           | (k, Inr raw) \<Rightarrow>
               (case inspect sha256 c backend raw of
                  Inl error \<Rightarrow> ((backend, k), Inl error)
                | Inr current \<Rightarrow> apply_inspected sha256 c kern current (adopt current backend, k) desired)))"

end
