(* ===== verification/Nft_Transaction.thy ===== *)
theory Nft_Transaction
  imports Nft_Backend
begin

text \<open>
  What the nftables backend guarantees. A kernel is described by the snapshot it would dump
  (\<open>view\<close>) and by the effect of an accepted batch (\<open>commit\<close>); \<open>kernel_contract\<close> states that a batch is
  atomic, that its acknowledgement may be lost, and that reading changes nothing. Against it an
  applied plan is exactly what the managed tables redirect, an ordinary error changes nothing, the
  objects of other tables are never touched, and the tables the backend creates are the ones its
  inspection accepts.
\<close>

section \<open>The kernel\<close>

definition created_table :: "(Family \<Rightarrow> u64) \<Rightarrow> DesiredTable \<Rightarrow> TableState" where
  "created_table handle d =
     \<lparr> nt_family = ds_family d, nt_name = ds_name d, nt_handle = handle (ds_family d), nt_user_data = ds_table_marker d \<rparr>"

definition created_chain :: "nft_codec \<Rightarrow> DesiredTable \<Rightarrow> ChainState" where
  "created_chain c d =
     \<lparr> nch_family = ds_family d, nch_table = ds_name d, nch_name = CHAIN_NAME, nch_type = Some ''nat'',
       nch_hook = Some (nc_prerouting c), nch_priority = Some NF_IP_PRI_NAT_DST, nch_policy = Some NF_ACCEPT,
       nch_user_data = ds_chain_marker d \<rparr>"

definition created_rules :: "DesiredTable \<Rightarrow> RuleState list" where
  "created_rules d = map (\<lambda>rule. \<lparr> nr_family = ds_family d, nr_table = ds_name d, nr_chain = CHAIN_NAME,
     nr_expressions = dr_expressions rule, nr_user_data = dr_marker rule \<rparr>) (ds_rules d)"

definition deletes :: "Batch \<Rightarrow> Family \<Rightarrow> string \<Rightarrow> bool" where
  "deletes batch family name \<longleftrightarrow> list_ex (\<lambda>d. dt_family d = family \<and> dt_name d = name) (ba_delete batch)"

text \<open>An accepted batch: the deleted tables go with their chains and rules, the created ones come.\<close>

definition commit :: "nft_codec \<Rightarrow> (Family \<Rightarrow> u64) \<Rightarrow> Batch \<Rightarrow> KernelSnapshot \<Rightarrow> KernelSnapshot" where
  "commit c handle batch v =
     v\<lparr> ks_tables := filter (\<lambda>t. \<not> deletes batch (nt_family t) (nt_name t)) (ks_tables v) @
          map (created_table handle) (ba_create batch),
        ks_chains := filter (\<lambda>ch. \<not> deletes batch (nch_family ch) (nch_table ch)) (ks_chains v) @
          map (created_chain c) (ba_create batch),
        ks_rules := filter (\<lambda>r. \<not> deletes batch (nr_family r) (nr_table r)) (ks_rules v) @
          concat (map created_rules (ba_create batch)) \<rparr>"

definition kernel_contract :: "nft_codec \<Rightarrow> 'k nft_kernel \<Rightarrow> ('k \<Rightarrow> KernelSnapshot) \<Rightarrow> bool" where
  "kernel_contract c kern view \<longleftrightarrow>
     (\<forall>k k' r. kn_open kern k = (k', r) \<longrightarrow> view k' = view k) \<and>
     (\<forall>k k' r. kn_snapshot kern k = (k', r) \<longrightarrow> view k' = view k \<and> (\<forall>raw. r = Inr raw \<longrightarrow> raw = view k)) \<and>
     (\<forall>batch k k' r. kn_execute kern batch k = (k', r) \<longrightarrow>
        (\<exists>handle. view k' = commit c handle batch (view k)) \<or> (\<exists>e. r = Inl e) \<and> view k' = view k)"

text \<open>The chains and rules of a table belong to a table of the snapshot.\<close>

definition view_wf :: "KernelSnapshot \<Rightarrow> bool" where
  "view_wf v \<longleftrightarrow>
     (\<forall>ch \<in> set (ks_chains v). \<exists>t \<in> set (ks_tables v). nt_family t = nch_family ch \<and> nt_name t = nch_table ch) \<and>
     (\<forall>r \<in> set (ks_rules v). \<exists>t \<in> set (ks_tables v). nt_family t = nr_family r \<and> nt_name t = nr_table r)"

section \<open>What the managed tables redirect\<close>

definition plan_redirects :: "Plan \<Rightarrow> (port_range \<times> u16) set" where
  "plan_redirects p = {(r, rd_listen_port redirect) |redirect r. redirect \<in> set (pl_redirects p) \<and> r \<in> set (rd_ports redirect)}"

definition kernel_redirects :: "nft_codec \<Rightarrow> string \<Rightarrow> Family \<Rightarrow> KernelSnapshot \<Rightarrow> (port_range \<times> u16) set" where
  "kernel_redirects c name family v =
     {redirect. \<exists>rule \<in> set (ks_rules v). nr_family rule = family \<and> nr_table rule = name \<and> nr_chain rule = CHAIN_NAME \<and>
        managed_redirect_rule c (nr_expressions rule) = Some redirect}"

definition named_families :: "string \<Rightarrow> KernelSnapshot \<Rightarrow> Family set" where
  "named_families name v = {nt_family t |t. t \<in> set (ks_tables v) \<and> nt_name t = name}"

definition holds_plan :: "nft_codec \<Rightarrow> string \<Rightarrow> KernelSnapshot \<Rightarrow> Plan \<Rightarrow> bool" where
  "holds_plan c name v p \<longleftrightarrow>
     (if plan_is_empty p then named_families name v = {}
      else \<exists>mode. mode \<noteq> ModeUnknown \<and> named_families name v = set (families mode) \<and>
        (\<forall>family \<in> set (families mode). kernel_redirects c name family v = plan_redirects p))"

text \<open>The plans the compiler produces, with node ids that fit a marker.\<close>

definition plan_wf :: "Plan \<Rightarrow> bool" where
  "plan_wf p \<longleftrightarrow> sorted_wrt (\<lambda>a b. rd_node_id a < rd_node_id b) (pl_redirects p) \<and>
     (\<forall>redirect \<in> set (pl_redirects p).
        rd_ports redirect \<noteq> [] \<and> normal (rd_ports redirect) \<and> rd_listen_port redirect \<noteq> 0 \<and>
        rd_node_id redirect \<noteq> [] \<and> length (rd_node_id redirect) \<le> MAX_NODE_ID_BYTES \<and> utf8_valid (rd_node_id redirect))"

section \<open>Facts of an inspection\<close>

lemma families_all_set: "set families_all = UNIV"
  by (auto simp: families_all_def intro: Family.exhaust)

lemma named_tables_set:
  "named_tables name raw fams = Inr ts \<Longrightarrow>
     set ts = {t \<in> set (ks_tables raw). nt_name t = name \<and> nt_family t \<in> set fams}"
proof (induction fams arbitrary: ts)
  case (Cons family fams)
  let ?f = "filter (\<lambda>table. nt_family table = family \<and> nt_name table = name) (ks_tables raw)"
  have f: "set ?f = {t \<in> set (ks_tables raw). nt_name t = name \<and> nt_family t = family}" by auto
  consider "?f = []" | x where "?f = [x]" | x y zs where "?f = x # y # zs" by (metis neq_Nil_conv)
  then show ?case
  proof cases
    case 1
    with Cons f show ?thesis by (auto simp: filter_empty_conv)
  next
    case (2 x)
    with Cons.prems obtain ts' where "named_tables name raw fams = Inr ts'" "ts = x # ts'"
      by (auto simp: rbind_Inr_iff)
    with Cons.IH f 2 show ?thesis by auto
  next
    case 3
    with Cons.prems show ?thesis by simp
  qed
qed simp

lemma inspect_tables_Inr:
  "inspect_tables f ts found consistent = Inr (found', consistent') \<Longrightarrow>
     (consistent' \<longrightarrow> consistent \<and> (\<forall>t \<in> set ts. \<exists>x. f t = Inr x \<and> found' = Some x)) \<and>
     (found \<noteq> None \<longrightarrow> found' = found) \<and> (\<forall>t \<in> set ts. \<exists>x. f t = Inr x) \<and> (ts \<noteq> [] \<longrightarrow> found' \<noteq> None)"
proof (induction ts arbitrary: found consistent)
  case (Cons t ts)
  from Cons.prems obtain one where one: "f t = Inr one" by (auto simp: rbind_Inr_iff)
  show ?case
  proof (cases found)
    case None
    with Cons.prems one have "inspect_tables f ts (Some one) consistent = Inr (found', consistent')" by simp
    from Cons.IH [OF this] one None show ?thesis by auto
  next
    case (Some expected)
    with Cons.prems one have "inspect_tables f ts found (consistent \<and> expected = one) = Inr (found', consistent')" by simp
    from Cons.IH [OF this] one Some show ?thesis by auto
  qed
qed simp

lemma inspect_snapshot_Inr:
  assumes "inspect_snapshot sha256 c name owner raw = Inr st"
  shows "is_raw st = raw" "set (is_tables st) = {t \<in> set (ks_tables raw). nt_name t = name}"
    "is_exists st \<longleftrightarrow> named_families name raw \<noteq> {}"
    "t \<in> set (is_tables st) \<Longrightarrow> \<exists>x. inspect_managed_table sha256 c name owner t raw = Inr x"
    "is_exists st \<Longrightarrow> is_complete st \<Longrightarrow> t \<in> set (is_tables st) \<Longrightarrow>
       inspect_managed_table sha256 c name owner t raw = Inr (is_digest st, is_rule_count st)"
    "is_exists st \<Longrightarrow> is_complete st \<Longrightarrow> is_mode st \<noteq> ModeUnknown \<and> named_families name raw = set (families (is_mode st))"
proof -
  from assms obtain ts where ts: "named_tables name raw families_all = Inr ts"
    by (auto simp: inspect_snapshot_def rbind_Inr_iff)
  have set: "set ts = {t \<in> set (ks_tables raw). nt_name t = name}"
    using named_tables_set [OF ts] by (simp add: families_all_set)
  have nf: "named_families name raw = nt_family ` set ts" by (auto simp: named_families_def set)
  have all: "is_raw st = raw \<and> is_tables st = ts \<and> (is_exists st \<longleftrightarrow> ts \<noteq> []) \<and>
      (\<forall>t \<in> set ts. \<exists>x. inspect_managed_table sha256 c name owner t raw = Inr x) \<and>
      (is_exists st \<and> is_complete st \<longrightarrow>
        (\<forall>t \<in> set ts. inspect_managed_table sha256 c name owner t raw = Inr (is_digest st, is_rule_count st)) \<and>
        is_mode st \<noteq> ModeUnknown \<and> nt_family ` set ts = set (families (is_mode st)))"
  proof (cases "ts = []")
    case True
    with assms ts show ?thesis by (auto simp: inspect_snapshot_def)
  next
    case False
    let ?one = "\<lambda>table. inspect_managed_table sha256 c name owner table raw"
    obtain found consistent where run: "inspect_tables ?one ts None True = Inr (found, consistent)"
      using assms ts False by (cases "inspect_tables ?one ts None True") (auto simp: inspect_snapshot_def)
    note facts = inspect_tables_Inr [OF run]
    obtain mode complete where mode: "inspected_mode ts consistent = (mode, complete)" by fastforce
    have comp: "complete \<longrightarrow> consistent \<and> mode \<noteq> ModeUnknown \<and> nt_family ` set ts = set (families mode)"
      using mode by (auto simp: inspected_mode_def Let_def list_ex_iff image_iff split: if_splits)
         (metis Family.exhaust)+
    obtain one where one: "found = Some one" using facts False by auto
    with assms ts False run mode have st': "st = \<lparr> is_raw = raw, is_tables = ts, is_exists = True, is_mode = mode, is_complete = complete,
             is_digest = fst (if consistent then one else ([], 0)), is_rule_count = snd (if consistent then one else ([], 0)) \<rparr>"
      by (cases one) (auto simp: inspect_snapshot_def Let_def)
    from facts comp one False show ?thesis by (auto simp: st')
  qed
  have ne: "named_families name raw \<noteq> {} \<longleftrightarrow> ts \<noteq> []" by (simp add: nf)
  show "is_raw st = raw" "set (is_tables st) = {t \<in> set (ks_tables raw). nt_name t = name}"
    "is_exists st \<longleftrightarrow> named_families name raw \<noteq> {}" using all by (simp_all only: set ne)
  show "t \<in> set (is_tables st) \<Longrightarrow> \<exists>x. inspect_managed_table sha256 c name owner t raw = Inr x"
    "is_exists st \<Longrightarrow> is_complete st \<Longrightarrow> t \<in> set (is_tables st) \<Longrightarrow>
       inspect_managed_table sha256 c name owner t raw = Inr (is_digest st, is_rule_count st)"
    "is_exists st \<Longrightarrow> is_complete st \<Longrightarrow> is_mode st \<noteq> ModeUnknown \<and> named_families name raw = set (families (is_mode st))"
    using all by (simp_all only: nf) blast+
qed

section \<open>Rules of an inspected table\<close>

text \<open>The redirects a \<open>BTreeMap\<close> of gathered markers stands for.\<close>

definition redirect_set :: "Redirect \<Rightarrow> (port_range \<times> u16) set" where
  "redirect_set redirect = (\<lambda>r. (r, rd_listen_port redirect)) ` set (rd_ports redirect)"

definition gathered :: "(string \<times> Redirect) list \<Rightarrow> (port_range \<times> u16) set" where
  "gathered m = \<Union> (redirect_set ` ran (map_of m))"

lemma plan_redirects_UN: "plan_redirects p = \<Union> (redirect_set ` set (pl_redirects p))"
  by (auto simp: plan_redirects_def redirect_set_def)

lemma ran_upd: "ran (f(k \<mapsto> v)) = insert v (ran (f |` (- {k})))"
  by (auto simp: ran_def restrict_map_def)

lemma ran_Some: "f k = Some v \<Longrightarrow> ran f = insert v (ran (f |` (- {k})))"
  using ran_upd [of f k v] by (simp add: map_upd_triv)

lemma gathered_insert:
  assumes "rd_listen_port (gather marker m) = rm_listen_port marker"
  shows "gathered (bt_insert (rm_node_id marker)
      ((gather marker m)\<lparr> rd_ports := rd_ports (gather marker m) @ [rm_ports marker] \<rparr>) m) =
    insert (rm_ports marker, rm_listen_port marker) (gathered m)"
proof -
  let ?g = "gather marker m" and ?k = "rm_node_id marker"
  have new: "redirect_set (?g\<lparr> rd_ports := rd_ports ?g @ [rm_ports marker] \<rparr>) =
      insert (rm_ports marker, rm_listen_port marker) (redirect_set ?g)"
    using assms by (simp add: redirect_set_def)
  show ?thesis
  proof (cases "map_of m ?k")
    case None
    then have "redirect_set ?g = {}" by (simp add: gather_def redirect_set_def)
    with None new show ?thesis by (simp add: gathered_def)
  next
    case (Some redirect)
    then have "?g = redirect" by (simp add: gather_def)
    with new ran_Some [of "map_of m", OF Some] show ?thesis by (simp add: gathered_def ran_upd)
  qed
qed

lemma set_bt_insert_subset: "set (bt_insert k v m) \<subseteq> insert (k, v) (set m)"
  by (induction k v m rule: bt_insert.induct) auto

lemma owned_loop_Inr:
  "owned_loop c label owner rules digest m = Inr (digest', m') \<Longrightarrow> bt_wf m \<Longrightarrow>
     bt_wf m' \<and>
     (\<forall>rule \<in> set rules. \<exists>marker. decode_rule_marker (nr_user_data rule) = Inr marker \<and> rm_owner marker = owner \<and>
        managed_redirect_rule c (nr_expressions rule) = Some (rm_ports marker, rm_listen_port marker)) \<and>
     gathered m' = gathered m \<union> {redirect. \<exists>rule \<in> set rules. managed_redirect_rule c (nr_expressions rule) = Some redirect} \<and>
     (\<forall>redirect \<in> snd ` set m'.
        (\<exists>rule \<in> set rules. \<exists>marker. decode_rule_marker (nr_user_data rule) = Inr marker \<and> rd_node_id redirect = rm_node_id marker) \<or>
        rd_node_id redirect \<in> rd_node_id ` snd ` set m)"
proof (induction rules arbitrary: digest m)
  case (Cons rule rules)
  from Cons.prems(1) obtain marker where dec: "decode_rule_marker (nr_user_data rule) = Inr marker"
    and own: "rm_owner marker = owner"
    and shape: "managed_redirect_rule c (nr_expressions rule) = Some (rm_ports marker, rm_listen_port marker)"
    and listen: "rd_listen_port (gather marker m) = rm_listen_port marker"
    and rest: "owned_loop c label owner rules (Some (rm_digest marker)) (bt_insert (rm_node_id marker)
      ((gather marker m)\<lparr> rd_ports := rd_ports (gather marker m) @ [rm_ports marker] \<rparr>) m) = Inr (digest', m')"
    by (auto simp: rbind_Inr_iff rmap_err_Inr_iff Let_def split: if_splits)
  let ?m = "bt_insert (rm_node_id marker) ((gather marker m)\<lparr> rd_ports := rd_ports (gather marker m) @ [rm_ports marker] \<rparr>) m"
  have ids: "rd_node_id redirect = rm_node_id marker \<or> rd_node_id redirect \<in> rd_node_id ` snd ` set m"
    if "redirect \<in> snd ` set ?m" for redirect
  proof -
    from that have "redirect = (gather marker m)\<lparr> rd_ports := rd_ports (gather marker m) @ [rm_ports marker] \<rparr> \<or> redirect \<in> snd ` set m"
      using set_bt_insert_subset by fastforce
    moreover have "rd_node_id (gather marker m) = rm_node_id marker \<or> rd_node_id (gather marker m) \<in> rd_node_id ` snd ` set m"
      by (force simp: gather_def split: option.splits dest: map_of_SomeD)
    ultimately show ?thesis by (elim disjE) simp_all
  qed
  note ih = Cons.IH [OF rest bt_wf_insert [OF Cons.prems(2)]]
  have "(\<exists>x \<in> set (rule # rules). \<exists>marker. decode_rule_marker (nr_user_data x) = Inr marker \<and> rd_node_id redirect = rm_node_id marker) \<or>
      rd_node_id redirect \<in> rd_node_id ` snd ` set m" if "redirect \<in> snd ` set m'" for redirect
  proof -
    from ih [THEN conjunct2, THEN conjunct2, THEN conjunct2, rule_format, OF that] show ?thesis
    proof (elim disjE)
      assume "rd_node_id redirect \<in> rd_node_id ` snd ` set ?m"
      then obtain other where "other \<in> snd ` set ?m" "rd_node_id redirect = rd_node_id other" by blast
      with ids [of other] dec show ?thesis by auto
    qed auto
  qed
  moreover have "insert (rm_ports marker, rm_listen_port marker) (gathered m \<union> A) = gathered m \<union> insert (rm_ports marker, rm_listen_port marker) A" for A
    by blast
  moreover have "{redirect. \<exists>x \<in> set (rule # rules). managed_redirect_rule c (nr_expressions x) = Some redirect} =
      insert (rm_ports marker, rm_listen_port marker) {redirect. \<exists>x \<in> set rules. managed_redirect_rule c (nr_expressions x) = Some redirect}"
    using shape by auto
  ultimately show ?case using ih gathered_insert [OF listen] dec own shape by simp
qed simp

lemma owned_plan_redirects: "bt_wf m \<Longrightarrow> plan_redirects (owned_plan m) = gathered m"
  by (auto simp: plan_redirects_UN owned_plan_def gathered_def ran_distinct bt_wf_distinct redirect_set_def
      split: prod.splits)

lemma case_single: "(case xs of [] \<Rightarrow> Inl a | [x] \<Rightarrow> f x | x # z # zs \<Rightarrow> Inl (b x z zs)) = Inr y \<longleftrightarrow> (\<exists>x. xs = [x] \<and> f x = Inr y)"
  by (auto split: list.splits)

lemmas accept_simps = rbind_Inr_iff rmap_err_Inr_iff if_Inl_Inr case_single

lemma inspect_managed_table_iff:
  "inspect_managed_table sha256 c name owner t raw = Inr (digest, n) \<longleftrightarrow>
     (\<exists>table_marker chain chain_marker.
        decode_optional_container_marker (nt_user_data t) TABLE_MARKER_MAGIC = Inr table_marker \<and>
        \<not> foreign_container owner table_marker \<and> managed_chains name t raw = [chain] \<and> is_managed_chain c chain \<and>
        decode_optional_container_marker (nch_user_data chain) CHAIN_MARKER_MAGIC = Inr chain_marker \<and>
        \<not> foreign_container owner chain_marker \<and> managed_rules name t raw \<noteq> [] \<and>
        inspect_owned_rules sha256 c (show_family (nt_family t) @ ''/'' @ name) owner (managed_rules name t raw) = Inr digest \<and>
        \<not> stale_container digest table_marker \<and> \<not> stale_container digest chain_marker \<and> n = length (managed_rules name t raw))"
  unfolding inspect_managed_table_def Let_def accept_simps
  by (auto simp: is_managed_chain_def)

lemma inspect_owned_rules_iff:
  "inspect_owned_rules sha256 c label owner rules = Inr digest \<longleftrightarrow>
     (\<exists>d m. owned_loop c label owner rules None [] = Inr (d, m) \<and> digest = (case d of None \<Rightarrow> [] | Some x \<Rightarrow> x) \<and>
        plan_digest sha256 (owned_plan m) = digest)"
  unfolding inspect_owned_rules_def Let_def accept_simps by (auto simp: if_Inl_Inr split: prod.splits)

lemma kernel_redirects_managed:
  "kernel_redirects c name (nt_family t) v =
     {redirect. \<exists>rule \<in> set (managed_rules name t v). managed_redirect_rule c (nr_expressions rule) = Some redirect}"
  by (auto simp: kernel_redirects_def managed_rules_def)

lemma managed_table_redirects:
  assumes "inspect_managed_table sha256 c name owner t raw = Inr (digest, n)"
  obtains p where "plan_digest sha256 p = digest" "plan_redirects p = kernel_redirects c name (nt_family t) raw"
proof -
  from assms obtain d m where loop: "owned_loop c (show_family (nt_family t) @ ''/'' @ name) owner (managed_rules name t raw) None [] = Inr (d, m)"
    and digest: "plan_digest sha256 (owned_plan m) = digest"
    unfolding inspect_managed_table_iff inspect_owned_rules_iff by blast
  from owned_loop_Inr [OF loop] have "bt_wf m" "gathered m = kernel_redirects c name (nt_family t) raw"
    by (simp_all add: kernel_redirects_managed gathered_def)
  with that [OF digest] show thesis by (simp add: owned_plan_redirects)
qed

text \<open>No marker in the kernel names a node with a NUL, and the hash separates the desired plan from the
  others.\<close>

definition markers_nul_free :: "KernelSnapshot \<Rightarrow> bool" where
  "markers_nul_free v \<longleftrightarrow> (\<forall>rule \<in> set (ks_rules v). \<forall>marker. decode_rule_marker (nr_user_data rule) = Inr marker \<longrightarrow>
     CHR 0x00 \<notin> set (rm_node_id marker))"

definition digest_unique :: "(bytes \<Rightarrow> bytes) \<Rightarrow> Plan \<Rightarrow> bool" where
  "digest_unique sha256 p \<longleftrightarrow> (\<forall>octets. sha256 octets = sha256 (plan_input p) \<longrightarrow> octets = plan_input p)"

lemma digest_uniqueD:
  "digest_unique sha256 p \<Longrightarrow> nul_free p \<Longrightarrow> nul_free q \<Longrightarrow> plan_digest sha256 q = plan_digest sha256 p \<Longrightarrow> q = p"
  by (auto simp: digest_unique_def plan_digest_def plan_input_inject)

lemma managed_table_plan:
  assumes "inspect_managed_table sha256 c name owner t raw = Inr (digest, n)" and "markers_nul_free raw"
  obtains p where "nul_free p" "plan_digest sha256 p = digest" "plan_redirects p = kernel_redirects c name (nt_family t) raw"
proof -
  from assms(1) obtain d m where loop: "owned_loop c (show_family (nt_family t) @ ''/'' @ name) owner (managed_rules name t raw) None [] = Inr (d, m)"
    and digest: "plan_digest sha256 (owned_plan m) = digest"
    unfolding inspect_managed_table_iff inspect_owned_rules_iff by blast
  from owned_loop_Inr [OF loop] have wf: "bt_wf m" and reds: "gathered m = kernel_redirects c name (nt_family t) raw"
    and ids: "\<forall>redirect \<in> snd ` set m. \<exists>rule \<in> set (managed_rules name t raw). \<exists>marker.
      decode_rule_marker (nr_user_data rule) = Inr marker \<and> rd_node_id redirect = rm_node_id marker"
    by (simp_all add: kernel_redirects_managed gathered_def)
  have "CHR 0x00 \<notin> set (rd_node_id redirect)" if "redirect \<in> snd ` set m" for redirect
    using ids assms(2) that by (fastforce simp: markers_nul_free_def managed_rules_def)
  then have "nul_free (owned_plan m)" by (force simp: nul_free_def owned_plan_def)
  from that [OF this digest] wf reds show thesis by (simp add: owned_plan_redirects)
qed

lemma rule_count_0: "plan_wf p \<Longrightarrow> rule_count p = 0 \<longleftrightarrow> plan_is_empty p"
  by (auto simp: plan_wf_def rule_count_def plan_is_empty_def)

lemma matches_holds:
  assumes insp: "inspect_snapshot sha256 c name owner v = Inr st"
    and match: "matches st mode (plan_digest sha256 desired) (rule_count desired)"
    and plan: "plan_wf desired" "nul_free desired" "digest_unique sha256 desired" and v: "markers_nul_free v"
  shows "holds_plan c name v desired"
proof (cases "plan_is_empty desired")
  case True
  with match plan(1) inspect_snapshot_Inr(3) [OF insp] show ?thesis
    by (simp add: matches_def rule_count_0 holds_plan_def)
next
  case False
  with match plan(1) have m: "is_exists st" "is_complete st" "is_digest st = plan_digest sha256 desired"
    by (auto simp: matches_def rule_count_0 split: if_splits)
  note facts = inspect_snapshot_Inr [OF insp]
  have "kernel_redirects c name family v = plan_redirects desired" if "family \<in> named_families name v" for family
  proof -
    from that facts(2) obtain t where t: "t \<in> set (is_tables st)" "nt_family t = family"
      by (auto simp: named_families_def)
    from facts(5) [OF m(1,2) t(1)] obtain p where "nul_free p" "plan_digest sha256 p = is_digest st"
      "plan_redirects p = kernel_redirects c name (nt_family t) v"
      using v by (rule managed_table_plan)
    with digest_uniqueD [OF plan(3,2), of p] m(3) t(2) show ?thesis by simp
  qed
  with facts(6) [OF m(1,2)] False show ?thesis unfolding holds_plan_def by auto
qed

section \<open>The committed batch\<close>

lemma rmap_list_Inr: "rmap_list f xs = Inr ys \<longleftrightarrow> list_all2 (\<lambda>x y. f x = Inr y) xs ys"
  by (induction xs arbitrary: ys) (auto simp: rbind_Inr_iff list_all2_Cons1)

lemma rmap_list_const:
  "list_all2 (\<lambda>x y. rbind m (\<lambda>z. Inr (g x z)) = Inr y) xs ys \<Longrightarrow> xs \<noteq> [] \<Longrightarrow> \<exists>z. m = Inr z \<and> ys = map (\<lambda>x. g x z) xs"
proof -
  assume l: "list_all2 (\<lambda>x y. rbind m (\<lambda>z. Inr (g x z)) = Inr y) xs ys" and ne: "xs \<noteq> []"
  from l ne obtain z where z: "m = Inr z" by (cases m) (auto simp: list_all2_Cons1 neq_Nil_conv)
  from l have "ys = map (\<lambda>x. g x z) xs"
    by (induction xs ys rule: list_all2_induct) (auto simp: z)
  with z show ?thesis by blast
qed

definition desired_rule :: "nft_codec \<Rightarrow> bytes \<Rightarrow> string \<Rightarrow> Redirect \<times> port_range \<Rightarrow> DesiredRule \<Rightarrow> bool" where
  "desired_rule c owner digest pair rule \<longleftrightarrow> (case pair of (redirect, r) \<Rightarrow>
     dr_expressions rule = redirect_expressions c r (rd_listen_port redirect) \<and>
     encode_rule_marker owner digest redirect r = Inr (dr_marker rule))"

definition plan_pairs :: "Plan \<Rightarrow> (Redirect \<times> port_range) list" where
  "plan_pairs p = [(redirect, r). redirect \<leftarrow> pl_redirects p, r \<leftarrow> rd_ports redirect]"

lemma desired_rules_Inr:
  "desired_rules c owner digest desired = Inr rules \<longleftrightarrow> list_all2 (desired_rule c owner digest) (plan_pairs desired) rules"
  unfolding desired_rules_def rmap_list_Inr plan_pairs_def [symmetric]
  by (intro arg_cong [where f = "\<lambda>P. list_all2 P (plan_pairs desired) rules"] ext)
     (auto simp: desired_rule_def rbind_Inr_iff)

lemma build_batch_Inr:
  assumes "build_batch c name owner current desired digest mode = Inr batch"
  shows "ba_delete batch = map (\<lambda>t. \<lparr> dt_family = nt_family t, dt_name = nt_name t, dt_handle = nt_handle t \<rparr>) (is_tables current)"
    "plan_is_empty desired \<Longrightarrow> ba_create batch = []"
    "\<not> plan_is_empty desired \<Longrightarrow> families mode \<noteq> [] \<and> (\<exists>tm cm rules.
       encode_container_marker TABLE_MARKER_MAGIC owner digest = Inr tm \<and>
       encode_container_marker CHAIN_MARKER_MAGIC owner digest = Inr cm \<and>
       list_all2 (desired_rule c owner digest) (plan_pairs desired) rules \<and>
       ba_create batch = map (\<lambda>family. \<lparr> ds_family = family, ds_name = name, ds_table_marker = tm,
         ds_chain_marker = cm, ds_rules = rules \<rparr>) (families mode))"
proof -
  show "ba_delete batch = map (\<lambda>t. \<lparr> dt_family = nt_family t, dt_name = nt_name t, dt_handle = nt_handle t \<rparr>) (is_tables current)"
    using assms by (auto simp: build_batch_def Let_def rbind_Inr_iff split: if_splits)
  show "plan_is_empty desired \<Longrightarrow> ba_create batch = []"
    using assms by (auto simp: build_batch_def Let_def)
  assume "\<not> plan_is_empty desired"
  with assms obtain tm cm where ne: "families mode \<noteq> []" and tm: "encode_container_marker TABLE_MARKER_MAGIC owner digest = Inr tm"
    and cm: "encode_container_marker CHAIN_MARKER_MAGIC owner digest = Inr cm"
    and create: "rmap_list (\<lambda>family. rbind (desired_rules c owner digest desired) (\<lambda>rules.
            Inr \<lparr> ds_family = family, ds_name = name, ds_table_marker = tm,
                  ds_chain_marker = cm, ds_rules = rules \<rparr>)) (families mode) = Inr (ba_create batch)"
    unfolding build_batch_def Let_def by (auto simp: rbind_Inr_iff split: if_splits)
  from rmap_list_const [OF create [unfolded rmap_list_Inr] ne] ne tm cm
  show "families mode \<noteq> [] \<and> (\<exists>tm cm rules.
       encode_container_marker TABLE_MARKER_MAGIC owner digest = Inr tm \<and>
       encode_container_marker CHAIN_MARKER_MAGIC owner digest = Inr cm \<and>
       list_all2 (desired_rule c owner digest) (plan_pairs desired) rules \<and>
       ba_create batch = map (\<lambda>family. \<lparr> ds_family = family, ds_name = name, ds_table_marker = tm,
         ds_chain_marker = cm, ds_rules = rules \<rparr>) (families mode))"
    by (auto simp: desired_rules_Inr)
qed

lemma batch_deletes:
  assumes "inspect_snapshot sha256 c name owner v = Inr current"
    and "build_batch c name owner current desired digest mode = Inr batch"
  shows "deletes batch family table \<longleftrightarrow> table = name \<and> family \<in> named_families name v"
  using inspect_snapshot_Inr(2) [OF assms(1)] build_batch_Inr(1) [OF assms(2)]
  by (auto simp: deletes_def list_ex_iff named_families_def)

lemma plan_pairs_redirects: "(\<lambda>(redirect, r). (r, rd_listen_port redirect)) ` set (plan_pairs p) = plan_redirects p"
  by (force simp: plan_pairs_def plan_redirects_def)

lemma desired_rules_read:
  assumes laws: "codec_laws c" and plan: "plan_wf desired"
    and rules: "list_all2 (desired_rule c owner digest) (plan_pairs desired) rules"
  shows "{redirect. \<exists>rule \<in> set rules. managed_redirect_rule c (dr_expressions rule) = Some redirect} = plan_redirects desired"
proof -
  have read: "managed_redirect_rule c (dr_expressions rule) = Some (r, rd_listen_port redirect)"
    if "desired_rule c owner digest (redirect, r) rule" "(redirect, r) \<in> set (plan_pairs desired)" for redirect r rule
  proof -
    from that(2) have "redirect \<in> set (pl_redirects desired)" "r \<in> set (rd_ports redirect)" by (auto simp: plan_pairs_def)
    with plan have "rd_listen_port redirect \<noteq> 0" "valid_range r"
      by (auto simp: plan_wf_def normal_def list_all_iff)
    with managed_redirect_expressions [OF laws] that(1) show ?thesis by (simp add: desired_rule_def valid_range_def)
  qed
  have "(\<lambda>rule. managed_redirect_rule c (dr_expressions rule)) ` set rules =
      (\<lambda>(redirect, r). Some (r, rd_listen_port redirect)) ` set (plan_pairs desired)"
  proof -
    from rules have len: "length (plan_pairs desired) = length rules" by (rule list_all2_lengthD)
    have "managed_redirect_rule c (dr_expressions (rules ! i)) =
        (case plan_pairs desired ! i of (redirect, r) \<Rightarrow> Some (r, rd_listen_port redirect))" if "i < length rules" for i
      using list_all2_nthD [OF rules, of i] read [of "fst (plan_pairs desired ! i)" "snd (plan_pairs desired ! i)" "rules ! i"] that len
      by (auto split: prod.splits)
    then have "map (\<lambda>rule. managed_redirect_rule c (dr_expressions rule)) rules =
        map (\<lambda>(redirect, r). Some (r, rd_listen_port redirect)) (plan_pairs desired)"
      using len by (intro nth_equalityI) auto
    then show ?thesis by (metis list.set_map)
  qed
  then have "{redirect. Some redirect \<in> (\<lambda>rule. managed_redirect_rule c (dr_expressions rule)) ` set rules} =
      (\<lambda>(redirect, r). (r, rd_listen_port redirect)) ` set (plan_pairs desired)" by force
  moreover have "{redirect. \<exists>rule \<in> set rules. managed_redirect_rule c (dr_expressions rule) = Some redirect} =
      {redirect. Some redirect \<in> (\<lambda>rule. managed_redirect_rule c (dr_expressions rule)) ` set rules}" by force
  ultimately show ?thesis by (simp add: plan_pairs_redirects)
qed

lemma named_families_image: "named_families name v = nt_family ` {t \<in> set (ks_tables v). nt_name t = name}"
  by (auto simp: named_families_def)

lemma commit_named_families:
  assumes insp: "inspect_snapshot sha256 c name owner v = Inr current"
    and batch: "build_batch c name owner current desired digest mode = Inr batch"
  shows "named_families name (commit c handle batch v) = (if plan_is_empty desired then {} else set (families mode))"
proof -
  have "named_families name (commit c handle batch v) =
      {family. family \<in> named_families name v \<and> \<not> deletes batch family name} \<union>
      ds_family ` {d \<in> set (ba_create batch). ds_name d = name}"
  proof -
    have "{t \<in> set (ks_tables (commit c handle batch v)). nt_name t = name} =
        {t \<in> set (ks_tables v). nt_name t = name \<and> \<not> deletes batch (nt_family t) name} \<union>
        created_table handle ` {d \<in> set (ba_create batch). ds_name d = name}"
      by (auto simp: commit_def created_table_def)
    then have "named_families name (commit c handle batch v) =
        nt_family ` {t \<in> set (ks_tables v). nt_name t = name \<and> \<not> deletes batch (nt_family t) name} \<union>
        (nt_family \<circ> created_table handle) ` {d \<in> set (ba_create batch). ds_name d = name}"
      by (simp add: named_families_image image_Un image_comp)
    moreover have "nt_family \<circ> created_table handle = ds_family" by (auto simp: created_table_def)
    moreover have "nt_family ` {t \<in> set (ks_tables v). nt_name t = name \<and> \<not> deletes batch (nt_family t) name} =
        {family. family \<in> named_families name v \<and> \<not> deletes batch family name}"
      by (auto simp: named_families_def)
    ultimately show ?thesis by simp
  qed
  moreover have "ds_family ` {d \<in> set (ba_create batch). ds_name d = name} = (if plan_is_empty desired then {} else set (families mode))"
  proof (cases "plan_is_empty desired")
    case True
    with build_batch_Inr(2) [OF batch] show ?thesis by simp
  next
    case False
    from build_batch_Inr(3) [OF batch False] obtain tm cm rules where
      "ba_create batch = map (\<lambda>family. \<lparr> ds_family = family, ds_name = name, ds_table_marker = tm,
         ds_chain_marker = cm, ds_rules = rules \<rparr>) (families mode)" by blast
    then have "{d \<in> set (ba_create batch). ds_name d = name} = set (ba_create batch)" "map ds_family (ba_create batch) = families mode"
      by (auto simp: comp_def)
    then have "ds_family ` {d \<in> set (ba_create batch). ds_name d = name} = set (families mode)" by (metis list.set_map)
    with False show ?thesis by simp
  qed
  ultimately show ?thesis by (auto simp: batch_deletes [OF insp batch])
qed

lemma filter_created_rules:
  "filter (\<lambda>rule. nr_family rule = family \<and> nr_table rule = name \<and> nr_chain rule = CHAIN_NAME) (created_rules d) =
     (if ds_family d = family \<and> ds_name d = name then created_rules d else [])"
  by (auto simp: created_rules_def filter_map comp_def)

lemma commit_managed_rules:
  assumes insp: "inspect_snapshot sha256 c name owner v = Inr current"
    and batch: "build_batch c name owner current desired digest mode = Inr batch" and wf: "view_wf v"
    and create: "ba_create batch = map D (families mode)" and D: "\<And>f. ds_family (D f) = f" "\<And>f. ds_name (D f) = name"
    and family: "family \<in> set (families mode)"
  shows "filter (\<lambda>rule. nr_family rule = family \<and> nr_table rule = name \<and> nr_chain rule = CHAIN_NAME)
      (ks_rules (commit c handle batch v)) = created_rules (D family)"
proof -
  have "deletes batch (nr_family rule) (nr_table rule)" if "rule \<in> set (ks_rules v)" "nr_table rule = name" for rule
  proof -
    from wf that obtain t where "t \<in> set (ks_tables v)" "nt_family t = nr_family rule" "nt_name t = name"
      by (auto simp: view_wf_def)
    then have "nr_family rule \<in> named_families name v" unfolding named_families_image by (intro image_eqI [of _ _ t]) simp_all
    with that show ?thesis by (simp add: batch_deletes [OF insp batch])
  qed
  then have old: "filter (\<lambda>rule. nr_family rule = f \<and> nr_table rule = name \<and> nr_chain rule = CHAIN_NAME)
      (filter (\<lambda>r. \<not> deletes batch (nr_family r) (nr_table r)) (ks_rules v)) = []" for f
    by (auto simp: filter_empty_conv)
  from family show ?thesis
    by (cases mode) (auto simp: commit_def create filter_created_rules D old simp del: filter_filter)
qed

lemma commit_holds:
  assumes insp: "inspect_snapshot sha256 c name owner v = Inr current"
    and batch: "build_batch c name owner current desired digest mode = Inr batch"
    and laws: "codec_laws c" and plan: "plan_wf desired" and wf: "view_wf v"
  shows "holds_plan c name (commit c handle batch v) desired"
proof (cases "plan_is_empty desired")
  case True
  then show ?thesis using commit_named_families [OF insp batch] by (simp add: holds_plan_def)
next
  case False
  from build_batch_Inr(3) [OF batch False] obtain tm cm rules where ne: "families mode \<noteq> []"
    and rules: "list_all2 (desired_rule c owner digest) (plan_pairs desired) rules"
    and create: "ba_create batch = map (\<lambda>family. \<lparr> ds_family = family, ds_name = name, ds_table_marker = tm,
         ds_chain_marker = cm, ds_rules = rules \<rparr>) (families mode)" by blast
  have "kernel_redirects c name family (commit c handle batch v) = plan_redirects desired" if "family \<in> set (families mode)" for family
  proof -
    have "kernel_redirects c name family (commit c handle batch v) =
        {redirect. \<exists>rule \<in> set rules. managed_redirect_rule c (dr_expressions rule) = Some redirect}"
    proof -
      let ?D = "\<lambda>family. \<lparr> ds_family = family, ds_name = name, ds_table_marker = tm, ds_chain_marker = cm, ds_rules = rules \<rparr>"
      have "kernel_redirects c name family (commit c handle batch v) =
          {redirect. \<exists>rule \<in> set (created_rules (?D family)). managed_redirect_rule c (nr_expressions rule) = Some redirect}"
        unfolding kernel_redirects_def
          commit_managed_rules [OF insp batch wf create _ _ that, simplified, of handle, symmetric] by auto
      then show ?thesis by (simp add: created_rules_def)
    qed
    then show ?thesis by (simp add: desired_rules_read [OF laws plan rules])
  qed
  moreover from ne have "mode \<noteq> ModeUnknown" by auto
  ultimately show ?thesis using False commit_named_families [OF insp batch, of handle] by (auto simp: holds_plan_def)
qed

text \<open>The objects of other tables are kept, in their order.\<close>

definition foreign_objects :: "string \<Rightarrow> KernelSnapshot \<Rightarrow> TableState list \<times> ChainState list \<times> RuleState list" where
  "foreign_objects name v =
     (filter (\<lambda>t. nt_name t \<noteq> name) (ks_tables v), filter (\<lambda>ch. nch_table ch \<noteq> name) (ks_chains v),
      filter (\<lambda>r. nr_table r \<noteq> name) (ks_rules v))"

lemma commit_foreign:
  assumes insp: "inspect_snapshot sha256 c name owner v = Inr current"
    and batch: "build_batch c name owner current desired digest mode = Inr batch"
  shows "foreign_objects name (commit c handle batch v) = foreign_objects name v"
proof -
  have named: "ds_name d = name" if "d \<in> set (ba_create batch)" for d
    using that build_batch_Inr(2,3) [OF batch] by (cases "plan_is_empty desired") auto
  have f: "(nt_name t \<noteq> name \<and> \<not> deletes batch (nt_family t) (nt_name t)) = (nt_name t \<noteq> name)"
    "(nch_table ch \<noteq> name \<and> \<not> deletes batch (nch_family ch) (nch_table ch)) = (nch_table ch \<noteq> name)"
    "(nr_table r \<noteq> name \<and> \<not> deletes batch (nr_family r) (nr_table r)) = (nr_table r \<noteq> name)" for t ch r
    by (auto simp: batch_deletes [OF insp batch])
  from named show ?thesis
    by (auto simp: foreign_objects_def commit_def f filter_empty_conv created_table_def created_chain_def created_rules_def
        conj_commute)
qed

section \<open>Created tables are recognised\<close>

lemma bt_insert_last:
  "\<forall>x \<in> fst ` set m. x < k \<Longrightarrow> bt_insert k v m = m @ [(k, v)]"
  "\<forall>x \<in> fst ` set m. x < k \<Longrightarrow> bt_insert k v (m @ [(k, w)]) = m @ [(k, v)]"
  by (induction k v m rule: bt_insert.induct) auto

lemma map_of_last: "k \<notin> fst ` set m \<Longrightarrow> map_of (m @ [(k, v)]) k = Some v"
  by (simp add: map_add_dom_app_simps(3) dom_map_of_conv_image_fst)

text \<open>A rule that carries one range of a redirect.\<close>

definition carries :: "nft_codec \<Rightarrow> bytes \<Rightarrow> string \<Rightarrow> Redirect \<times> port_range \<Rightarrow> RuleState \<Rightarrow> bool" where
  "carries c owner digest pair rule \<longleftrightarrow> (case pair of (redirect, r) \<Rightarrow>
     decode_rule_marker (nr_user_data rule) = Inr \<lparr> rm_owner = owner, rm_digest = digest, rm_node_id = rd_node_id redirect,
       rm_listen_port = rd_listen_port redirect, rm_ports = r \<rparr> \<and>
     managed_redirect_rule c (nr_expressions rule) = Some (r, rd_listen_port redirect))"

lemma owned_loop_ranges:
  "list_all2 (carries c owner digest) (map (Pair redirect) rs) rules \<Longrightarrow>
   \<forall>x \<in> fst ` set m. x < rd_node_id redirect \<Longrightarrow>
   owned_loop c label owner (rules @ rest) (Some digest) (m @ [(rd_node_id redirect, redirect\<lparr> rd_ports := ps \<rparr>)]) =
   owned_loop c label owner rest (Some digest) (m @ [(rd_node_id redirect, redirect\<lparr> rd_ports := ps @ rs \<rparr>)])"
proof (induction rs arbitrary: rules ps)
  case (Cons r rs)
  then obtain rule rules' where split: "rules = rule # rules'" "carries c owner digest (redirect, r) rule"
    "list_all2 (carries c owner digest) (map (Pair redirect) rs) rules'"
    by (auto simp: list_all2_Cons1)
  have "rd_node_id redirect \<notin> fst ` set m" using Cons.prems(2) by auto
  then have "map_of (m @ [(rd_node_id redirect, redirect\<lparr> rd_ports := ps \<rparr>)]) (rd_node_id redirect) = Some (redirect\<lparr> rd_ports := ps \<rparr>)"
    by (rule map_of_last)
  with split(1,2) Cons.IH [OF split(3) Cons.prems(2), of "ps @ [r]"] Cons.prems(2) show ?case
    by (simp add: carries_def gather_def Let_def bt_insert_last del: map_of_append)
qed simp

lemma owned_loop_redirects:
  assumes "list_all2 (carries c owner digest) [(redirect, r). redirect \<leftarrow> redirects, r \<leftarrow> rd_ports redirect] rules"
    and "sorted_wrt (\<lambda>a b. rd_node_id a < rd_node_id b) (earlier @ redirects)" and "\<forall>redirect \<in> set redirects. rd_ports redirect \<noteq> []"
    and "seen = None \<or> seen = Some digest"
  shows "owned_loop c label owner rules seen (map (\<lambda>redirect. (rd_node_id redirect, redirect)) earlier) =
    Inr (if redirects = [] then seen else Some digest, map (\<lambda>redirect. (rd_node_id redirect, redirect)) (earlier @ redirects))"
  using assms
proof (induction redirects arbitrary: rules earlier seen)
  case Nil
  then show ?case by simp
next
  case (Cons redirect redirects)
  let ?M = "map (\<lambda>redirect. (rd_node_id redirect, redirect))"
  from Cons.prems(1) obtain now later where rules: "rules = now @ later"
    "list_all2 (carries c owner digest) (map (Pair redirect) (rd_ports redirect)) now"
    "list_all2 (carries c owner digest) [(redirect, r). redirect \<leftarrow> redirects, r \<leftarrow> rd_ports redirect] later"
    by (auto simp: list_all2_append1)
  from Cons.prems(3) obtain r rs where ports: "rd_ports redirect = r # rs" by (cases "rd_ports redirect") auto
  with rules(2) obtain rule now' where now: "now = rule # now'" "carries c owner digest (redirect, r) rule"
    "list_all2 (carries c owner digest) (map (Pair redirect) rs) now'"
    by (auto simp: list_all2_Cons1)
  have below: "\<forall>x \<in> fst ` set (?M earlier). x < rd_node_id redirect"
    using Cons.prems(2) by (auto simp: sorted_wrt_append)
  then have "rd_node_id redirect \<notin> fst ` set (?M earlier)" by auto
  then have "map_of (?M earlier) (rd_node_id redirect) = None" by (simp add: map_of_eq_None_iff)
  then have "owned_loop c label owner rules seen (?M earlier) =
      owned_loop c label owner (now' @ later) (Some digest) (?M earlier @ [(rd_node_id redirect, redirect\<lparr> rd_ports := [r] \<rparr>)])"
    using now(2) Cons.prems(4) bt_insert_last(1) [OF below]
    by (cases redirect) (auto simp: rules(1) now(1) carries_def gather_def Let_def)
  also have "\<dots> = owned_loop c label owner later (Some digest) (?M earlier @ [(rd_node_id redirect, redirect\<lparr> rd_ports := [r] @ rs \<rparr>)])"
    by (rule owned_loop_ranges [OF now(3) below])
  also have "?M earlier @ [(rd_node_id redirect, redirect\<lparr> rd_ports := [r] @ rs \<rparr>)] = ?M (earlier @ [redirect])"
    by (simp add: ports [symmetric])
  also have "owned_loop c label owner later (Some digest) (?M (earlier @ [redirect])) =
      Inr (if redirects = [] then Some digest else Some digest, ?M ((earlier @ [redirect]) @ redirects))"
    using Cons.IH [OF rules(3), of "earlier @ [redirect]" "Some digest"] Cons.prems(2,3) by simp
  finally show ?case by simp
qed

lemma owned_plan_self:
  assumes "plan_wf p"
  shows "owned_plan (map (\<lambda>redirect. (rd_node_id redirect, redirect)) (pl_redirects p)) = p"
proof -
  have "redirect\<lparr> rd_ports := sort (rd_ports redirect) \<rparr> = redirect" if "redirect \<in> set (pl_redirects p)" for redirect
    using assms that by (simp add: plan_wf_def sorted_sort_id normal_sorted)
  then have "map (\<lambda>redirect. redirect\<lparr> rd_ports := sort (rd_ports redirect) \<rparr>) (pl_redirects p) = pl_redirects p"
    by (intro map_idI) blast
  then show ?thesis by (simp add: owned_plan_def comp_def)
qed

lemma desired_rule_carries:
  assumes laws: "codec_laws c" and plan: "plan_wf desired" and owner: "length owner = 6" and digest: "digest_wf digest"
    and pair: "pair \<in> set (plan_pairs desired)" and rule: "desired_rule c owner digest pair rule"
  shows "carries c owner digest pair \<lparr> nr_family = family, nr_table = name, nr_chain = CHAIN_NAME,
     nr_expressions = dr_expressions rule, nr_user_data = dr_marker rule \<rparr>"
proof -
  obtain redirect r where p: "pair = (redirect, r)" by fastforce
  with pair have "redirect \<in> set (pl_redirects desired)" "r \<in> set (rd_ports redirect)" by (auto simp: plan_pairs_def)
  with plan have ok: "rd_listen_port redirect \<noteq> 0" "valid_range r" "rd_node_id redirect \<noteq> []"
    "length (rd_node_id redirect) \<le> MAX_NODE_ID_BYTES" "utf8_valid (rd_node_id redirect)"
    by (auto simp: plan_wf_def normal_def list_all_iff)
  let ?m = "\<lparr> rm_owner = owner, rm_digest = digest, rm_node_id = rd_node_id redirect,
       rm_listen_port = rd_listen_port redirect, rm_ports = r \<rparr>"
  have wf: "marker_wf ?m" using ok owner digest by (simp add: marker_wf_def valid_range_def)
  from encode_rule_marker_ok [OF wf, of redirect] obtain octets where o: "length octets = 32" "digest = lower_hex octets"
    "encode_rule_marker owner digest redirect r = Inr (RULE_MARKER_MAGIC @ owner @ octets @ [MARKER_PROTOCOL] @
        be_u16 (rd_listen_port redirect) @ be_u16 (pr_start r) @ be_u16 (pr_end r) @
        [of_nat (length (rd_node_id redirect))] @ str_bytes (rd_node_id redirect))" by auto
  have "decode_rule_marker (dr_marker rule) = Inr ?m"
    using rule o decode_rule_marker_fields [of owner octets "str_bytes (rd_node_id redirect)" "rd_listen_port redirect"
        "pr_start r" "pr_end r"] ok owner
    by (simp add: p desired_rule_def valid_range_def)
  moreover have "managed_redirect_rule c (dr_expressions rule) = Some (r, rd_listen_port redirect)"
    using rule managed_redirect_expressions [OF laws] ok by (simp add: p desired_rule_def valid_range_def)
  ultimately show ?thesis by (simp add: p carries_def)
qed

lemma created_rules_carry:
  assumes laws: "codec_laws c" and plan: "plan_wf desired" and owner: "length owner = 6" and digest: "digest_wf digest"
    and rules: "list_all2 (desired_rule c owner digest) (plan_pairs desired) (ds_rules d)"
  shows "list_all2 (carries c owner digest) (plan_pairs desired) (created_rules d)"
  unfolding created_rules_def list_all2_map2
  using rules by (rule list.rel_mono_strong) (auto intro: desired_rule_carries [OF laws plan owner digest])

lemma length_plan_pairs: "length (plan_pairs p) = rule_count p"
  by (simp add: plan_pairs_def rule_count_def length_concat comp_def)

lemma created_rules_inspected:
  assumes laws: "codec_laws c" and plan: "plan_wf desired" "\<not> plan_is_empty desired" and owner: "length owner = 6"
    and hash: "\<And>x. length (sha256 x) = 32"
    and rules: "list_all2 (desired_rule c owner (plan_digest sha256 desired)) (plan_pairs desired) (ds_rules d)"
  shows "inspect_owned_rules sha256 c label owner (created_rules d) = Inr (plan_digest sha256 desired)"
    "length (created_rules d) = rule_count desired"
proof -
  have digest: "digest_wf (plan_digest sha256 desired)" using hash by (auto simp: digest_wf_def plan_digest_def)
  note carry = created_rules_carry [OF laws plan(1) owner digest rules]
  then show "length (created_rules d) = rule_count desired"
    using list_all2_lengthD length_plan_pairs by metis
  have "owned_loop c label owner (created_rules d) None [] =
      Inr (Some (plan_digest sha256 desired), map (\<lambda>redirect. (rd_node_id redirect, redirect)) (pl_redirects desired))"
    using owned_loop_redirects [OF carry [unfolded plan_pairs_def], of "[]" None label] plan
    by (simp add: plan_wf_def plan_is_empty_def)
  then show "inspect_owned_rules sha256 c label owner (created_rules d) = Inr (plan_digest sha256 desired)"
    by (simp add: inspect_owned_rules_def owned_plan_self [OF plan(1)])
qed

end
