(* ===== verification/Nft_Apply.thy ===== *)
theory Nft_Apply
  imports Nft_Transaction
begin

text \<open>
  \<open>Backend::apply\<close> of \<open>porthopping/backend_linux.rs\<close> against the kernel of \<open>Nft_Transaction\<close>: the tables a
  batch creates pass the backend's own inspection, a successful call leaves exactly the desired
  redirects, an error that is not a state-uncertain one leaves the kernel as it was, and foreign
  objects are never touched.
\<close>

section \<open>Created tables pass the inspection\<close>

lemma filter_view_objects:
  assumes insp: "inspect_snapshot sha256 c name owner v = Inr current"
    and batch: "build_batch c name owner current desired digest mode = Inr batch" and wf: "view_wf v"
  shows "filter (\<lambda>t. nt_family t = f \<and> nt_name t = name) (filter (\<lambda>t. \<not> deletes batch (nt_family t) (nt_name t)) (ks_tables v)) = []"
    "filter (\<lambda>ch. nch_family ch = f \<and> nch_table ch = name) (filter (\<lambda>ch. \<not> deletes batch (nch_family ch) (nch_table ch)) (ks_chains v)) = []"
proof -
  have "nch_family ch \<in> named_families name v" if "ch \<in> set (ks_chains v)" "nch_table ch = name" for ch
  proof -
    from wf that obtain t where "t \<in> set (ks_tables v)" "nt_family t = nch_family ch" "nt_name t = name"
      by (auto simp: view_wf_def)
    then show ?thesis unfolding named_families_image by (intro image_eqI [of _ _ t]) simp_all
  qed
  then show "filter (\<lambda>ch. nch_family ch = f \<and> nch_table ch = name) (filter (\<lambda>ch. \<not> deletes batch (nch_family ch) (nch_table ch)) (ks_chains v)) = []"
    by (auto simp: filter_empty_conv batch_deletes [OF insp batch])
  show "filter (\<lambda>t. nt_family t = f \<and> nt_name t = name) (filter (\<lambda>t. \<not> deletes batch (nt_family t) (nt_name t)) (ks_tables v)) = []"
    by (auto simp: filter_empty_conv batch_deletes [OF insp batch] named_families_def)
qed

lemma inspect_tables_const:
  "\<forall>t \<in> set ts. f t = Inr x \<Longrightarrow> inspect_tables f ts (Some x) True = Inr (Some x, True)"
  "\<forall>t \<in> set ts. f t = Inr x \<Longrightarrow> ts \<noteq> [] \<Longrightarrow> inspect_tables f ts None True = Inr (Some x, True)"
proof -
  show some: "inspect_tables f ts (Some x) True = Inr (Some x, True)" if "\<forall>t \<in> set ts. f t = Inr x" for ts
    using that by (induction ts) auto
  show "inspect_tables f ts None True = Inr (Some x, True)" if "\<forall>t \<in> set ts. f t = Inr x" "ts \<noteq> []"
    using that by (cases ts) (auto simp: some)
qed

lemma inspected_mode_families:
  "families mode \<noteq> [] \<Longrightarrow> map nt_family ts = families mode \<Longrightarrow> inspected_mode ts True = (mode, True)"
  by (cases mode) (auto simp: inspected_mode_def map_eq_Cons_conv)

lemma named_tables_families:
  assumes "\<And>f. filter (\<lambda>t. nt_family t = f \<and> nt_name t = name) (ks_tables w) = (if f \<in> set (families mode) then [T f] else [])"
  shows "named_tables name w families_all = Inr (map T (families mode))"
  by (cases mode) (simp_all add: families_all_def assms)

lemma commit_recognised:
  assumes insp: "inspect_snapshot sha256 c name owner v = Inr current"
    and batch: "build_batch c name owner current desired (plan_digest sha256 desired) mode = Inr batch"
    and laws: "codec_laws c" and plan: "plan_wf desired" and wf: "view_wf v"
    and owner: "length owner = 6" and hash: "\<And>x. length (sha256 x) = 32"
  obtains st where "inspect_snapshot sha256 c name owner (commit c handle batch v) = Inr st"
    "matches st mode (plan_digest sha256 desired) (rule_count desired)"
proof (cases "plan_is_empty desired")
  case True
  let ?w = "commit c handle batch v"
  have "filter (\<lambda>t. nt_family t = f \<and> nt_name t = name) (ks_tables ?w) = []" for f
    using commit_named_families [OF insp batch, of handle] True by (auto simp: filter_empty_conv named_families_def)
  then have "named_tables name ?w families_all = Inr []" by (simp add: families_all_def)
  then have "inspect_snapshot sha256 c name owner ?w = Inr \<lparr> is_raw = ?w, is_tables = [], is_exists = False,
      is_mode = ModeUnknown, is_complete = False, is_digest = [], is_rule_count = 0 \<rparr>"
    by (simp add: inspect_snapshot_def)
  with that True plan show thesis by (simp add: matches_def rule_count_0)
next
  case False
  let ?w = "commit c handle batch v" and ?digest = "plan_digest sha256 desired"
  from build_batch_Inr(3) [OF batch False] obtain tm cm rules where ne: "families mode \<noteq> []"
    and tm: "encode_container_marker TABLE_MARKER_MAGIC owner ?digest = Inr tm"
    and cm: "encode_container_marker CHAIN_MARKER_MAGIC owner ?digest = Inr cm"
    and rules: "list_all2 (desired_rule c owner ?digest) (plan_pairs desired) rules"
    and create: "ba_create batch = map (\<lambda>family. \<lparr> ds_family = family, ds_name = name, ds_table_marker = tm,
         ds_chain_marker = cm, ds_rules = rules \<rparr>) (families mode)" by blast
  define D where "D = (\<lambda>family. \<lparr> ds_family = family, ds_name = name, ds_table_marker = tm,
         ds_chain_marker = cm, ds_rules = rules \<rparr>)"
  have D: "ds_family (D f) = f" "ds_name (D f) = name" "ds_rules (D f) = rules" "ds_table_marker (D f) = tm"
    "ds_chain_marker (D f) = cm" for f by (simp_all add: D_def)
  note create = create [folded D_def]
  note old = filter_view_objects [OF insp batch wf]
  let ?T = "\<lambda>f. created_table handle (D f)"
  have tables: "filter (\<lambda>t. nt_family t = f \<and> nt_name t = name) (ks_tables ?w) = (if f \<in> set (families mode) then [?T f] else [])" for f
    using ne by (cases mode) (auto simp: commit_def create old created_table_def D simp del: filter_filter)
  have chains: "managed_chains name (?T f) ?w = [created_chain c (D f)]" if "f \<in> set (families mode)" for f
    using that by (cases mode) (auto simp: managed_chains_def commit_def create old created_chain_def created_table_def D simp del: filter_filter)
  have rule_list: "managed_rules name (?T f) ?w = created_rules (D f)" if "f \<in> set (families mode)" for f
    using commit_managed_rules [OF insp batch wf create D(1,2) that]
    by (simp add: managed_rules_def created_table_def D)
  have digest: "digest_wf ?digest" using hash by (auto simp: digest_wf_def plan_digest_def)
  note owned = created_rules_inspected [OF laws plan False owner hash]
  have counted: "length (created_rules (D f)) = rule_count desired" for f
    by (rule owned(2)) (use rules D in simp)
  have count: "rule_count desired \<noteq> 0" using False plan by (simp add: rule_count_0)
  have one: "inspect_managed_table sha256 c name owner t ?w = Inr (?digest, rule_count desired)"
    if "t \<in> set (map ?T (families mode))" for t
  proof -
    from that obtain f where f: "f \<in> set (families mode)" "t = ?T f" by auto
    have marks: "decode_optional_container_marker (nt_user_data t) TABLE_MARKER_MAGIC = Inr (Some \<lparr> cm_owner = owner, cm_digest = ?digest \<rparr>)"
      "decode_optional_container_marker (nch_user_data (created_chain c (D f))) CHAIN_MARKER_MAGIC = Inr (Some \<lparr> cm_owner = owner, cm_digest = ?digest \<rparr>)"
      using container_marker_roundtrip [OF digest owner tm] container_marker_roundtrip [OF digest owner cm]
      by (simp_all add: f(2) created_table_def created_chain_def D)
    have "is_managed_chain c (created_chain c (D f))" by (simp add: is_managed_chain_def created_chain_def)
    moreover have "inspect_owned_rules sha256 c (show_family (nt_family t) @ ''/'' @ name) owner (created_rules (D f)) = Inr ?digest"
      by (rule owned(1)) (use rules D in simp)
    moreover have "created_rules (D f) \<noteq> []" using counted [of f] count by auto
    ultimately show ?thesis
      unfolding inspect_managed_table_iff f(2) [symmetric]
      using marks chains [OF f(1)] rule_list [OF f(1)] counted [of f]
      by (intro exI [of _ "Some \<lparr> cm_owner = owner, cm_digest = ?digest \<rparr>"] exI [of _ "created_chain c (D f)"])
         (simp add: f(2) foreign_container_def stale_container_def)
  qed
  have "inspect_tables (\<lambda>t. inspect_managed_table sha256 c name owner t ?w) (map ?T (families mode)) None True =
      Inr (Some (?digest, rule_count desired), True)"
    by (rule inspect_tables_const(2)) (use one ne in auto)
  moreover have "inspected_mode (map ?T (families mode)) True = (mode, True)"
    by (rule inspected_mode_families [OF ne]) (simp add: created_table_def D comp_def)
  ultimately have "inspect_snapshot sha256 c name owner ?w = Inr \<lparr> is_raw = ?w, is_tables = map ?T (families mode), is_exists = True,
      is_mode = mode, is_complete = True, is_digest = ?digest, is_rule_count = rule_count desired \<rparr>"
    using ne by (simp add: inspect_snapshot_def named_tables_families [of name ?w mode ?T, OF tables])
  with that count show thesis by (simp add: matches_def)
qed


section \<open>The conflict check reads foreign objects only\<close>

lemma filter_narrow:
  "(\<And>x. P x \<Longrightarrow> Q x) \<Longrightarrow> filter Q xs = filter Q ys \<Longrightarrow> filter P xs = filter P ys"
proof -
  assume imp: "\<And>x. P x \<Longrightarrow> Q x" and eq: "filter Q xs = filter Q ys"
  from imp have "filter P (filter Q zs) = filter P zs" for zs by (auto intro: filter_cong)
  with eq show ?thesis by metis
qed

lemma scan_table_foreign:
  assumes "foreign_objects name v = foreign_objects name w" and "nt_name table \<noteq> name"
  shows "scan_table c v desired table = scan_table c w desired table"
proof -
  have rules: "chain_rules v table n = chain_rules w table n" for n
    using assms unfolding chain_rules_def foreign_objects_def
    by - (rule filter_narrow [of _ "\<lambda>r. nr_table r \<noteq> name"], auto)
  have "filter (\<lambda>ch. nch_family ch = nt_family table \<and> nch_table ch = nt_name table) (ks_chains v) =
      filter (\<lambda>ch. nch_family ch = nt_family table \<and> nch_table ch = nt_name table) (ks_chains w)"
    using assms unfolding foreign_objects_def by - (rule filter_narrow [of _ "\<lambda>ch. nch_table ch \<noteq> name"], auto)
  then have "table_chains v table = table_chains w table" by (simp add: table_chains_def)
  moreover have "scan_external_chain c v table m desired fuel = scan_external_chain c w table m desired fuel" for m fuel
    by (induction fuel) (intro ext, simp, intro ext, simp add: rules)
  ultimately show ?thesis by (simp add: scan_table_def)
qed

lemma reject_external_conflicts_foreign:
  assumes "foreign_objects name v = foreign_objects name w"
  shows "reject_external_conflicts c v name desired = reject_external_conflicts c w name desired"
proof -
  have "scan_tables c v desired ts = scan_tables c w desired ts" if "\<forall>t \<in> set ts. nt_name t \<noteq> name" for ts
    using that by (induction ts) (auto simp: scan_table_foreign [OF assms] split: option.splits sum.splits)
  moreover have "filter (\<lambda>t. nt_name t \<noteq> name) (ks_tables v) = filter (\<lambda>t. nt_name t \<noteq> name) (ks_tables w)"
    using assms by (simp add: foreign_objects_def)
  ultimately show ?thesis by (simp add: reject_external_conflicts_def)
qed

section \<open>Batches can be built\<close>

lemma rmap_list_total: "\<forall>x \<in> set xs. \<exists>y. f x = Inr y \<Longrightarrow> \<exists>ys. rmap_list f xs = Inr ys"
  by (induction xs) auto

lemma build_batch_ok:
  assumes plan: "plan_wf desired" and owner: "length owner = 6" and hash: "\<And>x. length (sha256 x) = 32"
    and mode: "plan_is_empty desired \<or> families mode \<noteq> []"
  shows "\<exists>batch. build_batch c name owner current desired (plan_digest sha256 desired) mode = Inr batch"
proof -
  let ?digest = "plan_digest sha256 desired"
  have digest: "digest_wf ?digest" using hash by (auto simp: digest_wf_def plan_digest_def)
  have "\<exists>rule. rbind (encode_rule_marker owner ?digest redirect r) (\<lambda>marker.
         Inr \<lparr> dr_expressions = redirect_expressions c r (rd_listen_port redirect), dr_marker = marker \<rparr>) = Inr rule"
    if "redirect \<in> set (pl_redirects desired)" "r \<in> set (rd_ports redirect)" for redirect r
  proof -
    let ?m = "\<lparr> rm_owner = owner, rm_digest = ?digest, rm_node_id = rd_node_id redirect,
       rm_listen_port = rd_listen_port redirect, rm_ports = r \<rparr>"
    from that plan have wf: "marker_wf ?m" using owner digest
      by (auto simp: plan_wf_def marker_wf_def normal_def list_all_iff valid_range_def)
    have "\<exists>octets. encode_rule_marker owner ?digest redirect r = Inr octets"
      by (rule encode_rule_marker_ok [OF wf, of redirect]) simp_all
    then show ?thesis by auto
  qed
  then have "\<exists>rules. desired_rules c owner ?digest desired = Inr rules"
    unfolding desired_rules_def by (intro rmap_list_total) auto
  then obtain rules where "desired_rules c owner ?digest desired = Inr rules" ..
  moreover from digest obtain octets where "length octets = 32" "?digest = lower_hex octets" by (auto simp: digest_wf_def)
  then have "encode_container_marker magic owner ?digest = Inr (magic @ owner @ octets)" for magic
    by (simp add: encode_container_marker_ok)
  ultimately show ?thesis using mode
    by (cases mode) (simp_all add: build_batch_def Let_def)
qed

section \<open>One attempt\<close>

text \<open>The managed tables of a view pass the inspection and match a plan.\<close>

definition settled_plan :: "(bytes \<Rightarrow> bytes) \<Rightarrow> nft_codec \<Rightarrow> NftBackend \<Rightarrow> KernelSnapshot \<Rightarrow> Plan \<Rightarrow> bool" where
  "settled_plan sha256 c b v desired \<longleftrightarrow>
     holds_plan c (nb_table_name b) v desired \<and>
     (\<exists>st mode. inspect sha256 c b v = Inr st \<and> matches st mode (plan_digest sha256 desired) (rule_count desired))"

text \<open>What the proofs assume of the plan, the hash, the backend and the kernel.\<close>

definition nft_setting :: "(bytes \<Rightarrow> bytes) \<Rightarrow> nft_codec \<Rightarrow> 'k nft_kernel \<Rightarrow> ('k \<Rightarrow> KernelSnapshot) \<Rightarrow> NftBackend \<Rightarrow> 'k \<Rightarrow> Plan \<Rightarrow> bool" where
  "nft_setting sha256 c kern view b k desired \<longleftrightarrow>
     codec_laws c \<and> kernel_contract c kern view \<and> view_wf (view k) \<and> markers_nul_free (view k) \<and>
     plan_wf desired \<and> nul_free desired \<and> digest_unique sha256 desired \<and>
     (\<forall>octets. length (sha256 octets) = 32) \<and> length (nb_owner b) = 6"

lemma nft_settingD:
  assumes "nft_setting sha256 c kern view b k desired"
  shows "codec_laws c" "kernel_contract c kern view" "view_wf (view k)" "markers_nul_free (view k)"
    "plan_wf desired" "nul_free desired" "digest_unique sha256 desired" "\<And>octets. length (sha256 octets) = 32"
    "length (nb_owner b) = 6"
  using assms by (auto simp: nft_setting_def)

lemma nft_setting_same_view:
  assumes "nft_setting sha256 c kern view b k desired" "view k' = view k" "nb_owner b' = nb_owner b"
  shows "nft_setting sha256 c kern view b' k' desired"
  using assms by (simp add: nft_setting_def)

lemma kernel_contractD:
  assumes "kernel_contract c kern view"
  shows "kn_open kern k = (k', r) \<Longrightarrow> view k' = view k"
    "kn_snapshot kern k = (k', read) \<Longrightarrow> view k' = view k"
    "kn_snapshot kern k = (k', Inr raw) \<Longrightarrow> raw = view k"
    "kn_execute kern batch k = (k', r) \<Longrightarrow>
       (\<exists>handle. view k' = commit c handle batch (view k)) \<or> (\<exists>e. r = Inl e) \<and> view k' = view k"
  using assms unfolding kernel_contract_def by blast+

lemma matches_settled:
  assumes setting: "nft_setting sha256 c kern view b k desired" and insp: "inspect sha256 c b (view k) = Inr st"
    and match: "matches st mode (plan_digest sha256 desired) (rule_count desired)"
  shows "settled_plan sha256 c b (view k) desired"
  using matches_holds [OF insp [unfolded inspect_def] match] nft_settingD(4-7) [OF setting] insp match
  by (auto simp: settled_plan_def)

lemma committed_settled:
  assumes setting: "nft_setting sha256 c kern view b k desired" and insp: "inspect sha256 c b (view k) = Inr current"
    and batch: "build_batch c (nb_table_name b) (nb_owner b) current desired (plan_digest sha256 desired) mode = Inr batch"
  shows "settled_plan sha256 c b (commit c handle batch (view k)) desired"
proof -
  note facts = nft_settingD [OF setting] and insp = insp [unfolded inspect_def]
  obtain st where "inspect_snapshot sha256 c (nb_table_name b) (nb_owner b) (commit c handle batch (view k)) = Inr st"
    "matches st mode (plan_digest sha256 desired) (rule_count desired)"
    by (rule commit_recognised [OF insp batch facts(1,5,3,9,8)])
  with commit_holds [OF insp batch facts(1,5,3)] show ?thesis by (auto simp: settled_plan_def inspect_def)
qed

lemma inspect_fresh_view:
  assumes "kernel_contract c kern view" "inspect_fresh sha256 c kern b k = (k', r)"
  shows "view k' = view k" "r = Inr st \<Longrightarrow> inspect sha256 c b (view k) = Inr st"
  using assms kernel_contractD [OF assms(1)]
  by (auto simp: inspect_fresh_def split: prod.splits sum.splits) (metis+)?

text \<open>The outcomes of an attempt: the kernel holds the plan, is untouched, or the error says that its
  state is unknown.\<close>

definition attempt_ok :: "(bytes \<Rightarrow> bytes) \<Rightarrow> nft_codec \<Rightarrow> NftBackend \<Rightarrow> KernelSnapshot \<Rightarrow> KernelSnapshot \<Rightarrow> Plan \<Rightarrow>
    ApplyStateError + unit \<Rightarrow> bool" where
  "attempt_ok sha256 c b v v' desired r \<longleftrightarrow>
     foreign_objects (nb_table_name b) v' = foreign_objects (nb_table_name b) v \<and>
     (case r of Inr _ \<Rightarrow> settled_plan sha256 c b v' desired
      | Inl (ApplyUncertain e) \<Rightarrow> is_state_uncertain e
      | Inl _ \<Rightarrow> v' = v)"


lemma apply_state_attempt:
  assumes setting: "nft_setting sha256 c kern view b k desired" and insp: "inspect sha256 c b (view k) = Inr current"
    and work: "is_exists current \<or> \<not> plan_is_empty desired"
    and run: "apply_state sha256 c kern current desired (plan_digest sha256 desired) mode (b, k) = ((b', k'), r)"
  shows "attempt_ok sha256 c b (view k) (view k') desired r"
    "nb_table_name b' = nb_table_name b \<and> nb_owner b' = nb_owner b"
    "r = Inl (ApplyUnsupported m e) \<Longrightarrow> \<not> is_exists current"
    "r = Inr () \<Longrightarrow> plan_is_empty desired \<Longrightarrow> \<not> nb_managed b'"
proof -
  let ?digest = "plan_digest sha256 desired"
  note facts = nft_settingD [OF setting]
  have "attempt_ok sha256 c b (view k) (view k') desired r \<and> nb_table_name b' = nb_table_name b \<and> nb_owner b' = nb_owner b \<and>
      (r = Inl (ApplyUnsupported m e) \<longrightarrow> \<not> is_exists current) \<and> (r = Inr () \<longrightarrow> plan_is_empty desired \<longrightarrow> \<not> nb_managed b')"
  proof (cases "build_batch c (nb_table_name b) (nb_owner b) current desired ?digest mode")
    case (Inl error)
    with run show ?thesis by (auto simp: apply_state_def attempt_ok_def)
  next
    case (Inr batch)
    let ?b = "b\<lparr> nb_managed := is_exists current \<or> \<not> plan_is_empty desired \<rparr>"
    obtain k1 x where ex: "kn_execute kern batch k = (k1, x)" by fastforce
    from kernel_contractD(4) [OF facts(2) ex] consider (committed) handle where "view k1 = commit c handle batch (view k)"
      | (failed) error where "x = Inl error" "view k1 = view k" by blast
    then have foreign: "foreign_objects (nb_table_name b) (view k1) = foreign_objects (nb_table_name b) (view k)"
    proof cases
      case committed
      with commit_foreign [OF insp [unfolded inspect_def] Inr, of handle] show ?thesis by simp
    qed simp
    have settled: "settled_plan sha256 c b (view k1) desired" if "view k1 = commit c handle batch (view k)" for handle
      using committed_settled [OF setting insp Inr] that by simp
    have named: "nb_table_name (installed desired mode ?b) = nb_table_name b" "nb_owner (installed desired mode ?b) = nb_owner b"
      "plan_is_empty desired \<longrightarrow> \<not> nb_managed (installed desired mode ?b)"
      by (simp_all add: installed_def Let_def)
    show ?thesis
    proof (cases x)
      case (Inr u)
      from kernel_contractD(4) [OF facts(2) ex] Inr obtain handle where "view k1 = commit c handle batch (view k)" by auto
      with settled have "settled_plan sha256 c b (view k1) desired" by blast
      moreover from run \<open>build_batch _ _ _ _ _ _ _ = _\<close> ex Inr have "b' = installed desired mode ?b" "k' = k1" "r = Inr ()"
        by (simp_all add: apply_state_def)
      ultimately show ?thesis using foreign named by (simp add: attempt_ok_def)
    next
      case (Inl submit_error)
      obtain k2 fresh where fr: "inspect_fresh sha256 c kern ?b k1 = (k2, fresh)" by fastforce
      note fv = inspect_fresh_view [OF facts(2) fr]
      have same: "inspect sha256 c ?b v = inspect sha256 c b v" for v by (simp add: inspect_def)
      consider (match) st where "fresh = Inr st" "matches st mode ?digest (rule_count desired)"
        "r = Inr ()" "b' = installed desired mode ?b" "k' = k2"
        | (unsupported) st m' where "fresh = Inr st" "\<not> is_exists st" "\<not> is_exists current" "r = Inl (ApplyUnsupported m' submit_error)"
          "b' = ?b\<lparr> nb_managed := False \<rparr>" "k' = k2"
        | (uncertain) s where "r = Inl (ApplyUncertain (StateUncertainError s))" "b' = ?b" "k' = k2"
        using run \<open>build_batch _ _ _ _ _ _ _ = _\<close> ex Inl fr
        by (auto simp: apply_state_def Let_def split: if_splits sum.splits)
      then show ?thesis
      proof cases
        case match
        from kernel_contractD(4) [OF facts(2) ex] have "settled_plan sha256 c b (view k1) desired"
        proof (elim disjE exE conjE)
          fix e assume "view k1 = view k"
          with matches_settled [OF setting _ match(2)] fv(2) [OF match(1)] same show ?thesis by simp
        qed (rule settled)
        with match fv(1) foreign named show ?thesis by (simp add: attempt_ok_def)
      next
        case unsupported
        have "named_families (nb_table_name b) (view k1) = {}"
          using fv(2) [OF unsupported(1)] unsupported(2) inspect_snapshot_Inr(3) by (auto simp: inspect_def)
        moreover have "named_families (nb_table_name b) (commit c handle batch (view k)) \<noteq> {}" for handle
          using commit_named_families [OF insp [unfolded inspect_def] Inr, of handle] build_batch_Inr(3) [OF Inr] work unsupported(3)
          by auto
        ultimately have "view k1 = view k" using kernel_contractD(4) [OF facts(2) ex] by metis
        with unsupported fv(1) show ?thesis by (simp add: attempt_ok_def)
      next
        case uncertain
        with fv(1) foreign show ?thesis by (simp add: attempt_ok_def)
      qed
    qed
  qed
  then show "attempt_ok sha256 c b (view k) (view k') desired r"
    "nb_table_name b' = nb_table_name b \<and> nb_owner b' = nb_owner b"
    "r = Inl (ApplyUnsupported m e) \<Longrightarrow> \<not> is_exists current"
    "r = Inr () \<Longrightarrow> plan_is_empty desired \<Longrightarrow> \<not> nb_managed b'" by blast+
qed


section \<open>The whole call\<close>

definition outcome_ok :: "(bytes \<Rightarrow> bytes) \<Rightarrow> nft_codec \<Rightarrow> NftBackend \<Rightarrow> KernelSnapshot \<Rightarrow> KernelSnapshot \<Rightarrow> Plan \<Rightarrow> box_error + unit \<Rightarrow> bool" where
  "outcome_ok sha256 c b v v' desired r \<longleftrightarrow>
     foreign_objects (nb_table_name b) v' = foreign_objects (nb_table_name b) v \<and>
     (case r of Inr _ \<Rightarrow> settled_plan sha256 c b v' desired | Inl e \<Rightarrow> is_state_uncertain e \<or> v' = v)"

lemma outcome_unchanged: "outcome_ok sha256 c b v v desired (Inl e)"
  by (simp add: outcome_ok_def)

lemma outcome_settled: "settled_plan sha256 c b v desired \<Longrightarrow> outcome_ok sha256 c b v v desired (Inr ())"
  by (simp add: outcome_ok_def)

lemma attempt_outcome: "attempt_ok sha256 c b v v' desired r \<Longrightarrow> outcome_ok sha256 c b v v' desired (apply_result r)"
  by (cases r rule: apply_result.cases) (auto simp: attempt_ok_def outcome_ok_def)

lemma outcome_named: "nb_table_name b' = nb_table_name b \<Longrightarrow> nb_owner b' = nb_owner b \<Longrightarrow>
    outcome_ok sha256 c b' v v' desired r = outcome_ok sha256 c b v v' desired r"
  by (simp add: outcome_ok_def settled_plan_def inspect_def split: sum.split)

lemma retry_split_outcome:
  assumes setting: "nft_setting sha256 c kern view b k desired" and work: "\<not> plan_is_empty desired"
    and run: "retry_split sha256 c kern desired (plan_digest sha256 desired) e (b, k) = ((b', k'), r)"
  shows "outcome_ok sha256 c b (view k) (view k') desired r" "nb_table_name b' = nb_table_name b \<and> nb_owner b' = nb_owner b"
proof -
  note contract = kernel_contractD [OF nft_settingD(2) [OF setting]]
  have "outcome_ok sha256 c b (view k) (view k') desired r \<and> nb_table_name b' = nb_table_name b \<and> nb_owner b' = nb_owner b"
  proof (cases "kn_open kern k")
    case op: (Pair k1 o1)
    note v1 = contract(1) [OF op]
    obtain k2 o2 where sn: "kn_snapshot kern k1 = (k2, o2)" by fastforce
    note v2 = contract(2) [OF sn]
    show ?thesis
    proof (cases "\<exists>x y current. o1 = Inr x \<and> o2 = Inr y \<and> inspect sha256 c b y = Inr current")
      case False
      with run op sn v1 v2 show ?thesis
        by (auto simp: retry_split_def Let_def outcome_unchanged split: sum.splits)
    next
      case True
      then obtain x current where o: "o1 = Inr x" "o2 = Inr (view k2)" "inspect sha256 c b (view k2) = Inr current"
        using contract(3) sn v2 by (metis (no_types, lifting))
      note setting2 = nft_setting_same_view [OF setting, of k2 b, OF _ refl]
      have "(matches current ModeInet (plan_digest sha256 desired) (rule_count desired) \<and> r = Inr () \<and>
          b' = b\<lparr> nb_managed := True, nb_mode := ModeInet \<rparr> \<and> k' = k2) \<or> (\<exists>e. r = Inl e) \<and> b' = b \<and> k' = k2 \<or>
        (\<exists>s'. apply_state sha256 c kern current desired (plan_digest sha256 desired) ModeSplit (b, k2) = ((b', k'), s') \<and> r = apply_result s')"
      proof (cases "reject_external_conflicts c (is_raw current) (nb_table_name b) desired")
        case (Inl e)
        from run show ?thesis by (auto simp: retry_split_def Let_def op sn o Inl split: if_splits)
      next
        case (Inr u)
        from run show ?thesis by (auto simp: retry_split_def Let_def op sn o Inr split: if_splits prod.splits)
      qed
      then consider (match) "matches current ModeInet (plan_digest sha256 desired) (rule_count desired)" "r = Inr ()"
          "b' = b\<lparr> nb_managed := True, nb_mode := ModeInet \<rparr>" "k' = k2"
        | (refused) "\<exists>e. r = Inl e" "b' = b" "k' = k2"
        | (tried) s' where "apply_state sha256 c kern current desired (plan_digest sha256 desired) ModeSplit (b, k2) = ((b', k'), s')"
          "r = apply_result s'"
        by blast
      then show ?thesis
      proof cases
        case match
        with matches_settled [OF setting2 o(3) match(1)] v1 v2 outcome_settled show ?thesis by simp
      next
        case refused
        with v1 v2 outcome_unchanged show ?thesis by auto
      next
        case tried
        with apply_state_attempt(1,2) [OF setting2 o(3) _ tried(1)] v1 v2 work attempt_outcome show ?thesis by metis
      qed
    qed
  qed
  then show "outcome_ok sha256 c b (view k) (view k') desired r" "nb_table_name b' = nb_table_name b \<and> nb_owner b' = nb_owner b"
    by blast+
qed


text \<open>A call that could not read the kernel can only succeed when there was nothing to remove: the
  connection was refused for lack of permission or of the netlink family, or the dump for lack of
  permission.\<close>

definition unreadable :: "'k nft_kernel \<Rightarrow> 'k \<Rightarrow> bool" where
  "unreadable kern k \<longleftrightarrow>
     (case kn_open kern k of
        (_, Inl error) \<Rightarrow> is_permission_errno error \<or> is_capability_errno error
      | (k1, Inr _) \<Rightarrow> (case kn_snapshot kern k1 of (_, Inl error) \<Rightarrow> is_permission_errno error | _ \<Rightarrow> False))"

definition nothing_managed :: "'k nft_kernel \<Rightarrow> 'k \<Rightarrow> NftBackend \<Rightarrow> Plan \<Rightarrow> bool" where
  "nothing_managed kern k b desired \<longleftrightarrow> plan_is_empty desired \<and> \<not> nb_managed b \<and> unreadable kern k"

lemma adopt_same [simp]: "nb_table_name (adopt current b) = nb_table_name b" "nb_owner (adopt current b) = nb_owner b"
  by (simp_all add: adopt_def Let_def)

text \<open>An empty plan matches a kernel without managed tables, so the branch that resets the managed flag
  is never taken.\<close>

lemma empty_matches:
  "plan_is_empty desired \<Longrightarrow> \<not> is_exists current \<Longrightarrow> matches current mode digest (rule_count desired)"
  by (simp add: matches_def rule_count_def plan_is_empty_def)

lemma apply_inspected_outcome:
  assumes setting: "nft_setting sha256 c kern view b k desired" and insp: "inspect sha256 c b (view k) = Inr current"
    and run: "apply_inspected sha256 c kern current (b, k) desired = ((b', k'), r)"
  shows "outcome_ok sha256 c b (view k) (view k') desired r" (is ?ok)
    "nb_table_name b' = nb_table_name b \<and> nb_owner b' = nb_owner b" (is ?same)
    "r = Inr () \<Longrightarrow> check_conflicts c b current desired = Inr ()"
proof -
  let ?digest = "plan_digest sha256 desired" and ?mode = "select_mode b current"
  show "r = Inr () \<Longrightarrow> check_conflicts c b current desired = Inr ()"
    using run by (cases "check_conflicts c b current desired") (auto simp: apply_inspected_def split: if_splits)
  have idle: "settled_plan sha256 c b (view k) desired" if "matches current ?mode ?digest (rule_count desired)"
    by (rule matches_settled [OF setting insp that])
  obtain b1 k1 tried where ap: "apply_state sha256 c kern current desired ?digest ?mode (b, k) = ((b1, k1), tried)"
    by (metis prod_cases3 prod.collapse)
  have "?ok \<and> ?same"
  proof (cases "check_conflicts c b current desired")
    case (Inl error)
    from run show ?thesis by (auto simp: apply_inspected_def Inl outcome_unchanged split: if_splits)
  next
    case (Inr u)
    let ?M = "matches current ?mode ?digest (rule_count desired)" and ?W = "is_exists current \<or> \<not> plan_is_empty desired"
    have "(\<exists>e. r = Inl e \<and> b' = b \<and> k' = k) \<or> ?M \<and> r = Inr () \<and> b' = b \<and> k' = k \<or> \<not> ?M \<and> \<not> ?W \<or>
      ?W \<and> r = apply_result tried \<and> b' = b1 \<and> k' = k1 \<or>
      ?W \<and> (\<exists>m source. tried = Inl (ApplyUnsupported m source) \<and>
        retry_split sha256 c kern desired ?digest source (b1, k1) = ((b', k'), r))"
    proof (cases tried rule: apply_result.cases)
      case 2
      from run show ?thesis
        by (simp add: apply_inspected_def Let_def Inr ap 2 split: if_split_asm) blast+
    qed (use run in \<open>auto simp: apply_inspected_def Let_def Inr ap split: if_split_asm\<close>)
    then consider "\<exists>e. r = Inl e \<and> b' = b \<and> k' = k"
      | (same) ?M "r = Inr ()" "b' = b" "k' = k"
      | (one) ?W "r = apply_result tried" "b' = b1" "k' = k1"
      | (two) m source where ?W "tried = Inl (ApplyUnsupported m source)"
          "retry_split sha256 c kern desired ?digest source (b1, k1) = ((b', k'), r)"
      using empty_matches by blast
    then show ?thesis
    proof cases
      case 1
      then show ?thesis using outcome_unchanged by auto
    next
      case same
      then show ?thesis using outcome_settled idle by auto
    next
      case one
      with apply_state_attempt(1,2) [OF setting insp one(1) ap] attempt_outcome show ?thesis by blast
    next
      case two
      note first = apply_state_attempt [OF setting insp two(1) ap]
      from first(1) two(2) have "view k1 = view k" by (simp add: attempt_ok_def)
      moreover from first(3) two(1,2) have "\<not> plan_is_empty desired" by blast
      ultimately show ?thesis
        using retry_split_outcome [OF nft_setting_same_view [OF setting] _ two(3)] first(2) outcome_named by metis
    qed
  qed
  then show ?ok ?same by blast+
qed

lemma nft_apply_outcome:
  assumes setting: "nft_setting sha256 c kern view b k desired"
    and run: "nft_apply sha256 c kern (b, k) desired = ((b', k'), r)"
  shows "outcome_ok sha256 c b (view k) (view k') desired r \<and>
      (r = Inr () \<longrightarrow> plan_is_empty desired \<or> reject_external_conflicts c (view k) (nb_table_name b) desired = Inr ()) \<or>
      nothing_managed kern k b desired \<and> r = Inr () \<and> view k' = view k" (is ?ok)
    "nb_table_name b' = nb_table_name b \<and> nb_owner b' = nb_owner b" (is ?same)
proof -
  note contract = kernel_contractD [OF nft_settingD(2) [OF setting]]
  obtain k1 o1 where op: "kn_open kern k = (k1, o1)" by fastforce
  note v1 = contract(1) [OF op]
  obtain k2 o2 where sn: "kn_snapshot kern k1 = (k2, o2)" by fastforce
  note v2 = contract(2) [OF sn]
  have "?ok \<and> ?same"
  proof (cases "\<exists>x y current. o1 = Inr x \<and> o2 = Inr y \<and> inspect sha256 c b y = Inr current")
    case False
    with run op sn v1 v2 show ?thesis
      by (auto simp: nft_apply_def outcome_unchanged nothing_managed_def unreadable_def split: sum.splits if_splits)
  next
    case True
    then obtain x current where o: "o1 = Inr x" "o2 = Inr (view k2)" "inspect sha256 c b (view k2) = Inr current"
      using contract(3) sn v2 by (metis (no_types, lifting))
    have raw: "is_raw current = view k2" using inspect_snapshot_Inr(1) o(3) by (auto simp: inspect_def)
    have insp: "inspect sha256 c (adopt current b) (view k2) = Inr current" using o(3) by (simp add: inspect_def)
    from v1 v2 have setting2: "nft_setting sha256 c kern view (adopt current b) k2 desired"
      by (intro nft_setting_same_view [OF setting]) simp_all
    from run op sn o have "apply_inspected sha256 c kern current (adopt current b, k2) desired = ((b', k'), r)"
      by (simp add: nft_apply_def)
    from apply_inspected_outcome [OF setting2 insp this] v1 v2 show ?thesis
      by (auto simp: outcome_named [of "adopt current b" b] check_conflicts_def raw split: if_splits)
  qed
  then show ?ok ?same by blast+
qed



text \<open>C28 (applying a plan twice touches the kernel once): after a successful call with a plan that is not
  empty, a second call with the same plan that can open and read the kernel recognises the tables the
  first one left and succeeds without submitting anything.\<close>

theorem nft_apply_idempotent:
  assumes "nft_setting sha256 c kern view b k desired" and "\<not> plan_is_empty desired"
    and "nft_apply sha256 c kern (b, k) desired = ((b1, k1), Inr ())"
    and "kn_open kern k1 = (k2, Inr ())" and "kn_snapshot kern k2 = (k3, Inr raw)"
  shows "\<exists>b2. nft_apply sha256 c kern (b1, k1) desired = ((b2, k3), Inr ())"
proof -
  note contract = kernel_contractD [OF nft_settingD(2) [OF assms(1)]]
  note first = nft_apply_outcome [OF assms(1,3)]
  from first(1) assms(2) have "outcome_ok sha256 c b (view k) (view k1) desired (Inr ())"
    and clear: "reject_external_conflicts c (view k) (nb_table_name b) desired = Inr ()"
    by (auto simp: nothing_managed_def)
  then obtain st mode where insp: "inspect sha256 c b (view k1) = Inr st"
    and match: "matches st mode (plan_digest sha256 desired) (rule_count desired)"
    and foreign: "foreign_objects (nb_table_name b) (view k1) = foreign_objects (nb_table_name b) (view k)"
    by (auto simp: outcome_ok_def settled_plan_def)
  have raw: "raw = view k1" using contract(1) [OF assms(4)] contract(3) [OF assms(5)] by simp
  have insp': "inspect sha256 c b1 raw = Inr st" using insp first(2) by (simp add: inspect_def raw)
  have st: "is_raw st = view k1" using inspect_snapshot_Inr(1) insp by (auto simp: inspect_def)
  from nft_settingD(5) [OF assms(1)] assms(2) match have "is_complete st" "is_mode st = mode"
    by (auto simp: matches_def rule_count_0 split: if_splits)
  then have "select_mode (adopt st b1) st = mode" by (simp add: select_mode_def)
  moreover have "check_conflicts c (adopt st b1) st desired = Inr ()"
    using assms(2) clear reject_external_conflicts_foreign [OF foreign] first(2) by (simp add: check_conflicts_def st)
  ultimately show ?thesis
    using assms(2,4,5) insp' match by (simp add: nft_apply_def apply_inspected_def Let_def)
qed

text \<open>What makes a table provably the backend's own: one chain, at least one rule, every rule of the
  table, in whatever chain, marked by this owner, and no container marker of another owner. The
  chain of every rule is part of the kernel's dump.\<close>

definition own_table :: "NftBackend \<Rightarrow> KernelSnapshot \<Rightarrow> TableState \<Rightarrow> bool" where
  "own_table b v t \<longleftrightarrow>
     (\<exists>chain. filter (\<lambda>ch. nch_family ch = nt_family t \<and> nch_table ch = nt_name t) (ks_chains v) = [chain] \<and>
        (\<forall>m. decode_optional_container_marker (nch_user_data chain) CHAIN_MARKER_MAGIC = Inr (Some m) \<longrightarrow> cm_owner m = nb_owner b)) \<and>
     (\<exists>rule \<in> set (ks_rules v). nr_family rule = nt_family t \<and> nr_table rule = nt_name t) \<and>
     (\<forall>rule \<in> set (ks_rules v). nr_family rule = nt_family t \<and> nr_table rule = nt_name t \<longrightarrow>
        (\<exists>marker. decode_rule_marker (nr_user_data rule) = Inr marker \<and> rm_owner marker = nb_owner b)) \<and>
     (\<forall>m. decode_optional_container_marker (nt_user_data t) TABLE_MARKER_MAGIC = Inr (Some m) \<longrightarrow> cm_owner m = nb_owner b)"

definition chains_listed :: "KernelSnapshot \<Rightarrow> bool" where
  "chains_listed v \<longleftrightarrow> (\<forall>rule \<in> set (ks_rules v). \<exists>ch \<in> set (ks_chains v).
     nch_family ch = nr_family rule \<and> nch_table ch = nr_table rule \<and> nch_name ch = nr_chain rule)"

lemma inspected_own_table:
  assumes "inspect sha256 c b v = Inr st" and "chains_listed v"
    and t: "t \<in> set (ks_tables v)" "nt_name t = nb_table_name b"
  shows "own_table b v t"
proof -
  note insp = inspect_snapshot_Inr [OF assms(1) [unfolded inspect_def]]
  from insp(2) t have "t \<in> set (is_tables st)" by simp
  from insp(4) [OF this] obtain digest n where
    "inspect_managed_table sha256 c (nb_table_name b) (nb_owner b) t v = Inr (digest, n)" by auto
  then obtain table_marker chain chain_marker d m where
    tm: "decode_optional_container_marker (nt_user_data t) TABLE_MARKER_MAGIC = Inr table_marker"
      "\<not> foreign_container (nb_owner b) table_marker"
    and chain: "managed_chains (nb_table_name b) t v = [chain]" "is_managed_chain c chain"
    and cm: "decode_optional_container_marker (nch_user_data chain) CHAIN_MARKER_MAGIC = Inr chain_marker"
      "\<not> foreign_container (nb_owner b) chain_marker"
    and ne: "managed_rules (nb_table_name b) t v \<noteq> []"
    and loop: "owned_loop c (show_family (nt_family t) @ ''/'' @ nb_table_name b) (nb_owner b)
         (managed_rules (nb_table_name b) t v) None [] = Inr (d, m)"
    unfolding inspect_managed_table_iff inspect_owned_rules_iff by blast
  have mine: "rule \<in> set (managed_rules (nb_table_name b) t v)"
    if rule: "rule \<in> set (ks_rules v)" "nr_family rule = nt_family t" "nr_table rule = nt_name t" for rule
  proof -
    from assms(2) rule obtain ch where ch: "ch \<in> set (ks_chains v)" "nch_family ch = nt_family t"
      "nch_table ch = nt_name t" "nch_name ch = nr_chain rule"
      by (auto simp: chains_listed_def)
    then have "ch \<in> set (managed_chains (nb_table_name b) t v)" by (simp add: managed_chains_def t(2))
    with chain ch(4) have "nr_chain rule = CHAIN_NAME" by (simp add: is_managed_chain_def)
    with rule t(2) show ?thesis by (simp add: managed_rules_def)
  qed
  have marked: "\<exists>marker. decode_rule_marker (nr_user_data rule) = Inr marker \<and> rm_owner marker = nb_owner b"
    if "rule \<in> set (managed_rules (nb_table_name b) t v)" for rule
    using owned_loop_Inr [OF loop] that by auto
  obtain rule where "rule \<in> set (managed_rules (nb_table_name b) t v)" using ne by (cases "managed_rules (nb_table_name b) t v") auto
  then have some: "\<exists>rule \<in> set (ks_rules v). nr_family rule = nt_family t \<and> nr_table rule = nt_name t"
    by (auto simp: managed_rules_def t(2))
  have one: "filter (\<lambda>ch. nch_family ch = nt_family t \<and> nch_table ch = nt_name t) (ks_chains v) = [chain]"
    using chain(1) by (simp add: managed_chains_def t(2))
  show ?thesis
    unfolding own_table_def using one some mine marked tm cm by (auto simp: foreign_container_def)
qed

text \<open>C29 (a table that is not provably its own is never removed): when a table with the backend's name
  has another chain or none, no rule, a rule in any chain without a marker of this owner, or a container
  marker of another owner, the call leaves the kernel as it was. It does not succeed either,
  unless there was nothing to apply, nothing was managed and the kernel could not be read.\<close>

theorem unowned_tables_kept:
  assumes "kernel_contract c kern view" and "chains_listed (view k)"
    and "t \<in> set (ks_tables (view k))" and "nt_name t = nb_table_name b" and "\<not> own_table b (view k) t"
    and "nft_apply sha256 c kern (b, k) desired = ((b', k'), r)"
  shows "view k' = view k \<and> (r = Inr () \<longrightarrow> plan_is_empty desired \<and> \<not> nb_managed b \<and> unreadable kern k)"
proof -
  note contract = kernel_contractD [OF assms(1)]
  have refused: "\<exists>e. inspect sha256 c b (view k) = Inl e"
    using inspected_own_table [OF _ assms(2-4)] assms(5) by (cases "inspect sha256 c b (view k)") blast+
  obtain k1 o1 where op: "kn_open kern k = (k1, o1)" by fastforce
  obtain k2 o2 where sn: "kn_snapshot kern k1 = (k2, o2)" by fastforce
  note views = contract(1) [OF op] contract(2) [OF sn]
  have "raw = view k" if "o2 = Inr raw" for raw
    using contract(3) [of k1 k2 raw] sn that views(1) by simp
  with assms(6) op sn views refused show ?thesis
    by (auto simp: nft_apply_def unreadable_def split: sum.splits if_splits)
qed

section \<open>Witnesses\<close>

text \<open>A codec that keeps attributes as they are, and a kernel that is its own snapshot.\<close>

definition plain_codec :: nft_codec where
  "plain_codec = \<lparr> nc_element = (\<lambda>e. Element [ExpressionData e]),
     nc_register = (\<lambda>w. if w = 1 then Reg1 else if w = 2 then Reg2 else OtherRegister w),
     nc_register_u32 = (\<lambda>r. case r of Verdict \<Rightarrow> 0 | Reg1 \<Rightarrow> 1 | Reg2 \<Rightarrow> 2 | OtherRegister w \<Rightarrow> w),
     nc_operator = (\<lambda>w. if w = 0 then OpEqual else OtherOperator w),
     nc_operator_u32 = (\<lambda>x. case x of OpEqual \<Rightarrow> 0 | OtherOperator w \<Rightarrow> w),
     nc_emit = id, nc_nlas = (\<lambda>octets. [Some (1, octets)]), nc_prerouting = 0 \<rparr>"

definition plain_kernel :: "KernelSnapshot nft_kernel" where
  "plain_kernel = \<lparr> kn_open = (\<lambda>k. (k, Inr ())), kn_snapshot = (\<lambda>k. (k, Inr k)),
     kn_execute = (\<lambda>batch k. (commit plain_codec (\<lambda>_. 7) batch k, Inr ())) \<rparr>"

lemma plain_laws: "codec_laws plain_codec" "kernel_contract plain_codec plain_kernel (\<lambda>k. k)"
  by (simp_all add: codec_laws_def plain_codec_def kernel_contract_def plain_kernel_def) blast


definition ex_hash :: "bytes \<Rightarrow> bytes" where
  "ex_hash octets = (if octets = plan_input ex_plan then replicate 32 1 else replicate 32 0)"

definition ex_backend :: NftBackend where
  "ex_backend = \<lparr> nb_table_name = ''na'', nb_owner = replicate 6 0, nb_managed = False, nb_mode = ModeUnknown \<rparr>"

definition ex_kernel :: "string \<Rightarrow> KernelSnapshot" where
  "ex_kernel name =
     \<lparr> ks_tables = [\<lparr> nt_family = Inet, nt_name = name, nt_handle = 1, nt_user_data = [] \<rparr>],
       ks_chains = [\<lparr> nch_family = Inet, nch_table = name, nch_name = CHAIN_NAME, nch_type = Some ''nat'', nch_hook = Some 0,
         nch_priority = Some 0, nch_policy = None, nch_user_data = [] \<rparr>],
       ks_rules = [\<lparr> nr_family = Inet, nr_table = name, nr_chain = CHAIN_NAME, nr_expressions = [], nr_user_data = [] \<rparr>],
       ks_unavailable = Map.empty \<rparr>"

lemma decode_rule_marker_Nil: "decode_rule_marker [] \<noteq> Inr marker"
  by (simp add: decode_rule_marker_def RULE_MARKER_MAGIC_def)

lemma ex_plan_wf: "plan_wf ex_plan" "nul_free ex_plan" "\<not> plan_is_empty ex_plan"
  by (simp_all add: plan_wf_def ex_plan_def nul_free_def plan_is_empty_def normal_def valid_range_def MAX_NODE_ID_BYTES_def
      gap_def utf8_valid_ascii utf8_valid.simps [of "[]"] byte_of_def)

lemma ex_setting: "nft_setting ex_hash plain_codec plain_kernel (\<lambda>k. k) ex_backend (ex_kernel ''other'') ex_plan"
  using plain_laws ex_plan_wf decode_rule_marker_Nil
  by (simp add: nft_setting_def view_wf_def markers_nul_free_def ex_kernel_def digest_unique_def ex_hash_def ex_backend_def
      replicate_eq_replicate)

lemma ex_clear: "reject_external_conflicts plain_codec (ex_kernel ''other'') ''na'' ex_plan = Inr ()"
proof -
  have "direct_udp_redirect_range plain_codec [] = None"
    by (simp add: direct_udp_redirect_range_def List.map_filter_def)
  then have "\<not> conflicting plain_codec (ex_kernel ''other'') ex_plan t" for t
    by (auto simp: conflicting_def rule_clean_def chain_rules_def ex_kernel_def)
  then show ?thesis by (simp add: reject_external_conflicts_def scan_tables_iff)
qed

lemma ex_first: "\<exists>b k. nft_apply ex_hash plain_codec plain_kernel (ex_backend, ex_kernel ''other'') ex_plan = ((b, k), Inr ())"
proof -
  let ?st = "\<lparr> is_raw = ex_kernel ''other'', is_tables = [], is_exists = False, is_mode = ModeUnknown, is_complete = False,
    is_digest = [], is_rule_count = 0 \<rparr>"
  have insp: "inspect ex_hash plain_codec ex_backend (ex_kernel ''other'') = Inr ?st"
    by (simp add: inspect_def inspect_snapshot_def ex_backend_def ex_kernel_def families_all_def)
  have mode: "select_mode ex_backend ?st = ModeInet"
    by (simp add: select_mode_def ex_backend_def family_unavailable_def ex_kernel_def)
  have "length (ex_hash x) = 32" for x by (simp add: ex_hash_def)
  then obtain batch where "build_batch plain_codec ''na'' (replicate 6 0) ?st ex_plan (plan_digest ex_hash ex_plan) ModeInet = Inr batch"
    using build_batch_ok [OF ex_plan_wf(1), of "replicate 6 0" ex_hash ModeInet plain_codec "''na''" ?st] by auto
  with insp mode ex_clear ex_plan_wf rule_count_0 [OF ex_plan_wf(1)] show ?thesis
    by (simp add: nft_apply_def plain_kernel_def adopt_def apply_inspected_def check_conflicts_def matches_def apply_state_def
        Let_def ex_backend_def)
qed


theorem nft_apply_idempotent_witness:
  "\<exists>b k b'. nft_apply ex_hash plain_codec plain_kernel (ex_backend, ex_kernel ''other'') ex_plan = ((b, k), Inr ()) \<and>
     nft_apply ex_hash plain_codec plain_kernel (b, k) ex_plan = ((b', k), Inr ())"
proof -
  obtain b k where run: "nft_apply ex_hash plain_codec plain_kernel (ex_backend, ex_kernel ''other'') ex_plan = ((b, k), Inr ())"
    using ex_first by blast
  have "kn_open plain_kernel k = (k, Inr ())" "kn_snapshot plain_kernel k = (k, Inr k)" by (simp_all add: plain_kernel_def)
  from nft_apply_idempotent [OF ex_setting ex_plan_wf(3) run this] run show ?thesis by blast
qed

text \<open>A table of the backend's name with a second chain that holds a rule without a marker.\<close>

definition ex_mixed :: KernelSnapshot where
  "ex_mixed = (ex_kernel ''na'')\<lparr>
     ks_chains := ks_chains (ex_kernel ''na'') @ [\<lparr> nch_family = Inet, nch_table = ''na'', nch_name = ''admin'',
       nch_type = None, nch_hook = None, nch_priority = None, nch_policy = None, nch_user_data = [] \<rparr>],
     ks_rules := [\<lparr> nr_family = Inet, nr_table = ''na'', nr_chain = ''admin'', nr_expressions = [], nr_user_data = [] \<rparr>] \<rparr>"

theorem unowned_tables_kept_witness:
  "\<exists>b r. nft_apply ex_hash plain_codec plain_kernel (ex_backend, ex_mixed) ex_plan = ((b, ex_mixed), r) \<and> r \<noteq> Inr ()"
proof -
  obtain b k r where run: "nft_apply ex_hash plain_codec plain_kernel (ex_backend, ex_mixed) ex_plan = ((b, k), r)"
    by (metis prod.collapse)
  let ?t = "\<lparr> nt_family = Inet, nt_name = ''na'', nt_handle = 1, nt_user_data = [] \<rparr>"
  have "chains_listed ex_mixed" "?t \<in> set (ks_tables ex_mixed)" "nt_name ?t = nb_table_name ex_backend"
    "\<not> own_table ex_backend ex_mixed ?t"
    by (simp_all add: ex_mixed_def ex_kernel_def ex_backend_def chains_listed_def own_table_def)
  from unowned_tables_kept [OF plain_laws(2) this run] run ex_plan_wf(3) show ?thesis by auto
qed

end
