(* ===== verification/Nft_Packets.thy ===== *)
theory Nft_Packets
  imports Nft_Apply
begin

text \<open>
  What the rules of foreign tables do to a packet, written down independently of the recogniser of
  \<open>porthopping/backend_linux.rs\<close>: the loads, comparisons and redirects of a rule, in the attributes and the
  order in which the kernel lists them, run on a packet with a protocol and a destination port. The
  conflict check is measured against this: a plan that passes redirects no port that a foreign rule
  for that port redirects.
\<close>

section \<open>Matches on a packet\<close>

datatype packet_match =
    LoadProtocol Register
  | LoadPort Register
  | LoadField Register bytes
  | LoadConstant Register
  | CompareEqual Register bytes
  | InRange Register u16 u16
  | Pass

text \<open>The registers hold what was loaded from the packet, \<open>LoadField\<close> with the content that another field has in it; a
  register that holds anything else compares with nothing.\<close>

fun passes :: "u8 \<Rightarrow> u16 \<Rightarrow> (Register \<rightharpoonup> bytes) \<Rightarrow> packet_match list \<Rightarrow> bool" where
  "passes protocol port regs [] \<longleftrightarrow> True"
| "passes protocol port regs (LoadProtocol r # ms) \<longleftrightarrow> passes protocol port (regs(r \<mapsto> [protocol])) ms"
| "passes protocol port regs (LoadPort r # ms) \<longleftrightarrow> passes protocol port (regs(r \<mapsto> be_u16 port)) ms"
| "passes protocol port regs (LoadField r octets # ms) \<longleftrightarrow> passes protocol port (regs(r \<mapsto> octets)) ms"
| "passes protocol port regs (LoadConstant r # ms) \<longleftrightarrow> passes protocol port (regs(r := None)) ms"
| "passes protocol port regs (CompareEqual r octets # ms) \<longleftrightarrow> regs r = Some octets \<and> passes protocol port regs ms"
| "passes protocol port regs (InRange r low high # ms) \<longleftrightarrow>
     (case regs r of Some [a, b] \<Rightarrow> low \<le> of_be_u16 a b \<and> of_be_u16 a b \<le> high | _ \<Rightarrow> False) \<and>
     passes protocol port regs ms"
| "passes protocol port regs (Pass # ms) \<longleftrightarrow> passes protocol port regs ms"

text \<open>How the kernel lists a match, and the two expressions that redirect. The other fields are those wider than a
  port: addresses, interface names, marks.\<close>

inductive lists :: "nft_codec \<Rightarrow> Expressions \<Rightarrow> packet_match \<Rightarrow> bool" for c where
  "lists c (ExprMeta [MetaKeyAttr L4Proto, MetaDestination r]) (LoadProtocol r)"
| "lists c (ExprPayload [PayloadDestination r, PayloadBase PAYLOAD_BASE_TRANSPORT_HEADER, PayloadOffset 2, PayloadLen 2]) (LoadPort r)"
| "lists c (ExprImmediate [ImmediateDestination r, ImmediateData (DataValue octets)]) (LoadConstant r)"
| "lists c (ExprCmp [CmpSource r, CmpOp OpEqual, CmpData (DataValue octets)]) (CompareEqual r octets)"
| "nc_register c w = r \<Longrightarrow> nc_operator c v = OpEqual \<Longrightarrow> low \<noteq> 0 \<Longrightarrow>
   lists c (ExprOther ''range'' [be_u32_attr 1 w, be_u32_attr 2 v, nested_data_attr c 3 (be_u16 low), nested_data_attr c 4 (be_u16 high)])
     (InRange r low high)"
| "expression_type \<in> {''counter'', ''log''} \<Longrightarrow> lists c (ExprOther expression_type attributes) Pass"
| "2 < length octets \<Longrightarrow> lists c (ExprMeta [MetaKeyAttr (OtherMetaKey key), MetaDestination r]) (LoadField r octets)"
| "2 < len \<Longrightarrow> length octets = unat len \<Longrightarrow>
   lists c (ExprPayload [PayloadDestination r, PayloadBase base, PayloadOffset offset, PayloadLen len]) (LoadField r octets)"

inductive redirecting :: "Expressions \<Rightarrow> bool" where
  "redirecting (ExprOther ''redir'' attributes)"
| "redirecting (ExprOther ''nat'' (be_u32_attr 1 1 # attributes))"

text \<open>A rule for a UDP port: it redirects the packet, and it would not redirect some packet of another
  protocol and some UDP packet to another port.\<close>

definition redirects_port :: "nft_codec \<Rightarrow> ListAttribute list \<Rightarrow> u16 \<Rightarrow> bool" where
  "redirects_port c es port \<longleftrightarrow>
     (\<exists>xs redirect ms. map expression_data es = map Some (xs @ [redirect]) \<and> list_all2 (lists c) xs ms \<and> redirecting redirect \<and>
        passes IPPROTO_UDP port Map.empty ms \<and> (\<exists>protocol. \<not> passes protocol port Map.empty ms) \<and>
        (\<exists>other. \<not> passes IPPROTO_UDP other Map.empty ms))"

section \<open>What a passing rule compares\<close>

definition protocol_registers :: "packet_match list \<Rightarrow> Register set" where
  "protocol_registers ms = {r. LoadProtocol r \<in> set ms}"

definition port_registers :: "packet_match list \<Rightarrow> Register set" where
  "port_registers ms = {r. LoadPort r \<in> set ms}"

text \<open>Two runs whose registers differ only where one value was loaded.\<close>

definition agree :: "Register set \<Rightarrow> bytes \<Rightarrow> (Register \<rightharpoonup> bytes) \<Rightarrow> (Register \<rightharpoonup> bytes) \<Rightarrow> bool" where
  "agree R value regs regs' \<longleftrightarrow> (\<forall>r. regs' r = regs r \<or> r \<in> R \<and> regs r = Some value)"

lemma agree_upd:
  "agree R value regs regs' \<Longrightarrow> agree R value (regs(r := x)) (regs'(r := x))"
  "agree R value regs regs' \<Longrightarrow> r \<in> R \<Longrightarrow> agree R value (regs(r \<mapsto> value)) (regs'(r := x))"
  by (auto simp: agree_def)

lemma agree_read: "agree R value regs regs' \<Longrightarrow> regs r = Some octets \<Longrightarrow> regs' r = Some octets \<or> r \<in> R \<and> octets = value"
  by (auto simp: agree_def dest: spec [of _ r])

lemma protocol_compared:
  assumes "passes p port regs ms" and "\<not> passes q port regs' ms" and "agree R [p] regs regs'" and "protocol_registers ms \<subseteq> R"
  shows "\<exists>r \<in> R. CompareEqual r [p] \<in> set ms"
  using assms
proof (induction ms arbitrary: regs regs')
  case (Cons m ms)
  from Cons.prems(4) have sub: "protocol_registers ms \<subseteq> R" and new: "\<And>r. m = LoadProtocol r \<Longrightarrow> r \<in> R"
    by (auto simp: protocol_registers_def)
  note step = Cons.IH [OF _ _ _ sub] and agree = agree_upd [OF Cons.prems(3)] agree_read [OF Cons.prems(3)]
  show ?case
  proof (cases m)
    case (LoadProtocol r)
    with Cons.prems(1,2) step [OF _ _ agree(2) [OF new]] show ?thesis by (simp del: fun_upd_apply)
  next
    case (LoadPort r)
    with Cons.prems(1,2) step [OF _ _ agree(1)] show ?thesis by (simp del: fun_upd_apply)
  next
    case (LoadField r octets)
    with Cons.prems(1,2) step [OF _ _ agree(1)] show ?thesis by (simp del: fun_upd_apply)
  next
    case (LoadConstant r)
    with Cons.prems(1,2) step [OF _ _ agree(1)] show ?thesis by (simp del: fun_upd_apply)
  next
    case (CompareEqual r octets)
    with Cons.prems(1,2) step [OF _ _ Cons.prems(3)] agree(3) [of r octets] show ?thesis by auto
  next
    case (InRange r low high)
    then obtain x y where "regs r = Some [x, y]" using Cons.prems(1) by (auto split: option.splits list.splits)
    with InRange Cons.prems(1,2) step [OF _ _ Cons.prems(3)] agree(3) [of r "[x, y]"] show ?thesis by auto
  next
    case Pass
    with Cons.prems(1,2) step [OF _ _ Cons.prems(3)] show ?thesis by auto
  qed
qed simp

lemma port_compared:
  assumes "passes p port regs ms" and "\<not> passes p other regs' ms" and "agree R (be_u16 port) regs regs'" and "port_registers ms \<subseteq> R"
  shows "\<exists>r \<in> R. CompareEqual r (be_u16 port) \<in> set ms \<or> (\<exists>low high. InRange r low high \<in> set ms)"
  using assms
proof (induction ms arbitrary: regs regs')
  case (Cons m ms)
  from Cons.prems(4) have sub: "port_registers ms \<subseteq> R" and new: "\<And>r. m = LoadPort r \<Longrightarrow> r \<in> R"
    by (auto simp: port_registers_def)
  note step = Cons.IH [OF _ _ _ sub] and agree = agree_upd [OF Cons.prems(3)] agree_read [OF Cons.prems(3)]
  show ?case
  proof (cases m)
    case (LoadProtocol r)
    with Cons.prems(1,2) step [OF _ _ agree(1)] show ?thesis by (simp del: fun_upd_apply)
  next
    case (LoadPort r)
    with Cons.prems(1,2) step [OF _ _ agree(2) [OF new]] show ?thesis by (simp del: fun_upd_apply)
  next
    case (LoadField r octets)
    with Cons.prems(1,2) step [OF _ _ agree(1)] show ?thesis by (simp del: fun_upd_apply)
  next
    case (LoadConstant r)
    with Cons.prems(1,2) step [OF _ _ agree(1)] show ?thesis by (simp del: fun_upd_apply)
  next
    case (CompareEqual r octets)
    with Cons.prems(1,2) step [OF _ _ Cons.prems(3)] agree(3) [of r octets] show ?thesis by auto
  next
    case (InRange r low high)
    then obtain x y where "regs r = Some [x, y]" using Cons.prems(1) by (auto split: option.splits list.splits)
    with InRange Cons.prems(1,2) step [OF _ _ Cons.prems(3)] agree(3) [of r "[x, y]"] show ?thesis by auto
  next
    case Pass
    with Cons.prems(1,2) step [OF _ _ Cons.prems(3)] show ?thesis by auto
  qed
qed simp

text \<open>The comparisons of a passing rule hold of the port.\<close>

fun holds_of :: "u16 \<Rightarrow> Register set \<Rightarrow> packet_match \<Rightarrow> bool" where
  "holds_of port R (CompareEqual r octets) \<longleftrightarrow> (length octets = 2 \<longrightarrow> octets = be_u16 port)"
| "holds_of port R (InRange r low high) \<longleftrightarrow> r \<in> R \<and> low \<le> port \<and> port \<le> high"
| "holds_of port R _ \<longleftrightarrow> True"

definition loaded :: "u8 \<Rightarrow> u16 \<Rightarrow> Register set \<Rightarrow> (Register \<rightharpoonup> bytes) \<Rightarrow> bool" where
  "loaded p port R regs \<longleftrightarrow> (\<forall>r octets. regs r = Some octets \<longrightarrow> octets = [p] \<or> 2 < length octets \<or> r \<in> R \<and> octets = be_u16 port)"

definition wide_fields :: "packet_match list \<Rightarrow> bool" where
  "wide_fields ms \<longleftrightarrow> (\<forall>r octets. LoadField r octets \<in> set ms \<longrightarrow> 2 < length octets)"

lemma loaded_upd:
  "loaded p port R regs \<Longrightarrow> loaded p port R (regs(r \<mapsto> [p]))" "loaded p port R regs \<Longrightarrow> loaded p port R (regs(r := None))"
  "loaded p port R regs \<Longrightarrow> r \<in> R \<Longrightarrow> loaded p port R (regs(r \<mapsto> be_u16 port))"
  "loaded p port R regs \<Longrightarrow> 2 < length octets \<Longrightarrow> loaded p port R (regs(r \<mapsto> octets))"
  by (auto simp: loaded_def)

lemma passes_holds:
  assumes "passes p port regs ms" and "loaded p port R regs" and "port_registers ms \<subseteq> R" and "wide_fields ms"
  shows "\<forall>m \<in> set ms. holds_of port R m"
  using assms
proof (induction ms arbitrary: regs)
  case (Cons m ms)
  obtain a b where be: "be_u16 port = [a, b]" "of_be_u16 a b = port" by (rule be_u16_pair)
  from Cons.prems(3) have sub: "port_registers ms \<subseteq> R" and new: "\<And>r. m = LoadPort r \<Longrightarrow> r \<in> R"
    by (auto simp: port_registers_def)
  from Cons.prems(4) have rest: "wide_fields ms" and field: "\<And>r octets. m = LoadField r octets \<Longrightarrow> 2 < length octets"
    by (auto simp: wide_fields_def)
  note step = Cons.IH [OF _ _ sub rest] and kept = loaded_upd [OF Cons.prems(2)]
    and read = Cons.prems(2) [unfolded loaded_def, rule_format]
  show ?case
  proof (cases m)
    case (LoadProtocol r)
    with Cons.prems(1) step [OF _ kept(1)] show ?thesis by (simp del: fun_upd_apply)
  next
    case (LoadPort r)
    with Cons.prems(1) step [OF _ kept(3) [OF new]] show ?thesis by (simp del: fun_upd_apply)
  next
    case (LoadField r octets)
    with Cons.prems(1) step [OF _ kept(4) [OF field]] show ?thesis by (simp del: fun_upd_apply)
  next
    case (LoadConstant r)
    with Cons.prems(1) step [OF _ kept(2)] show ?thesis by (simp del: fun_upd_apply)
  next
    case (CompareEqual r octets)
    with Cons.prems(1) step [OF _ Cons.prems(2)] read [of r octets] show ?thesis by auto
  next
    case (InRange r low high)
    with Cons.prems(1) obtain x y where reg: "regs r = Some [x, y]" "low \<le> of_be_u16 x y" "of_be_u16 x y \<le> high"
      by (auto split: option.splits list.splits)
    with read [of r "[x, y]"] be have "r \<in> R" "x = a" "y = b" by auto
    with reg be InRange Cons.prems(1) step [OF _ Cons.prems(2)] show ?thesis by auto
  next
    case Pass
    with Cons.prems(1) step [OF _ Cons.prems(2)] show ?thesis by simp
  qed
qed simp

section \<open>The recogniser sees the comparisons\<close>

lemma lists_use:
  assumes "lists c x m"
  shows "set (ru_l4 (use_expression u x)) = set (ru_l4 u) \<union> {r. m = LoadProtocol r}"
    "set (ru_port (use_expression u x)) = set (ru_port u) \<union> {r. m = LoadPort r}"
  using assms by (cases; auto simp: use_expression_def)+

lemma lists_registers:
  assumes "list_all2 (lists c) xs ms"
  shows "set (ru_l4 (foldl use_expression u xs)) = set (ru_l4 u) \<union> protocol_registers ms \<and>
    set (ru_port (foldl use_expression u xs)) = set (ru_port u) \<union> port_registers ms"
  using assms
proof (induction arbitrary: u rule: list_all2_induct)
  case (Cons x xs m ms)
  with lists_use [OF Cons.hyps(1), of u] show ?case by (auto simp: protocol_registers_def port_registers_def)
qed (simp add: protocol_registers_def port_registers_def)

lemma lists_wide: "list_all2 (lists c) xs ms \<Longrightarrow> wide_fields ms"
proof (induction rule: list_all2_induct)
  case (Cons x xs m ms)
  have "m = LoadField r octets \<Longrightarrow> 2 < length octets" for r octets
    using Cons.hyps(1) by (cases; auto simp: word_less_nat_alt)
  with Cons.IH show ?case by (auto simp: wide_fields_def)
qed (simp add: wide_fields_def)

lemma redirecting_use:
  assumes "redirecting x"
  shows "ru_redirect (use_expression u x)" "ru_l4 (use_expression u x) = ru_l4 u" "ru_port (use_expression u x) = ru_port u"
    "match_expression c v st x = st"
  using assms by (cases; simp add: use_expression_def match_expression_def)+

lemma match_ports:
  "foldl (match_port (ExprCmp [CmpSource r, CmpOp OpEqual, CmpData (DataValue octets)])) found registers =
     (case octets of
        [a, b] \<Rightarrow> if r \<in> set registers \<and> of_be_u16 a b \<noteq> 0 then Some (PortRange (of_be_u16 a b) (of_be_u16 a b)) else found
      | _ \<Rightarrow> found)"
  by (induction registers arbitrary: found)
     (auto simp: match_port_def cmp_equal_data_def Let_def split: list.splits)

definition covers :: "u16 \<Rightarrow> port_range option \<Rightarrow> bool" where
  "covers port found \<longleftrightarrow> (\<forall>r. found = Some r \<longrightarrow> unat port \<in> range_ports r)"

lemma covers_simps [simp]:
  "covers port None" "covers port (Some (PortRange low high)) \<longleftrightarrow> low \<le> port \<and> port \<le> high"
  by (auto simp: covers_def range_ports_def word_le_nat_alt)

text \<open>One comparison of a passing rule.\<close>

lemma match_listed:
  assumes laws: "codec_laws c" and listed: "lists c x m" and "holds_of port (set (ru_port u)) m" and "port \<noteq> 0"
    and "covers port (snd st)"
  shows "covers port (snd (match_expression c u st x))" (is ?covers)
    "fst (match_expression c u st x) \<longleftrightarrow> fst st \<or> (\<exists>r \<in> set (ru_l4 u). m = CompareEqual r [IPPROTO_UDP])" (is ?udp)
    "snd st \<noteq> None \<or> (\<exists>r \<in> set (ru_port u). m = CompareEqual r (be_u16 port) \<or> (\<exists>low high. m = InRange r low high)) \<Longrightarrow>
     snd (match_expression c u st x) \<noteq> None"
proof -
  obtain a b where be: "be_u16 port = [a, b]" "of_be_u16 a b = port" by (rule be_u16_pair)
  have "?covers \<and> ?udp \<and> (snd st \<noteq> None \<or> (\<exists>r \<in> set (ru_port u). m = CompareEqual r (be_u16 port) \<or>
      (\<exists>low high. m = InRange r low high)) \<longrightarrow> snd (match_expression c u st x) \<noteq> None)"
    using listed
  proof cases
    case (4 r octets)
    have l4: "list_ex (\<lambda>register. cmp_equal_data x register = Some [IPPROTO_UDP]) (ru_l4 u) \<longleftrightarrow>
        r \<in> set (ru_l4 u) \<and> octets = [IPPROTO_UDP]"
      by (auto simp: 4 cmp_equal_data_def list_ex_iff)
    have run: "match_expression c u st x = (fst st \<or> r \<in> set (ru_l4 u) \<and> octets = [IPPROTO_UDP],
        foldl (match_port x) (snd st) (ru_port u))"
      using l4 by (simp add: match_expression_def 4)
    show ?thesis
    proof (cases "length octets = 2")
      case True
      then have "octets = [a, b]" using assms(3) be by (simp add: 4)
      with assms(4,5) be run show ?thesis by (simp add: 4 match_ports)
    next
      case False
      then have "foldl (match_port x) (snd st) (ru_port u) = snd st"
        unfolding 4 match_ports by (auto split: list.splits)
      moreover have "octets \<noteq> be_u16 port" using False be by auto
      ultimately show ?thesis using assms(5) run by (simp add: 4)
    qed
  next
    case (5 w r v low high)
    obtain d e where lo: "be_u16 low = [d, e]" "of_be_u16 d e = low" by (rule be_u16_pair)
    obtain f g where hi: "be_u16 high = [f, g]" "of_be_u16 f g = high" by (rule be_u16_pair)
    have "parse_range_attributes c [be_u32_attr 1 w, be_u32_attr 2 v, nested_data_attr c 3 (be_u16 low),
        nested_data_attr c 4 (be_u16 high)] = Some (r, OpEqual, [d, e], [f, g])"
      using laws 5 by (simp add: parse_range_attributes_def lo(1) hi(1))
    with 5 assms(3) lo(2) hi(2) show ?thesis
      by (auto simp: match_expression_def Let_def lo(1) hi(1))
  next
    case (6 expression_type attributes)
    with assms(5) show ?thesis by (auto simp: match_expression_def)
  qed (use assms(5) in \<open>auto simp: match_expression_def\<close>)
  then show ?covers ?udp
    "snd st \<noteq> None \<or> (\<exists>r \<in> set (ru_port u). m = CompareEqual r (be_u16 port) \<or> (\<exists>low high. m = InRange r low high)) \<Longrightarrow>
     snd (match_expression c u st x) \<noteq> None" by blast+
qed

lemma matches_listed:
  assumes laws: "codec_laws c" and "list_all2 (lists c) xs ms" and "\<forall>m \<in> set ms. holds_of port (set (ru_port u)) m"
    and port: "port \<noteq> 0" and "covers port (snd st)"
  shows "covers port (snd (foldl (match_expression c u) st xs)) \<and>
    (fst (foldl (match_expression c u) st xs) \<longleftrightarrow> fst st \<or> (\<exists>r \<in> set (ru_l4 u). CompareEqual r [IPPROTO_UDP] \<in> set ms)) \<and>
    (snd st \<noteq> None \<or> (\<exists>r \<in> set (ru_port u). CompareEqual r (be_u16 port) \<in> set ms \<or> (\<exists>low high. InRange r low high \<in> set ms)) \<longrightarrow>
     snd (foldl (match_expression c u) st xs) \<noteq> None)"
  using assms(2,3,5)
proof (induction arbitrary: st rule: list_all2_induct)
  case (Cons x xs m ms)
  from Cons.prems(1) have m: "holds_of port (set (ru_port u)) m" and rest: "\<forall>m \<in> set ms. holds_of port (set (ru_port u)) m"
    by simp_all
  note one = match_listed [OF laws Cons.hyps(1) m port Cons.prems(2)]
  from Cons.IH [OF rest one(1)] one(2,3) show ?case by auto
qed simp

lemma map_filter_all: "map f xs = map Some ys \<Longrightarrow> List.map_filter f xs = ys"
proof (induction xs arbitrary: ys)
  case (Cons x xs)
  then show ?case by (cases ys) (auto simp: List.map_filter_simps)
qed (simp add: List.map_filter_simps)

lemma redirect_recognised:
  assumes laws: "codec_laws c" and rule: "redirects_port c es port" and port: "port \<noteq> 0"
  shows "\<exists>existing. direct_udp_redirect_range c es = Some existing \<and> unat port \<in> range_ports existing"
proof -
  from rule obtain xs redirect ms protocol other where
    es: "map expression_data es = map Some (xs @ [redirect])" and listed: "list_all2 (lists c) xs ms"
    and red: "redirecting redirect" and pass: "passes IPPROTO_UDP port Map.empty ms"
    and fails: "\<not> passes protocol port Map.empty ms" "\<not> passes IPPROTO_UDP other Map.empty ms"
    unfolding redirects_port_def by blast
  have data: "List.map_filter expression_data es = xs @ [redirect]"
    by (rule map_filter_all [OF es])
  let ?start = "\<lparr> ru_l4 = [], ru_port = [], ru_redirect = False \<rparr>"
  let ?u = "foldl use_expression ?start (xs @ [redirect])" and ?st = "foldl (match_expression c (foldl use_expression ?start (xs @ [redirect]))) (False, None) xs"
  have u: "ru_redirect ?u" "set (ru_l4 ?u) = protocol_registers ms" "set (ru_port ?u) = port_registers ms"
    using redirecting_use [OF red] lists_registers [OF listed, of ?start] by simp_all
  have "loaded IPPROTO_UDP port (port_registers ms) Map.empty" by (simp add: loaded_def)
  from passes_holds [OF pass this _ lists_wide [OF listed]] have holds: "\<forall>m \<in> set ms. holds_of port (set (ru_port ?u)) m" unfolding u by simp
  have "agree R v Map.empty Map.empty" for R v by (simp add: agree_def)
  note cmp = protocol_compared [OF pass fails(1) this order_refl] port_compared [OF pass fails(2) this order_refl]
  from matches_listed [OF laws listed holds port, of "(False, None)"] cmp
  have st: "covers port (snd ?st)" "fst ?st" "snd ?st \<noteq> None" unfolding u by auto
  then obtain existing where found: "?st = (True, Some existing)" "unat port \<in> range_ports existing"
    by (cases ?st) (auto simp: covers_def)
  have "direct_udp_redirect_range c es = Some existing"
    using found(1) u(1) redirecting_use(4) [OF red, of c]
    by (simp add: direct_udp_redirect_range_def data Let_def)
  with found(2) show ?thesis by blast
qed

section \<open>The chains a packet traverses\<close>

text \<open>From the NAT chains at the prerouting hook along jumps and gotos to chains of the same table.\<close>

definition in_table :: "TableState \<Rightarrow> ChainState \<Rightarrow> bool" where
  "in_table table chain \<longleftrightarrow> nch_family chain = nt_family table \<and> nch_table chain = nt_name table"

definition jumps_to :: "ListAttribute list \<Rightarrow> string \<Rightarrow> bool" where
  "jumps_to es name \<longleftrightarrow> (\<exists>e \<in> set es. \<exists>code \<in> {Jump, Goto}. expression_data e =
     Some (ExprImmediate [ImmediateDestination Verdict, ImmediateData (DataVerdict [VerdictCodeAttr code, VerdictChain name])]))"

inductive packet_reaches :: "nft_codec \<Rightarrow> KernelSnapshot \<Rightarrow> TableState \<Rightarrow> string \<Rightarrow> bool" for c snapshot table where
  hook: "chain \<in> set (ks_chains snapshot) \<Longrightarrow> in_table table chain \<Longrightarrow> nch_type chain = Some ''nat'' \<Longrightarrow>
    nch_hook chain = Some (nc_prerouting c) \<Longrightarrow> packet_reaches c snapshot table (nch_name chain)"
| follow: "packet_reaches c snapshot table (nr_chain rule) \<Longrightarrow> rule \<in> set (ks_rules snapshot) \<Longrightarrow>
    nr_family rule = nt_family table \<Longrightarrow> nr_table rule = nt_name table \<Longrightarrow> jumps_to (nr_expressions rule) (nch_name chain) \<Longrightarrow>
    chain \<in> set (ks_chains snapshot) \<Longrightarrow> in_table table chain \<Longrightarrow> packet_reaches c snapshot table (nch_name chain)"

text \<open>A table has one chain of a name.\<close>

definition chains_unique :: "KernelSnapshot \<Rightarrow> TableState \<Rightarrow> bool" where
  "chains_unique snapshot table \<longleftrightarrow> distinct (map nch_name (filter (in_table table) (ks_chains snapshot)))"

lemma map_of_chains:
  assumes "distinct (map nch_name cs)" and "chain \<in> set cs"
  shows "map_of (foldl (\<lambda>m chain. bt_insert (nch_name chain) chain m) start cs) (nch_name chain) = Some chain"
  using assms
proof (induction cs rule: rev_induct)
  case (snoc x cs)
  have "nch_name chain \<noteq> nch_name x" if "chain \<in> set cs"
    using snoc.prems(1) imageI [OF that, of nch_name] by auto
  with snoc show ?case by auto
qed simp

lemma listed_chain:
  assumes "chains_unique snapshot table" and "chain \<in> set (ks_chains snapshot)" and "in_table table chain"
  shows "map_of (table_chains snapshot table) (nch_name chain) = Some chain"
  using map_of_chains [of "filter (in_table table) (ks_chains snapshot)" chain "[]"] assms
  by (simp add: table_chains_def chains_unique_def in_table_def [abs_def])

lemma jump_target_jumps:
  "code \<in> {Jump, Goto} \<Longrightarrow>
   jump_target (Some (ExprImmediate [ImmediateDestination Verdict, ImmediateData (DataVerdict [VerdictCodeAttr code, VerdictChain name])])) = Some name"
  by (auto simp: jump_target_def)

lemma reaches_traversed:
  assumes "packet_reaches c snapshot table name" and unique: "chains_unique snapshot table"
  shows "traversed c snapshot table name"
  using assms(1)
proof induction
  case (hook chain)
  from map_of_SomeD [OF listed_chain [OF unique hook(1,2)]] hook(3,4) show ?case
    by (intro traversed.base) (auto simp: is_base_chain_def)
next
  case (follow rule chain)
  from follow.hyps(5) obtain e where e: "e \<in> set (nr_expressions rule)" "jump_target (expression_data e) = Some (nch_name chain)"
    using jump_target_jumps by (fastforce simp: jumps_to_def)
  have "nch_name chain \<in> rule_targets (table_chains snapshot table) (nr_expressions rule)"
    unfolding rule_targets_def using e listed_chain [OF unique follow.hyps(6,7)]
    by (intro CollectI exI [of _ chain]) (auto intro!: bexI [of _ e])
  with follow show ?case
    by (intro traversed.jump [OF follow.IH]) (auto simp: chain_rules_def)
qed

section \<open>The check against the packets\<close>

lemma no_redirect_kept:
  assumes "\<forall>x \<in> set xs. \<forall>t as. x = ExprOther t as \<longrightarrow> t \<noteq> ''redir'' \<and> t \<noteq> ''nat''" and "\<not> ru_redirect u"
  shows "\<not> ru_redirect (foldl use_expression u xs)"
  using assms
proof (induction xs arbitrary: u)
  case (Cons x xs)
  then have "\<not> ru_redirect (use_expression u x)"
    by (cases x) (auto simp: use_expression_def split: prod.splits option.splits bool.splits)
  with Cons show ?case by simp
qed simp

definition has_redirect :: "RuleState \<Rightarrow> bool" where
  "has_redirect rule \<longleftrightarrow> (\<exists>e \<in> set (nr_expressions rule). \<exists>t as. expression_data e = Some (ExprOther t as) \<and> t \<in> {''redir'', ''nat''})"

lemma no_redirect_clean:
  assumes "\<not> has_redirect rule"
  shows "direct_udp_redirect_range c (nr_expressions rule) = None"
proof -
  have "\<not> ru_redirect (foldl use_expression \<lparr> ru_l4 = [], ru_port = [], ru_redirect = False \<rparr>
      (List.map_filter expression_data (nr_expressions rule)))"
    by (rule no_redirect_kept) (use assms in \<open>auto simp: has_redirect_def List.map_filter_def\<close>)
  then show ?thesis by (simp add: direct_udp_redirect_range_def Let_def)
qed

text \<open>C27 (foreign redirects are respected): when a plan passes the check, no rule of another table that
  an incoming packet meets at the prerouting hook, directly or along jumps and gotos, redirects UDP packets
  of a port that the plan redirects. What such a rule does is read off a run of its expressions on the packet: loads
  of the protocol, of the destination port and of fields wider than a port, equality and range comparisons, counters
  and logs before the redirect. It is a rule for the port, that is, it leaves packets of some other protocol and of some other
  UDP port alone, and its ranges do not start at port 0. Conversely a kernel whose foreign tables hold no redirect
  expression is never refused; the recursive scan always ends.\<close>

theorem external_conflicts_excluded:
  assumes "codec_laws c" and "table \<in> set (ks_tables snapshot)" and "nt_name table \<noteq> managed_table"
    and "chains_unique snapshot table" and "packet_reaches c snapshot table (nr_chain rule)"
    and "rule \<in> set (ks_rules snapshot)" and "nr_family rule = nt_family table" and "nr_table rule = nt_name table"
    and "redirects_port c (nr_expressions rule) port" and "port \<noteq> 0"
  shows "(reject_external_conflicts c snapshot managed_table desired = Inr () \<longrightarrow>
      (\<forall>redirect \<in> set (pl_redirects desired). unat port \<notin> ports (rd_ports redirect))) \<and>
    (\<forall>clear. (\<forall>rule \<in> set (ks_rules clear). nr_table rule \<noteq> managed_table \<longrightarrow> \<not> has_redirect rule) \<longrightarrow>
      reject_external_conflicts c clear managed_table desired = Inr ())"
proof (intro conjI impI allI)
  assume passed: "reject_external_conflicts c snapshot managed_table desired = Inr ()"
  obtain existing where existing: "direct_udp_redirect_range c (nr_expressions rule) = Some existing"
    "unat port \<in> range_ports existing"
    using redirect_recognised [OF assms(1,9,10)] by blast
  have "traversed c snapshot table (nr_chain rule)" by (rule reaches_traversed [OF assms(5,4)])
  moreover have "rule \<in> set (chain_rules snapshot table (nr_chain rule))" using assms(6-8) by (simp add: chain_rules_def)
  ultimately have "rule_clean c desired rule"
    using passed assms(2,3) by (auto simp: reject_external_conflicts_def scan_tables_iff conflicting_def)
  with existing show "\<forall>redirect \<in> set (pl_redirects desired). unat port \<notin> ports (rd_ports redirect)"
    by (auto simp: rule_clean_def)
next
  fix clear :: KernelSnapshot assume "\<forall>rule \<in> set (ks_rules clear). nr_table rule \<noteq> managed_table \<longrightarrow> \<not> has_redirect rule"
  then have "\<not> conflicting c clear desired table" if "nt_name table \<noteq> managed_table" for table
    using that no_redirect_clean by (auto simp: conflicting_def rule_clean_def chain_rules_def)
  then show "reject_external_conflicts c clear managed_table desired = Inr ()"
    by (simp add: reject_external_conflicts_def scan_tables_iff)
qed

text \<open>What the recogniser does not see: a redirect of every UDP port, which has no port comparison, and a
  range that starts at port 0. Both pass although every packet of the range is redirected. A redirect of a
  destination port that also compares the source port, through the same register, is taken for a redirect of the
  source port's number.\<close>

lemma unseen_redirects:
  "direct_udp_redirect_range plain_codec
     [nc_element plain_codec (ExprMeta [MetaKeyAttr L4Proto, MetaDestination Reg1]),
      nc_element plain_codec (ExprCmp [CmpSource Reg1, CmpOp OpEqual, CmpData (DataValue [IPPROTO_UDP])]),
      raw_expression plain_codec ''redir'' attributes] = None"
  "direct_udp_redirect_range plain_codec
     [nc_element plain_codec (ExprMeta [MetaKeyAttr L4Proto, MetaDestination Reg1]),
      nc_element plain_codec (ExprCmp [CmpSource Reg1, CmpOp OpEqual, CmpData (DataValue [IPPROTO_UDP])]),
      nc_element plain_codec (ExprPayload [PayloadDestination Reg1, PayloadBase PAYLOAD_BASE_TRANSPORT_HEADER, PayloadOffset 2, PayloadLen 2]),
      raw_expression plain_codec ''range'' [be_u32_attr 1 1, be_u32_attr 2 0, nested_data_attr plain_codec 3 (be_u16 0),
        nested_data_attr plain_codec 4 (be_u16 high)],
      raw_expression plain_codec ''redir'' attributes] = None"
  "source \<noteq> 0 \<Longrightarrow> direct_udp_redirect_range plain_codec
     [nc_element plain_codec (ExprMeta [MetaKeyAttr L4Proto, MetaDestination Reg1]),
      nc_element plain_codec (ExprCmp [CmpSource Reg1, CmpOp OpEqual, CmpData (DataValue [IPPROTO_UDP])]),
      nc_element plain_codec (ExprPayload [PayloadDestination Reg1, PayloadBase PAYLOAD_BASE_TRANSPORT_HEADER, PayloadOffset 2, PayloadLen 2]),
      nc_element plain_codec (ExprCmp [CmpSource Reg1, CmpOp OpEqual, CmpData (DataValue (be_u16 port))]),
      nc_element plain_codec (ExprPayload [PayloadDestination Reg1, PayloadBase PAYLOAD_BASE_TRANSPORT_HEADER, PayloadOffset 0, PayloadLen 2]),
      nc_element plain_codec (ExprCmp [CmpSource Reg1, CmpOp OpEqual, CmpData (DataValue (be_u16 source))]),
      raw_expression plain_codec ''redir'' attributes] = Some (PortRange source source)"
  "passes IPPROTO_UDP port Map.empty [LoadProtocol Reg1, CompareEqual Reg1 [IPPROTO_UDP]]"
  "passes IPPROTO_UDP port Map.empty [LoadProtocol Reg1, CompareEqual Reg1 [IPPROTO_UDP], LoadPort Reg1, CompareEqual Reg1 (be_u16 port),
     LoadField Reg1 (be_u16 source), CompareEqual Reg1 (be_u16 source)]"
  "port \<le> high \<Longrightarrow>
   passes IPPROTO_UDP port Map.empty [LoadProtocol Reg1, CompareEqual Reg1 [IPPROTO_UDP], LoadPort Reg1, InRange Reg1 0 high]"
proof -
  obtain a b where hi: "be_u16 high = [a, b]" "of_be_u16 a b = high" by (rule be_u16_pair)
  obtain d e where be: "be_u16 port = [d, e]" "of_be_u16 d e = port" by (rule be_u16_pair)
  note data = codec_lawsD(1) [OF plain_laws(1)]
  have range: "parse_range_attributes plain_codec [be_u32_attr 1 1, be_u32_attr 2 0, nested_data_attr plain_codec 3 [0, 0],
        nested_data_attr plain_codec 4 [a, b]] = Some (Reg1, OpEqual, [0, 0], [a, b])"
    using codec_lawsD(5) [OF plain_laws(1), of "[0, 0]"] codec_lawsD(5) [OF plain_laws(1), of "[a, b]"]
    by (simp add: parse_range_attributes_def) (simp add: plain_codec_def)
  show "direct_udp_redirect_range plain_codec
     [nc_element plain_codec (ExprMeta [MetaKeyAttr L4Proto, MetaDestination Reg1]),
      nc_element plain_codec (ExprCmp [CmpSource Reg1, CmpOp OpEqual, CmpData (DataValue [IPPROTO_UDP])]),
      raw_expression plain_codec ''redir'' attributes] = None"
    by (simp add: direct_udp_redirect_range_def raw_expression_def List.map_filter_simps data use_expression_def
        match_expression_def cmp_equal_data_def Let_def)
  show "direct_udp_redirect_range plain_codec
     [nc_element plain_codec (ExprMeta [MetaKeyAttr L4Proto, MetaDestination Reg1]),
      nc_element plain_codec (ExprCmp [CmpSource Reg1, CmpOp OpEqual, CmpData (DataValue [IPPROTO_UDP])]),
      nc_element plain_codec (ExprPayload [PayloadDestination Reg1, PayloadBase PAYLOAD_BASE_TRANSPORT_HEADER, PayloadOffset 2, PayloadLen 2]),
      raw_expression plain_codec ''range'' [be_u32_attr 1 1, be_u32_attr 2 0, nested_data_attr plain_codec 3 (be_u16 0),
        nested_data_attr plain_codec 4 (be_u16 high)],
      raw_expression plain_codec ''redir'' attributes] = None"
    by (simp add: direct_udp_redirect_range_def raw_expression_def List.map_filter_simps data use_expression_def
        match_expression_def match_port_def cmp_equal_data_def Let_def hi range be_u16_def [of 0] of_be_u16_def)
  obtain h i where src: "be_u16 source = [h, i]" "of_be_u16 h i = source" by (rule be_u16_pair)
  show "direct_udp_redirect_range plain_codec
     [nc_element plain_codec (ExprMeta [MetaKeyAttr L4Proto, MetaDestination Reg1]),
      nc_element plain_codec (ExprCmp [CmpSource Reg1, CmpOp OpEqual, CmpData (DataValue [IPPROTO_UDP])]),
      nc_element plain_codec (ExprPayload [PayloadDestination Reg1, PayloadBase PAYLOAD_BASE_TRANSPORT_HEADER, PayloadOffset 2, PayloadLen 2]),
      nc_element plain_codec (ExprCmp [CmpSource Reg1, CmpOp OpEqual, CmpData (DataValue (be_u16 port))]),
      nc_element plain_codec (ExprPayload [PayloadDestination Reg1, PayloadBase PAYLOAD_BASE_TRANSPORT_HEADER, PayloadOffset 0, PayloadLen 2]),
      nc_element plain_codec (ExprCmp [CmpSource Reg1, CmpOp OpEqual, CmpData (DataValue (be_u16 source))]),
      raw_expression plain_codec ''redir'' attributes] = Some (PortRange source source)" if "source \<noteq> 0"
    using that src be
    by (simp add: direct_udp_redirect_range_def raw_expression_def List.map_filter_simps data use_expression_def
        match_expression_def match_port_def cmp_equal_data_def Let_def)
  show "passes IPPROTO_UDP port Map.empty [LoadProtocol Reg1, CompareEqual Reg1 [IPPROTO_UDP]]"
    "passes IPPROTO_UDP port Map.empty [LoadProtocol Reg1, CompareEqual Reg1 [IPPROTO_UDP], LoadPort Reg1, CompareEqual Reg1 (be_u16 port),
     LoadField Reg1 (be_u16 source), CompareEqual Reg1 (be_u16 source)]" by simp_all
  show "port \<le> high \<Longrightarrow>
   passes IPPROTO_UDP port Map.empty [LoadProtocol Reg1, CompareEqual Reg1 [IPPROTO_UDP], LoadPort Reg1, InRange Reg1 0 high]"
    by (simp add: be)
qed

text \<open>A foreign table whose only base chain jumps to a chain with a redirect of UDP ports 441 to 450.\<close>

definition ex_foreign_rule :: RuleState where
  "ex_foreign_rule = \<lparr> nr_family = Inet, nr_table = ''fw'', nr_chain = ''udp'',
     nr_expressions = redirect_expressions plain_codec (PortRange 441 450) 53, nr_user_data = [] \<rparr>"

definition ex_foreign :: KernelSnapshot where
  "ex_foreign =
     \<lparr> ks_tables = [\<lparr> nt_family = Inet, nt_name = ''fw'', nt_handle = 1, nt_user_data = [] \<rparr>],
       ks_chains = [\<lparr> nch_family = Inet, nch_table = ''fw'', nch_name = ''pre'', nch_type = Some ''nat'', nch_hook = Some 0,
           nch_priority = Some 0, nch_policy = None, nch_user_data = [] \<rparr>,
         \<lparr> nch_family = Inet, nch_table = ''fw'', nch_name = ''udp'', nch_type = None, nch_hook = None, nch_priority = None,
           nch_policy = None, nch_user_data = [] \<rparr>],
       ks_rules = [\<lparr> nr_family = Inet, nr_table = ''fw'', nr_chain = ''pre'', nr_expressions =
           [Element [ExpressionData (ExprImmediate [ImmediateDestination Verdict,
             ImmediateData (DataVerdict [VerdictCodeAttr Jump, VerdictChain ''udp''])])]], nr_user_data = [] \<rparr>, ex_foreign_rule],
       ks_unavailable = Map.empty \<rparr>"

lemma ex_redirects: "redirects_port plain_codec (redirect_expressions plain_codec (PortRange 441 450) 53) 442"
proof -
  let ?ms = "[LoadProtocol Reg1, CompareEqual Reg1 [IPPROTO_UDP], LoadPort Reg1, InRange Reg1 441 450, LoadConstant Reg2]"
  have listed: "\<exists>xs x. map expression_data (redirect_expressions plain_codec (PortRange 441 450) 53) = map Some (xs @ [x]) \<and>
      list_all2 (lists plain_codec) xs ?ms \<and> redirecting x"
    using codec_lawsD [OF plain_laws(1)]
    by (intro exI [of _ "[ExprMeta [MetaKeyAttr L4Proto, MetaDestination Reg1],
        ExprCmp [CmpSource Reg1, CmpOp OpEqual, CmpData (DataValue [IPPROTO_UDP])],
        ExprPayload [PayloadDestination Reg1, PayloadBase PAYLOAD_BASE_TRANSPORT_HEADER, PayloadOffset 2, PayloadLen 2],
        ExprOther ''range'' [be_u32_attr 1 (nc_register_u32 plain_codec Reg1), be_u32_attr 2 (nc_operator_u32 plain_codec OpEqual),
          nested_data_attr plain_codec 3 (be_u16 441), nested_data_attr plain_codec 4 (be_u16 450)],
        ExprImmediate [ImmediateDestination Reg2, ImmediateData (DataValue (be_u16 53))]]"]
        exI [of _ "ExprOther ''redir'' [be_u32_attr 1 (nc_register_u32 plain_codec Reg2)]"])
       (simp add: redirect_expressions_def raw_expression_def lists.intros redirecting.intros)
  have "passes IPPROTO_UDP 442 Map.empty ?ms" "\<not> passes 6 442 Map.empty ?ms" "\<not> passes IPPROTO_UDP 9 Map.empty ?ms"
    by (simp_all add: be_u16_def of_be_u16_def IPPROTO_UDP_def unat_of_nat word_le_nat_alt)
  with listed show ?thesis unfolding redirects_port_def by blast
qed

theorem external_conflicts_excluded_witness:
  "reject_external_conflicts plain_codec ex_foreign ''na'' ex_plan \<noteq> Inr ()"
proof -
  let ?t = "\<lparr> nt_family = Inet, nt_name = ''fw'', nt_handle = 1, nt_user_data = [] \<rparr>"
  have unique: "chains_unique ex_foreign ?t" by (simp add: chains_unique_def ex_foreign_def in_table_def)
  have "packet_reaches plain_codec ex_foreign ?t ''pre''"
    using packet_reaches.hook [of "ks_chains ex_foreign ! 0" ex_foreign ?t plain_codec]
    by (simp add: ex_foreign_def in_table_def plain_codec_def)
  then have reach: "packet_reaches plain_codec ex_foreign ?t (nr_chain ex_foreign_rule)"
    using packet_reaches.follow [of plain_codec ex_foreign ?t "ks_rules ex_foreign ! 0" "ks_chains ex_foreign ! 1"]
    by (simp add: ex_foreign_def in_table_def jumps_to_def ex_foreign_rule_def)
  from external_conflicts_excluded [OF plain_laws(1) _ _ unique reach, of "''na''" 442 ex_plan] ex_redirects
  have "reject_external_conflicts plain_codec ex_foreign ''na'' ex_plan = Inr () \<longrightarrow>
      (\<forall>redirect \<in> set (pl_redirects ex_plan). unat (442 :: u16) \<notin> ports (rd_ports redirect))"
    by (simp add: ex_foreign_def ex_foreign_rule_def)
  moreover have "\<exists>redirect \<in> set (pl_redirects ex_plan). unat (442 :: u16) \<in> ports (rd_ports redirect)"
    by (simp add: ex_plan_def ports_def range_ports_def)
  ultimately show ?thesis by blast
qed

end
