(* ===== verification/User_Credentials.thy ===== *)
theory User_Credentials
  imports Rust_Text
begin

text \<open>
  The credentials of the proxy engine's users: the request and report types of \<open>shoes-api/src/lib.rs\<close>, the
  errors of \<open>shoes-engine/src/error.rs\<close>, and from \<open>shoes-engine/src/users.rs\<close> the credential forms an
  inbound accepts and their translation into index keys. The derivations of the wire forms (uuid,
  SHA-224, SHA-256, blake3, base64, the VMess key schedule) belong to the \<open>shoes\<close> core and are the
  parameter \<open>credential_api\<close>; nothing is assumed of them.
\<close>

section \<open>Errors\<close>

datatype io_kind = WouldBlock | InvalidInput | UnsupportedIo | OtherIo

text \<open>An \<open>io::Error\<close>: its kind, its text, and whether its source is the marker of a lost update.\<close>

record std_io_error =
  sio_kind :: io_kind
  sio_text :: string
  sio_concurrent :: bool

datatype EngineError =
    InvalidConfig string
  | DuplicateTag string
  | UnknownTag string
  | InvalidUser string
  | DuplicateCredential string string
  | UnknownUser string string
  | AddressInUse string string
  | EngineIo std_io_error
  | Unsupported string
  | ReloadRequired string

fun display_engine_error :: "EngineError \<Rightarrow> string" where
  "display_engine_error (InvalidConfig msg) = ''invalid inbound config: '' @ msg"
| "display_engine_error (DuplicateTag tag) = ''inbound tag already registered: '' @ tag"
| "display_engine_error (UnknownTag tag) = ''no such inbound tag: '' @ tag"
| "display_engine_error (InvalidUser msg) = ''invalid user: '' @ msg"
| "display_engine_error (DuplicateCredential user owner) =
     ''cannot add user '' @ user @ '': that credential already belongs to user '' @ owner"
| "display_engine_error (UnknownUser tag user) = ''no such user on inbound '' @ tag @ '': '' @ user"
| "display_engine_error (AddressInUse address tag) = ''address '' @ address @ '' is already used by inbound '' @ tag"
| "display_engine_error (EngineIo e) = sio_text e"
| "display_engine_error (Unsupported msg) = ''unsupported: '' @ msg"
| "display_engine_error (ReloadRequired msg) = ''inbound must be replaced: '' @ msg"

definition concurrent_modification :: "string \<Rightarrow> EngineError" where
  "concurrent_modification message =
     EngineIo \<lparr> sio_kind = WouldBlock, sio_text = ''inbound changed while update was being prepared: '' @ message,
                sio_concurrent = True \<rparr>"

definition is_concurrent_modification :: "EngineError \<Rightarrow> bool" where
  "is_concurrent_modification error = (case error of EngineIo e \<Rightarrow> sio_concurrent e | _ \<Rightarrow> False)"

definition from_reload_rejection :: "std_io_error \<Rightarrow> EngineError" where
  "from_reload_rejection e =
     (case sio_kind e of
        InvalidInput \<Rightarrow> ReloadRequired (sio_text e)
      | UnsupportedIo \<Rightarrow> ReloadRequired (sio_text e)
      | _ \<Rightarrow> EngineIo e)"

section \<open>Requests and reports\<close>

record UserSpec =
  us_id :: "string option"
  us_uuid :: "string option"
  us_password :: "string option"
  us_enabled :: bool
  us_max_conns :: "u64 option"
  us_upload_limit_bps :: "u64 option"
  us_download_limit_bps :: "u64 option"

definition resolved_id :: "UserSpec \<Rightarrow> string option" where
  "resolved_id spec = (case us_id spec of Some user \<Rightarrow> Some user | None \<Rightarrow> us_uuid spec)"

record UserInfo =
  ui_id :: string
  ui_enabled :: bool
  ui_tx :: u64
  ui_rx :: u64
  ui_last_traffic_observed_at_unix_millis :: u64
  ui_conns :: u64
  ui_total_conns :: u64
  ui_max_conns :: u64
  ui_upload_limit_bps :: u64
  ui_download_limit_bps :: u64

section \<open>Credential forms\<close>

datatype ShadowsocksPsk = PskNone | PskLen nat | PskMixed

record CredentialKinds =
  kd_uuid :: bool
  kd_trojan_password :: bool
  kd_plain_password :: bool
  kd_shadowsocks_psk :: ShadowsocksPsk
  kd_tuic :: bool
  kd_anytls_password :: bool
  kd_naive_basic :: bool

definition KIND_NONE :: CredentialKinds where
  "KIND_NONE = \<lparr> kd_uuid = False, kd_trojan_password = False, kd_plain_password = False, kd_shadowsocks_psk = PskNone,
     kd_tuic = False, kd_anytls_password = False, kd_naive_basic = False \<rparr>"

definition KIND_UUID :: CredentialKinds where "KIND_UUID = KIND_NONE\<lparr> kd_uuid := True \<rparr>"
definition KIND_TROJAN_PASSWORD :: CredentialKinds where "KIND_TROJAN_PASSWORD = KIND_NONE\<lparr> kd_trojan_password := True \<rparr>"
definition KIND_PLAIN_PASSWORD :: CredentialKinds where "KIND_PLAIN_PASSWORD = KIND_NONE\<lparr> kd_plain_password := True \<rparr>"
definition KIND_TUIC :: CredentialKinds where "KIND_TUIC = KIND_NONE\<lparr> kd_uuid := True, kd_tuic := True \<rparr>"
definition KIND_ANYTLS_PASSWORD :: CredentialKinds where "KIND_ANYTLS_PASSWORD = KIND_NONE\<lparr> kd_anytls_password := True \<rparr>"
definition KIND_NAIVE_BASIC :: CredentialKinds where "KIND_NAIVE_BASIC = KIND_NONE\<lparr> kd_naive_basic := True \<rparr>"

definition kind_shadowsocks_psk :: "nat \<Rightarrow> CredentialKinds" where
  "kind_shadowsocks_psk len = KIND_NONE\<lparr> kd_shadowsocks_psk := PskLen len \<rparr>"

definition kinds_is_empty :: "CredentialKinds \<Rightarrow> bool" where
  "kinds_is_empty kinds \<longleftrightarrow> kinds = KIND_NONE"

fun merge_psk :: "ShadowsocksPsk \<Rightarrow> ShadowsocksPsk \<Rightarrow> ShadowsocksPsk" where
  "merge_psk PskNone only = only"
| "merge_psk only PskNone = only"
| "merge_psk (PskLen a) (PskLen b) = (if a = b then PskLen a else PskMixed)"
| "merge_psk _ _ = PskMixed"

definition kinds_merge :: "CredentialKinds \<Rightarrow> CredentialKinds \<Rightarrow> CredentialKinds" where
  "kinds_merge self other =
     \<lparr> kd_uuid = (kd_uuid self \<or> kd_uuid other),
       kd_trojan_password = (kd_trojan_password self \<or> kd_trojan_password other),
       kd_plain_password = (kd_plain_password self \<or> kd_plain_password other),
       kd_shadowsocks_psk = merge_psk (kd_shadowsocks_psk self) (kd_shadowsocks_psk other),
       kd_tuic = (kd_tuic self \<or> kd_tuic other),
       kd_anytls_password = (kd_anytls_password self \<or> kd_anytls_password other),
       kd_naive_basic = (kd_naive_basic self \<or> kd_naive_basic other) \<rparr>"

definition is_len :: "ShadowsocksPsk \<Rightarrow> bool" where
  "is_len psk \<longleftrightarrow> (case psk of PskLen _ \<Rightarrow> True | _ \<Rightarrow> False)"

definition takes_password :: "CredentialKinds \<Rightarrow> bool" where
  "takes_password kinds \<longleftrightarrow> kd_trojan_password kinds \<or> kd_plain_password kinds \<or> kd_tuic kinds \<or>
     kd_anytls_password kinds \<or> kd_naive_basic kinds \<or> is_len (kd_shadowsocks_psk kinds)"

definition kinds_conflict :: "CredentialKinds \<Rightarrow> string option" where
  "kinds_conflict kinds =
     (case kd_shadowsocks_psk kinds of
        PskMixed \<Rightarrow> Some (''its shadowsocks targets use ciphers with different key lengths, so one '' @
          ''`password` cannot serve them all; give each cipher its own inbound'')
      | PskLen _ \<Rightarrow>
          if kd_trojan_password kinds \<or> kd_plain_password kinds \<or> kd_tuic kinds \<or> kd_anytls_password kinds \<or>
             kd_naive_basic kinds
          then Some (''it mixes shadowsocks with a protocol that wants a cleartext password, '' @
            ''so its `password` field would mean two different things -- a password '' @
            ''and a base64 PSK; give each its own inbound'')
          else None
      | PskNone \<Rightarrow> None)"

definition accepted_fields :: "CredentialKinds \<Rightarrow> string" where
  "accepted_fields kinds =
     (if kd_tuic kinds then ''`uuid` and `password`''
      else
        let accepted = (if kd_uuid kinds then [''`uuid`''] else []) @
              (if takes_password kinds then [''`password`''] else []) in
        if accepted = [] then ''nothing'' else join '' or '' accepted)"

section \<open>Index keys\<close>

record ShadowsocksCredential =
  sc_hash :: bytes
  sc_psk :: bytes

record Credentials =
  cr_uuid :: "bytes option"
  cr_trojan_hash :: "bytes option"
  cr_password :: "string option"
  cr_shadowsocks :: "ShadowsocksCredential option"
  cr_tuic_password :: "string option"
  cr_anytls_hash :: "bytes option"
  cr_naive_encoded :: "bytes option"

text \<open>The derivations of the core. A VMess key is determined by its uuid and stands for it.\<close>

record credential_api =
  ca_parse_uuid :: "string \<Rightarrow> string + bytes"
  ca_decode_shadowsocks_psk :: "string \<Rightarrow> string + bytes"
  ca_shadowsocks_psk_hash :: "bytes \<Rightarrow> bytes"
  ca_trojan_password_hash :: "string \<Rightarrow> bytes"
  ca_password_sha256 :: "string \<Rightarrow> bytes"
  ca_password_sha256_prefix :: "bytes \<Rightarrow> bytes"
  ca_naive_basic_credential :: "string \<Rightarrow> string \<Rightarrow> bytes"
  ca_vmess_open :: "bytes \<Rightarrow> bytes \<Rightarrow> u64 option"
  ca_vmess_instruction_key :: "bytes \<Rightarrow> bytes"

definition parse_shadowsocks :: "credential_api \<Rightarrow> CredentialKinds \<Rightarrow> UserSpec \<Rightarrow> EngineError + ShadowsocksCredential option" where
  "parse_shadowsocks ca kinds spec =
     (case (us_password spec, kd_shadowsocks_psk kinds) of
        (Some password, PskLen len) \<Rightarrow>
          rbind (rmap_err InvalidUser (ca_decode_shadowsocks_psk ca password)) (\<lambda>psk.
          if length psk \<noteq> len then
            Inl (InvalidUser (''this inbound's cipher needs a '' @ show_nat len @ '' byte psk, and `password` '' @
              ''base64 decoded to '' @ show_nat (length psk)))
          else Inr (Some \<lparr> sc_hash = ca_shadowsocks_psk_hash ca psk, sc_psk = psk \<rparr>))
      | _ \<Rightarrow> Inr None)"

definition parse_credentials :: "credential_api \<Rightarrow> CredentialKinds \<Rightarrow> string \<Rightarrow> UserSpec \<Rightarrow> EngineError + Credentials" where
  "parse_credentials ca kinds user spec =
     (if us_uuid spec \<noteq> None \<and> \<not> kd_uuid kinds then
        Inl (InvalidUser (''this inbound does not authenticate by uuid; it accepts '' @ accepted_fields kinds))
      else if us_password spec \<noteq> None \<and> \<not> takes_password kinds then
        Inl (InvalidUser (''this inbound does not authenticate by password; it accepts '' @ accepted_fields kinds))
      else if us_uuid spec = None \<and> us_password spec = None then
        Inl (InvalidUser (''user needs a credential: '' @ accepted_fields kinds))
      else if kd_tuic kinds \<and> (us_uuid spec = None \<or> us_password spec = None) then
        Inl (InvalidUser (''a tuic user needs both `uuid` and `password`: the uuid names them '' @
          ''on the wire and the password keys the token beside it''))
      else
        rbind (case us_uuid spec of
            Some uuid \<Rightarrow> rbind (rmap_err InvalidUser (ca_parse_uuid ca uuid)) (\<lambda>u. Inr (Some u))
          | None \<Rightarrow> Inr None) (\<lambda>uuid.
        rbind (parse_shadowsocks ca kinds spec) (\<lambda>shadowsocks.
        Inr \<lparr> cr_uuid = uuid,
              cr_trojan_hash = (if kd_trojan_password kinds then map_option (ca_trojan_password_hash ca) (us_password spec) else None),
              cr_password = (if kd_plain_password kinds then us_password spec else None),
              cr_shadowsocks = shadowsocks,
              cr_tuic_password = (if kd_tuic kinds then us_password spec else None),
              cr_anytls_hash = (if kd_anytls_password kinds then map_option (ca_password_sha256 ca) (us_password spec) else None),
              cr_naive_encoded = (if kd_naive_basic kinds
                then map_option (ca_naive_basic_credential ca user) (us_password spec) else None) \<rparr>)))"

section \<open>Laws\<close>

text \<open>Merging the kinds of several targets depends neither on their order nor on repetitions.\<close>

lemma merge_psk_laws [simp]:
  "merge_psk p PskNone = p" "merge_psk p p = p" "merge_psk PskMixed p = PskMixed" "merge_psk p PskMixed = PskMixed"
  by (cases p; simp)+

lemma merge_psk_commute: "merge_psk p q = merge_psk q p"
  by (cases p; cases q; auto)

lemma merge_psk_assoc: "merge_psk (merge_psk p q) s = merge_psk p (merge_psk q s)"
  by (cases p; cases q; cases s; auto)

lemma kinds_merge_laws:
  "kinds_merge a a = a" "kinds_merge a b = kinds_merge b a"
  "kinds_merge (kinds_merge a b) c = kinds_merge a (kinds_merge b c)" "kinds_merge KIND_NONE a = a"
  by (auto simp: kinds_merge_def KIND_NONE_def merge_psk_assoc) (auto simp: merge_psk_commute)

text \<open>A conflict never disappears by adding targets.\<close>

lemma kinds_conflict_mono: "kinds_conflict a \<noteq> None \<Longrightarrow> kinds_conflict (kinds_merge a b) \<noteq> None"
  by (cases "kd_shadowsocks_psk a"; cases "kd_shadowsocks_psk b")
     (auto simp: kinds_conflict_def kinds_merge_def split: if_splits)

text \<open>The credentials of an accepted user: keys only in the forms the inbound indexes, and at least one.\<close>

definition credentials_fit :: "CredentialKinds \<Rightarrow> Credentials \<Rightarrow> bool" where
  "credentials_fit kinds c \<longleftrightarrow>
     (cr_uuid c \<noteq> None \<longrightarrow> kd_uuid kinds) \<and> (cr_trojan_hash c \<noteq> None \<longrightarrow> kd_trojan_password kinds) \<and>
     (cr_password c \<noteq> None \<longrightarrow> kd_plain_password kinds) \<and> (cr_shadowsocks c \<noteq> None \<longrightarrow> is_len (kd_shadowsocks_psk kinds)) \<and>
     (cr_anytls_hash c \<noteq> None \<longrightarrow> kd_anytls_password kinds) \<and> (cr_naive_encoded c \<noteq> None \<longrightarrow> kd_naive_basic kinds) \<and>
     (cr_tuic_password c \<noteq> None \<longrightarrow> kd_tuic kinds)"

definition has_key :: "Credentials \<Rightarrow> bool" where
  "has_key c \<longleftrightarrow> cr_uuid c \<noteq> None \<or> cr_trojan_hash c \<noteq> None \<or> cr_password c \<noteq> None \<or> cr_shadowsocks c \<noteq> None \<or>
     cr_anytls_hash c \<noteq> None \<or> cr_naive_encoded c \<noteq> None"

lemma parse_shadowsocks_fit:
  "parse_shadowsocks ca kinds spec = Inr s \<Longrightarrow> s \<noteq> None \<longleftrightarrow> us_password spec \<noteq> None \<and> is_len (kd_shadowsocks_psk kinds)"
  by (auto simp: parse_shadowsocks_def is_len_def rbind_Inr_iff split: option.splits ShadowsocksPsk.splits if_splits)

lemma parse_credentials_fit:
  assumes "parse_credentials ca kinds user spec = Inr c"
  shows "credentials_fit kinds c" "has_key c" "kd_tuic kinds \<Longrightarrow> cr_uuid c \<noteq> None \<and> cr_tuic_password c \<noteq> None"
proof -
  from assms obtain uuid s where parts: "parse_shadowsocks ca kinds spec = Inr s"
    "us_uuid spec \<noteq> None \<longrightarrow> kd_uuid kinds" "us_password spec \<noteq> None \<longrightarrow> takes_password kinds"
    "us_uuid spec \<noteq> None \<or> us_password spec \<noteq> None"
    "kd_tuic kinds \<longrightarrow> us_uuid spec \<noteq> None \<and> us_password spec \<noteq> None" "uuid = None \<longleftrightarrow> us_uuid spec = None"
    and c: "c = \<lparr> cr_uuid = uuid,
              cr_trojan_hash = (if kd_trojan_password kinds then map_option (ca_trojan_password_hash ca) (us_password spec) else None),
              cr_password = (if kd_plain_password kinds then us_password spec else None),
              cr_shadowsocks = s,
              cr_tuic_password = (if kd_tuic kinds then us_password spec else None),
              cr_anytls_hash = (if kd_anytls_password kinds then map_option (ca_password_sha256 ca) (us_password spec) else None),
              cr_naive_encoded = (if kd_naive_basic kinds
                then map_option (ca_naive_basic_credential ca user) (us_password spec) else None) \<rparr>"
    unfolding parse_credentials_def rbind_Inr_iff if_Inl_Inr by (cases "us_uuid spec") (auto simp: rbind_Inr_iff, metis option.distinct(1))
  note s = parse_shadowsocks_fit [OF parts(1)]
  show "credentials_fit kinds c" unfolding credentials_fit_def c using parts(2,6) s by (simp split: if_splits)
  show "has_key c"
    using parts(3,4,5,6) s unfolding has_key_def c takes_password_def
    by (cases "us_password spec"; cases "us_uuid spec") (simp_all, blast+)
  show "kd_tuic kinds \<Longrightarrow> cr_uuid c \<noteq> None \<and> cr_tuic_password c \<noteq> None" using parts(5,6) by (simp add: c)
qed

end
