(* ===== verification/User_Registry.thy ===== *)
theory User_Registry
  imports User_Credentials "HOL-Library.AList"
begin

text \<open>
  The dynamic user table of one inbound, \<open>shoes-engine/src/users.rs\<close>: the authoritative map, its six
  credential indexes, the AnyTLS prefix counts, the VMess snapshot, and the tombstones of removed users
  whose connections still drain. Mutations hold the writer lock and are one step each; a removal is
  the step under the lock, the completion once the connections are closed, and the collection.
  Accounting records are shared through \<open>Arc\<close>s: they live in a list, the heap, and entries hold
  addresses in it. The
  record itself belongs to the \<open>shoes\<close> core and is the parameter \<open>user_context\<close>. A missing index that
  the code expects is a panic: the operations return \<open>None\<close> there.
\<close>

section \<open>Accounting records\<close>

record UserStats =
  uss_id :: string
  uss_enabled :: bool
  uss_tx :: u64
  uss_rx :: u64
  uss_last_traffic_observed_at_unix_millis :: u64
  uss_conns :: u64
  uss_total_conns :: u64
  uss_max_conns :: u64
  uss_upload_limit_bps :: u64
  uss_download_limit_bps :: u64

record 'c user_context =
  uc_new :: "string \<Rightarrow> 'c"
  uc_id :: "'c \<Rightarrow> string"
  uc_is_enabled :: "'c \<Rightarrow> bool"
  uc_conns :: "'c \<Rightarrow> u64"
  uc_stats :: "'c \<Rightarrow> UserStats"
  uc_set_analysis_context :: "nat \<Rightarrow> 'c \<Rightarrow> 'c"
  uc_set_enabled :: "bool \<Rightarrow> 'c \<Rightarrow> 'c"
  uc_set_max_conns :: "u64 \<Rightarrow> 'c \<Rightarrow> 'c"
  uc_set_speed_limits :: "u64 \<Rightarrow> u64 \<Rightarrow> 'c \<Rightarrow> 'c"
  uc_revoke_connections :: "'c \<Rightarrow> 'c"
  uc_kick_connections :: "'c \<Rightarrow> 'c \<times> u64"
  uc_take_traffic :: "'c \<Rightarrow> 'c \<times> u64 \<times> u64"

definition user_info :: "'c user_context \<Rightarrow> 'c \<Rightarrow> UserInfo" where
  "user_info uc c =
     (let stats = uc_stats uc c in
      \<lparr> ui_id = uss_id stats, ui_enabled = uss_enabled stats, ui_tx = uss_tx stats, ui_rx = uss_rx stats,
        ui_last_traffic_observed_at_unix_millis = uss_last_traffic_observed_at_unix_millis stats,
        ui_conns = uss_conns stats, ui_total_conns = uss_total_conns stats, ui_max_conns = uss_max_conns stats,
        ui_upload_limit_bps = uss_upload_limit_bps stats, ui_download_limit_bps = uss_download_limit_bps stats \<rparr>)"

definition taken_user_info_with_counters :: "'c user_context \<Rightarrow> 'c \<Rightarrow> u64 \<Rightarrow> u64 \<Rightarrow> UserInfo" where
  "taken_user_info_with_counters uc c tx rx = (user_info uc c)\<lparr> ui_tx := tx, ui_rx := rx \<rparr>"

definition taken_user_info :: "'c user_context \<Rightarrow> 'c \<Rightarrow> 'c \<times> UserInfo" where
  "taken_user_info uc c = (case uc_take_traffic uc c of (c', tx, rx) \<Rightarrow> (c', taken_user_info_with_counters uc c' tx rx))"

section \<open>The table\<close>

record Entry =
  en_context :: nat
  en_uuid :: "bytes option"
  en_trojan_hash :: "bytes option"
  en_password :: "string option"
  en_shadowsocks :: "ShadowsocksCredential option"
  en_tuic_password :: "string option"
  en_anytls_hash :: "bytes option"
  en_naive_encoded :: "bytes option"
  en_vmess :: "bytes option"

record DrainingUser =
  dg_entry :: Entry
  dg_result :: "UserInfo option"

text \<open>\<open>DashMap\<close>s: an association list, in the unspecified iteration order, where the code iterates, and a map
  where it only looks up. The two heaps hold what the \<open>Arc\<close>s point to.\<close>

record 'c MemoryUserRegistry =
  mr_analysis :: "nat option"
  mr_kinds :: CredentialKinds
  mr_users :: "(string \<times> Entry) list"
  mr_draining :: "string \<rightharpoonup> nat"
  mr_by_uuid :: "(bytes \<rightharpoonup> Entry) option"
  mr_by_trojan_hash :: "(bytes \<rightharpoonup> Entry) option"
  mr_by_password :: "(string \<rightharpoonup> Entry) option"
  mr_by_psk_hash :: "(bytes \<rightharpoonup> Entry) option"
  mr_by_anytls_hash :: "(bytes \<rightharpoonup> Entry) option"
  mr_by_naive_encoded :: "(bytes \<rightharpoonup> Entry) option"
  mr_anytls_prefixes :: "(bytes \<rightharpoonup> nat) option"
  mr_vmess_candidates :: "Entry list"
  mr_contexts :: "'c list"
  mr_generations :: "DrainingUser list"

definition when_kind :: "bool \<Rightarrow> ('k \<rightharpoonup> 'v) option" where
  "when_kind kind = (if kind then Some Map.empty else None)"

definition registry_new :: "CredentialKinds \<Rightarrow> 'c MemoryUserRegistry" where
  "registry_new kinds =
     \<lparr> mr_analysis = None, mr_kinds = kinds, mr_users = [], mr_draining = Map.empty,
       mr_by_uuid = when_kind (kd_uuid kinds), mr_by_trojan_hash = when_kind (kd_trojan_password kinds),
       mr_by_password = when_kind (kd_plain_password kinds), mr_by_psk_hash = when_kind (is_len (kd_shadowsocks_psk kinds)),
       mr_by_anytls_hash = when_kind (kd_anytls_password kinds), mr_by_naive_encoded = when_kind (kd_naive_basic kinds),
       mr_anytls_prefixes = when_kind (kd_anytls_password kinds), mr_vmess_candidates = [],
       mr_contexts = [], mr_generations = [] \<rparr>"

definition context_of :: "'c MemoryUserRegistry \<Rightarrow> Entry \<Rightarrow> 'c" where
  "context_of r e = mr_contexts r ! en_context e"

definition owner_id :: "'c user_context \<Rightarrow> 'c MemoryUserRegistry \<Rightarrow> Entry \<Rightarrow> string" where
  "owner_id uc r e = uc_id uc (context_of r e)"

definition psk_hash :: "Entry \<Rightarrow> bytes option" where
  "psk_hash e = map_option sc_hash (en_shadowsocks e)"

section \<open>Index steps\<close>

text \<open>\<open>idx.as_ref().expect(\<dots>).remove(key)\<close> when the old key is no longer presented, and \<open>insert\<close>.\<close>

definition index_retire :: "'k option \<Rightarrow> 'k option \<Rightarrow> ('k \<rightharpoonup> 'e) option \<Rightarrow> ('k \<rightharpoonup> 'e) option option" where
  "index_retire old new index =
     (if old \<noteq> new
      then (case old of None \<Rightarrow> Some index
            | Some k \<Rightarrow> (case index of None \<Rightarrow> None | Some m \<Rightarrow> Some (Some (m(k := None)))))
      else Some index)"

definition index_insert :: "'k option \<Rightarrow> 'e \<Rightarrow> ('k \<rightharpoonup> 'e) option \<Rightarrow> ('k \<rightharpoonup> 'e) option option" where
  "index_insert new e index =
     (case new of None \<Rightarrow> Some index
      | Some k \<Rightarrow> (case index of None \<Rightarrow> None | Some m \<Rightarrow> Some (Some (m(k \<mapsto> e)))))"

definition claim_anytls_prefix :: "credential_api \<Rightarrow> bytes \<Rightarrow> (bytes \<rightharpoonup> nat) option \<Rightarrow> (bytes \<rightharpoonup> nat) option option" where
  "claim_anytls_prefix ca hash prefixes =
     (case prefixes of None \<Rightarrow> None
      | Some m \<Rightarrow>
          let p = ca_password_sha256_prefix ca hash in
          Some (Some (m(p \<mapsto> (case m p of None \<Rightarrow> 0 | Some n \<Rightarrow> n) + 1))))"

definition release_anytls_prefix :: "credential_api \<Rightarrow> bytes \<Rightarrow> (bytes \<rightharpoonup> nat) option \<Rightarrow> (bytes \<rightharpoonup> nat) option option" where
  "release_anytls_prefix ca hash prefixes =
     (case prefixes of None \<Rightarrow> None
      | Some m \<Rightarrow>
          let p = ca_password_sha256_prefix ca hash in
          Some (Some (case m p of None \<Rightarrow> m
                      | Some n \<Rightarrow> if n - 1 = 0 then m(p := None) else m(p \<mapsto> n - 1))))"

definition retire_prefix :: "credential_api \<Rightarrow> bytes option \<Rightarrow> bytes option \<Rightarrow> (bytes \<rightharpoonup> nat) option \<Rightarrow> (bytes \<rightharpoonup> nat) option option" where
  "retire_prefix ca old new prefixes =
     (if old \<noteq> new then (case old of None \<Rightarrow> Some prefixes | Some hash \<Rightarrow> release_anytls_prefix ca hash prefixes)
      else Some prefixes)"

text \<open>Only a key that was not indexed claims its prefix.\<close>

definition insert_prefix :: "credential_api \<Rightarrow> bytes option \<Rightarrow> (bytes \<rightharpoonup> Entry) option \<Rightarrow> (bytes \<rightharpoonup> nat) option \<Rightarrow>
    (bytes \<rightharpoonup> nat) option option" where
  "insert_prefix ca new index prefixes =
     (case new of None \<Rightarrow> Some prefixes
      | Some hash \<Rightarrow>
          (case index of None \<Rightarrow> None
           | Some m \<Rightarrow> if m hash = None then claim_anytls_prefix ca hash prefixes else Some prefixes))"

definition retire_keys :: "credential_api \<Rightarrow> Entry \<Rightarrow> Entry \<Rightarrow> 'c MemoryUserRegistry \<Rightarrow> 'c MemoryUserRegistry option" where
  "retire_keys ca previous e r =
     Option.bind (index_retire (en_uuid previous) (en_uuid e) (mr_by_uuid r)) (\<lambda>by_uuid.
     Option.bind (index_retire (en_trojan_hash previous) (en_trojan_hash e) (mr_by_trojan_hash r)) (\<lambda>by_trojan.
     Option.bind (index_retire (en_password previous) (en_password e) (mr_by_password r)) (\<lambda>by_password.
     Option.bind (index_retire (psk_hash previous) (psk_hash e) (mr_by_psk_hash r)) (\<lambda>by_psk.
     Option.bind (index_retire (en_anytls_hash previous) (en_anytls_hash e) (mr_by_anytls_hash r)) (\<lambda>by_anytls.
     Option.bind (retire_prefix ca (en_anytls_hash previous) (en_anytls_hash e) (mr_anytls_prefixes r)) (\<lambda>prefixes.
     Option.bind (index_retire (en_naive_encoded previous) (en_naive_encoded e) (mr_by_naive_encoded r)) (\<lambda>by_naive.
     Some (r\<lparr> mr_by_uuid := by_uuid, mr_by_trojan_hash := by_trojan, mr_by_password := by_password,
              mr_by_psk_hash := by_psk, mr_by_anytls_hash := by_anytls, mr_anytls_prefixes := prefixes,
              mr_by_naive_encoded := by_naive \<rparr>))))))))"

definition insert_keys :: "credential_api \<Rightarrow> Entry \<Rightarrow> 'c MemoryUserRegistry \<Rightarrow> 'c MemoryUserRegistry option" where
  "insert_keys ca e r =
     Option.bind (index_insert (en_uuid e) e (mr_by_uuid r)) (\<lambda>by_uuid.
     Option.bind (index_insert (en_trojan_hash e) e (mr_by_trojan_hash r)) (\<lambda>by_trojan.
     Option.bind (index_insert (en_password e) e (mr_by_password r)) (\<lambda>by_password.
     Option.bind (index_insert (psk_hash e) e (mr_by_psk_hash r)) (\<lambda>by_psk.
     Option.bind (index_insert (en_naive_encoded e) e (mr_by_naive_encoded r)) (\<lambda>by_naive.
     Option.bind (index_insert (en_anytls_hash e) e (mr_by_anytls_hash r)) (\<lambda>by_anytls.
     Option.bind (insert_prefix ca (en_anytls_hash e) (mr_by_anytls_hash r) (mr_anytls_prefixes r)) (\<lambda>prefixes.
     Some (r\<lparr> mr_by_uuid := by_uuid, mr_by_trojan_hash := by_trojan, mr_by_password := by_password,
              mr_by_psk_hash := by_psk, mr_by_anytls_hash := by_anytls, mr_anytls_prefixes := prefixes,
              mr_by_naive_encoded := by_naive \<rparr>))))))))"

definition republish_vmess :: "'c MemoryUserRegistry \<Rightarrow> 'c MemoryUserRegistry" where
  "republish_vmess r = r\<lparr> mr_vmess_candidates := filter (\<lambda>e. en_vmess e \<noteq> None) (map snd (mr_users r)) \<rparr>"

section \<open>Adding and updating\<close>

text \<open>The owner of an indexed key, and the refusal of a key that another user holds.\<close>

definition credential_owner :: "'c user_context \<Rightarrow> 'c MemoryUserRegistry \<Rightarrow> ('k \<rightharpoonup> Entry) option \<Rightarrow> 'k option \<Rightarrow> string option" where
  "credential_owner uc r index key =
     Option.bind key (\<lambda>k. Option.bind index (\<lambda>m. map_option (owner_id uc r) (m k)))"

definition unclaimed :: "string \<Rightarrow> string option \<Rightarrow> EngineError + unit" where
  "unclaimed user owner =
     (case owner of Some other \<Rightarrow> if other \<noteq> user then Inl (DuplicateCredential user other) else Inr ()
      | None \<Rightarrow> Inr ())"

definition check_credentials_unclaimed :: "'c user_context \<Rightarrow> 'c MemoryUserRegistry \<Rightarrow> string \<Rightarrow> Credentials \<Rightarrow> EngineError + unit" where
  "check_credentials_unclaimed uc r user c =
     rbind (unclaimed user (credential_owner uc r (mr_by_uuid r) (cr_uuid c))) (\<lambda>_.
     rbind (unclaimed user (credential_owner uc r (mr_by_trojan_hash r) (cr_trojan_hash c))) (\<lambda>_.
     rbind (unclaimed user (credential_owner uc r (mr_by_password r) (cr_password c))) (\<lambda>_.
     rbind (unclaimed user (credential_owner uc r (mr_by_psk_hash r) (map_option sc_hash (cr_shadowsocks c)))) (\<lambda>_.
     rbind (unclaimed user (credential_owner uc r (mr_by_anytls_hash r) (cr_anytls_hash c))) (\<lambda>_.
     unclaimed user (credential_owner uc r (mr_by_naive_encoded r) (cr_naive_encoded c)))))))"

definition limit_of :: "u64 option \<Rightarrow> u64" where
  "limit_of value = (case value of None \<Rightarrow> 0 | Some v \<Rightarrow> v)"

definition settings :: "'c user_context \<Rightarrow> nat option \<Rightarrow> UserSpec \<Rightarrow> 'c \<Rightarrow> 'c" where
  "settings uc analysis spec c =
     (let c = (case analysis of Some a \<Rightarrow> uc_set_analysis_context uc a c | None \<Rightarrow> c);
          c = uc_set_enabled uc (us_enabled spec) c;
          c = uc_set_max_conns uc (limit_of (us_max_conns spec)) c in
      uc_set_speed_limits uc (limit_of (us_upload_limit_bps spec)) (limit_of (us_download_limit_bps spec)) c)"

definition entry_of :: "nat \<Rightarrow> Credentials \<Rightarrow> Entry" where
  "entry_of address c =
     \<lparr> en_context = address, en_uuid = cr_uuid c, en_trojan_hash = cr_trojan_hash c, en_password = cr_password c,
       en_shadowsocks = cr_shadowsocks c, en_tuic_password = cr_tuic_password c, en_anytls_hash = cr_anytls_hash c,
       en_naive_encoded = cr_naive_encoded c, en_vmess = cr_uuid c \<rparr>"

text \<open>The record of the user is kept by an update and allocated for a new one.\<close>

definition claim_context :: "'c user_context \<Rightarrow> 'c MemoryUserRegistry \<Rightarrow> string \<Rightarrow> UserSpec \<Rightarrow> 'c MemoryUserRegistry \<times> nat" where
  "claim_context uc r user spec =
     (case map_of (mr_users r) user of
        Some previous \<Rightarrow>
          (r\<lparr> mr_contexts := (mr_contexts r)[en_context previous := settings uc (mr_analysis r) spec (context_of r previous)] \<rparr>,
           en_context previous)
      | None \<Rightarrow>
          (r\<lparr> mr_contexts := mr_contexts r @ [settings uc (mr_analysis r) spec (uc_new uc user)] \<rparr>, length (mr_contexts r)))"

definition draining_refusal :: "'c user_context \<Rightarrow> 'c MemoryUserRegistry \<Rightarrow> string \<Rightarrow> EngineError option" where
  "draining_refusal uc r user =
     (case mr_draining r user of None \<Rightarrow> None
      | Some g \<Rightarrow>
          let state = (if uc_conns uc (context_of r (dg_entry (mr_generations r ! g))) = 0 then ''has completed removal, but its final counters have not been collected''
                else ''is still disconnecting after removal'') in
          Some (InvalidUser (''user '' @ user @ '' '' @ state @
            ''; call remove_user again to collect that removal before re-adding the id'')))"

definition upsert_locked :: "credential_api \<Rightarrow> 'c user_context \<Rightarrow> 'c MemoryUserRegistry \<Rightarrow> UserSpec \<Rightarrow>
    ('c MemoryUserRegistry \<times> (EngineError + Entry)) option" where
  "upsert_locked ca uc r spec =
     (case resolved_id spec of
        None \<Rightarrow> Some (r, Inl (InvalidUser ''user needs an `id`, or a `uuid` to use as one''))
      | Some user \<Rightarrow>
          if trim user = [] then Some (r, Inl (InvalidUser ''user needs an `id`, or a `uuid` to use as one''))
          else (case draining_refusal uc r user of
            Some e \<Rightarrow> Some (r, Inl e)
          | None \<Rightarrow>
              (case rbind (parse_credentials ca (mr_kinds r) user spec) (\<lambda>c.
                      rbind (check_credentials_unclaimed uc r user c) (\<lambda>_. Inr c)) of
                 Inl e \<Rightarrow> Some (r, Inl e)
               | Inr c \<Rightarrow>
                   let previous = map_of (mr_users r) user; (r1, address) = claim_context uc r user spec;
                       e = entry_of address c in
                   Option.bind (case previous of Some p \<Rightarrow> retire_keys ca p e r1 | None \<Rightarrow> Some r1) (\<lambda>r2.
                   Option.bind (insert_keys ca e r2) (\<lambda>r3.
                   Some (r3\<lparr> mr_users := AList.update user e (mr_users r3) \<rparr>, Inr e))))))"

definition upsert :: "credential_api \<Rightarrow> 'c user_context \<Rightarrow> 'c MemoryUserRegistry \<Rightarrow> UserSpec \<Rightarrow>
    ('c MemoryUserRegistry \<times> (EngineError + UserInfo)) option" where
  "upsert ca uc r spec =
     Option.bind (upsert_locked ca uc r spec) (\<lambda>(r', result).
     case result of
       Inl e \<Rightarrow> Some (r', Inl e)
     | Inr e \<Rightarrow> let r'' = republish_vmess r' in Some (r'', Inr (user_info uc (context_of r'' e))))"

fun insert_users :: "credential_api \<Rightarrow> 'c user_context \<Rightarrow> UserSpec list \<Rightarrow> 'c MemoryUserRegistry \<Rightarrow>
    (EngineError + 'c MemoryUserRegistry) option" where
  "insert_users ca uc [] r = Some (Inr r)"
| "insert_users ca uc (spec # specs) r =
     (case resolved_id spec of
        None \<Rightarrow> Some (Inl (InvalidUser ''a user needs an `id` or a `uuid`''))
      | Some user \<Rightarrow>
          if map_of (mr_users r) user \<noteq> None
          then Some (Inl (InvalidUser (''user '' @ user @ '' is listed twice'')))
          else Option.bind (upsert_locked ca uc r spec) (\<lambda>(r', result).
            case result of Inl e \<Rightarrow> Some (Inl e) | Inr _ \<Rightarrow> insert_users ca uc specs r'))"

definition from_users :: "credential_api \<Rightarrow> 'c user_context \<Rightarrow> CredentialKinds \<Rightarrow> UserSpec list \<Rightarrow>
    (EngineError + 'c MemoryUserRegistry) option" where
  "from_users ca uc kinds specs =
     Option.bind (insert_users ca uc specs (registry_new kinds)) (\<lambda>result. Some (rbind result (\<lambda>r. Inr (republish_vmess r))))"


section \<open>Removing\<close>

definition context_update :: "nat \<Rightarrow> ('c \<Rightarrow> 'c) \<Rightarrow> 'c MemoryUserRegistry \<Rightarrow> 'c MemoryUserRegistry" where
  "context_update address f r = r\<lparr> mr_contexts := (mr_contexts r)[address := f (mr_contexts r ! address)] \<rparr>"

definition no_keys :: Entry where
  "no_keys = \<lparr> en_context = 0, en_uuid = None, en_trojan_hash = None, en_password = None, en_shadowsocks = None,
     en_tuic_password = None, en_anytls_hash = None, en_naive_encoded = None, en_vmess = None \<rparr>"

text \<open>The part of \<open>remove\<close> under the writer lock: the address of the tombstone and whether it is new.\<close>

definition remove_locked :: "credential_api \<Rightarrow> 'c user_context \<Rightarrow> string \<Rightarrow> string \<Rightarrow> 'c MemoryUserRegistry \<Rightarrow>
    ('c MemoryUserRegistry \<times> (EngineError + nat \<times> bool)) option" where
  "remove_locked ca uc tag user r =
     (case map_of (mr_users r) user of
        Some e \<Rightarrow>
          let r1 = context_update (en_context e) (uc_revoke_connections uc) r;
              g = length (mr_generations r1);
              r2 = r1\<lparr> mr_users := AList.delete user (mr_users r1),
                       mr_generations := mr_generations r1 @ [\<lparr> dg_entry = e, dg_result = None \<rparr>],
                       mr_draining := (mr_draining r1)(owner_id uc r1 e \<mapsto> g) \<rparr> in
          Option.bind (retire_keys ca e no_keys r2) (\<lambda>r3. Some (republish_vmess r3, Inr (g, True)))
      | None \<Rightarrow>
          (case mr_draining r user of
             None \<Rightarrow> Some (r, Inl (UnknownUser tag user))
           | Some g \<Rightarrow> Some (r, Inr (g, False))))"

text \<open>\<open>DrainingUser::complete\<close> stores the final counters once, \<open>finish\<close> waits for them: it returns \<open>None\<close>
  while a connection is open.\<close>

definition complete_generation :: "'c user_context \<Rightarrow> nat \<Rightarrow> 'c MemoryUserRegistry \<Rightarrow> 'c MemoryUserRegistry \<times> UserInfo" where
  "complete_generation uc g r =
     (let dg = mr_generations r ! g;
          info = (case dg_result dg of Some info \<Rightarrow> info | None \<Rightarrow> user_info uc (context_of r (dg_entry dg))) in
      (r\<lparr> mr_generations := (mr_generations r)[g := dg\<lparr> dg_result := Some info \<rparr>] \<rparr>, info))"

definition finish :: "'c user_context \<Rightarrow> nat \<Rightarrow> 'c MemoryUserRegistry \<Rightarrow> ('c MemoryUserRegistry \<times> UserInfo) option" where
  "finish uc g r =
     (let dg = mr_generations r ! g in
      case dg_result dg of
        Some info \<Rightarrow> Some (r, info)
      | None \<Rightarrow> if uc_conns uc (context_of r (dg_entry dg)) = 0 then Some (complete_generation uc g r) else None)"

definition clear_draining_generation :: "'c user_context \<Rightarrow> nat \<Rightarrow> 'c MemoryUserRegistry \<Rightarrow> 'c MemoryUserRegistry" where
  "clear_draining_generation uc g r =
     (let user = owner_id uc r (dg_entry (mr_generations r ! g)) in
      if mr_draining r user = Some g then r\<lparr> mr_draining := (mr_draining r)(user := None) \<rparr> else r)"

text \<open>The end of a removal whose finalizer ran, and of one whose finalizer was cancelled.\<close>

definition remove_collect :: "'c user_context \<Rightarrow> nat \<Rightarrow> 'c MemoryUserRegistry \<Rightarrow> ('c MemoryUserRegistry \<times> UserInfo) option" where
  "remove_collect uc g r = map_option (\<lambda>(r', info). (clear_draining_generation uc g r', info)) (finish uc g r)"

definition remove_cancelled :: "'c user_context \<Rightarrow> nat \<Rightarrow> string \<Rightarrow> 'c MemoryUserRegistry \<Rightarrow> 'c MemoryUserRegistry \<times> EngineError" where
  "remove_cancelled uc g error r =
     (if uc_conns uc (context_of r (dg_entry (mr_generations r ! g))) = 0 then fst (complete_generation uc g r) else r,
      EngineIo \<lparr> sio_kind = OtherIo, sio_text = ''user removal finalizer failed: '' @ error, sio_concurrent = False \<rparr>)"

section \<open>Reports\<close>

definition get_user :: "'c user_context \<Rightarrow> string \<Rightarrow> 'c MemoryUserRegistry \<Rightarrow> UserInfo option" where
  "get_user uc user r = map_option (\<lambda>e. user_info uc (context_of r e)) (map_of (mr_users r) user)"

definition kick :: "'c user_context \<Rightarrow> string \<Rightarrow> string \<Rightarrow> 'c MemoryUserRegistry \<Rightarrow> 'c MemoryUserRegistry \<times> (EngineError + u64)" where
  "kick uc tag user r =
     (case map_of (mr_users r) user of
        None \<Rightarrow> (r, Inl (UnknownUser tag user))
      | Some e \<Rightarrow> (context_update (en_context e) (\<lambda>c. fst (uc_kick_connections uc c)) r,
                   Inr (snd (uc_kick_connections uc (context_of r e)))))"

definition take_entry :: "'c user_context \<Rightarrow> Entry \<Rightarrow> 'c MemoryUserRegistry \<Rightarrow> 'c MemoryUserRegistry \<times> UserInfo" where
  "take_entry uc e r =
     (context_update (en_context e) (\<lambda>c. fst (taken_user_info uc c)) r, snd (taken_user_info uc (context_of r e)))"

definition take_traffic :: "'c user_context \<Rightarrow> string \<Rightarrow> string \<Rightarrow> 'c MemoryUserRegistry \<Rightarrow> 'c MemoryUserRegistry \<times> (EngineError + UserInfo)" where
  "take_traffic uc tag user r =
     (case map_of (mr_users r) user of
        None \<Rightarrow> (r, Inl (UnknownUser tag user))
      | Some e \<Rightarrow> (case take_entry uc e r of (r', info) \<Rightarrow> (r', Inr info)))"

fun take_entries :: "'c user_context \<Rightarrow> Entry list \<Rightarrow> 'c MemoryUserRegistry \<Rightarrow> 'c MemoryUserRegistry \<times> UserInfo list" where
  "take_entries uc [] r = (r, [])"
| "take_entries uc (e # es) r =
     (case take_entry uc e r of (r', info) \<Rightarrow> case take_entries uc es r' of (r'', infos) \<Rightarrow> (r'', info # infos))"

definition take_all_traffic :: "'c user_context \<Rightarrow> 'c MemoryUserRegistry \<Rightarrow> 'c MemoryUserRegistry \<times> UserInfo list" where
  "take_all_traffic uc r =
     (case take_entries uc (map snd (mr_users r)) r of (r', infos) \<Rightarrow> (r', sort_key ui_id infos))"

definition take_nonzero_traffic :: "'c user_context \<Rightarrow> 'c MemoryUserRegistry \<Rightarrow> 'c MemoryUserRegistry \<times> UserInfo list" where
  "take_nonzero_traffic uc r =
     (case take_entries uc (map snd (mr_users r)) r of (r', infos) \<Rightarrow>
      (r', sort_key ui_id (filter (\<lambda>info. ui_tx info \<noteq> 0 \<or> ui_rx info \<noteq> 0) infos)))"

definition list_users :: "'c user_context \<Rightarrow> 'c MemoryUserRegistry \<Rightarrow> UserInfo list" where
  "list_users uc r = sort_key ui_id (map (\<lambda>e. user_info uc (context_of r e)) (map snd (mr_users r)))"

definition set_analysis_context :: "'c user_context \<Rightarrow> nat \<Rightarrow> 'c MemoryUserRegistry \<Rightarrow> 'c MemoryUserRegistry" where
  "set_analysis_context uc analysis r =
     fold (\<lambda>e. context_update (en_context e) (uc_set_analysis_context uc analysis)) (map snd (mr_users r))
       (r\<lparr> mr_analysis := (case mr_analysis r of None \<Rightarrow> Some analysis | Some a \<Rightarrow> Some a) \<rparr>)"

section \<open>Authentication\<close>

text \<open>A lookup returns the address of the accounting record. \<open>accept\<close> compares the whole key again.\<close>

definition accept :: "'c user_context \<Rightarrow> 'c MemoryUserRegistry \<Rightarrow> 'k \<Rightarrow> 'k \<Rightarrow> Entry \<Rightarrow> nat option" where
  "accept uc r expected presented e =
     (if expected \<noteq> presented \<or> \<not> uc_is_enabled uc (context_of r e) then None else Some (en_context e))"

definition find_in :: "'c user_context \<Rightarrow> 'c MemoryUserRegistry \<Rightarrow> ('k \<rightharpoonup> Entry) option \<Rightarrow> (Entry \<Rightarrow> 'k option) \<Rightarrow> 'k \<Rightarrow> nat option" where
  "find_in uc r index key k =
     Option.bind index (\<lambda>m. Option.bind (m k) (\<lambda>e. Option.bind (key e) (\<lambda>expected. accept uc r expected k e)))"

definition find_uuid :: "'c user_context \<Rightarrow> 'c MemoryUserRegistry \<Rightarrow> bytes \<Rightarrow> nat option" where
  "find_uuid uc r uuid = find_in uc r (mr_by_uuid r) en_uuid uuid"

definition find_trojan_hash :: "'c user_context \<Rightarrow> 'c MemoryUserRegistry \<Rightarrow> bytes \<Rightarrow> nat option" where
  "find_trojan_hash uc r hash = find_in uc r (mr_by_trojan_hash r) en_trojan_hash hash"

definition find_password :: "'c user_context \<Rightarrow> 'c MemoryUserRegistry \<Rightarrow> string \<Rightarrow> nat option" where
  "find_password uc r password = find_in uc r (mr_by_password r) en_password password"

definition find_password_sha256 :: "'c user_context \<Rightarrow> 'c MemoryUserRegistry \<Rightarrow> bytes \<Rightarrow> nat option" where
  "find_password_sha256 uc r hash = find_in uc r (mr_by_anytls_hash r) en_anytls_hash hash"

definition find_naive_basic :: "'c user_context \<Rightarrow> 'c MemoryUserRegistry \<Rightarrow> bytes \<Rightarrow> nat option" where
  "find_naive_basic uc r encoded = find_in uc r (mr_by_naive_encoded r) en_naive_encoded encoded"

definition find_shadowsocks_psk_hash :: "'c user_context \<Rightarrow> 'c MemoryUserRegistry \<Rightarrow> bytes \<Rightarrow> (nat \<times> bytes) option" where
  "find_shadowsocks_psk_hash uc r hash =
     Option.bind (mr_by_psk_hash r) (\<lambda>m. Option.bind (m hash) (\<lambda>e. Option.bind (en_shadowsocks e) (\<lambda>credential.
     if sc_hash credential \<noteq> hash \<or> \<not> uc_is_enabled uc (context_of r e) then None
     else Some (en_context e, sc_psk credential))))"

definition find_tuic_uuid :: "'c user_context \<Rightarrow> 'c MemoryUserRegistry \<Rightarrow> bytes \<Rightarrow> (nat \<times> string) option" where
  "find_tuic_uuid uc r uuid =
     Option.bind (mr_by_uuid r) (\<lambda>m. Option.bind (m uuid) (\<lambda>e. Option.bind (en_tuic_password e) (\<lambda>password.
     Option.bind (en_uuid e) (\<lambda>expected.
     if expected \<noteq> uuid \<or> \<not> uc_is_enabled uc (context_of r e) then None else Some (en_context e, password)))))"

definition accept_vmess :: "credential_api \<Rightarrow> 'c user_context \<Rightarrow> 'c MemoryUserRegistry \<Rightarrow> bytes \<Rightarrow> Entry \<Rightarrow> (nat \<times> bytes \<times> u64) option" where
  "accept_vmess ca uc r auth_id e =
     Option.bind (en_vmess e) (\<lambda>key. Option.bind (ca_vmess_open ca key auth_id) (\<lambda>timestamp.
     if \<not> uc_is_enabled uc (context_of r e) then None
     else Some (en_context e, ca_vmess_instruction_key ca key, timestamp)))"

fun find_map :: "('a \<Rightarrow> 'b option) \<Rightarrow> 'a list \<Rightarrow> 'b option" where
  "find_map f [] = None"
| "find_map f (x # xs) = (case f x of Some y \<Rightarrow> Some y | None \<Rightarrow> find_map f xs)"

definition find_vmess_auth_id :: "credential_api \<Rightarrow> 'c user_context \<Rightarrow> 'c MemoryUserRegistry \<Rightarrow> bytes \<Rightarrow> (nat \<times> bytes \<times> u64) option" where
  "find_vmess_auth_id ca uc r auth_id = find_map (accept_vmess ca uc r auth_id) (mr_vmess_candidates r)"

definition has_password_sha256_prefix :: "'c MemoryUserRegistry \<Rightarrow> bytes \<Rightarrow> bool" where
  "has_password_sha256_prefix r prefix =
     (case mr_anytls_prefixes r of None \<Rightarrow> False | Some m \<Rightarrow> m prefix \<noteq> None)"

end
