(* ===== verification/User_Table.thy ===== *)
theory User_Table
  imports User_Registry "HOL-Library.Multiset"
begin

text \<open>
  Correctness of the user table: every index is exactly the inverse of the live users' keys, prefix
  counts are true counts, no user is live and draining at once, and no accounting record is shared.
  The invariant holds in every state reached by additions, removals, collections and the connections'
  own traffic; from it follow that no expected index is ever missing and that a credential
  authenticates exactly its enabled owner.
\<close>

section \<open>One index\<close>

definition index_ok :: "bool \<Rightarrow> (Entry \<Rightarrow> 'k option) \<Rightarrow> (string \<rightharpoonup> Entry) \<Rightarrow> ('k \<rightharpoonup> Entry) option \<Rightarrow> bool" where
  "index_ok kind key live index \<longleftrightarrow>
     (index = None \<longleftrightarrow> \<not> kind) \<and> (\<forall>user e. live user = Some e \<longrightarrow> key e \<noteq> None \<longrightarrow> kind) \<and>
     (\<forall>m. index = Some m \<longrightarrow> (\<forall>k e. m k = Some e \<longleftrightarrow> (\<exists>user. live user = Some e \<and> key e = Some k)))"

lemma index_okD:
  assumes "index_ok kind key live (Some m)"
  shows "m k = Some e \<longleftrightarrow> (\<exists>user. live user = Some e \<and> key e = Some k)"
  using assms by (simp add: index_ok_def)

definition replace_key :: "(Entry \<Rightarrow> 'k option) \<Rightarrow> Entry option \<Rightarrow> Entry \<Rightarrow> ('k \<rightharpoonup> Entry) option \<Rightarrow> ('k \<rightharpoonup> Entry) option option" where
  "replace_key key previous e index =
     Option.bind (case previous of Some p \<Rightarrow> index_retire (key p) (key e) index | None \<Rightarrow> Some index)
       (index_insert (key e) e)"

lemma replace_key_ok:
  assumes ok: "index_ok kind key live index" and kind: "key e \<noteq> None \<longrightarrow> kind"
    and inj: "\<And>u v x. live u = Some x \<Longrightarrow> live v = Some x \<Longrightarrow> u = v"
    and free: "\<And>k m x. key e = Some k \<Longrightarrow> index = Some m \<Longrightarrow> m k = Some x \<Longrightarrow> live user = Some x"
  shows "\<exists>index'. replace_key key (live user) e index = Some index' \<and> index_ok kind key (live(user \<mapsto> e)) index'"
proof (cases index)
  case None
  with ok have "\<not> kind" by (simp add: index_ok_def)
  with ok kind None show ?thesis
    by (auto simp: replace_key_def index_retire_def index_insert_def index_ok_def split: option.splits)
next
  case (Some m)
  with ok have "kind" by (auto simp: index_ok_def)
  note m = index_okD [OF ok [unfolded Some]]
  let ?m1 = "case live user of Some p \<Rightarrow> (case key p of Some k \<Rightarrow> if key e = Some k then m else m(k := None) | None \<Rightarrow> m) | None \<Rightarrow> m"
  let ?m2 = "case key e of Some k \<Rightarrow> ?m1(k \<mapsto> e) | None \<Rightarrow> ?m1"
  have run: "replace_key key (live user) e index = Some (Some ?m2)"
    by (auto simp: replace_key_def index_retire_def index_insert_def Some split: option.splits)
  have m1: "?m1 k = Some x \<longleftrightarrow> m k = Some x \<and> (live user = Some x \<longrightarrow> key e = Some k)" for k x
    using m inj by (auto split: option.splits) (metis option.inject)+
  have "?m2 k = Some x \<longleftrightarrow> (\<exists>u. (live(user \<mapsto> e)) u = Some x \<and> key x = Some k)" for k x
  proof (cases "key e = Some k")
    case True
    then have "?m2 k = Some e" by simp
    moreover have "u = user" if "live u = Some x" "key x = Some k" for u x
      using that m free [OF True Some] inj by blast
    ultimately show ?thesis using True by (auto split: if_splits)
  next
    case False
    then have "?m2 k = ?m1 k" by (auto split: option.split)
    with m1 [of k x] m False inj show ?thesis by (auto split: if_splits) (metis fun_upd_apply)+
  qed
  with run \<open>kind\<close> show ?thesis by (auto simp: index_ok_def)
qed

lemma remove_key_ok:
  assumes ok: "index_ok kind key live index" and inj: "\<And>u v x. live u = Some x \<Longrightarrow> live v = Some x \<Longrightarrow> u = v"
    and gone: "live user = Some p"
  shows "\<exists>index'. index_retire (key p) None index = Some index' \<and> index_ok kind key (live(user := None)) index'"
proof (cases index)
  case None
  with ok gone show ?thesis by (auto simp: index_retire_def index_ok_def split: option.splits)
next
  case (Some m)
  note m = index_okD [OF ok [unfolded Some]]
  let ?m1 = "case key p of Some k \<Rightarrow> m(k := None) | None \<Rightarrow> m"
  have run: "index_retire (key p) None index = Some (Some ?m1)"
    by (auto simp: index_retire_def Some split: option.splits)
  have "?m1 k = Some x \<longleftrightarrow> (\<exists>u. (live(user := None)) u = Some x \<and> key x = Some k)" for k x
  proof (cases "key p = Some k")
    case True
    then have "u = user" if "live u = Some x" "key x = Some k" for u x
      using that m gone inj by (metis option.inject)
    with True show ?thesis by (auto split: if_splits)
  next
    case False
    then have "?m1 k = m k" by (auto split: option.split)
    with m False gone inj show ?thesis by (auto split: if_splits) (metis option.inject)+
  qed
  moreover have "kind" using ok Some by (auto simp: index_ok_def)
  ultimately show ?thesis using run by (auto simp: index_ok_def)
qed

section \<open>Prefix counts\<close>

definition count_map :: "('p \<Rightarrow> nat) \<Rightarrow> 'p \<rightharpoonup> nat" where
  "count_map f = (\<lambda>p. if f p = 0 then None else Some (f p))"

definition has_prefix :: "credential_api \<Rightarrow> bytes \<Rightarrow> Entry \<Rightarrow> bool" where
  "has_prefix ca p e \<longleftrightarrow> map_option (ca_password_sha256_prefix ca) (en_anytls_hash e) = Some p"

definition prefix_count :: "credential_api \<Rightarrow> (string \<times> Entry) list \<Rightarrow> bytes \<Rightarrow> nat" where
  "prefix_count ca users p = length (filter (\<lambda>(_, e). has_prefix ca p e) users)"

lemma claim_count_map:
  "claim_anytls_prefix ca h (Some (count_map f)) =
     Some (Some (count_map (f(ca_password_sha256_prefix ca h := f (ca_password_sha256_prefix ca h) + 1))))"
  by (auto simp: claim_anytls_prefix_def count_map_def Let_def fun_eq_iff)

lemma release_count_map:
  "release_anytls_prefix ca h (Some (count_map f)) =
     Some (Some (count_map (f(ca_password_sha256_prefix ca h := f (ca_password_sha256_prefix ca h) - 1))))"
  by (auto simp: release_anytls_prefix_def count_map_def Let_def fun_eq_iff)

lemma filter_update_count:
  "distinct (map fst al) \<Longrightarrow>
   length (filter P (AList.update k v al)) + (case map_of al k of Some w \<Rightarrow> if P (k, w) then 1 else 0 | None \<Rightarrow> 0) =
   length (filter P al) + (if P (k, v) then 1 else 0)"
  by (induction al) (auto simp: map_of_eq_None_iff split: option.splits)

lemma filter_delete_count:
  "distinct (map fst al) \<Longrightarrow>
   length (filter P (AList.delete k al)) + (case map_of al k of Some w \<Rightarrow> if P (k, w) then 1 else 0 | None \<Rightarrow> 0) =
   length (filter P al)"
  by (induction al) (auto split: option.splits)


definition replace_prefix :: "credential_api \<Rightarrow> Entry option \<Rightarrow> Entry \<Rightarrow> (bytes \<rightharpoonup> Entry) option \<Rightarrow> (bytes \<rightharpoonup> nat) option \<Rightarrow>
    (bytes \<rightharpoonup> nat) option option" where
  "replace_prefix ca previous e index prefixes =
     Option.bind (case previous of
         Some p \<Rightarrow> Option.bind (index_retire (en_anytls_hash p) (en_anytls_hash e) index) (\<lambda>index.
           Option.bind (retire_prefix ca (en_anytls_hash p) (en_anytls_hash e) prefixes) (\<lambda>prefixes. Some (index, prefixes)))
       | None \<Rightarrow> Some (index, prefixes))
       (\<lambda>(index, prefixes). insert_prefix ca (en_anytls_hash e) index prefixes)"

definition prefixes_ok :: "credential_api \<Rightarrow> bool \<Rightarrow> (string \<times> Entry) list \<Rightarrow> (bytes \<rightharpoonup> nat) option \<Rightarrow> bool" where
  "prefixes_ok ca kind users prefixes \<longleftrightarrow> prefixes = (if kind then Some (count_map (prefix_count ca users)) else None)"

lemma prefix_count_update:
  "distinct (map fst users) \<Longrightarrow>
   prefix_count ca (AList.update user e users) p + (case map_of users user of Some q \<Rightarrow> if has_prefix ca p q then 1 else 0 | None \<Rightarrow> 0) =
   prefix_count ca users p + (if has_prefix ca p e then 1 else 0)"
  using filter_update_count [of users "\<lambda>(_, e). has_prefix ca p e" user e]
  by (cases "map_of users user") (simp_all add: prefix_count_def)

lemma prefix_count_pos: "map_of users user = Some q \<Longrightarrow> has_prefix ca p q \<Longrightarrow> 0 < prefix_count ca users p"
  by (auto simp: prefix_count_def filter_empty_conv dest: map_of_SomeD)

lemma prefix_count_delete:
  "distinct (map fst users) \<Longrightarrow> map_of users user = Some q \<Longrightarrow>
   prefix_count ca (AList.delete user users) p + (if has_prefix ca p q then 1 else 0) = prefix_count ca users p"
  using filter_delete_count [of users "\<lambda>(_, e). has_prefix ca p e" user] by (simp add: prefix_count_def)

lemma replace_prefix_ok:
  assumes idx: "index_ok kind en_anytls_hash (map_of users) index" and pre: "prefixes_ok ca kind users prefixes"
    and dist: "distinct (map fst users)" and kind: "en_anytls_hash e \<noteq> None \<longrightarrow> kind"
    and free: "\<And>k m x. en_anytls_hash e = Some k \<Longrightarrow> index = Some m \<Longrightarrow> m k = Some x \<Longrightarrow> map_of users user = Some x"
  shows "\<exists>prefixes'. replace_prefix ca (map_of users user) e index prefixes = Some prefixes' \<and>
    prefixes_ok ca kind (AList.update user e users) prefixes'"
proof (cases index)
  case None
  with idx have "\<not> kind" by (simp add: index_ok_def)
  moreover from this idx have "en_anytls_hash q = None" if "map_of users user = Some q" for q
    using that by (auto simp: index_ok_def)
  ultimately show ?thesis using kind None pre
    by (auto simp: replace_prefix_def index_retire_def retire_prefix_def insert_prefix_def prefixes_ok_def split: option.splits)
next
  case (Some m)
  with idx have kind: "kind" by (auto simp: index_ok_def)
  note m = index_okD [OF idx [unfolded Some]]
  let ?f = "prefix_count ca users" and ?P = "ca_password_sha256_prefix ca"
  note upd = prefix_count_update [OF dist, of ca user e]
  have pre': "prefixes = Some (count_map ?f)" using pre kind by (simp add: prefixes_ok_def)
  let ?g = "case map_of users user of Some q \<Rightarrow>
      (if en_anytls_hash q = en_anytls_hash e then ?f
       else case en_anytls_hash q of Some h \<Rightarrow> ?f(?P h := ?f (?P h) - 1) | None \<Rightarrow> ?f) | None \<Rightarrow> ?f"
  let ?h = "case en_anytls_hash e of None \<Rightarrow> ?g | Some h \<Rightarrow>
      (if \<exists>q. map_of users user = Some q \<and> en_anytls_hash q = Some h then ?g else ?g(?P h := ?g (?P h) + 1))"
  have indexed: "m h \<noteq> None \<longleftrightarrow> (\<exists>q. map_of users user = Some q \<and> en_anytls_hash q = Some h)"
    if "en_anytls_hash e = Some h" for h
    using m [of h] free [OF that Some] by (metis not_None_eq)
  have "replace_prefix ca (map_of users user) e index prefixes = Some (Some (count_map ?h))"
  proof (cases "en_anytls_hash e")
    case None
    then show ?thesis
      by (simp add: replace_prefix_def index_retire_def retire_prefix_def insert_prefix_def Some pre' release_count_map
          split: option.split)
  next
    case (Some h)
    note idx = indexed [OF Some] and eqs = replace_prefix_def index_retire_def retire_prefix_def insert_prefix_def
      Some \<open>index = Some m\<close> pre' claim_count_map release_count_map
    show ?thesis
    proof (cases "map_of users user")
      case None
      with idx show ?thesis by (simp add: eqs)
    next
      case prev: (Some q)
      with idx have "m h \<noteq> None \<longleftrightarrow> en_anytls_hash q = Some h" by auto
      with prev show ?thesis by (cases "en_anytls_hash q") (auto simp: eqs)
    qed
  qed
  moreover have "?h p = prefix_count ca (AList.update user e users) p" for p
  proof (cases "map_of users user")
    case None
    with upd [of p] show ?thesis by (cases "en_anytls_hash e") (auto simp: has_prefix_def)
  next
    case prev: (Some q)
    note eqs = upd [of p, unfolded prev] prefix_count_pos [OF prev, of ca p]
    show ?thesis
    proof (cases "en_anytls_hash q")
      case None
      with eqs show ?thesis by (cases "en_anytls_hash e") (auto simp: prev has_prefix_def)
    next
      case (Some h)
      with eqs show ?thesis by (cases "en_anytls_hash e"; cases "?P h = p") (auto simp: prev has_prefix_def)
    qed
  qed
  then have "?h = prefix_count ca (AList.update user e users)" by (rule ext)
  ultimately show ?thesis using kind by (auto simp: prefixes_ok_def)
qed


section \<open>The invariant\<close>

definition live :: "'c MemoryUserRegistry \<Rightarrow> string \<rightharpoonup> Entry" where
  "live r = map_of (mr_users r)"

definition addresses :: "'c MemoryUserRegistry \<Rightarrow> nat list" where
  "addresses r = map (\<lambda>(_, e). en_context e) (mr_users r) @ map (\<lambda>dg. en_context (dg_entry dg)) (mr_generations r)"

definition indexes_ok :: "credential_api \<Rightarrow> (string \<times> Entry) list \<Rightarrow> 'c MemoryUserRegistry \<Rightarrow> bool" where
  "indexes_ok ca users r \<longleftrightarrow>
     index_ok (kd_uuid (mr_kinds r)) en_uuid (map_of users) (mr_by_uuid r) \<and>
     index_ok (kd_trojan_password (mr_kinds r)) en_trojan_hash (map_of users) (mr_by_trojan_hash r) \<and>
     index_ok (kd_plain_password (mr_kinds r)) en_password (map_of users) (mr_by_password r) \<and>
     index_ok (is_len (kd_shadowsocks_psk (mr_kinds r))) psk_hash (map_of users) (mr_by_psk_hash r) \<and>
     index_ok (kd_anytls_password (mr_kinds r)) en_anytls_hash (map_of users) (mr_by_anytls_hash r) \<and>
     index_ok (kd_naive_basic (mr_kinds r)) en_naive_encoded (map_of users) (mr_by_naive_encoded r) \<and>
     prefixes_ok ca (kd_anytls_password (mr_kinds r)) users (mr_anytls_prefixes r)"

definition contexts_ok :: "'c user_context \<Rightarrow> 'c MemoryUserRegistry \<Rightarrow> bool" where
  "contexts_ok uc r \<longleftrightarrow>
     distinct (map fst (mr_users r)) \<and> distinct (addresses r) \<and> (\<forall>a \<in> set (addresses r). a < length (mr_contexts r)) \<and>
     (\<forall>user e. live r user = Some e \<longrightarrow> owner_id uc r e = user \<and> en_vmess e = en_uuid e) \<and>
     (\<forall>user g. mr_draining r user = Some g \<longrightarrow> g < length (mr_generations r) \<and>
        owner_id uc r (dg_entry (mr_generations r ! g)) = user \<and> live r user = None)"

definition registry_wf :: "credential_api \<Rightarrow> 'c user_context \<Rightarrow> 'c MemoryUserRegistry \<Rightarrow> bool" where
  "registry_wf ca uc r \<longleftrightarrow> contexts_ok uc r \<and> indexes_ok ca (mr_users r) r"

text \<open>What the table relies on of the accounting record: its id never changes, and a new one has the id it
  was given.\<close>

definition context_laws :: "'c user_context \<Rightarrow> bool" where
  "context_laws uc \<longleftrightarrow>
     (\<forall>user. uc_id uc (uc_new uc user) = user) \<and> (\<forall>a c. uc_id uc (uc_set_analysis_context uc a c) = uc_id uc c) \<and>
     (\<forall>b c. uc_id uc (uc_set_enabled uc b c) = uc_id uc c) \<and> (\<forall>n c. uc_id uc (uc_set_max_conns uc n c) = uc_id uc c) \<and>
     (\<forall>u d c. uc_id uc (uc_set_speed_limits uc u d c) = uc_id uc c) \<and>
     (\<forall>c. uc_id uc (uc_revoke_connections uc c) = uc_id uc c) \<and>
     (\<forall>c. uc_id uc (fst (uc_kick_connections uc c)) = uc_id uc c) \<and> (\<forall>c. uc_id uc (fst (uc_take_traffic uc c)) = uc_id uc c)"

lemma settings_id: "context_laws uc \<Longrightarrow> uc_id uc (settings uc a spec c) = uc_id uc c"
  by (simp add: context_laws_def settings_def Let_def split: option.split)

lemma live_inj: "contexts_ok uc r \<Longrightarrow> live r u = Some e \<Longrightarrow> live r v = Some e \<Longrightarrow> u = v"
  by (metis contexts_ok_def)

text \<open>Changing records without their ids changes nothing of the invariant.\<close>

lemma contexts_ok_same_ids:
  assumes "contexts_ok uc r" and "map (uc_id uc) cs = map (uc_id uc) (mr_contexts r)"
  shows "contexts_ok uc (r\<lparr> mr_contexts := cs \<rparr>)"
proof -
  from assms(2) have len: "length cs = length (mr_contexts r)" by (metis length_map)
  have ids: "uc_id uc (cs ! a) = uc_id uc (mr_contexts r ! a)" if "a < length (mr_contexts r)" for a
    using assms(2) that len by (metis nth_map)
  have live_addr: "en_context e < length (mr_contexts r)" if "live r user = Some e" for user e
  proof -
    from that have "(user, e) \<in> set (mr_users r)" by (simp add: live_def map_of_SomeD)
    then have "en_context e \<in> set (addresses r)" by (force simp: addresses_def)
    with assms(1) show ?thesis by (simp add: contexts_ok_def)
  qed
  have gen_addr: "en_context (dg_entry (mr_generations r ! g)) < length (mr_contexts r)" if "g < length (mr_generations r)" for g
  proof -
    from that have "en_context (dg_entry (mr_generations r ! g)) \<in> set (addresses r)" by (simp add: addresses_def)
    with assms(1) show ?thesis by (simp add: contexts_ok_def)
  qed
  from assms(1) live_addr gen_addr show ?thesis
    unfolding contexts_ok_def by (simp add: owner_id_def context_of_def live_def addresses_def len ids)
qed

lemma context_update_ok:
  assumes "contexts_ok uc r" and "\<And>c. uc_id uc (f c) = uc_id uc c"
  shows "contexts_ok uc (context_update a f r)"
proof -
  have "map (uc_id uc) ((mr_contexts r)[a := f (mr_contexts r ! a)]) = map (uc_id uc) (mr_contexts r)"
    by (cases "a < length (mr_contexts r)") (simp_all add: map_update assms(2) list_update_same_conv list_update_beyond)
  from contexts_ok_same_ids [OF assms(1) this] show ?thesis by (simp add: context_update_def)
qed

section \<open>Adding a user\<close>

lemma unclaimed_free:
  assumes "contexts_ok uc r" and "index_ok kind key (live r) index"
    and "unclaimed user (credential_owner uc r index (Some k)) = Inr ()" and "index = Some m" "m k = Some x"
  shows "live r user = Some x"
proof -
  from assms(2,4,5) obtain u where u: "live r u = Some x" by (auto simp: index_okD)
  with assms(1) have "owner_id uc r x = u" by (auto simp: contexts_ok_def)
  with assms(3-5) have "u = user" by (auto simp: unclaimed_def credential_owner_def split: if_splits)
  with u show ?thesis by simp
qed

lemma replace_keys:
  assumes "replace_key en_uuid previous e (mr_by_uuid r) = Some i1"
    "replace_key en_trojan_hash previous e (mr_by_trojan_hash r) = Some i2"
    "replace_key en_password previous e (mr_by_password r) = Some i3"
    "replace_key psk_hash previous e (mr_by_psk_hash r) = Some i4"
    "replace_key en_anytls_hash previous e (mr_by_anytls_hash r) = Some i5"
    "replace_key en_naive_encoded previous e (mr_by_naive_encoded r) = Some i6"
    "replace_prefix ca previous e (mr_by_anytls_hash r) (mr_anytls_prefixes r) = Some i7"
  shows "Option.bind (case previous of Some p \<Rightarrow> retire_keys ca p e r | None \<Rightarrow> Some r) (insert_keys ca e) =
    Some (r\<lparr> mr_by_uuid := i1, mr_by_trojan_hash := i2, mr_by_password := i3, mr_by_psk_hash := i4, mr_by_anytls_hash := i5,
             mr_anytls_prefixes := i7, mr_by_naive_encoded := i6 \<rparr>)"
  using assms
  by (cases previous) (auto simp: replace_key_def replace_prefix_def retire_keys_def insert_keys_def bind_eq_Some_conv)


lemma update_absent: "map_of al k = None \<Longrightarrow> AList.update k v al = al @ [(k, v)]"
  by (induction al) (auto split: if_splits)

lemma update_present:
  "map_of al k = Some w \<Longrightarrow> f w = f v \<Longrightarrow> map (\<lambda>(_, x). f x) (AList.update k v al) = map (\<lambda>(_, x). f x) al"
  by (induction al) (auto split: if_splits)

lemma live_address: "contexts_ok uc r \<Longrightarrow> live r user = Some e \<Longrightarrow> en_context e \<in> set (addresses r)"
  by (force simp: addresses_def live_def dest: map_of_SomeD)

lemma claim_context_ok:
  assumes laws: "context_laws uc" and ok: "contexts_ok uc r" and claim: "claim_context uc r user spec = (r1, a)"
  shows "r1 = r\<lparr> mr_contexts := mr_contexts r1 \<rparr>" "a < length (mr_contexts r1)" "length (mr_contexts r) \<le> length (mr_contexts r1)"
    "uc_id uc (mr_contexts r1 ! a) = user"
    "b < length (mr_contexts r) \<Longrightarrow> uc_id uc (mr_contexts r1 ! b) = uc_id uc (mr_contexts r ! b)"
    "live r user = Some p \<Longrightarrow> a = en_context p" "live r user = None \<Longrightarrow> a = length (mr_contexts r)"
proof -
  have bound: "en_context p < length (mr_contexts r)" "owner_id uc r p = user" if "live r user = Some p" for p
    using live_address [OF ok that] ok that by (auto simp: contexts_ok_def)
  show "r1 = r\<lparr> mr_contexts := mr_contexts r1 \<rparr>" "live r user = Some p \<Longrightarrow> a = en_context p"
    "live r user = None \<Longrightarrow> a = length (mr_contexts r)" "a < length (mr_contexts r1)" "length (mr_contexts r) \<le> length (mr_contexts r1)"
    using claim bound(1) by (auto simp: claim_context_def live_def split: option.splits)
  show "uc_id uc (mr_contexts r1 ! a) = user"
    using claim bound laws
    by (auto simp: claim_context_def live_def settings_id owner_id_def context_of_def split: option.splits)
       (simp add: context_laws_def)
  show "b < length (mr_contexts r) \<Longrightarrow> uc_id uc (mr_contexts r1 ! b) = uc_id uc (mr_contexts r ! b)"
    using claim laws bound(1)
    by (cases "a = b") (auto simp: claim_context_def live_def settings_id nth_append context_of_def split: option.splits)
qed

lemma contexts_ok_insert:
  assumes laws: "context_laws uc" and ok: "contexts_ok uc r" and claim: "claim_context uc r user spec = (r1, a)"
    and free: "mr_draining r user = None" and e: "en_context e = a" "en_vmess e = en_uuid e"
    and r': "mr_users r' = AList.update user e (mr_users r)" "mr_contexts r' = mr_contexts r1"
      "mr_generations r' = mr_generations r" "mr_draining r' = mr_draining r"
  shows "contexts_ok uc r'"
proof -
  note facts = claim_context_ok [OF laws ok claim]
  have bound: "b < length (mr_contexts r)" if "b \<in> set (addresses r)" for b using ok that by (simp add: contexts_ok_def)
  have live': "live r' = (live r)(user \<mapsto> e)" by (simp add: live_def r' update_conv')
  have addr: "distinct (addresses r') \<and> (\<forall>b \<in> set (addresses r'). b < length (mr_contexts r'))"
  proof (cases "live r user")
    case None
    then have "addresses r' = map (\<lambda>(_, e). en_context e) (mr_users r) @ [a] @ map (\<lambda>dg. en_context (dg_entry dg)) (mr_generations r)"
      by (simp add: addresses_def r' live_def update_absent e)
    moreover have "a \<notin> set (addresses r)" using bound facts(7) [OF None] by blast
    ultimately show ?thesis using ok bound facts(2,3) by (fastforce simp: contexts_ok_def addresses_def r')
  next
    case (Some p)
    then have "addresses r' = addresses r"
      using facts(6) [OF Some] update_present [of "mr_users r" user p en_context e] by (simp add: addresses_def r' live_def e)
    with ok bound facts(3) show ?thesis by (auto simp: contexts_ok_def r' intro: less_le_trans)
  qed
  have "owner_id uc r' x = u \<and> en_vmess x = en_uuid x" if "live r' u = Some x" for u x
  proof (cases "u = user")
    case True
    with that facts(4) e show ?thesis by (auto simp: live' owner_id_def context_of_def r')
  next
    case False
    with that have l: "live r u = Some x" by (simp add: live')
    with facts(5) [OF bound [OF live_address [OF ok l]]] ok show ?thesis
      by (auto simp: contexts_ok_def owner_id_def context_of_def r')
  qed
  moreover have "g < length (mr_generations r') \<and> owner_id uc r' (dg_entry (mr_generations r' ! g)) = u \<and> live r' u = None"
    if "mr_draining r' u = Some g" for u g
  proof -
    from that ok have g: "g < length (mr_generations r)" "owner_id uc r (dg_entry (mr_generations r ! g)) = u" "live r u = None"
      by (auto simp: contexts_ok_def r')
    then have "en_context (dg_entry (mr_generations r ! g)) \<in> set (addresses r)" by (simp add: addresses_def)
    with facts(5) [OF bound] g that free show ?thesis by (auto simp: owner_id_def context_of_def r' live')
  qed
  moreover have "distinct (map fst (mr_users r'))" using ok by (simp add: contexts_ok_def r' distinct_update)
  ultimately show ?thesis using addr by (simp add: contexts_ok_def)
qed


definition accepted :: "credential_api \<Rightarrow> 'c user_context \<Rightarrow> 'c MemoryUserRegistry \<Rightarrow> UserSpec \<Rightarrow> string \<Rightarrow> Credentials \<Rightarrow> bool" where
  "accepted ca uc r spec user c \<longleftrightarrow>
     resolved_id spec = Some user \<and> trim user \<noteq> [] \<and> mr_draining r user = None \<and>
     parse_credentials ca (mr_kinds r) user spec = Inr c \<and> check_credentials_unclaimed uc r user c = Inr ()"

lemma replace_accepted:
  assumes ok: "contexts_ok uc r" and idx: "index_ok kind key (map_of (mr_users r)) index" and kind: "key e \<noteq> None \<longrightarrow> kind"
    and free: "unclaimed user (credential_owner uc r index (key e)) = Inr ()"
  shows "\<exists>index'. replace_key key (map_of (mr_users r) user) e index = Some index' \<and>
      index_ok kind key (map_of (AList.update user e (mr_users r))) index'"
    "key e = Some k \<Longrightarrow> index = Some m \<Longrightarrow> m k = Some x \<Longrightarrow> map_of (mr_users r) user = Some x"
proof -
  have inj: "map_of (mr_users r) u = Some x \<Longrightarrow> map_of (mr_users r) v = Some x \<Longrightarrow> u = v" for u v x
    using live_inj [OF ok] by (simp add: live_def)
  have owned: "map_of (mr_users r) user = Some x" if "key e = Some k" "index = Some m" "m k = Some x" for k m x
    using unclaimed_free [OF ok, unfolded live_def, OF idx, of user k m x] that free by simp
  then show "key e = Some k \<Longrightarrow> index = Some m \<Longrightarrow> m k = Some x \<Longrightarrow> map_of (mr_users r) user = Some x" .
  show "\<exists>index'. replace_key key (map_of (mr_users r) user) e index = Some index' \<and>
      index_ok kind key (map_of (AList.update user e (mr_users r))) index'"
    unfolding update_conv' by (rule replace_key_ok [OF idx kind inj owned])
qed

lemma indexes_insert:
  assumes ok: "contexts_ok uc r" and idx: "indexes_ok ca (mr_users r) r"
    and acc: "accepted ca uc r spec user c" and r1: "r1 = r\<lparr> mr_contexts := cs \<rparr>"
  shows "\<exists>r2. Option.bind (case map_of (mr_users r) user of Some p \<Rightarrow> retire_keys ca p (entry_of a c) r1 | None \<Rightarrow> Some r1)
      (insert_keys ca (entry_of a c)) = Some r2 \<and>
    indexes_ok ca (AList.update user (entry_of a c) (mr_users r)) r2 \<and> mr_users r2 = mr_users r \<and> mr_contexts r2 = cs \<and>
    mr_generations r2 = mr_generations r \<and> mr_draining r2 = mr_draining r \<and> mr_kinds r2 = mr_kinds r"
proof -
  let ?e = "entry_of a c" and ?k = "mr_kinds r" and ?p = "map_of (mr_users r) user"
  let ?L = "map_of (AList.update user ?e (mr_users r))"
  have fit: "credentials_fit ?k c" using acc parse_credentials_fit(1) by (auto simp: accepted_def)
  have dist: "distinct (map fst (mr_users r))" using ok by (simp add: contexts_ok_def)
  note idx = idx [unfolded indexes_ok_def] and step = replace_accepted [OF ok, where user = user and e = ?e]
  note defs = entry_of_def psk_hash_def accepted_def check_credentials_unclaimed_def rbind_Inr_iff credentials_fit_def
  have chk: "unclaimed user (credential_owner uc r (mr_by_uuid r) (en_uuid ?e)) = Inr ()"
    "unclaimed user (credential_owner uc r (mr_by_trojan_hash r) (en_trojan_hash ?e)) = Inr ()"
    "unclaimed user (credential_owner uc r (mr_by_password r) (en_password ?e)) = Inr ()"
    "unclaimed user (credential_owner uc r (mr_by_psk_hash r) (psk_hash ?e)) = Inr ()"
    "unclaimed user (credential_owner uc r (mr_by_anytls_hash r) (en_anytls_hash ?e)) = Inr ()"
    "unclaimed user (credential_owner uc r (mr_by_naive_encoded r) (en_naive_encoded ?e)) = Inr ()"
    using acc by (simp_all add: defs)
  have fits: "en_uuid ?e \<noteq> None \<longrightarrow> kd_uuid ?k" "en_trojan_hash ?e \<noteq> None \<longrightarrow> kd_trojan_password ?k"
    "en_password ?e \<noteq> None \<longrightarrow> kd_plain_password ?k" "psk_hash ?e \<noteq> None \<longrightarrow> is_len (kd_shadowsocks_psk ?k)"
    "en_anytls_hash ?e \<noteq> None \<longrightarrow> kd_anytls_password ?k" "en_naive_encoded ?e \<noteq> None \<longrightarrow> kd_naive_basic ?k"
    using fit by (simp_all add: defs)
  obtain i1 where i1: "replace_key en_uuid ?p ?e (mr_by_uuid r) = Some i1" "index_ok (kd_uuid ?k) en_uuid ?L i1"
    using step(1) [where key = en_uuid, OF _ fits(1) chk(1)] idx by blast
  obtain i2 where i2: "replace_key en_trojan_hash ?p ?e (mr_by_trojan_hash r) = Some i2"
    "index_ok (kd_trojan_password ?k) en_trojan_hash ?L i2"
    using step(1) [where key = en_trojan_hash, OF _ fits(2) chk(2)] idx by blast
  obtain i3 where i3: "replace_key en_password ?p ?e (mr_by_password r) = Some i3"
    "index_ok (kd_plain_password ?k) en_password ?L i3"
    using step(1) [where key = en_password, OF _ fits(3) chk(3)] idx by blast
  obtain i4 where i4: "replace_key psk_hash ?p ?e (mr_by_psk_hash r) = Some i4"
    "index_ok (is_len (kd_shadowsocks_psk ?k)) psk_hash ?L i4"
    using step(1) [where key = psk_hash, OF _ fits(4) chk(4)] idx by blast
  obtain i5 where i5: "replace_key en_anytls_hash ?p ?e (mr_by_anytls_hash r) = Some i5"
    "index_ok (kd_anytls_password ?k) en_anytls_hash ?L i5"
    using step(1) [where key = en_anytls_hash, OF _ fits(5) chk(5)] idx by blast
  obtain i6 where i6: "replace_key en_naive_encoded ?p ?e (mr_by_naive_encoded r) = Some i6"
    "index_ok (kd_naive_basic ?k) en_naive_encoded ?L i6"
    using step(1) [where key = en_naive_encoded, OF _ fits(6) chk(6)] idx by blast
  have owned: "?p = Some x" if "en_anytls_hash ?e = Some k" "mr_by_anytls_hash r = Some m" "m k = Some x" for k m x
    using step(2) [where key = en_anytls_hash, OF _ fits(5) chk(5) that] idx by blast
  have "\<exists>i7. replace_prefix ca ?p ?e (mr_by_anytls_hash r) (mr_anytls_prefixes r) = Some i7 \<and>
    prefixes_ok ca (kd_anytls_password ?k) (AList.update user ?e (mr_users r)) i7"
    by (rule replace_prefix_ok [OF _ _ dist fits(5)]) (use idx owned in simp_all)
  then obtain i7 where i7: "replace_prefix ca ?p ?e (mr_by_anytls_hash r) (mr_anytls_prefixes r) = Some i7"
    "prefixes_ok ca (kd_anytls_password ?k) (AList.update user ?e (mr_users r)) i7" by blast
  from replace_keys [of ?p ?e r1 i1 i2 i3 i4 i5 i6 ca i7] i1(1) i2(1) i3(1) i4(1) i5(1) i6(1) i7(1)
  show ?thesis using i1(2) i2(2) i3(2) i4(2) i5(2) i6(2) i7(2) by (simp add: r1 indexes_ok_def)
qed


text \<open>The whole operation: it never misses an index, a refusal leaves the table as it was, and an accepted
  user is live with the requested credentials.\<close>

lemma upsert_locked_ok:
  assumes laws: "context_laws uc" and wf: "registry_wf ca uc r"
  obtains (refused) e where "upsert_locked ca uc r spec = Some (r, Inl e)" "\<nexists>user c. accepted ca uc r spec user c"
    | (installed) user c r1 a r' where "accepted ca uc r spec user c" "claim_context uc r user spec = (r1, a)"
      "upsert_locked ca uc r spec = Some (r', Inr (entry_of a c))" "registry_wf ca uc r'"
      "mr_users r' = AList.update user (entry_of a c) (mr_users r)" "mr_contexts r' = mr_contexts r1"
      "mr_generations r' = mr_generations r" "mr_draining r' = mr_draining r" "mr_kinds r' = mr_kinds r"
proof (cases "\<exists>user c. accepted ca uc r spec user c")
  case False
  then have "\<exists>e. upsert_locked ca uc r spec = Some (r, Inl e)"
    by (auto simp: upsert_locked_def accepted_def draining_refusal_def Let_def rbind_Inr_iff
        split: option.splits sum.splits prod.splits)
  with False refused show thesis by blast
next
  case True
  then obtain user c where acc: "accepted ca uc r spec user c" by blast
  obtain r1 a where claim: "claim_context uc r user spec = (r1, a)" by fastforce
  from wf have ok: "contexts_ok uc r" "indexes_ok ca (mr_users r) r" by (simp_all add: registry_wf_def)
  note r1 = claim_context_ok(1) [OF laws ok(1) claim]
  from indexes_insert [OF ok acc r1, of a] obtain r2 where r2:
    "Option.bind (case map_of (mr_users r) user of Some p \<Rightarrow> retire_keys ca p (entry_of a c) r1 | None \<Rightarrow> Some r1)
      (insert_keys ca (entry_of a c)) = Some r2"
    "indexes_ok ca (AList.update user (entry_of a c) (mr_users r)) r2" "mr_users r2 = mr_users r" "mr_contexts r2 = mr_contexts r1"
    "mr_generations r2 = mr_generations r" "mr_draining r2 = mr_draining r" "mr_kinds r2 = mr_kinds r" by blast
  let ?r = "r2\<lparr> mr_users := AList.update user (entry_of a c) (mr_users r2) \<rparr>"
  have run: "upsert_locked ca uc r spec = Some (?r, Inr (entry_of a c))"
    using acc claim r2(1)
    by (simp add: upsert_locked_def accepted_def draining_refusal_def rbind_def bind_eq_Some_conv) (auto simp: bind_eq_Some_conv Let_def)
  have "contexts_ok uc ?r"
    by (rule contexts_ok_insert [OF laws ok(1) claim, where e = "entry_of a c"])
       (use acc r2 in \<open>simp_all add: accepted_def entry_of_def\<close>)
  moreover have "indexes_ok ca (mr_users ?r) ?r" using r2 by (simp add: indexes_ok_def)
  ultimately have "registry_wf ca uc ?r" by (simp add: registry_wf_def)
  from installed [OF acc claim run this] r2 show thesis by simp
qed


section \<open>Removing a user\<close>

lemma mset_delete:
  "distinct (map fst al) \<Longrightarrow> map_of al k = Some v \<Longrightarrow> add_mset (g (k, v)) (mset (map g (AList.delete k al))) = mset (map g al)"
  by (induction al) (auto split: if_splits)

lemma remove_prefix_ok:
  assumes idx: "index_ok kind en_anytls_hash (map_of users) index" and pre: "prefixes_ok ca kind users prefixes"
    and dist: "distinct (map fst users)" and gone: "map_of users user = Some p"
  shows "\<exists>prefixes'. retire_prefix ca (en_anytls_hash p) None prefixes = Some prefixes' \<and>
    prefixes_ok ca kind (AList.delete user users) prefixes'"
proof (cases "en_anytls_hash p")
  case None
  then have "prefix_count ca (AList.delete user users) = prefix_count ca users"
    using prefix_count_delete [OF dist gone, of ca] by (auto simp: has_prefix_def fun_eq_iff)
  with None pre show ?thesis by (simp add: retire_prefix_def prefixes_ok_def)
next
  case (Some h)
  with idx gone have "kind" by (auto simp: index_ok_def)
  let ?f = "prefix_count ca users" and ?q = "ca_password_sha256_prefix ca h"
  have "prefix_count ca (AList.delete user users) x = (?f(?q := ?f ?q - 1)) x" for x
    using prefix_count_delete [OF dist gone, of ca x] Some by (simp add: has_prefix_def split: if_splits)
  then have "prefix_count ca (AList.delete user users) = ?f(?q := ?f ?q - 1)" by (rule ext)
  with Some pre \<open>kind\<close> show ?thesis by (simp add: retire_prefix_def prefixes_ok_def release_count_map)
qed

lemma remove_live:
  assumes ok: "contexts_ok uc r" and idx: "index_ok kind key (map_of (mr_users r)) index" and gone: "map_of (mr_users r) user = Some p"
  shows "\<exists>index'. index_retire (key p) None index = Some index' \<and> index_ok kind key (map_of (AList.delete user (mr_users r))) index'"
proof -
  have inj: "map_of (mr_users r) u = Some x \<Longrightarrow> map_of (mr_users r) v = Some x \<Longrightarrow> u = v" for u v x
    using live_inj [OF ok] by (simp add: live_def)
  show ?thesis unfolding delete_conv' by (rule remove_key_ok [OF idx inj gone])
qed

lemma indexes_delete:
  assumes ok: "contexts_ok uc r" and idx: "indexes_ok ca (mr_users r) r" and gone: "map_of (mr_users r) user = Some p"
  shows "\<exists>r2. retire_keys ca p no_keys r = Some r2 \<and> indexes_ok ca (AList.delete user (mr_users r)) r2 \<and>
    r2 = r\<lparr> mr_by_uuid := mr_by_uuid r2, mr_by_trojan_hash := mr_by_trojan_hash r2, mr_by_password := mr_by_password r2,
             mr_by_psk_hash := mr_by_psk_hash r2, mr_by_anytls_hash := mr_by_anytls_hash r2,
             mr_anytls_prefixes := mr_anytls_prefixes r2, mr_by_naive_encoded := mr_by_naive_encoded r2 \<rparr>"
proof -
  have dist: "distinct (map fst (mr_users r))" using ok by (simp add: contexts_ok_def)
  note idx = idx [unfolded indexes_ok_def] and step = remove_live [OF ok _ gone]
  obtain i1 i2 i3 i4 i5 i6 i7 where i:
    "index_retire (en_uuid p) None (mr_by_uuid r) = Some i1"
    "index_retire (en_trojan_hash p) None (mr_by_trojan_hash r) = Some i2"
    "index_retire (en_password p) None (mr_by_password r) = Some i3"
    "index_retire (psk_hash p) None (mr_by_psk_hash r) = Some i4"
    "index_retire (en_anytls_hash p) None (mr_by_anytls_hash r) = Some i5"
    "index_retire (en_naive_encoded p) None (mr_by_naive_encoded r) = Some i6"
    "retire_prefix ca (en_anytls_hash p) None (mr_anytls_prefixes r) = Some i7"
    and ok': "index_ok (kd_uuid (mr_kinds r)) en_uuid (map_of (AList.delete user (mr_users r))) i1"
    "index_ok (kd_trojan_password (mr_kinds r)) en_trojan_hash (map_of (AList.delete user (mr_users r))) i2"
    "index_ok (kd_plain_password (mr_kinds r)) en_password (map_of (AList.delete user (mr_users r))) i3"
    "index_ok (is_len (kd_shadowsocks_psk (mr_kinds r))) psk_hash (map_of (AList.delete user (mr_users r))) i4"
    "index_ok (kd_anytls_password (mr_kinds r)) en_anytls_hash (map_of (AList.delete user (mr_users r))) i5"
    "index_ok (kd_naive_basic (mr_kinds r)) en_naive_encoded (map_of (AList.delete user (mr_users r))) i6"
    "prefixes_ok ca (kd_anytls_password (mr_kinds r)) (AList.delete user (mr_users r)) i7"
    using idx step [where key = en_uuid] step [where key = en_trojan_hash] step [where key = en_password]
      step [where key = psk_hash] step [where key = en_anytls_hash] step [where key = en_naive_encoded]
      remove_prefix_ok [OF _ _ dist gone, of "kd_anytls_password (mr_kinds r)" "mr_by_anytls_hash r" ca "mr_anytls_prefixes r"]
    by meson
  have "psk_hash no_keys = None" by (simp add: no_keys_def psk_hash_def)
  with i ok' show ?thesis by (simp add: retire_keys_def no_keys_def indexes_ok_def)
qed

lemma contexts_ok_delete:
  assumes ok: "contexts_ok uc r" and gone: "live r user = Some e"
  shows "contexts_ok uc (r\<lparr> mr_users := AList.delete user (mr_users r),
    mr_generations := mr_generations r @ [\<lparr> dg_entry = e, dg_result = None \<rparr>],
    mr_draining := (mr_draining r)(user \<mapsto> length (mr_generations r)) \<rparr>)" (is "contexts_ok uc ?r")
proof -
  have dist: "distinct (map fst (mr_users r))" using ok by (simp add: contexts_ok_def)
  have perm: "mset (addresses ?r) = mset (addresses r)"
    using mset_delete [OF dist, of user e "\<lambda>(_, e). en_context e"] gone by (simp add: addresses_def live_def ac_simps)
  have "distinct (addresses r)" using ok by (simp add: contexts_ok_def)
  with mset_eq_imp_distinct_iff [OF perm] have "distinct (addresses ?r)" by blast
  moreover note mset_eq_setD [OF perm]
  moreover have "live ?r = (live r)(user := None)" by (simp add: live_def delete_conv')
  moreover have "owner_id uc ?r x = owner_id uc r x" for x by (simp add: owner_id_def context_of_def)
  ultimately show ?thesis using ok gone
    by (auto simp: contexts_ok_def nth_append distinct_delete less_Suc_eq)
qed

lemma remove_locked_ok:
  assumes laws: "context_laws uc" and wf: "registry_wf ca uc r"
  obtains (unknown) "live r user = None" "mr_draining r user = None"
      "remove_locked ca uc tag user r = Some (r, Inl (UnknownUser tag user))"
    | (repeated) g where "live r user = None" "mr_draining r user = Some g" "remove_locked ca uc tag user r = Some (r, Inr (g, False))"
    | (removed) e r' where "live r user = Some e" "remove_locked ca uc tag user r = Some (r', Inr (length (mr_generations r), True))"
      "registry_wf ca uc r'" "mr_users r' = AList.delete user (mr_users r)"
      "mr_draining r' = (mr_draining r)(user \<mapsto> length (mr_generations r))"
      "mr_generations r' = mr_generations r @ [\<lparr> dg_entry = e, dg_result = None \<rparr>]"
      "mr_contexts r' = (mr_contexts r)[en_context e := uc_revoke_connections uc (context_of r e)]"
      "mr_vmess_candidates r' = filter (\<lambda>e. en_vmess e \<noteq> None) (map snd (mr_users r'))" "mr_kinds r' = mr_kinds r"
proof (cases "live r user")
  case None
  then show thesis
    using unknown repeated by (cases "mr_draining r user") (auto simp: remove_locked_def live_def)
next
  case (Some e)
  from wf have ok: "contexts_ok uc r" "indexes_ok ca (mr_users r) r" by (simp_all add: registry_wf_def)
  let ?r1 = "context_update (en_context e) (uc_revoke_connections uc) r"
  have ok1: "contexts_ok uc ?r1" by (rule context_update_ok [OF ok(1)]) (use laws in \<open>simp add: context_laws_def\<close>)
  have same: "mr_users ?r1 = mr_users r" "mr_generations ?r1 = mr_generations r" "mr_draining ?r1 = mr_draining r"
    "live ?r1 = live r" "indexes_ok ca users ?r1 = indexes_ok ca users r" for users
    by (simp_all add: context_update_def live_def indexes_ok_def)
  have own: "owner_id uc ?r1 e = user" using ok1 Some same by (auto simp: contexts_ok_def)
  let ?r2 = "?r1\<lparr> mr_users := AList.delete user (mr_users ?r1),
                  mr_generations := mr_generations ?r1 @ [\<lparr> dg_entry = e, dg_result = None \<rparr>],
                  mr_draining := (mr_draining ?r1)(user \<mapsto> length (mr_generations ?r1)) \<rparr>"
  have ok2: "contexts_ok uc ?r2" by (rule contexts_ok_delete [OF ok1]) (simp add: same Some)
  obtain r3 where r3: "retire_keys ca e no_keys r = Some r3" "indexes_ok ca (AList.delete user (mr_users r)) r3"
    using indexes_delete [OF ok] Some by (auto simp: live_def)
  let ?r3 = "?r2\<lparr> mr_by_uuid := mr_by_uuid r3, mr_by_trojan_hash := mr_by_trojan_hash r3, mr_by_password := mr_by_password r3,
             mr_by_psk_hash := mr_by_psk_hash r3, mr_by_anytls_hash := mr_by_anytls_hash r3,
             mr_anytls_prefixes := mr_anytls_prefixes r3, mr_by_naive_encoded := mr_by_naive_encoded r3 \<rparr>"
  have run3: "retire_keys ca e no_keys ?r2 = Some ?r3"
    using r3(1) by (auto simp: retire_keys_def bind_eq_Some_conv context_update_def)
  then have run: "remove_locked ca uc tag user r = Some (republish_vmess ?r3, Inr (length (mr_generations r), True))"
    using Some own same by (simp add: remove_locked_def live_def Let_def)
  have kinds: "mr_kinds r3 = mr_kinds r" using r3(1) by (auto simp: retire_keys_def bind_eq_Some_conv)
  have "registry_wf ca uc (republish_vmess ?r3)"
    using ok2 r3(2) kinds
    by (simp add: registry_wf_def contexts_ok_def indexes_ok_def live_def owner_id_def context_of_def addresses_def
        republish_vmess_def context_update_def)
  from removed [OF Some run this] show thesis by (simp add: republish_vmess_def context_update_def context_of_def)
qed


section \<open>Histories\<close>

text \<open>The steps of a table in use. Between the calls, connections open, close and count bytes: any change of
  the accounting records that keeps their ids.\<close>

inductive registry_step :: "credential_api \<Rightarrow> 'c user_context \<Rightarrow> 'c MemoryUserRegistry \<Rightarrow> 'c MemoryUserRegistry \<Rightarrow> bool"
  for ca uc where
  step_upsert: "upsert ca uc r spec = Some (r', res) \<Longrightarrow> registry_step ca uc r r'"
| step_remove: "remove_locked ca uc tag user r = Some (r', res) \<Longrightarrow> registry_step ca uc r r'"
| step_finish: "g < length (mr_generations r) \<Longrightarrow> finish uc g r = Some (r', info) \<Longrightarrow> registry_step ca uc r r'"
| step_collect: "g < length (mr_generations r) \<Longrightarrow> remove_collect uc g r = Some (r', info) \<Longrightarrow> registry_step ca uc r r'"
| step_cancelled: "g < length (mr_generations r) \<Longrightarrow> remove_cancelled uc g error r = (r', e) \<Longrightarrow> registry_step ca uc r r'"
| step_kick: "kick uc tag user r = (r', n) \<Longrightarrow> registry_step ca uc r r'"
| step_take: "take_traffic uc tag user r = (r', info) \<Longrightarrow> registry_step ca uc r r'"
| step_take_all: "take_all_traffic uc r = (r', infos) \<Longrightarrow> registry_step ca uc r r'"
| step_take_nonzero: "take_nonzero_traffic uc r = (r', infos) \<Longrightarrow> registry_step ca uc r r'"
| step_analysis: "registry_step ca uc r (set_analysis_context uc analysis r)"
| step_traffic: "map (uc_id uc) cs = map (uc_id uc) (mr_contexts r) \<Longrightarrow> registry_step ca uc r (r\<lparr> mr_contexts := cs \<rparr>)"

inductive registry_reach :: "credential_api \<Rightarrow> 'c user_context \<Rightarrow> 'c MemoryUserRegistry \<Rightarrow> bool" for ca uc where
  reach_start: "from_users ca uc kinds specs = Some (Inr r) \<Longrightarrow> registry_reach ca uc r"
| reach_step: "registry_reach ca uc r \<Longrightarrow> registry_step ca uc r r' \<Longrightarrow> registry_reach ca uc r'"

definition table_ok :: "credential_api \<Rightarrow> 'c user_context \<Rightarrow> 'c MemoryUserRegistry \<Rightarrow> bool" where
  "table_ok ca uc r \<longleftrightarrow> registry_wf ca uc r \<and> mr_vmess_candidates r = filter (\<lambda>e. en_vmess e \<noteq> None) (map snd (mr_users r))"

text \<open>Steps that touch the accounting records only.\<close>

definition only_contexts :: "'c user_context \<Rightarrow> 'c MemoryUserRegistry \<Rightarrow> 'c MemoryUserRegistry \<Rightarrow> bool" where
  "only_contexts uc r r' \<longleftrightarrow> (\<exists>cs. r' = r\<lparr> mr_contexts := cs \<rparr> \<and> map (uc_id uc) cs = map (uc_id uc) (mr_contexts r))"

lemma only_contexts_trans: "only_contexts uc r s \<Longrightarrow> only_contexts uc s t \<Longrightarrow> only_contexts uc r t"
  by (fastforce simp: only_contexts_def)

lemma only_contexts_refl: "only_contexts uc r r"
  by (auto simp: only_contexts_def intro: exI [of _ "mr_contexts r"])

lemma only_contexts_update:
  assumes "\<And>c. uc_id uc (f c) = uc_id uc c"
  shows "only_contexts uc r (context_update a f r)"
proof -
  have "map (uc_id uc) ((mr_contexts r)[a := f (mr_contexts r ! a)]) = map (uc_id uc) (mr_contexts r)"
    by (cases "a < length (mr_contexts r)") (simp_all add: map_update assms list_update_same_conv list_update_beyond)
  then show ?thesis by (auto simp: only_contexts_def context_update_def)
qed

lemma table_ok_only_contexts: "only_contexts uc r r' \<Longrightarrow> table_ok ca uc r \<Longrightarrow> table_ok ca uc r'"
  using contexts_ok_same_ids
  by (auto simp: only_contexts_def table_ok_def registry_wf_def indexes_ok_def)

lemma take_entry_only: "context_laws uc \<Longrightarrow> only_contexts uc r (fst (take_entry uc e r))"
  unfolding take_entry_def fst_conv
  by (rule only_contexts_update) (simp add: taken_user_info_def context_laws_def split: prod.split, metis fst_conv)

lemma take_entries_only: "context_laws uc \<Longrightarrow> only_contexts uc r (fst (take_entries uc es r))"
proof (induction es arbitrary: r)
  case (Cons e es)
  obtain r1 info where one: "take_entry uc e r = (r1, info)" by fastforce
  with take_entry_only [OF Cons.prems, of r e] Cons.IH [OF Cons.prems, of r1] show ?case
    by (auto intro: only_contexts_trans split: prod.split)
qed (simp add: only_contexts_refl)

lemma analysis_fold_only:
  assumes laws: "context_laws uc"
  shows "only_contexts uc r (fold (\<lambda>e. context_update (en_context e) (uc_set_analysis_context uc a)) es r)"
proof (induction es arbitrary: r)
  case (Cons e es)
  have "only_contexts uc r (context_update (en_context e) (uc_set_analysis_context uc a) r)"
    by (rule only_contexts_update) (use laws in \<open>simp add: context_laws_def\<close>)
  from only_contexts_trans [OF this Cons.IH] show ?case by simp
qed (simp add: only_contexts_refl)

lemmas wf_defs = table_ok_def registry_wf_def contexts_ok_def indexes_ok_def live_def owner_id_def context_of_def addresses_def

lemma table_ok_analysis: "context_laws uc \<Longrightarrow> table_ok ca uc r \<Longrightarrow> table_ok ca uc (set_analysis_context uc a r)"
  unfolding set_analysis_context_def
  by (rule table_ok_only_contexts [OF analysis_fold_only]) (simp_all add: wf_defs)

lemma table_ok_result:
  "table_ok ca uc r \<Longrightarrow> dg_entry d = dg_entry (mr_generations r ! g) \<Longrightarrow> table_ok ca uc (r\<lparr> mr_generations := (mr_generations r)[g := d] \<rparr>)"
proof -
  assume ok: "table_ok ca uc r" and d: "dg_entry d = dg_entry (mr_generations r ! g)"
  have "map dg_entry ((mr_generations r)[g := d]) = map dg_entry (mr_generations r)"
    using d by (cases "g < length (mr_generations r)") (simp_all add: map_update list_update_same_conv list_update_beyond)
  then have "map (\<lambda>dg. en_context (dg_entry dg)) ((mr_generations r)[g := d]) = map (\<lambda>dg. en_context (dg_entry dg)) (mr_generations r)"
    by (metis (no_types, lifting) map_map comp_apply map_eq_conv)
  moreover have "dg_entry ((mr_generations r)[g := d] ! h) = dg_entry (mr_generations r ! h)" for h
    using d by (cases "g = h"; cases "h < length (mr_generations r)") (simp_all add: list_update_beyond)
  ultimately show ?thesis using ok by (simp add: wf_defs)
qed

lemma finish_table_ok: "table_ok ca uc r \<Longrightarrow> finish uc g r = Some (r', info) \<Longrightarrow> table_ok ca uc r'"
  by (auto simp: finish_def complete_generation_def Let_def intro!: table_ok_result split: option.splits if_splits)

lemma table_ok_clear:
  assumes "table_ok ca uc r"
  shows "table_ok ca uc (clear_draining_generation uc g r)"
proof -
  have "table_ok ca uc (r\<lparr> mr_draining := (mr_draining r)(user := None) \<rparr>)" (is "table_ok ca uc ?r") for user
  proof -
    have "live ?r = live r" "owner_id uc ?r = owner_id uc r" "addresses ?r = addresses r" "indexes_ok ca users ?r = indexes_ok ca users r" for users
      by (simp_all add: live_def owner_id_def context_of_def addresses_def indexes_ok_def fun_eq_iff)
    with assms show ?thesis by (simp add: table_ok_def registry_wf_def contexts_ok_def)
  qed
  with assms show ?thesis by (simp add: clear_draining_generation_def Let_def)
qed

lemma upsert_table_ok:
  assumes "context_laws uc" and "table_ok ca uc r" and "upsert ca uc r spec = Some (r', res)"
  shows "table_ok ca uc r'"
proof -
  from assms(2) have wf: "registry_wf ca uc r" by (simp add: table_ok_def)
  show ?thesis
  proof (cases rule: upsert_locked_ok [OF assms(1) wf, where spec = spec, case_names refused installed])
    case (refused e)
    with assms(2,3) show ?thesis by (simp add: upsert_def)
  next
    case (installed user c r1 a r2)
    with assms(3) have "r' = republish_vmess r2" by (auto simp: upsert_def Let_def)
    with installed(4) show ?thesis by (simp add: wf_defs republish_vmess_def)
  qed
qed

lemma insert_users_ok:
  assumes laws: "context_laws uc"
  shows "registry_wf ca uc r \<Longrightarrow> insert_users ca uc specs r = Some (Inr r') \<Longrightarrow> registry_wf ca uc r'"
proof (induction specs arbitrary: r)
  case (Cons spec specs)
  show ?case
  proof (cases rule: upsert_locked_ok [OF laws Cons.prems(1), where spec = spec, case_names refused installed])
    case (refused e)
    with Cons.prems(2) show ?thesis by (auto split: option.splits if_splits)
  next
    case (installed user c r1 a r2)
    with Cons.prems(2) have "insert_users ca uc specs r2 = Some (Inr r')" by (auto split: option.splits if_splits)
    with Cons.IH installed(4) show ?thesis by blast
  qed
qed simp

lemma registry_new_wf: "registry_wf ca uc (registry_new kinds)"
  by (simp add: wf_defs registry_new_def when_kind_def index_ok_def prefixes_ok_def count_map_def prefix_count_def)

lemma from_users_table_ok:
  assumes "context_laws uc" and "from_users ca uc kinds specs = Some (Inr r)"
  shows "table_ok ca uc r"
proof -
  from assms(2) obtain r0 where "insert_users ca uc specs (registry_new kinds) = Some (Inr r0)" "r = republish_vmess r0"
    by (auto simp: from_users_def rbind_Inr_iff bind_eq_Some_conv)
  with insert_users_ok [OF assms(1) registry_new_wf] show ?thesis by (simp add: wf_defs republish_vmess_def)
qed

lemma remove_table_ok:
  assumes "context_laws uc" and "table_ok ca uc r" and "remove_locked ca uc tag user r = Some (r', res)"
  shows "table_ok ca uc r'"
proof -
  from assms(2) have wf: "registry_wf ca uc r" by (simp add: table_ok_def)
  show ?thesis
    by (cases rule: remove_locked_ok [OF assms(1) wf, where user = user and tag = tag]) (use assms(2,3) in \<open>auto simp: table_ok_def\<close>)
qed

lemma step_table_ok:
  assumes laws: "context_laws uc" and ok: "table_ok ca uc r" and step: "registry_step ca uc r r'"
  shows "table_ok ca uc r'"
  using step
proof cases
  case (step_upsert spec res)
  with upsert_table_ok [OF laws ok] show ?thesis by blast
next
  case (step_remove tag user res)
  with remove_table_ok [OF laws ok] show ?thesis by blast
next
  case (step_finish g info)
  with finish_table_ok [OF ok] show ?thesis by blast
next
  case (step_collect g info)
  then obtain r1 where "finish uc g r = Some (r1, info)" "r' = clear_draining_generation uc g r1"
    by (auto simp: remove_collect_def)
  with finish_table_ok [OF ok] table_ok_clear show ?thesis by blast
next
  case (step_cancelled g error e)
  with ok show ?thesis
    by (auto simp: remove_cancelled_def complete_generation_def Let_def intro!: table_ok_result split: if_splits)
next
  case (step_kick tag user n)
  have "only_contexts uc r (context_update a (\<lambda>c. fst (uc_kick_connections uc c)) r)" for a
    by (rule only_contexts_update) (use laws in \<open>simp add: context_laws_def\<close>)
  from table_ok_only_contexts [OF this ok] step_kick ok show ?thesis by (auto simp: kick_def split: option.splits)
next
  case (step_take tag user info)
  with table_ok_only_contexts [OF take_entry_only [OF laws] ok] ok show ?thesis
    by (auto simp: take_traffic_def split: option.splits prod.splits) (metis fst_conv)
next
  case (step_take_all infos)
  with table_ok_only_contexts [OF take_entries_only [OF laws, of r "map snd (mr_users r)"] ok] show ?thesis
    by (auto simp: take_all_traffic_def split: prod.splits)
next
  case (step_take_nonzero infos)
  with table_ok_only_contexts [OF take_entries_only [OF laws, of r "map snd (mr_users r)"] ok] show ?thesis
    by (auto simp: take_nonzero_traffic_def split: prod.splits)
next
  case (step_analysis analysis)
  with table_ok_analysis [OF laws ok] show ?thesis by simp
next
  case (step_traffic cs)
  then have "only_contexts uc r r'" by (auto simp: only_contexts_def)
  then show ?thesis by (rule table_ok_only_contexts [OF _ ok])
qed

lemma reach_table_ok: "registry_reach ca uc r \<Longrightarrow> context_laws uc \<Longrightarrow> table_ok ca uc r"
  by (induction rule: registry_reach.induct) (auto intro: from_users_table_ok step_table_ok)


section \<open>Authentication\<close>

text \<open>A key authenticates the accounting record of the live, enabled user that holds it.\<close>

definition authenticates :: "'c user_context \<Rightarrow> 'c MemoryUserRegistry \<Rightarrow> (Entry \<Rightarrow> 'k option) \<Rightarrow> 'k \<Rightarrow> nat \<Rightarrow> bool" where
  "authenticates uc r key k a \<longleftrightarrow>
     (\<exists>user e. live r user = Some e \<and> key e = Some k \<and> en_context e = a \<and> uc_is_enabled uc (mr_contexts r ! a))"

lemma index_entry:
  assumes "index_ok kind key (live r) index"
  shows "(\<exists>m. index = Some m \<and> m k = Some e) \<longleftrightarrow> (\<exists>user. live r user = Some e \<and> key e = Some k)"
proof (cases index)
  case None
  with assms have "\<not> kind" by (simp add: index_ok_def)
  with assms None show ?thesis by (auto simp: index_ok_def)
next
  case (Some m)
  with index_okD [of kind key "live r" m] assms show ?thesis by auto
qed

lemma find_in_exact:
  assumes "index_ok kind key (live r) index"
  shows "find_in uc r index key k = Some a \<longleftrightarrow> authenticates uc r key k a"
proof -
  have "find_in uc r index key k = Some a \<longleftrightarrow>
      (\<exists>e. (\<exists>m. index = Some m \<and> m k = Some e) \<and> key e = Some k \<and> en_context e = a \<and> uc_is_enabled uc (mr_contexts r ! a))"
    by (auto simp: find_in_def accept_def context_of_def bind_eq_Some_conv split: if_splits)
  then show ?thesis by (auto simp: authenticates_def index_entry [OF assms])
qed

lemma table_ok_index:
  assumes "table_ok ca uc r"
  shows "index_ok (kd_uuid (mr_kinds r)) en_uuid (live r) (mr_by_uuid r)"
    "index_ok (kd_trojan_password (mr_kinds r)) en_trojan_hash (live r) (mr_by_trojan_hash r)"
    "index_ok (kd_plain_password (mr_kinds r)) en_password (live r) (mr_by_password r)"
    "index_ok (is_len (kd_shadowsocks_psk (mr_kinds r))) psk_hash (live r) (mr_by_psk_hash r)"
    "index_ok (kd_anytls_password (mr_kinds r)) en_anytls_hash (live r) (mr_by_anytls_hash r)"
    "index_ok (kd_naive_basic (mr_kinds r)) en_naive_encoded (live r) (mr_by_naive_encoded r)"
  using assms by (simp_all add: table_ok_def registry_wf_def indexes_ok_def live_def)

lemma psk_lookup_exact:
  assumes "table_ok ca uc r"
  shows "find_shadowsocks_psk_hash uc r h = Some (a, psk) \<longleftrightarrow>
    (\<exists>user e. live r user = Some e \<and> en_shadowsocks e = Some \<lparr> sc_hash = h, sc_psk = psk \<rparr> \<and> en_context e = a \<and>
       uc_is_enabled uc (mr_contexts r ! a))"
proof -
  have "find_shadowsocks_psk_hash uc r h = Some (a, psk) \<longleftrightarrow>
      (\<exists>e. (\<exists>m. mr_by_psk_hash r = Some m \<and> m h = Some e) \<and> en_shadowsocks e = Some \<lparr> sc_hash = h, sc_psk = psk \<rparr> \<and>
         en_context e = a \<and> uc_is_enabled uc (mr_contexts r ! a))"
    by (auto simp: find_shadowsocks_psk_hash_def context_of_def bind_eq_Some_conv split: if_splits)
       (rule exI [of _ "\<lparr> sc_hash = h, sc_psk = psk \<rparr>"], simp)
  then show ?thesis unfolding index_entry [OF table_ok_index(4) [OF assms]] by (auto simp: psk_hash_def)
qed

lemma tuic_lookup_exact:
  assumes "table_ok ca uc r"
  shows "find_tuic_uuid uc r u = Some (a, password) \<longleftrightarrow>
    (\<exists>user e. live r user = Some e \<and> en_uuid e = Some u \<and> en_tuic_password e = Some password \<and> en_context e = a \<and>
       uc_is_enabled uc (mr_contexts r ! a))"
proof -
  have "find_tuic_uuid uc r u = Some (a, password) \<longleftrightarrow>
      (\<exists>e. (\<exists>m. mr_by_uuid r = Some m \<and> m u = Some e) \<and> en_uuid e = Some u \<and> en_tuic_password e = Some password \<and>
         en_context e = a \<and> uc_is_enabled uc (mr_contexts r ! a))"
    by (auto simp: find_tuic_uuid_def context_of_def bind_eq_Some_conv split: if_splits)
  then show ?thesis unfolding index_entry [OF table_ok_index(1) [OF assms]] by auto
qed

lemma find_map_Some: "find_map f xs = Some y \<Longrightarrow> \<exists>x \<in> set xs. f x = Some y"
  by (induction xs) (auto split: option.splits)

lemma find_map_None: "find_map f xs = None \<longleftrightarrow> (\<forall>x \<in> set xs. f x = None)"
  by (induction xs) (auto split: option.splits)

lemma vmess_candidates:
  assumes "table_ok ca uc r"
  shows "e \<in> set (mr_vmess_candidates r) \<longleftrightarrow> (\<exists>user. live r user = Some e) \<and> en_uuid e \<noteq> None"
proof -
  have "distinct (map fst (mr_users r))" using assms by (simp add: table_ok_def registry_wf_def contexts_ok_def)
  then have "e \<in> snd ` set (mr_users r) \<longleftrightarrow> (\<exists>user. live r user = Some e)"
    by (force simp: live_def dest: map_of_SomeD)
  moreover have "en_vmess e = en_uuid e" if "live r user = Some e" for user
    using assms that by (auto simp: table_ok_def registry_wf_def contexts_ok_def)
  ultimately show ?thesis using assms by (auto simp: table_ok_def)
qed

lemma vmess_lookup:
  assumes "table_ok ca uc r"
  shows "find_vmess_auth_id ca uc r auth_id = Some (a, key, t) \<Longrightarrow>
      (\<exists>u. authenticates uc r en_uuid u a \<and> ca_vmess_open ca u auth_id = Some t \<and> key = ca_vmess_instruction_key ca u)"
    "find_vmess_auth_id ca uc r auth_id = None \<longleftrightarrow> (\<nexists>u a. authenticates uc r en_uuid u a \<and> ca_vmess_open ca u auth_id \<noteq> None)"
proof -
  have same: "en_vmess e = en_uuid e" if "live r user = Some e" for user e
    using assms that by (auto simp: table_ok_def registry_wf_def contexts_ok_def)
  show "\<exists>u. authenticates uc r en_uuid u a \<and> ca_vmess_open ca u auth_id = Some t \<and> key = ca_vmess_instruction_key ca u"
    if found: "find_vmess_auth_id ca uc r auth_id = Some (a, key, t)"
  proof -
    from find_map_Some found obtain e where e: "e \<in> set (mr_vmess_candidates r)" "accept_vmess ca uc r auth_id e = Some (a, key, t)"
      by (fastforce simp: find_vmess_auth_id_def)
    with vmess_candidates [OF assms] same show ?thesis
      by (auto simp: accept_vmess_def authenticates_def context_of_def bind_eq_Some_conv split: if_splits)
  qed
  have none: "accept_vmess ca uc r auth_id e = None \<longleftrightarrow>
      \<not> (uc_is_enabled uc (mr_contexts r ! en_context e) \<and> (\<exists>u. en_uuid e = Some u \<and> ca_vmess_open ca u auth_id \<noteq> None))"
    if "live r user = Some e" for user e
    using same [OF that] by (cases "en_uuid e") (auto simp: accept_vmess_def context_of_def bind_eq_None_conv split: if_splits)
  show "find_vmess_auth_id ca uc r auth_id = None \<longleftrightarrow> (\<nexists>u a. authenticates uc r en_uuid u a \<and> ca_vmess_open ca u auth_id \<noteq> None)"
  proof -
    have "find_vmess_auth_id ca uc r auth_id = None \<longleftrightarrow>
        (\<forall>e user. live r user = Some e \<longrightarrow> en_uuid e \<noteq> None \<longrightarrow> accept_vmess ca uc r auth_id e = None)"
      unfolding find_vmess_auth_id_def find_map_None using vmess_candidates [OF assms] by blast
    also have "\<dots> \<longleftrightarrow> (\<nexists>u a. authenticates uc r en_uuid u a \<and> ca_vmess_open ca u auth_id \<noteq> None)"
      using none by (auto simp: authenticates_def) blast+
    finally show ?thesis .
  qed
qed

lemma prefix_exact:
  assumes "table_ok ca uc r"
  shows "has_password_sha256_prefix r p \<longleftrightarrow> (\<exists>user e. live r user = Some e \<and> has_prefix ca p e)"
proof -
  have "distinct (map fst (mr_users r))" and pre: "prefixes_ok ca (kd_anytls_password (mr_kinds r)) (mr_users r) (mr_anytls_prefixes r)"
    using assms by (simp_all add: table_ok_def registry_wf_def contexts_ok_def indexes_ok_def)
  then have "0 < prefix_count ca (mr_users r) p \<longleftrightarrow> (\<exists>user e. live r user = Some e \<and> has_prefix ca p e)"
    by (auto simp: prefix_count_def filter_empty_conv live_def dest: map_of_SomeD intro: map_of_is_SomeI)
  moreover have "kd_anytls_password (mr_kinds r)" if "live r user = Some e" "has_prefix ca p e" for user e
    using table_ok_index(5) [OF assms] that by (auto simp: index_ok_def has_prefix_def)
  ultimately show ?thesis using pre by (auto simp: has_password_sha256_prefix_def prefixes_ok_def count_map_def split: option.splits if_splits)
qed


section \<open>Removed generations\<close>

definition keeps_generations :: "'c MemoryUserRegistry \<Rightarrow> 'c MemoryUserRegistry \<Rightarrow> bool" where
  "keeps_generations r r' \<longleftrightarrow> length (mr_generations r) \<le> length (mr_generations r') \<and>
     (\<forall>g < length (mr_generations r).
        dg_entry (mr_generations r' ! g) = dg_entry (mr_generations r ! g) \<and>
        (\<forall>info. dg_result (mr_generations r ! g) = Some info \<longrightarrow> dg_result (mr_generations r' ! g) = Some info))"

lemma keeps_generations_trans: "keeps_generations r s \<Longrightarrow> keeps_generations s t \<Longrightarrow> keeps_generations r t"
  by (fastforce simp: keeps_generations_def)

lemma keeps_same: "mr_generations r' = mr_generations r \<Longrightarrow> keeps_generations r r'"
  by (simp add: keeps_generations_def)

lemma keeps_complete:
  assumes "dg_entry d = dg_entry (mr_generations r ! g)"
    and "\<And>info. dg_result (mr_generations r ! g) = Some info \<Longrightarrow> dg_result d = Some info"
  shows "keeps_generations r (r\<lparr> mr_generations := (mr_generations r)[g := d] \<rparr>)"
  using assms by (cases "g < length (mr_generations r)") (auto simp: keeps_generations_def nth_list_update list_update_beyond)

lemma only_contexts_keeps: "only_contexts uc r r' \<Longrightarrow> keeps_generations r r'"
  by (auto simp: only_contexts_def intro: keeps_same)

lemma finish_keeps: "finish uc g r = Some (r', info) \<Longrightarrow> keeps_generations r r'"
  by (auto simp: finish_def complete_generation_def Let_def keeps_same split: option.splits if_splits
      intro!: keeps_complete)

lemma clear_keeps: "mr_generations (clear_draining_generation uc g r) = mr_generations r"
  by (simp add: clear_draining_generation_def Let_def)

lemma step_keeps:
  assumes laws: "context_laws uc" and ok: "table_ok ca uc r" and step: "registry_step ca uc r r'"
  shows "keeps_generations r r'"
proof -
  from ok have wf: "registry_wf ca uc r" by (simp add: table_ok_def)
  from step show ?thesis
  proof cases
    case (step_upsert spec res)
    show ?thesis
    proof (cases rule: upsert_locked_ok [OF laws wf, where spec = spec, case_names refused installed])
      case (refused e)
      with step_upsert show ?thesis by (simp add: upsert_def keeps_same)
    next
      case (installed user c r1 a r2)
      with step_upsert show ?thesis by (intro keeps_same) (auto simp: upsert_def Let_def republish_vmess_def)
    qed
  next
    case (step_remove tag user res)
    show ?thesis
      by (cases rule: remove_locked_ok [OF laws wf, where user = user and tag = tag])
         (use step_remove in \<open>auto simp: keeps_generations_def nth_append\<close>)
  next
    case (step_finish g info)
    then show ?thesis by (blast intro: finish_keeps)
  next
    case (step_collect g info)
    then obtain r1 where "finish uc g r = Some (r1, info)" "r' = clear_draining_generation uc g r1"
      by (auto simp: remove_collect_def)
    with finish_keeps clear_keeps keeps_generations_trans keeps_same show ?thesis by metis
  next
    case (step_cancelled g error e)
    then show ?thesis
      by (auto simp: remove_cancelled_def complete_generation_def Let_def keeps_same split: if_splits intro!: keeps_complete)
  next
    case (step_kick tag user n)
    then show ?thesis by (intro keeps_same) (auto simp: kick_def context_update_def split: option.splits)
  next
    case (step_take tag user info)
    then show ?thesis by (intro keeps_same) (auto simp: take_traffic_def take_entry_def context_update_def split: option.splits)
  next
    case (step_take_all infos)
    with only_contexts_keeps [OF take_entries_only [OF laws, of r "map snd (mr_users r)"]] show ?thesis
      by (auto simp: take_all_traffic_def split: prod.splits)
  next
    case (step_take_nonzero infos)
    with only_contexts_keeps [OF take_entries_only [OF laws, of r "map snd (mr_users r)"]] show ?thesis
      by (auto simp: take_nonzero_traffic_def split: prod.splits)
  next
    case (step_analysis analysis)
    let ?r = "r\<lparr> mr_analysis := (case mr_analysis r of None \<Rightarrow> Some analysis | Some a \<Rightarrow> Some a) \<rparr>"
    have "keeps_generations r ?r" by (simp add: keeps_same)
    from keeps_generations_trans [OF this only_contexts_keeps [OF analysis_fold_only [OF laws]]] step_analysis show ?thesis
      by (simp add: set_analysis_context_def)
  next
    case (step_traffic cs)
    then show ?thesis by (simp add: keeps_same)
  qed
qed

lemma steps_ok:
  assumes "(registry_step ca uc)\<^sup>*\<^sup>* r r'" "context_laws uc" "table_ok ca uc r"
  shows "table_ok ca uc r' \<and> keeps_generations r r'"
  using assms
  by (induction rule: rtranclp_induct) (auto intro: step_table_ok step_keeps keeps_generations_trans keeps_same)


section \<open>What an addition asks for and changes\<close>

text \<open>Which additions are acceptable, said of the live users: the indexes are not mentioned.\<close>

definition holds_key :: "Entry \<Rightarrow> Credentials \<Rightarrow> bool" where
  "holds_key e c \<longleftrightarrow>
     (\<exists>k. cr_uuid c = Some k \<and> en_uuid e = Some k) \<or> (\<exists>k. cr_trojan_hash c = Some k \<and> en_trojan_hash e = Some k) \<or>
     (\<exists>k. cr_password c = Some k \<and> en_password e = Some k) \<or>
     (\<exists>x y. cr_shadowsocks c = Some x \<and> en_shadowsocks e = Some y \<and> sc_hash x = sc_hash y) \<or>
     (\<exists>k. cr_anytls_hash c = Some k \<and> en_anytls_hash e = Some k) \<or>
     (\<exists>k. cr_naive_encoded c = Some k \<and> en_naive_encoded e = Some k)"

definition admissible :: "credential_api \<Rightarrow> 'c MemoryUserRegistry \<Rightarrow> UserSpec \<Rightarrow> string \<Rightarrow> Credentials \<Rightarrow> bool" where
  "admissible ca r spec user c \<longleftrightarrow>
     resolved_id spec = Some user \<and> trim user \<noteq> [] \<and> mr_draining r user = None \<and>
     parse_credentials ca (mr_kinds r) user spec = Inr c \<and>
     (\<forall>other e. live r other = Some e \<and> holds_key e c \<longrightarrow> other = user)"

text \<open>The record of a user as its specification asks for it.\<close>

definition configured :: "'c user_context \<Rightarrow> 'c MemoryUserRegistry \<Rightarrow> UserSpec \<Rightarrow> 'c \<Rightarrow> 'c" where
  "configured uc r spec c =
     uc_set_speed_limits uc (case us_upload_limit_bps spec of Some v \<Rightarrow> v | None \<Rightarrow> 0)
       (case us_download_limit_bps spec of Some v \<Rightarrow> v | None \<Rightarrow> 0)
       (uc_set_max_conns uc (case us_max_conns spec of Some v \<Rightarrow> v | None \<Rightarrow> 0)
         (uc_set_enabled uc (us_enabled spec)
           (case mr_analysis r of Some a \<Rightarrow> uc_set_analysis_context uc a c | None \<Rightarrow> c)))"

lemma settings_configured: "settings uc (mr_analysis r) spec c = configured uc r spec c"
  by (simp add: settings_def configured_def limit_of_def Let_def)

lemma unclaimed_iff:
  assumes "contexts_ok uc r" and "index_ok kind key (live r) index"
  shows "unclaimed user (credential_owner uc r index k) = Inr () \<longleftrightarrow>
    (\<forall>other e. live r other = Some e \<and> (\<exists>x. k = Some x \<and> key e = Some x) \<longrightarrow> other = user)"
proof -
  have owner: "owner_id uc r e = other" if "live r other = Some e" for other e
    using assms(1) that by (auto simp: contexts_ok_def)
  have kind: "\<exists>m. index = Some m" if "live r other = Some e" "key e = Some x" for other e x
    using assms(2) that by (auto simp: index_ok_def)
  show ?thesis
  proof (cases index)
    case None
    with kind show ?thesis by (fastforce simp: unclaimed_def credential_owner_def split: option.split)
  next
    case (Some m)
    note entry = index_okD [OF assms(2) [unfolded Some]]
    show ?thesis
    proof (cases k)
      case (Some x)
      have "unclaimed user (credential_owner uc r index k) = Inr () \<longleftrightarrow> (\<forall>e. m x = Some e \<longrightarrow> owner_id uc r e = user)"
        using Some \<open>index = Some m\<close> by (cases "m x") (auto simp: unclaimed_def credential_owner_def)
      with entry [of x] owner Some show ?thesis by blast
    qed (simp add: unclaimed_def credential_owner_def)
  qed
qed

lemma accepted_iff:
  assumes ok: "table_ok ca uc r"
  shows "accepted ca uc r spec user c \<longleftrightarrow> admissible ca r spec user c"
proof -
  have ctx: "contexts_ok uc r" using ok by (simp add: table_ok_def registry_wf_def)
  note free = table_ok_index [OF ok, THEN unclaimed_iff [OF ctx]]
  have psk: "(\<exists>x. map_option sc_hash (cr_shadowsocks c) = Some x \<and> psk_hash e = Some x) \<longleftrightarrow>
      (\<exists>x y. cr_shadowsocks c = Some x \<and> en_shadowsocks e = Some y \<and> sc_hash x = sc_hash y)" for e
    by (auto simp: psk_hash_def)
  have "check_credentials_unclaimed uc r user c = Inr () \<longleftrightarrow>
      unclaimed user (credential_owner uc r (mr_by_uuid r) (cr_uuid c)) = Inr () \<and>
      unclaimed user (credential_owner uc r (mr_by_trojan_hash r) (cr_trojan_hash c)) = Inr () \<and>
      unclaimed user (credential_owner uc r (mr_by_password r) (cr_password c)) = Inr () \<and>
      unclaimed user (credential_owner uc r (mr_by_psk_hash r) (map_option sc_hash (cr_shadowsocks c))) = Inr () \<and>
      unclaimed user (credential_owner uc r (mr_by_anytls_hash r) (cr_anytls_hash c)) = Inr () \<and>
      unclaimed user (credential_owner uc r (mr_by_naive_encoded r) (cr_naive_encoded c)) = Inr ()"
    by (simp add: check_credentials_unclaimed_def rbind_Inr_iff)
  also have "\<dots> \<longleftrightarrow> (\<forall>other e. live r other = Some e \<and> holds_key e c \<longrightarrow> other = user)"
    unfolding free psk holds_key_def by blast
  finally have "check_credentials_unclaimed uc r user c = Inr () \<longleftrightarrow>
      (\<forall>other e. live r other = Some e \<and> holds_key e c \<longrightarrow> other = user)" .
  then show ?thesis by (simp add: accepted_def admissible_def)
qed

lemma claim_context_records:
  assumes ctx: "contexts_ok uc r" and claim: "claim_context uc r user spec = (r1, a)"
  shows "b < length (mr_contexts r) \<and> b \<noteq> a \<longrightarrow> mr_contexts r1 ! b = mr_contexts r ! b"
    "live r user = Some p \<Longrightarrow> a = en_context p \<and> mr_contexts r1 ! a = configured uc r spec (mr_contexts r ! a)"
    "live r user = None \<Longrightarrow> mr_contexts r1 ! a = configured uc r spec (uc_new uc user)"
proof -
  have bound: "en_context p < length (mr_contexts r)" if "live r user = Some p" for p
    using live_address [OF ctx that] ctx by (auto simp: contexts_ok_def)
  show "b < length (mr_contexts r) \<and> b \<noteq> a \<longrightarrow> mr_contexts r1 ! b = mr_contexts r ! b"
    using claim by (auto simp: claim_context_def nth_append split: option.splits)
  show "live r user = Some p \<Longrightarrow> a = en_context p \<and> mr_contexts r1 ! a = configured uc r spec (mr_contexts r ! a)"
    "live r user = None \<Longrightarrow> mr_contexts r1 ! a = configured uc r spec (uc_new uc user)"
    using claim bound by (auto simp: claim_context_def live_def context_of_def settings_configured split: option.splits)
qed

section \<open>Tombstones\<close>

text \<open>Every record that some lookup returns.\<close>

definition found_records :: "credential_api \<Rightarrow> 'c user_context \<Rightarrow> 'c MemoryUserRegistry \<Rightarrow> nat set" where
  "found_records ca uc r =
     {a. (\<exists>k. find_uuid uc r k = Some a) \<or> (\<exists>k. find_trojan_hash uc r k = Some a) \<or>
         (\<exists>k. find_password uc r k = Some a) \<or> (\<exists>k. find_password_sha256 uc r k = Some a) \<or>
         (\<exists>k. find_naive_basic uc r k = Some a) \<or> (\<exists>k psk. find_shadowsocks_psk_hash uc r k = Some (a, psk)) \<or>
         (\<exists>k password. find_tuic_uuid uc r k = Some (a, password)) \<or>
         (\<exists>k key t. find_vmess_auth_id ca uc r k = Some (a, key, t))}"

lemma found_records_live:
  assumes ok: "table_ok ca uc r" and "a \<in> found_records ca uc r"
  shows "\<exists>user e. live r user = Some e \<and> en_context e = a"
proof -
  note idx = table_ok_index [OF ok]
  note exact = find_in_exact [OF idx(1)] find_in_exact [OF idx(2)] find_in_exact [OF idx(3)] find_in_exact [OF idx(5)]
    find_in_exact [OF idx(6)]
  from assms(2) show ?thesis
    unfolding found_records_def find_uuid_def find_trojan_hash_def find_password_def find_password_sha256_def
      find_naive_basic_def exact psk_lookup_exact [OF ok] tuic_lookup_exact [OF ok]
    using vmess_lookup(1) [OF ok] by (fastforce simp: authenticates_def)
qed

lemma removed_record_not_live:
  assumes ok: "table_ok ca uc r" and "g < length (mr_generations r)" and "live r other = Some x"
  shows "en_context x \<noteq> en_context (dg_entry (mr_generations r ! g))"
proof -
  from assms(3) have "en_context x \<in> set (map (\<lambda>(_, e). en_context e) (mr_users r))"
    by (force simp: live_def dest: map_of_SomeD)
  moreover have "en_context (dg_entry (mr_generations r ! g)) \<in> set (map (\<lambda>dg. en_context (dg_entry dg)) (mr_generations r))"
    using assms(2) by (force simp: in_set_conv_nth)
  moreover have "distinct (addresses r)" using ok by (simp add: table_ok_def registry_wf_def contexts_ok_def)
  ultimately show ?thesis unfolding addresses_def distinct_append by (metis IntI empty_iff)
qed

lemma draining_refused:
  "mr_draining r user = Some g \<Longrightarrow> resolved_id spec = Some user \<Longrightarrow> \<exists>error. upsert ca uc r spec = Some (r, Inl error)"
  by (simp add: upsert_def upsert_locked_def draining_refusal_def Let_def)

text \<open>Somewhere on the way a caller received the final counters.\<close>

definition collected_between :: "credential_api \<Rightarrow> 'c user_context \<Rightarrow> nat \<Rightarrow> 'c MemoryUserRegistry \<Rightarrow> 'c MemoryUserRegistry \<Rightarrow> bool" where
  "collected_between ca uc g r r' \<longleftrightarrow>
     (\<exists>s s' info. (registry_step ca uc)\<^sup>*\<^sup>* r s \<and> remove_collect uc g s = Some (s', info) \<and>
        dg_result (mr_generations s' ! g) = Some info \<and> (registry_step ca uc)\<^sup>*\<^sup>* s' r')"

lemma only_contexts_draining: "only_contexts uc r r' \<Longrightarrow> mr_draining r' = mr_draining r"
  by (auto simp: only_contexts_def)

lemma finish_draining: "finish uc g r = Some (r', info) \<Longrightarrow> mr_draining r' = mr_draining r"
  by (auto simp: finish_def complete_generation_def Let_def split: option.splits if_splits)

lemma collect_result:
  "g < length (mr_generations r) \<Longrightarrow> remove_collect uc g r = Some (r', info) \<Longrightarrow> dg_result (mr_generations r' ! g) = Some info"
  by (auto simp: remove_collect_def finish_def complete_generation_def Let_def clear_keeps split: option.splits if_splits)

lemma tombstone_step:
  assumes laws: "context_laws uc" and ok: "table_ok ca uc r" and tomb: "mr_draining r user = Some g"
    and step: "registry_step ca uc r r'"
  shows "mr_draining r' user = Some g \<or>
    (\<exists>info. remove_collect uc g r = Some (r', info) \<and> dg_result (mr_generations r' ! g) = Some info)"
proof -
  from ok have wf: "registry_wf ca uc r" and gone: "live r user = None"
    using tomb by (auto simp: table_ok_def registry_wf_def contexts_ok_def)
  from step show ?thesis
  proof cases
    case (step_upsert spec res)
    show ?thesis
    proof (cases rule: upsert_locked_ok [OF laws wf, where spec = spec, case_names refused installed])
      case (refused e)
      with step_upsert tomb show ?thesis by (simp add: upsert_def)
    next
      case (installed u c r1 a r2)
      with step_upsert tomb show ?thesis by (auto simp: upsert_def Let_def republish_vmess_def)
    qed
  next
    case (step_remove tag u res)
    show ?thesis
      by (cases rule: remove_locked_ok [OF laws wf, where user = u and tag = tag]) (use step_remove tomb gone in auto)
  next
    case (step_finish g' info)
    with finish_draining tomb show ?thesis by metis
  next
    case (step_collect g' info)
    then obtain r1 where r1: "finish uc g' r = Some (r1, info)" "r' = clear_draining_generation uc g' r1"
      by (auto simp: remove_collect_def)
    show ?thesis
    proof (cases "g' = g")
      case True
      with step_collect collect_result show ?thesis by blast
    next
      case False
      with r1 finish_draining [OF r1(1)] tomb show ?thesis by (auto simp: clear_draining_generation_def Let_def)
    qed
  next
    case (step_cancelled g' error e)
    with tomb show ?thesis by (auto simp: remove_cancelled_def complete_generation_def Let_def split: if_splits)
  next
    case (step_kick tag u n)
    with tomb show ?thesis by (auto simp: kick_def context_update_def split: option.splits)
  next
    case (step_take tag u info)
    with tomb show ?thesis by (auto simp: take_traffic_def take_entry_def context_update_def split: option.splits)
  next
    case (step_take_all infos)
    with only_contexts_draining [OF take_entries_only [OF laws, of r "map snd (mr_users r)"]] tomb show ?thesis
      by (auto simp: take_all_traffic_def split: prod.splits)
  next
    case (step_take_nonzero infos)
    with only_contexts_draining [OF take_entries_only [OF laws, of r "map snd (mr_users r)"]] tomb show ?thesis
      by (auto simp: take_nonzero_traffic_def split: prod.splits)
  next
    case (step_analysis analysis)
    let ?r = "r\<lparr> mr_analysis := (case mr_analysis r of None \<Rightarrow> Some analysis | Some a \<Rightarrow> Some a) \<rparr>"
    have "mr_draining (set_analysis_context uc analysis r) = mr_draining ?r"
      unfolding set_analysis_context_def by (rule only_contexts_draining [OF analysis_fold_only [OF laws]])
    with step_analysis tomb show ?thesis by simp
  next
    case (step_traffic cs)
    with tomb show ?thesis by simp
  qed
qed

lemma tombstone_stands:
  assumes "(registry_step ca uc)\<^sup>*\<^sup>* r r'" and "context_laws uc" and "table_ok ca uc r" and "mr_draining r user = Some g"
  shows "mr_draining r' user = Some g \<or> collected_between ca uc g r r'"
  using assms
proof (induction rule: rtranclp_induct)
  case (step s s')
  then have ok: "table_ok ca uc s" using steps_ok by blast
  from step.IH step.prems consider "mr_draining s user = Some g" | "collected_between ca uc g r s" by blast
  then show ?case
  proof cases
    case 1
    from tombstone_step [OF step.prems(1) ok 1 step.hyps(2)] step.hyps(1) show ?thesis
      by (auto simp: collected_between_def)
  next
    case 2
    with step.hyps(2) show ?thesis by (auto simp: collected_between_def intro: rtranclp.rtrancl_into_rtrancl)
  qed
qed simp

section \<open>Properties\<close>

text \<open>C11 (a credential authenticates exactly its enabled owner): in every table reached from an initial
  user list by additions, updates, removals, kicks, sweeps and traffic, a uuid, Trojan hash, password,
  AnyTLS hash, NaiveProxy credential, pre-shared key or TUIC uuid is accepted exactly when a live and
  enabled user holds it, and as that user; a VMess id is refused exactly when no such user sealed it;
  and the prefix probe is true exactly for the prefixes of live users' hashes.\<close>

theorem authentication_exact:
  assumes "context_laws uc" and "registry_reach ca uc r"
  shows "(find_uuid uc r u = Some a \<longleftrightarrow> authenticates uc r en_uuid u a) \<and>
    (find_trojan_hash uc r h = Some a \<longleftrightarrow> authenticates uc r en_trojan_hash h a) \<and>
    (find_password uc r password = Some a \<longleftrightarrow> authenticates uc r en_password password a) \<and>
    (find_password_sha256 uc r h = Some a \<longleftrightarrow> authenticates uc r en_anytls_hash h a) \<and>
    (find_naive_basic uc r h = Some a \<longleftrightarrow> authenticates uc r en_naive_encoded h a) \<and>
    (find_shadowsocks_psk_hash uc r h = Some (a, psk) \<longleftrightarrow>
       authenticates uc r en_shadowsocks \<lparr> sc_hash = h, sc_psk = psk \<rparr> a) \<and>
    (find_tuic_uuid uc r u = Some (a, password) \<longleftrightarrow>
       authenticates uc r (\<lambda>e. if en_tuic_password e = Some password then en_uuid e else None) u a) \<and>
    (find_vmess_auth_id ca uc r auth_id = None \<longleftrightarrow>
       (\<nexists>u a. authenticates uc r en_uuid u a \<and> ca_vmess_open ca u auth_id \<noteq> None)) \<and>
    (has_password_sha256_prefix r prefix \<longleftrightarrow> (\<exists>user e. live r user = Some e \<and> has_prefix ca prefix e))"
proof -
  have ok: "table_ok ca uc r" by (rule reach_table_ok [OF assms(2,1)])
  note idx = table_ok_index [OF ok]
  have "authenticates uc r (\<lambda>e. if en_tuic_password e = Some password then en_uuid e else None) u a \<longleftrightarrow>
    (\<exists>user e. live r user = Some e \<and> en_uuid e = Some u \<and> en_tuic_password e = Some password \<and> en_context e = a \<and>
       uc_is_enabled uc (mr_contexts r ! a))"
    by (auto simp: authenticates_def split: if_splits)
  then show ?thesis
    using find_in_exact [OF idx(1)] find_in_exact [OF idx(2)] find_in_exact [OF idx(3)] find_in_exact [OF idx(5)]
      find_in_exact [OF idx(6)] psk_lookup_exact [OF ok] tuic_lookup_exact [OF ok] vmess_lookup(2) [OF ok] prefix_exact [OF ok]
    by (simp add: find_uuid_def find_trojan_hash_def find_password_def find_password_sha256_def find_naive_basic_def authenticates_def)
qed

text \<open>C13 (adding a user is all or nothing): in such a table an addition or update never panics on a missing
  index. It is accepted exactly when the id is present and not draining, the credentials fit the
  inbound and no other live user holds one of their keys. A refused one leaves the table as it was. An
  accepted one makes the user live with exactly the requested credentials and settings and reports
  them; an updated user keeps its accounting record and a new one gets a record that nobody else has,
  live or draining. Every other user's credentials, every other accounting record and every removed
  user stay as they were.\<close>

theorem upsert_all_or_nothing:
  assumes "context_laws uc" and "registry_reach ca uc r"
  shows "\<exists>r' result. upsert ca uc r spec = Some (r', result) \<and>
    (case result of
       Inl e \<Rightarrow> r' = r \<and> (\<nexists>user c. admissible ca r spec user c)
     | Inr info \<Rightarrow> \<exists>user c a. admissible ca r spec user c \<and> live r' = (live r)(user \<mapsto> entry_of a c) \<and>
         mr_draining r' = mr_draining r \<and> mr_generations r' = mr_generations r \<and>
         (\<forall>b. b < length (mr_contexts r) \<and> b \<noteq> a \<longrightarrow> mr_contexts r' ! b = mr_contexts r ! b) \<and>
         (case live r user of
            Some previous \<Rightarrow> a = en_context previous \<and> mr_contexts r' ! a = configured uc r spec (mr_contexts r ! a)
          | None \<Rightarrow> a \<notin> set (addresses r) \<and> mr_contexts r' ! a = configured uc r spec (uc_new uc user)) \<and>
         info = user_info uc (mr_contexts r' ! a))"
proof -
  have ok: "table_ok ca uc r" by (rule reach_table_ok [OF assms(2,1)])
  then have wf: "registry_wf ca uc r" and ctx: "contexts_ok uc r" by (simp_all add: table_ok_def registry_wf_def)
  show ?thesis
  proof (cases rule: upsert_locked_ok [OF assms(1) wf, where spec = spec, case_names refused installed])
    case (refused e)
    then show ?thesis by (simp add: upsert_def accepted_iff [OF ok])
  next
    case (installed user c r1 a r2)
    let ?r = "republish_vmess r2"
    have fresh: "a \<notin> set (addresses r)" if "live r user = None"
      using claim_context_ok(7) [OF assms(1) ctx installed(2) that] ctx by (auto simp: contexts_ok_def)
    have records: "mr_contexts ?r = mr_contexts r1" using installed(6) by (simp add: republish_vmess_def)
    note claimed = claim_context_records [OF ctx installed(2), folded records]
    have "live ?r = (live r)(user \<mapsto> entry_of a c)" "mr_draining ?r = mr_draining r" "mr_generations ?r = mr_generations r"
      using installed by (simp_all add: live_def republish_vmess_def update_conv')
    moreover have "case live r user of
        Some previous \<Rightarrow> a = en_context previous \<and> mr_contexts ?r ! a = configured uc r spec (mr_contexts r ! a)
      | None \<Rightarrow> a \<notin> set (addresses r) \<and> mr_contexts ?r ! a = configured uc r spec (uc_new uc user)"
      using claimed(2,3) fresh by (cases "live r user") auto
    moreover have "admissible ca r spec user c" using installed(1) by (simp add: accepted_iff [OF ok])
    moreover have "upsert ca uc r spec = Some (?r, Inr (user_info uc (mr_contexts ?r ! a)))"
      using installed(3) by (simp add: upsert_def Let_def context_of_def entry_of_def)
    ultimately show ?thesis using claimed(1) by auto
  qed
qed

text \<open>C12 (a removed user stays removed and is billed once): after a removal, whatever happens next, no
  lookup of any credential kind returns the removed accounting record; the tombstone stands, and every
  addition under its id is refused and changes nothing, until some caller has collected the final counters;
  and once some caller has them, every later one gets the same.\<close>

theorem removed_user_final:
  assumes "context_laws uc" and "registry_reach ca uc r"
    and "remove_locked ca uc tag user r = Some (r1, Inr (g, True))" and "(registry_step ca uc)\<^sup>*\<^sup>* r1 r2"
  shows "(\<exists>e. live r user = Some e \<and> dg_entry (mr_generations r2 ! g) = e \<and>
       en_context e \<notin> found_records ca uc r2) \<and>
    (mr_draining r2 user = Some g \<and>
       (\<forall>spec. resolved_id spec = Some user \<longrightarrow> (\<exists>error. upsert ca uc r2 spec = Some (r2, Inl error))) \<or>
     collected_between ca uc g r1 r2) \<and>
    (finish uc g r2 = Some (r3, info) \<and> (registry_step ca uc)\<^sup>*\<^sup>* r3 r4 \<longrightarrow> finish uc g r4 = Some (r4, info))"
proof (intro conjI impI)
  have ok: "table_ok ca uc r" by (rule reach_table_ok [OF assms(2,1)])
  then have wf: "registry_wf ca uc r" by (simp add: table_ok_def)
  obtain e where e: "live r user = Some e" "g < length (mr_generations r1)" "dg_entry (mr_generations r1 ! g) = e"
    and tomb: "mr_draining r1 user = Some g"
    by (cases rule: remove_locked_ok [OF assms(1) wf, where user = user and tag = tag]) (use assms(3) in auto)
  have ok1: "table_ok ca uc r1" by (rule remove_table_ok [OF assms(1) ok assms(3)])
  from steps_ok [OF assms(4,1) ok1] have ok2: "table_ok ca uc r2" and keep: "keeps_generations r1 r2" by simp_all
  from keep e have g: "g < length (mr_generations r2)" "dg_entry (mr_generations r2 ! g) = e" by (auto simp: keeps_generations_def)
  have "en_context x \<noteq> en_context e" if "live r2 other = Some x" for other x
    using removed_record_not_live [OF ok2 g(1) that] g(2) by simp
  then have "en_context e \<notin> found_records ca uc r2"
    using found_records_live [OF ok2, of "en_context e"] by blast
  with e(1) g(2) show "\<exists>e. live r user = Some e \<and> dg_entry (mr_generations r2 ! g) = e \<and>
      en_context e \<notin> found_records ca uc r2" by blast
  show "mr_draining r2 user = Some g \<and>
       (\<forall>spec. resolved_id spec = Some user \<longrightarrow> (\<exists>error. upsert ca uc r2 spec = Some (r2, Inl error))) \<or>
     collected_between ca uc g r1 r2"
    using tombstone_stands [OF assms(4,1) ok1 tomb] draining_refused by blast
  show "finish uc g r4 = Some (r4, info)" if "finish uc g r2 = Some (r3, info) \<and> (registry_step ca uc)\<^sup>*\<^sup>* r3 r4"
  proof -
    from that have fin: "finish uc g r2 = Some (r3, info)" and steps: "(registry_step ca uc)\<^sup>*\<^sup>* r3 r4" by simp_all
    from fin g(1) have "g < length (mr_generations r3)" "dg_result (mr_generations r3 ! g) = Some info"
      by (auto simp: finish_def complete_generation_def Let_def split: option.splits if_splits)
    with steps_ok [OF steps assms(1) finish_table_ok [OF ok2 fin]] have "dg_result (mr_generations r4 ! g) = Some info"
      by (auto simp: keeps_generations_def)
    then show ?thesis by (simp add: finish_def)
  qed
qed

section \<open>Witnesses\<close>

text \<open>Records that are their own statistics, and wire forms that are the text.\<close>

definition ex_context :: "UserStats user_context" where
  "ex_context =
     \<lparr> uc_new = (\<lambda>user. \<lparr> uss_id = user, uss_enabled = True, uss_tx = 0, uss_rx = 0, uss_last_traffic_observed_at_unix_millis = 0,
         uss_conns = 0, uss_total_conns = 0, uss_max_conns = 0, uss_upload_limit_bps = 0, uss_download_limit_bps = 0 \<rparr>),
       uc_id = uss_id, uc_is_enabled = uss_enabled, uc_conns = uss_conns, uc_stats = (\<lambda>c. c),
       uc_set_analysis_context = (\<lambda>_ c. c), uc_set_enabled = (\<lambda>b c. c\<lparr> uss_enabled := b \<rparr>),
       uc_set_max_conns = (\<lambda>n c. c\<lparr> uss_max_conns := n \<rparr>),
       uc_set_speed_limits = (\<lambda>u d c. c\<lparr> uss_upload_limit_bps := u, uss_download_limit_bps := d \<rparr>),
       uc_revoke_connections = (\<lambda>c. c\<lparr> uss_enabled := False \<rparr>), uc_kick_connections = (\<lambda>c. (c, uss_conns c)),
       uc_take_traffic = (\<lambda>c. (c\<lparr> uss_tx := 0, uss_rx := 0 \<rparr>, uss_tx c, uss_rx c)) \<rparr>"

definition ex_bytes :: "string \<Rightarrow> bytes" where
  "ex_bytes s = map (\<lambda>c. of_nat (of_char c)) s"

definition ex_credentials :: credential_api where
  "ex_credentials =
     \<lparr> ca_parse_uuid = (\<lambda>s. Inr (ex_bytes s)), ca_decode_shadowsocks_psk = (\<lambda>s. Inr (ex_bytes s)),
       ca_shadowsocks_psk_hash = id, ca_trojan_password_hash = ex_bytes, ca_password_sha256 = ex_bytes,
       ca_password_sha256_prefix = take 8, ca_naive_basic_credential = (\<lambda>u p. ex_bytes (u @ p)),
       ca_vmess_open = (\<lambda>_ _. None), ca_vmess_instruction_key = id \<rparr>"

definition ex_spec :: "string \<Rightarrow> UserSpec" where
  "ex_spec uuid = \<lparr> us_id = Some ''alice'', us_uuid = Some uuid, us_password = None, us_enabled = True, us_max_conns = None,
     us_upload_limit_bps = None, us_download_limit_bps = None \<rparr>"

lemma ex_context_laws: "context_laws ex_context"
  by (simp add: context_laws_def ex_context_def)

definition ex_alice :: "string \<Rightarrow> Credentials" where
  "ex_alice uuid = \<lparr> cr_uuid = Some (ex_bytes uuid), cr_trojan_hash = None, cr_password = None, cr_shadowsocks = None,
     cr_tuic_password = None, cr_anytls_hash = None, cr_naive_encoded = None \<rparr>"

lemma ex_parse: "parse_credentials ex_credentials KIND_UUID ''alice'' (ex_spec uuid) = Inr (ex_alice uuid)"
  by (simp add: parse_credentials_def parse_shadowsocks_def ex_credentials_def ex_spec_def ex_alice_def KIND_UUID_def
      KIND_NONE_def)

lemma ex_trim: "trim ''alice'' \<noteq> []"
  by (subst trim_id) (simp_all add: ascii_graphic_def byte_of_def)

lemma ex_accepted: "accepted ex_credentials ex_context (registry_new KIND_UUID) (ex_spec ''a'') ''alice'' (ex_alice ''a'')"
  using ex_trim ex_parse [of "''a''"]
  by (simp add: accepted_def registry_new_def resolved_id_def ex_spec_def check_credentials_unclaimed_def credential_owner_def
      unclaimed_def when_kind_def ex_alice_def KIND_UUID_def KIND_NONE_def)

lemma ex_table:
  obtains r where "from_users ex_credentials ex_context KIND_UUID [ex_spec ''a''] = Some (Inr r)"
    "live r ''alice'' = Some (entry_of 0 (ex_alice ''a''))" "uc_is_enabled ex_context (mr_contexts r ! 0)"
proof (cases rule: upsert_locked_ok [OF ex_context_laws registry_new_wf [of ex_credentials ex_context KIND_UUID],
    where spec = "ex_spec ''a''", case_names refused installed])
  case (refused e)
  with ex_accepted show thesis by blast
next
  case (installed user c r1 a r2)
  from installed(1) ex_accepted ex_parse [of "''a''"] have uc: "user = ''alice''" "c = ex_alice ''a''"
    by (auto simp: accepted_def registry_new_def)
  from installed(2) have a: "a = 0" "mr_contexts r1 = [settings ex_context None (ex_spec ''a'') (uc_new ex_context ''alice'')]"
    by (auto simp: claim_context_def registry_new_def uc)
  have "from_users ex_credentials ex_context KIND_UUID [ex_spec ''a''] = Some (Inr (republish_vmess r2))"
    using installed(3) by (simp add: from_users_def registry_new_def resolved_id_def ex_spec_def)
  moreover have "live (republish_vmess r2) ''alice'' = Some (entry_of 0 (ex_alice ''a''))"
    using installed(5) by (simp add: live_def republish_vmess_def uc a(1) update_conv')
  moreover have "uc_is_enabled ex_context (mr_contexts (republish_vmess r2) ! 0)"
    using installed(6) by (simp add: republish_vmess_def a(2) settings_def ex_context_def ex_spec_def Let_def)
  ultimately show thesis by (rule that)
qed

theorem authentication_exact_witness:
  "\<exists>r. registry_reach ex_credentials ex_context r \<and> find_uuid ex_context r (ex_bytes ''a'') = Some 0 \<and>
     find_uuid ex_context r (ex_bytes ''b'') \<noteq> Some 0"
proof -
  obtain r where r: "from_users ex_credentials ex_context KIND_UUID [ex_spec ''a''] = Some (Inr r)"
    "live r ''alice'' = Some (entry_of 0 (ex_alice ''a''))" "uc_is_enabled ex_context (mr_contexts r ! 0)" by (rule ex_table)
  have reach: "registry_reach ex_credentials ex_context r" by (rule reach_start [OF r(1)])
  have key: "find_uuid ex_context r u = Some 0 \<longleftrightarrow> authenticates ex_context r en_uuid u 0" for u
    using authentication_exact [OF ex_context_laws reach, of u 0] by blast
  have "authenticates ex_context r en_uuid (ex_bytes ''a'') 0"
    unfolding authenticates_def using r(2,3) by (intro exI [of _ "''alice''"]) (simp add: entry_of_def ex_alice_def)
  moreover have "\<not> authenticates ex_context r en_uuid (ex_bytes ''b'') 0"
  proof
    assume "authenticates ex_context r en_uuid (ex_bytes ''b'') 0"
    then obtain user e where "live r user = Some e" "en_uuid e = Some (ex_bytes ''b'')" "en_context e = 0"
      by (auto simp: authenticates_def)
    moreover have own: "live r user = Some e \<Longrightarrow> uc_id ex_context (mr_contexts r ! en_context e) = user" for user e
      using reach_table_ok [OF reach ex_context_laws]
      by (auto simp: table_ok_def registry_wf_def contexts_ok_def owner_id_def context_of_def)
    ultimately have "user = ''alice''" using own [OF r(2)] own [of user e] by (simp add: entry_of_def)
    with r(2) \<open>live r user = Some e\<close> \<open>en_uuid e = _\<close> show False by (auto simp: entry_of_def ex_alice_def ex_bytes_def)
  qed
  ultimately show ?thesis using reach key by blast
qed

theorem upsert_all_or_nothing_witness:
  "\<exists>r r' result. registry_reach ex_credentials ex_context r \<and> upsert ex_credentials ex_context r (ex_spec ''b'') = Some (r', result)"
proof -
  obtain r where r: "from_users ex_credentials ex_context KIND_UUID [ex_spec ''a''] = Some (Inr r)"
    "live r ''alice'' = Some (entry_of 0 (ex_alice ''a''))" by (rule ex_table)
  have reach: "registry_reach ex_credentials ex_context r" by (rule reach_start [OF r(1)])
  from upsert_all_or_nothing [OF ex_context_laws reach, of "ex_spec ''b''"] reach show ?thesis by blast
qed

theorem removed_user_final_witness:
  "\<exists>r r1 g. registry_reach ex_credentials ex_context r \<and>
     remove_locked ex_credentials ex_context ''in'' ''alice'' r = Some (r1, Inr (g, True)) \<and> live r ''alice'' \<noteq> None \<and>
     live r1 ''alice'' = None"
proof -
  obtain r where r: "from_users ex_credentials ex_context KIND_UUID [ex_spec ''a''] = Some (Inr r)"
    "live r ''alice'' = Some (entry_of 0 (ex_alice ''a''))" by (rule ex_table)
  have reach: "registry_reach ex_credentials ex_context r" by (rule reach_start [OF r(1)])
  then have wf: "registry_wf ex_credentials ex_context r"
    using reach_table_ok [OF reach ex_context_laws] by (simp add: table_ok_def)
  obtain r1 g where run: "remove_locked ex_credentials ex_context ''in'' ''alice'' r = Some (r1, Inr (g, True))"
    "live r1 ''alice'' = None"
    by (cases rule: remove_locked_ok [OF ex_context_laws wf, where user = "''alice''" and tag = "''in''"])
       (use r(2) in \<open>auto simp: live_def delete_conv'\<close>)
  from removed_user_final [OF ex_context_laws reach run(1) rtranclp.rtrancl_refl] have "live r ''alice'' \<noteq> None" by blast
  with reach run show ?thesis by blast
qed

end
