(* ===== verification/Json.thy ===== *)
theory Json
  imports Rust_Text
begin

text \<open>
  What the agent uses of \<open>serde_json::Value\<close> and \<open>serde_yaml::Value\<close>. A JSON object is the list of its entries
  in key order, as the default \<open>BTreeMap\<close> of \<open>serde_json\<close> keeps them; a YAML mapping is the list of its
  entries in insertion order. A number is its text. Parsing and printing are parameters where they are used.
\<close>

datatype json =
    JNull
  | JBool bool
  | JNumber string
  | JString string
  | JArray "json list"
  | JObject "(string \<times> json) list"

definition json_get :: "string \<Rightarrow> json \<Rightarrow> json option" where
  "json_get key value = (case value of JObject fields \<Rightarrow> map_of fields key | _ \<Rightarrow> None)"

definition json_is_object :: "json \<Rightarrow> bool" where
  "json_is_object value \<longleftrightarrow> (case value of JObject _ \<Rightarrow> True | _ \<Rightarrow> False)"

definition json_as_str :: "json \<Rightarrow> string option" where
  "json_as_str value = (case value of JString s \<Rightarrow> Some s | _ \<Rightarrow> None)"

text \<open>\<open>as_object_mut\<close> followed by \<open>insert\<close>: nothing happens to another value.\<close>

definition json_insert :: "string \<Rightarrow> json \<Rightarrow> json \<Rightarrow> json" where
  "json_insert key v value = (case value of JObject fields \<Rightarrow> JObject (bt_insert key v fields) | _ \<Rightarrow> value)"

datatype yaml =
    YNull
  | YBool bool
  | YNumber string
  | YString string
  | YSequence "yaml list"
  | YMapping "(yaml \<times> yaml) list"
  | YTagged string yaml

text \<open>\<open>get_mut\<close> and the \<open>as_*_mut\<close> projections look through tags.\<close>

fun yaml_update_mapping :: "((yaml \<times> yaml) list \<Rightarrow> (yaml \<times> yaml) list) \<Rightarrow> yaml \<Rightarrow> yaml" where
  "yaml_update_mapping f (YMapping m) = YMapping (f m)"
| "yaml_update_mapping f (YTagged tag v) = YTagged tag (yaml_update_mapping f v)"
| "yaml_update_mapping f v = v"

fun yaml_update_sequence :: "(yaml list \<Rightarrow> yaml list) \<Rightarrow> yaml \<Rightarrow> yaml" where
  "yaml_update_sequence f (YSequence vs) = YSequence (f vs)"
| "yaml_update_sequence f (YTagged tag v) = YTagged tag (yaml_update_sequence f v)"
| "yaml_update_sequence f v = v"

fun entry_update :: "'k \<Rightarrow> ('v \<Rightarrow> 'v) \<Rightarrow> ('k \<times> 'v) list \<Rightarrow> ('k \<times> 'v) list" where
  "entry_update k f [] = []"
| "entry_update k f ((k', v) # m) = (if k' = k then (k', f v) # m else (k', v) # entry_update k f m)"

definition yaml_update_key :: "string \<Rightarrow> (yaml \<Rightarrow> yaml) \<Rightarrow> yaml \<Rightarrow> yaml" where
  "yaml_update_key key f = yaml_update_mapping (entry_update (YString key) f)"

definition yaml_set_key :: "string \<Rightarrow> yaml \<Rightarrow> (yaml \<times> yaml) list \<Rightarrow> (yaml \<times> yaml) list" where
  "yaml_set_key key v m =
     (if map_of m (YString key) = None then m @ [(YString key, v)] else entry_update (YString key) (\<lambda>_. v) m)"

lemma map_of_entry_update [simp]:
  "map_of (entry_update k f m) = (map_of m)(k := map_option f (map_of m k))"
  by (induction m) (auto simp: fun_eq_iff)

end
