(* ===== verification/Engine_Protocol.thy ===== *)
theory Engine_Protocol
  imports Json User_Registry
begin

text \<open>
  How an inbound authenticates, worked out from its configuration (\<open>shoes-engine/src/protocol.rs\<close> and
  \<open>Engine::registry_kinds_for\<close> of \<open>lib.rs\<close>). A proxy configuration is a tree: TLS and websocket targets nest further
  protocols. Two walks over that tree are modelled, the one over the typed configuration, which decides which
  credential forms a user list has to serve and refuses a tree such a list cannot govern, and the one over
  the raw JSON, which puts throwaway credentials where the schema of the proxy demands some.

  The configuration types belong to the \<open>shoes\<close> crate. The datatype has the variants the walks distinguish, with the
  fields they read; \<open>'x\<close> stands for the remaining settings of a protocol. What the walks ask of a cipher and the
  \<open>Display\<close> of a protocol are parameters.
\<close>

section \<open>Protocol trees\<close>

record ShadowsocksCipher =
  sh_name :: string
  sh_key_len :: nat

datatype ShadowsocksConfig = LegacyCipher ShadowsocksCipher | Aead2022 ShadowsocksCipher

datatype 'x ServerProxyConfig =
    Vless 'x
  | Vmess 'x
  | Trojan 'x
  | Shadowsocks ShadowsocksConfig 'x
  | Tls "'x ServerProxyConfig list" "'x ServerProxyConfig option" "'x ServerProxyConfig list" "'x ServerProxyConfig list" 'x
  | Websocket "'x ServerProxyConfig list" 'x
  | Hysteria2 'x
  | TuicV5 'x
  | Anytls 'x
  | Naiveproxy 'x
  | Snell 'x
  | HttpProxy "string option" "string option" 'x
  | Socks "string option" "string option" 'x
  | Mixed "string option" "string option" 'x
  | PortForward 'x

definition kinds_all :: "CredentialKinds list \<Rightarrow> CredentialKinds" where
  "kinds_all = foldl kinds_merge KIND_NONE"

definition option_list :: "'a option \<Rightarrow> 'a list" where
  "option_list x = (case x of None \<Rightarrow> [] | Some y \<Rightarrow> [y])"

primrec credential_kinds :: "(ShadowsocksCipher \<Rightarrow> bool) \<Rightarrow> 'x ServerProxyConfig \<Rightarrow> CredentialKinds" where
  "credential_kinds multi_user (Vless x) = KIND_UUID"
| "credential_kinds multi_user (Vmess x) = KIND_UUID"
| "credential_kinds multi_user (Trojan x) = KIND_TROJAN_PASSWORD"
| "credential_kinds multi_user (Shadowsocks config x) =
     (case config of
        Aead2022 cipher \<Rightarrow> if multi_user cipher then kind_shadowsocks_psk (sh_key_len cipher) else KIND_NONE
      | LegacyCipher _ \<Rightarrow> KIND_NONE)"
| "credential_kinds multi_user (Tls tls_targets default_tls_target shadowtls_targets reality_targets x) =
     kinds_all (map (credential_kinds multi_user) tls_targets @
       option_list (map_option (credential_kinds multi_user) default_tls_target) @
       map (credential_kinds multi_user) shadowtls_targets @ map (credential_kinds multi_user) reality_targets)"
| "credential_kinds multi_user (Websocket targets x) = kinds_all (map (credential_kinds multi_user) targets)"
| "credential_kinds multi_user (Hysteria2 x) = KIND_PLAIN_PASSWORD"
| "credential_kinds multi_user (TuicV5 x) = KIND_TUIC"
| "credential_kinds multi_user (Anytls x) = KIND_ANYTLS_PASSWORD"
| "credential_kinds multi_user (Naiveproxy x) = KIND_NAIVE_BASIC"
| "credential_kinds multi_user (Snell x) = KIND_NONE"
| "credential_kinds multi_user (HttpProxy username password x) = KIND_NONE"
| "credential_kinds multi_user (Socks username password x) = KIND_NONE"
| "credential_kinds multi_user (Mixed username password x) = KIND_NONE"
| "credential_kinds multi_user (PortForward x) = KIND_NONE"

definition unauthenticated_target :: "string \<Rightarrow> string option \<Rightarrow> string option \<Rightarrow> string option" where
  "unauthenticated_target kind username password =
     (if username \<noteq> None \<or> password \<noteq> None then None
      else Some (''a '' @ kind @ '' target with no `username` or `password` admits every client that reaches it, '' @
        ''so a `users` list would not govern this inbound: give the target a credential, or add it as its own inbound''))"

definition unservable_cipher :: "ShadowsocksCipher \<Rightarrow> string" where
  "unservable_cipher cipher =
     ''a shadowsocks target using '' @ sh_name cipher @ '' cannot serve a `users` list, so neither can the inbound '' @
     ''carrying it: only the aes ciphers carry the identity header that names which user a connection belongs to, '' @
     ''which is what the engine's user registry is consulted with''"

definition open_port_forward :: string where
  "open_port_forward =
     ''a port-forward target forwards every client that reaches it, so an inbound carrying one cannot be governed by a '' @
     ''`users` list: add it as its own inbound if that is what you meant''"

primrec unservable_registry_target :: "(ShadowsocksCipher \<Rightarrow> bool) \<Rightarrow> 'x ServerProxyConfig \<Rightarrow> string option" where
  "unservable_registry_target multi_user (Shadowsocks config x) =
     (case config of
        Aead2022 cipher \<Rightarrow> if \<not> multi_user cipher then Some (unservable_cipher cipher) else None
      | LegacyCipher _ \<Rightarrow> None)"
| "unservable_registry_target multi_user (HttpProxy username password x) = unauthenticated_target ''http'' username password"
| "unservable_registry_target multi_user (Socks username password x) = unauthenticated_target ''socks'' username password"
| "unservable_registry_target multi_user (Mixed username password x) = unauthenticated_target ''mixed'' username password"
| "unservable_registry_target multi_user (PortForward x) = Some open_port_forward"
| "unservable_registry_target multi_user (Tls tls_targets default_tls_target shadowtls_targets reality_targets x) =
     find_map id (map (unservable_registry_target multi_user) tls_targets @
       option_list (map_option (unservable_registry_target multi_user) default_tls_target) @
       map (unservable_registry_target multi_user) shadowtls_targets @
       map (unservable_registry_target multi_user) reality_targets)"
| "unservable_registry_target multi_user (Websocket targets x) =
     find_map id (map (unservable_registry_target multi_user) targets)"
| "unservable_registry_target multi_user (Vless x) = None"
| "unservable_registry_target multi_user (Vmess x) = None"
| "unservable_registry_target multi_user (Trojan x) = None"
| "unservable_registry_target multi_user (Hysteria2 x) = None"
| "unservable_registry_target multi_user (TuicV5 x) = None"
| "unservable_registry_target multi_user (Anytls x) = None"
| "unservable_registry_target multi_user (Naiveproxy x) = None"
| "unservable_registry_target multi_user (Snell x) = None"

definition display_name :: "('x ServerProxyConfig \<Rightarrow> string) \<Rightarrow> 'x ServerProxyConfig \<Rightarrow> string" where
  "display_name label protocol =
     (if label protocol \<noteq> [] then label protocol
      else case protocol of Tls _ _ _ _ _ \<Rightarrow> ''TLS'' | _ \<Rightarrow> ''unknown'')"

text \<open>\<open>server_configs[0]\<close> is indexed on the configurations a validated payload expands to, which are never none.\<close>

definition registry_kinds_for :: "(ShadowsocksCipher \<Rightarrow> bool) \<Rightarrow> ('x ServerProxyConfig \<Rightarrow> string) \<Rightarrow> 'x ServerProxyConfig list \<Rightarrow>
    EngineError + CredentialKinds" where
  "registry_kinds_for multi_user label protocols =
     (case find_map (unservable_registry_target multi_user) protocols of
        Some reason \<Rightarrow> Inl (Unsupported reason)
      | None \<Rightarrow>
          let kinds = kinds_all (map (credential_kinds multi_user) protocols) in
          if kinds_is_empty kinds
          then Inl (Unsupported (display_name label (protocols ! 0) @
            '' does not authenticate through the engine's user registry yet, so it cannot take a `users` list; '' @
            ''omit `users` to use the credential in `config`''))
          else
            (case kinds_conflict kinds of
               Some reason \<Rightarrow> Inl (InvalidConfig (''this inbound cannot take a single `users` list: '' @ reason))
             | None \<Rightarrow> Inr kinds))"

section \<open>Throwaway credentials\<close>

definition PLACEHOLDER_FIELDS :: "(string \<times> string list) list" where
  "PLACEHOLDER_FIELDS =
     [(''vless'', [''user_id'']), (''vmess'', [''user_id'']), (''trojan'', [''password'']), (''hysteria2'', [''password'']),
      (''tuicv5'', [''uuid'', ''password'']), (''tuic'', [''uuid'', ''password''])]"

definition PLACEHOLDER_USER_LISTS :: "(string \<times> string list) list" where
  "PLACEHOLDER_USER_LISTS =
     [(''anytls'', [''password'']), (''naiveproxy'', [''username'', ''password'']), (''naive'', [''username'', ''password''])]"

definition TARGET_COLLECTION_KEYS :: "string list" where
  "TARGET_COLLECTION_KEYS =
     [''tls_targets'', ''sni_targets'', ''shadowtls_targets'', ''reality_targets'', ''targets'', ''target'']"

definition SINGLE_TARGET_KEYS :: "string list" where
  "SINGLE_TARGET_KEYS = [''default_tls_target'', ''default_target'']"

text \<open>\<open>credential::random_uuid\<close> is a draw from a source of randomness.\<close>

fun insert_random :: "('s \<Rightarrow> 's \<times> string) \<Rightarrow> string list \<Rightarrow> (string \<times> json) list \<Rightarrow> 's \<Rightarrow> (string \<times> json) list \<times> 's" where
  "insert_random draw [] m s = (m, s)"
| "insert_random draw (field # fs) m s =
     (case draw s of (s', uuid) \<Rightarrow> insert_random draw fs (bt_insert field (JString uuid) m) s')"

definition listed_credentials :: "string \<Rightarrow> string \<Rightarrow> EngineError" where
  "listed_credentials key kind = InvalidConfig
     (''remove `'' @ key @ ''` from the '' @ kind @ '' protocol: this inbound has a `users` list of its own, which is its '' @
      ''only authority, so credentials in the config would be ignored'')"

definition leaf_credential :: "string \<Rightarrow> string \<Rightarrow> EngineError" where
  "leaf_credential field kind = InvalidConfig
     (''remove `'' @ field @ ''` from the '' @ kind @ '' protocol: this inbound has a `users` list, which is its only '' @
      ''authority, so a credential in the config would be ignored'')"

definition fill_protocol_object :: "('s \<Rightarrow> 's \<times> string) \<Rightarrow> (string \<times> json) list \<Rightarrow> 's \<Rightarrow> EngineError + (string \<times> json) list \<times> 's" where
  "fill_protocol_object draw m s =
     (case map_of m ''type'' of
        Some (JString kind) \<Rightarrow>
          (case map_of PLACEHOLDER_USER_LISTS kind of
             Some member_fields \<Rightarrow>
               (case find (\<lambda>key. map_of m key \<noteq> None) [''users'', ''user''] of
                  Some key \<Rightarrow> Inl (listed_credentials key kind)
                | None \<Rightarrow>
                    (case insert_random draw member_fields [] s of
                       (member, s') \<Rightarrow> Inr (bt_insert ''users'' (JArray [JObject member]) m, s')))
           | None \<Rightarrow>
               (case map_of PLACEHOLDER_FIELDS kind of
                  None \<Rightarrow> Inr (m, s)
                | Some fs \<Rightarrow>
                    (case find (\<lambda>field. map_of m field \<noteq> None) fs of
                       Some field \<Rightarrow> Inl (leaf_credential field kind)
                     | None \<Rightarrow> Inr (insert_random draw fs m s))))
      | _ \<Rightarrow> Inr (m, s))"

lemma rbind_cong [fundef_cong]: "m = m' \<Longrightarrow> (\<And>x. m' = Inr x \<Longrightarrow> k x = k' x) \<Longrightarrow> rbind m k = rbind m' k'"
  by (cases m') simp_all

lemma entry_size [termination_simp]: "map_of m key = Some v \<Longrightarrow> size v < size_list (size_prod (\<lambda>_. 0) size) m"
  by (induction m) (auto split: if_splits)

function (sequential) visit_protocol :: "('s \<Rightarrow> 's \<times> string) \<Rightarrow> json \<Rightarrow> 's \<Rightarrow> EngineError + json \<times> 's"
  and visit_collections :: "('s \<Rightarrow> 's \<times> string) \<Rightarrow> string list \<Rightarrow> (string \<times> json) list \<Rightarrow> (string \<times> json) list \<Rightarrow> 's \<Rightarrow> EngineError + (string \<times> json) list \<times> 's"
  and visit_singles :: "('s \<Rightarrow> 's \<times> string) \<Rightarrow> string list \<Rightarrow> (string \<times> json) list \<Rightarrow> (string \<times> json) list \<Rightarrow> 's \<Rightarrow> EngineError + (string \<times> json) list \<times> 's"
  and visit_target_collection :: "('s \<Rightarrow> 's \<times> string) \<Rightarrow> json \<Rightarrow> 's \<Rightarrow> EngineError + json \<times> 's"
  and visit_items :: "('s \<Rightarrow> 's \<times> string) \<Rightarrow> json list \<Rightarrow> 's \<Rightarrow> EngineError + json list \<times> 's"
  and visit_values :: "('s \<Rightarrow> 's \<times> string) \<Rightarrow> (string \<times> json) list \<Rightarrow> 's \<Rightarrow> EngineError + (string \<times> json) list \<times> 's"
  and visit_target :: "('s \<Rightarrow> 's \<times> string) \<Rightarrow> json \<Rightarrow> 's \<Rightarrow> EngineError + json \<times> 's" where
  "visit_protocol draw (JObject m) s =
     rbind (fill_protocol_object draw m s) (\<lambda>(m1, s1).
     rbind (visit_collections draw TARGET_COLLECTION_KEYS m m1 s1) (\<lambda>(m2, s2).
     rbind (visit_singles draw SINGLE_TARGET_KEYS m m2 s2) (\<lambda>(m3, s3). Inr (JObject m3, s3))))"
| "visit_protocol draw value s = Inr (value, s)"
| "visit_collections draw [] m out s = Inr (out, s)"
| "visit_collections draw (key # keys) m out s =
     (case map_of m key of
        Some entry \<Rightarrow> rbind (visit_target_collection draw entry s) (\<lambda>(entry', s').
          visit_collections draw keys m (bt_insert key entry' out) s')
      | None \<Rightarrow> visit_collections draw keys m out s)"
| "visit_singles draw [] m out s = Inr (out, s)"
| "visit_singles draw (key # keys) m out s =
     (case map_of m key of
        Some entry \<Rightarrow> rbind (visit_target draw entry s) (\<lambda>(entry', s').
          visit_singles draw keys m (bt_insert key entry' out) s')
      | None \<Rightarrow> visit_singles draw keys m out s)"
| "visit_target_collection draw (JArray items) s =
     rbind (visit_items draw items s) (\<lambda>(items', s'). Inr (JArray items', s'))"
| "visit_target_collection draw (JObject m) s =
     (if map_of m ''protocol'' \<noteq> None then visit_target draw (JObject m) s
      else rbind (visit_values draw m s) (\<lambda>(m', s'). Inr (JObject m', s')))"
| "visit_target_collection draw value s = Inr (value, s)"
| "visit_items draw [] s = Inr ([], s)"
| "visit_items draw (item # items) s =
     rbind (visit_target draw item s) (\<lambda>(item', s1). rbind (visit_items draw items s1) (\<lambda>(items', s2). Inr (item' # items', s2)))"
| "visit_values draw [] s = Inr ([], s)"
| "visit_values draw ((key, target) # m) s =
     rbind (visit_target draw target s) (\<lambda>(target', s1). rbind (visit_values draw m s1) (\<lambda>(m', s2). Inr ((key, target') # m', s2)))"
| "visit_target draw (JObject m) s =
     (case map_of m ''protocol'' of
        Some protocol \<Rightarrow> rbind (visit_protocol draw protocol s) (\<lambda>(protocol', s'). Inr (JObject (bt_insert ''protocol'' protocol' m), s'))
      | None \<Rightarrow> Inr (JObject m, s))"
| "visit_target draw value s = Inr (value, s)"
  by pat_completeness auto

termination
proof -
  let ?fields = "size_list (size_prod (\<lambda>_. 0) size) :: (string \<times> json) list \<Rightarrow> nat"
  let ?size = "case_sum (case_sum (\<lambda>(_, v, _). size v) (case_sum (\<lambda>(_, _, m, _). ?fields m) (\<lambda>(_, _, m, _). ?fields m)))
    (case_sum (case_sum (\<lambda>(_, v, _). size v) (\<lambda>(_, vs, _). size_list size vs)) (case_sum (\<lambda>(_, m, _). ?fields m) (\<lambda>(_, v, _). size v)))"
  let ?stage = "case_sum (case_sum (\<lambda>_. 0) (case_sum (\<lambda>(_, keys, _). length keys) (\<lambda>(_, keys, _). length keys)))
    (case_sum (case_sum (\<lambda>_. 1) (\<lambda>_. 0)) (case_sum (\<lambda>_. 0) (\<lambda>_. 0)))"
  show ?thesis by (relation "measures [?size, ?stage]") (auto dest: entry_size)
qed
definition install_placeholder_credentials :: "('s \<Rightarrow> 's \<times> string) \<Rightarrow> json \<Rightarrow> 's \<Rightarrow> EngineError + json \<times> 's" where
  "install_placeholder_credentials draw config s =
     (case json_get ''protocol'' config of
        None \<Rightarrow> Inr (config, s)
      | Some protocol \<Rightarrow> rbind (visit_protocol draw protocol s) (\<lambda>(protocol', s'). Inr (json_insert ''protocol'' protocol' config, s')))"

section \<open>Governed trees\<close>

text \<open>The protocols of a tree that serve clients themselves, and those that admit a client without asking it anything.\<close>

primrec leaf_protocols :: "'x ServerProxyConfig \<Rightarrow> 'x ServerProxyConfig list" where
  "leaf_protocols (Tls tls_targets default_tls_target shadowtls_targets reality_targets x) =
     concat (map leaf_protocols tls_targets @ option_list (map_option leaf_protocols default_tls_target) @
       map leaf_protocols shadowtls_targets @ map leaf_protocols reality_targets)"
| "leaf_protocols (Websocket targets x) = concat (map leaf_protocols targets)"
| "leaf_protocols (Vless x) = [Vless x]"
| "leaf_protocols (Vmess x) = [Vmess x]"
| "leaf_protocols (Trojan x) = [Trojan x]"
| "leaf_protocols (Shadowsocks config x) = [Shadowsocks config x]"
| "leaf_protocols (Hysteria2 x) = [Hysteria2 x]"
| "leaf_protocols (TuicV5 x) = [TuicV5 x]"
| "leaf_protocols (Anytls x) = [Anytls x]"
| "leaf_protocols (Naiveproxy x) = [Naiveproxy x]"
| "leaf_protocols (Snell x) = [Snell x]"
| "leaf_protocols (HttpProxy username password x) = [HttpProxy username password x]"
| "leaf_protocols (Socks username password x) = [Socks username password x]"
| "leaf_protocols (Mixed username password x) = [Mixed username password x]"
| "leaf_protocols (PortForward x) = [PortForward x]"

fun admits_everyone :: "'x ServerProxyConfig \<Rightarrow> bool" where
  "admits_everyone (HttpProxy None None x) = True"
| "admits_everyone (Socks None None x) = True"
| "admits_everyone (Mixed None None x) = True"
| "admits_everyone (PortForward x) = True"
| "admits_everyone _ = False"

text \<open>Shadowsocks 2022 is given the registry with every cipher; only some ciphers can name a user.\<close>

fun cannot_name_users :: "(ShadowsocksCipher \<Rightarrow> bool) \<Rightarrow> 'x ServerProxyConfig \<Rightarrow> bool" where
  "cannot_name_users multi_user (Shadowsocks (Aead2022 cipher) x) = (\<not> multi_user cipher)"
| "cannot_name_users multi_user _ = False"

definition covers :: "CredentialKinds \<Rightarrow> CredentialKinds \<Rightarrow> bool" where
  "covers kinds need \<longleftrightarrow> kinds_merge kinds need = kinds"

lemma kinds_all_covers: "need \<in> set ks \<Longrightarrow> covers (kinds_all ks) need"
  and kinds_all_least: "(\<And>need. need \<in> set ks \<Longrightarrow> covers kinds need) \<Longrightarrow> covers kinds (kinds_all ks)"
proof -
  have none: "kinds_merge k KIND_NONE = k" for k by (metis kinds_merge_laws(2,4))
  have step: "foldl kinds_merge k ks = kinds_merge k (kinds_all ks)" for k ks
  proof (induction ks arbitrary: k)
    case Nil
    show ?case by (simp add: kinds_all_def none)
  next
    case (Cons a ks)
    have "kinds_all (a # ks) = foldl kinds_merge a ks" by (simp add: kinds_all_def kinds_merge_laws(4))
    then show ?case using Cons [of "kinds_merge k a"] Cons [of a] by (simp add: kinds_merge_laws(3))
  qed
  have cons: "kinds_all (k # ks) = kinds_merge k (kinds_all ks)" for k ks
    using step [of k ks] by (simp add: kinds_all_def kinds_merge_laws(4))
  show "need \<in> set ks \<Longrightarrow> covers (kinds_all ks) need"
    by (induction ks) (auto simp: cons covers_def, (metis kinds_merge_laws)+)
  show "(\<And>need. need \<in> set ks \<Longrightarrow> covers kinds need) \<Longrightarrow> covers kinds (kinds_all ks)"
  proof (induction ks)
    case Nil
    show ?case by (simp add: covers_def kinds_all_def none)
  next
    case (Cons k ks)
    then have "covers kinds k" "covers kinds (kinds_all ks)" by simp_all
    then show ?case unfolding covers_def cons by (metis kinds_merge_laws(3))
  qed
qed

lemma covers_trans: "covers a b \<Longrightarrow> covers b c \<Longrightarrow> covers a c"
  unfolding covers_def by (metis kinds_merge_laws(3))

lemma find_map_None_iff: "find_map f xs = None \<longleftrightarrow> (\<forall>x \<in> set xs. f x = None)"
  by (induction xs) (auto split: option.splits)

lemma option_list_set [simp]: "set (option_list x) = set_option x"
  by (cases x) (simp_all add: option_list_def)

lemma leaf_kinds:
  "leaf \<in> set (leaf_protocols protocol) \<Longrightarrow> covers (credential_kinds multi_user protocol) (credential_kinds multi_user leaf)"
proof (induction protocol)
  case (Tls tls dflt stls reality x)
  from Tls.prems obtain target where target: "target \<in> set tls \<union> set_option dflt \<union> set stls \<union> set reality"
    "leaf \<in> set (leaf_protocols target)" by (auto simp: option.set_map)
  with Tls.IH have "covers (credential_kinds multi_user target) (credential_kinds multi_user leaf)" by blast
  moreover have "covers (credential_kinds multi_user (Tls tls dflt stls reality x)) (credential_kinds multi_user target)"
    using target(1) unfolding credential_kinds.simps by (intro kinds_all_covers) (auto simp: option.set_map)
  ultimately show ?case by (rule covers_trans [rotated])
next
  case (Websocket targets x)
  then obtain target where "target \<in> set targets" "covers (credential_kinds multi_user target) (credential_kinds multi_user leaf)" by auto
  then show ?case unfolding credential_kinds.simps by (intro covers_trans [OF kinds_all_covers]) auto
qed (auto simp: covers_def kinds_merge_laws)

lemma servable_leaves:
  "unservable_registry_target multi_user protocol = None \<longleftrightarrow>
     (\<forall>leaf \<in> set (leaf_protocols protocol). \<not> admits_everyone leaf \<and> \<not> cannot_name_users multi_user leaf)"
proof (induction protocol)
  case (Shadowsocks config x)
  then show ?case by (cases config) auto
next
  case (Tls tls dflt stls reality x)
  then show ?case by (auto simp: find_map_None_iff option.set_map ball_Un) 
next
  case (Websocket targets x)
  then show ?case by (auto simp: find_map_None_iff)
qed (auto simp: unauthenticated_target_def elim: admits_everyone.elims)

lemma leaf_least:
  "(\<And>leaf. leaf \<in> set (leaf_protocols protocol) \<Longrightarrow> covers kinds (credential_kinds multi_user leaf)) \<Longrightarrow>
   covers kinds (credential_kinds multi_user protocol)"
proof (induction protocol)
  case (Tls tls dflt stls reality x)
  have "covers kinds (credential_kinds multi_user target)" if "target \<in> set tls \<union> set_option dflt \<union> set stls \<union> set reality" for target
    using that Tls by (fastforce simp: option.set_map)
  then show ?case unfolding credential_kinds.simps by (intro kinds_all_least) (auto simp: option.set_map)
next
  case (Websocket targets x)
  then show ?case unfolding credential_kinds.simps by (intro kinds_all_least) auto
qed simp_all

text \<open>C18 (a user list governs the whole inbound): the engine takes a user list for a configuration exactly when no protocol
  of the tree, however deeply nested, admits a client without a credential or is handed a registry it cannot ask,
  at least one protocol asks the registry, and no password would have two meanings. The credential forms of
  the registry are then the smallest that serve every protocol of the tree.\<close>

theorem registry_governs:
  "registry_kinds_for multi_user label protocols = Inr kinds \<longleftrightarrow>
     (\<forall>leaf \<in> set (concat (map leaf_protocols protocols)). \<not> admits_everyone leaf \<and> \<not> cannot_name_users multi_user leaf) \<and>
     (\<exists>leaf \<in> set (concat (map leaf_protocols protocols)). credential_kinds multi_user leaf \<noteq> KIND_NONE) \<and>
     (\<forall>other. covers other kinds \<longleftrightarrow>
        (\<forall>leaf \<in> set (concat (map leaf_protocols protocols)). covers other (credential_kinds multi_user leaf))) \<and>
     kinds_conflict kinds = None"
proof -
  let ?leaves = "concat (map leaf_protocols protocols)" and ?kinds = "kinds_all (map (credential_kinds multi_user) protocols)"
  have antisym: "a = b" if "covers a b" "covers b a" for a b using that unfolding covers_def by (metis kinds_merge_laws(2))
  have above: "covers ?kinds (credential_kinds multi_user leaf)" if "leaf \<in> set ?leaves" for leaf
    using that leaf_kinds by (fastforce intro: covers_trans [OF kinds_all_covers])
  have least: "covers other ?kinds" if "\<forall>leaf \<in> set ?leaves. covers other (credential_kinds multi_user leaf)" for other
    by (intro kinds_all_least) (use that leaf_least in fastforce)
  have exact: "covers other ?kinds \<longleftrightarrow> (\<forall>leaf \<in> set ?leaves. covers other (credential_kinds multi_user leaf))" for other
    using above least covers_trans by blast
  then have least': "kinds = ?kinds \<longleftrightarrow> (\<forall>other. covers other kinds \<longleftrightarrow> (\<forall>leaf \<in> set ?leaves. covers other (credential_kinds multi_user leaf)))"
    using antisym refl [of kinds] by (metis covers_def kinds_merge_laws(1))
  have none: "?kinds = KIND_NONE \<longleftrightarrow> (\<forall>leaf \<in> set ?leaves. credential_kinds multi_user leaf = KIND_NONE)"
    using exact [of KIND_NONE] above by (auto simp: covers_def kinds_merge_laws(1,4))
  have "find_map (unservable_registry_target multi_user) protocols = None \<longleftrightarrow>
      (\<forall>leaf \<in> set ?leaves. \<not> admits_everyone leaf \<and> \<not> cannot_name_users multi_user leaf)"
    by (auto simp: find_map_None_iff servable_leaves)
  then show ?thesis
    unfolding least' [symmetric] registry_kinds_for_def Let_def kinds_is_empty_def using none
    by (cases "find_map (unservable_registry_target multi_user) protocols") (auto split: option.splits if_splits)
qed

section \<open>Filled gaps\<close>

text \<open>The protocol objects of a server configuration, found at the positions where one protocol nests another.\<close>

inductive at_protocol :: "json \<Rightarrow> (string \<times> json) list \<Rightarrow> bool"
  and at_collection :: "json \<Rightarrow> (string \<times> json) list \<Rightarrow> bool"
  and at_target :: "json \<Rightarrow> (string \<times> json) list \<Rightarrow> bool" where
  self: "at_protocol (JObject m) m"
| collection: "key \<in> set TARGET_COLLECTION_KEYS \<Longrightarrow> map_of m key = Some entry \<Longrightarrow> at_collection entry q \<Longrightarrow> at_protocol (JObject m) q"
| single: "key \<in> set SINGLE_TARGET_KEYS \<Longrightarrow> map_of m key = Some entry \<Longrightarrow> at_target entry q \<Longrightarrow> at_protocol (JObject m) q"
| item: "item \<in> set items \<Longrightarrow> at_target item q \<Longrightarrow> at_collection (JArray items) q"
| one: "map_of m ''protocol'' \<noteq> None \<Longrightarrow> at_target (JObject m) q \<Longrightarrow> at_collection (JObject m) q"
| keyed: "map_of m ''protocol'' = None \<Longrightarrow> target \<in> snd ` set m \<Longrightarrow> at_target target q \<Longrightarrow> at_collection (JObject m) q"
| target: "map_of m ''protocol'' = Some protocol \<Longrightarrow> at_protocol protocol q \<Longrightarrow> at_target (JObject m) q"

inductive_simps at_simps: "at_protocol (JObject m) q" "at_collection (JArray items) q" "at_collection (JObject m) q" "at_target (JObject m) q"
  "at_protocol JNull q" "at_protocol (JBool b) q" "at_protocol (JNumber t) q" "at_protocol (JString t) q" "at_protocol (JArray items) q"
  "at_collection JNull q" "at_collection (JBool b) q" "at_collection (JNumber t) q" "at_collection (JString t) q"
  "at_target JNull q" "at_target (JBool b) q" "at_target (JNumber t) q" "at_target (JString t) q" "at_target (JArray items) q"

definition credential_fields :: "(string \<times> json) list \<Rightarrow> string list" where
  "credential_fields m =
     (case map_of m ''type'' of
        Some (JString kind) \<Rightarrow>
          (if map_of PLACEHOLDER_USER_LISTS kind \<noteq> None then [''users'', ''user'']
           else case map_of PLACEHOLDER_FIELDS kind of Some fs \<Rightarrow> fs | None \<Rightarrow> [])
      | _ \<Rightarrow> [])"

definition carries :: "(string \<times> json) list \<Rightarrow> bool" where
  "carries m \<longleftrightarrow> (\<exists>field \<in> set (credential_fields m). map_of m field \<noteq> None)"

text \<open>Every credential the schema asks for is there.\<close>

definition credentialled :: "(string \<times> json) list \<Rightarrow> bool" where
  "credentialled m \<longleftrightarrow> (\<forall>field \<in> set (credential_fields m) - {''user''}. map_of m field \<noteq> None)"

text \<open>Nothing is removed or overwritten: a filled value has every entry of the old one, with the same leaves.\<close>

inductive extends :: "json \<Rightarrow> json \<Rightarrow> bool" where
  same: "extends v v"
| array: "list_all2 extends vs ws \<Longrightarrow> extends (JArray vs) (JArray ws)"
| object: "(\<And>key v. map_of m key = Some v \<Longrightarrow> \<exists>w. map_of n key = Some w \<and> extends v w) \<Longrightarrow> extends (JObject m) (JObject n)"

lemma insert_random_map:
  "insert_random draw fs m s = (m', s') \<Longrightarrow>
     (\<forall>key. key \<notin> set fs \<longrightarrow> map_of m' key = map_of m key) \<and> (\<forall>key \<in> set fs. map_of m' key \<noteq> None)"
proof (induction fs arbitrary: m s)
  case (Cons field fs)
  obtain s1 uuid where "draw s = (s1, uuid)" by fastforce
  with Cons.prems have "insert_random draw fs (bt_insert field (JString uuid) m) s1 = (m', s')" by simp
  from Cons.IH [OF this] show ?case by auto
qed simp

lemma credential_fields_keys:
  "set (credential_fields m) \<inter> set (''type'' # ''protocol'' # TARGET_COLLECTION_KEYS @ SINGLE_TARGET_KEYS) = {}"
  by (auto simp: credential_fields_def PLACEHOLDER_FIELDS_def TARGET_COLLECTION_KEYS_def SINGLE_TARGET_KEYS_def
    split: option.splits json.splits if_splits)

definition filled :: "(json \<Rightarrow> (string \<times> json) list \<Rightarrow> bool) \<Rightarrow> json \<Rightarrow> json \<Rightarrow> bool" where
  "filled here v v' \<longleftrightarrow> (\<forall>q. here v q \<longrightarrow> \<not> carries q) \<and> (\<forall>q. here v' q \<longrightarrow> credentialled q) \<and> extends v v'"

definition refused :: "(json \<Rightarrow> (string \<times> json) list \<Rightarrow> bool) \<Rightarrow> json \<Rightarrow> bool" where
  "refused here v \<longleftrightarrow> (\<exists>q. here v q \<and> carries q)"

definition outcome :: "(json \<Rightarrow> (string \<times> json) list \<Rightarrow> bool) \<Rightarrow> json \<Rightarrow> EngineError + json \<times> 's \<Rightarrow> bool" where
  "outcome here v r \<longleftrightarrow> (case r of Inl _ \<Rightarrow> refused here v | Inr (v', _) \<Rightarrow> filled here v v')"

definition entries_outcome :: "(json \<Rightarrow> (string \<times> json) list \<Rightarrow> bool) \<Rightarrow> string list \<Rightarrow> (string \<times> json) list \<Rightarrow> (string \<times> json) list \<Rightarrow>
    EngineError + (string \<times> json) list \<times> 's \<Rightarrow> bool" where
  "entries_outcome here keys m out r \<longleftrightarrow>
     (case r of
        Inl _ \<Rightarrow> \<exists>key \<in> set keys. \<exists>entry. map_of m key = Some entry \<and> refused here entry
      | Inr (out', _) \<Rightarrow>
          (\<forall>key. key \<notin> set keys \<or> map_of m key = None \<longrightarrow> map_of out' key = map_of out key) \<and>
          (\<forall>key \<in> set keys. \<forall>entry. map_of m key = Some entry \<longrightarrow> (\<exists>entry'. map_of out' key = Some entry' \<and> filled here entry entry')))"

lemma fill_outcome:
  assumes "fill_protocol_object draw m s = r"
  shows "case r of Inl _ \<Rightarrow> carries m
    | Inr (m', _) \<Rightarrow> \<not> carries m \<and> credentialled m' \<and> (\<forall>key. key \<notin> set (credential_fields m) \<longrightarrow> map_of m' key = map_of m key)"
proof (cases "\<exists>kind. map_of m ''type'' = Some (JString kind)")
  case False
  then have "credential_fields m = []" "r = Inr (m, s)"
    using assms by (auto simp: credential_fields_def fill_protocol_object_def split: option.splits json.splits)
  then show ?thesis by (simp add: carries_def credentialled_def)
next
  case True
  then obtain kind where kind: "map_of m ''type'' = Some (JString kind)" by blast
  have fields_eq: "credential_fields m' = credential_fields m" if "map_of m' ''type'' = map_of m ''type''" for m'
    using that by (simp add: credential_fields_def)
  have type: "''type'' \<notin> set (credential_fields m)" using credential_fields_keys [of m] by auto
  show ?thesis
  proof (cases "map_of PLACEHOLDER_USER_LISTS kind")
    case (Some member_fields)
    then have fs: "credential_fields m = [''users'', ''user'']" using kind by (simp add: credential_fields_def)
    show ?thesis
    proof (cases "carries m")
      case True
      with assms kind Some fs show ?thesis
        by (cases "map_of m ''users''") (auto simp: fill_protocol_object_def carries_def)
    next
      case False
      with fs have none: "map_of m ''users'' = None" "map_of m ''user'' = None" by (auto simp: carries_def)
      obtain member s' where "r = Inr (bt_insert ''users'' (JArray [JObject member]) m, s')"
        using assms kind Some none by (auto simp: fill_protocol_object_def split: prod.splits)
      then show ?thesis using False fs fields_eq [of "bt_insert ''users'' (JArray [JObject member]) m"] none
        by (auto simp: credentialled_def)
    qed
  next
    case None
    show ?thesis
    proof (cases "map_of PLACEHOLDER_FIELDS kind")
      case none: None
      then have "credential_fields m = []" "r = Inr (m, s)"
        using assms kind None by (simp_all add: credential_fields_def fill_protocol_object_def)
      then show ?thesis by (simp add: carries_def credentialled_def)
    next
      case (Some fs)
      then have fs: "credential_fields m = fs" using kind None by (simp add: credential_fields_def)
      show ?thesis
      proof (cases "find (\<lambda>field. map_of m field \<noteq> None) fs")
        case none: None
        obtain m' s' where ins: "insert_random draw fs m s = (m', s')" by fastforce
        then have "r = Inr (m', s')" using assms kind Some \<open>map_of PLACEHOLDER_USER_LISTS kind = None\<close> none
          by (simp add: fill_protocol_object_def)
        moreover have "\<not> carries m" using none fs by (auto simp: carries_def find_None_iff)
        ultimately show ?thesis using insert_random_map [OF ins] fs type fields_eq [of m'] by (simp add: credentialled_def)
      next
        case (Some field)
        then have "carries m" using fs by (auto simp: carries_def find_Some_iff)
        moreover have "r = Inl (leaf_credential field kind)"
          using assms kind Some \<open>map_of PLACEHOLDER_FIELDS kind = Some fs\<close> \<open>map_of PLACEHOLDER_USER_LISTS kind = None\<close>
          by (simp add: fill_protocol_object_def)
        ultimately show ?thesis by simp
      qed
    qed
  qed
qed

lemma entries_outcome_step:
  assumes "map_of m key = Some entry" "outcome here entry (Inr (entry', s'))" "key \<notin> set keys"
    "entries_outcome here keys m (bt_insert key entry' out) r"
  shows "entries_outcome here (key # keys) m out r"
  using assms by (cases r) (auto simp: entries_outcome_def outcome_def)

lemma entries_outcome_skip:
  "map_of m key = None \<Longrightarrow> entries_outcome here keys m out r \<Longrightarrow> entries_outcome here (key # keys) m out r"
  by (cases r) (auto simp: entries_outcome_def)

lemma protocol_filled:
  assumes "fill_protocol_object draw m s = Inr (m1, s1)"
    "entries_outcome at_collection TARGET_COLLECTION_KEYS m m1 (Inr (m2, s2))"
    "entries_outcome at_target SINGLE_TARGET_KEYS m m2 (Inr (m3, s3))"
  shows "filled at_protocol (JObject m) (JObject m3)"
proof -
  note fill = fill_outcome [OF assms(1), simplified]
  have free: "key \<notin> set (credential_fields m)" if "key \<in> set (''type'' # ''protocol'' # TARGET_COLLECTION_KEYS @ SINGLE_TARGET_KEYS)" for key
    using that credential_fields_keys [of m] by blast
  have apart: "set TARGET_COLLECTION_KEYS \<inter> set SINGLE_TARGET_KEYS = {}" "''type'' \<notin> set (TARGET_COLLECTION_KEYS @ SINGLE_TARGET_KEYS)"
    by (auto simp: TARGET_COLLECTION_KEYS_def SINGLE_TARGET_KEYS_def)
  have coll: "case map_of m key of None \<Rightarrow> map_of m3 key = None | Some entry \<Rightarrow> \<exists>entry'. map_of m3 key = Some entry' \<and> filled at_collection entry entry'"
    if "key \<in> set TARGET_COLLECTION_KEYS" for key
    using that assms(2,3) apart(1) fill free [of key] by (auto simp: entries_outcome_def split: option.splits)
  have sing: "case map_of m key of None \<Rightarrow> map_of m3 key = None | Some entry \<Rightarrow> \<exists>entry'. map_of m3 key = Some entry' \<and> filled at_target entry entry'"
    if "key \<in> set SINGLE_TARGET_KEYS" for key
    using that assms(2,3) apart(1) fill free [of key] by (auto simp: entries_outcome_def split: option.splits)
  have rest: "map_of m3 key = map_of m1 key" if "key \<notin> set (TARGET_COLLECTION_KEYS @ SINGLE_TARGET_KEYS)" for key
    using that assms(2,3) by (auto simp: entries_outcome_def)
  have same_fields: "credential_fields m3 = credential_fields m1" using rest [OF apart(2)] by (simp add: credential_fields_def)
  have kept: "map_of m1 ''type'' = map_of m ''type''" using fill free [of "''type''"] by simp
  then have "credential_fields m1 = credential_fields m" by (simp add: credential_fields_def)
  then have "map_of m3 field = map_of m1 field" if "field \<in> set (credential_fields m3)" for field
    using that same_fields credential_fields_keys [of m] by (intro rest) auto
  then have "credentialled m3" using fill same_fields by (simp add: credentialled_def)
  moreover have "extends (JObject m) (JObject m3)"
  proof (rule extends.object)
    fix key v assume v: "map_of m key = Some v"
    consider "key \<in> set TARGET_COLLECTION_KEYS" | "key \<in> set SINGLE_TARGET_KEYS" | "key \<notin> set (TARGET_COLLECTION_KEYS @ SINGLE_TARGET_KEYS)" by auto
    then show "\<exists>w. map_of m3 key = Some w \<and> extends v w"
    proof cases
      case 3
      have "key \<notin> set (credential_fields m)" using fill v by (auto simp: carries_def)
      with fill rest [OF 3] v show ?thesis by (auto intro: extends.same)
    qed (use coll sing v in \<open>fastforce simp: filled_def\<close>)+
  qed
  moreover have "\<not> carries q" if "at_protocol (JObject m) q" for q
    using that fill unfolding at_simps
  proof (elim disjE exE conjE)
    fix key entry assume "key \<in> set TARGET_COLLECTION_KEYS" "map_of m key = Some entry" "at_collection entry q"
    then show ?thesis using coll [of key] by (auto simp: filled_def)
  next
    fix key entry assume "key \<in> set SINGLE_TARGET_KEYS" "map_of m key = Some entry" "at_target entry q"
    then show ?thesis using sing [of key] by (auto simp: filled_def)
  qed simp
  moreover have "credentialled q" if "at_protocol (JObject m3) q" for q
    using that \<open>credentialled m3\<close> unfolding at_simps
  proof (elim disjE exE conjE)
    fix key entry assume "key \<in> set TARGET_COLLECTION_KEYS" "map_of m3 key = Some entry" "at_collection entry q"
    then show ?thesis using coll [of key] by (auto simp: filled_def split: option.splits)
  next
    fix key entry assume "key \<in> set SINGLE_TARGET_KEYS" "map_of m3 key = Some entry" "at_target entry q"
    then show ?thesis using sing [of key] by (auto simp: filled_def split: option.splits)
  qed simp
  ultimately show ?thesis by (simp add: filled_def)
qed

definition items_outcome :: "json list \<Rightarrow> EngineError + json list \<times> 's \<Rightarrow> bool" where
  "items_outcome items r \<longleftrightarrow>
     (case r of Inl _ \<Rightarrow> \<exists>item \<in> set items. refused at_target item | Inr (items', _) \<Rightarrow> list_all2 (filled at_target) items items')"

definition values_outcome :: "(string \<times> json) list \<Rightarrow> EngineError + (string \<times> json) list \<times> 's \<Rightarrow> bool" where
  "values_outcome m r \<longleftrightarrow>
     (case r of
        Inl _ \<Rightarrow> \<exists>v \<in> snd ` set m. refused at_target v
      | Inr (m', _) \<Rightarrow> list_all2 (\<lambda>(k, v) (k', v'). k = k' \<and> filled at_target v v') m m')"

lemma values_map_of:
  "list_all2 (\<lambda>(k, v) (k', v'). k = k' \<and> R v v') m m' \<Longrightarrow> rel_option R (map_of m key) (map_of m' key)"
  by (induction rule: list_all2_induct) auto

lemma values_snd:
  "list_all2 (\<lambda>(k, v) (k', v'). k = k' \<and> R v v') m m' \<Longrightarrow>
     (\<forall>v \<in> snd ` set m. \<exists>v'. R v v') \<and> (\<forall>v' \<in> snd ` set m'. \<exists>v. R v v')"
  by (induction rule: list_all2_induct) auto

lemma values_filled:
  assumes "list_all2 (\<lambda>(k, v) (k', v'). k = k' \<and> filled at_target v v') m m'" "map_of m ''protocol'' = None"
  shows "filled at_collection (JObject m) (JObject m')"
proof -
  note keys = values_map_of [OF assms(1)] and vals = values_snd [OF assms(1)]
  have none: "map_of m' ''protocol'' = None" using keys [of "''protocol''"] assms(2) by simp
  have "extends (JObject m) (JObject m')"
  proof (rule extends.object)
    fix key v assume "map_of m key = Some v"
    with keys [of key] show "\<exists>w. map_of m' key = Some w \<and> extends v w" by (auto simp: filled_def option_rel_Some1)
  qed
  moreover have "\<not> carries q" if "at_collection (JObject m) q" for q
    using that assms(2) vals unfolding at_simps by (auto simp: filled_def)
  moreover have "credentialled q" if "at_collection (JObject m') q" for q
    using that none vals unfolding at_simps by (auto simp: filled_def)
  ultimately show ?thesis by (simp add: filled_def)
qed

lemma items_filled:
  assumes "list_all2 (filled at_target) items items'"
  shows "filled at_collection (JArray items) (JArray items')"
proof -
  have "list_all2 extends items items'" using assms by (rule list_all2_mono) (simp add: filled_def)
  moreover have "\<forall>item \<in> set items. \<exists>item'. filled at_target item item'" "\<forall>item' \<in> set items'. \<exists>item. filled at_target item item'"
    using assms by (induction rule: list_all2_induct) auto
  ultimately show ?thesis by (auto simp: filled_def at_simps intro: extends.array)
qed

lemma target_filled:
  assumes "map_of m ''protocol'' = Some protocol" "filled at_protocol protocol protocol'"
  shows "filled at_target (JObject m) (JObject (bt_insert ''protocol'' protocol' m))"
proof -
  have "extends (JObject m) (JObject (bt_insert ''protocol'' protocol' m))"
  proof (rule extends.object)
    fix key v assume "map_of m key = Some v"
    with assms show "\<exists>w. map_of (bt_insert ''protocol'' protocol' m) key = Some w \<and> extends v w"
      by (auto simp: filled_def intro: extends.same)
  qed
  then show ?thesis using assms by (simp add: filled_def at_simps)
qed

lemma refused_simps:
  "refused at_protocol (JObject m) \<longleftrightarrow> carries m \<or>
     (\<exists>key \<in> set TARGET_COLLECTION_KEYS. \<exists>entry. map_of m key = Some entry \<and> refused at_collection entry) \<or>
     (\<exists>key \<in> set SINGLE_TARGET_KEYS. \<exists>entry. map_of m key = Some entry \<and> refused at_target entry)"
  "refused at_collection (JArray items) \<longleftrightarrow> (\<exists>item \<in> set items. refused at_target item)"
  "map_of m ''protocol'' = None \<Longrightarrow> refused at_collection (JObject m) \<longleftrightarrow> (\<exists>v \<in> snd ` set m. refused at_target v)"
  "map_of m ''protocol'' = Some protocol \<Longrightarrow> refused at_collection (JObject m) \<longleftrightarrow> refused at_protocol protocol"
  "map_of m ''protocol'' = Some protocol \<Longrightarrow> refused at_target (JObject m) \<longleftrightarrow> refused at_protocol protocol"
proof -
  show "refused at_protocol (JObject m) \<longleftrightarrow> carries m \<or>
     (\<exists>key \<in> set TARGET_COLLECTION_KEYS. \<exists>entry. map_of m key = Some entry \<and> refused at_collection entry) \<or>
     (\<exists>key \<in> set SINGLE_TARGET_KEYS. \<exists>entry. map_of m key = Some entry \<and> refused at_target entry)"
    unfolding refused_def at_simps(1) by blast
  show "refused at_collection (JArray items) \<longleftrightarrow> (\<exists>item \<in> set items. refused at_target item)"
    unfolding refused_def at_simps(2) by blast
  show "map_of m ''protocol'' = None \<Longrightarrow> refused at_collection (JObject m) \<longleftrightarrow> (\<exists>v \<in> snd ` set m. refused at_target v)"
    unfolding refused_def at_simps(3) at_simps(4) by (simp del: image_iff) blast
  show "map_of m ''protocol'' = Some protocol \<Longrightarrow> refused at_collection (JObject m) \<longleftrightarrow> refused at_protocol protocol"
    unfolding refused_def at_simps(3) at_simps(4) by simp
  show "map_of m ''protocol'' = Some protocol \<Longrightarrow> refused at_target (JObject m) \<longleftrightarrow> refused at_protocol protocol"
    unfolding refused_def at_simps(4) by simp
qed

lemma scalar_outcome:
  "(\<And>q. \<not> here v q) \<Longrightarrow> outcome here v (Inr (v, s))"
  by (simp add: outcome_def filled_def extends.same)

lemma entries_visit:
  assumes "key \<notin> set keys" "map_of m key = None \<Longrightarrow> entries_outcome here keys m out (go out s)"
    "\<And>entry. map_of m key = Some entry \<Longrightarrow> outcome here entry (visit entry s)"
    "\<And>entry entry' s'. map_of m key = Some entry \<Longrightarrow> visit entry s = Inr (entry', s') \<Longrightarrow>
       entries_outcome here keys m (bt_insert key entry' out) (go (bt_insert key entry' out) s')"
  shows "entries_outcome here (key # keys) m out
    (case map_of m key of Some entry \<Rightarrow> rbind (visit entry s) (\<lambda>(entry', s'). go (bt_insert key entry' out) s') | None \<Rightarrow> go out s)"
proof (cases "map_of m key")
  case None
  with assms(2) show ?thesis by (simp add: entries_outcome_skip)
next
  case (Some entry)
  show ?thesis
  proof (cases "visit entry s")
    case (Inl e)
    with assms(3) [OF Some] Some show ?thesis by (simp add: outcome_def entries_outcome_def)
  next
    case (Inr a)
    obtain entry' s' where a: "a = (entry', s')" by (cases a)
    have "entries_outcome here (key # keys) m out (go (bt_insert key entry' out) s')"
      using assms(3) [OF Some] assms(4) [OF Some] Inr a assms(1) Some by (intro entries_outcome_step [of m key entry here entry' s']) simp_all
    with Some Inr a show ?thesis by simp
  qed
qed

lemma items_visit:
  assumes "outcome at_target item (visit_target draw item s)"
    "\<And>item' s'. visit_target draw item s = Inr (item', s') \<Longrightarrow> items_outcome items (visit_items draw items s')"
  shows "items_outcome (item # items) (visit_items draw (item # items) s)"
proof (cases "visit_target draw item s")
  case (Inl e)
  with assms(1) show ?thesis by (simp add: outcome_def items_outcome_def)
next
  case (Inr a)
  obtain item' s' where a: "a = (item', s')" by (cases a)
  with assms Inr show ?thesis by (cases "visit_items draw items s'") (auto simp: outcome_def items_outcome_def)
qed

lemma values_visit:
  assumes "outcome at_target target (visit_target draw target s)"
    "\<And>target' s'. visit_target draw target s = Inr (target', s') \<Longrightarrow> values_outcome m (visit_values draw m s')"
  shows "values_outcome ((key, target) # m) (visit_values draw ((key, target) # m) s)"
proof (cases "visit_target draw target s")
  case (Inl e)
  with assms(1) show ?thesis by (simp add: outcome_def values_outcome_def)
next
  case (Inr a)
  obtain target' s' where a: "a = (target', s')" by (cases a)
  with assms Inr show ?thesis by (cases "visit_values draw m s'") (auto simp: outcome_def values_outcome_def)
qed

lemma collection_visit:
  assumes "map_of m ''protocol'' \<noteq> None \<Longrightarrow> outcome at_target (JObject m) (visit_target draw (JObject m) s)"
    "map_of m ''protocol'' = None \<Longrightarrow> values_outcome m (visit_values draw m s)"
  shows "outcome at_collection (JObject m) (visit_target_collection draw (JObject m) s)"
proof (cases "map_of m ''protocol''")
  case None
  with assms(2) show ?thesis
    by (cases "visit_values draw m s") (auto simp: outcome_def values_outcome_def refused_simps values_filled)
next
  case (Some protocol)
  moreover have "at_collection (JObject n) q \<longleftrightarrow> at_target (JObject n) q" if "map_of n ''protocol'' \<noteq> None" for n q
    using that unfolding at_simps(3) by blast
  moreover have "\<exists>n. v' = JObject n \<and> map_of n ''protocol'' \<noteq> None" if "visit_target draw (JObject m) s = Inr (v', s')" for v' s'
    using that Some by (auto simp: rbind_Inr_iff)
  ultimately show ?thesis using assms(1)
    by (cases "visit_target draw (JObject m) s") (fastforce simp: outcome_def refused_def filled_def simp del: visit_target.simps)+
qed

lemma target_visit:
  assumes "\<And>protocol. map_of m ''protocol'' = Some protocol \<Longrightarrow> outcome at_protocol protocol (visit_protocol draw protocol s)"
  shows "outcome at_target (JObject m) (visit_target draw (JObject m) s)"
proof (cases "map_of m ''protocol''")
  case None
  then show ?thesis by (simp add: scalar_outcome at_simps)
next
  case (Some protocol)
  with assms [OF Some] show ?thesis
    by (cases "visit_protocol draw protocol s") (auto simp: outcome_def refused_simps target_filled)
qed

lemma visit_outcome:
  "outcome at_protocol v (visit_protocol draw v s)"
  "distinct keys \<Longrightarrow> entries_outcome at_collection keys m out (visit_collections draw keys m out s)"
  "distinct keys \<Longrightarrow> entries_outcome at_target keys m out (visit_singles draw keys m out s)"
  "outcome at_collection v (visit_target_collection draw v s)"
  "items_outcome items (visit_items draw items s)"
  "values_outcome entries (visit_values draw entries s)"
  "outcome at_target v (visit_target draw v s)"
proof (induction draw v s and draw keys m out s and draw keys m out s and draw v s and draw items s and draw entries s and draw v s
    rule: visit_protocol_visit_collections_visit_singles_visit_target_collection_visit_items_visit_values_visit_target.induct)
  case (1 draw m s)
  have distinct: "distinct TARGET_COLLECTION_KEYS" "distinct SINGLE_TARGET_KEYS"
    by (simp_all add: TARGET_COLLECTION_KEYS_def SINGLE_TARGET_KEYS_def)
  show ?case
  proof (cases "fill_protocol_object draw m s")
    case (Inl e)
    with fill_outcome [of draw m s] show ?thesis by (simp add: outcome_def refused_simps)
  next
    case fill: (Inr a)
    obtain m1 s1 where a: "a = (m1, s1)" by (cases a)
    note coll = 1(1) [OF fill [unfolded a] refl distinct(1)]
    show ?thesis
    proof (cases "visit_collections draw TARGET_COLLECTION_KEYS m m1 s1")
      case (Inl e)
      with coll fill a show ?thesis by (simp add: outcome_def entries_outcome_def refused_simps)
    next
      case visit: (Inr b)
      obtain m2 s2 where b: "b = (m2, s2)" by (cases b)
      note sing = 1(2) [OF fill [unfolded a] refl visit [unfolded b] refl distinct(2)]
      show ?thesis
      proof (cases "visit_singles draw SINGLE_TARGET_KEYS m m2 s2")
        case (Inl e)
        with sing fill visit a b show ?thesis by (simp add: outcome_def entries_outcome_def refused_simps)
      next
        case (Inr c)
        obtain m3 s3 where c: "c = (m3, s3)" by (cases c)
        have "filled at_protocol (JObject m) (JObject m3)"
          by (rule protocol_filled [OF fill [unfolded a]]) (use coll sing visit Inr b c in simp_all)
        with fill visit Inr a b c show ?thesis by (simp add: outcome_def)
      qed
    qed
  qed
next
  case (4 draw key keys m out s)
  then show ?case unfolding visit_collections.simps by (intro entries_visit) simp_all
next
  case (6 draw key keys m out s)
  then show ?case unfolding visit_singles.simps by (intro entries_visit) simp_all
next
  case (7 draw items s)
  then show ?case by (cases "visit_items draw items s") (auto simp: outcome_def items_outcome_def refused_simps items_filled)
next
  case (8 draw m s)
  show ?case by (rule collection_visit) (use 8 in blast)+
next
  case (11 draw item items s)
  then show ?case by (intro items_visit) auto
next
  case (13 draw key target m s)
  then show ?case by (intro values_visit) auto
next
  case (14 draw m s)
  then show ?case by (rule target_visit)
qed (simp_all add: scalar_outcome at_simps(5-) entries_outcome_def items_outcome_def values_outcome_def)

text \<open>C19 (throwaway credentials fill gaps only): on a configuration whose server protocols carry no credential of their
  own, throwaways are installed wherever the schema of a nested protocol asks for one, no entry the caller wrote is removed
  or changed, and everything outside the server protocol tree (the rules with their outbound credentials) is untouched.
  A configuration in which some nested server protocol does carry a credential is refused.\<close>

theorem placeholders_fill_gaps:
  "case install_placeholder_credentials draw config s of
     Inl _ \<Rightarrow> (\<exists>q. at_target config q \<and> carries q)
   | Inr (config', _) \<Rightarrow>
       (\<forall>q. at_target config q \<longrightarrow> \<not> carries q) \<and> (\<forall>q. at_target config' q \<longrightarrow> credentialled q) \<and>
       extends config config' \<and> (\<forall>key. key \<noteq> ''protocol'' \<longrightarrow> json_get key config' = json_get key config)"
proof (cases "\<exists>m. config = JObject m")
  case True
  then obtain m where m: "config = JObject m" by blast
  have install: "install_placeholder_credentials draw config s = visit_target draw config s"
    by (cases "map_of m ''protocol''") (simp_all add: m install_placeholder_credentials_def json_get_def json_insert_def)
  have "json_get key config' = json_get key config" if "visit_target draw config s = Inr (config', s')" "key \<noteq> ''protocol''" for config' s' key
    using that by (auto simp: m json_get_def rbind_Inr_iff split: option.splits)
  with visit_outcome(7) [of config draw s] show ?thesis
    unfolding install by (cases "visit_target draw config s") (auto simp: outcome_def refused_def filled_def)
next
  case False
  then have "json_get ''protocol'' config = None" "\<not> at_target config q" for q
    by (auto simp: json_get_def elim: at_target.cases split: json.splits)
  then show ?thesis by (simp add: install_placeholder_credentials_def extends.same)
qed

section \<open>Witnesses\<close>

definition ex_tree :: "json \<Rightarrow> json" where
  "ex_tree protocol = JObject [(''protocol'', JObject [(''tls_targets'', JObject [(''a.example'', JObject [(''protocol'', protocol)])]),
     (''type'', JString ''tls'')]), (''rules'', JArray [])]"

theorem placeholders_fill_gaps_witness:
  "(\<exists>config'. install_placeholder_credentials (\<lambda>n. (n + 1, show_nat n)) (ex_tree (JObject [(''type'', JString ''vless'')])) 7 = Inr (config', 8) \<and>
      extends (ex_tree (JObject [(''type'', JString ''vless'')])) config' \<and> json_get ''rules'' config' = Some (JArray [])) \<and>
   (\<exists>q. at_target (ex_tree (JObject [(''password'', JString ''secret''), (''type'', JString ''trojan'')])) q \<and> carries q)"
proof -
  define filled_tree where "filled_tree = ex_tree (JObject [(''type'', JString ''vless''), (''user_id'', JString ''7'')])"
  have run: "install_placeholder_credentials (\<lambda>n. (n + 1, show_nat n)) (ex_tree (JObject [(''type'', JString ''vless'')])) 7 = Inr (filled_tree, 8)"
    unfolding filled_tree_def by code_simp
  have bad: "\<exists>e. install_placeholder_credentials (\<lambda>n. (n + 1, show_nat n))
      (ex_tree (JObject [(''password'', JString ''secret''), (''type'', JString ''trojan'')])) 7 = Inl e"
    by (rule exI [of _ "leaf_credential ''password'' ''trojan''"]) code_simp
  show ?thesis
    using placeholders_fill_gaps [where draw = "\<lambda>n. (n + 1, show_nat n)" and config = "ex_tree (JObject [(''type'', JString ''vless'')])" and s = 7]
      placeholders_fill_gaps [where draw = "\<lambda>n. (n + 1, show_nat n)" and config = "ex_tree (JObject [(''password'', JString ''secret''), (''type'', JString ''trojan'')])" and s = 7]
      run bad by (auto simp: ex_tree_def json_get_def)
qed

theorem registry_governs_witness:
  "\<not> (\<exists>kinds. registry_kinds_for (\<lambda>_. True) (\<lambda>_. ''x'') [Tls [Vless ()] None [] [Websocket [Socks None None ()] ()] ()] = Inr kinds) \<and>
   registry_kinds_for (\<lambda>_. True) (\<lambda>_. ''x'') [Tls [Vless ()] (Some (Trojan ())) [] [] ()] = Inr (kinds_merge KIND_UUID KIND_TROJAN_PASSWORD)"
  by (simp add: registry_governs [of "\<lambda>_. True" "\<lambda>_. ''x''" "[Tls [Vless ()] None [] [Websocket [Socks None None ()] ()] ()]"] option_list_def)
     code_simp

end
