(* ===== verification/Rule_Set.thy ===== *)
theory Rule_Set
  imports Json
begin

text \<open>
  The rule-set resources of \<open>rule_set.rs\<close>: references that the compiler puts into configurations, and the
  prepared snapshots that a transaction rewrites them to.
\<close>

section \<open>Resources\<close>

datatype RuleSetSource = Local | Remote string | Inline bytes

text \<open>Paths are their text, an interval is a number of seconds.\<close>

record RuleSetResource =
  rsr_tag :: string
  rsr_format :: string
  rsr_path :: string
  rsr_source :: RuleSetSource
  rsr_update_interval :: u64

record PendingPublication =
  pp_tag :: string
  pp_snapshot :: string
  pp_target :: string

record PreparedRuleSets =
  ps_digest :: bytes
  ps_path_replacements :: "(string \<times> string) list"
  ps_pending_publications :: "PendingPublication list"

section \<open>Rewriting references\<close>

definition is_rule_set_reference :: "(string \<times> json) list \<Rightarrow> bool" where
  "is_rule_set_reference entries \<longleftrightarrow>
     (case Option.bind (map_of entries ''format'') json_as_str of
        Some format \<Rightarrow> format = ''source'' \<or> format = ''binary''
      | None \<Rightarrow> False)"

text \<open>The path of a reference; a string is a leaf of the traversal that follows.\<close>

definition rewrite_path :: "(string \<times> string) list \<Rightarrow> (string \<times> json) list \<Rightarrow> (string \<times> json) list" where
  "rewrite_path replacements entries =
     (if is_rule_set_reference entries
      then (case Option.bind (Option.bind (map_of entries ''path'') json_as_str) (map_of replacements) of
              Some replacement \<Rightarrow> entry_update ''path'' (\<lambda>_. JString replacement) entries
            | None \<Rightarrow> entries)
      else entries)"

primrec rewrite_rule_set_paths :: "(string \<times> string) list \<Rightarrow> json \<Rightarrow> json" where
  "rewrite_rule_set_paths replacements JNull = JNull"
| "rewrite_rule_set_paths replacements (JBool b) = JBool b"
| "rewrite_rule_set_paths replacements (JNumber n) = JNumber n"
| "rewrite_rule_set_paths replacements (JString s) = JString s"
| "rewrite_rule_set_paths replacements (JArray vs) = JArray (map (rewrite_rule_set_paths replacements) vs)"
| "rewrite_rule_set_paths replacements (JObject entries) =
     JObject (rewrite_path replacements (map (map_prod id (rewrite_rule_set_paths replacements)) entries))"

definition rewrite_config :: "PreparedRuleSets \<Rightarrow> json \<Rightarrow> json" where
  "rewrite_config prepared = rewrite_rule_set_paths (ps_path_replacements prepared)"

end
