(* ===== verification/Runtime_Traffic.thy ===== *)
theory Runtime_Traffic
  imports Traffic User_Credentials "HOL-Library.Option_ord"
begin

text \<open>
  The traffic receipts of \<open>runtime.rs\<close>: the final counters of removed users wait in \<open>PendingTraffic\<close> until
  the next drain. Receipts are merged by accounting identity and observation hour; the identities are
  bounded, so a slot is reserved before a user is removed. A bucket holds exactly the saturated sum of
  the receipts merged into it, and the bound holds under every sequence of operations.
\<close>

section \<open>Receipts\<close>

text \<open>The derived order of the key compares its fields in their order.\<close>

datatype TrafficDrainKey =
  TrafficDrainKey (tdk_inbound_tag: string) (tdk_node_id: string) (tdk_protocol: string) (tdk_user_id: string)

definition key_fields :: "TrafficDrainKey \<Rightarrow> string \<times> string \<times> string \<times> string" where
  "key_fields k = (tdk_inbound_tag k, tdk_node_id k, tdk_protocol k, tdk_user_id k)"

lemma key_fields_inject [simp]: "key_fields k = key_fields k' \<longleftrightarrow> k = k'"
  by (auto simp: key_fields_def intro: TrafficDrainKey.expand)

instantiation TrafficDrainKey :: linorder
begin

definition less_eq_TrafficDrainKey :: "TrafficDrainKey \<Rightarrow> TrafficDrainKey \<Rightarrow> bool" where
  "less_eq_TrafficDrainKey k k' \<longleftrightarrow> key_fields k \<le> key_fields k'"

definition less_TrafficDrainKey :: "TrafficDrainKey \<Rightarrow> TrafficDrainKey \<Rightarrow> bool" where
  "less_TrafficDrainKey k k' \<longleftrightarrow> key_fields k < key_fields k'"

instance
  by standard (auto simp: less_eq_TrafficDrainKey_def less_TrafficDrainKey_def order.strict_iff_order)

end

definition drain_key :: "TrafficDrain \<Rightarrow> TrafficDrainKey" where
  "drain_key d = TrafficDrainKey (td_inbound_tag d) (td_node_id d) (td_protocol d) (td_user_id d)"

definition saturating_add :: "u64 \<Rightarrow> u64 \<Rightarrow> u64" where
  "saturating_add x y = (if unat x + unat y < 2 ^ 64 then x + y else -1)"

definition drain_hour :: "TrafficDrain \<Rightarrow> int option" where
  "drain_hour d = map_option (\<lambda>t. t div (60 * 60 * NANOS)) (td_observed_at d)"

definition later :: "system_time option \<Rightarrow> system_time option \<Rightarrow> system_time option" where
  "later x y = (case (x, y) of
     (Some left, Some right) \<Rightarrow> Some (max left right)
   | (left, right) \<Rightarrow> (case left of Some l \<Rightarrow> Some l | None \<Rightarrow> right))"

type_synonym TrafficDrainEntries = "(TrafficDrainKey \<times> (int option \<times> TrafficDrain) list) list"

definition merge_drain :: "TrafficDrain \<Rightarrow> TrafficDrain \<Rightarrow> TrafficDrain" where
  "merge_drain existing d = existing\<lparr>
     td_uplink_bytes := saturating_add (td_uplink_bytes existing) (td_uplink_bytes d),
     td_downlink_bytes := saturating_add (td_downlink_bytes existing) (td_downlink_bytes d),
     td_observed_at := later (td_observed_at existing) (td_observed_at d) \<rparr>"

definition no_bytes :: "TrafficDrain \<Rightarrow> bool" where
  "no_bytes d \<longleftrightarrow> td_uplink_bytes d = 0 \<and> td_downlink_bytes d = 0"

definition merge_traffic_entry :: "TrafficDrainEntries \<Rightarrow> TrafficDrain \<Rightarrow> TrafficDrainEntries" where
  "merge_traffic_entry entries d =
     (if no_bytes d then entries
      else
        let key = drain_key d; hour = drain_hour d;
            hours = (case map_of entries key of None \<Rightarrow> [] | Some hours \<Rightarrow> hours);
            hours' = (case map_of hours hour of
                Some existing \<Rightarrow> bt_insert hour (merge_drain existing d) hours
              | None \<Rightarrow> bt_insert hour d hours) in
        bt_insert key hours' entries)"

definition flatten_entries :: "TrafficDrainEntries \<Rightarrow> TrafficDrain list" where
  "flatten_entries entries = concat (map (\<lambda>(key, hours). map snd hours) entries)"

definition traffic_observed_at :: "UserInfo \<Rightarrow> system_time option" where
  "traffic_observed_at info =
     (if ui_last_traffic_observed_at_unix_millis info \<noteq> 0
      then Some (case checked_add 0 (int (unat (ui_last_traffic_observed_at_unix_millis info)) * 1000000) of
             Some t \<Rightarrow> t | None \<Rightarrow> 0)
      else None)"

section \<open>Pending traffic\<close>

record PendingTraffic =
  pd_entries :: TrafficDrainEntries
  pd_reserved :: "TrafficDrainKey set"
  pd_max_keys :: nat

definition MAX_PENDING_TRAFFIC_KEYS :: nat where "MAX_PENDING_TRAFFIC_KEYS = 65536"

definition pending_new :: "nat \<Rightarrow> PendingTraffic" where
  "pending_new max_keys = \<lparr> pd_entries = [], pd_reserved = {}, pd_max_keys = max_keys \<rparr>"

text \<open>Whether the caller owns a new reservation; an identity that already has entries needs none.\<close>

definition reserve :: "TrafficDrainKey \<Rightarrow> PendingTraffic \<Rightarrow> PendingTraffic \<times> (string + bool)" where
  "reserve key p =
     (if map_of (pd_entries p) key \<noteq> None then (p, Inr False)
      else if key \<in> pd_reserved p then
        (p, Inl (''traffic key for inbound '' @ tdk_inbound_tag key @ '' user '' @ tdk_user_id key @ '' is already reserved''))
      else if length (pd_entries p) + card (pd_reserved p) \<ge> pd_max_keys p then
        (p, Inl (''pending traffic key limit '' @ show_nat (pd_max_keys p) @
           '' is full; drain traffic before changing users or inbounds''))
      else (p\<lparr> pd_reserved := insert key (pd_reserved p) \<rparr>, Inr True))"

definition release :: "TrafficDrainKey \<Rightarrow> PendingTraffic \<Rightarrow> PendingTraffic" where
  "release key p = p\<lparr> pd_reserved := pd_reserved p - {key} \<rparr>"

text \<open>\<open>None\<close> is the panic of the assertion.\<close>

definition merge_reserved :: "TrafficDrain \<Rightarrow> bool \<Rightarrow> PendingTraffic \<Rightarrow> PendingTraffic option" where
  "merge_reserved d owns p =
     (let key = drain_key d in
      if owns \<and> key \<notin> pd_reserved p then None
      else
        let p1 = (if owns then p\<lparr> pd_reserved := pd_reserved p - {key} \<rparr> else p) in
        Some (if no_bytes d then p1 else p1\<lparr> pd_entries := merge_traffic_entry (pd_entries p1) d \<rparr>))"

definition pending_drain :: "PendingTraffic \<Rightarrow> PendingTraffic \<times> TrafficDrain list" where
  "pending_drain p = (p\<lparr> pd_entries := [] \<rparr>, flatten_entries (pd_entries p))"

record PendingTrafficReservation =
  rv_key :: TrafficDrainKey
  rv_owns :: bool

definition commit_reservation :: "PendingTrafficReservation \<Rightarrow> TrafficDrain \<Rightarrow> PendingTraffic \<Rightarrow> PendingTraffic option" where
  "commit_reservation rv d p = (if rv_key rv \<noteq> drain_key d then None else merge_reserved d (rv_owns rv) p)"

definition drop_reservation :: "PendingTrafficReservation \<Rightarrow> PendingTraffic \<Rightarrow> PendingTraffic" where
  "drop_reservation rv p = (if rv_owns rv then release (rv_key rv) p else p)"

section \<open>Buckets\<close>

text \<open>The receipt of one identity and hour, and the well-formed entries: both levels in key order, every
  receipt under its own identity and hour, no empty group, no empty receipt.\<close>

definition bucket :: "TrafficDrainEntries \<Rightarrow> TrafficDrainKey \<Rightarrow> int option \<Rightarrow> TrafficDrain option" where
  "bucket entries key hour = Option.bind (map_of entries key) (\<lambda>hours. map_of hours hour)"

definition entries_ok :: "TrafficDrainEntries \<Rightarrow> bool" where
  "entries_ok entries \<longleftrightarrow> bt_wf entries \<and>
     (\<forall>key hours. map_of entries key = Some hours \<longrightarrow> bt_wf hours \<and> hours \<noteq> [] \<and>
       (\<forall>hour d. map_of hours hour = Some d \<longrightarrow> drain_key d = key \<and> drain_hour d = hour \<and> \<not> no_bytes d))"

lemma saturating_add_unat: "unat (saturating_add x y) = min (2 ^ 64 - 1) (unat x + unat y)"
proof (cases "unat x + unat y < 2 ^ 64")
  case True
  then have "unat (x + y) = unat x + unat y" by (simp add: unat_plus_if')
  with True show ?thesis by (simp add: saturating_add_def)
next
  case False
  then show ?thesis by (simp add: saturating_add_def unsigned_minus_1_eq_mask mask_eq_exp_minus_1)
qed

lemma saturating_add_zero: "saturating_add x y = 0 \<longleftrightarrow> x = 0 \<and> y = 0"
proof -
  have "saturating_add x y = 0 \<longleftrightarrow> unat (saturating_add x y) = 0" by (simp add: unsigned_eq_0_iff)
  also have "\<dots> \<longleftrightarrow> x = 0 \<and> y = 0" unfolding saturating_add_unat by (auto simp: min_def unsigned_eq_0_iff)
  finally show ?thesis .
qed

lemma merge_drain_key [simp]: "drain_key (merge_drain e d) = drain_key e"
  by (simp add: merge_drain_def drain_key_def)

lemma merge_drain_hour:
  "drain_hour e = drain_hour d \<Longrightarrow> drain_hour (merge_drain e d) = drain_hour d"
  by (cases "td_observed_at e"; cases "td_observed_at d")
     (auto simp: merge_drain_def drain_hour_def later_def max_def)

lemma merge_drain_bytes: "\<not> no_bytes d \<Longrightarrow> \<not> no_bytes (merge_drain e d)"
  by (auto simp: no_bytes_def merge_drain_def saturating_add_zero)

lemma bucket_merge:
  "bucket (merge_traffic_entry entries d) key hour =
     (if \<not> no_bytes d \<and> key = drain_key d \<and> hour = drain_hour d
      then Some (case bucket entries key hour of None \<Rightarrow> d | Some e \<Rightarrow> merge_drain e d)
      else bucket entries key hour)"
  by (auto simp: merge_traffic_entry_def bucket_def Let_def split: option.splits)

lemma bt_insert_not_Nil [simp]: "bt_insert k v m \<noteq> []"
  by (cases "(k, v, m)" rule: bt_insert.cases) auto

lemma entries_ok_merge:
  assumes "entries_ok entries"
  shows "entries_ok (merge_traffic_entry entries d)"
proof (cases "no_bytes d")
  case True
  with assms show ?thesis by (simp add: merge_traffic_entry_def)
next
  case False
  define hours where "hours = (case map_of entries (drain_key d) of None \<Rightarrow> [] | Some hours \<Rightarrow> hours)"
  define merged where "merged = (case map_of hours (drain_hour d) of Some e \<Rightarrow> merge_drain e d | None \<Rightarrow> d)"
  have eq: "merge_traffic_entry entries d = bt_insert (drain_key d) (bt_insert (drain_hour d) merged hours) entries"
    using False by (simp add: merge_traffic_entry_def hours_def merged_def Let_def split: option.splits)
  have hours: "bt_wf hours \<and> (\<forall>hour x. map_of hours hour = Some x \<longrightarrow>
      drain_key x = drain_key d \<and> drain_hour x = hour \<and> \<not> no_bytes x)"
    using assms by (auto simp: hours_def entries_ok_def split: option.splits)
  have merged: "drain_key merged = drain_key d" "drain_hour merged = drain_hour d" "\<not> no_bytes merged"
    using hours False by (auto simp: merged_def merge_drain_hour merge_drain_bytes split: option.splits)
  show ?thesis
    using assms hours merged unfolding eq by (auto simp: entries_ok_def)
qed

text \<open>The bytes of a bucket are the saturated sums over the receipts it took.\<close>

definition receipts :: "TrafficDrain list \<Rightarrow> TrafficDrainKey \<Rightarrow> int option \<Rightarrow> TrafficDrain list" where
  "receipts ds key hour = filter (\<lambda>d. \<not> no_bytes d \<and> drain_key d = key \<and> drain_hour d = hour) ds"

definition bytes_summed :: "TrafficDrain list \<Rightarrow> TrafficDrain \<Rightarrow> bool" where
  "bytes_summed ds b \<longleftrightarrow>
     unat (td_uplink_bytes b) = min (2 ^ 64 - 1) (sum_list (map (\<lambda>d. unat (td_uplink_bytes d)) ds)) \<and>
     unat (td_downlink_bytes b) = min (2 ^ 64 - 1) (sum_list (map (\<lambda>d. unat (td_downlink_bytes d)) ds))"

lemma receipts_snoc:
  "receipts (ds @ [d]) key hour =
     receipts ds key hour @ (if \<not> no_bytes d \<and> drain_key d = key \<and> drain_hour d = hour then [d] else [])"
  by (simp add: receipts_def)

lemma bytes_summed_single: "bytes_summed [d] d"
  using unat_u64_less [of "td_uplink_bytes d"] unat_u64_less [of "td_downlink_bytes d"]
  by (simp add: bytes_summed_def min_def)

lemma bytes_summed_merge: "bytes_summed ds b \<Longrightarrow> bytes_summed (ds @ [d]) (merge_drain b d)"
  by (auto simp: bytes_summed_def merge_drain_def saturating_add_unat)

lemma bucket_summed:
  "case bucket (foldl merge_traffic_entry [] ds) key hour of
     None \<Rightarrow> receipts ds key hour = []
   | Some b \<Rightarrow> receipts ds key hour \<noteq> [] \<and> bytes_summed (receipts ds key hour) b \<and> drain_key b = key \<and> drain_hour b = hour"
proof (induction ds rule: rev_induct)
  case Nil
  show ?case by (simp add: bucket_def receipts_def)
next
  case (snoc d ds)
  then show ?case
    by (auto simp: bucket_merge receipts_snoc bytes_summed_single bytes_summed_merge merge_drain_hour
        split: option.splits)
qed

lemma entries_ok_fold: "entries_ok entries \<Longrightarrow> entries_ok (foldl merge_traffic_entry entries ds)"
  by (induction ds arbitrary: entries) (simp_all add: entries_ok_merge)

lemma entries_ok_Nil [simp]: "entries_ok []"
  by (simp add: entries_ok_def)

lemma in_flatten:
  assumes "entries_ok entries"
  shows "b \<in> set (flatten_entries entries) \<longleftrightarrow> bucket entries (drain_key b) (drain_hour b) = Some b"
proof
  assume "b \<in> set (flatten_entries entries)"
  then obtain key hours hour where "(key, hours) \<in> set entries" "(hour, b) \<in> set hours"
    by (auto simp: flatten_entries_def)
  moreover from this assms have "map_of entries key = Some hours" by (auto simp: entries_ok_def bt_wf_entry)
  moreover from this calculation assms have "map_of hours hour = Some b" by (auto simp: entries_ok_def bt_wf_entry)
  ultimately show "bucket entries (drain_key b) (drain_hour b) = Some b"
    using assms by (auto simp: entries_ok_def bucket_def)
next
  assume "bucket entries (drain_key b) (drain_hour b) = Some b"
  then obtain hours where "map_of entries (drain_key b) = Some hours" "map_of hours (drain_hour b) = Some b"
    by (auto simp: bucket_def bind_eq_Some_conv)
  from this [THEN map_of_SomeD] show "b \<in> set (flatten_entries entries)"
    by (force simp: flatten_entries_def)
qed

section \<open>The bound\<close>

text \<open>The protocol of the runtime: a slot is reserved, then its receipt is committed or the reservation is
  dropped; a drain runs when no reservation is held, because both hold the apply lock. The last
  argument lists the receipts committed since the last drain.\<close>

inductive pending_reach :: "nat \<Rightarrow> PendingTraffic \<Rightarrow> PendingTrafficReservation option \<Rightarrow> TrafficDrain list \<Rightarrow> bool"
  for max_keys where
  fresh: "pending_reach max_keys (pending_new max_keys) None []"
| reserved: "pending_reach max_keys p None ds \<Longrightarrow> reserve key p = (p', Inr owns) \<Longrightarrow>
    pending_reach max_keys p' (Some \<lparr> rv_key = key, rv_owns = owns \<rparr>) ds"
| committed: "pending_reach max_keys p (Some rv) ds \<Longrightarrow> commit_reservation rv d p = Some p' \<Longrightarrow>
    pending_reach max_keys p' None (ds @ [d])"
| dropped: "pending_reach max_keys p (Some rv) ds \<Longrightarrow> pending_reach max_keys (drop_reservation rv p) None ds"
| drained: "pending_reach max_keys p None ds \<Longrightarrow> pending_reach max_keys (fst (pending_drain p)) None []"

definition reservation_held :: "PendingTraffic \<Rightarrow> PendingTrafficReservation option \<Rightarrow> bool" where
  "reservation_held p held \<longleftrightarrow>
     (case held of
        None \<Rightarrow> pd_reserved p = {}
      | Some rv \<Rightarrow> if rv_owns rv then pd_reserved p = {rv_key rv} \<and> map_of (pd_entries p) (rv_key rv) = None
          else pd_reserved p = {} \<and> map_of (pd_entries p) (rv_key rv) \<noteq> None)"

definition pending_ok :: "PendingTraffic \<Rightarrow> PendingTrafficReservation option \<Rightarrow> bool" where
  "pending_ok p held \<longleftrightarrow> entries_ok (pd_entries p) \<and> reservation_held p held \<and>
     length (pd_entries p) + card (pd_reserved p) \<le> pd_max_keys p"

lemma length_bt_insert:
  "bt_wf m \<Longrightarrow> length (bt_insert k v m) = (if map_of m k = None then Suc (length m) else length m)"
proof (induction k v m rule: bt_insert.induct)
  case (2 k v k' v' m)
  have wf: "bt_wf m" and below: "\<forall>x \<in> fst ` set m. k' < x" using 2(2) by (auto simp: bt_wf_def)
  have "map_of m k = None" if "k \<le> k'"
    using below that by (fastforce simp: map_of_eq_None_iff)
  with 2(1) [OF _ _ wf] show ?case by auto
qed (simp add: bt_wf_def)

lemma length_merge:
  assumes "entries_ok entries"
  shows "length (merge_traffic_entry entries d) \<le>
    (if map_of entries (drain_key d) = None then Suc (length entries) else length entries)"
  using assms by (simp add: merge_traffic_entry_def Let_def length_bt_insert entries_ok_def)

lemma pending_ok_reserve:
  "pending_ok p None \<Longrightarrow> reserve key p = (p', Inr owns) \<Longrightarrow>
     pending_ok p' (Some \<lparr> rv_key = key, rv_owns = owns \<rparr>) \<and> pd_max_keys p' = pd_max_keys p"
  by (auto simp: reserve_def pending_ok_def reservation_held_def split: if_splits)

lemma pending_ok_commit:
  assumes "pending_ok p (Some rv)" and "drain_key d = rv_key rv"
  obtains p' where "commit_reservation rv d p = Some p'" "pending_ok p' None" "pd_max_keys p' = pd_max_keys p"
    "pd_entries p' = merge_traffic_entry (pd_entries p) d"
proof -
  define p' where "p' = p\<lparr> pd_reserved := {}, pd_entries := merge_traffic_entry (pd_entries p) d \<rparr>"
  have "commit_reservation rv d p = Some p'"
    using assms by (cases p; cases "rv_owns rv")
      (auto simp: commit_reservation_def merge_reserved_def pending_ok_def reservation_held_def p'_def Let_def
        merge_traffic_entry_def)
  moreover have "pending_ok p' None"
    using assms length_merge [of "pd_entries p" d]
    by (auto simp: pending_ok_def reservation_held_def p'_def entries_ok_merge split: if_splits)
  ultimately show thesis by (intro that [of p']) (simp_all add: p'_def)
qed

lemma pending_ok_drop:
  "pending_ok p (Some rv) \<Longrightarrow> pending_ok (drop_reservation rv p) None \<and>
     pd_max_keys (drop_reservation rv p) = pd_max_keys p \<and> pd_entries (drop_reservation rv p) = pd_entries p"
  by (auto simp: pending_ok_def reservation_held_def drop_reservation_def release_def split: if_splits)

lemma pending_ok_drain:
  "pending_ok p None \<Longrightarrow> pending_ok (fst (pending_drain p)) None \<and>
     pd_max_keys (fst (pending_drain p)) = pd_max_keys p \<and> pd_entries (fst (pending_drain p)) = []"
  by (simp add: pending_ok_def reservation_held_def pending_drain_def)

lemma reserve_entries: "reserve key p = (p', r) \<Longrightarrow> pd_entries p' = pd_entries p"
  by (auto simp: reserve_def split: if_splits)

lemma pending_reach_ok:
  "pending_reach n p held ds \<Longrightarrow>
     pending_ok p held \<and> pd_max_keys p = n \<and> pd_entries p = foldl merge_traffic_entry [] ds"
proof (induction rule: pending_reach.induct)
  case fresh
  show ?case by (simp add: pending_ok_def reservation_held_def pending_new_def)
next
  case (reserved p ds key p' owns)
  then show ?case using pending_ok_reserve reserve_entries by metis
next
  case (committed p rv ds d p')
  then have "drain_key d = rv_key rv" by (auto simp: commit_reservation_def split: if_splits)
  with committed obtain p'' where "commit_reservation rv d p = Some p''" "pending_ok p'' None"
    "pd_max_keys p'' = pd_max_keys p" "pd_entries p'' = merge_traffic_entry (pd_entries p) d"
    by (metis pending_ok_commit)
  with committed show ?case by simp
next
  case (dropped p rv ds)
  then show ?case using pending_ok_drop by simp
next
  case (drained p ds)
  then show ?case using pending_ok_drain by simp
qed

lemma distinct_flatten:
  assumes "entries_ok entries"
  shows "distinct (map (\<lambda>b. (drain_key b, drain_hour b)) (flatten_entries entries))"
  using assms
proof (induction entries)
  case Nil
  show ?case by (simp add: flatten_entries_def)
next
  case (Cons e entries)
  obtain key hours where e: "e = (key, hours)" by (cases e)
  from Cons.prems e have wf: "bt_wf (e # entries)" "bt_wf hours"
    and own: "\<And>hour d. map_of hours hour = Some d \<Longrightarrow> drain_key d = key \<and> drain_hour d = hour"
    by (auto simp: entries_ok_def split: if_splits)
  have fresh: "map_of entries key = None"
    using wf(1) e by (force simp: bt_wf_def map_of_eq_None_iff)
  have "map_of (e # entries) k = Some h" if "map_of entries k = Some h" for k h
    using fresh e that by auto
  moreover have "bt_wf entries" using wf(1) by (simp add: bt_wf_def)
  ultimately have ok: "entries_ok entries"
    using Cons.prems unfolding entries_ok_def by blast
  have own': "drain_key d = key \<and> drain_hour d = hour" if "(hour, d) \<in> set hours" for hour d
    using own that wf(2) by (simp add: bt_wf_entry)
  then have "map (\<lambda>b. (drain_key b, drain_hour b)) (map snd hours) = map (Pair key) (map fst hours)"
    by (auto simp: comp_def)
  moreover have "distinct (map fst hours)" using wf(2) by (rule bt_wf_distinct)
  ultimately have "distinct (map (\<lambda>b. (drain_key b, drain_hour b)) (map snd hours))"
    by (simp add: distinct_map inj_on_def)
  moreover have "drain_key b \<noteq> key" if "b \<in> set (flatten_entries entries)" for b
    using that fresh in_flatten [OF ok] by (auto simp: bucket_def bind_eq_Some_conv)
  ultimately show ?case
    using Cons.IH [OF ok] own' by (fastforce simp: flatten_entries_def e)
qed

text \<open>C35 (every receipt is drained once): in every state of the pending traffic that reservations, commits,
  drops and drains can reach, the bound on identities holds and the assertion of a commit cannot
  fail. A drain returns exactly one report for every identity and hour that took a receipt with bytes
  since the last drain, with the sums of those receipts, saturated at the largest \<open>u64\<close>.\<close>

theorem receipts_drained_once:
  assumes "pending_reach n p held ds"
  shows "length (pd_entries p) + card (pd_reserved p) \<le> n \<and>
    (\<forall>rv d. held = Some rv \<and> drain_key d = rv_key rv \<longrightarrow> commit_reservation rv d p \<noteq> None) \<and>
    distinct (map (\<lambda>b. (drain_key b, drain_hour b)) (snd (pending_drain p))) \<and>
    (\<forall>b \<in> set (snd (pending_drain p)). bytes_summed (receipts ds (drain_key b) (drain_hour b)) b) \<and>
    (\<lambda>b. (drain_key b, drain_hour b)) ` set (snd (pending_drain p)) =
      (\<lambda>d. (drain_key d, drain_hour d)) ` {d \<in> set ds. \<not> no_bytes d}"
proof -
  note reach = pending_reach_ok [OF assms]
  have ok: "entries_ok (pd_entries p)" using reach unfolding pending_ok_def by blast
  have summed: "bytes_summed (receipts ds (drain_key b) (drain_hour b)) b \<and>
      receipts ds (drain_key b) (drain_hour b) \<noteq> []"
    if "b \<in> set (snd (pending_drain p))" for b
    using that in_flatten [OF ok] bucket_summed [of ds "drain_key b" "drain_hour b"] reach
    by (simp add: pending_drain_def)
  have covered: "(drain_key d, drain_hour d) \<in> (\<lambda>b. (drain_key b, drain_hour b)) ` set (snd (pending_drain p))"
    if "d \<in> set ds" "\<not> no_bytes d" for d
  proof -
    from that have "receipts ds (drain_key d) (drain_hour d) \<noteq> []" by (auto simp: receipts_def filter_empty_conv)
    with bucket_summed [of ds "drain_key d" "drain_hour d"] reach obtain b where
      "bucket (pd_entries p) (drain_key d) (drain_hour d) = Some b" "drain_key b = drain_key d" "drain_hour b = drain_hour d"
      by (auto split: option.splits)
    then have "b \<in> set (snd (pending_drain p))" "(drain_key d, drain_hour d) = (drain_key b, drain_hour b)"
      using in_flatten [OF ok, of b] by (simp_all add: pending_drain_def)
    then show ?thesis by (metis (no_types, lifting) image_eqI)
  qed
  have "commit_reservation rv d p \<noteq> None" if "held = Some rv" "drain_key d = rv_key rv" for rv d
    using reach that by (metis option.distinct(1) pending_ok_commit)
  moreover have "(drain_key b, drain_hour b) \<in> (\<lambda>d. (drain_key d, drain_hour d)) ` {d \<in> set ds. \<not> no_bytes d}"
    if b: "b \<in> set (snd (pending_drain p))" for b
  proof -
    from summed [OF b] obtain d where "d \<in> set (receipts ds (drain_key b) (drain_hour b))"
      by (meson list.set_sel(1))
    then have "d \<in> {d \<in> set ds. \<not> no_bytes d}" "(drain_key b, drain_hour b) = (drain_key d, drain_hour d)"
      by (auto simp: receipts_def)
    then show ?thesis by (metis (no_types, lifting) image_eqI)
  qed
  ultimately show ?thesis
    using reach summed covered distinct_flatten [OF ok] by (auto simp: pending_ok_def pending_drain_def)
qed

definition ex_receipt :: "u64 \<Rightarrow> TrafficDrain" where
  "ex_receipt up = \<lparr> td_inbound_tag = ''in'', td_node_id = ''n'', td_protocol = ''vless'', td_user_id = ''u'',
     td_uplink_bytes = up, td_downlink_bytes = 1, td_observed_at = Some 5 \<rparr>"

theorem receipts_drained_once_witness:
  "bytes_summed [ex_receipt 7] (ex_receipt 7) \<and>
   snd (pending_drain \<lparr> pd_entries = [(drain_key (ex_receipt 7), [(Some 0, ex_receipt 7)])], pd_reserved = {}, pd_max_keys = 4 \<rparr>) =
     [ex_receipt 7]"
proof -
  define p where "p = \<lparr> pd_entries = [(drain_key (ex_receipt 7), [(Some 0, ex_receipt 7)])], pd_reserved = {}, pd_max_keys = 4 \<rparr>"
  have "pending_reach 4 p None ([] @ [ex_receipt 7])"
  proof (rule pending_reach.committed)
    show "pending_reach 4 \<lparr> pd_entries = [], pd_reserved = {drain_key (ex_receipt 7)}, pd_max_keys = 4 \<rparr>
        (Some \<lparr> rv_key = drain_key (ex_receipt 7), rv_owns = True \<rparr>) []"
      by (rule pending_reach.reserved [OF pending_reach.fresh]) (simp add: reserve_def pending_new_def)
  qed (simp add: p_def commit_reservation_def merge_reserved_def merge_traffic_entry_def no_bytes_def drain_hour_def
      ex_receipt_def NANOS_def)
  from receipts_drained_once [OF this] show ?thesis
    by (simp add: p_def pending_drain_def flatten_entries_def receipts_def no_bytes_def ex_receipt_def
        drain_hour_def NANOS_def)
qed

end
