(* ===== verification/Runtime_Config.thy ===== *)
theory Runtime_Config
  imports Rule_Set User_Credentials Runtime_Traffic
begin

text \<open>
  The candidate configurations of \<open>runtime.rs\<close>: compiled inbounds with their users, their normal form by tag
  and user id, and the difference of two normal forms that a transaction executes. \<open>InboundSpec\<close> and
  \<open>InboundInfo\<close> are the types of \<open>shoes-api/src/lib.rs\<close>. The YAML reader and printer are parameters.
\<close>

section \<open>Types\<close>

record InboundSpec =
  is_tag :: string
  is_config :: json
  is_users :: "UserSpec list option"

record InboundInfo =
  ii_tag :: string
  ii_protocol :: string
  ii_transport :: string
  ii_bind :: "string list"
  ii_listeners :: nat
  ii_revision :: u64
  ii_users :: "nat option"

record CompiledInbound =
  ci_node_id :: string
  ci_protocol :: string
  ci_spec :: InboundSpec

record RuntimeConfig =
  rc_inbounds :: "CompiledInbound list"
  rc_rule_sets :: "RuleSetResource list"
  rc_diagnostic_yaml :: bytes
  rc_dns_client_fingerprint :: bytes
  rc_urltest_probe_dns :: "json option"

record NormalizedInbound =
  nb_compiled :: CompiledInbound
  nb_users :: "(string \<times> UserSpec) list"
  nb_dynamic_users :: bool

record NormalizedConfig =
  nz_inbounds :: "(string \<times> NormalizedInbound) list"
  nz_rule_set_digest :: bytes
  nz_dns_client_fingerprint :: bytes
  nz_urltest_probe_dns :: "json option"
  nz_diagnostic_yaml :: bytes

definition zero_digest :: bytes where "zero_digest = replicate 32 0"

definition NormalizedConfig_default :: NormalizedConfig where
  "NormalizedConfig_default =
     \<lparr> nz_inbounds = [], nz_rule_set_digest = zero_digest, nz_dns_client_fingerprint = zero_digest,
       nz_urltest_probe_dns = None, nz_diagnostic_yaml = [] \<rparr>"

abbreviation nb_spec :: "NormalizedInbound \<Rightarrow> InboundSpec" where
  "nb_spec inbound \<equiv> ci_spec (nb_compiled inbound)"

abbreviation nb_tag :: "NormalizedInbound \<Rightarrow> string" where
  "nb_tag inbound \<equiv> is_tag (nb_spec inbound)"

section \<open>Local policy\<close>

text \<open>\<open>disable_runtime_sniff\<close>: both branches of the source leave the key set to \<open>false\<close>.\<close>

definition sniff_off :: "CompiledInbound \<Rightarrow> CompiledInbound" where
  "sniff_off inbound =
     inbound\<lparr> ci_spec := (ci_spec inbound)\<lparr> is_config := json_insert ''sniff'' (JBool False) (is_config (ci_spec inbound)) \<rparr> \<rparr>"

definition diagnostic_sniff_off :: "yaml \<Rightarrow> yaml" where
  "diagnostic_sniff_off =
     yaml_update_key ''inbounds'' (yaml_update_sequence (map
       (yaml_update_key ''config'' (yaml_update_mapping (yaml_set_key ''sniff'' (YBool False))))))"

record yaml_api =
  ya_from_slice :: "bytes \<Rightarrow> string + yaml"
  ya_to_string :: "yaml \<Rightarrow> string + bytes"

definition disable_runtime_sniff :: "yaml_api \<Rightarrow> RuntimeConfig \<Rightarrow> string + RuntimeConfig" where
  "disable_runtime_sniff ya config =
     (let config = config\<lparr> rc_inbounds := map sniff_off (rc_inbounds config) \<rparr> in
      if rc_diagnostic_yaml config = [] then Inr config
      else rbind (rmap_err (\<lambda>e. ''decode diagnostic YAML: '' @ e) (ya_from_slice ya (rc_diagnostic_yaml config))) (\<lambda>diagnostic.
        if diagnostic_sniff_off diagnostic \<noteq> diagnostic
        then rbind (rmap_err (\<lambda>e. ''encode diagnostic YAML: '' @ e) (ya_to_string ya (diagnostic_sniff_off diagnostic)))
          (\<lambda>yaml. Inr (config\<lparr> rc_diagnostic_yaml := yaml \<rparr>))
        else Inr config))"

section \<open>Normal form\<close>

fun normalize_users :: "string \<Rightarrow> UserSpec list \<Rightarrow> (string \<times> UserSpec) list \<Rightarrow> string + (string \<times> UserSpec) list" where
  "normalize_users tag [] users = Inr users"
| "normalize_users tag (user # specs) users =
     (case resolved_id user of
        None \<Rightarrow> Inl (''inbound '' @ tag @ '' contains a user with no id'')
      | Some uid \<Rightarrow>
          if trim uid = [] then Inl (''inbound '' @ tag @ '' contains a user with no id'')
          else if map_of users uid \<noteq> None then Inl (''inbound '' @ tag @ '' lists user '' @ uid @ '' twice'')
          else normalize_users tag specs (bt_insert uid user users))"

definition normalize_inbound :: "CompiledInbound \<Rightarrow> string + NormalizedInbound" where
  "normalize_inbound compiled =
     (let tag = trim (is_tag (ci_spec compiled)) in
      if tag = [] then Inl ''inbound tag is required''
      else if trim (ci_node_id compiled) = [] then Inl (''inbound '' @ tag @ '' has no node_id'')
      else if trim (ci_protocol compiled) = [] then Inl (''inbound '' @ tag @ '' has no protocol label'')
      else
        let compiled = compiled\<lparr> ci_spec := (ci_spec compiled)\<lparr> is_tag := tag \<rparr> \<rparr> in
        rbind (case is_users (ci_spec compiled) of None \<Rightarrow> Inr [] | Some specs \<Rightarrow> normalize_users tag specs []) (\<lambda>users.
        Inr \<lparr> nb_compiled = compiled, nb_users = users, nb_dynamic_users = (is_users (ci_spec compiled) \<noteq> None) \<rparr>))"

fun normalize_inbounds :: "CompiledInbound list \<Rightarrow> (string \<times> NormalizedInbound) list \<Rightarrow> string + (string \<times> NormalizedInbound) list" where
  "normalize_inbounds [] inbounds = Inr inbounds"
| "normalize_inbounds (compiled # rest) inbounds =
     rbind (normalize_inbound compiled) (\<lambda>normalized.
     if map_of inbounds (nb_tag normalized) \<noteq> None
     then Inl (''inbound tag '' @ nb_tag normalized @ '' is listed twice'')
     else normalize_inbounds rest (bt_insert (nb_tag normalized) normalized inbounds))"

definition normalize :: "RuntimeConfig \<Rightarrow> string + NormalizedConfig" where
  "normalize config =
     rbind (normalize_inbounds (rc_inbounds config) []) (\<lambda>inbounds.
     Inr \<lparr> nz_inbounds = inbounds, nz_rule_set_digest = zero_digest,
           nz_dns_client_fingerprint = rc_dns_client_fingerprint config,
           nz_urltest_probe_dns = rc_urltest_probe_dns config, nz_diagnostic_yaml = rc_diagnostic_yaml config \<rparr>)"

section \<open>Differences\<close>

record UserDelta =
  ud_id :: string
  ud_added :: bool
  ud_credential_changed :: bool

record InboundDelta =
  dl_tag :: string
  dl_config_changed :: bool
  dl_user_mode_changed :: bool
  dl_removed_users :: "string list"
  dl_upsert_users :: "UserDelta list"

record ConfigDiff =
  df_removed :: "string list"
  df_added :: "string list"
  df_changed :: "InboundDelta list"

definition same_user :: "UserSpec \<Rightarrow> UserSpec \<Rightarrow> bool" where
  "same_user l r \<longleftrightarrow> us_id l = us_id r \<and> us_uuid l = us_uuid r \<and> us_password l = us_password r \<and> us_enabled l = us_enabled r \<and>
     us_max_conns l = us_max_conns r \<and> us_upload_limit_bps l = us_upload_limit_bps r \<and>
     us_download_limit_bps l = us_download_limit_bps r"

definition credential_changed :: "UserSpec \<Rightarrow> UserSpec \<Rightarrow> bool" where
  "credential_changed l r \<longleftrightarrow> us_uuid l \<noteq> us_uuid r \<or> us_password l \<noteq> us_password r"

definition user_delta :: "(string \<times> UserSpec) list \<Rightarrow> string \<times> UserSpec \<Rightarrow> UserDelta option" where
  "user_delta before entry =
     (case map_of before (fst entry) of
        None \<Rightarrow> Some \<lparr> ud_id = fst entry, ud_added = True, ud_credential_changed = False \<rparr>
      | Some old \<Rightarrow>
          if \<not> same_user old (snd entry)
          then Some \<lparr> ud_id = fst entry, ud_added = False, ud_credential_changed = credential_changed old (snd entry) \<rparr>
          else None)"

definition inbound_delta :: "bool \<Rightarrow> string \<Rightarrow> NormalizedInbound \<Rightarrow> NormalizedInbound \<Rightarrow> InboundDelta" where
  "inbound_delta rule_sets_changed tag before after =
     \<lparr> dl_tag = tag,
       dl_config_changed = (rule_sets_changed \<or> is_config (nb_spec before) \<noteq> is_config (nb_spec after)),
       dl_user_mode_changed = (nb_dynamic_users before \<noteq> nb_dynamic_users after),
       dl_removed_users = filter (\<lambda>uid. map_of (nb_users after) uid = None) (map fst (nb_users before)),
       dl_upsert_users = List.map_filter (user_delta (nb_users before)) (nb_users after) \<rparr>"

definition delta_nonempty :: "InboundDelta \<Rightarrow> bool" where
  "delta_nonempty d \<longleftrightarrow> dl_config_changed d \<or> dl_user_mode_changed d \<or> dl_removed_users d \<noteq> [] \<or> dl_upsert_users d \<noteq> []"

definition changed_delta :: "NormalizedConfig \<Rightarrow> NormalizedConfig \<Rightarrow> string \<times> NormalizedInbound \<Rightarrow> InboundDelta option" where
  "changed_delta current desired entry =
     (case map_of (nz_inbounds desired) (fst entry) of
        None \<Rightarrow> None
      | Some after \<Rightarrow>
          let d = inbound_delta (nz_rule_set_digest current \<noteq> nz_rule_set_digest desired) (fst entry) (snd entry) after in
          if delta_nonempty d then Some d else None)"

definition diff_configs :: "NormalizedConfig \<Rightarrow> NormalizedConfig \<Rightarrow> ConfigDiff" where
  "diff_configs current desired =
     \<lparr> df_removed = filter (\<lambda>tag. map_of (nz_inbounds desired) tag = None) (map fst (nz_inbounds current)),
       df_added = filter (\<lambda>tag. map_of (nz_inbounds current) tag = None) (map fst (nz_inbounds desired)),
       df_changed = List.map_filter (changed_delta current desired) (nz_inbounds current) \<rparr>"

definition update_spec :: "NormalizedInbound \<Rightarrow> InboundSpec" where
  "update_spec inbound = \<lparr> is_tag = nb_tag inbound, is_config = is_config (nb_spec inbound), is_users = None \<rparr>"

definition traffic_drain :: "NormalizedInbound \<Rightarrow> UserInfo \<Rightarrow> TrafficDrain" where
  "traffic_drain inbound info =
     \<lparr> td_inbound_tag = nb_tag inbound, td_node_id = ci_node_id (nb_compiled inbound),
       td_protocol = ci_protocol (nb_compiled inbound), td_user_id = ui_id info, td_uplink_bytes = ui_rx info,
       td_downlink_bytes = ui_tx info, td_observed_at = traffic_observed_at info \<rparr>"

definition traffic_key :: "NormalizedInbound \<Rightarrow> string \<Rightarrow> TrafficDrainKey" where
  "traffic_key inbound user_id =
     TrafficDrainKey (nb_tag inbound) (ci_node_id (nb_compiled inbound)) (ci_protocol (nb_compiled inbound)) user_id"

definition uncommitted_accounting_owner :: "NormalizedInbound option \<Rightarrow> NormalizedInbound \<Rightarrow> NormalizedInbound" where
  "uncommitted_accounting_owner published candidate =
     (case published of
        Some inbound \<Rightarrow> inbound
      | None \<Rightarrow> candidate\<lparr> nb_compiled := (nb_compiled candidate)\<lparr> ci_node_id := nb_tag candidate \<rparr> \<rparr>)"

section \<open>Well-formed normal forms\<close>

definition ids_of :: "UserSpec list \<Rightarrow> string list" where
  "ids_of specs = map (\<lambda>u. the (resolved_id u)) specs"

definition inbound_wf :: "NormalizedInbound \<Rightarrow> bool" where
  "inbound_wf inbound \<longleftrightarrow>
     bt_wf (nb_users inbound) \<and> (\<forall>uid user. map_of (nb_users inbound) uid = Some user \<longrightarrow> resolved_id user = Some uid) \<and>
     (case is_users (nb_spec inbound) of
        None \<Rightarrow> \<not> nb_dynamic_users inbound \<and> nb_users inbound = []
      | Some specs \<Rightarrow> nb_dynamic_users inbound \<and> distinct (ids_of specs) \<and>
          map_of (nb_users inbound) = map_of (zip (ids_of specs) specs))"

definition config_wf :: "NormalizedConfig \<Rightarrow> bool" where
  "config_wf config \<longleftrightarrow> bt_wf (nz_inbounds config) \<and>
     (\<forall>tag inbound. map_of (nz_inbounds config) tag = Some inbound \<longrightarrow> nb_tag inbound = tag \<and> inbound_wf inbound)"

lemma config_wf_default [simp]: "config_wf NormalizedConfig_default"
  by (simp add: config_wf_def NormalizedConfig_default_def)

lemma config_wfD:
  assumes "config_wf config"
  shows "bt_wf (nz_inbounds config)"
    and "map_of (nz_inbounds config) tag = Some inbound \<Longrightarrow> nb_tag inbound = tag"
    and "map_of (nz_inbounds config) tag = Some inbound \<Longrightarrow> inbound_wf inbound"
    and "distinct (map fst (nz_inbounds config))"
  using assms by (auto simp: config_wf_def bt_wf_distinct)

lemma ids_of_simps [simp]: "ids_of [] = []" "ids_of (u # us) = the (resolved_id u) # ids_of us" "length (ids_of us) = length us"
  by (simp_all add: ids_of_def)

lemma normalize_users_spec:
  assumes "normalize_users tag specs users = Inr users'" and "bt_wf users"
    and "\<forall>uid user. map_of users uid = Some user \<longrightarrow> resolved_id user = Some uid"
  shows "bt_wf users' \<and> (\<forall>uid user. map_of users' uid = Some user \<longrightarrow> resolved_id user = Some uid) \<and>
    distinct (ids_of specs) \<and> set (ids_of specs) \<inter> dom (map_of users) = {} \<and>
    map_of users' = map_of users ++ map_of (zip (ids_of specs) specs)"
  using assms
proof (induction tag specs users rule: normalize_users.induct)
  case (2 tag user specs users)
  from 2(2) obtain uid where uid: "resolved_id user = Some uid" "trim uid \<noteq> []" "map_of users uid = None"
    "normalize_users tag specs (bt_insert uid user users) = Inr users'"
    by (auto split: option.splits if_splits)
  have wf: "\<forall>u x. map_of (bt_insert uid user users) u = Some x \<longrightarrow> resolved_id x = Some u"
    using uid(1) 2(4) by simp
  have "bt_wf users' \<and> (\<forall>uid user. map_of users' uid = Some user \<longrightarrow> resolved_id user = Some uid) \<and>
     distinct (ids_of specs) \<and> set (ids_of specs) \<inter> dom (map_of (bt_insert uid user users)) = {} \<and>
     map_of users' = map_of (bt_insert uid user users) ++ map_of (zip (ids_of specs) specs)"
    using 2(1) [OF uid(1,2) _ uid(4) bt_wf_insert [OF 2(3)] wf] uid(3) by blast
  moreover from this have "uid \<notin> set (ids_of specs)" by auto
  moreover from this have "uid \<notin> dom (map_of (zip (ids_of specs) specs))" by simp
  moreover have "ids_of (user # specs) = uid # ids_of specs" using uid(1) by simp
  ultimately show ?case using uid(3) by (simp add: map_add_upd_left domIff) (simp add: fun_eq_iff map_add_def)
qed simp

lemma normalize_inbound_Inr:
  assumes "normalize_inbound compiled = Inr inbound"
  obtains users where "nb_spec inbound = (ci_spec compiled)\<lparr> is_tag := trim (is_tag (ci_spec compiled)) \<rparr>"
    "ci_node_id (nb_compiled inbound) = ci_node_id compiled" "ci_protocol (nb_compiled inbound) = ci_protocol compiled"
    "(case is_users (ci_spec compiled) of None \<Rightarrow> Inr [] | Some specs \<Rightarrow> normalize_users (trim (is_tag (ci_spec compiled))) specs []) = Inr users"
    "nb_users inbound = users" "nb_dynamic_users inbound \<longleftrightarrow> is_users (ci_spec compiled) \<noteq> None"
  using assms by (auto simp: normalize_inbound_def Let_def rbind_Inr_iff split: if_splits)

lemma normalize_inbound_wf:
  assumes "normalize_inbound compiled = Inr inbound"
  shows "inbound_wf inbound"
  using assms
proof (rule normalize_inbound_Inr)
  fix users
  assume spec: "nb_spec inbound = (ci_spec compiled)\<lparr> is_tag := trim (is_tag (ci_spec compiled)) \<rparr>"
    and users: "(case is_users (ci_spec compiled) of None \<Rightarrow> Inr [] | Some specs \<Rightarrow>
      normalize_users (trim (is_tag (ci_spec compiled))) specs []) = Inr users"
    and rest: "nb_users inbound = users" "nb_dynamic_users inbound \<longleftrightarrow> is_users (ci_spec compiled) \<noteq> None"
  show ?thesis
  proof (cases "is_users (ci_spec compiled)")
    case None
    with spec users rest show ?thesis by (simp add: inbound_wf_def)
  next
    case (Some specs)
    with users have "normalize_users (trim (is_tag (ci_spec compiled))) specs [] = Inr users" by simp
    from normalize_users_spec [OF this] Some spec rest show ?thesis by (simp add: inbound_wf_def)
  qed
qed

lemma normalize_inbounds_wf:
  assumes "normalize_inbounds compiled inbounds = Inr inbounds'" and "bt_wf inbounds"
    and "\<forall>tag inbound. map_of inbounds tag = Some inbound \<longrightarrow> nb_tag inbound = tag \<and> inbound_wf inbound"
  shows "bt_wf inbounds' \<and> (\<forall>tag inbound. map_of inbounds' tag = Some inbound \<longrightarrow> nb_tag inbound = tag \<and> inbound_wf inbound)"
  using assms
proof (induction compiled inbounds rule: normalize_inbounds.induct)
  case (2 compiled rest inbounds)
  from 2(2) obtain normalized where normalized: "normalize_inbound compiled = Inr normalized"
    "map_of inbounds (nb_tag normalized) = None"
    "normalize_inbounds rest (bt_insert (nb_tag normalized) normalized inbounds) = Inr inbounds'"
    by (auto simp: rbind_Inr_iff split: if_splits)
  show ?case
  proof (rule 2(1) [OF _ normalized(3)])
    show "\<forall>tag inbound. map_of (bt_insert (nb_tag normalized) normalized inbounds) tag = Some inbound \<longrightarrow>
        nb_tag inbound = tag \<and> inbound_wf inbound"
      using 2(4) normalize_inbound_wf [OF normalized(1)] by simp
  qed (use 2(3) normalized in simp_all)
qed simp

lemma normalize_wf: "normalize config = Inr normalized \<Longrightarrow> config_wf normalized"
  using normalize_inbounds_wf [of "rc_inbounds config" "[]"]
  by (auto simp: normalize_def config_wf_def result_simps)

section \<open>What a difference says\<close>

lemma same_user_eq: "same_user l r \<longleftrightarrow> l = r"
  by (cases l; cases r) (auto simp: same_user_def)

lemma set_map_filter: "set (List.map_filter f xs) = {y. \<exists>x \<in> set xs. f x = Some y}"
  by (force simp: List.map_filter_def)

lemma missing_keys:
  "set (filter (\<lambda>k. map_of m' k = None) (map fst m)) = dom (map_of m) - dom (map_of m')"
  by (auto simp: dom_map_of_conv_image_fst domIff map_of_eq_None_iff)

lemma diff_tags:
  "set (df_removed (diff_configs current desired)) = dom (map_of (nz_inbounds current)) - dom (map_of (nz_inbounds desired))"
  "set (df_added (diff_configs current desired)) = dom (map_of (nz_inbounds desired)) - dom (map_of (nz_inbounds current))"
  "config_wf current \<Longrightarrow> distinct (df_removed (diff_configs current desired))"
  "config_wf desired \<Longrightarrow> distinct (df_added (diff_configs current desired))"
  unfolding diff_configs_def ConfigDiff.simps missing_keys by (simp_all add: config_wfD distinct_filter)

lemma map_filter_keys:
  assumes "\<And>x y. f x = Some y \<Longrightarrow> g y = h x" and "distinct (map h xs)"
  shows "distinct (map g (List.map_filter f xs))"
  using assms
proof (induction xs)
  case (Cons x xs)
  then show ?case
  proof (cases "f x")
    case (Some y)
    have "g y \<notin> g ` set (List.map_filter f xs)"
      using Cons.prems Some by (auto simp: set_map_filter)
    with Some Cons show ?thesis by (simp add: map_filter_simps)
  next
    case None
    with Cons show ?thesis by (simp add: map_filter_simps)
  qed
qed (simp add: map_filter_simps)

lemma changed_delta_tag: "changed_delta current desired entry = Some d \<Longrightarrow> dl_tag d = fst entry"
  by (auto simp: changed_delta_def inbound_delta_def Let_def split: option.splits if_splits)

lemma diff_changed_distinct:
  "config_wf current \<Longrightarrow> distinct (map dl_tag (df_changed (diff_configs current desired)))"
  unfolding diff_configs_def by simp (rule map_filter_keys [of _ dl_tag fst], auto dest: changed_delta_tag config_wfD(4))

lemma diff_changed:
  assumes "config_wf current" "d \<in> set (df_changed (diff_configs current desired))"
  obtains before after where "map_of (nz_inbounds current) (dl_tag d) = Some before"
    "map_of (nz_inbounds desired) (dl_tag d) = Some after"
    "d = inbound_delta (nz_rule_set_digest current \<noteq> nz_rule_set_digest desired) (dl_tag d) before after"
proof -
  from assms(2) obtain entry where entry: "entry \<in> set (nz_inbounds current)" "changed_delta current desired entry = Some d"
    by (auto simp: diff_configs_def set_map_filter)
  have "map_of (nz_inbounds current) (fst entry) = Some (snd entry)"
    using entry(1) config_wfD(1) [OF assms(1)] bt_wf_entry by (metis prod.collapse)
  moreover from entry(2) obtain after where "map_of (nz_inbounds desired) (fst entry) = Some after"
    "d = inbound_delta (nz_rule_set_digest current \<noteq> nz_rule_set_digest desired) (fst entry) (snd entry) after"
    by (auto simp: changed_delta_def Let_def split: option.splits if_splits)
  ultimately show thesis using changed_delta_tag [OF entry(2)] that by simp
qed

lemma diff_unchanged:
  assumes "config_wf current" "map_of (nz_inbounds current) tag = Some before" "map_of (nz_inbounds desired) tag = Some after"
    "tag \<notin> dl_tag ` set (df_changed (diff_configs current desired))"
  shows "\<not> delta_nonempty (inbound_delta (nz_rule_set_digest current \<noteq> nz_rule_set_digest desired) tag before after)"
proof
  define d where "d = inbound_delta (nz_rule_set_digest current \<noteq> nz_rule_set_digest desired) tag before after"
  assume "delta_nonempty (inbound_delta (nz_rule_set_digest current \<noteq> nz_rule_set_digest desired) tag before after)"
  then have "changed_delta current desired (tag, before) = Some d" using assms(3) by (simp add: changed_delta_def d_def)
  moreover have "(tag, before) \<in> set (nz_inbounds current)" using assms(2) by (rule map_of_SomeD)
  ultimately have "d \<in> set (df_changed (diff_configs current desired))" by (auto simp: diff_configs_def set_map_filter)
  then show False using assms(4) by (force simp: d_def inbound_delta_def)
qed

end
