(* ===== verification/Engine_Inbound.thy ===== *)
theory Engine_Inbound
  imports Engine_Protocol Runtime_Config
begin

text \<open>
  One inbound of the engine (\<open>shoes-engine/src/inbound.rs\<close>) and what \<open>lib.rs\<close> does with one inbound alone: the payload
  turned into server configurations, the sockets they claim, the registered slot with its reload. The proxy core
  (\<open>shoes\<close>), the operating system and the name service are not part of this repository: the record \<open>shoes_core\<close>
  holds what the engine calls of them, over a state \<open>'w\<close> of the world outside the engine. Listener handles,
  resolvers, replay scopes and the other objects behind an \<open>Arc\<close> of the core are numbers.
\<close>

section \<open>Configurations\<close>

datatype Transport = TcpTransport | QuicTransport | UdpTransport

datatype 'x BindLocation = BindAddress "'x list" | BindPath string

record 'x ServerConfig =
  sc_bind_location :: "'x BindLocation"
  sc_protocol :: "'x ServerProxyConfig"
  sc_transport :: Transport
  sc_dns :: "'x option"
  sc_settings :: 'x

datatype 'x Config = Server "'x ServerConfig" | OtherConfig 'x

section \<open>Sockets\<close>

datatype IpAddr = V4 "u8 list" | V6 "u16 list"

record SocketAddr =
  sa_ip :: IpAddr
  sa_port :: u16
  sa_scope :: u32
  sa_flow :: u32

datatype SocketKind = TcpSocket | UdpSocket

definition socket_kind_name :: "SocketKind \<Rightarrow> string" where
  "socket_kind_name kind = (case kind of TcpSocket \<Rightarrow> ''tcp'' | UdpSocket \<Rightarrow> ''udp'')"

definition socket_kind :: "Transport \<Rightarrow> SocketKind" where
  "socket_kind transport = (case transport of TcpTransport \<Rightarrow> TcpSocket | QuicTransport \<Rightarrow> UdpSocket | UdpTransport \<Rightarrow> UdpSocket)"

definition transport_name :: "Transport \<Rightarrow> string" where
  "transport_name transport = (case transport of TcpTransport \<Rightarrow> ''tcp'' | QuicTransport \<Rightarrow> ''quic'' | UdpTransport \<Rightarrow> ''udp'')"

text \<open>\<open>Display\<close> of the addresses of the standard library: the longest run of at least two zero groups is elided.\<close>

fun show_hex :: "nat \<Rightarrow> string" where
  "show_hex n = (if n < 16 then [hex_digit n] else show_hex (n div 16) @ [hex_digit (n mod 16)])"

declare show_hex.simps [simp del]

definition longest_zeros :: "u16 list \<Rightarrow> nat \<times> nat" where
  "longest_zeros segments =
     fst (foldl (\<lambda>((start, len), (cur_start, cur_len)) (i, seg).
        if seg = 0
        then let cur = (if cur_len = 0 then (i, 1) else (cur_start, cur_len + 1)) in
          (if len < snd cur then cur else (start, len), cur)
        else ((start, len), (0, 0))) ((0, 0), (0, 0)) (List.enumerate 0 segments))"

definition show_segments :: "u16 list \<Rightarrow> string" where
  "show_segments segments = join '':'' (map (\<lambda>seg. show_hex (unat seg)) segments)"

definition show_ipv4 :: "u8 list \<Rightarrow> string" where
  "show_ipv4 octets = join ''.'' (map (\<lambda>b. show_nat (unat b)) octets)"

definition show_ipv6 :: "u16 list \<Rightarrow> string" where
  "show_ipv6 segments =
     (if take 6 segments = [0, 0, 0, 0, 0, 0xFFFF]
      then ''::ffff:'' @ show_ipv4 (concat (map (\<lambda>seg. [ucast (seg div 256), ucast seg]) (drop 6 segments)))
      else case longest_zeros segments of (start, len) \<Rightarrow>
        if 1 < len then show_segments (take start segments) @ ''::'' @ show_segments (drop (start + len) segments)
        else show_segments segments)"

definition display_socket_addr :: "SocketAddr \<Rightarrow> string" where
  "display_socket_addr address =
     (case sa_ip address of
        V4 octets \<Rightarrow> show_ipv4 octets @ '':'' @ show_nat (unat (sa_port address))
      | V6 segments \<Rightarrow>
          ''['' @ show_ipv6 segments @ (if sa_scope address = 0 then [] else ''%'' @ show_nat (unat (sa_scope address))) @ '']:'' @
          show_nat (unat (sa_port address)))"

datatype BindKey = BindSocket SocketAddr SocketKind | BindPathKey string

definition display_bind_key :: "BindKey \<Rightarrow> string" where
  "display_bind_key key =
     (case key of
        BindSocket address kind \<Rightarrow> display_socket_addr address @ '' ('' @ socket_kind_name kind @ '')''
      | BindPathKey path \<Rightarrow> path)"

datatype BindTargets = TargetAddresses "SocketAddr list" SocketKind | TargetPath string

definition target_addresses :: "BindTargets \<Rightarrow> SocketAddr list" where
  "target_addresses target = (case target of TargetAddresses addresses _ \<Rightarrow> addresses | TargetPath _ \<Rightarrow> [])"

definition target_kind :: "BindTargets \<Rightarrow> SocketKind option" where
  "target_kind target = (case target of TargetAddresses _ kind \<Rightarrow> Some kind | TargetPath _ \<Rightarrow> None)"

definition target_keys :: "BindTargets \<Rightarrow> BindKey list" where
  "target_keys target =
     (case target of
        TargetAddresses addresses kind \<Rightarrow> map (\<lambda>address. BindSocket address kind) addresses
      | TargetPath path \<Rightarrow> [BindPathKey path])"

definition target_display :: "BindTargets \<Rightarrow> string list" where
  "target_display target =
     (case target of TargetAddresses addresses _ \<Rightarrow> map display_socket_addr addresses | TargetPath path \<Rightarrow> [path])"

datatype ResolvedBind = ResolvedAddresses "SocketAddr list" | ResolvedPath string

definition resolved_bind :: "BindTargets \<Rightarrow> ResolvedBind" where
  "resolved_bind target =
     (case target of TargetAddresses addresses _ \<Rightarrow> ResolvedAddresses addresses | TargetPath path \<Rightarrow> ResolvedPath path)"

section \<open>The world outside\<close>

text \<open>How a listener task ended: it returned, it panicked with a text or with another payload, or its join failed.\<close>

datatype listener_exit = ListenerReturned | ListenerPanicked "string option" | ListenerFailed string

record ('x, 'w) shoes_core =
  co_multi_user :: "ShadowsocksCipher \<Rightarrow> bool"
  co_label :: "'x ServerProxyConfig \<Rightarrow> string"
  co_json_text :: "json \<Rightarrow> string + string"
  co_sha256 :: "string \<Rightarrow> bytes"
  co_parse :: "string \<Rightarrow> string + 'x Config"
  co_show_config :: "'x Config \<Rightarrow> string"
  co_create_server_configs :: "'x Config list \<Rightarrow> string + 'x Config list \<times> 'x list"
  co_random_uuid :: "'w \<Rightarrow> 'w \<times> string"
  co_convert_cert_paths :: "'x Config list \<Rightarrow> 'w \<Rightarrow> 'w \<times> (string + 'x Config list \<times> nat)"
  co_to_socket_addrs :: "'w \<Rightarrow> 'x \<Rightarrow> std_io_error + SocketAddr list"
  co_resolution_task :: "'w \<Rightarrow> string option"
  co_probe_bind :: "'w \<Rightarrow> SocketAddr \<Rightarrow> SocketKind \<Rightarrow> std_io_error + unit"
  co_new_groups :: "'w \<Rightarrow> 'w \<times> nat"
  co_prune_groups :: "nat \<Rightarrow> 'w \<Rightarrow> 'w"
  co_probe_resolver_is_bound :: "'w \<Rightarrow> nat \<Rightarrow> bool"
  co_probe_resolver_matches :: "'w \<Rightarrow> nat \<Rightarrow> bytes \<Rightarrow> std_io_error + bool"
  co_bind_probe_resolver :: "nat \<Rightarrow> bytes \<Rightarrow> nat \<Rightarrow> 'w \<Rightarrow> 'w \<times> (std_io_error + unit)"
  co_transaction :: "nat \<Rightarrow> 'w \<Rightarrow> 'w \<times> nat"
  co_commit_and_start :: "nat \<Rightarrow> 'w \<Rightarrow> 'w"
  co_drop_transaction :: "nat \<Rightarrow> 'w \<Rightarrow> 'w"
  co_policy_state :: "'w \<Rightarrow> 'w \<times> nat"
  co_build_dns :: "'x list \<Rightarrow> nat \<Rightarrow> 'w \<Rightarrow> 'w \<times> (std_io_error + nat)"
  co_dns_with_policy :: "nat \<Rightarrow> 'w \<Rightarrow> 'w \<times> nat"
  co_get_for_server :: "nat \<Rightarrow> 'x option \<Rightarrow> 'w \<Rightarrow> 'w \<times> nat"
  co_rotate_dns :: "nat \<Rightarrow> 'w \<Rightarrow> 'w \<times> u64"
  co_query_cache_generation :: "'w \<Rightarrow> nat \<Rightarrow> u64"
  co_resolver_alive :: "'w \<Rightarrow> nat \<Rightarrow> bool"
  co_start_servers :: "'x ServerConfig \<Rightarrow> nat \<Rightarrow> bool \<Rightarrow> nat \<Rightarrow> ResolvedBind \<Rightarrow> 'w \<Rightarrow> 'w \<times> (std_io_error + nat)"
  co_listener_count :: "'w \<Rightarrow> nat \<Rightarrow> nat"
  co_take_dead_listener :: "nat \<Rightarrow> 'w \<Rightarrow> 'w \<times> listener_exit option"
  co_generation :: "'w \<Rightarrow> nat \<Rightarrow> u64"
  co_check_reload :: "'w \<Rightarrow> nat \<Rightarrow> 'x ServerConfig \<Rightarrow> ResolvedBind \<Rightarrow> std_io_error + unit"
  co_reload :: "nat \<Rightarrow> 'x ServerConfig \<Rightarrow> nat \<Rightarrow> bool \<Rightarrow> ResolvedBind \<Rightarrow> 'w \<Rightarrow> 'w \<times> (std_io_error + u64)"
  co_stop_accepting :: "nat \<Rightarrow> 'w \<Rightarrow> 'w"
  co_hard_stop :: "nat \<Rightarrow> 'w \<Rightarrow> 'w"
  co_shutdown :: "nat \<Rightarrow> 'w \<Rightarrow> 'w"
  co_sleep :: "'w \<Rightarrow> 'w"
  co_new_replay_state :: "'w \<Rightarrow> 'w \<times> nat"
  co_new_scope :: "nat \<Rightarrow> nat option \<Rightarrow> 'w \<Rightarrow> 'w \<times> nat"
  co_scope_state :: "'w \<Rightarrow> nat \<Rightarrow> nat"
  co_scope_lineage :: "'w \<Rightarrow> nat \<Rightarrow> nat"
  co_scope_alive :: "'w \<Rightarrow> nat \<Rightarrow> bool"
  co_lineage_alive :: "'w \<Rightarrow> nat \<Rightarrow> bool"
  co_finalizer :: "'w \<Rightarrow> 'w \<times> string option"

definition other_io :: "string \<Rightarrow> std_io_error" where
  "other_io text = \<lparr> sio_kind = OtherIo, sio_text = text, sio_concurrent = False \<rparr>"

text \<open>A step that may fail, then a step on its result: the operator \<open>?\<close> with a state.\<close>

definition andthen :: "'s \<times> ('e + 'a) \<Rightarrow> ('a \<Rightarrow> 's \<Rightarrow> 's \<times> ('e + 'b)) \<Rightarrow> 's \<times> ('e + 'b)" where
  "andthen m k = (case m of (s, Inl e) \<Rightarrow> (s, Inl e) | (s, Inr x) \<Rightarrow> k x s)"

definition fallible :: "'s \<times> ('e + 'a) \<Rightarrow> ('e \<Rightarrow> 'f) \<Rightarrow> 's \<times> ('f + 'a)" where
  "fallible m f = (fst m, rmap_err f (snd m))"

section \<open>Payloads\<close>

fun startable :: "('x, 'w) shoes_core \<Rightarrow> 'x Config list \<Rightarrow> EngineError + 'x ServerConfig list" where
  "startable core [] = Inr []"
| "startable core (Server config # configs) =
     (if sc_transport config = UdpTransport then Inl (Unsupported ''the udp transport is not implemented upstream'')
      else rbind (startable core configs) (\<lambda>servers. Inr (config # servers)))"
| "startable core (OtherConfig x # configs) =
     Inl (Unsupported (''config kind not startable through the API: '' @ co_show_config core (OtherConfig x)))"

definition expand_configs :: "('x, 'w) shoes_core \<Rightarrow> 'x Config list \<Rightarrow> EngineError + 'x ServerConfig list \<times> 'x list" where
  "expand_configs core parsed =
     rbind (rmap_err InvalidConfig (co_create_server_configs core parsed)) (\<lambda>(configs, dns_groups).
     rbind (startable core configs) (\<lambda>server_configs.
     if server_configs = [] then Inl (InvalidConfig ''payload produced no startable server config'')
     else Inr (server_configs, dns_groups)))"

definition validate_server_config_payload :: "('x, 'w) shoes_core \<Rightarrow> json \<Rightarrow> 'w \<Rightarrow> 'w \<times> (EngineError + 'x ServerConfig list \<times> 'x list)" where
  "validate_server_config_payload core config w =
     (case co_json_text core config of
        Inl e \<Rightarrow> (w, Inl (InvalidConfig (''could not re-encode payload: '' @ e)))
      | Inr json_text \<Rightarrow>
          (case co_parse core json_text of
             Inl e \<Rightarrow> (w, Inl (InvalidConfig e))
           | Inr (OtherConfig _) \<Rightarrow> (w, Inl (Unsupported ''only `server` configs can be added through the API''))
           | Inr (Server server) \<Rightarrow>
               andthen (fallible (co_convert_cert_paths core [Server server] w) (\<lambda>e. InvalidConfig (''could not load cert files: '' @ e)))
                 (\<lambda>(parsed, loaded) w1. (w1, expand_configs core parsed))))"

definition json_fingerprint :: "('x, 'w) shoes_core \<Rightarrow> json \<Rightarrow> string + bytes" where
  "json_fingerprint core value = rbind (co_json_text core value) (\<lambda>text. Inr (co_sha256 core text))"

definition present :: "json option \<Rightarrow> json option" where
  "present dns = (case dns of Some JNull \<Rightarrow> None | _ \<Rightarrow> dns)"

definition inline_dns_cache_key :: "('x, 'w) shoes_core \<Rightarrow> json \<Rightarrow> EngineError + bytes option" where
  "inline_dns_cache_key core config =
     (case present (json_get ''dns'' config) of
        None \<Rightarrow> Inr None
      | Some dns \<Rightarrow> rbind (rmap_err (\<lambda>e. InvalidConfig (''could not encode DNS section: '' @ e)) (json_fingerprint core dns)) (\<lambda>key. Inr (Some key)))"

record 'x ValidatedInbound =
  vi_configs :: "'x ServerConfig list"
  vi_dns_groups :: "'x list"
  vi_dns_cache_key :: "bytes option"

definition validate_inbound_config :: "('x, 'w) shoes_core \<Rightarrow> json \<Rightarrow> 'w \<Rightarrow> 'w \<times> (EngineError + 'x ValidatedInbound)" where
  "validate_inbound_config core config w =
     (if \<not> json_is_object config then (w, Inl (InvalidConfig ''config must be a single server config object''))
      else case inline_dns_cache_key core config of
        Inl e \<Rightarrow> (w, Inl e)
      | Inr key \<Rightarrow> andthen (validate_server_config_payload core config w) (\<lambda>(server_configs, dns_groups) w1.
          (w1, Inr \<lparr> vi_configs = server_configs, vi_dns_groups = dns_groups, vi_dns_cache_key = key \<rparr>)))"

record 'x ValidatedUrlTestProbe =
  vp_server_config :: "'x ServerConfig"
  vp_dns_groups :: "'x list"
  vp_dns_cache_key :: "bytes option"
  vp_fingerprint :: bytes

definition probe_payload :: "json \<Rightarrow> json" where
  "probe_payload dns = JObject
     [(''address'', JString ''127.0.0.1:0''), (''dns'', dns),
      (''protocol'', JObject [(''type'', JString ''socks''), (''udp_enabled'', JBool False)]),
      (''rules'', JArray [JObject [(''action'', JString ''allow''), (''masks'', JString ''0.0.0.0/0'')]])]"

text \<open>\<open>expect\<close> on the first configuration: a validated payload has one (\<open>payload_nonempty\<close>).\<close>

definition validate_urltest_probe_dns_config :: "('x, 'w) shoes_core \<Rightarrow> json option \<Rightarrow> 'w \<Rightarrow> 'w \<times> (EngineError + 'x ValidatedUrlTestProbe option)" where
  "validate_urltest_probe_dns_config core dns w =
     (case present dns of
        None \<Rightarrow> (w, Inr None)
      | Some dns' \<Rightarrow>
          (case rmap_err (\<lambda>e. InvalidConfig (''could not encode URLTest probe DNS section: '' @ e)) (json_fingerprint core dns') of
             Inl e \<Rightarrow> (w, Inl e)
           | Inr fingerprint \<Rightarrow> andthen (validate_server_config_payload core (probe_payload dns') w) (\<lambda>(configs, dns_groups) w1.
               (w1, Inr (Some \<lparr> vp_server_config = hd configs, vp_dns_groups = dns_groups, vp_dns_cache_key = Some fingerprint,
                  vp_fingerprint = fingerprint \<rparr>)))))"

section \<open>Listen targets\<close>

fun to_socket_addrs_all :: "('x, 'w) shoes_core \<Rightarrow> 'w \<Rightarrow> 'x list \<Rightarrow> std_io_error + SocketAddr list" where
  "to_socket_addrs_all core w [] = Inr []"
| "to_socket_addrs_all core w (address # addrs) =
     rbind (co_to_socket_addrs core w address) (\<lambda>found. rbind (to_socket_addrs_all core w addrs) (\<lambda>others. Inr (found @ others)))"

definition resolve_bind_targets :: "('x, 'w) shoes_core \<Rightarrow> 'w \<Rightarrow> 'x BindLocation \<Rightarrow> Transport \<Rightarrow> EngineError + BindTargets" where
  "resolve_bind_targets core w bind_location transport =
     (case bind_location of
        BindAddress addrs \<Rightarrow>
          rbind (rmap_err EngineIo (to_socket_addrs_all core w addrs)) (\<lambda>resolved.
          if resolved = [] then Inl (InvalidConfig ''bind location resolved to no addresses'')
          else if list_ex (\<lambda>address. sa_port address = 0) resolved
          then Inl (InvalidConfig (''bind port 0 is not supported by the dynamic engine: the operating system would choose an '' @
            ''ephemeral port that could not be represented faithfully in address ownership or inbound metadata''))
          else Inr (TargetAddresses resolved (socket_kind transport)))
      | BindPath path \<Rightarrow> Inr (TargetPath path))"

fun resolve_all :: "('x, 'w) shoes_core \<Rightarrow> 'w \<Rightarrow> 'x ServerConfig list \<Rightarrow> EngineError + BindTargets list" where
  "resolve_all core w [] = Inr []"
| "resolve_all core w (config # configs) =
     rbind (resolve_bind_targets core w (sc_bind_location config) (sc_transport config)) (\<lambda>target.
     rbind (resolve_all core w configs) (\<lambda>targets. Inr (target # targets)))"

definition resolve_bind_targets_for_configs :: "('x, 'w) shoes_core \<Rightarrow> 'w \<Rightarrow> 'x ServerConfig list \<Rightarrow> EngineError + BindTargets list" where
  "resolve_bind_targets_for_configs core w server_configs =
     (case co_resolution_task core w of
        Some error \<Rightarrow> Inl (EngineIo (other_io (''bind target resolution task failed: '' @ error)))
      | None \<Rightarrow> resolve_all core w server_configs)"

section \<open>Slots\<close>

text \<open>\<open>sl_id\<close> is the identity of the \<open>Arc\<close>. \<open>sl_source\<close> is the payload the slot was last loaded from; no operation reads it.\<close>

record 'c InboundSlot =
  sl_id :: nat
  sl_info :: InboundInfo
  sl_protocol :: string
  sl_keys :: "BindKey list"
  sl_handles :: "nat list"
  sl_listener_failed :: bool
  sl_replay_state :: nat
  sl_replay_lineage :: nat
  sl_users :: "'c MemoryUserRegistry option"
  sl_source :: json

definition slot_new :: "nat \<Rightarrow> json \<Rightarrow> InboundInfo \<Rightarrow> BindKey list \<Rightarrow> nat list \<Rightarrow> nat \<Rightarrow> nat \<Rightarrow> 'c MemoryUserRegistry option \<Rightarrow> 'c InboundSlot" where
  "slot_new identity source info keys handles replay_state replay_lineage users =
     \<lparr> sl_id = identity, sl_info = info, sl_protocol = ii_protocol info, sl_keys = keys, sl_handles = handles, sl_listener_failed = False,
       sl_replay_state = replay_state, sl_replay_lineage = replay_lineage, sl_users = users, sl_source = source \<rparr>"

definition slot_revision :: "('x, 'w) shoes_core \<Rightarrow> 'w \<Rightarrow> 'c InboundSlot \<Rightarrow> u64" where
  "slot_revision core w slot = foldl max 0 (map (co_generation core w) (sl_handles slot))"

definition describe :: "('x, 'w) shoes_core \<Rightarrow> 'w \<Rightarrow> 'c InboundSlot \<Rightarrow> InboundInfo" where
  "describe core w slot =
     (sl_info slot)\<lparr> ii_protocol := sl_protocol slot, ii_users := map_option (\<lambda>users. length (mr_users users)) (sl_users slot),
       ii_revision := slot_revision core w slot \<rparr>"

fun first_dead :: "('x, 'w) shoes_core \<Rightarrow> nat list \<Rightarrow> 'w \<Rightarrow> 'w \<times> listener_exit option" where
  "first_dead core [] w = (w, None)"
| "first_dead core (handle # handles) w =
     (case co_take_dead_listener core handle w of
        (w1, Some dead) \<Rightarrow> (w1, Some dead)
      | (w1, None) \<Rightarrow> first_dead core handles w1)"

definition listener_failed :: "('x, 'w) shoes_core \<Rightarrow> 'c InboundSlot \<Rightarrow> 'w \<Rightarrow> 'w \<times> 'c InboundSlot \<times> bool" where
  "listener_failed core slot w =
     (if sl_listener_failed slot then (w, slot, True)
      else case first_dead core (sl_handles slot) w of
        (w1, Some _) \<Rightarrow> (w1, slot\<lparr> sl_listener_failed := True \<rparr>, True)
      | (w1, None) \<Rightarrow> (w1, slot, False))"

record 'x ReloadCandidate =
  rd_config :: "'x ServerConfig"
  rd_resolver :: nat
  rd_resolved_bind :: ResolvedBind

fun check_all :: "('x, 'w) shoes_core \<Rightarrow> 'w \<Rightarrow> (nat \<times> 'x ReloadCandidate) list \<Rightarrow> std_io_error + unit" where
  "check_all core w [] = Inr ()"
| "check_all core w ((handle, candidate) # pairs) =
     rbind (co_check_reload core w handle (rd_config candidate) (rd_resolved_bind candidate)) (\<lambda>_. check_all core w pairs)"

fun swap_all :: "('x, 'w) shoes_core \<Rightarrow> bool \<Rightarrow> (nat \<times> 'x ReloadCandidate) list \<Rightarrow> u64 \<Rightarrow> 'w \<Rightarrow> 'w \<times> (std_io_error + u64)" where
  "swap_all core users [] revision w = (w, Inr revision)"
| "swap_all core users ((handle, candidate) # pairs) revision w =
     andthen (co_reload core handle (rd_config candidate) (rd_resolver candidate) users (rd_resolved_bind candidate) w)
       (\<lambda>generation w1. swap_all core users pairs (max revision generation) w1)"

definition listener_groups_changed :: "nat \<Rightarrow> nat \<Rightarrow> std_io_error" where
  "listener_groups_changed running wanted =
     \<lparr> sio_kind = InvalidInput, sio_text = ''cannot reload in place: running '' @ show_nat running @
         '' listener group(s), the new config expands to '' @ show_nat wanted, sio_concurrent = False \<rparr>"

definition slot_reload :: "('x, 'w) shoes_core \<Rightarrow> 'x ReloadCandidate list \<Rightarrow> 'c InboundSlot \<Rightarrow> 'w \<Rightarrow> 'w \<times> (std_io_error + 'c InboundSlot \<times> u64)" where
  "slot_reload core candidates slot w =
     (if length candidates \<noteq> length (sl_handles slot)
      then (w, Inl (listener_groups_changed (length (sl_handles slot)) (length candidates)))
      else case check_all core w (zip (sl_handles slot) candidates) of
        Inl e \<Rightarrow> (w, Inl e)
      | Inr _ \<Rightarrow>
          let protocol = display_name (co_label core) (sc_protocol (rd_config (candidates ! 0))) in
          andthen (swap_all core (sl_users slot \<noteq> None) (zip (sl_handles slot) candidates) 0 w) (\<lambda>revision w1.
            (w1, Inr (slot\<lparr> sl_protocol := protocol \<rparr>, revision))))"

definition each_handle :: "(nat \<Rightarrow> 'w \<Rightarrow> 'w) \<Rightarrow> nat list \<Rightarrow> 'w \<Rightarrow> 'w" where
  "each_handle f handles w = fold f handles w"

definition slot_stop_accepting :: "('x, 'w) shoes_core \<Rightarrow> 'c InboundSlot \<Rightarrow> 'w \<Rightarrow> 'w" where
  "slot_stop_accepting core slot = each_handle (co_stop_accepting core) (sl_handles slot)"

definition slot_hard_stop :: "('x, 'w) shoes_core \<Rightarrow> 'c InboundSlot \<Rightarrow> 'w \<Rightarrow> 'w" where
  "slot_hard_stop core slot = each_handle (co_hard_stop core) (sl_handles slot)"

definition slot_shutdown :: "('x, 'w) shoes_core \<Rightarrow> 'c InboundSlot \<Rightarrow> 'w \<Rightarrow> 'w" where
  "slot_shutdown core slot = each_handle (co_shutdown core) (sl_handles slot)"

definition slot_hard_shutdown :: "('x, 'w) shoes_core \<Rightarrow> 'c InboundSlot \<Rightarrow> 'w \<Rightarrow> 'w" where
  "slot_hard_shutdown core slot w = each_handle (co_shutdown core) (sl_handles slot) (slot_hard_stop core slot w)"

definition abandon :: "('x, 'w) shoes_core \<Rightarrow> nat list \<Rightarrow> 'w \<Rightarrow> 'w" where
  "abandon core handles w = each_handle (co_shutdown core) handles (each_handle (co_hard_stop core) handles w)"

definition describe_dead_listener :: "listener_exit \<Rightarrow> string" where
  "describe_dead_listener dead =
     (case dead of
        ListenerReturned \<Rightarrow> ''listener task exited immediately''
      | ListenerPanicked (Some message) \<Rightarrow> message
      | ListenerPanicked None \<Rightarrow> ''listener task panicked''
      | ListenerFailed e \<Rightarrow> ''listener task failed: '' @ e)"

section \<open>Laws\<close>

lemma andthen_simps [simp]:
  "andthen (s, Inl e) k = (s, Inl e)"
  "andthen (s, Inr x) k = k x s"
  by (simp_all add: andthen_def)

lemma andthen_Inr: "andthen m k = (s', Inr y) \<longleftrightarrow> (\<exists>s x. m = (s, Inr x) \<and> k x s = (s', Inr y))"
  by (auto simp: andthen_def split: prod.splits sum.splits)

lemma andthen_cases:
  obtains (failed) s e where "m = (s, Inl e)" "andthen m k = (s, Inl e)" | (passed) s x where "m = (s, Inr x)" "andthen m k = k x s"
  by (cases m; cases "snd m") auto

lemma startable_tcp: "startable core configs = Inr servers \<Longrightarrow> \<forall>config \<in> set servers. sc_transport config \<noteq> UdpTransport"
  by (induction core configs arbitrary: servers rule: startable.induct) (auto simp: rbind_Inr_iff split: if_splits)

lemma payload_nonempty:
  assumes "validate_server_config_payload core config w = (w', Inr (configs, groups))"
  shows "configs \<noteq> []" "\<forall>config \<in> set configs. sc_transport config \<noteq> UdpTransport"
  using assms startable_tcp [of core]
  by (auto simp: validate_server_config_payload_def expand_configs_def andthen_Inr fallible_def rbind_Inr_iff
      split: sum.splits Config.splits if_splits)

lemma resolve_all_length: "resolve_all core w configs = Inr targets \<Longrightarrow> length targets = length configs"
  by (induction configs arbitrary: targets) (auto simp: rbind_Inr_iff)

end
