(* ===== verification/Engine_Core.thy ===== *)
theory Engine_Core
  imports Engine_Inbound
begin

text \<open>
  The engine facade (\<open>shoes-engine/src/lib.rs\<close>): its state, and every operation on it. An operation that prepares its
  work before it takes the control lock is two definitions, the preparation and the part under the lock, so that other
  operations may run in between; the public operation is one after the other. \<open>en_halted\<close> is set where the source
  would panic on a broken index of a user table or wait for ever, and no operation is defined beyond it.
\<close>

section \<open>State\<close>

record ReplayLineageEntry =
  rl_authority :: nat
  rl_live :: nat

record ReplayLineages =
  rl_entries :: "(string \<times> ReplayLineageEntry) list"
  rl_limit :: nat

datatype ReplayAdmission = Fresh | Preserved nat nat

record PreparedReplay =
  pr_state :: nat
  pr_lineage :: nat
  pr_scope :: nat

record InboundReplayLease =
  le_tag :: string
  le_engine_identity :: nat
  le_lineage :: nat
  le_state :: nat

record ControlState =
  cs_client_chain_groups :: nat
  cs_dns :: nat
  cs_inline_dns :: "(bytes \<times> nat) list"
  cs_dns_policy_state :: nat
  cs_replay_lineages :: ReplayLineages

record AnalysisPolicy =
  an_disabled :: bool
  an_observer :: "nat option"

text \<open>\<open>en_next\<close> is the next identity of an \<open>Arc\<close> the engine allocates itself.\<close>

record ('c, 'w) EngineInner =
  en_analysis :: "nat option"
  en_analysis_policy :: AnalysisPolicy
  en_replay_identity :: nat
  en_control :: ControlState
  en_inbounds :: "(string \<times> 'c InboundSlot) list"
  en_bound :: "(BindKey \<times> string) list"
  en_next :: nat
  en_world :: 'w
  en_halted :: bool

definition MAX_REPLAY_LINEAGES :: nat where "MAX_REPLAY_LINEAGES = 65536"

definition on_world :: "('w \<Rightarrow> 'w \<times> 'a) \<Rightarrow> ('c, 'w) EngineInner \<Rightarrow> ('c, 'w) EngineInner \<times> 'a" where
  "on_world f e = (case f (en_world e) of (w, x) \<Rightarrow> (e\<lparr> en_world := w \<rparr>, x))"

definition in_world :: "('w \<Rightarrow> 'w) \<Rightarrow> ('c, 'w) EngineInner \<Rightarrow> ('c, 'w) EngineInner" where
  "in_world f e = e\<lparr> en_world := f (en_world e) \<rparr>"

definition on_control :: "(ControlState \<Rightarrow> ControlState) \<Rightarrow> ('c, 'w) EngineInner \<Rightarrow> ('c, 'w) EngineInner" where
  "on_control f e = e\<lparr> en_control := f (en_control e) \<rparr>"

definition set_slot :: "string \<Rightarrow> 'c InboundSlot \<Rightarrow> ('c, 'w) EngineInner \<Rightarrow> ('c, 'w) EngineInner" where
  "set_slot tag slot e = e\<lparr> en_inbounds := AList.update tag slot (en_inbounds e) \<rparr>"

definition slot_at :: "('c, 'w) EngineInner \<Rightarrow> string \<Rightarrow> 'c InboundSlot option" where
  "slot_at e tag = map_of (en_inbounds e) tag"

definition bootstrap :: "('x, 'w) shoes_core \<Rightarrow> nat \<Rightarrow> 'w \<Rightarrow> 'w \<times> (EngineError + ('c, 'w) EngineInner)" where
  "bootstrap core identity w =
     (case co_policy_state core w of (w1, policy) \<Rightarrow>
      andthen (fallible (co_build_dns core [] policy w1) EngineIo) (\<lambda>dns w2.
      case co_new_groups core w2 of (w3, groups) \<Rightarrow>
        (w3, Inr \<lparr> en_analysis = None, en_analysis_policy = \<lparr> an_disabled = False, an_observer = None \<rparr>, en_replay_identity = identity,
          en_control = \<lparr> cs_client_chain_groups = groups, cs_dns = dns, cs_inline_dns = [], cs_dns_policy_state = policy,
            cs_replay_lineages = \<lparr> rl_entries = [], rl_limit = MAX_REPLAY_LINEAGES \<rparr> \<rparr>,
          en_inbounds = [], en_bound = [], en_next = identity + 1, en_world = w3, en_halted = False \<rparr>)))"

section \<open>Analysis policy\<close>

definition active_observer :: "AnalysisPolicy \<Rightarrow> nat option" where
  "active_observer policy = (if an_disabled policy then None else an_observer policy)"

definition update_analysis_policy :: "(AnalysisPolicy \<Rightarrow> AnalysisPolicy) \<Rightarrow> ('c, 'w) EngineInner \<Rightarrow> ('c, 'w) EngineInner" where
  "update_analysis_policy update e =
     (let previous = active_observer (en_analysis_policy e); policy = update (en_analysis_policy e) in
      if previous = active_observer policy then e\<lparr> en_analysis_policy := policy \<rparr>
      else e\<lparr> en_analysis_policy := policy, en_analysis := active_observer policy \<rparr>)"

definition set_analysis_observer :: "nat option \<Rightarrow> ('c, 'w) EngineInner \<Rightarrow> ('c, 'w) EngineInner" where
  "set_analysis_observer observer = update_analysis_policy (\<lambda>policy. policy\<lparr> an_observer := observer \<rparr>)"

definition set_disable_traffic_analysis :: "bool \<Rightarrow> ('c, 'w) EngineInner \<Rightarrow> ('c, 'w) EngineInner" where
  "set_disable_traffic_analysis disabled = update_analysis_policy (\<lambda>policy. policy\<lparr> an_disabled := disabled \<rparr>)"

definition traffic_analysis_disabled :: "('c, 'w) EngineInner \<Rightarrow> bool" where
  "traffic_analysis_disabled e = an_disabled (en_analysis_policy e)"

definition apply_analysis_policy :: "('c, 'w) EngineInner \<Rightarrow> json \<Rightarrow> json" where
  "apply_analysis_policy e config =
     (if traffic_analysis_disabled e then json_insert ''sniff'' (JBool False) config else config)"

section \<open>Resolvers\<close>

definition prune_inline_dns :: "('x, 'w) shoes_core \<Rightarrow> ('c, 'w) EngineInner \<Rightarrow> ('c, 'w) EngineInner" where
  "prune_inline_dns core e =
     on_control (\<lambda>c. c\<lparr> cs_inline_dns := filter (\<lambda>(_, resolver). co_resolver_alive core (en_world e) resolver) (cs_inline_dns c) \<rparr>) e"

text \<open>\<open>CandidateResolvers\<close>: the groups and the cache key of one payload, and the resolvers it built so far.\<close>

record 'x CandidateResolvers =
  cd_dns_groups :: "'x list"
  cd_dns_cache_key :: "bytes option"
  cd_pending :: "(bytes \<times> nat) list"

definition shared_resolver :: "('x, 'w) shoes_core \<Rightarrow> 'x CandidateResolvers \<Rightarrow> ('c, 'w) EngineInner \<Rightarrow> nat option" where
  "shared_resolver core resolvers e =
     Option.bind (cd_dns_cache_key resolvers) (\<lambda>key.
     case map_of (cd_pending resolvers) key of
       Some shared \<Rightarrow> Some shared
     | None \<Rightarrow>
         (case map_of (cs_inline_dns (en_control e)) key of
            Some shared \<Rightarrow> if co_resolver_alive core (en_world e) shared then Some shared else None
          | None \<Rightarrow> None))"

definition resolve :: "('x, 'w) shoes_core \<Rightarrow> 'x ServerConfig \<Rightarrow> 'x CandidateResolvers \<Rightarrow> ('c, 'w) EngineInner \<Rightarrow>
    ('c, 'w) EngineInner \<times> (EngineError + 'x CandidateResolvers \<times> nat)" where
  "resolve core server_config resolvers e =
     (if sc_dns server_config = None
      then (case on_world (co_get_for_server core (cs_dns (en_control e)) None) e of (e1, resolver) \<Rightarrow> (e1, Inr (resolvers, resolver)))
      else case shared_resolver core resolvers e of
        Some shared \<Rightarrow> (e, Inr (resolvers, shared))
      | None \<Rightarrow>
          andthen (fallible (on_world (co_build_dns core (cd_dns_groups resolvers) (cs_dns_policy_state (en_control e))) e) EngineIo)
            (\<lambda>registry e1. case on_world (co_get_for_server core registry (sc_dns server_config)) e1 of (e2, resolver) \<Rightarrow>
               (e2, Inr ((case cd_dns_cache_key resolvers of
                  Some key \<Rightarrow> resolvers\<lparr> cd_pending := AList.update key resolver (cd_pending resolvers) \<rparr>
                | None \<Rightarrow> resolvers), resolver))))"

definition publish_resolvers :: "('x, 'w) shoes_core \<Rightarrow> 'x CandidateResolvers \<Rightarrow> ('c, 'w) EngineInner \<Rightarrow> ('c, 'w) EngineInner" where
  "publish_resolvers core resolvers e =
     on_control (\<lambda>c. c\<lparr> cs_inline_dns := fold (\<lambda>(key, resolver). AList.update key resolver) (cd_pending resolvers) (cs_inline_dns c) \<rparr>)
       (prune_inline_dns core e)"

definition system_probe :: string where "system_probe = ''shoes/urltest-probe/system/v1''"

definition probe_resolver :: "('x, 'w) shoes_core \<Rightarrow> 'x ValidatedUrlTestProbe option \<Rightarrow> ('c, 'w) EngineInner \<Rightarrow> ('c, 'w) EngineInner \<times> (EngineError + nat)" where
  "probe_resolver core probe e =
     (case probe of
        Some p \<Rightarrow>
          andthen (resolve core (vp_server_config p)
            \<lparr> cd_dns_groups = vp_dns_groups p, cd_dns_cache_key = vp_dns_cache_key p, cd_pending = [] \<rparr> e)
            (\<lambda>(_, resolver) e1. (e1, Inr resolver))
      | None \<Rightarrow> (case on_world (co_get_for_server core (cs_dns (en_control e)) None) e of (e1, resolver) \<Rightarrow> (e1, Inr resolver)))"

definition ensure_urltest_probe_resolver :: "('x, 'w) shoes_core \<Rightarrow> nat \<Rightarrow> 'x ValidatedUrlTestProbe option \<Rightarrow> ('c, 'w) EngineInner \<Rightarrow>
    ('c, 'w) EngineInner \<times> (EngineError + unit)" where
  "ensure_urltest_probe_resolver core registry probe e =
     (let fingerprint = (case probe of Some p \<Rightarrow> vp_fingerprint p | None \<Rightarrow> co_sha256 core system_probe) in
      case co_probe_resolver_matches core (en_world e) registry fingerprint of
        Inl err \<Rightarrow> (e, Inl (EngineIo err))
      | Inr True \<Rightarrow> (e, Inr ())
      | Inr False \<Rightarrow>
          (case on_world (co_transaction core registry) e of (e1, transaction) \<Rightarrow>
             case probe_resolver core probe e1 of
               (e2, Inl err) \<Rightarrow> (in_world (co_drop_transaction core transaction) e2, Inl err)
             | (e2, Inr resolver) \<Rightarrow>
                 (case on_world (co_bind_probe_resolver core registry fingerprint resolver) e2 of
                    (e3, Inl err) \<Rightarrow> (in_world (co_drop_transaction core transaction) e3, Inl (EngineIo err))
                  | (e3, Inr _) \<Rightarrow> (in_world (co_commit_and_start core transaction) e3, Inr ()))))"

definition ensure_default_urltest_probe_resolver :: "('x, 'w) shoes_core \<Rightarrow> nat \<Rightarrow> ('c, 'w) EngineInner \<Rightarrow> ('c, 'w) EngineInner \<times> (EngineError + unit)" where
  "ensure_default_urltest_probe_resolver core registry e =
     (if co_probe_resolver_is_bound core (en_world e) registry then (e, Inr ())
      else ensure_urltest_probe_resolver core registry None e)"

definition rotate_dns_client_generation :: "('x, 'w) shoes_core \<Rightarrow> ('c, 'w) EngineInner \<Rightarrow> ('c, 'w) EngineInner \<times> u64" where
  "rotate_dns_client_generation core e =
     (case on_world (co_new_groups core) (on_control (\<lambda>c. c\<lparr> cs_inline_dns := [] \<rparr>) e) of (e1, groups) \<Rightarrow>
      case on_world (co_rotate_dns core (cs_dns_policy_state (en_control e1))) (on_control (\<lambda>c. c\<lparr> cs_client_chain_groups := groups \<rparr>) e1) of
        (e2, generation) \<Rightarrow>
      case on_world (co_dns_with_policy core (cs_dns_policy_state (en_control e2))) e2 of (e3, dns) \<Rightarrow>
        (on_control (\<lambda>c. c\<lparr> cs_dns := dns \<rparr>) e3, generation))"

definition dns_cache_generation :: "('x, 'w) shoes_core \<Rightarrow> ('c, 'w) EngineInner \<Rightarrow> u64" where
  "dns_cache_generation core e = co_query_cache_generation core (en_world e) (cs_dns_policy_state (en_control e))"

text \<open>Validation reads files and changes nothing of the engine: its result only is kept.\<close>

definition validate_urltest_probe_dns :: "('x, 'w) shoes_core \<Rightarrow> ('c, 'w) EngineInner \<Rightarrow> json option \<Rightarrow> EngineError + unit" where
  "validate_urltest_probe_dns core e dns = rbind (snd (validate_urltest_probe_dns_config core dns (en_world e))) (\<lambda>_. Inr ())"

definition configure_urltest_probe_dns :: "('x, 'w) shoes_core \<Rightarrow> json option \<Rightarrow> ('c, 'w) EngineInner \<Rightarrow> ('c, 'w) EngineInner \<times> (EngineError + unit)" where
  "configure_urltest_probe_dns core dns e =
     andthen (on_world (validate_urltest_probe_dns_config core dns) e) (\<lambda>probe e1.
     let e2 = prune_inline_dns core e1 in
     ensure_urltest_probe_resolver core (cs_client_chain_groups (en_control e2)) probe e2)"

definition commit_client_chain_group_generation :: "('x, 'w) shoes_core \<Rightarrow> ('c, 'w) EngineInner \<Rightarrow> ('c, 'w) EngineInner" where
  "commit_client_chain_group_generation core e = in_world (co_prune_groups core (cs_client_chain_groups (en_control e))) e"

section \<open>Reports\<close>

definition list_inbounds :: "('x, 'w) shoes_core \<Rightarrow> ('c, 'w) EngineInner \<Rightarrow> InboundInfo list" where
  "list_inbounds core e = sort_key ii_tag (map (\<lambda>(_, slot). describe core (en_world e) slot) (en_inbounds e))"

definition engine_status :: "('c, 'w) EngineInner \<Rightarrow> nat \<times> string list" where
  "engine_status e = (length (en_inbounds e), sort (map (\<lambda>(key, _). display_bind_key key) (en_bound e)))"

fun failed_slots :: "('x, 'w) shoes_core \<Rightarrow> (string \<times> 'c InboundSlot) list \<Rightarrow> 'w \<Rightarrow> 'w \<times> (string \<times> 'c InboundSlot) list \<times> string list" where
  "failed_slots core [] w = (w, [], [])"
| "failed_slots core ((tag, slot) # slots) w =
     (case listener_failed core slot w of (w1, slot', failed) \<Rightarrow>
      case failed_slots core slots w1 of (w2, slots', tags) \<Rightarrow>
        (w2, (tag, slot') # slots', if failed then tag # tags else tags))"

definition failed_listener_tags :: "('x, 'w) shoes_core \<Rightarrow> ('c, 'w) EngineInner \<Rightarrow> ('c, 'w) EngineInner \<times> string list" where
  "failed_listener_tags core e =
     (case failed_slots core (en_inbounds e) (en_world e) of (w, slots, tags) \<Rightarrow>
        (e\<lparr> en_inbounds := slots, en_world := w \<rparr>, sort tags))"

definition preserve_inbound_replay :: "('c, 'w) EngineInner \<Rightarrow> string \<Rightarrow> EngineError + InboundReplayLease" where
  "preserve_inbound_replay e tag =
     (case slot_at e tag of
        None \<Rightarrow> Inl (UnknownTag tag)
      | Some slot \<Rightarrow> Inr \<lparr> le_tag = tag, le_engine_identity = en_replay_identity e, le_lineage = sl_replay_lineage slot,
          le_state = sl_replay_state slot \<rparr>)"

section \<open>Replay lineages\<close>

definition lineage_limit :: "nat \<Rightarrow> string \<Rightarrow> EngineError" where
  "lineage_limit limit tag = InvalidConfig (''replay lineage limit '' @ show_nat limit @ '' is full; cannot admit new inbound tag '' @ debug_str tag)"

definition stale_lease :: "string \<Rightarrow> EngineError" where
  "stale_lease tag = InvalidConfig (''replay lease for inbound '' @ tag @ '' is stale'')"

definition retain_lineages :: "('x, 'w) shoes_core \<Rightarrow> ('c, 'w) EngineInner \<Rightarrow> ReplayLineages \<Rightarrow> ReplayLineages" where
  "retain_lineages core e lineages =
     lineages\<lparr> rl_entries := filter (\<lambda>(_, entry). co_lineage_alive core (en_world e) (rl_authority entry)) (rl_entries lineages) \<rparr>"

definition live_scope :: "('x, 'w) shoes_core \<Rightarrow> ('c, 'w) EngineInner \<Rightarrow> ReplayLineages \<Rightarrow> string \<Rightarrow> nat option" where
  "live_scope core e lineages tag =
     (case map_of (rl_entries lineages) tag of
        Some entry \<Rightarrow> if co_scope_alive core (en_world e) (rl_live entry) then Some (rl_live entry) else None
      | None \<Rightarrow> None)"

definition prepare_replay :: "('x, 'w) shoes_core \<Rightarrow> string \<Rightarrow> ReplayAdmission \<Rightarrow> ('c, 'w) EngineInner \<Rightarrow>
    ('c, 'w) EngineInner \<times> (EngineError + PreparedReplay)" where
  "prepare_replay core tag admission e =
     (let lineages = retain_lineages core e (cs_replay_lineages (en_control e));
          e = on_control (\<lambda>c. c\<lparr> cs_replay_lineages := lineages \<rparr>) e in
      case admission of
        Fresh \<Rightarrow>
          (case live_scope core e lineages tag of
             Some scope \<Rightarrow> (e, Inr \<lparr> pr_state = co_scope_state core (en_world e) scope, pr_lineage = co_scope_lineage core (en_world e) scope,
                pr_scope = scope \<rparr>)
           | None \<Rightarrow>
               if map_of (rl_entries lineages) tag = None \<and> rl_limit lineages \<le> length (rl_entries lineages)
               then (e, Inl (lineage_limit (rl_limit lineages) tag))
               else (case on_world (co_new_replay_state core) e of (e1, state) \<Rightarrow>
                     case on_world (co_new_scope core state None) e1 of (e2, scope) \<Rightarrow>
                       (e2, Inr \<lparr> pr_state = state, pr_lineage = co_scope_lineage core (en_world e2) scope, pr_scope = scope \<rparr>)))
      | Preserved state lineage \<Rightarrow>
          (case map_of (rl_entries lineages) tag of
             Some entry \<Rightarrow>
               if rl_authority entry = lineage
               then (case live_scope core e lineages tag of
                       Some scope \<Rightarrow>
                         if co_scope_lineage core (en_world e) scope = lineage
                         then (e, Inr \<lparr> pr_state = state, pr_lineage = lineage, pr_scope = scope \<rparr>)
                         else (case on_world (co_new_scope core state (Some lineage)) e of (e1, scope') \<Rightarrow>
                            (e1, Inr \<lparr> pr_state = state, pr_lineage = lineage, pr_scope = scope' \<rparr>))
                     | None \<Rightarrow> (case on_world (co_new_scope core state (Some lineage)) e of (e1, scope') \<Rightarrow>
                          (e1, Inr \<lparr> pr_state = state, pr_lineage = lineage, pr_scope = scope' \<rparr>)))
               else (e, Inl (stale_lease tag))
           | None \<Rightarrow> (e, Inl (stale_lease tag))))"

definition publish_replay :: "string \<Rightarrow> PreparedReplay \<Rightarrow> ControlState \<Rightarrow> ControlState" where
  "publish_replay tag replay c =
     c\<lparr> cs_replay_lineages := (cs_replay_lineages c)\<lparr> rl_entries :=
        AList.update tag \<lparr> rl_authority = pr_lineage replay, rl_live = pr_scope replay \<rparr> (rl_entries (cs_replay_lineages c)) \<rparr> \<rparr>"

section \<open>Candidates\<close>

definition registry_kinds :: "('x, 'w) shoes_core \<Rightarrow> 'x ServerConfig list \<Rightarrow> EngineError + CredentialKinds" where
  "registry_kinds core server_configs = registry_kinds_for (co_multi_user core) (co_label core) (map sc_protocol server_configs)"

definition build_user_registry :: "('x, 'w) shoes_core \<Rightarrow> credential_api \<Rightarrow> 'c user_context \<Rightarrow> 'x ServerConfig list \<Rightarrow> UserSpec list \<Rightarrow>
    (EngineError + 'c MemoryUserRegistry) option" where
  "build_user_registry core ca uc server_configs users =
     (case registry_kinds core server_configs of Inl e \<Rightarrow> Some (Inl e) | Inr kinds \<Rightarrow> from_users ca uc kinds users)"

definition halt :: "('c, 'w) EngineInner \<Rightarrow> ('c, 'w) EngineInner" where
  "halt e = e\<lparr> en_halted := True \<rparr>"

definition panicked :: "EngineError" where
  "panicked = EngineIo (other_io ''panicked'')"

text \<open>\<open>None\<close> is a panic inside the user table.\<close>

definition unwind :: "(EngineError + 'a) option \<Rightarrow> ('c, 'w) EngineInner \<Rightarrow> ('c, 'w) EngineInner \<times> (EngineError + 'a)" where
  "unwind result e = (case result of None \<Rightarrow> (halt e, Inl panicked) | Some r \<Rightarrow> (e, r))"

definition empty_tag :: EngineError where "empty_tag = InvalidConfig ''tag must not be empty''"

definition candidate_registry :: "('x, 'w) shoes_core \<Rightarrow> credential_api \<Rightarrow> 'c user_context \<Rightarrow> 'x ServerConfig list \<Rightarrow> UserSpec list option \<Rightarrow>
    ('c, 'w) EngineInner \<Rightarrow> ('c, 'w) EngineInner \<times> (EngineError + 'c MemoryUserRegistry option)" where
  "candidate_registry core ca uc server_configs users e =
     (case users of
        None \<Rightarrow> (e, Inr None)
      | Some specs \<Rightarrow> andthen (unwind (build_user_registry core ca uc server_configs specs) e) (\<lambda>registry e1. (e1, Inr (Some registry))))"

fun claim_keys :: "(BindKey \<times> string) list \<Rightarrow> string \<Rightarrow> BindKey list \<Rightarrow> BindKey list \<Rightarrow> EngineError + BindKey list" where
  "claim_keys bound tag [] claimed = Inr claimed"
| "claim_keys bound tag (key # keys) claimed =
     (case map_of bound key of
        Some owner \<Rightarrow> Inl (AddressInUse (display_bind_key key) owner)
      | None \<Rightarrow>
          if key \<in> set claimed then Inl (AddressInUse (display_bind_key key) tag)
          else claim_keys bound tag keys (claimed @ [key]))"

fun probe_all :: "('x, 'w) shoes_core \<Rightarrow> 'w \<Rightarrow> SocketKind \<Rightarrow> SocketAddr list \<Rightarrow> EngineError + unit" where
  "probe_all core w kind [] = Inr ()"
| "probe_all core w kind (address # addrs) = rbind (rmap_err EngineIo (co_probe_bind core w address kind)) (\<lambda>_. probe_all core w kind addrs)"

fun claim_targets :: "('x, 'w) shoes_core \<Rightarrow> 'w \<Rightarrow> (BindKey \<times> string) list \<Rightarrow> string \<Rightarrow> BindTargets list \<Rightarrow> BindKey list \<Rightarrow> EngineError + BindKey list" where
  "claim_targets core w bound tag [] claimed = Inr claimed"
| "claim_targets core w bound tag (target # targets) claimed =
     rbind (claim_keys bound tag (target_keys target) claimed) (\<lambda>claimed'.
     rbind (case target_kind target of Some kind \<Rightarrow> probe_all core w kind (target_addresses target) | None \<Rightarrow> Inr ()) (\<lambda>_.
     claim_targets core w bound tag targets claimed'))"

definition validate_inbound :: "('x, 'w) shoes_core \<Rightarrow> credential_api \<Rightarrow> 'c user_context \<Rightarrow> ('c, 'w) EngineInner \<Rightarrow> InboundSpec \<Rightarrow> EngineError + unit" where
  "validate_inbound core ca uc e spec =
     (if trim (is_tag spec) = [] then Inl empty_tag
      else
        let config = apply_analysis_policy e (is_config spec) in
        rbind (if is_users spec \<noteq> None then install_placeholder_credentials (co_random_uuid core) config (en_world e) else Inr (config, en_world e))
          (\<lambda>(config', w).
        case validate_inbound_config core config' w of (w1, result) \<Rightarrow>
        rbind result (\<lambda>validated.
        rbind (snd (candidate_registry core ca uc (vi_configs validated) (is_users spec) e)) (\<lambda>_.
        rbind (resolve_bind_targets_for_configs core w1 (vi_configs validated)) (\<lambda>targets.
        rbind (claim_keys [] (trim (is_tag spec)) (concat (map target_keys targets)) []) (\<lambda>_. Inr ()))))))"

section \<open>Starting\<close>

record ('x, 'c) AddCandidate =
  ad_spec :: InboundSpec
  ad_validated :: "'x ValidatedInbound"
  ad_registry :: "'c MemoryUserRegistry option"
  ad_targets :: "BindTargets list"
  ad_admission :: ReplayAdmission

definition fill_credentials :: "('x, 'w) shoes_core \<Rightarrow> bool \<Rightarrow> json \<Rightarrow> ('c, 'w) EngineInner \<Rightarrow> ('c, 'w) EngineInner \<times> (EngineError + json)" where
  "fill_credentials core dynamic config e =
     (if \<not> dynamic then (e, Inr config)
      else case install_placeholder_credentials (co_random_uuid core) config (en_world e) of
        Inl err \<Rightarrow> (e, Inl err)
      | Inr (config', w) \<Rightarrow> (e\<lparr> en_world := w \<rparr>, Inr config'))"

definition analysed :: "'c user_context \<Rightarrow> 'c MemoryUserRegistry option \<Rightarrow> ('c, 'w) EngineInner \<Rightarrow> ('c, 'w) EngineInner \<times> 'c MemoryUserRegistry option" where
  "analysed uc registry e =
     (case registry of
        None \<Rightarrow> (e, None)
      | Some r \<Rightarrow> (e\<lparr> en_next := en_next e + 1 \<rparr>, Some (set_analysis_context uc (en_next e) r)))"

definition add_prepare :: "('x, 'w) shoes_core \<Rightarrow> credential_api \<Rightarrow> 'c user_context \<Rightarrow> InboundSpec \<Rightarrow> ReplayAdmission \<Rightarrow> ('c, 'w) EngineInner \<Rightarrow>
    ('c, 'w) EngineInner \<times> (EngineError + ('x, 'c) AddCandidate)" where
  "add_prepare core ca uc spec admission e =
     (if trim (is_tag spec) = [] then (e, Inl empty_tag)
      else
        andthen (fill_credentials core (is_users spec \<noteq> None) (is_config spec) e) (\<lambda>config e1.
        andthen (on_world (validate_inbound_config core (apply_analysis_policy e1 config)) e1) (\<lambda>validated e2.
        andthen (candidate_registry core ca uc (vi_configs validated) (is_users spec) e2) (\<lambda>registry e3.
        case analysed uc registry e3 of (e4, registry') \<Rightarrow>
        if slot_at e4 (is_tag spec) \<noteq> None then (e4, Inl (DuplicateTag (is_tag spec)))
        else (e4, rbind (resolve_bind_targets_for_configs core (en_world e4) (vi_configs validated)) (\<lambda>targets.
          Inr \<lparr> ad_spec = spec, ad_validated = validated, ad_registry = registry', ad_targets = targets, ad_admission = admission \<rparr>))))))"

text \<open>The listeners started so far, also when one of them fails.\<close>

fun start_all :: "('x, 'w) shoes_core \<Rightarrow> bool \<Rightarrow> nat \<Rightarrow> ('x ServerConfig \<times> BindTargets) list \<Rightarrow> 'x CandidateResolvers \<Rightarrow> nat list \<Rightarrow>
    ('c, 'w) EngineInner \<Rightarrow> ('c, 'w) EngineInner \<times> nat list \<times> (EngineError + 'x CandidateResolvers)" where
  "start_all core users scope [] resolvers started e = (e, started, Inr resolvers)"
| "start_all core users scope ((server_config, target) # pairs) resolvers started e =
     (case resolve core server_config resolvers e of
        (e1, Inl err) \<Rightarrow> (e1, started, Inl err)
      | (e1, Inr (resolvers', resolver)) \<Rightarrow>
          (case on_world (co_start_servers core server_config resolver users scope (resolved_bind target)) e1 of
             (e2, Inl err) \<Rightarrow> (e2, started, Inl (EngineIo err))
           | (e2, Inr handle) \<Rightarrow> start_all core users scope pairs resolvers' (started @ [handle]) e2))"

definition candidate_info :: "('x, 'w) shoes_core \<Rightarrow> ('x, 'c) AddCandidate \<Rightarrow> nat list \<Rightarrow> 'w \<Rightarrow> InboundInfo" where
  "candidate_info core candidate started w =
     (let first = vi_configs (ad_validated candidate) ! 0 in
      \<lparr> ii_tag = is_tag (ad_spec candidate), ii_protocol = display_name (co_label core) (sc_protocol first),
        ii_transport = transport_name (sc_transport first), ii_bind = concat (map target_display (ad_targets candidate)),
        ii_listeners = sum_list (map (co_listener_count core w) started), ii_revision = 0, ii_users = None \<rparr>)"

definition register_inbound :: "('x, 'w) shoes_core \<Rightarrow> ('x, 'c) AddCandidate \<Rightarrow> BindKey list \<Rightarrow> PreparedReplay \<Rightarrow> nat list \<Rightarrow> InboundInfo \<Rightarrow>
    ('c, 'w) EngineInner \<Rightarrow> ('c, 'w) EngineInner \<times> InboundInfo" where
  "register_inbound core candidate claimed replay started info e =
     (let tag = is_tag (ad_spec candidate);
          slot = slot_new (en_next e) (is_config (ad_spec candidate)) info claimed started (pr_state replay) (pr_lineage replay) (ad_registry candidate);
          e1 = e\<lparr> en_next := en_next e + 1, en_bound := fold (\<lambda>key. AList.update key tag) claimed (en_bound e) \<rparr> in
      (set_slot tag slot (on_control (publish_replay tag replay) e1), describe core (en_world e) slot))"

definition failed_to_start :: "string \<Rightarrow> listener_exit \<Rightarrow> EngineError" where
  "failed_to_start tag dead = EngineIo (other_io (''inbound '' @ tag @ '' failed to start: '' @ describe_dead_listener dead))"

definition add_commit :: "('x, 'w) shoes_core \<Rightarrow> ('x, 'c) AddCandidate \<Rightarrow> ('c, 'w) EngineInner \<Rightarrow> ('c, 'w) EngineInner \<times> (EngineError + InboundInfo)" where
  "add_commit core candidate e0 =
     (let e = prune_inline_dns core e0; groups = cs_client_chain_groups (en_control e); tag = is_tag (ad_spec candidate);
          validated = ad_validated candidate in
      if slot_at e tag \<noteq> None then (e, Inl (DuplicateTag tag))
      else
        andthen (prepare_replay core tag (ad_admission candidate) e) (\<lambda>replay e1.
        andthen (e1, claim_targets core (en_world e1) (en_bound e1) tag (ad_targets candidate) []) (\<lambda>claimed e2.
        andthen (ensure_default_urltest_probe_resolver core groups e2) (\<lambda>_ e3.
        case on_world (co_transaction core groups) e3 of (e4, transaction) \<Rightarrow>
        case start_all core (ad_registry candidate \<noteq> None) (pr_scope replay) (zip (vi_configs validated) (ad_targets candidate))
            \<lparr> cd_dns_groups = vi_dns_groups validated, cd_dns_cache_key = vi_dns_cache_key validated, cd_pending = [] \<rparr> [] e4 of
          (e5, started, Inl err) \<Rightarrow>
            (in_world (co_drop_transaction core transaction) (prune_inline_dns core (in_world (abandon core started) e5)), Inl err)
        | (e5, started, Inr resolvers) \<Rightarrow>
            let info = candidate_info core candidate started (en_world e5) in
            (case on_world (first_dead core started) (in_world (co_sleep core) e5) of
               (e6, Some dead) \<Rightarrow>
                 (in_world (co_drop_transaction core transaction) (prune_inline_dns core (in_world (abandon core started) e6)),
                  Inl (failed_to_start tag dead))
             | (e6, None) \<Rightarrow>
                 (case register_inbound core candidate claimed replay started info e6 of (e7, info') \<Rightarrow>
                    (publish_resolvers core resolvers (in_world (co_commit_and_start core transaction) e7), Inr info')))))))"

definition add_inbound_inner :: "('x, 'w) shoes_core \<Rightarrow> credential_api \<Rightarrow> 'c user_context \<Rightarrow> InboundSpec \<Rightarrow> ReplayAdmission \<Rightarrow> ('c, 'w) EngineInner \<Rightarrow>
    ('c, 'w) EngineInner \<times> (EngineError + InboundInfo)" where
  "add_inbound_inner core ca uc spec admission e = andthen (add_prepare core ca uc spec admission e) (add_commit core)"

definition engine_add_inbound :: "('x, 'w) shoes_core \<Rightarrow> credential_api \<Rightarrow> 'c user_context \<Rightarrow> InboundSpec \<Rightarrow> ('c, 'w) EngineInner \<Rightarrow>
    ('c, 'w) EngineInner \<times> (EngineError + InboundInfo)" where
  "engine_add_inbound core ca uc spec = add_inbound_inner core ca uc spec Fresh"

definition engine_add_inbound_with_replay :: "('x, 'w) shoes_core \<Rightarrow> credential_api \<Rightarrow> 'c user_context \<Rightarrow> InboundSpec \<Rightarrow> InboundReplayLease \<Rightarrow>
    ('c, 'w) EngineInner \<Rightarrow> ('c, 'w) EngineInner \<times> (EngineError + InboundInfo)" where
  "engine_add_inbound_with_replay core ca uc spec replay e =
     (if is_tag spec \<noteq> le_tag replay
      then (e, Inl (InvalidConfig (''replay lease for inbound '' @ le_tag replay @ '' cannot start inbound '' @ is_tag spec)))
      else if en_replay_identity e \<noteq> le_engine_identity replay
      then (e, Inl (InvalidConfig (''replay lease for inbound '' @ le_tag replay @ '' belongs to another engine'')))
      else add_inbound_inner core ca uc spec (Preserved (le_state replay) (le_lineage replay)) e)"

section \<open>Updating\<close>

record 'c InboundUpdateSnapshot =
  ip_tag :: string
  ip_slot :: "'c InboundSlot"
  ip_revision :: u64

record ('x, 'c) UpdateCandidate =
  up_snapshot :: "'c InboundUpdateSnapshot"
  up_source :: json
  up_validated :: "'x ValidatedInbound"
  up_targets :: "BindTargets list"

definition users_in_update :: "string \<Rightarrow> EngineError" where
  "users_in_update tag = Unsupported
     (''a config update for '' @ tag @ '' cannot carry users; change them with add_user/remove_user, which apply one user at a time'')"

definition update_prepare :: "('x, 'w) shoes_core \<Rightarrow> InboundSpec \<Rightarrow> ('c, 'w) EngineInner \<Rightarrow>
    ('c, 'w) EngineInner \<times> (EngineError + ('x, 'c) UpdateCandidate)" where
  "update_prepare core spec e =
     (if is_users spec \<noteq> None then (e, Inl (users_in_update (is_tag spec)))
      else case slot_at e (is_tag spec) of
        None \<Rightarrow> (e, Inl (UnknownTag (is_tag spec)))
      | Some slot \<Rightarrow>
          let snapshot = \<lparr> ip_tag = ii_tag (sl_info slot), ip_slot = slot, ip_revision = slot_revision core (en_world e) slot \<rparr> in
          andthen (fill_credentials core (sl_users slot \<noteq> None) (is_config spec) e) (\<lambda>config e1.
          andthen (on_world (validate_inbound_config core (apply_analysis_policy e1 config)) e1) (\<lambda>validated e2.
          (e2, rbind (resolve_bind_targets_for_configs core (en_world e2) (vi_configs validated)) (\<lambda>targets.
             Inr \<lparr> up_snapshot = snapshot, up_source = is_config spec, up_validated = validated, up_targets = targets \<rparr>)))))"

text \<open>The fence: the registered slot is the same \<open>Arc\<close> and has the revision observed before.\<close>

definition verify :: "('x, 'w) shoes_core \<Rightarrow> 'c InboundUpdateSnapshot \<Rightarrow> ('c, 'w) EngineInner \<Rightarrow> EngineError + 'c InboundSlot" where
  "verify core snapshot e =
     (case slot_at e (ip_tag snapshot) of
        Some current \<Rightarrow>
          if sl_id current = sl_id (ip_slot snapshot) \<and> slot_revision core (en_world e) current = ip_revision snapshot then Inr current
          else Inl (concurrent_modification (''inbound '' @ ip_tag snapshot @ '' was removed, replaced, or reloaded''))
      | None \<Rightarrow> Inl (concurrent_modification (''inbound '' @ ip_tag snapshot @ '' was removed, replaced, or reloaded'')))"

definition check_kinds :: "('x, 'w) shoes_core \<Rightarrow> 'x ServerConfig list \<Rightarrow> 'c InboundSlot \<Rightarrow> EngineError + unit" where
  "check_kinds core server_configs slot =
     (case sl_users slot of
        None \<Rightarrow> Inr ()
      | Some registry \<Rightarrow>
          rbind (registry_kinds core server_configs) (\<lambda>kinds.
          if kinds \<noteq> mr_kinds registry
          then Inl (ReloadRequired (''cannot change what this inbound authenticates with in place: its users hold '' @
            accepted_fields (mr_kinds registry) @ '' and the new config asks for '' @ accepted_fields kinds @
            ''. Their credentials would have to be reissued, so do it as a remove plus an add''))
          else Inr ()))"

fun reload_candidates :: "('x, 'w) shoes_core \<Rightarrow> ('x ServerConfig \<times> BindTargets) list \<Rightarrow> 'x CandidateResolvers \<Rightarrow> ('c, 'w) EngineInner \<Rightarrow>
    ('c, 'w) EngineInner \<times> (EngineError + 'x CandidateResolvers \<times> 'x ReloadCandidate list)" where
  "reload_candidates core [] resolvers e = (e, Inr (resolvers, []))"
| "reload_candidates core ((server_config, target) # pairs) resolvers e =
     andthen (resolve core server_config resolvers e) (\<lambda>(resolvers', resolver) e1.
     andthen (reload_candidates core pairs resolvers' e1) (\<lambda>(resolvers'', candidates) e2.
       (e2, Inr (resolvers'', \<lparr> rd_config = server_config, rd_resolver = resolver, rd_resolved_bind = resolved_bind target \<rparr> # candidates))))"

definition update_commit :: "('x, 'w) shoes_core \<Rightarrow> ('x, 'c) UpdateCandidate \<Rightarrow> ('c, 'w) EngineInner \<Rightarrow> ('c, 'w) EngineInner \<times> (EngineError + InboundInfo)" where
  "update_commit core candidate e0 =
     (let e = prune_inline_dns core e0; groups = cs_client_chain_groups (en_control e); validated = up_validated candidate;
          tag = ip_tag (up_snapshot candidate) in
      andthen (e, verify core (up_snapshot candidate) e) (\<lambda>slot e1.
      andthen (e1, check_kinds core (vi_configs validated) slot) (\<lambda>_ e2.
      andthen (ensure_default_urltest_probe_resolver core groups e2) (\<lambda>_ e3.
      case on_world (co_transaction core groups) e3 of (e4, transaction) \<Rightarrow>
      case reload_candidates core (zip (vi_configs validated) (up_targets candidate))
          \<lparr> cd_dns_groups = vi_dns_groups validated, cd_dns_cache_key = vi_dns_cache_key validated, cd_pending = [] \<rparr> e4 of
        (e5, Inl err) \<Rightarrow> (in_world (co_drop_transaction core transaction) e5, Inl err)
      | (e5, Inr (resolvers, candidates)) \<Rightarrow>
          (case on_world (slot_reload core candidates slot) e5 of
             (e6, Inl err) \<Rightarrow> (in_world (co_drop_transaction core transaction) (prune_inline_dns core e6), Inl (from_reload_rejection err))
           | (e6, Inr (slot', revision)) \<Rightarrow>
               let slot'' = slot'\<lparr> sl_source := up_source candidate \<rparr>;
                   e7 = prune_inline_dns core (publish_resolvers core resolvers
                     (in_world (co_commit_and_start core transaction) (set_slot tag slot'' e6))) in
               (e7, Inr (describe core (en_world e7) slot'')))))))"

definition engine_update_inbound :: "('x, 'w) shoes_core \<Rightarrow> InboundSpec \<Rightarrow> ('c, 'w) EngineInner \<Rightarrow> ('c, 'w) EngineInner \<times> (EngineError + InboundInfo)" where
  "engine_update_inbound core spec e = andthen (update_prepare core spec e) (update_commit core)"

section \<open>Removing\<close>

datatype InboundRemovalMode = Graceful | Hard

text \<open>\<open>Drop for ReleaseOnDrop\<close>: it runs whether the removal completes or its caller goes away.\<close>

definition release_on_drop :: "('x, 'w) shoes_core \<Rightarrow> 'c InboundSlot \<Rightarrow> InboundRemovalMode \<Rightarrow> ('c, 'w) EngineInner \<Rightarrow> ('c, 'w) EngineInner" where
  "release_on_drop core slot mode e =
     (let e1 = in_world (case mode of Hard \<Rightarrow> slot_hard_stop core slot | Graceful \<Rightarrow> slot_stop_accepting core slot) e in
      e1\<lparr> en_bound := filter (\<lambda>(key, _). key \<notin> set (sl_keys slot)) (en_bound e1) \<rparr>)"

text \<open>\<open>cancelled\<close>: the caller drops the future while the listeners let go of their sockets.\<close>

definition remove_inbound_inner :: "('x, 'w) shoes_core \<Rightarrow> bool \<Rightarrow> string \<Rightarrow> InboundRemovalMode \<Rightarrow> ('c, 'w) EngineInner \<Rightarrow>
    ('c, 'w) EngineInner \<times> (EngineError + InboundInfo) option" where
  "remove_inbound_inner core cancelled tag mode e0 =
     (let e = prune_inline_dns core e0 in
      case slot_at e tag of
        None \<Rightarrow> (e, Some (Inl (UnknownTag tag)))
      | Some slot \<Rightarrow>
          let e1 = e\<lparr> en_inbounds := AList.delete tag (en_inbounds e) \<rparr> in
          if cancelled then (release_on_drop core slot mode e1, None)
          else
            let e2 = in_world (case mode of Graceful \<Rightarrow> slot_shutdown core slot | Hard \<Rightarrow> slot_hard_shutdown core slot) e1;
                e3 = release_on_drop core slot mode e2 in
            (prune_inline_dns core e3, Some (Inr (describe core (en_world e3) slot))))"

definition engine_remove_inbound :: "('x, 'w) shoes_core \<Rightarrow> InboundRemovalMode \<Rightarrow> string \<Rightarrow> ('c, 'w) EngineInner \<Rightarrow>
    ('c, 'w) EngineInner \<times> (EngineError + InboundInfo)" where
  "engine_remove_inbound core mode tag e = (case remove_inbound_inner core False tag mode e of (e1, result) \<Rightarrow> (e1, the result))"

definition engine_drop :: "('x, 'w) shoes_core \<Rightarrow> ('c, 'w) EngineInner \<Rightarrow> 'w" where
  "engine_drop core e = fold (\<lambda>(_, slot). slot_stop_accepting core slot) (en_inbounds e) (en_world e)"

section \<open>Users\<close>

definition no_user_list :: "string \<Rightarrow> EngineError" where
  "no_user_list tag = Unsupported (''inbound '' @ tag @ '' was created without a `users` list, so its credentials come from its '' @
     ''config and cannot be changed at runtime'')"

definition registry_for :: "('c, 'w) EngineInner \<Rightarrow> string \<Rightarrow> EngineError + 'c InboundSlot \<times> 'c MemoryUserRegistry" where
  "registry_for e tag =
     (case slot_at e tag of
        None \<Rightarrow> Inl (UnknownTag tag)
      | Some slot \<Rightarrow> (case sl_users slot of None \<Rightarrow> Inl (no_user_list tag) | Some registry \<Rightarrow> Inr (slot, registry)))"

text \<open>An operation of the user table of an inbound; \<open>None\<close> is a panic or a wait that never ends.\<close>

definition on_registry :: "string \<Rightarrow> ('c MemoryUserRegistry \<Rightarrow> ('c MemoryUserRegistry \<times> (EngineError + 'a)) option) \<Rightarrow> ('c, 'w) EngineInner \<Rightarrow>
    ('c, 'w) EngineInner \<times> (EngineError + 'a)" where
  "on_registry tag f e =
     (case registry_for e tag of
        Inl err \<Rightarrow> (e, Inl err)
      | Inr (slot, registry) \<Rightarrow>
          (case f registry of
             None \<Rightarrow> (halt e, Inl panicked)
           | Some (registry', result) \<Rightarrow> (set_slot tag (slot\<lparr> sl_users := Some registry' \<rparr>) e, result)))"

definition engine_add_user :: "credential_api \<Rightarrow> 'c user_context \<Rightarrow> string \<Rightarrow> UserSpec \<Rightarrow> ('c, 'w) EngineInner \<Rightarrow>
    ('c, 'w) EngineInner \<times> (EngineError + UserInfo)" where
  "engine_add_user ca uc tag user = on_registry tag (\<lambda>registry. upsert ca uc registry user)"

text \<open>\<open>MemoryUserRegistry::remove\<close>: the revocation, then the finalizer task, which waits until the connections of the
  generation have exited and ends with its counters unless its join fails. \<open>settle\<close> is what the connections of a
  revoked record leave in it.\<close>

definition remove_and_wait :: "credential_api \<Rightarrow> 'c user_context \<Rightarrow> ('c \<Rightarrow> 'c) \<Rightarrow> string option \<Rightarrow> string \<Rightarrow> string \<Rightarrow> 'c MemoryUserRegistry \<Rightarrow>
    ('c MemoryUserRegistry \<times> (EngineError + UserInfo)) option" where
  "remove_and_wait ca uc settle failure tag user registry =
     Option.bind (remove_locked ca uc tag user registry) (\<lambda>(registry1, result).
     case result of
       Inl err \<Rightarrow> Some (registry1, Inl err)
     | Inr (g, newly_removed) \<Rightarrow>
         (case (if newly_removed then failure else None) of
            Some error \<Rightarrow> (case remove_cancelled uc g error registry1 of (registry2, err) \<Rightarrow> Some (registry2, Inl err))
          | None \<Rightarrow>
              map_option (\<lambda>(registry2, info). (registry2, Inr info))
                (remove_collect uc g (context_update (en_context (dg_entry (mr_generations registry1 ! g))) settle registry1))))"

definition engine_remove_user :: "('x, 'w) shoes_core \<Rightarrow> credential_api \<Rightarrow> 'c user_context \<Rightarrow> ('c \<Rightarrow> 'c) \<Rightarrow> string \<Rightarrow> string \<Rightarrow> ('c, 'w) EngineInner \<Rightarrow>
    ('c, 'w) EngineInner \<times> (EngineError + UserInfo)" where
  "engine_remove_user core ca uc settle tag user e =
     (case on_world (co_finalizer core) e of (e1, failure) \<Rightarrow> on_registry tag (remove_and_wait ca uc settle failure tag user) e1)"

definition engine_kick_user :: "'c user_context \<Rightarrow> string \<Rightarrow> string \<Rightarrow> ('c, 'w) EngineInner \<Rightarrow> ('c, 'w) EngineInner \<times> (EngineError + u64)" where
  "engine_kick_user uc tag user = on_registry tag (\<lambda>registry. Some (kick uc tag user registry))"

definition engine_list_users :: "'c user_context \<Rightarrow> ('c, 'w) EngineInner \<Rightarrow> string \<Rightarrow> EngineError + UserInfo list" where
  "engine_list_users uc e tag = rbind (registry_for e tag) (\<lambda>(_, registry). Inr (list_users uc registry))"

definition engine_take_user_traffic :: "'c user_context \<Rightarrow> string \<Rightarrow> string \<Rightarrow> ('c, 'w) EngineInner \<Rightarrow> ('c, 'w) EngineInner \<times> (EngineError + UserInfo)" where
  "engine_take_user_traffic uc tag user = on_registry tag (\<lambda>registry. Some (take_traffic uc tag user registry))"

definition engine_take_inbound_traffic :: "'c user_context \<Rightarrow> string \<Rightarrow> ('c, 'w) EngineInner \<Rightarrow> ('c, 'w) EngineInner \<times> (EngineError + UserInfo list)" where
  "engine_take_inbound_traffic uc tag = on_registry tag (\<lambda>registry. Some (map_prod id Inr (take_all_traffic uc registry)))"

definition engine_take_nonzero_inbound_traffic :: "'c user_context \<Rightarrow> string \<Rightarrow> ('c, 'w) EngineInner \<Rightarrow>
    ('c, 'w) EngineInner \<times> (EngineError + UserInfo list)" where
  "engine_take_nonzero_inbound_traffic uc tag = on_registry tag (\<lambda>registry. Some (map_prod id Inr (take_nonzero_traffic uc registry)))"

definition engine_get_user :: "'c user_context \<Rightarrow> ('c, 'w) EngineInner \<Rightarrow> string \<Rightarrow> string \<Rightarrow> EngineError + UserInfo" where
  "engine_get_user uc e tag user =
     rbind (registry_for e tag) (\<lambda>(_, registry). ok_or (UnknownUser tag user) (get_user uc user registry))"

end
