(* ===== verification/Engine_Users.thy ===== *)
theory Engine_Users
  imports User_Table
begin

text \<open>
  What a user table puts in force: for every user, the credentials it answers to and the limits it runs under. Every
  operation of the table is shown as a change of that map. The laws of the accounting record state what its documentation
  says: the report of a record shows the id and the settings it was last given, kicking, counting and taking leave
  them alone, and the connections of a revoked record come to an end.
\<close>

section \<open>Views\<close>

record user_state =
  uv_credentials :: "Credentials option"
  uv_enabled :: bool
  uv_max_conns :: u64
  uv_upload_limit_bps :: u64
  uv_download_limit_bps :: u64

definition credentials_of :: "Entry \<Rightarrow> Credentials" where
  "credentials_of e =
     \<lparr> cr_uuid = en_uuid e, cr_trojan_hash = en_trojan_hash e, cr_password = en_password e, cr_shadowsocks = en_shadowsocks e,
       cr_tuic_password = en_tuic_password e, cr_anytls_hash = en_anytls_hash e, cr_naive_encoded = en_naive_encoded e \<rparr>"

definition settings_of :: "'c user_context \<Rightarrow> 'c \<Rightarrow> bool \<times> u64 \<times> u64 \<times> u64" where
  "settings_of uc c =
     (let stats = uc_stats uc c in (uss_enabled stats, uss_max_conns stats, uss_upload_limit_bps stats, uss_download_limit_bps stats))"

definition state_with :: "Credentials option \<Rightarrow> bool \<times> u64 \<times> u64 \<times> u64 \<Rightarrow> user_state" where
  "state_with c s = (case s of (enabled, conns, up, down) \<Rightarrow>
     \<lparr> uv_credentials = c, uv_enabled = enabled, uv_max_conns = conns, uv_upload_limit_bps = up, uv_download_limit_bps = down \<rparr>)"

definition entry_state :: "'c user_context \<Rightarrow> 'c MemoryUserRegistry \<Rightarrow> Entry \<Rightarrow> user_state" where
  "entry_state uc r e = state_with (Some (credentials_of e)) (settings_of uc (context_of r e))"

definition registry_view :: "'c user_context \<Rightarrow> 'c MemoryUserRegistry \<Rightarrow> string \<rightharpoonup> user_state" where
  "registry_view uc r = (\<lambda>user. map_option (entry_state uc r) (map_of (mr_users r) user))"

definition wanted_settings :: "UserSpec \<Rightarrow> bool \<times> u64 \<times> u64 \<times> u64" where
  "wanted_settings spec = (us_enabled spec, limit_of (us_max_conns spec), limit_of (us_upload_limit_bps spec), limit_of (us_download_limit_bps spec))"

definition spec_state :: "credential_api \<Rightarrow> CredentialKinds \<Rightarrow> UserSpec \<Rightarrow> user_state" where
  "spec_state ca kinds spec =
     state_with (case resolved_id spec of
        None \<Rightarrow> None
      | Some user \<Rightarrow> (case parse_credentials ca kinds user spec of Inl _ \<Rightarrow> None | Inr c \<Rightarrow> Some c)) (wanted_settings spec)"

section \<open>Laws of the accounting record\<close>

definition setting_laws :: "'c user_context \<Rightarrow> bool" where
  "setting_laws uc \<longleftrightarrow>
     (\<forall>c. uss_id (uc_stats uc c) = uc_id uc c) \<and>
     (\<forall>a c. settings_of uc (uc_set_analysis_context uc a c) = settings_of uc c) \<and>
     (\<forall>b c n u d. settings_of uc c = (b, n, u, d) \<longrightarrow>
        (\<forall>b'. settings_of uc (uc_set_enabled uc b' c) = (b', n, u, d)) \<and>
        (\<forall>n'. settings_of uc (uc_set_max_conns uc n' c) = (b, n', u, d)) \<and>
        (\<forall>u' d'. settings_of uc (uc_set_speed_limits uc u' d' c) = (b, n, u', d'))) \<and>
     (\<forall>c. settings_of uc (fst (uc_kick_connections uc c)) = settings_of uc c) \<and>
     (\<forall>c. settings_of uc (fst (uc_take_traffic uc c)) = settings_of uc c)"

definition settles :: "'c user_context \<Rightarrow> ('c \<Rightarrow> 'c) \<Rightarrow> bool" where
  "settles uc settle \<longleftrightarrow> (\<forall>c. uc_conns uc (settle c) = 0 \<and> uc_id uc (settle c) = uc_id uc c \<and> settings_of uc (settle c) = settings_of uc c)"

lemma settings_in_force:
  assumes "setting_laws uc"
  shows "settings_of uc (settings uc a spec c) = wanted_settings spec"
proof -
  have enabled: "settings_of uc (uc_set_enabled uc b c) = (b, snd (settings_of uc c))" for b c
    using assms by (cases "settings_of uc c") (simp add: setting_laws_def)
  have conns: "settings_of uc (uc_set_max_conns uc n c) = (fst (settings_of uc c), n, snd (snd (settings_of uc c)))" for n c
    using assms by (cases "settings_of uc c") (simp add: setting_laws_def)
  have speed: "settings_of uc (uc_set_speed_limits uc u d c) = (fst (settings_of uc c), fst (snd (settings_of uc c)), u, d)" for u d c
    using assms by (cases "settings_of uc c") (simp add: setting_laws_def)
  show ?thesis by (simp add: settings_def Let_def speed conns enabled wanted_settings_def)
qed

lemma user_info_id: "setting_laws uc \<Longrightarrow> ui_id (user_info uc c) = uc_id uc c"
  by (simp add: user_info_def Let_def setting_laws_def)

section \<open>Changes of records\<close>

definition same_settings :: "'c user_context \<Rightarrow> 'c MemoryUserRegistry \<Rightarrow> 'c MemoryUserRegistry \<Rightarrow> bool" where
  "same_settings uc r r' \<longleftrightarrow> (\<exists>cs. r' = r\<lparr> mr_contexts := cs \<rparr> \<and> map (uc_id uc) cs = map (uc_id uc) (mr_contexts r) \<and>
     map (settings_of uc) cs = map (settings_of uc) (mr_contexts r))"

lemma same_settings_refl [simp]: "same_settings uc r r"
  by (auto simp: same_settings_def intro!: exI [of _ "mr_contexts r"])

lemma same_settings_trans: "same_settings uc r s \<Longrightarrow> same_settings uc s t \<Longrightarrow> same_settings uc r t"
  by (fastforce simp: same_settings_def)

lemma same_settings_only: "same_settings uc r r' \<Longrightarrow> only_contexts uc r r'"
  by (auto simp: same_settings_def only_contexts_def)

lemma same_settings_update:
  assumes "\<And>c. uc_id uc (f c) = uc_id uc c" "\<And>c. settings_of uc (f c) = settings_of uc c"
  shows "same_settings uc r (context_update a f r)"
proof -
  have "map (settings_of uc) ((mr_contexts r)[a := f (mr_contexts r ! a)]) = map (settings_of uc) (mr_contexts r)"
    using assms(2) by (cases "a < length (mr_contexts r)") (simp_all add: map_update list_update_same_conv list_update_beyond)
  moreover have "map (uc_id uc) ((mr_contexts r)[a := f (mr_contexts r ! a)]) = map (uc_id uc) (mr_contexts r)"
    using assms(1) by (cases "a < length (mr_contexts r)") (simp_all add: map_update list_update_same_conv list_update_beyond)
  ultimately show ?thesis by (auto simp: same_settings_def context_update_def)
qed

text \<open>The addresses of live users lie inside the heap of records.\<close>

lemma live_in_heap:
  assumes "contexts_ok uc r" "map_of (mr_users r) user = Some e"
  shows "en_context e < length (mr_contexts r)"
  using live_address [OF assms(1), of user e] assms by (simp add: live_def contexts_ok_def)

lemma generation_in_heap:
  assumes "contexts_ok uc r" "g < length (mr_generations r)"
  shows "en_context (dg_entry (mr_generations r ! g)) < length (mr_contexts r)"
proof -
  have "en_context (dg_entry (mr_generations r ! g)) \<in> set (addresses r)" using assms(2) by (simp add: addresses_def)
  with assms(1) show ?thesis by (simp add: contexts_ok_def)
qed

lemma same_settings_view:
  assumes "same_settings uc r r'" "contexts_ok uc r"
  shows "registry_view uc r' = registry_view uc r"
proof
  fix user
  from assms(1) obtain cs where cs: "r' = r\<lparr> mr_contexts := cs \<rparr>" "map (settings_of uc) cs = map (settings_of uc) (mr_contexts r)"
    by (auto simp: same_settings_def)
  have "settings_of uc (cs ! a) = settings_of uc (mr_contexts r ! a)" if "a < length (mr_contexts r)" for a
    using cs(2) that by (metis length_map nth_map)
  then show "registry_view uc r' user = registry_view uc r user"
    using live_in_heap [OF assms(2)] by (cases "map_of (mr_users r) user") (simp_all add: registry_view_def entry_state_def context_of_def cs(1))
qed

section \<open>Stored results\<close>

text \<open>A stored final report belongs to the user whose removal it ends.\<close>

definition results_ok :: "'c user_context \<Rightarrow> 'c MemoryUserRegistry \<Rightarrow> bool" where
  "results_ok uc r \<longleftrightarrow> (\<forall>g info. g < length (mr_generations r) \<and> dg_result (mr_generations r ! g) = Some info \<longrightarrow>
     ui_id info = owner_id uc r (dg_entry (mr_generations r ! g)))"

definition registry_ok :: "credential_api \<Rightarrow> 'c user_context \<Rightarrow> 'c MemoryUserRegistry \<Rightarrow> bool" where
  "registry_ok ca uc r \<longleftrightarrow> table_ok ca uc r \<and> results_ok uc r"

lemma registry_ok_contexts: "registry_ok ca uc r \<Longrightarrow> contexts_ok uc r"
  by (simp add: registry_ok_def table_ok_def registry_wf_def)

lemma same_settings_ok:
  assumes "same_settings uc r r'" "registry_ok ca uc r"
  shows "registry_ok ca uc r'" "registry_view uc r' = registry_view uc r" "mr_kinds r' = mr_kinds r" "mr_users r' = mr_users r"
proof -
  from assms(1) obtain cs where cs: "r' = r\<lparr> mr_contexts := cs \<rparr>" "map (uc_id uc) cs = map (uc_id uc) (mr_contexts r)"
    by (auto simp: same_settings_def)
  have "uc_id uc (cs ! a) = uc_id uc (mr_contexts r ! a)" if "a < length (mr_contexts r)" for a
    using cs(2) that by (metis length_map nth_map)
  then have "results_ok uc r'"
    using assms(2) generation_in_heap [OF registry_ok_contexts [OF assms(2)]]
    by (simp add: cs(1) results_ok_def registry_ok_def owner_id_def context_of_def)
  moreover have "table_ok ca uc r'"
    using table_ok_only_contexts [OF same_settings_only [OF assms(1)]] assms(2) by (simp add: registry_ok_def)
  ultimately show "registry_ok ca uc r'" by (simp add: registry_ok_def)
  show "registry_view uc r' = registry_view uc r" by (rule same_settings_view [OF assms(1) registry_ok_contexts [OF assms(2)]])
  show "mr_kinds r' = mr_kinds r" "mr_users r' = mr_users r" by (simp_all add: cs(1))
qed

section \<open>Operations\<close>

lemma kick_same: "context_laws uc \<Longrightarrow> setting_laws uc \<Longrightarrow> kick uc tag user r = (r', n) \<Longrightarrow> same_settings uc r r'"
  by (auto simp: kick_def context_laws_def setting_laws_def intro!: same_settings_update split: option.splits)

lemma taken_same:
  "context_laws uc \<Longrightarrow> setting_laws uc \<Longrightarrow> uc_id uc (fst (taken_user_info uc c)) = uc_id uc c \<and>
     settings_of uc (fst (taken_user_info uc c)) = settings_of uc c"
  by (simp add: taken_user_info_def context_laws_def setting_laws_def split: prod.split) (metis fst_conv)

lemma taken_id: "context_laws uc \<Longrightarrow> setting_laws uc \<Longrightarrow> ui_id (snd (taken_user_info uc c)) = uc_id uc c"
  by (simp add: taken_user_info_def taken_user_info_with_counters_def user_info_id context_laws_def split: prod.split) (metis fst_conv)

lemma take_entry_same: "context_laws uc \<Longrightarrow> setting_laws uc \<Longrightarrow> same_settings uc r (fst (take_entry uc e r))"
  unfolding take_entry_def fst_conv by (intro same_settings_update) (simp_all add: taken_same)

lemma take_entries_same: "context_laws uc \<Longrightarrow> setting_laws uc \<Longrightarrow> same_settings uc r (fst (take_entries uc es r))"
proof (induction es arbitrary: r)
  case (Cons e es)
  obtain r1 info where one: "take_entry uc e r = (r1, info)" by fastforce
  with take_entry_same [OF Cons.prems, of r e] Cons.IH [OF Cons.prems, of r1] show ?case
    by (auto intro: same_settings_trans split: prod.split)
qed simp

lemma take_traffic_same:
  assumes "context_laws uc" "setting_laws uc" "take_traffic uc tag user r = (r', result)" "contexts_ok uc r"
  shows "same_settings uc r r'" "result = Inr info \<Longrightarrow> ui_id info = user"
proof -
  show "same_settings uc r r'"
    using assms(3) take_entry_same [OF assms(1,2), of r] by (auto simp: take_traffic_def split: option.splits prod.splits) (metis fst_conv)
  assume "result = Inr info"
  with assms(3) obtain e where e: "map_of (mr_users r) user = Some e" "info = snd (taken_user_info uc (context_of r e))"
    by (auto simp: take_traffic_def take_entry_def split: option.splits)
  moreover have "owner_id uc r e = user" using assms(4) e(1) by (simp add: contexts_ok_def live_def)
  ultimately show "ui_id info = user" using taken_id [OF assms(1,2)] by (simp add: owner_id_def)
qed

lemma take_nonzero_same: "context_laws uc \<Longrightarrow> setting_laws uc \<Longrightarrow> take_nonzero_traffic uc r = (r', infos) \<Longrightarrow> same_settings uc r r'"
  using take_entries_same [of uc r "map snd (mr_users r)"] by (auto simp: take_nonzero_traffic_def split: prod.splits)

lemma analysis_same:
  assumes "context_laws uc" "setting_laws uc" "registry_ok ca uc r"
  shows "registry_ok ca uc (set_analysis_context uc a r)" "registry_view uc (set_analysis_context uc a r) = registry_view uc r"
    "mr_kinds (set_analysis_context uc a r) = mr_kinds r" "mr_users (set_analysis_context uc a r) = mr_users r"
proof -
  let ?r = "r\<lparr> mr_analysis := (case mr_analysis r of None \<Rightarrow> Some a | Some a \<Rightarrow> Some a) \<rparr>"
  have "same_settings uc s (fold (\<lambda>e. context_update (en_context e) (uc_set_analysis_context uc a)) es s)" for es s
  proof (induction es arbitrary: s)
    case (Cons e es)
    have "same_settings uc s (context_update (en_context e) (uc_set_analysis_context uc a) s)"
      using assms(1,2) by (intro same_settings_update) (simp_all add: context_laws_def setting_laws_def)
    from same_settings_trans [OF this Cons.IH] show ?case by simp
  qed simp
  then have same: "same_settings uc ?r (set_analysis_context uc a r)" by (simp add: set_analysis_context_def)
  have "registry_ok ca uc ?r" using assms(3) by (simp add: registry_ok_def results_ok_def wf_defs)
  note same_settings_ok [OF same this]
  moreover have "registry_view uc ?r = registry_view uc r"
    by (simp add: registry_view_def entry_state_def context_of_def fun_eq_iff option.map_comp [symmetric] cong: option.map_cong)
  ultimately show "registry_ok ca uc (set_analysis_context uc a r)" "registry_view uc (set_analysis_context uc a r) = registry_view uc r"
    "mr_kinds (set_analysis_context uc a r) = mr_kinds r" "mr_users (set_analysis_context uc a r) = mr_users r"
    by simp_all
qed

lemma list_users_ids:
  assumes "setting_laws uc" "contexts_ok uc r"
  shows "set (map ui_id (list_users uc r)) = dom (registry_view uc r)" "distinct (map ui_id (list_users uc r))"
proof -
  have own: "owner_id uc r e = user" if "(user, e) \<in> set (mr_users r)" for user e
  proof -
    from assms(2) that have "map_of (mr_users r) user = Some e" by (simp add: contexts_ok_def)
    with assms(2) show ?thesis by (simp add: contexts_ok_def live_def)
  qed
  have ids: "map ui_id (map (\<lambda>e. user_info uc (context_of r e)) (map snd (mr_users r))) = map fst (mr_users r)"
    using own by (auto simp: user_info_id [OF assms(1)] owner_id_def)
  have "set (map ui_id (list_users uc r)) = fst ` set (mr_users r)"
    using arg_cong [OF ids, of set] by (simp add: list_users_def image_image)
  also have "\<dots> = dom (registry_view uc r)" by (simp add: registry_view_def dom_def flip: dom_map_of_conv_image_fst)
  finally show "set (map ui_id (list_users uc r)) = dom (registry_view uc r)" .
  have "mset (map ui_id (list_users uc r)) = mset (map fst (mr_users r))"
    using arg_cong [OF ids, of mset] by (simp add: list_users_def multiset.map_comp)
  then show "distinct (map ui_id (list_users uc r))" using assms(2) by (metis contexts_ok_def mset_eq_imp_distinct_iff)
qed

text \<open>An accepted upsert replaces the entry of its user and nothing else.\<close>

lemma credentials_of_entry [simp]: "credentials_of (entry_of a c) = c" "en_context (entry_of a c) = a"
  by (simp_all add: credentials_of_def entry_of_def)

lemma claimed_view:
  assumes ok: "contexts_ok uc r" and laws: "setting_laws uc" and claim: "claim_context uc r user spec = (r1, a)"
    and r': "mr_users r' = AList.update user (entry_of a c) (mr_users r)" "mr_contexts r' = mr_contexts r1"
  shows "registry_view uc r' = (registry_view uc r)(user \<mapsto> state_with (Some c) (wanted_settings spec))"
proof
  fix other
  have new: "settings_of uc (mr_contexts r1 ! a) = wanted_settings spec"
    using claim live_in_heap [OF ok] settings_in_force [OF laws] by (auto simp: claim_context_def nth_append split: option.splits)
  have old: "mr_contexts r1 ! en_context e = mr_contexts r ! en_context e"
    if e: "map_of (mr_users r) other = Some e" and ne: "other \<noteq> user" for e
  proof (cases "map_of (mr_users r) user")
    case None
    with claim live_in_heap [OF ok e] show ?thesis by (auto simp: claim_context_def nth_append)
  next
    case (Some p)
    have "(other, e) \<in> set (mr_users r)" "(user, p) \<in> set (mr_users r)" using e Some by (simp_all add: map_of_SomeD)
    moreover have "distinct (map (\<lambda>(_, e). en_context e) (mr_users r))" using ok by (simp add: contexts_ok_def addresses_def)
    ultimately have "en_context p \<noteq> en_context e" using ne by (auto simp: distinct_map inj_on_def)
    with claim Some show ?thesis by (auto simp: claim_context_def)
  qed
  show "registry_view uc r' other = ((registry_view uc r)(user \<mapsto> state_with (Some c) (wanted_settings spec))) other"
    using new old by (cases "other = user"; cases "map_of (mr_users r) other")
      (simp_all add: registry_view_def entry_state_def context_of_def r' update_conv')
qed

lemma republish_same [simp]:
  "registry_view uc (republish_vmess r) = registry_view uc r" "mr_kinds (republish_vmess r) = mr_kinds r"
  "mr_users (republish_vmess r) = mr_users r" "mr_generations (republish_vmess r) = mr_generations r"
  by (simp_all add: republish_vmess_def registry_view_def entry_state_def context_of_def fun_eq_iff cong: option.map_cong)

lemma results_ok_kept:
  assumes "results_ok uc r" "mr_generations r' = mr_generations r"
    "\<And>g. g < length (mr_generations r) \<Longrightarrow> owner_id uc r' (dg_entry (mr_generations r ! g)) = owner_id uc r (dg_entry (mr_generations r ! g))"
  shows "results_ok uc r'"
  using assms by (simp add: results_ok_def)

lemma claim_keeps_generations:
  assumes "context_laws uc" "contexts_ok uc r" "claim_context uc r user spec = (r1, a)" "mr_contexts r' = mr_contexts r1" "g < length (mr_generations r)"
  shows "owner_id uc r' (dg_entry (mr_generations r ! g)) = owner_id uc r (dg_entry (mr_generations r ! g))"
proof -
  have "en_context (dg_entry (mr_generations r ! g)) < length (mr_contexts r)" using generation_in_heap assms(2,5) .
  then show ?thesis
    using assms(1,3,4) settings_id [OF assms(1)] live_in_heap [OF assms(2), of user]
    by (cases "map_of (mr_users r) user")
       (auto simp: claim_context_def owner_id_def context_of_def nth_append nth_list_update)
qed

lemma upsert_view:
  assumes laws: "context_laws uc" "setting_laws uc" and ok: "registry_ok ca uc r"
  obtains (refused) err where "upsert ca uc r spec = Some (r, Inl err)"
  | (installed) r' info user where "upsert ca uc r spec = Some (r', Inr info)" "resolved_id spec = Some user" "registry_ok ca uc r'"
      "registry_view uc r' = (registry_view uc r)(user \<mapsto> spec_state ca (mr_kinds r) spec)" "mr_kinds r' = mr_kinds r"
proof -
  have wf: "registry_wf ca uc r" "contexts_ok uc r" using ok by (simp_all add: registry_ok_def table_ok_def registry_wf_def)
  show thesis
  proof (cases rule: upsert_locked_ok [OF laws(1) wf(1), where spec = spec, case_names refused installed])
    case (refused e)
    with that(1) show thesis by (simp add: upsert_def)
  next
    case (installed user c r1 a r')
    let ?r = "republish_vmess r'"
    have up: "upsert ca uc r spec = Some (?r, Inr (user_info uc (context_of ?r (entry_of a c))))"
      using installed(3) by (simp add: upsert_def Let_def)
    have "results_ok uc ?r"
      by (rule results_ok_kept [of uc r])
         (use ok installed(7) claim_keeps_generations [OF laws(1) wf(2) installed(2), of ?r] installed(6)
          in \<open>simp_all add: registry_ok_def republish_vmess_def\<close>)
    moreover have "table_ok ca uc ?r" using upsert_table_ok [OF laws(1) _ up] ok by (simp add: registry_ok_def)
    ultimately have "registry_ok ca uc ?r" by (simp add: registry_ok_def)
    moreover have "spec_state ca (mr_kinds r) spec = state_with (Some c) (wanted_settings spec)"
      using installed(1) by (simp add: spec_state_def accepted_def)
    ultimately show thesis
      using that(2) [OF up] installed(1,9) claimed_view [OF wf(2) laws(2) installed(2,5,6)] by (simp add: accepted_def)
  qed
qed

text \<open>A removal takes the user out of the table; its report carries the id of the user.\<close>

lemma finish_id:
  assumes "setting_laws uc" "results_ok uc r" "g < length (mr_generations r)" "finish uc g r = Some (r', info)"
  shows "ui_id info = owner_id uc r (dg_entry (mr_generations r ! g))"
  using assms by (auto simp: finish_def complete_generation_def Let_def results_ok_def owner_id_def user_info_id split: option.splits if_splits)

lemma complete_ok:
  assumes "setting_laws uc" "registry_ok ca uc r" "g < length (mr_generations r)" "complete_generation uc g r = (r', info)"
  shows "registry_ok ca uc r'" "registry_view uc r' = registry_view uc r" "mr_kinds r' = mr_kinds r" "mr_users r' = mr_users r"
    "mr_draining r' = mr_draining r" "length (mr_generations r') = length (mr_generations r)"
proof -
  let ?d = "mr_generations r ! g"
  have r': "r' = r\<lparr> mr_generations := (mr_generations r)[g := ?d\<lparr> dg_result := Some info \<rparr>] \<rparr>"
    "info = (case dg_result ?d of Some info \<Rightarrow> info | None \<Rightarrow> user_info uc (context_of r (dg_entry ?d)))"
    using assms(4) by (auto simp: complete_generation_def Let_def)
  have "table_ok ca uc r'" unfolding r'(1) by (rule table_ok_result) (use assms(2) in \<open>simp_all add: registry_ok_def\<close>)
  moreover have "ui_id info = owner_id uc r (dg_entry ?d)"
    using r'(2) assms(1,2,3) by (auto simp: results_ok_def registry_ok_def user_info_id owner_id_def split: option.splits)
  then have "results_ok uc r'"
    using assms(2,3) by (simp add: r'(1) results_ok_def registry_ok_def nth_list_update owner_id_def context_of_def)
  ultimately show "registry_ok ca uc r'" by (simp add: registry_ok_def)
  show "registry_view uc r' = registry_view uc r"
    by (simp add: r'(1) registry_view_def entry_state_def context_of_def fun_eq_iff cong: option.map_cong)
  show "mr_kinds r' = mr_kinds r" "mr_users r' = mr_users r" "mr_draining r' = mr_draining r"
    "length (mr_generations r') = length (mr_generations r)" by (simp_all add: r'(1))
qed

lemma clear_same:
  assumes "registry_ok ca uc r"
  shows "registry_ok ca uc (clear_draining_generation uc g r)" "registry_view uc (clear_draining_generation uc g r) = registry_view uc r"
    "mr_kinds (clear_draining_generation uc g r) = mr_kinds r" "mr_users (clear_draining_generation uc g r) = mr_users r"
  using assms table_ok_clear [of ca uc r g]
  by (auto simp: registry_ok_def results_ok_def clear_draining_generation_def Let_def registry_view_def entry_state_def context_of_def
      owner_id_def fun_eq_iff cong: option.map_cong)

lemma collect_ok:
  assumes laws: "setting_laws uc" and ok: "registry_ok ca uc r" and g: "g < length (mr_generations r)"
    and run: "remove_collect uc g r = Some (r', info)"
  shows "registry_ok ca uc r'" "registry_view uc r' = registry_view uc r" "mr_kinds r' = mr_kinds r"
    "ui_id info = owner_id uc r (dg_entry (mr_generations r ! g))"
proof -
  from run obtain r1 where fin: "finish uc g r = Some (r1, info)" and r': "r' = clear_draining_generation uc g r1"
    by (auto simp: remove_collect_def)
  show "ui_id info = owner_id uc r (dg_entry (mr_generations r ! g))"
    using finish_id [OF laws _ g fin] ok by (simp add: registry_ok_def)
  have "r1 = r \<or> complete_generation uc g r = (r1, info)" using fin by (auto simp: finish_def Let_def split: option.splits if_splits)
  then have "registry_ok ca uc r1" "registry_view uc r1 = registry_view uc r" "mr_kinds r1 = mr_kinds r"
    using ok complete_ok [OF laws ok g] by blast+
  with clear_same [of ca uc r1 g] show "registry_ok ca uc r'" "registry_view uc r' = registry_view uc r" "mr_kinds r' = mr_kinds r"
    by (simp_all add: r')
qed

lemma revoked_view:
  assumes ok: "contexts_ok uc r" and gone: "map_of (mr_users r) user = Some e"
    and r': "mr_users r' = AList.delete user (mr_users r)" "mr_contexts r' = (mr_contexts r)[en_context e := c]"
  shows "registry_view uc r' = (registry_view uc r)(user := None)"
proof
  fix other
  have "mr_contexts r' ! en_context x = mr_contexts r ! en_context x" if "map_of (mr_users r) other = Some x" "other \<noteq> user" for x
  proof -
    have "(other, x) \<in> set (mr_users r)" "(user, e) \<in> set (mr_users r)" using that gone by (simp_all add: map_of_SomeD)
    moreover have "distinct (map (\<lambda>(_, e). en_context e) (mr_users r))" using ok by (simp add: contexts_ok_def addresses_def)
    ultimately have "en_context e \<noteq> en_context x" using that(2) by (auto simp: distinct_map inj_on_def)
    then show ?thesis by (simp add: r'(2))
  qed
  then show "registry_view uc r' other = ((registry_view uc r)(user := None)) other"
    by (cases "map_of (mr_users r) other") (auto simp: registry_view_def entry_state_def context_of_def r'(1) delete_conv')
qed

lemma removed_results:
  assumes "context_laws uc" "results_ok uc r" "contexts_ok uc r" "map_of (mr_users r) user = Some e"
    "mr_generations r' = mr_generations r @ [\<lparr> dg_entry = e, dg_result = None \<rparr>]"
    "mr_contexts r' = (mr_contexts r)[en_context e := uc_revoke_connections uc (context_of r e)]"
  shows "results_ok uc r'"
proof -
  have "owner_id uc r' x = owner_id uc r x" for x
    using assms(1,6) live_in_heap [OF assms(3,4)] by (simp add: owner_id_def context_of_def nth_list_update context_laws_def)
  then show ?thesis using assms(2,5) by (auto simp: results_ok_def nth_append less_Suc_eq)
qed

lemma removed_registry:
  assumes laws: "context_laws uc" and ok: "registry_ok ca uc r"
  obtains (unknown) "remove_locked ca uc tag user r = Some (r, Inl (UnknownUser tag user))" "registry_view uc r user = None"
    | (draining) r' g newly where "remove_locked ca uc tag user r = Some (r', Inr (g, newly))" "registry_ok ca uc r'"
        "registry_view uc r' = (registry_view uc r)(user := None)" "mr_kinds r' = mr_kinds r" "g < length (mr_generations r')"
        "owner_id uc r' (dg_entry (mr_generations r' ! g)) = user"
proof -
  have wf: "registry_wf ca uc r" "contexts_ok uc r" using ok by (simp_all add: registry_ok_def table_ok_def registry_wf_def)
  show thesis
  proof (cases rule: remove_locked_ok [OF laws wf(1), where user = user and tag = tag, case_names unknown repeated removed])
    case unknown
    with that(1) show thesis by (simp add: registry_view_def live_def)
  next
    case (repeated g)
    have "registry_view uc r user = None" using repeated(1) by (simp add: registry_view_def live_def)
    then have "(registry_view uc r)(user := None) = registry_view uc r" by (rule fun_upd_idem)
    with that(2) [OF repeated(3) ok] wf(2) repeated(2) show thesis by (simp add: contexts_ok_def)
  next
    case (removed e r')
    have e: "map_of (mr_users r) user = Some e" using removed(1) by (simp add: live_def)
    have "table_ok ca uc r'" using remove_table_ok [OF laws _ removed(2)] ok by (simp add: registry_ok_def)
    moreover have "results_ok uc r'"
      by (rule removed_results [OF laws _ wf(2) e]) (use ok removed in \<open>simp_all add: registry_ok_def\<close>)
    moreover have "owner_id uc r' (dg_entry (mr_generations r' ! length (mr_generations r))) = user"
      using removed(3,5) by (simp add: registry_wf_def contexts_ok_def)
    ultimately show thesis
      using that(2) [OF removed(2)] removed revoked_view [OF wf(2) e removed(4,7)] by (simp add: registry_ok_def)
  qed
qed

text \<open>A table built from a list of users has exactly those users.\<close>

definition listed :: "credential_api \<Rightarrow> CredentialKinds \<Rightarrow> UserSpec list \<Rightarrow> string \<rightharpoonup> user_state" where
  "listed ca kinds specs = map_of (zip (map (\<lambda>u. the (resolved_id u)) specs) (map (spec_state ca kinds) specs))"

definition inserted :: "credential_api \<Rightarrow> 'c user_context \<Rightarrow> CredentialKinds \<Rightarrow> UserSpec list \<Rightarrow> 'c MemoryUserRegistry \<Rightarrow> 'c MemoryUserRegistry \<Rightarrow> bool" where
  "inserted ca uc kinds specs r r' \<longleftrightarrow>
     registry_view uc r' = registry_view uc r ++ listed ca kinds specs \<and> mr_kinds r' = kinds \<and> mr_generations r' = [] \<and>
     (\<forall>u \<in> set specs. registry_view uc r (the (resolved_id u)) = None)"

lemma insert_users_view:
  assumes laws: "context_laws uc" "setting_laws uc"
  shows "registry_wf ca uc r \<Longrightarrow> mr_kinds r = kinds \<Longrightarrow> mr_generations r = [] \<Longrightarrow>
    (\<exists>e. insert_users ca uc specs r = Some (Inl e)) \<or> (\<exists>r'. insert_users ca uc specs r = Some (Inr r') \<and> inserted ca uc kinds specs r r')"
proof (induction specs arbitrary: r)
  case Nil
  then show ?case by (simp add: inserted_def listed_def)
next
  case (Cons spec specs)
  show ?case
  proof (cases "\<exists>user. resolved_id spec = Some user \<and> map_of (mr_users r) user = None")
    case False
    then show ?thesis by (cases "resolved_id spec") auto
  next
    case True
    then obtain user where user: "resolved_id spec = Some user" "map_of (mr_users r) user = None" by blast
    show ?thesis
    proof (cases rule: upsert_locked_ok [OF laws(1) Cons.prems(1), where spec = spec, case_names refused installed])
      case (refused e)
      with user show ?thesis by simp
    next
      case (installed user' c r1 a r')
      have view: "registry_view uc r' = (registry_view uc r)(user \<mapsto> spec_state ca kinds spec)"
        using claimed_view [OF _ laws(2) installed(2,5,6)] Cons.prems(1,2) installed(1) user(1)
        by (simp add: registry_wf_def accepted_def spec_state_def)
      have run: "insert_users ca uc (spec # specs) r = insert_users ca uc specs r'" using user installed(3) by simp
      have "mr_kinds r' = kinds" "mr_generations r' = []" using installed(7,9) Cons.prems by simp_all
      from Cons.IH [OF installed(4) this] run show ?thesis
      proof (elim disjE exE conjE)
        fix r'' assume r'': "insert_users ca uc specs r' = Some (Inr r'')" "inserted ca uc kinds specs r' r''"
        have fresh: "the (resolved_id u) \<noteq> user" "registry_view uc r (the (resolved_id u)) = None" if "u \<in> set specs" for u
          using r''(2) that view by (auto simp: inserted_def split: if_splits)
        then have "listed ca kinds specs user = None" by (fastforce simp: listed_def map_of_eq_None_iff dest: set_zip_leftD)
        moreover have "listed ca kinds (spec # specs) = (listed ca kinds specs)(user \<mapsto> spec_state ca kinds spec)"
          by (simp add: listed_def user(1))
        ultimately have "registry_view uc r' ++ listed ca kinds specs = registry_view uc r ++ listed ca kinds (spec # specs)"
          by (auto simp: view fun_eq_iff map_add_def split: option.split)
        moreover have "registry_view uc r user = None" using user(2) by (simp add: registry_view_def)
        ultimately have "inserted ca uc kinds (spec # specs) r r''" using r''(2) fresh user(1) by (auto simp: inserted_def)
        with run r''(1) show ?thesis by simp
      qed simp
    qed
  qed
qed

lemma from_users_view:
  assumes laws: "context_laws uc" "setting_laws uc"
  obtains (refused) err where "from_users ca uc kinds specs = Some (Inl err)"
    | (built) r where "from_users ca uc kinds specs = Some (Inr r)" "registry_ok ca uc r" "registry_view uc r = listed ca kinds specs" "mr_kinds r = kinds"
proof -
  have "mr_kinds (registry_new kinds :: 'a MemoryUserRegistry) = kinds" "mr_generations (registry_new kinds :: 'a MemoryUserRegistry) = []"
    "registry_view uc (registry_new kinds) = Map.empty"
    by (simp_all add: registry_new_def registry_view_def)
  with insert_users_view [OF laws registry_new_wf [of ca uc kinds], of kinds specs] consider
      e where "insert_users ca uc specs (registry_new kinds) = Some (Inl e)"
    | r where "insert_users ca uc specs (registry_new kinds) = Some (Inr r)" "registry_view uc r = listed ca kinds specs" "mr_kinds r = kinds" "mr_generations r = []"
    by (auto simp: inserted_def)
  then show thesis
  proof cases
    case (1 e)
    then show thesis using refused by (simp add: from_users_def)
  next
    case (2 r)
    then have run: "from_users ca uc kinds specs = Some (Inr (republish_vmess r))" by (simp add: from_users_def)
    from built [OF run] from_users_table_ok [OF laws(1) run] 2 show thesis by (simp add: registry_ok_def results_ok_def)
  qed
qed

end
