(* ===== verification/Runtime_Engine.thy ===== *)
theory Runtime_Engine
  imports Runtime_Config
begin

text \<open>
  The proxy engine as \<open>runtime.rs\<close> calls it: the methods of \<open>shoes_engine::Engine\<close> as a record of operations
  over an engine state, and the contract its documentation gives them. The contract speaks of a view of
  the engine, the inbounds it serves by tag with their configuration and, for an inbound with dynamic
  users, what each user is in force with. Connections come and go between two calls and move counters only,
  so an operation may change the engine state in ways the view does not show.
\<close>

section \<open>Operations\<close>

record ('e, 'l) engine =
  eg_list_inbounds :: "'e \<Rightarrow> InboundInfo list"
  eg_get_inbound :: "'e \<Rightarrow> string \<Rightarrow> bool"
  eg_failed_listener_tags :: "'e \<Rightarrow> string list"
  eg_traffic_analysis_disabled :: "'e \<Rightarrow> bool"
  eg_validate_inbound :: "'e \<Rightarrow> InboundSpec \<Rightarrow> EngineError + unit"
  eg_validate_urltest_probe_dns :: "'e \<Rightarrow> json option \<Rightarrow> EngineError + unit"
  eg_configure_urltest_probe_dns :: "'e \<Rightarrow> json option \<Rightarrow> 'e \<times> (EngineError + unit)"
  eg_rotate_dns_client_generation :: "'e \<Rightarrow> 'e \<times> u64"
  eg_commit_client_chain_group_generation :: "'e \<Rightarrow> 'e"
  eg_preserve_inbound_replay :: "'e \<Rightarrow> string \<Rightarrow> EngineError + 'l"
  eg_add_inbound :: "'e \<Rightarrow> InboundSpec \<Rightarrow> 'e \<times> (EngineError + InboundInfo)"
  eg_add_inbound_with_replay :: "'e \<Rightarrow> InboundSpec \<Rightarrow> 'l \<Rightarrow> 'e \<times> (EngineError + InboundInfo)"
  eg_update_inbound :: "'e \<Rightarrow> InboundSpec \<Rightarrow> 'e \<times> (EngineError + InboundInfo)"
  eg_remove_inbound_hard :: "'e \<Rightarrow> string \<Rightarrow> 'e \<times> (EngineError + InboundInfo)"
  eg_list_users :: "'e \<Rightarrow> string \<Rightarrow> EngineError + UserInfo list"
  eg_add_user :: "'e \<Rightarrow> string \<Rightarrow> UserSpec \<Rightarrow> 'e \<times> (EngineError + UserInfo)"
  eg_remove_user :: "'e \<Rightarrow> string \<Rightarrow> string \<Rightarrow> 'e \<times> (EngineError + UserInfo)"
  eg_kick_user :: "'e \<Rightarrow> string \<Rightarrow> string \<Rightarrow> 'e \<times> (EngineError + u64)"
  eg_take_user_traffic :: "'e \<Rightarrow> string \<Rightarrow> string \<Rightarrow> 'e \<times> (EngineError + UserInfo)"
  eg_take_nonzero_inbound_traffic :: "'e \<Rightarrow> string \<Rightarrow> 'e \<times> (EngineError + UserInfo list)"

section \<open>Views\<close>

record 'u live_inbound =
  lv_config :: json
  lv_users :: "(string \<rightharpoonup> 'u) option"

type_synonym 'u live_view = "string \<rightharpoonup> 'u live_inbound"

text \<open>What a specification puts in force; \<open>eff\<close> gives what a user specification means under a configuration.\<close>

definition spec_view :: "(json \<Rightarrow> UserSpec \<Rightarrow> 'u) \<Rightarrow> InboundSpec \<Rightarrow> 'u live_inbound" where
  "spec_view eff spec =
     \<lparr> lv_config = is_config spec,
       lv_users = map_option (\<lambda>specs uid. map_option (eff (is_config spec)) (map_of (zip (ids_of specs) specs) uid)) (is_users spec) \<rparr>"

definition inbound_view :: "(json \<Rightarrow> UserSpec \<Rightarrow> 'u) \<Rightarrow> NormalizedInbound \<Rightarrow> 'u live_inbound" where
  "inbound_view eff inbound =
     \<lparr> lv_config = is_config (nb_spec inbound),
       lv_users = (if nb_dynamic_users inbound
         then Some (\<lambda>uid. map_option (eff (is_config (nb_spec inbound))) (map_of (nb_users inbound) uid)) else None) \<rparr>"

definition config_view :: "(json \<Rightarrow> UserSpec \<Rightarrow> 'u) \<Rightarrow> NormalizedConfig \<Rightarrow> 'u live_view" where
  "config_view eff config = (\<lambda>tag. map_option (inbound_view eff) (map_of (nz_inbounds config) tag))"

lemma spec_view_wf: "inbound_wf inbound \<Longrightarrow> spec_view eff (nb_spec inbound) = inbound_view eff inbound"
  by (auto simp: spec_view_def inbound_view_def inbound_wf_def split: option.splits)

lemma config_view_simps [simp]:
  "config_view eff NormalizedConfig_default = Map.empty"
  "config_view eff config tag = None \<longleftrightarrow> map_of (nz_inbounds config) tag = None"
  "map_of (nz_inbounds config) tag = Some inbound \<Longrightarrow> config_view eff config tag = Some (inbound_view eff inbound)"
  by (auto simp: config_view_def NormalizedConfig_default_def)

section \<open>Contract\<close>

definition moved :: "('e, 'l) engine \<Rightarrow> ('e \<Rightarrow> bool) \<Rightarrow> ('e \<Rightarrow> 'u live_view) \<Rightarrow> 'e \<Rightarrow> 'e \<Rightarrow> 'u live_view \<Rightarrow> bool" where
  "moved eng good view e e' v \<longleftrightarrow>
     good e' \<and> eg_traffic_analysis_disabled eng e' = eg_traffic_analysis_disabled eng e \<and> view e' = v"

definition without_user :: "string \<Rightarrow> string \<Rightarrow> 'u live_view \<Rightarrow> 'u live_view" where
  "without_user tag uid v =
     (case v tag of
        Some l \<Rightarrow> v(tag \<mapsto> l\<lparr> lv_users := map_option (\<lambda>m. m(uid := None)) (lv_users l) \<rparr>)
      | None \<Rightarrow> v)"

definition with_user :: "(json \<Rightarrow> UserSpec \<Rightarrow> 'u) \<Rightarrow> string \<Rightarrow> string \<Rightarrow> UserSpec \<Rightarrow> 'u live_view \<Rightarrow> 'u live_view" where
  "with_user eff tag uid user v =
     (case v tag of
        Some l \<Rightarrow> v(tag \<mapsto> l\<lparr> lv_users := map_option (\<lambda>m. m(uid \<mapsto> eff (lv_config l) user)) (lv_users l) \<rparr>)
      | None \<Rightarrow> v)"

locale engine_contract =
  fixes eng :: "('e, 'l) engine"
    and good :: "'e \<Rightarrow> bool"
    and view :: "'e \<Rightarrow> 'u live_view"
    and eff :: "json \<Rightarrow> UserSpec \<Rightarrow> 'u"
  assumes add_inbound: "good e \<Longrightarrow> eg_add_inbound eng e spec = (e', r) \<Longrightarrow>
      (case r of
         Inr _ \<Rightarrow> view e (is_tag spec) = None \<and> moved eng good view e e' ((view e)(is_tag spec \<mapsto> spec_view eff spec))
       | Inl _ \<Rightarrow> moved eng good view e e' (view e))"
    and add_inbound_with_replay: "good e \<Longrightarrow> eg_add_inbound_with_replay eng e spec lease = (e', r) \<Longrightarrow>
      (case r of
         Inr _ \<Rightarrow> view e (is_tag spec) = None \<and> moved eng good view e e' ((view e)(is_tag spec \<mapsto> spec_view eff spec))
       | Inl _ \<Rightarrow> moved eng good view e e' (view e))"
    and update_inbound: "good e \<Longrightarrow> eg_update_inbound eng e spec = (e', r) \<Longrightarrow>
      (case r of
         Inr _ \<Rightarrow> (\<exists>l. view e (is_tag spec) = Some l \<and> (lv_users l \<noteq> None \<longrightarrow> eff (is_config spec) = eff (lv_config l)) \<and>
           moved eng good view e e' ((view e)(is_tag spec \<mapsto> l\<lparr> lv_config := is_config spec \<rparr>)))
       | Inl _ \<Rightarrow> moved eng good view e e' (view e))"
    and remove_inbound_hard: "good e \<Longrightarrow> eg_remove_inbound_hard eng e tag = (e', r) \<Longrightarrow>
      (case r of
         Inr _ \<Rightarrow> moved eng good view e e' ((view e)(tag := None))
       | Inl _ \<Rightarrow> moved eng good view e e' (view e))"
    and add_user: "good e \<Longrightarrow> eg_add_user eng e tag user = (e', u) \<Longrightarrow>
      (case u of
         Inr _ \<Rightarrow> (\<exists>uid. resolved_id user = Some uid \<and> moved eng good view e e' (with_user eff tag uid user (view e)))
       | Inl _ \<Rightarrow> moved eng good view e e' (view e))"
    and remove_user: "good e \<Longrightarrow> eg_remove_user eng e tag uid = (e', u) \<Longrightarrow>
      (case u of
         Inr info \<Rightarrow> ui_id info = uid \<and> moved eng good view e e' (without_user tag uid (view e))
       | Inl (EngineIo _) \<Rightarrow> moved eng good view e e' (view e) \<or> moved eng good view e e' (without_user tag uid (view e))
       | Inl _ \<Rightarrow> moved eng good view e e' (view e))"
    and kick_user: "good e \<Longrightarrow> eg_kick_user eng e tag uid = (e', k) \<Longrightarrow> moved eng good view e e' (view e)"
    and take_user_traffic: "good e \<Longrightarrow> eg_take_user_traffic eng e tag uid = (e', u) \<Longrightarrow>
      moved eng good view e e' (view e) \<and> (\<forall>info. u = Inr info \<longrightarrow> ui_id info = uid)"
    and take_nonzero_inbound_traffic: "good e \<Longrightarrow> eg_take_nonzero_inbound_traffic eng e tag = (e', n) \<Longrightarrow>
      moved eng good view e e' (view e)"
    and configure_urltest_probe_dns: "good e \<Longrightarrow> eg_configure_urltest_probe_dns eng e dns = (e', c) \<Longrightarrow>
      moved eng good view e e' (view e)"
    and rotate_dns_client_generation: "good e \<Longrightarrow> moved eng good view e (fst (eg_rotate_dns_client_generation eng e)) (view e)"
    and commit_client_chain_group_generation: "good e \<Longrightarrow>
      moved eng good view e (eg_commit_client_chain_group_generation eng e) (view e)"
    and list_users: "good e \<Longrightarrow> eg_list_users eng e tag = Inr infos \<Longrightarrow>
      \<exists>l m. view e tag = Some l \<and> lv_users l = Some m \<and> set (map ui_id infos) = dom m \<and> distinct (map ui_id infos)"
    and list_users_unsupported: "good e \<Longrightarrow> eg_list_users eng e tag = Inl (Unsupported msg) \<Longrightarrow>
      \<exists>l. view e tag = Some l \<and> lv_users l = None"
    and list_inbounds: "good e \<Longrightarrow> set (map ii_tag (eg_list_inbounds eng e)) = dom (view e) \<and>
      distinct (map ii_tag (eg_list_inbounds eng e))"
    and get_inbound: "good e \<Longrightarrow> eg_get_inbound eng e tag \<longleftrightarrow> view e tag \<noteq> None"

end
