(* ===== verification/Engine_Contract.thy ===== *)
theory Engine_Contract
  imports Engine_Core Engine_Users Runtime_Engine
begin

text \<open>
  The engine keeps its promises: the model of \<open>shoes-engine\<close> implements the contract its client relies on. The view of
  an engine is what its inbounds were loaded with and what their user tables have in force. Most of an operation only
  moves resolvers, listener handles and other objects of the proxy core; such steps are steady. What remains
  is the registration of a slot, its replacement by a reload, its removal, and the operations of its user table.
\<close>

section \<open>Steady steps\<close>

definition steady :: "('c, 'w) EngineInner \<Rightarrow> ('c, 'w) EngineInner \<Rightarrow> bool" where
  "steady e e' \<longleftrightarrow> en_inbounds e' = en_inbounds e \<and> en_bound e' = en_bound e \<and> en_analysis_policy e' = en_analysis_policy e \<and>
     en_halted e' = en_halted e \<and> en_replay_identity e' = en_replay_identity e \<and> en_next e \<le> en_next e'"

lemma steady_refl [simp]: "steady e e"
  by (simp add: steady_def)

lemma steady_trans: "steady e e1 \<Longrightarrow> steady e1 e2 \<Longrightarrow> steady e e2"
  by (simp add: steady_def)

lemma steady_andthen:
  "steady e (fst m) \<Longrightarrow> (\<And>x s. m = (s, Inr x) \<Longrightarrow> steady s (fst (k x s))) \<Longrightarrow> steady e (fst (andthen m k))"
  by (auto simp: andthen_def split: prod.splits sum.splits intro: steady_trans)

lemma steady_case:
  "steady e (fst m) \<Longrightarrow> (\<And>s x. m = (s, x) \<Longrightarrow> steady s (fst (k s x))) \<Longrightarrow> steady e (fst (case m of (s, x) \<Rightarrow> k s x))"
  by (cases m) (auto intro: steady_trans)

lemma steady_worlds [simp]:
  "steady e (in_world f e)" "steady e (fst (on_world g e))" "steady e (on_control h e)" "steady e (prune_inline_dns core e)"
  "steady e (fst (fallible m j)) = steady e (fst m)"
  by (simp_all add: steady_def in_world_def on_world_def on_control_def prune_inline_dns_def fallible_def split: prod.split)

lemma steady_cleanup: "steady e (in_world f (prune_inline_dns core (in_world g e)))"
  by (rule steady_trans [OF steady_trans]) (rule steady_worlds)+

lemma steady_on_world [dest]: "on_world g e = (e', x) \<Longrightarrow> steady e e'"
  by (metis fst_conv steady_worlds(2))

lemma steady_resolve: "steady e (fst (resolve core config resolvers e))"
  unfolding resolve_def by (auto split: option.split intro!: steady_andthen steady_case)

lemma steady_publish: "steady e (publish_resolvers core resolvers e)"
  unfolding publish_resolvers_def by (rule steady_trans [OF steady_worlds(4) steady_worlds(3)])

lemma steady_probe: "steady e (fst (probe_resolver core probe e))"
  unfolding probe_resolver_def by (auto split: option.split intro!: steady_andthen steady_case steady_resolve)

lemma steady_fst: "steady e (fst m) \<Longrightarrow> m = (e', x) \<Longrightarrow> steady e e'"
  by simp

lemma steady_ensure: "steady e (fst (ensure_urltest_probe_resolver core registry probe e))"
proof -
  have "steady e (fst (case on_world (co_transaction core registry) e of (e1, transaction) \<Rightarrow>
      case probe_resolver core probe e1 of
        (e2, Inl err) \<Rightarrow> (in_world (co_drop_transaction core transaction) e2, Inl err)
      | (e2, Inr resolver) \<Rightarrow>
          (case on_world (co_bind_probe_resolver core registry fingerprint resolver) e2 of
             (e3, Inl err) \<Rightarrow> (in_world (co_drop_transaction core transaction) e3, Inl (EngineIo err))
           | (e3, Inr _) \<Rightarrow> (in_world (co_commit_and_start core transaction) e3, Inr ()))))" for fingerprint
    by (intro steady_case) (auto split: sum.split intro!: steady_case intro: steady_probe)
  then show ?thesis unfolding ensure_urltest_probe_resolver_def Let_def
    by (auto split: sum.split bool.split option.split)
qed

lemma steady_ensure_default: "steady e (fst (ensure_default_urltest_probe_resolver core registry e))"
  by (simp add: ensure_default_urltest_probe_resolver_def steady_ensure)

lemma steady_rotate: "steady e (fst (rotate_dns_client_generation core e))"
  unfolding rotate_dns_client_generation_def
  by (intro steady_case) (auto intro: steady_trans [OF steady_worlds(3) steady_worlds(2)])

lemma steady_configure: "steady e (fst (configure_urltest_probe_dns core dns e))"
  unfolding configure_urltest_probe_dns_def Let_def
  by (intro steady_andthen) (auto intro: steady_trans [OF steady_worlds(4) steady_ensure])

lemma steady_replay: "steady e (fst (prepare_replay core tag admission e))"
proof -
  let ?e = "on_control (\<lambda>c. c\<lparr> cs_replay_lineages := retain_lineages core e (cs_replay_lineages (en_control e)) \<rparr>) e"
  have "steady ?e (fst (prepare_replay core tag admission e))"
    unfolding prepare_replay_def Let_def by (auto split: ReplayAdmission.split option.split intro!: steady_case)
  then show ?thesis by (rule steady_trans [OF steady_worlds(3)])
qed

lemma steady_start:
  "start_all core users scope pairs resolvers started e = (e', started', result) \<Longrightarrow> steady e e'"
proof (induction pairs arbitrary: resolvers started e)
  case (Cons pair pairs)
  obtain config target where pair: "pair = (config, target)" by (cases pair)
  obtain e1 x where res: "resolve core config resolvers e = (e1, x)" by fastforce
  have s1: "steady e e1" using steady_fst [OF steady_resolve res] .
  show ?case
  proof (cases x)
    case (Inl err)
    with Cons.prems pair res s1 show ?thesis by simp
  next
    case (Inr y)
    obtain resolvers' resolver where y: "y = (resolvers', resolver)" by (cases y)
    obtain e2 z where start: "on_world (co_start_servers core config resolver users scope (resolved_bind target)) e1 = (e2, z)" by fastforce
    have s2: "steady e e2" using steady_trans [OF s1 steady_on_world [OF start]] .
    show ?thesis
    proof (cases z)
      case (Inl err)
      with Cons.prems pair res \<open>x = Inr y\<close> y start s2 show ?thesis by simp
    next
      case (Inr handle)
      with Cons.prems pair res \<open>x = Inr y\<close> y start
      have "start_all core users scope pairs resolvers' (started @ [handle]) e2 = (e', started', result)" by simp
      from steady_trans [OF s2 Cons.IH [OF this]] show ?thesis .
    qed
  qed
qed simp

lemma steady_reload: "steady e (fst (reload_candidates core pairs resolvers e))"
proof (induction pairs arbitrary: resolvers e)
  case (Cons pair pairs)
  obtain config target where pair: "pair = (config, target)" by (cases pair)
  show ?case unfolding pair reload_candidates.simps
    by (intro steady_andthen steady_resolve) (auto intro!: steady_andthen Cons.IH split: prod.splits)
qed simp

lemma steady_fill: "steady e (fst (fill_credentials core dynamic config e))"
  by (auto simp: fill_credentials_def steady_def split: sum.split)

lemma steady_analysed: "analysed uc registry e = (e', registry') \<Longrightarrow> steady e e'"
  by (auto simp: analysed_def steady_def split: option.splits)

section \<open>Views\<close>

definition slot_view :: "'c user_context \<Rightarrow> 'c InboundSlot \<Rightarrow> user_state live_inbound" where
  "slot_view uc slot = \<lparr> lv_config = sl_source slot, lv_users = map_option (registry_view uc) (sl_users slot) \<rparr>"

definition engine_view :: "'c user_context \<Rightarrow> ('c, 'w) EngineInner \<Rightarrow> user_state live_view" where
  "engine_view uc e = (\<lambda>tag. map_option (slot_view uc) (slot_at e tag))"

text \<open>What the proxy core decides about a configuration does not depend on when it is asked nor on the throwaway
  credentials: the credential forms it asks for are a function \<open>kinds_of\<close> of the payload.\<close>

definition classified_by :: "('x, 'w) shoes_core \<Rightarrow> (json \<Rightarrow> CredentialKinds) \<Rightarrow> bool" where
  "classified_by core kinds_of \<longleftrightarrow>
     (\<forall>config config' w w1 w2 w3 sent validated kinds.
        install_placeholder_credentials (co_random_uuid core) config w = Inr (config', w1) \<and>
        (sent = config' \<or> sent = json_insert ''sniff'' (JBool False) config') \<and>
        validate_inbound_config core sent w2 = (w3, Inr validated) \<and>
        registry_kinds core (vi_configs validated) = Inr kinds \<longrightarrow> kinds = kinds_of config)"

definition user_effect :: "credential_api \<Rightarrow> (json \<Rightarrow> CredentialKinds) \<Rightarrow> json \<Rightarrow> UserSpec \<Rightarrow> user_state" where
  "user_effect ca kinds_of config = spec_state ca (kinds_of config)"

definition slot_ok :: "credential_api \<Rightarrow> 'c user_context \<Rightarrow> (json \<Rightarrow> CredentialKinds) \<Rightarrow> string \<Rightarrow> 'c InboundSlot \<Rightarrow> bool" where
  "slot_ok ca uc kinds_of tag slot \<longleftrightarrow> ii_tag (sl_info slot) = tag \<and>
     (\<forall>r. sl_users slot = Some r \<longrightarrow> registry_ok ca uc r \<and> mr_kinds r = kinds_of (sl_source slot))"

definition engine_ok :: "credential_api \<Rightarrow> 'c user_context \<Rightarrow> (json \<Rightarrow> CredentialKinds) \<Rightarrow> ('c, 'w) EngineInner \<Rightarrow> bool" where
  "engine_ok ca uc kinds_of e \<longleftrightarrow> \<not> en_halted e \<and> distinct (map fst (en_inbounds e)) \<and>
     (\<forall>tag slot. slot_at e tag = Some slot \<longrightarrow> slot_ok ca uc kinds_of tag slot)"

lemma steady_ok:
  assumes "steady e e'" "engine_ok ca uc kinds_of e"
  shows "engine_ok ca uc kinds_of e'" "engine_view uc e' = engine_view uc e" "slot_at e' = slot_at e"
    "traffic_analysis_disabled e' = traffic_analysis_disabled e"
  using assms by (simp_all add: steady_def engine_ok_def engine_view_def slot_at_def traffic_analysis_disabled_def fun_eq_iff)

lemma slot_at_set [simp]: "slot_at (set_slot tag slot e) = (slot_at e)(tag \<mapsto> slot)"
  by (simp add: slot_at_def set_slot_def update_conv' fun_eq_iff)

lemma set_slot_ok:
  assumes "engine_ok ca uc kinds_of e" "slot_ok ca uc kinds_of tag slot"
  shows "engine_ok ca uc kinds_of (set_slot tag slot e)" "engine_view uc (set_slot tag slot e) = (engine_view uc e)(tag \<mapsto> slot_view uc slot)"
    "traffic_analysis_disabled (set_slot tag slot e) = traffic_analysis_disabled e"
  using assms by (auto simp: engine_ok_def engine_view_def fun_eq_iff traffic_analysis_disabled_def)
    (simp_all add: set_slot_def distinct_update)

section \<open>Adding an inbound\<close>

definition registry_fits :: "credential_api \<Rightarrow> 'c user_context \<Rightarrow> CredentialKinds \<Rightarrow> UserSpec list option \<Rightarrow> 'c MemoryUserRegistry option \<Rightarrow> bool" where
  "registry_fits ca uc kinds users registry \<longleftrightarrow>
     (case users of
        None \<Rightarrow> registry = None
      | Some specs \<Rightarrow> (\<exists>r. registry = Some r \<and> registry_ok ca uc r \<and> registry_view uc r = listed ca kinds specs \<and> mr_kinds r = kinds))"

lemma candidate_registry_fits:
  assumes laws: "context_laws uc" "setting_laws uc" and run: "candidate_registry core ca uc configs users e = (e', x)"
  shows "e' = e" "x = Inr registry \<Longrightarrow> users \<noteq> None \<Longrightarrow> \<exists>kinds. registry_kinds core configs = Inr kinds \<and> registry_fits ca uc kinds users registry"
    "x = Inr registry \<Longrightarrow> users = None \<Longrightarrow> registry = None"
proof -
  have build: "(\<exists>err. build_user_registry core ca uc configs specs = Some (Inl err)) \<or>
      (\<exists>kinds r. registry_kinds core configs = Inr kinds \<and> build_user_registry core ca uc configs specs = Some (Inr r) \<and>
        registry_fits ca uc kinds (Some specs) (Some r))" for specs
  proof (cases "registry_kinds core configs")
    case (Inr kinds)
    then show ?thesis
      by (cases rule: from_users_view [OF laws, where ca = ca and kinds = kinds and specs = specs, case_names refused built])
         (auto simp: build_user_registry_def registry_fits_def)
  qed (simp add: build_user_registry_def)
  have "e' = e \<and> (\<forall>registry. x = Inr registry \<longrightarrow> (if users = None then registry = None
      else \<exists>kinds. registry_kinds core configs = Inr kinds \<and> registry_fits ca uc kinds users registry))"
  proof (cases users)
    case None
    with run show ?thesis by (auto simp: candidate_registry_def)
  next
    case (Some specs)
    from build [of specs] run Some show ?thesis by (elim disjE exE conjE) (auto simp: candidate_registry_def unwind_def)
  qed
  then show "e' = e" "x = Inr registry \<Longrightarrow> users \<noteq> None \<Longrightarrow> \<exists>kinds. registry_kinds core configs = Inr kinds \<and> registry_fits ca uc kinds users registry"
    "x = Inr registry \<Longrightarrow> users = None \<Longrightarrow> registry = None"
    by auto
qed

lemma analysed_fits:
  assumes "context_laws uc" "setting_laws uc" "registry_fits ca uc kinds users registry" "analysed uc registry e = (e', registry')"
  shows "registry_fits ca uc kinds users registry'"
  using assms analysis_same [OF assms(1,2)] by (cases users) (auto simp: registry_fits_def analysed_def)

definition candidate_ok :: "credential_api \<Rightarrow> 'c user_context \<Rightarrow> (json \<Rightarrow> CredentialKinds) \<Rightarrow> ('x, 'c) AddCandidate \<Rightarrow> bool" where
  "candidate_ok ca uc kinds_of candidate \<longleftrightarrow>
     registry_fits ca uc (kinds_of (is_config (ad_spec candidate))) (is_users (ad_spec candidate)) (ad_registry candidate)"

lemma filled_kinds:
  assumes "classified_by core kinds_of" "fill_credentials core True config e = (e1, Inr config')"
    "on_world (validate_inbound_config core (apply_analysis_policy e1 config')) e1 = (e2, Inr validated)"
    "registry_kinds core (vi_configs validated) = Inr kinds"
  shows "kinds = kinds_of config"
proof -
  obtain w1 where "install_placeholder_credentials (co_random_uuid core) config (en_world e) = Inr (config', w1)"
    using assms(2) by (auto simp: fill_credentials_def split: sum.splits)
  moreover have "apply_analysis_policy e1 config' = config' \<or> apply_analysis_policy e1 config' = json_insert ''sniff'' (JBool False) config'"
    by (simp add: apply_analysis_policy_def)
  moreover obtain w2 where "validate_inbound_config core (apply_analysis_policy e1 config') (en_world e1) = (w2, Inr validated)"
    using assms(3) by (auto simp: on_world_def split: prod.splits)
  ultimately show ?thesis using assms(1,4) unfolding classified_by_def by blast
qed

lemma add_prepare_step:
  assumes laws: "context_laws uc" "setting_laws uc" "classified_by core kinds_of" and run: "add_prepare core ca uc spec admission e = (e', x)"
  shows "steady e e'" "x = Inr candidate \<Longrightarrow> ad_spec candidate = spec \<and> candidate_ok ca uc kinds_of candidate"
proof -
  show "steady e e'"
  proof -
    have "steady e (fst (add_prepare core ca uc spec admission e))"
      unfolding add_prepare_def
      by (auto intro!: steady_andthen steady_fill dest: candidate_registry_fits(1) [OF laws(1,2)] steady_analysed split: prod.split)
         (metis candidate_registry_fits(1) laws(1,2) prod.collapse steady_refl)
    with run show ?thesis by simp
  qed
  assume x: "x = Inr candidate"
  obtain config e1 validated e2 registry e3 where steps:
    "fill_credentials core (is_users spec \<noteq> None) (is_config spec) e = (e1, Inr config)"
    "on_world (validate_inbound_config core (apply_analysis_policy e1 config)) e1 = (e2, Inr validated)"
    "candidate_registry core ca uc (vi_configs validated) (is_users spec) e2 = (e3, Inr registry)"
    and tail: "(case analysed uc registry e3 of (e4, registry') \<Rightarrow>
      if slot_at e4 (is_tag spec) \<noteq> None then (e4, Inl (DuplicateTag (is_tag spec)))
      else (e4, rbind (resolve_bind_targets_for_configs core (en_world e4) (vi_configs validated)) (\<lambda>targets.
        Inr \<lparr> ad_spec = spec, ad_validated = validated, ad_registry = registry', ad_targets = targets, ad_admission = admission \<rparr>)))
      = (e', Inr candidate)"
    using run unfolding x add_prepare_def andthen_Inr if_distrib by (auto simp: andthen_Inr split: if_split_asm)
  obtain e4 registry' where analysed: "analysed uc registry e3 = (e4, registry')" by fastforce
  have parts: "ad_spec candidate = spec" "ad_registry candidate = registry'"
    using tail by (auto simp: analysed rbind_Inr_iff split: if_split_asm)
  show "ad_spec candidate = spec \<and> candidate_ok ca uc kinds_of candidate"
  proof (cases "is_users spec")
    case None
    with candidate_registry_fits(3) [OF laws(1,2) steps(3)] analysed parts show ?thesis
      by (simp add: candidate_ok_def registry_fits_def analysed_def)
  next
    case (Some specs)
    with candidate_registry_fits(2) [OF laws(1,2) steps(3) refl] obtain kinds where
      kinds: "registry_kinds core (vi_configs validated) = Inr kinds" "registry_fits ca uc kinds (is_users spec) registry" by auto
    with filled_kinds [OF laws(3) steps(1) [unfolded Some, simplified] steps(2)] have "kinds = kinds_of (is_config spec)" by simp
    with analysed_fits [OF laws(1,2) kinds(2) analysed] parts show ?thesis by (simp add: candidate_ok_def)
  qed
qed

text \<open>The addresses a candidate claims are free and named once.\<close>

lemma claim_keys_free:
  "claim_keys bound tag keys claimed = Inr claimed' \<Longrightarrow> distinct claimed \<and> set claimed \<inter> dom (map_of bound) = {} \<Longrightarrow>
     distinct claimed' \<and> set claimed' \<inter> dom (map_of bound) = {} \<and> set claimed' = set claimed \<union> set keys"
  by (induction keys arbitrary: claimed) (fastforce split: option.splits if_splits)+

lemma claim_targets_free:
  "claim_targets core w bound tag targets claimed = Inr claimed' \<Longrightarrow> distinct claimed \<and> set claimed \<inter> dom (map_of bound) = {} \<Longrightarrow>
     distinct claimed' \<and> set claimed' \<inter> dom (map_of bound) = {} \<and> set claimed' = set claimed \<union> (\<Union>target \<in> set targets. set (target_keys target))"
proof (induction targets arbitrary: claimed)
  case (Cons target targets)
  then obtain claimed1 where "claim_keys bound tag (target_keys target) claimed = Inr claimed1"
    "claim_targets core w bound tag targets claimed1 = Inr claimed'" by (auto simp: rbind_Inr_iff)
  with claim_keys_free Cons show ?case by fastforce
qed simp

definition registered :: "string \<Rightarrow> 'c InboundSlot \<Rightarrow> ('c, 'w) EngineInner \<Rightarrow> ('c, 'w) EngineInner \<Rightarrow> bool" where
  "registered tag slot e e' \<longleftrightarrow>
     slot_at e tag = None \<and> en_inbounds e' = AList.update tag slot (en_inbounds e) \<and>
     distinct (sl_keys slot) \<and> set (sl_keys slot) \<inter> dom (map_of (en_bound e)) = {} \<and>
     en_bound e' = fold (\<lambda>key. AList.update key tag) (sl_keys slot) (en_bound e) \<and> ii_tag (sl_info slot) = tag \<and>
     en_analysis_policy e' = en_analysis_policy e \<and> en_halted e' = en_halted e \<and> en_replay_identity e' = en_replay_identity e \<and>
     en_next e \<le> sl_id slot \<and> sl_id slot < en_next e'"

lemma add_commit_step:
  assumes run: "add_commit core candidate e = (e', x)"
  shows "case x of Inl _ \<Rightarrow> steady e e'
    | Inr _ \<Rightarrow> (\<exists>slot. registered (is_tag (ad_spec candidate)) slot e e' \<and> sl_users slot = ad_registry candidate \<and>
        sl_source slot = is_config (ad_spec candidate) \<and> set (sl_keys slot) = (\<Union>target \<in> set (ad_targets candidate). set (target_keys target)))"
proof -
  let ?tag = "is_tag (ad_spec candidate)" and ?v = "ad_validated candidate"
  let ?e = "prune_inline_dns core e"
  let ?groups = "cs_client_chain_groups (en_control ?e)"
  have s0: "steady e ?e" by simp
  show ?thesis
  proof (cases "slot_at ?e ?tag")
    case (Some slot)
    with run s0 show ?thesis by (auto simp: add_commit_def Let_def)
  next
    case None
    obtain e1 y where replay: "prepare_replay core ?tag (ad_admission candidate) ?e = (e1, y)" by fastforce
    have s1: "steady e e1" using steady_trans [OF s0 steady_fst [OF steady_replay replay]] .
    show ?thesis
    proof (cases y)
      case (Inl err)
      with run None replay s1 show ?thesis by (auto simp: add_commit_def Let_def)
    next
      case y: (Inr prepared)
      let ?claim = "claim_targets core (en_world e1) (en_bound e1) ?tag (ad_targets candidate) []"
      show ?thesis
      proof (cases ?claim)
        case (Inl err)
        with run None replay y s1 show ?thesis by (auto simp: add_commit_def Let_def)
      next
        case claim: (Inr claimed)
        obtain e3 z where ensure: "ensure_default_urltest_probe_resolver core ?groups e1 = (e3, z)" by fastforce
        have s3: "steady e e3" using steady_trans [OF s1 steady_fst [OF steady_ensure_default ensure]] .
        show ?thesis
        proof (cases z)
          case (Inl err)
          with run None replay y claim ensure s3 show ?thesis by (auto simp: add_commit_def Let_def)
        next
          case z: (Inr u)
          obtain e4 transaction where tx: "on_world (co_transaction core ?groups) e3 = (e4, transaction)" by fastforce
          have s4: "steady e e4" using steady_trans [OF s3 steady_on_world [OF tx]] .
          obtain e5 started q where start: "start_all core (ad_registry candidate \<noteq> None) (pr_scope prepared) (zip (vi_configs ?v) (ad_targets candidate))
            \<lparr> cd_dns_groups = vi_dns_groups ?v, cd_dns_cache_key = vi_dns_cache_key ?v, cd_pending = [] \<rparr> [] e4 = (e5, started, q)"
            by (metis prod_cases3)
          have s5: "steady e e5" using steady_trans [OF s4 steady_start [OF start]] .
          show ?thesis
          proof (cases q)
            case (Inl err)
            have "steady e (in_world (co_drop_transaction core transaction) (prune_inline_dns core (in_world (abandon core started) e5)))"
              by (rule steady_trans [OF s5 steady_cleanup])
            with run None replay y claim ensure z tx start Inl show ?thesis by (auto simp: add_commit_def Let_def)
          next
            case q: (Inr resolvers)
            obtain e6 dead where health: "on_world (first_dead core started) (in_world (co_sleep core) e5) = (e6, dead)" by fastforce
            have s6: "steady e e6" using steady_trans [OF steady_trans [OF s5 steady_worlds(1)] steady_on_world [OF health]] .
            show ?thesis
            proof (cases dead)
              case (Some d)
              have "steady e (in_world (co_drop_transaction core transaction) (prune_inline_dns core (in_world (abandon core started) e6)))"
                by (rule steady_trans [OF s6 steady_cleanup])
              with run None replay y claim ensure z tx start q health Some show ?thesis by (auto simp: add_commit_def Let_def)
            next
              case none: None
              let ?info = "candidate_info core candidate started (en_world e5)"
              define slot where "slot = slot_new (en_next e6) (is_config (ad_spec candidate)) ?info claimed started (pr_state prepared)
                (pr_lineage prepared) (ad_registry candidate)"
              obtain e7 info where reg: "register_inbound core candidate claimed prepared started ?info e6 = (e7, info)" by fastforce
              have e': "e' = publish_resolvers core resolvers (in_world (co_commit_and_start core transaction) e7)" "x = Inr info"
                using run None replay y claim ensure z tx start q health none reg by (simp_all add: add_commit_def Let_def)
              have s7: "steady e7 e'" unfolding e' by (rule steady_trans [OF steady_worlds(1) steady_publish])
              have e7: "en_inbounds e7 = AList.update ?tag slot (en_inbounds e6)" "en_bound e7 = fold (\<lambda>key. AList.update key ?tag) claimed (en_bound e6)"
                "en_analysis_policy e7 = en_analysis_policy e6" "en_halted e7 = en_halted e6" "en_next e7 = en_next e6 + 1"
                "en_replay_identity e7 = en_replay_identity e6"
                using reg by (auto simp: register_inbound_def Let_def set_slot_def on_control_def slot_def)
              have slot: "sl_keys slot = claimed" "sl_users slot = ad_registry candidate" "sl_source slot = is_config (ad_spec candidate)"
                "ii_tag (sl_info slot) = ?tag" "sl_id slot = en_next e6"
                by (simp_all add: slot_def slot_new_def candidate_info_def Let_def)
              have free: "distinct claimed" "set claimed \<inter> dom (map_of (en_bound e1)) = {}"
                "set claimed = (\<Union>target \<in> set (ad_targets candidate). set (target_keys target))"
                using claim_targets_free [OF claim] by auto
              have "registered ?tag slot e e'"
                using s6 s7 s1 e7 slot free None unfolding registered_def steady_def by (simp add: slot_at_def prune_inline_dns_def on_control_def)
              with e'(2) slot free show ?thesis by auto
            qed
          qed
        qed
      qed
    qed
  qed
qed

lemma registered_ok:
  assumes "registered tag slot e e'" "engine_ok ca uc kinds_of e" "slot_ok ca uc kinds_of tag slot"
  shows "engine_ok ca uc kinds_of e'" "engine_view uc e' = (engine_view uc e)(tag \<mapsto> slot_view uc slot)" "engine_view uc e tag = None"
    "traffic_analysis_disabled e' = traffic_analysis_disabled e"
proof -
  have slots: "slot_at e' = (slot_at e)(tag \<mapsto> slot)" using assms(1) by (simp add: registered_def slot_at_def update_conv' fun_eq_iff)
  show "engine_ok ca uc kinds_of e'"
    using assms by (auto simp: engine_ok_def slots) (simp_all add: registered_def distinct_update)
  show "engine_view uc e' = (engine_view uc e)(tag \<mapsto> slot_view uc slot)" by (simp add: engine_view_def slots fun_eq_iff)
  show "engine_view uc e tag = None" using assms(1) by (simp add: registered_def engine_view_def)
  show "traffic_analysis_disabled e' = traffic_analysis_disabled e" using assms(1) by (simp add: registered_def traffic_analysis_disabled_def)
qed

lemma candidate_view:
  assumes "candidate_ok ca uc kinds_of candidate" "sl_users slot = ad_registry candidate" "sl_source slot = is_config (ad_spec candidate)"
    "ii_tag (sl_info slot) = tag"
  shows "slot_ok ca uc kinds_of tag slot" "slot_view uc slot = spec_view (user_effect ca kinds_of) (ad_spec candidate)"
proof -
  show "slot_ok ca uc kinds_of tag slot"
    using assms by (auto simp: slot_ok_def candidate_ok_def registry_fits_def split: option.splits)
  have "listed ca (kinds_of config) specs = (\<lambda>user. map_option (user_effect ca kinds_of config) (map_of (zip (ids_of specs) specs) user))" for config specs
    by (induction specs) (auto simp: listed_def user_effect_def ids_of_def fun_eq_iff)
  then show "slot_view uc slot = spec_view (user_effect ca kinds_of) (ad_spec candidate)"
    using assms by (auto simp: slot_view_def spec_view_def candidate_ok_def registry_fits_def split: option.splits)
qed

lemma add_inner_step:
  assumes laws: "context_laws uc" "setting_laws uc" "classified_by core kinds_of" and ok: "engine_ok ca uc kinds_of e"
    and run: "add_inbound_inner core ca uc spec admission e = (e', x)"
  shows "case x of Inl _ \<Rightarrow> steady e e'
    | Inr _ \<Rightarrow> engine_ok ca uc kinds_of e' \<and> engine_view uc e (is_tag spec) = None \<and>
        engine_view uc e' = (engine_view uc e)(is_tag spec \<mapsto> spec_view (user_effect ca kinds_of) spec) \<and>
        traffic_analysis_disabled e' = traffic_analysis_disabled e"
proof -
  obtain e1 y where prep: "add_prepare core ca uc spec admission e = (e1, y)" by fastforce
  note step1 = add_prepare_step [OF laws prep]
  show ?thesis
  proof (cases y)
    case (Inl err)
    with run prep step1(1) show ?thesis by (auto simp: add_inbound_inner_def)
  next
    case (Inr candidate)
    with run prep have commit: "add_commit core candidate e1 = (e', x)" by (simp add: add_inbound_inner_def)
    note cand = step1(2) [OF Inr] and same = steady_ok [OF step1(1) ok]
    show ?thesis
    proof (cases x)
      case (Inl err)
      with add_commit_step [OF commit] step1(1) show ?thesis by (auto intro: steady_trans)
    next
      case (Inr info)
      with add_commit_step [OF commit] cand obtain slot where slot: "registered (is_tag spec) slot e1 e'"
        "sl_users slot = ad_registry candidate" "sl_source slot = is_config (ad_spec candidate)" by auto
      then have tag: "ii_tag (sl_info slot) = is_tag spec" by (simp add: registered_def)
      note view = candidate_view [OF conjunct2 [OF cand] slot(2,3) tag]
      from registered_ok [OF slot(1) same(1) view(1)] same view(2) cand Inr show ?thesis by simp
    qed
  qed
qed

section \<open>Updating an inbound\<close>

lemma update_prepare_step:
  assumes "update_prepare core spec e = (e', x)"
  shows "steady e e'"
    "x = Inr candidate \<Longrightarrow> \<exists>slot. slot_at e (is_tag spec) = Some slot \<and> up_source candidate = is_config spec \<and>
       up_snapshot candidate = \<lparr> ip_tag = ii_tag (sl_info slot), ip_slot = slot, ip_revision = slot_revision core (en_world e) slot \<rparr> \<and>
       (\<exists>e1 e2 config. fill_credentials core (sl_users slot \<noteq> None) (is_config spec) e = (e1, Inr config) \<and>
          on_world (validate_inbound_config core (apply_analysis_policy e1 config)) e1 = (e2, Inr (up_validated candidate)))"
proof -
  have "steady e (fst (update_prepare core spec e))"
    unfolding update_prepare_def Let_def by (auto intro!: steady_andthen steady_fill split: option.split)
  with assms show "steady e e'" by simp
  show "x = Inr candidate \<Longrightarrow> \<exists>slot. slot_at e (is_tag spec) = Some slot \<and> up_source candidate = is_config spec \<and>
       up_snapshot candidate = \<lparr> ip_tag = ii_tag (sl_info slot), ip_slot = slot, ip_revision = slot_revision core (en_world e) slot \<rparr> \<and>
       (\<exists>e1 e2 config. fill_credentials core (sl_users slot \<noteq> None) (is_config spec) e = (e1, Inr config) \<and>
          on_world (validate_inbound_config core (apply_analysis_policy e1 config)) e1 = (e2, Inr (up_validated candidate)))"
    using assms unfolding update_prepare_def Let_def by (auto simp: andthen_Inr rbind_Inr_iff split: if_split_asm option.split_asm)
qed

lemma slot_reload_kept:
  "slot_reload core candidates slot w = (w', Inr (slot', n)) \<Longrightarrow> \<exists>protocol. slot' = slot\<lparr> sl_protocol := protocol \<rparr>"
  by (auto simp: slot_reload_def andthen_Inr Let_def split: if_splits sum.splits)

lemma update_commit_step:
  assumes run: "update_commit core candidate e = (e', x)"
  shows "case x of Inl _ \<Rightarrow> steady e e'
    | Inr _ \<Rightarrow> (\<exists>slot protocol e1. slot_at e (ip_tag (up_snapshot candidate)) = Some slot \<and> sl_id slot = sl_id (ip_slot (up_snapshot candidate)) \<and>
        slot_revision core (en_world e) slot = ip_revision (up_snapshot candidate) \<and>
        check_kinds core (vi_configs (up_validated candidate)) slot = Inr () \<and> steady e e1 \<and>
        steady (set_slot (ip_tag (up_snapshot candidate)) (slot\<lparr> sl_protocol := protocol, sl_source := up_source candidate \<rparr>) e1) e')"
proof -
  let ?tag = "ip_tag (up_snapshot candidate)" and ?v = "up_validated candidate"
  let ?e = "prune_inline_dns core e"
  let ?groups = "cs_client_chain_groups (en_control ?e)"
  have s0: "steady e ?e" by simp
  have world: "en_world ?e = en_world e" "slot_at ?e = slot_at e" by (simp_all add: prune_inline_dns_def on_control_def slot_at_def fun_eq_iff)
  show ?thesis
  proof (cases "verify core (up_snapshot candidate) ?e")
    case (Inl err)
    with run s0 show ?thesis by (auto simp: update_commit_def Let_def)
  next
    case verified: (Inr slot)
    then have slot: "slot_at e ?tag = Some slot" "sl_id slot = sl_id (ip_slot (up_snapshot candidate))"
      "slot_revision core (en_world e) slot = ip_revision (up_snapshot candidate)"
      by (auto simp: verify_def world split: option.splits if_splits)
    show ?thesis
    proof (cases "check_kinds core (vi_configs ?v) slot")
      case (Inl err)
      with run verified s0 show ?thesis by (auto simp: update_commit_def Let_def)
    next
      case kinds: (Inr u)
      obtain e3 z where ensure: "ensure_default_urltest_probe_resolver core ?groups ?e = (e3, z)" by fastforce
      have s3: "steady e e3" using steady_trans [OF s0 steady_fst [OF steady_ensure_default ensure]] .
      show ?thesis
      proof (cases z)
        case (Inl err)
        with run verified kinds ensure s3 show ?thesis by (auto simp: update_commit_def Let_def)
      next
        case z: (Inr u')
        obtain e4 transaction where tx: "on_world (co_transaction core ?groups) e3 = (e4, transaction)" by fastforce
        have s4: "steady e e4" using steady_trans [OF s3 steady_on_world [OF tx]] .
        obtain e5 q where cands: "reload_candidates core (zip (vi_configs ?v) (up_targets candidate))
          \<lparr> cd_dns_groups = vi_dns_groups ?v, cd_dns_cache_key = vi_dns_cache_key ?v, cd_pending = [] \<rparr> e4 = (e5, q)" by fastforce
        have s5: "steady e e5" using steady_trans [OF s4 steady_fst [OF steady_reload cands]] .
        show ?thesis
        proof (cases q)
          case (Inl err)
          with run verified kinds ensure z tx cands steady_trans [OF s5 steady_worlds(1)] show ?thesis
            by (auto simp: update_commit_def Let_def)
        next
          case q: (Inr rc)
          obtain resolvers candidates where rc: "rc = (resolvers, candidates)" by (cases rc)
          obtain e6 y where reload: "on_world (slot_reload core candidates slot) e5 = (e6, y)" by fastforce
          have s6: "steady e e6" using steady_trans [OF s5 steady_on_world [OF reload]] .
          show ?thesis
          proof (cases y)
            case (Inl err)
            have "steady e (in_world (co_drop_transaction core transaction) (prune_inline_dns core e6))"
              using steady_trans [OF steady_trans [OF s6 steady_worlds(4)] steady_worlds(1)] .
            with run verified kinds ensure z tx cands q rc reload Inl show ?thesis by (auto simp: update_commit_def Let_def)
          next
            case (Inr result)
            obtain slot' n where slot': "result = (slot', n)" by (cases result)
            obtain protocol where kept: "slot' = slot\<lparr> sl_protocol := protocol \<rparr>"
              using reload Inr slot' slot_reload_kept [of core candidates slot "en_world e5"] by (auto simp: on_world_def split: prod.splits)
            let ?slot = "slot\<lparr> sl_protocol := protocol, sl_source := up_source candidate \<rparr>"
            have "e' = prune_inline_dns core (publish_resolvers core resolvers (in_world (co_commit_and_start core transaction) (set_slot ?tag ?slot e6)))"
              "\<exists>info. x = Inr info"
              using run verified kinds ensure z tx cands q rc reload Inr slot' kept by (auto simp: update_commit_def Let_def)
            moreover have "steady (set_slot ?tag ?slot e6)
                (prune_inline_dns core (publish_resolvers core resolvers (in_world (co_commit_and_start core transaction) (set_slot ?tag ?slot e6))))"
              by (rule steady_trans [OF steady_trans [OF steady_worlds(1) steady_publish] steady_worlds(4)])
            ultimately show ?thesis using slot kinds s6 by (elim exE) (simp, blast)
          qed
        qed
      qed
    qed
  qed
qed

lemma engine_update_step:
  assumes laws: "classified_by core kinds_of" and ok: "engine_ok ca uc kinds_of e" and run: "engine_update_inbound core spec e = (e', x)"
  shows "case x of Inl _ \<Rightarrow> steady e e'
    | Inr _ \<Rightarrow> (\<exists>l. engine_view uc e (is_tag spec) = Some l \<and> engine_ok ca uc kinds_of e' \<and>
        (lv_users l \<noteq> None \<longrightarrow> user_effect ca kinds_of (is_config spec) = user_effect ca kinds_of (lv_config l)) \<and>
        engine_view uc e' = (engine_view uc e)(is_tag spec \<mapsto> l\<lparr> lv_config := is_config spec \<rparr>) \<and>
        traffic_analysis_disabled e' = traffic_analysis_disabled e)"
proof -
  obtain e1 y where prep: "update_prepare core spec e = (e1, y)" by fastforce
  note step1 = update_prepare_step [OF prep]
  show ?thesis
  proof (cases y)
    case (Inl err)
    with run prep step1(1) show ?thesis by (auto simp: engine_update_inbound_def)
  next
    case (Inr candidate)
    with run prep have commit: "update_commit core candidate e1 = (e', x)" by (simp add: engine_update_inbound_def)
    note same = steady_ok [OF step1(1) ok]
    from step1(2) [OF Inr] obtain slot0 ea eb config where slot0: "slot_at e (is_tag spec) = Some slot0" "up_source candidate = is_config spec"
      "up_snapshot candidate = \<lparr> ip_tag = ii_tag (sl_info slot0), ip_slot = slot0, ip_revision = slot_revision core (en_world e) slot0 \<rparr>"
      "fill_credentials core (sl_users slot0 \<noteq> None) (is_config spec) e = (ea, Inr config)"
      "on_world (validate_inbound_config core (apply_analysis_policy ea config)) ea = (eb, Inr (up_validated candidate))" by blast
    have tag: "ip_tag (up_snapshot candidate) = is_tag spec"
      using ok slot0(1,3) by (simp add: engine_ok_def slot_ok_def)
    show ?thesis
    proof (cases x)
      case (Inl err)
      with update_commit_step [OF commit] step1(1) show ?thesis by (auto intro: steady_trans)
    next
      case x: (Inr info)
      with update_commit_step [OF commit] tag slot0(2) obtain slot protocol e2 where slot: "slot_at e1 (is_tag spec) = Some slot"
        "check_kinds core (vi_configs (up_validated candidate)) slot = Inr ()" "steady e1 e2"
        "steady (set_slot (is_tag spec) (slot\<lparr> sl_protocol := protocol, sl_source := is_config spec \<rparr>) e2) e'" by auto
      let ?slot = "slot\<lparr> sl_protocol := protocol, sl_source := is_config spec \<rparr>"
      have eq: "slot = slot0" using slot(1) slot0(1) same(3) by simp
      have sok: "slot_ok ca uc kinds_of (is_tag spec) slot" using ok slot0(1) eq by (simp add: engine_ok_def)
      have kinds: "mr_kinds r = kinds_of (is_config spec)" if "sl_users slot = Some r" for r
      proof -
        from slot(2) that have "registry_kinds core (vi_configs (up_validated candidate)) = Inr (mr_kinds r)"
          by (auto simp: check_kinds_def rbind_Inr_iff split: if_splits)
        with filled_kinds [OF laws _ slot0(5)] slot0(4) that eq show ?thesis by simp
      qed
      have "slot_ok ca uc kinds_of (is_tag spec) ?slot" using sok kinds by (simp add: slot_ok_def)
      note new = set_slot_ok [OF steady_ok(1) [OF slot(3) same(1)] this]
      note final = steady_ok [OF slot(4) new(1)]
      have view: "engine_view uc e (is_tag spec) = Some (slot_view uc slot)" using slot0(1) eq by (simp add: engine_view_def)
      moreover have "slot_view uc ?slot = (slot_view uc slot)\<lparr> lv_config := is_config spec \<rparr>" by (simp add: slot_view_def)
      moreover have "user_effect ca kinds_of (is_config spec) = user_effect ca kinds_of (lv_config (slot_view uc slot))"
        if "lv_users (slot_view uc slot) \<noteq> None"
        using that kinds sok by (auto simp: slot_view_def slot_ok_def user_effect_def)
      ultimately show ?thesis
        using x final new steady_ok [OF slot(3) same(1)] same by auto
    qed
  qed
qed

section \<open>Removing an inbound\<close>

lemma released_ok:
  assumes "engine_ok ca uc kinds_of e" "slot_at e tag = Some slot"
    "en_inbounds e' = AList.delete tag (en_inbounds e)" "en_halted e' = en_halted e" "en_analysis_policy e' = en_analysis_policy e"
  shows "engine_ok ca uc kinds_of e'" "engine_view uc e' = (engine_view uc e)(tag := None)"
    "traffic_analysis_disabled e' = traffic_analysis_disabled e"
proof -
  have slots: "slot_at e' = (slot_at e)(tag := None)" using assms(3) by (simp add: slot_at_def delete_conv' fun_eq_iff)
  show "engine_ok ca uc kinds_of e'" using assms by (auto simp: engine_ok_def slots) (simp add: distinct_delete)
  show "engine_view uc e' = (engine_view uc e)(tag := None)" by (simp add: engine_view_def slots fun_eq_iff)
  show "traffic_analysis_disabled e' = traffic_analysis_disabled e" using assms(5) by (simp add: traffic_analysis_disabled_def)
qed

definition unregistered :: "string \<Rightarrow> ('c, 'w) EngineInner \<Rightarrow> ('c, 'w) EngineInner \<Rightarrow> bool" where
  "unregistered tag e e' \<longleftrightarrow> (\<exists>slot. slot_at e tag = Some slot \<and> en_inbounds e' = AList.delete tag (en_inbounds e) \<and>
     en_bound e' = filter (\<lambda>(key, _). key \<notin> set (sl_keys slot)) (en_bound e) \<and> en_halted e' = en_halted e \<and>
     en_analysis_policy e' = en_analysis_policy e \<and> en_replay_identity e' = en_replay_identity e \<and> en_next e' = en_next e)"

lemma remove_inner_step:
  assumes "remove_inbound_inner core cancelled tag mode e = (e', x)"
  shows "(x = Some (Inl (UnknownTag tag)) \<and> steady e e') \<or> ((x = None \<longleftrightarrow> cancelled) \<and> (\<forall>err. x \<noteq> Some (Inl err)) \<and> unregistered tag e e')"
  using assms
  by (auto simp: remove_inbound_inner_def unregistered_def release_on_drop_def prune_inline_dns_def in_world_def on_control_def slot_at_def Let_def
      steady_def split: option.splits if_splits)

lemma engine_remove_step:
  assumes ok: "engine_ok ca uc kinds_of e" and run: "engine_remove_inbound core mode tag e = (e', x)"
  shows "case x of Inl _ \<Rightarrow> steady e e'
    | Inr _ \<Rightarrow> engine_ok ca uc kinds_of e' \<and> engine_view uc e' = (engine_view uc e)(tag := None) \<and>
        traffic_analysis_disabled e' = traffic_analysis_disabled e"
proof -
  obtain y where inner: "remove_inbound_inner core False tag mode e = (e', y)" "x = the y"
    using run by (auto simp: engine_remove_inbound_def split: prod.splits)
  from remove_inner_step [OF inner(1)] show ?thesis
  proof (elim disjE conjE)
    assume "y = Some (Inl (UnknownTag tag))" "steady e e'"
    with inner(2) show ?thesis by simp
  next
    assume y: "y = None \<longleftrightarrow> False" "\<forall>err. y \<noteq> Some (Inl err)" and "unregistered tag e e'"
    then obtain slot where "slot_at e tag = Some slot" "en_inbounds e' = AList.delete tag (en_inbounds e)" "en_halted e' = en_halted e"
      "en_analysis_policy e' = en_analysis_policy e" by (auto simp: unregistered_def)
    note released_ok [OF ok this]
    moreover obtain info where "x = Inr info" using y inner(2) by (cases y; cases "the y") auto
    ultimately show ?thesis by simp
  qed
qed

section \<open>User tables\<close>

lemma on_registry_step:
  assumes ok: "engine_ok ca uc kinds_of e" and run: "on_registry tag f e = (e', x)"
    and step: "\<forall>r. registry_ok ca uc r \<longrightarrow> (\<exists>r' y. f r = Some (r', y) \<and> registry_ok ca uc r' \<and> mr_kinds r' = mr_kinds r \<and> Q r r' y)"
  obtains (refused) err where "x = Inl err" "e' = e" "registry_for e tag = Inl err"
    | (ran) slot r r' where "slot_at e tag = Some slot" "sl_users slot = Some r" "mr_kinds r = kinds_of (sl_source slot)" "registry_ok ca uc r" "Q r r' x"
        "engine_ok ca uc kinds_of e'" "traffic_analysis_disabled e' = traffic_analysis_disabled e"
        "engine_view uc e' = (engine_view uc e)(tag \<mapsto> (slot_view uc slot)\<lparr> lv_users := Some (registry_view uc r') \<rparr>)"
proof (cases "registry_for e tag")
  case (Inl err)
  show thesis by (rule refused [of err]) (use run Inl in \<open>simp_all add: on_registry_def\<close>)
next
  case (Inr p)
  then obtain slot r where slot: "p = (slot, r)" "slot_at e tag = Some slot" "sl_users slot = Some r"
    by (auto simp: registry_for_def split: option.splits)
  then have sok: "slot_ok ca uc kinds_of tag slot" "registry_ok ca uc r" "mr_kinds r = kinds_of (sl_source slot)"
    using ok by (simp_all add: engine_ok_def slot_ok_def)
  from step sok(2) obtain r' y where r': "f r = Some (r', y)" "registry_ok ca uc r'" "mr_kinds r' = mr_kinds r" "Q r r' y" by blast
  let ?slot = "slot\<lparr> sl_users := Some r' \<rparr>"
  have e': "e' = set_slot tag ?slot e" "x = y" using run Inr slot r'(1) by (simp_all add: on_registry_def)
  have "slot_ok ca uc kinds_of tag ?slot" using sok r'(2,3) by (simp add: slot_ok_def)
  from set_slot_ok [OF ok this] ran [OF slot(2,3) sok(3,2)] r'(4) e' show thesis by (simp add: slot_view_def)
qed

lemma view_slot: "slot_at e tag = Some slot \<Longrightarrow> engine_view uc e tag = Some (slot_view uc slot)"
  by (simp add: engine_view_def)

lemma same_users:
  "slot_at e tag = Some slot \<Longrightarrow> sl_users slot = Some r \<Longrightarrow> registry_view uc r' = registry_view uc r \<Longrightarrow>
   (engine_view uc e)(tag \<mapsto> (slot_view uc slot)\<lparr> lv_users := Some (registry_view uc r') \<rparr>) = engine_view uc e"
  by (auto simp: fun_eq_iff engine_view_def slot_view_def)

lemma without_user_slot:
  "slot_at e tag = Some slot \<Longrightarrow> sl_users slot = Some r \<Longrightarrow> registry_view uc r' = (registry_view uc r)(user := None) \<Longrightarrow>
   (engine_view uc e)(tag \<mapsto> (slot_view uc slot)\<lparr> lv_users := Some (registry_view uc r') \<rparr>) = without_user tag user (engine_view uc e)"
  by (simp add: without_user_def view_slot) (simp add: slot_view_def)

lemma with_user_slot:
  "slot_at e tag = Some slot \<Longrightarrow> sl_users slot = Some r \<Longrightarrow> registry_view uc r' = (registry_view uc r)(user \<mapsto> eff (sl_source slot) spec) \<Longrightarrow>
   (engine_view uc e)(tag \<mapsto> (slot_view uc slot)\<lparr> lv_users := Some (registry_view uc r') \<rparr>) = with_user eff tag user spec (engine_view uc e)"
  by (simp add: with_user_def view_slot) (simp add: slot_view_def)

lemma engine_add_user_step:
  assumes laws: "context_laws uc" "setting_laws uc" and ok: "engine_ok ca uc kinds_of e" and run: "engine_add_user ca uc tag user e = (e', x)"
  shows "engine_ok ca uc kinds_of e' \<and> traffic_analysis_disabled e' = traffic_analysis_disabled e \<and>
    (case x of
       Inl _ \<Rightarrow> engine_view uc e' = engine_view uc e
     | Inr _ \<Rightarrow> \<exists>uid. resolved_id user = Some uid \<and> engine_view uc e' = with_user (user_effect ca kinds_of) tag uid user (engine_view uc e))"
proof -
  define Q where "Q r r' y \<longleftrightarrow> (case y of
      Inl _ \<Rightarrow> registry_view uc r' = registry_view uc r
    | Inr _ \<Rightarrow> \<exists>uid. resolved_id user = Some uid \<and> registry_view uc r' = (registry_view uc r)(uid \<mapsto> spec_state ca (mr_kinds r) user))"
    for r r' :: "'a MemoryUserRegistry" and y :: "EngineError + UserInfo"
  have "\<exists>r' y. upsert ca uc r user = Some (r', y) \<and> registry_ok ca uc r' \<and> mr_kinds r' = mr_kinds r \<and> Q r r' y" if "registry_ok ca uc r" for r
    by (cases rule: upsert_view [OF laws that, where spec = user, case_names refused installed]) (use that in \<open>auto simp: Q_def\<close>)
  then have step: "\<forall>r. registry_ok ca uc r \<longrightarrow> (\<exists>r' y. upsert ca uc r user = Some (r', y) \<and> registry_ok ca uc r' \<and> mr_kinds r' = mr_kinds r \<and> Q r r' y)"
    by blast
  show ?thesis
  proof (cases rule: on_registry_step [OF ok run [unfolded engine_add_user_def] step, case_names refused ran])
    case (refused err)
    with ok show ?thesis by simp
  next
    case (ran slot r r')
    then show ?thesis
    proof (cases x)
      case (Inl err)
      with ran same_users [OF ran(1,2), of uc r'] show ?thesis by (simp add: Q_def)
    next
      case (Inr info)
      with ran(3,5) obtain uid where uid: "resolved_id user = Some uid"
        "registry_view uc r' = (registry_view uc r)(uid \<mapsto> user_effect ca kinds_of (sl_source slot) user)"
        by (auto simp: Q_def user_effect_def)
      with ran Inr with_user_slot [where eff = "user_effect ca kinds_of" and spec = user, OF ran(1,2) uid(2)] show ?thesis by auto
    qed
  qed
qed

lemma quiet_step:
  assumes ok: "engine_ok ca uc kinds_of e" and run: "on_registry tag (\<lambda>r. Some (f r)) e = (e', x)"
    and quiet: "\<And>r r' y. registry_ok ca uc r \<Longrightarrow> f r = (r', y) \<Longrightarrow> same_settings uc r r' \<and> Q y" "\<And>err. Q (Inl err)"
  shows "engine_ok ca uc kinds_of e' \<and> traffic_analysis_disabled e' = traffic_analysis_disabled e \<and> engine_view uc e' = engine_view uc e \<and> Q x"
proof -
  have "\<exists>r' y. Some (f r) = Some (r', y) \<and> registry_ok ca uc r' \<and> mr_kinds r' = mr_kinds r \<and> registry_view uc r' = registry_view uc r \<and> Q y"
    if r: "registry_ok ca uc r" for r
  proof -
    obtain r' y where f: "f r = (r', y)" by fastforce
    note same = conjunct1 [OF quiet(1) [OF r f]]
    from same_settings_ok [OF same r] quiet(1) [OF r f] f show ?thesis by auto
  qed
  then have step: "\<forall>r. registry_ok ca uc r \<longrightarrow> (\<exists>r' y. Some (f r) = Some (r', y) \<and> registry_ok ca uc r' \<and> mr_kinds r' = mr_kinds r \<and>
      registry_view uc r' = registry_view uc r \<and> Q y)" by blast
  show ?thesis
  proof (cases rule: on_registry_step [OF ok run step, case_names refused ran])
    case (refused err)
    with ok quiet(2) show ?thesis by simp
  next
    case (ran slot r r')
    with same_users [OF ran(1,2), of uc r'] show ?thesis by simp
  qed
qed

lemma remove_and_wait_step:
  assumes laws: "context_laws uc" "setting_laws uc" "settles uc settle" and ok: "registry_ok ca uc r"
  shows "\<exists>r' y. remove_and_wait ca uc settle failure tag user r = Some (r', y) \<and> registry_ok ca uc r' \<and> mr_kinds r' = mr_kinds r \<and>
    (case y of
       Inr info \<Rightarrow> ui_id info = user \<and> registry_view uc r' = (registry_view uc r)(user := None)
     | Inl (EngineIo _) \<Rightarrow> registry_view uc r' = (registry_view uc r)(user := None)
     | Inl _ \<Rightarrow> registry_view uc r' = registry_view uc r)"
proof (cases rule: removed_registry [OF laws(1) ok, where tag = tag and user = user, case_names unknown draining])
  case unknown
  with ok show ?thesis by (simp add: remove_and_wait_def)
next
  case (draining r1 g newly)
  show ?thesis
  proof (cases "if newly then failure else None")
    case (Some error)
    obtain r2 err where cancel: "remove_cancelled uc g error r1 = (r2, err)" by fastforce
    then have "r2 = r1 \<or> r2 = fst (complete_generation uc g r1)" "\<exists>io. err = EngineIo io"
      by (auto simp: remove_cancelled_def split: if_splits)
    with complete_ok [OF laws(2) draining(2,5)] draining have "registry_ok ca uc r2" "mr_kinds r2 = mr_kinds r"
      "registry_view uc r2 = (registry_view uc r)(user := None)" by (metis prod.collapse)+
    with draining(1) Some cancel \<open>\<exists>io. err = EngineIo io\<close> show ?thesis by (auto simp: remove_and_wait_def)
  next
    case None
    let ?r = "context_update (en_context (dg_entry (mr_generations r1 ! g))) settle r1"
    have same: "same_settings uc r1 ?r" using laws(3) by (intro same_settings_update) (simp_all add: settles_def)
    note ok1 = same_settings_ok [OF same draining(2)]
    have gens: "mr_generations ?r = mr_generations r1" by (simp add: context_update_def)
    have heap: "en_context (dg_entry (mr_generations r1 ! g)) < length (mr_contexts r1)"
      using generation_in_heap [OF registry_ok_contexts [OF draining(2)] draining(5)] .
    then have settled: "uc_conns uc (context_of ?r (dg_entry (mr_generations ?r ! g))) = 0"
      "owner_id uc ?r (dg_entry (mr_generations ?r ! g)) = user"
      using laws(3) draining(6) by (simp_all add: gens context_of_def context_update_def settles_def owner_id_def)
    have "finish uc g s \<noteq> None" if "uc_conns uc (context_of s (dg_entry (mr_generations s ! g))) = 0" for s
      using that by (auto simp: finish_def Let_def split: option.split)
    from this [OF settled(1)] obtain r2 info where collect: "remove_collect uc g ?r = Some (r2, info)"
      by (auto simp: remove_collect_def)
    from collect_ok [OF laws(2) ok1(1) _ collect] gens draining(5) settled(2) ok1 draining
    have "registry_ok ca uc r2" "registry_view uc r2 = (registry_view uc r)(user := None)" "mr_kinds r2 = mr_kinds r" "ui_id info = user" by simp_all
    with draining(1) None collect show ?thesis by (simp add: remove_and_wait_def)
  qed
qed

lemma engine_remove_user_step:
  assumes laws: "context_laws uc" "setting_laws uc" "settles uc settle" and ok: "engine_ok ca uc kinds_of e"
    and run: "engine_remove_user core ca uc settle tag user e = (e', x)"
  shows "engine_ok ca uc kinds_of e' \<and> traffic_analysis_disabled e' = traffic_analysis_disabled e \<and>
    (case x of
       Inr info \<Rightarrow> ui_id info = user \<and> engine_view uc e' = without_user tag user (engine_view uc e)
     | Inl (EngineIo _) \<Rightarrow> engine_view uc e' = engine_view uc e \<or> engine_view uc e' = without_user tag user (engine_view uc e)
     | Inl _ \<Rightarrow> engine_view uc e' = engine_view uc e)"
proof -
  obtain e1 failure where fin: "on_world (co_finalizer core) e = (e1, failure)" by fastforce
  note same = steady_ok [OF steady_on_world [OF fin] ok]
  define Q where "Q r r' y \<longleftrightarrow> (case y of
      Inr info \<Rightarrow> ui_id info = user \<and> registry_view uc r' = (registry_view uc r)(user := None)
    | Inl (EngineIo _) \<Rightarrow> registry_view uc r' = (registry_view uc r)(user := None)
    | Inl _ \<Rightarrow> registry_view uc r' = registry_view uc r)" for r r' :: "'a MemoryUserRegistry" and y :: "EngineError + UserInfo"
  have step: "\<forall>r. registry_ok ca uc r \<longrightarrow> (\<exists>r' y. remove_and_wait ca uc settle failure tag user r = Some (r', y) \<and> registry_ok ca uc r' \<and>
      mr_kinds r' = mr_kinds r \<and> Q r r' y)"
    using remove_and_wait_step [OF laws] by (simp add: Q_def)
  have run1: "on_registry tag (remove_and_wait ca uc settle failure tag user) e1 = (e', x)" using run fin by (simp add: engine_remove_user_def)
  show ?thesis
  proof (cases rule: on_registry_step [OF same(1) run1 step, case_names refused ran])
    case (refused err)
    with same show ?thesis by (auto split: EngineError.split)
  next
    case (ran slot r r')
    have out: "Q r r' x" "engine_view uc e' = (engine_view uc e1)(tag \<mapsto> (slot_view uc slot)\<lparr> lv_users := Some (registry_view uc r') \<rparr>)"
      using ran by simp_all
    have views: "registry_view uc r' = registry_view uc r \<Longrightarrow> engine_view uc e' = engine_view uc e"
      "registry_view uc r' = (registry_view uc r)(user := None) \<Longrightarrow> engine_view uc e' = without_user tag user (engine_view uc e)"
      using out(2) same_users [OF ran(1,2), of uc r'] without_user_slot [OF ran(1,2), of uc r' user] same(2) by simp_all
    have "engine_ok ca uc kinds_of e'" "traffic_analysis_disabled e' = traffic_analysis_disabled e" using ran same by simp_all
    with views out(1) show ?thesis by (auto simp: Q_def split: sum.split EngineError.split)
  qed
qed

section \<open>The contract\<close>

definition shoes_engine :: "('x, 'w) shoes_core \<Rightarrow> credential_api \<Rightarrow> 'c user_context \<Rightarrow> ('c \<Rightarrow> 'c) \<Rightarrow> (('c, 'w) EngineInner, InboundReplayLease) engine" where
  "shoes_engine core ca uc settle =
     \<lparr> eg_list_inbounds = list_inbounds core,
       eg_get_inbound = (\<lambda>e tag. slot_at e tag \<noteq> None),
       eg_failed_listener_tags = (\<lambda>e. snd (failed_listener_tags core e)),
       eg_traffic_analysis_disabled = traffic_analysis_disabled,
       eg_validate_inbound = validate_inbound core ca uc,
       eg_validate_urltest_probe_dns = validate_urltest_probe_dns core,
       eg_configure_urltest_probe_dns = (\<lambda>e dns. configure_urltest_probe_dns core dns e),
       eg_rotate_dns_client_generation = rotate_dns_client_generation core,
       eg_commit_client_chain_group_generation = commit_client_chain_group_generation core,
       eg_preserve_inbound_replay = preserve_inbound_replay,
       eg_add_inbound = (\<lambda>e spec. engine_add_inbound core ca uc spec e),
       eg_add_inbound_with_replay = (\<lambda>e spec lease. engine_add_inbound_with_replay core ca uc spec lease e),
       eg_update_inbound = (\<lambda>e spec. engine_update_inbound core spec e),
       eg_remove_inbound_hard = (\<lambda>e tag. engine_remove_inbound core Hard tag e),
       eg_list_users = engine_list_users uc,
       eg_add_user = (\<lambda>e tag user. engine_add_user ca uc tag user e),
       eg_remove_user = (\<lambda>e tag user. engine_remove_user core ca uc settle tag user e),
       eg_kick_user = (\<lambda>e tag user. engine_kick_user uc tag user e),
       eg_take_user_traffic = (\<lambda>e tag user. engine_take_user_traffic uc tag user e),
       eg_take_nonzero_inbound_traffic = (\<lambda>e tag. engine_take_nonzero_inbound_traffic uc tag e) \<rparr>"

definition shoes_laws :: "('x, 'w) shoes_core \<Rightarrow> 'c user_context \<Rightarrow> ('c \<Rightarrow> 'c) \<Rightarrow> (json \<Rightarrow> CredentialKinds) \<Rightarrow> bool" where
  "shoes_laws core uc settle kinds_of \<longleftrightarrow> context_laws uc \<and> setting_laws uc \<and> settles uc settle \<and> classified_by core kinds_of"

lemma steady_moved:
  assumes "steady e e'" "engine_ok ca uc kinds_of e"
  shows "moved (shoes_engine core ca uc settle) (engine_ok ca uc kinds_of) (engine_view uc) e e' (engine_view uc e)"
  using steady_ok [OF assms] by (simp add: moved_def shoes_engine_def)

lemma inbound_tags:
  assumes "engine_ok ca uc kinds_of e"
  shows "set (map ii_tag (list_inbounds core e)) = dom (engine_view uc e)" "distinct (map ii_tag (list_inbounds core e))"
proof -
  have own: "ii_tag (sl_info slot) = tag" if "(tag, slot) \<in> set (en_inbounds e)" for tag slot
  proof -
    from assms that have "slot_at e tag = Some slot" by (simp add: engine_ok_def slot_at_def)
    with assms show ?thesis by (simp add: engine_ok_def slot_ok_def)
  qed
  have ids: "map ii_tag (map (\<lambda>(_, slot). describe core (en_world e) slot) (en_inbounds e)) = map fst (en_inbounds e)"
    using own by (auto simp: describe_def)
  have "set (map ii_tag (list_inbounds core e)) = fst ` set (en_inbounds e)"
    using arg_cong [OF ids, of set] by (simp add: list_inbounds_def image_image)
  also have "\<dots> = dom (engine_view uc e)" by (simp add: engine_view_def slot_at_def dom_def flip: dom_map_of_conv_image_fst)
  finally show "set (map ii_tag (list_inbounds core e)) = dom (engine_view uc e)" .
  have "mset (map ii_tag (list_inbounds core e)) = mset (map fst (en_inbounds e))"
    using arg_cong [OF ids, of mset] by (simp add: list_inbounds_def multiset.map_comp)
  then show "distinct (map ii_tag (list_inbounds core e))" using assms by (metis engine_ok_def mset_eq_imp_distinct_iff)
qed

lemma listed_users:
  assumes "setting_laws uc" "engine_ok ca uc kinds_of e"
  shows "engine_list_users uc e tag = Inr infos \<Longrightarrow>
      \<exists>l m. engine_view uc e tag = Some l \<and> lv_users l = Some m \<and> set (map ui_id infos) = dom m \<and> distinct (map ui_id infos)"
    "engine_list_users uc e tag = Inl (Unsupported msg) \<Longrightarrow> \<exists>l. engine_view uc e tag = Some l \<and> lv_users l = None"
proof -
  assume "engine_list_users uc e tag = Inr infos"
  then obtain slot r where slot: "slot_at e tag = Some slot" "sl_users slot = Some r" "infos = list_users uc r"
    by (auto simp: engine_list_users_def registry_for_def rbind_Inr_iff split: option.splits)
  then have "contexts_ok uc r" using assms(2) by (auto simp: engine_ok_def slot_ok_def intro: registry_ok_contexts)
  from list_users_ids [OF assms(1) this] slot
  show "\<exists>l m. engine_view uc e tag = Some l \<and> lv_users l = Some m \<and> set (map ui_id infos) = dom m \<and> distinct (map ui_id infos)"
    by (auto simp: engine_view_def slot_view_def)
next
  assume "engine_list_users uc e tag = Inl (Unsupported msg)"
  then show "\<exists>l. engine_view uc e tag = Some l \<and> lv_users l = None"
    by (auto simp: engine_list_users_def registry_for_def rbind_Inl_iff engine_view_def slot_view_def split: option.splits)
qed

lemma add_moved:
  assumes "shoes_laws core uc settle kinds_of" "engine_ok ca uc kinds_of e" "add_inbound_inner core ca uc spec admission e = (e', r)"
  shows "case r of
      Inr _ \<Rightarrow> engine_view uc e (is_tag spec) = None \<and> moved (shoes_engine core ca uc settle) (engine_ok ca uc kinds_of) (engine_view uc) e e'
        ((engine_view uc e)(is_tag spec \<mapsto> spec_view (user_effect ca kinds_of) spec))
    | Inl _ \<Rightarrow> moved (shoes_engine core ca uc settle) (engine_ok ca uc kinds_of) (engine_view uc) e e' (engine_view uc e)"
proof -
  have laws: "context_laws uc" "setting_laws uc" "classified_by core kinds_of" using assms(1) by (simp_all add: shoes_laws_def)
  from add_inner_step [OF laws assms(2,3)] show ?thesis
    by (cases r) (simp_all add: steady_moved [OF _ assms(2)], simp add: moved_def shoes_engine_def)
qed

text \<open>The engine of \<open>shoes-engine\<close> implements the contract the runtime relies on, given the laws of the proxy core.\<close>

lemma engine_implements:
  assumes laws: "shoes_laws core uc settle kinds_of"
  shows "engine_contract (shoes_engine core ca uc settle) (engine_ok ca uc kinds_of) (engine_view uc) (user_effect ca kinds_of)"
proof -
  let ?eng = "shoes_engine core ca uc settle" and ?good = "engine_ok ca uc kinds_of" and ?view = "engine_view uc"
  have l: "context_laws uc" "setting_laws uc" "settles uc settle" "classified_by core kinds_of" using laws by (simp_all add: shoes_laws_def)
  have quiet: "moved ?eng ?good ?view e e' (?view e)" if "?good e' \<and> traffic_analysis_disabled e' = traffic_analysis_disabled e \<and> ?view e' = ?view e" for e e'
    using that by (simp add: moved_def shoes_engine_def)
  show ?thesis
  proof (unfold_locales, goal_cases)
    case (1 e spec e' r)
    then show ?case using add_moved [OF laws, of ca e spec Fresh e' r] by (simp add: shoes_engine_def engine_add_inbound_def)
  next
    case (2 e spec lease e' r)
    then show ?case
      using add_moved [OF laws, of ca e spec "Preserved (le_state lease) (le_lineage lease)" e' r] steady_moved [OF steady_refl]
      by (auto simp: shoes_engine_def engine_add_inbound_with_replay_def split: if_splits)
  next
    case (3 e spec e' r)
    then have "engine_update_inbound core spec e = (e', r)" by (simp add: shoes_engine_def)
    from engine_update_step [OF l(4) 3(1) this] show ?case
      by (cases r) (simp add: steady_moved [OF _ 3(1)], auto simp: moved_def shoes_engine_def)
  next
    case (4 e tag e' r)
    then have "engine_remove_inbound core Hard tag e = (e', r)" by (simp add: shoes_engine_def)
    from engine_remove_step [OF 4(1) this] show ?case
      by (cases r) (simp add: steady_moved [OF _ 4(1)], simp add: moved_def shoes_engine_def)
  next
    case (5 e tag user e' u)
    then have "engine_add_user ca uc tag user e = (e', u)" by (simp add: shoes_engine_def)
    from engine_add_user_step [OF l(1,2) 5(1) this] show ?case by (cases u) (auto simp: moved_def shoes_engine_def)
  next
    case (6 e tag uid e' u)
    then have "engine_remove_user core ca uc settle tag uid e = (e', u)" by (simp add: shoes_engine_def)
    from engine_remove_user_step [OF l(1-3) 6(1) this] show ?case
      by (cases u) (auto simp: moved_def shoes_engine_def split: EngineError.splits)
  next
    case (7 e tag uid e' k)
    then have "on_registry tag (\<lambda>r. Some (kick uc tag uid r)) e = (e', k)" by (simp add: shoes_engine_def engine_kick_user_def)
    from quiet_step [OF 7(1) this, where Q = "\<lambda>_. True"] kick_same [OF l(1,2)] show ?case by (auto intro!: quiet)
  next
    case (8 e tag uid e' u)
    then have run: "on_registry tag (\<lambda>r. Some (take_traffic uc tag uid r)) e = (e', u)" by (simp add: shoes_engine_def engine_take_user_traffic_def)
    have "?good e' \<and> traffic_analysis_disabled e' = traffic_analysis_disabled e \<and> ?view e' = ?view e \<and> (\<forall>info. u = Inr info \<longrightarrow> ui_id info = uid)"
    proof (rule quiet_step [OF 8(1) run, where Q = "\<lambda>u. \<forall>info. u = Inr info \<longrightarrow> ui_id info = uid"])
      fix r r' y assume "registry_ok ca uc r" "take_traffic uc tag uid r = (r', y)"
      with take_traffic_same [OF l(1,2)] registry_ok_contexts
      show "same_settings uc r r' \<and> (\<forall>info. y = Inr info \<longrightarrow> ui_id info = uid)" by blast
    qed simp
    then show ?case by (blast intro: quiet)
  next
    case (9 e tag e' n)
    then have run: "on_registry tag (\<lambda>r. Some (map_prod id Inr (take_nonzero_traffic uc r))) e = (e', n)"
      by (simp add: shoes_engine_def engine_take_nonzero_inbound_traffic_def)
    have "?good e' \<and> traffic_analysis_disabled e' = traffic_analysis_disabled e \<and> ?view e' = ?view e \<and> True"
    proof (rule quiet_step [OF 9(1) run, where Q = "\<lambda>_. True"])
      fix r r' y assume "map_prod id Inr (take_nonzero_traffic uc r) = (r', y)"
      with take_nonzero_same [OF l(1,2), of r] show "same_settings uc r r' \<and> True" by (cases "take_nonzero_traffic uc r") auto
    qed simp
    then show ?case by (intro quiet) simp
  next
    case (10 e dns e' c)
    then have "configure_urltest_probe_dns core dns e = (e', c)" by (simp add: shoes_engine_def)
    from steady_moved [OF steady_fst [OF steady_configure this] 10(1)] show ?case .
  next
    case (11 e)
    from steady_moved [OF steady_rotate this] show ?case by (simp add: shoes_engine_def)
  next
    case (12 e)
    from steady_moved [OF steady_worlds(1) this] show ?case by (simp add: shoes_engine_def commit_client_chain_group_generation_def)
  next
    case (13 e tag infos)
    then show ?case using listed_users(1) [OF l(2) 13(1)] by (simp add: shoes_engine_def)
  next
    case (14 e tag msg)
    then show ?case using listed_users(2) [OF l(2) 14(1)] by (simp add: shoes_engine_def)
  next
    case (15 e)
    then show ?case using inbound_tags [OF 15, where core = core] by (simp add: shoes_engine_def)
  next
    case (16 e tag)
    then show ?case by (simp add: shoes_engine_def engine_view_def)
  qed
qed

end
