(* ===== verification/Engine_Example.thy ===== *)
theory Engine_Example
  imports Engine_Contract
begin

text \<open>
  A small proxy core with which the laws of the engine hold: every payload is one VLESS listener on a Unix socket,
  starting and reloading always succeed and a reload advances the generation. The contract of the engine is
  interpreted on it, and the engine can be run on it from its bootstrap.
\<close>

section \<open>A proxy core\<close>

definition ex_server :: "unit ServerConfig" where
  "ex_server = \<lparr> sc_bind_location = BindPath ''/run/in.sock'', sc_protocol = Vless (), sc_transport = TcpTransport, sc_dns = None,
     sc_settings = () \<rparr>"

definition ex_core :: "(unit, nat) shoes_core" where
  "ex_core = \<lparr>
     co_multi_user = (\<lambda>_. True), co_label = (\<lambda>_. ''VLESS''), co_json_text = (\<lambda>_. Inr ''{}''), co_sha256 = (\<lambda>_. []),
     co_parse = (\<lambda>_. Inr (Server ex_server)), co_show_config = (\<lambda>_. []), co_create_server_configs = (\<lambda>configs. Inr (configs, [])),
     co_random_uuid = (\<lambda>w. (w, [])), co_convert_cert_paths = (\<lambda>configs w. (w, Inr (configs, 0))),
     co_to_socket_addrs = (\<lambda>_ _. Inr []), co_resolution_task = (\<lambda>_. None), co_probe_bind = (\<lambda>_ _ _. Inr ()),
     co_new_groups = (\<lambda>w. (w, 0)), co_prune_groups = (\<lambda>_ w. w), co_probe_resolver_is_bound = (\<lambda>_ _. True),
     co_probe_resolver_matches = (\<lambda>_ _ _. Inr True), co_bind_probe_resolver = (\<lambda>_ _ _ w. (w, Inr ())),
     co_transaction = (\<lambda>_ w. (w, 0)), co_commit_and_start = (\<lambda>_ w. w), co_drop_transaction = (\<lambda>_ w. w),
     co_policy_state = (\<lambda>w. (w, 0)), co_build_dns = (\<lambda>_ _ w. (w, Inr 0)), co_dns_with_policy = (\<lambda>_ w. (w, 0)),
     co_get_for_server = (\<lambda>_ _ w. (w, 0)), co_rotate_dns = (\<lambda>_ w. (w, 0)), co_query_cache_generation = (\<lambda>_ _. 0),
     co_resolver_alive = (\<lambda>_ _. True), co_start_servers = (\<lambda>_ _ _ _ _ w. (w, Inr 0)), co_listener_count = (\<lambda>_ _. 1),
     co_take_dead_listener = (\<lambda>_ w. (w, None)), co_generation = (\<lambda>w _. of_nat w), co_check_reload = (\<lambda>_ _ _ _. Inr ()),
     co_reload = (\<lambda>_ _ _ _ _ w. (w + 1, Inr (of_nat (w + 1)))), co_stop_accepting = (\<lambda>_ w. w), co_hard_stop = (\<lambda>_ w. w),
     co_shutdown = (\<lambda>_ w. w), co_sleep = (\<lambda>w. w), co_new_replay_state = (\<lambda>w. (w, 0)), co_new_scope = (\<lambda>_ _ w. (w, 0)),
     co_scope_state = (\<lambda>_ _. 0), co_scope_lineage = (\<lambda>_ _. 0), co_scope_alive = (\<lambda>_ _. True), co_lineage_alive = (\<lambda>_ _. True),
     co_finalizer = (\<lambda>w. (w, None)) \<rparr>"

definition ex_settle :: "UserStats \<Rightarrow> UserStats" where
  "ex_settle c = c\<lparr> uss_conns := 0 \<rparr>"

definition ex_kinds :: "json \<Rightarrow> CredentialKinds" where
  "ex_kinds config = KIND_UUID"

lemma ex_setting_laws: "setting_laws ex_context"
  by (simp add: setting_laws_def settings_of_def ex_context_def)

lemma ex_settles: "settles ex_context ex_settle"
  by (simp add: settles_def settings_of_def ex_context_def ex_settle_def)

lemma ex_validated: "validate_inbound_config ex_core config w = (w', Inr validated) \<Longrightarrow> vi_configs validated = [ex_server]"
  by (auto simp: validate_inbound_config_def validate_server_config_payload_def expand_configs_def ex_core_def ex_server_def fallible_def
      rbind_def andthen_def split: if_splits sum.splits)

lemma ex_classified: "classified_by ex_core ex_kinds"
proof -
  have "registry_kinds ex_core [ex_server] = Inr KIND_UUID"
    by (simp add: registry_kinds_def registry_kinds_for_def ex_server_def kinds_all_def kinds_is_empty_def kinds_conflict_def kinds_merge_def
        KIND_UUID_def KIND_NONE_def)
  then show ?thesis unfolding classified_by_def by (auto simp: ex_kinds_def dest!: ex_validated)
qed

lemma ex_laws: "shoes_laws ex_core ex_context ex_settle ex_kinds"
  using ex_context_laws ex_setting_laws ex_settles ex_classified by (simp add: shoes_laws_def)

interpretation ex_engine: engine_contract "shoes_engine ex_core ex_credentials ex_context ex_settle"
  "engine_ok ex_credentials ex_context ex_kinds" "engine_view ex_context" "user_effect ex_credentials ex_kinds"
  by (rule engine_implements [OF ex_laws])



section \<open>A run\<close>

definition ex_booted :: "(UserStats, nat) EngineInner" where
  "ex_booted = \<lparr> en_analysis = None, en_analysis_policy = \<lparr> an_disabled = False, an_observer = None \<rparr>, en_replay_identity = 0,
     en_control = \<lparr> cs_client_chain_groups = 0, cs_dns = 0, cs_inline_dns = [], cs_dns_policy_state = 0,
       cs_replay_lineages = \<lparr> rl_entries = [], rl_limit = MAX_REPLAY_LINEAGES \<rparr> \<rparr>,
     en_inbounds = [], en_bound = [], en_next = 1, en_world = 0, en_halted = False \<rparr>"

lemma ex_boot: "bootstrap ex_core 0 0 = (0, Inr ex_booted)"
  by (simp add: bootstrap_def ex_core_def ex_booted_def fallible_def)

definition ex_inbound :: InboundSpec where
  "ex_inbound = \<lparr> is_tag = ''in'', is_config = JObject [], is_users = None \<rparr>"

definition ex_valid :: "unit ValidatedInbound" where
  "ex_valid = \<lparr> vi_configs = [ex_server], vi_dns_groups = [], vi_dns_cache_key = None \<rparr>"

definition ex_candidate :: "(unit, UserStats) AddCandidate" where
  "ex_candidate = \<lparr> ad_spec = ex_inbound, ad_validated = ex_valid, ad_registry = None,
     ad_targets = [TargetPath ''/run/in.sock''], ad_admission = Fresh \<rparr>"

lemma ex_payload: "validate_inbound_config ex_core (JObject []) w = (w, Inr ex_valid)"
  by (simp add: validate_inbound_config_def validate_server_config_payload_def expand_configs_def inline_dns_cache_key_def present_def
      ex_core_def ex_server_def ex_valid_def fallible_def json_is_object_def json_get_def)

lemma ex_targets: "resolve_bind_targets_for_configs ex_core w [ex_server] = Inr [TargetPath ''/run/in.sock'']"
  by (simp add: resolve_bind_targets_for_configs_def resolve_bind_targets_def ex_core_def ex_server_def)

lemma ex_in_trim: "trim ''in'' \<noteq> []"
  by (subst trim_id) (simp_all add: ascii_graphic_def byte_of_def)

lemma ex_prepared: "add_prepare ex_core ex_credentials ex_context ex_inbound Fresh ex_booted = (ex_booted, Inr ex_candidate)"
  using ex_payload ex_targets ex_in_trim
  by (simp add: add_prepare_def traffic_analysis_disabled_def fill_credentials_def candidate_registry_def analysed_def on_world_def apply_analysis_policy_def slot_at_def
      ex_booted_def ex_inbound_def ex_candidate_def ex_valid_def)

definition ex_slot :: "UserStats InboundSlot" where
  "ex_slot = slot_new 1 (JObject []) \<lparr> ii_tag = ''in'', ii_protocol = ''VLESS'', ii_transport = ''tcp'', ii_bind = [''/run/in.sock''],
     ii_listeners = 1, ii_revision = 0, ii_users = None \<rparr> [BindPathKey ''/run/in.sock''] [0] 0 0 None"

definition ex_running :: "(UserStats, nat) EngineInner" where
  "ex_running = ex_booted\<lparr> en_control := publish_replay ''in'' \<lparr> pr_state = 0, pr_lineage = 0, pr_scope = 0 \<rparr> (en_control ex_booted),
     en_inbounds := [(''in'', ex_slot)], en_bound := [(BindPathKey ''/run/in.sock'', ''in'')], en_next := 2 \<rparr>"

lemmas ex_defs = ex_core_def ex_server_def ex_booted_def ex_inbound_def ex_valid_def ex_candidate_def ex_slot_def ex_running_def

lemma ex_added: "add_commit ex_core ex_candidate ex_booted = (ex_running, Inr (sl_info ex_slot))"
  by (simp add: add_commit_def Let_def ex_defs prune_inline_dns_def prepare_replay_def retain_lineages_def live_scope_def on_control_def
      on_world_def in_world_def slot_at_def set_slot_def ensure_default_urltest_probe_resolver_def resolve_def shared_resolver_def
      publish_resolvers_def publish_replay_def register_inbound_def candidate_info_def slot_new_def describe_def slot_revision_def
      target_keys_def target_kind_def target_display_def display_name_def transport_name_def MAX_REPLAY_LINEAGES_def)

definition ex_update :: "(unit, UserStats) UpdateCandidate" where
  "ex_update = \<lparr> up_snapshot = \<lparr> ip_tag = ''in'', ip_slot = ex_slot, ip_revision = 0 \<rparr>, up_source = JObject [], up_validated = ex_valid,
     up_targets = [TargetPath ''/run/in.sock''] \<rparr>"

lemma ex_update_prepared: "update_prepare ex_core ex_inbound ex_running = (ex_running, Inr ex_update)"
  using ex_payload ex_targets
  by (simp add: update_prepare_def Let_def fill_credentials_def on_world_def apply_analysis_policy_def traffic_analysis_disabled_def slot_at_def
      slot_revision_def slot_new_def ex_update_def ex_running_def ex_booted_def ex_inbound_def ex_slot_def ex_valid_def)
    (simp add: ex_core_def)

lemma ex_updated: "\<exists>e info. update_commit ex_core ex_update ex_running = (e, Inr info)"
  by (simp add: update_commit_def Let_def ex_defs ex_update_def verify_def check_kinds_def prune_inline_dns_def on_control_def
      on_world_def in_world_def slot_at_def set_slot_def ensure_default_urltest_probe_resolver_def resolve_def shared_resolver_def
      publish_resolvers_def publish_replay_def slot_new_def describe_def slot_revision_def slot_reload_def display_name_def)

end
