(* ===== verification/Engine_History.thy ===== *)
theory Engine_History
  imports Engine_Example
begin

text \<open>
  The engine under concurrent callers. An addition and an update prepare their candidate without the control lock and
  commit it later, with any other operations in between. A history is a sequence of such steps together with changes
  of the world outside: connections, listeners and the clock. Two facts hold of every history: the address registry is
  exactly what the registered inbounds claim, and an update that commits was prepared against the very inbound
  it changes.
\<close>

section \<open>Histories\<close>

record ('x, 'c, 'w) engine_run =
  er_engine :: "('c, 'w) EngineInner"
  er_adds :: "('x, 'c) AddCandidate list"
  er_updates :: "('x, 'c) UpdateCandidate list"

inductive engine_step :: "('x, 'w) shoes_core \<Rightarrow> credential_api \<Rightarrow> 'c user_context \<Rightarrow> ('x, 'c, 'w) engine_run \<Rightarrow> ('x, 'c, 'w) engine_run \<Rightarrow> bool"
  for core ca uc where
  add_prepared: "add_prepare core ca uc spec admission (er_engine s) = (e, Inr candidate) \<Longrightarrow>
    engine_step core ca uc s (s\<lparr> er_engine := e, er_adds := candidate # er_adds s \<rparr>)"
| add_refused: "add_prepare core ca uc spec admission (er_engine s) = (e, Inl err) \<Longrightarrow>
    engine_step core ca uc s (s\<lparr> er_engine := e \<rparr>)"
| add_committed: "candidate \<in> set (er_adds s) \<Longrightarrow> add_commit core candidate (er_engine s) = (e, result) \<Longrightarrow>
    engine_step core ca uc s (s\<lparr> er_engine := e, er_adds := remove1 candidate (er_adds s) \<rparr>)"
| update_prepared: "update_prepare core spec (er_engine s) = (e, Inr update) \<Longrightarrow>
    engine_step core ca uc s (s\<lparr> er_engine := e, er_updates := update # er_updates s \<rparr>)"
| update_refused: "update_prepare core spec (er_engine s) = (e, Inl err) \<Longrightarrow> engine_step core ca uc s (s\<lparr> er_engine := e \<rparr>)"
| update_committed: "update \<in> set (er_updates s) \<Longrightarrow> update_commit core update (er_engine s) = (e, result) \<Longrightarrow>
    engine_step core ca uc s (s\<lparr> er_engine := e, er_updates := remove1 update (er_updates s) \<rparr>)"
| inbound_removed: "remove_inbound_inner core cancelled tag mode (er_engine s) = (e, result) \<Longrightarrow> engine_step core ca uc s (s\<lparr> er_engine := e \<rparr>)"
| user_added: "engine_add_user ca uc tag user (er_engine s) = (e, info) \<Longrightarrow> engine_step core ca uc s (s\<lparr> er_engine := e \<rparr>)"
| user_removed: "engine_remove_user core ca uc settle tag uid (er_engine s) = (e, info) \<Longrightarrow> engine_step core ca uc s (s\<lparr> er_engine := e \<rparr>)"
| user_kicked: "engine_kick_user uc tag uid (er_engine s) = (e, kicked) \<Longrightarrow> engine_step core ca uc s (s\<lparr> er_engine := e \<rparr>)"
| user_drained: "engine_take_user_traffic uc tag uid (er_engine s) = (e, info) \<Longrightarrow> engine_step core ca uc s (s\<lparr> er_engine := e \<rparr>)"
| inbound_drained: "engine_take_inbound_traffic uc tag (er_engine s) = (e, infos) \<Longrightarrow> engine_step core ca uc s (s\<lparr> er_engine := e \<rparr>)"
| nonzero_drained: "engine_take_nonzero_inbound_traffic uc tag (er_engine s) = (e, infos) \<Longrightarrow> engine_step core ca uc s (s\<lparr> er_engine := e \<rparr>)"
| listeners_checked: "failed_listener_tags core (er_engine s) = (e, tags) \<Longrightarrow> engine_step core ca uc s (s\<lparr> er_engine := e \<rparr>)"
| dns_rotated: "rotate_dns_client_generation core (er_engine s) = (e, generation) \<Longrightarrow> engine_step core ca uc s (s\<lparr> er_engine := e \<rparr>)"
| probe_configured: "configure_urltest_probe_dns core dns (er_engine s) = (e, result) \<Longrightarrow> engine_step core ca uc s (s\<lparr> er_engine := e \<rparr>)"
| policy_changed: "engine_step core ca uc s (s\<lparr> er_engine := update_analysis_policy change (er_engine s) \<rparr>)"
| world_moved: "engine_step core ca uc s (s\<lparr> er_engine := (er_engine s)\<lparr> en_world := w \<rparr> \<rparr>)"

section \<open>What a step does to the registries\<close>

text \<open>The names of the registered inbounds: tag and identity. An identity is never used again.\<close>

definition holders :: "('c, 'w) EngineInner \<Rightarrow> (string \<times> nat) set" where
  "holders e = {(tag, i). \<exists>slot. slot_at e tag = Some slot \<and> sl_id slot = i}"

definition claims_of :: "('c, 'w) EngineInner \<Rightarrow> string \<rightharpoonup> BindKey set" where
  "claims_of e = (\<lambda>tag. map_option (\<lambda>slot. set (sl_keys slot)) (slot_at e tag))"

text \<open>The tag an inbound reports of itself, by the tag it is registered under.\<close>

definition labels :: "('c, 'w) EngineInner \<Rightarrow> string \<rightharpoonup> string" where
  "labels e = (\<lambda>tag. map_option (\<lambda>slot. ii_tag (sl_info slot)) (slot_at e tag))"

definition owned :: "('c, 'w) EngineInner \<Rightarrow> bool" where
  "owned e \<longleftrightarrow> distinct (map fst (en_inbounds e)) \<and> distinct (map fst (en_bound e)) \<and> (\<forall>(tag, i) \<in> holders e. i < en_next e) \<and>
     (\<forall>tag name. labels e tag = Some name \<longrightarrow> name = tag) \<and>
     (\<forall>key tag. map_of (en_bound e) key = Some tag \<longleftrightarrow> (\<exists>keys. claims_of e tag = Some keys \<and> key \<in> keys))"

text \<open>A step that changes neither the addresses nor the identities of the inbounds.\<close>

definition same_claims :: "('c, 'w) EngineInner \<Rightarrow> ('c, 'w) EngineInner \<Rightarrow> bool" where
  "same_claims e e' \<longleftrightarrow> map fst (en_inbounds e') = map fst (en_inbounds e) \<and> en_bound e' = en_bound e \<and> en_next e \<le> en_next e' \<and>
     holders e' = holders e \<and> claims_of e' = claims_of e \<and> labels e' = labels e"

lemmas registry_views = holders_def claims_of_def labels_def slot_at_def

lemma steady_claims: "steady e e' \<Longrightarrow> same_claims e e'"
  by (simp add: same_claims_def steady_def registry_views)

lemma same_claims_refl [simp]: "same_claims e e"
  by (simp add: same_claims_def)

lemma same_claims_trans: "same_claims e e1 \<Longrightarrow> same_claims e1 e2 \<Longrightarrow> same_claims e e2"
  by (auto simp: same_claims_def)

lemma same_claims_owned: "same_claims e e' \<Longrightarrow> owned e \<Longrightarrow> owned e'"
  by (fastforce simp: same_claims_def owned_def)

lemma reslotted_claims:
  assumes "slot_at e tag = Some slot" "sl_id slot' = sl_id slot" "sl_keys slot' = sl_keys slot" "sl_info slot' = sl_info slot"
  shows "same_claims e (set_slot tag slot' e)"
proof -
  have "tag \<in> fst ` set (en_inbounds e)" using assms(1) by (force simp: slot_at_def dest: map_of_SomeD)
  then have "map fst (AList.update tag slot' (en_inbounds e)) = map fst (en_inbounds e)" by (simp add: update_keys)
  then show ?thesis using assms
    by (auto simp: same_claims_def set_slot_def registry_views fun_eq_iff update_conv' split: if_splits)
qed

lemma failed_slots_claims:
  "failed_slots core slots w = (w', slots', tags) \<Longrightarrow>
     map fst slots' = map fst slots \<and> (\<forall>tag. rel_option (\<lambda>a b. sl_id b = sl_id a \<and> sl_keys b = sl_keys a \<and> sl_info b = sl_info a) (map_of slots tag) (map_of slots' tag))"
proof (induction slots arbitrary: w slots' tags w')
  case (Cons entry slots)
  obtain tag slot where entry: "entry = (tag, slot)" by (cases entry)
  obtain w1 slot1 failed where one: "listener_failed core slot w = (w1, slot1, failed)" by (metis prod_cases3)
  obtain w2 slots2 tags2 where rest: "failed_slots core slots w1 = (w2, slots2, tags2)" by (metis prod_cases3)
  have "sl_id slot1 = sl_id slot" "sl_keys slot1 = sl_keys slot" "sl_info slot1 = sl_info slot"
    using one by (auto simp: listener_failed_def split: if_splits prod.splits option.splits)
  with Cons.prems Cons.IH [OF rest] entry one rest show ?case by auto
qed simp

lemma checked_claims:
  assumes "failed_listener_tags core e = (e', tags)"
  shows "same_claims e e'"
proof -
  obtain w slots found where run: "failed_slots core (en_inbounds e) (en_world e) = (w, slots, found)" by (metis prod_cases3)
  with assms have e': "en_inbounds e' = slots" "en_bound e' = en_bound e" "en_next e' = en_next e"
    by (auto simp: failed_listener_tags_def)
  note rel = failed_slots_claims [OF run]
  have "holders e' = holders e" "claims_of e' = claims_of e" "labels e' = labels e"
  proof -
    have slots: "rel_option (\<lambda>a b. sl_id b = sl_id a \<and> sl_keys b = sl_keys a \<and> sl_info b = sl_info a) (slot_at e tag) (slot_at e' tag)" for tag
      using rel by (simp add: slot_at_def e'(1))
    show "claims_of e' = claims_of e"
    proof
      fix tag
      show "claims_of e' tag = claims_of e tag" using slots [of tag] by (auto simp: claims_of_def elim: option.rel_cases)
    qed
    show "labels e' = labels e"
    proof
      fix tag
      show "labels e' tag = labels e tag" using slots [of tag] by (auto simp: labels_def elim: option.rel_cases)
    qed
    have "(tag, i) \<in> holders e' \<longleftrightarrow> (tag, i) \<in> holders e" for tag i
      using slots [of tag] by (auto simp: holders_def elim: option.rel_cases)
    then show "holders e' = holders e" by auto
  qed
  with rel e' show ?thesis by (simp add: same_claims_def)
qed

lemma add_prepare_claims:
  assumes run: "add_prepare core ca uc spec admission e = (e', x)"
  shows "same_claims e e'"
proof -
  have chain: "same_claims e0 (fst (andthen m k))"
    if "same_claims e0 (fst m)" "\<And>x s. m = (s, Inr x) \<Longrightarrow> same_claims s (fst (k x s))"
    for e0 :: "('a, 'b) EngineInner" and m :: "_ \<times> (EngineError + 'f)" and k :: "'f \<Rightarrow> _ \<Rightarrow> _ \<times> (EngineError + 'g)"
    using that by (auto simp: andthen_def split: prod.splits sum.splits intro: same_claims_trans)
  have registry: "same_claims e0 (fst (candidate_registry core ca uc configs users e0))" for e0 configs users
  proof -
    have "same_claims e0 (halt e0)" "same_claims e0 e0" by (simp_all add: same_claims_def halt_def registry_views)
    then show ?thesis unfolding candidate_registry_def by (auto simp: unwind_def intro!: chain split: option.split)
  qed
  have "same_claims e (fst (add_prepare core ca uc spec admission e))"
    unfolding add_prepare_def
    by (auto intro!: chain registry steady_claims [OF steady_fill] steady_claims [OF steady_worlds(2)] split: prod.split)
       (blast intro: steady_claims steady_analysed)+
  with run show ?thesis by simp
qed

lemma table_claims:
  assumes "on_registry tag f e = (e', x)"
  shows "same_claims e e'"
proof (cases "registry_for e tag")
  case (Inl err)
  with assms show ?thesis by (auto simp: on_registry_def steady_claims)
next
  case (Inr p)
  then obtain slot r where slot: "p = (slot, r)" "slot_at e tag = Some slot" by (auto simp: registry_for_def split: option.splits)
  show ?thesis
  proof (cases "f r")
    case None
    with assms Inr slot show ?thesis by (auto simp: on_registry_def same_claims_def halt_def registry_views)
  next
    case (Some a)
    with assms Inr slot obtain r' where "e' = set_slot tag (slot\<lparr> sl_users := Some r' \<rparr>) e" by (cases a) (auto simp: on_registry_def)
    then show ?thesis using reslotted_claims [OF slot(2)] by simp
  qed
qed

lemmas table_operation_defs = engine_add_user_def engine_kick_user_def engine_take_user_traffic_def engine_take_inbound_traffic_def
  engine_take_nonzero_inbound_traffic_def

lemma remove_user_claims:
  assumes "engine_remove_user core ca uc settle tag uid e = (e', x)"
  shows "same_claims e e'"
proof -
  obtain e1 failure where fin: "on_world (co_finalizer core) e = (e1, failure)" by fastforce
  with assms have "on_registry tag (remove_and_wait ca uc settle failure tag uid) e1 = (e', x)" by (simp add: engine_remove_user_def)
  from same_claims_trans [OF steady_claims [OF steady_on_world [OF fin]] table_claims [OF this]] show ?thesis .
qed

lemma update_commit_claims:
  assumes "update_commit core update e = (e', x)"
  shows "same_claims e e'"
  using update_commit_step [OF assms]
proof (cases x)
  case (Inr info)
  with update_commit_step [OF assms] obtain slot protocol e1 where slot: "slot_at e (ip_tag (up_snapshot update)) = Some slot" "steady e e1"
    "steady (set_slot (ip_tag (up_snapshot update)) (slot\<lparr> sl_protocol := protocol, sl_source := up_source update \<rparr>) e1) e'" by auto
  then have "slot_at e1 (ip_tag (up_snapshot update)) = Some slot" by (simp add: steady_def slot_at_def)
  from reslotted_claims [OF this, of "slot\<lparr> sl_protocol := protocol, sl_source := up_source update \<rparr>"] 
  have "same_claims e1 (set_slot (ip_tag (up_snapshot update)) (slot\<lparr> sl_protocol := protocol, sl_source := up_source update \<rparr>) e1)" by simp
  from same_claims_trans [OF same_claims_trans [OF steady_claims [OF slot(2)] this] steady_claims [OF slot(3)]] show ?thesis .
qed (simp add: steady_claims)

text \<open>Registration and removal, the two steps that move the registries.\<close>

lemma map_of_claim: "distinct keys \<Longrightarrow> map_of (fold (\<lambda>key. AList.update key tag) keys bound) key = (if key \<in> set keys then Some tag else map_of bound key)"
  by (induction keys arbitrary: bound) (auto simp: update_conv')

lemma distinct_claim: "distinct (map fst bound) \<Longrightarrow> distinct (map fst (fold (\<lambda>key. AList.update key tag) keys bound))"
  by (induction keys arbitrary: bound) (auto simp: distinct_update)

lemma registered_owned:
  assumes reg: "registered tag slot e e'" and own: "owned e"
  shows "owned e'" "holders e' = insert (tag, sl_id slot) (holders e)" "en_next e \<le> sl_id slot" "en_next e \<le> en_next e'"
proof -
  have slots: "slot_at e' = (slot_at e)(tag \<mapsto> slot)" "slot_at e tag = None"
    using reg by (simp_all add: registered_def slot_at_def update_conv' fun_eq_iff)
  show holders: "holders e' = insert (tag, sl_id slot) (holders e)" using slots by (auto simp: holders_def split: if_split_asm)
  show "en_next e \<le> sl_id slot" "en_next e \<le> en_next e'" using reg by (simp_all add: registered_def)
  have claims: "claims_of e' = (claims_of e)(tag \<mapsto> set (sl_keys slot))" "claims_of e tag = None"
    using slots by (auto simp: claims_of_def fun_eq_iff)
  have bound: "map_of (en_bound e') key = (if key \<in> set (sl_keys slot) then Some tag else map_of (en_bound e) key)" for key
    using reg by (simp add: registered_def map_of_claim)
  have free: "map_of (en_bound e) key = None" if "key \<in> set (sl_keys slot)" for key
    using reg that by (auto simp: registered_def)
  have exact: "map_of (en_bound e') key = Some t \<longleftrightarrow> (\<exists>keys. claims_of e' t = Some keys \<and> key \<in> keys)" for key t
  proof (cases "t = tag")
    case True
    have "map_of (en_bound e) key \<noteq> Some tag" using own claims(2) by (auto simp: owned_def)
    with True show ?thesis by (simp add: bound claims(1))
  next
    case False
    have "map_of (en_bound e) key = Some t \<longleftrightarrow> (\<exists>keys. claims_of e t = Some keys \<and> key \<in> keys)" using own by (simp add: owned_def)
    with False free [of key] show ?thesis by (auto simp: bound claims(1))
  qed
  have "\<forall>t name. labels e' t = Some name \<longrightarrow> name = t" using own reg slots(1) by (auto simp: labels_def owned_def registered_def)
  moreover have "\<forall>(t, i) \<in> holders e'. i < en_next e'" using own reg by (auto simp: holders owned_def registered_def)
  moreover have "distinct (map fst (en_inbounds e'))" "distinct (map fst (en_bound e'))"
    using own reg by (auto simp: owned_def registered_def distinct_update distinct_claim)
  ultimately show "owned e'" using exact by (simp add: owned_def)
qed

lemma unregistered_owned:
  assumes unreg: "unregistered tag e e'" and own: "owned e"
  shows "owned e'" "holders e' \<subseteq> holders e" "en_next e' = en_next e" "claims_of e' = (claims_of e)(tag := None)"
proof -
  from unreg obtain slot where slot: "slot_at e tag = Some slot" "en_inbounds e' = AList.delete tag (en_inbounds e)"
    "en_bound e' = filter (\<lambda>(key, _). key \<notin> set (sl_keys slot)) (en_bound e)" "en_next e' = en_next e" by (auto simp: unregistered_def)
  have slots: "slot_at e' = (slot_at e)(tag := None)" using slot(2) by (simp add: slot_at_def delete_conv' fun_eq_iff)
  show holders: "holders e' \<subseteq> holders e" using slots by (auto simp: holders_def split: if_splits)
  show "en_next e' = en_next e" by (fact slot(4))
  show claims: "claims_of e' = (claims_of e)(tag := None)" using slots by (auto simp: claims_of_def fun_eq_iff)
  have bound: "map_of (en_bound e') key = (if key \<in> set (sl_keys slot) then None else map_of (en_bound e) key)" for key
  proof -
    have "map_of (filter (\<lambda>(key, _). key \<notin> set (sl_keys slot)) bound) key = (if key \<in> set (sl_keys slot) then None else map_of bound key)"
      for bound :: "(BindKey \<times> string) list" by (induction bound) auto
    then show ?thesis by (simp add: slot(3))
  qed
  have mine: "map_of (en_bound e) key = Some tag \<longleftrightarrow> key \<in> set (sl_keys slot)" for key
    using own slot(1) by (simp add: owned_def claims_of_def)
  have "map_of (en_bound e') key = Some t \<longleftrightarrow> (\<exists>keys. claims_of e' t = Some keys \<and> key \<in> keys)" for key t
  proof (cases "t = tag")
    case True
    then show ?thesis using mine [of key] by (simp add: bound claims)
  next
    case False
    have "map_of (en_bound e) key = Some t \<longleftrightarrow> (\<exists>keys. claims_of e t = Some keys \<and> key \<in> keys)" using own by (simp add: owned_def)
    with False mine [of key] show ?thesis by (auto simp: bound claims)
  qed
  moreover have "\<forall>t name. labels e' t = Some name \<longrightarrow> name = t" using own slots by (auto simp: labels_def owned_def)
  moreover have "distinct (map fst (en_bound e'))" using own unfolding slot(3) by (auto simp: owned_def distinct_map_filter)
  ultimately show "owned e'" using own holders slot(2,4) by (auto simp: owned_def distinct_delete)
qed

section \<open>Invariants\<close>

definition advanced :: "('c, 'w) EngineInner \<Rightarrow> ('c, 'w) EngineInner \<Rightarrow> bool" where
  "advanced e e' \<longleftrightarrow> owned e' \<and> en_next e \<le> en_next e' \<and> (\<forall>(tag, i) \<in> holders e'. (tag, i) \<in> holders e \<or> en_next e \<le> i)"

lemma same_claims_advanced: "same_claims e e' \<Longrightarrow> owned e \<Longrightarrow> advanced e e'"
  using same_claims_owned [of e e'] by (auto simp: advanced_def same_claims_def)

lemma add_commit_advanced:
  assumes "add_commit core candidate e = (e', x)" "owned e"
  shows "advanced e e'"
proof (cases x)
  case (Inl err)
  with add_commit_step [OF assms(1)] assms(2) show ?thesis by (auto intro: same_claims_advanced steady_claims)
next
  case (Inr info)
  with add_commit_step [OF assms(1)] obtain slot where "registered (is_tag (ad_spec candidate)) slot e e'" by auto
  from registered_owned [OF this assms(2)] show ?thesis by (auto simp: advanced_def)
qed

lemma remove_advanced:
  assumes "remove_inbound_inner core cancelled tag mode e = (e', x)" "owned e"
  shows "advanced e e'"
  using remove_inner_step [OF assms(1)]
proof (elim disjE conjE)
  assume "steady e e'"
  with assms(2) show ?thesis by (auto intro: same_claims_advanced steady_claims)
next
  assume "unregistered tag e e'"
  from unregistered_owned [OF this assms(2)] show ?thesis by (auto simp: advanced_def)
qed

lemma step_advanced:
  assumes "engine_step core ca uc s s'" "owned (er_engine s)"
  shows "advanced (er_engine s) (er_engine s')"
  using assms
proof (induction rule: engine_step.induct)
  case (add_prepared spec admission s e candidate)
  from same_claims_advanced [OF add_prepare_claims [OF add_prepared(1)]] add_prepared(2) show ?case by simp
next
  case (add_refused spec admission s e err)
  from same_claims_advanced [OF add_prepare_claims [OF add_refused(1)]] add_refused(2) show ?case by simp
next
  case (add_committed candidate s e result)
  from add_commit_advanced [OF add_committed(2)] add_committed(3) show ?case by simp
next
  case (update_prepared spec s e update)
  from same_claims_advanced [OF steady_claims [OF update_prepare_step(1) [OF update_prepared(1)]]] update_prepared(2) show ?case by simp
next
  case (update_refused spec s e err)
  from same_claims_advanced [OF steady_claims [OF update_prepare_step(1) [OF update_refused(1)]]] update_refused(2) show ?case by simp
next
  case (update_committed update s e result)
  from same_claims_advanced [OF update_commit_claims [OF update_committed(2)]] update_committed(3) show ?case by simp
next
  case (inbound_removed cancelled tag mode s e result)
  from remove_advanced [OF inbound_removed(1)] inbound_removed(2) show ?case by simp
next
  case (user_added tag user s e info)
  from same_claims_advanced [OF table_claims [OF user_added(1) [unfolded table_operation_defs]]] user_added(2) show ?case by simp
next
  case (user_removed settle tag uid s e info)
  from same_claims_advanced [OF remove_user_claims [OF user_removed(1)]] user_removed(2) show ?case by simp
next
  case (user_kicked tag uid s e kicked)
  from same_claims_advanced [OF table_claims [OF user_kicked(1) [unfolded table_operation_defs]]] user_kicked(2) show ?case by simp
next
  case (user_drained tag uid s e info)
  from same_claims_advanced [OF table_claims [OF user_drained(1) [unfolded table_operation_defs]]] user_drained(2) show ?case by simp
next
  case (inbound_drained tag s e infos)
  from same_claims_advanced [OF table_claims [OF inbound_drained(1) [unfolded table_operation_defs]]] inbound_drained(2) show ?case by simp
next
  case (nonzero_drained tag s e infos)
  from same_claims_advanced [OF table_claims [OF nonzero_drained(1) [unfolded table_operation_defs]]] nonzero_drained(2) show ?case by simp
next
  case (listeners_checked s e tags)
  from same_claims_advanced [OF checked_claims [OF listeners_checked(1)]] listeners_checked(2) show ?case by simp
next
  case (dns_rotated s e generation)
  from same_claims_advanced [OF steady_claims [OF steady_fst [OF steady_rotate dns_rotated(1)]]] dns_rotated(2) show ?case by simp
next
  case (probe_configured dns s e result)
  from same_claims_advanced [OF steady_claims [OF steady_fst [OF steady_configure probe_configured(1)]]] probe_configured(2) show ?case by simp
next
  case (policy_changed s change)
  have "same_claims (er_engine s) (update_analysis_policy change (er_engine s))"
    by (simp add: same_claims_def update_analysis_policy_def Let_def registry_views)
  with policy_changed show ?case by (auto intro: same_claims_advanced)
next
  case (world_moved s w)
  have "same_claims (er_engine s) ((er_engine s)\<lparr> en_world := w \<rparr>)" by (simp add: same_claims_def registry_views)
  with world_moved show ?case by (auto intro: same_claims_advanced)
qed

lemma steps_advanced:
  assumes "(engine_step core ca uc)\<^sup>*\<^sup>* s s'" "owned (er_engine s)"
  shows "advanced (er_engine s) (er_engine s')"
  using assms
proof (induction rule: rtranclp_induct)
  case base
  then show ?case by (simp add: same_claims_advanced)
next
  case (step s1 s2)
  then have "advanced (er_engine s) (er_engine s1)" by blast
  moreover from this have "advanced (er_engine s1) (er_engine s2)" using step_advanced [OF step.hyps(2)] by (simp add: advanced_def)
  ultimately show ?case by (fastforce simp: advanced_def)
qed

lemma bootstrap_owned: "bootstrap core identity w = (w', Inr e) \<Longrightarrow> owned e"
  by (auto simp: bootstrap_def andthen_Inr owned_def registry_views case_prod_unfold)

text \<open>C16 (addresses have one owner): in every history of an engine, whatever additions, updates, removals (completed or
  abandoned by their caller) and table operations run in between, the address registry maps a socket or path to a tag
  exactly if the inbound registered under that tag claims it. So no two inbounds share an address, and no address
  stays claimed when its inbound is gone.\<close>

theorem addresses_have_one_owner:
  assumes "bootstrap core identity w = (w', Inr (er_engine s))" "(engine_step core ca uc)\<^sup>*\<^sup>* s s'"
  shows "distinct (map fst (en_bound (er_engine s'))) \<and> distinct (map fst (en_inbounds (er_engine s'))) \<and>
    (map_of (en_bound (er_engine s')) key = Some tag \<longleftrightarrow>
      (\<exists>slot. map_of (en_inbounds (er_engine s')) tag = Some slot \<and> key \<in> set (sl_keys slot)))"
proof -
  have "owned (er_engine s')" using steps_advanced [OF assms(2) bootstrap_owned [OF assms(1)]] by (simp add: advanced_def)
  then show ?thesis by (auto simp: owned_def claims_of_def slot_at_def)
qed

definition ex_run :: "(unit, UserStats, nat) engine_run" where
  "ex_run = \<lparr> er_engine = ex_booted, er_adds = [], er_updates = [] \<rparr>"

definition ex_started :: "(unit, UserStats, nat) engine_run" where
  "ex_started = \<lparr> er_engine = ex_running, er_adds = [], er_updates = [] \<rparr>"

lemma ex_start: "(engine_step ex_core ex_credentials ex_context)\<^sup>*\<^sup>* ex_run ex_started"
proof -
  have "engine_step ex_core ex_credentials ex_context ex_run (ex_run\<lparr> er_engine := ex_booted, er_adds := [ex_candidate] \<rparr>)"
    using engine_step.add_prepared [of ex_core ex_credentials ex_context ex_inbound Fresh ex_run ex_booted ex_candidate] ex_prepared
    by (simp add: ex_run_def)
  moreover have "engine_step ex_core ex_credentials ex_context (ex_run\<lparr> er_engine := ex_booted, er_adds := [ex_candidate] \<rparr>) ex_started"
    using engine_step.add_committed [of ex_candidate "ex_run\<lparr> er_engine := ex_booted, er_adds := [ex_candidate] \<rparr>" ex_core ex_running] ex_added
    by (simp add: ex_run_def ex_started_def)
  ultimately show ?thesis by (meson r_into_rtranclp rtranclp.rtrancl_into_rtrancl)
qed

theorem addresses_have_one_owner_witness:
  "map_of (en_bound (er_engine ex_started)) (BindPathKey ''/run/in.sock'') = Some ''in'' \<longleftrightarrow>
    (\<exists>slot. map_of (en_inbounds (er_engine ex_started)) ''in'' = Some slot \<and> BindPathKey ''/run/in.sock'' \<in> set (sl_keys slot))"
  using addresses_have_one_owner [OF _ ex_start, of 0 0 0 "BindPathKey ''/run/in.sock''" "''in''"] ex_boot by (simp add: ex_run_def)

text \<open>C17 (no update is lost): an update that commits changes the inbound it was prepared against. Its tag named that same
  inbound in every state between the preparation and the commit, so nobody replaced or removed it, and its
  configuration was not reloaded since: the revision at the commit is the one observed at the preparation.\<close>

theorem update_not_lost:
  assumes start: "bootstrap core identity w = (w', Inr (er_engine s))" "(engine_step core ca uc)\<^sup>*\<^sup>* s s0"
    and prepared: "update_prepare core spec (er_engine s0) = (e1, Inr update)"
    and between: "(engine_step core ca uc)\<^sup>*\<^sup>* (s0\<lparr> er_engine := e1, er_updates := update # er_updates s0 \<rparr>) s1" "(engine_step core ca uc)\<^sup>*\<^sup>* s1 s2"
    and committed: "update_commit core update (er_engine s2) = (e2, Inr info)"
  shows "\<exists>slot0 slot1 slot2. slot_at (er_engine s0) (is_tag spec) = Some slot0 \<and> slot_at (er_engine s1) (is_tag spec) = Some slot1 \<and>
    slot_at (er_engine s2) (is_tag spec) = Some slot2 \<and> sl_id slot1 = sl_id slot0 \<and> sl_id slot2 = sl_id slot0 \<and>
    slot_revision core (en_world (er_engine s2)) slot2 = slot_revision core (en_world (er_engine s0)) slot0"
proof -
  let ?tag = "is_tag spec"
  note adv0 = steps_advanced [OF start(2) bootstrap_owned [OF start(1)]]
  then have own0: "owned (er_engine s0)" by (simp add: advanced_def)
  from update_prepare_step(2) [OF prepared refl] obtain slot0 where slot0: "slot_at (er_engine s0) ?tag = Some slot0"
    "up_snapshot update = \<lparr> ip_tag = ii_tag (sl_info slot0), ip_slot = slot0, ip_revision = slot_revision core (en_world (er_engine s0)) slot0 \<rparr>" by blast
  have tag: "ii_tag (sl_info slot0) = ?tag" using own0 slot0(1) by (simp add: owned_def labels_def)
  from update_commit_step [OF committed] obtain slot2 where slot2: "slot_at (er_engine s2) ?tag = Some slot2" "sl_id slot2 = sl_id slot0"
    "slot_revision core (en_world (er_engine s2)) slot2 = slot_revision core (en_world (er_engine s0)) slot0" by (auto simp: slot0(2) tag)
  have same: "same_claims (er_engine s0) e1" using steady_claims [OF update_prepare_step(1) [OF prepared]] .
  then have own1: "owned e1" and next1: "en_next (er_engine s0) \<le> en_next e1" using same_claims_owned own0 by (auto simp: same_claims_def)
  have adv1: "advanced e1 (er_engine s1)" using steps_advanced [OF between(1)] own1 by simp
  have adv2: "advanced (er_engine s1) (er_engine s2)" using steps_advanced [OF between(2)] adv1 by (simp add: advanced_def)
  have "(?tag, sl_id slot0) \<in> holders (er_engine s0)" using slot0(1) by (auto simp: holders_def)
  then have "sl_id slot0 < en_next (er_engine s0)" using own0 by (auto simp: owned_def)
  then have "sl_id slot0 < en_next (er_engine s1)" using next1 adv1 by (auto simp: advanced_def)
  moreover have "(?tag, sl_id slot0) \<in> holders (er_engine s2)" using slot2 by (auto simp: holders_def)
  ultimately have "(?tag, sl_id slot0) \<in> holders (er_engine s1)" using adv2 by (fastforce simp: advanced_def)
  then show ?thesis using slot0(1) slot2 by (auto simp: holders_def)
qed

theorem update_not_lost_witness:
  "\<exists>e2 info slot0 slot2. update_commit ex_core ex_update ex_running = (e2, Inr info) \<and> slot_at ex_running ''in'' = Some slot0 \<and>
    slot_at ex_running ''in'' = Some slot2 \<and> sl_id slot2 = sl_id slot0"
proof -
  obtain e2 info where committed: "update_commit ex_core ex_update ex_running = (e2, Inr info)" using ex_updated by blast
  let ?s = "ex_started\<lparr> er_engine := ex_running, er_updates := ex_update # er_updates ex_started \<rparr>"
  have "update_commit ex_core ex_update (er_engine ?s) = (e2, Inr info)" "bootstrap ex_core 0 0 = (0, Inr (er_engine ex_run))"
    "update_prepare ex_core ex_inbound (er_engine ex_started) = (ex_running, Inr ex_update)"
    using committed ex_boot ex_update_prepared by (simp_all add: ex_run_def ex_started_def)
  from update_not_lost [OF this(2) ex_start this(3) rtranclp.rtrancl_refl rtranclp.rtrancl_refl this(1)] committed
  show ?thesis by (auto simp: ex_started_def ex_inbound_def)
qed

end
