(* ===== verification/Runtime_Steps.thy ===== *)
theory Runtime_Steps
  imports Runtime_Engine Runtime_Api
begin

text \<open>
  The state of \<open>ShoesRuntime\<close> in \<open>runtime.rs\<close> and the steps of a transaction on the engine: retiring a user
  with its final counters, stopping and replacing an inbound, executing a difference or a full reload with
  a journal, and rolling the journal back. The journal has its newest entry first. A step runs under the
  apply lock. \<open>rt_panicked\<close> records a failed assertion; that it is never set is proved.
\<close>

section \<open>State\<close>

record RetiringInbound =
  rg_live :: NormalizedInbound
  rg_accounting :: NormalizedInbound

record AppliedState =
  ap_current :: "NormalizedConfig option"
  ap_recovery :: "NormalizedConfig option"
  ap_recovery_live :: "string \<rightharpoonup> RetiringInbound"
  ap_committed :: bool
  ap_closed :: bool

definition AppliedState_default :: AppliedState where
  "AppliedState_default =
     \<lparr> ap_current = Some NormalizedConfig_default, ap_recovery = None, ap_recovery_live = Map.empty,
       ap_committed = False, ap_closed = False \<rparr>"

text \<open>The watcher's token is a child of the closing token; it is removed when it is cancelled.\<close>

record RuleSetWatcherState =
  rw_generation :: u64
  rw_cancel :: bool

record ('e, 'l, 'w) ShoesRuntime =
  rt_engine :: 'e
  rt_rule_sets :: 'w
  rt_closing :: bool
  rt_watcher :: RuleSetWatcherState
  rt_state :: AppliedState
  rt_recovery_replay :: "string \<rightharpoonup> 'l"
  rt_pending :: PendingTraffic
  rt_panicked :: bool

definition from_engine :: "'e \<Rightarrow> 'w \<Rightarrow> ('e, 'l, 'w) ShoesRuntime" where
  "from_engine e loader =
     \<lparr> rt_engine = e, rt_rule_sets = loader, rt_closing = False, rt_watcher = \<lparr> rw_generation = 0, rw_cancel = False \<rparr>,
       rt_state = AppliedState_default, rt_recovery_replay = Map.empty,
       rt_pending = pending_new MAX_PENDING_TRAFFIC_KEYS, rt_panicked = False \<rparr>"

datatype 'l Undo =
    AddInbound NormalizedInbound 'l
  | RemoveInbound NormalizedInbound NormalizedInbound
  | RestoreHotConfig NormalizedInbound NormalizedInbound 'l
  | AddUser NormalizedInbound UserSpec
  | RemoveUser NormalizedInbound NormalizedInbound string
  | RestoreUser NormalizedInbound UserSpec bool

record StepFailure =
  sf_operation :: string
  sf_rollback :: "string list"
  sf_changed :: bool
  sf_restored :: bool

definition step_unchanged :: "string \<Rightarrow> StepFailure" where
  "step_unchanged operation = \<lparr> sf_operation = operation, sf_rollback = [], sf_changed = False, sf_restored = True \<rparr>"

definition describe_step_failure :: "StepFailure \<Rightarrow> string" where
  "describe_step_failure failure =
     (if sf_rollback failure = [] then sf_operation failure
      else sf_operation failure @ ''; local rollback failed: '' @ join ''; '' (sf_rollback failure))"

record UserRemovalFailure =
  urf_message :: string
  urf_changed :: bool
  urf_missing :: bool

type_synonym ('e, 'l, 'w, 'a) step = "('e, 'l, 'w) ShoesRuntime \<Rightarrow> ('e, 'l, 'w) ShoesRuntime \<times> 'a"

definition on_engine :: "('e \<Rightarrow> 'e \<times> 'a) \<Rightarrow> ('e, 'l, 'w, 'a) step" where
  "on_engine f r = (case f (rt_engine r) of (e, x) \<Rightarrow> (r\<lparr> rt_engine := e \<rparr>, x))"

section \<open>Retiring a user\<close>

definition reserve_traffic :: "NormalizedInbound \<Rightarrow> string \<Rightarrow> ('e, 'l, 'w, string + PendingTrafficReservation) step" where
  "reserve_traffic inbound uid r =
     (let key = traffic_key inbound uid in
      case reserve key (rt_pending r) of
        (p, Inl e) \<Rightarrow> (r\<lparr> rt_pending := p \<rparr>, Inl e)
      | (p, Inr owns) \<Rightarrow> (r\<lparr> rt_pending := p \<rparr>, Inr \<lparr> rv_key = key, rv_owns = owns \<rparr>))"

definition queue_traffic :: "PendingTrafficReservation \<Rightarrow> NormalizedInbound \<Rightarrow> UserInfo \<Rightarrow> ('e, 'l, 'w) ShoesRuntime \<Rightarrow> ('e, 'l, 'w) ShoesRuntime" where
  "queue_traffic rv inbound info r =
     (case commit_reservation rv (traffic_drain inbound info) (rt_pending r) of
        Some p \<Rightarrow> r\<lparr> rt_pending := p \<rparr>
      | None \<Rightarrow> r\<lparr> rt_panicked := True \<rparr>)"

definition unreserve :: "PendingTrafficReservation \<Rightarrow> ('e, 'l, 'w) ShoesRuntime \<Rightarrow> ('e, 'l, 'w) ShoesRuntime" where
  "unreserve rv r = r\<lparr> rt_pending := drop_reservation rv (rt_pending r) \<rparr>"

definition remove_user_with_retry :: "('e, 'l) engine \<Rightarrow> string \<Rightarrow> string \<Rightarrow> ('e, 'l, 'w, UserRemovalFailure + UserInfo) step" where
  "remove_user_with_retry eng tag uid r =
     (case on_engine (\<lambda>e. eg_remove_user eng e tag uid) r of
        (r1, Inr info) \<Rightarrow> (r1, Inr info)
      | (r1, Inl (EngineIo first)) \<Rightarrow>
          (case on_engine (\<lambda>e. eg_remove_user eng e tag uid) r1 of
             (r2, Inr info) \<Rightarrow> (r2, Inr info)
           | (r2, Inl retry) \<Rightarrow>
               (r2, Inl \<lparr> urf_message = ''user removal finalizer failed: '' @ sio_text first @ ''; retry final receipt: '' @
                  display_engine_error retry, urf_changed = True, urf_missing = False \<rparr>))
      | (r1, Inl error) \<Rightarrow>
          (r1, Inl \<lparr> urf_message = display_engine_error error, urf_changed = False,
             urf_missing = (case error of UnknownUser _ _ \<Rightarrow> True | _ \<Rightarrow> False) \<rparr>))"

text \<open>A reservation, the removal, and the receipt or the release of the reservation.\<close>

datatype retirement = Retired | NotReserved string | NotRemoved UserRemovalFailure

definition retire_user :: "('e, 'l) engine \<Rightarrow> string \<Rightarrow> NormalizedInbound \<Rightarrow> string \<Rightarrow> ('e, 'l, 'w, retirement) step" where
  "retire_user eng tag accounting uid r =
     (case reserve_traffic accounting uid r of
        (r1, Inl e) \<Rightarrow> (r1, NotReserved e)
      | (r1, Inr rv) \<Rightarrow>
          (case remove_user_with_retry eng tag uid r1 of
             (r2, Inr info) \<Rightarrow> (queue_traffic rv accounting info r2, Retired)
           | (r2, Inl failure) \<Rightarrow> (unreserve rv r2, NotRemoved failure)))"

section \<open>Stopping an inbound\<close>

fun restore_list :: "('e, 'l) engine \<Rightarrow> string \<Rightarrow> UserSpec list \<Rightarrow> ('e, 'l, 'w, string list) step" where
  "restore_list eng tag [] r = (r, [])"
| "restore_list eng tag (user # users) r =
     (case on_engine (\<lambda>e. eg_add_user eng e tag user) r of
        (r1, Inr _) \<Rightarrow> restore_list eng tag users r1
      | (r1, Inl error) \<Rightarrow>
          (case restore_list eng tag users r1 of
             (r2, errors) \<Rightarrow>
               (r2, (''restore user '' @ (case resolved_id user of Some uid \<Rightarrow> uid | None \<Rightarrow> ''<unknown>'') @
                     '' on '' @ tag @ '': '' @ display_engine_error error) # errors)))"

definition restore_users :: "('e, 'l) engine \<Rightarrow> string \<Rightarrow> UserSpec list \<Rightarrow> ('e, 'l, 'w, string list) step" where
  "restore_users eng tag users = restore_list eng tag (rev users)"

text \<open>The failure of a stop after some users were removed: they are put back first.\<close>

definition stop_failure :: "('e, 'l) engine \<Rightarrow> string \<Rightarrow> UserSpec list \<Rightarrow> string \<Rightarrow> bool \<Rightarrow> ('e, 'l, 'w, StepFailure + 'a) step" where
  "stop_failure eng tag removed operation uncertain r =
     (case restore_users eng tag removed r of
        (r', rollback) \<Rightarrow>
          (r', Inl \<lparr> sf_operation = operation, sf_rollback = rollback, sf_changed = (uncertain \<or> removed \<noteq> []),
                     sf_restored = (\<not> uncertain \<and> rollback = []) \<rparr>))"

fun stop_users :: "('e, 'l) engine \<Rightarrow> string \<Rightarrow> NormalizedInbound \<Rightarrow> NormalizedInbound \<Rightarrow> UserInfo list \<Rightarrow> UserSpec list \<Rightarrow>
    ('e, 'l, 'w, StepFailure + UserSpec list) step" where
  "stop_users eng tag registry accounting [] removed r = (r, Inr removed)"
| "stop_users eng tag registry accounting (live_user # rest) removed r =
     (case map_of (nb_users registry) (ui_id live_user) of
        None \<Rightarrow> stop_failure eng tag removed
          (''cannot remove inbound '' @ tag @ '': live user '' @ ui_id live_user @ '' is absent from AppliedState'') False r
      | Some spec \<Rightarrow>
          (case retire_user eng tag accounting (ui_id live_user) r of
             (r1, Retired) \<Rightarrow> stop_users eng tag registry accounting rest (removed @ [spec]) r1
           | (r1, NotReserved e) \<Rightarrow> stop_failure eng tag removed
               (''reserve final traffic for user '' @ ui_id live_user @ '' while stopping inbound '' @ tag @ '': '' @ e) False r1
           | (r1, NotRemoved failure) \<Rightarrow> stop_failure eng tag removed
               (''remove user '' @ ui_id live_user @ '' before stopping inbound '' @ tag @ '': '' @ urf_message failure)
               (urf_changed failure) r1))"

definition stop_listed :: "('e, 'l) engine \<Rightarrow> string \<Rightarrow> NormalizedInbound \<Rightarrow> NormalizedInbound \<Rightarrow> UserInfo list \<Rightarrow>
    ('e, 'l, 'w, StepFailure + unit) step" where
  "stop_listed eng tag registry accounting live_users r =
     (case stop_users eng tag registry accounting live_users [] r of
        (r1, Inl failure) \<Rightarrow> (r1, Inl failure)
      | (r1, Inr removed) \<Rightarrow>
          (case on_engine (\<lambda>e. eg_remove_inbound_hard eng e tag) r1 of
             (r2, Inl error) \<Rightarrow> stop_failure eng tag removed (''remove inbound '' @ tag @ '': '' @ display_engine_error error) False r2
           | (r2, Inr _) \<Rightarrow> (r2, Inr ())))"

definition stop_inbound_with_owners :: "('e, 'l) engine \<Rightarrow> NormalizedInbound \<Rightarrow> NormalizedInbound \<Rightarrow> NormalizedInbound \<Rightarrow>
    ('e, 'l, 'w, StepFailure + unit) step" where
  "stop_inbound_with_owners eng listener registry accounting r =
     (let tag = nb_tag listener in
      case eg_list_users eng (rt_engine r) tag of
        Inr users \<Rightarrow> stop_listed eng tag registry accounting users r
      | Inl (Unsupported _) \<Rightarrow> stop_listed eng tag registry accounting [] r
      | Inl error \<Rightarrow> (r, Inl (step_unchanged (''list users before removing inbound '' @ tag @ '': '' @ display_engine_error error))))"

definition stop_inbound :: "('e, 'l) engine \<Rightarrow> NormalizedInbound \<Rightarrow> ('e, 'l, 'w, StepFailure + unit) step" where
  "stop_inbound eng inbound = stop_inbound_with_owners eng inbound inbound inbound"

definition replace_inbound_with_replay_owners :: "('e, 'l) engine \<Rightarrow> NormalizedInbound \<Rightarrow> NormalizedInbound \<Rightarrow> NormalizedInbound \<Rightarrow>
    NormalizedInbound \<Rightarrow> 'l \<Rightarrow> ('e, 'l, 'w, StepFailure + unit) step" where
  "replace_inbound_with_replay_owners eng current registry accounting new replay r =
     (case stop_inbound_with_owners eng current registry accounting r of
        (r1, Inl failure) \<Rightarrow> (r1, Inl failure)
      | (r1, Inr _) \<Rightarrow>
          (case on_engine (\<lambda>e. eg_add_inbound_with_replay eng e (nb_spec new) replay) r1 of
             (r2, Inr _) \<Rightarrow> (r2, Inr ())
           | (r2, Inl operation) \<Rightarrow>
               let message = ''start replacement inbound '' @ nb_tag new @ '': '' @ display_engine_error operation in
               (case on_engine (\<lambda>e. eg_add_inbound_with_replay eng e (nb_spec current) replay) r2 of
                  (r3, Inr _) \<Rightarrow>
                    (r3, Inl \<lparr> sf_operation = message, sf_rollback = [], sf_changed = True, sf_restored = True \<rparr>)
                | (r3, Inl rollback) \<Rightarrow>
                    (r3, Inl \<lparr> sf_operation = message,
                       sf_rollback = [''restore inbound '' @ nb_tag current @ '': '' @ display_engine_error rollback],
                       sf_changed = True, sf_restored = False \<rparr>))))"

definition replace_inbound_with_replay :: "('e, 'l) engine \<Rightarrow> NormalizedInbound \<Rightarrow> NormalizedInbound \<Rightarrow> 'l \<Rightarrow> ('e, 'l, 'w, StepFailure + unit) step" where
  "replace_inbound_with_replay eng old new replay = replace_inbound_with_replay_owners eng old old old new replay"

definition replace_inbound :: "('e, 'l) engine \<Rightarrow> NormalizedInbound \<Rightarrow> NormalizedInbound \<Rightarrow> ('e, 'l, 'w, StepFailure + unit) step" where
  "replace_inbound eng old new r =
     (case eg_preserve_inbound_replay eng (rt_engine r) (nb_tag old) of
        Inl error \<Rightarrow> (r, Inl (step_unchanged (''preserve replay state for inbound '' @ nb_tag old @ '': '' @ display_engine_error error)))
      | Inr replay \<Rightarrow> replace_inbound_with_replay eng old new replay r)"

section \<open>Executing a difference\<close>

type_synonym ('e, 'l, 'w, 'a) journaled = "'l Undo list \<Rightarrow> ('e, 'l, 'w) ShoesRuntime \<Rightarrow> ('e, 'l, 'w) ShoesRuntime \<times> 'l Undo list \<times> (StepFailure + 'a)"

definition jbind :: "('e, 'l, 'w, 'a) journaled \<Rightarrow> ('a \<Rightarrow> ('e, 'l, 'w, 'b) journaled) \<Rightarrow> ('e, 'l, 'w, 'b) journaled" where
  "jbind m f journal r =
     (case m journal r of
        (r', journal', Inl failure) \<Rightarrow> (r', journal', Inl failure)
      | (r', journal', Inr x) \<Rightarrow> f x journal' r')"

definition inbound_at :: "NormalizedConfig \<Rightarrow> string \<Rightarrow> NormalizedInbound" where
  "inbound_at config tag = the (map_of (nz_inbounds config) tag)"

definition preserve_message :: "string \<Rightarrow> string \<Rightarrow> EngineError \<Rightarrow> string" where
  "preserve_message what tag error = ''preserve replay state '' @ what @ '' inbound '' @ tag @ '': '' @ display_engine_error error"

fun remove_inbounds :: "('e, 'l) engine \<Rightarrow> NormalizedConfig \<Rightarrow> string list \<Rightarrow> ('e, 'l, 'w, unit) journaled" where
  "remove_inbounds eng current [] journal r = (r, journal, Inr ())"
| "remove_inbounds eng current (tag # tags) journal r =
     (let old = inbound_at current tag in
      case eg_preserve_inbound_replay eng (rt_engine r) tag of
        Inl error \<Rightarrow> (r, journal, Inl (step_unchanged (preserve_message ''for'' tag error)))
      | Inr replay \<Rightarrow>
          (case stop_inbound eng old r of
             (r1, Inl failure) \<Rightarrow> (r1, journal, Inl failure)
           | (r1, Inr _) \<Rightarrow> remove_inbounds eng current tags (AddInbound old replay # journal) r1))"

type_synonym 'l replacement = "string \<times> NormalizedInbound \<times> NormalizedInbound \<times> 'l"

fun classify :: "('e, 'l) engine \<Rightarrow> NormalizedConfig \<Rightarrow> NormalizedConfig \<Rightarrow> InboundDelta list \<Rightarrow> 'l replacement list \<Rightarrow>
    ('e, 'l, 'w, 'l replacement list) journaled" where
  "classify eng current desired [] replacements journal r = (r, journal, Inr replacements)"
| "classify eng current desired (delta # deltas) replacements journal r =
     (let tag = dl_tag delta; old = inbound_at current tag; new = inbound_at desired tag in
      if dl_user_mode_changed delta then
        (case eg_preserve_inbound_replay eng (rt_engine r) tag of
           Inl error \<Rightarrow> (r, journal, Inl (step_unchanged (preserve_message ''before replacing'' tag error)))
         | Inr replay \<Rightarrow> classify eng current desired deltas (replacements @ [(tag, old, new, replay)]) journal r)
      else if dl_config_changed delta then
        (case eg_preserve_inbound_replay eng (rt_engine r) tag of
           Inl error \<Rightarrow> (r, journal, Inl (step_unchanged (preserve_message ''before updating'' tag error)))
         | Inr replay \<Rightarrow>
             (case on_engine (\<lambda>e. eg_update_inbound eng e (update_spec new)) r of
                (r1, Inr _) \<Rightarrow> classify eng current desired deltas replacements (RestoreHotConfig new old replay # journal) r1
              | (r1, Inl (ReloadRequired _)) \<Rightarrow>
                  classify eng current desired deltas (replacements @ [(tag, old, new, replay)]) journal r1
              | (r1, Inl error) \<Rightarrow>
                  (r1, journal, Inl (step_unchanged (''update inbound '' @ tag @ '': '' @ display_engine_error error)))))
      else classify eng current desired deltas replacements journal r)"

fun stop_replaced :: "('e, 'l) engine \<Rightarrow> 'l replacement list \<Rightarrow> ('e, 'l, 'w, unit) journaled" where
  "stop_replaced eng [] journal r = (r, journal, Inr ())"
| "stop_replaced eng ((tag, old, new, replay) # rest) journal r =
     (case stop_inbound eng old r of
        (r1, Inl failure) \<Rightarrow> (r1, journal, Inl failure)
      | (r1, Inr _) \<Rightarrow> stop_replaced eng rest (AddInbound old replay # journal) r1)"

fun start_replaced :: "('e, 'l) engine \<Rightarrow> 'l replacement list \<Rightarrow> ('e, 'l, 'w, unit) journaled" where
  "start_replaced eng [] journal r = (r, journal, Inr ())"
| "start_replaced eng ((tag, old, new, replay) # rest) journal r =
     (case on_engine (\<lambda>e. eg_add_inbound_with_replay eng e (nb_spec new) replay) r of
        (r1, Inl error) \<Rightarrow> (r1, journal, Inl (step_unchanged (''start replacement inbound '' @ tag @ '': '' @ display_engine_error error)))
      | (r1, Inr _) \<Rightarrow> start_replaced eng rest (RemoveInbound new old # journal) r1)"

fun remove_users :: "('e, 'l) engine \<Rightarrow> string \<Rightarrow> NormalizedInbound \<Rightarrow> string list \<Rightarrow> ('e, 'l, 'w, unit) journaled" where
  "remove_users eng tag old [] journal r = (r, journal, Inr ())"
| "remove_users eng tag old (uid # uids) journal r =
     (let old_user = the (map_of (nb_users old) uid) in
      case retire_user eng tag old uid r of
        (r1, Retired) \<Rightarrow> remove_users eng tag old uids (AddUser old old_user # journal) r1
      | (r1, NotReserved e) \<Rightarrow>
          (r1, journal, Inl (step_unchanged (''reserve final traffic for user '' @ uid @ '' on '' @ tag @ '': '' @ e)))
      | (r1, NotRemoved failure) \<Rightarrow>
          (r1, journal, Inl \<lparr> sf_operation = ''remove user '' @ uid @ '' from '' @ tag @ '': '' @ urf_message failure,
             sf_rollback = [], sf_changed = urf_changed failure, sf_restored = (\<not> urf_changed failure) \<rparr>))"

fun upsert_users :: "('e, 'l) engine \<Rightarrow> string \<Rightarrow> NormalizedInbound \<Rightarrow> NormalizedInbound \<Rightarrow> UserDelta list \<Rightarrow> ('e, 'l, 'w, unit) journaled" where
  "upsert_users eng tag old new [] journal r = (r, journal, Inr ())"
| "upsert_users eng tag old new (change # changes) journal r =
     (let uid = ud_id change; new_user = the (map_of (nb_users new) uid) in
      case on_engine (\<lambda>e. eg_add_user eng e tag new_user) r of
        (r1, Inl error) \<Rightarrow>
          (r1, journal, Inl (step_unchanged (''upsert user '' @ uid @ '' on '' @ tag @ '': '' @ display_engine_error error)))
      | (r1, Inr _) \<Rightarrow>
          let journal' = (if ud_added change then RemoveUser new old uid
                else RestoreUser old (the (map_of (nb_users old) uid)) (ud_credential_changed change)) # journal in
          if ud_credential_changed change then
            (case on_engine (\<lambda>e. eg_kick_user eng e tag uid) r1 of
               (r2, Inl error) \<Rightarrow>
                 (r2, journal', Inl (step_unchanged (''kick stale sessions for user '' @ uid @ '' on '' @ tag @ '': '' @ display_engine_error error)))
             | (r2, Inr _) \<Rightarrow> upsert_users eng tag old new changes journal' r2)
          else upsert_users eng tag old new changes journal' r1)"

fun reconcile_users :: "('e, 'l) engine \<Rightarrow> NormalizedConfig \<Rightarrow> NormalizedConfig \<Rightarrow> string list \<Rightarrow> InboundDelta list \<Rightarrow> ('e, 'l, 'w, unit) journaled" where
  "reconcile_users eng current desired replaced [] journal r = (r, journal, Inr ())"
| "reconcile_users eng current desired replaced (delta # deltas) journal r =
     (let tag = dl_tag delta; old = inbound_at current tag; new = inbound_at desired tag in
      if tag \<in> set replaced then reconcile_users eng current desired replaced deltas journal r
      else jbind (remove_users eng tag old (dl_removed_users delta)) (\<lambda>_.
           jbind (upsert_users eng tag old new (dl_upsert_users delta)) (\<lambda>_.
           reconcile_users eng current desired replaced deltas)) journal r)"

fun add_inbounds :: "('e, 'l) engine \<Rightarrow> NormalizedConfig \<Rightarrow> string list \<Rightarrow> ('e, 'l, 'w, unit) journaled" where
  "add_inbounds eng desired [] journal r = (r, journal, Inr ())"
| "add_inbounds eng desired (tag # tags) journal r =
     (let new = inbound_at desired tag in
      case on_engine (\<lambda>e. eg_add_inbound eng e (nb_spec new)) r of
        (r1, Inl error) \<Rightarrow> (r1, journal, Inl (step_unchanged (''add inbound '' @ tag @ '': '' @ display_engine_error error)))
      | (r1, Inr _) \<Rightarrow> add_inbounds eng desired tags (RemoveInbound new (uncommitted_accounting_owner None new) # journal) r1)"

fun take_users :: "('e, 'l) engine \<Rightarrow> string \<Rightarrow> NormalizedInbound \<Rightarrow> UserInfo list \<Rightarrow> ('e, 'l, 'w, StepFailure + unit) step" where
  "take_users eng tag old [] r = (r, Inr ())"
| "take_users eng tag old (user # users) r =
     (case reserve_traffic old (ui_id user) r of
        (r1, Inl e) \<Rightarrow>
          (r1, Inl (step_unchanged (''reserve old traffic for user '' @ ui_id user @
             '' before changing ownership metadata for inbound '' @ tag @ '': '' @ e)))
      | (r1, Inr rv) \<Rightarrow>
          (case on_engine (\<lambda>e. eg_take_user_traffic eng e tag (ui_id user)) r1 of
             (r2, Inl error) \<Rightarrow>
               (unreserve rv r2, Inl (step_unchanged (''take old traffic for user '' @ ui_id user @
                  '' before changing ownership metadata for inbound '' @ tag @ '': '' @ display_engine_error error)))
           | (r2, Inr info) \<Rightarrow> take_users eng tag old users (queue_traffic rv old info r2)))"

fun flush_metadata :: "('e, 'l) engine \<Rightarrow> NormalizedConfig \<Rightarrow> string list \<Rightarrow> (string \<times> NormalizedInbound) list \<Rightarrow> ('e, 'l, 'w, StepFailure + unit) step" where
  "flush_metadata eng desired replaced [] r = (r, Inr ())"
| "flush_metadata eng desired replaced ((tag, old) # rest) r =
     (if tag \<in> set replaced then flush_metadata eng desired replaced rest r
      else case map_of (nz_inbounds desired) tag of
        None \<Rightarrow> flush_metadata eng desired replaced rest r
      | Some new \<Rightarrow>
          if ci_node_id (nb_compiled old) = ci_node_id (nb_compiled new) \<and> ci_protocol (nb_compiled old) = ci_protocol (nb_compiled new)
          then flush_metadata eng desired replaced rest r
          else (case eg_list_users eng (rt_engine r) tag of
              Inl (Unsupported _) \<Rightarrow> flush_metadata eng desired replaced rest r
            | Inl error \<Rightarrow>
                (r, Inl (step_unchanged (''list users before changing ownership metadata for inbound '' @ tag @ '': '' @ display_engine_error error)))
            | Inr users \<Rightarrow>
                (case take_users eng tag old users r of
                   (r1, Inl failure) \<Rightarrow> (r1, Inl failure)
                 | (r1, Inr _) \<Rightarrow> flush_metadata eng desired replaced rest r1)))"

definition flush_changed_traffic_metadata :: "('e, 'l) engine \<Rightarrow> NormalizedConfig \<Rightarrow> NormalizedConfig \<Rightarrow> string list \<Rightarrow> ('e, 'l, 'w, unit) journaled" where
  "flush_changed_traffic_metadata eng previous desired replaced journal r =
     (case flush_metadata eng desired replaced (nz_inbounds previous) r of (r', result) \<Rightarrow> (r', journal, result))"

section \<open>Full reloads\<close>

fun stop_generation :: "('e, 'l) engine \<Rightarrow> (string \<times> NormalizedInbound) list \<Rightarrow> (string \<rightharpoonup> 'l) \<Rightarrow> ('e, 'l, 'w, string \<rightharpoonup> 'l) journaled" where
  "stop_generation eng [] replays journal r = (r, journal, Inr replays)"
| "stop_generation eng ((tag, old) # rest) replays journal r =
     (case eg_preserve_inbound_replay eng (rt_engine r) tag of
        Inl error \<Rightarrow> (r, journal, Inl (step_unchanged (preserve_message ''for'' tag error)))
      | Inr replay \<Rightarrow>
          (case stop_inbound eng old r of
             (r1, Inl failure) \<Rightarrow> (r1, journal, Inl failure)
           | (r1, Inr _) \<Rightarrow> stop_generation eng rest (replays(tag \<mapsto> replay)) (AddInbound old replay # journal) r1))"

fun start_generation :: "('e, 'l) engine \<Rightarrow> NormalizedConfig \<Rightarrow> (string \<rightharpoonup> 'l) \<Rightarrow> (string \<times> NormalizedInbound) list \<Rightarrow> ('e, 'l, 'w, unit) journaled" where
  "start_generation eng current replays [] journal r = (r, journal, Inr ())"
| "start_generation eng current replays ((tag, candidate) # rest) journal r =
     (case on_engine (\<lambda>e. case replays tag of
              Some replay \<Rightarrow> eg_add_inbound_with_replay eng e (nb_spec candidate) replay
            | None \<Rightarrow> eg_add_inbound eng e (nb_spec candidate)) r of
        (r1, Inl error) \<Rightarrow> (r1, journal, Inl (step_unchanged (''start full-reload candidate inbound '' @ tag @ '': '' @ display_engine_error error)))
      | (r1, Inr _) \<Rightarrow>
          start_generation eng current replays rest
            (RemoveInbound candidate (uncommitted_accounting_owner (map_of (nz_inbounds current) tag) candidate) # journal) r1)"

definition execute_full_reload :: "('e, 'l) engine \<Rightarrow> NormalizedConfig \<Rightarrow> NormalizedConfig \<Rightarrow> ('e, 'l, 'w, unit) journaled" where
  "execute_full_reload eng current desired =
     jbind (stop_generation eng (nz_inbounds current) Map.empty) (\<lambda>replays.
     start_generation eng current replays (nz_inbounds desired))"

definition execute_apply :: "('e, 'l) engine \<Rightarrow> NormalizedConfig \<Rightarrow> NormalizedConfig \<Rightarrow> bool \<Rightarrow> ('e, 'l, 'w, unit) journaled" where
  "execute_apply eng current desired force_config_reload =
     (if force_config_reload then execute_full_reload eng current desired
      else
        let diff = diff_configs current desired in
        jbind (remove_inbounds eng current (df_removed diff)) (\<lambda>_.
        jbind (classify eng current desired (df_changed diff) []) (\<lambda>replacements.
        jbind (stop_replaced eng replacements) (\<lambda>_.
        jbind (start_replaced eng replacements) (\<lambda>_.
        let replaced = map fst replacements in
        jbind (reconcile_users eng current desired replaced (df_changed diff)) (\<lambda>_.
        jbind (add_inbounds eng desired (df_added diff)) (\<lambda>_.
        flush_changed_traffic_metadata eng current desired replaced)))))))"

section \<open>Rolling back\<close>

text \<open>One entry of the journal: the error, the listener that may survive it, and the effect on the
  generations known to be live.\<close>

definition undo_step :: "('e, 'l) engine \<Rightarrow> 'l Undo \<Rightarrow> (string \<rightharpoonup> RetiringInbound) \<Rightarrow>
    ('e, 'l, 'w, (string + unit) \<times> RetiringInbound option \<times> (string \<rightharpoonup> RetiringInbound)) step" where
  "undo_step eng undo live r =
     (case undo of
        AddInbound inbound replay \<Rightarrow>
          (case on_engine (\<lambda>e. eg_add_inbound_with_replay eng e (nb_spec inbound) replay) r of
             (r1, Inl error) \<Rightarrow> (r1, Inl (''restore inbound '' @ nb_tag inbound @ '': '' @ display_engine_error error), None, live)
           | (r1, Inr _) \<Rightarrow> (r1, Inr (), None, live(nb_tag inbound \<mapsto> \<lparr> rg_live = inbound, rg_accounting = inbound \<rparr>)))
      | RemoveInbound candidate accounting \<Rightarrow>
          (case stop_inbound_with_owners eng candidate candidate accounting r of
             (r1, Inl failure) \<Rightarrow>
               (r1, Inl (''remove candidate: '' @ describe_step_failure failure), Some \<lparr> rg_live = candidate, rg_accounting = accounting \<rparr>, live)
           | (r1, Inr _) \<Rightarrow> (r1, Inr (), Some \<lparr> rg_live = candidate, rg_accounting = accounting \<rparr>, live(nb_tag candidate := None)))
      | RestoreHotConfig current previous replay \<Rightarrow>
          (case replace_inbound_with_replay_owners eng current previous previous previous replay r of
             (r1, Inl failure) \<Rightarrow>
               (r1, Inl (describe_step_failure failure), Some \<lparr> rg_live = current, rg_accounting = previous \<rparr>, live)
           | (r1, Inr _) \<Rightarrow>
               (r1, Inr (), Some \<lparr> rg_live = current, rg_accounting = previous \<rparr>,
                live(nb_tag previous \<mapsto> \<lparr> rg_live = previous, rg_accounting = previous \<rparr>)))
      | AddUser inbound user \<Rightarrow>
          (case on_engine (\<lambda>e. eg_add_user eng e (nb_tag inbound) user) r of
             (r1, Inl error) \<Rightarrow>
               (r1, Inl (''restore user '' @ (case resolved_id user of Some uid \<Rightarrow> uid | None \<Rightarrow> ''<unknown>'') @ '' on '' @
                  nb_tag inbound @ '': '' @ display_engine_error error), None, live)
           | (r1, Inr _) \<Rightarrow> (r1, Inr (), None, live))
      | RemoveUser candidate accounting uid \<Rightarrow>
          (case retire_user eng (nb_tag candidate) accounting uid r of
             (r1, Retired) \<Rightarrow> (r1, Inr (), Some \<lparr> rg_live = candidate, rg_accounting = accounting \<rparr>, live)
           | (r1, NotReserved e) \<Rightarrow>
               (r1, Inl (''reserve candidate user '' @ uid @ '' traffic on '' @ nb_tag candidate @ '': '' @ e),
                Some \<lparr> rg_live = candidate, rg_accounting = accounting \<rparr>, live)
           | (r1, NotRemoved failure) \<Rightarrow>
               (r1, Inl (''remove candidate user '' @ uid @ '' from '' @ nb_tag candidate @ '': '' @ urf_message failure),
                Some \<lparr> rg_live = candidate, rg_accounting = accounting \<rparr>, live))
      | RestoreUser inbound user kick \<Rightarrow>
          let uid = (case resolved_id user of Some uid \<Rightarrow> uid | None \<Rightarrow> ''<unknown>'') in
          (case on_engine (\<lambda>e. eg_add_user eng e (nb_tag inbound) user) r of
             (r1, Inl error) \<Rightarrow>
               (r1, Inl (''restore user '' @ uid @ '' on '' @ nb_tag inbound @ '': '' @ display_engine_error error), None, live)
           | (r1, Inr _) \<Rightarrow>
               if kick then
                 (case on_engine (\<lambda>e. eg_kick_user eng e (nb_tag inbound) uid) r1 of
                    (r2, Inl error) \<Rightarrow>
                      (r2, Inl (''kick candidate sessions for '' @ uid @ '' on '' @ nb_tag inbound @ '': '' @ display_engine_error error), None, live)
                  | (r2, Inr _) \<Rightarrow> (r2, Inr (), None, live))
               else (r1, Inr (), None, live)))"

fun rollback_list :: "('e, 'l) engine \<Rightarrow> 'l Undo list \<Rightarrow> (string \<rightharpoonup> RetiringInbound) \<Rightarrow>
    ('e, 'l, 'w, string list \<times> (string \<rightharpoonup> RetiringInbound)) step" where
  "rollback_list eng [] live r = (r, [], live)"
| "rollback_list eng (undo # journal) live r =
     (case undo_step eng undo live r of
        (r1, Inr _, survivor, live1) \<Rightarrow> rollback_list eng journal live1 r1
      | (r1, Inl error, survivor, live1) \<Rightarrow>
          let live2 = (case survivor of
                Some inbound \<Rightarrow>
                  if eg_get_inbound eng (rt_engine r1) (nb_tag (rg_live inbound)) then live1(nb_tag (rg_live inbound) \<mapsto> inbound) else live1
              | None \<Rightarrow> live1) in
          (case rollback_list eng journal live2 r1 of (r2, errors, live3) \<Rightarrow> (r2, error # errors, live3)))"

definition rollback_journal :: "('e, 'l) engine \<Rightarrow> 'l Undo list \<Rightarrow> ('e, 'l, 'w, string list \<times> (string \<rightharpoonup> RetiringInbound)) step" where
  "rollback_journal eng journal r =
     (case rollback_list eng journal Map.empty r of
        (r', errors, live) \<Rightarrow> (r', errors, if errors = [] then Map.empty else live))"

end
