(* ===== verification/Runtime_Views.thy ===== *)
theory Runtime_Views
  imports Runtime_Steps
begin

text \<open>
  What the steps of a runtime transaction do to the view of the engine. A step keeps everything of the
  runtime but the engine and the pending traffic, never panics and holds no reservation at its end; a
  step that reports success has the effect it names, and a step that reports itself restored has none.
\<close>

section \<open>Frames\<close>

definition calm :: "('e \<Rightarrow> bool) \<Rightarrow> ('e, 'l, 'w) ShoesRuntime \<Rightarrow> bool" where
  "calm good r \<longleftrightarrow> good (rt_engine r) \<and> \<not> rt_panicked r \<and> pending_ok (rt_pending r) None"

definition stepped :: "('e, 'l) engine \<Rightarrow> ('e \<Rightarrow> bool) \<Rightarrow> ('e, 'l, 'w) ShoesRuntime \<Rightarrow> ('e, 'l, 'w) ShoesRuntime \<Rightarrow> bool" where
  "stepped eng good r r' \<longleftrightarrow> calm good r' \<and> rt_rule_sets r' = rt_rule_sets r \<and> rt_closing r' = rt_closing r \<and>
     rt_watcher r' = rt_watcher r \<and> rt_state r' = rt_state r \<and> rt_recovery_replay r' = rt_recovery_replay r \<and>
     eg_traffic_analysis_disabled eng (rt_engine r') = eg_traffic_analysis_disabled eng (rt_engine r)"

lemma stepped_refl: "calm good r \<Longrightarrow> stepped eng good r r"
  by (simp add: stepped_def)

lemma stepped_trans [trans]: "stepped eng good r r' \<Longrightarrow> stepped eng good r' r'' \<Longrightarrow> stepped eng good r r''"
  by (simp add: stepped_def)

lemma stepped_calm: "stepped eng good r r' \<Longrightarrow> calm good r'"
  by (simp add: stepped_def)

section \<open>Users of a view\<close>

text \<open>A view without a set of the users of an inbound.\<close>

definition shed :: "string \<Rightarrow> string set \<Rightarrow> 'u live_view \<Rightarrow> 'u live_view" where
  "shed tag S v =
     (case v tag of
        Some l \<Rightarrow> v(tag \<mapsto> l\<lparr> lv_users := map_option (\<lambda>m. m |` (- S)) (lv_users l) \<rparr>)
      | None \<Rightarrow> v)"

definition holds_user :: "(json \<Rightarrow> UserSpec \<Rightarrow> 'u) \<Rightarrow> string \<Rightarrow> 'u live_view \<Rightarrow> string \<Rightarrow> UserSpec \<Rightarrow> bool" where
  "holds_user eff tag v uid user \<longleftrightarrow>
     (\<exists>l m. v tag = Some l \<and> lv_users l = Some m \<and> m uid = Some (eff (lv_config l) user))"

lemma shed_empty [simp]: "shed tag {} v = v"
proof (cases "v tag")
  case (Some l)
  have "l\<lparr> lv_users := lv_users l \<rparr> = l" by (cases l) simp
  with Some show ?thesis by (simp add: shed_def restrict_map_def option.map_ident fun_upd_idem)
qed (simp add: shed_def)

lemma without_shed [simp]: "without_user tag uid (shed tag S v) = shed tag (insert uid S) v"
  by (cases "v tag")
     (auto simp: without_user_def shed_def option.map_comp comp_def restrict_map_def fun_eq_iff map_option_case split: option.splits)

lemma without_eq_shed: "without_user tag uid v = shed tag {uid} v"
  using without_shed [of tag uid "{}" v] by simp

lemma with_shed:
  "holds_user eff tag v uid user \<Longrightarrow> with_user eff tag uid user (shed tag S v) = shed tag (S - {uid}) v"
  by (auto simp: holds_user_def with_user_def shed_def restrict_map_def fun_eq_iff)

lemma with_without: "holds_user eff tag v uid user \<Longrightarrow> with_user eff tag uid user (without_user tag uid v) = v"
  using with_shed [of eff tag v uid user "{uid}"] by (simp add: without_eq_shed)

lemma without_idem [simp]: "without_user tag uid (without_user tag uid v) = without_user tag uid v"
  unfolding without_eq_shed [of tag uid v] by simp

lemma user_frames [simp]:
  "t \<noteq> tag \<Longrightarrow> without_user tag uid v t = v t"
  "t \<noteq> tag \<Longrightarrow> with_user eff tag uid user v t = v t"
  "t \<noteq> tag \<Longrightarrow> shed tag S v t = v t"
  by (auto simp: without_user_def with_user_def shed_def split: option.splits)

text \<open>A registry that knows the users an inbound serves.\<close>

definition registered :: "(json \<Rightarrow> UserSpec \<Rightarrow> 'u) \<Rightarrow> NormalizedInbound \<Rightarrow> string \<Rightarrow> 'u live_view \<Rightarrow> bool" where
  "registered eff registry tag v \<longleftrightarrow>
     (\<forall>l m uid spec. v tag = Some l \<and> lv_users l = Some m \<and> m uid \<noteq> None \<and> map_of (nb_users registry) uid = Some spec \<longrightarrow>
        resolved_id spec = Some uid \<and> holds_user eff tag v uid spec)"

section \<open>Effects\<close>

context engine_contract
begin

lemma on_engine_moved:
  assumes "on_engine f r = (r', x)" "calm good r" "moved eng good view (rt_engine r) (rt_engine r') v"
  shows "stepped eng good r r' \<and> view (rt_engine r') = v"
  using assms by (auto simp: on_engine_def stepped_def calm_def moved_def split: prod.splits)

lemma on_engine_result: "on_engine f r = (r', x) \<Longrightarrow> f (rt_engine r) = (rt_engine r', x)"
  by (auto simp: on_engine_def split: prod.splits)

lemma calm_good: "calm good r \<Longrightarrow> good (rt_engine r)"
  by (simp add: calm_def)

lemma add_user_step:
  assumes "on_engine (\<lambda>e. eg_add_user eng e tag user) r = (r', x)" "calm good r"
  shows "stepped eng good r r' \<and> (case x of
      Inr _ \<Rightarrow> \<exists>uid. resolved_id user = Some uid \<and> view (rt_engine r') = with_user eff tag uid user (view (rt_engine r))
    | Inl _ \<Rightarrow> view (rt_engine r') = view (rt_engine r))"
  using add_user [OF calm_good [OF assms(2)] on_engine_result [OF assms(1)]] on_engine_moved [OF assms]
  by (auto split: sum.splits)

lemma add_inbound_step:
  assumes "on_engine (\<lambda>e. eg_add_inbound eng e spec) r = (r', x)" "calm good r"
  shows "stepped eng good r r' \<and> (case x of
      Inr _ \<Rightarrow> view (rt_engine r) (is_tag spec) = None \<and>
        view (rt_engine r') = (view (rt_engine r))(is_tag spec \<mapsto> spec_view eff spec)
    | Inl _ \<Rightarrow> view (rt_engine r') = view (rt_engine r))"
  using add_inbound [OF calm_good [OF assms(2)] on_engine_result [OF assms(1)]] on_engine_moved [OF assms]
  by (auto split: sum.splits)

lemma add_replay_step:
  assumes "on_engine (\<lambda>e. eg_add_inbound_with_replay eng e spec lease) r = (r', x)" "calm good r"
  shows "stepped eng good r r' \<and> (case x of
      Inr _ \<Rightarrow> view (rt_engine r) (is_tag spec) = None \<and>
        view (rt_engine r') = (view (rt_engine r))(is_tag spec \<mapsto> spec_view eff spec)
    | Inl _ \<Rightarrow> view (rt_engine r') = view (rt_engine r))"
  using add_inbound_with_replay [OF calm_good [OF assms(2)] on_engine_result [OF assms(1)]] on_engine_moved [OF assms]
  by (auto split: sum.splits)

lemma update_step:
  assumes "on_engine (\<lambda>e. eg_update_inbound eng e spec) r = (r', x)" "calm good r"
  shows "stepped eng good r r' \<and> (case x of
      Inr _ \<Rightarrow> \<exists>l. view (rt_engine r) (is_tag spec) = Some l \<and> (lv_users l \<noteq> None \<longrightarrow> eff (is_config spec) = eff (lv_config l)) \<and>
        view (rt_engine r') = (view (rt_engine r))(is_tag spec \<mapsto> l\<lparr> lv_config := is_config spec \<rparr>)
    | Inl _ \<Rightarrow> view (rt_engine r') = view (rt_engine r))"
  using update_inbound [OF calm_good [OF assms(2)] on_engine_result [OF assms(1)]] on_engine_moved [OF assms]
  by (auto split: sum.splits)

lemma remove_hard_step:
  assumes "on_engine (\<lambda>e. eg_remove_inbound_hard eng e tag) r = (r', x)" "calm good r"
  shows "stepped eng good r r' \<and> (case x of
      Inr _ \<Rightarrow> view (rt_engine r') = (view (rt_engine r))(tag := None)
    | Inl _ \<Rightarrow> view (rt_engine r') = view (rt_engine r))"
  using remove_inbound_hard [OF calm_good [OF assms(2)] on_engine_result [OF assms(1)]] on_engine_moved [OF assms]
  by (auto split: sum.splits)

lemma kick_step:
  assumes "on_engine (\<lambda>e. eg_kick_user eng e tag uid) r = (r', x)" "calm good r"
  shows "stepped eng good r r' \<and> view (rt_engine r') = view (rt_engine r)"
  using kick_user [OF calm_good [OF assms(2)] on_engine_result [OF assms(1)]] on_engine_moved [OF assms] by blast

lemma configure_step:
  assumes "on_engine (\<lambda>e. eg_configure_urltest_probe_dns eng e dns) r = (r', x)" "calm good r"
  shows "stepped eng good r r' \<and> view (rt_engine r') = view (rt_engine r)"
  using configure_urltest_probe_dns [OF calm_good [OF assms(2)] on_engine_result [OF assms(1)]] on_engine_moved [OF assms]
  by blast

lemma sweep_step:
  assumes "on_engine (\<lambda>e. eg_take_nonzero_inbound_traffic eng e tag) r = (r', x)" "calm good r"
  shows "stepped eng good r r' \<and> view (rt_engine r') = view (rt_engine r)"
  using take_nonzero_inbound_traffic [OF calm_good [OF assms(2)] on_engine_result [OF assms(1)]] on_engine_moved [OF assms]
  by blast

subsection \<open>Retiring users\<close>

text \<open>Between a reservation and its receipt the runtime differs from a calm one in the pending traffic only.\<close>

lemma reserve_step:
  assumes "reserve_traffic accounting uid r = (r1, x)" "calm good r"
  shows "case x of
      Inl _ \<Rightarrow> r1 = r
    | Inr rv \<Rightarrow> \<exists>p. r1 = r\<lparr> rt_pending := p \<rparr> \<and> pending_ok p (Some rv) \<and> rv_key rv = traffic_key accounting uid"
proof -
  obtain p y where res: "reserve (traffic_key accounting uid) (rt_pending r) = (p, y)" by fastforce
  show ?thesis
  proof (cases y)
    case (Inl e)
    with res have "p = rt_pending r" by (auto simp: reserve_def split: if_splits)
    with Inl res assms(1) show ?thesis by (auto simp: reserve_traffic_def Let_def)
  next
    case (Inr owns)
    with pending_ok_reserve res assms(2) have "pending_ok p (Some \<lparr> rv_key = traffic_key accounting uid, rv_owns = owns \<rparr>)"
      unfolding calm_def by blast
    with Inr res assms(1) show ?thesis by (auto simp: reserve_traffic_def Let_def)
  qed
qed

lemma queue_step:
  assumes "pending_ok p (Some rv)" "rv_key rv = traffic_key accounting uid" "ui_id info = uid"
    "good (rt_engine r)" "\<not> rt_panicked r" "rt_pending r = p"
  shows "calm good (queue_traffic rv accounting info r) \<and>
    (\<exists>q. queue_traffic rv accounting info r = r\<lparr> rt_pending := q \<rparr>)"
proof -
  have "drain_key (traffic_drain accounting info) = rv_key rv"
    using assms(2,3) by (simp add: drain_key_def traffic_drain_def traffic_key_def)
  from pending_ok_commit [OF assms(1) this] obtain q where
    "commit_reservation rv (traffic_drain accounting info) p = Some q" "pending_ok q None" by metis
  with assms show ?thesis by (auto simp: queue_traffic_def calm_def)
qed

lemma unreserve_step:
  "pending_ok (rt_pending r) (Some rv) \<Longrightarrow> good (rt_engine r) \<Longrightarrow> \<not> rt_panicked r \<Longrightarrow> calm good (unreserve rv r)"
  by (simp add: calm_def unreserve_def pending_ok_drop)

lemma remove_retry_step:
  assumes "remove_user_with_retry eng tag uid r = (r', x)" "good (rt_engine r)"
  shows "(\<exists>e'. r' = r\<lparr> rt_engine := e' \<rparr>) \<and> good (rt_engine r') \<and>
    eg_traffic_analysis_disabled eng (rt_engine r') = eg_traffic_analysis_disabled eng (rt_engine r) \<and>
    (\<forall>t. t \<noteq> tag \<longrightarrow> view (rt_engine r') t = view (rt_engine r) t) \<and>
    (case x of
       Inr info \<Rightarrow> ui_id info = uid \<and> view (rt_engine r') = without_user tag uid (view (rt_engine r))
     | Inl f \<Rightarrow> \<not> urf_changed f \<longrightarrow> view (rt_engine r') = view (rt_engine r))"
proof -
  let ?rm = "\<lambda>e. eg_remove_user eng e tag uid"
  obtain e1 y where first: "?rm (rt_engine r) = (e1, y)" by fastforce
  note law = remove_user [OF assms(2) first]
  show ?thesis
  proof (cases y)
    case (Inr info)
    with assms first law show ?thesis
      by (auto simp: remove_user_with_retry_def on_engine_def moved_def)
  next
    case (Inl error)
    show ?thesis
    proof (cases "\<exists>io. error = EngineIo io")
      case False
      with Inl law have "moved eng good view (rt_engine r) e1 (view (rt_engine r))" by (cases error) auto
      with False Inl assms first show ?thesis
        by (cases error) (auto simp: remove_user_with_retry_def on_engine_def moved_def)
    next
      case True
      with Inl law have one: "moved eng good view (rt_engine r) e1 (view (rt_engine r)) \<or>
          moved eng good view (rt_engine r) e1 (without_user tag uid (view (rt_engine r)))" by auto
      obtain e2 z where second: "?rm e1 = (e2, z)" by fastforce
      have "good e1" using one by (auto simp: moved_def)
      note law2 = remove_user [OF this second]
      show ?thesis
      proof (cases z)
        case (Inr info)
        with True \<open>y = Inl error\<close> assms first second law2 one show ?thesis
          by (auto simp: remove_user_with_retry_def on_engine_def moved_def)
      next
        case (Inl error2)
        with law2 have "moved eng good view e1 e2 (view e1) \<or> moved eng good view e1 e2 (without_user tag uid (view e1))"
          by (cases error2) auto
        with True Inl \<open>y = Inl error\<close> assms first second one show ?thesis
          by (auto simp: remove_user_with_retry_def on_engine_def moved_def)
      qed
    qed
  qed
qed

lemma retire_step:
  assumes "retire_user eng tag accounting uid r = (r', x)" "calm good r"
  shows "stepped eng good r r' \<and> (\<forall>t. t \<noteq> tag \<longrightarrow> view (rt_engine r') t = view (rt_engine r) t) \<and>
    (case x of
       Retired \<Rightarrow> view (rt_engine r') = without_user tag uid (view (rt_engine r))
     | NotReserved _ \<Rightarrow> view (rt_engine r') = view (rt_engine r)
     | NotRemoved f \<Rightarrow> \<not> urf_changed f \<longrightarrow> view (rt_engine r') = view (rt_engine r))"
proof -
  obtain r1 y where res: "reserve_traffic accounting uid r = (r1, y)" by fastforce
  note reserved = reserve_step [OF res assms(2)]
  show ?thesis
  proof (cases y)
    case (Inl e)
    with assms res reserved show ?thesis by (auto simp: retire_user_def intro: stepped_refl)
  next
    case (Inr rv)
    with reserved obtain p where p: "r1 = r\<lparr> rt_pending := p \<rparr>" "pending_ok p (Some rv)" "rv_key rv = traffic_key accounting uid"
      by auto
    obtain r2 z where rem: "remove_user_with_retry eng tag uid r1 = (r2, z)" by fastforce
    have "good (rt_engine r1)" using p(1) assms(2) by (simp add: calm_def)
    note removal = remove_retry_step [OF rem this]
    then obtain e' where "r2 = r1\<lparr> rt_engine := e' \<rparr>" by blast
    with removal p(1) have r2: "r2 = r1\<lparr> rt_engine := e' \<rparr>" "good e'"
      and eff2: "eg_traffic_analysis_disabled eng e' = eg_traffic_analysis_disabled eng (rt_engine r)"
        "\<forall>t. t \<noteq> tag \<longrightarrow> view e' t = view (rt_engine r) t"
        "case z of Inr info \<Rightarrow> ui_id info = uid \<and> view e' = without_user tag uid (view (rt_engine r))
         | Inl f \<Rightarrow> \<not> urf_changed f \<longrightarrow> view e' = view (rt_engine r)"
      by (cases z; simp)+
    have quiet: "\<not> rt_panicked r2" "rt_pending r2 = p" "good (rt_engine r2)" using p r2 assms(2) by (simp_all add: calm_def)
    show ?thesis
    proof (cases z)
      case (Inl f)
      with assms(1) res Inr rem have "r' = unreserve rv r2" "x = NotRemoved f" by (simp_all add: retire_user_def)
      with unreserve_step [of r2 rv] quiet p r2 eff2 Inl show ?thesis
        by (simp add: stepped_def) (simp add: unreserve_def)
    next
      case info: (Inr info)
      with assms(1) res Inr rem have out: "r' = queue_traffic rv accounting info r2" "x = Retired" by (simp_all add: retire_user_def)
      from queue_step [OF p(2,3) _ quiet(3) quiet(1) quiet(2), of info] info eff2(3) out obtain q where
        "calm good r'" "r' = r2\<lparr> rt_pending := q \<rparr>" by auto
      with out(2) info p(1) r2 eff2 show ?thesis by (simp add: stepped_def)
    qed
  qed
qed

subsection \<open>Stopping an inbound\<close>

lemma restore_list_step:
  assumes "restore_list eng tag users r = (r', errors)" "calm good r"
  shows "stepped eng good r r' \<and> (\<forall>t. t \<noteq> tag \<longrightarrow> view (rt_engine r') t = view (rt_engine r) t)"
  using assms
proof (induction users arbitrary: r errors)
  case Nil
  then show ?case by (simp add: stepped_refl)
next
  case (Cons user users)
  obtain r1 x where add: "on_engine (\<lambda>e. eg_add_user eng e tag user) r = (r1, x)" by fastforce
  note step = add_user_step [OF add Cons.prems(2)]
  then have frame: "\<forall>t. t \<noteq> tag \<longrightarrow> view (rt_engine r1) t = view (rt_engine r) t" by (auto split: sum.splits)
  from Cons.prems(1) add obtain errors1 where "restore_list eng tag users r1 = (r', errors1)"
    by (auto split: sum.splits prod.splits)
  from Cons.IH [OF this] step frame show ?case by (auto simp: stepped_calm intro: stepped_trans)
qed

lemma restore_list_ok:
  assumes "restore_list eng tag users r = (r', [])" "calm good r" "view (rt_engine r) = shed tag S v"
    and "\<forall>user \<in> set users. \<exists>uid. resolved_id user = Some uid \<and> holds_user eff tag v uid user"
  shows "view (rt_engine r') = shed tag (S - set (ids_of users)) v"
  using assms
proof (induction users arbitrary: r S)
  case Nil
  then show ?case by simp
next
  case (Cons user users)
  obtain r1 x where add: "on_engine (\<lambda>e. eg_add_user eng e tag user) r = (r1, x)" by fastforce
  with Cons.prems(1) obtain info where x: "x = Inr info" and rest: "restore_list eng tag users r1 = (r', [])"
    by (auto split: sum.splits prod.splits)
  obtain uid where uid: "resolved_id user = Some uid" "holds_user eff tag v uid user" using Cons.prems(4) by auto
  from add_user_step [OF add Cons.prems(2)] x uid Cons.prems(3)
  have step: "stepped eng good r r1" "view (rt_engine r1) = shed tag (S - {uid}) v" by (auto simp: with_shed)
  from Cons.IH [OF rest stepped_calm [OF step(1)] step(2)] Cons.prems(4) uid(1) show ?case
    by (simp add: Diff_insert2 [symmetric])
qed

lemma stop_failure_step:
  assumes "stop_failure eng tag removed operation uncertain r = (r', x)" "calm good r"
  shows "stepped eng good r r' \<and> (\<forall>t. t \<noteq> tag \<longrightarrow> view (rt_engine r') t = view (rt_engine r) t)"
    and "\<exists>f. x = Inl f \<and> (sf_restored f \<longrightarrow> \<not> uncertain \<and> restore_users eng tag removed r = (r', []))"
  using assms restore_list_step [of tag "rev removed" r]
  by (auto simp: stop_failure_def restore_users_def split: prod.splits)

lemma registered_self:
  "inbound_wf inbound \<Longrightarrow> v tag = Some (inbound_view eff inbound) \<Longrightarrow> registered eff inbound tag v"
  by (auto simp: registered_def inbound_view_def holds_user_def inbound_wf_def split: if_splits)

lemma restored_view:
  assumes "restore_users eng tag removed r = (r', [])" "calm good r" "view (rt_engine r) = shed tag (set (ids_of removed)) v"
    and "\<forall>user \<in> set removed. \<exists>uid. resolved_id user = Some uid \<and> holds_user eff tag v uid user"
  shows "view (rt_engine r') = v"
proof -
  have "set (ids_of (rev removed)) = set (ids_of removed)" by (simp add: ids_of_def)
  with restore_list_ok [of tag "rev removed" r r' _ v] assms show ?thesis by (simp add: restore_users_def)
qed

lemma stop_users_step:
  assumes "stop_users eng tag registry accounting users removed r = (r', x)" "calm good r"
  shows "stepped eng good r r' \<and> (\<forall>t. t \<noteq> tag \<longrightarrow> view (rt_engine r') t = view (rt_engine r) t)"
  using assms
proof (induction users arbitrary: r removed)
  case Nil
  then show ?case by (simp add: stepped_refl)
next
  case (Cons user users)
  show ?case
  proof (cases "map_of (nb_users registry) (ui_id user)")
    case None
    with Cons.prems(1) have "\<exists>op. stop_failure eng tag removed op False r = (r', x)" by auto
    with stop_failure_step(1) Cons.prems(2) show ?thesis by blast
  next
    case (Some spec)
    obtain r1 y where ret: "retire_user eng tag accounting (ui_id user) r = (r1, y)" by fastforce
    note step = retire_step [OF ret Cons.prems(2)]
    show ?thesis
    proof (cases y)
      case Retired
      with Cons.prems Some ret have "stop_users eng tag registry accounting users (removed @ [spec]) r1 = (r', x)" by simp
      from Cons.IH [OF this stepped_calm] step show ?thesis by (auto intro: stepped_trans)
    next
      case (NotReserved e)
      with Cons.prems Some ret have "stop_failure eng tag removed
          (''reserve final traffic for user '' @ ui_id user @ '' while stopping inbound '' @ tag @ '': '' @ e) False r1 = (r', x)" by simp
      from stop_failure_step(1) [OF this] step show ?thesis by (auto simp: stepped_calm intro: stepped_trans)
    next
      case (NotRemoved g)
      with Cons.prems Some ret have "stop_failure eng tag removed
          (''remove user '' @ ui_id user @ '' before stopping inbound '' @ tag @ '': '' @ urf_message g) (urf_changed g) r1 = (r', x)" by simp
      from stop_failure_step(1) [OF this] step show ?thesis by (auto simp: stepped_calm intro: stepped_trans)
    qed
  qed
qed

lemma stop_users_view:
  assumes "stop_users eng tag registry accounting users removed r = (r', x)" "calm good r"
    and "view (rt_engine r) = shed tag (set (ids_of removed)) v" "registered eff registry tag v"
    and "\<forall>user \<in> set removed. \<exists>uid. resolved_id user = Some uid \<and> holds_user eff tag v uid user"
    and "\<exists>l m. v tag = Some l \<and> lv_users l = Some m \<and> set (map ui_id users) \<subseteq> dom m"
  shows "case x of
      Inr removed' \<Rightarrow> view (rt_engine r') = shed tag (set (ids_of removed')) v \<and>
        (\<forall>user \<in> set removed'. \<exists>uid. resolved_id user = Some uid \<and> holds_user eff tag v uid user)
    | Inl f \<Rightarrow> sf_restored f \<longrightarrow> view (rt_engine r') = v"
  using assms
proof (induction users arbitrary: r removed)
  case Nil
  then show ?case by auto
next
  case (Cons user users)
  have fails: "case x of Inr _ \<Rightarrow> False | Inl f \<Rightarrow> sf_restored f \<longrightarrow> view (rt_engine r') = v"
    if out: "stop_failure eng tag removed op uncertain r1 = (r', x)" and calm: "calm good r1"
      and same: "\<not> uncertain \<Longrightarrow> view (rt_engine r1) = view (rt_engine r)" for op uncertain r1
  proof -
    from stop_failure_step(2) [OF out calm] obtain f where f: "x = Inl f"
      "sf_restored f \<longrightarrow> \<not> uncertain \<and> restore_users eng tag removed r1 = (r', [])" by blast
    show ?thesis
      using restored_view [of tag removed r1 r' v] calm same Cons.prems(3,5) f by auto
  qed
  from Cons.prems(6) obtain l m where v: "v tag = Some l" "lv_users l = Some m" "m (ui_id user) \<noteq> None"
    "set (map ui_id users) \<subseteq> dom m" by auto
  show ?case
  proof (cases "map_of (nb_users registry) (ui_id user)")
    case None
    with Cons.prems(1) have "stop_failure eng tag removed
        (''cannot remove inbound '' @ tag @ '': live user '' @ ui_id user @ '' is absent from AppliedState'') False r = (r', x)"
      by simp
    from fails [OF this Cons.prems(2)] show ?thesis by (auto split: sum.splits)
  next
    case (Some spec)
    with v Cons.prems(4) have spec: "resolved_id spec = Some (ui_id user)" "holds_user eff tag v (ui_id user) spec"
      unfolding registered_def by blast+
    obtain r1 y where ret: "retire_user eng tag accounting (ui_id user) r = (r1, y)" by fastforce
    note step = retire_step [OF ret Cons.prems(2)]
    then have calm1: "calm good r1" by (blast intro: stepped_calm)
    show ?thesis
    proof (cases y)
      case Retired
      with step Cons.prems(3) spec(1) have view1: "view (rt_engine r1) = shed tag (set (ids_of (removed @ [spec]))) v"
        by (simp add: ids_of_def)
      show ?thesis
      proof (rule Cons.IH [OF _ calm1 view1 Cons.prems(4)])
        show "stop_users eng tag registry accounting users (removed @ [spec]) r1 = (r', x)"
          using Cons.prems(1) Some ret Retired by simp
        show "\<forall>user \<in> set (removed @ [spec]). \<exists>uid. resolved_id user = Some uid \<and> holds_user eff tag v uid user"
          using Cons.prems(5) spec by auto
      qed (use v in auto)
    next
      case (NotReserved e)
      with Cons.prems(1) Some ret have "stop_failure eng tag removed
          (''reserve final traffic for user '' @ ui_id user @ '' while stopping inbound '' @ tag @ '': '' @ e) False r1 = (r', x)" by simp
      from fails [OF this calm1] step NotReserved show ?thesis by (auto split: sum.splits)
    next
      case (NotRemoved g)
      with Cons.prems(1) Some ret have "stop_failure eng tag removed
          (''remove user '' @ ui_id user @ '' before stopping inbound '' @ tag @ '': '' @ urf_message g) (urf_changed g) r1 = (r', x)" by simp
      from fails [OF this calm1] step NotRemoved show ?thesis by (auto split: sum.splits)
    qed
  qed
qed

end

end
