(* ===== verification/Runtime_Undo.thy ===== *)
theory Runtime_Undo
  imports Runtime_Views
begin

text \<open>
  Stopping, replacing and rolling back. A stopped inbound is gone from the view and nothing else is touched;
  a stop that reports itself restored changed nothing. The journal is read as a function on views, and a
  rollback without errors computes it.
\<close>

section \<open>The journal as a function\<close>

fun undo_view :: "(json \<Rightarrow> UserSpec \<Rightarrow> 'u) \<Rightarrow> 'l Undo \<Rightarrow> 'u live_view \<Rightarrow> 'u live_view" where
  "undo_view eff (AddInbound inbound replay) v = v(nb_tag inbound \<mapsto> spec_view eff (nb_spec inbound))"
| "undo_view eff (RemoveInbound candidate accounting) v = v(nb_tag candidate := None)"
| "undo_view eff (RestoreHotConfig current previous replay) v = v(nb_tag previous \<mapsto> spec_view eff (nb_spec previous))"
| "undo_view eff (AddUser inbound user) v = with_user eff (nb_tag inbound) (the (resolved_id user)) user v"
| "undo_view eff (RemoveUser candidate accounting uid) v = without_user (nb_tag candidate) uid v"
| "undo_view eff (RestoreUser inbound user kick) v = with_user eff (nb_tag inbound) (the (resolved_id user)) user v"

fun undo_wf :: "'l Undo \<Rightarrow> bool" where
  "undo_wf (RestoreHotConfig current previous replay) \<longleftrightarrow> nb_tag current = nb_tag previous"
| "undo_wf _ \<longleftrightarrow> True"

context engine_contract
begin

lemma stop_with_owners_step:
  assumes "stop_inbound_with_owners eng listener registry accounting r = (r', x)" "calm good r"
  shows "stepped eng good r r'"
    and "x = Inr u \<Longrightarrow> view (rt_engine r') = (view (rt_engine r))(nb_tag listener := None)"
    and "x = Inl f \<Longrightarrow> sf_restored f \<Longrightarrow> registered eff registry (nb_tag listener) (view (rt_engine r)) \<Longrightarrow>
      view (rt_engine r') = view (rt_engine r)"
proof -
  let ?tag = "nb_tag listener"
  have go: "stepped eng good r r' \<and> (\<forall>u. x = Inr u \<longrightarrow> view (rt_engine r') = (view (rt_engine r))(?tag := None)) \<and>
      (\<forall>f. x = Inl f \<and> sf_restored f \<and> registered eff registry ?tag (view (rt_engine r)) \<longrightarrow> view (rt_engine r') = view (rt_engine r))"
    if out: "stop_listed eng ?tag registry accounting users r = (r', x)"
      and users: "users = [] \<or> (\<exists>l m. view (rt_engine r) ?tag = Some l \<and> lv_users l = Some m \<and> set (map ui_id users) \<subseteq> dom m)" for users
  proof -
    obtain r1 y where stop: "stop_users eng ?tag registry accounting users [] r = (r1, y)" by fastforce
    note step1 = stop_users_step [OF stop assms(2)]
    then have calm1: "calm good r1" by (blast intro: stepped_calm)
    have view1: "case y of
        Inr removed \<Rightarrow> view (rt_engine r1) = shed ?tag (set (ids_of removed)) (view (rt_engine r)) \<and>
          (\<forall>user \<in> set removed. \<exists>uid. resolved_id user = Some uid \<and> holds_user eff ?tag (view (rt_engine r)) uid user)
      | Inl f \<Rightarrow> sf_restored f \<longrightarrow> view (rt_engine r1) = view (rt_engine r)"
      if reg: "registered eff registry ?tag (view (rt_engine r))"
    proof (cases "users = []")
      case True
      with stop show ?thesis by auto
    next
      case False
      with users stop_users_view [OF stop assms(2), of "view (rt_engine r)"] reg show ?thesis by simp
    qed
    show ?thesis
    proof (cases y)
      case (Inl f)
      with out stop step1 view1 show ?thesis by (auto simp: stop_listed_def)
    next
      case (Inr removed)
      obtain r2 z where rem: "on_engine (\<lambda>e. eg_remove_inbound_hard eng e ?tag) r1 = (r2, z)" by fastforce
      note step2 = remove_hard_step [OF rem calm1]
      then have calm2: "calm good r2" by (blast intro: stepped_calm)
      show ?thesis
      proof (cases z)
        case info: (Inr info)
        with out stop Inr rem have "r' = r2" "x = Inr ()" by (auto simp: stop_listed_def)
        moreover have "view (rt_engine r2) = (view (rt_engine r))(?tag := None)"
          using step1 step2 info by (auto simp: fun_eq_iff)
        moreover have "stepped eng good r r2" using step1 step2 by (blast intro: stepped_trans)
        ultimately show ?thesis by simp
      next
        case error: (Inl error)
        with out stop Inr rem have fail: "stop_failure eng ?tag removed
            (''remove inbound '' @ ?tag @ '': '' @ display_engine_error error) False r2 = (r', x)" by (simp add: stop_listed_def)
        note step3 = stop_failure_step [OF fail calm2]
        have "stepped eng good r r'" using step1 step2 step3(1) by (blast intro: stepped_trans)
        moreover have "view (rt_engine r2) = view (rt_engine r1)" using step2 error by simp
        ultimately show ?thesis
          using step3(2) view1 Inr restored_view [of ?tag removed r2 r' "view (rt_engine r)"] calm2 by auto
      qed
    qed
  qed
  have "stepped eng good r r' \<and> (\<forall>u. x = Inr u \<longrightarrow> view (rt_engine r') = (view (rt_engine r))(?tag := None)) \<and>
      (\<forall>f. x = Inl f \<and> sf_restored f \<and> registered eff registry ?tag (view (rt_engine r)) \<longrightarrow> view (rt_engine r') = view (rt_engine r))"
  proof (cases "eg_list_users eng (rt_engine r) ?tag")
    case (Inr infos)
    with assms(1) have "stop_listed eng ?tag registry accounting infos r = (r', x)" unfolding stop_inbound_with_owners_def Let_def by simp
    with go [of infos] list_users [OF calm_good [OF assms(2)] Inr] show ?thesis by blast
  next
    case (Inl error)
    show ?thesis
    proof (cases "\<exists>msg. error = Unsupported msg")
      case True
      with assms(1) Inl have "stop_listed eng ?tag registry accounting [] r = (r', x)" unfolding stop_inbound_with_owners_def Let_def by auto
      with go [of "[]"] show ?thesis by blast
    next
      case False
      with assms(1) Inl have "r' = r" "isl x" unfolding stop_inbound_with_owners_def Let_def by (cases error; auto)+
      with assms(2) show ?thesis by (auto simp: stepped_refl)
    qed
  qed
  then show "stepped eng good r r'"
    "x = Inr u \<Longrightarrow> view (rt_engine r') = (view (rt_engine r))(nb_tag listener := None)"
    "x = Inl f \<Longrightarrow> sf_restored f \<Longrightarrow> registered eff registry (nb_tag listener) (view (rt_engine r)) \<Longrightarrow>
      view (rt_engine r') = view (rt_engine r)" by blast+
qed

lemma stop_inbound_step:
  assumes "stop_inbound eng inbound r = (r', x)" "calm good r"
  shows "stepped eng good r r'"
    and "x = Inr u \<Longrightarrow> view (rt_engine r') = (view (rt_engine r))(nb_tag inbound := None)"
    and "x = Inl f \<Longrightarrow> sf_restored f \<Longrightarrow> inbound_wf inbound \<Longrightarrow>
      view (rt_engine r) (nb_tag inbound) = Some (inbound_view eff inbound) \<Longrightarrow> view (rt_engine r') = view (rt_engine r)"
  using stop_with_owners_step [OF assms(1) [unfolded stop_inbound_def] assms(2)] registered_self by blast+

lemma replace_step:
  assumes "replace_inbound_with_replay_owners eng current registry accounting new replay r = (r', x)" "calm good r"
  shows "stepped eng good r r'"
    and "x = Inr u \<Longrightarrow> nb_tag current = nb_tag new \<Longrightarrow>
      view (rt_engine r') = (view (rt_engine r))(nb_tag new \<mapsto> spec_view eff (nb_spec new))"
proof -
  obtain r1 y where stop: "stop_inbound_with_owners eng current registry accounting r = (r1, y)" by fastforce
  note step1 = stop_with_owners_step [OF stop assms(2)]
  have "stepped eng good r r' \<and> (\<forall>u. x = Inr u \<and> nb_tag current = nb_tag new \<longrightarrow>
      view (rt_engine r') = (view (rt_engine r))(nb_tag new \<mapsto> spec_view eff (nb_spec new)))"
  proof (cases y)
    case (Inl f)
    with assms(1) stop step1(1) show ?thesis by (auto simp: replace_inbound_with_replay_owners_def)
  next
    case (Inr u)
    obtain r2 z where add: "on_engine (\<lambda>e. eg_add_inbound_with_replay eng e (nb_spec new) replay) r1 = (r2, z)" by fastforce
    note step2 = add_replay_step [OF add stepped_calm [OF step1(1)]]
    obtain r3 z' where again: "on_engine (\<lambda>e. eg_add_inbound_with_replay eng e (nb_spec current) replay) r2 = (r3, z')" by fastforce
    have step3: "stepped eng good r2 r3" using add_replay_step [OF again] step2 by (blast intro: stepped_calm)
    have trans: "stepped eng good r r2" "stepped eng good r r3"
      using step1(1) step2 step3 by (blast intro: stepped_trans)+
    show ?thesis
    proof (cases z)
      case (Inl e)
      with assms(1) stop Inr add again have "r' = r3" "isl x"
        by (auto simp: replace_inbound_with_replay_owners_def Let_def split: sum.splits)
      with trans show ?thesis by auto
    next
      case info: (Inr info)
      with assms(1) stop Inr add have "r' = r2" by (auto simp: replace_inbound_with_replay_owners_def)
      with trans step2 info step1(2) [OF Inr] show ?thesis by auto
    qed
  qed
  then show "stepped eng good r r'"
    "x = Inr u \<Longrightarrow> nb_tag current = nb_tag new \<Longrightarrow>
      view (rt_engine r') = (view (rt_engine r))(nb_tag new \<mapsto> spec_view eff (nb_spec new))" by blast+
qed

section \<open>Rolling back\<close>

lemma undo_step_stepped:
  assumes "undo_step eng undo live r = (r', x, survivor, live')" "calm good r"
  shows "stepped eng good r r'"
    and "x = Inr u \<Longrightarrow> undo_wf undo \<Longrightarrow> view (rt_engine r') = undo_view eff undo (view (rt_engine r))"
proof -
  have "stepped eng good r r' \<and> (\<forall>u. x = Inr u \<and> undo_wf undo \<longrightarrow> view (rt_engine r') = undo_view eff undo (view (rt_engine r)))"
  proof (cases undo)
    case (AddInbound inbound replay)
    obtain r1 y where add: "on_engine (\<lambda>e. eg_add_inbound_with_replay eng e (nb_spec inbound) replay) r = (r1, y)" by fastforce
    from add_replay_step [OF add assms(2)] assms(1) add AddInbound show ?thesis
      by (auto simp: undo_step_def split: sum.splits)
  next
    case (RemoveInbound candidate accounting)
    obtain r1 y where stop: "stop_inbound_with_owners eng candidate candidate accounting r = (r1, y)" by fastforce
    from stop_with_owners_step [OF stop assms(2)] assms(1) stop RemoveInbound show ?thesis
      by (auto simp: undo_step_def split: sum.splits)
  next
    case (RestoreHotConfig current previous replay)
    obtain r1 y where rep: "replace_inbound_with_replay_owners eng current previous previous previous replay r = (r1, y)" by fastforce
    from replace_step [OF rep assms(2)] assms(1) rep RestoreHotConfig show ?thesis
      by (auto simp: undo_step_def split: sum.splits)
  next
    case (AddUser inbound user)
    obtain r1 y where add: "on_engine (\<lambda>e. eg_add_user eng e (nb_tag inbound) user) r = (r1, y)" by fastforce
    from add_user_step [OF add assms(2)] assms(1) add AddUser show ?thesis
      by (auto simp: undo_step_def split: sum.splits)
  next
    case (RemoveUser candidate accounting uid)
    obtain r1 y where ret: "retire_user eng (nb_tag candidate) accounting uid r = (r1, y)" by fastforce
    from retire_step [OF ret assms(2)] assms(1) ret RemoveUser show ?thesis
      by (auto simp: undo_step_def split: retirement.splits)
  next
    case (RestoreUser inbound user kick)
    define uid where "uid = (case resolved_id user of Some uid \<Rightarrow> uid | None \<Rightarrow> ''<unknown>'')"
    obtain r1 y where add: "on_engine (\<lambda>e. eg_add_user eng e (nb_tag inbound) user) r = (r1, y)" by fastforce
    note step1 = add_user_step [OF add assms(2)]
    obtain r2 z where kicked: "on_engine (\<lambda>e. eg_kick_user eng e (nb_tag inbound) uid) r1 = (r2, z)" by fastforce
    have step2: "stepped eng good r1 r2 \<and> view (rt_engine r2) = view (rt_engine r1)"
      using kick_step [OF kicked] step1 by (blast intro: stepped_calm)
    show ?thesis
    proof (cases y)
      case (Inl e)
      with step1 assms(1) add RestoreUser show ?thesis by (auto simp: undo_step_def Let_def)
    next
      case (Inr info)
      with assms(1) add RestoreUser kicked have "r' = (if kick then r2 else r1)"
        by (auto simp: undo_step_def Let_def uid_def split: sum.splits if_splits)
      with step1 step2 Inr RestoreUser show ?thesis by (auto intro: stepped_trans)
    qed
  qed
  then show "stepped eng good r r'"
    "x = Inr u \<Longrightarrow> undo_wf undo \<Longrightarrow> view (rt_engine r') = undo_view eff undo (view (rt_engine r))" by blast+
qed

lemma rollback_list_step:
  assumes "rollback_list eng journal live r = (r', errors, live')" "calm good r"
  shows "stepped eng good r r' \<and>
    (errors = [] \<and> list_all undo_wf journal \<longrightarrow> view (rt_engine r') = fold (undo_view eff) journal (view (rt_engine r)))"
  using assms
proof (induction journal arbitrary: live r errors)
  case Nil
  then show ?case by (simp add: stepped_refl)
next
  case (Cons undo journal)
  obtain r1 x survivor live1 where undo: "undo_step eng undo live r = (r1, x, survivor, live1)" by (metis prod_cases4)
  note step = undo_step_stepped [OF undo Cons.prems(2)]
  have "\<exists>live2 errors2. rollback_list eng journal live2 r1 = (r', errors2, live') \<and>
      (errors = [] \<longrightarrow> errors2 = [] \<and> \<not> isl x)"
    using Cons.prems(1) undo by (cases x) (auto simp: Let_def split: prod.splits)
  then obtain live2 errors2 where rest: "rollback_list eng journal live2 r1 = (r', errors2, live')"
    "errors = [] \<longrightarrow> errors2 = [] \<and> \<not> isl x" by blast
  from Cons.IH [OF rest(1) stepped_calm [OF step(1)]] step rest(2) show ?case
    by (cases x) (auto intro: stepped_trans)
qed

lemma rollback_step:
  assumes "rollback_journal eng journal r = (r', errors, live)" "calm good r"
  shows "stepped eng good r r'"
    and "errors = [] \<Longrightarrow> list_all undo_wf journal \<Longrightarrow> view (rt_engine r') = fold (undo_view eff) journal (view (rt_engine r))"
proof -
  obtain live' where "rollback_list eng journal Map.empty r = (r', errors, live')"
    using assms(1) by (auto simp: rollback_journal_def split: prod.splits)
  from rollback_list_step [OF this assms(2)] show "stepped eng good r r'"
    "errors = [] \<Longrightarrow> list_all undo_wf journal \<Longrightarrow> view (rt_engine r') = fold (undo_view eff) journal (view (rt_engine r))" by auto
qed

end

end
