(* ===== verification/Runtime_Forward.thy ===== *)
theory Runtime_Forward
  imports Runtime_Undo
begin

text \<open>
  Executing a difference or a full reload. Every phase relates the view before and after it, and keeps the
  journal such that undoing it from the current view gives the view the transaction started from.
\<close>

section \<open>Phases\<close>

text \<open>The outcome of a phase from a runtime to \<open>r'\<close>: on success the view is \<open>v\<close>; on success, and on a failure that
  was restored locally, the journal leads back to \<open>v0\<close>.\<close>

definition phase :: "('e, 'l) engine \<Rightarrow> ('e \<Rightarrow> bool) \<Rightarrow> ('e \<Rightarrow> 'u live_view) \<Rightarrow> (json \<Rightarrow> UserSpec \<Rightarrow> 'u) \<Rightarrow> 'u live_view \<Rightarrow> 'u live_view \<Rightarrow>
    ('e, 'l, 'w) ShoesRuntime \<Rightarrow> ('e, 'l, 'w) ShoesRuntime \<Rightarrow> 'l Undo list \<Rightarrow> StepFailure + 'a \<Rightarrow> bool" where
  "phase eng good view eff v0 v r r' journal x \<longleftrightarrow>
     stepped eng good r r' \<and> list_all undo_wf journal \<and>
     (case x of
        Inr _ \<Rightarrow> view (rt_engine r') = v \<and> fold (undo_view eff) journal (view (rt_engine r')) = v0
      | Inl f \<Rightarrow> sf_restored f \<longrightarrow> fold (undo_view eff) journal (view (rt_engine r')) = v0)"

lemma phase_here:
  "calm good r \<Longrightarrow> list_all undo_wf journal \<Longrightarrow> fold (undo_view eff) journal (view (rt_engine r)) = v0 \<Longrightarrow>
   view (rt_engine r) = v \<Longrightarrow> phase eng good view eff v0 v r r journal (Inr x)"
  by (simp add: phase_def stepped_refl)

lemma phase_fail:
  "stepped eng good r r' \<Longrightarrow> list_all undo_wf journal \<Longrightarrow>
   (sf_restored f \<Longrightarrow> fold (undo_view eff) journal (view (rt_engine r')) = v0) \<Longrightarrow>
   phase eng good view eff v0 v r r' journal (Inl f)"
  by (simp add: phase_def)

lemma phase_step: "stepped eng good r r1 \<Longrightarrow> phase eng good view eff v0 v r1 r' journal x \<Longrightarrow> phase eng good view eff v0 v r r' journal x"
  by (auto simp: phase_def intro: stepped_trans)

lemma phase_cons:
  "stepped eng good r r1 \<Longrightarrow> phase eng good view eff v0 v1 r1 r' journal x \<Longrightarrow> v1 = v \<Longrightarrow>
   phase eng good view eff v0 v r r' journal x"
  by (simp add: phase_step)

lemma phase_bind:
  assumes "jbind m f journal r = (r', journal', x)" "m journal r = (r1, journal1, y)"
    and "phase eng good view eff v0 v1 r r1 journal1 y"
    and "\<And>z. y = Inr z \<Longrightarrow> phase eng good view eff v0 v1 r r1 journal1 y \<Longrightarrow> f z journal1 r1 = (r', journal', x) \<Longrightarrow>
      phase eng good view eff v0 v r1 r' journal' x"
  shows "phase eng good view eff v0 v r r' journal' x"
proof (cases y)
  case (Inl f)
  with assms show ?thesis by (auto simp: jbind_def phase_def)
next
  case (Inr z)
  with assms(1,2) have "f z journal1 r1 = (r', journal', x)" by (simp add: jbind_def)
  from assms(4) [OF Inr assms(3) this] assms(3) show ?thesis by (auto simp: phase_def intro: stepped_trans)
qed

lemma phase_ok:
  assumes "phase eng good view eff v0 v r r' journal (Inr x)"
  shows "calm good r'" "list_all undo_wf journal" "fold (undo_view eff) journal (view (rt_engine r')) = v0" "view (rt_engine r') = v"
  using assms by (auto simp: phase_def stepped_calm)

context engine_contract
begin

section \<open>Stopping and starting lists of inbounds\<close>

lemma remove_inbounds_phase:
  assumes "remove_inbounds eng current tags journal r = (r', journal', x)" "calm good r" "list_all undo_wf journal"
    "fold (undo_view eff) journal (view (rt_engine r)) = v0" "config_wf current" "distinct tags"
    "\<forall>tag \<in> set tags. \<exists>old. map_of (nz_inbounds current) tag = Some old \<and> view (rt_engine r) tag = Some (inbound_view eff old)"
  shows "phase eng good view eff v0 (\<lambda>t. if t \<in> set tags then None else view (rt_engine r) t) r r' journal' x"
  using assms
proof (induction tags arbitrary: journal r)
  case Nil
  then show ?case by (auto intro!: phase_here)
next
  case (Cons tag tags)
  from Cons.prems(7) obtain old where old: "map_of (nz_inbounds current) tag = Some old"
    "view (rt_engine r) tag = Some (inbound_view eff old)" by auto
  then have tag: "nb_tag old = tag" "inbound_wf old" "inbound_at current tag = old"
    using config_wfD [OF Cons.prems(5)] by (auto simp: inbound_at_def)
  show ?case
  proof (cases "eg_preserve_inbound_replay eng (rt_engine r) tag")
    case (Inl error)
    with Cons.prems show ?thesis by (auto simp: Let_def stepped_refl intro!: phase_fail)
  next
    case (Inr replay)
    obtain r1 y where stop: "stop_inbound eng old r = (r1, y)" by fastforce
    note step = stop_inbound_step [OF stop Cons.prems(2)]
    show ?thesis
    proof (cases y)
      case (Inl f)
      with Cons.prems(1) Inr stop tag have "r' = r1" "journal' = journal" "x = Inl f" by (auto simp: Let_def)
      with step(1) step(3) [OF Inl] tag old Cons.prems(3,4) show ?thesis by (auto intro!: phase_fail)
    next
      case ok: (Inr u)
      have view1: "view (rt_engine r1) = (view (rt_engine r))(tag := None)" using step(2) [OF ok] tag by simp
      have "phase eng good view eff v0 (\<lambda>t. if t \<in> set tags then None else view (rt_engine r1) t) r1 r' journal' x"
      proof (rule Cons.IH)
        show "remove_inbounds eng current tags (AddInbound old replay # journal) r1 = (r', journal', x)"
          using Cons.prems(1) Inr stop ok tag by (simp add: Let_def)
        show "fold (undo_view eff) (AddInbound old replay # journal) (view (rt_engine r1)) = v0"
          using Cons.prems(4) view1 old tag by (simp add: spec_view_wf fun_upd_idem)
        show "\<forall>tag \<in> set tags. \<exists>old. map_of (nz_inbounds current) tag = Some old \<and> view (rt_engine r1) tag = Some (inbound_view eff old)"
          using Cons.prems(6,7) view1 by auto
      qed (use Cons.prems stepped_calm [OF step(1)] in auto)
      moreover have "(\<lambda>t. if t \<in> set tags then None else view (rt_engine r1) t) =
          (\<lambda>t. if t \<in> set (tag # tags) then None else view (rt_engine r) t)" using view1 by auto
      ultimately show ?thesis by (rule phase_cons [OF step(1)])
    qed
  qed
qed

lemma stop_replaced_phase:
  assumes "stop_replaced eng reps journal r = (r', journal', x)" "calm good r" "list_all undo_wf journal"
    "fold (undo_view eff) journal (view (rt_engine r)) = v0" "distinct (map fst reps)"
    "\<forall>(tag, old, new, replay) \<in> set reps. nb_tag old = tag \<and> inbound_wf old \<and> view (rt_engine r) tag = Some (inbound_view eff old)"
  shows "phase eng good view eff v0 (\<lambda>t. if t \<in> fst ` set reps then None else view (rt_engine r) t) r r' journal' x"
  using assms
proof (induction reps arbitrary: journal r)
  case Nil
  then show ?case by (auto intro!: phase_here)
next
  case (Cons rep reps)
  obtain tag old new replay where rep: "rep = (tag, old, new, replay)" by (cases rep) auto
  with Cons.prems(6) have tag: "nb_tag old = tag" "inbound_wf old" "view (rt_engine r) tag = Some (inbound_view eff old)" by auto
  obtain r1 y where stop: "stop_inbound eng old r = (r1, y)" by fastforce
  note step = stop_inbound_step [OF stop Cons.prems(2)]
  show ?case
  proof (cases y)
    case (Inl f)
    with Cons.prems(1) stop rep have "r' = r1" "journal' = journal" "x = Inl f" by auto
    with step(1) step(3) [OF Inl] tag Cons.prems(3,4) show ?thesis by (auto intro!: phase_fail)
  next
    case ok: (Inr u)
    have view1: "view (rt_engine r1) = (view (rt_engine r))(tag := None)" using step(2) [OF ok] tag by simp
    have "phase eng good view eff v0 (\<lambda>t. if t \<in> fst ` set reps then None else view (rt_engine r1) t) r1 r' journal' x"
    proof (rule Cons.IH)
      show "stop_replaced eng reps (AddInbound old replay # journal) r1 = (r', journal', x)"
        using Cons.prems(1) stop ok rep by simp
      show "fold (undo_view eff) (AddInbound old replay # journal) (view (rt_engine r1)) = v0"
        using Cons.prems(4) view1 tag by (simp add: spec_view_wf fun_upd_idem)
      show "\<forall>(tag, old, new, replay) \<in> set reps. nb_tag old = tag \<and> inbound_wf old \<and> view (rt_engine r1) tag = Some (inbound_view eff old)"
        using Cons.prems(5,6) view1 rep by (force simp: image_iff)
    qed (use Cons.prems stepped_calm [OF step(1)] in auto)
    moreover have "(\<lambda>t. if t \<in> fst ` set reps then None else view (rt_engine r1) t) =
        (\<lambda>t. if t \<in> fst ` set (rep # reps) then None else view (rt_engine r) t)" using view1 rep by auto
    ultimately show ?thesis by (rule phase_cons [OF step(1)])
  qed
qed

text \<open>The view a list of replacements leads to.\<close>

lemma start_replaced_phase:
  assumes "start_replaced eng reps journal r = (r', journal', x)" "calm good r" "list_all undo_wf journal"
    "fold (undo_view eff) journal (view (rt_engine r)) = v0" "distinct (map fst reps)"
    "\<forall>(tag, old, new, replay) \<in> set reps. nb_tag new = tag \<and> inbound_wf new"
  shows "phase eng good view eff v0
    (\<lambda>t. case map_of reps t of Some (old, new, replay) \<Rightarrow> Some (inbound_view eff new) | None \<Rightarrow> view (rt_engine r) t) r r' journal' x"
  using assms
proof (induction reps arbitrary: journal r)
  case Nil
  then show ?case by (auto intro!: phase_here)
next
  case (Cons rep reps)
  obtain tag old new replay where rep: "rep = (tag, old, new, replay)" by (cases rep) auto
  with Cons.prems(6) have tag: "nb_tag new = tag" "inbound_wf new" by auto
  obtain r1 y where add: "on_engine (\<lambda>e. eg_add_inbound_with_replay eng e (nb_spec new) replay) r = (r1, y)" by fastforce
  note step = add_replay_step [OF add Cons.prems(2)]
  show ?case
  proof (cases y)
    case (Inl f)
    with Cons.prems(1) add rep have "r' = r1" "journal' = journal" "isl x" by auto
    with step Inl Cons.prems(3,4) show ?thesis by (auto simp: isl_def intro!: phase_fail)
  next
    case ok: (Inr info)
    have view1: "view (rt_engine r) tag = None" "view (rt_engine r1) = (view (rt_engine r))(tag \<mapsto> inbound_view eff new)"
      using step ok tag by (auto simp: spec_view_wf)
    have "phase eng good view eff v0
        (\<lambda>t. case map_of reps t of Some (old, new, replay) \<Rightarrow> Some (inbound_view eff new) | None \<Rightarrow> view (rt_engine r1) t) r1 r' journal' x"
    proof (rule Cons.IH)
      show "start_replaced eng reps (RemoveInbound new old # journal) r1 = (r', journal', x)"
        using Cons.prems(1) add ok rep by simp
      show "fold (undo_view eff) (RemoveInbound new old # journal) (view (rt_engine r1)) = v0"
        using Cons.prems(4) view1 tag by (simp add: fun_upd_idem)
    qed (use Cons.prems rep step in \<open>auto dest: stepped_calm\<close>)
    moreover have "map_of reps tag = None" using Cons.prems(5) rep by (auto simp: map_of_eq_None_iff)
    then have "(\<lambda>t. case map_of reps t of Some (old, new, replay) \<Rightarrow> Some (inbound_view eff new) | None \<Rightarrow> view (rt_engine r1) t) =
        (\<lambda>t. case map_of (rep # reps) t of Some (old, new, replay) \<Rightarrow> Some (inbound_view eff new) | None \<Rightarrow> view (rt_engine r) t)"
      using view1 rep by (auto simp: fun_eq_iff split: option.splits)
    ultimately show ?thesis by (rule phase_cons [OF conjunct1 [OF step]])
  qed
qed

lemma add_inbounds_phase:
  assumes "add_inbounds eng desired tags journal r = (r', journal', x)" "calm good r" "list_all undo_wf journal"
    "fold (undo_view eff) journal (view (rt_engine r)) = v0" "config_wf desired"
    "\<forall>tag \<in> set tags. map_of (nz_inbounds desired) tag \<noteq> None"
  shows "phase eng good view eff v0 (\<lambda>t. if t \<in> set tags then config_view eff desired t else view (rt_engine r) t) r r' journal' x"
  using assms
proof (induction tags arbitrary: journal r)
  case Nil
  then show ?case by (auto intro!: phase_here)
next
  case (Cons tag tags)
  from Cons.prems(6) obtain new where new: "map_of (nz_inbounds desired) tag = Some new" by auto
  then have tag: "nb_tag new = tag" "inbound_wf new" "inbound_at desired tag = new"
    using config_wfD [OF Cons.prems(5)] by (auto simp: inbound_at_def)
  obtain r1 y where add: "on_engine (\<lambda>e. eg_add_inbound eng e (nb_spec new)) r = (r1, y)" by fastforce
  note step = add_inbound_step [OF add Cons.prems(2)]
  show ?case
  proof (cases y)
    case (Inl f)
    with Cons.prems(1) add tag have "r' = r1" "journal' = journal" "isl x" by (auto simp: Let_def)
    with step Inl Cons.prems(3,4) show ?thesis by (auto simp: isl_def intro!: phase_fail)
  next
    case ok: (Inr info)
    have view1: "view (rt_engine r) tag = None" "view (rt_engine r1) = (view (rt_engine r))(tag \<mapsto> inbound_view eff new)"
      using step ok tag by (auto simp: spec_view_wf)
    have "phase eng good view eff v0 (\<lambda>t. if t \<in> set tags then config_view eff desired t else view (rt_engine r1) t) r1 r' journal' x"
    proof (rule Cons.IH)
      show "add_inbounds eng desired tags (RemoveInbound new (uncommitted_accounting_owner None new) # journal) r1 = (r', journal', x)"
        using Cons.prems(1) add ok tag by (simp add: Let_def)
      show "fold (undo_view eff) (RemoveInbound new (uncommitted_accounting_owner None new) # journal) (view (rt_engine r1)) = v0"
        using Cons.prems(4) view1 tag by (simp add: fun_upd_idem)
    qed (use Cons.prems step in \<open>auto dest: stepped_calm\<close>)
    moreover have "(\<lambda>t. if t \<in> set tags then config_view eff desired t else view (rt_engine r1) t) =
        (\<lambda>t. if t \<in> set (tag # tags) then config_view eff desired t else view (rt_engine r) t)"
      using view1 new by (auto simp: fun_eq_iff)
    ultimately show ?thesis by (rule phase_cons [OF conjunct1 [OF step]])
  qed
qed

section \<open>Full reloads\<close>

lemma stop_generation_phase:
  assumes "stop_generation eng inbounds replays journal r = (r', journal', x)" "calm good r" "list_all undo_wf journal"
    "fold (undo_view eff) journal (view (rt_engine r)) = v0" "distinct (map fst inbounds)"
    "\<forall>(tag, old) \<in> set inbounds. nb_tag old = tag \<and> inbound_wf old \<and> view (rt_engine r) tag = Some (inbound_view eff old)"
  shows "phase eng good view eff v0 (\<lambda>t. if t \<in> fst ` set inbounds then None else view (rt_engine r) t) r r' journal' x"
  using assms
proof (induction inbounds arbitrary: replays journal r)
  case Nil
  then show ?case by (auto intro!: phase_here)
next
  case (Cons entry inbounds)
  obtain tag old where entry: "entry = (tag, old)" by (cases entry)
  with Cons.prems(6) have tag: "nb_tag old = tag" "inbound_wf old" "view (rt_engine r) tag = Some (inbound_view eff old)" by auto
  show ?case
  proof (cases "eg_preserve_inbound_replay eng (rt_engine r) tag")
    case (Inl error)
    with Cons.prems entry show ?thesis by (auto simp: stepped_refl intro!: phase_fail)
  next
    case (Inr replay)
    obtain r1 y where stop: "stop_inbound eng old r = (r1, y)" by fastforce
    note step = stop_inbound_step [OF stop Cons.prems(2)]
    show ?thesis
    proof (cases y)
      case (Inl f)
      with Cons.prems(1) Inr stop entry have "r' = r1" "journal' = journal" "x = Inl f" by auto
      with step(1) step(3) [OF Inl] tag Cons.prems(3,4) show ?thesis by (auto intro!: phase_fail)
    next
      case ok: (Inr u)
      have view1: "view (rt_engine r1) = (view (rt_engine r))(tag := None)" using step(2) [OF ok] tag by simp
      have "phase eng good view eff v0 (\<lambda>t. if t \<in> fst ` set inbounds then None else view (rt_engine r1) t) r1 r' journal' x"
      proof (rule Cons.IH)
        show "stop_generation eng inbounds (replays(tag \<mapsto> replay)) (AddInbound old replay # journal) r1 = (r', journal', x)"
          using Cons.prems(1) Inr stop ok entry by simp
        show "fold (undo_view eff) (AddInbound old replay # journal) (view (rt_engine r1)) = v0"
          using Cons.prems(4) view1 tag by (simp add: spec_view_wf fun_upd_idem)
        show "\<forall>(tag, old) \<in> set inbounds. nb_tag old = tag \<and> inbound_wf old \<and> view (rt_engine r1) tag = Some (inbound_view eff old)"
          using Cons.prems(5,6) view1 entry by (force simp: image_iff)
      qed (use Cons.prems stepped_calm [OF step(1)] in auto)
      moreover have "(\<lambda>t. if t \<in> fst ` set inbounds then None else view (rt_engine r1) t) =
          (\<lambda>t. if t \<in> fst ` set (entry # inbounds) then None else view (rt_engine r) t)" using view1 entry by auto
      ultimately show ?thesis by (rule phase_cons [OF step(1)])
    qed
  qed
qed

lemma start_generation_phase:
  assumes "start_generation eng current replays inbounds journal r = (r', journal', x)" "calm good r" "list_all undo_wf journal"
    "fold (undo_view eff) journal (view (rt_engine r)) = v0" "distinct (map fst inbounds)"
    "\<forall>(tag, new) \<in> set inbounds. nb_tag new = tag \<and> inbound_wf new"
  shows "phase eng good view eff v0
    (\<lambda>t. case map_of inbounds t of Some new \<Rightarrow> Some (inbound_view eff new) | None \<Rightarrow> view (rt_engine r) t) r r' journal' x"
  using assms
proof (induction inbounds arbitrary: journal r)
  case Nil
  then show ?case by (auto intro!: phase_here)
next
  case (Cons entry inbounds)
  obtain tag new where entry: "entry = (tag, new)" by (cases entry)
  with Cons.prems(6) have tag: "nb_tag new = tag" "inbound_wf new" by auto
  let ?add = "\<lambda>e. case replays tag of Some replay \<Rightarrow> eg_add_inbound_with_replay eng e (nb_spec new) replay
    | None \<Rightarrow> eg_add_inbound eng e (nb_spec new)"
  obtain r1 y where add: "on_engine ?add r = (r1, y)" by fastforce
  have step: "stepped eng good r r1 \<and> (case y of
      Inr _ \<Rightarrow> view (rt_engine r) tag = None \<and> view (rt_engine r1) = (view (rt_engine r))(tag \<mapsto> inbound_view eff new)
    | Inl _ \<Rightarrow> view (rt_engine r1) = view (rt_engine r))"
    using add add_inbound_step [of "nb_spec new" r r1 y] add_replay_step [of "nb_spec new" _ r r1 y] Cons.prems(2) tag
    by (cases "replays tag"; cases y) (auto simp: spec_view_wf)
  show ?case
  proof (cases y)
    case (Inl f)
    with Cons.prems(1) add entry have "r' = r1" "journal' = journal" "isl x" by auto
    with step Inl Cons.prems(3,4) show ?thesis by (auto simp: isl_def intro!: phase_fail)
  next
    case ok: (Inr info)
    let ?undo = "RemoveInbound new (uncommitted_accounting_owner (map_of (nz_inbounds current) tag) new)"
    have "phase eng good view eff v0
        (\<lambda>t. case map_of inbounds t of Some new \<Rightarrow> Some (inbound_view eff new) | None \<Rightarrow> view (rt_engine r1) t) r1 r' journal' x"
    proof (rule Cons.IH)
      show "start_generation eng current replays inbounds (?undo # journal) r1 = (r', journal', x)"
        using Cons.prems(1) add ok entry by simp
      show "fold (undo_view eff) (?undo # journal) (view (rt_engine r1)) = v0"
        using Cons.prems(4) step ok tag by (simp add: fun_upd_idem)
    qed (use Cons.prems entry step in \<open>auto dest: stepped_calm\<close>)
    moreover have "map_of inbounds tag = None" using Cons.prems(5) entry by (auto simp: map_of_eq_None_iff)
    then have "(\<lambda>t. case map_of inbounds t of Some new \<Rightarrow> Some (inbound_view eff new) | None \<Rightarrow> view (rt_engine r1) t) =
        (\<lambda>t. case map_of (entry # inbounds) t of Some new \<Rightarrow> Some (inbound_view eff new) | None \<Rightarrow> view (rt_engine r) t)"
      using step ok entry by (auto simp: fun_eq_iff split: option.splits)
    ultimately show ?thesis by (rule phase_cons [OF conjunct1 [OF step]])
  qed
qed

end

end
