(* ===== verification/Runtime_Execute.thy ===== *)
theory Runtime_Execute
  imports Runtime_Forward
begin

text \<open>
  The phases that reconcile users and handler settings, and the execution of a whole transaction: from the
  view of the current configuration it leads to the view of the desired one, or its journal leads back.
\<close>

section \<open>Users\<close>

text \<open>The view after some users of an inbound were upserted.\<close>

definition upserted :: "(json \<Rightarrow> UserSpec \<Rightarrow> 'u) \<Rightarrow> string \<Rightarrow> (string \<rightharpoonup> UserSpec) \<Rightarrow> string set \<Rightarrow> 'u live_view \<Rightarrow> 'u live_view" where
  "upserted eff tag users S v =
     (case v tag of
        Some l \<Rightarrow> v(tag \<mapsto> l\<lparr> lv_users := map_option (\<lambda>m uid. if uid \<in> S then map_option (eff (lv_config l)) (users uid) else m uid)
          (lv_users l) \<rparr>)
      | None \<Rightarrow> v)"

lemma upserted_empty [simp]: "upserted eff tag users {} v = v"
proof (cases "v tag")
  case (Some l)
  have "l\<lparr> lv_users := lv_users l \<rparr> = l" by (cases l) simp
  with Some show ?thesis by (simp add: upserted_def option.map_ident fun_upd_idem)
qed (simp add: upserted_def)

lemma upserted_insert:
  "users uid = Some user \<Longrightarrow> upserted eff tag users S (with_user eff tag uid user v) = upserted eff tag users (insert uid S) v"
  by (cases "v tag") (auto simp: upserted_def with_user_def option.map_comp comp_def fun_eq_iff map_option_case split: option.splits)

definition lacks_user :: "string \<Rightarrow> 'u live_view \<Rightarrow> string \<Rightarrow> bool" where
  "lacks_user tag v uid \<longleftrightarrow> (\<exists>l m. v tag = Some l \<and> lv_users l = Some m \<and> m uid = None)"

lemma without_with: "lacks_user tag v uid \<Longrightarrow> without_user tag uid (with_user eff tag uid user v) = v"
  by (auto simp: lacks_user_def without_user_def with_user_def fun_eq_iff fun_upd_idem)

lemma with_with: "holds_user eff tag v uid old \<Longrightarrow> with_user eff tag uid old (with_user eff tag uid user v) = v"
  by (auto simp: holds_user_def with_user_def fun_eq_iff fun_upd_idem)

lemma users_frame [simp]:
  "uid' \<noteq> uid \<Longrightarrow> holds_user eff tag (with_user eff tag uid user v) uid' u \<longleftrightarrow> holds_user eff tag v uid' u"
  "uid' \<noteq> uid \<Longrightarrow> lacks_user tag (with_user eff tag uid user v) uid' \<longleftrightarrow> lacks_user tag v uid'"
  "uid' \<noteq> uid \<Longrightarrow> holds_user eff tag (without_user tag uid v) uid' u \<longleftrightarrow> holds_user eff tag v uid' u"
  by (cases "v tag"; auto simp: holds_user_def lacks_user_def with_user_def without_user_def split: option.splits)+

definition delta_fits :: "(json \<Rightarrow> UserSpec \<Rightarrow> 'u) \<Rightarrow> NormalizedInbound \<Rightarrow> NormalizedInbound \<Rightarrow> 'u live_view \<Rightarrow> UserDelta \<Rightarrow> bool" where
  "delta_fits eff old new v change \<longleftrightarrow>
     (\<exists>user. map_of (nb_users new) (ud_id change) = Some user \<and> resolved_id user = Some (ud_id change)) \<and>
     (if ud_added change then lacks_user (nb_tag old) v (ud_id change)
      else \<exists>user. map_of (nb_users old) (ud_id change) = Some user \<and> resolved_id user = Some (ud_id change) \<and>
        holds_user eff (nb_tag old) v (ud_id change) user)"

lemma delta_fits_frame:
  "ud_id change \<noteq> uid \<Longrightarrow> delta_fits eff old new (with_user eff (nb_tag old) uid user v) change \<longleftrightarrow> delta_fits eff old new v change"
  by (simp add: delta_fits_def)

context engine_contract
begin

lemma remove_users_phase:
  assumes "remove_users eng tag old uids journal r = (r', journal', x)" "calm good r" "list_all undo_wf journal"
    "fold (undo_view eff) journal (view (rt_engine r)) = v0" "nb_tag old = tag" "distinct uids"
    "\<forall>uid \<in> set uids. \<exists>user. map_of (nb_users old) uid = Some user \<and> resolved_id user = Some uid \<and>
      holds_user eff tag (view (rt_engine r)) uid user"
  shows "phase eng good view eff v0 (shed tag (set uids) (view (rt_engine r))) r r' journal' x"
  using assms
proof (induction uids arbitrary: journal r)
  case Nil
  then show ?case by (auto intro!: phase_here)
next
  case (Cons uid uids)
  from Cons.prems(7) obtain user where user: "map_of (nb_users old) uid = Some user" "resolved_id user = Some uid"
    "holds_user eff tag (view (rt_engine r)) uid user" by auto
  obtain r1 y where ret: "retire_user eng tag old uid r = (r1, y)" by fastforce
  note step = retire_step [OF ret Cons.prems(2)]
  show ?case
  proof (cases y)
    case Retired
    with step have view1: "view (rt_engine r1) = without_user tag uid (view (rt_engine r))" by simp
    have "phase eng good view eff v0 (shed tag (set uids) (view (rt_engine r1))) r1 r' journal' x"
    proof (rule Cons.IH)
      show "remove_users eng tag old uids (AddUser old user # journal) r1 = (r', journal', x)"
        using Cons.prems(1) ret Retired user(1) by simp
      show "fold (undo_view eff) (AddUser old user # journal) (view (rt_engine r1)) = v0"
        using Cons.prems(4,5) view1 user by (simp add: with_without)
      show "\<forall>uid \<in> set uids. \<exists>user. map_of (nb_users old) uid = Some user \<and> resolved_id user = Some uid \<and>
          holds_user eff tag (view (rt_engine r1)) uid user"
        using Cons.prems(6,7) view1 by auto (metis users_frame(3))
    qed (use Cons.prems step in \<open>auto dest: stepped_calm\<close>)
    moreover have "shed tag (set uids) (view (rt_engine r1)) = shed tag (set (uid # uids)) (view (rt_engine r))"
      unfolding view1 by (cases "view (rt_engine r) tag")
        (auto simp: shed_def without_user_def restrict_map_def fun_eq_iff option.map_comp comp_def map_option_case split: option.splits)
    ultimately show ?thesis by (rule phase_cons [OF conjunct1 [OF step]])
  next
    case (NotReserved e)
    with Cons.prems(1) ret have "r' = r1" "journal' = journal" "isl x" by auto
    with step NotReserved Cons.prems(3,4) show ?thesis by (auto simp: isl_def intro!: phase_fail)
  next
    case (NotRemoved f)
    with Cons.prems(1) ret have "r' = r1" "journal' = journal" "\<exists>g. x = Inl g \<and> sf_restored g = (\<not> urf_changed f)" by auto
    with step NotRemoved Cons.prems(3,4) show ?thesis by (auto intro!: phase_fail)
  qed
qed

lemma upsert_users_phase:
  assumes "upsert_users eng tag old new changes journal r = (r', journal', x)" "calm good r" "list_all undo_wf journal"
    "fold (undo_view eff) journal (view (rt_engine r)) = v0" "nb_tag old = tag" "nb_tag new = tag" "distinct (map ud_id changes)"
    "\<forall>change \<in> set changes. delta_fits eff old new (view (rt_engine r)) change"
  shows "phase eng good view eff v0 (upserted eff tag (map_of (nb_users new)) (ud_id ` set changes) (view (rt_engine r))) r r' journal' x"
  using assms
proof (induction changes arbitrary: journal r)
  case Nil
  then show ?case by (auto intro!: phase_here)
next
  case (Cons change changes)
  let ?uid = "ud_id change"
  from Cons.prems(8) have fits: "delta_fits eff old new (view (rt_engine r)) change" by simp
  then obtain user where user: "map_of (nb_users new) ?uid = Some user" "resolved_id user = Some ?uid"
    by (auto simp: delta_fits_def)
  obtain r1 y where add: "on_engine (\<lambda>e. eg_add_user eng e tag user) r = (r1, y)" by fastforce
  note step = add_user_step [OF add Cons.prems(2)]
  show ?case
  proof (cases y)
    case (Inl error)
    with Cons.prems(1) add user have "r' = r1" "journal' = journal" "isl x" by (auto simp: Let_def)
    with step Inl Cons.prems(3,4) show ?thesis by (auto simp: isl_def intro!: phase_fail)
  next
    case (Inr info)
    with step user(2) have view1: "view (rt_engine r1) = with_user eff tag ?uid user (view (rt_engine r))" by auto
    define undo :: "'l Undo" where "undo = (if ud_added change then RemoveUser new old ?uid
      else RestoreUser old (the (map_of (nb_users old) ?uid)) (ud_credential_changed change))"
    have unwound: "undo_view eff undo (view (rt_engine r1)) = view (rt_engine r)" "undo_wf undo"
      using fits Cons.prems(5,6) unfolding view1 undo_def delta_fits_def by (auto simp: without_with with_with split: if_splits)
    obtain r2 z where kick: "(if ud_credential_changed change then on_engine (\<lambda>e. eg_kick_user eng e tag ?uid) r1 else (r1, Inr 0)) = (r2, z)"
      by fastforce
    have step2: "stepped eng good r1 r2 \<and> view (rt_engine r2) = view (rt_engine r1)"
      using kick kick_step [of tag ?uid r1 r2 z] step by (auto simp: stepped_refl stepped_calm split: if_splits)
    then have far: "stepped eng good r r2" using step by (blast intro: stepped_trans)
    show ?thesis
    proof (cases z)
      case failed: (Inl e)
      with Cons.prems(1) add user(1) Inr kick have "r' = r2" "journal' = undo # journal" "isl x"
        by (auto simp: Let_def undo_def split: if_splits)
      with far step2 unwound Cons.prems(3,4) show ?thesis by (auto simp: isl_def intro!: phase_fail)
    next
      case (Inr n)
      have "phase eng good view eff v0 (upserted eff tag (map_of (nb_users new)) (ud_id ` set changes) (view (rt_engine r2))) r2 r' journal' x"
      proof (rule Cons.IH)
        show "upsert_users eng tag old new changes (undo # journal) r2 = (r', journal', x)"
          using Cons.prems(1) add user(1) \<open>y = Inr info\<close> kick Inr by (auto simp: Let_def undo_def split: if_splits)
        show "fold (undo_view eff) (undo # journal) (view (rt_engine r2)) = v0" using Cons.prems(4) step2 unwound by simp
        show "list_all undo_wf (undo # journal)" using Cons.prems(3) unwound by simp
        show "\<forall>change \<in> set changes. delta_fits eff old new (view (rt_engine r2)) change"
        proof
          fix c assume c: "c \<in> set changes"
          with Cons.prems(7) have "ud_id c \<noteq> ?uid" by (auto simp: image_iff)
          with delta_fits_frame [of c ?uid eff old new user "view (rt_engine r)"] Cons.prems(5,8) c
          show "delta_fits eff old new (view (rt_engine r2)) c" by (simp add: step2 view1)
        qed
      qed (use Cons.prems step step2 in \<open>auto dest: stepped_calm\<close>)
      moreover have "upserted eff tag (map_of (nb_users new)) (ud_id ` set changes) (view (rt_engine r2)) =
          upserted eff tag (map_of (nb_users new)) (ud_id ` set (change # changes)) (view (rt_engine r))"
        using step2 view1 user(1) by (simp add: upserted_insert)
      ultimately show ?thesis by (rule phase_cons [OF far])
    qed
  qed
qed

end

text \<open>An inbound whose handler settings are the new ones already and whose users are still the old ones.\<close>

definition settled :: "(json \<Rightarrow> UserSpec \<Rightarrow> 'u) \<Rightarrow> NormalizedInbound \<Rightarrow> NormalizedInbound \<Rightarrow> 'u live_inbound option \<Rightarrow> bool" where
  "settled eff old new l \<longleftrightarrow>
     l = Some ((inbound_view eff old)\<lparr> lv_config := is_config (nb_spec new) \<rparr>) \<and> nb_dynamic_users old = nb_dynamic_users new \<and>
     (nb_dynamic_users old \<longrightarrow> eff (is_config (nb_spec new)) = eff (is_config (nb_spec old)))"

lemma classic_no_users: "inbound_wf inbound \<Longrightarrow> \<not> nb_dynamic_users inbound \<Longrightarrow> nb_users inbound = []"
  by (auto simp: inbound_wf_def split: option.splits)

lemma delta_users:
  assumes "inbound_wf old" "inbound_wf new"
  shows "set (dl_removed_users (inbound_delta b tag old new)) = dom (map_of (nb_users old)) - dom (map_of (nb_users new))"
    "distinct (dl_removed_users (inbound_delta b tag old new))"
    "ud_id ` set (dl_upsert_users (inbound_delta b tag old new)) =
       {uid. map_of (nb_users new) uid \<noteq> None \<and> map_of (nb_users old) uid \<noteq> map_of (nb_users new) uid}"
    "distinct (map ud_id (dl_upsert_users (inbound_delta b tag old new)))"
    "change \<in> set (dl_upsert_users (inbound_delta b tag old new)) \<Longrightarrow> ud_added change \<longleftrightarrow> map_of (nb_users old) (ud_id change) = None"
proof -
  have wf: "bt_wf (nb_users old)" "bt_wf (nb_users new)" using assms by (auto simp: inbound_wf_def)
  show "set (dl_removed_users (inbound_delta b tag old new)) = dom (map_of (nb_users old)) - dom (map_of (nb_users new))"
    unfolding inbound_delta_def InboundDelta.simps missing_keys ..
  show "distinct (dl_removed_users (inbound_delta b tag old new))"
    using wf by (simp add: inbound_delta_def bt_wf_distinct)
  have delta: "user_delta (nb_users old) entry = Some change \<Longrightarrow> ud_id change = fst entry" for entry change
    by (auto simp: user_delta_def split: option.splits if_splits)
  show "distinct (map ud_id (dl_upsert_users (inbound_delta b tag old new)))"
    unfolding inbound_delta_def by simp (rule map_filter_keys [of _ ud_id fst], use delta wf bt_wf_distinct in auto)
  show "ud_added change \<longleftrightarrow> map_of (nb_users old) (ud_id change) = None"
    if change: "change \<in> set (dl_upsert_users (inbound_delta b tag old new))"
  proof -
    from change obtain entry where "user_delta (nb_users old) entry = Some change"
      by (auto simp: inbound_delta_def set_map_filter)
    then show ?thesis by (cases "map_of (nb_users old) (fst entry)") (auto simp: user_delta_def split: if_splits)
  qed
  have "(\<exists>user change. (uid, user) \<in> set (nb_users new) \<and> user_delta (nb_users old) (uid, user) = Some change) \<longleftrightarrow>
      map_of (nb_users new) uid \<noteq> None \<and> map_of (nb_users old) uid \<noteq> map_of (nb_users new) uid" for uid
    by (auto simp: bt_wf_entry [OF wf(2)] user_delta_def same_user_eq split: option.splits)
  moreover have "uid \<in> ud_id ` set (dl_upsert_users (inbound_delta b tag old new)) \<longleftrightarrow>
      (\<exists>user change. (uid, user) \<in> set (nb_users new) \<and> user_delta (nb_users old) (uid, user) = Some change)" for uid
    by (auto simp: inbound_delta_def set_map_filter image_iff delta)
  ultimately show "ud_id ` set (dl_upsert_users (inbound_delta b tag old new)) =
       {uid. map_of (nb_users new) uid \<noteq> None \<and> map_of (nb_users old) uid \<noteq> map_of (nb_users new) uid}" by blast
qed

lemma settled_users:
  assumes "settled eff old new live" "nb_dynamic_users old"
  shows "\<exists>l. live = Some l \<and> lv_config l = is_config (nb_spec new) \<and>
    lv_users l = Some (\<lambda>uid. map_option (eff (is_config (nb_spec new))) (map_of (nb_users old) uid))"
  using assms by (simp add: settled_def inbound_view_def)

lemma reconciled_view:
  assumes "settled eff old new (v tag)" "inbound_wf old" "inbound_wf new"
  shows "upserted eff tag (map_of (nb_users new)) (ud_id ` set (dl_upsert_users (inbound_delta b tag old new)))
      (shed tag (set (dl_removed_users (inbound_delta b tag old new))) v) = v(tag \<mapsto> inbound_view eff new)"
proof (cases "nb_dynamic_users old")
  case False
  with assms classic_no_users have "nb_users old = []" "nb_users new = []" "\<not> nb_dynamic_users new"
    by (auto simp: settled_def)
  with False assms(1) show ?thesis
    by (simp add: settled_def upserted_def shed_def inbound_view_def fun_upd_idem fun_eq_iff)
next
  case True
  with settled_users [OF assms(1)] obtain l where l: "v tag = Some l" "lv_config l = is_config (nb_spec new)"
    "lv_users l = Some (\<lambda>uid. map_option (eff (is_config (nb_spec new))) (map_of (nb_users old) uid))" by blast
  have dyn: "nb_dynamic_users new" using True assms(1) by (simp add: settled_def)
  have "(\<lambda>uid. if uid \<in> ud_id ` set (dl_upsert_users (inbound_delta b tag old new))
        then map_option (eff (is_config (nb_spec new))) (map_of (nb_users new) uid)
        else ((\<lambda>uid. map_option (eff (is_config (nb_spec new))) (map_of (nb_users old) uid)) |`
          (- set (dl_removed_users (inbound_delta b tag old new)))) uid) =
      (\<lambda>uid. map_option (eff (is_config (nb_spec new))) (map_of (nb_users new) uid))"
    unfolding delta_users(1,3) [OF assms(2,3)] by (auto simp: fun_eq_iff restrict_map_def domIff)
  with l dyn show ?thesis
    by (cases l) (simp add: upserted_def shed_def inbound_view_def cong: if_cong)
qed

lemma removed_held:
  assumes "settled eff old new (v tag)" "inbound_wf old" "uid \<in> set (dl_removed_users (inbound_delta b tag old new))" "inbound_wf new"
  shows "\<exists>user. map_of (nb_users old) uid = Some user \<and> resolved_id user = Some uid \<and> holds_user eff tag v uid user"
proof -
  from assms obtain user where user: "map_of (nb_users old) uid = Some user" by (auto simp: delta_users)
  then have "nb_dynamic_users old" using classic_no_users [OF assms(2)] by fastforce
  with settled_users [OF assms(1)] user assms(2) show ?thesis by (auto simp: holds_user_def inbound_wf_def)
qed

lemma upsert_fits:
  assumes "settled eff old new (v tag)" "inbound_wf old" "inbound_wf new" "nb_tag old = tag"
    and "change \<in> set (dl_upsert_users (inbound_delta b tag old new))"
  shows "delta_fits eff old new (shed tag (set (dl_removed_users (inbound_delta b tag old new))) v) change"
proof -
  let ?uid = "ud_id change"
  have "?uid \<in> ud_id ` set (dl_upsert_users (inbound_delta b tag old new))" using assms(5) by blast
  then obtain user where user: "map_of (nb_users new) ?uid = Some user" "map_of (nb_users old) ?uid \<noteq> Some user"
    unfolding delta_users(3) [OF assms(2,3)] by auto
  then have "nb_dynamic_users new" using classic_no_users [OF assms(3)] by fastforce
  then have dyn: "nb_dynamic_users old" using assms(1) by (simp add: settled_def)
  note v = settled_users [OF assms(1) dyn]
  have added: "ud_added change \<longleftrightarrow> map_of (nb_users old) ?uid = None" by (rule delta_users(5) [OF assms(2,3,5)])
  have kept: "?uid \<notin> set (dl_removed_users (inbound_delta b tag old new))"
    using user(1) unfolding delta_users(1) [OF assms(2,3)] by auto
  have "lacks_user tag (shed tag (set (dl_removed_users (inbound_delta b tag old new))) v) ?uid" if "ud_added change"
    using that added v kept by (auto simp: lacks_user_def shed_def restrict_map_def)
  moreover have "holds_user eff tag (shed tag (set (dl_removed_users (inbound_delta b tag old new))) v) ?uid u"
    if "map_of (nb_users old) ?uid = Some u" for u
    using that v kept by (auto simp: holds_user_def shed_def restrict_map_def)
  ultimately show ?thesis
    using user(1) added assms(2-4) unfolding delta_fits_def by (auto simp: inbound_wf_def)
qed

context engine_contract
begin

lemma reconcile_users_phase:
  assumes "reconcile_users eng current desired replaced deltas journal r = (r', journal', x)" "calm good r" "list_all undo_wf journal"
    "fold (undo_view eff) journal (view (rt_engine r)) = v0" "config_wf current" "config_wf desired" "distinct (map dl_tag deltas)"
    "\<forall>d \<in> set deltas. \<exists>old new. map_of (nz_inbounds current) (dl_tag d) = Some old \<and> map_of (nz_inbounds desired) (dl_tag d) = Some new \<and>
      d = inbound_delta b (dl_tag d) old new \<and> (dl_tag d \<notin> set replaced \<longrightarrow> settled eff old new (view (rt_engine r) (dl_tag d)))"
  shows "phase eng good view eff v0
    (\<lambda>t. if t \<in> dl_tag ` set deltas \<and> t \<notin> set replaced then config_view eff desired t else view (rt_engine r) t) r r' journal' x"
  using assms
proof (induction deltas arbitrary: journal r)
  case Nil
  then show ?case by (auto intro!: phase_here)
next
  case (Cons delta deltas)
  let ?tag = "dl_tag delta"
  from Cons.prems(8) obtain old new where ends: "map_of (nz_inbounds current) ?tag = Some old" "map_of (nz_inbounds desired) ?tag = Some new"
    "delta = inbound_delta b ?tag old new" "?tag \<notin> set replaced \<longrightarrow> settled eff old new (view (rt_engine r) ?tag)"
    by (metis list.set_intros(1))
  have wf: "inbound_wf old" "inbound_wf new" "nb_tag old = ?tag" "nb_tag new = ?tag"
    "inbound_at current ?tag = old" "inbound_at desired ?tag = new"
    using config_wfD [OF Cons.prems(5)] config_wfD [OF Cons.prems(6)] ends by (auto simp: inbound_at_def)
  have fresh: "?tag \<notin> dl_tag ` set deltas" using Cons.prems(7) by auto
  show ?case
  proof (cases "?tag \<in> set replaced")
    case True
    have "phase eng good view eff v0
        (\<lambda>t. if t \<in> dl_tag ` set deltas \<and> t \<notin> set replaced then config_view eff desired t else view (rt_engine r) t) r r' journal' x"
      by (rule Cons.IH) (use Cons.prems True in \<open>auto simp: Let_def\<close>)
    moreover have "(\<lambda>t. if t \<in> dl_tag ` set deltas \<and> t \<notin> set replaced then config_view eff desired t else view (rt_engine r) t) =
        (\<lambda>t. if t \<in> dl_tag ` set (delta # deltas) \<and> t \<notin> set replaced then config_view eff desired t else view (rt_engine r) t)"
      using True by auto
    ultimately show ?thesis by (rule phase_cons [OF stepped_refl [OF Cons.prems(2)]])
  next
    case False
    define removed where "removed = dl_removed_users delta"
    define changes where "changes = dl_upsert_users delta"
    have settled: "settled eff old new (view (rt_engine r) ?tag)" using False ends(4) by simp
    have run: "jbind (remove_users eng ?tag old removed) (\<lambda>_. jbind (upsert_users eng ?tag old new changes) (\<lambda>_.
        reconcile_users eng current desired replaced deltas)) journal r = (r', journal', x)"
      using Cons.prems(1) False wf by (simp add: Let_def removed_def changes_def)
    obtain r1 journal1 y1 where rem: "remove_users eng ?tag old removed journal r = (r1, journal1, y1)" by (metis prod_cases3)
    have first: "phase eng good view eff v0 (shed ?tag (set removed) (view (rt_engine r))) r r1 journal1 y1"
    proof (rule remove_users_phase [OF rem Cons.prems(2-4) wf(3)])
      show "distinct removed" unfolding removed_def using delta_users(2) [OF wf(1,2)] ends(3) by metis
      show "\<forall>uid \<in> set removed. \<exists>user. map_of (nb_users old) uid = Some user \<and> resolved_id user = Some uid \<and>
          holds_user eff ?tag (view (rt_engine r)) uid user"
        unfolding removed_def using removed_held [where v = "view (rt_engine r)" and tag = ?tag, OF settled wf(1) _ wf(2)] ends(3) by metis
    qed
    show ?thesis
    proof (rule phase_bind [OF run rem first])
      fix z1 assume ok1: "y1 = Inr z1" "phase eng good view eff v0 (shed ?tag (set removed) (view (rt_engine r))) r r1 journal1 y1"
        and run1: "jbind (upsert_users eng ?tag old new changes) (\<lambda>_. reconcile_users eng current desired replaced deltas) journal1 r1 = (r', journal', x)"
      note at1 = phase_ok [OF ok1(2) [unfolded ok1(1)]]
      obtain r2 journal2 y2 where ups: "upsert_users eng ?tag old new changes journal1 r1 = (r2, journal2, y2)" by (metis prod_cases3)
      have second: "phase eng good view eff v0 (upserted eff ?tag (map_of (nb_users new)) (ud_id ` set changes) (view (rt_engine r1))) r1 r2 journal2 y2"
      proof (rule upsert_users_phase [OF ups at1(1-3) wf(3,4)])
        show "distinct (map ud_id changes)" unfolding changes_def using delta_users(4) [OF wf(1,2)] ends(3) by metis
        show "\<forall>change \<in> set changes. delta_fits eff old new (view (rt_engine r1)) change"
          unfolding at1(4) removed_def changes_def using upsert_fits [where v = "view (rt_engine r)" and tag = ?tag, OF settled wf(1-3)] ends(3) by metis
      qed
      have "upserted eff ?tag (map_of (nb_users new)) (ud_id ` set changes) (view (rt_engine r1)) =
          (view (rt_engine r))(?tag \<mapsto> inbound_view eff new)"
        unfolding at1(4) removed_def changes_def using reconciled_view [where v = "view (rt_engine r)" and tag = ?tag, OF settled wf(1,2)] ends(3) by metis
      with second have second': "phase eng good view eff v0 ((view (rt_engine r))(?tag \<mapsto> inbound_view eff new)) r1 r2 journal2 y2" by simp
      show "phase eng good view eff v0 (\<lambda>t. if t \<in> dl_tag ` set (delta # deltas) \<and> t \<notin> set replaced
          then config_view eff desired t else view (rt_engine r) t) r1 r' journal' x"
      proof (rule phase_bind [OF run1 ups second'])
        fix z2 assume ok2: "y2 = Inr z2" "phase eng good view eff v0 ((view (rt_engine r))(?tag \<mapsto> inbound_view eff new)) r1 r2 journal2 y2"
          and run2: "reconcile_users eng current desired replaced deltas journal2 r2 = (r', journal', x)"
        note at2 = phase_ok [OF ok2(2) [unfolded ok2(1)]]
        have "phase eng good view eff v0
            (\<lambda>t. if t \<in> dl_tag ` set deltas \<and> t \<notin> set replaced then config_view eff desired t else view (rt_engine r2) t) r2 r' journal' x"
        proof (rule Cons.IH [OF run2 at2(1-3) Cons.prems(5,6)])
          show "distinct (map dl_tag deltas)" using Cons.prems(7) by simp
          show "\<forall>d \<in> set deltas. \<exists>old new. map_of (nz_inbounds current) (dl_tag d) = Some old \<and>
              map_of (nz_inbounds desired) (dl_tag d) = Some new \<and> d = inbound_delta b (dl_tag d) old new \<and>
              (dl_tag d \<notin> set replaced \<longrightarrow> settled eff old new (view (rt_engine r2) (dl_tag d)))"
          proof
            fix d assume d: "d \<in> set deltas"
            then have "dl_tag d \<noteq> ?tag" using fresh by (metis image_eqI)
            then have "view (rt_engine r2) (dl_tag d) = view (rt_engine r) (dl_tag d)" unfolding at2(4) by simp
            with Cons.prems(8) d show "\<exists>old new. map_of (nz_inbounds current) (dl_tag d) = Some old \<and>
              map_of (nz_inbounds desired) (dl_tag d) = Some new \<and> d = inbound_delta b (dl_tag d) old new \<and>
              (dl_tag d \<notin> set replaced \<longrightarrow> settled eff old new (view (rt_engine r2) (dl_tag d)))" by (metis list.set_intros(2))
          qed
        qed
        moreover have "(\<lambda>t. if t \<in> dl_tag ` set deltas \<and> t \<notin> set replaced then config_view eff desired t else view (rt_engine r2) t) =
            (\<lambda>t. if t \<in> dl_tag ` set (delta # deltas) \<and> t \<notin> set replaced then config_view eff desired t else view (rt_engine r) t)"
          unfolding at2(4) using False ends(2) by (auto simp: fun_eq_iff)
        ultimately show "phase eng good view eff v0 (\<lambda>t. if t \<in> dl_tag ` set (delta # deltas) \<and> t \<notin> set replaced
            then config_view eff desired t else view (rt_engine r) t) r2 r' journal' x" by simp
      qed
    qed
  qed
qed

end

end
