(* ===== verification/Runtime_Commit.thy ===== *)
theory Runtime_Commit
  imports Runtime_Execute
begin

text \<open>
  The classification of changed inbounds, the metadata flush, and the execution of a whole transaction: from
  the view of the current configuration it leads to the view of the desired one, or its journal leads back.
\<close>

section \<open>Classification\<close>

text \<open>What a classification of \<open>deltas\<close> that returned the replacements \<open>extra\<close> did to the view: the replaced inbounds
  are untouched, the others have the new handler settings.\<close>

definition classified :: "(json \<Rightarrow> UserSpec \<Rightarrow> 'u) \<Rightarrow> NormalizedConfig \<Rightarrow> NormalizedConfig \<Rightarrow> string set \<Rightarrow> 'l replacement list \<Rightarrow>
    'u live_view \<Rightarrow> 'u live_view \<Rightarrow> bool" where
  "classified eff current desired tags extra v v' \<longleftrightarrow>
     distinct (map fst extra) \<and> fst ` set extra \<subseteq> tags \<and>
     (\<forall>(tag, old, new, replay) \<in> set extra. old = inbound_at current tag \<and> new = inbound_at desired tag) \<and>
     (\<forall>t. t \<notin> tags \<or> t \<in> fst ` set extra \<longrightarrow> v' t = v t) \<and>
     (\<forall>t \<in> tags - fst ` set extra. settled eff (inbound_at current t) (inbound_at desired t) (v' t))"

lemma classifiedD:
  assumes "classified eff current desired tags extra v v'" "(tag, old, new, replay) \<in> set extra"
  shows "tag \<in> tags" "old = inbound_at current tag" "new = inbound_at desired tag" "v' tag = v tag"
proof -
  have tag: "tag \<in> fst ` set extra" using assms(2) by force
  show "tag \<in> tags" using tag assms(1) by (auto simp: classified_def)
  have "\<forall>(tag, old, new, replay) \<in> set extra. old = inbound_at current tag \<and> new = inbound_at desired tag"
    using assms(1) unfolding classified_def by (elim conjE)
  from bspec [OF this assms(2)] show "old = inbound_at current tag" "new = inbound_at desired tag" by simp_all
  show "v' tag = v tag" using tag assms(1) by (simp add: classified_def)
qed

lemma classified_Nil: "classified eff current desired {} [] v v"
  by (simp add: classified_def)

lemma classified_replaced:
  assumes "classified eff current desired tags extra v v'" "tag \<notin> tags"
  shows "classified eff current desired (insert tag tags) ((tag, inbound_at current tag, inbound_at desired tag, replay) # extra) v v'"
  using assms by (auto simp: classified_def)

lemma classified_settled:
  assumes "classified eff current desired tags extra v1 v'" "tag \<notin> tags" "\<forall>t. t \<noteq> tag \<longrightarrow> v1 t = v t"
    "settled eff (inbound_at current tag) (inbound_at desired tag) (v1 tag)"
  shows "classified eff current desired (insert tag tags) extra v v'"
  using assms by (auto simp: classified_def)

lemma settled_same:
  "\<not> dl_config_changed (inbound_delta b tag old new) \<Longrightarrow> \<not> dl_user_mode_changed (inbound_delta b tag old new) \<Longrightarrow>
   settled eff old new (Some (inbound_view eff old))"
  by (simp add: settled_def inbound_delta_def inbound_view_def)

lemma settled_update:
  assumes "\<not> dl_user_mode_changed (inbound_delta b tag old new)"
    "lv_users (inbound_view eff old) \<noteq> None \<longrightarrow> eff (is_config (nb_spec new)) = eff (lv_config (inbound_view eff old))"
  shows "settled eff old new (Some ((inbound_view eff old)\<lparr> lv_config := is_config (nb_spec new) \<rparr>))"
  using assms by (simp add: settled_def inbound_delta_def inbound_view_def)

context engine_contract
begin

lemma classify_phase:
  assumes "classify eng current desired deltas reps journal r = (r', journal', x)" "calm good r" "list_all undo_wf journal"
    "fold (undo_view eff) journal (view (rt_engine r)) = v0" "config_wf current" "config_wf desired" "distinct (map dl_tag deltas)"
    "\<forall>d \<in> set deltas. \<exists>old new. map_of (nz_inbounds current) (dl_tag d) = Some old \<and> map_of (nz_inbounds desired) (dl_tag d) = Some new \<and>
      d = inbound_delta b (dl_tag d) old new \<and> view (rt_engine r) (dl_tag d) = Some (inbound_view eff old)"
  shows "phase eng good view eff v0 (view (rt_engine r')) r r' journal' x \<and>
    (\<forall>reps'. x = Inr reps' \<longrightarrow> (\<exists>extra. reps' = reps @ extra \<and>
      classified eff current desired (dl_tag ` set deltas) extra (view (rt_engine r)) (view (rt_engine r'))))"
  using assms
proof (induction deltas arbitrary: reps journal r)
  case Nil
  then show ?case by (auto intro!: phase_here classified_Nil)
next
  case (Cons delta deltas)
  let ?tag = "dl_tag delta"
  from Cons.prems(8) obtain old new where ends: "map_of (nz_inbounds current) ?tag = Some old" "map_of (nz_inbounds desired) ?tag = Some new"
    "delta = inbound_delta b ?tag old new" "view (rt_engine r) ?tag = Some (inbound_view eff old)"
    by (metis list.set_intros(1))
  have wf: "inbound_wf old" "inbound_wf new" "nb_tag old = ?tag" "nb_tag new = ?tag"
    "inbound_at current ?tag = old" "inbound_at desired ?tag = new"
    using config_wfD [OF Cons.prems(5)] config_wfD [OF Cons.prems(6)] ends by (auto simp: inbound_at_def)
  have fresh: "?tag \<notin> dl_tag ` set deltas" using Cons.prems(7) by auto
  have at: "\<forall>d \<in> set deltas. \<exists>old new. map_of (nz_inbounds current) (dl_tag d) = Some old \<and> map_of (nz_inbounds desired) (dl_tag d) = Some new \<and>
      d = inbound_delta b (dl_tag d) old new \<and> v1 (dl_tag d) = Some (inbound_view eff old)"
    if frame: "\<forall>t. t \<noteq> ?tag \<longrightarrow> v1 t = view (rt_engine r) t" for v1
  proof
    fix d assume d: "d \<in> set deltas"
    then have "dl_tag d \<noteq> ?tag" using fresh by (metis image_eqI)
    with frame have "v1 (dl_tag d) = view (rt_engine r) (dl_tag d)" by blast
    with Cons.prems(8) d show "\<exists>old new. map_of (nz_inbounds current) (dl_tag d) = Some old \<and> map_of (nz_inbounds desired) (dl_tag d) = Some new \<and>
      d = inbound_delta b (dl_tag d) old new \<and> v1 (dl_tag d) = Some (inbound_view eff old)"
      by (metis list.set_intros(2))
  qed
  have fail: ?case if "r' = r1" "journal' = journal" "isl x" "stepped eng good r r1" "view (rt_engine r1) = view (rt_engine r)" for r1
    using that Cons.prems(3,4) by (auto simp: isl_def intro!: phase_fail)
  have replace: ?case if run: "classify eng current desired deltas (reps @ [(?tag, old, new, replay)]) journal r1 = (r', journal', x)"
    and step: "stepped eng good r r1" "view (rt_engine r1) = view (rt_engine r)" for replay r1
  proof -
    note IH = Cons.IH [OF run stepped_calm [OF step(1)] Cons.prems(3) _ Cons.prems(5,6) _ at]
    have IH: "phase eng good view eff v0 (view (rt_engine r')) r1 r' journal' x"
      "\<forall>reps'. x = Inr reps' \<longrightarrow> (\<exists>extra. reps' = (reps @ [(?tag, old, new, replay)]) @ extra \<and>
        classified eff current desired (dl_tag ` set deltas) extra (view (rt_engine r1)) (view (rt_engine r')))"
      using IH Cons.prems(4,7) step(2) by simp_all
    show ?thesis
    proof (intro conjI allI impI)
      show "phase eng good view eff v0 (view (rt_engine r')) r r' journal' x" by (rule phase_step [OF step(1) IH(1)])
      fix reps' assume "x = Inr reps'"
      with IH(2) obtain extra where extra: "reps' = (reps @ [(?tag, old, new, replay)]) @ extra"
        "classified eff current desired (dl_tag ` set deltas) extra (view (rt_engine r1)) (view (rt_engine r'))" by metis
      have "classified eff current desired (dl_tag ` set (delta # deltas)) ((?tag, old, new, replay) # extra) (view (rt_engine r)) (view (rt_engine r'))"
        using classified_replaced [OF extra(2) fresh, of replay] unfolding wf(5,6) step(2) list.set image_insert .
      with extra(1) show "\<exists>extra. reps' = reps @ extra \<and>
          classified eff current desired (dl_tag ` set (delta # deltas)) extra (view (rt_engine r)) (view (rt_engine r'))"
        by (intro exI [of _ "(?tag, old, new, replay) # extra"]) (simp only: append.simps append_assoc)
    qed
  qed
  have settle: ?case if run: "classify eng current desired deltas reps journal1 r1 = (r', journal', x)"
    and step: "stepped eng good r r1" "\<forall>t. t \<noteq> ?tag \<longrightarrow> view (rt_engine r1) t = view (rt_engine r) t"
      "settled eff old new (view (rt_engine r1) ?tag)" "list_all undo_wf journal1" "fold (undo_view eff) journal1 (view (rt_engine r1)) = v0"
    for journal1 r1
  proof -
    note IH = Cons.IH [OF run stepped_calm [OF step(1)] step(4,5) Cons.prems(5,6) _ at [OF step(2)]]
    have IH: "phase eng good view eff v0 (view (rt_engine r')) r1 r' journal' x"
      "\<forall>reps'. x = Inr reps' \<longrightarrow> (\<exists>extra. reps' = reps @ extra \<and>
        classified eff current desired (dl_tag ` set deltas) extra (view (rt_engine r1)) (view (rt_engine r')))"
      using IH Cons.prems(7) by simp_all
    show ?thesis
    proof (intro conjI allI impI)
      show "phase eng good view eff v0 (view (rt_engine r')) r r' journal' x" by (rule phase_step [OF step(1) IH(1)])
      fix reps' assume "x = Inr reps'"
      with IH(2) obtain extra where extra: "reps' = reps @ extra"
        "classified eff current desired (dl_tag ` set deltas) extra (view (rt_engine r1)) (view (rt_engine r'))" by metis
      have "classified eff current desired (dl_tag ` set (delta # deltas)) extra (view (rt_engine r)) (view (rt_engine r'))"
        using classified_settled [OF extra(2) fresh step(2)] step(3) unfolding wf(5,6) list.set image_insert .
      with extra(1) show "\<exists>extra. reps' = reps @ extra \<and>
          classified eff current desired (dl_tag ` set (delta # deltas)) extra (view (rt_engine r)) (view (rt_engine r'))" by (intro exI conjI)
    qed
  qed
  show ?case
  proof (cases "dl_user_mode_changed delta")
    case True
    then show ?thesis
      using Cons.prems(1) wf(5,6) fail [of r] replace [of _ r] stepped_refl [OF Cons.prems(2)]
      by (cases "eg_preserve_inbound_replay eng (rt_engine r) ?tag") (auto simp: Let_def)
  next
    case mode: False
    show ?thesis
    proof (cases "dl_config_changed delta")
      case False
      have same: "settled eff old new (Some (inbound_view eff old))" using settled_same False mode ends(3) by metis
      from settle [of journal r] Cons.prems(1,3,4) False mode same ends(4) stepped_refl [OF Cons.prems(2)]
      show ?thesis by (simp add: Let_def)
    next
      case True
      show ?thesis
      proof (cases "eg_preserve_inbound_replay eng (rt_engine r) ?tag")
        case (Inl error)
        with True mode Cons.prems(1) fail [of r] stepped_refl [OF Cons.prems(2)] show ?thesis by (auto simp: Let_def)
      next
        case (Inr replay)
        obtain r1 y where up: "on_engine (\<lambda>e. eg_update_inbound eng e (update_spec new)) r = (r1, y)" by fastforce
        note step = update_step [OF up Cons.prems(2)]
        show ?thesis
        proof (cases y)
          case failed: (Inl error)
          with step have "stepped eng good r r1" "view (rt_engine r1) = view (rt_engine r)" by auto
          with Inr failed True mode Cons.prems(1) up wf(5,6) fail [of r1] replace [of replay r1] show ?thesis
            by (cases error) (auto simp: Let_def)
        next
          case ok: (Inr info)
          have spec: "is_tag (update_spec new) = ?tag" "is_config (update_spec new) = is_config (nb_spec new)"
            using wf(4) by (simp_all add: update_spec_def)
          from step ok ends(4) spec have view1: "view (rt_engine r1) = (view (rt_engine r))(?tag \<mapsto>
              (inbound_view eff old)\<lparr> lv_config := is_config (nb_spec new) \<rparr>)"
            "lv_users (inbound_view eff old) \<noteq> None \<longrightarrow> eff (is_config (nb_spec new)) = eff (lv_config (inbound_view eff old))"
            by auto
          have "\<not> dl_user_mode_changed (inbound_delta b ?tag old new)" using mode ends(3) by metis
          from settled_update [OF this view1(2)] have "settled eff old new (view (rt_engine r1) ?tag)" unfolding view1(1) by simp
          moreover have "fold (undo_view eff) (RestoreHotConfig new old replay # journal) (view (rt_engine r1)) = v0"
            using Cons.prems(4) view1(1) wf ends(4) by (simp add: spec_view_wf fun_upd_idem)
          ultimately show ?thesis
            using settle [of "RestoreHotConfig new old replay # journal" r1] Cons.prems(1,3) step ok Inr True mode up wf view1(1)
            by (simp add: Let_def)
        qed
      qed
    qed
  qed
qed


section \<open>Ownership metadata\<close>

lemma take_users_step:
  assumes "take_users eng tag old users r = (r', x)" "calm good r"
  shows "stepped eng good r r' \<and> view (rt_engine r') = view (rt_engine r)"
  using assms
proof (induction users arbitrary: r)
  case Nil
  then show ?case by (simp add: stepped_refl)
next
  case (Cons user users)
  obtain r1 y where res: "reserve_traffic old (ui_id user) r = (r1, y)" by fastforce
  note reserved = reserve_step [OF res Cons.prems(2)]
  show ?case
  proof (cases y)
    case (Inl e)
    with reserved Cons.prems res show ?thesis by (auto simp: stepped_refl)
  next
    case (Inr rv)
    with reserved obtain p where p: "r1 = r\<lparr> rt_pending := p \<rparr>" "pending_ok p (Some rv)" "rv_key rv = traffic_key old (ui_id user)"
      by auto
    obtain e' z where take: "eg_take_user_traffic eng (rt_engine r) tag (ui_id user) = (e', z)" by fastforce
    note law = take_user_traffic [OF calm_good [OF Cons.prems(2)] take]
    define r2 where "r2 = r1\<lparr> rt_engine := e' \<rparr>"
    have run: "on_engine (\<lambda>e. eg_take_user_traffic eng e tag (ui_id user)) r1 = (r2, z)"
      using take p(1) by (simp add: on_engine_def r2_def)
    have quiet: "\<not> rt_panicked r2" "rt_pending r2 = p" "good (rt_engine r2)"
      using p law Cons.prems(2) by (simp_all add: calm_def r2_def moved_def)
    show ?thesis
    proof (cases z)
      case failed: (Inl e)
      with Cons.prems(1) res Inr run have "r' = unreserve rv r2" by simp
      with unreserve_step [of r2 rv] quiet p law show ?thesis
        by (simp add: stepped_def moved_def r2_def) (simp add: unreserve_def)
    next
      case ok: (Inr info)
      then have "ui_id info = ui_id user" using law by simp
      from queue_step [OF p(2,3) this quiet(3) quiet(1) quiet(2)] obtain q where
        q: "calm good (queue_traffic rv old info r2)" "queue_traffic rv old info r2 = r2\<lparr> rt_pending := q \<rparr>" by metis
      have "take_users eng tag old users (queue_traffic rv old info r2) = (r', x)" using Cons.prems(1) res Inr run ok by simp
      note rest = Cons.IH [OF this q(1)]
      have r2: "rt_engine (queue_traffic rv old info r2) = e'" "stepped eng good r (queue_traffic rv old info r2)"
        using q law unfolding q(2) by (simp_all add: stepped_def moved_def r2_def p(1))
      show ?thesis using rest r2 law by (metis moved_def stepped_trans)
    qed
  qed
qed

lemma flush_metadata_step:
  assumes "flush_metadata eng desired replaced inbounds r = (r', x)" "calm good r"
  shows "stepped eng good r r' \<and> view (rt_engine r') = view (rt_engine r)"
  using assms
proof (induction inbounds arbitrary: r)
  case Nil
  then show ?case by (simp add: stepped_refl)
next
  case (Cons entry rest)
  obtain tag old where entry: "entry = (tag, old)" by (cases entry)
  consider (skip) "flush_metadata eng desired replaced rest r = (r', x)" | (stop) "r' = r"
    | (flush) users r1 y where "take_users eng tag old users r = (r1, y)"
        "r' = r1 \<or> flush_metadata eng desired replaced rest r1 = (r', x)"
    using Cons.prems(1) unfolding entry by (fastforce split: if_splits option.splits sum.splits EngineError.splits prod.splits)
  then show ?case
  proof cases
    case skip
    then show ?thesis using Cons by blast
  next
    case stop
    then show ?thesis using Cons.prems(2) by (simp add: stepped_refl)
  next
    case flush
    note step = take_users_step [OF flush(1) Cons.prems(2)]
    from flush(2) show ?thesis
    proof
      assume "r' = r1"
      with step show ?thesis by simp
    next
      assume "flush_metadata eng desired replaced rest r1 = (r', x)"
      from Cons.IH [OF this stepped_calm] step show ?thesis using stepped_trans by metis
    qed
  qed
qed

lemma flush_phase:
  assumes "flush_changed_traffic_metadata eng previous desired replaced journal r = (r', journal', x)" "calm good r" "list_all undo_wf journal"
    "fold (undo_view eff) journal (view (rt_engine r)) = v0"
  shows "phase eng good view eff v0 (view (rt_engine r)) r r' journal' x"
  using flush_metadata_step [of desired replaced "nz_inbounds previous" r r' x] assms
  by (auto simp: flush_changed_traffic_metadata_def phase_def split: prod.splits sum.splits)

end

section \<open>Transactions\<close>

lemma phase_then:
  assumes "jbind m f journal r = (r', journal', x)"
    and "\<And>r1 journal1 y. m journal r = (r1, journal1, y) \<Longrightarrow> phase eng good view eff v0 v1 r r1 journal1 y"
    and "\<And>z r1 journal1. m journal r = (r1, journal1, Inr z) \<Longrightarrow> f z journal1 r1 = (r', journal', x) \<Longrightarrow> calm good r1 \<Longrightarrow>
      list_all undo_wf journal1 \<Longrightarrow> fold (undo_view eff) journal1 (view (rt_engine r1)) = v0 \<Longrightarrow> view (rt_engine r1) = v1 \<Longrightarrow>
      phase eng good view eff v0 v r1 r' journal' x"
  shows "phase eng good view eff v0 v r r' journal' x"
proof -
  obtain r1 journal1 y where m: "m journal r = (r1, journal1, y)" by (metis prod_cases3)
  show ?thesis
  proof (rule phase_bind [OF assms(1) m assms(2) [OF m]])
    fix z assume ok: "y = Inr z" "phase eng good view eff v0 v1 r r1 journal1 y" and run: "f z journal1 r1 = (r', journal', x)"
    from m have "m journal r = (r1, journal1, Inr z)" unfolding ok(1) .
    from assms(3) [OF this run phase_ok [OF ok(2) [unfolded ok(1)]]] show "phase eng good view eff v0 v r1 r' journal' x" .
  qed
qed

lemma unchanged_view:
  assumes "\<not> delta_nonempty (inbound_delta b tag old new)" "inbound_wf old" "inbound_wf new"
  shows "inbound_view eff old = inbound_view eff new"
proof -
  have empty: "dl_removed_users (inbound_delta b tag old new) = []" "dl_upsert_users (inbound_delta b tag old new) = []"
    using assms(1) by (simp_all add: delta_nonempty_def)
  have "dom (map_of (nb_users old)) - dom (map_of (nb_users new)) = {}"
    using delta_users(1) [OF assms(2,3), of b tag] unfolding empty by simp
  moreover have "{uid. map_of (nb_users new) uid \<noteq> None \<and> map_of (nb_users old) uid \<noteq> map_of (nb_users new) uid} = {}"
    using delta_users(3) [OF assms(2,3), of b tag] unfolding empty by simp
  ultimately have "map_of (nb_users old) = map_of (nb_users new)" by (auto simp: fun_eq_iff) (metis domIff subsetD)
  with assms(1) show ?thesis by (simp add: delta_nonempty_def inbound_delta_def inbound_view_def)
qed

text \<open>The phases of a difference, from the view of the current configuration, end in the view of the desired one.\<close>

lemma phases_compose:
  assumes wf: "config_wf current" "config_wf desired"
    and classified: "classified eff current desired (dl_tag ` set (df_changed (diff_configs current desired))) reps
      (\<lambda>t. if t \<in> set (df_removed (diff_configs current desired)) then None else config_view eff current t) v2"
  shows "(\<lambda>t. if t \<in> set (df_added (diff_configs current desired)) then config_view eff desired t
      else if t \<in> dl_tag ` set (df_changed (diff_configs current desired)) \<and> t \<notin> set (map fst reps) then config_view eff desired t
      else case map_of reps t of Some (old, new, replay) \<Rightarrow> Some (inbound_view eff new)
      | None \<Rightarrow> if t \<in> fst ` set reps then None else v2 t) = config_view eff desired"
    (is "?final = _")
proof
  fix t
  let ?changed = "dl_tag ` set (df_changed (diff_configs current desired))"
  have desired: "map_of (nz_inbounds desired) t \<noteq> None" if tag: "t \<in> ?changed" for t
  proof -
    from tag obtain d where "d \<in> set (df_changed (diff_configs current desired))" "t = dl_tag d" by blast
    with diff_changed [OF wf(1)] show ?thesis by (metis option.distinct(1))
  qed
  show "?final t = config_view eff desired t"
  proof (cases "map_of reps t")
    case (Some rep)
    obtain old new replay where rep: "rep = (old, new, replay)" by (cases rep) auto
    then have "(t, old, new, replay) \<in> set reps" using map_of_SomeD Some by fastforce
    with classified have new: "new = inbound_at desired t" "t \<in> ?changed" by (auto simp: classified_def)
    with desired have "config_view eff desired t = Some (inbound_view eff new)" by (auto simp: inbound_at_def)
    with Some rep show ?thesis by simp
  next
    case None
    then have out: "t \<notin> fst ` set reps" by (simp add: map_of_eq_None_iff)
    show ?thesis
    proof (cases "t \<in> ?changed")
      case False
      with classified out have v2: "v2 t = (if t \<in> set (df_removed (diff_configs current desired)) then None else config_view eff current t)"
        unfolding classified_def by blast
      show ?thesis
      proof (cases "t \<in> dom (map_of (nz_inbounds current)) \<and> t \<in> dom (map_of (nz_inbounds desired))")
        case True
        then obtain old new where ends: "map_of (nz_inbounds current) t = Some old" "map_of (nz_inbounds desired) t = Some new" by auto
        from unchanged_view [OF diff_unchanged [OF wf(1) ends False]] config_wfD(3) [OF wf(1) ends(1)] config_wfD(3) [OF wf(2) ends(2)]
        have "inbound_view eff old = inbound_view eff new" by blast
        with ends None out False v2 show ?thesis by (simp add: diff_tags domIff)
      next
        case gone: False
        with None out False v2 show ?thesis
          by (cases "map_of (nz_inbounds current) t"; cases "map_of (nz_inbounds desired) t") (auto simp: diff_tags config_view_def)
      qed
    qed (use out in simp)
  qed
qed

context engine_contract
begin

lemma full_reload_phase:
  assumes "execute_full_reload eng current desired [] r = (r', journal', x)" "calm good r"
    "view (rt_engine r) = config_view eff current" "config_wf current" "config_wf desired"
  shows "phase eng good view eff (config_view eff current) (config_view eff desired) r r' journal' x"
proof -
  obtain r1 journal1 y where stop: "stop_generation eng (nz_inbounds current) Map.empty [] r = (r1, journal1, y)" by (metis prod_cases3)
  have dom: "t \<in> fst ` set (nz_inbounds current) \<longleftrightarrow> map_of (nz_inbounds current) t \<noteq> None" for t
    by (simp add: map_of_eq_None_iff)
  have "phase eng good view eff (config_view eff current) (\<lambda>t. if t \<in> fst ` set (nz_inbounds current) then None else view (rt_engine r) t)
      r r1 journal1 y"
  proof (rule stop_generation_phase [OF stop assms(2)])
    show "\<forall>(tag, old) \<in> set (nz_inbounds current). nb_tag old = tag \<and> inbound_wf old \<and> view (rt_engine r) tag = Some (inbound_view eff old)"
      using assms(3) bt_wf_entry [OF config_wfD(1) [OF assms(4)]] config_wfD [OF assms(4)] by auto
  qed (use assms(3) config_wfD(4) [OF assms(4)] in simp_all)
  moreover have "(\<lambda>t. if t \<in> fst ` set (nz_inbounds current) then None else view (rt_engine r) t) = Map.empty"
    using assms(3) by (auto simp: fun_eq_iff dom config_view_def)
  ultimately have first: "phase eng good view eff (config_view eff current) Map.empty r r1 journal1 y" by simp
  show ?thesis
  proof (rule phase_bind [OF assms(1) [unfolded execute_full_reload_def] stop first])
    fix replays assume ok: "y = Inr replays" "phase eng good view eff (config_view eff current) Map.empty r r1 journal1 y"
      and run: "start_generation eng current replays (nz_inbounds desired) journal1 r1 = (r', journal', x)"
    note at1 = phase_ok [OF ok(2) [unfolded ok(1)]]
    have "phase eng good view eff (config_view eff current)
        (\<lambda>t. case map_of (nz_inbounds desired) t of Some new \<Rightarrow> Some (inbound_view eff new) | None \<Rightarrow> view (rt_engine r1) t) r1 r' journal' x"
    proof (rule start_generation_phase [OF run at1(1-3)])
      show "\<forall>(tag, new) \<in> set (nz_inbounds desired). nb_tag new = tag \<and> inbound_wf new"
        using bt_wf_entry [OF config_wfD(1) [OF assms(5)]] config_wfD [OF assms(5)] by auto
    qed (use config_wfD(4) [OF assms(5)] in simp)
    moreover have "(\<lambda>t. case map_of (nz_inbounds desired) t of Some new \<Rightarrow> Some (inbound_view eff new) | None \<Rightarrow> view (rt_engine r1) t) =
        config_view eff desired"
      unfolding at1(4) by (auto simp: fun_eq_iff config_view_def split: option.splits)
    ultimately show "phase eng good view eff (config_view eff current) (config_view eff desired) r1 r' journal' x" by simp
  qed
qed

lemma execute_tail:
  assumes run: "jbind (reconcile_users eng current desired replaced deltas) (\<lambda>_. jbind (add_inbounds eng desired added) (\<lambda>_.
      flush_changed_traffic_metadata eng current desired replaced)) journal r = (r', journal', x)"
    and start: "calm good r" "list_all undo_wf journal" "fold (undo_view eff) journal (view (rt_engine r)) = v0"
    and wf: "config_wf current" "config_wf desired" and deltas: "distinct (map dl_tag deltas)"
      "\<forall>d \<in> set deltas. \<exists>old new. map_of (nz_inbounds current) (dl_tag d) = Some old \<and> map_of (nz_inbounds desired) (dl_tag d) = Some new \<and>
        d = inbound_delta b (dl_tag d) old new \<and> (dl_tag d \<notin> set replaced \<longrightarrow> settled eff old new (view (rt_engine r) (dl_tag d)))"
    and added: "\<forall>tag \<in> set added. map_of (nz_inbounds desired) tag \<noteq> None"
    and final: "(\<lambda>t. if t \<in> set added then config_view eff desired t
      else if t \<in> dl_tag ` set deltas \<and> t \<notin> set replaced then config_view eff desired t else view (rt_engine r) t) = v"
  shows "phase eng good view eff v0 v r r' journal' x"
proof (rule phase_then [OF run])
  fix r1 journal1 y assume "reconcile_users eng current desired replaced deltas journal r = (r1, journal1, y)"
  from reconcile_users_phase [OF this start wf deltas] show "phase eng good view eff v0
    (\<lambda>t. if t \<in> dl_tag ` set deltas \<and> t \<notin> set replaced then config_view eff desired t else view (rt_engine r) t) r r1 journal1 y" .
next
  fix z r1 journal1
  assume run1: "jbind (add_inbounds eng desired added) (\<lambda>_. flush_changed_traffic_metadata eng current desired replaced) journal1 r1 = (r', journal', x)"
    and at1: "calm good r1" "list_all undo_wf journal1" "fold (undo_view eff) journal1 (view (rt_engine r1)) = v0"
      "view (rt_engine r1) = (\<lambda>t. if t \<in> dl_tag ` set deltas \<and> t \<notin> set replaced then config_view eff desired t else view (rt_engine r) t)"
  show "phase eng good view eff v0 v r1 r' journal' x"
  proof (rule phase_then [OF run1])
    fix r2 journal2 y2 assume "add_inbounds eng desired added journal1 r1 = (r2, journal2, y2)"
    from add_inbounds_phase [OF this at1(1-3) wf(2) added] show "phase eng good view eff v0 v r1 r2 journal2 y2"
      unfolding at1(4) using final by simp
  next
    fix z2 r2 journal2
    assume "flush_changed_traffic_metadata eng current desired replaced journal2 r2 = (r', journal', x)" "calm good r2"
      "list_all undo_wf journal2" "fold (undo_view eff) journal2 (view (rt_engine r2)) = v0" "view (rt_engine r2) = v"
    from flush_phase [OF this(1-4)] this(5) show "phase eng good view eff v0 v r2 r' journal' x" by simp
  qed
qed

lemma execute_replacements:
  assumes run: "jbind (stop_replaced eng reps) (\<lambda>_. jbind (start_replaced eng reps) (\<lambda>_.
      jbind (reconcile_users eng current desired (map fst reps) deltas) (\<lambda>_.
      jbind (add_inbounds eng desired added) (\<lambda>_. flush_changed_traffic_metadata eng current desired (map fst reps)))))
      journal r = (r', journal', x)"
    and start: "calm good r" "list_all undo_wf journal" "fold (undo_view eff) journal (view (rt_engine r)) = v0"
    and wf: "config_wf current" "config_wf desired" and distinct: "distinct (map dl_tag deltas)"
    and deltas: "\<forall>d \<in> set deltas. \<exists>old new. map_of (nz_inbounds current) (dl_tag d) = Some old \<and> map_of (nz_inbounds desired) (dl_tag d) = Some new \<and>
      d = inbound_delta b (dl_tag d) old new \<and> v1 (dl_tag d) = Some (inbound_view eff old)"
    and added: "\<forall>tag \<in> set added. map_of (nz_inbounds desired) tag \<noteq> None"
    and classified: "classified eff current desired (dl_tag ` set deltas) reps v1 (view (rt_engine r))"
    and final: "(\<lambda>t. if t \<in> set added then config_view eff desired t
      else if t \<in> dl_tag ` set deltas \<and> t \<notin> set (map fst reps) then config_view eff desired t
      else case map_of reps t of Some (old, new, replay) \<Rightarrow> Some (inbound_view eff new)
      | None \<Rightarrow> if t \<in> fst ` set reps then None else view (rt_engine r) t) = v"
  shows "phase eng good view eff v0 v r r' journal' x"
proof -
  have reps: "nb_tag old = tag \<and> inbound_wf old \<and> nb_tag new = tag \<and> inbound_wf new \<and> view (rt_engine r) tag = Some (inbound_view eff old)"
    if rep: "(tag, old, new, replay) \<in> set reps" for tag old new replay
  proof -
    note at = classifiedD [OF classified rep]
    from at(1) obtain d where "d \<in> set deltas" "tag = dl_tag d" by blast
    with deltas obtain o' n' where "map_of (nz_inbounds current) tag = Some o'" "map_of (nz_inbounds desired) tag = Some n'"
      "v1 tag = Some (inbound_view eff o')" by metis
    then show ?thesis
      using at config_wfD(2,3) [OF wf(1), of tag o'] config_wfD(2,3) [OF wf(2), of tag n'] by (simp add: inbound_at_def)
  qed
  let ?v3 = "\<lambda>t. if t \<in> fst ` set reps then None else view (rt_engine r) t"
  let ?v4 = "\<lambda>t. case map_of reps t of Some (old, new, replay) \<Rightarrow> Some (inbound_view eff new) | None \<Rightarrow> ?v3 t"
  have distinct_reps: "distinct (map fst reps)" using classified by (simp add: classified_def)
  show ?thesis
  proof (rule phase_then [OF run])
    fix r1 journal1 y assume "stop_replaced eng reps journal r = (r1, journal1, y)"
    from stop_replaced_phase [OF this start distinct_reps] reps show "phase eng good view eff v0 ?v3 r r1 journal1 y" by blast
  next
    fix z r1 journal1
    assume run1: "jbind (start_replaced eng reps) (\<lambda>_. jbind (reconcile_users eng current desired (map fst reps) deltas) (\<lambda>_.
        jbind (add_inbounds eng desired added) (\<lambda>_. flush_changed_traffic_metadata eng current desired (map fst reps)))) journal1 r1 = (r', journal', x)"
      and at1: "calm good r1" "list_all undo_wf journal1" "fold (undo_view eff) journal1 (view (rt_engine r1)) = v0" "view (rt_engine r1) = ?v3"
    show "phase eng good view eff v0 v r1 r' journal' x"
    proof (rule phase_then [OF run1])
      fix r2 journal2 y2 assume "start_replaced eng reps journal1 r1 = (r2, journal2, y2)"
      from start_replaced_phase [OF this at1(1-3) distinct_reps] reps show "phase eng good view eff v0 ?v4 r1 r2 journal2 y2"
        unfolding at1(4) by blast
    next
      fix z2 r2 journal2
      assume run2: "jbind (reconcile_users eng current desired (map fst reps) deltas) (\<lambda>_.
          jbind (add_inbounds eng desired added) (\<lambda>_. flush_changed_traffic_metadata eng current desired (map fst reps))) journal2 r2 = (r', journal', x)"
        and at2: "calm good r2" "list_all undo_wf journal2" "fold (undo_view eff) journal2 (view (rt_engine r2)) = v0" "view (rt_engine r2) = ?v4"
      have "\<exists>old new. map_of (nz_inbounds current) (dl_tag d) = Some old \<and> map_of (nz_inbounds desired) (dl_tag d) = Some new \<and>
          d = inbound_delta b (dl_tag d) old new \<and> (dl_tag d \<notin> set (map fst reps) \<longrightarrow> settled eff old new (view (rt_engine r2) (dl_tag d)))"
        if d: "d \<in> set deltas" for d
      proof -
        from deltas d obtain old new where ends: "map_of (nz_inbounds current) (dl_tag d) = Some old"
          "map_of (nz_inbounds desired) (dl_tag d) = Some new" "d = inbound_delta b (dl_tag d) old new" by metis
        have "settled eff old new (view (rt_engine r2) (dl_tag d))" if out: "dl_tag d \<notin> set (map fst reps)"
        proof -
          have "settled eff (inbound_at current (dl_tag d)) (inbound_at desired (dl_tag d)) (view (rt_engine r) (dl_tag d))"
            using classified out d by (auto simp: classified_def)
          moreover have "map_of reps (dl_tag d) = None" using out by (simp add: map_of_eq_None_iff)
          ultimately show ?thesis using out ends(1,2) unfolding at2(4) by (simp add: inbound_at_def)
        qed
        with ends show ?thesis by blast
      qed
      then have "\<forall>d \<in> set deltas. \<exists>old new. map_of (nz_inbounds current) (dl_tag d) = Some old \<and> map_of (nz_inbounds desired) (dl_tag d) = Some new \<and>
          d = inbound_delta b (dl_tag d) old new \<and> (dl_tag d \<notin> set (map fst reps) \<longrightarrow> settled eff old new (view (rt_engine r2) (dl_tag d)))"
        by (intro ballI)
      from execute_tail [OF run2 at2(1-3) wf distinct this added] final
      show "phase eng good view eff v0 v r2 r' journal' x" unfolding at2(4) by blast
    qed
  qed
qed

lemma execute_diff_phase:
  assumes run: "execute_apply eng current desired False [] r = (r', journal', x)" and calm: "calm good r"
    and at: "view (rt_engine r) = config_view eff current" and wf: "config_wf current" "config_wf desired"
  shows "phase eng good view eff (config_view eff current) (config_view eff desired) r r' journal' x"
proof -
  let ?v0 = "config_view eff current"
  define diff where "diff = diff_configs current desired"
  let ?digest = "nz_rule_set_digest current \<noteq> nz_rule_set_digest desired"
  let ?tags = "dl_tag ` set (df_changed diff)"
  have changed: "\<exists>old new. map_of (nz_inbounds current) (dl_tag d) = Some old \<and> map_of (nz_inbounds desired) (dl_tag d) = Some new \<and>
      d = inbound_delta ?digest (dl_tag d) old new" if "d \<in> set (df_changed diff)" for d
    using diff_changed [OF wf(1)] that unfolding diff_def by metis
  have kept: "t \<notin> set (df_removed diff)" if "t \<in> ?tags" for t
    using that changed by (fastforce simp: diff_def diff_tags)
  have distinct: "distinct (map dl_tag (df_changed diff))" unfolding diff_def by (rule diff_changed_distinct [OF wf(1)])
  let ?v1 = "\<lambda>t. if t \<in> set (df_removed diff) then None else ?v0 t"
  note unfolded = run [unfolded execute_apply_def Let_def if_False, folded diff_def]
  show ?thesis
  proof (rule phase_then [OF unfolded])
    fix r1 journal1 y assume "remove_inbounds eng current (df_removed diff) [] r = (r1, journal1, y)"
    moreover have "\<exists>old. map_of (nz_inbounds current) tag = Some old \<and> view (rt_engine r) tag = Some (inbound_view eff old)"
      if "tag \<in> set (df_removed diff)" for tag
      using that at by (auto simp: diff_def diff_tags)
    ultimately show "phase eng good view eff ?v0 ?v1 r r1 journal1 y"
      using remove_inbounds_phase [of current "df_removed diff" "[]" r r1 journal1 y ?v0] diff_tags(3) [OF wf(1), of desired] at calm wf(1)
      by (simp add: diff_def cong: if_cong)
  next
    fix z1 r1 journal1
    assume run1: "jbind (classify eng current desired (df_changed diff) []) (\<lambda>replacements. jbind (stop_replaced eng replacements) (\<lambda>_.
        jbind (start_replaced eng replacements) (\<lambda>_. jbind (reconcile_users eng current desired (map fst replacements) (df_changed diff)) (\<lambda>_.
        jbind (add_inbounds eng desired (df_added diff)) (\<lambda>_. flush_changed_traffic_metadata eng current desired (map fst replacements))))))
        journal1 r1 = (r', journal', x)"
      and at1: "calm good r1" "list_all undo_wf journal1" "fold (undo_view eff) journal1 (view (rt_engine r1)) = ?v0" "view (rt_engine r1) = ?v1"
    have here: "\<forall>d \<in> set (df_changed diff). \<exists>old new. map_of (nz_inbounds current) (dl_tag d) = Some old \<and>
        map_of (nz_inbounds desired) (dl_tag d) = Some new \<and> d = inbound_delta ?digest (dl_tag d) old new \<and>
        view (rt_engine r1) (dl_tag d) = Some (inbound_view eff old)"
    proof
      fix d assume d: "d \<in> set (df_changed diff)"
      then have "view (rt_engine r1) (dl_tag d) = ?v0 (dl_tag d)" using kept at1(4) by simp
      with changed [OF d] show "\<exists>old new. map_of (nz_inbounds current) (dl_tag d) = Some old \<and>
        map_of (nz_inbounds desired) (dl_tag d) = Some new \<and> d = inbound_delta ?digest (dl_tag d) old new \<and>
        view (rt_engine r1) (dl_tag d) = Some (inbound_view eff old)" by (metis config_view_simps(3))
    qed
    obtain r2 journal2 y2 where cl: "classify eng current desired (df_changed diff) [] journal1 r1 = (r2, journal2, y2)" by (metis prod_cases3)
    note step2 = classify_phase [OF cl at1(1-3) wf distinct here]
    show "phase eng good view eff ?v0 (config_view eff desired) r1 r' journal' x"
    proof (rule phase_bind [OF run1 cl conjunct1 [OF step2]])
      fix reps assume ok: "y2 = Inr reps" "phase eng good view eff ?v0 (view (rt_engine r2)) r1 r2 journal2 y2"
        and run2: "jbind (stop_replaced eng reps) (\<lambda>_. jbind (start_replaced eng reps) (\<lambda>_.
          jbind (reconcile_users eng current desired (map fst reps) (df_changed diff)) (\<lambda>_.
          jbind (add_inbounds eng desired (df_added diff)) (\<lambda>_. flush_changed_traffic_metadata eng current desired (map fst reps)))))
          journal2 r2 = (r', journal', x)"
      note at2 = phase_ok [OF ok(2) [unfolded ok(1)]]
      from step2 ok(1) at1(4) have cls: "classified eff current desired ?tags reps ?v1 (view (rt_engine r2))" by simp
      show "phase eng good view eff ?v0 (config_view eff desired) r2 r' journal' x"
      proof (rule execute_replacements [OF run2 at2(1-3) wf distinct here [unfolded at1(4)] _ cls])
        show "\<forall>tag \<in> set (df_added diff). map_of (nz_inbounds desired) tag \<noteq> None" by (auto simp: diff_def diff_tags)
      qed (rule phases_compose [OF wf cls [unfolded diff_def], folded diff_def])
    qed
  qed
qed

lemma execute_phase:
  assumes "execute_apply eng current desired full [] r = (r', journal', x)" "calm good r"
    "view (rt_engine r) = config_view eff current" "config_wf current" "config_wf desired"
  shows "phase eng good view eff (config_view eff current) (config_view eff desired) r r' journal' x"
  using assms full_reload_phase execute_diff_phase by (cases full) (simp_all add: execute_apply_def)

end

end
