(* ===== verification/Runtime_Apply.thy ===== *)
theory Runtime_Apply
  imports Runtime_Steps
begin

text \<open>
  The transactions of \<open>ShoesRuntime\<close> in \<open>runtime.rs\<close>: apply and forced reload with their preflight, the failed
  transaction, recovery of an indeterminate runtime, shutdown, the refresh of remote rule sets, and the
  reports to telemetry and billing. The rule-set loader is a state of its own with two operations; its
  preparation reports whether a shutdown was requested while it ran.
\<close>

record 'w rule_set_loader =
  ld_prepare :: "'w \<Rightarrow> RuleSetResource list \<Rightarrow> 'w \<times> bool \<times> (string + PreparedRuleSets)"
  ld_commit :: "'w \<Rightarrow> PreparedRuleSets \<Rightarrow> 'w \<times> (string + unit)"

definition engine_running :: "('e, 'l) engine \<Rightarrow> ('e, 'l, 'w) ShoesRuntime \<Rightarrow> bool" where
  "engine_running eng r \<longleftrightarrow> eg_list_inbounds eng (rt_engine r) \<noteq> []"

section \<open>Failed transactions\<close>

record 'l FailedTransaction =
  ft_previous :: NormalizedConfig
  ft_previous_replay :: "string \<rightharpoonup> 'l"
  ft_failure :: StepFailure
  ft_journal :: "'l Undo list"
  ft_client_rotated :: bool
  ft_full_reload :: bool

definition rotate_dns :: "('e, 'l) engine \<Rightarrow> ('e, 'l, 'w) ShoesRuntime \<Rightarrow> ('e, 'l, 'w) ShoesRuntime" where
  "rotate_dns eng r = fst (on_engine (eg_rotate_dns_client_generation eng) r)"

definition commit_groups :: "('e, 'l) engine \<Rightarrow> ('e, 'l, 'w) ShoesRuntime \<Rightarrow> ('e, 'l, 'w) ShoesRuntime" where
  "commit_groups eng r = r\<lparr> rt_engine := eg_commit_client_chain_group_generation eng (rt_engine r) \<rparr>"

fun refresh_inbounds :: "('e, 'l) engine \<Rightarrow> NormalizedInbound list \<Rightarrow> ('e, 'l, 'w, string list) step" where
  "refresh_inbounds eng [] r = (r, [])"
| "refresh_inbounds eng (inbound # rest) r =
     (case on_engine (\<lambda>e. eg_update_inbound eng e (update_spec inbound)) r of
        (r1, Inr _) \<Rightarrow> refresh_inbounds eng rest r1
      | (r1, Inl (ReloadRequired _)) \<Rightarrow>
          (case replace_inbound eng inbound inbound r1 of
             (r2, Inr _) \<Rightarrow> refresh_inbounds eng rest r2
           | (r2, Inl failure) \<Rightarrow>
               (case refresh_inbounds eng rest r2 of
                  (r3, errors) \<Rightarrow> (r3, (''rebuild rollback DNS state for '' @ nb_tag inbound @ '': '' @ describe_step_failure failure) # errors)))
      | (r1, Inl error) \<Rightarrow>
          (case refresh_inbounds eng rest r1 of
             (r2, errors) \<Rightarrow> (r2, (''refresh rollback DNS state for '' @ nb_tag inbound @ '': '' @ display_engine_error error) # errors)))"

definition restore_probe_dns :: "('e, 'l) engine \<Rightarrow> 'l FailedTransaction \<Rightarrow> ('e, 'l, 'w, string list) step" where
  "restore_probe_dns eng t r =
     (if ft_full_reload t then
        (case on_engine (\<lambda>e. eg_configure_urltest_probe_dns eng e (nz_urltest_probe_dns (ft_previous t))) (rotate_dns eng r) of
           (r1, Inr _) \<Rightarrow> (r1, [])
         | (r1, Inl error) \<Rightarrow> (r1, [''restore generation-global URLTest probe DNS: '' @ display_engine_error error]))
      else (r, []))"

definition finish_failed_transaction :: "('e, 'l) engine \<Rightarrow> 'l FailedTransaction \<Rightarrow> ('e, 'l, 'w, RuntimeError) step" where
  "finish_failed_transaction eng t r =
     (let failure = ft_failure t; previous = ft_previous t;
          restoration_attempted = (ft_full_reload t \<or> sf_changed failure \<or> ft_journal t \<noteq> []);
          had_previous_topology = (nz_inbounds previous \<noteq> []) in
      case restore_probe_dns eng t r of (r1, dns_errors) \<Rightarrow>
      case rollback_journal eng (ft_journal t) r1 of (r2, journal_errors, recovery_live) \<Rightarrow>
      let rollback = sf_rollback failure @ dns_errors @ journal_errors in
      case (if ft_client_rotated t \<and> sf_restored failure \<and> rollback = []
            then refresh_inbounds eng (map snd (nz_inbounds previous)) r2 else (r2, [])) of (r3, refresh_errors) \<Rightarrow>
      let rollback = rollback @ refresh_errors;
          fully_restored = (sf_restored failure \<and> rollback = []);
          rolled_back = (fully_restored \<and> restoration_attempted \<and> had_previous_topology);
          state_unchanged = (fully_restored \<and> \<not> restoration_attempted);
          r4 = (if fully_restored
            then commit_groups eng (r3\<lparr> rt_state := (rt_state r3)\<lparr> ap_current := Some previous, ap_recovery := None, ap_recovery_live := Map.empty \<rparr>,
                   rt_recovery_replay := Map.empty \<rparr>)
            else r3\<lparr> rt_state := (rt_state r3)\<lparr> ap_current := None, ap_recovery := Some previous, ap_recovery_live := recovery_live \<rparr>,
                   rt_recovery_replay := ft_previous_replay t \<rparr>) in
      (r4, runtime_error_failed (sf_operation failure) rollback rolled_back state_unchanged fully_restored))"

section \<open>Recovery\<close>

fun retire_ids :: "('e, 'l) engine \<Rightarrow> string \<Rightarrow> NormalizedInbound \<Rightarrow> string list \<Rightarrow> ('e, 'l, 'w, string + unit) step" where
  "retire_ids eng tag accounting [] r = (r, Inr ())"
| "retire_ids eng tag accounting (uid # uids) r =
     (case retire_user eng tag accounting uid r of
        (r1, Retired) \<Rightarrow> retire_ids eng tag accounting uids r1
      | (r1, NotReserved e) \<Rightarrow> (r1, Inl (''reserve final traffic for user '' @ uid @ '' while stopping '' @ tag @ '': '' @ e))
      | (r1, NotRemoved failure) \<Rightarrow>
          if urf_missing failure \<and> \<not> urf_changed failure then retire_ids eng tag accounting uids r1
          else (r1, Inl (''remove user '' @ uid @ '' while stopping '' @ tag @ '': '' @ urf_message failure)))"

text \<open>The users to collect, in order: the live ones and, for a known generation, its configured ones, which
  may still be draining.\<close>

definition stop_ids :: "UserInfo list \<Rightarrow> RetiringInbound option \<Rightarrow> string list" where
  "stop_ids users known = sort (remdups (map ui_id users @
     (case known of
        Some inbound \<Rightarrow> if nb_dynamic_users (rg_live inbound)
          then map fst (nb_users (rg_live inbound)) @ map fst (nb_users (rg_accounting inbound)) else []
      | None \<Rightarrow> [])))"

definition force_stop_tag :: "('e, 'l) engine \<Rightarrow> string \<Rightarrow> RetiringInbound option \<Rightarrow> ('e, 'l, 'w, string + unit) step" where
  "force_stop_tag eng tag known r =
     (case (case eg_list_users eng (rt_engine r) tag of
              Inr users \<Rightarrow>
                let uids = stop_ids users known in
                (case known of
                   None \<Rightarrow> if uids \<noteq> [] then (r, Inl (''cannot safely stop untracked inbound '' @ tag @ '': traffic ownership metadata is unavailable''))
                     else (r, Inr ())
                 | Some inbound \<Rightarrow> retire_ids eng tag (rg_accounting inbound) uids r)
            | Inl (Unsupported _) \<Rightarrow> (r, Inr ())
            | Inl error \<Rightarrow> (r, Inl (''list users while stopping '' @ tag @ '': '' @ display_engine_error error))) of
        (r1, Inl e) \<Rightarrow> (r1, Inl e)
      | (r1, Inr _) \<Rightarrow>
          (case on_engine (\<lambda>e. eg_remove_inbound_hard eng e tag) r1 of
             (r2, Inl error) \<Rightarrow> (r2, Inl (''remove inbound '' @ tag @ '': '' @ display_engine_error error))
           | (r2, Inr _) \<Rightarrow> (r2, Inr ())))"

definition publish_recovery_live :: "(string \<rightharpoonup> RetiringInbound) \<Rightarrow> ('e, 'l, 'w) ShoesRuntime \<Rightarrow> ('e, 'l, 'w) ShoesRuntime" where
  "publish_recovery_live live r = r\<lparr> rt_state := (rt_state r)\<lparr> ap_recovery_live := live \<rparr> \<rparr>"

fun stop_indeterminate :: "('e, 'l) engine \<Rightarrow> InboundInfo list \<Rightarrow> (string \<rightharpoonup> RetiringInbound) \<Rightarrow>
    ('e, 'l, 'w, string list \<times> (string \<rightharpoonup> RetiringInbound)) step" where
  "stop_indeterminate eng [] live r = (r, [], live)"
| "stop_indeterminate eng (info # infos) live r =
     (case force_stop_tag eng (ii_tag info) (live (ii_tag info)) r of
        (r1, Inl error) \<Rightarrow>
          (case stop_indeterminate eng infos live r1 of (r2, errors, live2) \<Rightarrow> (r2, error # errors, live2))
      | (r1, Inr _) \<Rightarrow>
          let live1 = live(ii_tag info := None) in
          stop_indeterminate eng infos live1 (publish_recovery_live live1 r1))"

fun rebuild :: "('e, 'l) engine \<Rightarrow> (string \<rightharpoonup> 'l) \<Rightarrow> NormalizedInbound list \<Rightarrow> (string \<rightharpoonup> RetiringInbound) \<Rightarrow> ('e, 'l, 'w, RuntimeError + unit) step" where
  "rebuild eng replay [] live r = (r, Inr ())"
| "rebuild eng replay (inbound # rest) live r =
     (case replay (nb_tag inbound) of
        None \<Rightarrow> (r, Inl (runtime_error_failed (''restore recovery inbound '' @ nb_tag inbound @ '': replay namespace was not retained'') [] False False False))
      | Some lease \<Rightarrow>
          (case on_engine (\<lambda>e. eg_add_inbound_with_replay eng e (nb_spec inbound) lease) r of
             (r1, Inl error) \<Rightarrow>
               (r1, Inl (runtime_error_failed (''restore recovery inbound '' @ nb_tag inbound @ '': '' @ display_engine_error error) [] False False
                  (engine_running eng r1)))
           | (r1, Inr _) \<Rightarrow>
               let live1 = live(nb_tag inbound \<mapsto> \<lparr> rg_live = inbound, rg_accounting = inbound \<rparr>) in
               rebuild eng replay rest live1 (publish_recovery_live live1 r1)))"

definition known_live :: "NormalizedConfig \<Rightarrow> InboundInfo list \<Rightarrow> (string \<rightharpoonup> RetiringInbound) \<Rightarrow> string \<rightharpoonup> RetiringInbound" where
  "known_live recovery infos live =
     (\<lambda>tag. if tag \<in> set (map ii_tag infos)
        then (case live tag of
            Some inbound \<Rightarrow> Some inbound
          | None \<Rightarrow> map_option (\<lambda>inbound. \<lparr> rg_live = inbound, rg_accounting = inbound \<rparr>) (map_of (nz_inbounds recovery) tag))
        else None)"

definition recover_if_needed :: "('e, 'l) engine \<Rightarrow> ('e, 'l, 'w, RuntimeError + unit) step" where
  "recover_if_needed eng r =
     (if ap_current (rt_state r) \<noteq> None then (r, Inr ())
      else
        let recovery = (case ap_recovery (rt_state r) of Some config \<Rightarrow> config | None \<Rightarrow> NormalizedConfig_default);
            infos = eg_list_inbounds eng (rt_engine r);
            live = known_live recovery infos (ap_recovery_live (rt_state r)) in
        case stop_indeterminate eng infos live (publish_recovery_live live r) of (r1, errors, live1) \<Rightarrow>
        if errors \<noteq> [] then
          (r1, Inl (runtime_error_failed ''clean up an indeterminate runtime before recovery'' errors False False (engine_running eng r1)))
        else
          (case on_engine (\<lambda>e. eg_configure_urltest_probe_dns eng e (nz_urltest_probe_dns recovery)) (rotate_dns eng r1) of
             (r2, Inl error) \<Rightarrow>
               (r2, Inl (runtime_error_failed (''restore generation-global URLTest probe DNS: '' @ display_engine_error error) [] False False False))
           | (r2, Inr _) \<Rightarrow>
               (case rebuild eng (rt_recovery_replay r2) (map snd (nz_inbounds recovery)) live1 r2 of
                  (r3, Inl error) \<Rightarrow> (r3, Inl error)
                | (r3, Inr _) \<Rightarrow>
                    (commit_groups eng (r3\<lparr> rt_state := (rt_state r3)\<lparr> ap_current := Some recovery, ap_recovery := None,
                        ap_recovery_live := Map.empty \<rparr>, rt_recovery_replay := Map.empty \<rparr>), Inr ()))))"

section \<open>Apply and reload\<close>

fun capture_tags :: "('e, 'l) engine \<Rightarrow> 'e \<Rightarrow> bool \<Rightarrow> string list \<Rightarrow> (string \<rightharpoonup> 'l) \<Rightarrow> RuntimeError + (string \<rightharpoonup> 'l)" where
  "capture_tags eng e running [] replay = Inr replay"
| "capture_tags eng e running (tag # tags) replay =
     (case eg_preserve_inbound_replay eng e tag of
        Inl error \<Rightarrow> Inl (runtime_error_unchanged (preserve_message ''for'' tag error) running)
      | Inr lease \<Rightarrow> capture_tags eng e running tags (replay(tag \<mapsto> lease)))"

definition capture_replay_state :: "('e, 'l) engine \<Rightarrow> NormalizedConfig \<Rightarrow> ('e, 'l, 'w) ShoesRuntime \<Rightarrow> RuntimeError + (string \<rightharpoonup> 'l)" where
  "capture_replay_state eng config r =
     capture_tags eng (rt_engine r) (nz_inbounds config \<noteq> []) (map fst (nz_inbounds config)) Map.empty"

fun validate_inbounds :: "('e, 'l) engine \<Rightarrow> 'e \<Rightarrow> NormalizedInbound list \<Rightarrow> string + unit" where
  "validate_inbounds eng e [] = Inr ()"
| "validate_inbounds eng e (inbound # rest) =
     (case eg_validate_inbound eng e (nb_spec inbound) of
        Inl error \<Rightarrow> Inl (''validate inbound '' @ nb_tag inbound @ '': '' @ display_engine_error error)
      | Inr _ \<Rightarrow> validate_inbounds eng e rest)"

text \<open>The candidate as the engine will get it: local policy, snapshot paths, normal form, digest.\<close>

definition rewrite_candidate :: "PreparedRuleSets \<Rightarrow> RuntimeConfig \<Rightarrow> RuntimeConfig" where
  "rewrite_candidate prepared config =
     (if rc_rule_sets config \<noteq> []
      then config\<lparr>
        rc_inbounds := map (\<lambda>inbound. inbound\<lparr> ci_spec := (ci_spec inbound)\<lparr> is_config := rewrite_config prepared (is_config (ci_spec inbound)) \<rparr> \<rparr>)
          (rc_inbounds config),
        rc_urltest_probe_dns := map_option (rewrite_config prepared) (rc_urltest_probe_dns config) \<rparr>
      else config)"

definition desired_config :: "yaml_api \<Rightarrow> bool \<Rightarrow> PreparedRuleSets \<Rightarrow> RuntimeConfig \<Rightarrow> string + NormalizedConfig" where
  "desired_config ya disabled prepared config =
     rbind (if disabled then rmap_err (\<lambda>e. ''disable runtime sniff: '' @ e) (disable_runtime_sniff ya config) else Inr config) (\<lambda>config.
     rbind (rmap_err (\<lambda>e. ''normalize runtime config: '' @ e) (normalize (rewrite_candidate prepared config))) (\<lambda>desired.
     Inr (desired\<lparr> nz_rule_set_digest := ps_digest prepared \<rparr>)))"

definition commit_transaction :: "('e, 'l) engine \<Rightarrow> 'w rule_set_loader \<Rightarrow> PreparedRuleSets \<Rightarrow> NormalizedConfig \<Rightarrow>
    ('e, 'l, 'w) ShoesRuntime \<Rightarrow> ('e, 'l, 'w) ShoesRuntime" where
  "commit_transaction eng ld prepared desired r =
     (let r1 = r\<lparr> rt_state := (rt_state r)\<lparr> ap_current := Some desired, ap_recovery := None, ap_recovery_live := Map.empty,
            ap_committed := True \<rparr>, rt_recovery_replay := Map.empty \<rparr>;
          r2 = commit_groups eng r1 in
      r2\<lparr> rt_rule_sets := fst (ld_commit ld (rt_rule_sets r2) prepared) \<rparr>)"

text \<open>The part of the transaction after the preflight.\<close>

definition run_transaction :: "('e, 'l) engine \<Rightarrow> 'w rule_set_loader \<Rightarrow> PreparedRuleSets \<Rightarrow> NormalizedConfig \<Rightarrow> NormalizedConfig \<Rightarrow>
    (string \<rightharpoonup> 'l) \<Rightarrow> bool \<Rightarrow> ('e, 'l, 'w, RuntimeError + unit) step" where
  "run_transaction eng ld prepared previous desired replay force_reload r =
     (let committed = ap_committed (rt_state r);
          full = (force_reload \<or> nz_dns_client_fingerprint previous \<noteq> nz_dns_client_fingerprint desired \<or>
            nz_rule_set_digest previous \<noteq> nz_rule_set_digest desired);
          rotated = (full \<and> committed);
          failed = (\<lambda>failure journal. \<lparr> ft_previous = previous, ft_previous_replay = replay, ft_failure = failure, ft_journal = journal,
            ft_client_rotated = rotated, ft_full_reload = full \<rparr>);
          r1 = (if rotated then rotate_dns eng r else r) in
      case (if full \<or> \<not> committed
            then on_engine (\<lambda>e. eg_configure_urltest_probe_dns eng e (nz_urltest_probe_dns desired)) r1 else (r1, Inr ())) of
        (r2, Inl error) \<Rightarrow>
          (case finish_failed_transaction eng (failed (step_unchanged
              (''configure generation-global URLTest probe DNS: '' @ display_engine_error error)) []) r2 of
             (r3, e) \<Rightarrow> (r3, Inl e))
      | (r2, Inr _) \<Rightarrow>
          (case execute_apply eng previous desired full [] r2 of
             (r3, journal, Inr _) \<Rightarrow> (commit_transaction eng ld prepared desired r3, Inr ())
           | (r3, journal, Inl failure) \<Rightarrow>
               (case finish_failed_transaction eng (failed failure journal) r3 of (r4, e) \<Rightarrow> (r4, Inl e))))"

definition apply_transaction_locked :: "yaml_api \<Rightarrow> ('e, 'l) engine \<Rightarrow> 'w rule_set_loader \<Rightarrow> RuntimeConfig \<Rightarrow> PreparedRuleSets \<Rightarrow> bool \<Rightarrow>
    ('e, 'l, 'w, RuntimeError + unit) step" where
  "apply_transaction_locked ya eng ld config prepared force_reload r =
     (if rt_closing r \<or> ap_closed (rt_state r) then (r, Inl (runtime_error_unchanged ''runtime is closed'' (engine_running eng r)))
      else case desired_config ya (eg_traffic_analysis_disabled eng (rt_engine r)) prepared config of
        Inl error \<Rightarrow> (r, Inl (runtime_error_unchanged error (engine_running eng r)))
      | Inr desired \<Rightarrow>
          (case recover_if_needed eng r of
             (r1, Inl error) \<Rightarrow> (r1, Inl error)
           | (r1, Inr _) \<Rightarrow>
               let previous = the (ap_current (rt_state r1)) in
               (case validate_inbounds eng (rt_engine r1) (map snd (nz_inbounds desired)) of
                  Inl error \<Rightarrow> (r1, Inl (runtime_error_unchanged error (engine_running eng r1)))
                | Inr _ \<Rightarrow>
                    (case eg_validate_urltest_probe_dns eng (rt_engine r1) (nz_urltest_probe_dns desired) of
                       Inl error \<Rightarrow>
                         (r1, Inl (runtime_error_unchanged (''validate generation-global URLTest probe DNS: '' @ display_engine_error error)
                            (engine_running eng r1)))
                     | Inr _ \<Rightarrow>
                         (case capture_replay_state eng previous r1 of
                            Inl error \<Rightarrow> (r1, Inl error)
                          | Inr replay \<Rightarrow> run_transaction eng ld prepared previous desired replay force_reload r1)))))"

section \<open>The watcher\<close>

definition is_remote :: "RuleSetResource \<Rightarrow> bool" where
  "is_remote resource \<longleftrightarrow> (case rsr_source resource of Remote _ \<Rightarrow> True | _ \<Rightarrow> False)"

definition cancel_rule_set_watcher_locked :: "('e, 'l, 'w) ShoesRuntime \<Rightarrow> ('e, 'l, 'w) ShoesRuntime" where
  "cancel_rule_set_watcher_locked r =
     r\<lparr> rt_watcher := \<lparr> rw_generation = rw_generation (rt_watcher r) + 1, rw_cancel = False \<rparr> \<rparr>"

text \<open>The smallest interval of the remote resources; zero or no resource leaves no watcher. The second
  component is the generation of the task that is spawned.\<close>

definition install_rule_set_watcher_locked :: "RuntimeConfig \<Rightarrow> ('e, 'l, 'w, u64 option) step" where
  "install_rule_set_watcher_locked config r =
     (let intervals = map rsr_update_interval (filter is_remote (rc_rule_sets config));
          generation = rw_generation (rt_watcher r) + 1 in
      if intervals = [] \<or> Min (set intervals) = 0
      then (r\<lparr> rt_watcher := \<lparr> rw_generation = generation, rw_cancel = False \<rparr> \<rparr>, None)
      else (r\<lparr> rt_watcher := \<lparr> rw_generation = generation, rw_cancel = True \<rparr> \<rparr>, Some generation))"

definition rule_set_watcher_is_active :: "u64 \<Rightarrow> ('e, 'l, 'w) ShoesRuntime \<Rightarrow> bool" where
  "rule_set_watcher_is_active generation r \<longleftrightarrow>
     rw_generation (rt_watcher r) = generation \<and> rw_cancel (rt_watcher r) \<and> \<not> rt_closing r"

section \<open>Shutdown\<close>

definition begin_close :: "('e, 'l, 'w) ShoesRuntime \<Rightarrow> ('e, 'l, 'w) ShoesRuntime" where
  "begin_close r = r\<lparr> rt_closing := True \<rparr>"

fun stop_all :: "('e, 'l) engine \<Rightarrow> (string \<rightharpoonup> RetiringInbound) \<Rightarrow> InboundInfo list \<Rightarrow> ('e, 'l, 'w, string list) step" where
  "stop_all eng known [] r = (r, [])"
| "stop_all eng known (info # infos) r =
     (case force_stop_tag eng (ii_tag info) (known (ii_tag info)) r of
        (r1, Inr _) \<Rightarrow> stop_all eng known infos r1
      | (r1, Inl error) \<Rightarrow> (case stop_all eng known infos r1 of (r2, errors) \<Rightarrow> (r2, error # errors)))"

definition close_known :: "AppliedState \<Rightarrow> string \<rightharpoonup> RetiringInbound" where
  "close_known state =
     (\<lambda>tag. case ap_recovery_live state tag of
        Some inbound \<Rightarrow> Some inbound
      | None \<Rightarrow> Option.bind (case ap_current state of Some config \<Rightarrow> Some config | None \<Rightarrow> ap_recovery state)
          (\<lambda>config. map_option (\<lambda>inbound. \<lparr> rg_live = inbound, rg_accounting = inbound \<rparr>) (map_of (nz_inbounds config) tag)))"

definition emptied :: "('e, 'l, 'w) ShoesRuntime \<Rightarrow> ('e, 'l, 'w) ShoesRuntime" where
  "emptied r = r\<lparr> rt_state := (rt_state r)\<lparr> ap_current := Some NormalizedConfig_default, ap_recovery := None, ap_recovery_live := Map.empty,
       ap_committed := False \<rparr>, rt_recovery_replay := Map.empty \<rparr>"

definition close_owned :: "('e, 'l) engine \<Rightarrow> ('e, 'l, 'w, RuntimeError + unit) step" where
  "close_owned eng r =
     (let r1 = cancel_rule_set_watcher_locked (begin_close r) in
      if ap_closed (rt_state r1) \<and> \<not> engine_running eng r1 then (emptied r1, Inr ())
      else
        let state = rt_state r1 in
        case stop_all eng (close_known state) (eg_list_inbounds eng (rt_engine r1)) r1 of (r2, errors) \<Rightarrow>
        let r3 = r2\<lparr> rt_state := (rt_state r2)\<lparr> ap_closed := True \<rparr> \<rparr> in
        if errors = [] then (emptied r3, Inr ())
        else
          let r4 = r3\<lparr> rt_state := (rt_state r3)\<lparr> ap_current := None,
                 ap_recovery := (case ap_current state of Some config \<Rightarrow> Some config | None \<Rightarrow> ap_recovery state),
                 ap_recovery_live := ap_recovery_live state \<rparr> \<rparr> in
          (r4, Inl (runtime_error_failed ''close shoes runtime'' errors False False (engine_running eng r4))))"

section \<open>Reports\<close>

record ConnectionStats =
  cs_active_connections :: u64
  cs_online_users :: nat

definition tags_of_node :: "string \<Rightarrow> ('e, 'l, 'w) ShoesRuntime \<Rightarrow> string list" where
  "tags_of_node node_id r =
     (case ap_current (rt_state r) of
        None \<Rightarrow> []
      | Some current \<Rightarrow> map fst (filter (\<lambda>(tag, inbound). ci_node_id (nb_compiled inbound) = node_id) (nz_inbounds current)))"

definition stats_of :: "UserInfo list \<Rightarrow> ConnectionStats" where
  "stats_of users =
     \<lparr> cs_active_connections = foldl (\<lambda>n user. saturating_add n (ui_conns user)) 0 users,
       cs_online_users = card (ui_id ` set (filter (\<lambda>user. ui_conns user > 0) users)) \<rparr>"

definition connection_stats_owned :: "('e, 'l) engine \<Rightarrow> string \<Rightarrow> ('e, 'l, 'w) ShoesRuntime \<Rightarrow> ConnectionStats" where
  "connection_stats_owned eng node_id r =
     (if node_id = [] then stats_of []
      else stats_of (concat (map (\<lambda>tag. case eg_list_users eng (rt_engine r) tag of Inr users \<Rightarrow> users | Inl _ \<Rightarrow> []) (tags_of_node node_id r))))"

fun all_users :: "('e, 'l) engine \<Rightarrow> 'e \<Rightarrow> string list \<Rightarrow> UserInfo list option" where
  "all_users eng e [] = Some []"
| "all_users eng e (tag # tags) =
     (case eg_list_users eng e tag of
        Inl _ \<Rightarrow> None
      | Inr users \<Rightarrow> map_option (\<lambda>rest. users @ rest) (all_users eng e tags))"

definition telemetry_connection_stats :: "('e, 'l) engine \<Rightarrow> string \<Rightarrow> ('e, 'l, 'w) ShoesRuntime \<Rightarrow> ConnectionStats option" where
  "telemetry_connection_stats eng node_id r =
     (if node_id = [] \<or> rt_closing r \<or> ap_current (rt_state r) = None then None
      else map_option stats_of (all_users eng (rt_engine r) (tags_of_node node_id r)))"

text \<open>The health report of a runtime whose locks are free.\<close>

definition health_snapshot :: "('e, 'l) engine \<Rightarrow> ('e, 'l, 'w) ShoesRuntime \<Rightarrow> RuntimeHealthSnapshot option" where
  "health_snapshot eng r =
     (if ap_closed (rt_state r) \<or> rt_closing r \<or> \<not> ap_committed (rt_state r)
      then Some \<lparr> rhs_running = False, rhs_failure = None \<rparr>
      else case ap_current (rt_state r) of
        None \<Rightarrow> Some \<lparr> rhs_running = False, rhs_failure = Some ''committed shoes runtime lost after failed recovery'' \<rparr>
      | Some current \<Rightarrow>
          let missing = filter (\<lambda>tag. \<not> eg_get_inbound eng (rt_engine r) tag) (map fst (nz_inbounds current));
              failed = eg_failed_listener_tags eng (rt_engine r) in
          Some \<lparr> rhs_running = True,
            rhs_failure = (if missing \<noteq> [] then Some (''committed inbound(s) missing: '' @ join '', '' missing)
              else if failed \<noteq> [] then Some (''listener stopped for inbound(s): '' @ join '', '' failed)
              else None) \<rparr>)"

fun kick_tags :: "('e, 'l) engine \<Rightarrow> string \<Rightarrow> string list \<Rightarrow> u64 \<Rightarrow> ('e, 'l, 'w, u64) step" where
  "kick_tags eng uid [] closed r = (r, closed)"
| "kick_tags eng uid (tag # tags) closed r =
     (case on_engine (\<lambda>e. eg_kick_user eng e tag uid) r of
        (r1, Inr kicked) \<Rightarrow> kick_tags eng uid tags (saturating_add closed kicked) r1
      | (r1, Inl _) \<Rightarrow> kick_tags eng uid tags closed r1)"

definition close_user_connections_owned :: "('e, 'l) engine \<Rightarrow> string \<Rightarrow> string \<Rightarrow> ('e, 'l, 'w, u64) step" where
  "close_user_connections_owned eng node_id uid r =
     (if node_id = [] \<or> uid = [] then (r, 0) else kick_tags eng uid (tags_of_node node_id r) 0 r)"

fun sweep :: "('e, 'l) engine \<Rightarrow> (string \<times> NormalizedInbound) list \<Rightarrow> TrafficDrainEntries \<Rightarrow> ('e, 'l, 'w, TrafficDrainEntries) step" where
  "sweep eng [] drained r = (r, drained)"
| "sweep eng ((tag, inbound) # rest) drained r =
     (case on_engine (\<lambda>e. eg_take_nonzero_inbound_traffic eng e tag) r of
        (r1, Inr users) \<Rightarrow> sweep eng rest (foldl merge_traffic_entry drained (map (traffic_drain inbound) users)) r1
      | (r1, Inl _) \<Rightarrow> sweep eng rest drained r1)"

definition drain_traffic_owned :: "('e, 'l) engine \<Rightarrow> ('e, 'l, 'w, TrafficDrain list) step" where
  "drain_traffic_owned eng r =
     (case pending_drain (rt_pending r) of (p, collected) \<Rightarrow>
      let r1 = r\<lparr> rt_pending := p \<rparr>; drained = foldl merge_traffic_entry [] collected in
      case (case ap_current (rt_state r1) of
              None \<Rightarrow> (r1, drained)
            | Some current \<Rightarrow> sweep eng (nz_inbounds current) drained r1) of
        (r2, entries) \<Rightarrow> (r2, flatten_entries entries))"

section \<open>External applies and refreshes\<close>

text \<open>An apply and a refresh hold the configuration lock from the preparation to the end, so there is one of them at a time,
  but take the apply lock only after the preparation. The calls of other tasks that need no configuration lock may run
  while the rule sets are prepared: drains, kicks and the shutdown.\<close>

datatype side_call = DrainTraffic | KickUser string string | BeginClose | CloseRuntime

fun run_call :: "('e, 'l) engine \<Rightarrow> side_call \<Rightarrow> ('e, 'l, 'w) ShoesRuntime \<Rightarrow> ('e, 'l, 'w) ShoesRuntime" where
  "run_call eng DrainTraffic r = fst (drain_traffic_owned eng r)"
| "run_call eng (KickUser node_id uid) r = fst (close_user_connections_owned eng node_id uid r)"
| "run_call eng BeginClose r = begin_close r"
| "run_call eng CloseRuntime r = fst (close_owned eng r)"

definition load_rule_sets :: "'w rule_set_loader \<Rightarrow> RuntimeConfig \<Rightarrow> ('e, 'l, 'w, string + PreparedRuleSets) step" where
  "load_rule_sets ld config r =
     (case ld_prepare ld (rt_rule_sets r) (rc_rule_sets config) of
        (w, closing, result) \<Rightarrow> (r\<lparr> rt_rule_sets := w, rt_closing := (rt_closing r \<or> closing) \<rparr>, result))"

definition prepare_error :: "('e, 'l) engine \<Rightarrow> ('e, 'l, 'w) ShoesRuntime \<Rightarrow> string + PreparedRuleSets \<Rightarrow> RuntimeError + PreparedRuleSets" where
  "prepare_error eng r = rmap_err (\<lambda>e. runtime_error_unchanged (''prepare route rule-set resources: '' @ e) (engine_running eng r))"

text \<open>The calls given as an argument are the ones that run during the preparation.\<close>

definition prepare_rule_sets :: "('e, 'l) engine \<Rightarrow> 'w rule_set_loader \<Rightarrow> RuntimeConfig \<Rightarrow> side_call list \<Rightarrow>
    ('e, 'l, 'w, RuntimeError + PreparedRuleSets) step" where
  "prepare_rule_sets eng ld config calls r =
     (case load_rule_sets ld config r of
        (r1, result) \<Rightarrow> let r2 = fold (run_call eng) calls r1 in (r2, prepare_error eng r2 result))"

text \<open>What follows the preparation, under the apply lock where it succeeded.\<close>

definition finish_external :: "yaml_api \<Rightarrow> ('e, 'l) engine \<Rightarrow> 'w rule_set_loader \<Rightarrow> RuntimeConfig \<Rightarrow> bool \<Rightarrow> RuntimeError + PreparedRuleSets \<Rightarrow>
    ('e, 'l, 'w, RuntimeError + unit) step" where
  "finish_external ya eng ld config force_reload preparation r =
     (case preparation of
        Inl error \<Rightarrow> (r, Inl error)
      | Inr prepared \<Rightarrow>
          (case apply_transaction_locked ya eng ld config prepared force_reload r of
             (r1, Inl error) \<Rightarrow> (r1, Inl error)
           | (r1, Inr _) \<Rightarrow>
               (if list_ex is_remote (rc_rule_sets config) then fst (install_rule_set_watcher_locked config r1)
                else cancel_rule_set_watcher_locked r1, Inr ())))"

definition apply_external_owned :: "yaml_api \<Rightarrow> ('e, 'l) engine \<Rightarrow> 'w rule_set_loader \<Rightarrow> RuntimeConfig \<Rightarrow> bool \<Rightarrow> side_call list \<Rightarrow>
    ('e, 'l, 'w, RuntimeError + unit) step" where
  "apply_external_owned ya eng ld config force_reload calls r =
     (if rt_closing r then (r, Inl (runtime_error_unchanged ''runtime is closed'' (engine_running eng r)))
      else case prepare_rule_sets eng ld config calls r of
        (r1, preparation) \<Rightarrow> finish_external ya eng ld config force_reload preparation r1)"

text \<open>A refresh of the watcher of a generation; \<open>None\<close> when the generation has retired.\<close>

definition finish_refresh :: "yaml_api \<Rightarrow> ('e, 'l) engine \<Rightarrow> 'w rule_set_loader \<Rightarrow> u64 \<Rightarrow> RuntimeConfig \<Rightarrow> RuntimeError + PreparedRuleSets \<Rightarrow>
    ('e, 'l, 'w, (RuntimeError + unit) option) step" where
  "finish_refresh ya eng ld generation config preparation r =
     (if \<not> rule_set_watcher_is_active generation r \<or> ap_closed (rt_state r) then (r, None)
      else case preparation of
          Inl error \<Rightarrow> (r, Some (Inl error))
        | Inr prepared \<Rightarrow>
            (case apply_transaction_locked ya eng ld config prepared False r of (r1, result) \<Rightarrow> (r1, Some result)))"

definition refresh_rule_sets_owned :: "yaml_api \<Rightarrow> ('e, 'l) engine \<Rightarrow> 'w rule_set_loader \<Rightarrow> u64 \<Rightarrow> RuntimeConfig \<Rightarrow> side_call list \<Rightarrow>
    ('e, 'l, 'w, (RuntimeError + unit) option) step" where
  "refresh_rule_sets_owned ya eng ld generation config calls r =
     (if \<not> rule_set_watcher_is_active generation r \<or> ap_closed (rt_state r) then (r, None)
      else case prepare_rule_sets eng ld config calls r of
        (r1, preparation) \<Rightarrow> finish_refresh ya eng ld generation config preparation r1)"

definition shoes_current_config :: "('e, 'l, 'w) ShoesRuntime \<Rightarrow> bytes" where
  "shoes_current_config r = (case ap_current (rt_state r) of Some config \<Rightarrow> nz_diagnostic_yaml config | None \<Rightarrow> [])"

definition shoes_reload_config :: "yaml_api \<Rightarrow> ('e, 'l) engine \<Rightarrow> 'w rule_set_loader \<Rightarrow> RuntimeConfig \<Rightarrow> side_call list \<Rightarrow>
    ('e, 'l, 'w, RuntimeError + ReloadStatus) step" where
  "shoes_reload_config ya eng ld config calls r =
     (case apply_external_owned ya eng ld config True calls r of
        (r', Inl error) \<Rightarrow> (r', Inl error)
      | (r', Inr _) \<Rightarrow> (r', Inr \<lparr> rls_running = True, rls_rolled_back = False \<rparr>))"

text \<open>\<open>impl NodeRuntime for ShoesRuntime\<close>. The spawned tasks do not panic, so their join errors do not occur. The given calls
  are the ones that run while a configuration is prepared.\<close>

definition shoes_runtime :: "yaml_api \<Rightarrow> ('e, 'l) engine \<Rightarrow> 'w rule_set_loader \<Rightarrow> side_call list \<Rightarrow>
    (('e, 'l, 'w) ShoesRuntime, RuntimeConfig) node_runtime" where
  "shoes_runtime ya eng ld calls =
     \<lparr> nr_traffic_analysis_disabled = (\<lambda>r. eg_traffic_analysis_disabled eng (rt_engine r)),
       nr_apply_config = (\<lambda>r config. apply_external_owned ya eng ld config False calls r),
       nr_reload_config = (\<lambda>r config. shoes_reload_config ya eng ld config calls r),
       nr_current_config = shoes_current_config,
       nr_begin_close = begin_close,
       nr_close = (\<lambda>r. close_owned eng r),
       nr_runtime_health_snapshot = (\<lambda>r. health_snapshot eng r),
       nr_close_user_connections = (\<lambda>r node_id uid. close_user_connections_owned eng node_id uid r) \<rparr>"

end
