(* ===== verification/Runtime_Recovery.thy ===== *)
theory Runtime_Recovery
  imports Runtime_Commit Runtime_Apply
begin

text \<open>
  The operations of the runtime on its whole state. The invariant says that a configuration recorded as
  current is the one the engine serves, and that a runtime without one knows the configuration to rebuild.
  Failed transactions, recovery and shutdown keep it.
\<close>

section \<open>Invariant\<close>

definition runtime_ok :: "('e \<Rightarrow> bool) \<Rightarrow> ('e \<Rightarrow> 'u live_view) \<Rightarrow> (json \<Rightarrow> UserSpec \<Rightarrow> 'u) \<Rightarrow> ('e, 'l, 'w) ShoesRuntime \<Rightarrow> bool" where
  "runtime_ok good view eff r \<longleftrightarrow> calm good r \<and>
     (case ap_current (rt_state r) of
        Some c \<Rightarrow> config_wf c \<and> view (rt_engine r) = config_view eff c
      | None \<Rightarrow> ap_recovery (rt_state r) \<noteq> None) \<and>
     (\<forall>c. ap_recovery (rt_state r) = Some c \<longrightarrow> config_wf c)"

text \<open>What an operation keeps that may also move the recovery record.\<close>

definition drifted :: "('e, 'l) engine \<Rightarrow> ('e \<Rightarrow> bool) \<Rightarrow> ('e, 'l, 'w) ShoesRuntime \<Rightarrow> ('e, 'l, 'w) ShoesRuntime \<Rightarrow> bool" where
  "drifted eng good r r' \<longleftrightarrow> calm good r' \<and> rt_rule_sets r' = rt_rule_sets r \<and> rt_closing r' = rt_closing r \<and>
     rt_watcher r' = rt_watcher r \<and> ap_current (rt_state r') = ap_current (rt_state r) \<and> ap_recovery (rt_state r') = ap_recovery (rt_state r) \<and>
     ap_committed (rt_state r') = ap_committed (rt_state r) \<and> ap_closed (rt_state r') = ap_closed (rt_state r) \<and>
     rt_recovery_replay r' = rt_recovery_replay r \<and>
     eg_traffic_analysis_disabled eng (rt_engine r') = eg_traffic_analysis_disabled eng (rt_engine r)"

lemma drifted_trans [trans]: "drifted eng good r r' \<Longrightarrow> drifted eng good r' r'' \<Longrightarrow> drifted eng good r r''"
  by (simp add: drifted_def)

lemma stepped_drifted: "stepped eng good r r' \<Longrightarrow> drifted eng good r r'"
  by (simp add: drifted_def stepped_def)

lemma drifted_calm: "drifted eng good r r' \<Longrightarrow> calm good r'"
  by (simp add: drifted_def)

lemma drifted_publish: "calm good r \<Longrightarrow> drifted eng good r (publish_recovery_live live r)"
  by (simp add: drifted_def publish_recovery_live_def calm_def)

lemma publish_engine [simp]: "rt_engine (publish_recovery_live live r) = rt_engine r"
  by (simp add: publish_recovery_live_def)

text \<open>What every transaction keeps.\<close>

definition kept :: "('e, 'l) engine \<Rightarrow> ('e \<Rightarrow> bool) \<Rightarrow> ('e, 'l, 'w) ShoesRuntime \<Rightarrow> ('e, 'l, 'w) ShoesRuntime \<Rightarrow> bool" where
  "kept eng good r r' \<longleftrightarrow> calm good r' \<and> rt_closing r' = rt_closing r \<and> rt_watcher r' = rt_watcher r \<and>
     ap_closed (rt_state r') = ap_closed (rt_state r) \<and>
     eg_traffic_analysis_disabled eng (rt_engine r') = eg_traffic_analysis_disabled eng (rt_engine r)"

lemma kept_trans [trans]: "kept eng good r r' \<Longrightarrow> kept eng good r' r'' \<Longrightarrow> kept eng good r r''"
  by (simp add: kept_def)

lemma drifted_kept: "drifted eng good r r' \<Longrightarrow> kept eng good r r'"
  by (simp add: kept_def drifted_def)

context engine_contract
begin

section \<open>Failed transactions\<close>

lemma runtime_error_flags [simp]:
  "rte_rolled_back (runtime_error_failed operation rollback rolled_back unchanged running) = rolled_back"
  "rte_state_unchanged (runtime_error_failed operation rollback rolled_back unchanged running) = unchanged"
  "rte_running (runtime_error_failed operation rollback rolled_back unchanged running) = running"
  "\<not> rte_rolled_back (runtime_error_unchanged operation running)"
  "rte_state_unchanged (runtime_error_unchanged operation running)"
  by (simp_all add: runtime_error_failed_def runtime_error_unchanged_def)

lemma rotate_step:
  assumes "calm good r"
  shows "stepped eng good r (rotate_dns eng r) \<and> view (rt_engine (rotate_dns eng r)) = view (rt_engine r)"
  using rotate_dns_client_generation [OF calm_good [OF assms]] assms
  by (auto simp: rotate_dns_def on_engine_def stepped_def calm_def moved_def split: prod.splits)

lemma commit_groups_step:
  assumes "calm good r"
  shows "stepped eng good r (commit_groups eng r) \<and> view (rt_engine (commit_groups eng r)) = view (rt_engine r)"
  using commit_client_chain_group_generation [OF calm_good [OF assms]] assms
  by (auto simp: commit_groups_def stepped_def calm_def moved_def)

lemma commit_groups_state [simp]:
  "rt_state (commit_groups eng r) = rt_state r" "rt_recovery_replay (commit_groups eng r) = rt_recovery_replay r"
  by (simp_all add: commit_groups_def)

lemma restore_probe_step:
  assumes "restore_probe_dns eng t r = (r', errors)" "calm good r"
  shows "stepped eng good r r' \<and> view (rt_engine r') = view (rt_engine r)"
proof (cases "ft_full_reload t")
  case True
  obtain r1 y where run: "on_engine (\<lambda>e. eg_configure_urltest_probe_dns eng e (nz_urltest_probe_dns (ft_previous t))) (rotate_dns eng r) = (r1, y)"
    by fastforce
  note rotated = rotate_step [OF assms(2)]
  note step = configure_step [OF run stepped_calm [OF conjunct1 [OF rotated]]]
  have "r' = r1" using assms(1) True run by (auto simp: restore_probe_dns_def split: sum.splits)
  with rotated step show ?thesis using stepped_trans by metis
next
  case False
  with assms show ?thesis by (simp add: restore_probe_dns_def stepped_refl)
qed

lemma refresh_one:
  assumes "view (rt_engine r) (nb_tag inbound) = Some (inbound_view eff inbound)" "inbound_wf inbound" "calm good r"
    and "on_engine (\<lambda>e. eg_update_inbound eng e (update_spec inbound)) r = (r', x)"
  shows "stepped eng good r r' \<and> view (rt_engine r') = view (rt_engine r)"
proof -
  have same: "(inbound_view eff inbound)\<lparr> lv_config := is_config (nb_spec inbound) \<rparr> = inbound_view eff inbound"
    by (simp add: inbound_view_def)
  from update_step [OF assms(4,3)] assms(1) same show ?thesis
    by (auto simp: update_spec_def fun_upd_idem split: sum.splits)
qed

lemma replace_same:
  assumes "replace_inbound eng inbound inbound r = (r', x)" "calm good r"
  shows "stepped eng good r r'"
    and "x = Inr u \<Longrightarrow> inbound_wf inbound \<Longrightarrow> view (rt_engine r) (nb_tag inbound) = Some (inbound_view eff inbound) \<Longrightarrow>
      view (rt_engine r') = view (rt_engine r)"
  using assms replace_step [of inbound inbound inbound inbound _ r r' x]
  by (auto simp: replace_inbound_def replace_inbound_with_replay_def stepped_refl spec_view_wf fun_upd_idem split: sum.splits)

lemma refresh_inbounds_step:
  assumes "refresh_inbounds eng inbounds r = (r', errors)" "calm good r"
  shows "stepped eng good r r' \<and>
    (errors = [] \<and> (\<forall>inbound \<in> set inbounds. inbound_wf inbound \<and> view (rt_engine r) (nb_tag inbound) = Some (inbound_view eff inbound)) \<longrightarrow>
      view (rt_engine r') = view (rt_engine r))"
  using assms
proof (induction inbounds arbitrary: r errors)
  case Nil
  then show ?case by (simp add: stepped_refl)
next
  case (Cons inbound rest)
  obtain r1 y where up: "on_engine (\<lambda>e. eg_update_inbound eng e (update_spec inbound)) r = (r1, y)" by fastforce
  have step1: "stepped eng good r r1" using update_step [OF up Cons.prems(2)] by blast
  note same = refresh_one [OF _ _ Cons.prems(2) up]
  have go: ?case if rest: "refresh_inbounds eng rest r2 = (r', errors2)" "errors = [] \<longrightarrow> errors2 = []" "stepped eng good r r2"
      "errors = [] \<and> inbound_wf inbound \<and> view (rt_engine r) (nb_tag inbound) = Some (inbound_view eff inbound) \<longrightarrow>
        view (rt_engine r2) = view (rt_engine r)" for r2 errors2
    using Cons.IH [OF rest(1) stepped_calm [OF rest(3)]] rest(2-4) stepped_trans [OF rest(3)] by auto
  consider (ok) "refresh_inbounds eng rest r1 = (r', errors)" | (failed) errors2 where "refresh_inbounds eng rest r1 = (r', errors2)" "errors \<noteq> []"
    | (replaced) r2 z where "replace_inbound eng inbound inbound r1 = (r2, z)" "z = Inr () \<longrightarrow> refresh_inbounds eng rest r2 = (r', errors)"
        "z \<noteq> Inr () \<longrightarrow> errors \<noteq> [] \<and> (\<exists>errors2. refresh_inbounds eng rest r2 = (r', errors2))"
    using Cons.prems(1) up by (auto split: sum.splits EngineError.splits prod.splits)
  then show ?case
  proof cases
    case ok
    then show ?thesis by (rule go) (use step1 same in auto)
  next
    case failed
    show ?thesis by (rule go [OF failed(1)]) (use step1 failed(2) in auto)
  next
    case replaced
    note step2 = replace_same [OF replaced(1) stepped_calm [OF step1]]
    have far: "stepped eng good r r2" using step1 step2(1) by (rule stepped_trans)
    show ?thesis
    proof (cases "z = Inr ()")
      case True
      show ?thesis by (rule go [of r2 errors]) (use replaced True far same step2 in auto)
    next
      case False
      with replaced(3) obtain errors2 where "refresh_inbounds eng rest r2 = (r', errors2)" "errors \<noteq> []" by blast
      then show ?thesis by (intro go [of r2 errors2]) (use far in auto)
    qed
  qed
qed

lemma finish_failed:
  assumes "finish_failed_transaction eng t r = (r', e)" "calm good r" "list_all undo_wf (ft_journal t)" "config_wf (ft_previous t)"
    and "sf_restored (ft_failure t) \<Longrightarrow> fold (undo_view eff) (ft_journal t) (view (rt_engine r)) = config_view eff (ft_previous t)"
  shows "kept eng good r r'" "rt_rule_sets r' = rt_rule_sets r" "ap_committed (rt_state r') = ap_committed (rt_state r)"
    and "rte_running e \<Longrightarrow> ap_current (rt_state r') = Some (ft_previous t) \<and> view (rt_engine r') = config_view eff (ft_previous t) \<and>
      ap_recovery (rt_state r') = None"
    and "\<not> rte_running e \<Longrightarrow> ap_current (rt_state r') = None \<and> ap_recovery (rt_state r') = Some (ft_previous t)"
    and "rte_rolled_back e \<or> rte_state_unchanged e \<Longrightarrow> rte_running e"
proof -
  obtain r1 dns_errors where dns: "restore_probe_dns eng t r = (r1, dns_errors)" by fastforce
  obtain r2 journal_errors live where undone: "rollback_journal eng (ft_journal t) r1 = (r2, journal_errors, live)" by (metis prod_cases3)
  define rollback where "rollback = sf_rollback (ft_failure t) @ dns_errors @ journal_errors"
  obtain r3 refresh_errors where refresh: "(if ft_client_rotated t \<and> sf_restored (ft_failure t) \<and> rollback = []
      then refresh_inbounds eng (map snd (nz_inbounds (ft_previous t))) r2 else (r2, [])) = (r3, refresh_errors)" by fastforce
  define full where "full = (sf_restored (ft_failure t) \<and> rollback @ refresh_errors = [])"
  note step1 = restore_probe_step [OF dns assms(2)]
  note step2 = rollback_step [OF undone stepped_calm [OF conjunct1 [OF step1]]]
  have step3: "stepped eng good r2 r3 \<and> (refresh_errors = [] \<and>
      (\<forall>inbound \<in> set (map snd (nz_inbounds (ft_previous t))). inbound_wf inbound \<and> view (rt_engine r2) (nb_tag inbound) = Some (inbound_view eff inbound)) \<longrightarrow>
      view (rt_engine r3) = view (rt_engine r2))"
    using refresh refresh_inbounds_step [of _ r2 r3 refresh_errors] stepped_calm [OF step2(1)] by (auto simp: stepped_refl split: if_splits)
  have far: "stepped eng good r r3" using step1 step2(1) step3 by (blast intro: stepped_trans)
  have view3: "view (rt_engine r3) = config_view eff (ft_previous t)" if full
  proof -
    have "journal_errors = []" "sf_restored (ft_failure t)" "refresh_errors = []" using that by (auto simp: full_def rollback_def)
    with step1 step2(2) assms(3,5) have view2: "view (rt_engine r2) = config_view eff (ft_previous t)" by simp
    have "inbound_wf inbound \<and> view (rt_engine r2) (nb_tag inbound) = Some (inbound_view eff inbound)"
      if "inbound \<in> set (map snd (nz_inbounds (ft_previous t)))" for inbound
      using that bt_wf_entry [OF config_wfD(1) [OF assms(4)]] config_wfD [OF assms(4)] view2 by fastforce
    with step3 \<open>refresh_errors = []\<close> view2 show ?thesis by simp
  qed
  define r4 where "r4 = (if full
      then commit_groups eng (r3\<lparr> rt_state := (rt_state r3)\<lparr> ap_current := Some (ft_previous t), ap_recovery := None, ap_recovery_live := Map.empty \<rparr>,
             rt_recovery_replay := Map.empty \<rparr>)
      else r3\<lparr> rt_state := (rt_state r3)\<lparr> ap_current := None, ap_recovery := Some (ft_previous t), ap_recovery_live := live \<rparr>,
             rt_recovery_replay := ft_previous_replay t \<rparr>)"
  have "finish_failed_transaction eng t r = (r4, runtime_error_failed (sf_operation (ft_failure t)) (rollback @ refresh_errors)
      (full \<and> (ft_full_reload t \<or> sf_changed (ft_failure t) \<or> ft_journal t \<noteq> []) \<and> nz_inbounds (ft_previous t) \<noteq> [])
      (full \<and> \<not> (ft_full_reload t \<or> sf_changed (ft_failure t) \<or> ft_journal t \<noteq> [])) full)"
    unfolding finish_failed_transaction_def Let_def dns prod.case undone rollback_def [symmetric] refresh full_def [symmetric] r4_def ..
  with assms(1) have out: "r' = r4" "rte_running e = full" "rte_rolled_back e \<longrightarrow> full" "rte_state_unchanged e \<longrightarrow> full"
    by (auto simp: runtime_error_failed_def)
  show "rte_rolled_back e \<or> rte_state_unchanged e \<Longrightarrow> rte_running e" using out by blast
  have r4: "kept eng good r r4 \<and> rt_rule_sets r4 = rt_rule_sets r \<and> ap_committed (rt_state r4) = ap_committed (rt_state r) \<and>
      view (rt_engine r4) = view (rt_engine r3) \<and>
      (if full then ap_current (rt_state r4) = Some (ft_previous t) \<and> ap_recovery (rt_state r4) = None
       else ap_current (rt_state r4) = None \<and> ap_recovery (rt_state r4) = Some (ft_previous t))"
  proof (cases full)
    case True
    let ?r = "r3\<lparr> rt_state := (rt_state r3)\<lparr> ap_current := Some (ft_previous t), ap_recovery := None, ap_recovery_live := Map.empty \<rparr>,
             rt_recovery_replay := Map.empty \<rparr>"
    have "calm good ?r" using stepped_calm [OF far] by (simp add: calm_def)
    from commit_groups_step [OF this] far True show ?thesis by (simp add: r4_def stepped_def kept_def)
  next
    case False
    with far show ?thesis by (simp add: r4_def stepped_def kept_def calm_def)
  qed
  then show "kept eng good r r'" "rt_rule_sets r' = rt_rule_sets r" "ap_committed (rt_state r') = ap_committed (rt_state r)"
    "\<not> rte_running e \<Longrightarrow> ap_current (rt_state r') = None \<and> ap_recovery (rt_state r') = Some (ft_previous t)"
    using out(1,2) by (auto split: if_splits)
  show "rte_running e \<Longrightarrow> ap_current (rt_state r') = Some (ft_previous t) \<and> view (rt_engine r') = config_view eff (ft_previous t) \<and>
      ap_recovery (rt_state r') = None"
    using out(1,2) r4 view3 by simp
qed

section \<open>Stopping every listener\<close>

lemma retire_ids_step:
  assumes "retire_ids eng tag accounting uids r = (r', x)" "calm good r"
  shows "stepped eng good r r' \<and> (\<forall>t. t \<noteq> tag \<longrightarrow> view (rt_engine r') t = view (rt_engine r) t)"
  using assms
proof (induction uids arbitrary: r)
  case Nil
  then show ?case by (simp add: stepped_refl)
next
  case (Cons uid uids)
  obtain r1 y where ret: "retire_user eng tag accounting uid r = (r1, y)" by fastforce
  note step = retire_step [OF ret Cons.prems(2)]
  have "r' = r1 \<or> retire_ids eng tag accounting uids r1 = (r', x)"
    using Cons.prems(1) ret by (auto split: retirement.splits if_splits)
  then show ?case
  proof
    assume "r' = r1"
    with step show ?thesis by blast
  next
    assume "retire_ids eng tag accounting uids r1 = (r', x)"
    from Cons.IH [OF this stepped_calm [OF conjunct1 [OF step]]] step show ?thesis by (auto intro: stepped_trans)
  qed
qed

lemma force_stop_step:
  assumes "force_stop_tag eng tag known r = (r', x)" "calm good r"
  shows "stepped eng good r r' \<and> (x = Inr () \<longrightarrow> view (rt_engine r') = (view (rt_engine r))(tag := None)) \<and>
    (\<forall>t. t \<noteq> tag \<longrightarrow> view (rt_engine r') t = view (rt_engine r) t)"
proof -
  let ?collect = "case eg_list_users eng (rt_engine r) tag of
      Inr users \<Rightarrow>
        let uids = stop_ids users known in
        (case known of
           None \<Rightarrow> if uids \<noteq> [] then (r, Inl (''cannot safely stop untracked inbound '' @ tag @ '': traffic ownership metadata is unavailable''))
             else (r, Inr ())
         | Some inbound \<Rightarrow> retire_ids eng tag (rg_accounting inbound) uids r)
    | Inl (Unsupported _) \<Rightarrow> (r, Inr ())
    | Inl error \<Rightarrow> (r, Inl (''list users while stopping '' @ tag @ '': '' @ display_engine_error error))"
  obtain r1 y where collect: "?collect = (r1, y)" by fastforce
  have step1: "stepped eng good r r1 \<and> (\<forall>t. t \<noteq> tag \<longrightarrow> view (rt_engine r1) t = view (rt_engine r) t)"
    using collect assms(2)
    by (auto simp: Let_def stepped_refl dest: retire_ids_step split: sum.splits EngineError.splits option.splits if_splits)
  obtain r2 z where rm: "on_engine (\<lambda>e. eg_remove_inbound_hard eng e tag) r1 = (r2, z)" by fastforce
  note step2 = remove_hard_step [OF rm stepped_calm [OF conjunct1 [OF step1]]]
  have run: "force_stop_tag eng tag known r = (case y of Inl e \<Rightarrow> (r1, Inl e) | Inr _ \<Rightarrow>
      (case z of Inl error \<Rightarrow> (r2, Inl (''remove inbound '' @ tag @ '': '' @ display_engine_error error)) | Inr _ \<Rightarrow> (r2, Inr ())))"
    unfolding force_stop_tag_def collect prod.case rm ..
  show ?thesis
  proof (cases y)
    case (Inl e)
    with assms(1) run have "r' = r1" "x = Inl e" by simp_all
    with step1 show ?thesis by simp
  next
    case (Inr u)
    with assms(1) run have r': "r' = r2" "x = Inr () \<longrightarrow> (\<exists>info. z = Inr info)" by (cases z; auto)+
    have "stepped eng good r r2" using step1 step2 by (blast intro: stepped_trans)
    moreover have "\<forall>t. t \<noteq> tag \<longrightarrow> view (rt_engine r2) t = view (rt_engine r) t" using step1 step2 by (cases z) simp_all
    moreover have "view (rt_engine r2) = (view (rt_engine r))(tag := None)" if "z = Inr info" for info
      using step1 step2 that by (auto simp: fun_eq_iff)
    ultimately show ?thesis using r' by auto
  qed
qed

lemma stop_indeterminate_step:
  assumes "stop_indeterminate eng infos live r = (r', errors, live')" "calm good r"
  shows "drifted eng good r r' \<and> (errors = [] \<longrightarrow>
    view (rt_engine r') = (\<lambda>t. if t \<in> ii_tag ` set infos then None else view (rt_engine r) t))"
  using assms
proof (induction infos arbitrary: live r errors)
  case Nil
  then show ?case by (simp add: stepped_refl stepped_drifted)
next
  case (Cons info infos)
  obtain r1 y where stop: "force_stop_tag eng (ii_tag info) (live (ii_tag info)) r = (r1, y)" by fastforce
  note step = force_stop_step [OF stop Cons.prems(2)]
  have calm1: "calm good r1" using step stepped_calm by blast
  show ?case
  proof (cases y)
    case (Inl error)
    with Cons.prems(1) stop obtain errors2 where rest: "stop_indeterminate eng infos live r1 = (r', errors2, live')" "errors = error # errors2"
      by (auto split: prod.splits)
    from Cons.IH [OF rest(1) calm1] rest(2) step show ?thesis by (auto intro: drifted_trans stepped_drifted)
  next
    case (Inr u)
    let ?r2 = "publish_recovery_live (live(ii_tag info := None)) r1"
    have rest: "stop_indeterminate eng infos (live(ii_tag info := None)) ?r2 = (r', errors, live')"
      using Cons.prems(1) stop Inr by (simp add: Let_def)
    have far: "drifted eng good r ?r2" using step drifted_publish [OF calm1] by (blast intro: drifted_trans stepped_drifted)
    have view2: "view (rt_engine ?r2) = (view (rt_engine r))(ii_tag info := None)" using step Inr by simp
    note IH = Cons.IH [OF rest drifted_calm [OF far]]
    have "view (rt_engine r') = (\<lambda>t. if t \<in> ii_tag ` set (info # infos) then None else view (rt_engine r) t)" if "errors = []"
      using IH that unfolding view2 by (auto simp: fun_eq_iff)
    with IH far show ?thesis by (blast intro: drifted_trans)
  qed
qed

lemma stop_all_step:
  assumes "stop_all eng known infos r = (r', errors)" "calm good r"
  shows "stepped eng good r r' \<and> (errors = [] \<longrightarrow>
    view (rt_engine r') = (\<lambda>t. if t \<in> ii_tag ` set infos then None else view (rt_engine r) t))"
  using assms
proof (induction infos arbitrary: r errors)
  case Nil
  then show ?case by (simp add: stepped_refl)
next
  case (Cons info infos)
  obtain r1 y where stop: "force_stop_tag eng (ii_tag info) (known (ii_tag info)) r = (r1, y)" by fastforce
  note step = force_stop_step [OF stop Cons.prems(2)]
  then have far: "stepped eng good r r1" by blast
  show ?case
  proof (cases y)
    case (Inl error)
    with Cons.prems(1) stop obtain errors2 where rest: "stop_all eng known infos r1 = (r', errors2)" "errors = error # errors2"
      by (auto split: prod.splits)
    from Cons.IH [OF rest(1) stepped_calm [OF far]] rest(2) far show ?thesis by (auto intro: stepped_trans)
  next
    case (Inr u)
    have rest: "stop_all eng known infos r1 = (r', errors)" using Cons.prems(1) stop Inr by simp
    have view1: "view (rt_engine r1) = (view (rt_engine r))(ii_tag info := None)" using step Inr by simp
    note IH = Cons.IH [OF rest stepped_calm [OF far]]
    have "view (rt_engine r') = (\<lambda>t. if t \<in> ii_tag ` set (info # infos) then None else view (rt_engine r) t)" if "errors = []"
      using IH that unfolding view1 by (auto simp: fun_eq_iff)
    with IH far show ?thesis by (blast intro: stepped_trans)
  qed
qed

lemma all_stopped:
  assumes "good e" "v = (\<lambda>t. if t \<in> ii_tag ` set (eg_list_inbounds eng e) then None else view e t)"
  shows "v = Map.empty"
  using list_inbounds [OF assms(1)] assms(2) by (auto simp: fun_eq_iff dom_def)

section \<open>Recovery\<close>

lemma rebuild_step:
  assumes "rebuild eng replay inbounds live r = (r', x)" "calm good r" "\<forall>inbound \<in> set inbounds. inbound_wf inbound"
    "distinct (map nb_tag inbounds)"
  shows "drifted eng good r r' \<and> (case x of
      Inr _ \<Rightarrow> view (rt_engine r') = (\<lambda>t. case map_of (map (\<lambda>i. (nb_tag i, i)) inbounds) t of
        Some inbound \<Rightarrow> Some (inbound_view eff inbound) | None \<Rightarrow> view (rt_engine r) t)
    | Inl e \<Rightarrow> \<not> rte_rolled_back e \<and> \<not> rte_state_unchanged e)"
  using assms
proof (induction inbounds arbitrary: live r)
  case Nil
  then show ?case by (auto simp: stepped_refl stepped_drifted)
next
  case (Cons inbound rest)
  show ?case
  proof (cases "replay (nb_tag inbound)")
    case None
    with Cons.prems show ?thesis by (auto simp: stepped_refl stepped_drifted runtime_error_failed_def)
  next
    case (Some lease)
    obtain r1 y where add: "on_engine (\<lambda>e. eg_add_inbound_with_replay eng e (nb_spec inbound) lease) r = (r1, y)" by fastforce
    note step = add_replay_step [OF add Cons.prems(2)]
    then have calm1: "calm good r1" using stepped_calm by blast
    show ?thesis
    proof (cases y)
      case (Inl error)
      with Cons.prems(1) Some add step show ?thesis by (auto simp: runtime_error_failed_def stepped_drifted)
    next
      case (Inr info)
      let ?live = "live(nb_tag inbound \<mapsto> \<lparr> rg_live = inbound, rg_accounting = inbound \<rparr>)"
      let ?r2 = "publish_recovery_live ?live r1"
      have run: "rebuild eng replay rest ?live ?r2 = (r', x)" using Cons.prems(1) Some add Inr by (simp add: Let_def)
      have far: "drifted eng good r ?r2" using step drifted_publish [OF calm1] by (blast intro: drifted_trans stepped_drifted)
      have wf: "inbound_wf inbound" "\<forall>inbound \<in> set rest. inbound_wf inbound" "distinct (map nb_tag rest)"
        "map_of (map (\<lambda>i. (nb_tag i, i)) rest) (nb_tag inbound) = None"
        using Cons.prems(3,4) by (auto simp: map_of_eq_None_iff image_image)
      have view2: "view (rt_engine ?r2) = (view (rt_engine r))(nb_tag inbound \<mapsto> inbound_view eff inbound)"
        using step Inr wf(1) by (simp add: spec_view_wf)
      note IH = Cons.IH [OF run drifted_calm [OF far] wf(2,3)]
      have "view (rt_engine r') = (\<lambda>t. case map_of (map (\<lambda>i. (nb_tag i, i)) (inbound # rest)) t of
          Some inbound \<Rightarrow> Some (inbound_view eff inbound) | None \<Rightarrow> view (rt_engine r) t)" if "x = Inr u" for u
        using IH that wf(4) unfolding view2 by (auto simp: fun_eq_iff split: option.splits)
      with IH far show ?thesis by (auto intro: drifted_trans split: sum.splits)
    qed
  qed
qed

lemma retagged:
  assumes "config_wf c"
  shows "map (\<lambda>i. (nb_tag i, i)) (map snd (nz_inbounds c)) = nz_inbounds c"
proof -
  have "(nb_tag (snd entry), snd entry) = entry" if "entry \<in> set (nz_inbounds c)" for entry
    using that bt_wf_entry [OF config_wfD(1) [OF assms]] config_wfD(2) [OF assms] by (metis prod.collapse)
  then show ?thesis by (simp add: map_idI)
qed

lemma config_inbounds:
  assumes "config_wf c"
  shows "\<forall>inbound \<in> set (map snd (nz_inbounds c)). inbound_wf inbound" "distinct (map nb_tag (map snd (nz_inbounds c)))"
proof -
  show "\<forall>inbound \<in> set (map snd (nz_inbounds c)). inbound_wf inbound"
    using bt_wf_entry [OF config_wfD(1) [OF assms]] config_wfD(3) [OF assms] by fastforce
  have "map nb_tag (map snd (nz_inbounds c)) = map fst (map (\<lambda>i. (nb_tag i, i)) (map snd (nz_inbounds c)))" by simp
  also have "\<dots> = map fst (nz_inbounds c)" by (simp only: retagged [OF assms])
  finally show "distinct (map nb_tag (map snd (nz_inbounds c)))" using config_wfD(4) [OF assms] by (simp only:)
qed

lemma recover_step:
  assumes "recover_if_needed eng r = (r', x)" "runtime_ok good view eff r"
  shows "runtime_ok good view eff r'" "kept eng good r r'" "rt_rule_sets r' = rt_rule_sets r"
    "ap_committed (rt_state r') = ap_committed (rt_state r)"
    and "x = Inr u \<Longrightarrow> ap_current (rt_state r') \<noteq> None"
    and "ap_current (rt_state r) = Some c \<Longrightarrow> r' = r \<and> x = Inr ()"
    and "x = Inl e \<Longrightarrow> \<not> rte_rolled_back e \<and> \<not> rte_state_unchanged e"
proof -
  have calm: "calm good r" using assms(2) by (simp add: runtime_ok_def)
  have "runtime_ok good view eff r' \<and> kept eng good r r' \<and> rt_rule_sets r' = rt_rule_sets r \<and>
      ap_committed (rt_state r') = ap_committed (rt_state r) \<and> (\<forall>u. x = Inr u \<longrightarrow> ap_current (rt_state r') \<noteq> None) \<and>
      (\<forall>c. ap_current (rt_state r) = Some c \<longrightarrow> r' = r \<and> x = Inr ()) \<and>
      (\<forall>e. x = Inl e \<longrightarrow> \<not> rte_rolled_back e \<and> \<not> rte_state_unchanged e)"
  proof (cases "ap_current (rt_state r)")
    case (Some c)
    with assms stepped_refl [OF calm, of eng] show ?thesis
      by (auto simp: recover_if_needed_def intro: drifted_kept stepped_drifted)
  next
    case None
    with assms(2) obtain c where c: "ap_recovery (rt_state r) = Some c" "config_wf c" by (auto simp: runtime_ok_def)
    define infos where "infos = eg_list_inbounds eng (rt_engine r)"
    define live where "live = known_live c infos (ap_recovery_live (rt_state r))"
    have pub: "drifted eng good r (publish_recovery_live live r)" by (rule drifted_publish [OF calm])
    obtain r1 errors live1 where stop: "stop_indeterminate eng infos live (publish_recovery_live live r) = (r1, errors, live1)"
      by (metis prod_cases3)
    note step1 = stop_indeterminate_step [OF stop drifted_calm [OF pub], unfolded publish_engine]
    then have far1: "drifted eng good r r1" using pub by (blast intro: drifted_trans)
    have ok: "runtime_ok good view eff r''" if "drifted eng good r r''" for r''
      using that None c by (simp add: runtime_ok_def drifted_def)
    have run: "recover_if_needed eng r = (if errors \<noteq> [] then
        (r1, Inl (runtime_error_failed ''clean up an indeterminate runtime before recovery'' errors False False (engine_running eng r1)))
      else
        (case on_engine (\<lambda>e. eg_configure_urltest_probe_dns eng e (nz_urltest_probe_dns c)) (rotate_dns eng r1) of
           (r2, Inl error) \<Rightarrow>
             (r2, Inl (runtime_error_failed (''restore generation-global URLTest probe DNS: '' @ display_engine_error error) [] False False False))
         | (r2, Inr _) \<Rightarrow>
             (case rebuild eng (rt_recovery_replay r2) (map snd (nz_inbounds c)) live1 r2 of
                (r3, Inl error) \<Rightarrow> (r3, Inl error)
              | (r3, Inr _) \<Rightarrow>
                  (commit_groups eng (r3\<lparr> rt_state := (rt_state r3)\<lparr> ap_current := Some c, ap_recovery := None,
                      ap_recovery_live := Map.empty \<rparr>, rt_recovery_replay := Map.empty \<rparr>), Inr ()))))"
      unfolding recover_if_needed_def None c(1) option.case Let_def infos_def [symmetric] live_def [symmetric] stop prod.case
      by (simp only: simp_thms if_False)
    show ?thesis
    proof (cases "errors = []")
      case False
      then have "recover_if_needed eng r = (r1, Inl (runtime_error_failed ''clean up an indeterminate runtime before recovery''
          errors False False (engine_running eng r1)))" unfolding run by (simp only: if_True simp_thms)
      with assms(1) have "r' = r1" "\<exists>e. x = Inl e \<and> \<not> rte_rolled_back e \<and> \<not> rte_state_unchanged e" by force+
      with far1 ok [OF far1] None show ?thesis by (auto simp: drifted_kept) (simp_all add: drifted_def)
    next
      case empty: True
      have view1: "view (rt_engine r1) = Map.empty"
        by (rule all_stopped [OF calm_good [OF calm]]) (use step1 empty in \<open>simp add: infos_def\<close>)
      note rotated = rotate_step [OF drifted_calm [OF far1]]
      obtain r2 y where conf: "on_engine (\<lambda>e. eg_configure_urltest_probe_dns eng e (nz_urltest_probe_dns c)) (rotate_dns eng r1) = (r2, y)"
        by fastforce
      note step2 = configure_step [OF conf stepped_calm [OF conjunct1 [OF rotated]]]
      have far2: "drifted eng good r r2" using far1 rotated step2 by (blast intro: drifted_trans stepped_drifted)
      have view2: "view (rt_engine r2) = Map.empty" using rotated step2 view1 by simp
      show ?thesis
      proof (cases y)
        case (Inl error)
        with assms(1) run empty conf have "r' = r2" "\<exists>e. x = Inl e \<and> \<not> rte_rolled_back e \<and> \<not> rte_state_unchanged e"
          by force+
        with far2 ok [OF far2] None show ?thesis by (auto simp: drifted_kept) (simp_all add: drifted_def)
      next
        case (Inr u)
        obtain r3 z where build: "rebuild eng (rt_recovery_replay r2) (map snd (nz_inbounds c)) live1 r2 = (r3, z)" by fastforce
        note step3 = rebuild_step [OF build drifted_calm [OF far2] config_inbounds [OF c(2)]]
        have far3: "drifted eng good r r3" using far2 step3 by (blast intro: drifted_trans)
        have run: "recover_if_needed eng r = (case z of Inl error \<Rightarrow> (r3, Inl error) | Inr _ \<Rightarrow>
            (commit_groups eng (r3\<lparr> rt_state := (rt_state r3)\<lparr> ap_current := Some c, ap_recovery := None,
              ap_recovery_live := Map.empty \<rparr>, rt_recovery_replay := Map.empty \<rparr>), Inr ()))"
          using run empty conf Inr build by simp
        show ?thesis
        proof (cases z)
          case (Inl e)
          with assms(1) run step3 have "r' = r3" "x = Inl e" "\<not> rte_rolled_back e \<and> \<not> rte_state_unchanged e" by auto
          with far3 ok [OF far3] None show ?thesis by (auto simp: drifted_kept) (simp_all add: drifted_def)
        next
          case built: (Inr w)
          let ?r = "r3\<lparr> rt_state := (rt_state r3)\<lparr> ap_current := Some c, ap_recovery := None, ap_recovery_live := Map.empty \<rparr>,
              rt_recovery_replay := Map.empty \<rparr>"
          have view3: "view (rt_engine r3) = config_view eff c"
            using step3 built view2 unfolding retagged [OF c(2)] by (auto simp: config_view_def fun_eq_iff split: option.splits)
          have "calm good ?r" using drifted_calm [OF far3] by (simp add: calm_def)
          note committed = commit_groups_step [OF this]
          from assms(1) run built have out: "r' = commit_groups eng ?r" "x = Inr ()" by simp_all
          have "runtime_ok good view eff r'" unfolding out runtime_ok_def using committed stepped_calm [OF conjunct1 [OF committed]] view3 c(2) by simp
          moreover have "kept eng good r r' \<and> rt_rule_sets r' = rt_rule_sets r \<and> ap_committed (rt_state r') = ap_committed (rt_state r)"
            unfolding out using committed far3 by (simp add: kept_def stepped_def drifted_def)
          moreover have "ap_current (rt_state r') \<noteq> None" using out by simp
          ultimately show ?thesis using out(2) None by simp
        qed
      qed
    qed
  qed
  then show "runtime_ok good view eff r'" "kept eng good r r'" "rt_rule_sets r' = rt_rule_sets r"
    "ap_committed (rt_state r') = ap_committed (rt_state r)" "x = Inr u \<Longrightarrow> ap_current (rt_state r') \<noteq> None"
    "ap_current (rt_state r) = Some c \<Longrightarrow> r' = r \<and> x = Inr ()" "x = Inl e \<Longrightarrow> \<not> rte_rolled_back e \<and> \<not> rte_state_unchanged e" by blast+
qed

section \<open>Transactions\<close>

lemma desired_wf:
  assumes "desired_config ya disabled prepared config = Inr desired"
  shows "config_wf desired"
proof -
  from assms obtain c n where "normalize c = Inr n" "desired = n\<lparr> nz_rule_set_digest := ps_digest prepared \<rparr>"
    unfolding desired_config_def rbind_Inr_iff rmap_err_Inr_iff by blast
  with normalize_wf [of c n] show ?thesis by (simp add: config_wf_def)
qed

text \<open>The outcome of a transaction from the configuration \<open>previous\<close> to \<open>desired\<close>.\<close>

lemma run_transaction_step:
  assumes "run_transaction eng ld prepared previous desired replay force_reload r = (r', x)" "runtime_ok good view eff r"
    "ap_current (rt_state r) = Some previous" "config_wf desired"
  shows "runtime_ok good view eff r' \<and> kept eng good r r' \<and> (case x of
      Inr _ \<Rightarrow> ap_current (rt_state r') = Some desired \<and> ap_committed (rt_state r')
    | Inl e \<Rightarrow> (rte_rolled_back e \<or> rte_state_unchanged e \<longrightarrow> rte_running e) \<and>
        (if rte_running e then ap_current (rt_state r') = Some previous
         else ap_current (rt_state r') = None \<and> ap_recovery (rt_state r') = Some previous))"
proof -
  have at: "calm good r" "config_wf previous" "view (rt_engine r) = config_view eff previous"
    using assms(2,3) by (auto simp: runtime_ok_def)
  define full where "full = (force_reload \<or> nz_dns_client_fingerprint previous \<noteq> nz_dns_client_fingerprint desired \<or>
      nz_rule_set_digest previous \<noteq> nz_rule_set_digest desired)"
  define rotated where "rotated = (full \<and> ap_committed (rt_state r))"
  define failed where "failed = (\<lambda>failure journal. \<lparr> ft_previous = previous, ft_previous_replay = replay, ft_failure = failure, ft_journal = journal,
      ft_client_rotated = rotated, ft_full_reload = full \<rparr>)"
  define r1 where "r1 = (if rotated then rotate_dns eng r else r)"
  have step1: "stepped eng good r r1 \<and> view (rt_engine r1) = view (rt_engine r)"
    using rotate_step [OF at(1)] stepped_refl [OF at(1)] by (simp add: r1_def)
  obtain r2 y where conf: "(if full \<or> \<not> ap_committed (rt_state r)
      then on_engine (\<lambda>e. eg_configure_urltest_probe_dns eng e (nz_urltest_probe_dns desired)) r1 else (r1, Inr ())) = (r2, y)" by fastforce
  have step2: "stepped eng good r r2 \<and> view (rt_engine r2) = config_view eff previous"
  proof (cases "full \<or> \<not> ap_committed (rt_state r)")
    case True
    with conf have "on_engine (\<lambda>e. eg_configure_urltest_probe_dns eng e (nz_urltest_probe_dns desired)) r1 = (r2, y)" by simp
    from configure_step [OF this stepped_calm] step1 at(3) show ?thesis by (auto intro: stepped_trans)
  next
    case False
    with conf have "r2 = r1" by simp
    with step1 at(3) show ?thesis by simp
  qed
  have run: "run_transaction eng ld prepared previous desired replay force_reload r = (case y of
      Inl error \<Rightarrow> (case finish_failed_transaction eng (failed (step_unchanged
          (''configure generation-global URLTest probe DNS: '' @ display_engine_error error)) []) r2 of (r3, e) \<Rightarrow> (r3, Inl e))
    | Inr _ \<Rightarrow> (case execute_apply eng previous desired full [] r2 of
         (r3, journal, Inr _) \<Rightarrow> (commit_transaction eng ld prepared desired r3, Inr ())
       | (r3, journal, Inl failure) \<Rightarrow> (case finish_failed_transaction eng (failed failure journal) r3 of (r4, e) \<Rightarrow> (r4, Inl e))))"
    unfolding run_transaction_def Let_def full_def [symmetric] rotated_def [symmetric] failed_def r1_def [symmetric] conf prod.case ..
  have fail: ?thesis if out: "finish_failed_transaction eng (failed failure journal) r3 = (r', e)" "x = Inl e" "stepped eng good r r3"
      "list_all undo_wf journal" "sf_restored failure \<longrightarrow> fold (undo_view eff) journal (view (rt_engine r3)) = config_view eff previous"
    for failure journal r3 e
  proof -
    have parts: "ft_journal (failed failure journal) = journal" "ft_previous (failed failure journal) = previous"
      "ft_failure (failed failure journal) = failure" by (simp_all add: failed_def)
    note finished = finish_failed [OF out(1) stepped_calm [OF out(3)], unfolded parts, OF out(4) at(2) out(5) [rule_format]]
    have "kept eng good r r'" using out(3) finished(1) by (blast intro: kept_trans drifted_kept stepped_drifted)
    moreover from this have "calm good r'" by (simp add: kept_def)
    ultimately show ?thesis using finished(4-6) at(2) out(2) by (cases "rte_running e") (auto simp: runtime_ok_def)
  qed
  show ?thesis
  proof (cases y)
    case (Inl error)
    define failure where "failure = step_unchanged (''configure generation-global URLTest probe DNS: '' @ display_engine_error error)"
    obtain r3 e where fin: "finish_failed_transaction eng (failed failure []) r2 = (r3, e)" by fastforce
    from run [folded failure_def] fin Inl assms(1) have "r' = r3" "x = Inl e" by (simp_all add: failure_def)
    with fin have "finish_failed_transaction eng (failed failure []) r2 = (r', e)" "x = Inl e" by simp_all
    then show ?thesis by (rule fail) (use step2 in simp_all)
  next
    case (Inr u)
    obtain r3 journal z where exec: "execute_apply eng previous desired full [] r2 = (r3, journal, z)" by (metis prod_cases3)
    note phase = execute_phase [OF exec stepped_calm [OF conjunct1 [OF step2]] conjunct2 [OF step2] at(2) assms(4)]
    show ?thesis
    proof (cases z)
      case failure: (Inl f)
      obtain r4 e where fin: "finish_failed_transaction eng (failed f journal) r3 = (r4, e)" by fastforce
      from run fin Inr exec failure assms(1) have out: "r' = r4" "x = Inl e" by simp_all
      have "stepped eng good r r3" "list_all undo_wf journal"
        "sf_restored f \<longrightarrow> fold (undo_view eff) journal (view (rt_engine r3)) = config_view eff previous"
        using phase failure step2 stepped_trans by (auto simp: phase_def)
      then show ?thesis using fail [of f journal r3 e] fin out by blast
    next
      case ok: (Inr w)
      note at3 = phase_ok [OF phase [unfolded ok]]
      have far: "stepped eng good r r3" using phase ok step2 by (auto simp: phase_def intro: stepped_trans)
      let ?r = "r3\<lparr> rt_state := (rt_state r3)\<lparr> ap_current := Some desired, ap_recovery := None, ap_recovery_live := Map.empty,
            ap_committed := True \<rparr>, rt_recovery_replay := Map.empty \<rparr>"
      have "calm good ?r" using at3(1) by (simp add: calm_def)
      note committed = commit_groups_step [OF this]
      from run Inr exec ok assms(1) have out: "r' = commit_transaction eng ld prepared desired r3" "x = Inr ()" by simp_all
      have r': "r' = (commit_groups eng ?r)\<lparr> rt_rule_sets := fst (ld_commit ld (rt_rule_sets (commit_groups eng ?r)) prepared) \<rparr>"
        unfolding out commit_transaction_def Let_def ..
      have calm': "calm good r'" using stepped_calm [OF conjunct1 [OF committed]] by (simp add: r' calm_def)
      have "runtime_ok good view eff r'" unfolding runtime_ok_def using calm' committed at3(4) assms(4) by (simp add: r')
      moreover have "kept eng good r r'" using calm' committed far by (simp add: r' kept_def stepped_def)
      ultimately show ?thesis using out(2) by (simp add: r')
    qed
  qed
qed

text \<open>The configuration a transaction aims at, for some preparation of the rule sets.\<close>

lemma apply_locked_step:
  assumes "apply_transaction_locked ya eng ld config prepared force_reload r = (r', x)" "runtime_ok good view eff r"
  shows "runtime_ok good view eff r' \<and> kept eng good r r' \<and> (case x of
      Inr _ \<Rightarrow> (\<exists>desired. desired_config ya (eg_traffic_analysis_disabled eng (rt_engine r)) prepared config = Inr desired \<and>
        ap_current (rt_state r') = Some desired) \<and> ap_committed (rt_state r')
    | Inl e \<Rightarrow> \<forall>c. ap_current (rt_state r) = Some c \<longrightarrow>
        (if rte_rolled_back e \<or> rte_state_unchanged e \<or> ap_current (rt_state r') \<noteq> None then ap_current (rt_state r') = Some c
         else ap_recovery (rt_state r') = Some c))"
proof -
  have calm: "calm good r" using assms(2) by (simp add: runtime_ok_def)
  have refl: "kept eng good r r" using calm by (simp add: kept_def)
  show ?thesis
  proof (cases "rt_closing r \<or> ap_closed (rt_state r)")
    case True
    with assms refl show ?thesis by (auto simp: apply_transaction_locked_def)
  next
    case False
    show ?thesis
    proof (cases "desired_config ya (eg_traffic_analysis_disabled eng (rt_engine r)) prepared config")
      case (Inl error)
      with False assms refl show ?thesis by (auto simp: apply_transaction_locked_def)
    next
      case (Inr desired)
      obtain r1 y where rec: "recover_if_needed eng r = (r1, y)" by fastforce
      note step = recover_step [OF rec assms(2)]
      show ?thesis
      proof (cases y)
        case failed: (Inl error)
        with False Inr rec assms(1) have "r' = r1" "x = Inl error" by (simp_all add: apply_transaction_locked_def)
        with step(1,2) step(6) failed show ?thesis by auto
      next
        case (Inr u)
        from step(5) [OF Inr] obtain previous where previous: "ap_current (rt_state r1) = Some previous" by blast
        have same: "previous = c" if "ap_current (rt_state r) = Some c" for c using step(6) [OF that] that previous by simp
        have still: ?thesis if "r' = r1" "x = Inl e" for e using that step(1,2) previous same by auto
        have run: ?thesis if "run_transaction eng ld prepared previous desired replay force_reload r1 = (r', x)" for replay
        proof -
          note ran = run_transaction_step [OF that step(1) previous desired_wf [OF \<open>desired_config _ _ _ _ = Inr desired\<close>]]
          then have kept: "kept eng good r r'" using step(2) by (blast intro: kept_trans)
          show ?thesis
          proof (cases x)
            case (Inl e)
            with ran kept same show ?thesis by (cases "rte_running e") auto
          next
            case ok: (Inr w)
            with ran kept \<open>desired_config _ _ _ _ = Inr desired\<close> show ?thesis by simp
          qed
        qed
        show ?thesis
        proof (cases "validate_inbounds eng (rt_engine r1) (map snd (nz_inbounds desired))")
          case failed: (Inl error)
          with False \<open>desired_config _ _ _ _ = Inr desired\<close> rec Inr assms(1) still show ?thesis
            by (auto simp: apply_transaction_locked_def)
        next
          case valid: (Inr w)
          show ?thesis
          proof (cases "eg_validate_urltest_probe_dns eng (rt_engine r1) (nz_urltest_probe_dns desired)")
            case failed: (Inl error)
            define message where "message = ''validate generation-global URLTest probe DNS: '' @ display_engine_error error"
            from False \<open>desired_config _ _ _ _ = Inr desired\<close> rec Inr valid failed assms(1)
            have "r' = r1" "x = Inl (runtime_error_unchanged message (engine_running eng r1))"
              by (auto simp: apply_transaction_locked_def message_def)
            then show ?thesis by (rule still)
          next
            case dns: (Inr w')
            show ?thesis
            proof (cases "capture_replay_state eng previous r1")
              case failed: (Inl error)
              with False \<open>desired_config _ _ _ _ = Inr desired\<close> rec Inr valid dns previous assms(1) still show ?thesis
                by (auto simp: apply_transaction_locked_def)
            next
              case replay: (Inr replay)
              with False \<open>desired_config _ _ _ _ = Inr desired\<close> rec Inr valid dns previous assms(1) run show ?thesis
                by (auto simp: apply_transaction_locked_def)
            qed
          qed
        qed
      qed
    qed
  qed
qed

end

end
