(* ===== verification/Runtime_Service.thy ===== *)
theory Runtime_Service
  imports Runtime_Recovery
begin

text \<open>
  The operations a client of \<open>ShoesRuntime\<close> calls: apply, reload, close, refresh of rule sets, traffic drains and
  session kicks. All of them keep the runtime invariant, and their results mean what the error
  classification says.
\<close>

section \<open>Outcomes\<close>

text \<open>The runtime serves a compiled configuration with its prepared rule sets: the engine runs what its normal form describes.\<close>

definition serves :: "yaml_api \<Rightarrow> ('e, 'l) engine \<Rightarrow> ('e \<Rightarrow> 'u live_view) \<Rightarrow> (json \<Rightarrow> UserSpec \<Rightarrow> 'u) \<Rightarrow> ('e, 'l, 'w) ShoesRuntime \<Rightarrow>
    PreparedRuleSets \<Rightarrow> RuntimeConfig \<Rightarrow> bool" where
  "serves ya eng view eff r prepared config \<longleftrightarrow> ap_committed (rt_state r) \<and>
     (\<exists>desired. desired_config ya (eg_traffic_analysis_disabled eng (rt_engine r)) prepared config = Inr desired \<and>
        ap_current (rt_state r) = Some desired \<and> view (rt_engine r) = config_view eff desired)"

text \<open>What the loader prepares for a configuration.\<close>

definition loaded :: "'w rule_set_loader \<Rightarrow> RuntimeConfig \<Rightarrow> ('e, 'l, 'w) ShoesRuntime \<Rightarrow> PreparedRuleSets set" where
  "loaded ld config r = {prepared. snd (snd (ld_prepare ld (rt_rule_sets r) (rc_rule_sets config))) = Inr prepared}"

text \<open>The state in which an external apply decides: it finds the runtime closing at once, or it prepares and then takes
  the apply lock.\<close>

definition lock_state :: "('e, 'l) engine \<Rightarrow> 'w rule_set_loader \<Rightarrow> RuntimeConfig \<Rightarrow> side_call list \<Rightarrow> ('e, 'l, 'w) ShoesRuntime \<Rightarrow>
    ('e, 'l, 'w) ShoesRuntime" where
  "lock_state eng ld config calls r = (if rt_closing r then r else fst (prepare_rule_sets eng ld config calls r))"

text \<open>What an apply or a reload does to an ok runtime.\<close>

definition applied :: "yaml_api \<Rightarrow> ('e, 'l) engine \<Rightarrow> ('e \<Rightarrow> bool) \<Rightarrow> ('e \<Rightarrow> 'u live_view) \<Rightarrow> (json \<Rightarrow> UserSpec \<Rightarrow> 'u) \<Rightarrow> PreparedRuleSets set \<Rightarrow> RuntimeConfig \<Rightarrow>
    ('e, 'l, 'w) ShoesRuntime \<Rightarrow> ('e, 'l, 'w) ShoesRuntime \<Rightarrow> RuntimeError + 'a \<Rightarrow> bool" where
  "applied ya eng good view eff resources config r r' x \<longleftrightarrow>
     runtime_ok good view eff r' \<and>
     eg_traffic_analysis_disabled eng (rt_engine r') = eg_traffic_analysis_disabled eng (rt_engine r) \<and>
     (rt_closing r \<longrightarrow> rt_closing r') \<and>
     (case x of
        Inr _ \<Rightarrow> (\<exists>prepared \<in> resources. serves ya eng view eff r' prepared config)
      | Inl e \<Rightarrow> \<forall>c. ap_current (rt_state r) = Some c \<longrightarrow>
          (if rte_rolled_back e \<or> rte_state_unchanged e \<or> ap_current (rt_state r') \<noteq> None
           then ap_current (rt_state r') = Some c \<and> view (rt_engine r') = config_view eff c
           else ap_recovery (rt_state r') = Some c))"

context engine_contract
begin

lemma ok_calm: "runtime_ok good view eff r \<Longrightarrow> calm good r"
  by (simp add: runtime_ok_def)

lemma ok_current: "runtime_ok good view eff r \<Longrightarrow> ap_current (rt_state r) = Some c \<Longrightarrow> view (rt_engine r) = config_view eff c"
  by (simp add: runtime_ok_def)

lemma ok_same:
  assumes "runtime_ok good view eff r" "calm good r'" "view (rt_engine r') = view (rt_engine r)" "rt_state r' = rt_state r"
  shows "runtime_ok good view eff r'"
  using assms by (cases "ap_current (rt_state r)") (simp_all add: runtime_ok_def)

lemma ok_stepped:
  "runtime_ok good view eff r \<Longrightarrow> stepped eng good r r' \<Longrightarrow> view (rt_engine r') = view (rt_engine r) \<Longrightarrow> runtime_ok good view eff r'"
  by (rule ok_same) (simp_all add: stepped_def)

lemma load_step:
  assumes "load_rule_sets ld config r = (r', x)" "runtime_ok good view eff r"
  shows "runtime_ok good view eff r' \<and> rt_engine r' = rt_engine r \<and> rt_state r' = rt_state r \<and> rt_watcher r' = rt_watcher r \<and>
    (rt_closing r \<longrightarrow> rt_closing r')"
proof -
  obtain w closing result where prep: "ld_prepare ld (rt_rule_sets r) (rc_rule_sets config) = (w, closing, result)" by (metis prod_cases3)
  with assms(1) have r': "r' = r\<lparr> rt_rule_sets := w, rt_closing := (rt_closing r \<or> closing) \<rparr>" by (auto simp: load_rule_sets_def)
  have "runtime_ok good view eff r'" by (rule ok_same [OF assms(2)]) (use ok_calm [OF assms(2)] in \<open>simp_all add: r' calm_def\<close>)
  then show ?thesis by (simp add: r')
qed

lemma locked_applied:
  assumes "apply_transaction_locked ya eng ld config prepared force_reload r = (r', x)" "runtime_ok good view eff r"
  shows "applied ya eng good view eff {prepared} config r r' x" "rt_watcher r' = rt_watcher r" "rt_closing r' = rt_closing r"
proof -
  note step = apply_locked_step [OF assms]
  then show "rt_watcher r' = rt_watcher r" "rt_closing r' = rt_closing r" by (simp_all add: kept_def)
  show "applied ya eng good view eff {prepared} config r r' x"
  proof (cases x)
    case (Inr u)
    with step obtain desired where "desired_config ya (eg_traffic_analysis_disabled eng (rt_engine r)) prepared config = Inr desired"
      "ap_current (rt_state r') = Some desired" "ap_committed (rt_state r')" "runtime_ok good view eff r'" "kept eng good r r'" by auto
    with Inr ok_current [of r'] show ?thesis by (auto simp: applied_def serves_def kept_def)
  next
    case (Inl e)
    with step ok_current [of r'] show ?thesis by (auto simp: applied_def kept_def)
  qed
qed

lemma applied_watcher:
  "applied ya eng good view eff resources config r r' x \<Longrightarrow> applied ya eng good view eff resources config r (r'\<lparr> rt_watcher := w \<rparr>) x"
  using ok_same [of r' "r'\<lparr> rt_watcher := w \<rparr>"] ok_calm [of r']
  by (cases x) (auto simp: applied_def serves_def calm_def)

section \<open>Shutdown\<close>

lemma close_step:
  assumes "close_owned eng r = (r', x)" "runtime_ok good view eff r"
  shows "runtime_ok good view eff r' \<and> rt_closing r' \<and> ap_closed (rt_state r') \<and> \<not> rw_cancel (rt_watcher r') \<and>
    eg_traffic_analysis_disabled eng (rt_engine r') = eg_traffic_analysis_disabled eng (rt_engine r) \<and>
    (case x of
       Inr _ \<Rightarrow> view (rt_engine r') = Map.empty
     | Inl e \<Rightarrow> ap_current (rt_state r') = None \<and> \<not> rte_rolled_back e \<and> \<not> rte_state_unchanged e)"
proof -
  define r1 where "r1 = cancel_rule_set_watcher_locked (begin_close r)"
  have r1: "rt_engine r1 = rt_engine r" "rt_state r1 = rt_state r" "rt_pending r1 = rt_pending r" "rt_panicked r1 = rt_panicked r"
    "rt_closing r1" "\<not> rw_cancel (rt_watcher r1)"
    by (simp_all add: r1_def cancel_rule_set_watcher_locked_def begin_close_def)
  have calm: "calm good r" "calm good r1" using ok_calm [OF assms(2)] r1 by (simp_all add: calm_def)
  show ?thesis
  proof (cases "ap_closed (rt_state r1) \<and> \<not> engine_running eng r1")
    case True
    then have "view (rt_engine r) = Map.empty"
      using list_inbounds [OF calm_good [OF calm(1)]] r1 by (auto simp: engine_running_def)
    moreover have "r' = emptied r1" "x = Inr ()" using assms(1) True by (simp_all add: close_owned_def Let_def r1_def)
    ultimately show ?thesis using r1 True calm by (simp add: emptied_def runtime_ok_def calm_def)
  next
    case False
    obtain r2 errors where stop: "stop_all eng (close_known (rt_state r1)) (eg_list_inbounds eng (rt_engine r1)) r1 = (r2, errors)" by fastforce
    note step = stop_all_step [OF stop calm(2)]
    show ?thesis
    proof (cases "errors = []")
      case True
      with step have "view (rt_engine r2) = Map.empty" by (intro all_stopped [OF calm_good [OF calm(2)]]) simp
      moreover have "r' = emptied (r2\<lparr> rt_state := (rt_state r2)\<lparr> ap_closed := True \<rparr> \<rparr>)" "x = Inr ()"
        using assms(1) False stop True by (auto simp: close_owned_def Let_def r1_def [symmetric])
      ultimately show ?thesis using step r1 by (simp add: emptied_def runtime_ok_def stepped_def calm_def)
    next
      case bad: False
      let ?r = "r2\<lparr> rt_state := (rt_state r2)\<lparr> ap_closed := True, ap_current := None,
        ap_recovery := (case ap_current (rt_state r1) of Some config \<Rightarrow> Some config | None \<Rightarrow> ap_recovery (rt_state r1)),
        ap_recovery_live := ap_recovery_live (rt_state r1) \<rparr> \<rparr>"
      have "r' = ?r" "\<exists>e. x = Inl e \<and> \<not> rte_rolled_back e \<and> \<not> rte_state_unchanged e"
        using assms(1) False stop bad by (auto simp: close_owned_def Let_def r1_def [symmetric])
      moreover have "runtime_ok good view eff ?r"
        using assms(2) step r1 by (auto simp: runtime_ok_def stepped_def calm_def split: option.splits)
      ultimately show ?thesis using step r1 by (auto simp: stepped_def)
    qed
  qed
qed

lemma begin_close_ok: "runtime_ok good view eff r \<Longrightarrow> runtime_ok good view eff (begin_close r)"
  by (rule ok_same) (use ok_calm [of r] in \<open>simp_all add: begin_close_def calm_def\<close>)

section \<open>Reports and drains\<close>

lemma kick_tags_step:
  assumes "kick_tags eng uid tags closed r = (r', n)" "calm good r"
  shows "stepped eng good r r' \<and> view (rt_engine r') = view (rt_engine r)"
  using assms
proof (induction tags arbitrary: closed r)
  case Nil
  then show ?case by (simp add: stepped_refl)
next
  case (Cons tag tags)
  obtain r1 y where kick: "on_engine (\<lambda>e. eg_kick_user eng e tag uid) r = (r1, y)" by fastforce
  note step = kick_step [OF kick Cons.prems(2)]
  obtain closed' where "kick_tags eng uid tags closed' r1 = (r', n)" using Cons.prems(1) kick by (auto split: sum.splits)
  from Cons.IH [OF this stepped_calm] step show ?case by (auto intro: stepped_trans)
qed

lemma kick_ok:
  assumes "close_user_connections_owned eng node_id uid r = (r', n)" "runtime_ok good view eff r"
  shows "stepped eng good r r'" "view (rt_engine r') = view (rt_engine r)" "runtime_ok good view eff r'"
  using assms kick_tags_step [of uid _ 0 r r' n] ok_calm [OF assms(2)] ok_stepped [of r r']
  by (auto simp: close_user_connections_owned_def stepped_refl split: if_splits)

lemma sweep_traffic_step:
  assumes "sweep eng inbounds drained r = (r', drains)" "calm good r"
  shows "stepped eng good r r' \<and> view (rt_engine r') = view (rt_engine r)"
  using assms
proof (induction inbounds arbitrary: drained r)
  case Nil
  then show ?case by (simp add: stepped_refl)
next
  case (Cons entry inbounds)
  obtain tag inbound where entry: "entry = (tag, inbound)" by (cases entry)
  obtain r1 y where take: "on_engine (\<lambda>e. eg_take_nonzero_inbound_traffic eng e tag) r = (r1, y)" by fastforce
  note step = sweep_step [OF take Cons.prems(2)]
  obtain drained' where "sweep eng inbounds drained' r1 = (r', drains)" using Cons.prems(1) take entry by (auto split: sum.splits)
  from Cons.IH [OF this stepped_calm] step show ?case by (auto intro: stepped_trans)
qed

lemma drain_ok:
  assumes "drain_traffic_owned eng r = (r', drains)" "runtime_ok good view eff r"
  shows "runtime_ok good view eff r'" "view (rt_engine r') = view (rt_engine r)" "rt_state r' = rt_state r" "rt_closing r' = rt_closing r"
    "eg_traffic_analysis_disabled eng (rt_engine r') = eg_traffic_analysis_disabled eng (rt_engine r)"
proof -
  obtain p collected where pend: "pending_drain (rt_pending r) = (p, collected)" by fastforce
  define r1 where "r1 = r\<lparr> rt_pending := p \<rparr>"
  have "calm good r1" using ok_calm [OF assms(2)] pending_ok_drain [of "rt_pending r"] pend by (simp add: r1_def calm_def)
  moreover from this have "runtime_ok good view eff r1" by (rule ok_same [OF assms(2)]) (simp_all add: r1_def)
  moreover obtain drained where "(case ap_current (rt_state r1) of None \<Rightarrow> (r1, foldl merge_traffic_entry [] collected)
      | Some current \<Rightarrow> sweep eng (nz_inbounds current) (foldl merge_traffic_entry [] collected) r1) = (r', drained)"
    using assms(1) unfolding drain_traffic_owned_def pend prod.case Let_def r1_def [symmetric] by (auto split: prod.splits)
  ultimately have "stepped eng good r1 r' \<and> view (rt_engine r') = view (rt_engine r1) \<and> runtime_ok good view eff r'"
    by (auto simp: stepped_refl dest: sweep_traffic_step intro: ok_stepped split: option.splits)
  then show "runtime_ok good view eff r'" "view (rt_engine r') = view (rt_engine r)" "rt_state r' = rt_state r" "rt_closing r' = rt_closing r"
    "eg_traffic_analysis_disabled eng (rt_engine r') = eg_traffic_analysis_disabled eng (rt_engine r)"
    by (auto simp: stepped_def r1_def)
qed

section \<open>Applies\<close>

text \<open>The calls that run during a preparation.\<close>

lemma call_ok:
  assumes "runtime_ok good view eff r"
  shows "runtime_ok good view eff (run_call eng call r) \<and>
    eg_traffic_analysis_disabled eng (rt_engine (run_call eng call r)) = eg_traffic_analysis_disabled eng (rt_engine r) \<and>
    (rt_closing r \<longrightarrow> rt_closing (run_call eng call r)) \<and> (call \<noteq> CloseRuntime \<longrightarrow> rt_state (run_call eng call r) = rt_state r)"
proof (cases call)
  case DrainTraffic
  obtain r' drains where "drain_traffic_owned eng r = (r', drains)" by fastforce
  with drain_ok [OF this assms] DrainTraffic show ?thesis by simp
next
  case (KickUser node_id uid)
  obtain r' n where "close_user_connections_owned eng node_id uid r = (r', n)" by fastforce
  with kick_ok [OF this assms] KickUser show ?thesis by (simp add: stepped_def)
next
  case BeginClose
  with begin_close_ok [OF assms] show ?thesis by (simp add: begin_close_def)
next
  case CloseRuntime
  obtain r' x where "close_owned eng r = (r', x)" by fastforce
  with close_step [OF this assms] CloseRuntime show ?thesis by simp
qed

lemma calls_ok:
  assumes "runtime_ok good view eff r"
  shows "runtime_ok good view eff (fold (run_call eng) calls r) \<and>
    eg_traffic_analysis_disabled eng (rt_engine (fold (run_call eng) calls r)) = eg_traffic_analysis_disabled eng (rt_engine r) \<and>
    (rt_closing r \<longrightarrow> rt_closing (fold (run_call eng) calls r)) \<and>
    (CloseRuntime \<notin> set calls \<longrightarrow> rt_state (fold (run_call eng) calls r) = rt_state r)"
  using assms
proof (induction calls arbitrary: r)
  case (Cons call calls)
  note step = call_ok [OF Cons.prems, of call]
  from Cons.IH [OF conjunct1 [OF step]] step show ?case by auto
qed simp

lemma prepare_step:
  assumes "prepare_rule_sets eng ld config calls r = (r', x)" "runtime_ok good view eff r"
  shows "runtime_ok good view eff r'" "eg_traffic_analysis_disabled eng (rt_engine r') = eg_traffic_analysis_disabled eng (rt_engine r)"
    "rt_closing r \<Longrightarrow> rt_closing r'" "CloseRuntime \<notin> set calls \<Longrightarrow> rt_state r' = rt_state r"
    "x = Inl e \<Longrightarrow> rte_state_unchanged e" "x = Inr prepared \<Longrightarrow> prepared \<in> loaded ld config r"
proof -
  obtain r1 result where load: "load_rule_sets ld config r = (r1, result)" by fastforce
  with assms(1) have out: "r' = fold (run_call eng) calls r1" "x = prepare_error eng r' result" by (auto simp: prepare_rule_sets_def Let_def)
  note step = load_step [OF load assms(2)]
  note calls = calls_ok [OF conjunct1 [OF step], of calls, folded out(1)]
  from step calls show "runtime_ok good view eff r'" "eg_traffic_analysis_disabled eng (rt_engine r') = eg_traffic_analysis_disabled eng (rt_engine r)"
    "rt_closing r \<Longrightarrow> rt_closing r'" "CloseRuntime \<notin> set calls \<Longrightarrow> rt_state r' = rt_state r" by simp_all
  have "snd (snd (ld_prepare ld (rt_rule_sets r) (rc_rule_sets config))) = result" using load by (auto simp: load_rule_sets_def split: prod.splits)
  with out(2) show "x = Inl e \<Longrightarrow> rte_state_unchanged e" "x = Inr prepared \<Longrightarrow> prepared \<in> loaded ld config r"
    by (cases result; auto simp: prepare_error_def loaded_def)+
qed

lemma finish_applied:
  assumes "finish_external ya eng ld config force_reload preparation r = (r', x)" "runtime_ok good view eff r"
    "\<forall>error. preparation = Inl error \<longrightarrow> rte_state_unchanged error"
  shows "applied ya eng good view eff {prepared. preparation = Inr prepared} config r r' x"
proof (cases preparation)
  case (Inl error)
  with assms ok_current [of r] show ?thesis by (auto simp: finish_external_def applied_def)
next
  case (Inr prepared)
  obtain r1 y where run: "apply_transaction_locked ya eng ld config prepared force_reload r = (r1, y)" by fastforce
  have "applied ya eng good view eff {prepared} config r r1 y" using locked_applied [OF run assms(2)] by blast
  moreover have "(r', x) = (case y of Inl e \<Rightarrow> (r1, Inl e) | Inr _ \<Rightarrow>
      (if list_ex is_remote (rc_rule_sets config) then fst (install_rule_set_watcher_locked config r1)
       else cancel_rule_set_watcher_locked r1, Inr ()))"
    using assms(1) Inr run by (simp add: finish_external_def split: sum.splits)
  ultimately show ?thesis using Inr
    by (cases y) (auto simp: install_rule_set_watcher_locked_def cancel_rule_set_watcher_locked_def Let_def intro!: applied_watcher)
qed

text \<open>An apply is judged against the state in which it decides: the one it finds under the apply lock, after the calls that
  overtook its preparation.\<close>

lemma external_applied:
  assumes "apply_external_owned ya eng ld config force_reload calls r = (r', x)" "runtime_ok good view eff r"
  shows "applied ya eng good view eff (loaded ld config r) config (lock_state eng ld config calls r) r' x"
proof (cases "rt_closing r")
  case True
  with assms ok_current [of r] show ?thesis by (auto simp: apply_external_owned_def lock_state_def applied_def)
next
  case False
  obtain r1 y where prep: "prepare_rule_sets eng ld config calls r = (r1, y)" by fastforce
  note step = prepare_step [OF prep assms(2)]
  have "finish_external ya eng ld config force_reload y r1 = (r', x)" using assms(1) False prep by (simp add: apply_external_owned_def)
  from finish_applied [OF this step(1)] step(5) have "applied ya eng good view eff {prepared. y = Inr prepared} config r1 r' x" by blast
  with step(6) False prep show ?thesis by (cases x) (auto simp: applied_def lock_state_def)
qed

lemma lock_state_ok:
  assumes "runtime_ok good view eff r"
  shows "runtime_ok good view eff (lock_state eng ld config calls r)"
    "eg_traffic_analysis_disabled eng (rt_engine (lock_state eng ld config calls r)) = eg_traffic_analysis_disabled eng (rt_engine r)"
    "CloseRuntime \<notin> set calls \<Longrightarrow> rt_state (lock_state eng ld config calls r) = rt_state r"
proof -
  obtain r1 y where prep: "prepare_rule_sets eng ld config calls r = (r1, y)" by fastforce
  with prepare_step [OF prep assms] assms show "runtime_ok good view eff (lock_state eng ld config calls r)"
    "eg_traffic_analysis_disabled eng (rt_engine (lock_state eng ld config calls r)) = eg_traffic_analysis_disabled eng (rt_engine r)"
    "CloseRuntime \<notin> set calls \<Longrightarrow> rt_state (lock_state eng ld config calls r) = rt_state r"
    by (simp_all add: lock_state_def)
qed

end

end
