(* ===== verification/Runtime_History.thy ===== *)
theory Runtime_History
  imports Engine_History Runtime_Service
begin

text \<open>
  The runtime on the proxy engine. A history of a \<open>ShoesRuntime\<close> is a sequence of the steps its clients and its
  rule-set watcher take, from the moment it is built around a bootstrapped engine. An apply takes two steps: it
  prepares its rule sets under the configuration lock only, and decides under the apply lock, so that drains, kicks and a
  whole shutdown may run in between. The properties of the transaction and of the shutdown are stated on every state of
  such a history, with the engine of \<open>shoes-engine\<close> in place of the abstract one.
\<close>

section \<open>Histories\<close>

text \<open>The holder of the configuration lock: an apply or a refresh that has prepared and waits for the apply lock.\<close>

datatype flight = Applying RuntimeConfig bool "string + PreparedRuleSets" | Refreshing u64 RuntimeConfig "string + PreparedRuleSets"

inductive serving :: "yaml_api \<Rightarrow> ('e, 'l) engine \<Rightarrow> 'w rule_set_loader \<Rightarrow> ('e, 'l, 'w) ShoesRuntime \<Rightarrow> flight option \<Rightarrow>
    ('e, 'l, 'w) ShoesRuntime \<Rightarrow> flight option \<Rightarrow> bool"
  for ya eng ld r f where
  idle: "serving ya eng ld r f r f"
| preparing: "serving ya eng ld r f s None \<Longrightarrow> \<not> rt_closing s \<Longrightarrow> load_rule_sets ld config s = (s', result) \<Longrightarrow>
    serving ya eng ld r f s' (Some (Applying config force_reload result))"
| applying: "serving ya eng ld r f s (Some (Applying config force_reload result)) \<Longrightarrow>
    finish_external ya eng ld config force_reload (prepare_error eng s result) s = (s', x) \<Longrightarrow> serving ya eng ld r f s' None"
| refetching: "serving ya eng ld r f s None \<Longrightarrow> rule_set_watcher_is_active generation s \<Longrightarrow> \<not> ap_closed (rt_state s) \<Longrightarrow>
    load_rule_sets ld config s = (s', result) \<Longrightarrow> serving ya eng ld r f s' (Some (Refreshing generation config result))"
| refreshing: "serving ya eng ld r f s (Some (Refreshing generation config result)) \<Longrightarrow>
    finish_refresh ya eng ld generation config (prepare_error eng s result) s = (s', y) \<Longrightarrow> serving ya eng ld r f s' None"
| draining: "serving ya eng ld r f s g \<Longrightarrow> drain_traffic_owned eng s = (s', drains) \<Longrightarrow> serving ya eng ld r f s' g"
| kicking: "serving ya eng ld r f s g \<Longrightarrow> close_user_connections_owned eng node_id uid s = (s', n) \<Longrightarrow> serving ya eng ld r f s' g"
| beginning_close: "serving ya eng ld r f s g \<Longrightarrow> serving ya eng ld r f (begin_close s) g"
| closing: "serving ya eng ld r f s g \<Longrightarrow> close_owned eng s = (s', z) \<Longrightarrow> serving ya eng ld r f s' g"

text \<open>A call of the runtime's clients is a sequence of these steps.\<close>

lemma call_serving: "serving ya eng ld r f s g \<Longrightarrow> serving ya eng ld r f (run_call eng call s) g"
  by (cases call) (auto intro: serving.draining serving.kicking serving.beginning_close serving.closing prod.collapse [symmetric])

lemma calls_serving: "serving ya eng ld r f s g \<Longrightarrow> serving ya eng ld r f (fold (run_call eng) calls s) g"
  by (induction calls arbitrary: s) (simp_all add: call_serving)

lemma external_serving:
  assumes "serving ya eng ld r f s None" "apply_external_owned ya eng ld config force_reload calls s = (s', x)"
  shows "serving ya eng ld r f s' None"
proof (cases "rt_closing s")
  case True
  with assms show ?thesis by (auto simp: apply_external_owned_def)
next
  case False
  obtain s1 result where load: "load_rule_sets ld config s = (s1, result)" by fastforce
  define s2 where "s2 = fold (run_call eng) calls s1"
  have "finish_external ya eng ld config force_reload (prepare_error eng s2 result) s2 = (s', x)"
    using assms(2) False load by (simp add: apply_external_owned_def prepare_rule_sets_def Let_def s2_def)
  moreover have "serving ya eng ld r f s2 (Some (Applying config force_reload result))"
    using serving.preparing [OF assms(1) False load] by (simp add: s2_def calls_serving)
  ultimately show ?thesis by (rule serving.applying [rotated])
qed

lemma refresh_serving:
  assumes "serving ya eng ld r f s None" "refresh_rule_sets_owned ya eng ld generation config calls s = (s', y)"
  shows "serving ya eng ld r f s' None"
proof (cases "\<not> rule_set_watcher_is_active generation s \<or> ap_closed (rt_state s)")
  case True
  with assms show ?thesis by (auto simp: refresh_rule_sets_owned_def)
next
  case False
  obtain s1 result where load: "load_rule_sets ld config s = (s1, result)" by fastforce
  define s2 where "s2 = fold (run_call eng) calls s1"
  have "finish_refresh ya eng ld generation config (prepare_error eng s2 result) s2 = (s', y)"
    using assms(2) False load by (simp add: refresh_rule_sets_owned_def prepare_rule_sets_def Let_def s2_def)
  moreover have "serving ya eng ld r f s2 (Some (Refreshing generation config result))"
    using serving.refetching [OF assms(1) _ _ load] False by (simp add: s2_def calls_serving)
  ultimately show ?thesis by (rule serving.refreshing [rotated])
qed

lemma prepare_error_unchanged: "\<forall>error. prepare_error eng s result = Inl error \<longrightarrow> rte_state_unchanged error"
  by (cases result) (auto simp: prepare_error_def runtime_error_unchanged_def)

text \<open>A shutdown that overtook the preparation: the candidate is dropped.\<close>

lemma finish_external_closing:
  assumes "rt_closing s"
  shows "finish_external ya eng ld config force_reload preparation s =
    (s, Inl (case preparation of Inl error \<Rightarrow> error | Inr _ \<Rightarrow> runtime_error_unchanged ''runtime is closed'' (engine_running eng s)))"
  using assms by (cases preparation) (simp_all add: finish_external_def apply_transaction_locked_def)

lemma finish_refresh_closing: "rt_closing s \<Longrightarrow> finish_refresh ya eng ld generation config preparation s = (s, None)"
  by (simp add: finish_refresh_def rule_set_watcher_is_active_def)

context engine_contract
begin

lemma finish_refresh_ok:
  assumes "finish_refresh ya eng ld generation config preparation s = (s', y)" "runtime_ok good view eff s"
  shows "runtime_ok good view eff s'"
proof (cases "s' = s")
  case False
  with assms(1) obtain prepared x where "apply_transaction_locked ya eng ld config prepared False s = (s', x)"
    by (auto simp: finish_refresh_def split: if_splits sum.splits prod.splits)
  from locked_applied(1) [OF this assms(2)] show ?thesis by (simp add: applied_def)
qed (simp add: assms(2))

lemma serving_ok: "serving ya eng ld r f s g \<Longrightarrow> runtime_ok good view eff r \<Longrightarrow> runtime_ok good view eff s"
proof (induction rule: serving.induct)
  case (preparing s config s' result force_reload)
  then show ?case using load_step [OF preparing.hyps(3)] by blast
next
  case (applying s config force_reload result s' x)
  then show ?case using finish_applied [OF applying.hyps(2) _ prepare_error_unchanged] by (simp add: applied_def)
next
  case (refetching s generation config s' result)
  then show ?case using load_step [OF refetching.hyps(4)] by blast
next
  case (refreshing s generation config result s' y)
  then show ?case using finish_refresh_ok [OF refreshing.hyps(2)] by blast
next
  case (draining s g s' drains)
  then show ?case using drain_ok(1) [OF draining.hyps(2)] by blast
next
  case (kicking s g node_id uid s' n)
  then show ?case using kick_ok(3) [OF kicking.hyps(2)] by blast
next
  case (beginning_close s g)
  then show ?case using begin_close_ok by blast
next
  case (closing s g s' z)
  then show ?case using close_step [OF closing.hyps(2)] by blast
qed

text \<open>A closed runtime stays closed, and its engine stays empty.\<close>

lemma empty_close:
  assumes "runtime_ok good view eff r" "view (rt_engine r) = Map.empty" "close_owned eng r = (r', x)"
  shows "x = Inr ()"
proof -
  have "set (map ii_tag (eg_list_inbounds eng (rt_engine r))) = {}"
    using list_inbounds [OF calm_good [OF ok_calm [OF assms(1)]]] assms(2) by simp
  then have "eg_list_inbounds eng (rt_engine r) = []" by simp
  with assms(3) show ?thesis by (auto simp: close_owned_def Let_def cancel_rule_set_watcher_locked_def begin_close_def split: if_splits)
qed

lemma closed_quiet:
  "serving ya eng ld r f s g \<Longrightarrow> runtime_ok good view eff r \<Longrightarrow> rt_closing r \<and> view (rt_engine r) = Map.empty \<Longrightarrow>
   rt_closing s \<and> view (rt_engine s) = Map.empty"
proof (induction rule: serving.induct)
  case (applying s config force_reload result s' x)
  then show ?case by (simp add: finish_external_closing)
next
  case (refetching s generation config s' result)
  then show ?case by (simp add: rule_set_watcher_is_active_def)
next
  case (refreshing s generation config result s' y)
  then show ?case by (simp add: finish_refresh_closing)
next
  case (draining s g s' drains)
  then show ?case using drain_ok [OF draining.hyps(2)] serving_ok [OF draining.hyps(1)] by auto
next
  case (kicking s g node_id uid s' n)
  then show ?case using kick_ok [OF kicking.hyps(2)] serving_ok [OF kicking.hyps(1)] by (auto simp: stepped_def)
next
  case (beginning_close s g)
  then show ?case by (simp add: begin_close_def)
next
  case (closing s g s' z)
  then have s: "runtime_ok good view eff s" "view (rt_engine s) = Map.empty" using serving_ok by blast+
  from close_step [OF closing.hyps(2) s(1)] empty_close [OF s closing.hyps(2)] show ?case by simp
qed simp_all

end

section \<open>The configuration a runtime stands for\<close>

definition in_force :: "AppliedState \<Rightarrow> NormalizedConfig option" where
  "in_force st = (case ap_current st of Some c \<Rightarrow> Some c | None \<Rightarrow> ap_recovery st)"

lemma drifted_in_force: "drifted eng good r r' \<Longrightarrow> in_force (rt_state r') = in_force (rt_state r)"
  by (cases "ap_current (rt_state r)") (simp_all add: drifted_def in_force_def)

lemma commit_groups_applied [simp]: "rt_state (commit_groups eng r) = rt_state r"
  by (simp add: commit_groups_def on_engine_def split: prod.split)

context engine_contract
begin

lemma recover_in_force:
  assumes "recover_if_needed eng r = (r', x)" "runtime_ok good view eff r"
  shows "in_force (rt_state r') = in_force (rt_state r)"
proof (cases "ap_current (rt_state r)")
  case (Some c)
  with recover_step(6) [OF assms] show ?thesis by simp
next
  case None
  with assms(2) obtain c where c: "ap_recovery (rt_state r) = Some c" "config_wf c" by (auto simp: runtime_ok_def)
  define infos where "infos = eg_list_inbounds eng (rt_engine r)"
  define live where "live = known_live c infos (ap_recovery_live (rt_state r))"
  have pub: "drifted eng good r (publish_recovery_live live r)" using assms(2) by (intro drifted_publish) (simp add: runtime_ok_def)
  obtain r1 errors live1 where stop: "stop_indeterminate eng infos live (publish_recovery_live live r) = (r1, errors, live1)"
    by (metis prod_cases3)
  have far1: "drifted eng good r r1"
    using stop_indeterminate_step [OF stop drifted_calm [OF pub]] pub by (blast intro: drifted_trans)
  obtain r2 y where conf: "on_engine (\<lambda>e. eg_configure_urltest_probe_dns eng e (nz_urltest_probe_dns c)) (rotate_dns eng r1) = (r2, y)"
    by fastforce
  note rotated = rotate_step [OF drifted_calm [OF far1]]
  have far2: "drifted eng good r r2"
    using far1 rotated configure_step [OF conf stepped_calm [OF conjunct1 [OF rotated]]] by (blast intro: drifted_trans stepped_drifted)
  obtain r3 z where build: "rebuild eng (rt_recovery_replay r2) (map snd (nz_inbounds c)) live1 r2 = (r3, z)" by fastforce
  have far3: "drifted eng good r r3"
    using far2 rebuild_step [OF build drifted_calm [OF far2] config_inbounds [OF c(2)]] by (blast intro: drifted_trans)
  define fin where "fin = commit_groups eng (r3\<lparr> rt_state := (rt_state r3)\<lparr> ap_current := Some c, ap_recovery := None,
      ap_recovery_live := Map.empty \<rparr>, rt_recovery_replay := Map.empty \<rparr>)"
  have "recover_if_needed eng r = (if errors \<noteq> [] then
      (r1, Inl (runtime_error_failed ''clean up an indeterminate runtime before recovery'' errors False False (engine_running eng r1)))
    else (case y of
        Inl error \<Rightarrow> (r2, Inl (runtime_error_failed (''restore generation-global URLTest probe DNS: '' @ display_engine_error error) [] False False False))
      | Inr _ \<Rightarrow> (case z of Inl error \<Rightarrow> (r3, Inl error) | Inr _ \<Rightarrow> (fin, Inr ()))))"
    unfolding recover_if_needed_def None c(1) option.case Let_def infos_def [symmetric] live_def [symmetric] stop prod.case conf
    by (cases y; cases z) (simp_all add: build fin_def)
  with assms(1) have "r' \<in> {r1, r2, r3, fin}" by (cases y; cases z) (auto split: if_splits)
  moreover have "in_force (rt_state fin) = in_force (rt_state r)" by (simp add: fin_def in_force_def None c(1))
  ultimately show ?thesis using far1 far2 far3 by (auto dest: drifted_in_force)
qed

text \<open>A failed apply stands for the configuration the runtime stood for before, also when it started from the recovery.\<close>

lemma locked_in_force:
  assumes "apply_transaction_locked ya eng ld config prepared force_reload r = (r', Inl e)" "runtime_ok good view eff r"
  shows "in_force (rt_state r') = in_force (rt_state r)"
proof -
  have here: "in_force (rt_state r') = in_force (rt_state s)"
    if "apply_transaction_locked ya eng ld config prepared force_reload s = (r', Inl e)" "runtime_ok good view eff s" "ap_current (rt_state s) = Some c" for s c
    using apply_locked_step [OF that(1,2)] that(3) by (auto simp: in_force_def split: if_splits option.splits)
  show ?thesis
  proof (cases "rt_closing r \<or> ap_closed (rt_state r)")
    case True
    with assms show ?thesis by (auto simp: apply_transaction_locked_def)
  next
    case False
    obtain r1 y where rec: "recover_if_needed eng r = (r1, y)" by fastforce
    note step = recover_step [OF rec assms(2)] and same = recover_in_force [OF rec assms(2)]
    show ?thesis
    proof (cases "(\<exists>error. desired_config ya (eg_traffic_analysis_disabled eng (rt_engine r)) prepared config = Inl error) \<or> (\<exists>error. y = Inl error)")
      case True
      with assms(1) False rec same show ?thesis by (auto simp: apply_transaction_locked_def split: sum.splits)
    next
      case go: False
      then obtain u where y: "y = Inr u" by (cases y) auto
      from step(5) [OF y] obtain c where c: "ap_current (rt_state r1) = Some c" by blast
      have "recover_if_needed eng r1 = (r1, Inr ())" using c by (simp add: recover_if_needed_def)
      moreover obtain desired where "desired_config ya (eg_traffic_analysis_disabled eng (rt_engine r)) prepared config = Inr desired"
        using go by (cases "desired_config ya (eg_traffic_analysis_disabled eng (rt_engine r)) prepared config") auto
      ultimately have "apply_transaction_locked ya eng ld config prepared force_reload r1 = apply_transaction_locked ya eng ld config prepared force_reload r"
        using step(2) False rec y by (simp add: apply_transaction_locked_def kept_def)
      with here [OF _ step(1) c] assms(1) same show ?thesis by simp
    qed
  qed
qed

lemma external_in_force:
  assumes "apply_external_owned ya eng ld config force_reload calls r = (r', Inl e)" "runtime_ok good view eff r"
  shows "in_force (rt_state r') = in_force (rt_state (lock_state eng ld config calls r))"
proof -
  obtain r1 y where prep: "prepare_rule_sets eng ld config calls r = (r1, y)" by fastforce
  show ?thesis
  proof (cases "rt_closing r \<or> (\<exists>error. y = Inl error)")
    case True
    with assms(1) prep show ?thesis by (auto simp: apply_external_owned_def lock_state_def finish_external_def split: if_splits)
  next
    case False
    then obtain prepared where y: "y = Inr prepared" by (cases y) auto
    with assms(1) prep False have "apply_transaction_locked ya eng ld config prepared force_reload r1 = (r', Inl e)"
      by (auto simp: apply_external_owned_def finish_external_def split: prod.splits sum.splits if_splits)
    with locked_in_force [OF this] prepare_step(1) [OF prep assms(2)] prep False show ?thesis by (simp add: lock_state_def)
  qed
qed

text \<open>A shutdown call during the preparation leaves the runtime closing at the lock, and an apply that finds it closing
  fails and changes nothing.\<close>

lemma shutdown_closing:
  assumes "call \<in> set calls" "call = BeginClose \<or> call = CloseRuntime" "runtime_ok good view eff r"
  shows "rt_closing (fold (run_call eng) calls r)"
proof -
  from assms(1) obtain before after where calls: "calls = before @ call # after" by (meson split_list)
  define s where "s = fold (run_call eng) before r"
  have s: "runtime_ok good view eff s" using calls_ok [OF assms(3)] by (simp add: s_def)
  have "rt_closing (run_call eng call s)"
  proof (cases "call = BeginClose")
    case False
    obtain s' x where close: "close_owned eng s = (s', x)" by fastforce
    with False assms(2) close_step [OF close s] show ?thesis by auto
  qed (simp add: begin_close_def)
  with calls_ok [OF conjunct1 [OF call_ok [OF s, of call]], of after] show ?thesis by (simp add: calls s_def)
qed

lemma shutdown_lock_state:
  assumes "runtime_ok good view eff r" "BeginClose \<in> set calls \<or> CloseRuntime \<in> set calls"
  shows "rt_closing (lock_state eng ld config calls r)"
proof -
  obtain r1 result where load: "load_rule_sets ld config r = (r1, result)" by fastforce
  with shutdown_closing [OF _ _ conjunct1 [OF load_step [OF load assms(1)]]] assms(2) show ?thesis
    by (auto simp: lock_state_def prepare_rule_sets_def Let_def)
qed

lemma external_closing:
  assumes "apply_external_owned ya eng ld config force_reload calls r = (r', x)" "runtime_ok good view eff r"
    "rt_closing (lock_state eng ld config calls r)"
  shows "r' = lock_state eng ld config calls r \<and> (\<exists>error. x = Inl error \<and> rte_state_unchanged error)"
proof -
  obtain r1 y where prep: "prepare_rule_sets eng ld config calls r = (r1, y)" by fastforce
  show ?thesis
  proof (cases "rt_closing r")
    case True
    with assms(1) show ?thesis by (auto simp: apply_external_owned_def lock_state_def)
  next
    case False
    with assms(1,3) prep prepare_step(5) [OF prep assms(2)] show ?thesis
      by (cases y) (auto simp: apply_external_owned_def lock_state_def finish_external_closing)
  qed
qed

end

section \<open>A run of the runtime\<close>

definition ex_loader :: "unit rule_set_loader" where
  "ex_loader = \<lparr> ld_prepare = (\<lambda>w _. (w, False, Inr \<lparr> ps_digest = zero_digest, ps_path_replacements = [], ps_pending_publications = [] \<rparr>)),
     ld_commit = (\<lambda>w _. (w, Inr ())) \<rparr>"

definition ex_prepared_rules :: PreparedRuleSets where
  "ex_prepared_rules = \<lparr> ps_digest = zero_digest, ps_path_replacements = [], ps_pending_publications = [] \<rparr>"

definition ex_yaml :: yaml_api where
  "ex_yaml = \<lparr> ya_from_slice = (\<lambda>_. Inl ''no YAML''), ya_to_string = (\<lambda>_. Inl ''no YAML'') \<rparr>"

definition ex_compiled :: CompiledInbound where
  "ex_compiled = \<lparr> ci_node_id = ''node'', ci_protocol = ''vless'', ci_spec = ex_inbound \<rparr>"

definition ex_config :: RuntimeConfig where
  "ex_config = \<lparr> rc_inbounds = [ex_compiled], rc_rule_sets = [], rc_diagnostic_yaml = [], rc_dns_client_fingerprint = zero_digest,
     rc_urltest_probe_dns = None \<rparr>"

definition ex_normal :: NormalizedConfig where
  "ex_normal = NormalizedConfig_default\<lparr> nz_inbounds := [(''in'', \<lparr> nb_compiled = ex_compiled, nb_users = [], nb_dynamic_users = False \<rparr>)] \<rparr>"

abbreviation ex_shoes :: "((UserStats, nat) EngineInner, InboundReplayLease) engine" where
  "ex_shoes \<equiv> shoes_engine ex_core ex_credentials ex_context ex_settle"

lemma ex_normalized: "desired_config ex_yaml False \<lparr> ps_digest = zero_digest, ps_path_replacements = [], ps_pending_publications = [] \<rparr> ex_config = Inr ex_normal"
proof -
  have "trim ''in'' = ''in''" "trim ''node'' \<noteq> []" "trim ''vless'' \<noteq> []" by (simp_all add: trim_id ascii_graphic_def byte_of_def)
  then show ?thesis
    by (simp add: desired_config_def rewrite_candidate_def normalize_def normalize_inbound_def ex_config_def ex_compiled_def ex_inbound_def
        ex_normal_def NormalizedConfig_default_def Let_def)
qed

lemma ex_validates: "validate_inbound ex_core ex_credentials ex_context ex_booted ex_inbound = Inr ()"
  using ex_payload ex_targets ex_in_trim
  by (simp add: validate_inbound_def candidate_registry_def apply_analysis_policy_def traffic_analysis_disabled_def target_keys_def
      Let_def ex_booted_def ex_inbound_def ex_valid_def)

lemma ex_probe: "configure_urltest_probe_dns ex_core None ex_booted = (ex_booted, Inr ())" "validate_urltest_probe_dns ex_core ex_booted None = Inr ()"
  by (simp_all add: configure_urltest_probe_dns_def validate_urltest_probe_dns_def validate_urltest_probe_dns_config_def present_def on_world_def
      ensure_urltest_probe_resolver_def prune_inline_dns_def on_control_def ex_booted_def) (simp_all add: ex_core_def)

lemma ex_add: "engine_add_inbound ex_core ex_credentials ex_context ex_inbound ex_booted = (ex_running, Inr (sl_info ex_slot))"
  by (simp add: engine_add_inbound_def add_inbound_inner_def ex_prepared ex_added)

lemma ex_applied:
  "snd (apply_external_owned ex_yaml ex_shoes ex_loader ex_config False [] (from_engine ex_booted ())) = Inr ()"
proof -
  have off: "traffic_analysis_disabled ex_booted = False" by (simp add: traffic_analysis_disabled_def ex_booted_def)
  show ?thesis
    using ex_normalized ex_validates ex_probe ex_add off
    by (simp add: apply_external_owned_def prepare_rule_sets_def load_rule_sets_def prepare_error_def finish_external_def apply_transaction_locked_def recover_if_needed_def run_transaction_def
        from_engine_def AppliedState_default_def capture_replay_state_def execute_apply_def diff_configs_def jbind_def
        inbound_at_def on_engine_def flush_changed_traffic_metadata_def map_filter_simps shoes_engine_def ex_loader_def ex_normal_def
        NormalizedConfig_default_def ex_compiled_def Let_def)
qed

section \<open>The runtime on the engine\<close>

lemma bootstrap_ok: "bootstrap core identity w = (w', Inr e) \<Longrightarrow> engine_ok ca uc kinds_of e \<and> engine_view uc e = Map.empty"
  by (auto simp: bootstrap_def andthen_Inr engine_ok_def engine_view_def slot_at_def case_prod_unfold)

lemma view_empty: "engine_view uc e = Map.empty \<Longrightarrow> en_inbounds e = []"
  by (cases "en_inbounds e") (auto simp: engine_view_def slot_at_def fun_eq_iff split: if_splits)

lemma from_engine_ok:
  assumes "bootstrap core identity w = (w', Inr e)"
  shows "runtime_ok (engine_ok ca uc kinds_of) (engine_view uc) (user_effect ca kinds_of) (from_engine e loader)"
  using bootstrap_ok [OF assms, of ca uc kinds_of]
  by (simp add: runtime_ok_def calm_def from_engine_def AppliedState_default_def pending_ok_def reservation_held_def pending_new_def)

lemma history_ok:
  assumes "shoes_laws core uc settle kinds_of" "bootstrap core identity w = (w', Inr e)"
    "serving ya (shoes_engine core ca uc settle) ld (from_engine e loader) f r g"
  shows "runtime_ok (engine_ok ca uc kinds_of) (engine_view uc) (user_effect ca kinds_of) r"
  using engine_contract.serving_ok [OF engine_implements [OF assms(1)] assms(3) from_engine_ok [OF assms(2)]] .

text \<open>C3 (an apply is a transaction): in every history of a runtime around the engine, take an apply or a forced reload,
  with any drains, kicks and shutdown calls that run while it prepares its rule sets without the apply lock. If it
  succeeds, no shutdown call ran meanwhile and the engine runs exactly the normal form of the given configuration with
  the rule sets the loader prepared for it: the same tags, each last loaded completely from its payload and, where it has a user
  table, with exactly its users, their settings and credentials. If it fails, it is judged against the state it found
  under the lock, which has the configuration of the state the apply started in unless a close ran meanwhile. A
  failure never changes which configuration that state stands for, the current one or the one kept for the recovery, also
  when it was in recovery. Where a configuration was in force there, the engine runs exactly that configuration if the error
  says so (rolled back, or state unchanged) or the runtime still reports a current configuration; otherwise
  that configuration is kept for the recovery. An apply that finds the runtime shut down changes nothing at all.\<close>

theorem apply_is_transaction:
  assumes laws: "shoes_laws core uc settle kinds_of" and start: "bootstrap core identity w = (w', Inr e)"
    and history: "serving ya (shoes_engine core ca uc settle) ld (from_engine e loader) None r None"
    and run: "apply_external_owned ya (shoes_engine core ca uc settle) ld config force_reload calls r = (r', x)"
    and lock: "s = lock_state (shoes_engine core ca uc settle) ld config calls r"
  shows "(CloseRuntime \<notin> set calls \<longrightarrow> rt_state s = rt_state r) \<and> (BeginClose \<in> set calls \<or> CloseRuntime \<in> set calls \<longrightarrow> rt_closing s) \<and>
    (case x of
      Inr _ \<Rightarrow> \<not> rt_closing s \<and> (\<exists>w closing prepared desired. ld_prepare ld (rt_rule_sets r) (rc_rule_sets config) = (w, closing, Inr prepared) \<and>
        desired_config ya (traffic_analysis_disabled (rt_engine r)) prepared config = Inr desired \<and>
        ap_committed (rt_state r') \<and> ap_current (rt_state r') = Some desired \<and>
        engine_view uc (rt_engine r') = config_view (user_effect ca kinds_of) desired)
    | Inl error \<Rightarrow> in_force (rt_state r') = in_force (rt_state s) \<and> (rt_closing s \<longrightarrow> r' = s \<and> rte_state_unchanged error) \<and>
        (\<forall>c. ap_current (rt_state s) = Some c \<longrightarrow> engine_view uc (rt_engine s) = config_view (user_effect ca kinds_of) c \<and>
        (if rte_rolled_back error \<or> rte_state_unchanged error \<or> ap_current (rt_state r') \<noteq> None
         then ap_current (rt_state r') = Some c \<and> engine_view uc (rt_engine r') = config_view (user_effect ca kinds_of) c
         else ap_recovery (rt_state r') = Some c)))"
proof -
  let ?eng = "shoes_engine core ca uc settle"
  note contract = engine_implements [where ca = ca, OF laws]
  note ok = history_ok [OF laws start history]
  note at_lock = engine_contract.lock_state_ok [OF contract ok, where ld = ld and config = config and calls = calls, folded lock]
  note closing = engine_contract.external_closing [OF contract run ok, folded lock]
  obtain w1 during result where prep: "ld_prepare ld (rt_rule_sets r) (rc_rule_sets config) = (w1, during, result)" by (metis prod_cases3)
  have policy: "eg_traffic_analysis_disabled ?eng = traffic_analysis_disabled" by (simp add: shoes_engine_def)
  have "BeginClose \<in> set calls \<or> CloseRuntime \<in> set calls \<longrightarrow> rt_closing s"
    using engine_contract.shutdown_lock_state [OF contract ok] by (auto simp: lock)
  moreover have "in_force (rt_state r') = in_force (rt_state s)" if "x = Inl error" for error
    using engine_contract.external_in_force [OF contract _ ok] run that lock by blast
  moreover note engine_contract.external_applied [OF contract run ok, folded lock] engine_contract.ok_current [OF contract at_lock(1)]
  ultimately show ?thesis using at_lock(2,3) closing policy by (cases x) (auto simp: applied_def serves_def loaded_def prep)
qed

theorem apply_is_transaction_witness:
  "(\<exists>r. apply_external_owned ex_yaml ex_shoes ex_loader ex_config False [] (from_engine ex_booted ()) = (r, Inr ()) \<and>
     ap_current (rt_state r) = Some ex_normal \<and> engine_view ex_context (rt_engine r) = config_view (user_effect ex_credentials ex_kinds) ex_normal) \<and>
   (\<exists>r error. apply_external_owned ex_yaml ex_shoes ex_loader ex_config False [CloseRuntime] (from_engine ex_booted ()) = (r, Inl error) \<and>
     r = lock_state ex_shoes ex_loader ex_config [CloseRuntime] (from_engine ex_booted ()) \<and> rte_state_unchanged error)"
proof
  obtain r where run: "apply_external_owned ex_yaml ex_shoes ex_loader ex_config False [] (from_engine ex_booted ()) = (r, Inr ())"
    using ex_applied by (metis prod.collapse)
  have "traffic_analysis_disabled ex_booted = False" by (simp add: traffic_analysis_disabled_def ex_booted_def)
  with apply_is_transaction [OF ex_laws ex_boot serving.idle run refl] ex_normalized run
  show "\<exists>r. apply_external_owned ex_yaml ex_shoes ex_loader ex_config False [] (from_engine ex_booted ()) = (r, Inr ()) \<and>
     ap_current (rt_state r) = Some ex_normal \<and> engine_view ex_context (rt_engine r) = config_view (user_effect ex_credentials ex_kinds) ex_normal"
    by (auto simp: ex_loader_def from_engine_def)
next
  obtain r x where run: "apply_external_owned ex_yaml ex_shoes ex_loader ex_config False [CloseRuntime] (from_engine ex_booted ()) = (r, x)" by fastforce
  with apply_is_transaction [OF ex_laws ex_boot serving.idle run refl]
  show "\<exists>r error. apply_external_owned ex_yaml ex_shoes ex_loader ex_config False [CloseRuntime] (from_engine ex_booted ()) = (r, Inl error) \<and>
     r = lock_state ex_shoes ex_loader ex_config [CloseRuntime] (from_engine ex_booted ()) \<and> rte_state_unchanged error"
    by (cases x) auto
qed

text \<open>C15 (a closed runtime stays closed): when a close succeeds, no inbound is registered in the engine any more, and
  whatever happens afterwards none ever is again. Every later apply is refused as closed with the runtime unchanged, and so
  is an apply that prepared before the close and takes the apply lock after it; a refresh in flight across the close is discarded.\<close>

theorem close_is_final:
  assumes laws: "shoes_laws core uc settle kinds_of" and start: "bootstrap core identity w = (w', Inr e)"
    and history: "serving ya (shoes_engine core ca uc settle) ld (from_engine e loader) None r f"
    and closed: "close_owned (shoes_engine core ca uc settle) r = (r', Inr ())"
    and later: "serving ya (shoes_engine core ca uc settle) ld r' f s g"
  shows "en_inbounds (rt_engine r') = [] \<and> en_inbounds (rt_engine s) = [] \<and>
    apply_external_owned ya (shoes_engine core ca uc settle) ld config force_reload calls s =
      (s, Inl (runtime_error_unchanged ''runtime is closed'' False)) \<and>
    finish_external ya (shoes_engine core ca uc settle) ld config force_reload (Inr prepared) s =
      (s, Inl (runtime_error_unchanged ''runtime is closed'' False)) \<and>
    finish_refresh ya (shoes_engine core ca uc settle) ld generation config preparation s = (s, None)"
proof -
  note contract = engine_implements [where ca = ca, OF laws]
  note ok = history_ok [OF laws start history]
  have r': "runtime_ok (engine_ok ca uc kinds_of) (engine_view uc) (user_effect ca kinds_of) r'" "rt_closing r'" "engine_view uc (rt_engine r') = Map.empty"
    using engine_contract.close_step [OF contract closed ok] by simp_all
  have s: "rt_closing s" "engine_view uc (rt_engine s) = Map.empty"
    using engine_contract.closed_quiet [OF contract later r'(1)] r' by simp_all
  have "\<not> engine_running (shoes_engine core ca uc settle) s"
    using view_empty [OF s(2)] by (simp add: engine_running_def shoes_engine_def list_inbounds_def)
  with s view_empty [OF r'(3)] view_empty [OF s(2)] show ?thesis
    by (simp add: apply_external_owned_def finish_external_closing finish_refresh_closing)
qed

theorem close_is_final_witness:
  "\<exists>r. close_owned ex_shoes (from_engine ex_booted ()) = (r, Inr ()) \<and>
     serving ex_yaml ex_shoes ex_loader (from_engine ex_booted ()) None (from_engine ex_booted ()) (Some (Applying ex_config False (Inr ex_prepared_rules))) \<and>
     finish_external ex_yaml ex_shoes ex_loader ex_config False (Inr ex_prepared_rules) r = (r, Inl (runtime_error_unchanged ''runtime is closed'' False))"
proof -
  have "snd (close_owned ex_shoes (from_engine ex_booted ())) = Inr ()"
    by (simp add: close_owned_def Let_def begin_close_def cancel_rule_set_watcher_locked_def from_engine_def AppliedState_default_def
        shoes_engine_def list_inbounds_def ex_booted_def)
  then obtain r where closed: "close_owned ex_shoes (from_engine ex_booted ()) = (r, Inr ())" by (metis prod.collapse)
  have "load_rule_sets ex_loader ex_config (from_engine ex_booted ()) = (from_engine ex_booted (), Inr ex_prepared_rules)" "\<not> rt_closing (from_engine ex_booted ())"
    by (simp_all add: load_rule_sets_def ex_loader_def from_engine_def ex_prepared_rules_def)
  then have flight: "serving ex_yaml ex_shoes ex_loader (from_engine ex_booted ()) None (from_engine ex_booted ()) (Some (Applying ex_config False (Inr ex_prepared_rules)))"
    by (intro serving.preparing [OF serving.idle])
  from close_is_final [OF ex_laws ex_boot flight closed serving.idle, of ex_config False "[]" ex_prepared_rules] closed flight show ?thesis by blast
qed

end
