(* ===== verification/Runtime_Node.thy ===== *)
theory Runtime_Node
  imports Runtime_History Topology_Adapter
begin

text \<open>
  The runtime as the topology adapter uses it. The adapter relies on \<open>node_runtime_contract\<close>: an accepted configuration is
  the one the runtime stands for, and a classified failure changes nothing. The runtime of \<open>runtime.rs\<close> on the engine of
  \<open>shoes-engine\<close> keeps that contract; it stands for the configuration it has in force or, after a failed rollback, the
  one it keeps for the recovery. The contract is interpreted on the invariant states of that runtime, for every list of
  calls that overtake a preparation, and the adapter's own contract on an adapter that drives it.
\<close>

section \<open>Tracked runtimes\<close>

text \<open>A runtime together with the last configuration it accepted and still stands for.\<close>

definition stands_for :: "yaml_api \<Rightarrow> ('e, 'l) engine \<Rightarrow> ('e, 'l, 'w) ShoesRuntime \<Rightarrow> RuntimeConfig \<Rightarrow> bool" where
  "stands_for ya eng r config \<longleftrightarrow> (\<exists>prepared desired.
     desired_config ya (eg_traffic_analysis_disabled eng (rt_engine r)) prepared config = Inr desired \<and> in_force (rt_state r) = Some desired)"

definition node_ok :: "yaml_api \<Rightarrow> ('e, 'l) engine \<Rightarrow> ('e \<Rightarrow> bool) \<Rightarrow> ('e \<Rightarrow> 'u live_view) \<Rightarrow> (json \<Rightarrow> UserSpec \<Rightarrow> 'u) \<Rightarrow>
    ('e, 'l, 'w) ShoesRuntime \<times> RuntimeConfig option \<Rightarrow> bool" where
  "node_ok ya eng good view eff n \<longleftrightarrow> runtime_ok good view eff (fst n) \<and> (\<forall>config. snd n = Some config \<longrightarrow> stands_for ya eng (fst n) config)"

definition tracked :: "('r \<Rightarrow> 'r \<times> ('f + 'a)) \<Rightarrow> 'c \<Rightarrow> 'r \<times> 'c option \<Rightarrow> ('r \<times> 'c option) \<times> ('f + 'a)" where
  "tracked call config n = (case call (fst n) of (r, x) \<Rightarrow> ((r, case x of Inr _ \<Rightarrow> Some config | Inl _ \<Rightarrow> snd n), x))"

context engine_contract
begin

lemma tracked_apply:
  assumes "node_ok ya eng good view eff n" "CloseRuntime \<notin> set calls"
  shows "node_ok ya eng good view eff (fst (tracked (apply_external_owned ya eng ld config force_reload calls) config n))"
    "eg_traffic_analysis_disabled eng (rt_engine (fst (fst (tracked (apply_external_owned ya eng ld config force_reload calls) config n)))) =
       eg_traffic_analysis_disabled eng (rt_engine (fst n))"
proof -
  obtain r' x where run: "apply_external_owned ya eng ld config force_reload calls (fst n) = (r', x)" by fastforce
  have ok: "runtime_ok good view eff (fst n)" using assms by (simp add: node_ok_def)
  note step = external_applied [OF run ok] and at_lock = lock_state_ok [OF ok]
  then have kept: "runtime_ok good view eff r'" "eg_traffic_analysis_disabled eng (rt_engine r') = eg_traffic_analysis_disabled eng (rt_engine (fst n))"
    using at_lock(2) by (simp_all add: applied_def)
  have "node_ok ya eng good view eff (r', case x of Inr _ \<Rightarrow> Some config | Inl _ \<Rightarrow> snd n)"
  proof (cases x)
    case (Inl e)
    with external_in_force [OF _ ok] run at_lock(3) [OF assms(2)] have "in_force (rt_state r') = in_force (rt_state (fst n))" by metis
    with Inl assms kept show ?thesis by (simp add: node_ok_def stands_for_def)
  next
    case (Inr u)
    with step obtain prepared desired where "desired_config ya (eg_traffic_analysis_disabled eng (rt_engine r')) prepared config = Inr desired"
      "ap_current (rt_state r') = Some desired" by (auto simp: applied_def serves_def)
    with Inr kept show ?thesis by (auto simp: node_ok_def stands_for_def in_force_def)
  qed
  with kept run show "node_ok ya eng good view eff (fst (tracked (apply_external_owned ya eng ld config force_reload calls) config n))"
    "eg_traffic_analysis_disabled eng (rt_engine (fst (fst (tracked (apply_external_owned ya eng ld config force_reload calls) config n)))) =
       eg_traffic_analysis_disabled eng (rt_engine (fst n))"
    by (simp_all add: tracked_def)
qed

lemma node_ok_same:
  assumes "node_ok ya eng good view eff n" "runtime_ok good view eff r'" "rt_state r' = rt_state (fst n)"
    "eg_traffic_analysis_disabled eng (rt_engine r') = eg_traffic_analysis_disabled eng (rt_engine (fst n))"
  shows "node_ok ya eng good view eff (r', snd n)"
  using assms by (simp add: node_ok_def stands_for_def)

lemma node_ok_close:
  assumes "node_ok ya eng good view eff n"
  shows "node_ok ya eng good view eff (fst (close_owned eng (fst n)), None)"
proof -
  obtain r' x where "close_owned eng (fst n) = (r', x)" by fastforce
  with close_step [OF this] assms show ?thesis by (simp add: node_ok_def)
qed

end

section \<open>The contract of the adapter\<close>

typedef shoes_node = "{n :: (((UserStats, nat) EngineInner, InboundReplayLease, unit) ShoesRuntime) \<times> RuntimeConfig option.
    node_ok ex_yaml ex_shoes (engine_ok ex_credentials ex_context ex_kinds) (engine_view ex_context) (user_effect ex_credentials ex_kinds) n}"
  using from_engine_ok [OF ex_boot] by (intro exI [of _ "(from_engine ex_booted (), None)"]) (simp add: node_ok_def)

setup_lifting type_definition_shoes_node

text \<open>The adapter's own lock keeps its close apart from an apply; drains, kicks and the start of a shutdown may overtake the
  preparation.\<close>

definition unlocked :: "side_call list \<Rightarrow> side_call list" where
  "unlocked calls = filter (\<lambda>call. call \<noteq> CloseRuntime) calls"

lemma unlocked_close [simp]: "CloseRuntime \<notin> set (unlocked calls)"
  by (simp add: unlocked_def)

abbreviation ex_apply :: "side_call list \<Rightarrow> RuntimeConfig \<Rightarrow> bool \<Rightarrow> (((UserStats, nat) EngineInner, InboundReplayLease, unit) ShoesRuntime) \<Rightarrow>
    ((UserStats, nat) EngineInner, InboundReplayLease, unit) ShoesRuntime \<times> (RuntimeError + unit)" where
  "ex_apply calls config force_reload \<equiv> apply_external_owned ex_yaml ex_shoes ex_loader config force_reload (unlocked calls)"

lift_definition node_start :: shoes_node is "(from_engine ex_booted (), None)"
  using from_engine_ok [OF ex_boot] by (simp add: node_ok_def)

lift_definition node_next :: "side_call list \<Rightarrow> RuntimeConfig \<Rightarrow> bool \<Rightarrow> shoes_node \<Rightarrow> shoes_node" is
  "\<lambda>calls config force_reload n. fst (tracked (ex_apply calls config force_reload) config n)"
  by (rule ex_engine.tracked_apply(1)) simp_all

lift_definition node_result :: "side_call list \<Rightarrow> RuntimeConfig \<Rightarrow> bool \<Rightarrow> shoes_node \<Rightarrow> RuntimeError + unit" is
  "\<lambda>calls config force_reload n. snd (tracked (ex_apply calls config force_reload) config n)" .

lift_definition node_serving :: "shoes_node \<Rightarrow> RuntimeConfig option" is snd .

lift_definition node_runtime_of :: "shoes_node \<Rightarrow> ((UserStats, nat) EngineInner, InboundReplayLease, unit) ShoesRuntime" is fst .

lift_definition node_begin_close :: "shoes_node \<Rightarrow> shoes_node" is "\<lambda>n. (begin_close (fst n), snd n)"
  by (rule ex_engine.node_ok_same)
     (auto simp: node_ok_def engine_contract.begin_close_ok [OF ex_engine.engine_contract_axioms], simp_all add: begin_close_def)

lift_definition node_close :: "shoes_node \<Rightarrow> shoes_node" is "\<lambda>n. (fst (close_owned ex_shoes (fst n)), None)"
  by (rule ex_engine.node_ok_close)

lift_definition node_kick :: "string \<Rightarrow> string \<Rightarrow> shoes_node \<Rightarrow> shoes_node" is
  "\<lambda>node_id uid n. (fst (close_user_connections_owned ex_shoes node_id uid (fst n)), snd n)"
proof -
  fix node_id uid :: string and n :: "((UserStats, nat) EngineInner, InboundReplayLease, unit) ShoesRuntime \<times> RuntimeConfig option"
  assume ok: "node_ok ex_yaml ex_shoes (engine_ok ex_credentials ex_context ex_kinds) (engine_view ex_context) (user_effect ex_credentials ex_kinds) n"
  obtain r' k where "close_user_connections_owned ex_shoes node_id uid (fst n) = (r', k)" by fastforce
  with engine_contract.kick_ok [OF ex_engine.engine_contract_axioms this] ok show "node_ok ex_yaml ex_shoes (engine_ok ex_credentials ex_context ex_kinds) (engine_view ex_context)
      (user_effect ex_credentials ex_kinds) (fst (close_user_connections_owned ex_shoes node_id uid (fst n)), snd n)"
    by (intro ex_engine.node_ok_same) (simp_all add: node_ok_def stepped_def)
qed

definition shoes_node_runtime :: "side_call list \<Rightarrow> (shoes_node, RuntimeConfig) node_runtime" where
  "shoes_node_runtime calls =
     (let ops = shoes_runtime ex_yaml ex_shoes ex_loader (unlocked calls) in
      \<lparr> nr_traffic_analysis_disabled = (\<lambda>n. nr_traffic_analysis_disabled ops (node_runtime_of n)),
        nr_apply_config = (\<lambda>n config. (node_next calls config False n, node_result calls config False n)),
        nr_reload_config = (\<lambda>n config. (node_next calls config True n, snd (nr_reload_config ops (node_runtime_of n) config))),
        nr_current_config = (\<lambda>n. nr_current_config ops (node_runtime_of n)),
        nr_begin_close = node_begin_close,
        nr_close = (\<lambda>n. (node_close n, snd (nr_close ops (node_runtime_of n)))),
        nr_runtime_health_snapshot = (\<lambda>n. nr_runtime_health_snapshot ops (node_runtime_of n)),
        nr_close_user_connections = (\<lambda>n node_id uid. (node_kick node_id uid n, snd (nr_close_user_connections ops (node_runtime_of n) node_id uid))) \<rparr>)"

lemma node_served:
  "node_serving (node_next calls config force_reload n) = (case node_result calls config force_reload n of Inr _ \<Rightarrow> Some config | Inl _ \<Rightarrow> node_serving n)"
  by transfer (simp add: tracked_def split: prod.split)

lemma shoes_policy: "eg_traffic_analysis_disabled (shoes_engine core ca uc settle) = traffic_analysis_disabled"
  by (simp add: shoes_engine_def)

lemma node_policy:
  "traffic_analysis_disabled (rt_engine (node_runtime_of (node_next calls config force_reload n))) = traffic_analysis_disabled (rt_engine (node_runtime_of n))"
  by transfer (rule ex_engine.tracked_apply(2) [unfolded shoes_policy], simp_all)

lemma node_reload_result:
  "snd (shoes_reload_config ex_yaml ex_shoes ex_loader config (unlocked calls) (node_runtime_of n)) =
     (case node_result calls config True n of Inl e \<Rightarrow> Inl e | Inr _ \<Rightarrow> Inr \<lparr> rls_running = True, rls_rolled_back = False \<rparr>)"
  by transfer (simp add: tracked_def shoes_reload_config_def split: prod.split sum.split)

interpretation shoes_node: node_runtime_contract "shoes_node_runtime calls" node_serving
  by unfold_locales
     (auto simp: shoes_node_runtime_def shoes_runtime_def Let_def node_served node_reload_result shoes_policy node_policy split: sum.splits)

text \<open>An adapter over that runtime, with the forwarding backend of a platform without one.\<close>

definition shoes_env :: "side_call list \<Rightarrow> (MachineTopology \<Rightarrow> bool \<Rightarrow> string + RuntimeConfig \<times> string list) \<Rightarrow> (unit port_manager, shoes_node, RuntimeConfig) adapter_env" where
  "shoes_env calls compile =
     \<lparr> ae_router = port_manager_router (unsupported_apply ''freebsd''), ae_runtime = shoes_node_runtime calls, ae_compile = compile,
       ae_from_slice = ex_from_slice \<rparr>"

interpretation shoes_adapter: adapter_contract "shoes_env calls compile" "\<lambda>m. Plan_default" node_serving
  by unfold_locales
     (auto simp: shoes_env_def port_manager_router_def manager_reconcile_def
       dest: unsupported.apply_ok unsupported.apply_ordinary shoes_node.apply_accepts shoes_node.reload_accepts
         shoes_node.apply_rejects shoes_node.reload_rejects simp: shoes_node.policy_fixed split: prod.splits)

end
