(* ===== verification/Spec2Isabelle.thy ===== *)
theory Spec2Isabelle
  imports Topology_Users Control_Executor Traffic_Queue Nft_Packets User_Table Runtime_Node
begin

text \<open>
  Verification of \<open>node-agent-rs\<close>, the agent of a proxy fleet.

  \<^bold>\<open>The program.\<close> A machine runs one agent. It opens a signed gRPC session to a panel
  (\<open>node-agent/src/session.rs\<close>), fetches the machine's topology of proxy nodes and users
  (\<open>control/fetcher.rs\<close>), receives control commands over a stream (\<open>control/worker.rs\<close>,
  \<open>control/ack.rs\<close>, \<open>policy.rs\<close>) and hands topologies to the topology manager
  (\<open>topology/manager.rs\<close>). The manager fences every change by revision and publication token and
  gives it to an adapter, which applies the UDP port-hopping plan (\<open>porthopping/\<close>) and the data
  plane (\<open>runtime.rs\<close>, on the proxy engine of the crate \<open>shoes-engine\<close>) as one transaction with
  rollback. The engine authenticates proxy users against a dynamic user table
  (\<open>shoes-engine/src/users.rs\<close>) and counts their bytes; the counters are aggregated
  (\<open>traffic.rs\<close>) and delivered to the panel through a bounded queue (\<open>traffic/stream.rs\<close>).

  \<^bold>\<open>How the program is represented.\<close> A struct is a record with one field per field of the
  source, an enum is a datatype with its variants, \<open>u8\<close> to \<open>u64\<close> are words of their width with the
  source's wrapping, checked or saturating operation written out, \<open>Result\<close> is a sum with the error
  on the left, a panic that the source does not rule out is an explicit outcome, \<open>Vec\<close> is a list,
  \<open>BTreeMap\<close> an ordered association list, \<open>HashMap\<close> a map, or the list of its entries where the
  iteration order can be seen. Text is a list of octets. A method with \<open>&mut self\<close> returns the updated
  state. Code under a mutex is one atomic step; where tasks interleave between locks the component is
  a step relation and the theorems range over all reachable states. An asynchronous wait is the event
  that ends it.

  \<^bold>\<open>What is a parameter.\<close> Code that is not in the repository is an argument of the
  definitions that use it: the panel's answers, the TOML, URL and JSON decoders, SHA-256 and HMAC, the
  clock, random jitter and nonces, the gRPC transport, the netlink encoding of expressions and the
  kernel, the proxy core \<open>shoes\<close> that owns listeners, resolvers, user contexts and credential parsing, and
  the loader of rule sets. Where a theorem needs
  something of a parameter it is a named hypothesis (\<open>kernel_contract\<close>, \<open>codec_laws\<close>, the locales
  \<open>shoes_laws\<close>, \<open>forwarding_backend\<close>, \<open>port_router_contract\<close> and \<open>node_runtime_contract\<close>, and the like) that states the documented behaviour, and the
  theorem's witness gives a concrete instance.

  \<^bold>\<open>Theories, bottom up.\<close>
  \<^item> \<open>Prelude\<close>, \<open>Rust_Text\<close>, \<open>Net_Addr\<close>: results, association lists, the text operations of Rust's
    \<open>str\<close>, \<open>format!\<close>, integer and address parsing. The collections \<open>result_simps\<close>, \<open>text_simps\<close> and their
    companions carry the proofs of the components.
  \<^item> \<open>Provider\<close>, \<open>Wire\<close>, \<open>Topology_Model\<close>, \<open>Topology_Proto\<close>: payloads, messages and topology types with
    their conversions (\<open>topology/provider.rs\<close>, \<open>acp.proto\<close>, \<open>topology/mod.rs\<close>, \<open>topology/proto.rs\<close>).
  \<^item> \<open>Acp_Proto\<close>: hexadecimal text, signatures, the convergence digest and the bounds of an analysis
    configuration (crate \<open>acp-proto\<close>).
  \<^item> \<open>Port_Ranges\<close>, \<open>Port_Plan\<close>, \<open>Port_Errors\<close>, \<open>Port_Manager\<close>: range syntax with its canonical form, the
    plan compiler with soundness and exact acceptance, the error classes, and the manager's lifecycle
    proved once in the locale \<open>forwarding_backend\<close> and interpreted on the backend of the platforms without
    port forwarding; what the Linux backend promises is stated on its own in \<open>Nft_Apply\<close>.
  \<^item> \<open>Nft_Markers\<close>, \<open>Nft_Rules\<close>, \<open>Nft_Conflicts\<close>, \<open>Nft_Backend\<close>, \<open>Nft_Transaction\<close>, \<open>Nft_Apply\<close>: the Linux backend
    (\<open>porthopping/backend_linux.rs\<close>): ownership markers, managed rules, the search for foreign redirects
    that overlap (chain jumps followed with the number of chains plus one as fuel, proved to be enough),
    the batch, its commit with a lost acknowledgement, and the theorem that a call either installs
    exactly the plan, changes nothing, or reports an unknown outcome, with unowned tables untouched.
  \<^item> \<open>Nft_Packets\<close>: what a foreign rule does to a packet, as a run of its loads and comparisons, independent of the
    recogniser of the source; an accepted plan shares no port with a foreign port redirect, and the
    redirects the recogniser does not see are exhibited.
  \<^item> \<open>Runtime_Api\<close>, \<open>Topology_Adapter\<close>: the runtime's interface as the adapter sees it and the adapter's
    transactions with rollback.
  \<^item> \<open>Topology_Manager\<close>, \<open>Topology_Operations\<close>, \<open>Topology_Transitions\<close>, \<open>Topology_Users\<close>: every command of the
    manager, histories of commands as a step relation, the abstract machine of published topologies
    they refine, the operation lock as a finer step relation in which a stop overtakes a started
    command, and the specification of user comparison and revocation.
  \<^item> \<open>Config\<close>, \<open>Backoff\<close>, \<open>Session\<close>, \<open>Fetcher\<close>: bootstrap configuration, reconnect schedule, session,
    signed calls, stream group, and the paged, snapshot-checked reads.
  \<^item> \<open>Policy\<close>, \<open>Ack_Store\<close>, \<open>Execution_Gate\<close>, \<open>Control_Lanes\<close>, \<open>Control_Executor\<close>: the control worker: the
    idempotency cache, the gate registry, the lanes as a step relation over any number of streams, and
    the execution of a command as a history of the topology manager.
  \<^item> \<open>Traffic\<close>, \<open>Traffic_Queue\<close>: aggregation of byte counters, the bounded queue and its stream; bytes are
    conserved, reports arrive in order, and after the forced flush every run of the one stream that is not
    interrupted delivers all reports within a bounded number of steps.
  \<^item> \<open>User_Credentials\<close>, \<open>User_Registry\<close>, \<open>User_Table\<close>: the engine's user table with its six indexes, the
    invariant that each is the inverse of the live users' keys, and authentication.
  \<^item> \<open>Json\<close>, \<open>Rule_Set\<close>, \<open>Runtime_Config\<close>, \<open>Runtime_Traffic\<close>, \<open>Runtime_Engine\<close>, \<open>Runtime_Steps\<close>, \<open>Runtime_Apply\<close>: the
    runtime (\<open>runtime.rs\<close>): normal forms and differences of configurations, the store of drained traffic,
    the engine's interface as the locale \<open>engine_contract\<close>, the steps of a transaction with their undo
    journal, and apply, reload, recovery, refresh, close and the reports. An apply and a refresh prepare without
    the apply lock: the drains, kicks and shutdown calls that run meanwhile are an argument of the operation.
  \<^item> \<open>Runtime_Views\<close>, \<open>Runtime_Undo\<close>, \<open>Runtime_Forward\<close>, \<open>Runtime_Execute\<close>, \<open>Runtime_Commit\<close>, \<open>Runtime_Recovery\<close>,
    \<open>Runtime_Service\<close>: the proofs of the runtime, inside \<open>engine_contract\<close>: what each step does to the
    view of the running inbounds, that the journal undoes it, and what a whole call does on every branch.
  \<^item> \<open>Engine_Protocol\<close>, \<open>Engine_Inbound\<close>, \<open>Engine_Core\<close>: the proxy engine (\<open>shoes-engine/src/protocol.rs\<close>,
    \<open>inbound.rs\<close>, \<open>lib.rs\<close>): the walks over protocol trees and their JSON, payload validation, listen
    targets, slots, and every operation of the engine over a record \<open>shoes_core\<close> of what it calls. An
    addition and an update are split where the source takes the control lock.
  \<^item> \<open>Engine_Users\<close>, \<open>Engine_Contract\<close>, \<open>Engine_Example\<close>, \<open>Engine_History\<close>, \<open>Runtime_History\<close>,
    \<open>Runtime_Node\<close>: the engine seen
    as its running inbounds and users, the proof that it keeps \<open>engine_contract\<close>, an instance of the
    proxy core on which the contract is interpreted, histories of the engine with preparations and
    commits interleaved, histories of the runtime on that engine, in which an apply prepares and decides in two
    steps, where its transaction and its shutdown are stated, and the interpretation of \<open>node_runtime_contract\<close> and \<open>adapter_contract\<close> on
    that runtime.

  This theory holds the properties that span components.

  \<^bold>\<open>Bounds and fuel.\<close> The constants are those of the sources (for instance \<open>MAX_USER_PAGES\<close>,
  \<open>MAX_USER_SNAPSHOT_ATTEMPTS\<close>). The loops of the sources that are bounded by a constant are recursions
  on the remaining count, so the constant is the fuel; the chain scan is the only other fuelled
  recursion. The reconnect loop, which may run for ever, is a finite run over the events it sees.

  \<^bold>\<open>Not modelled.\<close> The translation of topologies to the engine's configuration (\<open>compile.rs\<close>,
  \<open>outbound_adapter.rs\<close>) is a parameter of the adapter, and the loader of rule sets (\<open>rule_set.rs\<close>) is modelled only
  where the runtime rewrites references. The adapter sees the runtime through \<open>node_runtime_contract\<close>, where a
  runtime in recovery stands for the configuration it will restore. Traffic
  analysis, telemetry, remote logging, the remote shell, and the process entry point are listed in the
  manifest with the reason. The netlink socket, its message framing and the privileges check of
  the Linux backend are input and output: \<open>NetlinkConnection\<close> and the kernel behind it are one parameter \<open>nft_kernel\<close> that
  answers a listing and executes a batch. A mutation of the user table under its write lock is one step, so the
  lookups that run between its index updates are not distinguished. The session cancellation of a clone of the manager is a field
  that the command binding the session sets. A slot of the engine carries the payload of its last complete load, which
  the source does not store: it is what the view of a running inbound shows. In a reload that passed every check and then fails
  between two listener groups of one inbound the proxy core may have swapped some of them.
\<close>

section \<open>User refreshes\<close>

text \<open>C34 (a refresh installs the users it was given): when a refresh of a node's users succeeds, the
  node was loaded and now lists exactly the given users, every other node is unchanged, the user
  list the caller compared with was the loaded one, and the revision is the larger of the loaded
  and the requested one.\<close>

theorem refresh_installs_users:
  assumes "refresh_owned rt m request = (m', Inr changes)"
  shows "\<exists>i < length (mt_nodes (tm_topology m)).
    ni_node_id (mt_nodes (tm_topology m) ! i) = urr_node_id request \<and>
    set (ni_users (mt_nodes (tm_topology m') ! i)) = set (urr_users request) \<and>
    (\<forall>j. j \<noteq> i \<longrightarrow> mt_nodes (tm_topology m') ! j = mt_nodes (tm_topology m) ! j) \<and>
    mt_revision (tm_topology m') = max (target (urr_revision request)) (mt_revision (tm_topology m)) \<and>
    (\<forall>expected. urr_expected_current request = Some expected \<longrightarrow>
      set expected = set (ni_users (mt_nodes (tm_topology m) ! i)))"
proof -
  from assms obtain i ch where checks: "refresh_checks m request = Inr (i, ch)"
    by (auto simp: refresh_owned_def split: sum.splits)
  note pos = position_Some [OF refresh_checks_node(2) [OF checks]]
  obtain c d where idx: "indexes c (ni_users (mt_nodes (tm_topology m) ! i))"
    "indexes d (urr_users request)" "ch = count_changes c d"
    using compare_indexes [OF refresh_checks_node(3) [OF checks]] by blast
  have expected: "set expected = set (ni_users (mt_nodes (tm_topology m) ! i))"
    if "urr_expected_current request = Some expected" for expected
  proof -
    from checks that obtain ch' where
      "compare_node_users expected (ni_users (mt_nodes (tm_topology m) ! i)) = Inr ch'" "unchanged_users ch'"
      by (auto simp: refresh_checks_def result_simps Let_def split: if_splits)
    then show ?thesis using unchanged_iff by (metis compare_indexes)
  qed
  show ?thesis
  proof (cases "unchanged_users ch")
    case True
    then have "set (ni_users (mt_nodes (tm_topology m) ! i)) = set (urr_users request)"
      using unchanged_iff [OF idx(1,2)] idx(3) by simp
    moreover from True assms checks have "m' = m \<or> tm_topology m' =
        advance_revision (target (urr_revision request)) (tm_topology m)"
      "mt_revision (tm_topology m') = max (target (urr_revision request)) (mt_revision (tm_topology m))"
      by (auto simp: refresh_owned_def Let_def max_def not_less split: if_splits)
    ultimately show ?thesis using pos expected by (intro exI [of _ i]) auto
  next
    case False
    with assms checks obtain message where
      app: "tm_apply rt m (refresh_candidate m request i) = (m', Inr message)"
      by (auto simp: refresh_owned_def split: prod.splits sum.splits)
    from tm_apply_published [OF app] have
      "tm_topology m' = default_machine (tm_machine_id m) (refresh_candidate m request i)"
      by (simp add: published_def)
    then show ?thesis
      using pos expected mutated_revision(4) [of m request i]
      by (intro exI [of _ i]) (auto simp: refresh_candidate_def Let_def)
  qed
qed

definition ex_request :: UserRefreshRequest where
  "ex_request = \<lparr> urr_node_id = ''n'', urr_users = ni_users (mt_nodes (ex_user_topology ''new'') ! 0),
     urr_expected_current = None, urr_revision = AdvanceTo 5 \<rparr>"

lemma ex_refresh:
  "\<not> isl (snd (refresh_owned ex_rt ex_user_manager ex_request))"
  by (simp add: refresh_owned_def refresh_checks_def ex_request_def ex_user_manager_def
      ex_user_topology_def begin_operation_def manager_new_def compare_node_users_def
      index_node_users_def count_changes_def unchanged_users_def NodeInstance_default_def
      refresh_candidate_def advance_revision_def replace_node_users_def set_snapshot_revision_def
      Let_def tm_apply_def default_machine_def adapter_runtime_def adapter_apply_def build_plan_def
      plan_state_init_def listen_conflicts_def redirect_conflicts_def plan_node_def
      HYSTERIA2_SALAMANDER_ID_def ex_adapter_eval)

theorem refresh_installs_users_witness:
  "mt_revision (tm_topology (fst (refresh_owned ex_rt ex_user_manager ex_request))) = 5"
proof -
  obtain m' r where pair: "refresh_owned ex_rt ex_user_manager ex_request = (m', r)" by fastforce
  with ex_refresh obtain changes where
    run: "refresh_owned ex_rt ex_user_manager ex_request = (m', Inr changes)"
    by (cases r) simp_all
  have "mt_revision (tm_topology m') =
      max (target (urr_revision ex_request)) (mt_revision (tm_topology ex_user_manager))"
    using refresh_installs_users [OF run] by blast
  moreover have "target (urr_revision ex_request) = 5" "mt_revision (tm_topology ex_user_manager) = 0"
    by (simp_all add: ex_request_def ex_user_manager_def ex_user_topology_def MachineTopology_default_def)
  ultimately show ?thesis unfolding run by simp
qed

end
